(* ===== verification/BL_Prelude.thy ===== *)
theory BL_Prelude
  imports Complex_Main "HOL-Library.Char_ord" "HOL-Library.List_Lexorder"
    "HOL-Library.Product_Lexorder"
begin

text \<open>
  Shared ground of the development: the types every component uses, the pieces of Python and
  SQLite the sources rely on, and the generic lemmas about them.

  \<^item> Dollar amounts and other Python floats are exact reals (\<open>usd\<close>); binary rounding of IEEE
    doubles is not modelled. \<open>round(x, n)\<close> is round-half-to-even on the exact value.
  \<^item> Python strings are lists of code points below U+0100 (\<open>string\<close>); \<open>lower\<close> and
    \<open>strip\<close> follow Python's tables on that range.
  \<^item> A SQLite table is the list of its rows. The statements the code issues
    (INSERT OR REPLACE, INSERT OR IGNORE, UPDATE ... WHERE, SELECT ... fetchone) are functions on
    such lists; a primary key is a key function whose image is distinct (\<open>pk\<close>).
\<close>

named_theorems table_simps \<open>rewriting the row-table operations\<close>
named_theorems py_simps \<open>evaluation of the modelled Python builtins\<close>

type_synonym usd = real
type_synonym instant = int \<comment> \<open>microseconds since the epoch, UTC\<close>
type_synonym 'r table = "'r list"
type_synonym tags = "string \<rightharpoonup> string"

section \<open>Python builtins\<close>

subsection \<open>Rounding\<close>

definition round_half_even :: "real \<Rightarrow> int" where
  "round_half_even x =
     (let f = \<lfloor>x\<rfloor>; d = x - of_int f
      in if d < 1 / 2 then f else if d > 1 / 2 then f + 1 else if even f then f else f + 1)"

definition py_round :: "real \<Rightarrow> nat \<Rightarrow> real" where
  "py_round x n = of_int (round_half_even (x * 10 ^ n)) / 10 ^ n"

lemma round_half_even_error: "\<bar>of_int (round_half_even x) - x\<bar> \<le> 1 / 2"
proof -
  have "of_int \<lfloor>x\<rfloor> \<le> x" "x < of_int \<lfloor>x\<rfloor> + 1" by linarith+
  then show ?thesis by (auto simp: round_half_even_def Let_def abs_le_iff)
qed

lemma round_half_even_of_int [simp]: "round_half_even (of_int k) = k"
  by (simp add: round_half_even_def)

lemma round_half_even_range: "\<lfloor>x\<rfloor> \<le> round_half_even x \<and> round_half_even x \<le> \<lfloor>x\<rfloor> + 1"
  by (simp add: round_half_even_def Let_def)

lemma round_half_even_mono:
  assumes "x \<le> y"
  shows "round_half_even x \<le> round_half_even y"
proof (cases "\<lfloor>x\<rfloor> = \<lfloor>y\<rfloor>")
  case True
  with assms show ?thesis by (auto simp: round_half_even_def Let_def)
next
  case False
  with assms have "\<lfloor>x\<rfloor> + 1 \<le> \<lfloor>y\<rfloor>" using floor_mono[OF assms] by linarith
  then show ?thesis
    using round_half_even_range[of x] round_half_even_range[of y] by linarith
qed

lemma py_round_mono: "x \<le> y \<Longrightarrow> py_round x n \<le> py_round y n"
  unfolding py_round_def
  by (intro divide_right_mono) (auto intro: round_half_even_mono mult_right_mono)

lemma py_round_of_int: "py_round (of_int k) n = of_int k"
proof -
  have "(of_int k :: real) * 10 ^ n = of_int (k * 10 ^ n)" by simp
  then show ?thesis unfolding py_round_def by (simp only: round_half_even_of_int) simp
qed

lemma py_round_0 [simp]: "py_round 0 n = 0"
  using py_round_of_int[of 0 n] by simp

lemma py_round_numeral [simp]: "py_round (numeral k) n = numeral k"
  using py_round_of_int[of "numeral k" n] by simp

lemma py_round_1 [simp]: "py_round 1 n = 1"
  using py_round_of_int[of 1 n] by simp

lemma py_round_error: "\<bar>py_round x n - x\<bar> \<le> 1 / (2 * 10 ^ n)"
proof -
  let ?k = "of_int (round_half_even (x * 10 ^ n)) :: real"
  have "\<bar>?k - x * 10 ^ n\<bar> \<le> 1 / 2" by (rule round_half_even_error)
  moreover have "?k - x * 10 ^ n = (py_round x n - x) * 10 ^ n"
    by (simp add: py_round_def left_diff_distrib)
  ultimately have "\<bar>py_round x n - x\<bar> * 10 ^ n \<le> 1 / 2" by (simp add: abs_mult)
  then show ?thesis by (simp add: field_simps)
qed

lemma py_round_nonneg: "0 \<le> x \<Longrightarrow> 0 \<le> py_round x n"
  using py_round_mono[of 0 x n] by simp

subsection \<open>Strings\<close>

definition is_py_space :: "char \<Rightarrow> bool" where
  "is_py_space c = (let k = of_char c :: nat
     in (9 \<le> k \<and> k \<le> 13) \<or> (28 \<le> k \<and> k \<le> 32) \<or> k = 133 \<or> k = 160)"

definition lower_char :: "char \<Rightarrow> char" where
  "lower_char c = (let k = of_char c :: nat
     in if (65 \<le> k \<and> k \<le> 90) \<or> (192 \<le> k \<and> k \<le> 222 \<and> k \<noteq> 215) then char_of (k + 32) else c)"

definition lower :: "string \<Rightarrow> string" where
  "lower s = map lower_char s"

definition strip :: "string \<Rightarrow> string" where
  "strip s = rev (dropWhile is_py_space (rev (dropWhile is_py_space s)))"

fun startswith :: "string \<Rightarrow> string \<Rightarrow> bool" where
  "startswith s [] = True"
| "startswith [] (p # ps) = False"
| "startswith (c # s) (p # ps) = (c = p \<and> startswith s ps)"

fun contains :: "string \<Rightarrow> string \<Rightarrow> bool" where
  "contains [] p = (p = [])"
| "contains (c # s) p = (startswith (c # s) p \<or> contains s p)"

definition removeprefix :: "string \<Rightarrow> string \<Rightarrow> string" where
  "removeprefix s p = (if startswith s p then drop (length p) s else s)"

lemma startswith_iff: "startswith s p \<longleftrightarrow> (\<exists>r. s = p @ r)"
  by (induction s p rule: startswith.induct) auto

lemma startswith_length: "startswith s p \<Longrightarrow> length p \<le> length s"
  by (auto simp: startswith_iff)

lemma startswith_refl [simp]: "startswith s s"
  by (auto simp: startswith_iff)

lemma startswith_append [simp]: "startswith (p @ r) p"
  by (auto simp: startswith_iff)

lemma startswith_same_length:
  "startswith s p \<Longrightarrow> startswith s q \<Longrightarrow> length p = length q \<Longrightarrow> p = q"
  by (auto simp: startswith_iff)

lemma lower_char_idem [simp]: "lower_char (lower_char c) = lower_char c"
proof -
  have lt: "(of_char c :: nat) < 256" by (cases c) (simp add: of_char_def)
  show ?thesis
  proof (cases "(65 \<le> (of_char c :: nat) \<and> (of_char c :: nat) \<le> 90) \<or>
      (192 \<le> (of_char c :: nat) \<and> (of_char c :: nat) \<le> 222 \<and> (of_char c :: nat) \<noteq> 215)")
    case True
    then have "of_char (lower_char c) = (of_char c + 32 :: nat)"
      by (auto simp: lower_char_def Let_def)
    with True show ?thesis by (auto simp: lower_char_def Let_def)
  next
    case False
    then show ?thesis by (auto simp: lower_char_def Let_def)
  qed
qed

lemma lower_idem [simp]: "lower (lower s) = lower s"
  by (simp add: lower_def)

lemma lower_Nil [simp]: "lower [] = []" and strip_Nil [simp]: "strip [] = []"
  by (simp_all add: lower_def strip_def)

text \<open>Truthiness of an optional string (\<open>None\<close> and the empty string are false), \<open>a or b\<close>.\<close>

definition truthy :: "string option \<Rightarrow> bool" where
  "truthy s = (case s of None \<Rightarrow> False | Some x \<Rightarrow> x \<noteq> [])"

definition py_or :: "string option \<Rightarrow> string option \<Rightarrow> string option" where
  "py_or a b = (if truthy a then a else b)"

lemma truthy_simps [simp]: "\<not> truthy None" "truthy (Some x) \<longleftrightarrow> x \<noteq> []"
  by (simp_all add: truthy_def)

lemma truthyE: "truthy s \<Longrightarrow> (\<And>x. s = Some x \<Longrightarrow> x \<noteq> [] \<Longrightarrow> P) \<Longrightarrow> P"
  by (cases s) auto

subsection \<open>JSON values\<close>

datatype json =
    JNull | JBool bool | JInt int | JFloat real | JStr string
  | JArr "json list" | JObj "(string \<times> json) list"

fun json_truthy :: "json \<Rightarrow> bool" where
  "json_truthy JNull = False"
| "json_truthy (JBool b) = b"
| "json_truthy (JInt n) = (n \<noteq> 0)"
| "json_truthy (JFloat x) = (x \<noteq> 0)"
| "json_truthy (JStr s) = (s \<noteq> [])"
| "json_truthy (JArr xs) = (xs \<noteq> [])"
| "json_truthy (JObj kvs) = (kvs \<noteq> [])"

text \<open>
  \<open>d.get(k)\<close>, \<open>(d.get(k) or {}).get(k2)\<close> and the iteration over a value of a decoded payload, whose
  type nothing guarantees: \<open>None\<close> is the AttributeError or TypeError.
\<close>

fun jget :: "json \<Rightarrow> string \<Rightarrow> json option" where
  "jget (JObj kvs) k = Some (case map_of kvs k of None \<Rightarrow> JNull | Some v \<Rightarrow> v)"
| "jget _ k = None"

definition or_empty :: "json \<Rightarrow> json" where
  "or_empty j = (if json_truthy j then j else JObj [])"

definition jget2 :: "json \<Rightarrow> string \<Rightarrow> string \<Rightarrow> json option" where
  "jget2 j k1 k2 = Option.bind (jget j k1) (\<lambda>v. jget (or_empty v) k2)"

fun iterate_json :: "json \<Rightarrow> json list option" where
  "iterate_json (JArr xs) = Some xs"
| "iterate_json (JObj kvs) = Some (map (JStr \<circ> fst) kvs)"
| "iterate_json (JStr s) = Some (map (\<lambda>c. JStr [c]) s)"
| "iterate_json _ = None"

section \<open>Row tables\<close>

definition pk :: "('r \<Rightarrow> 'k) \<Rightarrow> 'r table \<Rightarrow> bool" where
  "pk key t \<longleftrightarrow> distinct (map key t)"

definition insert_or_replace :: "('r \<Rightarrow> 'k) \<Rightarrow> 'r \<Rightarrow> 'r table \<Rightarrow> 'r table" where
  "insert_or_replace key r t = filter (\<lambda>x. key x \<noteq> key r) t @ [r]"

definition insert_or_ignore :: "('r \<Rightarrow> 'k) \<Rightarrow> 'r \<Rightarrow> 'r table \<Rightarrow> 'r table" where
  "insert_or_ignore key r t = (if key r \<in> key ` set t then t else t @ [r])"

definition update_where :: "('r \<Rightarrow> bool) \<Rightarrow> ('r \<Rightarrow> 'r) \<Rightarrow> 'r table \<Rightarrow> 'r table" where
  "update_where p f t = map (\<lambda>r. if p r then f r else r) t"

definition lookup_key :: "('r \<Rightarrow> 'k) \<Rightarrow> 'k \<Rightarrow> 'r table \<Rightarrow> 'r option" where
  "lookup_key key k t = find (\<lambda>r. key r = k) t"

lemma find_append: "find P (xs @ ys) = (case find P xs of None \<Rightarrow> find P ys | Some x \<Rightarrow> Some x)"
  by (induction xs) auto

lemma find_None_setD: "find P xs = None \<Longrightarrow> x \<in> set xs \<Longrightarrow> \<not> P x"
  by (simp add: find_None_iff)

lemma find_Some_setD: "find P xs = Some x \<Longrightarrow> x \<in> set xs \<and> P x"
  by (induction xs) (auto split: if_splits)

lemma find_filter_disjoint:
  "(\<And>x. P x \<Longrightarrow> Q x) \<Longrightarrow> find P (filter Q xs) = find P xs"
  by (induction xs) auto

lemma lookup_insert_or_replace [table_simps]:
  "lookup_key key k (insert_or_replace key r t) = (if k = key r then Some r else lookup_key key k t)"
proof (cases "k = key r")
  case True
  then have "find (\<lambda>x. key x = k) (filter (\<lambda>x. key x \<noteq> key r) t) = None"
    by (simp add: find_None_iff)
  with True show ?thesis
    by (simp add: lookup_key_def insert_or_replace_def find_append)
next
  case False
  then have "find (\<lambda>x. key x = k) (filter (\<lambda>x. key x \<noteq> key r) t) = find (\<lambda>x. key x = k) t"
    by (intro find_filter_disjoint) auto
  with False show ?thesis
    by (simp add: lookup_key_def insert_or_replace_def find_append split: option.split)
qed

lemma lookup_key_None_iff: "lookup_key key k t = None \<longleftrightarrow> k \<notin> key ` set t"
  by (auto simp: lookup_key_def find_None_iff)

lemma lookup_key_SomeD: "lookup_key key k t = Some r \<Longrightarrow> r \<in> set t \<and> key r = k"
  by (auto simp: lookup_key_def dest: find_Some_setD)

lemma lookup_insert_or_ignore [table_simps]:
  "lookup_key key k (insert_or_ignore key r t) =
     (if k = key r \<and> lookup_key key k t = None then Some r else lookup_key key k t)"
proof (cases "key r \<in> key ` set t")
  case True
  then show ?thesis using lookup_key_None_iff[of key k t] by (auto simp: insert_or_ignore_def)
next
  case False
  then have "lookup_key key (key r) t = None" by (simp add: lookup_key_None_iff)
  with False show ?thesis
    by (auto simp: insert_or_ignore_def lookup_key_def find_append split: option.split)
qed

lemma lookup_update_where [table_simps]:
  "(\<And>r. p r \<Longrightarrow> key (f r) = key r) \<Longrightarrow>
   lookup_key key k (update_where p f t) =
     map_option (\<lambda>r. if p r then f r else r) (lookup_key key k t)"
  by (induction t) (auto simp: lookup_key_def update_where_def)

lemma pk_insert_or_replace: "pk key t \<Longrightarrow> pk key (insert_or_replace key r t)"
  by (auto simp: pk_def insert_or_replace_def distinct_map inj_on_def)

lemma pk_insert_or_ignore: "pk key t \<Longrightarrow> pk key (insert_or_ignore key r t)"
  by (auto simp: pk_def insert_or_ignore_def)

lemma map_key_update_where:
  "(\<And>r. p r \<Longrightarrow> key (f r) = key r) \<Longrightarrow> map key (update_where p f t) = map key t"
  by (induction t) (auto simp: update_where_def)

lemma pk_update_where:
  "(\<And>r. p r \<Longrightarrow> key (f r) = key r) \<Longrightarrow> pk key t \<Longrightarrow> pk key (update_where p f t)"
  by (simp add: pk_def map_key_update_where)

lemma pk_Nil [simp]: "pk key []"
  by (simp add: pk_def)

lemma pk_lookup: "pk key t \<Longrightarrow> r \<in> set t \<Longrightarrow> lookup_key key (key r) t = Some r"
proof (induction t)
  case (Cons a t)
  then show ?case by (auto simp: lookup_key_def pk_def)
qed simp

lemmas pk_intros = pk_insert_or_replace pk_insert_or_ignore pk_update_where pk_Nil

subsection \<open>The contract of a keyed store\<close>

text \<open>
  What the components assume of the tables they read and write: a lookup after an upsert sees the
  new row, other keys are framed, and the primary key is kept.
\<close>

locale keyed_store =
  fixes key :: "'r \<Rightarrow> 'k"
    and get :: "'k \<Rightarrow> 's \<Rightarrow> 'r option"
    and put :: "'r \<Rightarrow> 's \<Rightarrow> 's"
    and invar :: "'s \<Rightarrow> bool"
  assumes get_put: "get k (put r s) = (if k = key r then Some r else get k s)"
    and get_key: "get k s = Some r \<Longrightarrow> key r = k"
    and invar_put: "invar s \<Longrightarrow> invar (put r s)"
begin

lemma put_idem_get: "get k (put r (put r s)) = get k (put r s)"
  by (simp add: get_put)

lemma put_last_wins: "key r = key r' \<Longrightarrow> get k (put r' (put r s)) = get k (put r' s)"
  by (simp add: get_put)

lemma put_commute_get: "key r \<noteq> key r' \<Longrightarrow> get k (put r (put r' s)) = get k (put r' (put r s))"
  by (simp add: get_put)

lemma puts_frame: "\<forall>r \<in> set rs. key r \<noteq> k \<Longrightarrow> get k (fold put rs s) = get k s"
  by (induction rs arbitrary: s) (auto simp: get_put)

lemma puts_invar: "invar s \<Longrightarrow> invar (fold put rs s)"
  by (induction rs arbitrary: s) (auto simp: invar_put)

end

interpretation row_table: keyed_store key "lookup_key key" "insert_or_replace key" "pk key"
  for key :: "'r \<Rightarrow> 'k"
  by unfold_locales (auto simp: table_simps pk_insert_or_replace dest: lookup_key_SomeD)

lemma count_list_distinct: "distinct xs \<Longrightarrow> count_list xs x = (if x \<in> set xs then 1 else 0)"
  by (induction xs) auto

section \<open>Step systems with absorbing states\<close>

text \<open>
  Several components promise that a state, once entered, is never left: a stopped task, a consumed
  approval token, a revoked key. The contract is about one step; the client lemma lifts it to runs.
\<close>

fun run_steps :: "('e \<Rightarrow> 's \<Rightarrow> 's) \<Rightarrow> 'e list \<Rightarrow> 's \<Rightarrow> 's" where
  "run_steps step [] s = s"
| "run_steps step (e # es) s = run_steps step es (step e s)"

lemma run_steps_append: "run_steps step (es @ fs) s = run_steps step fs (run_steps step es s)"
  by (induction es arbitrary: s) auto

locale absorbing_system =
  fixes step :: "'e \<Rightarrow> 's \<Rightarrow> 's" and ok :: "'e \<Rightarrow> bool"
    and inv :: "'s \<Rightarrow> bool" and absorbed :: "'s \<Rightarrow> bool"
  assumes step_inv: "inv s \<Longrightarrow> ok e \<Longrightarrow> inv (step e s)"
    and step_absorbed: "inv s \<Longrightarrow> ok e \<Longrightarrow> absorbed s \<Longrightarrow> absorbed (step e s)"
begin

lemma run_inv: "inv s \<Longrightarrow> \<forall>e \<in> set es. ok e \<Longrightarrow> inv (run_steps step es s)"
  by (induction es arbitrary: s) (auto intro: step_inv)

lemma run_absorbed:
  "inv s \<Longrightarrow> absorbed s \<Longrightarrow> \<forall>e \<in> set es. ok e \<Longrightarrow> absorbed (run_steps step es s)"
  by (induction es arbitrary: s) (auto intro: step_inv step_absorbed)

lemma absorbed_prefix:
  "inv s \<Longrightarrow> \<forall>e \<in> set (es @ fs). ok e \<Longrightarrow> absorbed (run_steps step es s) \<Longrightarrow>
   absorbed (run_steps step (es @ fs) s)"
  by (simp add: run_steps_append run_absorbed run_inv)

end

section \<open>Sums over rows\<close>

definition sum_where :: "('r \<Rightarrow> bool) \<Rightarrow> ('r \<Rightarrow> real) \<Rightarrow> 'r table \<Rightarrow> real" where
  "sum_where p f t = sum_list (map f (filter p t))"

lemma sum_where_nonneg: "(\<And>r. r \<in> set t \<Longrightarrow> 0 \<le> f r) \<Longrightarrow> 0 \<le> sum_where p f t"
  by (auto simp: sum_where_def intro!: sum_list_nonneg)

lemma sum_where_append [simp]: "sum_where p f (t @ u) = sum_where p f t + sum_where p f u"
  by (simp add: sum_where_def)

lemma sum_where_Nil [simp]: "sum_where p f [] = 0"
  by (simp add: sum_where_def)

lemma sum_where_Cons [simp]:
  "sum_where p f (r # t) = (if p r then f r + sum_where p f t else sum_where p f t)"
  by (simp add: sum_where_def)

end
