(* ===== verification/Headers.thy ===== *)
theory Headers
  imports BL_Prelude
begin

text \<open>
  The header handling of \<open>burnlens/proxy/interceptor.py\<close>: attribution tags, the removal of
  BurnLens and hop-by-hop headers, the authentication token and its replacement, trace identifiers
  and the canonical metadata of a request. A header dictionary is the list of its items in order.
\<close>

type_synonym headers = "(string \<times> string) list"
type_synonym environ = "string \<rightharpoonup> string"

section \<open>Strings\<close>

definition upper_char :: "char \<Rightarrow> char" where
  "upper_char c = (let k = of_char c :: nat in if 97 \<le> k \<and> k \<le> 122 then char_of (k - 32) else c)"

definition upper_ascii :: "string \<Rightarrow> string" where
  "upper_ascii s = map upper_char s"

definition replace_char :: "char \<Rightarrow> char \<Rightarrow> string \<Rightarrow> string" where
  "replace_char a b s = map (\<lambda>c. if c = a then b else c) s"

fun split_on :: "char \<Rightarrow> string \<Rightarrow> string list" where
  "split_on d [] = [[]]"
| "split_on d (c # s) =
     (if c = d then [] # split_on d s
      else case split_on d s of [] \<Rightarrow> [[c]] | p # ps \<Rightarrow> (c # p) # ps)"

text \<open>\<open>{k.lower(): v for k, v in headers.items()}\<close>: of two keys that differ in case the later wins.\<close>

definition lower_headers :: "headers \<Rightarrow> (string \<rightharpoonup> string)" where
  "lower_headers hs = map_of (rev (map (\<lambda>(k, v). (lower k, v)) hs))"

section \<open>Tags\<close>

definition ALLOWED_TAGS :: "string list" where
  "ALLOWED_TAGS = [''team'', ''feature'', ''app_id'', ''env'', ''repo'', ''branch'', ''commit_sha'',
     ''workspace_id'', ''org_id'', ''trace_id'', ''customer'', ''key_label'', ''service'',
     ''dev'', ''pr'', ''agent_id'', ''workflow_id'', ''session'',
     ''workflow_run_id'', ''run_id'', ''task_id'', ''action_id'', ''parent_run_id'', ''root_run_id'']"

definition TAG_PREFIX :: string where
  "TAG_PREFIX = ''x-burnlens-tag-''"

definition tag_value :: "string \<Rightarrow> string" where
  "tag_value v = take 100 (strip v)"

definition header_tag :: "string \<times> string \<Rightarrow> (string \<times> string) option" where
  "header_tag kv =
     (let k = lower (fst kv); n = replace_char (CHR ''-'') (CHR ''_'') (drop (length TAG_PREFIX) k)
      in if startswith k TAG_PREFIX \<and> n \<in> set ALLOWED_TAGS then Some (n, tag_value (snd kv)) else None)"

definition header_tags :: "headers \<Rightarrow> tags" where
  "header_tags hs = map_of (rev (List.map_filter header_tag hs))"

definition env_tag :: "environ \<Rightarrow> string \<Rightarrow> string option" where
  "env_tag env t = (case env (''BURNLENS_TAG_'' @ upper_ascii t) of
     Some v \<Rightarrow> if v = [] then None else Some (tag_value v) | None \<Rightarrow> None)"

definition extract_tags :: "environ \<Rightarrow> headers \<Rightarrow> tags" where
  "extract_tags env hs =
     (\<lambda>t. case header_tags hs t of
        Some v \<Rightarrow> Some v
      | None \<Rightarrow> if t \<in> set ALLOWED_TAGS then env_tag env t else None)"

section \<open>Headers that are not forwarded\<close>

definition BURNLENS_HEADER_PREFIX :: string where
  "BURNLENS_HEADER_PREFIX = ''x-burnlens-''"

definition STRIP_REQUEST_HEADERS :: "string list" where
  "STRIP_REQUEST_HEADERS = [''host'', ''content-length'', ''transfer-encoding'', ''connection'', ''keep-alive'',
     ''te'', ''trailers'', ''upgrade'', ''accept-encoding'']"

definition STRIP_RESPONSE_HEADERS :: "string list" where
  "STRIP_RESPONSE_HEADERS = STRIP_REQUEST_HEADERS @ [''content-encoding'']"

definition clean_request_headers :: "string list \<Rightarrow> headers \<Rightarrow> headers" where
  "clean_request_headers extra hs =
     filter (\<lambda>(k, v). lower k \<notin> set STRIP_REQUEST_HEADERS \<and> lower k \<notin> lower ` set extra
       \<and> \<not> startswith (lower k) BURNLENS_HEADER_PREFIX) hs"

definition clean_response_headers :: "headers \<Rightarrow> headers" where
  "clean_response_headers hs = filter (\<lambda>(k, v). lower k \<notin> set STRIP_RESPONSE_HEADERS) hs"

section \<open>Authentication\<close>

definition bearer_token :: "string \<Rightarrow> string" where
  "bearer_token auth = strip (removeprefix (removeprefix auth ''Bearer '') ''bearer '')"

definition api_key_header :: "(string \<rightharpoonup> string) \<Rightarrow> string \<Rightarrow> (string \<times> string) option" where
  "api_key_header lh h =
     (case lh h of Some v \<Rightarrow> if strip v = [] then None else Some (strip v, h) | None \<Rightarrow> None)"

definition extract_auth_token :: "headers \<Rightarrow> (string \<times> string) option" where
  "extract_auth_token hs =
     (let lh = lower_headers hs;
          rest = (case api_key_header lh ''x-api-key'' of
                    Some r \<Rightarrow> Some r | None \<Rightarrow> api_key_header lh ''x-goog-api-key'')
      in case lh ''authorization'' of
           None \<Rightarrow> rest
         | Some auth \<Rightarrow>
             (if auth = [] \<or> bearer_token auth = [] then rest
              else Some (bearer_token auth, ''authorization'')))"

definition extract_api_key_hash :: "(string \<Rightarrow> string) \<Rightarrow> headers \<Rightarrow> string option" where
  "extract_api_key_hash sha256 hs =
     (let lh = lower_headers hs;
          keyed = (\<lambda>h. case lh h of Some v \<Rightarrow> if v = [] \<or> strip v = [] then None else Some (sha256 (strip v))
                                  | None \<Rightarrow> None);
          rest = (case keyed ''x-api-key'' of Some r \<Rightarrow> Some r | None \<Rightarrow> keyed ''x-goog-api-key'')
      in case lh ''authorization'' of
           None \<Rightarrow> rest
         | Some auth \<Rightarrow>
             (let token = bearer_token auth
              in if auth = [] \<or> token = [] then rest else Some (sha256 token)))"

text \<open>The swap of a virtual key for the operator's key: every case variant of the header is dropped
  and the real key is added under the lower-case name.\<close>

definition swap_auth :: "string \<times> string \<Rightarrow> headers \<Rightarrow> headers" where
  "swap_auth sw hs =
     filter (\<lambda>(k, v). lower k \<noteq> fst sw) hs
       @ [(fst sw, if fst sw = ''authorization'' then ''Bearer '' @ snd sw else snd sw)]"

section \<open>Trace identifiers\<close>

definition extract_trace_id :: "headers \<Rightarrow> tags \<Rightarrow> string option" where
  "extract_trace_id hs tg =
     (let lh = lower_headers hs;
          from_keys = fold (\<lambda>k acc. if truthy acc then acc
              else if truthy (lh k) then lh k
              else if truthy (tg (replace_char (CHR ''-'') (CHR ''_'') k))
                then tg (replace_char (CHR ''-'') (CHR ''_'') k) else None)
            [''x-trace-id'', ''x-correlation-id'', ''trace_id'', ''trace-id''] None
      in case lh ''traceparent'' of
           None \<Rightarrow> from_keys
         | Some tp \<Rightarrow>
             (let parts = split_on (CHR ''-'') tp
              in if tp \<noteq> [] \<and> 2 \<le> length parts \<and> length (parts ! 1) = 32 then Some (parts ! 1) else from_keys))"

definition is_hex_lower :: "char \<Rightarrow> bool" where
  "is_hex_lower c \<longleftrightarrow> c \<in> set ''0123456789abcdef''"

definition extract_parent_span_id :: "headers \<Rightarrow> string option" where
  "extract_parent_span_id hs =
     (case lower_headers hs ''traceparent'' of
        None \<Rightarrow> None
      | Some tp \<Rightarrow>
          if tp = [] then None
          else let parts = split_on (CHR ''-'') tp
               in if length parts < 3 \<or> length (parts ! 2) \<noteq> 16 then None
                  else let span = lower (parts ! 2)
                       in if span = replicate 16 (CHR ''0'') \<or> \<not> list_all is_hex_lower span then None
                          else Some span)"

section \<open>Canonical metadata\<close>

record metadata =
  md_trace_id :: "string option"
  md_parent_span_id :: "string option"
  md_workspace_id :: "string option"
  md_org_id :: "string option"
  md_team :: "string option"
  md_feature :: "string option"
  md_customer_hash :: "string option"
  md_app_id :: "string option"
  md_env :: "string option"
  md_repo :: "string option"
  md_branch :: "string option"
  md_commit_sha :: "string option"
  md_agent :: "string \<Rightarrow> string option" \<comment> \<open>the agent-economics columns, by column name\<close>

definition agent_column :: "environ \<Rightarrow> (string \<rightharpoonup> string) \<Rightarrow> tags \<Rightarrow> string \<Rightarrow> string option" where
  "agent_column env lh tg col =
     py_or (tg col) (py_or (lh (''x-burnlens-tag-'' @ replace_char (CHR ''_'') (CHR ''-'') col))
       (env (''BURNLENS_TAG_'' @ upper_ascii col)))"

definition AGENT_COLUMNS :: "string list" where
  "AGENT_COLUMNS = [''agent_id'', ''workflow_id'', ''run_id'', ''task_id'', ''action_id'', ''parent_run_id'']"

definition REQUEST_RELATION_FIELDS :: "string list" where
  "REQUEST_RELATION_FIELDS = [''parent_event_id'', ''retry_of_event_id'', ''fallback_of_event_id'']"

definition resolve_canonical_metadata ::
    "(string \<Rightarrow> string) \<Rightarrow> environ \<Rightarrow> (string \<rightharpoonup> string) \<Rightarrow> headers \<Rightarrow> tags \<Rightarrow> metadata" where
  "resolve_canonical_metadata sha256 env git hs tg =
     (let lh = lower_headers hs;
          customer = py_or (tg ''customer'') (env ''BURNLENS_TAG_CUSTOMER'')
      in \<lparr>md_trace_id = extract_trace_id hs tg,
          md_parent_span_id = extract_parent_span_id hs,
          md_workspace_id = py_or (lh ''x-burnlens-workspace-id'') (py_or (tg ''workspace_id'')
            (py_or (env ''BURNLENS_WORKSPACE_ID'') (env ''BURNLENS_TAG_WORKSPACE''))),
          md_org_id = py_or (lh ''x-burnlens-org-id'') (py_or (tg ''org_id'')
            (py_or (env ''BURNLENS_ORG_ID'') (env ''BURNLENS_TAG_ORG_ID''))),
          md_team = py_or (tg ''team'') (env ''BURNLENS_TAG_TEAM''),
          md_feature = py_or (tg ''feature'') (env ''BURNLENS_TAG_FEATURE''),
          md_customer_hash = (if truthy customer then Some (sha256 (the customer)) else None),
          md_app_id = py_or (lh ''x-burnlens-app-id'') (py_or (tg ''app_id'')
            (py_or (env ''BURNLENS_APP_ID'') (env ''BURNLENS_TAG_APP_ID''))),
          md_env = py_or (lh ''x-burnlens-env'') (py_or (tg ''env'')
            (py_or (env ''BURNLENS_ENV'') (env ''BURNLENS_TAG_ENV''))),
          md_repo = py_or (tg ''repo'') (py_or (env ''BURNLENS_TAG_REPO'') (git ''repo'')),
          md_branch = py_or (tg ''branch'') (py_or (env ''BURNLENS_TAG_BRANCH'') (git ''branch'')),
          md_commit_sha = py_or (tg ''commit_sha'') (py_or (env ''BURNLENS_COMMIT_SHA'')
            (py_or (env ''BURNLENS_TAG_COMMIT_SHA'') (git ''commit_sha''))),
          md_agent = (\<lambda>col. if col \<in> set AGENT_COLUMNS then agent_column env lh tg col
             else if col \<in> set REQUEST_RELATION_FIELDS
               then lh (''x-burnlens-'' @ replace_char (CHR ''_'') (CHR ''-'') col) else None)\<rparr>)"

section \<open>Lemmas\<close>

lemma map_of_rev_map_filter:
  "map_of (rev (List.map_filter f xs)) k = Some v \<Longrightarrow> \<exists>x \<in> set xs. f x = Some (k, v)"
  by (force simp: List.map_filter_def dest!: map_of_SomeD)

lemma header_tags_sound: "header_tags hs t = Some v \<Longrightarrow> t \<in> set ALLOWED_TAGS \<and> length v \<le> 100"
  by (auto simp: header_tags_def header_tag_def tag_value_def Let_def split: if_splits
      dest!: map_of_rev_map_filter)

lemma env_tag_length: "env_tag env t = Some v \<Longrightarrow> length v \<le> 100"
  by (auto simp: env_tag_def tag_value_def split: option.splits if_splits)

lemma AUTH_HEADERS_lower [simp]:
  "lower ''authorization'' = ''authorization''" "lower ''x-api-key'' = ''x-api-key''"
  "lower ''x-goog-api-key'' = ''x-goog-api-key''"
  by (simp_all add: lower_def lower_char_def Let_def of_char_def)

lemma extract_auth_token_cases:
  "extract_auth_token hs = Some (tok, h) \<Longrightarrow>
     tok \<noteq> [] \<and> h \<in> {''authorization'', ''x-api-key'', ''x-goog-api-key''}"
  by (auto simp: extract_auth_token_def api_key_header_def Let_def split: option.splits if_splits)

lemma auth_header_lower:
  assumes "extract_auth_token hs = Some (tok, h)"
  shows "lower h = h"
  using extract_auth_token_cases[OF assms] by auto

lemma auth_header_kept:
  assumes "h \<in> {''authorization'', ''x-api-key'', ''x-goog-api-key''}"
  shows "h \<notin> set STRIP_REQUEST_HEADERS \<and> \<not> startswith h BURNLENS_HEADER_PREFIX"
  using assms by (auto simp: STRIP_REQUEST_HEADERS_def BURNLENS_HEADER_PREFIX_def)

lemma hash_of_token:
  "extract_api_key_hash sha hs = map_option (\<lambda>(tok, _). sha tok) (extract_auth_token hs)"
  by (auto simp: extract_api_key_hash_def extract_auth_token_def api_key_header_def Let_def
      split: option.splits)

lemma clean_request_headersD:
  "(k, v) \<in> set (clean_request_headers extra hs) \<Longrightarrow>
     (k, v) \<in> set hs \<and> lower k \<notin> set STRIP_REQUEST_HEADERS \<and> \<not> startswith (lower k) BURNLENS_HEADER_PREFIX"
  by (auto simp: clean_request_headers_def)

lemma swap_auth_unique:
  assumes "lower h = h"
  shows "filter (\<lambda>(k, v). lower k = h) (swap_auth (h, key) hs) =
    [(h, if h = ''authorization'' then ''Bearer '' @ key else key)]"
  using assms by (auto simp: swap_auth_def filter_empty_conv)

lemma swap_authD:
  "(k, v) \<in> set (swap_auth (h, key) hs) \<Longrightarrow>
     (k, v) \<in> set hs \<and> lower k \<noteq> h \<or> k = h \<and> v = (if h = ''authorization'' then ''Bearer '' @ key else key)"
  by (auto simp: swap_auth_def split: if_splits)

lemma lower_append [simp]: "lower (a @ b) = lower a @ lower b"
  by (simp add: lower_def)

lemma lower_TAG_PREFIX [simp]: "lower TAG_PREFIX = TAG_PREFIX"
  by (simp add: TAG_PREFIX_def lower_def lower_char_def Let_def of_char_def)

lemma tag_spelling:
  "replace_char (CHR ''-'') (CHR ''_'') (lower (replace_char (CHR ''_'') (CHR ''-'') n)) =
   replace_char (CHR ''-'') (CHR ''_'') (lower n)"
proof -
  have "lower_char (CHR ''-'') = CHR ''-''" "lower_char (CHR ''_'') = CHR ''_''"
    by (simp_all add: lower_char_def Let_def of_char_def)
  then show ?thesis by (auto simp: replace_char_def lower_def)
qed

text \<open>Tags cannot be injected: whatever headers a client sends and whatever the environment holds,
  a request carries only tags of the allowlist, with values of at most 100 characters, and a tag sent
  in a header takes precedence over the environment. Hyphen and underscore spellings of a tag header
  are the same tag.\<close>

theorem extract_tags_confined:
  "(extract_tags env hs t = Some v \<longrightarrow> t \<in> set ALLOWED_TAGS \<and> length v \<le> 100)
   \<and> (header_tags hs t = Some w \<longrightarrow> extract_tags env hs t = Some w)
   \<and> extract_tags env (hs @ [(TAG_PREFIX @ replace_char (CHR ''_'') (CHR ''-'') n, x)]) t =
     extract_tags env (hs @ [(TAG_PREFIX @ n, x)]) t"
proof -
  have "header_tag (TAG_PREFIX @ replace_char (CHR ''_'') (CHR ''-'') n, x) = header_tag (TAG_PREFIX @ n, x)"
    by (simp add: header_tag_def Let_def tag_spelling)
  then have "header_tags (hs @ [(TAG_PREFIX @ replace_char (CHR ''_'') (CHR ''-'') n, x)]) =
      header_tags (hs @ [(TAG_PREFIX @ n, x)])"
    by (simp add: header_tags_def List.map_filter_def)
  then show ?thesis
    by (auto simp: extract_tags_def split: option.splits if_splits dest: header_tags_sound env_tag_length)
qed

theorem extract_tags_confined_witness:
  "extract_tags Map.empty [(''X-BurnLens-Tag-Agent-Id'', '' ci '')] ''agent_id'' = Some ''ci''
   \<and> length ''ci'' \<le> 100
   \<and> extract_tags Map.empty [(TAG_PREFIX @ ''agent-id'', ''ci'')] ''agent_id'' =
     extract_tags Map.empty [(TAG_PREFIX @ ''agent_id'', ''ci'')] ''agent_id''"
proof -
  have h: "header_tags [(''X-BurnLens-Tag-Agent-Id'', '' ci '')] ''agent_id'' = Some ''ci''"
    by code_simp
  have "replace_char (CHR ''_'') (CHR ''-'') ''agent_id'' = ''agent-id''" by code_simp
  with h show ?thesis
    using extract_tags_confined[of Map.empty "[(''X-BurnLens-Tag-Agent-Id'', '' ci '')]" "''agent_id''" "''ci''" "''ci''"]
      extract_tags_confined[of Map.empty "[]" "''agent_id''" "''ci''" "''ci''" "''agent_id''" "''ci''"]
    by simp
qed

text \<open>A parent span identifier that is recorded is a valid one: sixteen lower-case hexadecimal
  digits, not all zero.\<close>

theorem parent_span_valid:
  assumes "extract_parent_span_id hs = Some s"
  shows "length s = 16 \<and> list_all is_hex_lower s \<and> s \<noteq> replicate 16 (CHR ''0'')"
  using assms by (auto simp: extract_parent_span_id_def Let_def lower_def split: option.splits if_splits)

end
