(* ===== verification/Calendar.thy ===== *)
theory Calendar
  imports BL_Prelude
begin

text \<open>
  The part of Python's \<open>datetime\<close> the budget windows use: the fields of an aware UTC datetime,
  the proleptic Gregorian ordinal, \<open>weekday\<close>, and going back a number of days
  (\<open>now - timedelta(days=k)\<close>). Days are compared by ordinal and time of day.
\<close>

record datetime =
  year :: int
  month :: int
  day :: int
  tod :: int \<comment> \<open>microseconds since midnight\<close>

definition is_leap :: "int \<Rightarrow> bool" where
  "is_leap y \<longleftrightarrow> y mod 4 = 0 \<and> (y mod 100 \<noteq> 0 \<or> y mod 400 = 0)"

definition days_in_month :: "int \<Rightarrow> int \<Rightarrow> int" where
  "days_in_month y m =
     (if m = 2 then (if is_leap y then 29 else 28)
      else if m = 4 \<or> m = 6 \<or> m = 9 \<or> m = 11 then 30 else 31)"

definition days_before_year :: "int \<Rightarrow> int" where
  "days_before_year y = (let p = y - 1 in p * 365 + p div 4 - p div 100 + p div 400)"

definition days_before_month :: "int \<Rightarrow> int \<Rightarrow> int" where
  "days_before_month y m =
     (if m = 1 then 0 else if m = 2 then 31
      else (if m = 3 then 59 else if m = 4 then 90 else if m = 5 then 120 else if m = 6 then 151
            else if m = 7 then 181 else if m = 8 then 212 else if m = 9 then 243
            else if m = 10 then 273 else if m = 11 then 304 else 334)
           + (if is_leap y then 1 else 0))"

definition toordinal :: "datetime \<Rightarrow> int" where
  "toordinal d = days_before_year (year d) + days_before_month (year d) (month d) + day d"

definition weekday :: "datetime \<Rightarrow> int" where
  "weekday d = (toordinal d + 6) mod 7"

definition valid_date :: "datetime \<Rightarrow> bool" where
  "valid_date d \<longleftrightarrow> 1 \<le> month d \<and> month d \<le> 12 \<and> 1 \<le> day d
     \<and> day d \<le> days_in_month (year d) (month d) \<and> 0 \<le> tod d \<and> tod d < 86400000000"

definition prev_day :: "datetime \<Rightarrow> datetime" where
  "prev_day d =
     (if 1 < day d then d\<lparr>day := day d - 1\<rparr>
      else if 1 < month d
        then d\<lparr>month := month d - 1, day := days_in_month (year d) (month d - 1)\<rparr>
        else d\<lparr>year := year d - 1, month := 12, day := 31\<rparr>)"

definition minus_days :: "datetime \<Rightarrow> nat \<Rightarrow> datetime" where
  "minus_days d k = (prev_day ^^ k) d"

definition midnight :: "datetime \<Rightarrow> datetime" where
  "midnight d = d\<lparr>tod := 0\<rparr>"

definition before_eq :: "datetime \<Rightarrow> datetime \<Rightarrow> bool" where
  "before_eq a b \<longleftrightarrow> toordinal a < toordinal b \<or> (toordinal a = toordinal b \<and> tod a \<le> tod b)"

lemma month_cases:
  "1 \<le> m \<Longrightarrow> m \<le> 12 \<Longrightarrow> (m :: int) = 1 \<or> m = 2 \<or> m = 3 \<or> m = 4 \<or> m = 5 \<or> m = 6 \<or> m = 7 \<or> m = 8
     \<or> m = 9 \<or> m = 10 \<or> m = 11 \<or> m = 12"
  by presburger

lemma days_before_month_step:
  "1 < m \<Longrightarrow> m \<le> 12 \<Longrightarrow>
   days_before_month y m = days_before_month y (m - 1) + days_in_month y (m - 1)"
  using month_cases[of m] by (auto simp: days_before_month_def days_in_month_def)

lemma div_step:
  assumes "0 < (k :: int)"
  shows "p div k = (p - 1) div k + (if p mod k = 0 then 1 else 0)"
proof (cases "p mod k = 0")
  case True
  then have "p - 1 = k * (p div k - 1) + (k - 1)"
    using mult_div_mod_eq[of k p] by (simp add: algebra_simps)
  with assms have "(p - 1) div k = p div k - 1"
    by (intro int_div_pos_eq[of "p - 1" k "p div k - 1" "k - 1"]) auto
  with True show ?thesis by simp
next
  case False
  have "p - 1 = k * (p div k) + (p mod k - 1)"
    using mult_div_mod_eq[of k p] by (simp add: algebra_simps)
  moreover have "0 < p mod k" "p mod k < k"
    using False assms pos_mod_sign[of k p] pos_mod_bound[of k p] by linarith+
  ultimately have "(p - 1) div k = p div k"
    by (intro int_div_pos_eq[of "p - 1" k "p div k" "p mod k - 1"]) auto
  with False show ?thesis by simp
qed

lemma leap_arith:
  "a = a' + (if A then 1 else 0) \<Longrightarrow> b = b' + (if B then 1 else 0) \<Longrightarrow>
   c = c' + (if C then 1 else 0) \<Longrightarrow> (C \<Longrightarrow> B) \<Longrightarrow> (B \<Longrightarrow> A) \<Longrightarrow>
   p * 365 + a - b + c = (p - 1) * 365 + a' - b' + c' + (if A \<and> (\<not> B \<or> C) then 366 else (365 :: int))"
  by (cases A; cases B; cases C) simp_all

lemma leap_year_length:
  "days_before_year y = days_before_year (y - 1) + (if is_leap (y - 1) then 366 else 365)"
proof -
  let ?p = "y - 1"
  have "(100 :: int) dvd 400" "(4 :: int) dvd 100" by simp_all
  then have "?p mod 400 = 0 \<Longrightarrow> ?p mod 100 = 0" "?p mod 100 = 0 \<Longrightarrow> ?p mod 4 = 0"
    unfolding mod_eq_0_iff_dvd by (blast intro: dvd_trans)+
  then show ?thesis
    unfolding days_before_year_def Let_def is_leap_def
    by (intro leap_arith div_step) simp_all
qed

lemma toordinal_prev_day: "valid_date d \<Longrightarrow> toordinal (prev_day d) = toordinal d - 1"
proof -
  assume v: "valid_date d"
  show ?thesis
  proof (cases "1 < day d")
    case True
    then show ?thesis by (simp add: prev_day_def toordinal_def)
  next
    case False
    with v have d1: "day d = 1" by (simp add: valid_date_def)
    show ?thesis
    proof (cases "1 < month d")
      case True
      with d1 v show ?thesis
        using days_before_month_step[of "month d" "year d"]
        by (simp add: prev_day_def toordinal_def valid_date_def)
    next
      case False
      with v have "month d = 1" by (simp add: valid_date_def)
      with d1 show ?thesis
        using leap_year_length[of "year d"]
        by (simp add: prev_day_def toordinal_def days_before_month_def)
    qed
  qed
qed

lemma valid_prev_day: "valid_date d \<Longrightarrow> valid_date (prev_day d)"
  by (auto simp: valid_date_def prev_day_def days_in_month_def)

lemma minus_days_ordinal:
  "valid_date d \<Longrightarrow> valid_date (minus_days d k) \<and> toordinal (minus_days d k) = toordinal d - int k"
  by (induction k) (auto simp: minus_days_def toordinal_prev_day valid_prev_day)

lemma midnight_ordinal [simp]: "toordinal (midnight d) = toordinal d" "tod (midnight d) = 0"
  by (simp_all add: midnight_def toordinal_def)

lemma weekday_range: "0 \<le> weekday d \<and> weekday d < 7"
  by (simp add: weekday_def)

lemma first_of_month_ordinal: "toordinal (d\<lparr>day := 1\<rparr>) = toordinal d - (day d - 1)"
  by (simp add: toordinal_def)

end
