(* ===== verification/Ledger.thy ===== *)
theory Ledger
  imports Calendar
begin

text \<open>
  The \<open>requests\<close> table of \<open>burnlens/storage/database.py\<close>, reduced to the columns that spend
  queries read, and the spend queries every budget check is computed from. ISO timestamps are
  compared as points in time (\<open>before_eq\<close>): the strings the code compares are all UTC and order
  the same way.
\<close>

record request_row =
  rq_timestamp :: datetime
  rq_provider :: string
  rq_model :: string
  rq_cost_usd :: usd
  rq_status_code :: int
  rq_tags :: tags
  rq_org_id :: "string option"
  rq_team :: "string option"
  rq_app_id :: "string option"
  rq_customer_hash :: "string option"
  rq_key_label :: "string option"

definition month_start :: "datetime \<Rightarrow> datetime" where
  "month_start now = midnight (now\<lparr>day := 1\<rparr>)"

definition get_spend_by_team_this_month :: "datetime \<Rightarrow> request_row table \<Rightarrow> (string \<rightharpoonup> usd)" where
  "get_spend_by_team_this_month now rqs =
     (\<lambda>t. if \<exists>r \<in> set rqs. before_eq (month_start now) (rq_timestamp r) \<and> rq_tags r ''team'' = Some t
          then Some (sum_where (\<lambda>r. before_eq (month_start now) (rq_timestamp r)
                 \<and> rq_tags r ''team'' = Some t) rq_cost_usd rqs)
          else None)"

definition get_spend_by_customer_this_month :: "datetime \<Rightarrow> request_row table \<Rightarrow> (string \<rightharpoonup> usd)" where
  "get_spend_by_customer_this_month now rqs =
     (\<lambda>c. if \<exists>r \<in> set rqs. before_eq (month_start now) (rq_timestamp r) \<and> rq_tags r ''customer'' = Some c
          then Some (sum_where (\<lambda>r. before_eq (month_start now) (rq_timestamp r)
                 \<and> rq_tags r ''customer'' = Some c) rq_cost_usd rqs)
          else None)"

definition team_total_this_month :: "datetime \<Rightarrow> request_row table \<Rightarrow> usd" where
  "team_total_this_month now rqs =
     sum_where (\<lambda>r. before_eq (month_start now) (rq_timestamp r) \<and> rq_tags r ''team'' \<noteq> None)
       rq_cost_usd rqs"

definition get_spend_by_key_label_today :: "datetime \<Rightarrow> string \<Rightarrow> request_row table \<Rightarrow> usd" where
  "get_spend_by_key_label_today start_utc label rqs =
     sum_where (\<lambda>r. rq_key_label r = Some label \<and> before_eq start_utc (rq_timestamp r)) rq_cost_usd rqs"

definition get_all_keys_today_spend :: "datetime \<Rightarrow> request_row table \<Rightarrow> (string \<rightharpoonup> usd)" where
  "get_all_keys_today_spend start_utc rqs =
     (\<lambda>l. if \<exists>r \<in> set rqs. rq_key_label r = Some l \<and> before_eq start_utc (rq_timestamp r)
          then Some (get_spend_by_key_label_today start_utc l rqs) else None)"

definition spend_or_0 :: "(string \<rightharpoonup> usd) \<Rightarrow> string \<Rightarrow> usd" where
  "spend_or_0 m k = (case m k of None \<Rightarrow> 0 | Some v \<Rightarrow> v)"

lemma sum_where_none: "(\<And>r. r \<in> set t \<Longrightarrow> \<not> p r) \<Longrightarrow> sum_where p f t = 0"
  by (induction t) auto

lemma spend_by_team_sum:
  "spend_or_0 (get_spend_by_team_this_month now rqs) t =
     sum_where (\<lambda>r. before_eq (month_start now) (rq_timestamp r) \<and> rq_tags r ''team'' = Some t)
       rq_cost_usd rqs"
  by (auto simp: spend_or_0_def get_spend_by_team_this_month_def intro!: sum_where_none)

lemma spend_by_customer_sum:
  "spend_or_0 (get_spend_by_customer_this_month now rqs) c =
     sum_where (\<lambda>r. before_eq (month_start now) (rq_timestamp r) \<and> rq_tags r ''customer'' = Some c)
       rq_cost_usd rqs"
  by (auto simp: spend_or_0_def get_spend_by_customer_this_month_def intro!: sum_where_none)

lemma all_keys_today_sum:
  "spend_or_0 (get_all_keys_today_spend start rqs) l = get_spend_by_key_label_today start l rqs"
  by (auto simp: spend_or_0_def get_all_keys_today_spend_def get_spend_by_key_label_today_def
      intro!: sum_where_none)

section \<open>Expiring caches in front of the spend queries\<close>

text \<open>
  Three caches of the sources share one contract: a lookup at time \<open>t\<close> that hits returns a
  value stored at most \<open>ttl\<close> before, and storing makes the next lookup within the window hit.
\<close>

type_synonym ttl_entries = "string \<rightharpoonup> usd \<times> real" \<comment> \<open>value and monotonic time of storing\<close>

locale ttl_cache =
  fixes get :: "real \<Rightarrow> string \<Rightarrow> ttl_entries \<Rightarrow> usd option"
    and put :: "real \<Rightarrow> string \<Rightarrow> usd \<Rightarrow> ttl_entries \<Rightarrow> ttl_entries"
    and ttl :: real
  assumes get_entry: "get t k c = Some v \<Longrightarrow> \<exists>s. c k = Some (v, s) \<and> t - s \<le> ttl"
    and get_fresh: "c k = Some (v, s) \<Longrightarrow> t - s < ttl \<Longrightarrow> get t k c = Some v"
    and put_entry: "put t k v c = c(k \<mapsto> (v, t))"
begin

lemma read_after_write: "t' - t < ttl \<Longrightarrow> get t' k (put t k v c) = Some v"
  by (rule get_fresh[of _ _ v t]) (simp_all add: put_entry)

lemma expired: "ttl < t' - t \<Longrightarrow> get t' k (put t k v c) = None"
proof (rule ccontr)
  assume "ttl < t' - t" "get t' k (put t k v c) \<noteq> None"
  then obtain w where "get t' k (put t k v c) = Some w" by auto
  from get_entry[OF this] \<open>ttl < t' - t\<close> show False by (auto simp: put_entry)
qed

lemma other_key: "k \<noteq> k' \<Longrightarrow> (put t k v c) k' = c k'"
  by (simp add: put_entry)

end

end
