(* ===== verification/Router.thy ===== *)
theory Router
  imports Ledger "HOL-Library.Monad_Syntax"
begin

text \<open>
  \<open>burnlens/proxy/router.py\<close> and \<open>burnlens/providers/downgrade.py\<close>: the budget-aware model
  downgrade. The two ledger queries are passed as options, \<open>None\<close> being a database error; the
  outer function turns any error into a pass-through decision.
\<close>

section \<open>Downgrade targets\<close>

definition DOWNGRADE_MAP :: "(string \<times> string) list" where
  "DOWNGRADE_MAP =
    [(''gpt-4o'', ''gpt-4o-mini''), (''gpt-4-turbo'', ''gpt-4o-mini''), (''o1'', ''gpt-4o-mini''),
     (''o3'', ''gpt-4o-mini''), (''o1-mini'', ''gpt-4o-mini''), (''gpt-5.2'', ''gpt-5-mini''),
     (''gpt-5.2-pro'', ''gpt-5-mini''), (''gpt-5.6'', ''gpt-5.6-terra''),
     (''gpt-5.6-sol'', ''gpt-5.6-terra''), (''gpt-5.6-terra'', ''gpt-5.6-luna''),
     (''claude-opus-4-6'', ''claude-haiku-4-5-20251001''),
     (''claude-sonnet-4-6'', ''claude-haiku-4-5-20251001''),
     (''claude-3-5-sonnet-20241022'', ''claude-haiku-4-5-20251001''),
     (''claude-sonnet-5'', ''claude-haiku-4-5''), (''gemini-1.5-pro'', ''gemini-1.5-flash''),
     (''gemini-2.0-pro'', ''gemini-1.5-flash''), (''gemini-3.1-pro-preview'', ''gemini-3.1-flash-lite'')]"

definition is_digit :: "char \<Rightarrow> bool" where
  "is_digit c \<longleftrightarrow> (let k = of_char c :: nat in 48 \<le> k \<and> k \<le> 57)"

text \<open>The pattern \<open>-(latest|\d{3,})$\<close> can only match from the last dash on.\<close>

definition strip_suffix :: "string \<Rightarrow> string" where
  "strip_suffix model =
     (let last_part = rev (takeWhile (\<lambda>c. c \<noteq> CHR ''-'') (rev model));
          before = rev (dropWhile (\<lambda>c. c \<noteq> CHR ''-'') (rev model))
      in if before \<noteq> [] \<and> (last_part = ''latest'' \<or> (3 \<le> length last_part \<and> list_all is_digit last_part))
         then butlast before else model)"

definition get_downgrade_model :: "string \<Rightarrow> string option" where
  "get_downgrade_model model =
     (case map_of DOWNGRADE_MAP model of
        Some m \<Rightarrow> Some m
      | None \<Rightarrow> (if strip_suffix model \<noteq> model then map_of DOWNGRADE_MAP (strip_suffix model) else None))"

section \<open>Budget resolution and the decision\<close>

record routing_config =
  budget_downgrade :: bool
  downgrade_threshold_pct :: real
  downgrade_threshold_usd :: usd
  global_usd :: "usd option"
  budget_limit_usd :: "usd option"
  team_limits :: "string \<rightharpoonup> usd"
  customer_limits :: "string \<rightharpoonup> usd"
  customer_default :: "usd option"

datatype route_reason =
    Budget_pct | Budget_usd | No_downgrade_needed | No_alternative | No_budget | Disabled | Route_error

record route_decision =
  original_model :: string
  routed_model :: string
  downgraded :: bool
  route_reason :: route_reason
  budget_remaining_usd :: usd
  budget_remaining_pct :: real

definition pass_through :: "string \<Rightarrow> route_reason \<Rightarrow> usd \<Rightarrow> real \<Rightarrow> route_decision" where
  "pass_through model why rem_usd pct = \<lparr>original_model = model, routed_model = model, downgraded = False,
     route_reason = why, budget_remaining_usd = rem_usd, budget_remaining_pct = pct\<rparr>"

text \<open>\<open>a or b\<close> on optional floats: zero is false.\<close>

definition num_or :: "usd option \<Rightarrow> usd option \<Rightarrow> usd option" where
  "num_or a b = (if a = None \<or> a = Some 0 then b else a)"

definition team_ttl :: real where
  "team_ttl = 60"

definition cached_team_spend :: "real \<Rightarrow> string \<Rightarrow> ttl_entries \<Rightarrow> usd option" where
  "cached_team_spend t team c =
     (case c team of None \<Rightarrow> None | Some (v, s) \<Rightarrow> if t - s \<le> team_ttl then Some v else None)"

definition store_team_spend :: "real \<Rightarrow> string \<Rightarrow> usd \<Rightarrow> ttl_entries \<Rightarrow> ttl_entries" where
  "store_team_spend t team v c = c(team \<mapsto> (v, t))"

interpretation team_cache: ttl_cache cached_team_spend store_team_spend team_ttl
  by unfold_locales (auto simp: cached_team_spend_def store_team_spend_def split: option.splits if_splits)

definition get_team_spend ::
    "real \<Rightarrow> real \<Rightarrow> (string \<rightharpoonup> usd) option \<Rightarrow> string \<Rightarrow> ttl_entries \<Rightarrow> (usd \<times> ttl_entries) option" where
  "get_team_spend t1 t2 team_q team c =
     (case cached_team_spend t1 team c of
        Some v \<Rightarrow> Some (v, c)
      | None \<Rightarrow> do { q \<leftarrow> team_q; let v = spend_or_0 q team; Some (v, store_team_spend t2 team v c) })"

text \<open>\<open>total_q\<close> is \<open>sum(all_team.values())\<close> of the same query.\<close>

definition resolve_budget ::
    "routing_config \<Rightarrow> real \<Rightarrow> real \<Rightarrow> (string \<rightharpoonup> usd) option \<Rightarrow> (string \<rightharpoonup> usd) option \<Rightarrow> usd option
       \<Rightarrow> string option \<Rightarrow> string option \<Rightarrow> ttl_entries \<Rightarrow> ((usd option \<times> usd) \<times> ttl_entries) option" where
  "resolve_budget cfg t1 t2 cust_q team_q total_q tag_team tag_customer c =
     (let cust_limit = (if truthy tag_customer
            then num_or (customer_limits cfg (the tag_customer)) (customer_default cfg) else None);
          team_limit = (if truthy tag_team then team_limits cfg (the tag_team) else None);
          global_limit = num_or (global_usd cfg) (budget_limit_usd cfg)
      in case cust_limit of
           Some l \<Rightarrow> do { q \<leftarrow> cust_q; Some ((Some l, spend_or_0 q (the tag_customer)), c) }
         | None \<Rightarrow>
             (case team_limit of
                Some l \<Rightarrow> do { (v, c') \<leftarrow> get_team_spend t1 t2 team_q (the tag_team) c; Some ((Some l, v), c') }
              | None \<Rightarrow>
                  (case global_limit of
                     Some l \<Rightarrow> do { s \<leftarrow> total_q; Some ((Some l, s), c) }
                   | None \<Rightarrow> Some ((None, 0), c))))"

definition route_for :: "routing_config \<Rightarrow> string \<Rightarrow> usd option \<Rightarrow> usd \<Rightarrow> route_decision" where
  "route_for cfg model limit spent =
     (case limit of
        None \<Rightarrow> pass_through model No_budget 0 100
      | Some l \<Rightarrow>
          if l \<le> 0 then pass_through model No_budget 0 100
          else let remaining = max 0 (l - spent);
                   pct = remaining / l * 100;
                   trigger = (if pct < downgrade_threshold_pct cfg then Some Budget_pct
                              else if remaining < downgrade_threshold_usd cfg then Some Budget_usd else None)
               in case trigger of
                    None \<Rightarrow> pass_through model No_downgrade_needed remaining pct
                  | Some why \<Rightarrow>
                      (case get_downgrade_model model of
                         None \<Rightarrow> pass_through model No_alternative remaining pct
                       | Some m \<Rightarrow> \<lparr>original_model = model, routed_model = m, downgraded = True,
                           route_reason = why, budget_remaining_usd = remaining, budget_remaining_pct = pct\<rparr>))"

definition decide_route_inner ::
    "routing_config \<Rightarrow> real \<Rightarrow> real \<Rightarrow> (string \<rightharpoonup> usd) option \<Rightarrow> (string \<rightharpoonup> usd) option \<Rightarrow> usd option
       \<Rightarrow> string \<Rightarrow> string option \<Rightarrow> string option \<Rightarrow> ttl_entries \<Rightarrow> (route_decision \<times> ttl_entries) option" where
  "decide_route_inner cfg t1 t2 cust_q team_q total_q model tag_team tag_customer c =
     (if \<not> budget_downgrade cfg then Some (pass_through model Disabled 0 100, c)
      else do { ((limit, spent), c') \<leftarrow> resolve_budget cfg t1 t2 cust_q team_q total_q tag_team tag_customer c;
                Some (route_for cfg model limit spent, c') })"

definition decide_route ::
    "routing_config \<Rightarrow> real \<Rightarrow> real \<Rightarrow> (string \<rightharpoonup> usd) option \<Rightarrow> (string \<rightharpoonup> usd) option \<Rightarrow> usd option
       \<Rightarrow> string \<Rightarrow> string option \<Rightarrow> string option \<Rightarrow> ttl_entries \<Rightarrow> route_decision \<times> ttl_entries" where
  "decide_route cfg t1 t2 cust_q team_q total_q model tag_team tag_customer c =
     (case decide_route_inner cfg t1 t2 cust_q team_q total_q model tag_team tag_customer c of
        Some r \<Rightarrow> r
      | None \<Rightarrow> (pass_through model Route_error 0 100, c))"

section \<open>Properties\<close>

lemma route_for_downgraded:
  "downgraded (route_for cfg model limit spent) \<longleftrightarrow>
     (\<exists>l. limit = Some l \<and> 0 < l \<and> get_downgrade_model model \<noteq> None
        \<and> (max 0 (l - spent) / l * 100 < downgrade_threshold_pct cfg
           \<or> max 0 (l - spent) < downgrade_threshold_usd cfg))"
  by (auto simp: route_for_def pass_through_def Let_def split: option.splits)

lemma route_for_models:
  "original_model (route_for cfg model limit spent) = model \<and>
   routed_model (route_for cfg model limit spent) =
     (if downgraded (route_for cfg model limit spent) then the (get_downgrade_model model) else model)"
  by (auto simp: route_for_def pass_through_def Let_def split: option.splits)

lemma route_for_remaining:
  "0 \<le> spent \<Longrightarrow> 0 \<le> budget_remaining_usd (route_for cfg model limit spent)
     \<and> 0 \<le> budget_remaining_pct (route_for cfg model limit spent)
     \<and> budget_remaining_pct (route_for cfg model limit spent) \<le> 100"
proof -
  assume "0 \<le> spent"
  then have "0 < l \<Longrightarrow> max 0 (l - spent) / l * 100 \<le> 100" for l
    by (simp add: divide_le_eq max_def)
  then show ?thesis
    by (auto simp: route_for_def pass_through_def Let_def not_le split: option.splits)
qed

text \<open>The router rewrites a model exactly when downgrading is enabled, the caller's budget resolves to a
  positive limit, the remaining budget is below a threshold and the table has a cheaper target; in every
  other case, database errors included, the model is forwarded as it came.\<close>

theorem decide_route_correct:
  assumes "decide_route cfg t1 t2 cust_q team_q total_q model tag_team tag_customer c = (d, c')"
  shows "original_model d = model
    \<and> (downgraded d \<longleftrightarrow> budget_downgrade cfg \<and>
        (\<exists>l spent. resolve_budget cfg t1 t2 cust_q team_q total_q tag_team tag_customer c = Some ((Some l, spent), c')
          \<and> 0 < l \<and> get_downgrade_model model \<noteq> None
          \<and> (max 0 (l - spent) / l * 100 < downgrade_threshold_pct cfg
             \<or> max 0 (l - spent) < downgrade_threshold_usd cfg)))
    \<and> routed_model d = (if downgraded d then the (get_downgrade_model model) else model)"
proof (cases "budget_downgrade cfg")
  case False
  with assms have "d = pass_through model Disabled 0 100"
    by (simp add: decide_route_def decide_route_inner_def)
  with False show ?thesis by (simp add: pass_through_def)
next
  case True
  show ?thesis
  proof (cases "resolve_budget cfg t1 t2 cust_q team_q total_q tag_team tag_customer c")
    case None
    with True assms have "d = pass_through model Route_error 0 100"
      by (simp add: decide_route_def decide_route_inner_def)
    with None show ?thesis by (simp add: pass_through_def)
  next
    case (Some r)
    then obtain limit spent c2 where r: "r = ((limit, spent), c2)" by (metis prod.collapse)
    with Some True assms have "d = route_for cfg model limit spent" "c2 = c'"
      by (simp_all add: decide_route_def decide_route_inner_def)
    with Some True r show ?thesis
      using route_for_downgraded[of cfg model limit spent] route_for_models[of cfg model limit spent] by simp
  qed
qed

lemma DOWNGRADE_all_targets:
  "list_all (\<lambda>m. get_downgrade_model m \<in> {None, Some ''gpt-5.6-luna''}) (map snd DOWNGRADE_MAP)"
  by code_simp

lemma DOWNGRADE_targets: "m \<in> snd ` set DOWNGRADE_MAP \<Longrightarrow>
   get_downgrade_model m = None \<or> get_downgrade_model m = Some ''gpt-5.6-luna''"
  using DOWNGRADE_all_targets unfolding list_all_iff by fastforce

lemma downgrade_member: "get_downgrade_model m = Some m' \<Longrightarrow> m' \<in> snd ` set DOWNGRADE_MAP"
  by (auto simp: get_downgrade_model_def split: option.splits if_splits intro!: image_eqI dest: map_of_SomeD)

text \<open>Repeated downgrading ends: no model is its own target and after at most two downgrades a model has
  no cheaper target left.\<close>

theorem downgrade_terminates:
  assumes "get_downgrade_model a = Some b" and "get_downgrade_model b = Some c"
  shows "get_downgrade_model c = None \<and> a \<noteq> b \<and> b \<noteq> c \<and> a \<noteq> c"
proof -
  from downgrade_member[OF assms(1)] DOWNGRADE_targets[of b] assms(2) have c: "c = ''gpt-5.6-luna''" by auto
  have luna: "get_downgrade_model ''gpt-5.6-luna'' = None"
    by code_simp
  have "a \<noteq> b"
  proof
    assume "a = b"
    with assms c have "b = c" by simp
    with assms(2) c luna show False by simp
  qed
  with assms c luna show ?thesis by auto
qed

text \<open>Whoever the caller is, the reported remaining budget is never negative and the reported percentage
  lies between 0 and 100, provided the ledger's spend is not negative.\<close>

theorem remaining_in_range:
  assumes "decide_route cfg t1 t2 cust_q team_q total_q model tag_team tag_customer c = (d, c')"
    and "\<forall>q k v. cust_q = Some q \<and> q k = Some v \<longrightarrow> 0 \<le> v"
    and "\<forall>q k v. team_q = Some q \<and> q k = Some v \<longrightarrow> 0 \<le> v"
    and "\<forall>s. total_q = Some s \<longrightarrow> 0 \<le> s" and "\<forall>k v s. c k = Some (v, s) \<longrightarrow> 0 \<le> v"
  shows "0 \<le> budget_remaining_usd d \<and> 0 \<le> budget_remaining_pct d \<and> budget_remaining_pct d \<le> 100"
proof -
  have cached: "0 \<le> v" if "cached_team_spend t1 k c = Some v" for k v
    using team_cache.get_entry[OF that] assms(5) by blast
  have "0 \<le> spent"
    if "resolve_budget cfg t1 t2 cust_q team_q total_q tag_team tag_customer c = Some ((limit, spent), c2)"
    for limit spent c2
    using that assms(2-5)
    by (auto simp: resolve_budget_def get_team_spend_def spend_or_0_def Let_def bind_eq_Some_conv
        split: option.splits intro: cached)
  then have rem: "0 \<le> budget_remaining_usd (route_for cfg model limit spent)
     \<and> 0 \<le> budget_remaining_pct (route_for cfg model limit spent)
     \<and> budget_remaining_pct (route_for cfg model limit spent) \<le> 100"
    if "resolve_budget cfg t1 t2 cust_q team_q total_q tag_team tag_customer c = Some ((limit, spent), c2)"
    for limit spent c2 using that route_for_remaining by blast
  show ?thesis
  proof (cases "decide_route_inner cfg t1 t2 cust_q team_q total_q model tag_team tag_customer c")
    case None
    with assms(1) show ?thesis by (auto simp: decide_route_def pass_through_def)
  next
    case (Some r)
    with assms(1) have "r = (d, c')" by (simp add: decide_route_def)
    with Some rem show ?thesis
      by (auto simp: decide_route_inner_def pass_through_def bind_eq_Some_conv split: if_splits)
  qed
qed

text \<open>An explicit customer limit of zero is not a limit: the customer falls back to the default limit, and
  without one to the team and global budgets.\<close>

theorem zero_customer_limit_ignored:
  assumes "customer_limits cfg k = Some 0" and "k \<noteq> []"
  shows "resolve_budget cfg t1 t2 cust_q team_q total_q tag_team (Some k) c =
    resolve_budget (cfg\<lparr>customer_limits := (customer_limits cfg)(k := None)\<rparr>) t1 t2 cust_q team_q total_q
      tag_team (Some k) c"
  using assms by (simp add: resolve_budget_def num_or_def split: option.split)

definition eager :: routing_config where
  "eager = \<lparr>budget_downgrade = True, downgrade_threshold_pct = 20, downgrade_threshold_usd = 5,
     global_usd = None, budget_limit_usd = None, team_limits = [''ml'' \<mapsto> 100],
     customer_limits = [''acme'' \<mapsto> 0], customer_default = Some 50\<rparr>"

lemma eager_route:
  "decide_route eager 1 2 None (Some [''ml'' \<mapsto> 90]) None ''gpt-4o'' (Some ''ml'') None Map.empty =
     (\<lparr>original_model = ''gpt-4o'', routed_model = ''gpt-4o-mini'', downgraded = True,
       route_reason = Budget_pct, budget_remaining_usd = 10, budget_remaining_pct = 10\<rparr>, [''ml'' \<mapsto> (90, 2)])"
  by (simp add: decide_route_def decide_route_inner_def resolve_budget_def get_team_spend_def
      cached_team_spend_def store_team_spend_def spend_or_0_def route_for_def eager_def num_or_def Let_def
      get_downgrade_model_def DOWNGRADE_MAP_def)

theorem decide_route_correct_witness:
  "the (get_downgrade_model ''gpt-4o'') = ''gpt-4o-mini''"
  using decide_route_correct[OF eager_route] by simp

theorem downgrade_terminates_witness:
  "get_downgrade_model ''gpt-5.6-luna'' = None \<and> ''gpt-5.6'' \<noteq> ''gpt-5.6-luna''"
  using downgrade_terminates[of "''gpt-5.6''" "''gpt-5.6-terra''" "''gpt-5.6-luna''"]
  by (simp add: get_downgrade_model_def DOWNGRADE_MAP_def)

theorem remaining_in_range_witness: "(0 :: real) \<le> 10 \<and> (10 :: real) \<le> 100 \<and>
   decide_route eager 1 2 None (Some [''ml'' \<mapsto> 90]) None ''gpt-4o'' (Some ''ml'') None Map.empty \<noteq>
     (pass_through ''gpt-4o'' Disabled 0 100, Map.empty)"
  using remaining_in_range[OF eager_route] unfolding eager_route by (simp add: pass_through_def split: if_splits)

theorem zero_customer_limit_ignored_witness:
  "resolve_budget eager 1 2 (Some Map.empty) None None None (Some ''acme'') Map.empty = Some ((Some 50, 0), Map.empty)"
  using zero_customer_limit_ignored[of eager "''acme''" 1 2 "Some Map.empty" None None None Map.empty]
  by (simp add: eager_def resolve_budget_def num_or_def spend_or_0_def)

end
