(* ===== verification/Key_Budget.thy ===== *)
theory Key_Budget
  imports Ledger
begin

text \<open>
  \<open>burnlens/key_budget.py\<close> and \<open>burnlens/keys.py\<close>: the registered API keys, the daily hard cap
  of a key label, the 30 second spend cache in front of the ledger and the roll-up behind the
  dashboard. SHA-256 is a parameter; a time zone is its two conversions (\<open>tzinfo\<close>).
  The cache is a map from labels to the spend and the monotonic time it was stored at.
\<close>

section \<open>Registered keys\<close>

record api_key_row =
  ak_label :: string
  ak_provider :: string
  ak_hash :: string
  ak_prefix :: string
  ak_created_at :: instant
  ak_last_used :: "instant option"

datatype key_error = Value_error | Key_already_exists

definition key_prefix :: "string \<Rightarrow> string" where
  "key_prefix raw = take 8 raw"

definition register_key ::
    "(string \<Rightarrow> string) \<Rightarrow> instant \<Rightarrow> string \<Rightarrow> string \<Rightarrow> string \<Rightarrow> api_key_row table
       \<Rightarrow> key_error + api_key_row table" where
  "register_key sha256 now label provider raw t =
     (if label = [] \<or> provider = [] \<or> raw = [] then Inl Value_error
      else if label \<in> ak_label ` set t then Inl Key_already_exists
      else Inr (t @ [\<lparr>ak_label = label, ak_provider = provider, ak_hash = sha256 raw,
              ak_prefix = key_prefix raw, ak_created_at = now, ak_last_used = None\<rparr>]))"

definition list_keys :: "api_key_row table \<Rightarrow> api_key_row list" where
  "list_keys t = sort_key (\<lambda>r. - ak_created_at r) t"

definition remove_key :: "string \<Rightarrow> api_key_row table \<Rightarrow> bool \<times> api_key_row table" where
  "remove_key label t = (label \<in> ak_label ` set t, filter (\<lambda>r. ak_label r \<noteq> label) t)"

definition get_label_by_hash :: "string \<Rightarrow> api_key_row table \<Rightarrow> string option" where
  "get_label_by_hash h t = map_option ak_label (find (\<lambda>r. ak_hash r = h) t)"

definition touch_last_used :: "instant \<Rightarrow> string \<Rightarrow> api_key_row table \<Rightarrow> api_key_row table" where
  "touch_last_used now label = update_where (\<lambda>r. ak_label r = label) (\<lambda>r. r\<lparr>ak_last_used := Some now\<rparr>)"

lemma pk_register: "register_key sha now l p raw t = Inr t' \<Longrightarrow> pk ak_label t \<Longrightarrow> pk ak_label t'"
  by (auto simp: register_key_def pk_def split: if_splits)

lemma pk_remove: "pk ak_label t \<Longrightarrow> pk ak_label (snd (remove_key l t))"
  by (auto simp: remove_key_def pk_def distinct_map inj_on_def)

lemma pk_touch: "pk ak_label t \<Longrightarrow> pk ak_label (touch_last_used now l t)"
  by (auto simp: touch_last_used_def intro!: pk_intros)

lemma get_label_touch: "get_label_by_hash h (touch_last_used now l t) = get_label_by_hash h t"
  by (induction t) (auto simp: get_label_by_hash_def touch_last_used_def update_where_def)

section \<open>Daily caps\<close>

record key_budget_entry =
  daily_usd :: "usd option"
  monthly_usd :: "usd option"

record api_key_budgets =
  kb_keys :: "(string \<times> key_budget_entry) list"
  kb_default :: "key_budget_entry option"
  reset_timezone :: string

definition daily_cap_for :: "api_key_budgets \<Rightarrow> string option \<Rightarrow> usd option" where
  "daily_cap_for b label =
     (case label of None \<Rightarrow> None
      | Some l \<Rightarrow>
          if l = [] then None
          else case Option.bind (map_of (kb_keys b) l) daily_usd of
                 Some x \<Rightarrow> Some x
               | None \<Rightarrow> Option.bind (kb_default b) daily_usd)"

record tzinfo =
  to_local :: "datetime \<Rightarrow> datetime"
  to_utc :: "datetime \<Rightarrow> datetime"

definition next_day :: "datetime \<Rightarrow> datetime" where
  "next_day d =
     (if day d < days_in_month (year d) (month d) then d\<lparr>day := day d + 1\<rparr>
      else if month d < 12 then d\<lparr>month := month d + 1, day := 1\<rparr>
      else d\<lparr>year := year d + 1, month := 1, day := 1\<rparr>)"

definition today_window_utc :: "tzinfo \<Rightarrow> datetime \<Rightarrow> datetime \<times> datetime" where
  "today_window_utc tz now =
     (let local_midnight = midnight (to_local tz now)
      in (to_utc tz local_midnight, to_utc tz (next_day local_midnight)))"

definition next_midnight_in_tz :: "tzinfo \<Rightarrow> datetime \<Rightarrow> datetime" where
  "next_midnight_in_tz tz now = snd (today_window_utc tz now)"

definition month_start_utc :: "tzinfo \<Rightarrow> datetime \<Rightarrow> datetime" where
  "month_start_utc tz now = to_utc tz (midnight ((to_local tz now)\<lparr>day := 1\<rparr>))"

definition spend_ttl :: real where
  "spend_ttl = 30"

definition cached_spend :: "real \<Rightarrow> string \<Rightarrow> ttl_entries \<Rightarrow> usd option" where
  "cached_spend t label c =
     (case c label of None \<Rightarrow> None | Some (v, s) \<Rightarrow> if t - s < spend_ttl then Some v else None)"

definition store_spend :: "real \<Rightarrow> string \<Rightarrow> usd \<Rightarrow> ttl_entries \<Rightarrow> ttl_entries" where
  "store_spend t label v c = c(label \<mapsto> (v, t))"

interpretation spend_cache: ttl_cache cached_spend store_spend spend_ttl
  by unfold_locales (auto simp: cached_spend_def store_spend_def split: option.splits if_splits)

text \<open>\<open>t1\<close> and \<open>t2\<close> are the monotonic clock before the lookup and after the query.\<close>

definition get_today_spend ::
    "real \<Rightarrow> real \<Rightarrow> usd \<Rightarrow> string \<Rightarrow> ttl_entries \<Rightarrow> usd \<times> ttl_entries" where
  "get_today_spend t1 t2 queried label c =
     (case cached_spend t1 label c of
        Some v \<Rightarrow> (v, c)
      | None \<Rightarrow> (queried, store_spend t2 label queried c))"

definition invalidate :: "string \<Rightarrow> ttl_entries \<Rightarrow> ttl_entries" where
  "invalidate label c = c(label := None)"

definition enforce_daily_cap ::
    "tzinfo \<Rightarrow> api_key_budgets \<Rightarrow> request_row table \<Rightarrow> datetime \<Rightarrow> real \<Rightarrow> real \<Rightarrow> string option
       \<Rightarrow> ttl_entries \<Rightarrow> (usd \<times> usd \<times> datetime) option \<times> ttl_entries" where
  "enforce_daily_cap tz b rqs now t1 t2 label c =
     (case label of None \<Rightarrow> (None, c)
      | Some l \<Rightarrow>
          if l = [] then (None, c)
          else case daily_cap_for b (Some l) of
            None \<Rightarrow> (None, c)
          | Some cap \<Rightarrow>
              (let (spent, c') = get_today_spend t1 t2
                     (get_spend_by_key_label_today (fst (today_window_utc tz now)) l rqs) l c
               in (if cap \<le> spent then Some (spent, cap, next_midnight_in_tz tz now) else None, c')))"

section \<open>The roll-up of today's spend\<close>

datatype key_status = OK | WARNING | CRITICAL | NO_CAP

record key_today =
  kt_label :: string
  kt_spent :: usd
  kt_cap :: "usd option"
  kt_pct :: "real option"
  kt_status :: key_status
  kt_timezone :: string

definition key_pct :: "usd \<Rightarrow> usd option \<Rightarrow> real option" where
  "key_pct spent cap = map_option (\<lambda>c. if 0 < c then spent / c * 100 else 0) cap"

definition key_status :: "real option \<Rightarrow> key_status" where
  "key_status pct = (case pct of None \<Rightarrow> NO_CAP
     | Some p \<Rightarrow> if 100 \<le> p then CRITICAL else if 80 \<le> p then WARNING else OK)"

definition key_today_row :: "api_key_budgets option \<Rightarrow> (string \<rightharpoonup> usd) \<Rightarrow> string \<Rightarrow> string \<Rightarrow> key_today" where
  "key_today_row b spent_today tz_name label =
     (let spent = spend_or_0 spent_today label;
          cap = Option.bind b (\<lambda>x. daily_cap_for x (Some label));
          pct = key_pct spent cap
      in \<lparr>kt_label = label, kt_spent = py_round spent 6, kt_cap = cap,
          kt_pct = map_option (\<lambda>p. py_round p 1) pct, kt_status = key_status pct,
          kt_timezone = tz_name\<rparr>)"

definition key_today_order :: "key_today \<Rightarrow> int \<times> real \<times> real \<times> string" where
  "key_today_order r = (case kt_pct r of None \<Rightarrow> 1 | Some _ \<Rightarrow> 0,
     - (case kt_pct r of None \<Rightarrow> 0 | Some p \<Rightarrow> p), - kt_spent r, kt_label r)"

definition today_labels ::
    "api_key_budgets option \<Rightarrow> datetime \<Rightarrow> request_row table \<Rightarrow> api_key_row table \<Rightarrow> string set" where
  "today_labels b start rqs keys =
     set (List.map_filter rq_key_label (filter (\<lambda>r. before_eq start (rq_timestamp r)) rqs))
     \<union> (case b of None \<Rightarrow> {} | Some x \<Rightarrow> fst ` set (kb_keys x))
     \<union> {l \<in> ak_label ` set (list_keys keys). l \<noteq> []}"

definition compute_keys_today ::
    "tzinfo \<Rightarrow> api_key_budgets option \<Rightarrow> datetime \<Rightarrow> request_row table \<Rightarrow> api_key_row table \<Rightarrow> key_today list" where
  "compute_keys_today tz b now rqs keys =
     (let tz_name = (case b of None \<Rightarrow> ''UTC'' | Some x \<Rightarrow> reset_timezone x);
          start = fst (today_window_utc tz now)
      in sort_key key_today_order
           (map (key_today_row b (get_all_keys_today_spend start rqs) tz_name)
             (sorted_list_of_set (today_labels b start rqs keys))))"

section \<open>Cache coherence\<close>

text \<open>Within one budget day the cache never disagrees with the ledger: logging a request drops the
  entry of the label it was charged to.\<close>

definition cache_coherent :: "datetime \<Rightarrow> request_row table \<Rightarrow> ttl_entries \<Rightarrow> bool" where
  "cache_coherent start rqs c \<longleftrightarrow>
     (\<forall>l v s. c l = Some (v, s) \<longrightarrow> v = get_spend_by_key_label_today start l rqs)"

datatype key_event =
    Log_request request_row
  | Enforce real real "string option"

definition log_request :: "request_row \<Rightarrow> request_row table \<times> ttl_entries \<Rightarrow> request_row table \<times> ttl_entries" where
  "log_request r s = (fst s @ [r], case rq_key_label r of None \<Rightarrow> snd s | Some l \<Rightarrow> invalidate l (snd s))"

fun key_step ::
    "tzinfo \<Rightarrow> api_key_budgets \<Rightarrow> datetime \<Rightarrow> key_event \<Rightarrow> request_row table \<times> ttl_entries
       \<Rightarrow> request_row table \<times> ttl_entries" where
  "key_step tz b now (Log_request r) s = log_request r s"
| "key_step tz b now (Enforce t1 t2 label) s =
     (fst s, snd (enforce_daily_cap tz b (fst s) now t1 t2 label (snd s)))"

definition nonneg_event :: "key_event \<Rightarrow> bool" where
  "nonneg_event e = (case e of Log_request r \<Rightarrow> 0 \<le> rq_cost_usd r | Enforce _ _ _ \<Rightarrow> True)"

lemma coherent_lookup:
  "cache_coherent start rqs c \<Longrightarrow> fst (get_today_spend t1 t2 (get_spend_by_key_label_today start l rqs) l c)
     = get_spend_by_key_label_today start l rqs"
  by (cases "cached_spend t1 l c")
    (auto simp: get_today_spend_def cache_coherent_def dest!: spend_cache.get_entry)

lemma coherent_store:
  "cache_coherent start rqs c \<Longrightarrow> cache_coherent start rqs
     (snd (get_today_spend t1 t2 (get_spend_by_key_label_today start l rqs) l c))"
  by (auto simp: get_today_spend_def cache_coherent_def store_spend_def split: option.splits)

lemma coherent_enforce:
  "cache_coherent (fst (today_window_utc tz now)) rqs c \<Longrightarrow>
   cache_coherent (fst (today_window_utc tz now)) rqs (snd (enforce_daily_cap tz b rqs now t1 t2 label c))"
  using coherent_store[of "fst (today_window_utc tz now)" rqs c t1 t2 "the label"]
  by (auto simp: enforce_daily_cap_def split: option.splits prod.splits)

lemma coherent_log:
  "cache_coherent start (fst s) (snd s) \<Longrightarrow>
   cache_coherent start (fst (log_request r s)) (snd (log_request r s))"
  by (auto simp: cache_coherent_def log_request_def invalidate_def get_spend_by_key_label_today_def
      split: option.splits if_splits)

lemma spend_log_mono:
  "0 \<le> rq_cost_usd r \<Longrightarrow>
   get_spend_by_key_label_today start l (fst s) \<le> get_spend_by_key_label_today start l (fst (log_request r s))"
  by (simp add: log_request_def get_spend_by_key_label_today_def)

interpretation key_day: absorbing_system "key_step tz b now" nonneg_event
  "\<lambda>s. cache_coherent (fst (today_window_utc tz now)) (fst s) (snd s)"
  "\<lambda>s. cap \<le> get_spend_by_key_label_today (fst (today_window_utc tz now)) l (fst s)"
  for tz b now cap l
proof unfold_locales
  fix e :: key_event and s :: "request_row table \<times> ttl_entries"
  assume inv: "cache_coherent (fst (today_window_utc tz now)) (fst s) (snd s)" and ok: "nonneg_event e"
  show "cache_coherent (fst (today_window_utc tz now)) (fst (key_step tz b now e s)) (snd (key_step tz b now e s))"
    using inv by (cases e) (auto simp: coherent_log coherent_enforce)
  assume "cap \<le> get_spend_by_key_label_today (fst (today_window_utc tz now)) l (fst s)"
  with ok show "cap \<le> get_spend_by_key_label_today (fst (today_window_utc tz now)) l (fst (key_step tz b now e s))"
    by (cases e) (auto simp: nonneg_event_def intro: order_trans[OF _ spend_log_mono])
qed

lemma enforce_coherent:
  assumes "cache_coherent (fst (today_window_utc tz now)) rqs c" and "daily_cap_for b (Some l) = Some cap"
  shows "fst (enforce_daily_cap tz b rqs now t1 t2 (Some l) c) =
    (if cap \<le> get_spend_by_key_label_today (fst (today_window_utc tz now)) l rqs
     then Some (get_spend_by_key_label_today (fst (today_window_utc tz now)) l rqs, cap,
       next_midnight_in_tz tz now) else None)"
proof -
  from assms(2) have "l \<noteq> []" by (auto simp: daily_cap_for_def)
  with coherent_lookup[OF assms(1), of t1 t2 l] assms(2) show ?thesis
    by (auto simp: enforce_daily_cap_def split: prod.splits)
qed

text \<open>The cached daily cap decides like the ledger. After any sequence of logged requests and cap
  checks from an empty cache, the cap of a label is reported exceeded exactly when the label's logged
  spend since local midnight has reached it, and the reported spend is the ledger's.\<close>

theorem daily_cap_exact:
  assumes "run_steps (key_step tz b now) es (rqs0, Map.empty) = (rqs, c)"
    and "\<forall>e \<in> set es. nonneg_event e" and "daily_cap_for b (Some l) = Some cap"
  shows "fst (enforce_daily_cap tz b rqs now t1 t2 (Some l) c) =
    (if cap \<le> get_spend_by_key_label_today (fst (today_window_utc tz now)) l rqs
     then Some (get_spend_by_key_label_today (fst (today_window_utc tz now)) l rqs, cap,
       next_midnight_in_tz tz now) else None)"
proof (rule enforce_coherent[OF _ assms(3)])
  have "cache_coherent (fst (today_window_utc tz now)) rqs0 Map.empty" by (simp add: cache_coherent_def)
  with key_day.run_inv[of tz now "(rqs0, Map.empty)" es b] assms(1,2)
  show "cache_coherent (fst (today_window_utc tz now)) rqs c" by simp
qed

text \<open>A label that has reached its daily cap stays blocked for the rest of the budget day, whatever
  other requests are logged or checked in between.\<close>

theorem daily_cap_latches:
  assumes "cache_coherent (fst (today_window_utc tz now)) rqs0 c0"
    and "daily_cap_for b (Some l) = Some cap"
    and "fst (enforce_daily_cap tz b rqs0 now t1 t2 (Some l) c0) \<noteq> None"
    and "\<forall>e \<in> set es. nonneg_event e"
    and "run_steps (key_step tz b now) es (rqs0, c0) = (rqs, c)"
  shows "fst (enforce_daily_cap tz b rqs now t3 t4 (Some l) c) \<noteq> None"
proof -
  let ?start = "fst (today_window_utc tz now)"
  from enforce_coherent[OF assms(1,2), of t1 t2] assms(3)
  have "cap \<le> get_spend_by_key_label_today ?start l rqs0" by (auto split: if_splits)
  with key_day.run_absorbed[of tz now "(rqs0, c0)" cap l es b] key_day.run_inv[of tz now "(rqs0, c0)" es b]
    assms(1,4,5)
  have "cap \<le> get_spend_by_key_label_today ?start l rqs" "cache_coherent ?start rqs c" by simp_all
  with enforce_coherent[OF _ assms(2), of tz now rqs c t3 t4] show ?thesis by simp
qed

text \<open>A request without a registered label, or whose label has no cap, is never blocked and does
  not touch the cache.\<close>

theorem uncapped_never_blocked:
  assumes "daily_cap_for b label = None"
  shows "enforce_daily_cap tz b rqs now t1 t2 label c = (None, c)"
  using assms by (auto simp: enforce_daily_cap_def split: option.splits)

section \<open>The roll-up agrees with enforcement\<close>

lemma finite_today_labels: "finite (today_labels b start rqs keys)"
  by (auto simp: today_labels_def split: option.split)

text \<open>The roll-up lists every label with traffic today, with a configured cap or registered exactly
  once, in the documented order, and for positive caps the CRITICAL status is exactly the state in
  which enforcement blocks.\<close>

theorem keys_today_correct:
  assumes "kr = compute_keys_today tz b now rqs keys"
  shows "set (map kt_label kr) = today_labels b (fst (today_window_utc tz now)) rqs keys
    \<and> distinct (map kt_label kr) \<and> sorted (map key_today_order kr)
    \<and> (\<forall>r \<in> set kr. \<forall>cap. kt_cap r = Some cap \<longrightarrow> 0 < cap \<longrightarrow>
          (kt_status r = CRITICAL \<longleftrightarrow>
             cap \<le> get_spend_by_key_label_today (fst (today_window_utc tz now)) (kt_label r) rqs))"
proof -
  let ?start = "fst (today_window_utc tz now)"
  let ?f = "key_today_row b (get_all_keys_today_spend ?start rqs)
     (case b of None \<Rightarrow> ''UTC'' | Some x \<Rightarrow> reset_timezone x)"
  have lab: "kt_label (?f l) = l" for l by (simp add: key_today_row_def Let_def)
  have set_kr: "set kr = ?f ` today_labels b ?start rqs keys"
    by (simp add: assms compute_keys_today_def Let_def finite_today_labels)
  have "inj_on ?f A" for A by (rule inj_onI) (metis lab)
  then have "distinct kr" by (simp add: assms compute_keys_today_def Let_def distinct_map)
  moreover have "inj_on kt_label (set kr)" by (auto simp: set_kr inj_on_def lab)
  ultimately have d: "distinct (map kt_label kr)" by (simp add: distinct_map)
  have crit: "kt_status (?f l) = CRITICAL \<longleftrightarrow> cap \<le> get_spend_by_key_label_today ?start l rqs"
    if "kt_cap (?f l) = Some cap" "0 < cap" for l cap
    using that by (auto simp: key_today_row_def Let_def key_status_def key_pct_def all_keys_today_sum
        field_simps split: if_splits)
  have "sorted (map key_today_order kr)"
    by (simp add: assms compute_keys_today_def Let_def)
  moreover have "set (map kt_label kr) = today_labels b ?start rqs keys"
    by (simp add: set_kr image_image lab)
  ultimately show ?thesis using d crit set_kr lab by auto
qed

text \<open>A configured cap of zero blocks every request of the label, yet the roll-up shows the label as
  OK.\<close>

theorem zero_cap_blocks_but_shows_ok:
  assumes "cache_coherent (fst (today_window_utc tz now)) rqs c" and "daily_cap_for b (Some l) = Some 0"
    and "\<forall>r \<in> set rqs. 0 \<le> rq_cost_usd r"
  shows "fst (enforce_daily_cap tz b rqs now t1 t2 (Some l) c) \<noteq> None
    \<and> kt_status (key_today_row (Some b) (get_all_keys_today_spend (fst (today_window_utc tz now)) rqs) z l) = OK"
proof -
  have "0 \<le> get_spend_by_key_label_today (fst (today_window_utc tz now)) l rqs"
    using assms(3) by (simp add: get_spend_by_key_label_today_def sum_where_nonneg)
  with enforce_coherent[OF assms(1,2), of t1 t2] assms(2) show ?thesis
    by (simp add: key_today_row_def Let_def key_status_def key_pct_def)
qed

section \<open>Looking labels up by key\<close>

text \<open>Registering a key makes exactly that key resolve to the label: any key with another hash
  resolves as before, and after the label is removed again every lookup answers as it did before the
  registration.\<close>

theorem register_lookup_remove:
  assumes "register_key sha now l p raw t = Inr t'" and "sha raw \<notin> ak_hash ` set t"
  shows "get_label_by_hash (sha raw) t' = Some l
    \<and> (h \<noteq> sha raw \<longrightarrow> get_label_by_hash h t' = get_label_by_hash h t)
    \<and> remove_key l t' = (True, t)"
proof -
  from assms(1) have t': "t' = t @ [\<lparr>ak_label = l, ak_provider = p, ak_hash = sha raw,
      ak_prefix = key_prefix raw, ak_created_at = now, ak_last_used = None\<rparr>]"
    and l: "l \<notin> ak_label ` set t"
    by (auto simp: register_key_def split: if_splits)
  from assms(2) have "find (\<lambda>r. ak_hash r = sha raw) t = None" by (force simp: find_None_iff)
  moreover from l have "filter (\<lambda>r. ak_label r \<noteq> l) t = t" by (auto simp: filter_id_conv)
  ultimately show ?thesis
    by (auto simp: t' get_label_by_hash_def find_append remove_key_def split: option.split)
qed

section \<open>A concrete day\<close>

definition utc :: tzinfo where
  "utc = \<lparr>to_local = id, to_utc = id\<rparr>"

definition one_cap :: "usd \<Rightarrow> api_key_budgets" where
  "one_cap c = \<lparr>kb_keys = [(''ci'', \<lparr>daily_usd = Some c, monthly_usd = None\<rparr>)], kb_default = None,
     reset_timezone = ''UTC''\<rparr>"

definition a_day :: datetime where
  "a_day = \<lparr>year = 2026, month = 7, day = 15, tod = 1000\<rparr>"

definition ci_row :: "usd \<Rightarrow> request_row" where
  "ci_row c = \<lparr>rq_timestamp = a_day, rq_provider = ''openai'', rq_model = ''gpt-4o'', rq_cost_usd = c,
     rq_status_code = 200, rq_tags = Map.empty, rq_org_id = None, rq_team = None, rq_app_id = None,
     rq_customer_hash = None, rq_key_label = Some ''ci''\<rparr>"

lemma one_cap_daily: "daily_cap_for (one_cap c) (Some ''ci'') = Some c"
  by (simp add: daily_cap_for_def one_cap_def)

lemma ci_spend: "get_spend_by_key_label_today (fst (today_window_utc utc a_day)) ''ci'' [ci_row c] = c"
  by (simp add: get_spend_by_key_label_today_def ci_row_def today_window_utc_def utc_def before_eq_def
      a_day_def Let_def midnight_def toordinal_def)

theorem daily_cap_exact_witness:
  "fst (enforce_daily_cap utc (one_cap 5) [ci_row 6] a_day 3 4 (Some ''ci'') Map.empty)
     = Some (6, 5, next_midnight_in_tz utc a_day)"
  using daily_cap_exact[of utc "one_cap 5" a_day "[Log_request (ci_row 6)]" "[]" "[ci_row 6]" Map.empty
      "''ci''" 5 3 4]
  by (simp add: one_cap_daily ci_spend log_request_def invalidate_def nonneg_event_def ci_row_def fun_upd_def)
    (simp add: ci_spend[unfolded ci_row_def])

theorem daily_cap_latches_witness:
  "fst (enforce_daily_cap utc (one_cap 5) [ci_row 6, ci_row 1] a_day 3 4 (Some ''ci'') Map.empty) \<noteq> None"
proof -
  have coh: "cache_coherent (fst (today_window_utc utc a_day)) [ci_row 6] Map.empty"
    by (simp add: cache_coherent_def)
  have "fst (enforce_daily_cap utc (one_cap 5) [ci_row 6] a_day 1 2 (Some ''ci'') Map.empty) \<noteq> None"
    using enforce_coherent[OF coh one_cap_daily[of 5], of 1 2] by (simp add: ci_spend)
  from daily_cap_latches[OF coh one_cap_daily this, of "[Log_request (ci_row 1)]" "[ci_row 6, ci_row 1]" Map.empty 3 4]
  show ?thesis by (simp add: log_request_def invalidate_def nonneg_event_def ci_row_def fun_upd_def)
qed

theorem uncapped_never_blocked_witness:
  "enforce_daily_cap utc (one_cap 5) [ci_row 6] a_day 1 2 (Some ''prod'') Map.empty = (None, Map.empty)"
  using uncapped_never_blocked[of "one_cap 5" "Some ''prod''"] by (simp add: daily_cap_for_def one_cap_def)

theorem keys_today_correct_witness:
  "set (map kt_label (compute_keys_today utc (Some (one_cap 5)) a_day [ci_row 6] [])) = {''ci''}"
  using keys_today_correct[OF refl, of utc "Some (one_cap 5)" a_day "[ci_row 6]" "[]"]
  by (simp add: today_labels_def one_cap_def ci_row_def list_keys_def map_filter_simps)

theorem zero_cap_blocks_but_shows_ok_witness:
  "fst (enforce_daily_cap utc (one_cap 0) [] a_day 1 2 (Some ''ci'') Map.empty) \<noteq> None"
  using zero_cap_blocks_but_shows_ok[of utc a_day "[]" Map.empty "one_cap 0" "''ci''" 1 2]
  by (simp add: cache_coherent_def one_cap_daily)

theorem register_lookup_remove_witness:
  "get_label_by_hash ''k1'' [\<lparr>ak_label = ''ci'', ak_provider = ''openai'', ak_hash = ''k1'',
     ak_prefix = ''k1'', ak_created_at = 0, ak_last_used = None\<rparr>] = Some ''ci''"
  using register_lookup_remove[of id 0 "''ci''" "''openai''" "''k1''" "[]"]
  by (simp add: register_key_def key_prefix_def)

end
