(* ===== verification/Virtual_Keys.thy ===== *)
theory Virtual_Keys
  imports Key_Budget
begin

text \<open>
  \<open>burnlens/virtual_keys.py\<close>: issuing, resolving, listing and revoking virtual keys over the
  \<open>virtual_keys\<close> table (primary key: label). The random part of a token and SHA-256 are
  parameters. The JSON text of the allowlist is modelled by the list it encodes.
\<close>

definition VIRTUAL_PREFIX :: string where
  "VIRTUAL_PREFIX = ''bl-sk-''"

record virtual_key =
  vk_label :: string
  vk_team :: string
  vk_provider :: string
  upstream_key_env :: string
  allowed_models :: "string list option"
  monthly_budget_usd :: "usd option"
  token_prefix :: string

record virtual_key_row = virtual_key +
  vk_token_hash :: string
  vk_created_at :: instant
  revoked_at :: "instant option"

datatype vk_error = Vk_value_error | Virtual_key_exists

definition generate_token :: "string \<Rightarrow> string" where
  "generate_token rand = VIRTUAL_PREFIX @ rand"

definition looks_like_virtual_key :: "string option \<Rightarrow> bool" where
  "looks_like_virtual_key token = (case token of None \<Rightarrow> False | Some s \<Rightarrow> startswith s VIRTUAL_PREFIX)"

definition issue_key ::
    "(string \<Rightarrow> string) \<Rightarrow> string \<Rightarrow> instant \<Rightarrow> string \<Rightarrow> string \<Rightarrow> string \<Rightarrow> string \<Rightarrow> string list option
       \<Rightarrow> usd option \<Rightarrow> virtual_key_row table \<Rightarrow> vk_error + ((string \<times> string) \<times> virtual_key_row table)" where
  "issue_key sha256 rand now label team provider upstream allowed budget t =
     (if label = [] \<or> team = [] \<or> provider = [] \<or> upstream = [] then Inl Vk_value_error
      else let raw_token = generate_token rand;
               prefix = take (length VIRTUAL_PREFIX + 6) raw_token;
               allowed' = (if allowed = Some [] then None else allowed)
           in if label \<in> vk_label ` set t then Inl Virtual_key_exists
              else Inr ((raw_token, prefix),
                t @ [\<lparr>vk_label = label, vk_team = team, vk_provider = provider,
                  upstream_key_env = upstream, allowed_models = allowed', monthly_budget_usd = budget,
                  token_prefix = prefix, vk_token_hash = sha256 raw_token, vk_created_at = now,
                  revoked_at = None\<rparr>]))"

definition resolve :: "string \<Rightarrow> virtual_key_row table \<Rightarrow> virtual_key option" where
  "resolve h t = map_option virtual_key.truncate
     (find (\<lambda>r. vk_token_hash r = h \<and> revoked_at r = None) t)"

definition list_virtual_keys :: "virtual_key_row table \<Rightarrow> virtual_key_row list" where
  "list_virtual_keys t = sort_key (\<lambda>r. - vk_created_at r) t"

definition revoke_key :: "instant \<Rightarrow> string \<Rightarrow> virtual_key_row table \<Rightarrow> bool \<times> virtual_key_row table" where
  "revoke_key now label t =
     (\<exists>r \<in> set t. vk_label r = label \<and> revoked_at r = None,
      update_where (\<lambda>r. vk_label r = label \<and> revoked_at r = None) (\<lambda>r. r\<lparr>revoked_at := Some now\<rparr>) t)"

section \<open>Revocation is final\<close>

datatype vk_event =
    Vk_issue string instant string string string string "string list option" "usd option"
  | Vk_revoke instant string

fun vk_step :: "(string \<Rightarrow> string) \<Rightarrow> vk_event \<Rightarrow> virtual_key_row table \<Rightarrow> virtual_key_row table" where
  "vk_step sha (Vk_issue rand now label team provider upstream allowed budget) t =
     (case issue_key sha rand now label team provider upstream allowed budget t of
        Inl _ \<Rightarrow> t | Inr (_, t') \<Rightarrow> t')"
| "vk_step sha (Vk_revoke now label) t = snd (revoke_key now label t)"

text \<open>Tokens are random and SHA-256 has no known collisions: no later token has the given hash.\<close>

definition fresh_for :: "(string \<Rightarrow> string) \<Rightarrow> string \<Rightarrow> vk_event \<Rightarrow> bool" where
  "fresh_for sha h e = (case e of Vk_issue rand _ _ _ _ _ _ _ \<Rightarrow> sha (generate_token rand) \<noteq> h
     | Vk_revoke _ _ \<Rightarrow> True)"

lemma resolve_None_iff:
  "resolve h t = None \<longleftrightarrow> (\<forall>r \<in> set t. vk_token_hash r = h \<longrightarrow> revoked_at r \<noteq> None)"
  by (auto simp: resolve_def find_None_iff)

lemma vk_step_pk: "pk vk_label t \<Longrightarrow> pk vk_label (vk_step sha e t)"
proof (cases e)
  case (Vk_issue rand now label team provider upstream allowed budget)
  assume "pk vk_label t"
  then show ?thesis by (auto simp: Vk_issue issue_key_def pk_def Let_def)
qed (auto simp: revoke_key_def intro!: pk_intros)

lemma vk_step_dead: "fresh_for sha h e \<Longrightarrow> resolve h t = None \<Longrightarrow> resolve h (vk_step sha e t) = None"
  by (cases e) (auto simp: resolve_None_iff issue_key_def revoke_key_def Let_def fresh_for_def
      update_where_def)

interpretation revocation: absorbing_system "vk_step sha" "fresh_for sha h" "pk vk_label"
  "\<lambda>t. resolve h t = None" for sha h
  by unfold_locales (auto simp: vk_step_pk vk_step_dead)

text \<open>Revocation is final. Once the live key of a label is revoked, its token never resolves again,
  whatever keys are issued (with other tokens) or revoked afterwards.\<close>

theorem revoked_never_resolves:
  assumes "pk vk_label t" and "r \<in> set t" and "\<forall>r' \<in> set t. vk_token_hash r' = vk_token_hash r \<longrightarrow> r' = r"
    and "\<forall>e \<in> set es. fresh_for sha (vk_token_hash r) e"
  shows "resolve (vk_token_hash r) (run_steps (vk_step sha) es (snd (revoke_key now (vk_label r) t))) = None"
proof (rule revocation.run_absorbed[OF _ _ assms(4)])
  show "pk vk_label (snd (revoke_key now (vk_label r) t))"
    using vk_step_pk[OF assms(1), of sha "Vk_revoke now (vk_label r)"] by simp
  show "resolve (vk_token_hash r) (snd (revoke_key now (vk_label r) t)) = None"
    using assms(3) by (fastforce simp: resolve_None_iff revoke_key_def update_where_def)
qed

text \<open>An issued token resolves to exactly the key it was issued for; a label that is in use is refused
  and existing tokens keep resolving as before.\<close>

theorem issue_then_resolve:
  assumes "issue_key sha rand now label team prov up allowed budget t = Inr ((raw, prefix), t')"
    and "sha raw \<notin> vk_token_hash ` set t"
  shows "resolve (sha raw) t' = Some \<lparr>vk_label = label, vk_team = team, vk_provider = prov,
      upstream_key_env = up, allowed_models = (if allowed = Some [] then None else allowed),
      monthly_budget_usd = budget, token_prefix = prefix\<rparr>
    \<and> looks_like_virtual_key (Some raw)
    \<and> (h \<noteq> sha raw \<longrightarrow> resolve h t' = resolve h t)
    \<and> issue_key sha rand2 now2 label team2 prov2 up2 allowed2 budget2 t' \<in> {Inl Vk_value_error, Inl Virtual_key_exists}"
proof -
  from assms(1) have raw: "raw = generate_token rand"
    and t': "t' = t @ [\<lparr>vk_label = label, vk_team = team, vk_provider = prov, upstream_key_env = up,
        allowed_models = (if allowed = Some [] then None else allowed), monthly_budget_usd = budget,
        token_prefix = prefix, vk_token_hash = sha raw, vk_created_at = now, revoked_at = None\<rparr>]"
    by (auto simp: issue_key_def Let_def split: if_splits)
  from assms(2) have "find (\<lambda>r. vk_token_hash r = sha raw \<and> revoked_at r = None) t = None"
    by (force simp: find_None_iff)
  then show ?thesis
    by (auto simp: t' resolve_def find_append virtual_key.defs looks_like_virtual_key_def raw
        generate_token_def issue_key_def Let_def split: option.split)
qed

definition a_vkey :: "string \<Rightarrow> instant option \<Rightarrow> virtual_key_row" where
  "a_vkey h gone = \<lparr>vk_label = ''team-a'', vk_team = ''a'', vk_provider = ''openai'',
     upstream_key_env = ''OPENAI_API_KEY'', allowed_models = None, monthly_budget_usd = None,
     token_prefix = ''bl-sk-abcdef'', vk_token_hash = h, vk_created_at = 0, revoked_at = gone\<rparr>"

theorem revoked_never_resolves_witness:
  "resolve ''h'' (run_steps (vk_step id) [Vk_revoke 7 ''team-b''] (snd (revoke_key 5 ''team-a'' [a_vkey ''h'' None]))) = None"
  using revoked_never_resolves[of "[a_vkey ''h'' None]" "a_vkey ''h'' None" "[Vk_revoke 7 ''team-b'']" id 5]
  by (simp add: pk_def a_vkey_def fresh_for_def)

theorem issue_then_resolve_witness:
  "map_option vk_team (resolve ''bl-sk-abcdef'' [a_vkey ''bl-sk-abcdef'' None]) = Some ''a''"
  using issue_then_resolve[of id "''abcdef''" 0 "''team-a''" "''a''" "''openai''" "''OPENAI_API_KEY''" None None
      "[]" "''bl-sk-abcdef''" "''bl-sk-abcdef''" "[a_vkey ''bl-sk-abcdef'' None]"]
  by (simp add: issue_key_def generate_token_def VIRTUAL_PREFIX_def a_vkey_def Let_def)

end
