(* ===== verification/Pricing.thy ===== *)
theory Pricing
  imports BL_Prelude
begin

text \<open>
  \<open>burnlens/cost/pricing.py\<close> and the registry lookups it uses
  (\<open>providers/base.py\<close>, \<open>providers/registry.py\<close>): provider configurations, the pricing
  tables with their module-level cache, dated and long-context rate changes, and the
  exact-then-longest-prefix model lookup.

  A pricing entry (a JSON object) is its rate fields, its optional \<open>unit_prices\<close> object and the
  two lists \<open>scheduled\<close> and \<open>tiered\<close>; a model table is an association list in file order.
  The bundled JSON files are the parameter \<open>files\<close>; a date is its ordinal.
\<close>

section \<open>Selecting the best candidate in a loop\<close>

text \<open>
  Three loops of the module have one shape: keep the first candidate, replace it when a later one
  is better. \<open>pick\<close> is that loop.
\<close>

fun pick :: "('t \<Rightarrow> bool) \<Rightarrow> ('t \<Rightarrow> 't \<Rightarrow> bool) \<Rightarrow> 't list \<Rightarrow> 't option \<Rightarrow> 't option" where
  "pick elig better [] best = best"
| "pick elig better (x # xs) best =
     (if elig x \<and> (case best of None \<Rightarrow> True | Some b \<Rightarrow> better x b)
      then pick elig better xs (Some x) else pick elig better xs best)"

locale best_pick =
  fixes elig :: "'t \<Rightarrow> bool" and better :: "'t \<Rightarrow> 't \<Rightarrow> bool" and rank :: "'t \<Rightarrow> int"
  assumes better_rank: "better x b \<Longrightarrow> rank b \<le> rank x"
    and not_better_rank: "\<not> better x b \<Longrightarrow> rank x \<le> rank b"
begin

lemma pick_Some_start: "pick elig better xs (Some b) \<noteq> None"
  by (induction xs arbitrary: b) auto

lemma pick_None_iff: "pick elig better xs None = None \<longleftrightarrow> (\<forall>x \<in> set xs. \<not> elig x)"
  by (induction xs) (auto simp: pick_Some_start)

lemma pick_member:
  "pick elig better xs best = Some b \<Longrightarrow> best = Some b \<or> (b \<in> set xs \<and> elig b)"
  by (induction xs arbitrary: best) (auto split: if_splits)

lemma pick_ge_start: "pick elig better xs (Some c) = Some b \<Longrightarrow> rank c \<le> rank b"
  by (induction xs arbitrary: c) (auto split: if_splits dest: better_rank intro: order_trans)

lemma pick_max:
  "pick elig better xs best = Some b \<Longrightarrow> x \<in> set xs \<Longrightarrow> elig x \<Longrightarrow> rank x \<le> rank b"
proof (induction xs arbitrary: best)
  case (Cons y ys)
  show ?case
  proof (cases "x = y")
    case True
    show ?thesis
    proof (cases best)
      case None
      with Cons.prems True show ?thesis by (auto dest: pick_ge_start)
    next
      case (Some c)
      with Cons.prems True show ?thesis
        using not_better_rank[of y c] by (auto split: if_splits dest!: pick_ge_start)
    qed
  next
    case False
    with Cons show ?thesis by (auto split: if_splits)
  qed
qed simp

end

section \<open>Data\<close>

record provider_config =
  name :: string
  proxy_path :: string
  upstream_url :: string
  auth_header :: string
  streaming_format :: string
  pricing_key :: string
  env_var :: string
  prompt_tokens_include_cache :: bool

type_synonym registry = "(string \<times> provider_config) list" \<comment> \<open>\<open>_PROVIDERS\<close>, in registration order\<close>

record rate_card =
  rates :: "string \<rightharpoonup> real"
  unit_prices :: "(string \<rightharpoonup> real) option"

record pricing =
  card :: rate_card
  scheduled :: "(int \<times> rate_card) list option"
  tiered :: "(int \<times> rate_card) list option"

type_synonym models = "(string \<times> pricing) list"
type_synonym price_files = "string \<rightharpoonup> models"

section \<open>Registry\<close>

definition register :: "provider_config \<Rightarrow> registry \<Rightarrow> registry" where
  "register p reg =
     (if name p \<in> fst ` set reg then map (\<lambda>(n, q). if n = name p then (n, p) else (n, q)) reg
      else reg @ [(name p, p)])"

definition registry_get :: "registry \<Rightarrow> string \<Rightarrow> provider_config option" where
  "registry_get reg n = map_of reg n"

definition inclusive_prompt_token_providers :: "registry \<Rightarrow> string list" where
  "inclusive_prompt_token_providers reg =
     sort (map fst (filter (\<lambda>(n, p). prompt_tokens_include_cache p) reg))"

definition get_by_proxy_path :: "registry \<Rightarrow> string \<Rightarrow> provider_config option" where
  "get_by_proxy_path reg path =
     map_option snd (find (\<lambda>(n, p). startswith path (proxy_path p)) reg)"

definition strip_proxy_prefix :: "string \<Rightarrow> provider_config \<Rightarrow> string option" where
  "strip_proxy_prefix path p =
     (let rest = drop (length (proxy_path p)) path
      in if rest \<noteq> [] \<and> \<not> startswith rest ''/'' then None else Some rest)"

section \<open>Loading and caching the tables\<close>

definition resolve_pricing_key :: "registry \<Rightarrow> string \<Rightarrow> string" where
  "resolve_pricing_key reg provider =
     (case registry_get reg provider of None \<Rightarrow> provider | Some p \<Rightarrow> pricing_key p)"

definition load_provider :: "price_files \<Rightarrow> price_files \<Rightarrow> string \<Rightarrow> models \<times> price_files" where
  "load_provider files cache provider =
     (case cache provider of
        Some m \<Rightarrow> (m, cache)
      | None \<Rightarrow> (let m = (case files provider of None \<Rightarrow> [] | Some d \<Rightarrow> d)
                 in (m, cache(provider \<mapsto> m))))"

definition provider_models :: "price_files \<Rightarrow> string \<Rightarrow> models" where
  "provider_models files provider = fst (load_provider files Map.empty provider)"

section \<open>Rate changes\<close>

definition merge_card :: "rate_card \<Rightarrow> rate_card \<Rightarrow> rate_card" where
  "merge_card base over =
     \<lparr>rates = rates base ++ rates over,
      unit_prices = (case unit_prices over of None \<Rightarrow> unit_prices base | Some u \<Rightarrow> Some u)\<rparr>"

definition active_scheduled :: "int \<Rightarrow> (int \<times> rate_card) list \<Rightarrow> (int \<times> rate_card) option" where
  "active_scheduled today sched = pick (\<lambda>t. fst t \<le> today) (\<lambda>t a. fst a \<le> fst t) sched None"

definition apply_scheduled :: "pricing \<Rightarrow> int \<Rightarrow> pricing" where
  "apply_scheduled p today =
     (case scheduled p of None \<Rightarrow> p | Some [] \<Rightarrow> p
      | Some sched \<Rightarrow>
          (case active_scheduled today sched of
             None \<Rightarrow> p\<lparr>scheduled := None\<rparr>
           | Some (_, c) \<Rightarrow> p\<lparr>scheduled := None, card := merge_card (card p) c\<rparr>))"

definition active_tier :: "int \<Rightarrow> (int \<times> rate_card) list \<Rightarrow> (int \<times> rate_card) option" where
  "active_tier input_tokens tiers =
     pick (\<lambda>t. fst t < input_tokens) (\<lambda>t a. fst a < fst t) tiers None"

definition apply_tiered :: "pricing \<Rightarrow> int \<Rightarrow> pricing" where
  "apply_tiered p input_tokens =
     (case tiered p of None \<Rightarrow> p | Some [] \<Rightarrow> p
      | Some tiers \<Rightarrow>
          (case active_tier input_tokens tiers of
             None \<Rightarrow> p\<lparr>tiered := None\<rparr>
           | Some (_, c) \<Rightarrow> p\<lparr>tiered := None, card := merge_card (card p) c\<rparr>))"

section \<open>Model lookup\<close>

definition best_prefix :: "string \<Rightarrow> string list \<Rightarrow> string option" where
  "best_prefix model known =
     pick (\<lambda>k. startswith model k) (\<lambda>k b. length b < length k) known None"

definition base_pricing :: "models \<Rightarrow> string \<Rightarrow> pricing option" where
  "base_pricing ms model =
     (case map_of ms model of
        Some p \<Rightarrow> Some p
      | None \<Rightarrow> (case best_prefix model (map fst ms) of
                   None \<Rightarrow> None
                 | Some b \<Rightarrow> (if b = [] then None else map_of ms b)))"

definition get_model_pricing ::
    "price_files \<Rightarrow> registry \<Rightarrow> int \<Rightarrow> string \<Rightarrow> string \<Rightarrow> pricing option" where
  "get_model_pricing files reg today provider model =
     (let ms = provider_models files (resolve_pricing_key reg provider)
      in if ms = [] then None
         else map_option (\<lambda>p. apply_scheduled p today) (base_pricing ms model))"

section \<open>Interpretations of the selection contract\<close>

interpretation sched_pick: best_pick "\<lambda>t. fst t \<le> today" "\<lambda>t a. fst a \<le> fst t"
    "fst :: int \<times> rate_card \<Rightarrow> int" for today :: int
  by unfold_locales auto

interpretation tier_pick: best_pick "\<lambda>t. fst t < n" "\<lambda>t a. fst a < fst t"
    "fst :: int \<times> rate_card \<Rightarrow> int" for n :: int
  by unfold_locales auto

interpretation prefix_pick: best_pick "\<lambda>k. startswith model k" "\<lambda>k b. length b < length k"
    "\<lambda>k. int (length k)" for model :: string
  by unfold_locales auto

section \<open>Lemmas\<close>

lemma load_provider_hit:
  "cache p = Some m \<Longrightarrow> load_provider files cache p = (m, cache)"
  by (simp add: load_provider_def)

definition cache_agrees :: "price_files \<Rightarrow> price_files \<Rightarrow> bool" where
  "cache_agrees files cache \<longleftrightarrow> (\<forall>p m. cache p = Some m \<longrightarrow> m = provider_models files p)"

lemma load_provider_agrees:
  "cache_agrees files cache \<Longrightarrow> load_provider files cache p = (m, cache') \<Longrightarrow>
     m = provider_models files p \<and> cache_agrees files cache' \<and> cache' p = Some m"
  unfolding cache_agrees_def provider_models_def
  by (cases "cache p") (auto simp: load_provider_def Let_def split: if_splits)

lemma merge_card_rate:
  "rates (merge_card b c) k = (case rates c k of None \<Rightarrow> rates b k | Some r \<Rightarrow> Some r)"
  by (simp add: merge_card_def map_add_def)

lemma best_prefix_SomeD:
  "best_prefix model known = Some b \<Longrightarrow>
     b \<in> set known \<and> startswith model b \<and> (\<forall>k \<in> set known. startswith model k \<longrightarrow> length k \<le> length b)"
  using prefix_pick.pick_member[of model known None b] prefix_pick.pick_max[of model known None b]
  by (auto simp: best_prefix_def)

lemma best_prefix_NoneD:
  "best_prefix model known = None \<Longrightarrow> k \<in> set known \<Longrightarrow> \<not> startswith model k"
  using prefix_pick.pick_None_iff[of model known] by (auto simp: best_prefix_def)

lemma map_of_known: "k \<in> fst ` set ms \<Longrightarrow> \<exists>p. map_of ms k = Some p"
  by (metis not_None_eq map_of_eq_None_iff)

lemma base_pricing_None_iff:
  "base_pricing ms model = None \<longleftrightarrow>
     (\<forall>k \<in> fst ` set ms. startswith model k \<longrightarrow> k = []) \<and> model \<notin> fst ` set ms"
proof (cases "map_of ms model")
  case (Some p)
  then have "model \<in> fst ` set ms" by (force dest: map_of_SomeD)
  with Some show ?thesis by (simp add: base_pricing_def)
next
  case None
  then have n: "model \<notin> fst ` set ms" by (simp add: map_of_eq_None_iff)
  show ?thesis
  proof (cases "best_prefix model (map fst ms)")
    case bp: None
    have "\<not> startswith model k" if "k \<in> fst ` set ms" for k
      using best_prefix_NoneD[OF bp, of k] that by simp
    with None n bp show ?thesis by (auto simp: base_pricing_def)
  next
    case (Some b)
    note b = best_prefix_SomeD[OF Some]
    then obtain p where "map_of ms b = Some p" using map_of_known[of b ms] by auto
    with None n Some b show ?thesis by (auto simp: base_pricing_def)
  qed
qed

section \<open>Properties\<close>

fun load_all :: "price_files \<Rightarrow> price_files \<Rightarrow> string list \<Rightarrow> models list \<times> price_files" where
  "load_all files cache [] = ([], cache)"
| "load_all files cache (p # ps) =
     (let (m, cache') = load_provider files cache p; (ms, cache'') = load_all files cache' ps
      in (m # ms, cache''))"

lemma load_all_agrees:
  "cache_agrees files cache \<Longrightarrow> fst (load_all files cache ps) = map (provider_models files) ps"
proof (induction ps arbitrary: cache)
  case (Cons p ps)
  obtain m cache' where l: "load_provider files cache p = (m, cache')" by fastforce
  with Cons.prems have "m = provider_models files p" "cache_agrees files cache'"
    using load_provider_agrees by blast+
  with Cons.IH l show ?case by (simp add: split_def)
qed simp

text \<open>Loading provider tables through the module-level cache is transparent. Starting from the
  empty cache, any sequence of loads returns exactly what the price files hold, in order, however
  often a provider is loaded again.\<close>
theorem load_cache_transparent:
  "fst (load_all files Map.empty ps) = map (provider_models files) ps"
  by (rule load_all_agrees) (simp add: cache_agrees_def)

text \<open>The model lookup is sound and complete: it finds the entry of the longest known name that
  is a prefix of the requested model (an exact name being its own longest prefix), and it finds
  nothing only when no non-empty known name is a prefix of the model and the model is not listed.\<close>
theorem base_pricing_longest_prefix:
  "case base_pricing ms model of
     Some p \<Rightarrow> (\<exists>k. (k, p) \<in> set ms \<and> startswith model k
       \<and> (\<forall>k' \<in> fst ` set ms. startswith model k' \<longrightarrow> length k' \<le> length k))
   | None \<Rightarrow> model \<notin> fst ` set ms \<and> (\<forall>k \<in> fst ` set ms. startswith model k \<longrightarrow> k = [])"
proof (cases "base_pricing ms model")
  case None
  then show ?thesis using base_pricing_None_iff[of ms model] by simp
next
  case (Some p)
  show ?thesis
  proof (cases "map_of ms model")
    case (Some q)
    with \<open>base_pricing ms model = Some p\<close> have "(model, p) \<in> set ms"
      by (auto simp: base_pricing_def dest: map_of_SomeD)
    with \<open>base_pricing ms model = Some p\<close> show ?thesis
      by (auto intro!: exI[of _ model] dest: startswith_length)
  next
    case None
    with Some obtain b where b: "best_prefix model (map fst ms) = Some b" "map_of ms b = Some p"
      by (auto simp: base_pricing_def split: option.splits if_splits)
    with Some best_prefix_SomeD[OF b(1)] show ?thesis
      by (auto intro!: exI[of _ b] dest: map_of_SomeD)
  qed
qed

text \<open>Rows of the bundled price files, used as concrete inputs.\<close>

definition flat_pricing :: "real \<Rightarrow> real \<Rightarrow> pricing" where
  "flat_pricing inp out =
     \<lparr>card = \<lparr>rates = [''input_per_million'' \<mapsto> inp, ''output_per_million'' \<mapsto> out],
        unit_prices = None\<rparr>, scheduled = None, tiered = None\<rparr>"

definition gemini_25_pro :: pricing where
  "gemini_25_pro = (flat_pricing (125 / 100) 10)\<lparr>tiered := Some [(200000,
     \<lparr>rates = [''input_per_million'' \<mapsto> 25 / 10, ''output_per_million'' \<mapsto> 15],
      unit_prices = None\<rparr>)]\<rparr>"

definition openai_models :: models where
  "openai_models = [(''gpt-4o'', flat_pricing (25 / 10) 10),
     (''gpt-4o-mini'', flat_pricing (15 / 100) (60 / 100))]"

theorem base_pricing_longest_prefix_witness:
  "\<exists>p. base_pricing openai_models ''gpt-4o-mini-2024'' = Some p
     \<and> (\<exists>k. (k, p) \<in> set openai_models \<and> startswith ''gpt-4o-mini-2024'' k \<and> 11 \<le> length k)"
proof -
  have "base_pricing openai_models ''gpt-4o-mini-2024'' = Some (flat_pricing (15 / 100) (60 / 100))"
    by (simp add: base_pricing_def openai_models_def best_prefix_def)
  moreover have "''gpt-4o-mini'' \<in> fst ` set openai_models" "startswith ''gpt-4o-mini-2024'' ''gpt-4o-mini''"
    by (simp_all add: openai_models_def)
  ultimately show ?thesis
    using base_pricing_longest_prefix[where ms = openai_models and model = "''gpt-4o-mini-2024''"]
    by fastforce
qed

lemma active_tier_SomeD:
  "active_tier n ts = Some t \<Longrightarrow> t \<in> set ts \<and> fst t < n \<and> (\<forall>t' \<in> set ts. fst t' < n \<longrightarrow> fst t' \<le> fst t)"
  using tier_pick.pick_member[of n ts None t] tier_pick.pick_max[of n ts None t]
  by (auto simp: active_tier_def)

lemma active_tier_None_iff: "active_tier n ts = None \<longleftrightarrow> (\<forall>t \<in> set ts. n \<le> fst t)"
  using tier_pick.pick_None_iff[of n ts] by (auto simp: active_tier_def not_less)

text \<open>The long-context tier. For a model with tiers, the request is billed at the base rates
  when its prompt exceeds no threshold (a threshold is exclusive), and otherwise with every rate
  that the tier of the highest exceeded threshold lists taken from that tier, all others from the
  base.\<close>
theorem apply_tiered_highest:
  assumes "tiered p = Some ts" and "ts \<noteq> []"
  shows "((\<forall>t \<in> set ts. n \<le> fst t) \<and> card (apply_tiered p n) = card p)
    \<or> (\<exists>t \<in> set ts. fst t < n \<and> (\<forall>t' \<in> set ts. fst t' < n \<longrightarrow> fst t' \<le> fst t)
         \<and> (\<forall>k. rates (card (apply_tiered p n)) k =
              (case rates (snd t) k of None \<Rightarrow> rates (card p) k | Some r \<Rightarrow> Some r)))"
proof (cases "active_tier n ts")
  case None
  with assms have "card (apply_tiered p n) = card p"
    by (cases ts) (simp_all add: apply_tiered_def)
  with None show ?thesis by (simp add: active_tier_None_iff)
next
  case (Some t)
  with assms have "card (apply_tiered p n) = merge_card (card p) (snd t)"
    by (cases ts) (simp_all add: apply_tiered_def split: prod.splits)
  with active_tier_SomeD[OF Some] show ?thesis by (auto simp: merge_card_rate)
qed

theorem apply_tiered_highest_witness:
  "tiered gemini_25_pro = Some [(200000, \<lparr>rates = [''input_per_million'' \<mapsto> 25 / 10,
      ''output_per_million'' \<mapsto> 15], unit_prices = None\<rparr>)]
   \<and> rates (card (apply_tiered gemini_25_pro 200001)) ''output_per_million'' = Some 15
   \<and> card (apply_tiered gemini_25_pro 200000) = card gemini_25_pro"
proof -
  let ?ts = "[(200000, \<lparr>rates = [''input_per_million'' \<mapsto> 25 / 10,
      ''output_per_million'' \<mapsto> 15], unit_prices = None\<rparr>)]"
  have t: "tiered gemini_25_pro = Some ?ts" by (simp add: gemini_25_pro_def)
  show ?thesis
    using t apply_tiered_highest[OF t, of 200001] apply_tiered_highest[OF t, of 200000] by auto
qed

end
