(* ===== verification/Cost.thy ===== *)
theory Cost
  imports Pricing
begin

text \<open>
  \<open>burnlens/cost/calculator.py\<close>: token usage records, the routing of a wire-level
  (provider, model) pair to a pricing entry, the cost formula, the process-global set of unpriced
  models, and the extraction of usage from provider response bodies (JSON values).

  \<open>price_env\<close> collects what the module reads from its surroundings: the bundled price files,
  the provider registry and today's date.
\<close>

section \<open>Usage and environment\<close>

record token_usage =
  input_tokens :: int
  output_tokens :: int
  reasoning_tokens :: int
  cache_read_tokens :: int
  cache_write_tokens :: int
  audio_input_tokens :: int
  audio_output_tokens :: int
  units :: "(string \<times> real) list"

definition no_usage :: token_usage where
  "no_usage = \<lparr>input_tokens = 0, output_tokens = 0, reasoning_tokens = 0, cache_read_tokens = 0,
     cache_write_tokens = 0, audio_input_tokens = 0, audio_output_tokens = 0, units = []\<rparr>"

record price_env =
  pe_files :: price_files
  pe_registry :: registry
  pe_today :: int

section \<open>Routing to a pricing entry\<close>

definition cursor_underlying :: "string \<Rightarrow> (string \<times> string) option" where
  "cursor_underlying model =
     (if model = ''cursor-auto-sonnet-est'' then Some (''anthropic'', ''claude-sonnet-4-6'')
      else if startswith model ''claude'' then Some (''anthropic'', model)
      else if startswith model ''gpt'' \<or> startswith model ''o1'' \<or> startswith model ''o3''
              \<or> startswith model ''o4'' then Some (''openai'', model)
      else None)"

definition geo_char :: "char \<Rightarrow> bool" where
  "geo_char c = (let k = of_char c :: nat in (97 \<le> k \<and> k \<le> 122) \<or> (48 \<le> k \<and> k \<le> 57) \<or> k = 45)"

definition strip_geo_prefix :: "string \<Rightarrow> string" where
  "strip_geo_prefix model =
     (let rest = dropWhile geo_char model
      in if takeWhile geo_char model \<noteq> [] \<and> startswith rest ''.anthropic.'' then drop 1 rest
         else model)"

definition resolve_vendor_pricing :: "price_env \<Rightarrow> string \<Rightarrow> string \<Rightarrow> pricing option" where
  "resolve_vendor_pricing env provider model =
     get_model_pricing (pe_files env) (pe_registry env) (pe_today env) provider
       (if provider = ''bedrock'' then strip_geo_prefix model else model)"

definition resolve_pricing :: "price_env \<Rightarrow> string \<Rightarrow> string \<Rightarrow> pricing option" where
  "resolve_pricing env provider model =
     (if provider = ''cursor''
      then (case cursor_underlying model of
              None \<Rightarrow> None
            | Some (p, m) \<Rightarrow> resolve_vendor_pricing env p m)
      else resolve_vendor_pricing env provider model)"

definition is_model_priced :: "price_env \<Rightarrow> string \<Rightarrow> string \<Rightarrow> bool" where
  "is_model_priced env provider model \<longleftrightarrow> resolve_pricing env provider model \<noteq> None"

datatype pricing_class = Unpriced | Calculated | Estimated

definition pricing_class_for :: "price_env \<Rightarrow> string \<Rightarrow> string \<Rightarrow> string option \<Rightarrow> pricing_class" where
  "pricing_class_for env provider model source =
     (if \<not> is_model_priced env provider model then Unpriced
      else if startswith (case source of None \<Rightarrow> [] | Some s \<Rightarrow> s) ''scan_'' then Estimated
      else Calculated)"

section \<open>The cost formula\<close>

definition rate :: "pricing \<Rightarrow> string \<Rightarrow> real \<Rightarrow> real" where
  "rate p k d = (case rates (card p) k of None \<Rightarrow> d | Some r \<Rightarrow> r)"

definition unit_price :: "pricing \<Rightarrow> string \<Rightarrow> real" where
  "unit_price p u = (case unit_prices (card p) of None \<Rightarrow> 0
     | Some m \<Rightarrow> (case m u of None \<Rightarrow> 0 | Some r \<Rightarrow> r))"

definition includes_cache :: "registry \<Rightarrow> string \<Rightarrow> bool" where
  "includes_cache reg provider \<longleftrightarrow> provider \<in> set (inclusive_prompt_token_providers reg)"

definition usage_cost :: "bool \<Rightarrow> pricing \<Rightarrow> token_usage \<Rightarrow> usd" where
  "usage_cost inclusive p0 u =
     (let p = apply_tiered p0 (input_tokens u);
          per_million = 1000000;
          cached_is_subset = (if inclusive then cache_read_tokens u else 0);
          billable_input = max 0 (input_tokens u - cached_is_subset - audio_input_tokens u);
          input_cost = of_int billable_input * rate p ''input_per_million'' 0 / per_million;
          billable_output = max 0 (output_tokens u - audio_output_tokens u);
          output_cost = of_int billable_output * rate p ''output_per_million'' 0 / per_million;
          reasoning_rate = rate p ''reasoning_per_million'' (rate p ''output_per_million'' 0);
          reasoning_cost = of_int (reasoning_tokens u) * reasoning_rate / per_million;
          cache_read_cost =
            of_int (cache_read_tokens u) * rate p ''cache_read_per_million'' 0 / per_million;
          cache_write_cost =
            of_int (cache_write_tokens u) * rate p ''cache_write_per_million'' 0 / per_million;
          audio_input_cost =
            of_int (audio_input_tokens u)
              * rate p ''audio_input_per_million'' (rate p ''input_per_million'' 0) / per_million;
          audio_output_cost =
            of_int (audio_output_tokens u)
              * rate p ''audio_output_per_million'' (rate p ''output_per_million'' 0) / per_million;
          units_cost = (\<Sum>(n, c) \<leftarrow> units u. c * unit_price p n)
      in input_cost + output_cost + reasoning_cost + cache_read_cost + cache_write_cost
         + audio_input_cost + audio_output_cost + units_cost)"

type_synonym unpriced_seen = "(string \<times> string) set"

definition calculate_cost ::
    "price_env \<Rightarrow> string \<Rightarrow> string \<Rightarrow> token_usage \<Rightarrow> unpriced_seen \<Rightarrow> usd \<times> unpriced_seen" where
  "calculate_cost env provider model u seen =
     (case resolve_pricing env provider model of
        None \<Rightarrow> (0, insert (provider, model) seen)
      | Some p \<Rightarrow> (usage_cost (includes_cache (pe_registry env) provider) p u, seen))"

definition drain_unpriced_models :: "unpriced_seen \<Rightarrow> (string \<times> string) list \<times> unpriced_seen" where
  "drain_unpriced_models seen = (sorted_list_of_set seen, {})"

abbreviation cost_of :: "price_env \<Rightarrow> string \<Rightarrow> string \<Rightarrow> token_usage \<Rightarrow> usd" where
  "cost_of env provider model u \<equiv> fst (calculate_cost env provider model u {})"

section \<open>Usage extraction from response bodies\<close>

text \<open>\<open>d.get(k) or {}\<close>, followed by dictionary access: \<open>None\<close> when the value is truthy but not an
  object, where Python raises AttributeError.\<close>

definition obj_or_empty :: "(string \<times> json) list \<Rightarrow> string \<Rightarrow> (string \<times> json) list option" where
  "obj_or_empty d k =
     (case map_of d k of None \<Rightarrow> Some []
      | Some j \<Rightarrow> (if \<not> json_truthy j then Some []
                  else case j of JObj o' \<Rightarrow> Some o' | _ \<Rightarrow> None))"

text \<open>\<open>d.get(k, 0)\<close> used as an integer; a present value that is no integer has no usage
  (\<open>None\<close>), where Python fails in the arithmetic.\<close>

definition int_or_0 :: "(string \<times> json) list \<Rightarrow> string \<Rightarrow> int option" where
  "int_or_0 d k = (case map_of d k of None \<Rightarrow> Some 0 | Some (JInt n) \<Rightarrow> Some n | Some _ \<Rightarrow> None)"

definition extract_usage_openai :: "(string \<times> json) list \<Rightarrow> token_usage option" where
  "extract_usage_openai response =
     Option.bind (obj_or_empty response ''usage'') (\<lambda>u.
     Option.bind (obj_or_empty u ''completion_tokens_details'') (\<lambda>details.
     Option.bind (obj_or_empty u ''prompt_tokens_details'') (\<lambda>prompt_details.
     Option.bind (int_or_0 details ''reasoning_tokens'') (\<lambda>reasoning.
     Option.bind (int_or_0 u ''prompt_tokens'') (\<lambda>prompt.
     Option.bind (int_or_0 u ''completion_tokens'') (\<lambda>completion.
     Option.bind (int_or_0 prompt_details ''cached_tokens'') (\<lambda>cached.
     Option.bind (int_or_0 prompt_details ''audio_tokens'') (\<lambda>audio_in.
     Option.bind (int_or_0 details ''audio_tokens'') (\<lambda>audio_out.
       Some (no_usage\<lparr>input_tokens := prompt, output_tokens := max 0 (completion - reasoning),
         reasoning_tokens := reasoning, cache_read_tokens := cached,
         audio_input_tokens := audio_in, audio_output_tokens := audio_out\<rparr>))))))))))"

definition extract_usage_anthropic :: "(string \<times> json) list \<Rightarrow> token_usage option" where
  "extract_usage_anthropic response =
     Option.bind (obj_or_empty response ''usage'') (\<lambda>u.
     Option.bind (int_or_0 u ''input_tokens'') (\<lambda>inp.
     Option.bind (int_or_0 u ''output_tokens'') (\<lambda>out.
     Option.bind (int_or_0 u ''cache_read_input_tokens'') (\<lambda>cr.
     Option.bind (int_or_0 u ''cache_creation_input_tokens'') (\<lambda>cw.
       Some (no_usage\<lparr>input_tokens := inp, output_tokens := out, cache_read_tokens := cr,
         cache_write_tokens := cw\<rparr>))))))"

definition extract_usage_google :: "(string \<times> json) list \<Rightarrow> token_usage option" where
  "extract_usage_google response =
     Option.bind (obj_or_empty response ''usageMetadata'') (\<lambda>meta.
     Option.bind (int_or_0 meta ''promptTokenCount'') (\<lambda>inp.
     Option.bind (int_or_0 meta ''candidatesTokenCount'') (\<lambda>out.
       Some (no_usage\<lparr>input_tokens := inp, output_tokens := out\<rparr>))))"

section \<open>Well-formedness\<close>

definition wf_usage :: "token_usage \<Rightarrow> bool" where
  "wf_usage u \<longleftrightarrow> 0 \<le> reasoning_tokens u \<and> 0 \<le> cache_read_tokens u \<and> 0 \<le> cache_write_tokens u
     \<and> 0 \<le> audio_input_tokens u \<and> 0 \<le> audio_output_tokens u \<and> (\<forall>(n, c) \<in> set (units u). 0 \<le> c)"

definition card_nonneg :: "rate_card \<Rightarrow> bool" where
  "card_nonneg c \<longleftrightarrow> (\<forall>k r. rates c k = Some r \<longrightarrow> 0 \<le> r)
     \<and> (\<forall>m n r. unit_prices c = Some m \<longrightarrow> m n = Some r \<longrightarrow> 0 \<le> r)"

definition pricing_nonneg :: "pricing \<Rightarrow> bool" where
  "pricing_nonneg p \<longleftrightarrow> card_nonneg (card p)
     \<and> (\<forall>ts t. tiered p = Some ts \<longrightarrow> t \<in> set ts \<longrightarrow> card_nonneg (snd t))"

definition rates_ok :: "price_env \<Rightarrow> string \<Rightarrow> string \<Rightarrow> bool" where
  "rates_ok env provider model \<longleftrightarrow>
     (\<forall>p. resolve_pricing env provider model = Some p \<longrightarrow> pricing_nonneg p)"

section \<open>Lemmas\<close>

lemma cursor_underlying_vendor:
  "cursor_underlying model = Some (p, m) \<Longrightarrow> p = ''anthropic'' \<or> p = ''openai''"
  by (auto simp: cursor_underlying_def split: if_splits)

lemma resolve_pricing_rec:
  "resolve_pricing env provider model =
     (if provider = ''cursor''
      then (case cursor_underlying model of None \<Rightarrow> None | Some (p, m) \<Rightarrow> resolve_pricing env p m)
      else resolve_vendor_pricing env provider model)"
  by (auto simp: resolve_pricing_def split: option.splits dest: cursor_underlying_vendor)

lemma card_nonneg_merge: "card_nonneg b \<Longrightarrow> card_nonneg c \<Longrightarrow> card_nonneg (merge_card b c)"
  by (auto simp: card_nonneg_def merge_card_def split: option.splits)

lemma apply_tiered_nonneg: "pricing_nonneg p \<Longrightarrow> card_nonneg (card (apply_tiered p n))"
proof -
  assume p: "pricing_nonneg p"
  have "card_nonneg c" if "tiered p = Some ts" "active_tier n ts = Some (k, c)" for ts k c
  proof -
    have "(k, c) \<in> set ts"
      using that tier_pick.pick_member[of n ts None "(k, c)"] by (auto simp: active_tier_def)
    with p that show ?thesis unfolding pricing_nonneg_def by (metis snd_conv)
  qed
  with p show ?thesis
    by (auto simp: apply_tiered_def pricing_nonneg_def card_nonneg_merge
        split: option.splits list.splits)
qed

lemma rate_nonneg: "card_nonneg (card p) \<Longrightarrow> 0 \<le> d \<Longrightarrow> 0 \<le> rate p k d"
  by (auto simp: rate_def card_nonneg_def split: option.splits)

lemma unit_price_nonneg: "card_nonneg (card p) \<Longrightarrow> 0 \<le> unit_price p u"
  by (auto simp: unit_price_def card_nonneg_def split: option.splits)

lemma usage_cost_nonneg:
  assumes "pricing_nonneg p" and "wf_usage u"
  shows "0 \<le> usage_cost inc p u"
proof -
  note c = apply_tiered_nonneg[OF assms(1), of "input_tokens u"]
  have "0 \<le> (\<Sum>(n, c) \<leftarrow> units u. c * unit_price (apply_tiered p (input_tokens u)) n)"
    using assms(2) by (intro sum_list_nonneg) (auto simp: wf_usage_def unit_price_nonneg[OF c])
  then show ?thesis
    using assms(2) unfolding usage_cost_def Let_def
    by (intro add_nonneg_nonneg divide_nonneg_pos mult_nonneg_nonneg rate_nonneg[OF c])
      (auto simp: wf_usage_def)
qed

lemma calculate_cost_fst: "fst (calculate_cost env p m u seen) = cost_of env p m u"
  by (simp add: calculate_cost_def split: option.splits)

lemma cost_of_unpriced: "\<not> is_model_priced env p m \<Longrightarrow> cost_of env p m u = 0"
  by (simp add: calculate_cost_def is_model_priced_def)

section \<open>What a costing promises its clients\<close>

locale cost_model =
  fixes cost :: "string \<Rightarrow> string \<Rightarrow> token_usage \<Rightarrow> usd"
    and priced :: "string \<Rightarrow> string \<Rightarrow> bool"
    and good :: "string \<Rightarrow> string \<Rightarrow> bool"
    and usable :: "token_usage \<Rightarrow> bool"
  assumes unpriced_zero: "\<not> priced p m \<Longrightarrow> cost p m u = 0"
    and nonneg: "good p m \<Longrightarrow> usable u \<Longrightarrow> 0 \<le> cost p m u"
begin

lemma positive_priced: "0 < cost p m u \<Longrightarrow> priced p m"
  using unpriced_zero by fastforce

lemma total_nonneg:
  "\<forall>(p, m, u) \<in> set xs. good p m \<and> usable u \<Longrightarrow> 0 \<le> (\<Sum>(p, m, u) \<leftarrow> xs. cost p m u)"
  by (intro sum_list_nonneg) (auto intro: nonneg)

end

interpretation calc: cost_model "cost_of env" "is_model_priced env" "rates_ok env" wf_usage
  for env :: price_env
proof
  show "\<not> is_model_priced env p m \<Longrightarrow> cost_of env p m u = 0" for p m u
    by (rule cost_of_unpriced)
  show "rates_ok env p m \<Longrightarrow> wf_usage u \<Longrightarrow> 0 \<le> cost_of env p m u" for p m u
    by (auto simp: calculate_cost_def rates_ok_def usage_cost_nonneg split: option.splits)
qed

section \<open>Properties\<close>

fun cost_calls ::
    "price_env \<Rightarrow> (string \<times> string \<times> token_usage) list \<Rightarrow> unpriced_seen \<Rightarrow> unpriced_seen" where
  "cost_calls env [] seen = seen"
| "cost_calls env ((p, m, u) # cs) seen = cost_calls env cs (snd (calculate_cost env p m u seen))"

lemma calculate_cost_seen:
  "snd (calculate_cost env p m u seen) =
     (if is_model_priced env p m then seen else insert (p, m) seen)"
  by (auto simp: calculate_cost_def is_model_priced_def split: option.splits)

lemma cost_calls_seen:
  "cost_calls env cs seen =
     seen \<union> {(p, m). (\<exists>u. (p, m, u) \<in> set cs) \<and> \<not> is_model_priced env p m}"
proof (induction env cs seen rule: cost_calls.induct)
  case (2 env p m u cs seen)
  then show ?case by (cases "is_model_priced env p m") (auto simp: calculate_cost_seen)
qed simp

lemma finite_cost_calls: "finite seen \<Longrightarrow> finite (cost_calls env cs seen)"
proof (induction env cs seen rule: cost_calls.induct)
  case (2 env p m u cs seen)
  then show ?case by (simp add: calculate_cost_seen)
qed simp

text \<open>No request is silently free. After any sequence of costings, draining the unpriced set
  returns, sorted and without duplicates, exactly the (provider, model) pairs that were costed and
  have no pricing entry, and leaves the set empty.\<close>
theorem drain_reports_unpriced:
  "set (fst (drain_unpriced_models (cost_calls env cs {}))) =
     {(p, m). (\<exists>u. (p, m, u) \<in> set cs) \<and> \<not> is_model_priced env p m}
   \<and> sorted (fst (drain_unpriced_models (cost_calls env cs {})))
   \<and> distinct (fst (drain_unpriced_models (cost_calls env cs {})))
   \<and> snd (drain_unpriced_models (cost_calls env cs {})) = {}"
proof -
  have "finite (cost_calls env cs {})" by (simp add: finite_cost_calls)
  then show ?thesis
    by (simp add: drain_unpriced_models_def cost_calls_seen)
qed

text \<open>A concrete environment: the OpenAI rows of the price files and the OpenAI provider.\<close>

definition openai_config :: provider_config where
  "openai_config = \<lparr>name = ''openai'', proxy_path = ''/proxy/openai'',
     upstream_url = ''https://api.openai.com'', auth_header = ''Authorization'',
     streaming_format = ''sse-openai'', pricing_key = ''openai'', env_var = ''OPENAI_BASE_URL'',
     prompt_tokens_include_cache = True\<rparr>"

definition openai_env :: price_env where
  "openai_env = \<lparr>pe_files = [''openai'' \<mapsto> openai_models],
     pe_registry = [(''openai'', openai_config)], pe_today = 739000\<rparr>"

lemma openai_env_gpt4o:
  "resolve_pricing openai_env ''openai'' ''gpt-4o'' = Some (flat_pricing (25 / 10) 10)"
  by (simp add: resolve_pricing_def resolve_vendor_pricing_def get_model_pricing_def openai_env_def
      provider_models_def load_provider_def resolve_pricing_key_def registry_get_def
      openai_config_def openai_models_def base_pricing_def apply_scheduled_def flat_pricing_def
      Let_def)

lemma flat_pricing_nonneg: "0 \<le> i \<Longrightarrow> 0 \<le> j \<Longrightarrow> pricing_nonneg (flat_pricing i j)"
  by (auto simp: flat_pricing_def pricing_nonneg_def card_nonneg_def split: if_splits)

text \<open>A cost is never negative: with non-negative rates in the resolved entry and non-negative
  token and unit counts (the plain input and output counts may even be negative, they are clamped)
  the computed cost is at least zero.\<close>
theorem calculate_cost_nonneg:
  assumes "rates_ok env provider model" and "wf_usage u"
  shows "0 \<le> fst (calculate_cost env provider model u seen)"
  unfolding calculate_cost_fst[of env provider model u seen] by (rule calc.nonneg[OF assms])

theorem calculate_cost_nonneg_witness:
  "0 \<le> fst (calculate_cost openai_env ''openai'' ''gpt-4o'' (no_usage\<lparr>input_tokens := 7\<rparr>) {})"
proof -
  have "rates_ok openai_env ''openai'' ''gpt-4o''"
    by (simp add: rates_ok_def openai_env_gpt4o flat_pricing_nonneg)
  moreover have "wf_usage (no_usage\<lparr>input_tokens := 7\<rparr>)" by (simp add: wf_usage_def no_usage_def)
  ultimately show ?thesis by (rule calculate_cost_nonneg)
qed

lemma apply_tiered_untiered: "tiered p = None \<Longrightarrow> apply_tiered p n = p"
  by (simp add: apply_tiered_def)

text \<open>Inclusive and disjoint prompt counts agree. For a model without long-context tiers, a
  provider that reports the whole prompt with the cached share inside it is billed exactly like a
  provider that reports the uncached share and the cached share separately.\<close>
theorem inclusive_matches_disjoint:
  assumes "tiered p = None"
  shows "usage_cost True p u =
    usage_cost False p (u\<lparr>input_tokens := input_tokens u - cache_read_tokens u\<rparr>)"
  using assms by (simp add: usage_cost_def apply_tiered_untiered Let_def)

theorem inclusive_matches_disjoint_witness:
  "usage_cost True (flat_pricing 3 15) (no_usage\<lparr>input_tokens := 5000, cache_read_tokens := 3000\<rparr>)
     = usage_cost False (flat_pricing 3 15) (no_usage\<lparr>input_tokens := 2000, cache_read_tokens := 3000\<rparr>)"
  using inclusive_matches_disjoint[of "flat_pricing 3 15"
      "no_usage\<lparr>input_tokens := 5000, cache_read_tokens := 3000\<rparr>"]
  by (simp add: flat_pricing_def no_usage_def)

text \<open>The body of an OpenAI response with prompt, cached, completion and reasoning counts.\<close>

definition openai_body :: "int \<Rightarrow> int \<Rightarrow> int \<Rightarrow> int \<Rightarrow> (string \<times> json) list" where
  "openai_body a c b r = [(''usage'', JObj [(''prompt_tokens'', JInt a), (''completion_tokens'', JInt b),
     (''prompt_tokens_details'', JObj [(''cached_tokens'', JInt c)]),
     (''completion_tokens_details'', JObj [(''reasoning_tokens'', JInt r)])])]"

lemma extract_openai_body:
  "extract_usage_openai (openai_body a c b r) =
     Some (no_usage\<lparr>input_tokens := a, output_tokens := max 0 (b - r), reasoning_tokens := r,
       cache_read_tokens := c\<rparr>)"
  by (simp add: extract_usage_openai_def openai_body_def obj_or_empty_def int_or_0_def no_usage_def)

text \<open>From the OpenAI response body to the bill, every token is billed exactly once. The
  completion count includes the reasoning tokens and the prompt count includes the cached ones; with
  no separate reasoning rate and no tiers the cost is the uncached prompt at the input rate, the
  cached share at the cache-read rate and each completion token once at the output rate.\<close>
theorem openai_billed_once:
  assumes "0 \<le> r" and "r \<le> b" and "c \<le> a"
    and "tiered p = None" and "rates (card p) ''reasoning_per_million'' = None"
  shows "map_option (usage_cost True p) (extract_usage_openai (openai_body a c b r)) =
    Some ((of_int (a - c) * rate p ''input_per_million'' 0
      + of_int c * rate p ''cache_read_per_million'' 0
      + of_int b * rate p ''output_per_million'' 0) / 1000000)"
proof -
  let ?I = "rate p ''input_per_million'' 0" and ?O = "rate p ''output_per_million'' 0"
    and ?C = "rate p ''cache_read_per_million'' 0"
    and ?u = "no_usage\<lparr>input_tokens := a, output_tokens := max 0 (b - r), reasoning_tokens := r,
       cache_read_tokens := c\<rparr>"
  have rr: "rate p ''reasoning_per_million'' d = d" for d using assms(5) by (simp add: rate_def)
  have "max 0 (max 0 (b - r)) = b - r" "max 0 (a - c) = a - c" using assms by auto
  then have "usage_cost True p ?u = of_int (a - c) * ?I / 1000000 + of_int (b - r) * ?O / 1000000
      + of_int r * ?O / 1000000 + of_int c * ?C / 1000000"
    using assms(4) by (simp add: usage_cost_def apply_tiered_untiered Let_def no_usage_def rr)
  also have "\<dots> = (of_int (a - c) * ?I + of_int c * ?C + of_int b * ?O) / 1000000"
    by (simp add: field_simps)
  finally show ?thesis by (simp add: extract_openai_body)
qed

theorem openai_billed_once_witness:
  "map_option (usage_cost True (flat_pricing 2 8)) (extract_usage_openai (openai_body 1000 400 300 100))
     = Some ((600 * 2 + 300 * 8) / 1000000)"
  using openai_billed_once[of 100 300 400 1000 "flat_pricing 2 8"]
  by (simp add: flat_pricing_def rate_def)

end
