(* ===== verification/Budget_Engine.thy ===== *)
theory Budget_Engine
  imports Ledger Cost "HOL-Library.Monad_Syntax"
begin

text \<open>
  \<open>burnlens/budget_engine.py\<close>: token estimation from a request body, budget policies, the
  reservation of an estimated cost against the \<open>budget_counters\<close> table and its reconciliation
  with the actual cost. \<open>None\<close> of an option result is an exception of the Python code.

  The table is the list of its rows (primary key policy name and period start). A connection that
  is closed without commit leaves the table as it was, so a denied reservation returns it unchanged.
\<close>

section \<open>Estimating a request\<close>

definition json_len :: "json \<Rightarrow> int option" where
  "json_len j = (case j of JStr s \<Rightarrow> Some (int (length s)) | JArr xs \<Rightarrow> Some (int (length xs))
     | JObj kvs \<Rightarrow> Some (int (length kvs)) | _ \<Rightarrow> None)"

text \<open>\<open>for part in parts: if isinstance(part, dict) and "text" in part: n += len(part["text"])\<close>\<close>

fun text_chars :: "json list \<Rightarrow> int option" where
  "text_chars [] = Some 0"
| "text_chars (JObj kvs # ps) =
     (case map_of kvs ''text'' of
        None \<Rightarrow> text_chars ps
      | Some t \<Rightarrow> do { n \<leftarrow> json_len t; m \<leftarrow> text_chars ps; Some (n + m) })"
| "text_chars (_ # ps) = text_chars ps"

fun message_chars :: "json list \<Rightarrow> int option" where
  "message_chars [] = Some 0"
| "message_chars (JObj kvs # ms) =
     do { n \<leftarrow> (case map_of kvs ''content'' of
              Some (JStr s) \<Rightarrow> Some (int (length s))
            | Some (JArr ps) \<Rightarrow> text_chars ps
            | _ \<Rightarrow> Some 0);
          m \<leftarrow> message_chars ms;
          Some (n + m) }"
| "message_chars (_ # ms) = message_chars ms"

fun content_chars :: "json list \<Rightarrow> int option" where
  "content_chars [] = Some 0"
| "content_chars (JObj kvs # cs) =
     do { n \<leftarrow> (case map_of kvs ''parts'' of Some (JArr ps) \<Rightarrow> text_chars ps | _ \<Rightarrow> Some 0);
          m \<leftarrow> content_chars cs;
          Some (n + m) }"
| "content_chars (_ # cs) = content_chars cs"

definition input_chars :: "(json \<Rightarrow> string) \<Rightarrow> (string \<times> json) list \<Rightarrow> int option" where
  "input_chars pystr data = do {
     a \<leftarrow> (case map_of data ''messages'' of Some (JArr ms) \<Rightarrow> message_chars ms | _ \<Rightarrow> Some 0);
     b \<leftarrow> (case map_of data ''system'' of
            Some (JStr s) \<Rightarrow> Some (int (length s)) | Some (JArr ps) \<Rightarrow> text_chars ps | _ \<Rightarrow> Some 0);
     c \<leftarrow> (case map_of data ''contents'' of Some (JArr cs) \<Rightarrow> content_chars cs | _ \<Rightarrow> Some 0);
     d \<leftarrow> (case map_of data ''prompt'' of
            Some (JStr s) \<Rightarrow> Some (int (length s))
          | Some (JArr xs) \<Rightarrow> Some (\<Sum>x \<leftarrow> xs. int (length (pystr x))) | _ \<Rightarrow> Some 0);
     Some (a + b + c + d) }"

definition max_tokens_field :: "(string \<times> json) list \<Rightarrow> json" where
  "max_tokens_field data =
     (let a = (case map_of data ''max_tokens'' of None \<Rightarrow> JNull | Some j \<Rightarrow> j)
      in if json_truthy a then a
         else (case map_of data ''max_completion_tokens'' of None \<Rightarrow> JNull | Some j \<Rightarrow> j))"

text \<open>\<open>isinstance(x, int)\<close> accepts booleans, which count as 0 and 1.\<close>

definition output_estimate :: "json \<Rightarrow> int" where
  "output_estimate j =
     (if \<not> json_truthy j then 1000
      else case j of JInt n \<Rightarrow> n | JBool b \<Rightarrow> 1 | _ \<Rightarrow> 1000)"

definition estimate_request_tokens :: "(json \<Rightarrow> string) \<Rightarrow> json option \<Rightarrow> (int \<times> int) option" where
  "estimate_request_tokens pystr body =
     (case body of
        None \<Rightarrow> Some (100, 1000)
      | Some (JObj data) \<Rightarrow> do {
          n \<leftarrow> input_chars pystr data;
          Some (if 0 < n then max 10 (n div 4) else 100, output_estimate (max_tokens_field data)) }
      | Some _ \<Rightarrow> None)"

definition estimate_cost ::
    "price_env \<Rightarrow> (json \<Rightarrow> string) \<Rightarrow> string \<Rightarrow> string \<Rightarrow> json option \<Rightarrow> usd option" where
  "estimate_cost env pystr provider model body = do {
     (i, out) \<leftarrow> estimate_request_tokens pystr body;
     Some (cost_of env provider model (no_usage\<lparr>input_tokens := i, output_tokens := out\<rparr>)) }"

section \<open>Policies\<close>

record budget_policy =
  bp_name :: string
  bp_scope :: string
  bp_target :: string
  limit_usd :: usd
  bp_period :: string

record request_context =
  ctx_org_id :: "string option"
  ctx_team :: "string option"
  ctx_app_id :: "string option"
  ctx_customer :: "string option"

definition get_period_start :: "string \<Rightarrow> datetime \<Rightarrow> datetime" where
  "get_period_start period now =
     (if period = ''daily'' then midnight now
      else if period = ''weekly'' then midnight (minus_days now (nat (weekday now)))
      else midnight (now\<lparr>day := 1\<rparr>))"

definition in_scope :: "(string \<Rightarrow> string) \<Rightarrow> budget_policy \<Rightarrow> request_row \<Rightarrow> bool" where
  "in_scope sha256 pol r =
     (let t = bp_target pol; tag = rq_tags r in
      if bp_scope pol = ''org''
        then t = ''*'' \<or> rq_org_id r = Some t \<or> tag ''org_id'' = Some t
      else if bp_scope pol = ''team''
        then (if t = ''*'' then rq_team r \<noteq> None \<or> tag ''team'' \<noteq> None
              else rq_team r = Some t \<or> tag ''team'' = Some t)
      else if bp_scope pol = ''app''
        then (if t = ''*'' then rq_app_id r \<noteq> None \<or> tag ''app_id'' \<noteq> None
              else rq_app_id r = Some t \<or> tag ''app_id'' = Some t)
      else if bp_scope pol = ''customer''
        then (if t = ''*'' then rq_customer_hash r \<noteq> None \<or> tag ''customer'' \<noteq> None
              else rq_customer_hash r = Some (sha256 t) \<or> tag ''customer'' = Some t)
      else if bp_scope pol = ''model'' then t = ''*'' \<or> rq_model r = t
      else False)"

definition calculate_initial_spend ::
    "(string \<Rightarrow> string) \<Rightarrow> request_row table \<Rightarrow> budget_policy \<Rightarrow> datetime \<Rightarrow> usd" where
  "calculate_initial_spend sha256 rqs pol since =
     sum_where (\<lambda>r. before_eq since (rq_timestamp r) \<and> in_scope sha256 pol r) rq_cost_usd rqs"

definition matches_policy :: "budget_policy \<Rightarrow> string \<Rightarrow> request_context \<Rightarrow> bool" where
  "matches_policy pol model ctx =
     (let v = (if bp_scope pol = ''org'' then Some (ctx_org_id ctx)
               else if bp_scope pol = ''team'' then Some (ctx_team ctx)
               else if bp_scope pol = ''app'' then Some (ctx_app_id ctx)
               else if bp_scope pol = ''customer'' then Some (ctx_customer ctx)
               else if bp_scope pol = ''model'' then Some (Some model)
               else None)
      in case v of None \<Rightarrow> False
         | Some val \<Rightarrow> truthy val \<and> (bp_target pol = ''*'' \<or> Some (bp_target pol) = val))"

section \<open>Counters, reservation and reconciliation\<close>

record budget_counter =
  bc_policy :: string
  bc_period_start :: datetime
  current_spend :: usd

type_synonym counter_key = "string \<times> datetime"

definition bc_key :: "budget_counter \<Rightarrow> counter_key" where
  "bc_key c = (bc_policy c, bc_period_start c)"

definition pol_key :: "budget_policy \<times> datetime \<Rightarrow> counter_key" where
  "pol_key m = (bp_name (fst m), snd m)"

definition add_spend :: "usd \<Rightarrow> budget_policy \<times> datetime \<Rightarrow> budget_counter table \<Rightarrow> budget_counter table" where
  "add_spend amount m = update_where (\<lambda>c. bc_key c = pol_key m)
     (\<lambda>c. c\<lparr>current_spend := current_spend c + amount\<rparr>)"

record budget_config =
  budget_policies :: "budget_policy list"
  block_unpriced_models :: bool

record reservation =
  estimated_cost :: usd
  res_policies :: "(budget_policy \<times> datetime) list"

datatype budget_decision =
    Allowed reservation
  | Unpriced_model
  | Violated budget_policy usd

definition matching_policies ::
    "budget_config \<Rightarrow> datetime \<Rightarrow> string \<Rightarrow> request_context \<Rightarrow> (budget_policy \<times> datetime) list" where
  "matching_policies cfg now model ctx =
     map (\<lambda>pol. (pol, get_period_start (bp_period pol) now))
       (filter (\<lambda>pol. matches_policy pol model ctx) (budget_policies cfg))"

text \<open>Phase 1, the checks: a missing counter is initialised from the request log; the first policy
  that the estimate would push over its limit is returned.\<close>

fun check_all ::
    "(budget_policy \<Rightarrow> datetime \<Rightarrow> usd) \<Rightarrow> usd \<Rightarrow> (budget_policy \<times> datetime) list
       \<Rightarrow> budget_counter table \<Rightarrow> budget_policy + budget_counter table" where
  "check_all init est [] t = Inr t"
| "check_all init est ((pol, ps) # ms) t =
     (let (spend, t') =
        (case lookup_key bc_key (bp_name pol, ps) t of
           Some c \<Rightarrow> (current_spend c, t)
         | None \<Rightarrow> (init pol ps, insert_or_ignore bc_key
             \<lparr>bc_policy = bp_name pol, bc_period_start = ps, current_spend = init pol ps\<rparr> t))
      in if spend + est > limit_usd pol then Inl pol else check_all init est ms t')"

definition reserve_all ::
    "usd \<Rightarrow> (budget_policy \<times> datetime) list \<Rightarrow> budget_counter table \<Rightarrow> budget_counter table" where
  "reserve_all est ms t = fold (add_spend est) ms t"

definition check_and_reserve ::
    "price_env \<Rightarrow> (json \<Rightarrow> string) \<Rightarrow> (string \<Rightarrow> string) \<Rightarrow> budget_config \<Rightarrow> datetime \<Rightarrow> request_row table
       \<Rightarrow> string \<Rightarrow> string \<Rightarrow> json option \<Rightarrow> request_context \<Rightarrow> budget_counter table
       \<Rightarrow> (budget_decision \<times> budget_counter table) option" where
  "check_and_reserve env pystr sha256 cfg now rqs provider model body ctx t = do {
     est \<leftarrow> estimate_cost env pystr provider model body;
     let ms = matching_policies cfg now model ctx;
     Some (if ms = [] then (Allowed \<lparr>estimated_cost = est, res_policies = []\<rparr>, t)
           else if est \<le> 0
             then (if block_unpriced_models cfg \<and> \<not> is_model_priced env provider model
                   then (Unpriced_model, t)
                   else (Allowed \<lparr>estimated_cost = 0, res_policies = []\<rparr>, t))
           else (case check_all (calculate_initial_spend sha256 rqs) est ms t of
                   Inl pol \<Rightarrow> (Violated pol est, t)
                 | Inr t' \<Rightarrow> (Allowed \<lparr>estimated_cost = est, res_policies = ms\<rparr>,
                              reserve_all est ms t'))) }"

definition reconcile :: "usd \<Rightarrow> reservation \<Rightarrow> budget_counter table \<Rightarrow> budget_counter table" where
  "reconcile actual res t =
     (if res_policies res = [] \<or> estimated_cost res \<le> 0 then t
      else fold (add_spend (actual - estimated_cost res)) (res_policies res) t)"

text \<open>The balance of a counter, and the spend a check sees: the counter, or the spend recorded in
  the request log when there is no counter for the period yet.\<close>

definition balance :: "counter_key \<Rightarrow> budget_counter table \<Rightarrow> usd" where
  "balance k t = (case lookup_key bc_key k t of None \<Rightarrow> 0 | Some c \<Rightarrow> current_spend c)"

definition seen_spend ::
    "(budget_policy \<Rightarrow> datetime \<Rightarrow> usd) \<Rightarrow> budget_counter table \<Rightarrow> budget_policy \<times> datetime \<Rightarrow> usd" where
  "seen_spend init t m = (case lookup_key bc_key (pol_key m) t of
     None \<Rightarrow> init (fst m) (snd m) | Some c \<Rightarrow> current_spend c)"

definition has_counter :: "counter_key \<Rightarrow> budget_counter table \<Rightarrow> bool" where
  "has_counter k t \<longleftrightarrow> k \<in> bc_key ` set t"

section \<open>The contract of a ledger of charges\<close>

text \<open>
  What reservation and reconciliation rely on: charging an existing account moves its balance by
  exactly the amount, moves no other balance and opens or closes no account.
\<close>

locale charge_ledger =
  fixes bal :: "'k \<Rightarrow> 's \<Rightarrow> real"
    and open_acc :: "'k \<Rightarrow> 's \<Rightarrow> bool"
    and charge :: "real \<Rightarrow> 'm \<Rightarrow> 's \<Rightarrow> 's"
    and acc :: "'m \<Rightarrow> 'k"
  assumes bal_charge: "open_acc k s \<Longrightarrow> bal k (charge a m s) = bal k s + (if acc m = k then a else 0)"
    and open_charge: "open_acc k (charge a m s) = open_acc k s"
begin

lemma open_charges: "open_acc k (fold (charge a) ms s) = open_acc k s"
  by (induction ms arbitrary: s) (auto simp: open_charge)

lemma bal_charges:
  "open_acc k s \<Longrightarrow> bal k (fold (charge a) ms s) = bal k s + of_nat (count_list (map acc ms) k) * a"
proof (induction ms arbitrary: s)
  case (Cons m ms)
  then have "bal k (fold (charge a) ms (charge a m s)) =
      bal k (charge a m s) + of_nat (count_list (map acc ms) k) * a"
    by (simp add: open_charge)
  with Cons.prems show ?case by (auto simp: bal_charge algebra_simps)
qed simp

lemma bal_charges_distinct:
  "open_acc k s \<Longrightarrow> distinct (map acc ms) \<Longrightarrow>
   bal k (fold (charge a) ms s) = bal k s + (if k \<in> acc ` set ms then a else 0)"
  using bal_charges[of k s a ms] count_list_distinct[of "map acc ms" k] by auto

text \<open>Reserving an estimate and settling the difference leaves exactly the actual charge.\<close>

lemma settle_net:
  "open_acc k s \<Longrightarrow>
   bal k (fold (charge (b - a)) ms (fold (charge a) ms s)) =
     bal k s + of_nat (count_list (map acc ms) k) * b"
  by (simp add: bal_charges open_charges algebra_simps)

text \<open>Charges commute, so the order in which concurrent reservations are settled is irrelevant.\<close>

lemma charges_commute:
  "open_acc k s \<Longrightarrow>
   bal k (fold (charge a) ms (fold (charge b) ns s)) = bal k (fold (charge b) ns (fold (charge a) ms s))"
  by (simp add: bal_charges open_charges)

end

lemma lookup_add_spend:
  "lookup_key bc_key k (add_spend a m t) =
     map_option (\<lambda>c. if bc_key c = pol_key m then c\<lparr>current_spend := current_spend c + a\<rparr> else c)
       (lookup_key bc_key k t)"
  unfolding add_spend_def by (rule lookup_update_where) (simp add: bc_key_def)

lemma has_counter_lookup: "has_counter k t \<longleftrightarrow> (\<exists>c. lookup_key bc_key k t = Some c)"
  using lookup_key_None_iff[of bc_key k t] by (auto simp: has_counter_def)

interpretation counters: charge_ledger balance has_counter add_spend pol_key
proof unfold_locales
  fix k t a m
  show "has_counter k (add_spend a m t) = has_counter k t"
    by (simp add: has_counter_lookup lookup_add_spend)
  assume "has_counter k t"
  then obtain c where c: "lookup_key bc_key k t = Some c" by (auto simp: has_counter_lookup)
  with lookup_key_SomeD[OF c] show
    "balance k (add_spend a m t) = balance k t + (if pol_key m = k then a else 0)"
    by (auto simp: balance_def lookup_add_spend)
qed

section \<open>The check phase\<close>

definition open_counter ::
    "(budget_policy \<Rightarrow> datetime \<Rightarrow> usd) \<Rightarrow> budget_policy \<times> datetime \<Rightarrow> budget_counter table \<Rightarrow> budget_counter table" where
  "open_counter init m t = insert_or_ignore bc_key
     \<lparr>bc_policy = bp_name (fst m), bc_period_start = snd m, current_spend = init (fst m) (snd m)\<rparr> t"

lemma new_counter_key [simp]:
  "bc_key \<lparr>bc_policy = p, bc_period_start = s, current_spend = x\<rparr> = (p, s)"
  by (simp add: bc_key_def)

lemma check_all_Cons:
  "check_all init est (m # ms) t =
     (if seen_spend init t m + est > limit_usd (fst m) then Inl (fst m)
      else check_all init est ms (open_counter init m t))"
proof (cases m)
  case (Pair pol ps)
  show ?thesis
  proof (cases "lookup_key bc_key (bp_name pol, ps) t")
    case None
    then show ?thesis by (simp add: Pair seen_spend_def pol_key_def open_counter_def)
  next
    case (Some c)
    from lookup_key_SomeD[OF Some] have "open_counter init m t = t"
      by (force simp: open_counter_def insert_or_ignore_def Pair image_iff)
    with Some show ?thesis by (simp add: Pair seen_spend_def pol_key_def)
  qed
qed

lemma lookup_open_counter:
  "lookup_key bc_key k (open_counter init m t) =
     (if k = pol_key m \<and> lookup_key bc_key k t = None
      then Some \<lparr>bc_policy = fst k, bc_period_start = snd k, current_spend = init (fst m) (snd m)\<rparr>
      else lookup_key bc_key k t)"
  by (auto simp: open_counter_def lookup_insert_or_ignore pol_key_def)

lemma seen_open_counter:
  "pol_key m \<noteq> pol_key m' \<Longrightarrow> seen_spend init (open_counter init m t) m' = seen_spend init t m'"
  by (simp add: seen_spend_def lookup_open_counter)

lemma check_all_frame:
  "check_all init est ms t = Inr t' \<Longrightarrow> has_counter k t \<Longrightarrow>
   lookup_key bc_key k t' = lookup_key bc_key k t"
proof (induction ms arbitrary: t)
  case (Cons m ms)
  from Cons.prems(2) have "lookup_key bc_key k (open_counter init m t) = lookup_key bc_key k t"
    by (auto simp: lookup_open_counter has_counter_lookup)
  moreover have "has_counter k (open_counter init m t)"
    using Cons.prems(2) calculation by (simp add: has_counter_lookup)
  ultimately show ?case
    using Cons.IH[of "open_counter init m t"] Cons.prems(1)
    by (simp only: check_all_Cons split: if_splits) simp
qed simp

lemma check_all_untouched:
  "check_all init est ms t = Inr t' \<Longrightarrow> k \<notin> pol_key ` set ms \<Longrightarrow>
   lookup_key bc_key k t' = lookup_key bc_key k t"
proof (induction ms arbitrary: t)
  case (Cons m ms)
  from Cons.prems(1) have "check_all init est ms (open_counter init m t) = Inr t'"
    by (simp only: check_all_Cons split: if_splits) simp
  from Cons.IH[OF this] Cons.prems(2) show ?case by (auto simp: lookup_open_counter)
qed simp

lemma check_all_passed:
  "check_all init est ms t = Inr t' \<Longrightarrow> distinct (map pol_key ms) \<Longrightarrow> m \<in> set ms \<Longrightarrow>
   has_counter (pol_key m) t' \<and> balance (pol_key m) t' = seen_spend init t m
     \<and> seen_spend init t m + est \<le> limit_usd (fst m)"
proof (induction ms arbitrary: t)
  case (Cons a ms)
  let ?t = "open_counter init a t"
  from Cons.prems(1) have rest: "check_all init est ms ?t = Inr t'"
    and ok: "seen_spend init t a + est \<le> limit_usd (fst a)"
    by (simp_all only: check_all_Cons split: if_splits) simp_all
  show ?case
  proof (cases "m = a")
    case True
    have "has_counter (pol_key a) ?t"
      by (auto simp: has_counter_lookup lookup_open_counter)
    from check_all_frame[OF rest this] this have
      "lookup_key bc_key (pol_key a) t' = lookup_key bc_key (pol_key a) ?t" by simp
    with ok show ?thesis
      by (auto simp: True has_counter_lookup balance_def lookup_open_counter seen_spend_def
          split: option.splits)
  next
    case False
    with Cons.prems have "pol_key a \<noteq> pol_key m" by auto
    with Cons.IH[OF rest] Cons.prems False show ?thesis by (simp add: seen_open_counter)
  qed
qed simp

lemma check_all_refused:
  "check_all init est ms t = Inl pol \<Longrightarrow> distinct (map pol_key ms) \<Longrightarrow>
   \<exists>m \<in> set ms. pol = fst m \<and> seen_spend init t m + est > limit_usd pol"
proof (induction ms arbitrary: t)
  case (Cons a ms)
  show ?case
  proof (cases "seen_spend init t a + est > limit_usd (fst a)")
    case True
    with Cons.prems(1) show ?thesis by (auto simp only: check_all_Cons if_True sum.inject list.set)
  next
    case False
    with Cons.prems(1) have "check_all init est ms (open_counter init a t) = Inl pol"
      by (simp only: check_all_Cons if_False)
    from Cons.IH[OF this] Cons.prems(2) obtain m where m: "m \<in> set ms" "pol = fst m"
      "seen_spend init (open_counter init a t) m + est > limit_usd pol" by auto
    moreover from m(1) Cons.prems(2) have "pol_key a \<noteq> pol_key m" by auto
    ultimately show ?thesis by (auto simp: seen_open_counter)
  qed
qed simp

section \<open>One request\<close>

definition unique_names :: "budget_config \<Rightarrow> bool" where
  "unique_names cfg \<longleftrightarrow> distinct (map bp_name (budget_policies cfg))"

lemma unique_matching: "unique_names cfg \<Longrightarrow> distinct (map pol_key (matching_policies cfg now model ctx))"
  by (auto simp: unique_names_def matching_policies_def pol_key_def distinct_map inj_on_def distinct_filter)

lemma matching_member:
  "m \<in> set (matching_policies cfg now model ctx) \<Longrightarrow> fst m \<in> set (budget_policies cfg)"
  by (auto simp: matching_policies_def)

lemma unique_namesD:
  "unique_names cfg \<Longrightarrow> p \<in> set (budget_policies cfg) \<Longrightarrow> q \<in> set (budget_policies cfg) \<Longrightarrow>
   bp_name p = bp_name q \<Longrightarrow> p = q"
  by (auto simp: unique_names_def distinct_map inj_on_def)

lemma check_and_reserve_cases:
  assumes "check_and_reserve env pystr sha cfg now rqs prov model body ctx t = Some (d, t')"
  obtains
    (free) est where "estimate_cost env pystr prov model body = Some est" "t' = t"
      "d = Allowed \<lparr>estimated_cost = est, res_policies = []\<rparr>"
  | (unpriced) "d = Unpriced_model" "t' = t" "matching_policies cfg now model ctx \<noteq> []"
      "block_unpriced_models cfg" "\<not> is_model_priced env prov model"
  | (zero) "d = Allowed \<lparr>estimated_cost = 0, res_policies = []\<rparr>" "t' = t"
  | (refused) est pol where "estimate_cost env pystr prov model body = Some est" "0 < est"
      "d = Violated pol est" "t' = t"
      "check_all (calculate_initial_spend sha rqs) est (matching_policies cfg now model ctx) t = Inl pol"
  | (reserved) est t1 where "estimate_cost env pystr prov model body = Some est" "0 < est"
      "d = Allowed \<lparr>estimated_cost = est, res_policies = matching_policies cfg now model ctx\<rparr>"
      "check_all (calculate_initial_spend sha rqs) est (matching_policies cfg now model ctx) t = Inr t1"
      "t' = reserve_all est (matching_policies cfg now model ctx) t1"
proof -
  from assms obtain est where est: "estimate_cost env pystr prov model body = Some est"
    by (cases "estimate_cost env pystr prov model body") (auto simp: check_and_reserve_def)
  with assms have d: "(if matching_policies cfg now model ctx = []
      then (Allowed \<lparr>estimated_cost = est, res_policies = []\<rparr>, t)
      else if est \<le> 0
        then (if block_unpriced_models cfg \<and> \<not> is_model_priced env prov model
              then (Unpriced_model, t)
              else (Allowed \<lparr>estimated_cost = 0, res_policies = []\<rparr>, t))
      else (case check_all (calculate_initial_spend sha rqs) est
                   (matching_policies cfg now model ctx) t of
              Inl pol \<Rightarrow> (Violated pol est, t)
            | Inr t1 \<Rightarrow> (Allowed \<lparr>estimated_cost = est,
                res_policies = matching_policies cfg now model ctx\<rparr>,
                reserve_all est (matching_policies cfg now model ctx) t1))) = (d, t')"
    by (simp add: check_and_reserve_def Let_def)
  show thesis
  proof (cases "matching_policies cfg now model ctx = [] \<or> est \<le> 0")
    case True
    with d est free unpriced zero show thesis by (auto split: if_splits)
  next
    case False
    with d est refused reserved show thesis by (auto split: sum.splits)
  qed
qed

lemma reserved_balance:
  assumes chk: "check_all init est ms t = Inr t1" and ms: "distinct (map pol_key ms)"
    and m: "m \<in> set ms"
  shows "has_counter (pol_key m) (reserve_all est ms t1)
     \<and> balance (pol_key m) (reserve_all est ms t1) = seen_spend init t m + est
     \<and> seen_spend init t m + est \<le> limit_usd (fst m)"
  using check_all_passed[OF chk ms m] m
  by (simp add: reserve_all_def counters.bal_charges_distinct counters.open_charges ms)

lemma reserved_existing:
  assumes "check_all init est ms t = Inr t1" and "has_counter k t"
  shows "has_counter k t1 \<and> balance k t1 = balance k t"
  using check_all_frame[OF assms] assms(2) by (simp add: has_counter_lookup balance_def)

lemma reserved_untouched:
  assumes "check_all init est ms t = Inr t1" and "k \<notin> pol_key ` set ms"
  shows "(has_counter k (reserve_all est ms t1) \<longleftrightarrow> has_counter k t)
     \<and> (has_counter k t \<longrightarrow> balance k (reserve_all est ms t1) = balance k t)"
proof -
  from assms(2) have "count_list (map pol_key ms) k = 0" by (simp add: count_list_0_iff)
  moreover from check_all_untouched[OF assms]
  have "has_counter k t1 = has_counter k t" "balance k t1 = balance k t"
    by (simp_all add: has_counter_lookup balance_def)
  ultimately show ?thesis
    by (simp add: reserve_all_def counters.bal_charges counters.open_charges)
qed

lemma reconcile_fold:
  "0 < estimated_cost res \<or> res_policies res = [] \<Longrightarrow>
   reconcile a res t = fold (add_spend (a - estimated_cost res)) (res_policies res) t"
  by (auto simp: reconcile_def)

text \<open>When a request is admitted with a reservation and policy names are unique, every counter
  of a matching policy afterwards holds the spend seen by the check plus the estimate, and that is at
  most the policy's limit.\<close>

theorem reservation_within_limits:
  assumes "check_and_reserve env pystr sha cfg now rqs prov model body ctx t = Some (Allowed res, t')"
    and "unique_names cfg" and "m \<in> set (res_policies res)"
  shows "balance (pol_key m) t' = seen_spend (calculate_initial_spend sha rqs) t m + estimated_cost res
     \<and> balance (pol_key m) t' \<le> limit_usd (fst m) \<and> 0 < estimated_cost res"
  using assms(1)
proof (cases rule: check_and_reserve_cases)
  case (reserved est t1)
  with reserved_balance[OF reserved(4) unique_matching[OF assms(2)], of m] assms(3)
  show ?thesis by simp
qed (use assms(3) in auto)

text \<open>A refusal leaves the counters as they were and is justified: the estimate really would have
  pushed the named, matching policy over its limit.\<close>

theorem refusal_justified:
  assumes "check_and_reserve env pystr sha cfg now rqs prov model body ctx t = Some (Violated pol est, t')"
    and "unique_names cfg"
  shows "t' = t \<and> pol \<in> set (budget_policies cfg) \<and> matches_policy pol model ctx \<and> 0 < est
     \<and> seen_spend (calculate_initial_spend sha rqs) t (pol, get_period_start (bp_period pol) now) + est
         > limit_usd pol"
  using assms(1)
proof (cases rule: check_and_reserve_cases)
  case (refused e p)
  from check_all_refused[OF refused(5) unique_matching[OF assms(2)]] refused(1-4)
  show ?thesis by (auto simp: matching_policies_def)
qed auto

text \<open>Reserving and then reconciling with the actual cost charges every matching counter exactly
  the actual cost, and leaves every other existing counter unchanged.\<close>

theorem reserve_then_reconcile:
  assumes "check_and_reserve env pystr sha cfg now rqs prov model body ctx t = Some (Allowed res, t')"
    and "unique_names cfg" and "has_counter k t"
  shows "balance k (reconcile actual res t') =
     balance k t + (if k \<in> pol_key ` set (res_policies res) then actual else 0)"
  using assms(1)
proof (cases rule: check_and_reserve_cases)
  case (reserved est t1)
  let ?ms = "matching_policies cfg now model ctx"
  have "balance k (fold (add_spend (actual - est)) ?ms (fold (add_spend est) ?ms t1)) =
      balance k t + (if k \<in> pol_key ` set ?ms then actual else 0)"
    using reserved_existing[OF reserved(4) assms(3)] unique_matching[OF assms(2), of now model ctx]
    by (auto simp: counters.settle_net count_list_distinct)
  with reserved show ?thesis by (simp add: reconcile_fold reserve_all_def)
qed (use assms(3) in \<open>auto simp: reconcile_def\<close>)

section \<open>Interleaved requests under the lock\<close>

text \<open>
  Requests enter and finish in any order; each call of \<open>check_and_reserve\<close> and \<open>reconcile\<close>
  is one step, as it is when all of them share one lock. \<open>budget_reach\<close> collects the
  reservations still open and the settled ones with their actual cost, from an initial table.
\<close>

inductive budget_reach ::
    "price_env \<Rightarrow> (json \<Rightarrow> string) \<Rightarrow> (string \<Rightarrow> string) \<Rightarrow> budget_config \<Rightarrow> budget_counter table
      \<Rightarrow> budget_counter table \<Rightarrow> reservation list \<Rightarrow> (reservation \<times> usd) list \<Rightarrow> bool"
  for env pystr sha cfg t0 where
  reach_start: "budget_reach env pystr sha cfg t0 t0 [] []"
| reach_admit: "budget_reach env pystr sha cfg t0 t os ss \<Longrightarrow>
    check_and_reserve env pystr sha cfg now rqs prov model body ctx t = Some (Allowed r, t') \<Longrightarrow>
    budget_reach env pystr sha cfg t0 t' (os @ [r]) ss"
| reach_refuse: "budget_reach env pystr sha cfg t0 t os ss \<Longrightarrow>
    check_and_reserve env pystr sha cfg now rqs prov model body ctx t = Some (d, t') \<Longrightarrow>
    (\<forall>r. d \<noteq> Allowed r) \<Longrightarrow> budget_reach env pystr sha cfg t0 t' os ss"
| reach_finish: "budget_reach env pystr sha cfg t0 t (xs @ r # ys) ss \<Longrightarrow>
    budget_reach env pystr sha cfg t0 (reconcile actual r t) (xs @ ys) ((r, actual) # ss)"

definition charges :: "reservation \<Rightarrow> counter_key \<Rightarrow> bool" where
  "charges r k \<longleftrightarrow> k \<in> pol_key ` set (res_policies r)"

definition outstanding :: "counter_key \<Rightarrow> reservation list \<Rightarrow> usd" where
  "outstanding k os = sum_where (\<lambda>r. charges r k) estimated_cost os"

definition settled :: "counter_key \<Rightarrow> (reservation \<times> usd) list \<Rightarrow> usd" where
  "settled k ss = sum_where (\<lambda>(r, a). charges r k) snd ss"

definition underestimated :: "(reservation \<times> usd) list \<Rightarrow> usd" where
  "underestimated ss = (\<Sum>(r, a) \<leftarrow> ss. max 0 (a - estimated_cost r))"

definition wf_reservation :: "reservation \<Rightarrow> bool" where
  "wf_reservation r \<longleftrightarrow> distinct (map pol_key (res_policies r))
     \<and> (0 < estimated_cost r \<or> res_policies r = [])"

lemma admitted_wf:
  assumes "check_and_reserve env pystr sha cfg now rqs prov model body ctx t = Some (Allowed r, t')"
    and "unique_names cfg"
  shows "wf_reservation r"
  using assms(1) by (cases rule: check_and_reserve_cases)
    (auto simp: wf_reservation_def unique_matching[OF assms(2)])

lemma admitted_balance:
  assumes "check_and_reserve env pystr sha cfg now rqs prov model body ctx t = Some (Allowed r, t')"
    and "unique_names cfg" and "has_counter k t"
  shows "has_counter k t' \<and> balance k t' = balance k t + (if charges r k then estimated_cost r else 0)"
  using assms(1)
proof (cases rule: check_and_reserve_cases)
  case (reserved est t1)
  with reserved_existing[OF reserved(4) assms(3)] unique_matching[OF assms(2), of now model ctx]
  show ?thesis
    by (simp add: reserve_all_def counters.bal_charges_distinct counters.open_charges charges_def)
qed (use assms(3) in \<open>auto simp: charges_def\<close>)

lemma refused_same:
  assumes "check_and_reserve env pystr sha cfg now rqs prov model body ctx t = Some (d, t')"
    and "\<forall>r. d \<noteq> Allowed r"
  shows "t' = t"
  using assms(1) by (cases rule: check_and_reserve_cases) (use assms(2) in auto)

lemma reconcile_balance:
  assumes "wf_reservation r" and "has_counter k t"
  shows "has_counter k (reconcile a r t)
     \<and> balance k (reconcile a r t) = balance k t + (if charges r k then a - estimated_cost r else 0)"
  using assms
  by (simp add: wf_reservation_def reconcile_fold counters.bal_charges_distinct counters.open_charges
      charges_def)

lemma reach_wf:
  "budget_reach env pystr sha cfg t0 t os ss \<Longrightarrow> unique_names cfg \<Longrightarrow> \<forall>r \<in> set os. wf_reservation r"
  by (induction rule: budget_reach.induct) (auto simp: admitted_wf)

lemma underestimated_simps [simp]:
  "underestimated [] = 0"
  "underestimated ((r, a) # ss) = max 0 (a - estimated_cost r) + underestimated ss"
  by (simp_all add: underestimated_def)

lemma underestimated_nonneg: "0 \<le> underestimated ss"
  by (induction ss) auto

text \<open>C9: in every interleaving of admissions, refusals and settlements, the balance of a counter is
  its initial value plus the actual cost of the settled requests plus the estimates of the open ones
  that it is charged for.\<close>

theorem budget_conservation:
  assumes "budget_reach env pystr sha cfg t0 t os ss" and "unique_names cfg" and "has_counter k t0"
  shows "balance k t = balance k t0 + settled k ss + outstanding k os"
proof -
  from assms have "has_counter k t \<and> balance k t = balance k t0 + settled k ss + outstanding k os"
  proof (induction rule: budget_reach.induct)
    case (reach_admit t os ss now rqs prov model body ctx r t')
    with admitted_balance[OF reach_admit(2), of k] show ?case by (simp add: outstanding_def)
  next
    case (reach_refuse t os ss now rqs prov model body ctx d t')
    with refused_same[OF reach_refuse(2,3)] show ?case by simp
  next
    case (reach_finish t xs r ys ss actual)
    moreover from reach_wf[OF reach_finish(1)] reach_finish.prems have "wf_reservation r" by simp
    ultimately show ?case by (simp add: reconcile_balance settled_def outstanding_def)
  qed (simp add: settled_def outstanding_def)
  then show ?thesis ..
qed

lemma pk_counters:
  "pk bc_key t \<Longrightarrow> pk bc_key (add_spend a m t)" "pk bc_key t \<Longrightarrow> pk bc_key (open_counter init m t)"
  by (auto simp: add_spend_def open_counter_def bc_key_def intro!: pk_intros)

lemma pk_charges: "pk bc_key t \<Longrightarrow> pk bc_key (fold (add_spend a) ms t)"
  by (induction ms arbitrary: t) (auto simp: pk_counters)

lemma pk_check_all: "check_all init est ms t = Inr t' \<Longrightarrow> pk bc_key t \<Longrightarrow> pk bc_key t'"
proof (induction ms arbitrary: t)
  case (Cons m ms)
  then have "check_all init est ms (open_counter init m t) = Inr t'"
    by (simp only: check_all_Cons split: if_splits) simp
  with Cons show ?case by (simp add: pk_counters)
qed simp

lemma pk_check_and_reserve:
  assumes "check_and_reserve env pystr sha cfg now rqs prov model body ctx t = Some (d, t')"
    and "pk bc_key t"
  shows "pk bc_key t'"
  using assms(1)
proof (cases rule: check_and_reserve_cases)
  case (reserved est t1)
  from pk_check_all[OF reserved(4) assms(2)] reserved(5) show ?thesis
    by (simp add: reserve_all_def pk_charges)
qed (simp_all add: assms(2))

lemma pk_reconcile: "pk bc_key t \<Longrightarrow> pk bc_key (reconcile a r t)"
  by (simp add: reconcile_def pk_charges)

lemma pk_balance: "pk bc_key t \<Longrightarrow> c \<in> set t \<Longrightarrow> has_counter (bc_key c) t \<and> balance (bc_key c) t = current_spend c"
  by (simp add: balance_def has_counter_lookup pk_lookup)

definition limits_kept :: "budget_config \<Rightarrow> usd \<Rightarrow> budget_counter table \<Rightarrow> bool" where
  "limits_kept cfg slack t \<longleftrightarrow> (\<forall>c \<in> set t. \<forall>p \<in> set (budget_policies cfg).
     bc_policy c = bp_name p \<longrightarrow> current_spend c \<le> limit_usd p + slack)"

lemma limits_kept_mono: "limits_kept cfg s t \<Longrightarrow> s \<le> s' \<Longrightarrow> limits_kept cfg s' t"
  by (fastforce simp: limits_kept_def)

lemma limits_kept_balance:
  "pk bc_key t \<Longrightarrow> limits_kept cfg slack t \<longleftrightarrow> (\<forall>k. has_counter k t \<longrightarrow>
     (\<forall>p \<in> set (budget_policies cfg). fst k = bp_name p \<longrightarrow> balance k t \<le> limit_usd p + slack))"
proof -
  assume pk: "pk bc_key t"
  have "limits_kept cfg slack t \<longleftrightarrow> (\<forall>c \<in> set t. \<forall>p \<in> set (budget_policies cfg).
      fst (bc_key c) = bp_name p \<longrightarrow> balance (bc_key c) t \<le> limit_usd p + slack)"
    unfolding limits_kept_def using pk by (simp add: pk_balance) (simp add: bc_key_def)
  then show ?thesis unfolding has_counter_def by blast
qed

lemma limits_kept_admit:
  assumes chk: "check_and_reserve env pystr sha cfg now rqs prov model body ctx t = Some (Allowed r, t')"
    and u: "unique_names cfg" and t: "pk bc_key t" "limits_kept cfg slack t" "0 \<le> slack"
  shows "limits_kept cfg slack t'"
  using chk
proof (cases rule: check_and_reserve_cases)
  case (reserved est t1)
  let ?ms = "matching_policies cfg now model ctx"
  have "balance k t' \<le> limit_usd p + slack"
    if k: "has_counter k t'" and p: "p \<in> set (budget_policies cfg)" "fst k = bp_name p" for k p
  proof (cases "k \<in> pol_key ` set ?ms")
    case True
    then obtain m where m: "m \<in> set ?ms" "k = pol_key m" by auto
    with p u have "fst m = p" by (auto simp: pol_key_def dest: matching_member unique_namesD)
    with reserved_balance[OF reserved(4) unique_matching[OF u] m(1)] reserved(5) m(2) t(3)
    show ?thesis by simp
  next
    case False
    from reserved_untouched[OF reserved(4) False] reserved(5) k
    have "has_counter k t" "balance k t' = balance k t" by simp_all
    with t(2) p show ?thesis unfolding limits_kept_balance[OF t(1)] by metis
  qed
  then show ?thesis by (simp add: limits_kept_balance pk_check_and_reserve[OF chk t(1)])
qed (simp_all add: t)

lemma limits_kept_finish:
  assumes "wf_reservation r" "pk bc_key t" "limits_kept cfg slack t"
  shows "limits_kept cfg (max 0 (a - estimated_cost r) + slack) (reconcile a r t)"
proof -
  have "balance k (reconcile a r t) \<le> balance k t + max 0 (a - estimated_cost r)"
    if "has_counter k t" for k
    using reconcile_balance[OF assms(1) that, of a] by (simp split: if_splits)
  moreover have "has_counter k (reconcile a r t) = has_counter k t" for k
    using assms(1) by (simp add: wf_reservation_def reconcile_fold counters.open_charges)
  moreover have "pk bc_key (reconcile a r t)" by (rule pk_reconcile[OF assms(2)])
  ultimately show ?thesis
    using assms(2,3) by (fastforce simp: limits_kept_balance)
qed


section \<open>Unpriced models, periods, and limits of the engine\<close>

lemma estimate_unpriced:
  "\<not> is_model_priced env prov model \<Longrightarrow> estimate_cost env pystr prov model body = Some est \<Longrightarrow> est = 0"
  by (cases "estimate_request_tokens pystr body")
    (auto simp: estimate_cost_def is_model_priced_def calculate_cost_def)

text \<open>A request for a model without pricing that some policy applies to is refused when unpriced
  models are blocked, whatever the counters say, and reserves nothing.\<close>

theorem unpriced_refused:
  assumes "matches_policy pol model ctx" and "pol \<in> set (budget_policies cfg)"
    and "\<not> is_model_priced env prov model" and "block_unpriced_models cfg"
    and "estimate_cost env pystr prov model body = Some est"
  shows "check_and_reserve env pystr sha cfg now rqs prov model body ctx t = Some (Unpriced_model, t)"
proof -
  from assms(1,2) have "matching_policies cfg now model ctx \<noteq> []"
    by (auto simp: matching_policies_def filter_empty_conv)
  with assms(3-5) estimate_unpriced[OF assms(3,5)] show ?thesis
    by (simp add: check_and_reserve_def)
qed

text \<open>A period start is a midnight at or before now: today for daily policies, the Monday of the
  current week (at most six days back) for weekly ones, the first of the month otherwise.\<close>

theorem period_start_correct:
  assumes "valid_date now"
  shows "before_eq (get_period_start period now) now \<and> tod (get_period_start period now) = 0
    \<and> (period = ''daily'' \<longrightarrow> toordinal (get_period_start period now) = toordinal now)
    \<and> (period = ''weekly'' \<longrightarrow> weekday (get_period_start period now) = 0
          \<and> toordinal now - toordinal (get_period_start period now) \<le> 6)
    \<and> (period \<noteq> ''daily'' \<and> period \<noteq> ''weekly'' \<longrightarrow> day (get_period_start period now) = 1)"
proof -
  let ?w = "nat (weekday now)"
  have tods: "0 \<le> tod now" "1 \<le> day now" using assms by (simp_all add: valid_date_def)
  have week: "toordinal (minus_days now ?w) = toordinal now - weekday now"
    using minus_days_ordinal[OF assms, of ?w] weekday_range[of now] by simp
  then have "(toordinal (minus_days now ?w) + 6) mod 7 = 0"
    by (simp add: weekday_def) presburger
  then have "weekday (midnight (minus_days now ?w)) = 0" by (simp add: weekday_def)
  moreover have "day (midnight (now\<lparr>day := 1\<rparr>)) = 1" by (simp add: midnight_def)
  ultimately show ?thesis
    using tods week weekday_range[of now] first_of_month_ordinal[of now]
    by (auto simp: get_period_start_def before_eq_def)
qed

text \<open>Each call of the proxy creates its own engine, so the lock of one request excludes no other:
  any number of requests can run the check phase against the same table before the first of them
  reserves.\<close>

lemma reserve_many:
  "has_counter k t \<Longrightarrow>
   balance k ((reserve_all est ms ^^ n) t) = balance k t + of_nat (n * count_list (map pol_key ms) k) * est
   \<and> has_counter k ((reserve_all est ms ^^ n) t)"
  by (induction n)
    (auto simp: reserve_all_def counters.bal_charges counters.open_charges algebra_simps)

text \<open>Without mutual exclusion between requests a limit gives no bound: for every amount there is
  a number of requests, each admitted by its check of the same table, whose reservations take the
  counter above the limit by more than that amount.\<close>

theorem unserialised_checks_overshoot:
  assumes "check_all init est ms t = Inr t" and "0 < est" and "m \<in> set ms" and "has_counter (pol_key m) t"
  shows "\<exists>n. balance (pol_key m) ((reserve_all est ms ^^ n) t) > limit_usd (fst m) + excess"
proof -
  let ?b = "balance (pol_key m) t"
  obtain n :: nat where n: "of_nat n * est > limit_usd (fst m) + excess - ?b"
    using reals_Archimedean3[OF assms(2)] by blast
  from assms(3) have "0 < count_list (map pol_key ms) (pol_key m)"
    by (metis count_list_0_iff gr0I image_eqI set_map)
  then have "n \<le> n * count_list (map pol_key ms) (pol_key m)" by simp
  then have "of_nat n * est \<le> of_nat (n * count_list (map pol_key ms) (pol_key m)) * est"
    using assms(2) by (intro mult_right_mono) (auto simp only: of_nat_le_iff)
  with n reserve_many[OF assms(4), where est = est and ms = ms and n = n] have
    "balance (pol_key m) ((reserve_all est ms ^^ n) t) > limit_usd (fst m) + excess" by linarith
  then show ?thesis ..
qed

text \<open>Policies that share a name (the loader names every nameless policy ''unnamed'') share one
  counter, and a request is charged once per such policy: the counter moves by that multiple of the
  actual cost.\<close>

theorem shared_name_charged_repeatedly:
  assumes "check_and_reserve env pystr sha cfg now rqs prov model body ctx t = Some (Allowed res, t')"
    and "has_counter k t"
  shows "balance k (reconcile actual res t') =
     balance k t + of_nat (count_list (map pol_key (res_policies res)) k) * actual"
  using assms(1)
proof (cases rule: check_and_reserve_cases)
  case (reserved est t1)
  with reserved_existing[OF reserved(4) assms(2)] show ?thesis
    by (simp add: reconcile_fold reserve_all_def counters.settle_net)
qed (use assms(2) in \<open>auto simp: reconcile_def\<close>)

section \<open>A concrete configuration\<close>

definition team_policy :: "string \<Rightarrow> usd \<Rightarrow> budget_policy" where
  "team_policy nm cap = \<lparr>bp_name = nm, bp_scope = ''team'', bp_target = ''ml'', limit_usd = cap,
     bp_period = ''daily''\<rparr>"

definition ml_request :: request_context where
  "ml_request = \<lparr>ctx_org_id = None, ctx_team = Some ''ml'', ctx_app_id = None, ctx_customer = None\<rparr>"

definition noon :: datetime where
  "noon = \<lparr>year = 2026, month = 7, day = 15, tod = 43200000000\<rparr>"

definition ml_config :: "string list \<Rightarrow> budget_config" where
  "ml_config nms = \<lparr>budget_policies = map (\<lambda>n. team_policy n 10) nms, block_unpriced_models = True\<rparr>"

definition ml_counter :: "usd \<Rightarrow> budget_counter table" where
  "ml_counter x = [\<lparr>bc_policy = ''ml-daily'', bc_period_start = midnight noon, current_spend = x\<rparr>]"

lemma default_estimate:
  "estimate_cost openai_env pystr ''openai'' ''gpt-4o'' None = Some (1025 / 100000)"
  by (simp add: estimate_cost_def estimate_request_tokens_def calculate_cost_def openai_env_gpt4o
      usage_cost_def apply_tiered_untiered flat_pricing_def rate_def no_usage_def Let_def)

lemma ml_config_matching:
  "matching_policies (ml_config nms) noon model ml_request =
     map (\<lambda>n. (team_policy n 10, midnight noon)) nms"
  by (simp add: matching_policies_def ml_config_def matches_policy_def ml_request_def team_policy_def
      get_period_start_def)

lemma ml_lookup:
  "lookup_key bc_key (nm, ps) (ml_counter x) =
     (if nm = ''ml-daily'' \<and> ps = midnight noon
      then Some \<lparr>bc_policy = ''ml-daily'', bc_period_start = midnight noon, current_spend = x\<rparr> else None)"
  by (auto simp: lookup_key_def ml_counter_def)

lemma ml_has_counter: "has_counter (''ml-daily'', midnight noon) (ml_counter x)"
  by (simp add: has_counter_lookup ml_lookup)

lemma ml_balance: "balance (''ml-daily'', midnight noon) (ml_counter x) = x"
  by (simp add: balance_def ml_lookup)

definition ml_admit :: "string list \<Rightarrow> usd \<Rightarrow> (budget_decision \<times> budget_counter table) option" where
  "ml_admit nms x = check_and_reserve openai_env (\<lambda>_. []) id (ml_config nms) noon [] ''openai'' ''gpt-4o''
     None ml_request (ml_counter x)"

lemma team_policy_fields [simp]:
  "bp_name (team_policy nm cap) = nm" "limit_usd (team_policy nm cap) = cap"
  "bp_period (team_policy nm cap) = ''daily''"
  by (simp_all add: team_policy_def)

lemma ml_seen: "seen_spend init (ml_counter x) (team_policy ''ml-daily'' cap, midnight noon) = x"
  by (simp add: seen_spend_def pol_key_def ml_lookup)

lemma ml_open: "open_counter init (team_policy ''ml-daily'' cap, midnight noon) (ml_counter x) = ml_counter x"
  by (simp add: open_counter_def insert_or_ignore_def ml_counter_def)

lemma ml_add: "add_spend a (team_policy ''ml-daily'' cap, midnight noon) (ml_counter x) = ml_counter (x + a)"
  by (simp add: add_spend_def update_where_def ml_counter_def pol_key_def)

lemmas ml_eval = check_and_reserve_def default_estimate ml_config_matching Let_def
  check_all_Cons ml_seen ml_open reserve_all_def ml_add

lemma ml_admit_one:
  "x \<le> 9 \<Longrightarrow> ml_admit [''ml-daily''] x =
     Some (Allowed \<lparr>estimated_cost = 1025 / 100000,
       res_policies = [(team_policy ''ml-daily'' 10, midnight noon)]\<rparr>, ml_counter (x + 1025 / 100000))"
  unfolding ml_admit_def by (simp add: ml_eval del: check_all.simps(2))

lemma ml_admit_two:
  "x \<le> 9 \<Longrightarrow> ml_admit [''ml-daily'', ''ml-daily''] x =
     Some (Allowed \<lparr>estimated_cost = 1025 / 100000,
       res_policies = [(team_policy ''ml-daily'' 10, midnight noon), (team_policy ''ml-daily'' 10, midnight noon)]\<rparr>,
       ml_counter (x + 2050 / 100000))"
  unfolding ml_admit_def by (simp add: ml_eval add.commute del: check_all.simps(2))

lemma ml_refuse:
  "10 \<le> x \<Longrightarrow> ml_admit [''ml-daily''] x =
     Some (Violated (team_policy ''ml-daily'' 10) (1025 / 100000), ml_counter x)"
  unfolding ml_admit_def by (simp add: ml_eval del: check_all.simps(2))

lemma ml_unique: "unique_names (ml_config [''ml-daily''])"
  by (simp add: unique_names_def ml_config_def)

lemma ml_pol_key: "pol_key (team_policy nm cap, ps) = (nm, ps)"
  by (simp add: pol_key_def)

theorem reservation_within_limits_witness:
  "balance (''ml-daily'', midnight noon) (ml_counter (3 + 1025 / 100000)) \<le> 10"
  using reservation_within_limits[OF ml_admit_one[of 3, unfolded ml_admit_def] ml_unique,
      of "(team_policy ''ml-daily'' 10, midnight noon)"]
  by (simp add: ml_pol_key)

theorem refusal_justified_witness:
  "seen_spend (calculate_initial_spend id []) (ml_counter 10)
     (team_policy ''ml-daily'' 10, midnight noon) + 1025 / 100000 > 10"
  using refusal_justified[OF ml_refuse[of 10, unfolded ml_admit_def] ml_unique]
  by (simp add: get_period_start_def)

theorem reserve_then_reconcile_witness:
  "balance (''ml-daily'', midnight noon)
     (reconcile (1 / 100) \<lparr>estimated_cost = 1025 / 100000,
       res_policies = [(team_policy ''ml-daily'' 10, midnight noon)]\<rparr> (ml_counter (3 + 1025 / 100000)))
   = 3 + 1 / 100"
  using reserve_then_reconcile[OF ml_admit_one[of 3, unfolded ml_admit_def] ml_unique ml_has_counter]
  by (simp add: ml_pol_key ml_balance)

lemma ml_reach:
  "budget_reach openai_env (\<lambda>_. []) id (ml_config [''ml-daily'']) (ml_counter 3)
     (ml_counter (3 + 1025 / 100000)) [\<lparr>estimated_cost = 1025 / 100000,
       res_policies = [(team_policy ''ml-daily'' 10, midnight noon)]\<rparr>] []"
  using reach_admit[OF reach_start ml_admit_one[of 3, unfolded ml_admit_def]] by simp

theorem budget_conservation_witness:
  "balance (''ml-daily'', midnight noon) (ml_counter (3 + 1025 / 100000)) = 3 + 0 + 1025 / 100000"
  using budget_conservation[OF ml_reach ml_unique ml_has_counter]
  by (simp add: ml_balance settled_def outstanding_def charges_def ml_pol_key)


theorem unpriced_refused_witness:
  "check_and_reserve openai_env (\<lambda>_. []) id (ml_config [''ml-daily'']) noon [] ''openai'' ''mystery''
     None ml_request [] = Some (Unpriced_model, [])"
proof -
  have np: "\<not> is_model_priced openai_env ''openai'' ''mystery''"
    by (simp add: is_model_priced_def resolve_pricing_def resolve_vendor_pricing_def get_model_pricing_def
        openai_env_def provider_models_def load_provider_def resolve_pricing_key_def registry_get_def
        openai_config_def openai_models_def base_pricing_def best_prefix_def Let_def)
  have "estimate_cost openai_env (\<lambda>_. []) ''openai'' ''mystery'' None = Some 0"
    using np by (simp add: estimate_cost_def estimate_request_tokens_def calculate_cost_def
        is_model_priced_def)
  moreover have "matches_policy (team_policy ''ml-daily'' 10) ''mystery'' ml_request"
    by (simp add: matches_policy_def team_policy_def ml_request_def)
  ultimately show ?thesis using np unpriced_refused[of "team_policy ''ml-daily'' 10" "''mystery''" ml_request
      "ml_config [''ml-daily'']" openai_env "''openai''" "\<lambda>_. []" None 0 id noon "[]" "[]"]
    by (simp add: ml_config_def)
qed

theorem period_start_correct_witness:
  "weekday (get_period_start ''weekly'' noon) = 0 \<and> before_eq (get_period_start ''monthly'' noon) noon"
proof -
  have "valid_date noon" by (simp add: valid_date_def noon_def days_in_month_def)
  from period_start_correct[OF this, of "''weekly''"] period_start_correct[OF this, of "''monthly''"]
  show ?thesis by simp
qed

theorem unserialised_checks_overshoot_witness:
  "\<exists>n. balance (''ml-daily'', midnight noon)
     ((reserve_all (1 / 100) [(team_policy ''ml-daily'' 10, midnight noon)] ^^ n) (ml_counter 3)) > 10 + 90"
proof -
  have "check_all (\<lambda>_ _. 0) (1 / 100) [(team_policy ''ml-daily'' 10, midnight noon)] (ml_counter 3)
      = Inr (ml_counter 3)"
    by (simp add: ml_eval del: check_all.simps(2))
  from unserialised_checks_overshoot[OF this, of "(team_policy ''ml-daily'' 10, midnight noon)" 90]
  show ?thesis by (simp add: ml_pol_key ml_has_counter)
qed

theorem shared_name_charged_repeatedly_witness:
  "balance (''ml-daily'', midnight noon)
     (reconcile (1 / 100) \<lparr>estimated_cost = 1025 / 100000,
       res_policies = [(team_policy ''ml-daily'' 10, midnight noon), (team_policy ''ml-daily'' 10, midnight noon)]\<rparr>
       (ml_counter (3 + 2050 / 100000))) = 3 + 2 * (1 / 100)"
  using shared_name_charged_repeatedly[OF ml_admit_two[of 3, unfolded ml_admit_def] ml_has_counter]
  by (simp add: ml_pol_key ml_balance)

end
