(* ===== verification/Gateway.thy ===== *)
theory Gateway
  imports Headers Router Virtual_Keys Key_Budget Budget_Engine
begin

text \<open>
  \<open>handle_request\<close> of \<open>burnlens/proxy/interceptor.py\<close>: the gates a request passes before it is
  forwarded (virtual key, daily cap of the key, customer budget, semantic cache, downgrade routing,
  budget policies), in the order of the code, and what is forwarded.

  The state is the part of the database and of the module-level caches that the gates read and
  write. A lookup may fail: \<open>faults\<close> says which ones raise while the request is handled. Request
  bodies are parsed JSON values, \<open>None\<close> when the bytes are no JSON. The semantic cache is a
  parameter: its answer to the request, \<open>None\<close> when it misses or fails.
\<close>

section \<open>Data\<close>

record provider_plugin =
  pp_config :: provider_config
  pp_extract_model :: "(string \<times> json) list \<Rightarrow> string \<Rightarrow> json"
  pp_is_streaming :: "(string \<times> json) list \<Rightarrow> string \<Rightarrow> bool"
  pp_rewrite_path :: "string \<Rightarrow> string \<Rightarrow> string"
  pp_headers_to_strip :: "string list"
  pp_extract_usage :: "(string \<times> json) list \<Rightarrow> token_usage option"

definition body_get :: "(string \<times> json) list \<Rightarrow> string \<Rightarrow> json" where
  "body_get kvs k = (case map_of kvs k of None \<Rightarrow> JNull | Some j \<Rightarrow> j)"

definition default_headers_to_strip :: "string list" where
  "default_headers_to_strip =
     [''x-burnlens-tag-feature'', ''x-burnlens-tag-team'', ''x-burnlens-tag-customer'', ''x-burnlens-key'']"

definition body_is_streaming :: "(string \<times> json) list \<Rightarrow> string \<Rightarrow> bool" where
  "body_is_streaming kvs path = json_truthy (body_get kvs ''stream'')"

definition openai_provider :: provider_plugin where
  "openai_provider = \<lparr>pp_config = openai_config, pp_extract_model = (\<lambda>kvs _. body_get kvs ''model''),
     pp_is_streaming = body_is_streaming, pp_rewrite_path = (\<lambda>path _. path),
     pp_headers_to_strip = default_headers_to_strip, pp_extract_usage = extract_usage_openai\<rparr>"

definition anthropic_provider :: provider_plugin where
  "anthropic_provider = \<lparr>pp_config = \<lparr>name = ''anthropic'', proxy_path = ''/proxy/anthropic'',
       upstream_url = ''https://api.anthropic.com'', auth_header = ''x-api-key'', streaming_format = ''sse-anthropic'',
       pricing_key = ''anthropic'', env_var = ''ANTHROPIC_BASE_URL'', prompt_tokens_include_cache = False\<rparr>,
     pp_extract_model = (\<lambda>kvs _. body_get kvs ''model''), pp_is_streaming = body_is_streaming,
     pp_rewrite_path = (\<lambda>path _. path), pp_headers_to_strip = default_headers_to_strip,
     pp_extract_usage = extract_usage_anthropic\<rparr>"

text \<open>Google encodes the model in the path.\<close>

fun model_in_parts :: "string list \<Rightarrow> string option" where
  "model_in_parts (p # p' # ps) =
     (if p = ''models'' then Some (hd (split_on (CHR '':'') p')) else model_in_parts (p' # ps))"
| "model_in_parts _ = None"

definition google_extract_model :: "(string \<times> json) list \<Rightarrow> string \<Rightarrow> json" where
  "google_extract_model kvs path =
     (case model_in_parts (split_on (CHR ''/'') path) of
        Some m \<Rightarrow> JStr m | None \<Rightarrow> body_get kvs ''model'')"

text \<open>One match of the pattern of \<open>_MODEL_IN_PATH_RE\<close> at the start of the string, with the model
  replaced; the segment without colon and slash is as long as possible.\<close>

definition rewrite_at :: "string \<Rightarrow> string \<Rightarrow> string \<Rightarrow> string option" where
  "rewrite_at routed prefix s =
     (if \<not> startswith s prefix then None
      else let rest = drop (length prefix) s;
               in_seg = (\<lambda>c. c \<noteq> CHR '':'' \<and> c \<noteq> CHR ''/'');
               after = dropWhile in_seg rest
           in if takeWhile in_seg rest \<noteq> [] \<and>
                 (startswith after '':generateContent'' \<or> startswith after '':streamGenerateContent'')
              then Some (prefix @ routed @ after) else None)"

fun google_rewrite_path :: "string \<Rightarrow> string \<Rightarrow> string" where
  "google_rewrite_path [] routed = []"
| "google_rewrite_path (c # s) routed =
     (case rewrite_at routed ''/v1/models/'' (c # s) of
        Some r \<Rightarrow> r
      | None \<Rightarrow> (case rewrite_at routed ''/v1beta/models/'' (c # s) of
                   Some r \<Rightarrow> r | None \<Rightarrow> c # google_rewrite_path s routed))"

definition google_provider :: provider_plugin where
  "google_provider = \<lparr>pp_config = \<lparr>name = ''google'', proxy_path = ''/proxy/google'',
       upstream_url = ''https://generativelanguage.googleapis.com'', auth_header = ''x-goog-api-key'',
       streaming_format = ''sse-google'', pricing_key = ''google'', env_var = [], prompt_tokens_include_cache = True\<rparr>,
     pp_extract_model = google_extract_model,
     pp_is_streaming = (\<lambda>kvs path. contains path '':streamGenerateContent'' \<or> body_is_streaming kvs path),
     pp_rewrite_path = google_rewrite_path, pp_headers_to_strip = default_headers_to_strip,
     pp_extract_usage = extract_usage_google\<rparr>"

record customer_budgets =
  cb_default :: "usd option"
  cb_customers :: "string \<rightharpoonup> usd"

record retry_config =
  retry_enabled :: bool
  max_retries :: nat
  retry_on_status :: "int set"

record burnlens_config =
  cfg_budgets :: budget_config
  cfg_routing :: routing_config
  cfg_cache_enabled :: bool
  cfg_retry :: retry_config

record gw_request =
  gq_provider :: provider_plugin
  gq_path :: string
  gq_method :: string
  gq_headers :: headers
  gq_query :: string
  gq_body :: "json option"

record gw_env =
  ge_price :: price_env
  ge_pystr :: "json \<Rightarrow> string"
  ge_sha256 :: "string \<Rightarrow> string"
  ge_environ :: environ
  ge_git :: "string \<rightharpoonup> string"
  ge_tz :: tzinfo

record moment =
  mo_now :: datetime
  mo_instant :: instant
  mo_clock :: "nat \<Rightarrow> real" \<comment> \<open>successive readings of the monotonic clock\<close>

record faults =
  flt_virtual_key :: bool
  flt_team_spend :: bool
  flt_label :: bool
  flt_daily_cap :: bool
  flt_customer :: bool
  flt_route_customer :: bool
  flt_route_team :: bool
  flt_policies :: bool

record gateway_db =
  gd_vkeys :: "virtual_key_row table"
  gd_keys :: "api_key_row table"
  gd_requests :: "request_row table"
  gd_counters :: "budget_counter table"
  gd_key_spend :: ttl_entries
  gd_customer_spend :: ttl_entries
  gd_team_spend :: ttl_entries

datatype rejection =
    Gateway_error
  | Invalid_virtual_key
  | Provider_mismatch string
  | Model_not_allowed string "string list"
  | Unpriced_blocked string string
  | Team_budget_exceeded string usd usd
  | Gateway_misconfigured
  | Daily_budget_exceeded string usd usd datetime
  | Customer_budget_exceeded string usd usd
  | Budget_policy_exceeded budget_policy usd

fun reject_status :: "rejection \<Rightarrow> int" where
  "reject_status Gateway_error = 503"
| "reject_status Invalid_virtual_key = 401"
| "reject_status (Provider_mismatch _) = 403"
| "reject_status (Model_not_allowed _ _) = 403"
| "reject_status (Unpriced_blocked _ _) = 403"
| "reject_status (Team_budget_exceeded _ _ _) = 429"
| "reject_status Gateway_misconfigured = 503"
| "reject_status (Daily_budget_exceeded _ _ _ _) = 429"
| "reject_status (Customer_budget_exceeded _ _ _) = 429"
| "reject_status (Budget_policy_exceeded _ _) = 429"

record forwarded =
  fw_url :: string
  fw_method :: string
  fw_headers :: headers
  fw_body :: "json option"
  fw_model :: string
  fw_requested_model :: string
  fw_tags :: tags
  fw_streaming :: bool
  fw_decision :: "route_decision option"
  fw_reservation :: "reservation option"

datatype gw_outcome =
    Rejected rejection
  | Cache_hit string string string \<comment> \<open>stored body, provider, model\<close>
  | Forward forwarded
  | Malformed_path
  | Bad_model

section \<open>Customer budgets\<close>

definition customer_ttl :: real where
  "customer_ttl = 60"

definition get_cached_customer_spend :: "real \<Rightarrow> string \<Rightarrow> ttl_entries \<Rightarrow> usd option \<times> ttl_entries" where
  "get_cached_customer_spend t customer c =
     (case c customer of
        None \<Rightarrow> (None, c)
      | Some (spend, cached_at) \<Rightarrow>
          if t - cached_at > customer_ttl then (None, c(customer := None)) else (Some spend, c))"

definition set_cached_customer_spend :: "real \<Rightarrow> string \<Rightarrow> usd \<Rightarrow> ttl_entries \<Rightarrow> ttl_entries" where
  "set_cached_customer_spend t customer spend c = c(customer \<mapsto> (spend, t))"

interpretation customer_cache:
  ttl_cache "\<lambda>t k c. fst (get_cached_customer_spend t k c)" set_cached_customer_spend customer_ttl
  by unfold_locales
    (auto simp: get_cached_customer_spend_def set_cached_customer_spend_def split: option.splits if_splits)

definition customer_budget_limit :: "string \<Rightarrow> customer_budgets \<Rightarrow> usd option" where
  "customer_budget_limit customer b =
     (case cb_customers b customer of None \<Rightarrow> cb_default b | Some l \<Rightarrow> Some l)"

definition check_customer_budget ::
    "real \<Rightarrow> real \<Rightarrow> (string \<rightharpoonup> usd) \<Rightarrow> string \<Rightarrow> customer_budgets \<Rightarrow> ttl_entries
       \<Rightarrow> (bool \<times> usd \<times> usd) \<times> ttl_entries" where
  "check_customer_budget t1 t2 query customer b c =
     (case customer_budget_limit customer b of
        None \<Rightarrow> ((True, 0, 0), c)
      | Some limit \<Rightarrow>
          (case get_cached_customer_spend t1 customer c of
             (Some spent, c') \<Rightarrow> ((spent < limit, spent, limit), c')
           | (None, c') \<Rightarrow>
               (let spent = spend_or_0 query customer
                in ((spent < limit, spent, limit), set_cached_customer_spend t2 customer spent c'))))"

section \<open>The gates\<close>

definition price_check :: "gw_env \<Rightarrow> burnlens_config option \<Rightarrow> string \<Rightarrow> string \<Rightarrow> bool" where
  "price_check env cfg provider model =
     ((case cfg of None \<Rightarrow> True | Some c \<Rightarrow> block_unpriced_models (cfg_budgets c))
      \<and> \<not> is_model_priced (ge_price env) provider model)"

definition model_allowed :: "virtual_key \<Rightarrow> string \<Rightarrow> bool" where
  "model_allowed vk model =
     (case allowed_models vk of None \<Rightarrow> True | Some ms \<Rightarrow> ms = [] \<or> model \<in> set ms)"

definition team_spent :: "faults \<Rightarrow> moment \<Rightarrow> gateway_db \<Rightarrow> string \<Rightarrow> usd" where
  "team_spent flt mo st team =
     (if flt_team_spend flt then 0
      else spend_or_0 (get_spend_by_team_this_month (mo_now mo) (gd_requests st)) team)"

definition admit_virtual_key ::
    "gw_env \<Rightarrow> moment \<Rightarrow> faults \<Rightarrow> gateway_db \<Rightarrow> string \<Rightarrow> string \<Rightarrow> bool \<Rightarrow> virtual_key \<Rightarrow> rejection + string" where
  "admit_virtual_key env mo flt st provider model unpriced vk =
     (if vk_provider vk \<noteq> provider then Inl (Provider_mismatch (vk_provider vk))
      else if \<not> model_allowed vk model then Inl (Model_not_allowed model (the (allowed_models vk)))
      else if monthly_budget_usd vk \<noteq> None \<and> unpriced then Inl (Unpriced_blocked model ''virtual-key monthly'')
      else if monthly_budget_usd vk \<noteq> None \<and> the (monthly_budget_usd vk) \<le> team_spent flt mo st (vk_team vk)
        then Inl (Team_budget_exceeded (vk_team vk) (team_spent flt mo st (vk_team vk)) (the (monthly_budget_usd vk)))
      else if \<not> truthy (ge_environ env (upstream_key_env vk)) then Inl Gateway_misconfigured
      else Inr (the (ge_environ env (upstream_key_env vk))))"

definition virtual_key_gate ::
    "gw_env \<Rightarrow> moment \<Rightarrow> faults \<Rightarrow> gateway_db \<Rightarrow> string \<Rightarrow> string \<Rightarrow> bool \<Rightarrow> headers \<Rightarrow> tags
       \<Rightarrow> rejection + ((string \<times> string) option \<times> tags)" where
  "virtual_key_gate env mo flt st provider model unpriced hs tg =
     (case extract_auth_token hs of
        None \<Rightarrow> Inr (None, tg)
      | Some (token, header) \<Rightarrow>
          if \<not> looks_like_virtual_key (Some token) then Inr (None, tg)
          else if flt_virtual_key flt then Inl Gateway_error
          else (case resolve (ge_sha256 env token) (gd_vkeys st) of
            None \<Rightarrow> Inl Invalid_virtual_key
          | Some vk \<Rightarrow>
              (case admit_virtual_key env mo flt st provider model unpriced vk of
                 Inl r \<Rightarrow> Inl r
               | Inr real_key \<Rightarrow>
                   Inr (Some (header, real_key),
                     (let tg' = tg(''team'' \<mapsto> vk_team vk)
                      in if tg' ''key_label'' = None then tg'(''key_label'' \<mapsto> vk_label vk) else tg')))))"

text \<open>The label of the API key; a lookup that fails, and the empty label, count as no label.\<close>

definition find_label :: "gw_env \<Rightarrow> faults \<Rightarrow> gateway_db \<Rightarrow> headers \<Rightarrow> string option" where
  "find_label env flt st hs =
     (case extract_api_key_hash (ge_sha256 env) hs of
        None \<Rightarrow> None
      | Some h \<Rightarrow> if flt_label flt then None
                  else (case get_label_by_hash h (gd_keys st) of
                          Some l \<Rightarrow> if l = [] then None else Some l | None \<Rightarrow> None))"

definition daily_cap_gate ::
    "gw_env \<Rightarrow> moment \<Rightarrow> faults \<Rightarrow> api_key_budgets option \<Rightarrow> string \<Rightarrow> bool \<Rightarrow> string option \<Rightarrow> gateway_db
       \<Rightarrow> rejection option \<times> gateway_db" where
  "daily_cap_gate env mo flt kb model unpriced label st =
     (case (label, kb) of
        (Some l, Some b) \<Rightarrow>
          if unpriced \<and> daily_cap_for b (Some l) \<noteq> None
          then (Some (Unpriced_blocked model (''daily cap on key '' @ l)), st)
          else if flt_daily_cap flt then (None, st)
          else (case enforce_daily_cap (ge_tz env) b (gd_requests st) (mo_now mo) (mo_clock mo 0) (mo_clock mo 1)
                       (Some l) (gd_key_spend st) of
                  (breach, c) \<Rightarrow>
                    (map_option (\<lambda>(spent, cap, resets). Daily_budget_exceeded l spent cap resets) breach,
                     st\<lparr>gd_key_spend := c\<rparr>))
      | _ \<Rightarrow> (None, st))"

definition customer_gate ::
    "moment \<Rightarrow> faults \<Rightarrow> customer_budgets option \<Rightarrow> string \<Rightarrow> bool \<Rightarrow> string option \<Rightarrow> gateway_db
       \<Rightarrow> rejection option \<times> gateway_db" where
  "customer_gate mo flt cb model unpriced customer st =
     (case cb of
        None \<Rightarrow> (None, st)
      | Some b \<Rightarrow>
          if \<not> truthy customer then (None, st)
          else if unpriced \<and> customer_budget_limit (the customer) b \<noteq> None
            then (Some (Unpriced_blocked model (''budget for customer '' @ the customer)), st)
          else if flt_customer flt then (None, st)
          else (case check_customer_budget (mo_clock mo 2) (mo_clock mo 3)
                       (get_spend_by_customer_this_month (mo_now mo) (gd_requests st)) (the customer) b
                       (gd_customer_spend st) of
                  ((allowed, spent, limit), c) \<Rightarrow>
                    (if allowed then None else Some (Customer_budget_exceeded (the customer) spent limit),
                     st\<lparr>gd_customer_spend := c\<rparr>)))"

section \<open>Cache eligibility\<close>

definition safe_json :: "json option \<Rightarrow> (string \<times> json) list" where
  "safe_json body = (case body of Some (JObj kvs) \<Rightarrow> kvs | _ \<Rightarrow> [])"

definition request_is_cacheable :: "json option \<Rightarrow> bool" where
  "request_is_cacheable body =
     (case map_of (safe_json body) ''temperature'' of
        Some (JInt n) \<Rightarrow> \<not> n > 0 | Some (JFloat x) \<Rightarrow> \<not> x > 0 | _ \<Rightarrow> True)"

definition cache_bypassed :: "headers \<Rightarrow> string \<Rightarrow> bool" where
  "cache_bypassed hs query =
     (let cc = (case py_or (map_of hs ''cache-control'') (map_of hs ''Cache-Control'') of None \<Rightarrow> [] | Some v \<Rightarrow> v)
      in contains cc ''no-cache'' \<or> contains cc ''no-store''
         \<or> contains query ''nocache=true'' \<or> contains query ''nocache=1'')"

definition may_use_cache :: "burnlens_config option \<Rightarrow> gw_request \<Rightarrow> bool" where
  "may_use_cache cfg q =
     (case cfg of None \<Rightarrow> False
      | Some c \<Rightarrow> cfg_cache_enabled c \<and> \<not> cache_bypassed (gq_headers q) (gq_query q)
          \<and> upper_ascii (gq_method q) = ''POST'' \<and> request_is_cacheable (gq_body q))"

section \<open>Routing and budget policies\<close>

definition route_request ::
    "moment \<Rightarrow> faults \<Rightarrow> burnlens_config \<Rightarrow> string \<Rightarrow> tags \<Rightarrow> gateway_db \<Rightarrow> route_decision \<times> gateway_db" where
  "route_request mo flt cfg model tg st =
     (let rqs = gd_requests st; now = mo_now mo;
          cust_q = (if flt_route_customer flt then None else Some (get_spend_by_customer_this_month now rqs));
          team_q = (if flt_route_team flt then None else Some (get_spend_by_team_this_month now rqs));
          total_q = (if flt_route_team flt then None else Some (team_total_this_month now rqs));
          (d, c) = decide_route (cfg_routing cfg) (mo_clock mo 4) (mo_clock mo 5) cust_q team_q total_q
             model (tg ''team'') (tg ''customer'') (gd_team_spend st)
      in (d, st\<lparr>gd_team_spend := c\<rparr>))"

definition rewrite_body :: "string \<Rightarrow> json option \<Rightarrow> json option" where
  "rewrite_body model body =
     (case body of
        Some (JObj kvs) \<Rightarrow>
          if map_of kvs ''model'' = None then body
          else Some (JObj (map (\<lambda>(k, v). if k = ''model'' then (k, JStr model) else (k, v)) kvs))
      | _ \<Rightarrow> body)"

definition policy_context :: "gw_env \<Rightarrow> headers \<Rightarrow> tags \<Rightarrow> request_context" where
  "policy_context env hs tg =
     (let meta = resolve_canonical_metadata (ge_sha256 env) (ge_environ env) (ge_git env) hs tg
      in \<lparr>ctx_org_id = md_org_id meta, ctx_team = py_or (md_team meta) (tg ''team''),
          ctx_app_id = py_or (md_app_id meta) (tg ''app_id''), ctx_customer = tg ''customer''\<rparr>)"

definition policy_gate ::
    "gw_env \<Rightarrow> moment \<Rightarrow> faults \<Rightarrow> burnlens_config option \<Rightarrow> string \<Rightarrow> string \<Rightarrow> json option \<Rightarrow> headers \<Rightarrow> tags
       \<Rightarrow> gateway_db \<Rightarrow> (rejection + reservation option) \<times> gateway_db" where
  "policy_gate env mo flt cfg provider model body hs tg st =
     (case cfg of
        None \<Rightarrow> (Inr None, st)
      | Some c \<Rightarrow>
          if budget_policies (cfg_budgets c) = [] \<or> flt_policies flt then (Inr None, st)
          else (case check_and_reserve (ge_price env) (ge_pystr env) (ge_sha256 env) (cfg_budgets c) (mo_now mo)
                       (gd_requests st) provider model body (policy_context env hs tg) (gd_counters st) of
                  None \<Rightarrow> (Inr None, st)
                | Some (Allowed res, t) \<Rightarrow> (Inr (Some res), st\<lparr>gd_counters := t\<rparr>)
                | Some (Unpriced_model, t) \<Rightarrow> (Inl (Unpriced_blocked model ''budget policy''), st\<lparr>gd_counters := t\<rparr>)
                | Some (Violated pol est, t) \<Rightarrow> (Inl (Budget_policy_exceeded pol est), st\<lparr>gd_counters := t\<rparr>)))"

section \<open>The request handler\<close>

definition upstream_path :: "gw_request \<Rightarrow> string option" where
  "upstream_path q = map_option (\<lambda>rest. if gq_query q = [] then rest else rest @ ''?'' @ gq_query q)
     (strip_proxy_prefix (gq_path q) (pp_config (gq_provider q)))"

text \<open>\<open>provider.extract_model(...) or "unknown"\<close>; on a value that is no string the pricing lookup
  raises.\<close>

definition requested_model :: "gw_request \<Rightarrow> string \<Rightarrow> string option" where
  "requested_model q upath =
     (let j = pp_extract_model (gq_provider q) (safe_json (gq_body q)) upath
      in if \<not> json_truthy j then Some ''unknown'' else case j of JStr m \<Rightarrow> Some m | _ \<Rightarrow> None)"

record admitted =
  ad_swap :: "(string \<times> string) option"
  ad_tags :: tags
  ad_label :: "string option"

definition stamp_key :: "moment \<Rightarrow> string option \<Rightarrow> gateway_db \<Rightarrow> gateway_db" where
  "stamp_key mo label st =
     (case label of None \<Rightarrow> st
      | Some l \<Rightarrow> st\<lparr>gd_keys := touch_last_used (mo_instant mo) l (gd_keys st)\<rparr>)"

text \<open>The three gates on the caller: virtual key, daily cap of the API key, customer budget.\<close>

definition admit ::
    "gw_env \<Rightarrow> moment \<Rightarrow> faults \<Rightarrow> customer_budgets option \<Rightarrow> api_key_budgets option \<Rightarrow> string \<Rightarrow> bool \<Rightarrow> gw_request
       \<Rightarrow> gateway_db \<Rightarrow> (rejection + admitted) \<times> gateway_db" where
  "admit env mo flt cb kb model unpriced q st =
     (let hs = gq_headers q; provider = name (pp_config (gq_provider q))
      in case virtual_key_gate env mo flt st provider model unpriced hs (extract_tags (ge_environ env) hs) of
           Inl r \<Rightarrow> (Inl r, st)
         | Inr (swap, tg1) \<Rightarrow>
             (let label = find_label env flt st hs;
                  tg = (case label of None \<Rightarrow> tg1 | Some l \<Rightarrow> tg1(''key_label'' \<mapsto> l))
              in case daily_cap_gate env mo flt kb model unpriced label (stamp_key mo label st) of
                   (Some r, st2) \<Rightarrow> (Inl r, st2)
                 | (None, st2) \<Rightarrow>
                     (case customer_gate mo flt cb model unpriced (tg ''customer'') st2 of
                        (Some r, st3) \<Rightarrow> (Inl r, st3)
                      | (None, st3) \<Rightarrow> (Inr \<lparr>ad_swap = swap, ad_tags = tg, ad_label = label\<rparr>, st3))))"

definition outbound_headers :: "gw_request \<Rightarrow> (string \<times> string) option \<Rightarrow> headers" where
  "outbound_headers q swap =
     (let hs = clean_request_headers (pp_headers_to_strip (gq_provider q)) (gq_headers q)
      in case swap of None \<Rightarrow> hs | Some sw \<Rightarrow> swap_auth sw hs)"

record routed =
  rt_decision :: "route_decision option"
  rt_model :: string
  rt_path :: string
  rt_body :: "json option"

definition apply_routing ::
    "moment \<Rightarrow> faults \<Rightarrow> burnlens_config option \<Rightarrow> gw_request \<Rightarrow> string \<Rightarrow> string \<Rightarrow> tags \<Rightarrow> gateway_db
       \<Rightarrow> routed \<times> gateway_db" where
  "apply_routing mo flt cfg q upath model tg st =
     (case cfg of
        None \<Rightarrow> (\<lparr>rt_decision = None, rt_model = model, rt_path = upath, rt_body = gq_body q\<rparr>, st)
      | Some c \<Rightarrow>
          (case route_request mo flt c model tg st of
             (d, st') \<Rightarrow>
               (if downgraded d
                then \<lparr>rt_decision = Some d, rt_model = routed_model d,
                      rt_path = pp_rewrite_path (gq_provider q) upath (routed_model d),
                      rt_body = rewrite_body (routed_model d) (gq_body q)\<rparr>
                else \<lparr>rt_decision = Some d, rt_model = model, rt_path = upath, rt_body = gq_body q\<rparr>,
                st')))"

definition dispatch ::
    "gw_env \<Rightarrow> moment \<Rightarrow> faults \<Rightarrow> burnlens_config option \<Rightarrow> gw_request \<Rightarrow> string \<Rightarrow> string \<Rightarrow> admitted
       \<Rightarrow> gateway_db \<Rightarrow> gw_outcome \<times> gateway_db" where
  "dispatch env mo flt cfg q upath model a st =
     (let pc = pp_config (gq_provider q)
      in case apply_routing mo flt cfg q upath model (ad_tags a) st of
           (rt, st1) \<Rightarrow>
             (case policy_gate env mo flt cfg (name pc) (rt_model rt) (rt_body rt) (gq_headers q) (ad_tags a) st1 of
                (Inl r, st2) \<Rightarrow> (Rejected r, st2)
              | (Inr res, st2) \<Rightarrow>
                  (Forward \<lparr>fw_url = upstream_url pc @ rt_path rt, fw_method = gq_method q,
                     fw_headers = outbound_headers q (ad_swap a), fw_body = rt_body rt,
                     fw_model = rt_model rt, fw_requested_model = model, fw_tags = ad_tags a,
                     fw_streaming = pp_is_streaming (gq_provider q) (safe_json (gq_body q)) upath,
                     fw_decision = rt_decision rt, fw_reservation = res\<rparr>, st2)))"

definition handle_request ::
    "gw_env \<Rightarrow> moment \<Rightarrow> faults \<Rightarrow> burnlens_config option \<Rightarrow> customer_budgets option \<Rightarrow> api_key_budgets option
       \<Rightarrow> (gw_request \<Rightarrow> tags \<Rightarrow> (string \<times> string \<times> string) option) \<Rightarrow> gw_request \<Rightarrow> gateway_db
       \<Rightarrow> gw_outcome \<times> gateway_db" where
  "handle_request env mo flt cfg cb kb probe q st =
     (case upstream_path q of
        None \<Rightarrow> (Malformed_path, st)
      | Some upath \<Rightarrow>
          (case requested_model q upath of
             None \<Rightarrow> (Bad_model, st)
           | Some model \<Rightarrow>
               (let unpriced = price_check env cfg (name (pp_config (gq_provider q))) model
                in case admit env mo flt cb kb model unpriced q st of
                     (Inl r, st1) \<Rightarrow> (Rejected r, st1)
                   | (Inr a, st1) \<Rightarrow>
                       (case (if may_use_cache cfg q then probe q (ad_tags a) else None) of
                          Some (body, prov, m) \<Rightarrow> (Cache_hit body prov m, st1)
                        | None \<Rightarrow> dispatch env mo flt cfg q upath model a st1))))"

section \<open>What the gates keep\<close>

text \<open>The caller's gates change only the caches and the last-used stamps of keys.\<close>

definition same_books :: "gateway_db \<Rightarrow> gateway_db \<Rightarrow> bool" where
  "same_books st st' \<longleftrightarrow> gd_vkeys st' = gd_vkeys st \<and> gd_requests st' = gd_requests st
     \<and> gd_counters st' = gd_counters st"

lemma same_books_refl [simp]: "same_books st st"
  by (simp add: same_books_def)

lemma same_books_trans [trans]: "same_books a b \<Longrightarrow> same_books b c \<Longrightarrow> same_books a c"
  by (simp add: same_books_def)

lemma stamp_key_frame [simp]:
  "gd_vkeys (stamp_key mo l st) = gd_vkeys st" "gd_requests (stamp_key mo l st) = gd_requests st"
  "gd_counters (stamp_key mo l st) = gd_counters st" "gd_key_spend (stamp_key mo l st) = gd_key_spend st"
  "gd_customer_spend (stamp_key mo l st) = gd_customer_spend st"
  by (simp_all add: stamp_key_def split: option.splits)

lemma same_books_stamp [simp]: "same_books (stamp_key mo l st) st' = same_books st st'"
  by (simp add: same_books_def)

lemma daily_cap_gate_frame:
  "daily_cap_gate env mo flt kb model unpriced label st = (r, st') \<Longrightarrow>
     same_books st st' \<and> gd_customer_spend st' = gd_customer_spend st"
  by (auto simp: daily_cap_gate_def same_books_def split: option.splits if_splits prod.splits)

lemma customer_gate_frame:
  "customer_gate mo flt cb model unpriced customer st = (r, st') \<Longrightarrow> same_books st st'"
  by (auto simp: customer_gate_def same_books_def split: option.splits if_splits prod.splits)

lemma policy_gate_refused:
  "policy_gate env mo flt cfg provider model body hs tg st = (Inl r, st') \<Longrightarrow> same_books st st'"
  by (auto simp: policy_gate_def same_books_def check_and_reserve_def bind_eq_Some_conv Let_def
      split: option.splits if_splits prod.splits budget_decision.splits sum.splits)

lemma admit_frame:
  "admit env mo flt cb kb model unpriced q st = (r, st') \<Longrightarrow> same_books st st'"
  by (auto simp: admit_def Let_def same_books_def split: sum.splits option.splits prod.splits if_splits
      dest!: daily_cap_gate_frame customer_gate_frame)

lemma apply_routing_frame:
  "apply_routing mo flt cfg q upath model tg st = (rt, st') \<Longrightarrow> same_books st st'"
  by (auto simp: apply_routing_def route_request_def Let_def same_books_def split: option.splits prod.splits if_splits)

lemma dispatch_not_forwarded:
  "dispatch env mo flt cfg q upath model a st = (out, st') \<Longrightarrow> \<forall>fw. out \<noteq> Forward fw \<Longrightarrow> same_books st st'"
  by (auto simp: dispatch_def Let_def split: prod.splits sum.splits
      dest!: policy_gate_refused apply_routing_frame intro: same_books_trans)

lemma handle_forwardE:
  assumes "handle_request env mo flt cfg cb kb probe q st = (Forward fw, st')"
  obtains upath model a st1 where "upstream_path q = Some upath" "requested_model q upath = Some model"
    "admit env mo flt cb kb model (price_check env cfg (name (pp_config (gq_provider q))) model) q st = (Inr a, st1)"
    "dispatch env mo flt cfg q upath model a st1 = (Forward fw, st')"
  using assms
  by (auto simp: handle_request_def Let_def split: option.splits prod.splits sum.splits if_splits)

lemma dispatch_forwardE:
  assumes "dispatch env mo flt cfg q upath model a st = (Forward fw, st')"
  obtains rt st1 where "apply_routing mo flt cfg q upath model (ad_tags a) st = (rt, st1)"
    "policy_gate env mo flt cfg (name (pp_config (gq_provider q))) (rt_model rt) (rt_body rt) (gq_headers q) (ad_tags a) st1
       = (Inr (fw_reservation fw), st')"
    "fw_headers fw = outbound_headers q (ad_swap a)" "fw_tags fw = ad_tags a" "fw_requested_model fw = model"
    "fw_model fw = rt_model rt" "fw_body fw = rt_body rt"
  using assms by (auto simp: dispatch_def Let_def split: prod.splits sum.splits)

lemma admitE:
  assumes "admit env mo flt cb kb model unpriced q st = (Inr a, st')"
  obtains tg1 st2 where
    "virtual_key_gate env mo flt st (name (pp_config (gq_provider q))) model unpriced (gq_headers q)
       (extract_tags (ge_environ env) (gq_headers q)) = Inr (ad_swap a, tg1)"
    "ad_label a = find_label env flt st (gq_headers q)"
    "ad_tags a = (case ad_label a of None \<Rightarrow> tg1 | Some l \<Rightarrow> tg1(''key_label'' \<mapsto> l))"
    "daily_cap_gate env mo flt kb model unpriced (ad_label a) (stamp_key mo (ad_label a) st) = (None, st2)"
    "customer_gate mo flt cb model unpriced (ad_tags a ''customer'') st2 = (None, st')"
  using assms
  by (auto simp: admit_def Let_def split: sum.splits option.splits prod.splits intro!: that)

lemma virtual_key_gate_virtual:
  assumes "virtual_key_gate env mo flt st provider model unpriced hs tg = Inr (swap, tg')"
    and "extract_auth_token hs = Some (tok, h)" and "looks_like_virtual_key (Some tok)"
  shows "\<exists>vk key. resolve (ge_sha256 env tok) (gd_vkeys st) = Some vk \<and> vk_provider vk = provider
    \<and> model_allowed vk model \<and> (monthly_budget_usd vk \<noteq> None \<longrightarrow> \<not> unpriced)
    \<and> (\<forall>b. monthly_budget_usd vk = Some b \<longrightarrow> team_spent flt mo st (vk_team vk) < b)
    \<and> ge_environ env (upstream_key_env vk) = Some key \<and> key \<noteq> [] \<and> swap = Some (h, key)
    \<and> tg' ''team'' = Some (vk_team vk) \<and> \<not> flt_virtual_key flt"
  using assms
  by (auto simp: virtual_key_gate_def admit_virtual_key_def Let_def split: option.splits sum.splits if_splits
      elim!: truthyE)

lemma virtual_key_gate_swap:
  assumes "virtual_key_gate env mo flt st provider model unpriced hs tg = Inr (Some (h, key), tg')"
  shows "\<exists>tok. extract_auth_token hs = Some (tok, h)"
  using assms by (auto simp: virtual_key_gate_def split: option.splits sum.splits if_splits)

lemma outbound_swapped:
  assumes "lower h = h"
  shows "filter (\<lambda>(k, v). lower k = h) (outbound_headers q (Some (h, key))) =
    [(h, if h = ''authorization'' then ''Bearer '' @ key else key)]"
  using assms by (simp add: outbound_headers_def Let_def swap_auth_unique)

lemma outbound_clean:
  assumes "(k, v) \<in> set (outbound_headers q swap)"
    and "\<forall>h key. swap = Some (h, key) \<longrightarrow> h \<in> {''authorization'', ''x-api-key'', ''x-goog-api-key''}"
  shows "lower k \<notin> set STRIP_REQUEST_HEADERS \<and> \<not> startswith (lower k) BURNLENS_HEADER_PREFIX"
proof (cases swap)
  case None
  with assms show ?thesis by (auto simp: outbound_headers_def Let_def dest!: clean_request_headersD)
next
  case (Some sw)
  then obtain h key where sw: "swap = Some (h, key)" by (cases sw) auto
  with assms(2) have h: "h \<in> {''authorization'', ''x-api-key'', ''x-goog-api-key''}" by blast
  then have "lower h = h" by auto
  from assms(1) sw consider "(k, v) \<in> set (clean_request_headers (pp_headers_to_strip (gq_provider q)) (gq_headers q))"
    | "k = h" by (auto simp: outbound_headers_def Let_def dest!: swap_authD split: if_splits)
  then show ?thesis
    using clean_request_headersD auth_header_kept[OF h] \<open>lower h = h\<close> by cases auto
qed

section \<open>Properties\<close>


text \<open>No BurnLens header and no hop-by-hop header reaches an upstream, with or without a virtual
  key.\<close>

theorem internal_headers_stay:
  assumes "handle_request env mo flt cfg cb kb probe q st = (Forward fw, st')" and "(k, v) \<in> set (fw_headers fw)"
  shows "lower k \<notin> set STRIP_REQUEST_HEADERS \<and> \<not> startswith (lower k) BURNLENS_HEADER_PREFIX"
proof -
  from assms(1) obtain upath model a st1 where
    ad: "admit env mo flt cb kb model (price_check env cfg (name (pp_config (gq_provider q))) model) q st = (Inr a, st1)"
    and di: "dispatch env mo flt cfg q upath model a st1 = (Forward fw, st')" by (rule handle_forwardE)
  from di have fw: "fw_headers fw = outbound_headers q (ad_swap a)" by (rule dispatch_forwardE)
  from ad obtain tg1 where "virtual_key_gate env mo flt st (name (pp_config (gq_provider q))) model
      (price_check env cfg (name (pp_config (gq_provider q))) model) (gq_headers q)
      (extract_tags (ge_environ env) (gq_headers q)) = Inr (ad_swap a, tg1)" by (rule admitE)
  then have "\<forall>h key. ad_swap a = Some (h, key) \<longrightarrow> h \<in> {''authorization'', ''x-api-key'', ''x-goog-api-key''}"
    using virtual_key_gate_swap extract_auth_token_cases by metis
  with assms(2) fw show ?thesis using outbound_clean by metis
qed

text \<open>A request that is not forwarded costs nothing: whatever gate refused it, or if the cache
  answered it, the request log, the virtual keys and every budget counter are as before.\<close>

theorem refused_requests_cost_nothing:
  assumes "handle_request env mo flt cfg cb kb probe q st = (out, st')" and "\<forall>fw. out \<noteq> Forward fw"
  shows "gd_requests st' = gd_requests st \<and> gd_vkeys st' = gd_vkeys st \<and> gd_counters st' = gd_counters st"
proof -
  have "same_books st st'"
    using assms
    by (auto simp: handle_request_def Let_def split: option.splits prod.splits sum.splits if_splits
        dest: admit_frame dispatch_not_forwarded intro: same_books_trans)
  then show ?thesis by (simp add: same_books_def)
qed

text \<open>What passing each gate means.\<close>

lemma daily_cap_gate_passed:
  assumes "daily_cap_gate env mo flt (Some b) model unpriced (Some l) st = (None, st')"
    and "daily_cap_for b (Some l) = Some cap"
  shows "\<not> unpriced \<and> (\<not> flt_daily_cap flt
    \<longrightarrow> cache_coherent (fst (today_window_utc (ge_tz env) (mo_now mo))) (gd_requests st) (gd_key_spend st)
    \<longrightarrow> get_spend_by_key_label_today (fst (today_window_utc (ge_tz env) (mo_now mo))) l (gd_requests st) < cap)"
  using assms enforce_coherent[OF _ assms(2), of "ge_tz env" "mo_now mo" "gd_requests st" "gd_key_spend st"
      "mo_clock mo 0" "mo_clock mo 1"]
  by (auto simp: daily_cap_gate_def split: if_splits prod.splits)

definition customer_spend_seen :: "moment \<Rightarrow> gateway_db \<Rightarrow> string \<Rightarrow> usd" where
  "customer_spend_seen mo st c =
     (case fst (get_cached_customer_spend (mo_clock mo 2) c (gd_customer_spend st)) of
        Some v \<Rightarrow> v
      | None \<Rightarrow> spend_or_0 (get_spend_by_customer_this_month (mo_now mo) (gd_requests st)) c)"

lemma customer_gate_passed:
  assumes "customer_gate mo flt (Some b) model unpriced (Some c) st = (None, st')"
    and "customer_budget_limit c b = Some limit" and "c \<noteq> []"
  shows "\<not> unpriced \<and> (\<not> flt_customer flt \<longrightarrow> customer_spend_seen mo st c < limit)"
  using assms
  by (auto simp: customer_gate_def check_customer_budget_def customer_spend_seen_def Let_def
      split: if_splits prod.splits option.splits)

lemma customer_spend_seen_frame:
  "same_books st st' \<Longrightarrow> gd_customer_spend st' = gd_customer_spend st \<Longrightarrow>
     customer_spend_seen mo st' c = customer_spend_seen mo st c"
  by (simp add: customer_spend_seen_def same_books_def cong: option.case_cong)

lemma policy_gate_reserved:
  assumes "policy_gate env mo flt (Some cfg) provider model body hs tg st = (Inr (Some res), st')"
    and "unique_names (cfg_budgets cfg)" and "m \<in> set (res_policies res)"
  shows "balance (pol_key m) (gd_counters st') \<le> limit_usd (fst m)"
proof -
  from assms(1) obtain t where
    cr: "check_and_reserve (ge_price env) (ge_pystr env) (ge_sha256 env) (cfg_budgets cfg) (mo_now mo)
      (gd_requests st) provider model body (policy_context env hs tg) (gd_counters st) = Some (Allowed res, t)"
    and st': "gd_counters st' = t"
    by (auto simp: policy_gate_def split: if_splits option.splits prod.splits budget_decision.splits)
  from cr show ?thesis
  proof (cases rule: check_and_reserve_cases)
    case (reserved est t1)
    with assms(2,3) st' reserved_balance[OF reserved(4) unique_matching[OF assms(2)], of m]
    show ?thesis by simp
  qed (use assms(3) in auto)
qed


text \<open>The gateway does not enforce a cap it cannot count: when unpriced models are blocked and the
  requested model has no price, a request is forwarded only if neither its virtual key nor its API key
  nor its customer has a cap.\<close>

theorem unpriced_only_uncapped:
  assumes "handle_request env mo flt cfg cb kb probe q st = (Forward fw, st')"
    and "price_check env cfg (name (pp_config (gq_provider q))) (fw_requested_model fw)"
  shows "(\<forall>l b. find_label env flt st (gq_headers q) = Some l \<and> kb = Some b \<longrightarrow> daily_cap_for b (Some l) = None)
    \<and> (\<forall>c b. fw_tags fw ''customer'' = Some c \<and> c \<noteq> [] \<and> cb = Some b \<longrightarrow> customer_budget_limit c b = None)
    \<and> (\<forall>tok h vk. extract_auth_token (gq_headers q) = Some (tok, h) \<and> looks_like_virtual_key (Some tok)
        \<and> resolve (ge_sha256 env tok) (gd_vkeys st) = Some vk \<longrightarrow> monthly_budget_usd vk = None)"
proof -
  from assms(1) obtain upath model a st1 where
    ad: "admit env mo flt cb kb model (price_check env cfg (name (pp_config (gq_provider q))) model) q st = (Inr a, st1)"
    and di: "dispatch env mo flt cfg q upath model a st1 = (Forward fw, st')" by (rule handle_forwardE)
  from di have fw: "fw_tags fw = ad_tags a" "fw_requested_model fw = model" by (auto elim: dispatch_forwardE)
  with ad assms(2) have ad': "admit env mo flt cb kb model True q st = (Inr a, st1)" by simp
  from ad' obtain tg1 st3 where vg: "virtual_key_gate env mo flt st (name (pp_config (gq_provider q))) model True
      (gq_headers q) (extract_tags (ge_environ env) (gq_headers q)) = Inr (ad_swap a, tg1)"
    and lab: "ad_label a = find_label env flt st (gq_headers q)"
    and dc: "daily_cap_gate env mo flt kb model True (ad_label a) (stamp_key mo (ad_label a) st) = (None, st3)"
    and cg: "customer_gate mo flt cb model True (ad_tags a ''customer'') st3 = (None, st1)" by (rule admitE)
  show ?thesis
  proof (intro conjI allI impI; elim conjE)
    fix l b assume "find_label env flt st (gq_headers q) = Some l" "kb = Some b"
    with dc lab show "daily_cap_for b (Some l) = None"
      using daily_cap_gate_passed[of env mo flt b model True l] by fastforce
  next
    fix c b assume "fw_tags fw ''customer'' = Some c" "c \<noteq> []" "cb = Some b"
    with cg fw(1) show "customer_budget_limit c b = None"
      using customer_gate_passed[of mo flt b model True c] by fastforce
  next
    fix tok h vk assume "extract_auth_token (gq_headers q) = Some (tok, h)" "looks_like_virtual_key (Some tok)"
      "resolve (ge_sha256 env tok) (gd_vkeys st) = Some vk"
    with virtual_key_gate_virtual[OF vg, of tok h] show "monthly_budget_usd vk = None" by auto
  qed
qed

text \<open>The swap covers one header only: when a client sends its virtual key both as a bearer token
  and as an \<open>x-api-key\<close> header, the second copy is forwarded upstream.\<close>

theorem second_token_header_forwarded:
  assumes "handle_request env mo flt cfg cb kb probe q st = (Forward fw, st')"
    and "extract_auth_token (gq_headers q) = Some (tok, ''authorization'')"
    and "(''x-api-key'', tok) \<in> set (gq_headers q)" and "''x-api-key'' \<notin> lower ` set (pp_headers_to_strip (gq_provider q))"
  shows "(''x-api-key'', tok) \<in> set (fw_headers fw)"
proof -
  from assms(1) obtain upath model a st1 where
    ad: "admit env mo flt cb kb model (price_check env cfg (name (pp_config (gq_provider q))) model) q st = (Inr a, st1)"
    and di: "dispatch env mo flt cfg q upath model a st1 = (Forward fw, st')" by (rule handle_forwardE)
  from di have fw: "fw_headers fw = outbound_headers q (ad_swap a)" by (rule dispatch_forwardE)
  from ad obtain tg1 where vg: "virtual_key_gate env mo flt st (name (pp_config (gq_provider q))) model
      (price_check env cfg (name (pp_config (gq_provider q))) model) (gq_headers q)
      (extract_tags (ge_environ env) (gq_headers q)) = Inr (ad_swap a, tg1)" by (rule admitE)
  have "(''x-api-key'', tok) \<in> set (clean_request_headers (pp_headers_to_strip (gq_provider q)) (gq_headers q))"
    using assms(3,4) by (auto simp: clean_request_headers_def STRIP_REQUEST_HEADERS_def BURNLENS_HEADER_PREFIX_def)
  moreover have "\<exists>key. ad_swap a = Some (''authorization'', key) \<or> ad_swap a = None"
    using virtual_key_gate_swap vg assms(2) by (cases "ad_swap a") fastforce+
  ultimately show ?thesis by (auto simp: fw outbound_headers_def Let_def swap_auth_def)
qed

section \<open>A concrete gateway\<close>

definition demo_environ :: environ where
  "demo_environ = [''OPENAI_API_KEY'' \<mapsto> ''sk-real'']"

definition demo_env :: gw_env where
  "demo_env = \<lparr>ge_price = openai_env, ge_pystr = (\<lambda>_. []), ge_sha256 = id,
     ge_environ = demo_environ, ge_git = Map.empty, ge_tz = utc\<rparr>"

definition demo_moment :: moment where
  "demo_moment = \<lparr>mo_now = noon, mo_instant = 0, mo_clock = (\<lambda>_. 0)\<rparr>"

definition no_faults :: faults where
  "no_faults = \<lparr>flt_virtual_key = False, flt_team_spend = False, flt_label = False, flt_daily_cap = False,
     flt_customer = False, flt_route_customer = False, flt_route_team = False, flt_policies = False\<rparr>"

definition demo_config :: burnlens_config where
  "demo_config = \<lparr>cfg_budgets = ml_config [''ml-daily''], cfg_routing = eager\<lparr>budget_downgrade := False\<rparr>,
     cfg_cache_enabled = False, cfg_retry = \<lparr>retry_enabled = True, max_retries = 2, retry_on_status = {429, 503}\<rparr>\<rparr>"

definition demo_state :: gateway_db where
  "demo_state = \<lparr>gd_vkeys = [(a_vkey ''bl-sk-abcdef'' None)\<lparr>vk_team := ''ml''\<rparr>],
     gd_keys = [\<lparr>ak_label = ''ci'', ak_provider = ''openai'', ak_hash = ''bl-sk-abcdef'', ak_prefix = ''bl-sk'',
       ak_created_at = 0, ak_last_used = None\<rparr>],
     gd_requests = [], gd_counters = ml_counter 3, gd_key_spend = Map.empty, gd_customer_spend = Map.empty,
     gd_team_spend = Map.empty\<rparr>"

definition demo_headers :: headers where
  "demo_headers = [(''authorization'', ''Bearer bl-sk-abcdef''), (''x-api-key'', ''bl-sk-abcdef''),
     (''X-BurnLens-Tag-Customer'', ''acme'')]"

definition demo_request :: "headers \<Rightarrow> string \<Rightarrow> gw_request" where
  "demo_request hs model = \<lparr>gq_provider = openai_provider, gq_path = ''/proxy/openai/v1/chat'', gq_method = ''POST'',
     gq_headers = hs, gq_query = [], gq_body = Some (JObj [(''model'', JStr model)])\<rparr>"

definition demo_budgets :: customer_budgets where
  "demo_budgets = \<lparr>cb_default = None, cb_customers = [''acme'' \<mapsto> 50]\<rparr>"

lemmas demo_defs = demo_env_def demo_moment_def no_faults_def demo_state_def demo_request_def
  openai_provider_def openai_config_def

lemma demo_env_sel [simp]:
  "ge_price demo_env = openai_env" "ge_pystr demo_env = (\<lambda>_. [])" "ge_sha256 demo_env = id"
  "ge_environ demo_env = demo_environ" "ge_tz demo_env = utc"
  "demo_environ ''OPENAI_API_KEY'' = Some ''sk-real''"
  by (simp_all add: demo_env_def demo_environ_def)

lemma demo_path: "upstream_path (demo_request hs model) = Some ''/v1/chat''"
  by (simp add: upstream_path_def demo_defs strip_proxy_prefix_def Let_def)

lemma demo_model: "model \<noteq> [] \<Longrightarrow> requested_model (demo_request hs model) p = Some model"
  by (simp add: requested_model_def demo_defs safe_json_def body_get_def Let_def)

lemma demo_token: "extract_auth_token demo_headers = Some (''bl-sk-abcdef'', ''authorization'')"
  by code_simp

lemma demo_virtual: "looks_like_virtual_key (Some ''bl-sk-abcdef'')"
  by (simp add: looks_like_virtual_key_def VIRTUAL_PREFIX_def)

lemma demo_tags: "extract_tags (demo_environ) demo_headers ''customer'' = Some ''acme''"
  "extract_tags (demo_environ) demo_headers ''key_label'' = None"
  by code_simp+

lemma demo_priced: "price_check demo_env cfg ''openai'' ''gpt-4o'' = False"
  by (simp add: price_check_def demo_env_def is_model_priced_def openai_env_gpt4o)

lemma demo_resolve: "resolve ''bl-sk-abcdef'' (gd_vkeys demo_state) =
    Some \<lparr>vk_label = ''team-a'', vk_team = ''ml'', vk_provider = ''openai'', upstream_key_env = ''OPENAI_API_KEY'',
      allowed_models = None, monthly_budget_usd = None, token_prefix = ''bl-sk-abcdef''\<rparr>"
  by (simp add: resolve_def demo_state_def a_vkey_def virtual_key.defs)

lemma demo_label: "find_label demo_env no_faults demo_state demo_headers = Some ''ci''"
  by (simp add: find_label_def hash_of_token demo_token demo_env_def no_faults_def demo_state_def get_label_by_hash_def)

lemma demo_gate:
  "virtual_key_gate demo_env demo_moment no_faults demo_state ''openai'' ''gpt-4o'' False demo_headers
     (extract_tags (demo_environ) demo_headers) =
   Inr (Some (''authorization'', ''sk-real''),
     (extract_tags (demo_environ) demo_headers)(''team'' \<mapsto> ''ml'', ''key_label'' \<mapsto> ''team-a''))"
  using demo_virtual
  by (simp add: virtual_key_gate_def demo_token demo_resolve admit_virtual_key_def model_allowed_def
      demo_tags Let_def no_faults_def)

lemma demo_admit:
  "\<exists>a st. admit demo_env demo_moment no_faults (Some demo_budgets) (Some (one_cap 5)) ''gpt-4o'' False
     (demo_request demo_headers ''gpt-4o'') demo_state = (Inr a, st)
   \<and> ad_tags a = (extract_tags demo_environ demo_headers)(''team'' \<mapsto> ''ml'', ''key_label'' \<mapsto> ''ci'')
   \<and> gd_counters st = ml_counter 3 \<and> gd_requests st = []"
proof -
  have q: "gq_headers (demo_request demo_headers ''gpt-4o'') = demo_headers"
    "name (pp_config (gq_provider (demo_request demo_headers ''gpt-4o''))) = ''openai''" by (simp_all add: demo_defs)
  have st: "gd_requests demo_state = []" "gd_counters demo_state = ml_counter 3" "gd_key_spend demo_state = Map.empty"
    "gd_customer_spend demo_state = Map.empty" by (simp_all add: demo_state_def)
  have f: "\<not> flt_daily_cap no_faults" "\<not> flt_customer no_faults" by (simp_all add: no_faults_def)
  show ?thesis
    by (simp add: admit_def Let_def q demo_gate demo_label daily_cap_gate_def f one_cap_daily enforce_daily_cap_def
        get_today_spend_def cached_spend_def st get_spend_by_key_label_today_def customer_gate_def demo_tags
        check_customer_budget_def customer_budget_limit_def demo_budgets_def get_cached_customer_spend_def
        spend_or_0_def get_spend_by_customer_this_month_def fun_upd_twist)
qed

lemma demo_estimate:
  "estimate_cost openai_env pystr ''openai'' ''gpt-4o'' (Some (JObj [(''model'', JStr m)])) = Some (1025 / 100000)"
  by (simp add: estimate_cost_def estimate_request_tokens_def input_chars_def max_tokens_field_def output_estimate_def
      calculate_cost_def openai_env_gpt4o usage_cost_def apply_tiered_untiered flat_pricing_def rate_def no_usage_def Let_def)

lemma demo_matching:
  "ctx_team ctx = Some ''ml'' \<Longrightarrow> matching_policies (ml_config nms) noon model ctx =
     map (\<lambda>n. (team_policy n 10, midnight noon)) nms"
  by (simp add: matching_policies_def ml_config_def matches_policy_def team_policy_def get_period_start_def)

abbreviation demo_reservation :: reservation where
  "demo_reservation \<equiv> \<lparr>estimated_cost = 1025 / 100000, res_policies = [(team_policy ''ml-daily'' 10, midnight noon)]\<rparr>"

lemma demo_reserve:
  "ctx_team ctx = Some ''ml'' \<Longrightarrow>
   check_and_reserve openai_env pystr sha (ml_config [''ml-daily'']) noon rqs ''openai'' ''gpt-4o''
     (Some (JObj [(''model'', JStr m)])) ctx (ml_counter 3) = Some (Allowed demo_reservation, ml_counter (3 + 1025 / 100000))"
  by (simp add: check_and_reserve_def demo_estimate demo_matching Let_def check_all_Cons ml_seen ml_open reserve_all_def
      ml_add del: check_all.simps(2))

lemma demo_forward:
  "\<exists>fw st. handle_request demo_env demo_moment no_faults (Some demo_config) (Some demo_budgets) (Some (one_cap 5))
     (\<lambda>_ _. None) (demo_request demo_headers ''gpt-4o'') demo_state = (Forward fw, st)
   \<and> fw_reservation fw = Some demo_reservation \<and> fw_model fw = ''gpt-4o'' \<and> fw_requested_model fw = ''gpt-4o''
   \<and> fw_tags fw = (extract_tags demo_environ demo_headers)(''team'' \<mapsto> ''ml'', ''key_label'' \<mapsto> ''ci'')
   \<and> gd_counters st = ml_counter (3 + 1025 / 100000) \<and> gd_requests st = []"
proof -
  let ?q = "demo_request demo_headers ''gpt-4o''"
  have q: "gq_headers ?q = demo_headers" "name (pp_config (gq_provider ?q)) = ''openai''"
    "gq_body ?q = Some (JObj [(''model'', JStr ''gpt-4o'')])" by (simp_all add: demo_defs)
  from demo_admit obtain a st1 where
    ad: "admit demo_env demo_moment no_faults (Some demo_budgets) (Some (one_cap 5)) ''gpt-4o'' False ?q demo_state = (Inr a, st1)"
    and tg: "ad_tags a = (extract_tags demo_environ demo_headers)(''team'' \<mapsto> ''ml'', ''key_label'' \<mapsto> ''ci'')"
    and st1: "gd_counters st1 = ml_counter 3" "gd_requests st1 = []" by blast
  have ctx: "ctx_team (policy_context demo_env demo_headers (ad_tags a)) = Some ''ml''"
    by (simp add: policy_context_def resolve_canonical_metadata_def tg py_or_def Let_def)
  have "dispatch demo_env demo_moment no_faults (Some demo_config) ?q ''/v1/chat'' ''gpt-4o'' a st1 =
      (Forward \<lparr>fw_url = ''https://api.openai.com/v1/chat'', fw_method = ''POST'',
         fw_headers = outbound_headers ?q (ad_swap a), fw_body = Some (JObj [(''model'', JStr ''gpt-4o'')]),
         fw_model = ''gpt-4o'', fw_requested_model = ''gpt-4o'', fw_tags = ad_tags a, fw_streaming = False,
         fw_decision = Some (pass_through ''gpt-4o'' Disabled 0 100), fw_reservation = Some demo_reservation\<rparr>,
       st1\<lparr>gd_counters := ml_counter (3 + 1025 / 100000)\<rparr>)"
    by (simp add: dispatch_def apply_routing_def route_request_def decide_route_def decide_route_inner_def
        policy_gate_def demo_config_def demo_moment_def no_faults_def q st1 demo_reserve[OF ctx] eager_def
        pass_through_def ml_config_def[of "[''ml-daily'']", symmetric] Let_def)
       (simp add: demo_defs body_is_streaming_def body_get_def safe_json_def ml_config_def)
  then show ?thesis
    using tg st1(2)
    by (simp add: handle_request_def demo_path demo_model q demo_priced ad Let_def may_use_cache_def demo_config_def)
qed

lemma demo_request_sel [simp]:
  "gq_headers (demo_request hs m) = hs" "gq_provider (demo_request hs m) = openai_provider"
  "pp_config openai_provider = openai_config" "name openai_config = ''openai''"
  by (simp_all add: demo_request_def openai_provider_def openai_config_def)


theorem internal_headers_stay_witness:
  "\<exists>fw st. handle_request demo_env demo_moment no_faults (Some demo_config) (Some demo_budgets) (Some (one_cap 5))
     (\<lambda>_ _. None) (demo_request demo_headers ''gpt-4o'') demo_state = (Forward fw, st)
   \<and> (''X-BurnLens-Tag-Customer'', ''acme'') \<notin> set (fw_headers fw)"
proof -
  from demo_forward obtain fw st where fw: "handle_request demo_env demo_moment no_faults (Some demo_config)
      (Some demo_budgets) (Some (one_cap 5)) (\<lambda>_ _. None) (demo_request demo_headers ''gpt-4o'') demo_state = (Forward fw, st)"
    by blast
  have "startswith (lower ''X-BurnLens-Tag-Customer'') BURNLENS_HEADER_PREFIX" by code_simp
  with internal_headers_stay[OF fw, of "''X-BurnLens-Tag-Customer''" "''acme''"] fw show ?thesis by blast
qed

theorem refused_requests_cost_nothing_witness:
  "\<exists>r st. handle_request demo_env demo_moment no_faults (Some demo_config) None None (\<lambda>_ _. None)
     (demo_request [(''x-api-key'', ''bl-sk-stolen'')] ''gpt-4o'') demo_state = (Rejected r, st)
   \<and> gd_counters st = ml_counter 3"
proof -
  let ?h = "handle_request demo_env demo_moment no_faults (Some demo_config) None None (\<lambda>_ _. None)
     (demo_request [(''x-api-key'', ''bl-sk-stolen'')] ''gpt-4o'') demo_state"
  have "extract_auth_token [(''x-api-key'', ''bl-sk-stolen'')] = Some (''bl-sk-stolen'', ''x-api-key'')" by code_simp
  moreover have "looks_like_virtual_key (Some ''bl-sk-stolen'')" by code_simp
  moreover have "resolve ''bl-sk-stolen'' (gd_vkeys demo_state) = None"
    by (simp add: resolve_def demo_state_def a_vkey_def)
  ultimately have h: "?h = (Rejected Invalid_virtual_key, demo_state)"
    by (simp add: handle_request_def demo_path demo_model admit_def virtual_key_gate_def Let_def no_faults_def)
  have "gd_counters demo_state = ml_counter 3" by (simp add: demo_state_def)
  with refused_requests_cost_nothing[OF h] h show ?thesis by simp
qed


lemma mystery_unpriced: "\<not> is_model_priced openai_env ''openai'' ''mystery''"
  by (simp add: is_model_priced_def resolve_pricing_def resolve_vendor_pricing_def get_model_pricing_def openai_env_def
      provider_models_def load_provider_def resolve_pricing_key_def registry_get_def openai_config_def openai_models_def
      base_pricing_def best_prefix_def Let_def)

theorem unpriced_only_uncapped_witness:
  "\<exists>fw st. handle_request demo_env demo_moment no_faults None None (Some \<lparr>kb_keys = [], kb_default = None, reset_timezone = []\<rparr>)
     (\<lambda>_ _. None) (demo_request [(''x-api-key'', ''bl-sk-abcdef'')] ''mystery'') demo_state = (Forward fw, st)
   \<and> fw_requested_model fw = ''mystery''
   \<and> daily_cap_for \<lparr>kb_keys = [], kb_default = None, reset_timezone = []\<rparr> (Some ''ci'') = None"
proof -
  let ?q = "demo_request [(''x-api-key'', ''bl-sk-abcdef'')] ''mystery''"
    and ?kb = "\<lparr>kb_keys = [], kb_default = None, reset_timezone = []\<rparr> :: api_key_budgets"
  let ?h = "handle_request demo_env demo_moment no_faults None None (Some ?kb) (\<lambda>_ _. None) ?q demo_state"
  have tok: "extract_auth_token [(''x-api-key'', ''bl-sk-abcdef'')] = Some (''bl-sk-abcdef'', ''x-api-key'')" by code_simp
  have lab: "find_label demo_env no_faults demo_state [(''x-api-key'', ''bl-sk-abcdef'')] = Some ''ci''"
    by (simp add: find_label_def hash_of_token tok no_faults_def demo_state_def get_label_by_hash_def)
  have pc: "price_check demo_env None ''openai'' ''mystery''" by (simp add: price_check_def mystery_unpriced)
  obtain fw st where h: "?h = (Forward fw, st)" and m: "fw_requested_model fw = ''mystery''"
    using demo_virtual
    by (auto simp: handle_request_def demo_path demo_model admit_def virtual_key_gate_def Let_def no_faults_def tok
        demo_resolve admit_virtual_key_def model_allowed_def lab[unfolded no_faults_def] daily_cap_gate_def daily_cap_for_def
        enforce_daily_cap_def customer_gate_def may_use_cache_def dispatch_def apply_routing_def policy_gate_def)
  from unpriced_only_uncapped[OF h] pc lab m h show ?thesis by auto
qed

theorem second_token_header_forwarded_witness:
  "\<exists>fw st. handle_request demo_env demo_moment no_faults (Some demo_config) (Some demo_budgets) (Some (one_cap 5))
     (\<lambda>_ _. None) (demo_request demo_headers ''gpt-4o'') demo_state = (Forward fw, st)
   \<and> (''x-api-key'', ''bl-sk-abcdef'') \<in> set (fw_headers fw)"
proof -
  from demo_forward obtain fw st where fw: "handle_request demo_env demo_moment no_faults (Some demo_config)
      (Some demo_budgets) (Some (one_cap 5)) (\<lambda>_ _. None) (demo_request demo_headers ''gpt-4o'') demo_state = (Forward fw, st)"
    by blast
  have "(''x-api-key'', ''bl-sk-abcdef'') \<in> set demo_headers" by (simp add: demo_headers_def)
  moreover have "''x-api-key'' \<notin> lower ` set (pp_headers_to_strip openai_provider)" by code_simp
  ultimately show ?thesis using second_token_header_forwarded[OF fw, of "''bl-sk-abcdef''"] fw by (simp add: demo_token)
qed

end
