(* ===== verification/Forwarding.thy ===== *)
theory Forwarding
  imports Gateway
begin

text \<open>
  What happens to a request after the gates (\<open>_handle_non_streaming\<close>, \<open>_handle_streaming\<close> and
  \<open>_log_streaming_usage\<close> of \<open>burnlens/proxy/interceptor.py\<close>): the retry loop, the settlement of the
  budget reservation and the request record. The upstream is a function from the number of the attempt
  to its result.
\<close>

section \<open>The retry loop\<close>

datatype attempt_result =
    Connect_failed \<comment> \<open>connection errors, the request did not reach the upstream\<close>
  | Request_failed \<comment> \<open>any other error of the HTTP client\<close>
  | Upstream_response int headers "json option"

definition should_retry_connect :: "nat \<Rightarrow> retry_config option \<Rightarrow> bool" where
  "should_retry_connect attempt rc =
     (case rc of None \<Rightarrow> False | Some c \<Rightarrow> retry_enabled c \<and> attempt < max_retries c)"

definition should_retry_status :: "int \<Rightarrow> nat \<Rightarrow> retry_config option \<Rightarrow> bool" where
  "should_retry_status status attempt rc =
     (case rc of None \<Rightarrow> False
      | Some c \<Rightarrow> retry_enabled c \<and> attempt < max_retries c \<and> status \<in> retry_on_status c)"

fun retryable :: "retry_config option \<Rightarrow> nat \<Rightarrow> attempt_result \<Rightarrow> bool" where
  "retryable rc attempt Connect_failed = should_retry_connect attempt rc"
| "retryable rc attempt Request_failed = False"
| "retryable rc attempt (Upstream_response status _ _) = should_retry_status status attempt rc"

lemma retryable_bound: "retryable rc attempt r \<Longrightarrow> \<exists>c. rc = Some c \<and> attempt < max_retries c"
  by (cases r) (auto simp: should_retry_connect_def should_retry_status_def split: option.splits)

function send_with_retries ::
    "retry_config option \<Rightarrow> (nat \<Rightarrow> attempt_result) \<Rightarrow> nat \<Rightarrow> attempt_result \<times> nat" where
  "send_with_retries rc upstream attempt =
     (if retryable rc attempt (upstream attempt) then send_with_retries rc upstream (attempt + 1)
      else (upstream attempt, attempt))"
  by pat_completeness auto
termination
  by (relation "measure (\<lambda>(rc, _, attempt). (case rc of None \<Rightarrow> 0 | Some c \<Rightarrow> max_retries c) - attempt)")
    (auto dest!: retryable_bound)

declare send_with_retries.simps [simp del]

section \<open>Settlement and logging\<close>

definition settle :: "burnlens_config option \<Rightarrow> bool \<Rightarrow> usd \<Rightarrow> reservation option \<Rightarrow> gateway_db \<Rightarrow> gateway_db" where
  "settle cfg reconcile_fails amount res st =
     (case (res, cfg) of
        (Some r, Some _) \<Rightarrow> if reconcile_fails then st else st\<lparr>gd_counters := reconcile amount r (gd_counters st)\<rparr>
      | _ \<Rightarrow> st)"

definition request_record ::
    "gw_env \<Rightarrow> datetime \<Rightarrow> string \<Rightarrow> headers \<Rightarrow> forwarded \<Rightarrow> int \<Rightarrow> usd \<Rightarrow> request_row" where
  "request_record env now provider hs fw status cost =
     (let meta = resolve_canonical_metadata (ge_sha256 env) (ge_environ env) (ge_git env) hs (fw_tags fw)
      in \<lparr>rq_timestamp = now, rq_provider = provider, rq_model = fw_model fw, rq_cost_usd = cost,
          rq_status_code = status, rq_tags = fw_tags fw, rq_org_id = md_org_id meta, rq_team = md_team meta,
          rq_app_id = md_app_id meta, rq_customer_hash = md_customer_hash meta,
          rq_key_label = fw_tags fw ''key_label''\<rparr>)"

text \<open>Logging: through the write-ahead log and its worker, which insert the row and nothing else, or
  through \<open>_log_record\<close>, which also drops the label's cached spend.\<close>

definition log_record :: "bool \<Rightarrow> request_row \<Rightarrow> gateway_db \<Rightarrow> gateway_db" where
  "log_record via_wal r st =
     (let st' = st\<lparr>gd_requests := gd_requests st @ [r]\<rparr>
      in if via_wal \<or> \<not> truthy (rq_tags r ''key_label'') then st'
         else st'\<lparr>gd_key_spend := invalidate (the (rq_tags r ''key_label'')) (gd_key_spend st')\<rparr>)"

datatype reply = Upstream_failed | Reply int headers "json option"

definition body_usage :: "provider_plugin \<Rightarrow> json option \<Rightarrow> token_usage" where
  "body_usage p body =
     (case body of
        Some (JObj kvs) \<Rightarrow> (case pp_extract_usage p kvs of Some u \<Rightarrow> u | None \<Rightarrow> no_usage)
      | _ \<Rightarrow> no_usage)"

definition charged_cost :: "int \<Rightarrow> usd \<Rightarrow> usd" where
  "charged_cost status cost = (if status < 400 then cost else 0)"

definition handle_non_streaming ::
    "gw_env \<Rightarrow> datetime \<Rightarrow> burnlens_config option \<Rightarrow> bool \<Rightarrow> bool \<Rightarrow> (nat \<Rightarrow> attempt_result) \<Rightarrow> gw_request \<Rightarrow> forwarded
       \<Rightarrow> gateway_db \<Rightarrow> reply \<times> gateway_db" where
  "handle_non_streaming env now cfg via_wal reconcile_fails upstream q fw st =
     (case fst (send_with_retries (map_option cfg_retry cfg) upstream 0) of
        Upstream_response status rh body \<Rightarrow>
          (let provider = name (pp_config (gq_provider q));
               cost = cost_of (ge_price env) provider (fw_model fw) (body_usage (gq_provider q) body);
               st1 = settle cfg reconcile_fails (charged_cost status cost) (fw_reservation fw) st
           in (Reply status (clean_response_headers rh) body,
               log_record via_wal (request_record env now provider (gq_headers q) fw status cost) st1))
      | _ \<Rightarrow> (Upstream_failed, st))"

text \<open>\<open>usage\<close> is what was extracted from the complete stream; the state is the one after the stream was
  closed. An error response is refunded and not logged.\<close>

definition handle_streaming ::
    "gw_env \<Rightarrow> datetime \<Rightarrow> burnlens_config option \<Rightarrow> bool \<Rightarrow> bool \<Rightarrow> (nat \<Rightarrow> attempt_result) \<Rightarrow> token_usage \<Rightarrow> gw_request
       \<Rightarrow> forwarded \<Rightarrow> gateway_db \<Rightarrow> reply \<times> gateway_db" where
  "handle_streaming env now cfg via_wal reconcile_fails upstream usage q fw st =
     (case fst (send_with_retries (map_option cfg_retry cfg) upstream 0) of
        Upstream_response status rh body \<Rightarrow>
          if 400 \<le> status
          then (Reply status (clean_response_headers rh) body, settle cfg reconcile_fails 0 (fw_reservation fw) st)
          else
            (let provider = name (pp_config (gq_provider q));
                 cost = cost_of (ge_price env) provider (fw_model fw) usage;
                 st1 = settle cfg reconcile_fails (charged_cost status cost) (fw_reservation fw) st
             in (Reply status (clean_response_headers rh) body,
                 log_record via_wal (request_record env now provider (gq_headers q) fw status cost) st1))
      | _ \<Rightarrow> (Upstream_failed, st))"

section \<open>Lemmas\<close>

lemma send_result:
  "send_with_retries rc upstream attempt = (r, n) \<Longrightarrow>
     attempt \<le> n \<and> r = upstream n \<and> \<not> retryable rc n r \<and> (\<forall>i. attempt \<le> i \<and> i < n \<longrightarrow> retryable rc i (upstream i))"
proof (induction rc upstream attempt arbitrary: r n rule: send_with_retries.induct)
  case (1 rc upstream attempt)
  show ?case
  proof (cases "retryable rc attempt (upstream attempt)")
    case True
    with 1(2) have "send_with_retries rc upstream (attempt + 1) = (r, n)"
      by (simp add: send_with_retries.simps[of rc upstream attempt])
    from 1(1)[OF True this] have ih: "attempt + 1 \<le> n" "r = upstream n" "\<not> retryable rc n r"
      "\<forall>i. attempt + 1 \<le> i \<and> i < n \<longrightarrow> retryable rc i (upstream i)" by auto
    have "retryable rc i (upstream i)" if "attempt \<le> i" "i < n" for i
      using ih(4) True that by (cases "i = attempt") auto
    with ih show ?thesis by auto
  next
    case False
    with 1(2) show ?thesis by (auto simp: send_with_retries.simps[of rc upstream attempt])
  qed
qed

lemma send_bound: "send_with_retries rc upstream 0 = (r, n) \<Longrightarrow> n \<le> (case rc of None \<Rightarrow> 0 | Some c \<Rightarrow> max_retries c)"
proof (rule ccontr)
  assume s: "send_with_retries rc upstream 0 = (r, n)" and "\<not> n \<le> (case rc of None \<Rightarrow> 0 | Some c \<Rightarrow> max_retries c)"
  then have "retryable rc (n - 1) (upstream (n - 1))" "0 < n" using send_result[OF s] by auto
  with \<open>\<not> n \<le> _\<close> show False by (auto dest!: retryable_bound)
qed

lemma log_record_frame [simp]:
  "gd_counters (log_record w r st) = gd_counters st" "gd_requests (log_record w r st) = gd_requests st @ [r]"
  by (simp_all add: log_record_def Let_def)

lemma settle_frame [simp]:
  "gd_requests (settle cfg f a res st) = gd_requests st" "gd_key_spend (settle cfg f a res st) = gd_key_spend st"
  by (auto simp: settle_def split: option.splits)

section \<open>Properties\<close>

text \<open>C36: the retry loop ends after at most one attempt more than the configured retries; it returns the
  result of its last attempt, which is not to be retried, and every attempt before it was a connection
  error or one of the configured statuses, so a request is never sent again after the upstream has
  answered it with any other status.\<close>

theorem retries_bounded:
  assumes "send_with_retries rc upstream 0 = (r, n)"
  shows "n \<le> (case rc of None \<Rightarrow> 0 | Some c \<Rightarrow> max_retries c) \<and> r = upstream n \<and> \<not> retryable rc n r
    \<and> (\<forall>i < n. upstream i = Connect_failed
         \<or> (\<exists>c st h b. rc = Some c \<and> upstream i = Upstream_response st h b \<and> st \<in> retry_on_status c))"
proof -
  have "retryable rc i x \<Longrightarrow> x = Connect_failed
      \<or> (\<exists>c st h b. rc = Some c \<and> x = Upstream_response st h b \<and> st \<in> retry_on_status c)" for i x
    by (cases x) (auto simp: should_retry_status_def split: option.splits)
  with send_result[OF assms] send_bound[OF assms] show ?thesis by blast
qed

lemma forwarded_reservation:
  assumes "handle_request env mo flt (Some cf) cb kb probe q st = (Forward fw, st')" and "unique_names (cfg_budgets cf)"
    and "fw_reservation fw = Some r" and "has_counter k (gd_counters st)"
  shows "wf_reservation r \<and> has_counter k (gd_counters st')
    \<and> balance k (gd_counters st') = balance k (gd_counters st) + (if charges r k then estimated_cost r else 0)"
proof -
  from assms(1) obtain upath model a st1 where
    ad: "admit env mo flt cb kb model (price_check env (Some cf) (name (pp_config (gq_provider q))) model) q st = (Inr a, st1)"
    and di: "dispatch env mo flt (Some cf) q upath model a st1 = (Forward fw, st')" by (rule handle_forwardE)
  from di obtain rt :: routed and st2 where ro: "apply_routing mo flt (Some cf) q upath model (ad_tags a) st1 = (rt, st2)"
    and pg: "policy_gate env mo flt (Some cf) (name (pp_config (gq_provider q))) (rt_model rt) (rt_body rt)
      (gq_headers q) (ad_tags a) st2 = (Inr (fw_reservation fw), st')" by (rule dispatch_forwardE)
  have "gd_counters st2 = gd_counters st"
    using admit_frame[OF ad] apply_routing_frame[OF ro] by (simp add: same_books_def)
  with pg assms(2-4) show ?thesis
    by (auto simp: policy_gate_def admitted_wf admitted_balance
        split: if_splits option.splits prod.splits budget_decision.splits)
qed

text \<open>C3: from admission to settlement a budget counter is charged exactly once with the actual cost. When a
  forwarded request is answered, every counter that existed before the request and that it reserved on has
  moved by the computed cost of the response, or not at all when the upstream answered with an error status;
  all other counters are unchanged.\<close>

theorem settled_exactly:
  assumes "handle_request env mo flt (Some cf) cb kb probe q st = (Forward fw, st1)"
    and "unique_names (cfg_budgets cf)" and "has_counter k (gd_counters st)"
    and "handle_non_streaming env now (Some cf) via_wal False upstream q fw st1 = (Reply status rh body, st2)"
    and "fw_reservation fw = Some res"
  shows "balance k (gd_counters st2) = balance k (gd_counters st)
    + (if k \<in> pol_key ` set (res_policies res) \<and> status < 400
       then cost_of (ge_price env) (name (pp_config (gq_provider q))) (fw_model fw) (body_usage (gq_provider q) body) else 0)"
proof -
  from forwarded_reservation[OF assms(1,2,5,3)] have
    wf: "wf_reservation res" and k: "has_counter k (gd_counters st1)"
    and b: "balance k (gd_counters st1) = balance k (gd_counters st) + (if charges res k then estimated_cost res else 0)"
    by auto
  from assms(4,5) have "gd_counters st2 = reconcile (charged_cost status
      (cost_of (ge_price env) (name (pp_config (gq_provider q))) (fw_model fw) (body_usage (gq_provider q) body)))
      res (gd_counters st1)"
    by (auto simp: handle_non_streaming_def settle_def Let_def split: attempt_result.splits)
  with reconcile_balance[OF wf k] b show ?thesis by (auto simp: charges_def charged_cost_def)
qed

text \<open>A request that never reaches the upstream keeps its reservation: when every attempt fails to
  connect, the client gets an error, nothing is logged and the counters stay charged with the estimate.\<close>

theorem connect_failure_keeps_reservation:
  assumes "handle_request env mo flt (Some cf) cb kb probe q st = (Forward fw, st1)"
    and "unique_names (cfg_budgets cf)" and "has_counter k (gd_counters st)"
    and "fw_reservation fw = Some res" and "k \<in> pol_key ` set (res_policies res)"
    and "\<forall>i. upstream i = Connect_failed"
    and "handle_non_streaming env now (Some cf) via_wal False upstream q fw st1 = (out, st2)"
  shows "out = Upstream_failed \<and> gd_requests st2 = gd_requests st1 \<and> 0 < estimated_cost res
    \<and> balance k (gd_counters st2) = balance k (gd_counters st) + estimated_cost res"
proof -
  obtain r n where s: "send_with_retries (Some (cfg_retry cf)) upstream 0 = (r, n)" by fastforce
  with send_result[OF s] assms(6) have "r = Connect_failed" by simp
  with s assms(7) have "out = Upstream_failed" "st2 = st1" by (auto simp: handle_non_streaming_def)
  moreover from forwarded_reservation[OF assms(1,2,4,3)] assms(5) have "wf_reservation res"
    "balance k (gd_counters st1) = balance k (gd_counters st) + estimated_cost res" by (auto simp: charges_def)
  moreover from this(1) assms(5) have "0 < estimated_cost res" by (auto simp: wf_reservation_def)
  ultimately show ?thesis by simp
qed

text \<open>What is billed is what is logged. A non-streaming answer adds exactly one row to the request log,
  with the computed cost and the forwarded model, and moves today's spend of the row's key label by exactly
  that cost.\<close>

theorem answer_logged_once:
  assumes "handle_non_streaming env now cfg via_wal rf upstream q fw st = (Reply status rh body, st')"
    and "fw_tags fw ''key_label'' = Some l" and "before_eq start now"
  shows "\<exists>row. gd_requests st' = gd_requests st @ [row] \<and> rq_model row = fw_model fw \<and> rq_status_code row = status
    \<and> rq_cost_usd row = cost_of (ge_price env) (name (pp_config (gq_provider q))) (fw_model fw) (body_usage (gq_provider q) body)
    \<and> get_spend_by_key_label_today start l (gd_requests st') =
        get_spend_by_key_label_today start l (gd_requests st) + rq_cost_usd row"
  using assms
  by (auto simp: handle_non_streaming_def Let_def request_record_def get_spend_by_key_label_today_def
      split: attempt_result.splits)

text \<open>On the write-ahead-log path the daily cap can be overrun for as long as a cached value is fresh:
  after an answer that takes the key over its cap has been logged, the next cap check within thirty seconds
  of the cached read still admits the key.\<close>

theorem wal_path_cap_stale:
  assumes "handle_non_streaming env now cfg True rf upstream q fw st = (Reply status rh body, st')"
    and "gd_key_spend st l = Some (v, s)" and "t1 - s < 30" and "daily_cap_for b (Some l) = Some cap" and "v < cap"
    and "cap \<le> get_spend_by_key_label_today (fst (today_window_utc tz now)) l (gd_requests st')"
  shows "fst (enforce_daily_cap tz b (gd_requests st') now t1 t2 (Some l) (gd_key_spend st')) = None"
proof -
  from assms(1) have "gd_key_spend st' = gd_key_spend st"
    by (auto simp: handle_non_streaming_def Let_def log_record_def split: attempt_result.splits)
  with assms(2,3) have "cached_spend t1 l (gd_key_spend st') = Some v"
    by (simp add: cached_spend_def spend_ttl_def)
  with assms(4,5) show ?thesis by (auto simp: enforce_daily_cap_def get_today_spend_def)
qed

section \<open>Witnesses\<close>

definition ok_body :: json where
  "ok_body = JObj [(''usage'', JObj [(''prompt_tokens'', JInt 1000), (''completion_tokens'', JInt 100)])]"

definition flaky :: "nat \<Rightarrow> attempt_result" where
  "flaky n = (if n = 0 then Connect_failed else if n = 1 then Upstream_response 503 [] None
     else Upstream_response 200 [(''Connection'', ''close'')] (Some ok_body))"

lemma flaky_sent: "send_with_retries (Some (cfg_retry demo_config)) flaky 0 =
    (Upstream_response 200 [(''Connection'', ''close'')] (Some ok_body), 2)"
  by (simp add: send_with_retries.simps flaky_def should_retry_connect_def should_retry_status_def demo_config_def)

theorem retries_bounded_witness:
  "\<exists>r n. send_with_retries (Some (cfg_retry demo_config)) flaky 0 = (r, n) \<and> n \<le> 2 \<and> r = flaky n"
proof -
  have "max_retries (cfg_retry demo_config) = 2" by (simp add: demo_config_def)
  with retries_bounded[OF flaky_sent] show ?thesis by (auto simp: flaky_sent)
qed

lemma ok_cost: "cost_of openai_env ''openai'' ''gpt-4o'' (body_usage openai_provider (Some ok_body)) = 35 / 10000"
  by (simp add: body_usage_def ok_body_def openai_provider_def extract_usage_openai_def obj_or_empty_def int_or_0_def
      calculate_cost_def openai_env_gpt4o usage_cost_def apply_tiered_untiered flat_pricing_def rate_def no_usage_def Let_def)

theorem settled_exactly_witness:
  "\<exists>fw st1 rh body st2. handle_request demo_env demo_moment no_faults (Some demo_config) (Some demo_budgets) (Some (one_cap 5))
      (\<lambda>_ _. None) (demo_request demo_headers ''gpt-4o'') demo_state = (Forward fw, st1)
    \<and> handle_non_streaming demo_env noon (Some demo_config) True False flaky (demo_request demo_headers ''gpt-4o'') fw st1
        = (Reply 200 rh body, st2)
    \<and> balance (''ml-daily'', midnight noon) (gd_counters st2) = 3 + 35 / 10000"
proof -
  let ?q = "demo_request demo_headers ''gpt-4o''"
  from demo_forward obtain fw st1 where fw: "handle_request demo_env demo_moment no_faults (Some demo_config)
      (Some demo_budgets) (Some (one_cap 5)) (\<lambda>_ _. None) ?q demo_state = (Forward fw, st1)"
    and r: "fw_reservation fw = Some demo_reservation" and m: "fw_model fw = ''gpt-4o''" by blast
  obtain rh st2 where h: "handle_non_streaming demo_env noon (Some demo_config) True False flaky ?q fw st1
      = (Reply 200 rh (Some ok_body), st2)"
    by (simp add: handle_non_streaming_def flaky_sent Let_def)
  have u: "unique_names (cfg_budgets demo_config)" by (simp add: demo_config_def ml_unique)
  have c: "has_counter (''ml-daily'', midnight noon) (gd_counters demo_state)"
    by (simp add: demo_state_def ml_has_counter)
  have "balance (''ml-daily'', midnight noon) (gd_counters st2) = 3 + 35 / 10000"
    using settled_exactly[OF fw u c h r] by (simp add: ml_pol_key m ok_cost demo_state_def ml_balance)
  with fw h show ?thesis by blast
qed

theorem connect_failure_keeps_reservation_witness:
  "\<exists>fw st1 st2. handle_request demo_env demo_moment no_faults (Some demo_config) (Some demo_budgets) (Some (one_cap 5))
      (\<lambda>_ _. None) (demo_request demo_headers ''gpt-4o'') demo_state = (Forward fw, st1)
    \<and> handle_non_streaming demo_env noon (Some demo_config) True False (\<lambda>_. Connect_failed)
        (demo_request demo_headers ''gpt-4o'') fw st1 = (Upstream_failed, st2)
    \<and> balance (''ml-daily'', midnight noon) (gd_counters st2) = 3 + 1025 / 100000"
proof -
  let ?q = "demo_request demo_headers ''gpt-4o''"
  from demo_forward obtain fw st1 where fw: "handle_request demo_env demo_moment no_faults (Some demo_config)
      (Some demo_budgets) (Some (one_cap 5)) (\<lambda>_ _. None) ?q demo_state = (Forward fw, st1)"
    and r: "fw_reservation fw = Some demo_reservation" by blast
  obtain out st2 where h: "handle_non_streaming demo_env noon (Some demo_config) True False (\<lambda>_. Connect_failed) ?q fw st1
      = (out, st2)" by fastforce
  have u: "unique_names (cfg_budgets demo_config)" by (simp add: demo_config_def ml_unique)
  have c: "has_counter (''ml-daily'', midnight noon) (gd_counters demo_state)"
    by (simp add: demo_state_def ml_has_counter)
  from connect_failure_keeps_reservation[OF fw u c r _ _ h] fw h
  show ?thesis by (auto simp: ml_pol_key demo_state_def ml_balance)
qed

theorem answer_logged_once_witness:
  "\<exists>fw st1 rh body st2 row. handle_non_streaming demo_env noon (Some demo_config) True False flaky
        (demo_request demo_headers ''gpt-4o'') fw st1 = (Reply 200 rh body, st2)
    \<and> gd_requests st2 = gd_requests st1 @ [row] \<and> rq_cost_usd row = 35 / 10000
    \<and> get_spend_by_key_label_today (midnight noon) ''ci'' (gd_requests st2) = 35 / 10000"
proof -
  let ?q = "demo_request demo_headers ''gpt-4o''"
  from demo_forward obtain fw :: forwarded and st1 :: gateway_db where m: "fw_model fw = ''gpt-4o''" and st: "gd_requests st1 = []"
    and t: "fw_tags fw = (extract_tags demo_environ demo_headers)(''team'' \<mapsto> ''ml'', ''key_label'' \<mapsto> ''ci'')" by blast
  obtain rh st2 where h: "handle_non_streaming demo_env noon (Some demo_config) True False flaky ?q fw st1
      = (Reply 200 rh (Some ok_body), st2)"
    by (simp add: handle_non_streaming_def flaky_sent Let_def)
  have "before_eq (midnight noon) noon" by code_simp
  with answer_logged_once[OF h, of "''ci''" "midnight noon"] obtain row where
    "gd_requests st2 = gd_requests st1 @ [row]" "rq_cost_usd row = 35 / 10000"
    "get_spend_by_key_label_today (midnight noon) ''ci'' (gd_requests st2) = 35 / 10000"
    by (auto simp: t m ok_cost st get_spend_by_key_label_today_def sum_where_none)
  with h show ?thesis by blast
qed

theorem wal_path_cap_stale_witness:
  "\<exists>fw rh body st'. handle_non_streaming demo_env a_day (Some demo_config) True False flaky
       (demo_request demo_headers ''gpt-4o'') fw (demo_state\<lparr>gd_requests := [ci_row 5], gd_key_spend := [''ci'' \<mapsto> (4, 0)]\<rparr>)
       = (Reply 200 rh body, st')
     \<and> 5 \<le> get_spend_by_key_label_today (fst (today_window_utc utc a_day)) ''ci'' (gd_requests st')
     \<and> fst (enforce_daily_cap utc (one_cap 5) (gd_requests st') a_day 10 10 (Some ''ci'') (gd_key_spend st')) = None"
proof -
  let ?q = "demo_request demo_headers ''gpt-4o''"
    and ?st = "demo_state\<lparr>gd_requests := [ci_row 5], gd_key_spend := [''ci'' \<mapsto> (4, 0)]\<rparr>"
  from demo_forward obtain fw :: forwarded and st1 :: gateway_db where m: "fw_model fw = ''gpt-4o''"
    and t: "fw_tags fw = (extract_tags demo_environ demo_headers)(''team'' \<mapsto> ''ml'', ''key_label'' \<mapsto> ''ci'')" by blast
  obtain rh st2 where h: "handle_non_streaming demo_env a_day (Some demo_config) True False flaky ?q fw ?st
      = (Reply 200 rh (Some ok_body), st2)"
    by (simp add: handle_non_streaming_def flaky_sent Let_def)
  then have rq: "gd_requests st2 = [ci_row 5, request_record demo_env a_day ''openai'' demo_headers fw 200 (35 / 10000)]"
    by (auto simp: handle_non_streaming_def flaky_sent Let_def m ok_cost)
  have "before_eq (fst (today_window_utc utc a_day)) a_day" by code_simp
  then have over: "5 \<le> get_spend_by_key_label_today (fst (today_window_utc utc a_day)) ''ci'' (gd_requests st2)"
    unfolding rq by (simp add: get_spend_by_key_label_today_def request_record_def t Let_def ci_row_def sum_where_none)
  have "fst (enforce_daily_cap utc (one_cap 5) (gd_requests st2) a_day 10 10 (Some ''ci'') (gd_key_spend st2)) = None"
    by (rule wal_path_cap_stale[OF h, of "''ci''" 4 0]) (use over in \<open>simp_all add: one_cap_daily\<close>)
  with h over show ?thesis by blast
qed

end
