(* ===== verification/Streaming.thy ===== *)
theory Streaming
  imports Forwarding "HOL-Library.Sublist"
begin

text \<open>
  Usage extraction from streamed answers: the splitting of the buffer into events and the gate of the
  provider (\<open>proxy/streaming.py\<close>, \<open>should_buffer_chunk\<close>), the per-provider accumulators
  (\<open>extract_usage_from_stream_chunk\<close> of \<open>providers/openai.py\<close>, \<open>anthropic.py\<close>,
  \<open>google.py\<close>, \<open>bedrock.py\<close>), the fallback extractors, and the counting of tool calls
  (\<open>providers/base.py\<close>). Texts are strings of code points below 256; the decoding of the byte chunks is
  not modelled. \<open>json.loads\<close> is the parameter \<open>loads\<close>, \<open>None\<close> when it raises. An accumulator maps a field
  to the JSON value found for it.
\<close>

section \<open>Lines and events\<close>

definition is_line_break :: "char \<Rightarrow> bool" where
  "is_line_break c = (let k = of_char c :: nat in (10 \<le> k \<and> k \<le> 13) \<or> (28 \<le> k \<and> k \<le> 30) \<or> k = 133)"

fun splitlines :: "string \<Rightarrow> string list" where
  "splitlines [] = []"
| "splitlines (c # s) =
     (if is_line_break c then [] # splitlines (drop (if c = CHR 0x0D \<and> startswith s [CHR 0x0A] then 1 else 0) s)
      else case splitlines s of
             [] \<Rightarrow> [[c]]
           | l # ls \<Rightarrow> (c # l) # ls)"

text \<open>\<open>raw_buffer.split("\n\n")\<close>\<close>

fun split_blank_line :: "string \<Rightarrow> string list" where
  "split_blank_line [] = [[]]"
| "split_blank_line (c # s) =
     (if c = CHR 0x0A \<and> startswith s [CHR 0x0A] then [] # split_blank_line (drop 1 s)
      else case split_blank_line s of [] \<Rightarrow> [[c]] | p # ps \<Rightarrow> (c # p) # ps)"

definition USAGE_EVENT_INDICATORS :: "string list" where
  "USAGE_EVENT_INDICATORS = [''\"usage\"'', ''usageMetadata'', ''message_start'', ''message_delta'']"

definition split_sse_events :: "string \<Rightarrow> (string \<Rightarrow> bool) option \<Rightarrow> string list" where
  "split_sse_events raw_buffer should_buffer =
     (let gate = (case should_buffer of Some f \<Rightarrow> f
                  | None \<Rightarrow> (\<lambda>e. list_ex (contains e) USAGE_EVENT_INDICATORS))
      in map (\<lambda>e. e @ [CHR 0x0A, CHR 0x0A])
           (filter (\<lambda>e. e \<noteq> [] \<and> gate e) (map strip (split_blank_line raw_buffer))))"

text \<open>The JSON payloads of an event; \<open>ndjson\<close> also takes bare lines that start with a brace.\<close>

definition line_payload :: "bool \<Rightarrow> string \<Rightarrow> string option" where
  "line_payload ndjson line =
     (let l = strip line;
          p = (if startswith l ''data:'' then Some (strip (drop 5 l))
               else if ndjson \<and> startswith l ''{'' then Some l else None)
      in case p of None \<Rightarrow> None | Some x \<Rightarrow> if x = [] \<or> x = ''[DONE]'' then None else Some x)"

definition payloads :: "bool \<Rightarrow> string \<Rightarrow> string list" where
  "payloads ndjson chunk = List.map_filter (line_payload ndjson) (splitlines chunk)"

section \<open>Accumulators\<close>

type_synonym usage_acc = "string \<rightharpoonup> json"
type_synonym loads = "string \<Rightarrow> json option"

definition get_or :: "(string \<times> json) list \<Rightarrow> string \<Rightarrow> json \<Rightarrow> json" where
  "get_or d k dflt = (case map_of d k of None \<Rightarrow> dflt | Some j \<Rightarrow> j)"

definition acc_get :: "usage_acc \<Rightarrow> string \<Rightarrow> json" where
  "acc_get acc k = (case acc k of None \<Rightarrow> JInt 0 | Some j \<Rightarrow> j)"

text \<open>\<open>max(0, a - b)\<close>: \<open>None\<close> when the subtraction raises TypeError.\<close>

fun py_number :: "json \<Rightarrow> (int + real) option" where
  "py_number (JInt n) = Some (Inl n)"
| "py_number (JBool b) = Some (Inl (if b then 1 else 0))"
| "py_number (JFloat x) = Some (Inr x)"
| "py_number _ = None"

definition as_real :: "int + real \<Rightarrow> real" where
  "as_real v = (case v of Inl n \<Rightarrow> of_int n | Inr x \<Rightarrow> x)"

definition max0_minus :: "json \<Rightarrow> json \<Rightarrow> json option" where
  "max0_minus a b =
     (case (py_number a, py_number b) of
        (Some (Inl m), Some (Inl n)) \<Rightarrow> Some (JInt (max 0 (m - n)))
      | (Some x, Some y) \<Rightarrow> Some (if as_real x - as_real y > 0 then JFloat (as_real x - as_real y) else JInt 0)
      | _ \<Rightarrow> None)"

text \<open>\<open>data.get(k) or {}\<close> and the like on a value that may be no object: \<open>None\<close> is the AttributeError.\<close>

definition openai_parts :: "json \<Rightarrow> ((string \<times> json) list \<times> (string \<times> json) list \<times> (string \<times> json) list) option" where
  "openai_parts data =
     (case data of
        JObj d \<Rightarrow>
          if \<not> json_truthy (get_or d ''usage'' JNull) then None
          else (case get_or d ''usage'' JNull of
                  JObj u \<Rightarrow>
                    (case (obj_or_empty u ''completion_tokens_details'', obj_or_empty u ''prompt_tokens_details'') of
                       (Some details, Some prompt_details) \<Rightarrow> Some (u, details, prompt_details)
                     | _ \<Rightarrow> None)
                | _ \<Rightarrow> None)
      | _ \<Rightarrow> None)"

definition openai_event :: "json \<Rightarrow> usage_acc \<Rightarrow> usage_acc" where
  "openai_event data acc =
     (case openai_parts data of
        None \<Rightarrow> acc
      | Some (u, details, prompt_details) \<Rightarrow>
          let reasoning = get_or details ''reasoning_tokens'' (JInt 0);
              acc1 = acc(''input_tokens'' \<mapsto> get_or u ''prompt_tokens'' (JInt 0))
          in (case max0_minus (get_or u ''completion_tokens'' (JInt 0)) reasoning of
                None \<Rightarrow> acc1
              | Some out \<Rightarrow> acc1(''output_tokens'' \<mapsto> out, ''reasoning_tokens'' \<mapsto> reasoning,
                  ''cache_read_tokens'' \<mapsto> get_or prompt_details ''cached_tokens'' (JInt 0),
                  ''audio_input_tokens'' \<mapsto> get_or prompt_details ''audio_tokens'' (JInt 0),
                  ''audio_output_tokens'' \<mapsto> get_or details ''audio_tokens'' (JInt 0))))"

definition set_output :: "(string \<times> json) list \<Rightarrow> usage_acc \<Rightarrow> usage_acc" where
  "set_output u acc =
     (if json_truthy (get_or u ''output_tokens'' JNull) then acc(''output_tokens'' \<mapsto> get_or u ''output_tokens'' JNull)
      else acc)"

definition anthropic_event :: "json \<Rightarrow> usage_acc \<Rightarrow> usage_acc" where
  "anthropic_event data acc =
     (case data of
        JObj d \<Rightarrow>
          if get_or d ''type'' JNull = JStr ''message_start''
          then (case Option.bind (obj_or_empty d ''message'') (\<lambda>m. obj_or_empty m ''usage'') of
                  None \<Rightarrow> acc
                | Some u \<Rightarrow> set_output u (acc(
                    ''input_tokens'' \<mapsto> get_or u ''input_tokens'' (acc_get acc ''input_tokens''),
                    ''cache_read_tokens'' \<mapsto> get_or u ''cache_read_input_tokens'' (acc_get acc ''cache_read_tokens''),
                    ''cache_write_tokens'' \<mapsto> get_or u ''cache_creation_input_tokens'' (acc_get acc ''cache_write_tokens''))))
          else if get_or d ''type'' JNull = JStr ''message_delta''
          then (case obj_or_empty d ''usage'' of None \<Rightarrow> acc | Some u \<Rightarrow> set_output u acc)
          else acc
      | _ \<Rightarrow> acc)"

definition google_event :: "json \<Rightarrow> usage_acc \<Rightarrow> usage_acc" where
  "google_event data acc =
     (case data of
        JObj d \<Rightarrow>
          (case obj_or_empty d ''usageMetadata'' of
             None \<Rightarrow> acc
           | Some meta \<Rightarrow>
               if map_of meta ''promptTokenCount'' \<noteq> None \<or> map_of meta ''candidatesTokenCount'' \<noteq> None
               then acc(''input_tokens'' \<mapsto> get_or meta ''promptTokenCount'' (JInt 0),
                        ''output_tokens'' \<mapsto> get_or meta ''candidatesTokenCount'' (JInt 0))
               else acc)
      | _ \<Rightarrow> acc)"

definition sse_chunk :: "loads \<Rightarrow> bool \<Rightarrow> (json \<Rightarrow> usage_acc \<Rightarrow> usage_acc) \<Rightarrow> string \<Rightarrow> usage_acc \<Rightarrow> usage_acc" where
  "sse_chunk loads ndjson event chunk acc =
     fold (\<lambda>p acc. case loads p of None \<Rightarrow> acc | Some data \<Rightarrow> event data acc) (payloads ndjson chunk) acc"

definition openai_stream_chunk :: "loads \<Rightarrow> string \<Rightarrow> usage_acc \<Rightarrow> usage_acc" where
  "openai_stream_chunk loads = sse_chunk loads False openai_event"

definition anthropic_stream_chunk :: "loads \<Rightarrow> string \<Rightarrow> usage_acc \<Rightarrow> usage_acc" where
  "anthropic_stream_chunk loads = sse_chunk loads False anthropic_event"

definition google_stream_chunk :: "loads \<Rightarrow> string \<Rightarrow> usage_acc \<Rightarrow> usage_acc" where
  "google_stream_chunk loads = sse_chunk loads True google_event"

definition openai_should_buffer :: "string \<Rightarrow> bool" where
  "openai_should_buffer e = contains e ''\"usage\"''"

definition anthropic_should_buffer :: "string \<Rightarrow> bool" where
  "anthropic_should_buffer e = list_ex (contains e) [''\"usage\"'', ''message_start'', ''message_delta'']"

definition google_should_buffer :: "string \<Rightarrow> bool" where
  "google_should_buffer e = contains e ''usageMetadata''"

section \<open>Bedrock's binary frames\<close>

text \<open>The state is (depth, inside a string, after a backslash); the result the object up to the closing brace.\<close>

fun scan_object :: "int \<Rightarrow> bool \<Rightarrow> bool \<Rightarrow> string \<Rightarrow> string option" where
  "scan_object depth in_str esc [] = None"
| "scan_object depth in_str esc (c # s) =
     (if in_str then
        map_option ((#) c) (scan_object depth (esc \<or> c \<noteq> CHR 0x22) (\<not> esc \<and> c = CHR 0x5C) s)
      else if c = CHR 0x22 then map_option ((#) c) (scan_object depth True False s)
      else if c = CHR ''{'' then map_option ((#) c) (scan_object (depth + 1) False False s)
      else if c = CHR ''}'' then
        (if depth - 1 = 0 then Some [c] else map_option ((#) c) (scan_object (depth - 1) False False s))
      else map_option ((#) c) (scan_object depth False False s))"

definition scan_json_object :: "string \<Rightarrow> string option" where
  "scan_json_object s = (if startswith s ''{'' then scan_object 0 False False s else None)"

definition bedrock_usage :: "json \<Rightarrow> usage_acc \<Rightarrow> usage_acc" where
  "bedrock_usage data acc =
     (case data of
        JObj u \<Rightarrow>
          if map_of u ''inputTokens'' \<noteq> None \<or> map_of u ''outputTokens'' \<noteq> None then
            let acc1 = acc(''input_tokens'' \<mapsto> get_or u ''inputTokens'' (JInt 0),
                           ''output_tokens'' \<mapsto> get_or u ''outputTokens'' (JInt 0));
                put = (\<lambda>k f acc. if json_truthy (get_or u k JNull) then acc(f \<mapsto> get_or u k JNull) else acc)
            in put ''cacheWriteInputTokens'' ''cache_write_tokens'' (put ''cacheReadInputTokens'' ''cache_read_tokens'' acc1)
          else acc
      | _ \<Rightarrow> acc)"

fun bedrock_stream_chunk :: "loads \<Rightarrow> string \<Rightarrow> usage_acc \<Rightarrow> usage_acc" where
  "bedrock_stream_chunk loads [] acc = acc"
| "bedrock_stream_chunk loads (c # s) acc =
     bedrock_stream_chunk loads s
       (if startswith (c # s) ''\"usage\"''
        then (case scan_json_object (dropWhile (\<lambda>c. c \<noteq> CHR ''{'') (drop 7 (c # s))) of
                None \<Rightarrow> acc
              | Some obj \<Rightarrow> (case loads obj of None \<Rightarrow> acc | Some u \<Rightarrow> bedrock_usage u acc))
        else acc)"

definition bedrock_should_buffer :: "string \<Rightarrow> bool" where
  "bedrock_should_buffer e = (contains e ''inputTokens'' \<or> contains e ''\"usage\"'')"

section \<open>The usage of a stream\<close>

text \<open>A field that holds no integer makes the arithmetic of the cost fail: no usage.\<close>

definition acc_int :: "usage_acc \<Rightarrow> string \<Rightarrow> int option" where
  "acc_int acc k = (case acc_get acc k of JInt n \<Rightarrow> Some n | _ \<Rightarrow> None)"

definition usage_of_acc :: "usage_acc \<Rightarrow> token_usage option" where
  "usage_of_acc acc =
     Option.bind (acc_int acc ''input_tokens'') (\<lambda>i. Option.bind (acc_int acc ''output_tokens'') (\<lambda>out.
     Option.bind (acc_int acc ''reasoning_tokens'') (\<lambda>r. Option.bind (acc_int acc ''cache_read_tokens'') (\<lambda>cr.
     Option.bind (acc_int acc ''cache_write_tokens'') (\<lambda>cw. Option.bind (acc_int acc ''audio_input_tokens'') (\<lambda>ai.
     Option.bind (acc_int acc ''audio_output_tokens'') (\<lambda>ao.
       Some (no_usage\<lparr>input_tokens := i, output_tokens := out, reasoning_tokens := r, cache_read_tokens := cr,
         cache_write_tokens := cw, audio_input_tokens := ai, audio_output_tokens := ao\<rparr>))))))))"

record stream_plugin =
  sp_chunk :: "string \<Rightarrow> usage_acc \<Rightarrow> usage_acc"
  sp_should_buffer :: "string \<Rightarrow> bool"

definition stream_acc :: "stream_plugin \<Rightarrow> string list \<Rightarrow> usage_acc" where
  "stream_acc sp usage_chunks = fold (sp_chunk sp) usage_chunks Map.empty"

text \<open>The built-in extractors for a registry that is not populated. They build the usage of an event
  at once, so an event that raises half way leaves the usage as it was.\<close>

definition openai_event_atomic :: "json \<Rightarrow> usage_acc \<Rightarrow> usage_acc" where
  "openai_event_atomic data usage =
     (case openai_parts data of
        None \<Rightarrow> usage
      | Some (u, details, prompt_details) \<Rightarrow>
          (case max0_minus (get_or u ''completion_tokens'' (JInt 0)) (get_or details ''reasoning_tokens'' (JInt 0)) of
             None \<Rightarrow> usage
           | Some out \<Rightarrow> [''input_tokens'' \<mapsto> get_or u ''prompt_tokens'' (JInt 0), ''output_tokens'' \<mapsto> out,
               ''reasoning_tokens'' \<mapsto> get_or details ''reasoning_tokens'' (JInt 0),
               ''cache_read_tokens'' \<mapsto> get_or prompt_details ''cached_tokens'' (JInt 0),
               ''audio_input_tokens'' \<mapsto> get_or prompt_details ''audio_tokens'' (JInt 0),
               ''audio_output_tokens'' \<mapsto> get_or details ''audio_tokens'' (JInt 0)]))"

definition extract_openai_stream :: "loads \<Rightarrow> string list \<Rightarrow> usage_acc" where
  "extract_openai_stream loads chunks = fold (sse_chunk loads False openai_event_atomic) chunks Map.empty"

definition extract_usage_from_stream ::
    "loads \<Rightarrow> stream_plugin option \<Rightarrow> string \<Rightarrow> string list \<Rightarrow> token_usage option" where
  "extract_usage_from_stream loads plugin provider_name usage_chunks =
     usage_of_acc (case plugin of
        Some sp \<Rightarrow> stream_acc sp usage_chunks
      | None \<Rightarrow>
          if provider_name = ''openai'' then extract_openai_stream loads usage_chunks
          else if provider_name = ''anthropic'' then fold (anthropic_stream_chunk loads) usage_chunks Map.empty
          else if provider_name = ''google'' then fold (google_stream_chunk loads) usage_chunks Map.empty
          else Map.empty)"

definition openai_stream :: "loads \<Rightarrow> stream_plugin" where
  "openai_stream loads = \<lparr>sp_chunk = openai_stream_chunk loads, sp_should_buffer = openai_should_buffer\<rparr>"

definition anthropic_stream :: "loads \<Rightarrow> stream_plugin" where
  "anthropic_stream loads = \<lparr>sp_chunk = anthropic_stream_chunk loads, sp_should_buffer = anthropic_should_buffer\<rparr>"

definition google_stream :: "loads \<Rightarrow> stream_plugin" where
  "google_stream loads = \<lparr>sp_chunk = google_stream_chunk loads, sp_should_buffer = google_should_buffer\<rparr>"

definition bedrock_stream :: "loads \<Rightarrow> stream_plugin" where
  "bedrock_stream loads = \<lparr>sp_chunk = bedrock_stream_chunk loads, sp_should_buffer = bedrock_should_buffer\<rparr>"

definition stream_usage :: "loads \<Rightarrow> stream_plugin \<Rightarrow> string \<Rightarrow> token_usage option" where
  "stream_usage loads sp raw_buffer =
     extract_usage_from_stream loads (Some sp) [] (split_sse_events raw_buffer (Some (sp_should_buffer sp)))"

section \<open>Tool calls\<close>

text \<open>A loop over values whose body may raise: the state when it stopped, and whether it finished.\<close>

fun try_fold :: "('a \<Rightarrow> 's \<Rightarrow> 's \<times> bool) \<Rightarrow> 'a list \<Rightarrow> 's \<Rightarrow> 's \<times> bool" where
  "try_fold f [] s = (s, True)"
| "try_fold f (x # xs) s = (case f x s of (s', True) \<Rightarrow> try_fold f xs s' | (s', False) \<Rightarrow> (s', False))"

definition for_each :: "json option \<Rightarrow> (json \<Rightarrow> 's \<Rightarrow> 's \<times> bool) \<Rightarrow> 's \<Rightarrow> 's \<times> bool" where
  "for_each xs f s =
     (case Option.bind xs (\<lambda>j. if json_truthy j then iterate_json j else Some []) of
        None \<Rightarrow> (s, False) | Some js \<Rightarrow> try_fold f js s)"

definition dict_str :: "json \<Rightarrow> string \<Rightarrow> json" where
  "dict_str j k = (case j of JObj d \<Rightarrow> get_or d k JNull | _ \<Rightarrow> JNull)"

definition count_tool_calls :: "json \<Rightarrow> nat" where
  "count_tool_calls body =
     (case body of
        JObj d \<Rightarrow>
          (let message_calls = (\<lambda>choice n.
                 case Option.bind (case or_empty choice of JObj c \<Rightarrow> Some (get_or c ''message'' (JObj [])) | _ \<Rightarrow> None)
                        (\<lambda>m. jget m ''tool_calls'') of
                   None \<Rightarrow> (n, False) | Some (JArr calls) \<Rightarrow> (n + length calls, True) | Some _ \<Rightarrow> (n, True));
               block_calls = (\<lambda>block n. (if dict_str block ''type'' = JStr ''tool_use'' then n + 1 else n, True));
               part_calls = (\<lambda>part n. (if json_truthy (dict_str part ''functionCall'') then n + 1 else n, True));
               candidate_calls = (\<lambda>cand n. for_each
                 (Option.bind (case or_empty cand of JObj c \<Rightarrow> Some (get_or c ''content'' (JObj [])) | _ \<Rightarrow> None)
                    (\<lambda>m. jget m ''parts'')) part_calls n)
           in case for_each (jget body ''choices'') message_calls 0 of
                (n, False) \<Rightarrow> 0
              | (n, True) \<Rightarrow> (case for_each (jget body ''content'') block_calls n of
                  (n, False) \<Rightarrow> 0
                | (n, True) \<Rightarrow> (case for_each (jget body ''candidates'') candidate_calls n of
                    (n, False) \<Rightarrow> 0 | (n, True) \<Rightarrow> n)))
      | _ \<Rightarrow> 0)"

definition STREAM_TOOL_MARKERS :: "string list" where
  "STREAM_TOOL_MARKERS = [''\"tool_calls\"'', ''\"tool_use\"'', ''\"functionCall\"'']"

definition hashable :: "json \<Rightarrow> bool" where
  "hashable j = (case j of JArr _ \<Rightarrow> False | JObj _ \<Rightarrow> False | _ \<Rightarrow> True)"

text \<open>The state is the set of OpenAI call keys and the count of the other providers' calls.\<close>

definition stream_tool_entry :: "json \<Rightarrow> json set \<times> nat \<Rightarrow> (json set \<times> nat) \<times> bool" where
  "stream_tool_entry entry st =
     (case entry of
        JObj e \<Rightarrow>
          (let key = get_or e ''index'' (get_or e ''id'' JNull)
           in if key = JNull then (st, True)
              else if hashable key then ((insert key (fst st), snd st), True) else (st, False))
      | _ \<Rightarrow> (st, True))"

definition stream_tool_event :: "json \<Rightarrow> json set \<times> nat \<Rightarrow> json set \<times> nat" where
  "stream_tool_event data st =
     (let choice_calls = (\<lambda>choice st. for_each
            (Option.bind (jget (or_empty choice) ''delta'') (\<lambda>delta. jget (or_empty delta) ''tool_calls''))
            stream_tool_entry st);
          part_calls = (\<lambda>part st. (if json_truthy (dict_str part ''functionCall'') then (fst st, snd st + 1) else st, True));
          candidate_calls = (\<lambda>cand st. for_each
            (Option.bind (jget (or_empty cand) ''content'') (\<lambda>content. jget (or_empty content) ''parts'')) part_calls st)
      in case for_each (jget data ''choices'') choice_calls st of
           (st1, False) \<Rightarrow> st1
         | (st1, True) \<Rightarrow>
             (let st2 = (if dict_str data ''type'' = JStr ''content_block_start''
                            \<and> dict_str (dict_str data ''content_block'') ''type'' = JStr ''tool_use''
                         then (fst st1, snd st1 + 1) else st1)
              in fst (for_each (jget data ''candidates'') candidate_calls st2)))"

definition stream_tool_state :: "loads \<Rightarrow> string \<Rightarrow> json set \<times> nat" where
  "stream_tool_state loads raw_buffer =
     fold (\<lambda>p st. case loads p of Some (JObj d) \<Rightarrow> stream_tool_event (JObj d) st | _ \<Rightarrow> st)
       (filter (\<lambda>p. list_ex (contains p) STREAM_TOOL_MARKERS) (payloads True raw_buffer)) ({}, 0)"

definition count_tool_calls_in_stream :: "loads \<Rightarrow> string \<Rightarrow> nat" where
  "count_tool_calls_in_stream loads raw_buffer =
     (if list_ex (contains raw_buffer) STREAM_TOOL_MARKERS
      then Finite_Set.card (fst (stream_tool_state loads raw_buffer)) + snd (stream_tool_state loads raw_buffer) else 0)"

section \<open>Lemmas on texts\<close>

lemma contains_sublist: "contains s p \<longleftrightarrow> sublist p s"
proof (induction s)
  case (Cons c s)
  have "startswith (c # s) p \<longleftrightarrow> prefix p (c # s)" by (auto simp: startswith_iff prefix_def)
  with Cons show ?case by (simp add: sublist_Cons_right)
qed simp

lemma sublist_strip: "sublist (strip s) s"
proof -
  have "suffix (dropWhile is_py_space s) s" by (rule suffix_dropWhile)
  moreover have "prefix (strip s) (dropWhile is_py_space s)"
    unfolding strip_def suffix_to_prefix[symmetric]
    by (metis rev_rev_ident suffix_dropWhile suffix_to_prefix)
  ultimately show ?thesis by (meson prefix_imp_sublist sublist_order.order_trans suffix_imp_sublist)
qed

lemma splitlines_sublist:
  "splitlines s = l # ls \<Longrightarrow> prefix l s \<and> (\<forall>l' \<in> set ls. sublist l' s)"
proof (induction s arbitrary: l ls rule: splitlines.induct)
  case (2 c s)
  show ?case
  proof (cases "is_line_break c")
    case True
    let ?s = "drop (if c = CHR 0x0D \<and> startswith s [CHR 0x0A] then 1 else 0) s"
    have ls: "l = []" "ls = splitlines ?s" using 2(3) True by auto
    have "sublist l' ?s" if "l' \<in> set ls" for l'
    proof (cases ls)
      case (Cons a as)
      then have "splitlines ?s = a # as" using ls(2) by simp
      from 2(1)[OF True this] that Cons show ?thesis by (auto dest: prefix_imp_sublist)
    qed (use that in simp)
    moreover have "sublist ?s (c # s)" by (meson sublist_Cons_right sublist_drop)
    ultimately show ?thesis using ls(1) by (auto intro: sublist_order.order_trans)
  next
    case False
    show ?thesis
    proof (cases "splitlines s")
      case Nil
      then show ?thesis using 2(3) False by auto
    next
      case (Cons a as)
      with 2(2)[OF False Cons] 2(3) False show ?thesis by (auto simp: sublist_Cons_right)
    qed
  qed
qed simp

lemma splitlines_member: "l \<in> set (splitlines s) \<Longrightarrow> sublist l s"
  by (cases "splitlines s") (auto dest: splitlines_sublist)

lemma payload_sublist:
  assumes "p \<in> set (payloads nd e)"
  shows "sublist p e"
proof -
  obtain l where l: "l \<in> set (splitlines e)" "line_payload nd l = Some p"
    using assms by (auto simp: payloads_def List.map_filter_def)
  have "sublist (strip (drop 5 (strip l))) (strip l)"
    by (meson sublist_drop sublist_order.order_trans sublist_strip)
  then have "sublist p (strip l)"
    using l(2) by (auto simp: line_payload_def Let_def split: if_splits option.splits)
  then show ?thesis using splitlines_member[OF l(1)] sublist_strip sublist_order.order_trans by blast
qed

lemma splitlines_Nil_iff: "splitlines s = [] \<longleftrightarrow> s = []"
  by (cases s) (auto split: list.splits)

lemma splitlines_append_newline:
  "splitlines (s @ [CHR 0x0A]) = splitlines s \<or> splitlines (s @ [CHR 0x0A]) = splitlines s @ [[]]"
proof (induction s rule: splitlines.induct)
  case 1
  show ?case by (simp add: is_line_break_def)
next
  case (2 c s)
  show ?case
  proof (cases "is_line_break c")
    case True
    show ?thesis
    proof (cases s)
      case Nil
      then show ?thesis using True by (simp add: is_line_break_def)
    next
      case (Cons d t)
      have "startswith (s @ [CHR 0x0A]) [CHR 0x0A] = startswith s [CHR 0x0A]" by (simp add: Cons)
      moreover have "drop k (s @ [CHR 0x0A]) = drop k s @ [CHR 0x0A]" if "k \<le> 1" for k
        using that by (cases k) (simp_all add: Cons)
      ultimately show ?thesis using 2(1)[OF True] True by (auto split: if_splits)
    qed
  next
    case False
    show ?thesis
    proof (cases "splitlines s")
      case Nil
      then have "s = []" by (simp add: splitlines_Nil_iff)
      then show ?thesis using False by (simp add: is_line_break_def)
    next
      case (Cons a as)
      with 2(2)[OF False] False show ?thesis by auto
    qed
  qed
qed

lemma line_payload_Nil [simp]: "line_payload nd [] = None"
  by (simp add: line_payload_def)

lemma payloads_newline: "payloads nd (s @ [CHR 0x0A]) = payloads nd s"
  using splitlines_append_newline[of s] by (auto simp: payloads_def List.map_filter_def)

lemma payloads_event: "payloads nd (e @ [CHR 0x0A, CHR 0x0A]) = payloads nd e"
  using payloads_newline[of nd "e @ [CHR 0x0A]"] by (simp add: payloads_newline)

lemma payloads_Nil [simp]: "payloads nd [] = []"
  by (simp add: payloads_def List.map_filter_def)

section \<open>Lemmas on accumulators\<close>

definition event_step :: "loads \<Rightarrow> (json \<Rightarrow> usage_acc \<Rightarrow> usage_acc) \<Rightarrow> string \<Rightarrow> usage_acc \<Rightarrow> usage_acc" where
  "event_step loads event p acc = (case loads p of None \<Rightarrow> acc | Some data \<Rightarrow> event data acc)"

lemma fold_sse_chunk:
  "fold (sse_chunk loads nd event) chunks acc = fold (event_step loads event) (concat (map (payloads nd) chunks)) acc"
  by (induction chunks arbitrary: acc) (simp_all add: sse_chunk_def event_step_def[abs_def])

lemma fold_event_idle:
  "\<forall>p \<in> set ps. \<forall>acc. event_step loads event p acc = acc \<Longrightarrow> fold (event_step loads event) ps acc = acc"
  by (induction ps) simp_all

text \<open>What the gate of a provider must not drop.\<close>

definition gate_sound :: "loads \<Rightarrow> bool \<Rightarrow> (json \<Rightarrow> usage_acc \<Rightarrow> usage_acc) \<Rightarrow> (string \<Rightarrow> bool) \<Rightarrow> string list \<Rightarrow> bool" where
  "gate_sound loads nd event gate events \<longleftrightarrow>
     (\<forall>e \<in> set events. \<not> gate e \<longrightarrow> (\<forall>p \<in> set (payloads nd e). \<forall>acc. event_step loads event p acc = acc))"

lemma fold_gated:
  assumes "gate_sound loads nd event gate events"
  shows "fold (sse_chunk loads nd event) (map (\<lambda>e. e @ [CHR 0x0A, CHR 0x0A]) (filter (\<lambda>e. e \<noteq> [] \<and> gate e) events)) acc
    = fold (sse_chunk loads nd event) events acc"
  using assms
proof (induction events arbitrary: acc)
  case (Cons e es)
  have chunk: "sse_chunk loads nd event (e @ [CHR 0x0A, CHR 0x0A]) acc = sse_chunk loads nd event e acc"
    by (simp add: sse_chunk_def payloads_event)
  have rest: "gate_sound loads nd event gate es" using Cons.prems by (simp add: gate_sound_def)
  show ?case
  proof (cases "e \<noteq> [] \<and> gate e")
    case False
    then have "\<forall>p \<in> set (payloads nd e). \<forall>acc. event_step loads event p acc = acc"
      using Cons.prems by (cases "e = []") (simp_all add: gate_sound_def)
    then have "sse_chunk loads nd event e acc = acc"
      using fold_event_idle[of "payloads nd e" loads event acc] by (simp add: sse_chunk_def event_step_def[abs_def])
    with False Cons.IH[OF rest] show ?thesis by auto
  qed (use chunk Cons.IH[OF rest] in auto)
qed simp

lemma int_or_0_get: "int_or_0 d k = Some n \<Longrightarrow> get_or d k (JInt 0) = JInt n"
  by (auto simp: int_or_0_def get_or_def split: option.splits json.splits)

definition bears_usage :: "loads \<Rightarrow> string \<Rightarrow> bool" where
  "bears_usage loads p \<longleftrightarrow> Option.bind (loads p) openai_parts \<noteq> None"

lemma no_usage_idle: "\<not> bears_usage loads p \<Longrightarrow> event_step loads openai_event p acc = acc"
  by (cases "loads p") (auto simp: bears_usage_def event_step_def openai_event_def split: option.split)

lemma no_usage_fold: "\<forall>p \<in> set ps. \<not> bears_usage loads p \<Longrightarrow> fold (event_step loads openai_event) ps acc = acc"
  by (rule fold_event_idle) (simp add: no_usage_idle)

lemma usage_of_acc_empty [simp]: "usage_of_acc Map.empty = Some no_usage"
  by (simp add: usage_of_acc_def acc_int_def acc_get_def no_usage_def)

lemma openai_event_plain:
  assumes "json_truthy (get_or kvs ''usage'' JNull)" "extract_usage_openai kvs = Some u" "acc ''cache_write_tokens'' = None"
  shows "usage_of_acc (openai_event (JObj kvs) acc) = Some u"
proof -
  obtain uo where uo: "obj_or_empty kvs ''usage'' = Some uo"
    using assms(2) by (auto simp: extract_usage_openai_def bind_eq_Some_conv)
  then have get: "get_or kvs ''usage'' JNull = JObj uo"
    using assms(1) by (auto simp: obj_or_empty_def get_or_def split: option.splits if_splits json.splits)
  obtain det pd r p c ca ai ao where
    d: "obj_or_empty uo ''completion_tokens_details'' = Some det" "obj_or_empty uo ''prompt_tokens_details'' = Some pd"
    and i: "int_or_0 det ''reasoning_tokens'' = Some r" "int_or_0 uo ''prompt_tokens'' = Some p"
      "int_or_0 uo ''completion_tokens'' = Some c" "int_or_0 pd ''cached_tokens'' = Some ca"
      "int_or_0 pd ''audio_tokens'' = Some ai" "int_or_0 det ''audio_tokens'' = Some ao"
    and u: "u = no_usage\<lparr>input_tokens := p, output_tokens := max 0 (c - r), reasoning_tokens := r,
      cache_read_tokens := ca, audio_input_tokens := ai, audio_output_tokens := ao\<rparr>"
    using assms(2) uo by (auto simp: extract_usage_openai_def bind_eq_Some_conv)
  have "openai_parts (JObj kvs) = Some (uo, det, pd)"
    using assms(1) get d by (simp add: openai_parts_def)
  then show ?thesis using i[THEN int_or_0_get] assms(3) u
    by (simp add: openai_event_def max0_minus_def usage_of_acc_def acc_int_def acc_get_def no_usage_def)
qed

lemma openai_event_cache_write: "acc ''cache_write_tokens'' = None \<Longrightarrow> openai_event data acc ''cache_write_tokens'' = None"
  by (auto simp: openai_event_def Let_def split: option.split)

lemma fold_openai_cache_write:
  "acc ''cache_write_tokens'' = None \<Longrightarrow> fold (event_step loads openai_event) ps acc ''cache_write_tokens'' = None"
  by (induction ps arbitrary: acc) (auto simp: event_step_def openai_event_cache_write split: option.split)

section \<open>Properties\<close>

text \<open>
  The gate loses nothing: when every usage object of the stream is spelled with its key in the text,
  which JSON encoders do, the usage extracted from the events that pass OpenAI's gate is the usage of all events.
\<close>

theorem gate_keeps_usage:
  assumes "\<forall>e \<in> set (map strip (split_blank_line raw)). \<forall>p \<in> set (payloads False e). bears_usage loads p \<longrightarrow> contains p ''\"usage\"''"
  shows "stream_usage loads (openai_stream loads) raw
    = extract_usage_from_stream loads (Some (openai_stream loads)) [] (map strip (split_blank_line raw))"
proof -
  let ?es = "map strip (split_blank_line raw)"
  have "gate_sound loads False openai_event openai_should_buffer ?es"
    unfolding gate_sound_def
  proof (intro ballI impI allI)
    fix e p acc assume e: "e \<in> set ?es" "\<not> openai_should_buffer e" "p \<in> set (payloads False e)"
    have "\<not> contains p ''\"usage\"''"
      using e(2) payload_sublist[OF e(3)] unfolding openai_should_buffer_def contains_sublist
      by (blast intro: sublist_order.order_trans)
    with assms e(1,3) show "event_step loads openai_event p acc = acc" by (intro no_usage_idle) blast
  qed
  from fold_gated[OF this] show ?thesis
    by (simp add: stream_usage_def extract_usage_from_stream_def stream_acc_def openai_stream_def
        openai_stream_chunk_def split_sse_events_def)
qed


text \<open>
  An OpenAI stream without a usage object, which is what a client gets that does not set
  \<open>include_usage\<close>, is free: its usage is zero, the reservation is given back in full, and every budget
  counter ends where it was before the request.
\<close>

theorem unreported_stream_is_free:
  assumes "handle_request env mo flt (Some cf) cb kb probe q st = (Forward fw, st1)"
    and "unique_names (cfg_budgets cf)" "has_counter k (gd_counters st)" "fw_reservation fw = Some res"
    and "\<forall>e \<in> set (split_sse_events raw (Some openai_should_buffer)). \<forall>p \<in> set (payloads False e).
      \<not> bears_usage loads p"
    and "stream_usage loads (openai_stream loads) raw = Some usage"
    and "handle_streaming env now (Some cf) via_wal False upstream usage q fw st1 = (Reply status rh body, st2)"
  shows "usage = no_usage \<and> balance k (gd_counters st2) = balance k (gd_counters st)"
proof -
  have "fold (event_step loads openai_event)
      (concat (map (payloads False) (split_sse_events raw (Some openai_should_buffer)))) Map.empty = Map.empty"
    using assms(5) by (intro no_usage_fold) auto
  with assms(6) have usage: "usage = no_usage"
    by (simp add: stream_usage_def extract_usage_from_stream_def stream_acc_def openai_stream_def
        openai_stream_chunk_def fold_sse_chunk)
  have free: "cost_of (ge_price env) prov m no_usage = 0" for prov m
    by (simp add: calculate_cost_def usage_cost_def no_usage_def Let_def split: option.split)
  from forwarded_reservation[OF assms(1,2,4,3)] have wf: "wf_reservation res"
    and k: "has_counter k (gd_counters st1)"
    and b: "balance k (gd_counters st1) = balance k (gd_counters st) + (if charges res k then estimated_cost res else 0)"
    by auto
  from assms(7) have "gd_counters st2 = reconcile 0 res (gd_counters st1)"
    using free by (auto simp: handle_streaming_def settle_def usage assms(4) Let_def charged_cost_def
        split: attempt_result.splits if_splits)
  with reconcile_balance[OF wf k] b usage show ?thesis by (auto simp: charges_def)
qed

text \<open>
  The extractors that stand in for a missing registry agree with the provider's accumulator as long as
  every usage object has numeric token counts; on one that has not, the accumulator keeps the half it had
  read before the exception.
\<close>

theorem fallback_extractor_agrees:
  assumes "\<forall>c \<in> set chunks. \<forall>p \<in> set (payloads False c). \<forall>data u det pd.
      loads p = Some data \<longrightarrow> openai_parts data = Some (u, det, pd) \<longrightarrow>
      max0_minus (get_or u ''completion_tokens'' (JInt 0)) (get_or det ''reasoning_tokens'' (JInt 0)) \<noteq> None"
  shows "extract_usage_from_stream loads None ''openai'' chunks
    = extract_usage_from_stream loads (Some (openai_stream loads)) ''openai'' chunks"
proof -
  define fields where "fields = {''input_tokens'', ''output_tokens'', ''reasoning_tokens'', ''cache_read_tokens'',
    ''audio_input_tokens'', ''audio_output_tokens''}"
  let ?good = "\<lambda>p. \<forall>data u det pd. loads p = Some data \<longrightarrow> openai_parts data = Some (u, det, pd) \<longrightarrow>
      max0_minus (get_or u ''completion_tokens'' (JInt 0)) (get_or det ''reasoning_tokens'' (JInt 0)) \<noteq> None"
  have step: "event_step loads openai_event_atomic p acc = event_step loads openai_event p acc
      \<and> dom (event_step loads openai_event p acc) \<subseteq> fields" if "?good p" "dom acc \<subseteq> fields" for p acc
  proof (cases "Option.bind (loads p) openai_parts")
    case None
    then show ?thesis using that(2)
      by (auto simp: event_step_def openai_event_def openai_event_atomic_def split: option.splits)
  next
    case (Some t)
    then obtain data u det pd where d: "loads p = Some data" "openai_parts data = Some (u, det, pd)"
      by (cases t) (auto simp: bind_eq_Some_conv)
    with that(1) obtain out where out:
      "max0_minus (get_or u ''completion_tokens'' (JInt 0)) (get_or det ''reasoning_tokens'' (JInt 0)) = Some out" by blast
    show ?thesis
    proof
      show "event_step loads openai_event_atomic p acc = event_step loads openai_event p acc"
      proof
        fix x
        show "event_step loads openai_event_atomic p acc x = event_step loads openai_event p acc x"
        proof (cases "x \<in> fields")
          case True
          then show ?thesis using d out
            by (auto simp: event_step_def openai_event_def openai_event_atomic_def fields_def)
        next
          case False
          then have "acc x = None" using that(2) by blast
          with False show ?thesis using d out
            by (auto simp: event_step_def openai_event_def openai_event_atomic_def fields_def)
        qed
      qed
      show "dom (event_step loads openai_event p acc) \<subseteq> fields"
        using d out that(2) by (auto simp: event_step_def openai_event_def fields_def split: if_splits)
    qed
  qed
  have "\<forall>p \<in> set ps. ?good p \<Longrightarrow> dom acc \<subseteq> fields \<Longrightarrow>
      fold (event_step loads openai_event_atomic) ps acc = fold (event_step loads openai_event) ps acc" for ps acc
  proof (induction ps arbitrary: acc)
    case (Cons p ps)
    with step[of p acc] show ?case by simp
  qed simp
  from this[of "concat (map (payloads False) chunks)" Map.empty] assms show ?thesis
    by (simp add: extract_usage_from_stream_def extract_openai_stream_def stream_acc_def openai_stream_def
        openai_stream_chunk_def fold_sse_chunk)
qed

text \<open>
  Anthropic splits the usage over two events: the prompt and cache counts of \<open>message_start\<close> and the
  final output count of \<open>message_delta\<close> together give the usage of the plain answer.
\<close>

definition anthropic_idle :: "loads \<Rightarrow> string \<Rightarrow> bool" where
  "anthropic_idle loads p \<longleftrightarrow> (case loads p of
     Some (JObj d) \<Rightarrow> get_or d ''type'' JNull \<notin> {JStr ''message_start'', JStr ''message_delta''} | _ \<Rightarrow> True)"

lemma anthropic_idle_fold:
  "\<forall>p \<in> set ps. anthropic_idle loads p \<Longrightarrow> fold (event_step loads anthropic_event) ps acc = acc"
  by (rule fold_event_idle) (auto simp: anthropic_idle_def event_step_def anthropic_event_def split: option.splits json.splits)

lemma int_or_0_not_output: "k \<noteq> ''output_tokens'' \<Longrightarrow> int_or_0 ((''output_tokens'', j) # u) k = int_or_0 u k"
  by (simp add: int_or_0_def)

theorem anthropic_stream_agrees:
  assumes "concat (map (payloads False) chunks) = ps @ start # mid @ delta # qs"
    and "\<forall>p \<in> set (ps @ mid @ qs). anthropic_idle loads p"
    and "loads start = Some (JObj d)" "get_or d ''type'' JNull = JStr ''message_start''"
    and "Option.bind (obj_or_empty d ''message'') (\<lambda>m. obj_or_empty m ''usage'') = Some u0"
    and "loads delta = Some (JObj e)" "get_or e ''type'' JNull = JStr ''message_delta''"
    and "obj_or_empty e ''usage'' = Some u1" "get_or u1 ''output_tokens'' JNull = JInt n" "n \<noteq> 0"
    and "extract_usage_anthropic [(''usage'', JObj ((''output_tokens'', JInt n) # u0))] = Some u"
  shows "extract_usage_from_stream loads (Some (anthropic_stream loads)) pname chunks = Some u"
proof -
  let ?a = "event_step loads anthropic_event start Map.empty"
  have acc: "fold (event_step loads anthropic_event) (ps @ start # mid @ delta # qs) Map.empty
      = event_step loads anthropic_event delta ?a"
    using assms(2) by (simp add: anthropic_idle_fold)
  obtain i r w where i: "int_or_0 u0 ''input_tokens'' = Some i" "int_or_0 u0 ''cache_read_input_tokens'' = Some r"
      "int_or_0 u0 ''cache_creation_input_tokens'' = Some w"
    and u: "u = no_usage\<lparr>input_tokens := i, output_tokens := n, cache_read_tokens := r, cache_write_tokens := w\<rparr>"
    using assms(11)
    by (auto simp: extract_usage_anthropic_def bind_eq_Some_conv obj_or_empty_def int_or_0_not_output)
      (auto simp: int_or_0_def split: option.splits json.splits)
  have "usage_of_acc (event_step loads anthropic_event delta ?a) = Some u"
    using assms(3-10) i[THEN int_or_0_get] u
    by (simp add: event_step_def anthropic_event_def set_output_def usage_of_acc_def acc_int_def acc_get_def no_usage_def)
  then show ?thesis
    by (simp add: extract_usage_from_stream_def stream_acc_def anthropic_stream_def anthropic_stream_chunk_def
        fold_sse_chunk assms(1) acc[simplified])
qed

section \<open>Witnesses\<close>

definition demo_loads :: loads where
  "demo_loads p =
     (if p = ''\"usage\"'' then Some (JObj [(''usage'', JObj [(''prompt_tokens'', JInt 7), (''completion_tokens'', JInt 5),
          (''completion_tokens_details'', JObj [(''reasoning_tokens'', JInt 2)])])])
      else if p = ''s'' then Some (JObj [(''type'', JStr ''message_start''),
          (''message'', JObj [(''usage'', JObj [(''input_tokens'', JInt 7)])])])
      else if p = ''d'' then Some (JObj [(''type'', JStr ''message_delta''), (''usage'', JObj [(''output_tokens'', JInt 3)])])
      else None)"

lemma demo_payloads:
  "payloads False ''data: \"usage\"'' = [''\"usage\"'']" "payloads False ''data: s'' = [''s'']" "payloads False ''data: d'' = [''d'']"
  by code_simp+

theorem gate_keeps_usage_witness:
  "stream_usage demo_loads (openai_stream demo_loads) ''data: \"usage\"''
   = extract_usage_from_stream demo_loads (Some (openai_stream demo_loads)) [] (map strip (split_blank_line ''data: \"usage\"''))"
proof (rule gate_keeps_usage)
  have e: "map strip (split_blank_line ''data: \"usage\"'') = [''data: \"usage\"'']" by code_simp
  show "\<forall>e \<in> set (map strip (split_blank_line ''data: \"usage\"'')). \<forall>p \<in> set (payloads False e).
      bears_usage demo_loads p \<longrightarrow> contains p ''\"usage\"''"
    unfolding e by (simp add: demo_payloads)
qed


theorem anthropic_stream_agrees_witness:
  "extract_usage_from_stream demo_loads (Some (anthropic_stream demo_loads)) ''anthropic'' [''data: s'', ''data: d'']
   = Some (no_usage\<lparr>input_tokens := 7, output_tokens := 3\<rparr>)"
proof (rule anthropic_stream_agrees[where ps = "[]" and mid = "[]" and qs = "[]" and start = "''s''" and delta = "''d''"])
  show "concat (map (payloads False) [''data: s'', ''data: d'']) = [] @ ''s'' # [] @ ''d'' # []" by (simp add: demo_payloads)
qed (auto simp: demo_loads_def get_or_def obj_or_empty_def extract_usage_anthropic_def int_or_0_def no_usage_def)

theorem fallback_extractor_agrees_witness:
  "extract_usage_from_stream demo_loads None ''openai'' [''data: \"usage\"'']
   = extract_usage_from_stream demo_loads (Some (openai_stream demo_loads)) ''openai'' [''data: \"usage\"'']"
  by (rule fallback_extractor_agrees)
    (auto simp: demo_payloads demo_loads_def openai_parts_def get_or_def obj_or_empty_def max0_minus_def)

theorem unreported_stream_is_free_witness:
  "\<exists>fw st1 rh body st2. handle_request demo_env demo_moment no_faults (Some demo_config) (Some demo_budgets) (Some (one_cap 5))
      (\<lambda>_ _. None) (demo_request demo_headers ''gpt-4o'') demo_state = (Forward fw, st1)
    \<and> handle_streaming demo_env noon (Some demo_config) True False flaky no_usage (demo_request demo_headers ''gpt-4o'') fw st1
        = (Reply 200 rh body, st2)
    \<and> balance (''ml-daily'', midnight noon) (gd_counters st2) = 3"
proof -
  let ?q = "demo_request demo_headers ''gpt-4o''" and ?raw = "''data: chunk''"
  from demo_forward obtain fw st1 where fw: "handle_request demo_env demo_moment no_faults (Some demo_config)
      (Some demo_budgets) (Some (one_cap 5)) (\<lambda>_ _. None) ?q demo_state = (Forward fw, st1)"
    and r: "fw_reservation fw = Some demo_reservation" by blast
  obtain rh body st2 where h: "handle_streaming demo_env noon (Some demo_config) True False flaky no_usage ?q fw st1
      = (Reply 200 rh body, st2)"
    by (simp add: handle_streaming_def flaky_sent Let_def)
  have none: "split_sse_events ?raw (Some openai_should_buffer) = []" by code_simp
  have u: "unique_names (cfg_budgets demo_config)" by (simp add: demo_config_def ml_unique)
  have c: "has_counter (''ml-daily'', midnight noon) (gd_counters demo_state)"
    by (simp add: demo_state_def ml_has_counter)
  have su: "stream_usage demo_loads (openai_stream demo_loads) ?raw = Some no_usage"
    by (simp add: stream_usage_def openai_stream_def none extract_usage_from_stream_def stream_acc_def)
  have "balance (''ml-daily'', midnight noon) (gd_counters st2) = balance (''ml-daily'', midnight noon) (gd_counters demo_state)"
    using unreported_stream_is_free[OF fw u c r _ su h] by (simp add: none)
  then show ?thesis using fw h by (auto simp: demo_state_def ml_balance)
qed

end
