(* ===== verification/Semantic_Cache.thy ===== *)
theory Semantic_Cache
  imports Streaming
begin

text \<open>
  The semantic response cache: \<open>cache/manager.py\<close> (exact and embedding lookup, integrity check, save,
  reconstruction of bodies from streams and of streams from bodies) and its use by
  \<open>proxy/interceptor.py\<close> before a request is forwarded and after an answer arrived. SHA-256, HMAC, the
  JSON encoder and decoder and the embedding service are parameters; a failed embedding is \<open>None\<close>.
  Embeddings are real vectors (the 32-bit rounding of the numpy path is not modelled).
\<close>

section \<open>Keys of a request\<close>

definition normalize_vector :: "real list \<Rightarrow> real list" where
  "normalize_vector v =
     (let norm = sqrt (\<Sum>x \<leftarrow> v. x * x) in if v = [] \<or> norm = 0 then v else map (\<lambda>x. x / norm) v)"

text \<open>\<open>"".join(xs)\<close>, a TypeError when an element is no string.\<close>

fun join_strs :: "json list \<Rightarrow> string option" where
  "join_strs [] = Some []"
| "join_strs (JStr s # xs) = map_option ((@) s) (join_strs xs)"
| "join_strs _ = None"

definition part_texts :: "(json \<Rightarrow> bool) \<Rightarrow> json list \<Rightarrow> json list" where
  "part_texts p parts = map (\<lambda>j. case j of JObj d \<Rightarrow> get_or d ''text'' (JStr []) | _ \<Rightarrow> JNull) (filter p parts)"

text \<open>The last user message with a text or a list of parts; the messages are given last first.\<close>

fun last_user_text :: "json list \<Rightarrow> string option option" where
  "last_user_text [] = Some None"
| "last_user_text (msg # msgs) =
     (if dict_str msg ''role'' = JStr ''user'' then
        (case dict_str msg ''content'' of
           JStr s \<Rightarrow> Some (Some s)
         | JArr parts \<Rightarrow> map_option Some (join_strs (part_texts (\<lambda>p. dict_str p ''type'' = JStr ''text'') parts))
         | _ \<Rightarrow> last_user_text msgs)
      else last_user_text msgs)"

definition last_or_raise :: "json \<Rightarrow> json option" where
  "last_or_raise j = (case j of JArr xs \<Rightarrow> if xs = [] then None else Some (last xs)
     | JStr s \<Rightarrow> if s = [] then None else Some (JStr [last s]) | _ \<Rightarrow> None)"

definition google_query_text :: "json \<Rightarrow> string option" where
  "google_query_text data =
     Option.bind (jget data ''contents'') (\<lambda>contents.
       if \<not> json_truthy contents then Some []
       else Option.bind (Option.bind (last_or_raise contents) (\<lambda>l. jget l ''parts'')) (\<lambda>parts.
         Option.bind (if json_truthy parts then iterate_json parts else Some []) (\<lambda>ps.
           join_strs (part_texts (\<lambda>p. case p of JObj d \<Rightarrow> map_of d ''text'' \<noteq> None | _ \<Rightarrow> False) ps))))"

definition chat_query_text :: "json \<Rightarrow> string option" where
  "chat_query_text data =
     Option.bind (jget data ''messages'') (\<lambda>messages.
       if \<not> json_truthy messages then Some []
       else (case messages of
               JArr msgs \<Rightarrow>
                 (case last_user_text (rev msgs) of
                    None \<Rightarrow> None
                  | Some (Some s) \<Rightarrow> Some s
                  | Some None \<Rightarrow> (case jget (last msgs) ''content'' of None \<Rightarrow> None | Some (JStr s) \<Rightarrow> Some s | _ \<Rightarrow> Some []))
             | _ \<Rightarrow> None))"

definition extract_query_text :: "json option \<Rightarrow> string \<Rightarrow> string" where
  "extract_query_text body provider_name =
     (case Option.bind body (if provider_name = ''google'' then google_query_text else chat_query_text) of
        None \<Rightarrow> [] | Some s \<Rightarrow> s)"

text \<open>\<open>_hash_system_prompt\<close>: the inner option of the scan is \<open>None\<close> when no system message has a text.\<close>

fun first_system_text :: "json list \<Rightarrow> string option option" where
  "first_system_text [] = Some None"
| "first_system_text (msg # msgs) =
     (case jget msg ''role'' of
        None \<Rightarrow> None
      | Some r \<Rightarrow>
          if r = JStr ''system'' then
            (case msg of
               JObj m \<Rightarrow> (case get_or m ''content'' (JStr []) of
                   JStr s \<Rightarrow> Some (Some s)
                 | JArr parts \<Rightarrow> map_option Some (join_strs (part_texts (\<lambda>p. case p of JObj _ \<Rightarrow> True | _ \<Rightarrow> False) parts))
                 | _ \<Rightarrow> first_system_text msgs)
             | _ \<Rightarrow> None)
          else first_system_text msgs)"

definition hash_system_prompt :: "(string \<Rightarrow> string) \<Rightarrow> (json \<Rightarrow> string) \<Rightarrow> json option \<Rightarrow> string option" where
  "hash_system_prompt sha256 dumps body =
     Option.bind body (\<lambda>data.
       Option.bind (Option.bind (jget data ''messages'') (\<lambda>m. if json_truthy m then iterate_json m else Some [])) (\<lambda>msgs.
         case first_system_text msgs of
           None \<Rightarrow> None
         | Some (Some t) \<Rightarrow> Some (sha256 t)
         | Some None \<Rightarrow>
             Option.bind (jget data ''system'') (\<lambda>sys.
               if json_truthy sys then Some (sha256 (case sys of JStr s \<Rightarrow> s | _ \<Rightarrow> dumps sys)) else None)))"

section \<open>The table\<close>

record cache_row =
  sc_id :: string
  sc_system_prompt_hash :: string
  sc_query_text :: string
  sc_provider :: string
  sc_model :: string
  sc_response_body :: string
  sc_response_hash :: "string option"
  sc_signature :: "string option"
  sc_embedding :: "real list option" \<comment> \<open>\<open>None\<close>: the stored text is no JSON list\<close>
  sc_customer_hash :: "string option"
  sc_expires_at :: "instant option"

record cache_env =
  ce_sha256 :: "string \<Rightarrow> string"
  ce_hmac :: "string \<Rightarrow> string \<Rightarrow> string"
  ce_dumps :: "json \<Rightarrow> string"
  ce_secret :: "string option"
  ce_numpy :: bool
  ce_embedding :: "string \<Rightarrow> real list option"
  ce_threshold :: real
  ce_ttl_seconds :: int

definition verify_integrity :: "cache_env \<Rightarrow> cache_row \<Rightarrow> bool" where
  "verify_integrity env row =
     (if sc_response_body row = [] then False
      else if truthy (sc_response_hash row) \<and> sc_response_hash row \<noteq> Some (ce_sha256 env (sc_response_body row)) then False
      else if truthy (ce_secret env) \<and> truthy (sc_signature row)
              \<and> sc_signature row \<noteq> Some (ce_hmac env (the (ce_secret env)) (sc_response_body row)) then False
      else True)"

definition lower_ascii :: "string \<Rightarrow> string" where
  "lower_ascii s = map (\<lambda>c. let k = of_char c :: nat in if 65 \<le> k \<and> k \<le> 90 then char_of (k + 32) else c) s"

definition live :: "instant \<Rightarrow> cache_row \<Rightarrow> bool" where
  "live now row = (case sc_expires_at row of None \<Rightarrow> True | Some e \<Rightarrow> e div 1000000 > now div 1000000)"

definition cache_answer :: "cache_env \<Rightarrow> cache_row \<Rightarrow> (string \<times> string \<times> string) option" where
  "cache_answer env row =
     (if verify_integrity env row then Some (sc_response_body row, sc_provider row, sc_model row) else None)"

definition lookup_exact ::
    "cache_env \<Rightarrow> instant \<Rightarrow> string \<Rightarrow> string \<Rightarrow> string option \<Rightarrow> cache_row table \<Rightarrow> (string \<times> string \<times> string) option" where
  "lookup_exact env now system query customer t =
     (case find (\<lambda>r. sc_system_prompt_hash r = system \<and> lower_ascii (sc_query_text r) = lower_ascii query
                     \<and> sc_customer_hash r = customer \<and> live now r) t of
        None \<Rightarrow> None | Some row \<Rightarrow> cache_answer env row)"

definition dot :: "real list \<Rightarrow> real list \<Rightarrow> real" where
  "dot u v = sum_list (map2 (*) u v)"

text \<open>The first row of highest similarity.\<close>

fun best_row :: "(real \<times> cache_row) list \<Rightarrow> real \<times> cache_row option \<Rightarrow> real \<times> cache_row option" where
  "best_row [] b = b"
| "best_row ((sim, r) # rs) b = best_row rs (if sim > fst b then (sim, Some r) else b)"

definition scored :: "real list \<Rightarrow> cache_row table \<Rightarrow> (real \<times> cache_row) list" where
  "scored q rows = List.map_filter (\<lambda>r. map_option (\<lambda>e. (dot q e, r)) (sc_embedding r)) rows"

definition best_match :: "bool \<Rightarrow> (real \<times> cache_row) list \<Rightarrow> real \<times> cache_row option" where
  "best_match numpy l =
     (case l of [] \<Rightarrow> (-1, None)
      | (s, r) # rest \<Rightarrow> best_row rest (if numpy \<or> s > -1 then (s, Some r) else (-1, None)))"

text \<open>numpy raises when the vectors do not all have the query's length; without it \<open>zip\<close> cuts them off.\<close>

definition lookup_semantic ::
    "cache_env \<Rightarrow> instant \<Rightarrow> string \<Rightarrow> real list \<Rightarrow> string option \<Rightarrow> cache_row table \<Rightarrow> (string \<times> string \<times> string) option" where
  "lookup_semantic env now system embedding customer t =
     (let q = normalize_vector embedding;
          rows = filter (\<lambda>r. sc_system_prompt_hash r = system \<and> sc_customer_hash r = customer \<and> live now r) t;
          ok = (\<not> ce_numpy env \<or> (\<forall>r \<in> set rows. case sc_embedding r of None \<Rightarrow> True | Some e \<Rightarrow> length e = length q));
          best = best_match (ce_numpy env) (scored q rows)
      in if q = [] \<or> \<not> ok then None
         else if fst best \<ge> ce_threshold env then (case snd best of None \<Rightarrow> None | Some row \<Rightarrow> cache_answer env row)
         else None)"

definition cache_id :: "cache_env \<Rightarrow> string \<Rightarrow> string option \<Rightarrow> string \<Rightarrow> string" where
  "cache_id env system customer query =
     ce_sha256 env (system @ '':'' @ (case customer of None \<Rightarrow> [] | Some c \<Rightarrow> c) @ '':'' @ lower query)"

definition save ::
    "cache_env \<Rightarrow> instant \<Rightarrow> string \<Rightarrow> string \<Rightarrow> string \<Rightarrow> string \<Rightarrow> string \<Rightarrow> real list \<Rightarrow> string option
       \<Rightarrow> cache_row table \<Rightarrow> cache_row table" where
  "save env now system query provider model body embedding customer t =
     insert_or_replace sc_id
       \<lparr>sc_id = cache_id env system customer query, sc_system_prompt_hash = system, sc_query_text = query,
        sc_provider = provider, sc_model = model, sc_response_body = body,
        sc_response_hash = Some (ce_sha256 env body),
        sc_signature = (if truthy (ce_secret env) then Some (ce_hmac env (the (ce_secret env)) body) else None),
        sc_embedding = Some (normalize_vector embedding), sc_customer_hash = customer,
        sc_expires_at = (if ce_ttl_seconds env \<noteq> 0 then Some (now + ce_ttl_seconds env * 1000000) else None)\<rparr> t"

section \<open>Use by the proxy\<close>

text \<open>The answer of the cache to a request, and the save after an answer with status 200.\<close>

definition customer_hash :: "cache_env \<Rightarrow> tags \<Rightarrow> string option" where
  "customer_hash env tg = (if truthy (tg ''customer'') then Some (ce_sha256 env (the (tg ''customer''))) else None)"

definition system_key :: "cache_env \<Rightarrow> json option \<Rightarrow> string" where
  "system_key env body = (case hash_system_prompt (ce_sha256 env) (ce_dumps env) body of None \<Rightarrow> [] | Some h \<Rightarrow> h)"

definition cache_probe ::
    "cache_env \<Rightarrow> instant \<Rightarrow> cache_row table \<Rightarrow> gw_request \<Rightarrow> tags \<Rightarrow> (string \<times> string \<times> string) option" where
  "cache_probe env now t q tg =
     (let query = extract_query_text (gq_body q) (name (pp_config (gq_provider q)));
          system = system_key env (gq_body q); cust = customer_hash env tg
      in case lookup_exact env now system query cust t of
           Some hit \<Rightarrow> Some hit
         | None \<Rightarrow>
             (case ce_embedding env query of
                None \<Rightarrow> None
              | Some e \<Rightarrow> if e = [] then None else lookup_semantic env now system e cust t))"

definition save_to_cache_bg ::
    "cache_env \<Rightarrow> instant \<Rightarrow> gw_request \<Rightarrow> tags \<Rightarrow> string \<Rightarrow> string \<Rightarrow> cache_row table \<Rightarrow> cache_row table" where
  "save_to_cache_bg env now q tg model response t =
     (let query = extract_query_text (gq_body q) (name (pp_config (gq_provider q)))
      in case ce_embedding env query of
           None \<Rightarrow> t
         | Some e \<Rightarrow>
             if e = [] then t
             else save env now (system_key env (gq_body q)) query (name (pp_config (gq_provider q))) model response e
                    (customer_hash env tg) t)"

definition saves_response :: "burnlens_config option \<Rightarrow> gw_request \<Rightarrow> int \<Rightarrow> bool" where
  "saves_response cfg q status =
     (case cfg of None \<Rightarrow> False
      | Some c \<Rightarrow> cfg_cache_enabled c \<and> \<not> cache_bypassed (gq_headers q) []
          \<and> upper_ascii (gq_method q) = ''POST'' \<and> status = 200 \<and> request_is_cacheable (gq_body q))"

section \<open>Streams from bodies and bodies from streams\<close>

text \<open>An event of a replayed stream: the optional event name and the data, or the end marker.\<close>

datatype sse_event = Event "string option" json | Done | Raw string

definition render_event :: "(json \<Rightarrow> string) \<Rightarrow> sse_event \<Rightarrow> string" where
  "render_event dumps ev =
     (case ev of
        Event None j \<Rightarrow> ''data: '' @ dumps j @ [CHR 0x0A, CHR 0x0A]
      | Event (Some n) j \<Rightarrow> ''event: '' @ n @ [CHR 0x0A] @ ''data: '' @ dumps j @ [CHR 0x0A, CHR 0x0A]
      | Done \<Rightarrow> ''data: [DONE]'' @ [CHR 0x0A, CHR 0x0A]
      | Raw s \<Rightarrow> s)"

definition openai_chunk :: "(string \<times> json) list \<Rightarrow> json \<Rightarrow> json \<Rightarrow> json \<Rightarrow> json" where
  "openai_chunk d now delta finish =
     JObj [(''id'', get_or d ''id'' (JStr ''chatcmpl-cached'')), (''object'', JStr ''chat.completion.chunk''),
       (''created'', get_or d ''created'' now), (''model'', get_or d ''model'' (JStr ''cached-model'')),
       (''choices'', JArr [JObj [(''index'', JInt 0), (''delta'', delta), (''finish_reason'', finish)]])]"

text \<open>\<open>choices[0].get("message", {}).get("content", "")\<close>: \<open>None\<close> when it raises.\<close>

definition first_of :: "json \<Rightarrow> json option" where
  "first_of j = (case j of JArr (x # xs) \<Rightarrow> Some x | JStr (c # cs) \<Rightarrow> Some (JStr [c]) | _ \<Rightarrow> None)"

definition get_default :: "json \<Rightarrow> string \<Rightarrow> json \<Rightarrow> json option" where
  "get_default j k dflt = (case j of JObj d \<Rightarrow> Some (get_or d k dflt) | _ \<Rightarrow> None)"

definition openai_content :: "json \<Rightarrow> json option" where
  "openai_content data =
     Option.bind (jget data ''choices'') (\<lambda>choices.
       if \<not> json_truthy choices then Some (JStr [])
       else Option.bind (Option.bind (first_of choices) (\<lambda>c. get_default c ''message'' (JObj [])))
              (\<lambda>m. get_default m ''content'' (JStr [])))"

definition openai_replay :: "json \<Rightarrow> json \<Rightarrow> sse_event list option" where
  "openai_replay now data =
     (case data of
        JObj d \<Rightarrow> map_option (\<lambda>content.
          [Event None (openai_chunk d now (JObj [(''role'', JStr ''assistant'')]) JNull)]
          @ (if json_truthy content then [Event None (openai_chunk d now (JObj [(''content'', content)]) JNull)] else [])
          @ [Event None (openai_chunk d now (JObj []) (JStr ''stop'')), Done]) (openai_content data)
      | _ \<Rightarrow> None)"

definition anthropic_content :: "json \<Rightarrow> json option" where
  "anthropic_content data =
     Option.bind (Option.bind (jget data ''content'') (\<lambda>c. if json_truthy c then iterate_json c else Some [])) (\<lambda>parts.
       Some (case find (\<lambda>p. dict_str p ''type'' = JStr ''text'') parts of
               Some (JObj d) \<Rightarrow> get_or d ''text'' (JStr []) | _ \<Rightarrow> JStr []))"

definition anthropic_replay :: "json \<Rightarrow> sse_event list option" where
  "anthropic_replay data =
     (case data of
        JObj d \<Rightarrow>
          Option.bind (anthropic_content data) (\<lambda>content.
          Option.bind (Option.bind (get_default data ''usage'' (JObj [])) (\<lambda>u. get_default u ''output_tokens'' (JInt 0))) (\<lambda>out. Some
            ([Event (Some ''message_start'') (JObj [(''type'', JStr ''message_start''), (''message'', JObj [
                (''id'', get_or d ''id'' (JStr ''msg_cached'')), (''type'', JStr ''message''), (''role'', JStr ''assistant''),
                (''content'', JArr []), (''model'', get_or d ''model'' (JStr ''cached-model'')), (''stop_reason'', JNull),
                (''stop_sequence'', JNull), (''usage'', JObj [(''input_tokens'', JInt 0), (''output_tokens'', JInt 0)])])]),
              Event (Some ''content_block_start'') (JObj [(''type'', JStr ''content_block_start''), (''index'', JInt 0),
                (''content_block'', JObj [(''type'', JStr ''text''), (''text'', JStr [])])])]
             @ (if json_truthy content
                then [Event (Some ''content_block_delta'') (JObj [(''type'', JStr ''content_block_delta''), (''index'', JInt 0),
                        (''delta'', JObj [(''type'', JStr ''text_delta''), (''text'', content)])])] else [])
             @ [Event (Some ''content_block_stop'') (JObj [(''type'', JStr ''content_block_stop''), (''index'', JInt 0)]),
                Event (Some ''message_delta'') (JObj [(''type'', JStr ''message_delta''),
                  (''delta'', JObj [(''stop_reason'', JStr ''end_turn''), (''stop_sequence'', JNull)]),
                  (''usage'', JObj [(''output_tokens'', out)])]),
                Event (Some ''message_stop'') (JObj [(''type'', JStr ''message_stop'')])])))
      | _ \<Rightarrow> None)"

definition google_content :: "json \<Rightarrow> json option" where
  "google_content data =
     Option.bind (jget data ''candidates'') (\<lambda>cands.
       if \<not> json_truthy cands then Some (JStr [])
       else Option.bind (Option.bind (Option.bind (first_of cands) (\<lambda>c. get_default c ''content'' (JObj [])))
              (\<lambda>c. jget c ''parts'')) (\<lambda>parts.
         if \<not> json_truthy parts then Some (JStr [])
         else Option.bind (first_of parts) (\<lambda>p. get_default p ''text'' (JStr []))))"

definition google_replay :: "json \<Rightarrow> sse_event list option" where
  "google_replay data = map_option (\<lambda>content.
     [Event None (JObj [(''candidates'', JArr [JObj [(''content'', JObj [(''parts'', JArr [JObj [(''text'', content)]])]),
        (''finishReason'', JStr ''STOP'')]])])]) (google_content data)"

text \<open>\<open>None\<close>: the generator raises while the client reads.\<close>

definition reconstruct_streaming_chunks :: "loads \<Rightarrow> json \<Rightarrow> string \<Rightarrow> string \<Rightarrow> sse_event list option" where
  "reconstruct_streaming_chunks loads now provider_name response_body =
     (case loads response_body of
        None \<Rightarrow> Some [Raw response_body]
      | Some data \<Rightarrow>
          if provider_name = ''openai'' then openai_replay now data
          else if provider_name = ''anthropic'' then anthropic_replay data
          else if provider_name = ''google'' then google_replay data
          else Some [Raw response_body])"

text \<open>The text that one payload adds; nothing when it raises.\<close>

definition delta_text :: "string \<Rightarrow> json \<Rightarrow> string" where
  "delta_text provider data =
     (let j = (if provider = ''openai'' then
                 Option.bind (jget data ''choices'') (\<lambda>ch. if \<not> json_truthy ch then Some JNull
                   else Option.bind (Option.bind (first_of ch) (\<lambda>c. jget c ''delta'')) (\<lambda>d. get_default (or_empty d) ''content'' (JStr [])))
               else if provider = ''anthropic'' then
                 (if dict_str data ''type'' = JStr ''content_block_delta''
                  then Option.bind (jget data ''delta'') (\<lambda>d. get_default (or_empty d) ''text'' (JStr [])) else Some JNull)
               else if provider = ''google'' then google_content data
               else Some JNull)
      in case j of Some (JStr s) \<Rightarrow> s | _ \<Rightarrow> [])"

definition chunk_text :: "loads \<Rightarrow> string \<Rightarrow> string \<Rightarrow> string" where
  "chunk_text loads provider chunk =
     (let l = strip chunk; payload = strip (drop 5 l)
      in if \<not> startswith l ''data:'' \<or> payload = [] \<or> payload = ''[DONE]'' then []
         else case loads payload of None \<Rightarrow> [] | Some data \<Rightarrow> delta_text provider data)"

definition stream_text :: "loads \<Rightarrow> string \<Rightarrow> string list \<Rightarrow> string" where
  "stream_text loads provider chunks = concat (map (chunk_text loads provider) chunks)"

definition complete_body :: "string \<Rightarrow> string \<Rightarrow> json option" where
  "complete_body provider txt =
     (if provider = ''openai'' then Some (JObj [(''choices'', JArr [JObj [(''message'',
          JObj [(''role'', JStr ''assistant''), (''content'', JStr txt)])]])])
      else if provider = ''anthropic'' then Some (JObj [(''content'', JArr [JObj [(''type'', JStr ''text''), (''text'', JStr txt)]])])
      else if provider = ''google'' then Some (JObj [(''candidates'', JArr [JObj [(''content'',
          JObj [(''parts'', JArr [JObj [(''text'', JStr txt)]])])]])])
      else None)"

definition reconstruct_complete_response_from_chunks :: "loads \<Rightarrow> (json \<Rightarrow> string) \<Rightarrow> string \<Rightarrow> string list \<Rightarrow> string" where
  "reconstruct_complete_response_from_chunks loads dumps provider chunks =
     (case complete_body provider (stream_text loads provider chunks) of None \<Rightarrow> [] | Some j \<Rightarrow> dumps j)"

text \<open>What \<open>_log_streaming_usage\<close> stores after a streamed answer: the body rebuilt from the events that
  the usage gate let through.\<close>

definition save_stream_to_cache ::
    "cache_env \<Rightarrow> loads \<Rightarrow> stream_plugin \<Rightarrow> instant \<Rightarrow> gw_request \<Rightarrow> tags \<Rightarrow> string \<Rightarrow> string \<Rightarrow> cache_row table \<Rightarrow> cache_row table" where
  "save_stream_to_cache env loads sp now q tg model raw_buffer t =
     (let body = reconstruct_complete_response_from_chunks loads (ce_dumps env) (name (pp_config (gq_provider q)))
                   (split_sse_events raw_buffer (Some (sp_should_buffer sp)))
      in if body = [] then t else save_to_cache_bg env now q tg model body t)"

section \<open>Lemmas\<close>

lemma best_row_member:
  "best_row rs b = (s, Some r) \<Longrightarrow> b = (s, Some r) \<or> (s, r) \<in> set rs"
  by (induction rs b rule: best_row.induct) (auto split: if_splits)

lemma scored_member: "(s, r) \<in> set (scored q rows) \<Longrightarrow> r \<in> set rows"
  by (auto simp: scored_def List.map_filter_def)

lemma cache_answerD:
  "cache_answer env row = Some (b, p, m) \<Longrightarrow> verify_integrity env row \<and> b = sc_response_body row \<and> p = sc_provider row \<and> m = sc_model row"
  by (auto simp: cache_answer_def split: if_splits)

definition justifies :: "cache_env \<Rightarrow> instant \<Rightarrow> string \<Rightarrow> string option \<Rightarrow> string \<times> string \<times> string \<Rightarrow> cache_row \<Rightarrow> bool" where
  "justifies env now system customer hit row \<longleftrightarrow>
     sc_system_prompt_hash row = system \<and> sc_customer_hash row = customer \<and> live now row \<and> verify_integrity env row
     \<and> hit = (sc_response_body row, sc_provider row, sc_model row)"

lemma lookup_exact_justified:
  "lookup_exact env now system query customer t = Some hit \<Longrightarrow> \<exists>row \<in> set t. justifies env now system customer hit row"
  by (cases hit) (auto simp: lookup_exact_def justifies_def split: option.splits dest!: find_Some_setD cache_answerD)

lemma best_match_member: "best_match np l = (s, Some r) \<Longrightarrow> (s, r) \<in> set l"
  by (cases l) (auto simp: best_match_def split: if_splits dest!: best_row_member)

lemma lookup_semantic_justified:
  assumes "lookup_semantic env now system e customer t = Some hit"
  shows "\<exists>row \<in> set t. justifies env now system customer hit row"
proof -
  let ?rows = "filter (\<lambda>r. sc_system_prompt_hash r = system \<and> sc_customer_hash r = customer \<and> live now r) t"
  let ?best = "best_match (ce_numpy env) (scored (normalize_vector e) ?rows)"
  obtain row where b: "snd ?best = Some row" and a: "cache_answer env row = Some hit"
    using assms by (auto simp: lookup_semantic_def Let_def split: if_splits option.splits)
  then have "?best = (fst ?best, Some row)" by (simp add: prod_eq_iff)
  from scored_member[OF best_match_member[OF this]] have "row \<in> set ?rows" .
  with a show ?thesis by (cases hit) (auto simp: justifies_def dest!: cache_answerD)
qed

lemma lower_ascii_lower: "lower_ascii s = lower_ascii s' \<Longrightarrow> lower s = lower s'"
proof -
  let ?a = "\<lambda>c. let k = of_char c :: nat in if 65 \<le> k \<and> k \<le> 90 then char_of (k + 32) else c"
  have "lower_char (?a c) = lower_char c" for c
  proof (cases "65 \<le> (of_char c :: nat) \<and> (of_char c :: nat) \<le> 90")
    case True
    then have "(of_char (char_of (of_char c + 32 :: nat)) :: nat) = of_char c + 32" by simp
    with True show ?thesis by (simp add: lower_char_def Let_def)
  qed (auto simp: Let_def)
  then have "lower (lower_ascii s) = lower s" for s by (simp add: lower_def lower_ascii_def)
  then show "lower_ascii s = lower_ascii s' \<Longrightarrow> lower s = lower s'" by metis
qed

lemma dropWhile_fixed: "s \<noteq> [] \<Longrightarrow> \<not> P (hd s) \<Longrightarrow> dropWhile P s = s"
  by (cases s) auto

lemma strip_fixed_iff: "strip s = s \<longleftrightarrow> s = [] \<or> \<not> is_py_space (hd s) \<and> \<not> is_py_space (last s)"
proof
  assume f: "strip s = s"
  show "s = [] \<or> \<not> is_py_space (hd s) \<and> \<not> is_py_space (last s)"
  proof (cases "s = []")
    case False
    have len: "length (strip s) \<le> length (dropWhile is_py_space s)" for s
      unfolding strip_def by (metis length_dropWhile_le length_rev)
    have h: "\<not> is_py_space (hd s)"
    proof
      assume "is_py_space (hd s)"
      with False have "length (dropWhile is_py_space s) < length s"
        by (cases s) (auto simp: le_imp_less_Suc length_dropWhile_le)
      with len[of s] f show False by simp
    qed
    then have "dropWhile is_py_space s = s" by (cases s) auto
    with f have "dropWhile is_py_space (rev s) = rev s" by (simp add: strip_def rev_swap)
    then have "\<not> is_py_space (hd (rev s))" using False by (metis hd_dropWhile rev_is_Nil_conv)
    with h False show ?thesis by (simp add: hd_rev)
  qed simp
next
  assume "s = [] \<or> \<not> is_py_space (hd s) \<and> \<not> is_py_space (last s)"
  then show "strip s = s" by (cases "s = []") (simp_all add: strip_def dropWhile_fixed hd_rev)
qed

lemma strip_frame:
  assumes "strip s = s" "s \<noteq> []" "\<forall>c \<in> set a. is_py_space c" "\<forall>c \<in> set b. is_py_space c"
  shows "strip (a @ s @ b) = s"
proof -
  have h: "\<not> is_py_space (hd s)" "\<not> is_py_space (last s)" using assms(1,2) by (auto simp: strip_fixed_iff)
  have "dropWhile is_py_space (a @ s @ b) = dropWhile is_py_space (s @ b)"
    using assms(3) by (intro dropWhile_append2) simp
  moreover have "dropWhile is_py_space (s @ b) = s @ b" using assms(2) h(1) by (cases s) simp_all
  moreover have "dropWhile is_py_space (rev b @ rev s) = dropWhile is_py_space (rev s)"
    using assms(4) by (intro dropWhile_append2) simp
  moreover have "dropWhile is_py_space (rev s) = rev s" by (rule dropWhile_fixed) (use assms(2) h(2) in \<open>simp_all add: hd_rev\<close>)
  ultimately show ?thesis by (simp add: strip_def)
qed

definition row_ids_ok :: "cache_env \<Rightarrow> cache_row table \<Rightarrow> bool" where
  "row_ids_ok env t \<longleftrightarrow> (\<forall>r \<in> set t. sc_id r = cache_id env (sc_system_prompt_hash r) (sc_customer_hash r) (sc_query_text r))"

lemma save_ids_ok: "row_ids_ok env t \<Longrightarrow> row_ids_ok env (save env now system query p m b e cust t)"
  by (auto simp: row_ids_ok_def save_def insert_or_replace_def)

lemma save_then_lookup:
  assumes "row_ids_ok env t" "lower_ascii query' = lower_ascii query" "body \<noteq> []"
    and "ce_ttl_seconds env \<noteq> 0 \<Longrightarrow> (now + ce_ttl_seconds env * 1000000) div 1000000 > now' div 1000000"
  shows "lookup_exact env now' system query' cust (save env now system query p m body e cust t) = Some (body, p, m)"
proof -
  let ?P = "\<lambda>r. sc_system_prompt_hash r = system \<and> lower_ascii (sc_query_text r) = lower_ascii query'
      \<and> sc_customer_hash r = cust \<and> live now' r"
  have "\<not> ?P r" if "r \<in> set t" "sc_id r \<noteq> cache_id env system cust query" for r
  proof
    assume P: "?P r"
    with assms(2) have "lower (sc_query_text r) = lower query" by (intro lower_ascii_lower) simp
    with that assms(1) P show False by (simp add: row_ids_ok_def cache_id_def)
  qed
  then have "find ?P (filter (\<lambda>r. sc_id r \<noteq> cache_id env system cust query) t) = None" by (auto simp: find_None_iff)
  with assms(2-4) show ?thesis
    by (auto simp: lookup_exact_def save_def insert_or_replace_def find_append live_def cache_answer_def verify_integrity_def)
qed

section \<open>Properties\<close>


text \<open>
  An answer, once saved, is served until it expires to every request with the same customer, system prompt
  and last user message (up to the case of letters), byte by byte as it was saved. The key holds neither the
  model nor the provider nor the earlier turns of the conversation, so the answer also goes to a request
  for another model, to another provider, or in another conversation.
\<close>

theorem saved_answer_served:
  assumes "row_ids_ok env t" "body \<noteq> []"
    and "ce_embedding env (extract_query_text (gq_body q) (name (pp_config (gq_provider q)))) = Some e" "e \<noteq> []"
    and "lower_ascii (extract_query_text (gq_body q') (name (pp_config (gq_provider q'))))
           = lower_ascii (extract_query_text (gq_body q) (name (pp_config (gq_provider q))))"
    and "system_key env (gq_body q') = system_key env (gq_body q)" "customer_hash env tg' = customer_hash env tg"
    and "ce_ttl_seconds env \<noteq> 0 \<longrightarrow> (now + ce_ttl_seconds env * 1000000) div 1000000 > now' div 1000000"
  shows "cache_probe env now' (save_to_cache_bg env now q tg model body t) q' tg'
    = Some (body, name (pp_config (gq_provider q)), model)"
proof -
  let ?query = "extract_query_text (gq_body q) (name (pp_config (gq_provider q)))"
  have "lookup_exact env now' (system_key env (gq_body q)) (extract_query_text (gq_body q') (name (pp_config (gq_provider q'))))
      (customer_hash env tg) (save env now (system_key env (gq_body q)) ?query (name (pp_config (gq_provider q))) model body e
        (customer_hash env tg) t) = Some (body, name (pp_config (gq_provider q)), model)"
    by (rule save_then_lookup[OF assms(1,5,2)]) (use assms(8) in simp)
  then show ?thesis using assms(3,4,6,7) by (simp add: cache_probe_def save_to_cache_bg_def Let_def)
qed

text \<open>
  A streamed answer of Anthropic is cached without its text: its events start with an event line, which the
  reconstruction skips, so the body that is stored, and served to every later request with the same key, is empty.
\<close>

theorem anthropic_stream_cached_empty:
  assumes "name (pp_config (gq_provider q)) = ''anthropic''"
    and "\<forall>c \<in> set (split_sse_events raw (Some (sp_should_buffer sp))). startswith (strip c) ''event:''"
    and "ce_dumps env (JObj [(''content'', JArr [JObj [(''type'', JStr ''text''), (''text'', JStr [])]])]) = empty_body"
    and "empty_body \<noteq> []" "row_ids_ok env t"
    and "ce_embedding env (extract_query_text (gq_body q) ''anthropic'') = Some e" "e \<noteq> []"
    and "ce_ttl_seconds env \<noteq> 0 \<longrightarrow> (now + ce_ttl_seconds env * 1000000) div 1000000 > now' div 1000000"
  shows "cache_probe env now' (save_stream_to_cache env loads sp now q tg model raw t) q tg
    = Some (empty_body, ''anthropic'', model)"
proof -
  have "chunk_text loads ''anthropic'' c = []" if "startswith (strip c) ''event:''" for c
    using that by (auto simp: chunk_text_def Let_def startswith_iff)
  with assms(2) have "stream_text loads ''anthropic'' (split_sse_events raw (Some (sp_should_buffer sp))) = []"
    by (simp add: stream_text_def)
  then have "reconstruct_complete_response_from_chunks loads (ce_dumps env) ''anthropic''
      (split_sse_events raw (Some (sp_should_buffer sp))) = empty_body"
    using assms(3) by (simp add: reconstruct_complete_response_from_chunks_def complete_body_def)
  then have "save_stream_to_cache env loads sp now q tg model raw t = save_to_cache_bg env now q tg model empty_body t"
    using assms(1,4) by (simp add: save_stream_to_cache_def)
  moreover have "cache_probe env now' (save_to_cache_bg env now q tg model empty_body t) q tg
      = Some (empty_body, name (pp_config (gq_provider q)), model)"
    by (rule saved_answer_served[OF assms(5,4) _ assms(7)]) (use assms(1,6,8) in simp_all)
  ultimately show ?thesis using assms(1) by simp
qed

text \<open>
  A replayed stream carries the text of the cached body: reading the events that are made of an OpenAI or
  Google body back as a stream gives the body's text.
\<close>

theorem replay_roundtrip:
  assumes "reconstruct_streaming_chunks loads now provider body = Some events" "loads body = Some data"
    and "provider = ''openai'' \<and> openai_content data = Some (JStr s) \<or> provider = ''google'' \<and> google_content data = Some (JStr s)"
    and "\<forall>n j. Event n j \<in> set events \<longrightarrow> loads (dumps j) = Some j \<and> strip (dumps j) = dumps j \<and> dumps j \<notin> {[], ''[DONE]''}"
  shows "stream_text loads provider (map (render_event dumps) events) = s"
proof -
  have ev: "chunk_text loads provider (render_event dumps (Event None j)) = delta_text provider j"
    if "Event None j \<in> set events" for j
  proof -
    have d: "loads (dumps j) = Some j" "strip (dumps j) = dumps j" "dumps j \<notin> {[], ''[DONE]''}"
      using assms(4) that by auto
    have "strip (''data: '' @ dumps j) = ''data: '' @ dumps j"
      using d by (auto simp: strip_fixed_iff is_py_space_def)
    then have "strip (render_event dumps (Event None j)) = ''data: '' @ dumps j"
      using strip_frame[of "''data: '' @ dumps j" "[]" "[CHR 0x0A, CHR 0x0A]"]
      by (simp add: render_event_def is_py_space_def)
    moreover have "strip ('' '' @ dumps j) = dumps j"
      using d strip_frame[of "dumps j" "'' ''" "[]"] by (simp add: is_py_space_def)
    ultimately show ?thesis using d by (simp add: chunk_text_def Let_def)
  qed
  have fin: "chunk_text loads provider (render_event dumps Done) = []"
    by (simp add: chunk_text_def render_event_def strip_def is_py_space_def)
  show ?thesis
  proof (cases "provider = ''openai''")
    case True
    then obtain d where "data = JObj d" and c: "openai_content data = Some (JStr s)"
      and evs: "openai_replay now data = Some events"
      using assms(1-3) by (cases data) (auto simp: reconstruct_streaming_chunks_def openai_replay_def)
    moreover have "delta_text ''openai'' (openai_chunk d now (JObj [(''content'', JStr s)]) JNull) = s"
      and "delta_text ''openai'' (openai_chunk d now (JObj [(''role'', j)]) JNull) = []"
      and "delta_text ''openai'' (openai_chunk d now (JObj []) fr) = []" for d s j fr
      by (simp_all add: delta_text_def openai_chunk_def get_or_def first_of_def get_default_def or_empty_def)
    ultimately show ?thesis using ev fin True
      by (auto simp: openai_replay_def stream_text_def split: if_splits)
  next
    case False
    then have p: "provider = ''google''" and c: "google_content data = Some (JStr s)" using assms(3) by auto
    have "delta_text ''google'' (JObj [(''candidates'', JArr [JObj [(''content'', JObj [(''parts'', JArr [JObj [(''text'', JStr s)]])]), x]])]) = s" for x
      by (simp add: delta_text_def google_content_def first_of_def get_default_def get_or_def)
    then show ?thesis using assms(1,2) ev p c
      by (auto simp: reconstruct_streaming_chunks_def google_replay_def stream_text_def)
  qed
qed

text \<open>The signature protects only rows that have one: a row without signature is served under any secret.\<close>

lemma unsigned_row_accepted:
  "sc_signature row = None \<Longrightarrow> sc_response_hash row = Some (ce_sha256 env (sc_response_body row)) \<Longrightarrow> sc_response_body row \<noteq> [] \<Longrightarrow>
   verify_integrity env row"
  by (simp add: verify_integrity_def)

section \<open>Witnesses\<close>

definition demo_cache_env :: cache_env where
  "demo_cache_env = \<lparr>ce_sha256 = (@) ''h'', ce_hmac = (@), ce_dumps = (\<lambda>j. ''{}''), ce_secret = Some ''k'', ce_numpy = True,
     ce_embedding = (\<lambda>s. Some [1]), ce_threshold = 96 / 100, ce_ttl_seconds = 60\<rparr>"

definition chat :: "provider_plugin \<Rightarrow> (string \<times> string) list \<Rightarrow> gw_request" where
  "chat p turns = \<lparr>gq_provider = p, gq_path = ''/v1/chat'', gq_method = ''POST'', gq_headers = [], gq_query = [],
     gq_body = Some (JObj [(''messages'', JArr (map (\<lambda>(r, t). JObj [(''role'', JStr r), (''content'', JStr t)]) turns))])\<rparr>"

lemma chat_keys:
  "name (pp_config (gq_provider (chat openai_provider ts))) = ''openai''"
  "name (pp_config (gq_provider (chat anthropic_provider ts))) = ''anthropic''"
  "extract_query_text (gq_body (chat p [(''user'', t)])) ''openai'' = t"
  "extract_query_text (gq_body (chat p [(''user'', t)])) ''anthropic'' = t"
  "extract_query_text (gq_body (chat p [(''user'', a), (''assistant'', b), (''user'', t)])) ''anthropic'' = t"
  "system_key demo_cache_env (gq_body (chat p [(''user'', t)])) = []"
  "system_key demo_cache_env (gq_body (chat p [(''user'', a), (''assistant'', b), (''user'', t)])) = []"
  by (simp_all add: chat_def extract_query_text_def chat_query_text_def dict_str_def get_or_def system_key_def
      hash_system_prompt_def openai_provider_def openai_config_def anthropic_provider_def)

lemma demo_cache_simps [simp]:
  "ce_embedding demo_cache_env s = Some [1]" "ce_ttl_seconds demo_cache_env = 60" "ce_dumps demo_cache_env j = ''{}''"
  "row_ids_ok env []"
  by (simp_all add: demo_cache_env_def row_ids_ok_def)

theorem saved_answer_served_witness:
  "cache_probe demo_cache_env 5
     (save_to_cache_bg demo_cache_env 0 (chat openai_provider [(''user'', ''yes'')]) Map.empty ''gpt-4o'' ''answer'' [])
     (chat anthropic_provider [(''user'', ''delete it?''), (''assistant'', ''sure?''), (''user'', ''Yes'')]) Map.empty
   = Some (''answer'', ''openai'', ''gpt-4o'')"
proof -
  have "lower_ascii ''Yes'' = lower_ascii ''yes''" by code_simp
  then show ?thesis
    using saved_answer_served[of demo_cache_env "[]" "''answer''" "chat openai_provider [(''user'', ''yes'')]" "[1]"
        "chat anthropic_provider [(''user'', ''delete it?''), (''assistant'', ''sure?''), (''user'', ''Yes'')]"
        Map.empty Map.empty 5 0 "''gpt-4o''"]
    by (simp add: chat_keys)
qed


theorem anthropic_stream_cached_empty_witness:
  "cache_probe demo_cache_env 5
     (save_stream_to_cache demo_cache_env (\<lambda>s. None) (anthropic_stream (\<lambda>s. None)) 0 (chat anthropic_provider [(''user'', ''q'')])
        Map.empty ''claude'' (''event: message_start'' @ [CHR 0x0A] @ ''data: x'') [])
     (chat anthropic_provider [(''user'', ''q'')]) Map.empty = Some (''{}'', ''anthropic'', ''claude'')"
proof (rule anthropic_stream_cached_empty[where e = "[1]"])
  have "split_sse_events (''event: message_start'' @ [CHR 0x0A] @ ''data: x'') (Some anthropic_should_buffer)
      = [''event: message_start'' @ [CHR 0x0A] @ ''data: x'' @ [CHR 0x0A, CHR 0x0A]]" by code_simp
  moreover have "startswith (strip (''event: message_start'' @ [CHR 0x0A] @ ''data: x'' @ [CHR 0x0A, CHR 0x0A])) ''event:''"
    by code_simp
  ultimately show "\<forall>c \<in> set (split_sse_events (''event: message_start'' @ [CHR 0x0A] @ ''data: x'')
      (Some (sp_should_buffer (anthropic_stream (\<lambda>s. None))))). startswith (strip c) ''event:''"
    by (simp add: anthropic_stream_def)
qed (simp_all add: chat_keys)

definition demo_body :: json where
  "demo_body = JObj [(''candidates'', JArr [JObj [(''content'', JObj [(''parts'', JArr [JObj [(''text'', JStr ''hi'')]])])]])]"

theorem replay_roundtrip_witness:
  "\<exists>events. reconstruct_streaming_chunks (\<lambda>s. if s = ''b'' then Some demo_body
       else Some (JObj [(''candidates'', JArr [JObj [(''content'', JObj [(''parts'', JArr [JObj [(''text'', JStr ''hi'')]])]),
          (''finishReason'', JStr ''STOP'')]])])) (JInt 0) ''google'' ''b'' = Some events
   \<and> stream_text (\<lambda>s. if s = ''b'' then Some demo_body
       else Some (JObj [(''candidates'', JArr [JObj [(''content'', JObj [(''parts'', JArr [JObj [(''text'', JStr ''hi'')]])]),
          (''finishReason'', JStr ''STOP'')]])])) ''google'' (map (render_event (\<lambda>j. ''e'')) events) = ''hi''"
proof -
  let ?ev = "JObj [(''candidates'', JArr [JObj [(''content'', JObj [(''parts'', JArr [JObj [(''text'', JStr ''hi'')]])]),
          (''finishReason'', JStr ''STOP'')]])]"
  let ?loads = "\<lambda>s. if s = ''b'' then Some demo_body else Some ?ev"
  have c: "google_content demo_body = Some (JStr ''hi'')"
    by code_simp
  have r: "reconstruct_streaming_chunks ?loads (JInt 0) ''google'' ''b'' = Some [Event None ?ev]"
    by (simp add: reconstruct_streaming_chunks_def google_replay_def c)
  have "stream_text ?loads ''google'' (map (render_event (\<lambda>j. ''e'')) [Event None ?ev]) = ''hi''"
    by (rule replay_roundtrip[OF r]) (simp_all add: strip_fixed_iff is_py_space_def, (simp only: c)?)
  with r show ?thesis by blast
qed

end
