(* ===== verification/Request_Links.thy ===== *)
theory Request_Links
  imports Cost Ledger
begin

text \<open>
  The causal links between requests (\<open>storage/database.py\<close>: \<open>_REQUEST_LINKS_SQL\<close>,
  \<open>_validate_request_relationships\<close>, \<open>insert_request\<close>). A record may name the event it was
  caused by, the one it retries and the one it falls back from; before it is inserted, links that are
  malformed or would close a cycle are dropped, the record itself never. The recursive queries over these
  links, and those over the tree of agent runs, are instances of one definition, \<open>recursive_rows\<close>: the
  \<open>WITH RECURSIVE ... UNION\<close> of SQL.
\<close>

section \<open>Recursive queries\<close>

text \<open>
  The rows of a recursive query in the order they are taken from the queue. \<open>possible\<close> lists the rows that can
  occur at all; it only bounds the recursion.
\<close>

function recursive_rows :: "('a \<Rightarrow> 'a list) \<Rightarrow> 'a list \<Rightarrow> 'a list \<Rightarrow> 'a list \<Rightarrow> 'a list" where
  "recursive_rows next possible seen [] = seen"
| "recursive_rows next possible seen (x # queue) =
     (if x \<in> set seen \<or> x \<notin> set possible then recursive_rows next possible seen queue
      else recursive_rows next possible (seen @ [x]) (queue @ next x))"
  by pat_completeness auto

termination
proof (relation "measures [\<lambda>(next, possible, seen, queue). Finite_Set.card (set possible - set seen), \<lambda>(next, possible, seen, queue). length queue]",
    goal_cases)
  case (3 "next" possible seen x queue)
  then have "set possible - set (seen @ [x]) \<subset> set possible - set seen" by auto
  then show ?case by (simp add: psubset_card_mono)
qed auto

definition closed_under :: "('a \<Rightarrow> 'a list) \<Rightarrow> 'a list \<Rightarrow> bool" where
  "closed_under next possible \<longleftrightarrow> (\<forall>x \<in> set possible. set (next x) \<subseteq> set possible)"

definition step_rel :: "('a \<Rightarrow> 'a list) \<Rightarrow> ('a \<times> 'a) set" where
  "step_rel next = {(x, y). y \<in> set (next x)}"

lemma recursive_rows_invariant:
  assumes "closed_under next possible" "set queue \<subseteq> set possible"
    and "\<forall>x \<in> set seen. set (next x) \<subseteq> set seen \<union> set queue"
  shows "set (recursive_rows next possible seen queue) = (step_rel next)\<^sup>* `` (set seen \<union> set queue)"
  using assms
proof (induction "next" possible seen queue rule: recursive_rows.induct)
  case (1 "next" possible seen)
  then have "step_rel next `` set seen \<subseteq> set seen" by (auto simp: step_rel_def)
  then have "(step_rel next)\<^sup>* `` set seen = set seen" by (rule Image_closed_trancl)
  then show ?case by simp
next
  case (2 "next" possible seen x queue)
  show ?case
  proof (cases "x \<in> set seen \<or> x \<notin> set possible")
    case True
    then have "x \<in> set seen" using 2(4) by auto
    then show ?thesis using 2(1)[OF True] 2(3-5) by (simp add: insert_absorb)
  next
    case False
    have sub: "set (queue @ next x) \<subseteq> set possible" using False 2(3,4) by (auto simp: closed_under_def)
    have inv: "\<forall>y \<in> set (seen @ [x]). set (next y) \<subseteq> set (seen @ [x]) \<union> set (queue @ next x)"
      using 2(5) by auto
    have "(step_rel next)\<^sup>* `` (set seen \<union> set (x # queue) \<union> set (next x))
        = (step_rel next)\<^sup>* `` (set seen \<union> set (x # queue))"
    proof (intro equalityI subsetI)
      fix y assume "y \<in> (step_rel next)\<^sup>* `` (set seen \<union> set (x # queue) \<union> set (next x))"
      then obtain z where z: "z \<in> set seen \<union> set (x # queue) \<union> set (next x)" "(z, y) \<in> (step_rel next)\<^sup>*" by auto
      show "y \<in> (step_rel next)\<^sup>* `` (set seen \<union> set (x # queue))"
      proof (cases "z \<in> set (next x)")
        case True
        then have "(x, y) \<in> (step_rel next)\<^sup>*"
          using z(2) by (auto simp: step_rel_def intro: converse_rtrancl_into_rtrancl)
        then show ?thesis by auto
      qed (use z in auto)
    qed auto
    then show ?thesis using 2(2)[OF False 2(3) sub inv] False by (simp add: Un_ac)
  qed
qed

text \<open>A recursive query returns exactly what its step relation reaches, whatever cycles the rows form.\<close>

lemma recursive_rows_reach:
  "closed_under next possible \<Longrightarrow> set start \<subseteq> set possible \<Longrightarrow>
   set (recursive_rows next possible [] start) = (step_rel next)\<^sup>* `` set start"
  using recursive_rows_invariant[of "next" possible start "[]"] by simp

lemma recursive_rows_distinct:
  "distinct seen \<Longrightarrow> distinct (recursive_rows next possible seen queue)"
  by (induction "next" possible seen queue rule: recursive_rows.induct) auto

section \<open>Rows and links\<close>

record econ_row = request_row +
  eq_event_id :: string
  eq_workspace :: "string option"
  eq_source :: string
  eq_trace_id :: "string option"
  eq_request_id :: "string option"
  eq_pricing_class :: "string option"
  eq_input_tokens :: int
  eq_output_tokens :: int
  eq_reasoning_tokens :: int
  eq_cache_read_tokens :: int
  eq_cache_saved_usd :: usd
  eq_tool_calls :: int
  eq_agent_id :: "string option"
  eq_workflow_id :: "string option"
  eq_workflow_run_id :: "string option"
  eq_run_id :: "string option"
  eq_task_id :: "string option"
  eq_action_id :: "string option"
  eq_parent_run_id :: "string option"
  eq_parent_event_id :: "string option"
  eq_retry_of_event_id :: "string option"
  eq_fallback_of_event_id :: "string option"

datatype link_kind = Parent_event | Retry_of | Fallback_of

definition REQUEST_RELATION_FIELDS :: "link_kind list" where
  "REQUEST_RELATION_FIELDS = [Parent_event, Retry_of, Fallback_of]"

definition relation_target :: "link_kind \<Rightarrow> econ_row \<Rightarrow> string option" where
  "relation_target k r =
     (case k of Parent_event \<Rightarrow> eq_parent_event_id r | Retry_of \<Rightarrow> eq_retry_of_event_id r
      | Fallback_of \<Rightarrow> eq_fallback_of_event_id r)"

definition clear_relation :: "link_kind \<Rightarrow> econ_row \<Rightarrow> econ_row" where
  "clear_relation k r =
     (case k of Parent_event \<Rightarrow> r\<lparr>eq_parent_event_id := None\<rparr> | Retry_of \<Rightarrow> r\<lparr>eq_retry_of_event_id := None\<rparr>
      | Fallback_of \<Rightarrow> r\<lparr>eq_fallback_of_event_id := None\<rparr>)"

type_synonym link = "string \<times> string \<times> link_kind"

definition request_links :: "string \<Rightarrow> econ_row table \<Rightarrow> link list" where
  "request_links ws t =
     concat (map (\<lambda>k. List.map_filter (\<lambda>r. map_option (\<lambda>x. (eq_event_id r, x, k)) (relation_target k r))
                        (filter (\<lambda>r. eq_workspace r = Some ws) t)) REQUEST_RELATION_FIELDS)"

definition targets_of :: "link list \<Rightarrow> string \<Rightarrow> string list" where
  "targets_of ls x = map (\<lambda>(s, x', k). x') (filter (\<lambda>(s, x', k). s = x) ls)"

definition walk :: "link list \<Rightarrow> string \<Rightarrow> string list" where
  "walk ls target = recursive_rows (targets_of ls) (target # map (\<lambda>(s, x, k). x) ls) [] [target]"

section \<open>Validation and insertion\<close>

definition malformed_target :: "string \<Rightarrow> bool" where
  "malformed_target x \<longleftrightarrow>
     x = [] \<or> length x > 128 \<or> list_ex (\<lambda>c. let n = of_char c :: nat in n < 32 \<or> (127 \<le> n \<and> n \<le> 159)) x"

definition relation_conflict :: "econ_row \<Rightarrow> bool" where
  "relation_conflict r \<longleftrightarrow> truthy (eq_retry_of_event_id r) \<and> truthy (eq_fallback_of_event_id r)"

definition relation_invalid :: "econ_row table \<Rightarrow> bool \<Rightarrow> econ_row \<Rightarrow> link_kind \<Rightarrow> string \<Rightarrow> bool" where
  "relation_invalid t conflicting r k target =
     (malformed_target target \<or> target = eq_event_id r \<or> (conflicting \<and> k \<noteq> Parent_event)
      \<or> (truthy (eq_workspace r) \<and> eq_event_id r \<in> set (walk (request_links (the (eq_workspace r)) t) target)))"

definition validate_field :: "econ_row table \<Rightarrow> bool \<Rightarrow> link_kind \<Rightarrow> econ_row \<Rightarrow> econ_row" where
  "validate_field t conflicting k r =
     (case relation_target k r of None \<Rightarrow> r
      | Some target \<Rightarrow> if relation_invalid t conflicting r k target then clear_relation k r else r)"

definition validate_request_relationships :: "econ_row table \<Rightarrow> econ_row \<Rightarrow> econ_row" where
  "validate_request_relationships t r = fold (validate_field t (relation_conflict r)) REQUEST_RELATION_FIELDS r"

definition or_tag :: "econ_row \<Rightarrow> string \<Rightarrow> string option \<Rightarrow> string option" where
  "or_tag r k v = (let x = py_or v (rq_tags r k) in if truthy x then x else None)"

definition pricing_class_name :: "pricing_class \<Rightarrow> string" where
  "pricing_class_name c = (case c of Unpriced \<Rightarrow> ''unpriced'' | Calculated \<Rightarrow> ''calculated'' | Estimated \<Rightarrow> ''estimated'')"

definition stored_columns :: "price_env \<Rightarrow> econ_row \<Rightarrow> econ_row" where
  "stored_columns env r =
     r\<lparr>eq_pricing_class := (if truthy (eq_pricing_class r) then eq_pricing_class r
          else Some (pricing_class_name (pricing_class_for env (rq_provider r) (rq_model r) (Some (eq_source r))))),
       rq_key_label := (if truthy (rq_tags r ''key_label'') then rq_tags r ''key_label'' else None),
       eq_agent_id := or_tag r ''agent_id'' (eq_agent_id r),
       eq_workflow_id := or_tag r ''workflow_id'' (eq_workflow_id r),
       eq_workflow_run_id := or_tag r ''workflow_run_id'' (eq_workflow_run_id r),
       eq_run_id := or_tag r ''run_id'' (eq_run_id r),
       eq_task_id := or_tag r ''task_id'' (eq_task_id r),
       eq_action_id := or_tag r ''action_id'' (eq_action_id r),
       eq_parent_run_id := or_tag r ''parent_run_id'' (eq_parent_run_id r)\<rparr>"

text \<open>
  The two unique indexes of the table: the event identifier, and source and request identifier of the rows
  whose source is \<open>LIKE 'scan_%'\<close> (the underscore is a wildcard).
\<close>

definition scan_key :: "econ_row \<Rightarrow> (string \<times> string) option" where
  "scan_key r =
     (if startswith (lower (eq_source r)) ''scan'' \<and> length (eq_source r) > 4
      then map_option (Pair (eq_source r)) (eq_request_id r) else None)"

definition duplicate_row :: "econ_row table \<Rightarrow> econ_row \<Rightarrow> bool" where
  "duplicate_row t r \<longleftrightarrow>
     eq_event_id r \<in> eq_event_id ` set t \<or> (scan_key r \<noteq> None \<and> scan_key r \<in> scan_key ` set t)"

text \<open>\<open>fresh\<close> is the identifier \<open>uuid7\<close> generates; it is used for a record that has none.\<close>

definition assign_event_id :: "string \<Rightarrow> econ_row \<Rightarrow> econ_row" where
  "assign_event_id fresh r = (if eq_event_id r = [] then r\<lparr>eq_event_id := fresh\<rparr> else r)"

definition insert_request :: "price_env \<Rightarrow> string \<Rightarrow> econ_row \<Rightarrow> econ_row table \<Rightarrow> econ_row table" where
  "insert_request env fresh r0 t =
     (let r1 = assign_event_id fresh r0;
          r = (if list_ex (\<lambda>k. relation_target k r1 \<noteq> None) REQUEST_RELATION_FIELDS
               then validate_request_relationships t r1 else r1)
      in if duplicate_row t r then t else t @ [stored_columns env r])"


section \<open>Lemmas\<close>

definition link_rel :: "string \<Rightarrow> econ_row table \<Rightarrow> (string \<times> string) set" where
  "link_rel ws t = {(s, x). \<exists>k. (s, x, k) \<in> set (request_links ws t)}"

lemma walk_reach: "set (walk ls x) = {(s, y). \<exists>k. (s, y, k) \<in> set ls}\<^sup>* `` {x}"
proof -
  have rel: "step_rel (targets_of ls) = {(s, y). \<exists>k. (s, y, k) \<in> set ls}"
    by (force simp: step_rel_def targets_of_def)
  have closed: "closed_under (targets_of ls) (x # map (\<lambda>(s, x, k). x) ls)"
    by (force simp: closed_under_def targets_of_def)
  show ?thesis using recursive_rows_reach[OF closed, of "[x]"] by (simp add: walk_def rel)
qed

lemma set_map_filter: "y \<in> set (List.map_filter f xs) \<longleftrightarrow> (\<exists>x \<in> set xs. f x = Some y)"
  by (force simp: List.map_filter_def)

lemma all_kinds: "set REQUEST_RELATION_FIELDS = UNIV"
  by (auto simp: REQUEST_RELATION_FIELDS_def) (metis link_kind.exhaust)

lemma set_request_links:
  "(s, x, k) \<in> set (request_links ws t) \<longleftrightarrow>
     (\<exists>r \<in> set t. eq_workspace r = Some ws \<and> eq_event_id r = s \<and> relation_target k r = Some x)"
  by (force simp: request_links_def all_kinds List.map_filter_def split: option.splits)

lemma link_rel_snoc:
  "link_rel ws (t @ [r]) = link_rel ws t
     \<union> (if eq_workspace r = Some ws then {eq_event_id r} \<times> {x. \<exists>k. relation_target k r = Some x} else {})"
  by (auto simp: link_rel_def set_request_links)

lemma clear_relation_simps [simp]:
  "relation_target k (clear_relation k' r) = (if k = k' then None else relation_target k r)"
  "eq_event_id (clear_relation k' r) = eq_event_id r"
  "eq_workspace (clear_relation k' r) = eq_workspace r"
  "scan_key (clear_relation k' r) = scan_key r"
  "request_row.truncate (clear_relation k' r) = request_row.truncate r"
  by (cases k; cases k'; simp add: clear_relation_def relation_target_def scan_key_def request_row.truncate_def; fail)+

lemma relation_invalid_clear [simp]:
  "relation_invalid t c (clear_relation k' r) k x = relation_invalid t c r k x"
  by (simp add: relation_invalid_def)

lemma validate_field_simps [simp]:
  "eq_event_id (validate_field t c k r) = eq_event_id r"
  "eq_workspace (validate_field t c k r) = eq_workspace r"
  "scan_key (validate_field t c k r) = scan_key r"
  "request_row.truncate (validate_field t c k r) = request_row.truncate r"
  "relation_invalid t c' (validate_field t c k' r) k x = relation_invalid t c' r k x"
  by (simp_all add: validate_field_def relation_invalid_def split: option.split)

definition kept_target :: "econ_row table \<Rightarrow> econ_row \<Rightarrow> link_kind \<Rightarrow> string option" where
  "kept_target t r k =
     (case relation_target k r of None \<Rightarrow> None
      | Some x \<Rightarrow> if relation_invalid t (relation_conflict r) r k x then None else Some x)"

lemma target_validate_field:
  "relation_target k (validate_field t c k' r) =
     (if k = k' then (case relation_target k r of None \<Rightarrow> None | Some x \<Rightarrow> if relation_invalid t c r k x then None else Some x)
      else relation_target k r)"
  by (auto simp: validate_field_def split: option.split)

lemma validated_targets: "relation_target k (validate_request_relationships t r) = kept_target t r k"
  by (cases k) (simp_all add: validate_request_relationships_def REQUEST_RELATION_FIELDS_def kept_target_def
      target_validate_field split: option.split)

lemma validated_simps [simp]:
  "eq_event_id (validate_request_relationships t r) = eq_event_id r"
  "eq_workspace (validate_request_relationships t r) = eq_workspace r"
  "scan_key (validate_request_relationships t r) = scan_key r"
  "request_row.truncate (validate_request_relationships t r) = request_row.truncate r"
  by (simp_all add: validate_request_relationships_def REQUEST_RELATION_FIELDS_def)

lemma stored_columns_simps [simp]:
  "relation_target k (stored_columns env r) = relation_target k r"
  "eq_event_id (stored_columns env r) = eq_event_id r"
  "eq_workspace (stored_columns env r) = eq_workspace r"
  "rq_cost_usd (stored_columns env r) = rq_cost_usd r"
  by (cases k; simp add: stored_columns_def relation_target_def; fail) (simp_all add: stored_columns_def)

lemma insert_request_cases:
  fixes r0 :: econ_row and fresh :: string
  defines "r \<equiv> assign_event_id fresh r0"
  obtains "insert_request env fresh r0 t = t" "duplicate_row t r"
  | row where "insert_request env fresh r0 t = t @ [row]" "\<not> duplicate_row t r" "eq_event_id row = eq_event_id r"
      "eq_workspace row = eq_workspace r" "\<And>k. relation_target k row = kept_target t r k"
      "rq_cost_usd row = rq_cost_usd r0"
proof -
  let ?any = "list_ex (\<lambda>k. relation_target k r \<noteq> None) REQUEST_RELATION_FIELDS"
  let ?v = "if ?any then validate_request_relationships t r else r"
  have none: "relation_target k r = None" if "\<not> ?any" for k
    using that by (cases k) (auto simp: REQUEST_RELATION_FIELDS_def)
  have eq: "insert_request env fresh r0 t = (if duplicate_row t ?v then t else t @ [stored_columns env ?v])"
    unfolding insert_request_def r_def Let_def by (rule refl)
  have "rq_cost_usd ?v = rq_cost_usd r0"
  proof -
    have "rq_cost_usd (request_row.truncate ?v) = rq_cost_usd (request_row.truncate r)" by simp
    then show ?thesis by (simp add: request_row.truncate_def r_def assign_event_id_def split: if_splits)
  qed
  then have cost: "rq_cost_usd (stored_columns env ?v) = rq_cost_usd r0" by simp
  have "relation_target k ?v = kept_target t r k" for k
  proof (cases ?any)
    case False
    then show ?thesis using none[OF False, of k] by (simp only: if_False kept_target_def option.case)
  qed (simp only: if_True validated_targets)
  then have targets: "\<And>k. relation_target k (stored_columns env ?v) = kept_target t r k"
    by (simp only: stored_columns_simps)
  have keys: "eq_event_id (stored_columns env ?v) = eq_event_id r" "eq_workspace (stored_columns env ?v) = eq_workspace r"
    by (simp_all add: if_distrib[of eq_event_id] if_distrib[of eq_workspace])
  have dup: "duplicate_row t ?v = duplicate_row t r" by (simp add: duplicate_row_def)
  show thesis
  proof (cases "duplicate_row t ?v")
    case True
    with eq dup show ?thesis by (intro that(1)) simp_all
  next
    case False
    with eq have "insert_request env fresh r0 t = t @ [stored_columns env ?v]" by (simp only: if_False)
    from that(2)[OF this False[unfolded dup] keys targets cost] show ?thesis .
  qed
qed

lemma acyclic_new_source:
  assumes "acyclic R" "\<And>x. x \<in> X \<Longrightarrow> (x, e) \<notin> R\<^sup>*"
  shows "acyclic (R \<union> {e} \<times> X)"
proof (rule acyclicI, intro allI notI)
  have path: "(a, b) \<in> R\<^sup>+ \<or> (a, e) \<in> R\<^sup>* \<and> (\<exists>x \<in> X. (x, b) \<in> R\<^sup>*)" if "(a, b) \<in> (R \<union> {e} \<times> X)\<^sup>+" for a b
    using that
  proof induction
    case (base b)
    then show ?case by auto
  next
    case (step b c)
    show ?case
    proof (cases "(b, c) \<in> R")
      case True
      with step.IH show ?thesis by (meson rtrancl.rtrancl_into_rtrancl trancl.trancl_into_trancl)
    next
      case False
      then have "b = e" "c \<in> X" using step.hyps(2) by auto
      with step.IH assms(2) show ?thesis by (meson rtrancl.rtrancl_refl trancl_into_rtrancl)
    qed
  qed
  fix a assume "(a, a) \<in> (R \<union> {e} \<times> X)\<^sup>+"
  from path[OF this] show False
    using assms by (meson acyclic_def rtrancl_trans)
qed

lemma kept_targetD:
  "kept_target t r k = Some x \<longleftrightarrow> relation_target k r = Some x \<and> \<not> relation_invalid t (relation_conflict r) r k x"
  by (auto simp: kept_target_def split: option.splits)

lemma relation_invalid_iff:
  "relation_invalid t c r k x \<longleftrightarrow> malformed_target x \<or> x = eq_event_id r \<or> (c \<and> k \<noteq> Parent_event)
     \<or> (truthy (eq_workspace r) \<and> (x, eq_event_id r) \<in> (link_rel (the (eq_workspace r)) t)\<^sup>*)"
  by (simp add: relation_invalid_def walk_reach link_rel_def)

lemma insert_request_acyclic:
  assumes "acyclic (link_rel ws t)" "ws \<noteq> []"
  shows "acyclic (link_rel ws (insert_request env fresh r0 t))"
proof (cases rule: insert_request_cases[of env fresh r0 t])
  case (2 row)
  have "acyclic (link_rel ws t \<union> {eq_event_id row} \<times> {x. \<exists>k. relation_target k row = Some x})"
    if w: "eq_workspace row = Some ws"
  proof (rule acyclic_new_source[OF assms(1)])
    fix x assume "x \<in> {x. \<exists>k. relation_target k row = Some x}"
    then show "(x, eq_event_id row) \<notin> (link_rel ws t)\<^sup>*"
      using w assms(2) 2(3-5) by (auto simp: kept_targetD relation_invalid_iff truthy_def)
  qed
  with assms(1) show ?thesis by (simp add: 2(1) link_rel_snoc)
qed (use assms in simp)

section \<open>Properties\<close>

text \<open>C24: 
  The recorded causal links of a workspace never form a cycle, in whatever order the records arrive and
  whatever their links claim: a request is never, through any chain of causes, retries and fallbacks, its
  own cause.
\<close>

theorem links_stay_acyclic:
  assumes "acyclic (link_rel ws t)" "ws \<noteq> []"
  shows "acyclic (link_rel ws (fold (\<lambda>(fresh, r). insert_request env fresh r) records t))"
  using assms by (induction records arbitrary: t) (auto intro: insert_request_acyclic)

text \<open>
  A record is never refused for its links: unless its event or scan identifier is known, its row is appended
  with its cost, and exactly those links are kept that are well formed, point to another event, are not
  both a retry and a fallback, and do not lead back to the record.
\<close>

theorem rows_kept_despite_links:
  assumes "eq_event_id r \<noteq> []" "\<not> duplicate_row t r"
  shows "\<exists>row. insert_request env fresh r t = t @ [row] \<and> rq_cost_usd row = rq_cost_usd r \<and>
    (\<forall>k x. relation_target k row = Some x \<longleftrightarrow>
       relation_target k r = Some x \<and> \<not> malformed_target x \<and> x \<noteq> eq_event_id r
       \<and> (k = Parent_event \<or> \<not> relation_conflict r)
       \<and> (truthy (eq_workspace r) \<longrightarrow> (x, eq_event_id r) \<notin> (link_rel (the (eq_workspace r)) t)\<^sup>*))"
proof (cases rule: insert_request_cases[of env fresh r t])
  case (2 row)
  have r: "assign_event_id fresh r = r" using assms(1) by (simp add: assign_event_id_def)
  show ?thesis
    using 2(1,5,6) by (intro exI[of _ row]) (auto simp: r kept_targetD relation_invalid_iff)
qed (use assms in \<open>simp add: assign_event_id_def\<close>)

section \<open>Witnesses\<close>

definition plain_row :: "string \<Rightarrow> econ_row" where
  "plain_row e = \<lparr>rq_timestamp = \<lparr>year = 2025, month = 1, day = 1, tod = 0\<rparr>, rq_provider = ''openai'', rq_model = ''gpt-4o'',
     rq_cost_usd = 2, rq_status_code = 200, rq_tags = Map.empty, rq_org_id = None, rq_team = None, rq_app_id = None,
     rq_customer_hash = None, rq_key_label = None, eq_event_id = e, eq_workspace = Some ''w'', eq_source = ''proxy'', eq_trace_id = None,
     eq_request_id = None, eq_pricing_class = Some ''calculated'', eq_input_tokens = 1, eq_output_tokens = 1,
     eq_reasoning_tokens = 0, eq_cache_read_tokens = 0, eq_cache_saved_usd = 0, eq_tool_calls = 0, eq_agent_id = None,
     eq_workflow_id = None, eq_workflow_run_id = None, eq_run_id = None, eq_task_id = None, eq_action_id = None,
     eq_parent_run_id = None, eq_parent_event_id = None, eq_retry_of_event_id = None, eq_fallback_of_event_id = None\<rparr>"

theorem links_stay_acyclic_witness:
  "acyclic (link_rel ''w'' (fold (\<lambda>(fresh, r). insert_request openai_env fresh r)
     [([], (plain_row ''a'')\<lparr>eq_parent_event_id := Some ''b''\<rparr>), ([], (plain_row ''b'')\<lparr>eq_retry_of_event_id := Some ''a''\<rparr>)] []))"
  by (rule links_stay_acyclic) (simp_all add: link_rel_def set_request_links acyclic_def)

theorem rows_kept_despite_links_witness:
  "\<exists>row. insert_request openai_env [] ((plain_row ''a'')\<lparr>eq_parent_event_id := Some ''a''\<rparr>) [] = [row] \<and> rq_cost_usd row = 2
     \<and> relation_target Parent_event row = None"
proof -
  let ?r = "(plain_row ''a'')\<lparr>eq_parent_event_id := Some ''a''\<rparr>"
  have "eq_event_id ?r \<noteq> []" "\<not> duplicate_row [] ?r" by (simp_all add: plain_row_def duplicate_row_def)
  from rows_kept_despite_links[OF this, of openai_env "[]"] obtain row where
    row: "insert_request openai_env [] ?r [] = [row]" "rq_cost_usd row = rq_cost_usd ?r"
      "\<And>x. relation_target Parent_event row = Some x \<Longrightarrow> relation_target Parent_event ?r = Some x \<and> x \<noteq> eq_event_id ?r"
    by auto
  moreover have "relation_target Parent_event row = None"
    using row(3) by (cases "relation_target Parent_event row") (auto simp: relation_target_def plain_row_def)
  ultimately show ?thesis by (simp add: plain_row_def)
qed

end
