(* ===== verification/Outcomes.thy ===== *)
theory Outcomes
  imports Request_Links "HOL-Library.Multiset"
begin

text \<open>
  Business outcomes and what they cost: the outcome table with its correction history
  (\<open>insert_outcome\<close>, \<open>reconcile_derived_outcome\<close>, \<open>correct_outcome\<close> of
  \<open>storage/database.py\<close>), the derivation of outcomes from pull requests (\<open>outcomes.py\<close>), and the
  allocation of spend to outcomes (\<open>_WORKFLOW_ECONOMICS_SQL\<close>). The output of the \<open>gh\<close> program,
  \<open>json.loads\<close> and \<open>datetime.fromisoformat\<close> are parameters; event times are points in time.
\<close>

section \<open>The outcome table\<close>

definition OUTCOME_STATUSES :: "string list" where
  "OUTCOME_STATUSES = [''accepted'', ''rejected'', ''failed'']"

record outcome =
  oc_outcome_id :: string
  oc_workflow_id :: string
  oc_status :: string
  oc_outcome_type :: string
  oc_event_time :: instant
  oc_business_value :: "real option"
  oc_currency :: "string option"
  oc_source :: string
  oc_metadata :: "(string \<times> json) list"

text \<open>\<open>__post_init__\<close>: \<open>None\<close> is the ValueError.\<close>

definition make_outcome :: "outcome \<Rightarrow> outcome option" where
  "make_outcome oc =
     (if oc_status oc \<notin> set OUTCOME_STATUSES then None
      else Some (oc\<lparr>oc_outcome_type := (let t = strip (oc_outcome_type oc) in if t = [] then ''unspecified'' else t)\<rparr>))"

record outcome_row =
  ow_outcome_id :: string
  ow_workflow_id :: string
  ow_status :: string
  ow_business_value :: "real option"
  ow_currency :: "string option"
  ow_event_time :: instant
  ow_source :: string
  ow_metadata :: "(string \<times> json) list"

record history_row =
  oh_outcome_id :: string
  oh_prior_status :: string
  oh_new_status :: string
  oh_prior_event_time :: instant
  oh_new_event_time :: instant
  oh_reason :: string
  oh_source :: string
  oh_changed_at :: instant

record outcome_db =
  od_outcomes :: "outcome_row table"
  od_history :: "history_row table"

definition with_default :: "(string \<times> json) list \<Rightarrow> string \<Rightarrow> json \<Rightarrow> (string \<times> json) list" where
  "with_default d k v = (if map_of d k = None then d @ [(k, v)] else d)"

definition outcome_columns :: "outcome \<Rightarrow> outcome_row" where
  "outcome_columns oc =
     \<lparr>ow_outcome_id = oc_outcome_id oc, ow_workflow_id = oc_workflow_id oc, ow_status = oc_status oc,
      ow_business_value = oc_business_value oc, ow_currency = oc_currency oc, ow_event_time = oc_event_time oc,
      ow_source = oc_source oc,
      ow_metadata = with_default (oc_metadata oc) ''outcome_type'' (JStr (oc_outcome_type oc))\<rparr>"

text \<open>\<open>INSERT OR IGNORE\<close> skips a row that violates the unique index or the CHECK on the status.\<close>

definition insert_outcome :: "outcome \<Rightarrow> outcome_db \<Rightarrow> bool \<times> outcome_db" where
  "insert_outcome oc db =
     (if oc_outcome_id oc \<in> ow_outcome_id ` set (od_outcomes db) \<or> oc_status oc \<notin> set OUTCOME_STATUSES
      then (False, db)
      else (True, db\<lparr>od_outcomes := od_outcomes db @ [outcome_columns oc]\<rparr>))"

datatype reconcile_result = Inserted | Duplicate | Corrected

text \<open>\<open>None\<close>: the CHECK fails, the exception rolls the transaction back.\<close>

definition reconcile_derived_outcome ::
    "string \<Rightarrow> instant \<Rightarrow> outcome \<Rightarrow> outcome_db \<Rightarrow> (reconcile_result \<times> outcome_db) option" where
  "reconcile_derived_outcome reason now oc db =
     (case lookup_key ow_outcome_id (oc_outcome_id oc) (od_outcomes db) of
        None \<Rightarrow>
          if oc_status oc \<notin> set OUTCOME_STATUSES then None
          else Some (Inserted, db\<lparr>od_outcomes := od_outcomes db @ [outcome_columns oc]\<rparr>)
      | Some current \<Rightarrow>
          if ow_source current \<noteq> ''derived''
             \<or> (ow_status current = oc_status oc \<and> ow_event_time current = oc_event_time oc)
          then Some (Duplicate, db)
          else if oc_status oc \<notin> set OUTCOME_STATUSES then None
          else Some (Corrected, db\<lparr>
            od_history := od_history db @ [\<lparr>oh_outcome_id = oc_outcome_id oc, oh_prior_status = ow_status current,
              oh_new_status = oc_status oc, oh_prior_event_time = ow_event_time current,
              oh_new_event_time = oc_event_time oc, oh_reason = reason, oh_source = oc_source oc,
              oh_changed_at = now\<rparr>],
            od_outcomes := update_where (\<lambda>r. ow_outcome_id r = oc_outcome_id oc) (\<lambda>r. outcome_columns oc) (od_outcomes db)\<rparr>))"

definition correct_outcome ::
    "string \<Rightarrow> string \<Rightarrow> string \<Rightarrow> instant option \<Rightarrow> instant \<Rightarrow> outcome_db \<Rightarrow> (bool \<times> outcome_db) option" where
  "correct_outcome oid status reason event_time now db =
     (case lookup_key ow_outcome_id oid (od_outcomes db) of
        None \<Rightarrow> Some (False, db)
      | Some current \<Rightarrow>
          if status \<notin> set OUTCOME_STATUSES then None
          else (let t = (case event_time of None \<Rightarrow> ow_event_time current | Some t \<Rightarrow> t)
                in Some (True, db\<lparr>
                     od_history := od_history db @ [\<lparr>oh_outcome_id = oid, oh_prior_status = ow_status current,
                       oh_new_status = status, oh_prior_event_time = ow_event_time current, oh_new_event_time = t,
                       oh_reason = reason, oh_source = ''cli'', oh_changed_at = now\<rparr>],
                     od_outcomes := update_where (\<lambda>r. ow_outcome_id r = oid)
                       (\<lambda>r. r\<lparr>ow_status := status, ow_event_time := t\<rparr>) (od_outcomes db)\<rparr>)))"

definition get_outcome_history :: "string \<Rightarrow> outcome_db \<Rightarrow> history_row list" where
  "get_outcome_history oid db = sort_key oh_changed_at (filter (\<lambda>h. oh_outcome_id h = oid) (od_history db))"

section \<open>Pull requests\<close>

text \<open>\<open>fromiso\<close> reads an ISO text with its zone, UTC where it has none. \<open>None\<close> of \<open>parse_ts\<close> is the
  AttributeError on a value that is no string.\<close>

definition parse_ts :: "(string \<Rightarrow> instant option) \<Rightarrow> json \<Rightarrow> instant option option" where
  "parse_ts fromiso raw =
     (if \<not> json_truthy raw then Some None else case raw of JStr s \<Rightarrow> Some (fromiso s) | _ \<Rightarrow> None)"

record pull_request =
  pr_number :: json
  pr_title :: json
  pr_merged_at :: json
  pr_closed_at :: json
  pr_url :: json
  pr_author :: json

definition json_or :: "json \<Rightarrow> json \<Rightarrow> json" where
  "json_or a b = (if json_truthy a then a else b)"

definition jfield :: "(string \<times> json) list \<Rightarrow> string \<Rightarrow> json" where
  "jfield d k = (case map_of d k of None \<Rightarrow> JNull | Some v \<Rightarrow> v)"

definition in_event_window :: "instant option \<Rightarrow> instant option \<Rightarrow> instant option \<Rightarrow> bool" where
  "in_event_window since until t =
     ((case since of None \<Rightarrow> True | Some a \<Rightarrow> (case t of None \<Rightarrow> False | Some x \<Rightarrow> a \<le> x))
      \<and> (case until of None \<Rightarrow> True | Some b \<Rightarrow> (case t of None \<Rightarrow> False | Some x \<Rightarrow> x < b)))"

text \<open>\<open>None\<close> when an item raises.\<close>

definition normalise_pr ::
    "(string \<Rightarrow> instant option) \<Rightarrow> instant option \<Rightarrow> instant option \<Rightarrow> json \<Rightarrow> pull_request list option" where
  "normalise_pr fromiso since until item =
     (case item of
        JObj d \<Rightarrow>
          (let merged_at = json_or (jfield d ''mergedAt'') (jfield d ''merged_at'');
               closed_at = json_or (jfield d ''closedAt'') (jfield d ''closed_at'')
           in Option.bind (parse_ts fromiso merged_at) (\<lambda>m.
              Option.bind (if m \<noteq> None then Some m else parse_ts fromiso closed_at) (\<lambda>event_time.
                if \<not> in_event_window since until event_time then Some []
                else Option.bind (if json_truthy (jfield d ''author'') then Some (jfield d ''author'')
                       else (case json_or (jfield d ''user'') (JObj []) of
                               JObj u \<Rightarrow> Some (JObj [(''login'', case map_of u ''login'' of None \<Rightarrow> JStr [] | Some v \<Rightarrow> v)])
                             | _ \<Rightarrow> None))
                  (\<lambda>author. Some [\<lparr>pr_number = jfield d ''number'', pr_title = json_or (jfield d ''title'') (JStr []),
                     pr_merged_at = merged_at, pr_closed_at = closed_at,
                     pr_url = json_or (json_or (jfield d ''url'') (jfield d ''html_url'')) (JStr []),
                     pr_author = author\<rparr>]))))
      | _ \<Rightarrow> Some [])"

fun collect :: "('a \<Rightarrow> 'b list option) \<Rightarrow> 'a list \<Rightarrow> 'b list option" where
  "collect f [] = Some []"
| "collect f (x # xs) = Option.bind (f x) (\<lambda>ys. map_option ((@) ys) (collect f xs))"

datatype derive_error = Gh_missing | Not_a_repository string | No_origin | Gh_failed string | Bad_output | Crashed

definition flatten_pages :: "json list \<Rightarrow> json list" where
  "flatten_pages pages =
     (if pages \<noteq> [] \<and> list_all (\<lambda>p. case p of JArr _ \<Rightarrow> True | _ \<Rightarrow> False) pages
      then concat (map (\<lambda>p. case p of JArr xs \<Rightarrow> xs | _ \<Rightarrow> []) pages) else pages)"

text \<open>\<open>slug\<close> is the answer of \<open>_repo_slug\<close>, \<open>raw\<close> that of \<open>_run_gh\<close>.\<close>

definition fetch_pull_requests ::
    "(string \<Rightarrow> json option) \<Rightarrow> (string \<Rightarrow> instant option) \<Rightarrow> derive_error + string option \<Rightarrow> derive_error + string
       \<Rightarrow> nat option \<Rightarrow> instant option \<Rightarrow> instant option \<Rightarrow> derive_error + pull_request list" where
  "fetch_pull_requests loads fromiso slug raw limit since until =
     (case slug of
        Inl e \<Rightarrow> Inl e
      | Inr s \<Rightarrow>
          if \<not> truthy s then Inl No_origin
          else (case raw of
                  Inl e \<Rightarrow> Inl e
                | Inr text \<Rightarrow>
                    (case loads (if text = [] then ''[]'' else text) of
                       None \<Rightarrow> Inl Bad_output
                     | Some (JArr pages) \<Rightarrow>
                         (case collect (normalise_pr fromiso since until) (flatten_pages pages) of
                            None \<Rightarrow> Inl Crashed
                          | Some prs \<Rightarrow> Inr (case limit of None \<Rightarrow> prs | Some n \<Rightarrow> take n prs))
                     | Some _ \<Rightarrow> Inl Bad_output)))"

definition outcome_of_pr ::
    "(string \<Rightarrow> instant option) \<Rightarrow> (json \<Rightarrow> string) \<Rightarrow> string \<Rightarrow> string \<Rightarrow> pull_request \<Rightarrow> outcome list option" where
  "outcome_of_pr fromiso str wid prefix pr =
     (if pr_number pr = JNull then Some []
      else Option.bind (parse_ts fromiso (pr_merged_at pr)) (\<lambda>merged.
           Option.bind (parse_ts fromiso (pr_closed_at pr)) (\<lambda>closed.
             let make = (\<lambda>status t. Option.bind (jget (json_or (pr_author pr) (JObj [])) ''login'') (\<lambda>login.
                   Some [\<lparr>oc_outcome_id = ''github:'' @ prefix @ ''#'' @ str (pr_number pr), oc_workflow_id = wid,
                     oc_status = status, oc_outcome_type = ''pull_request'', oc_event_time = t,
                     oc_business_value = None, oc_currency = None, oc_source = ''derived'',
                     oc_metadata = [(''pr_number'', pr_number pr), (''title'', json_or (pr_title pr) (JStr [])),
                       (''url'', json_or (pr_url pr) (JStr [])), (''author'', json_or login (JStr []))]\<rparr>]))
             in case merged of
                  Some t \<Rightarrow> make ''accepted'' t
                | None \<Rightarrow> (case closed of Some t \<Rightarrow> make ''rejected'' t | None \<Rightarrow> Some []))))"

definition build_outcomes ::
    "(string \<Rightarrow> instant option) \<Rightarrow> (json \<Rightarrow> string) \<Rightarrow> pull_request list \<Rightarrow> string \<Rightarrow> string option
       \<Rightarrow> (outcome list \<times> nat) option" where
  "build_outcomes fromiso str prs wid slug =
     map_option (\<lambda>ocs. (ocs, length prs - length ocs))
       (collect (outcome_of_pr fromiso str wid (if truthy slug then the slug else ''local'')) prs)"


record derive_result =
  dr_workflow_id :: string
  dr_pull_requests_seen :: nat
  dr_accepted :: nat
  dr_rejected :: nat
  dr_skipped_open :: nat
  dr_inserted :: nat
  dr_corrected :: nat
  dr_duplicates :: nat
  dr_import_complete :: bool

definition record_derived :: "instant \<Rightarrow> outcome \<Rightarrow> derive_result \<times> outcome_db \<Rightarrow> (derive_result \<times> outcome_db) option" where
  "record_derived now oc s =
     (case s of (res, db) \<Rightarrow>
        (let res1 = (if oc_status oc = ''accepted'' then res\<lparr>dr_accepted := dr_accepted res + 1\<rparr>
                     else res\<lparr>dr_rejected := dr_rejected res + 1\<rparr>)
         in map_option (\<lambda>(kind, db'). (case kind of
                Inserted \<Rightarrow> res1\<lparr>dr_inserted := dr_inserted res1 + 1\<rparr>
              | Corrected \<Rightarrow> res1\<lparr>dr_corrected := dr_corrected res1 + 1\<rparr>
              | Duplicate \<Rightarrow> res1\<lparr>dr_duplicates := dr_duplicates res1 + 1\<rparr>, db'))
            (reconcile_derived_outcome ''derived source refresh'' now oc db)))"

fun record_all :: "instant \<Rightarrow> outcome list \<Rightarrow> derive_result \<times> outcome_db \<Rightarrow> (derive_result \<times> outcome_db) option" where
  "record_all now [] s = Some s"
| "record_all now (oc # ocs) s = Option.bind (record_derived now oc s) (record_all now ocs)"

definition REPO_WORKFLOW_PREFIX :: string where
  "REPO_WORKFLOW_PREFIX = ''repo:''"

definition repo_workflow_id :: "string option \<Rightarrow> string option" where
  "repo_workflow_id repo = (if truthy repo then Some (REPO_WORKFLOW_PREFIX @ the repo) else None)"

text \<open>
  What \<open>derive_pr_outcomes\<close> reads from its surroundings: whether \<open>gh\<close> is installed, the path, the local and
  the stable name of the repository, the two answers for the remote name, and the list of closed requests.
\<close>

record derive_env =
  de_gh :: bool
  de_path :: string
  de_repo :: "string option"
  de_repo_id :: "string option"
  de_slug :: "derive_error + string option"
  de_slug_again :: "derive_error + string option"
  de_raw :: "derive_error + string"
  de_loads :: "string \<Rightarrow> json option"
  de_fromiso :: "string \<Rightarrow> instant option"
  de_str :: "json \<Rightarrow> string"
  de_now :: instant

definition derive_pr_outcomes ::
    "derive_env \<Rightarrow> nat option \<Rightarrow> instant option \<Rightarrow> instant option \<Rightarrow> outcome_db \<Rightarrow> derive_error + (derive_result \<times> outcome_db)" where
  "derive_pr_outcomes env limit since until db =
     (if \<not> de_gh env then Inl Gh_missing
      else if \<not> truthy (de_repo env) then Inl (Not_a_repository (de_path env))
      else (let wid = the (repo_workflow_id (py_or (de_repo_id env) (de_repo env)))
            in case fetch_pull_requests (de_loads env) (de_fromiso env) (de_slug env) (de_raw env) limit since until of
                 Inl e \<Rightarrow> Inl e
               | Inr prs \<Rightarrow>
                   (case de_slug_again env of
                      Inl e \<Rightarrow> Inl e
                    | Inr slug \<Rightarrow>
                        (case build_outcomes (de_fromiso env) (de_str env) prs wid slug of
                           None \<Rightarrow> Inl Crashed
                         | Some (ocs, skipped) \<Rightarrow>
                             (case record_all (de_now env) ocs
                                (\<lparr>dr_workflow_id = wid, dr_pull_requests_seen = length prs, dr_accepted = 0,
                                  dr_rejected = 0, dr_skipped_open = skipped, dr_inserted = 0, dr_corrected = 0,
                                  dr_duplicates = 0, dr_import_complete = (limit = None)\<rparr>, db) of
                                None \<Rightarrow> Inl Crashed
                              | Some s \<Rightarrow> Inr s)))))"

section \<open>Spend per outcome\<close>

text \<open>A UTC reading of the calendar as a point in time.\<close>

definition instant_of :: "datetime \<Rightarrow> instant" where
  "instant_of d = (toordinal d - 719163) * 86400000000 + tod d"

text \<open>\<open>NULLIF(json_extract(metadata, '$.outcome_type'), '')\<close>\<close>

definition metadata_type :: "outcome_row \<Rightarrow> json option" where
  "metadata_type u =
     (let v = jfield (ow_metadata u) ''outcome_type'' in if v = JNull \<or> v = JStr [] then None else Some v)"

text \<open>The first outcome of a workflow at or after a request, within the window (seconds).\<close>

definition candidates :: "real \<Rightarrow> string \<Rightarrow> instant \<Rightarrow> outcome_row table \<Rightarrow> outcome_row list" where
  "candidates window wid ts t =
     filter (\<lambda>u. ow_workflow_id u = wid \<and> ts \<le> ow_event_time u \<and> real_of_int (ow_event_time u - ts) < window * 1000000) t"

definition allocated_outcome :: "real \<Rightarrow> string \<Rightarrow> instant \<Rightarrow> outcome_row table \<Rightarrow> outcome_row option" where
  "allocated_outcome window wid ts t =
     (case sort_key ow_event_time (candidates window wid ts t) of [] \<Rightarrow> None | u # us \<Rightarrow> Some u)"

record alloc_row =
  al_workflow_id :: string
  al_cost_usd :: usd
  al_outcome_type :: json
  al_status :: "string option"

definition alloc_row_of :: "real \<Rightarrow> outcome_row table \<Rightarrow> string \<Rightarrow> econ_row \<Rightarrow> alloc_row" where
  "alloc_row_of window outcomes wid r =
     (let u = allocated_outcome window wid (instant_of (rq_timestamp r)) outcomes
      in \<lparr>al_workflow_id = wid, al_cost_usd = rq_cost_usd r,
          al_outcome_type = (case Option.bind u metadata_type of None \<Rightarrow> JStr ''unattributed'' | Some v \<Rightarrow> v),
          al_status = map_option ow_status u\<rparr>)"

definition alloc_rows :: "real \<Rightarrow> instant \<Rightarrow> outcome_row table \<Rightarrow> econ_row table \<Rightarrow> alloc_row list" where
  "alloc_rows window since outcomes requests =
     List.map_filter (\<lambda>r. map_option (\<lambda>wid. alloc_row_of window outcomes wid r) (rq_tags r ''workflow_id''))
       (filter (\<lambda>r. since \<le> instant_of (rq_timestamp r)) requests)"

definition counted_type :: "outcome_row \<Rightarrow> json" where
  "counted_type u = (case metadata_type u of None \<Rightarrow> JStr ''unspecified'' | Some v \<Rightarrow> v)"

definition currencies :: "outcome_row list \<Rightarrow> string list" where
  "currencies os =
     remdups (List.map_filter (\<lambda>u. if ow_status u = ''accepted'' \<and> truthy (ow_currency u) then ow_currency u else None) os)"

record workflow_economics =
  we_workflow_id :: string
  we_outcome_type :: json
  we_accepted_count :: nat
  we_rejected_count :: nat
  we_failed_count :: nat
  we_cost_total_usd :: usd
  we_cost_accepted_usd :: usd
  we_cost_rework_usd :: usd
  we_cost_unattributed_usd :: usd
  we_cost_per_accepted_usd :: "usd option"
  we_business_value_accepted :: "real option"
  we_business_value_currency :: "string option"
  we_business_value_currencies :: "string list"
  we_business_value_excluded :: bool

definition economics_row :: "alloc_row list \<Rightarrow> outcome_row list \<Rightarrow> string \<times> json \<Rightarrow> workflow_economics" where
  "economics_row alloc counted k =
     (let mine = filter (\<lambda>a. (al_workflow_id a, al_outcome_type a) = k) alloc;
          os = filter (\<lambda>u. (ow_workflow_id u, counted_type u) = k) counted;
          with = (\<lambda>s. length (filter (\<lambda>u. ow_status u = s) os));
          total = sum_where (\<lambda>a. True) al_cost_usd mine;
          values = List.map_filter ow_business_value (filter (\<lambda>u. ow_status u = ''accepted'') os)
      in \<lparr>we_workflow_id = fst k, we_outcome_type = snd k,
          we_accepted_count = with ''accepted'', we_rejected_count = with ''rejected'', we_failed_count = with ''failed'',
          we_cost_total_usd = total,
          we_cost_accepted_usd = sum_where (\<lambda>a. al_status a = Some ''accepted'') al_cost_usd mine,
          we_cost_rework_usd = sum_where (\<lambda>a. al_status a \<in> {Some ''rejected'', Some ''failed''}) al_cost_usd mine,
          we_cost_unattributed_usd = sum_where (\<lambda>a. al_status a = None) al_cost_usd mine,
          we_cost_per_accepted_usd = (if with ''accepted'' > 0 then Some (total / real (with ''accepted'')) else None),
          we_business_value_accepted =
            (if length (currencies os) \<le> 1 \<and> values \<noteq> [] then Some (sum_list values) else None),
          we_business_value_currency = (case currencies os of [c] \<Rightarrow> Some c | _ \<Rightarrow> None),
          we_business_value_currencies = currencies os,
          we_business_value_excluded = (length (currencies os) > 1)\<rparr>)"

definition economics_keys :: "alloc_row list \<Rightarrow> outcome_row list \<Rightarrow> (string \<times> json) list" where
  "economics_keys alloc counted =
     remdups (map (\<lambda>a. (al_workflow_id a, al_outcome_type a)) alloc
              @ map (\<lambda>u. (ow_workflow_id u, counted_type u)) counted)"

definition get_workflow_economics :: "instant \<Rightarrow> real \<Rightarrow> outcome_row table \<Rightarrow> econ_row table \<Rightarrow> workflow_economics list" where
  "get_workflow_economics since window outcomes requests =
     (let alloc = alloc_rows window since outcomes requests;
          counted = filter (\<lambda>u. since \<le> ow_event_time u) outcomes
      in sort_key (\<lambda>w. - we_cost_total_usd w) (map (economics_row alloc counted) (economics_keys alloc counted)))"

section \<open>Retries\<close>

text \<open>The rows before a position are those with a smaller \<open>id\<close>.\<close>

definition is_retry :: "real \<Rightarrow> econ_row list \<Rightarrow> econ_row \<Rightarrow> bool" where
  "is_retry window earlier r =
     (\<exists>p \<in> set earlier. eq_trace_id p = eq_trace_id r \<and> rq_model p = rq_model r \<and> rq_status_code p \<ge> 400
        \<and> real_of_int (instant_of (rq_timestamp r) - instant_of (rq_timestamp p)) \<le> window * 1000000)"

fun retry_rows :: "real \<Rightarrow> instant \<Rightarrow> econ_row list \<Rightarrow> econ_row table \<Rightarrow> econ_row list" where
  "retry_rows window since earlier [] = []"
| "retry_rows window since earlier (r # rs) =
     (if eq_trace_id r \<noteq> None \<and> since \<le> instant_of (rq_timestamp r) \<and> is_retry window earlier r then [r] else [])
     @ retry_rows window since (earlier @ [r]) rs"

definition get_retry_stats :: "instant \<Rightarrow> real \<Rightarrow> econ_row table \<Rightarrow> nat \<times> usd" where
  "get_retry_stats since window t =
     (let rs = retry_rows window since [] t in (length rs, sum_where (\<lambda>r. True) rq_cost_usd rs))"


section \<open>Lemmas on the table\<close>

definition settled :: "outcome \<Rightarrow> outcome_db \<Rightarrow> bool" where
  "settled oc db \<longleftrightarrow> (\<exists>r. lookup_key ow_outcome_id (oc_outcome_id oc) (od_outcomes db) = Some r
     \<and> (ow_source r \<noteq> ''derived'' \<or> ow_status r = oc_status oc \<and> ow_event_time r = oc_event_time oc))"

lemma outcome_columns_simps [simp]:
  "ow_outcome_id (outcome_columns oc) = oc_outcome_id oc" "ow_status (outcome_columns oc) = oc_status oc"
  "ow_event_time (outcome_columns oc) = oc_event_time oc" "ow_workflow_id (outcome_columns oc) = oc_workflow_id oc"
  by (simp_all add: outcome_columns_def)

lemma reconcile_settled: "settled oc db \<Longrightarrow> reconcile_derived_outcome reason now oc db = Some (Duplicate, db)"
  by (auto simp: settled_def reconcile_derived_outcome_def)

lemma lookup_snoc:
  "lookup_key key k (t @ [r]) = (case lookup_key key k t of None \<Rightarrow> if key r = k then Some r else None | Some x \<Rightarrow> Some x)"
  by (simp add: lookup_key_def find_append split: option.split)

lemma reconcile_settles:
  "reconcile_derived_outcome reason now oc db = Some (kind, db') \<Longrightarrow> settled oc db'"
  by (auto simp: reconcile_derived_outcome_def settled_def lookup_snoc lookup_update_where
      split: option.splits if_splits dest: lookup_key_SomeD)

lemma lookup_update_other:
  "(\<And>r. p r \<Longrightarrow> key r \<noteq> k \<and> key (f r) \<noteq> k) \<Longrightarrow> lookup_key key k (update_where p f t) = lookup_key key k t"
  by (induction t) (auto simp: lookup_key_def update_where_def)

lemma reconcile_lookup_frame:
  "reconcile_derived_outcome reason now oc db = Some (kind, db') \<Longrightarrow> k \<noteq> oc_outcome_id oc \<Longrightarrow>
   lookup_key ow_outcome_id k (od_outcomes db') = lookup_key ow_outcome_id k (od_outcomes db)"
  by (auto simp: reconcile_derived_outcome_def lookup_snoc lookup_update_other split: option.splits if_splits)

lemma reconcile_frame:
  "reconcile_derived_outcome reason now oc db = Some (kind, db') \<Longrightarrow> oc_outcome_id oc' \<noteq> oc_outcome_id oc \<Longrightarrow>
   settled oc' db' = settled oc' db"
  by (simp add: settled_def reconcile_lookup_frame)

lemma record_derived_db:
  "record_derived now oc (res, db) = Some s \<Longrightarrow> \<exists>kind. reconcile_derived_outcome ''derived source refresh'' now oc db = Some (kind, snd s)"
  by (auto simp: record_derived_def Let_def split: option.splits)

lemma record_all_settles:
  "record_all now ocs (res, db) = Some (res', db') \<Longrightarrow> distinct (map oc_outcome_id ocs) \<Longrightarrow> \<forall>oc \<in> set ocs. settled oc db'"
proof (induction ocs arbitrary: res db)
  case (Cons oc ocs)
  then obtain res1 db1 where step: "record_derived now oc (res, db) = Some (res1, db1)"
    and rest: "record_all now ocs (res1, db1) = Some (res', db')" by (cases "record_derived now oc (res, db)") auto
  have "settled oc db1" using record_derived_db[OF step] reconcile_settles by auto
  moreover have "settled oc' db' = settled oc' db1" if "oc_outcome_id oc' \<notin> oc_outcome_id ` set ocs" for oc'
    using rest that
  proof (induction ocs arbitrary: res1 db1)
    case (Cons x xs)
    then obtain res2 db2 where "record_derived now x (res1, db1) = Some (res2, db2)" "record_all now xs (res2, db2) = Some (res', db')"
      by (cases "record_derived now x (res1, db1)") auto
    with Cons.IH[of res2 db2] Cons.prems(2) show ?case
      using record_derived_db[of now x res1 db1 "(res2, db2)"] reconcile_frame by fastforce
  qed simp
  ultimately show ?case using Cons.IH[OF rest] Cons.prems(2) by auto
qed simp

definition tally :: "derive_result \<Rightarrow> nat" where
  "tally res = dr_accepted res + dr_rejected res"

lemma record_derived_tally:
  "record_derived now oc (res, db) = Some (res', db') \<Longrightarrow> tally res' = tally res + 1
     \<and> dr_inserted res' + dr_corrected res' + dr_duplicates res' = dr_inserted res + dr_corrected res + dr_duplicates res + 1"
  by (cases "reconcile_derived_outcome ''derived source refresh'' now oc db")
    (auto simp: record_derived_def tally_def Let_def split: reconcile_result.split if_splits)

lemma record_all_tally:
  "record_all now ocs (res, db) = Some (res', db') \<Longrightarrow> tally res' = tally res + length ocs"
proof (induction ocs arbitrary: res db)
  case (Cons oc ocs)
  then show ?case
    by (cases "record_derived now oc (res, db)") (auto dest!: record_derived_tally)
qed simp

lemma record_all_again:
  "\<forall>oc \<in> set ocs. settled oc db \<Longrightarrow>
   \<exists>res'. record_all now ocs (res, db) = Some (res', db) \<and> dr_inserted res' = dr_inserted res
     \<and> dr_corrected res' = dr_corrected res \<and> dr_duplicates res' = dr_duplicates res + length ocs
     \<and> tally res' = tally res + length ocs"
proof (induction ocs arbitrary: res)
  case (Cons oc ocs)
  let ?res = "(if oc_status oc = ''accepted'' then res\<lparr>dr_accepted := dr_accepted res + 1\<rparr>
      else res\<lparr>dr_rejected := dr_rejected res + 1\<rparr>)"
  have "record_derived now oc (res, db) = Some (?res\<lparr>dr_duplicates := dr_duplicates ?res + 1\<rparr>, db)"
    using Cons.prems by (simp add: record_derived_def reconcile_settled Let_def)
  with Cons.IH[of "?res\<lparr>dr_duplicates := dr_duplicates ?res + 1\<rparr>"] Cons.prems show ?case
    by (auto simp: tally_def)
qed simp

section \<open>Deriving outcomes again\<close>

text \<open>
  Deriving outcomes is idempotent: a second run over the same pull requests, at any later time, changes
  neither the outcomes nor their history, and reports every outcome of the first run as a duplicate. The
  list must not name a pull request twice.
\<close>

theorem derive_idempotent:
  assumes "derive_pr_outcomes env limit since until db = Inr (res, db')"
    and "\<And>prs wid slug ocs n. build_outcomes (de_fromiso env) (de_str env) prs wid slug = Some (ocs, n) \<Longrightarrow>
      fetch_pull_requests (de_loads env) (de_fromiso env) (de_slug env) (de_raw env) limit since until = Inr prs \<Longrightarrow>
      distinct (map oc_outcome_id ocs)"
  shows "\<exists>res'. derive_pr_outcomes (env\<lparr>de_now := later\<rparr>) limit since until db' = Inr (res', db')
    \<and> dr_inserted res' = 0 \<and> dr_corrected res' = 0 \<and> dr_duplicates res' = dr_accepted res + dr_rejected res"
proof -
  obtain prs slug ocs n where parts:
    "de_gh env" "truthy (de_repo env)"
    "fetch_pull_requests (de_loads env) (de_fromiso env) (de_slug env) (de_raw env) limit since until = Inr prs"
    "de_slug_again env = Inr slug"
    "build_outcomes (de_fromiso env) (de_str env) prs (the (repo_workflow_id (py_or (de_repo_id env) (de_repo env)))) slug = Some (ocs, n)"
    using assms(1) by (auto simp: derive_pr_outcomes_def Let_def split: if_splits sum.splits option.splits)
  let ?start = "\<lparr>dr_workflow_id = the (repo_workflow_id (py_or (de_repo_id env) (de_repo env))), dr_pull_requests_seen = length prs,
     dr_accepted = 0, dr_rejected = 0, dr_skipped_open = n, dr_inserted = 0, dr_corrected = 0, dr_duplicates = 0,
     dr_import_complete = (limit = None)\<rparr>"
  have run: "record_all (de_now env) ocs (?start, db) = Some (res, db')"
    using assms(1) parts by (auto simp: derive_pr_outcomes_def Let_def split: option.splits)
  have "\<forall>oc \<in> set ocs. settled oc db'"
    using record_all_settles[OF run assms(2)[OF parts(5,3)]] .
  from record_all_again[OF this, of later ?start] obtain res' where
    "record_all later ocs (?start, db') = Some (res', db')" "dr_inserted res' = 0" "dr_corrected res' = 0"
    "dr_duplicates res' = length ocs" by auto
  moreover have "dr_accepted res + dr_rejected res = length ocs"
    using record_all_tally[OF run] by (simp add: tally_def)
  ultimately show ?thesis using parts by (simp add: derive_pr_outcomes_def)
qed


section \<open>Statuses and the audit trail\<close>

datatype outcome_event =
    Insert_outcome outcome
  | Reconcile string instant outcome
  | Correct string string string "instant option" instant

definition outcome_step :: "outcome_event \<Rightarrow> outcome_db \<Rightarrow> outcome_db" where
  "outcome_step e db =
     (case e of
        Insert_outcome oc \<Rightarrow> snd (insert_outcome oc db)
      | Reconcile reason now oc \<Rightarrow> (case reconcile_derived_outcome reason now oc db of None \<Rightarrow> db | Some (_, db') \<Rightarrow> db')
      | Correct oid status reason t now \<Rightarrow> (case correct_outcome oid status reason t now db of None \<Rightarrow> db | Some (_, db') \<Rightarrow> db'))"

text \<open>The tables as their schema and the correction protocol mean them.\<close>

definition row_typed :: "outcome_row \<Rightarrow> bool" where
  "row_typed r \<longleftrightarrow> ow_status r \<in> set OUTCOME_STATUSES"

definition history_typed :: "outcome_row table \<Rightarrow> history_row \<Rightarrow> bool" where
  "history_typed t h \<longleftrightarrow> oh_prior_status h \<in> set OUTCOME_STATUSES \<and> oh_new_status h \<in> set OUTCOME_STATUSES
     \<and> oh_outcome_id h \<in> ow_outcome_id ` set t"

definition well_typed_db :: "outcome_db \<Rightarrow> bool" where
  "well_typed_db db \<longleftrightarrow> pk ow_outcome_id (od_outcomes db) \<and> (\<forall>r \<in> set (od_outcomes db). row_typed r)
     \<and> (\<forall>h \<in> set (od_history db). history_typed (od_outcomes db) h)"

text \<open>The corrections of one outcome as a chain from its first to its last state.\<close>

fun replay_corrections :: "string \<times> instant \<Rightarrow> history_row list \<Rightarrow> (string \<times> instant) option" where
  "replay_corrections s [] = Some s"
| "replay_corrections s (h # hs) =
     (if s = (oh_prior_status h, oh_prior_event_time h) then replay_corrections (oh_new_status h, oh_new_event_time h) hs
      else None)"

definition corrections_of :: "string \<Rightarrow> outcome_db \<Rightarrow> history_row list" where
  "corrections_of oid db = filter (\<lambda>h. oh_outcome_id h = oid) (od_history db)"

definition state_of :: "outcome_row \<Rightarrow> string \<times> instant" where
  "state_of r = (ow_status r, ow_event_time r)"

definition explained :: "outcome_db \<Rightarrow> bool" where
  "explained db \<longleftrightarrow> (\<forall>r \<in> set (od_outcomes db). \<exists>s. replay_corrections s (corrections_of (ow_outcome_id r) db) = Some (state_of r))"

lemma replay_snoc:
  "replay_corrections s (hs @ [h]) = (case replay_corrections s hs of None \<Rightarrow> None
     | Some x \<Rightarrow> if x = (oh_prior_status h, oh_prior_event_time h) then Some (oh_new_status h, oh_new_event_time h) else None)"
  by (induction hs arbitrary: s) auto

text \<open>Both ways to change a row: a new row, and a correction of one row with its history entry.\<close>

lemma append_row_keeps:
  assumes "well_typed_db db" "explained db" "ow_outcome_id r \<notin> ow_outcome_id ` set (od_outcomes db)" "row_typed r"
    and "db' = db\<lparr>od_outcomes := od_outcomes db @ [r]\<rparr>"
  shows "well_typed_db db' \<and> explained db'"
proof -
  have "\<forall>h \<in> set (od_history db). oh_outcome_id h \<noteq> ow_outcome_id r"
    using assms(1,3) unfolding well_typed_db_def history_typed_def by metis
  then have none: "corrections_of (ow_outcome_id r) db = []" by (simp add: corrections_of_def filter_empty_conv)
  have "explained db'"
    unfolding explained_def
  proof
    fix x assume "x \<in> set (od_outcomes db')"
    then consider "x \<in> set (od_outcomes db)" | "x = r" by (auto simp: assms(5))
    then show "\<exists>s. replay_corrections s (corrections_of (ow_outcome_id x) db') = Some (state_of x)"
      using assms(2) none by cases (auto simp: explained_def corrections_of_def assms(5))
  qed
  moreover have "well_typed_db db'"
    using assms(1,3,4) by (auto simp: well_typed_db_def pk_def history_typed_def assms(5))
  ultimately show ?thesis by blast
qed

lemma correct_row_keeps:
  assumes "well_typed_db db" "explained db" "lookup_key ow_outcome_id oid (od_outcomes db) = Some cur"
    and "\<And>r. ow_outcome_id r = oid \<Longrightarrow> ow_outcome_id (f r) = oid \<and> state_of (f r) = (oh_new_status h, oh_new_event_time h)"
    and "oh_outcome_id h = oid" "(oh_prior_status h, oh_prior_event_time h) = state_of cur" "oh_new_status h \<in> set OUTCOME_STATUSES"
    and "db' = db\<lparr>od_history := od_history db @ [h], od_outcomes := update_where (\<lambda>r. ow_outcome_id r = oid) f (od_outcomes db)\<rparr>"
  shows "well_typed_db db' \<and> explained db'"
proof -
  have cur: "cur \<in> set (od_outcomes db)" "ow_outcome_id cur = oid" using lookup_key_SomeD[OF assms(3)] by auto
  have same: "map ow_outcome_id (od_outcomes db') = map ow_outcome_id (od_outcomes db)"
    using assms(4) by (simp add: assms(8) map_key_update_where)
  have only: "r = cur" if "r \<in> set (od_outcomes db)" "ow_outcome_id r = oid" for r
    using pk_lookup[of ow_outcome_id "od_outcomes db" r] assms(1,3) that by (simp add: well_typed_db_def)
  have rows: "\<exists>r \<in> set (od_outcomes db). x = (if ow_outcome_id r = oid then f r else r)"
    if "x \<in> set (od_outcomes db')" for x
    using that by (auto simp: assms(8) update_where_def)
  have "\<exists>s. replay_corrections s (corrections_of (ow_outcome_id x) db') = Some (state_of x)"
    if "x \<in> set (od_outcomes db')" for x
  proof -
    obtain r where r: "r \<in> set (od_outcomes db)" "x = (if ow_outcome_id r = oid then f r else r)"
      using rows[OF \<open>x \<in> set (od_outcomes db')\<close>] by blast
    obtain s where s: "replay_corrections s (corrections_of (ow_outcome_id r) db) = Some (state_of r)"
      using assms(2) r(1) by (auto simp: explained_def)
    show ?thesis
    proof (cases "ow_outcome_id r = oid")
      case True
      then have "corrections_of (ow_outcome_id x) db' = corrections_of (ow_outcome_id r) db @ [h]"
        using assms(4)[OF True] r(2) by (simp add: corrections_of_def assms(5,8))
      then have "replay_corrections s (corrections_of (ow_outcome_id x) db') = Some (state_of x)"
        using s True only[OF r(1) True] assms(4)[OF True] assms(6) r(2) by (simp add: replay_snoc)
      then show ?thesis by blast
    next
      case False
      then show ?thesis using s r(2) by (intro exI[of _ s]) (simp add: corrections_of_def assms(5,8))
    qed
  qed
  moreover have "row_typed x" if "x \<in> set (od_outcomes db')" for x
    using rows[OF that] assms(1,4,7) by (auto simp: well_typed_db_def row_typed_def state_of_def split: if_splits)
  moreover have "history_typed (od_outcomes db') y" if "y \<in> set (od_history db')" for y
  proof -
    have ids: "ow_outcome_id ` set (od_outcomes db') = ow_outcome_id ` set (od_outcomes db)"
      using arg_cong[OF same, of set] by simp
    have "row_typed cur" using assms(1) cur(1) by (simp add: well_typed_db_def)
    then have "history_typed (od_outcomes db) h"
      using assms(5,6,7) cur image_eqI[of oid ow_outcome_id cur "set (od_outcomes db)"]
      by (simp add: history_typed_def row_typed_def state_of_def)
    moreover have "y = h \<or> y \<in> set (od_history db)" using that by (auto simp: assms(8))
    ultimately have "history_typed (od_outcomes db) y" using assms(1) by (auto simp: well_typed_db_def)
    then show ?thesis by (simp add: history_typed_def ids)
  qed
  ultimately show ?thesis
    using assms(1) same by (simp add: explained_def well_typed_db_def pk_def)
qed

lemma outcome_step_keeps:
  assumes "well_typed_db db" "explained db"
  shows "well_typed_db (outcome_step e db) \<and> explained (outcome_step e db)"
proof (cases e)
  case (Insert_outcome oc)
  have "well_typed_db (snd (insert_outcome oc db)) \<and> explained (snd (insert_outcome oc db))"
    using append_row_keeps[OF assms, of "outcome_columns oc" "db\<lparr>od_outcomes := od_outcomes db @ [outcome_columns oc]\<rparr>"] assms
    by (simp add: insert_outcome_def row_typed_def)
  then show ?thesis by (simp add: outcome_step_def Insert_outcome)
next
  case (Reconcile reason now oc)
  have "well_typed_db db' \<and> explained db'" if r: "reconcile_derived_outcome reason now oc db = Some (kind, db')" for kind db'
  proof (cases "lookup_key ow_outcome_id (oc_outcome_id oc) (od_outcomes db)")
    case None
    then have new: "oc_outcome_id oc \<notin> ow_outcome_id ` set (od_outcomes db)" by (simp add: lookup_key_None_iff)
    with None r show ?thesis
      by (intro append_row_keeps[OF assms, of "outcome_columns oc"])
        (auto simp: reconcile_derived_outcome_def row_typed_def split: if_splits)
  next
    case (Some cur)
    show ?thesis
    proof (cases "kind = Corrected")
      case True
      with Some r show ?thesis
        by (intro correct_row_keeps[OF assms Some, where f = "\<lambda>r. outcome_columns oc"])
          (auto simp: reconcile_derived_outcome_def state_of_def split: if_splits)
    qed (use Some r assms in \<open>auto simp: reconcile_derived_outcome_def split: if_splits\<close>)
  qed
  then show ?thesis using assms by (auto simp: outcome_step_def Reconcile split: option.split)
next
  case (Correct oid status reason t now)
  have "well_typed_db db' \<and> explained db'" if r: "correct_outcome oid status reason t now db = Some (ok, db')" for ok db'
  proof (cases "lookup_key ow_outcome_id oid (od_outcomes db)")
    case (Some cur)
    let ?t = "case t of None \<Rightarrow> ow_event_time cur | Some t \<Rightarrow> t"
    from Some r show ?thesis
      by (intro correct_row_keeps[OF assms Some, where f = "\<lambda>r. r\<lparr>ow_status := status, ow_event_time := ?t\<rparr>"])
        (auto simp: correct_outcome_def state_of_def Let_def split: if_splits)
  qed (use r assms in \<open>simp add: correct_outcome_def\<close>)
  then show ?thesis using assms by (auto simp: outcome_step_def Correct split: option.split)
qed

lemma outcome_run_keeps:
  "well_typed_db db \<Longrightarrow> explained db \<Longrightarrow> well_typed_db (run_steps outcome_step es db) \<and> explained (run_steps outcome_step es db)"
  by (induction es arbitrary: db) (auto simp: outcome_step_keeps)


section \<open>What holds of every history\<close>

definition empty_outcomes :: outcome_db where
  "empty_outcomes = \<lparr>od_outcomes = [], od_history = []\<rparr>"

text \<open>C21: 
  After every sequence of insertions, derivations and corrections the tables are well typed: one row per
  outcome, statuses only of the three values in rows and in the history on both sides, and every history
  entry belongs to an outcome.
\<close>

theorem outcomes_well_typed: "well_typed_db (run_steps outcome_step es empty_outcomes)"
  using outcome_run_keeps[of empty_outcomes es] by (simp add: well_typed_db_def explained_def empty_outcomes_def)

text \<open>C22: 
  The correction history is complete: for every outcome the recorded corrections, in their order, form an
  unbroken chain from its first state to the status and the event time of its current row.
\<close>

theorem audit_trail_complete:
  assumes "r \<in> set (od_outcomes (run_steps outcome_step es empty_outcomes))"
  shows "\<exists>s. replay_corrections s (corrections_of (ow_outcome_id r) (run_steps outcome_step es empty_outcomes))
    = Some (ow_status r, ow_event_time r)"
  using outcome_run_keeps[of empty_outcomes es] assms
  by (auto simp: well_typed_db_def explained_def empty_outcomes_def state_of_def)

section \<open>Where the spend goes\<close>

lemma sum_where_cong: "(\<And>x. x \<in> set xs \<Longrightarrow> P x = Q x) \<Longrightarrow> sum_where P f xs = sum_where Q f xs"
  by (induction xs) auto

lemma sum_where_filter: "sum_where P f (filter Q xs) = sum_where (\<lambda>x. Q x \<and> P x) f xs"
  by (induction xs) auto

lemma sum_list_sort_key:
  fixes f :: "'a \<Rightarrow> real"
  shows "sum_list (map f (filter P (sort_key g xs))) = sum_list (map f (filter P xs))"
  by (metis mset_filter mset_map mset_sort sum_mset_sum_list)

lemma sum_list_indicator:
  "distinct ks \<Longrightarrow> sum_list (map (\<lambda>k. if a = k then v else 0) ks) = (if a \<in> set ks then v else (0 :: real))"
  by (induction ks) auto

lemma sum_where_partition:
  assumes "distinct ks" "\<And>x. x \<in> set xs \<Longrightarrow> P x \<Longrightarrow> key x \<in> set ks"
  shows "sum_list (map (\<lambda>k. sum_where (\<lambda>x. key x = k \<and> P x) f xs) ks) = sum_where P f xs"
  using assms(2)
proof (induction xs)
  case (Cons x xs)
  have one: "sum_list (map (\<lambda>k. if key x = k then f x else 0) ks) = f x" if "P x"
    using that Cons.prems[of x] sum_list_indicator[OF assms(1)] by simp
  have "sum_list (map (\<lambda>k. sum_where (\<lambda>x. key x = k \<and> P x) f (x # xs)) ks)
      = sum_list (map (\<lambda>k. (if P x then if key x = k then f x else 0 else 0) + sum_where (\<lambda>x. key x = k \<and> P x) f xs) ks)"
    by (intro arg_cong[of _ _ sum_list] map_cong) auto
  also have "\<dots> = (if P x then f x else 0) + sum_where P f xs"
    using one Cons by (simp add: sum_list_addf)
  finally show ?case by simp
qed (simp add: sum_list_0)

definition split_cost :: "workflow_economics \<Rightarrow> bool" where
  "split_cost w \<longleftrightarrow> we_cost_total_usd w = we_cost_accepted_usd w + we_cost_rework_usd w + we_cost_unattributed_usd w"

lemma allocated_member: "allocated_outcome window wid ts t = Some u \<Longrightarrow> u \<in> set t"
  unfolding allocated_outcome_def candidates_def
  by (metis (no_types, lifting) filter_is_subset list.case_eq_if list.set_sel(1) option.distinct(1) option.inject set_sort subsetD)

lemma alloc_status:
  "a \<in> set (alloc_rows window since outcomes requests) \<Longrightarrow> \<forall>u \<in> set outcomes. row_typed u \<Longrightarrow>
   al_status a \<in> {None, Some ''accepted'', Some ''rejected'', Some ''failed''}"
  by (auto simp: alloc_rows_def alloc_row_of_def List.map_filter_def Let_def row_typed_def OUTCOME_STATUSES_def
      dest!: allocated_member split: option.splits)

lemma sum_by_status:
  "\<forall>a \<in> set xs. al_status a \<in> {None, Some ''accepted'', Some ''rejected'', Some ''failed''} \<Longrightarrow>
   sum_where (\<lambda>a. True) al_cost_usd xs = sum_where (\<lambda>a. al_status a = Some ''accepted'') al_cost_usd xs
     + sum_where (\<lambda>a. al_status a \<in> {Some ''rejected'', Some ''failed''}) al_cost_usd xs
     + sum_where (\<lambda>a. al_status a = None) al_cost_usd xs"
  by (induction xs) auto

lemma alloc_rows_total:
  "sum_where (\<lambda>a. al_workflow_id a = w) al_cost_usd (alloc_rows window since outcomes requests)
   = sum_where (\<lambda>r. since \<le> instant_of (rq_timestamp r) \<and> rq_tags r ''workflow_id'' = Some w) rq_cost_usd requests"
  unfolding alloc_rows_def
  by (induction requests) (auto simp: List.map_filter_def alloc_row_of_def Let_def split: option.split)

text \<open>
  Allocation loses no money and counts none twice: over all rows of a workflow the reported costs add up to
  what its requests cost, and each row splits into accepted, rework and unattributed cost.
\<close>

theorem spend_allocated_once:
  assumes "\<forall>u \<in> set outcomes. row_typed u"
  shows "sum_list (map we_cost_total_usd (filter (\<lambda>e. we_workflow_id e = w) (get_workflow_economics since window outcomes requests)))
      = sum_where (\<lambda>r. since \<le> instant_of (rq_timestamp r) \<and> rq_tags r ''workflow_id'' = Some w) rq_cost_usd requests
    \<and> list_all split_cost (get_workflow_economics since window outcomes requests)"
proof -
  let ?alloc = "alloc_rows window since outcomes requests"
  let ?counted = "filter (\<lambda>u. since \<le> ow_event_time u) outcomes"
  let ?keys = "economics_keys ?alloc ?counted"
  let ?key = "\<lambda>a. (al_workflow_id a, al_outcome_type a)"
  have total: "we_cost_total_usd (economics_row ?alloc ?counted k) = sum_where (\<lambda>a. ?key a = k) al_cost_usd ?alloc" for k
    by (simp add: economics_row_def Let_def sum_where_filter)
  have key: "we_workflow_id (economics_row ?alloc ?counted k) = fst k" for k
    by (simp add: economics_row_def Let_def)
  have "sum_list (map we_cost_total_usd (filter (\<lambda>e. we_workflow_id e = w) (get_workflow_economics since window outcomes requests)))
      = sum_list (map we_cost_total_usd (filter (\<lambda>e. we_workflow_id e = w) (map (economics_row ?alloc ?counted) ?keys)))"
    by (simp add: get_workflow_economics_def Let_def sum_list_sort_key)
  also have "\<dots> = sum_list (map (\<lambda>k. sum_where (\<lambda>a. ?key a = k) al_cost_usd ?alloc) (filter (\<lambda>k. fst k = w) ?keys))"
    by (simp add: filter_map o_def total key)
  also have "\<dots> = sum_list (map (\<lambda>k. sum_where (\<lambda>a. ?key a = k \<and> al_workflow_id a = w) al_cost_usd ?alloc) (filter (\<lambda>k. fst k = w) ?keys))"
    by (intro arg_cong[of _ _ sum_list] map_cong refl sum_where_cong) auto
  also have "\<dots> = sum_where (\<lambda>a. al_workflow_id a = w) al_cost_usd ?alloc"
    by (rule sum_where_partition) (auto simp: economics_keys_def)
  also have "\<dots> = sum_where (\<lambda>r. since \<le> instant_of (rq_timestamp r) \<and> rq_tags r ''workflow_id'' = Some w) rq_cost_usd requests"
    by (rule alloc_rows_total)
  moreover have "split_cost (economics_row ?alloc ?counted k)" for k
  proof -
    have "\<forall>a \<in> set (filter (\<lambda>a. ?key a = k) ?alloc). al_status a \<in> {None, Some ''accepted'', Some ''rejected'', Some ''failed''}"
    proof
      fix a assume "a \<in> set (filter (\<lambda>a. ?key a = k) ?alloc)"
      then have "a \<in> set ?alloc" by simp
      then show "al_status a \<in> {None, Some ''accepted'', Some ''rejected'', Some ''failed''}" by (rule alloc_status[OF _ assms])
    qed
    from sum_by_status[OF this] show ?thesis by (simp add: split_cost_def economics_row_def Let_def)
  qed
  ultimately show ?thesis by (auto simp: list_all_iff get_workflow_economics_def Let_def)
qed

text \<open>
  The unit cost of a row with accepted outcomes is the cost allocated to the outcomes of its type, per
  accepted one. Spend that led to no outcome is in a row of its own and in no unit cost, although the
  documentation of \<open>WorkflowEconomics\<close> says that the total spend of the workflow is divided.
\<close>

theorem unit_cost_without_unattributed:
  assumes "\<forall>u \<in> set outcomes. metadata_type u \<noteq> None \<and> metadata_type u \<noteq> Some (JStr ''unattributed'')"
    and "e \<in> set (get_workflow_economics since window outcomes requests)" "we_cost_per_accepted_usd e = Some c"
  shows "we_cost_unattributed_usd e = 0 \<and> c * real (we_accepted_count e) = we_cost_total_usd e"
proof -
  let ?alloc = "alloc_rows window since outcomes requests"
  let ?counted = "filter (\<lambda>u. since \<le> ow_event_time u) outcomes"
  obtain k where k: "e = economics_row ?alloc ?counted k"
    using assms(2) by (auto simp: get_workflow_economics_def Let_def)
  have pos: "we_accepted_count e > 0" and c: "c = we_cost_total_usd e / real (we_accepted_count e)"
    using assms(3) by (auto simp: k economics_row_def Let_def split: if_splits)
  obtain u where "u \<in> set ?counted" "counted_type u = snd k"
    using pos by (auto simp: k economics_row_def Let_def filter_empty_conv)
  then have ty: "snd k \<noteq> JStr ''unattributed''" using assms(1) by (force simp: counted_type_def split: option.splits)
  have "al_status a \<noteq> None" if "a \<in> set ?alloc" "al_outcome_type a = snd k" for a
    using that ty by (auto simp: alloc_rows_def alloc_row_of_def List.map_filter_def Let_def bind_eq_Some_conv split: option.splits)
  then have "filter (\<lambda>a. (al_workflow_id a, al_outcome_type a) = k \<and> al_status a = None) ?alloc = []"
    by (fastforce simp: filter_empty_conv)
  then have "we_cost_unattributed_usd e = 0" by (simp add: k economics_row_def Let_def sum_where_def)
  with pos c show ?thesis by simp
qed


section \<open>Witnesses\<close>

definition demo_derive :: derive_env where
  "demo_derive = \<lparr>de_gh = True, de_path = ''/r'', de_repo = Some ''r'', de_repo_id = None, de_slug = Inr (Some ''o/r''),
     de_slug_again = Inr (Some ''o/r''), de_raw = Inr ''x'',
     de_loads = (\<lambda>s. Some (JArr [JArr [JObj [(''number'', JInt 7), (''merged_at'', JStr ''t''),
       (''user'', JObj [(''login'', JStr ''u'')])]]])),
     de_fromiso = (\<lambda>s. Some 5), de_str = (\<lambda>j. ''7''), de_now = 9\<rparr>"

definition demo_pr :: pull_request where
  "demo_pr = \<lparr>pr_number = JInt 7, pr_title = JStr [], pr_merged_at = JStr ''t'', pr_closed_at = JNull, pr_url = JStr [],
     pr_author = JObj [(''login'', JStr ''u'')]\<rparr>"

lemma demo_fetch:
  "fetch_pull_requests (de_loads demo_derive) (de_fromiso demo_derive) (de_slug demo_derive) (de_raw demo_derive) None None None
   = Inr [demo_pr]"
  by (simp add: demo_derive_def fetch_pull_requests_def flatten_pages_def normalise_pr_def json_or_def jfield_def
      parse_ts_def in_event_window_def demo_pr_def)

lemma demo_build:
  "\<exists>oc. build_outcomes (de_fromiso demo_derive) (de_str demo_derive) [demo_pr] wid slug = Some ([oc], 0)
     \<and> oc_status oc = ''accepted''"
  by (simp add: build_outcomes_def outcome_of_pr_def demo_pr_def parse_ts_def demo_derive_def json_or_def)

theorem derive_idempotent_witness:
  "\<exists>res db res'. derive_pr_outcomes demo_derive None None None empty_outcomes = Inr (res, db)
     \<and> derive_pr_outcomes (demo_derive\<lparr>de_now := 20\<rparr>) None None None db = Inr (res', db) \<and> dr_inserted res = 1
     \<and> dr_duplicates res' = 1"
proof -
  obtain oc where oc: "build_outcomes (de_fromiso demo_derive) (de_str demo_derive) [demo_pr]
      (the (repo_workflow_id (py_or None (Some ''r'')))) (Some ''o/r'') = Some ([oc], 0)" "oc_status oc = ''accepted''"
    using demo_build by blast
  have env: "de_gh demo_derive" "de_repo demo_derive = Some ''r''" "de_repo_id demo_derive = None"
    "de_slug_again demo_derive = Inr (Some ''o/r'')" by (simp_all add: demo_derive_def)
  obtain res db where run: "derive_pr_outcomes demo_derive None None None empty_outcomes = Inr (res, db)"
    and res: "dr_inserted res = 1" "dr_accepted res = 1" "dr_rejected res = 0"
    using oc(2) by (auto simp: derive_pr_outcomes_def env demo_fetch oc(1) record_derived_def reconcile_derived_outcome_def
        lookup_key_def empty_outcomes_def OUTCOME_STATUSES_def)
  have dist: "distinct (map oc_outcome_id ocs)"
    if "build_outcomes (de_fromiso demo_derive) (de_str demo_derive) prs wid slug = Some (ocs, n)"
      "fetch_pull_requests (de_loads demo_derive) (de_fromiso demo_derive) (de_slug demo_derive) (de_raw demo_derive) None None None = Inr prs"
    for prs wid slug ocs n
  proof -
    have "prs = [demo_pr]" using that(2) demo_fetch by simp
    then show ?thesis using that(1) demo_build[of wid slug] by auto
  qed
  have "\<exists>res'. derive_pr_outcomes (demo_derive\<lparr>de_now := 20\<rparr>) None None None db = Inr (res', db)
      \<and> dr_inserted res' = 0 \<and> dr_corrected res' = 0 \<and> dr_duplicates res' = dr_accepted res + dr_rejected res"
    by (rule derive_idempotent[OF run]) (rule dist)
  with run res show ?thesis by auto
qed

definition demo_outcome :: outcome where
  "demo_outcome = \<lparr>oc_outcome_id = ''o'', oc_workflow_id = ''w'', oc_status = ''accepted'', oc_outcome_type = ''pr'',
     oc_event_time = instant_of (rq_timestamp (plain_row ''a'')), oc_business_value = Some 5, oc_currency = Some ''EUR'', oc_source = ''derived'', oc_metadata = []\<rparr>"

theorem audit_trail_complete_witness:
  "\<exists>r s. r \<in> set (od_outcomes (run_steps outcome_step [Insert_outcome demo_outcome, Correct ''o'' ''failed'' ''x'' None 3] empty_outcomes))
     \<and> replay_corrections s (corrections_of (ow_outcome_id r)
          (run_steps outcome_step [Insert_outcome demo_outcome, Correct ''o'' ''failed'' ''x'' None 3] empty_outcomes)) = Some (ow_status r, ow_event_time r)"
proof -
  let ?db = "run_steps outcome_step [Insert_outcome demo_outcome, Correct ''o'' ''failed'' ''x'' None 3] empty_outcomes"
  have "od_outcomes ?db \<noteq> []"
    by (simp add: outcome_step_def insert_outcome_def correct_outcome_def empty_outcomes_def demo_outcome_def
        OUTCOME_STATUSES_def lookup_key_def outcome_columns_def Let_def update_where_def)
  then have "hd (od_outcomes ?db) \<in> set (od_outcomes ?db)" by (rule hd_in_set)
  with audit_trail_complete[OF this] show ?thesis by blast
qed

definition tagged_row :: econ_row where
  "tagged_row = (plain_row ''a'')\<lparr>rq_tags := [''workflow_id'' \<mapsto> ''w'']\<rparr>"

theorem spend_allocated_once_witness:
  "sum_list (map we_cost_total_usd (filter (\<lambda>e. we_workflow_id e = ''w'')
     (get_workflow_economics 0 60 [outcome_columns demo_outcome] [tagged_row]))) = 2"
proof -
  have "\<forall>u \<in> set [outcome_columns demo_outcome]. row_typed u"
    by (simp add: row_typed_def demo_outcome_def OUTCOME_STATUSES_def)
  from spend_allocated_once[OF this, of "''w''" 0 60 "[tagged_row]"] show ?thesis
    by (simp add: tagged_row_def plain_row_def instant_of_def toordinal_def days_before_year_def days_before_month_def)
qed

theorem unit_cost_without_unattributed_witness:
  "\<exists>e c. e \<in> set (get_workflow_economics 0 60 [outcome_columns demo_outcome] [tagged_row]) \<and> we_cost_per_accepted_usd e = Some c
     \<and> we_cost_unattributed_usd e = 0 \<and> c * real (we_accepted_count e) = we_cost_total_usd e"
proof -
  let ?alloc = "alloc_rows 60 0 [outcome_columns demo_outcome] [tagged_row]" and ?counted = "[outcome_columns demo_outcome]"
  let ?e = "economics_row ?alloc ?counted (''w'', JStr ''pr'')"
  have ty: "counted_type (outcome_columns demo_outcome) = JStr ''pr''" "metadata_type (outcome_columns demo_outcome) = Some (JStr ''pr'')"
    by (simp_all add: counted_type_def metadata_type_def outcome_columns_def demo_outcome_def with_default_def jfield_def)
  have late: "0 \<le> ow_event_time (outcome_columns demo_outcome)" "ow_workflow_id (outcome_columns demo_outcome) = ''w''"
    "ow_status (outcome_columns demo_outcome) = ''accepted''"
    by (simp_all add: demo_outcome_def plain_row_def instant_of_def toordinal_def days_before_year_def days_before_month_def)
  have mem: "?e \<in> set (get_workflow_economics 0 60 ?counted [tagged_row])"
  proof -
    have "filter (\<lambda>u. 0 \<le> ow_event_time u) ?counted = ?counted" using late by simp
    moreover have "(''w'', JStr ''pr'') \<in> set (economics_keys ?alloc ?counted)"
      using ty late by (simp add: economics_keys_def)
    ultimately show ?thesis by (simp only: get_workflow_economics_def Let_def set_sort set_map imageI)
  qed
  have per: "we_cost_per_accepted_usd ?e = Some (we_cost_total_usd ?e)"
    using ty late by (simp add: economics_row_def Let_def)
  have "\<forall>u \<in> set ?counted. metadata_type u \<noteq> None \<and> metadata_type u \<noteq> Some (JStr ''unattributed'')"
    using ty by simp
  from unit_cost_without_unattributed[OF this mem per] mem per show ?thesis by blast
qed

end
