(* ===== verification/Agent_Economics.thy ===== *)
theory Agent_Economics
  imports Outcomes
begin

text \<open>
  Agents, workflows and their runs, and what they cost (\<open>storage/agent_economics.py\<close>): registration with
  its workspace checks, the economics of agents, tasks, runs with all their child runs, and workflows, the
  attribution of a workspace's spend, and the graph of a workflow run with its causal links.
\<close>

section \<open>Entities\<close>

record agent =
  ag_agent_id :: string
  ag_name :: string
  ag_version :: string
  ag_owner :: string
  ag_environment :: string
  ag_purpose :: string
  ag_status :: string
  ag_workspace :: string
  ag_created_at :: instant

record agent_workflow =
  aw_workflow_id :: string
  aw_name :: string
  aw_workspace :: string
  aw_created_at :: instant

record workflow_run =
  wr_workflow_run_id :: string
  wr_workflow_id :: string
  wr_workspace :: string
  wr_status :: string
  wr_started_at :: instant
  wr_completed_at :: "instant option"

record agent_run =
  ar_run_id :: string
  ar_agent_id :: string
  ar_workflow_id :: "string option"
  ar_workflow_run_id :: "string option"
  ar_parent_run_id :: "string option"
  ar_root_run_id :: "string option"
  ar_workspace :: string
  ar_status :: string
  ar_started_at :: instant
  ar_completed_at :: "instant option"

record agent_task =
  at_task_id :: string
  at_run_id :: string
  at_name :: string
  at_status :: string
  at_workspace :: string
  at_created_at :: instant
  at_completed_at :: "instant option"

record agent_action =
  aa_action_id :: string
  aa_task_id :: string
  aa_run_id :: string
  aa_action_type :: string
  aa_tool_name :: string
  aa_status :: string
  aa_cost_usd :: usd
  aa_workspace :: string
  aa_created_at :: instant

record econ_db =
  ed_requests :: "econ_row table"
  ed_agents :: "agent table"
  ed_workflows :: "agent_workflow table"
  ed_workflow_runs :: "workflow_run table"
  ed_runs :: "agent_run table"
  ed_tasks :: "agent_task table"
  ed_actions :: "agent_action table"
  ed_outcomes :: "outcome_row table"

section \<open>Registration\<close>

text \<open>\<open>INSERT ... ON CONFLICT(key) DO UPDATE\<close>; \<open>merge\<close> gets the stored and the new row.\<close>

definition upsert :: "('r \<Rightarrow> 'k) \<Rightarrow> ('r \<Rightarrow> 'r \<Rightarrow> 'r) \<Rightarrow> 'r \<Rightarrow> 'r table \<Rightarrow> 'r table" where
  "upsert key merge r t =
     (if key r \<in> key ` set t then update_where (\<lambda>x. key x = key r) (\<lambda>x. merge x r) t else t @ [r])"

text \<open>A row with this key that belongs to another workspace.\<close>

definition foreign :: "('r \<Rightarrow> string) \<Rightarrow> ('r \<Rightarrow> string) \<Rightarrow> string \<Rightarrow> string \<Rightarrow> 'r table \<Rightarrow> bool" where
  "foreign key workspace k ws t = (case lookup_key key k t of None \<Rightarrow> False | Some r \<Rightarrow> workspace r \<noteq> ws)"

text \<open>\<open>None\<close> is the ValueError.\<close>

definition insert_agent :: "agent \<Rightarrow> econ_db \<Rightarrow> econ_db option" where
  "insert_agent a db =
     (if foreign ag_agent_id ag_workspace (ag_agent_id a) (ag_workspace a) (ed_agents db) then None
      else Some (db\<lparr>ed_agents := upsert ag_agent_id
        (\<lambda>x a. if ag_workspace x = ag_workspace a then a\<lparr>ag_created_at := ag_created_at x\<rparr> else x) a (ed_agents db)\<rparr>))"

definition get_agent :: "string \<Rightarrow> string option \<Rightarrow> econ_db \<Rightarrow> agent option" where
  "get_agent aid ws db =
     find (\<lambda>a. ag_agent_id a = aid \<and> (truthy ws \<longrightarrow> Some (ag_workspace a) = ws)) (ed_agents db)"

definition list_agents :: "string \<Rightarrow> econ_db \<Rightarrow> agent list" where
  "list_agents ws db = sort_key (\<lambda>a. - ag_created_at a) (filter (\<lambda>a. ag_workspace a = ws) (ed_agents db))"

definition insert_agent_workflow :: "agent_workflow \<Rightarrow> econ_db \<Rightarrow> econ_db option" where
  "insert_agent_workflow w db =
     (if foreign aw_workflow_id aw_workspace (aw_workflow_id w) (aw_workspace w) (ed_workflows db) then None
      else Some (db\<lparr>ed_workflows := upsert aw_workflow_id
        (\<lambda>x w. if aw_workspace x = aw_workspace w then w else x) w (ed_workflows db)\<rparr>))"

definition insert_workflow_run :: "workflow_run \<Rightarrow> econ_db \<Rightarrow> econ_db option" where
  "insert_workflow_run w db =
     (if foreign aw_workflow_id aw_workspace (wr_workflow_id w) (wr_workspace w) (ed_workflows db) then None
      else if (\<exists>r \<in> set (ed_runs db). ar_workflow_run_id r = Some (wr_workflow_run_id w) \<and> ar_workspace r \<noteq> wr_workspace w)
      then None
      else if (\<exists>r \<in> set (ed_requests db). eq_workflow_run_id r = Some (wr_workflow_run_id w)
                 \<and> (case eq_workspace r of None \<Rightarrow> ''default'' | Some ws \<Rightarrow> ws) \<noteq> wr_workspace w) then None
      else Some (db\<lparr>ed_workflow_runs := upsert (\<lambda>x. (wr_workspace x, wr_workflow_run_id x)) (\<lambda>x w. w) w (ed_workflow_runs db)\<rparr>))"

definition get_workflow_run :: "string \<Rightarrow> string \<Rightarrow> econ_db \<Rightarrow> workflow_run option" where
  "get_workflow_run wrid ws db =
     find (\<lambda>w. wr_workflow_run_id w = wrid \<and> wr_workspace w = ws) (ed_workflow_runs db)"

definition insert_agent_run :: "agent_run \<Rightarrow> econ_db \<Rightarrow> econ_db option" where
  "insert_agent_run r db =
     (let ws = ar_workspace r
      in if foreign ar_run_id ar_workspace (ar_run_id r) ws (ed_runs db) then None
         else if truthy (ar_parent_run_id r) \<and> foreign ar_run_id ar_workspace (the (ar_parent_run_id r)) ws (ed_runs db) then None
         else if (\<exists>x \<in> set (ed_runs db). ar_parent_run_id x = Some (ar_run_id r) \<and> ar_workspace x \<noteq> ws) then None
         else if truthy (ar_workflow_id r) \<and> foreign aw_workflow_id aw_workspace (the (ar_workflow_id r)) ws (ed_workflows db) then None
         else if foreign ag_agent_id ag_workspace (ar_agent_id r) ws (ed_agents db) then None
         else if truthy (ar_workflow_run_id r) \<and> get_workflow_run (the (ar_workflow_run_id r)) ws db = None
                 \<and> (\<exists>w \<in> set (ed_workflow_runs db). wr_workflow_run_id w = the (ar_workflow_run_id r)) then None
         else Some (db\<lparr>ed_runs := upsert ar_run_id (\<lambda>x r. if ar_workspace x = ar_workspace r then r else x) r (ed_runs db)\<rparr>))"

definition get_agent_run :: "string \<Rightarrow> string option \<Rightarrow> econ_db \<Rightarrow> agent_run option" where
  "get_agent_run rid ws db =
     find (\<lambda>r. ar_run_id r = rid \<and> (truthy ws \<longrightarrow> Some (ar_workspace r) = ws)) (ed_runs db)"

definition insert_agent_task :: "agent_task \<Rightarrow> econ_db \<Rightarrow> econ_db" where
  "insert_agent_task k db = db\<lparr>ed_tasks := insert_or_replace at_task_id k (ed_tasks db)\<rparr>"

definition insert_agent_action :: "agent_action \<Rightarrow> econ_db \<Rightarrow> econ_db" where
  "insert_agent_action a db = db\<lparr>ed_actions := insert_or_replace aa_action_id a (ed_actions db)\<rparr>"

section \<open>Economics of agents, tasks and workflows\<close>

text \<open>\<open>(column = ? OR json_extract(tags, '$.key') = ?)\<close>\<close>

definition names :: "(econ_row \<Rightarrow> string option) \<Rightarrow> string \<Rightarrow> string \<Rightarrow> econ_row \<Rightarrow> bool" where
  "names column k v r \<longleftrightarrow> column r = Some v \<or> rq_tags r k = Some v"

definition in_workspace :: "string option \<Rightarrow> econ_row \<Rightarrow> bool" where
  "in_workspace ws r \<longleftrightarrow> (truthy ws \<longrightarrow> names eq_workspace ''workspace_id'' (the ws) r)"

definition at_or_after :: "instant option \<Rightarrow> instant \<Rightarrow> bool" where
  "at_or_after since t = (case since of None \<Rightarrow> True | Some s \<Rightarrow> s \<le> t)"

definition count_where :: "('r \<Rightarrow> bool) \<Rightarrow> 'r table \<Rightarrow> nat" where
  "count_where p t = length (filter p t)"

definition int_sum_where :: "('r \<Rightarrow> bool) \<Rightarrow> ('r \<Rightarrow> int) \<Rightarrow> 'r table \<Rightarrow> int" where
  "int_sum_where p f t = sum_list (map f (filter p t))"

definition usd6 :: "usd \<Rightarrow> usd" where
  "usd6 x = py_round x 6"

record entity_economics =
  ee_id :: string
  ee_total_spend_usd :: usd
  ee_model_spend_usd :: usd
  ee_tool_action_spend_usd :: usd
  ee_retry_waste_usd :: usd
  ee_requests_count :: nat
  ee_actions_count :: nat
  ee_tool_calls_count :: int
  ee_input_tokens :: int
  ee_output_tokens :: int
  ee_reasoning_tokens :: int
  ee_cache_read_tokens :: int
  ee_cache_saved_usd :: usd

definition economics_of :: "string \<Rightarrow> (econ_row \<Rightarrow> bool) \<Rightarrow> (agent_action \<Rightarrow> bool) \<Rightarrow> econ_db \<Rightarrow> entity_economics" where
  "economics_of i p q db =
     (let model = sum_where p rq_cost_usd (ed_requests db);
          act = sum_where q aa_cost_usd (ed_actions db)
      in \<lparr>ee_id = i, ee_total_spend_usd = usd6 (model + act), ee_model_spend_usd = usd6 model,
          ee_tool_action_spend_usd = usd6 act,
          ee_retry_waste_usd = usd6 (sum_where (\<lambda>r. p r \<and> rq_status_code r \<ge> 400) rq_cost_usd (ed_requests db)),
          ee_requests_count = count_where p (ed_requests db), ee_actions_count = count_where q (ed_actions db),
          ee_tool_calls_count = int_sum_where p eq_tool_calls (ed_requests db),
          ee_input_tokens = int_sum_where p eq_input_tokens (ed_requests db),
          ee_output_tokens = int_sum_where p eq_output_tokens (ed_requests db),
          ee_reasoning_tokens = int_sum_where p eq_reasoning_tokens (ed_requests db),
          ee_cache_read_tokens = int_sum_where p eq_cache_read_tokens (ed_requests db),
          ee_cache_saved_usd = usd6 (sum_where p eq_cache_saved_usd (ed_requests db))\<rparr>)"

definition get_agent_economics :: "string \<Rightarrow> string option \<Rightarrow> instant option \<Rightarrow> econ_db \<Rightarrow> entity_economics" where
  "get_agent_economics aid ws since db =
     economics_of aid
       (\<lambda>r. names eq_agent_id ''agent_id'' aid r \<and> in_workspace ws r \<and> at_or_after since (instant_of (rq_timestamp r)))
       (\<lambda>a. (\<exists>r \<in> set (ed_runs db). ar_agent_id r = aid \<and> ar_run_id r = aa_run_id a)
            \<and> (truthy ws \<longrightarrow> Some (aa_workspace a) = ws) \<and> at_or_after since (aa_created_at a)) db"

text \<open>The task report has no reasoning, cache and saving figures.\<close>

definition get_task_economics :: "string \<Rightarrow> string option \<Rightarrow> econ_db \<Rightarrow> entity_economics" where
  "get_task_economics tid ws db =
     (economics_of tid (\<lambda>r. names eq_task_id ''task_id'' tid r \<and> in_workspace ws r)
        (\<lambda>a. aa_task_id a = tid \<and> (truthy ws \<longrightarrow> Some (aa_workspace a) = ws)) db)
     \<lparr>ee_reasoning_tokens := 0, ee_cache_read_tokens := 0, ee_cache_saved_usd := 0\<rparr>"

record workflow_report =
  wp_economics :: entity_economics
  wp_outcomes_count :: nat
  wp_accepted_outcomes :: nat
  wp_rejected_outcomes :: nat
  wp_failed_outcomes :: nat
  wp_cost_per_accepted_outcome_usd :: "usd option"

definition get_workflow_economics :: "string \<Rightarrow> string option \<Rightarrow> instant option \<Rightarrow> econ_db \<Rightarrow> workflow_report" where
  "get_workflow_economics wid ws since db =
     (let p = (\<lambda>r. names eq_workflow_id ''workflow_id'' wid r \<and> in_workspace ws r \<and> at_or_after since (instant_of (rq_timestamp r)));
          q = (\<lambda>a. (\<exists>r \<in> set (ed_runs db). ar_workflow_id r = Some wid \<and> ar_run_id r = aa_run_id a)
                 \<and> (truthy ws \<longrightarrow> Some (aa_workspace a) = ws) \<and> at_or_after since (aa_created_at a));
          with = (\<lambda>s. count_where (\<lambda>u. ow_workflow_id u = wid \<and> ow_status u = s) (ed_outcomes db));
          total = sum_where p rq_cost_usd (ed_requests db) + sum_where q aa_cost_usd (ed_actions db)
      in \<lparr>wp_economics = economics_of wid p q db,
          wp_outcomes_count = with ''accepted'' + with ''rejected'' + with ''failed'',
          wp_accepted_outcomes = with ''accepted'', wp_rejected_outcomes = with ''rejected'',
          wp_failed_outcomes = with ''failed'',
          wp_cost_per_accepted_outcome_usd =
            (if with ''accepted'' > 0 then Some (usd6 (total / real (with ''accepted''))) else None)\<rparr>)"


section \<open>Runs with their child runs\<close>

text \<open>\<open>workspace_id = ? OR (workspace_id IS NULL AND ? = 'default')\<close>\<close>

definition owned :: "string \<Rightarrow> econ_row \<Rightarrow> bool" where
  "owned ws r \<longleftrightarrow> eq_workspace r = Some ws \<or> (eq_workspace r = None \<and> ws = ''default'')"

definition run_tree :: "string \<Rightarrow> string \<Rightarrow> agent_run table \<Rightarrow> (string \<times> string option) list" where
  "run_tree ws rid runs =
     (let row = (\<lambda>r. (ar_run_id r, ar_parent_run_id r)); mine = filter (\<lambda>r. ar_workspace r = ws) runs
      in recursive_rows (\<lambda>(x, p). map row (filter (\<lambda>r. ar_parent_run_id r = Some x) mine)) (map row mine) []
           (map row (filter (\<lambda>r. ar_run_id r = rid) mine)))"

definition run_cost :: "string \<Rightarrow> string \<Rightarrow> econ_db \<Rightarrow> usd \<times> usd" where
  "run_cost ws rid db =
     (sum_where (\<lambda>r. names eq_run_id ''run_id'' rid r \<and> owned ws r) rq_cost_usd (ed_requests db),
      sum_where (\<lambda>a. aa_run_id a = rid \<and> aa_workspace a = ws) aa_cost_usd (ed_actions db))"

record child_economics =
  ch_run_id :: string
  ch_total_spend_usd :: usd
  ch_model_spend_usd :: usd
  ch_action_spend_usd :: usd
  ch_requests_count :: nat
  ch_actions_count :: nat

definition child_of :: "string \<Rightarrow> string \<Rightarrow> econ_db \<Rightarrow> child_economics" where
  "child_of ws rid db =
     (let (m, a) = run_cost ws rid db
      in \<lparr>ch_run_id = rid, ch_total_spend_usd = usd6 (m + a), ch_model_spend_usd = usd6 m, ch_action_spend_usd = usd6 a,
          ch_requests_count = count_where (\<lambda>r. names eq_run_id ''run_id'' rid r \<and> owned ws r) (ed_requests db),
          ch_actions_count = count_where (\<lambda>a. aa_run_id a = rid \<and> aa_workspace a = ws) (ed_actions db)\<rparr>)"

record run_economics =
  re_run_id :: string
  re_total_rollup_spend_usd :: usd
  re_direct_spend_usd :: usd
  re_children_spend_usd :: usd
  re_retry_waste_usd :: usd
  re_child_runs_count :: nat
  re_children_breakdown :: "child_economics list"

definition total_cost :: "string \<Rightarrow> econ_db \<Rightarrow> string \<Rightarrow> usd" where
  "total_cost ws db rid = fst (run_cost ws rid db) + snd (run_cost ws rid db)"

text \<open>Direct and children's spend before they are rounded, and the runs of the tree.\<close>

definition run_rollup :: "string \<Rightarrow> string \<Rightarrow> econ_db \<Rightarrow> string list \<times> usd \<times> usd" where
  "run_rollup ws rid db =
     (let children = filter (\<lambda>x. x \<noteq> rid) (map fst (run_tree ws rid (ed_runs db)))
      in (children, total_cost ws db rid, sum_list (map (total_cost ws db) children)))"

definition get_run_economics :: "string \<Rightarrow> string option \<Rightarrow> econ_db \<Rightarrow> run_economics" where
  "get_run_economics rid ws0 db =
     (case get_agent_run rid ws0 db of
        None \<Rightarrow> \<lparr>re_run_id = rid, re_total_rollup_spend_usd = 0, re_direct_spend_usd = 0, re_children_spend_usd = 0,
                  re_retry_waste_usd = 0, re_child_runs_count = 0, re_children_breakdown = []\<rparr>
      | Some first \<Rightarrow>
          (let ws = ar_workspace first;
               tree = map fst (run_tree ws rid (ed_runs db));
               ids = (if tree = [] then [rid] else tree);
               (children, direct, below) = run_rollup ws rid db
           in \<lparr>re_run_id = rid, re_total_rollup_spend_usd = usd6 (direct + below), re_direct_spend_usd = usd6 direct,
               re_children_spend_usd = usd6 below,
               re_retry_waste_usd = usd6 (sum_where (\<lambda>r. (\<exists>x \<in> set ids. names eq_run_id ''run_id'' x r) \<and> owned ws r
                   \<and> rq_status_code r \<ge> 400) rq_cost_usd (ed_requests db)),
               re_child_runs_count = length children,
               re_children_breakdown = map (\<lambda>x. child_of ws x db) children\<rparr>))"

section \<open>Attribution of a workspace\<close>

record attribution =
  an_total_workspace_spend_usd :: usd
  an_agent_attributed_spend_usd :: usd
  an_unattributed_spend_usd :: usd
  an_total_requests :: nat
  an_agent_requests :: nat
  an_unattributed_requests :: int
  an_invariant_holds :: bool

definition attributed :: "econ_row \<Rightarrow> bool" where
  "attributed r \<longleftrightarrow> eq_agent_id r \<noteq> None \<or> rq_tags r ''agent_id'' \<noteq> None"

definition get_workspace_agent_attribution :: "string \<Rightarrow> econ_db \<Rightarrow> attribution" where
  "get_workspace_agent_attribution ws db =
     (let total = sum_where (owned ws) rq_cost_usd (ed_requests db);
          agent = sum_where (\<lambda>r. owned ws r \<and> attributed r) rq_cost_usd (ed_requests db);
          n = count_where (owned ws) (ed_requests db);
          k = count_where (\<lambda>r. owned ws r \<and> attributed r) (ed_requests db)
      in \<lparr>an_total_workspace_spend_usd = usd6 total, an_agent_attributed_spend_usd = usd6 agent,
          an_unattributed_spend_usd = usd6 (total - agent), an_total_requests = n, an_agent_requests = k,
          an_unattributed_requests = int n - int k,
          an_invariant_holds = (\<bar>total - (agent + (total - agent))\<bar> < 1 / 1000000)\<rparr>)"

section \<open>The graph of a workflow run\<close>

definition workflow_tree :: "string \<Rightarrow> string \<Rightarrow> agent_run table \<Rightarrow> string list" where
  "workflow_tree ws wrid runs =
     (let mine = filter (\<lambda>r. ar_workspace r = ws) runs
      in recursive_rows (\<lambda>x. map ar_run_id (filter (\<lambda>r. ar_parent_run_id r = Some x) mine)) (map ar_run_id mine) []
           (map ar_run_id (filter (\<lambda>r. ar_workflow_run_id r = Some wrid) mine)))"

definition graph_selected :: "string \<Rightarrow> string \<Rightarrow> econ_db \<Rightarrow> econ_row list" where
  "graph_selected ws wrid db =
     filter (\<lambda>r. eq_workspace r = Some ws
        \<and> (eq_workflow_run_id r = Some wrid
           \<or> (\<exists>x \<in> set (workflow_tree ws wrid (ed_runs db)). eq_run_id r = Some x))) (ed_requests db)"

text \<open>The rows (source, target, id) of the walks that start with a link of a selected request.\<close>

definition graph_walk :: "link list \<Rightarrow> string list \<Rightarrow> (string \<times> string \<times> string) list" where
  "graph_walk links sources =
     (let start = List.map_filter (\<lambda>(s, x, k). if s \<in> set sources then Some (s, x, x) else None) links
      in recursive_rows (\<lambda>(s, x, i). map (\<lambda>y. (s, x, y)) (targets_of links i))
           (concat (map (\<lambda>(s, x, i). map (\<lambda>(s', y, k). (s, x, y)) links) start)) [] start)"

definition link_invalid :: "(string \<times> string \<times> string) list \<Rightarrow> link \<Rightarrow> bool" where
  "link_invalid walked l = (case l of (s, x, k) \<Rightarrow> (s, x, s) \<in> set walked)"

datatype resolution = Invalid | Unresolved | Outside_selection | Resolved | Outside_page

definition in_ledger :: "string \<Rightarrow> string \<Rightarrow> econ_db \<Rightarrow> bool" where
  "in_ledger ws e db \<longleftrightarrow> (\<exists>d \<in> set (ed_requests db). eq_event_id d = e \<and> eq_workspace d = Some ws)"

definition resolve_link :: "string \<Rightarrow> econ_db \<Rightarrow> (string \<times> string \<times> string) list \<Rightarrow> string list \<Rightarrow> string list \<Rightarrow> link \<Rightarrow> resolution" where
  "resolve_link ws db walked sources page l =
     (case l of (s, x, k) \<Rightarrow>
        if link_invalid walked l then Invalid
        else if \<not> in_ledger ws x db then Unresolved
        else if x \<notin> set sources then Outside_selection
        else if x \<notin> set page then Outside_page else Resolved)"

record graph_totals =
  gt_request_count :: nat
  gt_ledger_cost_usd :: usd
  gt_linked_cost_usd :: usd
  gt_unlinked_cost_usd :: usd
  gt_unpriced_count :: nat
  gt_unknown_pricing_count :: nat
  gt_unresolved_count :: nat
  gt_invalid_count :: nat
  gt_cost_complete :: bool

datatype node_type = Workflow_run_node | Agent_run_node | Request_node

datatype edge_kind = Contains | Child_run | Link link_kind

record graph_edge =
  ge_source :: string
  ge_source_type :: node_type
  ge_target :: string
  ge_target_type :: node_type
  ge_kind :: edge_kind

record run_graph =
  rg_workflow_run :: workflow_run
  rg_agent_runs :: "agent_run list"
  rg_requests :: "econ_row list"
  rg_edges :: "graph_edge list"
  rg_references :: "(link \<times> resolution) list"
  rg_totals :: graph_totals
  rg_truncated :: bool
  rg_agent_runs_truncated :: bool

definition run_edges :: "string \<Rightarrow> agent_run list \<Rightarrow> graph_edge list" where
  "run_edges wrid runs =
     concat (map (\<lambda>r.
       (if ar_workflow_run_id r = Some wrid
        then [\<lparr>ge_source = wrid, ge_source_type = Workflow_run_node, ge_target = ar_run_id r,
               ge_target_type = Agent_run_node, ge_kind = Contains\<rparr>] else [])
       @ (case ar_parent_run_id r of
            None \<Rightarrow> []
          | Some p \<Rightarrow> if p \<in> ar_run_id ` set runs
              then [\<lparr>ge_source = p, ge_source_type = Agent_run_node, ge_target = ar_run_id r,
                     ge_target_type = Agent_run_node, ge_kind = Child_run\<rparr>] else [])) runs)"

definition request_edges :: "string \<Rightarrow> agent_run list \<Rightarrow> econ_row list \<Rightarrow> graph_edge list" where
  "request_edges wrid runs nodes =
     concat (map (\<lambda>n.
       let in_run = (case eq_run_id n of None \<Rightarrow> False | Some x \<Rightarrow> x \<in> ar_run_id ` set runs)
       in if eq_event_id n \<noteq> [] \<and> (in_run \<or> eq_workflow_run_id n = Some wrid)
          then [\<lparr>ge_source = (if in_run then the (eq_run_id n) else wrid),
                 ge_source_type = (if in_run then Agent_run_node else Workflow_run_node),
                 ge_target = eq_event_id n, ge_target_type = Request_node, ge_kind = Contains\<rparr>] else []) nodes)"

definition link_edges :: "(link \<times> resolution) list \<Rightarrow> graph_edge list" where
  "link_edges refs =
     List.map_filter (\<lambda>((s, x, k), res). if res = Resolved
       then Some \<lparr>ge_source = x, ge_source_type = Request_node, ge_target = s, ge_target_type = Request_node, ge_kind = Link k\<rparr>
       else None) refs"

definition link_kind_rank :: "link_kind \<Rightarrow> nat" where
  "link_kind_rank k = (case k of Fallback_of \<Rightarrow> 0 | Parent_event \<Rightarrow> 1 | Retry_of \<Rightarrow> 2)"

definition graph_order :: "econ_row list \<Rightarrow> econ_row list" where
  "graph_order rs = sort_key (\<lambda>r. (instant_of (rq_timestamp r), eq_event_id r)) rs"

text \<open>References are ordered by source and name of the link.\<close>

definition workflow_graph :: "string \<Rightarrow> string \<Rightarrow> nat \<Rightarrow> nat \<Rightarrow> econ_db \<Rightarrow> workflow_run \<Rightarrow> run_graph" where
  "workflow_graph wrid ws limit offset db w =
     (let sel = graph_selected ws wrid db;
          sources = map eq_event_id sel;
          links = request_links ws (ed_requests db);
          walked = graph_walk links sources;
          mine = filter (\<lambda>(s, x, k). s \<in> set sources) links;
          linked = (\<lambda>r. \<exists>(s, x, k) \<in> set mine. s = eq_event_id r \<and> in_ledger ws x db \<and> \<not> link_invalid walked (s, x, k));
          cost = sum_where (\<lambda>r. True) rq_cost_usd sel;
          linked_cost = sum_where linked rq_cost_usd sel;
          unpriced = count_where (\<lambda>r. eq_pricing_class r = Some ''unpriced'') sel;
          unknown = count_where (\<lambda>r. eq_pricing_class r \<notin> Some ` {''calculated'', ''estimated'', ''unpriced''}) sel;
          nodes = take limit (drop offset (graph_order sel));
          page = map eq_event_id nodes;
          refs = map (\<lambda>l. (l, resolve_link ws db walked sources page l))
                   (sort_key (\<lambda>(s, x, k). (s, link_kind_rank k)) (filter (\<lambda>(s, x, k). s \<in> set page) links));
          runs = sort_key ar_run_id (filter (\<lambda>r. ar_workspace r = ws
                   \<and> ar_run_id r \<in> set (workflow_tree ws wrid (ed_runs db))) (ed_runs db));
          shown = take 500 runs
      in \<lparr>rg_workflow_run = w, rg_agent_runs = shown, rg_requests = nodes,
          rg_edges = run_edges wrid shown @ request_edges wrid shown nodes @ link_edges refs,
          rg_references = refs,
          rg_totals = \<lparr>gt_request_count = length sel, gt_ledger_cost_usd = cost, gt_linked_cost_usd = linked_cost,
            gt_unlinked_cost_usd = cost - linked_cost, gt_unpriced_count = unpriced,
            gt_unknown_pricing_count = unknown,
            gt_unresolved_count = count_where (\<lambda>(s, x, k). \<not> in_ledger ws x db) mine,
            gt_invalid_count = count_where (link_invalid walked) mine,
            gt_cost_complete = (unpriced = 0 \<and> unknown = 0)\<rparr>,
          rg_truncated = (offset + length nodes < length sel),
          rg_agent_runs_truncated = (length runs > 500)\<rparr>)"

text \<open>\<open>Inl\<close> is the ValueError, \<open>Inr None\<close> an unknown workflow run.\<close>

definition get_workflow_run_graph :: "string \<Rightarrow> string \<Rightarrow> int \<Rightarrow> int \<Rightarrow> econ_db \<Rightarrow> unit + run_graph option" where
  "get_workflow_run_graph wrid ws limit offset db =
     (if ws = [] \<or> \<not> (1 \<le> limit \<and> limit \<le> 500) \<or> offset < 0 then Inl ()
      else Inr (map_option (workflow_graph wrid ws (nat limit) (nat offset) db) (get_workflow_run wrid ws db)))"

section \<open>Workspaces stay apart\<close>

datatype registration =
    Register_agent agent
  | Register_workflow agent_workflow
  | Register_workflow_run workflow_run
  | Register_run agent_run
  | Register_task agent_task
  | Register_action agent_action

definition registration_step :: "registration \<Rightarrow> econ_db \<Rightarrow> econ_db" where
  "registration_step e db =
     (let keep = (\<lambda>res. case res of None \<Rightarrow> db | Some db' \<Rightarrow> db')
      in case e of
           Register_agent a \<Rightarrow> keep (insert_agent a db)
         | Register_workflow w \<Rightarrow> keep (insert_agent_workflow w db)
         | Register_workflow_run w \<Rightarrow> keep (insert_workflow_run w db)
         | Register_run r \<Rightarrow> keep (insert_agent_run r db)
         | Register_task k \<Rightarrow> insert_agent_task k db
         | Register_action a \<Rightarrow> insert_agent_action a db)"

definition parents_local :: "agent_run table \<Rightarrow> bool" where
  "parents_local runs \<longleftrightarrow> pk ar_run_id runs \<and>
     (\<forall>r \<in> set runs. \<forall>p \<in> set runs. ar_parent_run_id r = Some (ar_run_id p) \<and> ar_run_id p \<noteq> [] \<longrightarrow> ar_workspace p = ar_workspace r)"

definition workflow_runs_local :: "econ_db \<Rightarrow> bool" where
  "workflow_runs_local db \<longleftrightarrow>
     (\<forall>r \<in> set (ed_runs db). \<forall>i. ar_workflow_run_id r = Some i \<and> i \<noteq> [] \<longrightarrow>
        (\<forall>w \<in> set (ed_workflow_runs db). wr_workflow_run_id w = i \<longrightarrow>
           (\<exists>w' \<in> set (ed_workflow_runs db). wr_workflow_run_id w' = i \<and> wr_workspace w' = ar_workspace r)))"

definition isolated :: "econ_db \<Rightarrow> bool" where
  "isolated db \<longleftrightarrow> parents_local (ed_runs db) \<and> workflow_runs_local db"

lemma foreign_iff: "pk key t \<Longrightarrow> foreign key workspace k ws t \<longleftrightarrow> (\<exists>r \<in> set t. key r = k \<and> workspace r \<noteq> ws)"
proof (cases "lookup_key key k t")
  case None
  then have "k \<notin> key ` set t" by (simp add: lookup_key_None_iff)
  then show ?thesis by (auto simp: foreign_def None)
next
  case (Some r)
  assume pk: "pk key t"
  have "x = r" if "x \<in> set t" "key x = k" for x using pk_lookup[OF pk that(1)] that(2) Some by simp
  then show ?thesis using lookup_key_SomeD[OF Some] by (auto simp: foreign_def Some)
qed

lemma upsert_set:
  "x \<in> set (upsert key merge r t) \<longleftrightarrow>
     (x \<in> set t \<and> key x \<noteq> key r) \<or> (if key r \<in> key ` set t then \<exists>y \<in> set t. key y = key r \<and> x = merge y r else x = r)"
  by (auto simp: upsert_def update_where_def split: if_splits) (metis imageI)+

lemma upsert_pk:
  "pk key t \<Longrightarrow> (\<And>x. key x = key r \<Longrightarrow> key (merge x r) = key r) \<Longrightarrow> pk key (upsert key merge r t)"
  by (auto simp: upsert_def intro!: pk_update_where) (simp add: pk_def)

text \<open>The rows after the upsert of a run that passed the workspace check: the old ones with other
  identifiers, and the new one.\<close>

lemma upsert_run:
  assumes "pk ar_run_id runs" "\<not> foreign ar_run_id ar_workspace (ar_run_id r) (ar_workspace r) runs"
  shows "set (upsert ar_run_id (\<lambda>x r. if ar_workspace x = ar_workspace r then r else x) r runs)
    = insert r {x \<in> set runs. ar_run_id x \<noteq> ar_run_id r}"
proof -
  have "\<forall>y \<in> set runs. ar_run_id y = ar_run_id r \<longrightarrow> ar_workspace y = ar_workspace r"
    using assms(2) by (auto simp: foreign_iff[OF assms(1)])
  then show ?thesis by (auto simp: set_eq_iff upsert_set)
qed

lemma insert_run_isolated:
  assumes "isolated db" "insert_agent_run r db = Some db'"
  shows "isolated db'"
proof -
  let ?ws = "ar_workspace r"
  have pk: "pk ar_run_id (ed_runs db)" and loc: "parents_local (ed_runs db)" "workflow_runs_local db"
    using assms(1) by (auto simp: isolated_def parents_local_def)
  have checks: "\<not> foreign ar_run_id ar_workspace (ar_run_id r) ?ws (ed_runs db)"
    "truthy (ar_parent_run_id r) \<longrightarrow> \<not> foreign ar_run_id ar_workspace (the (ar_parent_run_id r)) ?ws (ed_runs db)"
    "\<forall>x \<in> set (ed_runs db). ar_parent_run_id x = Some (ar_run_id r) \<longrightarrow> ar_workspace x = ?ws"
    "truthy (ar_workflow_run_id r) \<longrightarrow> get_workflow_run (the (ar_workflow_run_id r)) ?ws db \<noteq> None
       \<or> (\<forall>w \<in> set (ed_workflow_runs db). wr_workflow_run_id w \<noteq> the (ar_workflow_run_id r))"
    and db': "db' = db\<lparr>ed_runs := upsert ar_run_id (\<lambda>x r. if ar_workspace x = ar_workspace r then r else x) r (ed_runs db)\<rparr>"
    using assms(2) by (auto simp: insert_agent_run_def Let_def split: if_splits)
  have rows: "set (ed_runs db') = insert r {x \<in> set (ed_runs db). ar_run_id x \<noteq> ar_run_id r}"
    using upsert_run[OF pk checks(1)] by (simp add: db')
  have "pk ar_run_id (ed_runs db')" by (simp add: db' upsert_pk pk)
  moreover have "ar_workspace p = ar_workspace x"
    if "x \<in> set (ed_runs db')" "p \<in> set (ed_runs db')" "ar_parent_run_id x = Some (ar_run_id p)" "ar_run_id p \<noteq> []" for x p
    using that checks(2,3) loc(1) unfolding rows parents_local_def
    by (auto simp: truthy_def foreign_iff[OF pk])
  moreover have "workflow_runs_local db'"
    unfolding workflow_runs_local_def
  proof (intro ballI allI impI)
    fix x i w assume x: "x \<in> set (ed_runs db')" "ar_workflow_run_id x = Some i \<and> i \<noteq> []"
      and w: "w \<in> set (ed_workflow_runs db')" "wr_workflow_run_id w = i"
    have same: "ed_workflow_runs db' = ed_workflow_runs db" by (simp add: db')
    show "\<exists>w' \<in> set (ed_workflow_runs db'). wr_workflow_run_id w' = i \<and> wr_workspace w' = ar_workspace x"
    proof (cases "x = r")
      case True
      then have "get_workflow_run i ?ws db \<noteq> None" using checks(4) x(2) w by (auto simp: truthy_def same)
      then show ?thesis by (auto simp: get_workflow_run_def True same find_None_iff)
    next
      case False
      then show ?thesis using loc(2) x w by (auto simp: workflow_runs_local_def rows same)
    qed
  qed
  ultimately show ?thesis by (auto simp: isolated_def parents_local_def)
qed

lemma insert_workflow_run_isolated:
  assumes "isolated db" "insert_workflow_run w db = Some db'"
  shows "isolated db'"
proof -
  have refs: "\<forall>r \<in> set (ed_runs db). ar_workflow_run_id r = Some (wr_workflow_run_id w) \<longrightarrow> ar_workspace r = wr_workspace w"
    and db': "db' = db\<lparr>ed_workflow_runs := upsert (\<lambda>x. (wr_workspace x, wr_workflow_run_id x)) (\<lambda>x w. w) w (ed_workflow_runs db)\<rparr>"
    using assms(2) by (auto simp: insert_workflow_run_def split: if_splits)
  have rows: "set (ed_workflow_runs db') = insert w {x \<in> set (ed_workflow_runs db).
      (wr_workspace x, wr_workflow_run_id x) \<noteq> (wr_workspace w, wr_workflow_run_id w)}"
    by (auto simp: db' set_eq_iff upsert_set)
  have "workflow_runs_local db'"
    unfolding workflow_runs_local_def
  proof (intro ballI allI impI)
    fix r i v assume r: "r \<in> set (ed_runs db')" "ar_workflow_run_id r = Some i \<and> i \<noteq> []"
      and v: "v \<in> set (ed_workflow_runs db')" "wr_workflow_run_id v = i"
    have runs: "r \<in> set (ed_runs db)" using r(1) by (simp add: db')
    show "\<exists>w' \<in> set (ed_workflow_runs db'). wr_workflow_run_id w' = i \<and> wr_workspace w' = ar_workspace r"
    proof (cases "i = wr_workflow_run_id w")
      case True
      then show ?thesis using refs runs r(2) by (auto simp: rows)
    next
      case False
      then have "v \<in> set (ed_workflow_runs db)" using v by (auto simp: rows)
      then obtain w' where "w' \<in> set (ed_workflow_runs db)" "wr_workflow_run_id w' = i" "wr_workspace w' = ar_workspace r"
        using assms(1) runs r(2) v(2) unfolding isolated_def workflow_runs_local_def by blast
      then show ?thesis using False by (auto simp: rows)
    qed
  qed
  then show ?thesis using assms(1) by (simp add: isolated_def db')
qed

lemma registration_isolated: "isolated db \<Longrightarrow> isolated (registration_step e db)"
proof (cases e)
  case (Register_run r)
  then show "isolated db \<Longrightarrow> ?thesis"
    by (auto simp: registration_step_def split: option.split intro: insert_run_isolated)
next
  case (Register_workflow_run w)
  then show "isolated db \<Longrightarrow> ?thesis"
    by (auto simp: registration_step_def split: option.split intro: insert_workflow_run_isolated)
qed (auto simp: registration_step_def isolated_def workflow_runs_local_def insert_agent_def insert_agent_workflow_def
      insert_agent_task_def insert_agent_action_def split: option.splits if_splits)

text \<open>
  Runs stay in their workspace: after every sequence of registrations no run has a parent run in another
  workspace, and a run that names a registered workflow run names one of its own workspace. Late
  registrations on either end of the reference are covered.
\<close>

theorem workspaces_isolated:
  assumes "isolated db"
  shows "isolated (run_steps registration_step es db)"
  using assms by (induction es arbitrary: db) (auto intro: registration_isolated)

text \<open>The agent of a run is not protected in the same way: after the run, another workspace can register
  its agent.\<close>

lemma agent_claimed_late:
  assumes "\<forall>a \<in> set (ed_agents db). ag_agent_id a \<noteq> ar_agent_id r" "insert_agent_run r db = Some db'"
    and "ag_agent_id a = ar_agent_id r" "ag_workspace a \<noteq> ar_workspace r"
  shows "\<exists>db''. insert_agent a db' = Some db'' \<and> a \<in> set (ed_agents db'')"
proof -
  have agents: "ed_agents db' = ed_agents db"
    using assms(2) by (auto simp: insert_agent_run_def Let_def split: if_splits)
  have "lookup_key ag_agent_id (ag_agent_id a) (ed_agents db) = None"
    using assms(1,3) by (auto simp: lookup_key_None_iff)
  then show ?thesis using assms(1,3) by (auto simp: insert_agent_def foreign_def agents upsert_def)
qed


section \<open>Rollups count once\<close>

definition child_rel :: "string \<Rightarrow> agent_run table \<Rightarrow> (string \<times> string) set" where
  "child_rel ws runs = {(p, c). \<exists>r \<in> set runs. ar_workspace r = ws \<and> ar_run_id r = c \<and> ar_parent_run_id r = Some p}"

definition run_with_descendants :: "string \<Rightarrow> string \<Rightarrow> agent_run table \<Rightarrow> string set" where
  "run_with_descendants ws rid runs = (child_rel ws runs)\<^sup>* `` {rid}"

lemma run_tree_ids:
  assumes "\<exists>r \<in> set runs. ar_run_id r = rid \<and> ar_workspace r = ws"
  shows "fst ` set (run_tree ws rid runs) = run_with_descendants ws rid runs"
proof -
  let ?row = "\<lambda>r. (ar_run_id r, ar_parent_run_id r)"
  let ?mine = "filter (\<lambda>r. ar_workspace r = ws) runs"
  let ?next = "\<lambda>(x, p). map ?row (filter (\<lambda>r. ar_parent_run_id r = Some x) ?mine)"
  let ?start = "map ?row (filter (\<lambda>r. ar_run_id r = rid) ?mine)"
  have tree: "set (run_tree ws rid runs) = (step_rel ?next)\<^sup>* `` set ?start"
    unfolding run_tree_def Let_def by (rule recursive_rows_reach) (auto simp: closed_under_def)
  have up: "(rid, fst y) \<in> (child_rel ws runs)\<^sup>*" if "(x, y) \<in> (step_rel ?next)\<^sup>*" "fst x = rid" for x y
    using that
  proof induction
    case (step y z)
    have "(fst y, fst z) \<in> child_rel ws runs" using step.hyps(2) by (auto simp: step_rel_def child_rel_def split: prod.splits)
    with step show ?case by (meson rtrancl.rtrancl_into_rtrancl)
  qed simp
  have down: "\<exists>p. (c, p) \<in> set (run_tree ws rid runs)" if "(rid, c) \<in> (child_rel ws runs)\<^sup>*" for c
    using that
  proof induction
    case base
    from assms obtain r where "r \<in> set runs" "ar_run_id r = rid" "ar_workspace r = ws" by blast
    then have "(rid, ar_parent_run_id r) \<in> set ?start" by force
    then show ?case unfolding tree by blast
  next
    case (step b c)
    then obtain p where p: "(b, p) \<in> set (run_tree ws rid runs)" by blast
    obtain r where "r \<in> set runs" "ar_workspace r = ws" "ar_run_id r = c" "ar_parent_run_id r = Some b"
      using step.hyps(2) by (auto simp: child_rel_def)
    then have "((b, p), (c, Some b)) \<in> step_rel ?next" by (force simp: step_rel_def)
    with p have "(c, Some b) \<in> set (run_tree ws rid runs)" unfolding tree by (auto intro: rtrancl.rtrancl_into_rtrancl)
    then show ?case by blast
  qed
  show ?thesis
  proof (intro equalityI subsetI)
    fix c assume "c \<in> fst ` set (run_tree ws rid runs)"
    then obtain y where "y \<in> set (run_tree ws rid runs)" "c = fst y" by blast
    moreover from this(1) obtain x where "x \<in> set ?start" "(x, y) \<in> (step_rel ?next)\<^sup>*" unfolding tree by blast
    moreover have "fst x = rid" using \<open>x \<in> set ?start\<close> by auto
    ultimately show "c \<in> run_with_descendants ws rid runs" using up by (simp add: run_with_descendants_def)
  next
    fix c assume "c \<in> run_with_descendants ws rid runs"
    then show "c \<in> fst ` set (run_tree ws rid runs)" using down by (force simp: run_with_descendants_def)
  qed
qed

lemma run_tree_distinct:
  assumes "pk ar_run_id runs"
  shows "distinct (map fst (run_tree ws rid runs))"
proof -
  let ?row = "\<lambda>r. (ar_run_id r, ar_parent_run_id r)"
  have rows: "set (run_tree ws rid runs) \<subseteq> ?row ` set runs"
  proof -
    let ?mine = "filter (\<lambda>r. ar_workspace r = ws) runs"
    let ?next = "\<lambda>(x, p). map ?row (filter (\<lambda>r. ar_parent_run_id r = Some x) ?mine)"
    have "set (run_tree ws rid runs) = (step_rel ?next)\<^sup>* `` set (map ?row (filter (\<lambda>r. ar_run_id r = rid) ?mine))"
      unfolding run_tree_def Let_def by (rule recursive_rows_reach) (auto simp: closed_under_def)
    moreover have "y \<in> ?row ` set runs" if "(x, y) \<in> (step_rel ?next)\<^sup>*" "x \<in> ?row ` set runs" for x y
      using that by induction (auto simp: step_rel_def split: prod.splits)
    ultimately show ?thesis by fastforce
  qed
  have "inj_on fst (?row ` set runs)"
    using assms by (auto simp: inj_on_def pk_def distinct_map)
  then have "inj_on fst (set (run_tree ws rid runs))" using rows inj_on_subset by blast
  then show ?thesis by (simp add: distinct_map run_tree_def Let_def recursive_rows_distinct)
qed

lemma sum_where_disjoint:
  assumes "distinct ids" "\<And>r x y. r \<in> set t \<Longrightarrow> P x r \<Longrightarrow> P y r \<Longrightarrow> x = y"
  shows "sum_list (map (\<lambda>x. sum_where (P x) f t) ids) = sum_where (\<lambda>r. \<exists>x \<in> set ids. P x r) f t"
  using assms(1)
proof (induction ids)
  case Nil
  show ?case by (simp add: sum_where_def)
next
  case (Cons a ids)
  have "sum_where (\<lambda>r. \<exists>x \<in> set (a # ids). P x r) f u = sum_where (P a) f u + sum_where (\<lambda>r. \<exists>x \<in> set ids. P x r) f u"
    if "set u \<subseteq> set t" for u
    using that
  proof (induction u)
    case (Cons r u)
    have "\<not> (P a r \<and> (\<exists>x \<in> set ids. P x r))" using assms(2)[of r a] Cons.prems \<open>distinct (a # ids)\<close> by auto
    with Cons show ?case by auto
  qed simp
  with Cons show ?case by simp
qed


section \<open>The graph\<close>

lemma set_walk_rows:
  "(s, x, y) \<in> set (concat (map (\<lambda>(s, x, i). map (\<lambda>(s', y, k). (s, x, y)) links) st))
     \<longleftrightarrow> (\<exists>i. (s, x, i) \<in> set st) \<and> (\<exists>a k. (a, y, k) \<in> set links)" (is "?l \<longleftrightarrow> ?r")
proof
  assume ?r
  then obtain i a k where "(s, x, i) \<in> set st" "(a, y, k) \<in> set links" by blast
  then show ?l by (auto intro!: bexI[of _ "(s, x, i)"] image_eqI[of _ _ "(a, y, k)"])
qed auto

lemma graph_walk_finds:
  assumes "(s, x, k) \<in> set links" "s \<in> set sources" "(x, y) \<in> {(a, b). \<exists>k. (a, b, k) \<in> set links}\<^sup>*"
  shows "(s, x, y) \<in> set (graph_walk links sources)"
proof -
  let ?start = "List.map_filter (\<lambda>(s, x, k). if s \<in> set sources then Some (s, x, x) else None) links"
  let ?next = "\<lambda>(s, x, i). map (\<lambda>y. (s, x, y)) (targets_of links i)"
  let ?possible = "concat (map (\<lambda>(s, x, i). map (\<lambda>(s', y, k). (s, x, y)) links) ?start)"
  have start: "(s, x, i) \<in> set ?start \<longleftrightarrow> s \<in> set sources \<and> i = x \<and> (\<exists>k. (s, x, k) \<in> set links)" for s x i
    unfolding set_map_filter by (fastforce split: if_splits prod.splits)
  have possible: "(s, x, y) \<in> set ?possible \<longleftrightarrow> (s, x, x) \<in> set ?start \<and> (\<exists>a k. (a, y, k) \<in> set links)" for s x y
    unfolding set_walk_rows using start by blast
  have closed: "closed_under ?next ?possible"
    unfolding closed_under_def using possible by (fastforce simp: targets_of_def)
  have sub: "set ?start \<subseteq> set ?possible"
  proof
    fix e assume "e \<in> set ?start"
    moreover obtain s x i where "e = (s, x, i)" by (cases e)
    ultimately show "e \<in> set ?possible" using start[of s x i] possible[of s x x] by auto
  qed
  have "((s, x, x), (s, x, y)) \<in> (step_rel ?next)\<^sup>*"
    using assms(3)
  proof induction
    case (step b c)
    then have "((s, x, b), (s, x, c)) \<in> step_rel ?next" by (force simp: step_rel_def targets_of_def)
    with step.IH show ?case by (rule rtrancl.rtrancl_into_rtrancl)
  qed simp
  moreover have "(s, x, x) \<in> set ?start" using assms(1,2) start by blast
  ultimately show ?thesis
    using recursive_rows_reach[OF closed sub] by (auto simp: graph_walk_def Let_def)
qed

definition causal_edges :: "run_graph \<Rightarrow> (string \<times> string) set" where
  "causal_edges g = {(ge_source e, ge_target e) | e. e \<in> set (rg_edges g) \<and> ge_source_type e = Request_node}"

lemma no_request_source:
  "e \<in> set (run_edges wrid runs) \<Longrightarrow> ge_source_type e \<noteq> Request_node"
  "e \<in> set (request_edges wrid runs nodes) \<Longrightarrow> ge_source_type e \<noteq> Request_node"
  by (auto simp: run_edges_def request_edges_def Let_def split: if_splits option.splits)

lemma causal_edgesD:
  assumes "get_workflow_run_graph wrid ws limit offset db = Inr (Some g)" "(a, b) \<in> causal_edges g"
  shows "(b, a) \<in> link_rel ws (ed_requests db) \<and> (a, b) \<notin> (link_rel ws (ed_requests db))\<^sup>*"
proof -
  let ?links = "request_links ws (ed_requests db)"
  let ?sources = "map eq_event_id (graph_selected ws wrid db)"
  let ?page = "map eq_event_id (take (nat limit) (drop (nat offset) (graph_order (graph_selected ws wrid db))))"
  let ?refs = "map (\<lambda>l. (l, resolve_link ws db (graph_walk ?links ?sources) ?sources ?page l))
     (sort_key (\<lambda>(s, x, k). (s, link_kind_rank k)) (filter (\<lambda>(s, x, k). s \<in> set ?page) ?links))"
  obtain w where "g = workflow_graph wrid ws (nat limit) (nat offset) db w"
    using assms(1) by (auto simp: get_workflow_run_graph_def split: if_splits)
  then obtain shown where edges: "rg_edges g = run_edges wrid shown @ request_edges wrid shown
      (take (nat limit) (drop (nat offset) (graph_order (graph_selected ws wrid db)))) @ link_edges ?refs"
    by (simp add: workflow_graph_def Let_def)
  from assms(2) obtain e where e: "e \<in> set (rg_edges g)" "ge_source_type e = Request_node" "a = ge_source e" "b = ge_target e"
    by (auto simp: causal_edges_def)
  then have "e \<in> set (link_edges ?refs)" using no_request_source unfolding edges by auto
  then obtain k where k: "((b, a, k), Resolved) \<in> set ?refs"
    using e(3,4) unfolding link_edges_def set_map_filter by (fastforce split: if_splits)
  then have l: "(b, a, k) \<in> set ?links" "b \<in> set ?page" by auto
  have "\<not> link_invalid (graph_walk ?links ?sources) (b, a, k)"
    using k by (auto simp: resolve_link_def split: if_splits)
  moreover have "b \<in> set ?sources"
    using l(2) by (auto simp: graph_order_def dest!: in_set_takeD in_set_dropD)
  ultimately have "(a, b) \<notin> {(a, b). \<exists>k. (a, b, k) \<in> set ?links}\<^sup>*"
    using graph_walk_finds[OF l(1)] by (auto simp: link_invalid_def)
  with l(1) show ?thesis by (auto simp: link_rel_def)
qed

text \<open>
  The causal edges of a workflow graph never form a cycle, whatever links the ledger holds: a link that lies
  on a cycle, or whose cycle leaves the selection, is reported as invalid and gives no edge.
\<close>

theorem graph_causality_acyclic:
  assumes "get_workflow_run_graph wrid ws limit offset db = Inr (Some g)"
  shows "acyclic (causal_edges g)"
proof (rule acyclicI, intro allI notI)
  fix a assume "(a, a) \<in> (causal_edges g)\<^sup>+"
  then obtain b where b: "(a, b) \<in> causal_edges g" "(b, a) \<in> (causal_edges g)\<^sup>*" by (meson tranclD)
  have "(y, x) \<in> (link_rel ws (ed_requests db))\<^sup>*" if "(x, y) \<in> (causal_edges g)\<^sup>*" for x y
    using that
  proof induction
    case (step y z)
    with causal_edgesD[OF assms step.hyps(2)] show ?case by (auto intro: converse_rtrancl_into_rtrancl)
  qed simp
  with causal_edgesD[OF assms b(1)] b(2) show False by blast
qed

definition graph_page :: "string \<Rightarrow> string \<Rightarrow> nat \<Rightarrow> nat \<Rightarrow> econ_db \<Rightarrow> econ_row list" where
  "graph_page wrid ws limit i db =
     (case get_workflow_run_graph wrid ws (int limit) (int (i * limit)) db of
        Inr (Some g) \<Rightarrow> rg_requests g | _ \<Rightarrow> [])"

lemma concat_pages: "concat (map (\<lambda>i. take l (drop (i * l) xs)) [0..<n]) = take (n * l) xs"
proof (induction n)
  case (Suc n)
  then show ?case by (simp add: take_add[symmetric] add.commute)
qed simp

text \<open>Reading the graph page by page shows every selected request exactly once.\<close>

theorem graph_pages_cover:
  assumes "get_workflow_run wrid ws db = Some w" "ws \<noteq> []" "1 \<le> limit" "limit \<le> 500"
    and "length (graph_selected ws wrid db) \<le> n * limit"
  shows "mset (concat (map (\<lambda>i. graph_page wrid ws limit i db) [0..<n])) = mset (graph_selected ws wrid db)"
proof -
  have page: "graph_page wrid ws limit i db = take limit (drop (i * limit) (graph_order (graph_selected ws wrid db)))" for i
  proof -
    have "nat (int i * int limit) = i * limit" "\<not> int i * int limit < 0" by (simp_all add: not_less flip: of_nat_mult)
    then show ?thesis using assms(1-4) by (simp add: graph_page_def get_workflow_run_graph_def workflow_graph_def Let_def)
  qed
  have "concat (map (\<lambda>i. graph_page wrid ws limit i db) [0..<n]) = take (n * limit) (graph_order (graph_selected ws wrid db))"
    by (simp only: page concat_pages)
  also have "\<dots> = graph_order (graph_selected ws wrid db)"
    using assms(5) by (simp add: graph_order_def)
  finally show ?thesis by (simp add: graph_order_def)
qed


section \<open>Attribution\<close>

text \<open>The unattributed spend is that of the requests without an agent; the check that is reported with it
  cannot fail, since the unattributed part is what it subtracts.\<close>

lemma attribution_partition:
  "an_unattributed_spend_usd (get_workspace_agent_attribution ws db)
     = usd6 (sum_where (\<lambda>r. owned ws r \<and> \<not> attributed r) rq_cost_usd (ed_requests db))
   \<and> an_invariant_holds (get_workspace_agent_attribution ws db)"
proof -
  have "sum_where (owned ws) rq_cost_usd t = sum_where (\<lambda>r. owned ws r \<and> attributed r) rq_cost_usd t
      + sum_where (\<lambda>r. owned ws r \<and> \<not> attributed r) rq_cost_usd t" for t :: "econ_row table"
    by (induction t) auto
  then show ?thesis by (simp add: get_workspace_agent_attribution_def Let_def)
qed

section \<open>Witnesses\<close>

definition empty_econ :: econ_db where
  "empty_econ = \<lparr>ed_requests = [], ed_agents = [], ed_workflows = [], ed_workflow_runs = [], ed_runs = [], ed_tasks = [],
     ed_actions = [], ed_outcomes = []\<rparr>"

definition demo_run :: "string \<Rightarrow> string option \<Rightarrow> agent_run" where
  "demo_run i p = \<lparr>ar_run_id = i, ar_agent_id = ''a'', ar_workflow_id = None, ar_workflow_run_id = None, ar_parent_run_id = p,
     ar_root_run_id = None, ar_workspace = ''w'', ar_status = ''active'', ar_started_at = 0, ar_completed_at = None\<rparr>"

definition demo_workflow_run :: workflow_run where
  "demo_workflow_run = \<lparr>wr_workflow_run_id = ''f'', wr_workflow_id = ''x'', wr_workspace = ''w'', wr_status = ''active'',
     wr_started_at = 0, wr_completed_at = None\<rparr>"

text \<open>Two runs that name each other as parent, and one request in each.\<close>

definition cyclic_db :: econ_db where
  "cyclic_db = empty_econ\<lparr>ed_runs := [demo_run ''p'' (Some ''c''), demo_run ''c'' (Some ''p'')],
     ed_workflow_runs := [demo_workflow_run],
     ed_requests := [(plain_row ''e1'')\<lparr>eq_run_id := Some ''p'', eq_workflow_run_id := Some ''f'', eq_parent_event_id := Some ''e2''\<rparr>,
       (plain_row ''e2'')\<lparr>eq_run_id := Some ''c'', eq_workflow_run_id := Some ''f'', eq_parent_event_id := Some ''e1''\<rparr>]\<rparr>"

theorem workspaces_isolated_witness:
  "isolated (run_steps registration_step [Register_run (demo_run ''p'' None), Register_run (demo_run ''c'' (Some ''p''))] empty_econ)"
  by (rule workspaces_isolated) (simp add: isolated_def parents_local_def workflow_runs_local_def empty_econ_def)

lemma cyclic_run: "get_agent_run ''p'' None cyclic_db = Some (demo_run ''p'' (Some ''c''))"
  by (simp add: get_agent_run_def cyclic_db_def demo_run_def)

lemma cyclic_descendants: "run_with_descendants ''w'' ''p'' (ed_runs cyclic_db) = {''p'', ''c''}"
proof -
  have rel: "child_rel ''w'' (ed_runs cyclic_db) = {(''c'', ''p''), (''p'', ''c'')}"
    by (auto simp: child_rel_def cyclic_db_def demo_run_def)
  have "{(''c'', ''p''), (''p'', ''c'')}\<^sup>* `` {''p'', ''c''} = {''p'', ''c''}"
    by (rule Image_closed_trancl) auto
  then have "{(''c'', ''p''), (''p'', ''c'')}\<^sup>* `` {''p''} \<subseteq> {''p'', ''c''}" by blast
  then show ?thesis unfolding run_with_descendants_def rel by (auto intro: r_into_rtrancl)
qed


theorem graph_causality_acyclic_witness:
  "\<exists>g. get_workflow_run_graph ''f'' ''w'' 10 0 cyclic_db = Inr (Some g) \<and> acyclic (causal_edges g)"
proof -
  have "get_workflow_run ''f'' ''w'' cyclic_db = Some demo_workflow_run"
    by (simp add: get_workflow_run_def cyclic_db_def demo_workflow_run_def)
  then have g: "get_workflow_run_graph ''f'' ''w'' 10 0 cyclic_db = Inr (Some (workflow_graph ''f'' ''w'' 10 0 cyclic_db demo_workflow_run))"
    by (simp add: get_workflow_run_graph_def)
  with graph_causality_acyclic[OF g] show ?thesis by blast
qed

theorem graph_pages_cover_witness:
  "mset (concat (map (\<lambda>i. graph_page ''f'' ''w'' 1 i cyclic_db) [0..<2])) = mset (ed_requests cyclic_db)"
proof -
  have w: "get_workflow_run ''f'' ''w'' cyclic_db = Some demo_workflow_run"
    by (simp add: get_workflow_run_def cyclic_db_def demo_workflow_run_def)
  have sel: "graph_selected ''w'' ''f'' cyclic_db = ed_requests cyclic_db"
    by (simp add: graph_selected_def cyclic_db_def plain_row_def)
  show ?thesis using graph_pages_cover[OF w, of 1 2] by (simp add: sel) (simp add: cyclic_db_def)
qed

text \<open>A request whose column names the parent run and whose tag names the child is counted in both.\<close>

definition mixed_db :: econ_db where
  "mixed_db = empty_econ\<lparr>ed_runs := [demo_run ''p'' None, demo_run ''c'' (Some ''p'')],
     ed_requests := [(plain_row ''e1'')\<lparr>eq_run_id := Some ''p'', rq_tags := [''run_id'' \<mapsto> ''c'']\<rparr>]\<rparr>"

lemma mixed_request_counted_twice:
  "sum_where (\<lambda>r. True) rq_cost_usd (ed_requests mixed_db) = 2
   \<and> re_total_rollup_spend_usd (get_run_economics ''p'' None mixed_db) = 4"
proof -
  have "map fst (run_tree ''w'' ''p'' (ed_runs mixed_db)) = [''p'', ''c'']"
    by (simp add: run_tree_def mixed_db_def demo_run_def)
  moreover have "get_agent_run ''p'' None mixed_db = Some (demo_run ''p'' None)"
    by (simp add: get_agent_run_def mixed_db_def demo_run_def)
  moreover have "total_cost ''w'' mixed_db ''p'' = 2" "total_cost ''w'' mixed_db ''c'' = 2"
    by (simp_all add: total_cost_def run_cost_def mixed_db_def names_def owned_def plain_row_def empty_econ_def)
  moreover have "ar_workspace (demo_run ''p'' None) = ''w''" by (simp add: demo_run_def)
  ultimately show ?thesis
    by (simp add: get_run_economics_def run_rollup_def usd6_def py_round_numeral) (simp add: mixed_db_def plain_row_def)
qed

end
