(* ===== verification/Waste.thy ===== *)
theory Waste
  imports Agent_Economics
begin

text \<open>
  Waste detection (\<open>analysis/waste.py\<close>) on the rows that \<open>get_requests_for_analysis\<close> returns
  (\<open>storage/queries.py\<close>): the split by subject, the eight detectors with their thresholds, and the order
  of the findings. The wording of descriptions and the example rows of a finding are left out; SHA-256 is a
  parameter.
\<close>

section \<open>The rows that are analysed\<close>

record ledger_row = econ_row +
  lw_parent_span_id :: "string option"
  lw_system_prompt_hash :: "string option"
  lw_prompt_system_tokens :: int
  lw_prompt_tools_tokens :: int
  lw_prompt_rag_tokens :: int
  lw_prompt_history_tokens :: int

text \<open>\<open>None\<close> for a key that the dictionary does not have.\<close>

record analysis_request =
  aq_model :: string
  aq_input_tokens :: int
  aq_output_tokens :: int
  aq_cost_usd :: usd
  aq_tags :: tags
  aq_system_prompt_hash :: "string option"
  aq_cache_read_tokens :: "int option"
  aq_prompt_system_tokens :: int
  aq_prompt_tools_tokens :: int
  aq_prompt_rag_tokens :: int
  aq_prompt_history_tokens :: int

text \<open>The columns that the query selects; the cache-read tokens are not among them.\<close>

definition analysis_columns :: "ledger_row \<Rightarrow> analysis_request" where
  "analysis_columns r =
     \<lparr>aq_model = rq_model r, aq_input_tokens = eq_input_tokens r, aq_output_tokens = eq_output_tokens r,
      aq_cost_usd = rq_cost_usd r, aq_tags = rq_tags r, aq_system_prompt_hash = lw_system_prompt_hash r,
      aq_cache_read_tokens = None, aq_prompt_system_tokens = lw_prompt_system_tokens r,
      aq_prompt_tools_tokens = lw_prompt_tools_tokens r, aq_prompt_rag_tokens = lw_prompt_rag_tokens r,
      aq_prompt_history_tokens = lw_prompt_history_tokens r\<rparr>"

definition get_requests_for_analysis :: "instant option \<Rightarrow> nat option \<Rightarrow> ledger_row table \<Rightarrow> analysis_request list" where
  "get_requests_for_analysis since limit t =
     (let rows = sort_key (\<lambda>r. - instant_of (rq_timestamp r)) (filter (\<lambda>r. at_or_after since (instant_of (rq_timestamp r))) t)
      in map analysis_columns (case limit of None \<Rightarrow> rows | Some n \<Rightarrow> take n rows))"

section \<open>Findings and subjects\<close>

definition DETECTOR_VERSION :: nat where
  "DETECTOR_VERSION = 1"

record waste_finding =
  wf_detector :: string
  wf_severity :: string
  wf_title :: string
  wf_estimated_waste_usd :: usd
  wf_affected_count :: nat
  wf_subject_type :: string
  wf_subject_key :: string
  wf_evidence :: "(string \<times> json) list"

definition fingerprint :: "(string \<Rightarrow> string) \<Rightarrow> waste_finding \<Rightarrow> string" where
  "fingerprint sha f =
     take 32 (sha (wf_detector f @ ''|'' @ wf_subject_type f @ ''|'' @ wf_subject_key f @ ''|1''))"

definition subject_of :: "analysis_request \<Rightarrow> string \<times> string" where
  "subject_of r =
     (if truthy (aq_tags r ''workflow_id'') then (''workflow'', the (aq_tags r ''workflow_id''))
      else (''model'', if aq_model r = [] then ''unknown'' else aq_model r))"

definition median :: "int list \<Rightarrow> int" where
  "median xs = (if xs = [] then 0 else sort xs ! (length xs div 2))"

text \<open>The keys of a dictionary filled in this order.\<close>

definition uniq :: "'a list \<Rightarrow> 'a list" where
  "uniq xs = rev (remdups (rev xs))"

lemma uniq_simps [simp]: "set (uniq xs) = set xs" "distinct (uniq xs)"
  by (simp_all add: uniq_def)

definition split_by_subject :: "analysis_request list \<Rightarrow> ((string \<times> string) \<times> analysis_request list) list" where
  "split_by_subject rs = map (\<lambda>k. (k, filter (\<lambda>r. subject_of r = k) rs)) (uniq (map subject_of rs))"

text \<open>A detector is its name, its title and its analysis of a bucket: severity, waste, count, evidence.\<close>

record detector =
  dt_name :: string
  dt_title :: string
  dt_analyse :: "analysis_request list \<Rightarrow> (string \<times> usd \<times> nat \<times> (string \<times> json) list) option"

definition run_detector :: "detector \<Rightarrow> analysis_request list \<Rightarrow> waste_finding list" where
  "run_detector d rs =
     List.map_filter (\<lambda>((ty, k), bucket). map_option (\<lambda>(severity, waste, n, evidence).
         \<lparr>wf_detector = dt_name d, wf_severity = severity, wf_title = dt_title d, wf_estimated_waste_usd = waste,
          wf_affected_count = n, wf_subject_type = ty, wf_subject_key = k, wf_evidence = evidence\<rparr>)
       (dt_analyse d bucket)) (split_by_subject rs)"

section \<open>Model tiers\<close>

definition MODEL_TIERS :: "(string \<times> string) list" where
  "MODEL_TIERS =
     [(''gpt-5.6-sol'', ''expensive''), (''gpt-5.2-pro'', ''expensive''), (''o1'', ''expensive''), (''o3'', ''expensive''),
      (''opus'', ''expensive''), (''gpt-4-turbo'', ''expensive''), (''gpt-4 '', ''expensive''),
      (''gpt-4o-mini'', ''cheap''), (''gpt-5-mini'', ''cheap''), (''gpt-5-nano'', ''cheap''), (''gpt-5.6-luna'', ''cheap''),
      (''gpt-3.5'', ''cheap''), (''haiku'', ''cheap''), (''flash'', ''cheap''), (''gemini-1.5-flash'', ''cheap''),
      (''gemini-2.0-flash'', ''cheap''), (''gemini-3.1-flash-lite'', ''cheap''),
      (''gpt-4o'', ''mid''), (''gpt-5'', ''mid''), (''sonnet'', ''mid''), (''gemini-1.5-pro'', ''mid''),
      (''gemini-2.0-pro'', ''mid''), (''gemini-3.1-pro'', ''mid'')]"

definition model_tier :: "string \<Rightarrow> string" where
  "model_tier model =
     (case find (\<lambda>(s, tier). contains (lower model) s) MODEL_TIERS of None \<Rightarrow> ''mid'' | Some (s, tier) \<Rightarrow> tier)"

section \<open>Detectors\<close>

definition or1 :: "int \<Rightarrow> int" where
  "or1 n = (if n = 0 then 1 else n)"

text \<open>The detectors that pick single requests: a share of the cost of those picked.\<close>

definition picked :: "(analysis_request \<Rightarrow> bool) \<Rightarrow> usd \<Rightarrow> nat \<Rightarrow> (analysis_request list \<Rightarrow> (string \<times> json) list)
    \<Rightarrow> analysis_request list \<Rightarrow> (string \<times> usd \<times> nat \<times> (string \<times> json) list) option" where
  "picked p share many evidence rs =
     (let hits = filter p rs
      in if hits = [] then None
         else Some (if length hits > many then ''high'' else ''medium'', sum_list (map (\<lambda>r. aq_cost_usd r * share) hits),
                length hits, evidence hits))"

definition context_bloat :: detector where
  "context_bloat =
     \<lparr>dt_name = ''ContextBloatDetector'', dt_title = ''Context Bloat'',
      dt_analyse = picked (\<lambda>r. aq_input_tokens r \<ge> 8000
          \<and> real_of_int (or1 (aq_output_tokens r)) / real_of_int (max (or1 (aq_input_tokens r)) 1) < 5 / 100) (1 / 2) 10
        (\<lambda>hits. [(''threshold_input_tokens'', JInt 8000), (''output_ratio_threshold'', JFloat (5 / 100)),
           (''median_input_tokens'', JInt (median (map aq_input_tokens hits)))])\<rparr>"

definition model_overkill :: detector where
  "model_overkill =
     \<lparr>dt_name = ''ModelOverkillDetector'', dt_title = ''Model Overkill'',
      dt_analyse = picked (\<lambda>r. model_tier (aq_model r) = ''expensive'' \<and> aq_output_tokens r < 200
          \<and> aq_cost_usd r \<ge> 1 / 1000) (7 / 10) 15
        (\<lambda>hits. [(''short_output_threshold'', JInt 200),
           (''median_input_tokens'', JInt (median (map aq_input_tokens hits))),
           (''models'', JArr (map JStr (sorted_list_of_set (aq_model ` set hits))))])\<rparr>"

definition oversized_tools :: detector where
  "oversized_tools =
     \<lparr>dt_name = ''OversizedToolSchemaDetector'', dt_title = ''Oversized Tool Schemas'',
      dt_analyse = picked (\<lambda>r. aq_prompt_tools_tokens r \<ge> 1000
          \<and> real_of_int (aq_prompt_tools_tokens r) / real_of_int (or1 (aq_input_tokens r)) \<ge> 30 / 100) (1 / 2) 10
        (\<lambda>hits. [(''min_tools_tokens'', JInt 1000), (''ratio_threshold'', JFloat (30 / 100)),
           (''median_tools_tokens'', JInt (median (map aq_prompt_tools_tokens hits)))])\<rparr>"

definition low_rag_efficiency :: detector where
  "low_rag_efficiency =
     \<lparr>dt_name = ''LowRAGEfficiencyDetector'', dt_title = ''Low RAG Efficiency'',
      dt_analyse = picked (\<lambda>r. aq_prompt_rag_tokens r \<ge> 8000 \<and> aq_output_tokens r < 100) (1 / 2) 10
        (\<lambda>hits. [(''min_rag_tokens'', JInt 8000), (''max_output_tokens'', JInt 100),
           (''median_rag_tokens'', JInt (median (map aq_prompt_rag_tokens hits)))])\<rparr>"

definition history_bloat :: detector where
  "history_bloat =
     \<lparr>dt_name = ''HistoryBloatDetector'', dt_title = ''Chat History Bloat'',
      dt_analyse = picked (\<lambda>r. aq_prompt_history_tokens r \<ge> 5000
          \<and> real_of_int (aq_prompt_history_tokens r) / real_of_int (or1 (aq_input_tokens r)) \<ge> 1 / 2) (4 / 10) 10
        (\<lambda>hits. [(''min_history_tokens'', JInt 5000), (''ratio_threshold'', JFloat (1 / 2)),
           (''median_history_tokens'', JInt (median (map aq_prompt_history_tokens hits)))])\<rparr>"

text \<open>The detectors that count repetitions of a key; a request without key is skipped. \<open>groups\<close> are the keys
  in the order they first occur, with their requests.\<close>

definition groups :: "(analysis_request \<Rightarrow> 'k option) \<Rightarrow> analysis_request list \<Rightarrow> ('k \<times> analysis_request list) list" where
  "groups key rs = map (\<lambda>k. (k, filter (\<lambda>r. key r = Some k) rs)) (uniq (List.map_filter key rs))"

definition bucket_cost :: "analysis_request list \<Rightarrow> usd" where
  "bucket_cost rs = sum_list (map aq_cost_usd rs)"

definition duplicate_key :: "analysis_request \<Rightarrow> (string \<times> string) option" where
  "duplicate_key r = map_option (\<lambda>h. (h, aq_model r)) (aq_system_prompt_hash r)"

definition prompt_key :: "analysis_request \<Rightarrow> string option" where
  "prompt_key r = (if truthy (aq_system_prompt_hash r) then aq_system_prompt_hash r else None)"

definition uncached_key :: "analysis_request \<Rightarrow> string option" where
  "uncached_key r = (if aq_cache_read_tokens r \<in> {None, Some 0} then prompt_key r else None)"

definition max_list :: "nat list \<Rightarrow> nat" where
  "max_list xs = fold max xs 0"

definition duplicate_requests :: detector where
  "duplicate_requests =
     \<lparr>dt_name = ''DuplicateRequestDetector'', dt_title = ''Duplicate Requests'',
      dt_analyse = (\<lambda>rs.
        let dups = filter (\<lambda>(k, g). length g \<ge> 3) (groups duplicate_key rs);
            affected = sum_list (map (\<lambda>(k, g). length g - 1) dups)
        in if dups = [] then None
           else Some (if affected > 20 then ''high'' else ''medium'',
             sum_list (map (\<lambda>(k, g). bucket_cost g * (real (length g) - 1) / real (length g)) dups), affected,
             [(''min_occurrences'', JInt 3), (''duplicate_groups'', JInt (int (length dups))),
              (''top_repeat_count'', JInt (int (max_list (map (length \<circ> snd) dups))))]))\<rparr>"

definition system_prompt_waste :: detector where
  "system_prompt_waste =
     \<lparr>dt_name = ''SystemPromptWasteDetector'', dt_title = ''System Prompt Waste'',
      dt_analyse = (\<lambda>rs.
        let repeated = filter (\<lambda>(k, g). length g \<ge> 5) (groups prompt_key rs)
        in if repeated = [] then None
           else Some (''medium'', sum_list (map (\<lambda>(k, g). bucket_cost g * (3 / 10)) repeated),
             sum_list (map (length \<circ> snd) repeated),
             [(''distinct_system_prompts'', JInt (int (length repeated))),
              (''top_repeat_count'', JInt (int (max_list (map (length \<circ> snd) repeated))))]))\<rparr>"

definition prompt_caching_opportunity :: detector where
  "prompt_caching_opportunity =
     \<lparr>dt_name = ''PromptCachingOpportunityDetector'', dt_title = ''Prompt Caching Opportunity'',
      dt_analyse = (\<lambda>rs.
        let opportunities = filter (\<lambda>(k, g). length g \<ge> 5
              \<and> fold max (map aq_prompt_system_tokens g) 0 \<ge> 1000) (groups uncached_key rs);
            affected = sum_list (map (length \<circ> snd) opportunities)
        in if opportunities = [] then None
           else Some (if affected > 15 then ''high'' else ''medium'',
             sum_list (map (\<lambda>(k, g). bucket_cost g * (3 / 10)) opportunities), affected,
             [(''min_system_tokens'', JInt 1000), (''min_repeats'', JInt 5),
              (''cacheable_prompts'', JInt (int (length opportunities)))]))\<rparr>"

definition all_detectors :: "detector list" where
  "all_detectors =
     [context_bloat, duplicate_requests, model_overkill, system_prompt_waste, prompt_caching_opportunity,
      oversized_tools, low_rag_efficiency, history_bloat]"

definition severity_rank :: "string \<Rightarrow> nat" where
  "severity_rank s = (if s = ''high'' then 0 else if s = ''medium'' then 1 else if s = ''low'' then 2 else 3)"

definition run_all_detectors :: "analysis_request list \<Rightarrow> waste_finding list" where
  "run_all_detectors rs =
     sort_key (\<lambda>f. (severity_rank (wf_severity f), - wf_estimated_waste_usd f))
       (concat (map (\<lambda>d. run_detector d rs) all_detectors))"


section \<open>Lemmas\<close>

lemma bucket_cost_where: "bucket_cost (filter P rs) = sum_where P aq_cost_usd rs"
  by (simp add: bucket_cost_def sum_where_def)

lemma sum_where_le:
  assumes "\<And>r. r \<in> set rs \<Longrightarrow> 0 \<le> f r" "\<And>r. r \<in> set rs \<Longrightarrow> P r \<Longrightarrow> Q r"
  shows "sum_where P f rs \<le> sum_where Q f rs"
  using assms by (induction rs) (auto simp: add_increasing)

lemma sum_where_all: "sum_where (\<lambda>r. True) f rs = sum_list (map f rs)"
  by (induction rs) auto

text \<open>Both kinds of grouping list every request at most once.\<close>

lemma groups_cost:
  assumes "\<forall>r \<in> set rs. 0 \<le> aq_cost_usd r"
  shows "sum_list (map (\<lambda>(k, g). bucket_cost g) (groups key rs)) \<le> bucket_cost rs"
proof -
  have "sum_list (map (\<lambda>(k, g). bucket_cost g) (groups key rs))
      = sum_list (map (\<lambda>k. sum_where (\<lambda>r. key r = Some k \<and> key r \<noteq> None) aq_cost_usd rs) (uniq (List.map_filter key rs)))"
    by (auto simp: groups_def o_def bucket_cost_where intro!: arg_cong[of _ _ sum_list] sum_where_cong)
  also have "\<dots> = sum_list (map (\<lambda>k. sum_where (\<lambda>r. the (key r) = k \<and> key r \<noteq> None) aq_cost_usd rs) (uniq (List.map_filter key rs)))"
    by (intro arg_cong[of _ _ sum_list] map_cong refl sum_where_cong) auto
  also have "\<dots> = sum_where (\<lambda>r. key r \<noteq> None) aq_cost_usd rs"
    by (rule sum_where_partition) (force simp: set_map_filter)+
  also have "\<dots> \<le> sum_where (\<lambda>r. True) aq_cost_usd rs"
    using assms by (intro sum_where_le) auto
  finally show ?thesis by (simp add: sum_where_all bucket_cost_def)
qed

lemma split_cost:
  "sum_list (map (\<lambda>(k, g). bucket_cost g) (split_by_subject rs)) = bucket_cost rs"
proof -
  have "sum_list (map (\<lambda>(k, g). bucket_cost g) (split_by_subject rs))
      = sum_list (map (\<lambda>k. sum_where (\<lambda>r. subject_of r = k \<and> True) aq_cost_usd rs) (uniq (map subject_of rs)))"
    by (simp add: split_by_subject_def o_def bucket_cost_where)
  also have "\<dots> = sum_where (\<lambda>r. True) aq_cost_usd rs" by (rule sum_where_partition) auto
  finally show ?thesis by (simp add: sum_where_all bucket_cost_def)
qed

definition bounded_detector :: "detector \<Rightarrow> bool" where
  "bounded_detector d \<longleftrightarrow> (\<forall>rs severity waste n evidence. (\<forall>r \<in> set rs. 0 \<le> aq_cost_usd r) \<longrightarrow>
     dt_analyse d rs = Some (severity, waste, n, evidence) \<longrightarrow> 0 \<le> waste \<and> waste \<le> bucket_cost rs)"

lemma picked_bounded:
  assumes "dt_analyse d = picked p share many evidence" "0 \<le> share" "share \<le> 1"
  shows "bounded_detector d"
proof -
  have "0 \<le> sum_list (map (\<lambda>r. aq_cost_usd r * share) (filter p rs))
      \<and> sum_list (map (\<lambda>r. aq_cost_usd r * share) (filter p rs)) \<le> bucket_cost rs"
    if "\<forall>r \<in> set rs. 0 \<le> aq_cost_usd r" for rs
    using that
  proof (induction rs)
    case (Cons r rs)
    have "0 \<le> aq_cost_usd r * share" "aq_cost_usd r * share \<le> aq_cost_usd r"
      using Cons.prems assms(2,3) by (simp_all add: mult_left_le)
    with Cons show ?case by (auto simp: bucket_cost_def intro: add_mono add_increasing)
  qed (simp add: bucket_cost_def)
  then show ?thesis using assms(1) by (auto simp: bounded_detector_def picked_def Let_def split: if_splits)
qed

lemma groups_waste:
  assumes "\<forall>r \<in> set rs. 0 \<le> aq_cost_usd r" "\<And>g. 0 \<le> share g" "\<And>g. share g \<le> 1"
  shows "0 \<le> sum_list (map (\<lambda>(k, g). bucket_cost g * share g) (filter P (groups key rs)))
    \<and> sum_list (map (\<lambda>(k, g). bucket_cost g * share g) (filter P (groups key rs))) \<le> bucket_cost rs"
proof -
  have nn: "0 \<le> bucket_cost g" if "(k, g) \<in> set (groups key rs)" for k g
    using that assms(1) by (auto simp: groups_def bucket_cost_def intro!: sum_list_nonneg)
  have "0 \<le> sum_list (map (\<lambda>(k, g). bucket_cost g * share g) (filter P gs))
      \<and> sum_list (map (\<lambda>(k, g). bucket_cost g * share g) (filter P gs)) \<le> sum_list (map (\<lambda>(k, g). bucket_cost g) gs)"
    if "\<forall>(k, g) \<in> set gs. 0 \<le> bucket_cost g" for gs :: "('a \<times> analysis_request list) list"
    using that
  proof (induction gs)
    case (Cons x gs)
    obtain k g where x: "x = (k, g)" by (cases x)
    have "0 \<le> bucket_cost g * share g" "bucket_cost g * share g \<le> bucket_cost g"
      using Cons.prems x assms(2,3)[of g] by (simp_all add: mult_left_le)
    with Cons x show ?case by (auto intro: add_mono add_increasing)
  qed simp
  then have "0 \<le> sum_list (map (\<lambda>(k, g). bucket_cost g * share g) (filter P (groups key rs)))
      \<and> sum_list (map (\<lambda>(k, g). bucket_cost g * share g) (filter P (groups key rs))) \<le> sum_list (map (\<lambda>(k, g). bucket_cost g) (groups key rs))"
    using nn by blast
  then show ?thesis using groups_cost[OF assms(1), of key] by linarith
qed

definition repeat_share :: "analysis_request list \<Rightarrow> real" where
  "repeat_share g = (if g = [] then 0 else (real (length g) - 1) / real (length g))"

lemma repeat_share_range: "0 \<le> repeat_share g" "repeat_share g \<le> 1"
  by (cases g; simp add: repeat_share_def)+

lemma repeat_share_eq: "x * (real (length g) - 1) / real (length g) = x * repeat_share g"
  by (simp add: repeat_share_def)

lemma all_bounded: "d \<in> set all_detectors \<Longrightarrow> bounded_detector d"
proof -
  have "bounded_detector duplicate_requests"
    unfolding bounded_detector_def
  proof (intro allI impI)
    fix rs severity waste n evidence
    assume nn: "\<forall>r \<in> set rs. 0 \<le> aq_cost_usd r" and res: "dt_analyse duplicate_requests rs = Some (severity, waste, n, evidence)"
    have "waste = sum_list (map (\<lambda>(k, g). bucket_cost g * repeat_share g) (filter (\<lambda>(k, g). length g \<ge> 3) (groups duplicate_key rs)))"
      using res by (auto simp: duplicate_requests_def Let_def repeat_share_eq split: if_splits)
    then show "0 \<le> waste \<and> waste \<le> bucket_cost rs"
      using groups_waste[OF nn, of repeat_share] repeat_share_range by simp
  qed
  moreover have "bounded_detector system_prompt_waste" "bounded_detector prompt_caching_opportunity"
    using groups_waste[of _ "\<lambda>g. 3 / 10"]
    by (auto simp: bounded_detector_def system_prompt_waste_def prompt_caching_opportunity_def Let_def split: if_splits)
  moreover have "bounded_detector context_bloat" "bounded_detector model_overkill" "bounded_detector oversized_tools"
    "bounded_detector low_rag_efficiency" "bounded_detector history_bloat"
    by (rule picked_bounded, simp add: context_bloat_def, simp_all)
      (rule picked_bounded, simp add: model_overkill_def, simp_all,
       rule picked_bounded, simp add: oversized_tools_def, simp_all,
       rule picked_bounded, simp add: low_rag_efficiency_def, simp_all,
       rule picked_bounded, simp add: history_bloat_def, simp_all)
  ultimately show "d \<in> set all_detectors \<Longrightarrow> bounded_detector d" by (auto simp: all_detectors_def)
qed

lemma run_detector_bounded:
  assumes "bounded_detector d" "\<forall>r \<in> set rs. 0 \<le> aq_cost_usd r"
  shows "0 \<le> sum_list (map wf_estimated_waste_usd (run_detector d rs))
    \<and> sum_list (map wf_estimated_waste_usd (run_detector d rs)) \<le> bucket_cost rs"
proof -
  let ?f = "\<lambda>((ty, k), bucket). map_option (\<lambda>(severity, waste, n, evidence).
         \<lparr>wf_detector = dt_name d, wf_severity = severity, wf_title = dt_title d, wf_estimated_waste_usd = waste,
          wf_affected_count = n, wf_subject_type = ty, wf_subject_key = k, wf_evidence = evidence\<rparr>)
       (dt_analyse d bucket)"
  have "0 \<le> sum_list (map wf_estimated_waste_usd (List.map_filter ?f bs))
      \<and> sum_list (map wf_estimated_waste_usd (List.map_filter ?f bs)) \<le> sum_list (map (\<lambda>(k, g). bucket_cost g) bs)"
    if "\<forall>(k, g) \<in> set bs. \<forall>r \<in> set g. 0 \<le> aq_cost_usd r" for bs
    using that
  proof (induction bs)
    case (Cons b bs)
    obtain ty k g where b: "b = ((ty, k), g)" by (metis prod.exhaust)
    have g: "\<forall>r \<in> set g. 0 \<le> aq_cost_usd r" using Cons.prems b by auto
    then have cost: "0 \<le> bucket_cost g" by (auto simp: bucket_cost_def intro!: sum_list_nonneg)
    show ?case
    proof (cases "dt_analyse d g")
      case None
      with Cons b cost show ?thesis by (simp add: List.map_filter_simps)
    next
      case (Some res)
      obtain sv w n ev where res: "res = (sv, w, n, ev)" by (metis prod.exhaust)
      have "0 \<le> w" "w \<le> bucket_cost g" using assms(1) g Some res by (auto simp: bounded_detector_def)
      with Cons b Some res show ?thesis by (simp add: List.map_filter_simps)
    qed
  qed (simp add: List.map_filter_simps)
  moreover have "\<forall>(k, g) \<in> set (split_by_subject rs). \<forall>r \<in> set g. 0 \<le> aq_cost_usd r"
    using assms(2) by (auto simp: split_by_subject_def)
  ultimately show ?thesis unfolding run_detector_def using split_cost[of rs] by fastforce
qed

lemma run_detector_name: "f \<in> set (run_detector d rs) \<Longrightarrow> wf_detector f = dt_name d"
  by (auto simp: run_detector_def set_map_filter split: prod.splits)

lemma filter_detector:
  "distinct (map dt_name ds) \<Longrightarrow> d \<in> set ds \<Longrightarrow>
   filter (\<lambda>f. wf_detector f = dt_name d) (concat (map (\<lambda>d. run_detector d rs) ds)) = run_detector d rs"
proof (induction ds)
  case (Cons e ds)
  have hit: "filter (\<lambda>f. wf_detector f = dt_name d) (run_detector e rs) = (if dt_name e = dt_name d then run_detector e rs else [])"
    using run_detector_name[of _ e rs] by (auto simp: filter_empty_conv intro!: filter_True)
  show ?case
  proof (cases "d = e")
    case True
    have "wf_detector f \<noteq> dt_name d" if "x \<in> set ds" "f \<in> set (run_detector x rs)" for x f
      using imageI[OF that(1), of dt_name] Cons.prems(1) True run_detector_name[OF that(2)] by auto
    then have "filter (\<lambda>f. wf_detector f = dt_name d) (concat (map (\<lambda>d. run_detector d rs) ds)) = []"
      by (auto simp: filter_empty_conv)
    with hit True show ?thesis by simp
  next
    case False
    then have "d \<in> set ds" using Cons.prems(2) by simp
    with Cons have "dt_name e \<noteq> dt_name d" by auto
    with hit Cons \<open>d \<in> set ds\<close> show ?thesis by simp
  qed
qed simp

lemma detector_names: "distinct (map dt_name all_detectors)"
  by (simp add: all_detectors_def context_bloat_def duplicate_requests_def model_overkill_def system_prompt_waste_def
      prompt_caching_opportunity_def oversized_tools_def low_rag_efficiency_def history_bloat_def)

lemma set_run_all: "set (run_all_detectors rs) = (\<Union>d \<in> set all_detectors. set (run_detector d rs))"
  by (simp add: run_all_detectors_def)

section \<open>Properties\<close>

text \<open>
  No detector reports more waste than was spent: the estimates of its findings are not negative and add up
  to at most the cost of the requests it was given. (Different detectors may count the same spend.)
\<close>

theorem waste_bounded_by_spend:
  assumes "d \<in> set all_detectors" "\<forall>r \<in> set rs. 0 \<le> aq_cost_usd r"
  shows "0 \<le> sum_list (map wf_estimated_waste_usd (filter (\<lambda>f. wf_detector f = dt_name d) (run_all_detectors rs)))
    \<and> sum_list (map wf_estimated_waste_usd (filter (\<lambda>f. wf_detector f = dt_name d) (run_all_detectors rs))) \<le> bucket_cost rs"
proof -
  have "filter (\<lambda>f. wf_detector f = dt_name d) (concat (map (\<lambda>d. run_detector d rs) all_detectors)) = run_detector d rs"
    by (rule filter_detector[OF detector_names assms(1)])
  then show ?thesis
    using run_detector_bounded[OF all_bounded[OF assms(1)] assms(2)]
    by (simp add: run_all_detectors_def sum_list_sort_key)
qed


lemma count_sorted: "length (filter P (sort_key f xs)) = length (filter P xs)"
  by (metis mset_filter mset_sort size_mset)

lemma le_fold_max: "a \<le> fold max xs a \<and> (\<forall>x \<in> set xs. x \<le> fold max xs a)" for a :: int
proof (induction xs arbitrary: a)
  case (Cons y ys)
  from Cons.IH[of "max y a"] show ?case by auto
qed simp

lemma caching_finding:
  assumes "(ty, k) \<in> set (map subject_of rs)" "h \<noteq> []"
    and "g = filter (\<lambda>r. subject_of r = (ty, k) \<and> uncached_key r = Some h) rs"
    and "5 \<le> length g" "\<exists>r \<in> set g. 1000 \<le> aq_prompt_system_tokens r"
  shows "\<exists>f \<in> set (run_all_detectors rs). wf_detector f = ''PromptCachingOpportunityDetector''
    \<and> wf_subject_type f = ty \<and> wf_subject_key f = k"
proof -
  let ?bucket = "filter (\<lambda>r. subject_of r = (ty, k)) rs"
  have bucket: "((ty, k), ?bucket) \<in> set (split_by_subject rs)" using assms(1) by (force simp: split_by_subject_def)
  have g: "filter (\<lambda>r. uncached_key r = Some h) ?bucket = g" by (simp add: assms(3) conj_commute)
  have "g \<noteq> []" using assms(4) by auto
  then obtain r where "r \<in> set ?bucket" "uncached_key r = Some h" unfolding assms(3) by (auto simp: filter_empty_conv)
  then have grp: "(h, g) \<in> set (groups uncached_key ?bucket)" using g by (force simp: groups_def set_map_filter)
  have "fold max (map aq_prompt_system_tokens g) (0 :: int) \<ge> 1000"
  proof -
    from assms(5) obtain r where "r \<in> set g" "1000 \<le> aq_prompt_system_tokens r" by blast
    then show ?thesis using le_fold_max[of 0 "map aq_prompt_system_tokens g"] by auto
  qed
  with grp assms(4) have "filter (\<lambda>(k, g). length g \<ge> 5 \<and> fold max (map aq_prompt_system_tokens g) 0 \<ge> 1000) (groups uncached_key ?bucket) \<noteq> []"
    by (auto simp: filter_empty_conv)
  then obtain sv w n ev where "dt_analyse prompt_caching_opportunity ?bucket = Some (sv, w, n, ev)"
    by (simp add: prompt_caching_opportunity_def Let_def)
  then have "\<exists>f \<in> set (run_detector prompt_caching_opportunity rs). wf_subject_type f = ty \<and> wf_subject_key f = k"
    unfolding run_detector_def using bucket by (force simp: set_map_filter)
  then show ?thesis
    using run_detector_name[of _ prompt_caching_opportunity rs]
    by (force simp: set_run_all all_detectors_def prompt_caching_opportunity_def)
qed

text \<open>
  Cached prompts are reported as uncached: the rows handed to the detectors have no cache-read column, so
  the check for it always passes. Five requests of a subject with the same large system prompt give the
  finding although every single one was answered from the provider's prompt cache.
\<close>

theorem cached_prompts_flagged:
  assumes "hits = filter (\<lambda>r. at_or_after since (instant_of (rq_timestamp r)) \<and> subject_of (analysis_columns r) = (ty, k)
      \<and> lw_system_prompt_hash r = Some h) t"
    and "h \<noteq> []" "5 \<le> length hits" "\<exists>r \<in> set hits. 1000 \<le> lw_prompt_system_tokens r" "\<forall>r \<in> set t. 0 < eq_cache_read_tokens r"
  shows "\<exists>f \<in> set (run_all_detectors (get_requests_for_analysis since None t)).
    wf_detector f = ''PromptCachingOpportunityDetector'' \<and> wf_subject_type f = ty \<and> wf_subject_key f = k"
proof -
  let ?rows = "sort_key (\<lambda>r. - instant_of (rq_timestamp r)) (filter (\<lambda>r. at_or_after since (instant_of (rq_timestamp r))) t)"
  let ?rs = "get_requests_for_analysis since None t"
  let ?g = "filter (\<lambda>r. subject_of r = (ty, k) \<and> uncached_key r = Some h) ?rs"
  have rs: "?rs = map analysis_columns ?rows" by (simp add: get_requests_for_analysis_def)
  have key: "uncached_key (analysis_columns r) = Some h \<longleftrightarrow> lw_system_prompt_hash r = Some h" for r
    using assms(2) by (auto simp: uncached_key_def prompt_key_def analysis_columns_def truthy_def split: option.splits)
  have sel: "filter (\<lambda>r. subject_of (analysis_columns r) = (ty, k) \<and> uncached_key (analysis_columns r) = Some h)
      (filter (\<lambda>r. at_or_after since (instant_of (rq_timestamp r))) t) = hits"
    by (auto simp: assms(1) key intro: filter_cong)
  have g: "?g = map analysis_columns (filter (\<lambda>r. subject_of (analysis_columns r) = (ty, k) \<and> uncached_key (analysis_columns r) = Some h) ?rows)"
    by (simp add: rs filter_map o_def)
  have len: "5 \<le> length ?g" using assms(3) by (simp only: g length_map count_sorted sel)
  have "set (filter (\<lambda>r. subject_of (analysis_columns r) = (ty, k) \<and> uncached_key (analysis_columns r) = Some h) ?rows) = set hits"
    using arg_cong[OF sel, of set] by simp
  then have "set ?g = analysis_columns ` set hits" by (simp only: g set_map)
  then have member: "\<exists>r \<in> set ?g. 1000 \<le> aq_prompt_system_tokens r"
    using assms(4) by (auto simp: analysis_columns_def)
  have "(ty, k) \<in> set (map subject_of ?rs)" using member by force
  from caching_finding[OF this assms(2) refl len member] show ?thesis .
qed


section \<open>Witnesses\<close>

definition cached_row :: ledger_row where
  "cached_row = econ_row.extend ((plain_row ''a'')\<lparr>eq_cache_read_tokens := 900, rq_tags := [''workflow_id'' \<mapsto> ''w'']\<rparr>)
     \<lparr>lw_parent_span_id = None, lw_system_prompt_hash = Some ''h'', lw_prompt_system_tokens = 1200, lw_prompt_tools_tokens = 0,
      lw_prompt_rag_tokens = 0, lw_prompt_history_tokens = 0\<rparr>"

lemma cached_row_sel [simp]:
  "rq_tags cached_row = [''workflow_id'' \<mapsto> ''w'']" "lw_system_prompt_hash cached_row = Some ''h''"
  "lw_prompt_system_tokens cached_row = 1200" "eq_cache_read_tokens cached_row = 900" "rq_cost_usd cached_row = 2"
  by (simp_all add: cached_row_def econ_row.extend_def plain_row_def)

theorem waste_bounded_by_spend_witness:
  "context_bloat \<in> set all_detectors \<and>
   sum_list (map wf_estimated_waste_usd (filter (\<lambda>f. wf_detector f = dt_name context_bloat)
     (run_all_detectors [analysis_columns cached_row]))) \<le> 2"
proof -
  have d: "context_bloat \<in> set all_detectors" by (simp add: all_detectors_def)
  have "\<forall>r \<in> set [analysis_columns cached_row]. 0 \<le> aq_cost_usd r" by (simp add: analysis_columns_def)
  from waste_bounded_by_spend[OF d this] d show ?thesis by (simp add: bucket_cost_def analysis_columns_def)
qed

theorem cached_prompts_flagged_witness:
  "\<exists>f \<in> set (run_all_detectors (get_requests_for_analysis None None (replicate 5 cached_row))).
     wf_detector f = ''PromptCachingOpportunityDetector'' \<and> wf_subject_type f = ''workflow'' \<and> wf_subject_key f = ''w''"
proof -
  have subj: "subject_of (analysis_columns cached_row) = (''workflow'', ''w'')"
    by (simp add: subject_of_def analysis_columns_def)
  show ?thesis
    by (rule cached_prompts_flagged[where h = "''h''", OF refl]) (simp_all add: subj at_or_after_def)
qed

end
