(* ===== verification/Findings.thy ===== *)
theory Findings
  imports Waste
begin

text \<open>
  The life of a waste finding and the verification of its savings (\<open>storage/findings.py\<close>), and the
  top-line economics built on them (\<open>analysis/economics.py\<close>). Points in time are integers; their ISO
  text appears only where the code builds identifiers (\<open>isotext\<close>). SHA-256 and the commit of the working
  tree are parameters.
\<close>

section \<open>Stored findings\<close>

definition VALID_STATUSES :: "string list" where
  "VALID_STATUSES = [''open'', ''acknowledged'', ''resolved'', ''accepted_risk'']"

definition BASELINE_WINDOW_DAYS :: int where
  "BASELINE_WINDOW_DAYS = 7"

definition VERIFICATION_COMPARISON_RULE :: string where
  "VERIFICATION_COMPARISON_RULE = ''same_subject_equal_windows''"

record stored_finding =
  sf_fingerprint :: string
  sf_detector :: string
  sf_subject_type :: string
  sf_subject_key :: string
  sf_severity :: string
  sf_title :: string
  sf_estimated_waste_usd :: usd
  sf_affected_count :: nat
  sf_evidence :: json
  sf_status :: string
  sf_first_seen_at :: instant
  sf_last_seen_at :: instant
  sf_resolved_at :: "instant option"
  sf_baseline_waste_usd :: "usd option"
  sf_baseline_cost_usd :: "usd option"
  sf_baseline_requests :: "nat option"
  sf_baseline_window_days :: "int option"
  sf_detection_count :: nat
  sf_detector_version :: nat

record sync_result =
  sy_new :: nat
  sy_updated :: nat
  sy_reopened :: nat

definition new_finding :: "instant \<Rightarrow> string \<Rightarrow> waste_finding \<Rightarrow> stored_finding" where
  "new_finding now fp f =
     \<lparr>sf_fingerprint = fp, sf_detector = wf_detector f, sf_subject_type = wf_subject_type f,
      sf_subject_key = wf_subject_key f, sf_severity = wf_severity f, sf_title = wf_title f,
      sf_estimated_waste_usd = wf_estimated_waste_usd f, sf_affected_count = wf_affected_count f,
      sf_evidence = JObj (wf_evidence f), sf_status = ''open'', sf_first_seen_at = now, sf_last_seen_at = now,
      sf_resolved_at = None, sf_baseline_waste_usd = None, sf_baseline_cost_usd = None, sf_baseline_requests = None,
      sf_baseline_window_days = None, sf_detection_count = 1, sf_detector_version = DETECTOR_VERSION\<rparr>"

definition refreshed :: "instant \<Rightarrow> waste_finding \<Rightarrow> stored_finding \<Rightarrow> stored_finding" where
  "refreshed now f s =
     s\<lparr>sf_severity := wf_severity f, sf_estimated_waste_usd := wf_estimated_waste_usd f,
       sf_affected_count := wf_affected_count f, sf_evidence := JObj (wf_evidence f), sf_last_seen_at := now,
       sf_status := (if sf_status s = ''resolved'' then ''open'' else sf_status s),
       sf_detection_count := sf_detection_count s + 1\<rparr>"

definition sync_finding ::
    "(string \<Rightarrow> string) \<Rightarrow> instant \<Rightarrow> waste_finding \<Rightarrow> sync_result \<times> stored_finding table \<Rightarrow> sync_result \<times> stored_finding table" where
  "sync_finding sha now f st =
     (case st of (res, t) \<Rightarrow>
        (case lookup_key sf_fingerprint (fingerprint sha f) t of
           None \<Rightarrow> (res\<lparr>sy_new := sy_new res + 1\<rparr>, t @ [new_finding now (fingerprint sha f) f])
         | Some s \<Rightarrow> (if sf_status s = ''resolved'' then res\<lparr>sy_reopened := sy_reopened res + 1\<rparr>
                      else res\<lparr>sy_updated := sy_updated res + 1\<rparr>,
                      update_where (\<lambda>x. sf_fingerprint x = fingerprint sha f) (refreshed now f) t)))"

definition sync_findings ::
    "(string \<Rightarrow> string) \<Rightarrow> instant \<Rightarrow> waste_finding list \<Rightarrow> stored_finding table \<Rightarrow> sync_result \<times> stored_finding table" where
  "sync_findings sha now fs t = fold (sync_finding sha now) fs (\<lparr>sy_new = 0, sy_updated = 0, sy_reopened = 0\<rparr>, t)"

text \<open>\<open>sync_waste_findings\<close> of \<open>detection/scheduler.py\<close>\<close>

definition sync_waste_findings ::
    "(string \<Rightarrow> string) \<Rightarrow> int \<Rightarrow> instant \<Rightarrow> ledger_row table \<Rightarrow> stored_finding table \<Rightarrow> sync_result \<times> stored_finding table" where
  "sync_waste_findings sha days now requests t =
     (let rs = get_requests_for_analysis (Some (now - days * 86400000000)) None requests
      in if rs = [] then (\<lparr>sy_new = 0, sy_updated = 0, sy_reopened = 0\<rparr>, t)
         else sync_findings sha now (run_all_detectors rs) t)"

definition list_findings :: "string option \<Rightarrow> nat \<Rightarrow> stored_finding table \<Rightarrow> stored_finding list" where
  "list_findings status limit t =
     take limit (sort_key (\<lambda>s. (min (severity_rank (sf_severity s)) 2, - sf_estimated_waste_usd s))
       (filter (\<lambda>s. truthy status \<longrightarrow> Some (sf_status s) = status) t))"

section \<open>Spend of a subject\<close>

definition of_subject :: "string \<Rightarrow> string \<Rightarrow> ledger_row \<Rightarrow> bool" where
  "of_subject ty k r =
     (if ty = ''workflow'' then rq_tags r ''workflow_id'' = Some k else ty = ''model'' \<and> rq_model r = k)"

definition in_window :: "instant \<Rightarrow> instant option \<Rightarrow> ledger_row \<Rightarrow> bool" where
  "in_window since until r =
     (since \<le> instant_of (rq_timestamp r) \<and> (case until of None \<Rightarrow> True | Some u \<Rightarrow> instant_of (rq_timestamp r) < u))"

definition get_subject_spend :: "string \<Rightarrow> string \<Rightarrow> instant \<Rightarrow> instant option \<Rightarrow> ledger_row table \<Rightarrow> usd \<times> nat" where
  "get_subject_spend ty k since until t =
     (sum_where (\<lambda>r. of_subject ty k r \<and> in_window since until r) rq_cost_usd t,
      count_where (\<lambda>r. of_subject ty k r \<and> in_window since until r) t)"

definition MIN_VERIFY_REQUESTS :: nat where
  "MIN_VERIFY_REQUESTS = 30"

definition classify_savings :: "real \<Rightarrow> nat \<Rightarrow> string" where
  "classify_savings delta current_requests =
     (if current_requests < MIN_VERIFY_REQUESTS then ''inconclusive'' else if delta > 0 then ''verified'' else ''missed'')"

section \<open>Resolving a finding\<close>

record change_info =
  ci_window_days :: int
  ci_cohort_key :: "string option"
  ci_change_reference :: "string option"
  ci_change_type :: "string option"
  ci_change_url :: "string option"
  ci_owner :: "string option"
  ci_acceptance_criteria :: "string option"
  ci_configuration_before :: "string option"
  ci_configuration_after :: "string option"
  ci_effective_at :: "instant option"
  ci_commit_sha :: "string option" \<comment> \<open>what \<open>read_git_context\<close> finds\<close>

record findings_db =
  fd_findings :: "stored_finding table"
  fd_requests :: "ledger_row table"
  fd_outcomes :: "outcome_row table"

definition obj_set :: "(string \<times> json) list \<Rightarrow> string \<Rightarrow> json \<Rightarrow> (string \<times> json) list" where
  "obj_set d k v = (if map_of d k = None then d @ [(k, v)] else map (\<lambda>(k', v'). (k', if k' = k then v else v')) d)"

definition optional_field :: "string \<Rightarrow> string option \<Rightarrow> (string \<times> json) list" where
  "optional_field k v = (if truthy v then [(k, JStr (the v))] else [])"

text \<open>\<open>cohort_key.split(":", 1)\<close> when it names a workflow or a model, the finding's own subject otherwise.\<close>

definition cohort_scope :: "string \<Rightarrow> string \<times> string \<Rightarrow> string \<times> string" where
  "cohort_scope cohort subject =
     (let head = takeWhile (\<lambda>c. c \<noteq> CHR '':'') cohort; rest = drop (length head + 1) cohort
      in if CHR '':'' \<in> set cohort \<and> head \<in> {''workflow'', ''model''} \<and> rest \<noteq> [] then (head, rest) else subject)"

definition with_history :: "json \<Rightarrow> (string \<times> json) list" where
  "with_history evidence =
     (case evidence of
        JObj e \<Rightarrow>
          (case jfield e ''verification'' of
             JObj prev \<Rightarrow> obj_set e ''verification_history''
               (JArr ((case jfield e ''verification_history'' of JArr h \<Rightarrow> h | _ \<Rightarrow> []) @ [JObj prev]))
           | _ \<Rightarrow> e)
      | _ \<Rightarrow> [])"

definition effective_cohort :: "change_info \<Rightarrow> stored_finding \<Rightarrow> string" where
  "effective_cohort ci s =
     (if truthy (ci_cohort_key ci) then the (ci_cohort_key ci) else sf_subject_type s @ '':'' @ sf_subject_key s)"

definition resolution_scope :: "change_info \<Rightarrow> stored_finding \<Rightarrow> string \<times> string" where
  "resolution_scope ci s = cohort_scope (effective_cohort ci s) (sf_subject_type s, sf_subject_key s)"

definition effective_reference :: "change_info \<Rightarrow> string option" where
  "effective_reference ci =
     (if truthy (ci_change_reference ci) then ci_change_reference ci
      else if truthy (ci_commit_sha ci) then Some (''commit:'' @ the (ci_commit_sha ci)) else ci_change_reference ci)"

definition effective_type :: "change_info \<Rightarrow> string option" where
  "effective_type ci =
     (if \<not> truthy (ci_change_reference ci) \<and> truthy (ci_commit_sha ci) \<and> \<not> truthy (ci_change_type ci)
      then Some ''commit'' else ci_change_type ci)"

definition verification_evidence :: "(instant \<Rightarrow> string) \<Rightarrow> change_info \<Rightarrow> instant \<Rightarrow> stored_finding \<Rightarrow> json" where
  "verification_evidence isotext ci now s =
     JObj ([(''cohort_key'', JStr (effective_cohort ci s)),
        (''intervention_id'', JStr (''finding:'' @ sf_fingerprint s @ '':'' @ isotext now)),
        (''comparison_rule'', JStr VERIFICATION_COMPARISON_RULE),
        (''scope_type'', JStr (fst (resolution_scope ci s))), (''scope_key'', JStr (snd (resolution_scope ci s)))]
       @ optional_field ''change_reference'' (effective_reference ci) @ optional_field ''change_type'' (effective_type ci)
       @ optional_field ''change_url'' (ci_change_url ci) @ optional_field ''owner'' (ci_owner ci)
       @ optional_field ''acceptance_criteria'' (ci_acceptance_criteria ci)
       @ optional_field ''configuration_before'' (ci_configuration_before ci)
       @ optional_field ''configuration_after'' (ci_configuration_after ci)
       @ [(''effective_at'', JStr (isotext now))])"

definition resolved_finding ::
    "(instant \<Rightarrow> string) \<Rightarrow> change_info \<Rightarrow> instant \<Rightarrow> usd \<times> nat \<Rightarrow> stored_finding \<Rightarrow> stored_finding" where
  "resolved_finding isotext ci now baseline s =
     s\<lparr>sf_status := ''resolved'', sf_resolved_at := Some now, sf_baseline_waste_usd := Some (sf_estimated_waste_usd s),
       sf_baseline_cost_usd := Some (fst baseline), sf_baseline_requests := Some (snd baseline),
       sf_baseline_window_days := Some (ci_window_days ci),
       sf_evidence := JObj (obj_set (with_history (sf_evidence s)) ''verification'' (verification_evidence isotext ci now s))\<rparr>"

text \<open>\<open>None\<close> is the ValueError; otherwise whether the finding exists, and the new table.\<close>

definition set_finding_status ::
    "(instant \<Rightarrow> string) \<Rightarrow> instant \<Rightarrow> string \<Rightarrow> string \<Rightarrow> change_info \<Rightarrow> findings_db \<Rightarrow> (bool \<times> findings_db) option" where
  "set_finding_status isotext clock fp status ci db =
     (if status \<notin> set VALID_STATUSES then None
      else case lookup_key sf_fingerprint fp (fd_findings db) of
             None \<Rightarrow> Some (False, db)
           | Some s \<Rightarrow>
               if status \<noteq> ''resolved'' then
                 Some (True, db\<lparr>fd_findings := update_where (\<lambda>x. sf_fingerprint x = fp) (\<lambda>x. x\<lparr>sf_status := status\<rparr>) (fd_findings db)\<rparr>)
               else (let now = (case ci_effective_at ci of None \<Rightarrow> clock | Some t \<Rightarrow> t);
                         (ty, k) = resolution_scope ci s;
                         baseline = get_subject_spend ty k (now - ci_window_days ci * 86400000000) (Some now) (fd_requests db)
                     in Some (True, db\<lparr>fd_findings :=
                          update_where (\<lambda>x. sf_fingerprint x = fp) (\<lambda>x. resolved_finding isotext ci now baseline s) (fd_findings db)\<rparr>)))"

section \<open>Verifying savings\<close>

record savings_verdict =
  sv_fingerprint :: string
  sv_title :: string
  sv_subject :: "string \<times> string"
  sv_status :: string
  sv_baseline_cost_per_request :: "real option"
  sv_current_cost_per_request :: "real option"
  sv_delta_per_request :: "real option"
  sv_pct_change :: "real option"
  sv_projected_monthly_savings_usd :: "real option"
  sv_baseline_requests :: "nat option"
  sv_current_requests :: "nat option"
  sv_days_remaining :: "real option"
  sv_reopened :: bool
  sv_outcome_quality :: string
  sv_baseline_acceptance_rate :: "real option"
  sv_current_acceptance_rate :: "real option"
  sv_quality_qualified :: bool
  sv_cohort_key :: "string option"
  sv_intervention_id :: "string option"
  sv_change_reference :: "string option"
  sv_details :: "(string \<times> json) list" \<comment> \<open>the other fields of the stored verification, copied\<close>
  sv_comparison_rule :: json

definition json_str :: "json \<Rightarrow> string option" where
  "json_str j = (case j of JStr s \<Rightarrow> Some s | _ \<Rightarrow> None)"

definition stored_verification :: "stored_finding \<Rightarrow> (string \<times> json) list option" where
  "stored_verification s =
     (case sf_evidence s of JObj e \<Rightarrow> (case jfield e ''verification'' of JObj v \<Rightarrow> Some v | _ \<Rightarrow> None) | _ \<Rightarrow> None)"

definition verdict_fields :: "string list" where
  "verdict_fields = [''change_type'', ''change_url'', ''owner'', ''acceptance_criteria'', ''configuration_before'',
     ''configuration_after'', ''effective_at'']"

definition initial_verdict :: "(instant \<Rightarrow> string) \<Rightarrow> stored_finding \<Rightarrow> savings_verdict" where
  "initial_verdict isotext s =
     (let v = stored_verification s;
          field = (\<lambda>k. case v of None \<Rightarrow> None | Some d \<Rightarrow> json_str (jfield d k))
      in \<lparr>sv_fingerprint = sf_fingerprint s, sv_title = sf_title s, sv_subject = (sf_subject_type s, sf_subject_key s),
          sv_status = ''no_baseline'', sv_baseline_cost_per_request = None, sv_current_cost_per_request = None,
          sv_delta_per_request = None, sv_pct_change = None, sv_projected_monthly_savings_usd = None,
          sv_baseline_requests = None, sv_current_requests = None, sv_days_remaining = None,
          sv_reopened = (sf_status s = ''open'' \<and> sf_resolved_at s \<noteq> None), sv_outcome_quality = ''unavailable'',
          sv_baseline_acceptance_rate = None, sv_current_acceptance_rate = None, sv_quality_qualified = False,
          sv_cohort_key = (case field ''cohort_key'' of None \<Rightarrow> Some (sf_subject_type s @ '':'' @ sf_subject_key s) | Some c \<Rightarrow> Some c),
          sv_intervention_id = (case field ''intervention_id'' of
              None \<Rightarrow> map_option (\<lambda>t. ''finding:'' @ sf_fingerprint s @ '':'' @ isotext t) (sf_resolved_at s) | Some i \<Rightarrow> Some i),
          sv_change_reference = field ''change_reference'',
          sv_details = (case v of None \<Rightarrow> [] | Some d \<Rightarrow> filter (\<lambda>(k, x). k \<in> set verdict_fields) d),
          sv_comparison_rule = (case v of None \<Rightarrow> JStr VERIFICATION_COMPARISON_RULE
              | Some d \<Rightarrow> (case map_of d ''comparison_rule'' of None \<Rightarrow> JStr VERIFICATION_COMPARISON_RULE | Some r \<Rightarrow> r))\<rparr>)"

definition workflow_outcome_quality :: "string \<Rightarrow> instant \<Rightarrow> instant \<Rightarrow> outcome_row table \<Rightarrow> real option \<times> nat \<times> nat" where
  "workflow_outcome_quality wid since until t =
     (let inside = (\<lambda>u. ow_workflow_id u = wid \<and> since \<le> ow_event_time u \<and> ow_event_time u < until);
          total = count_where inside t; accepted = count_where (\<lambda>u. inside u \<and> ow_status u = ''accepted'') t
      in (if total > 0 then Some (real accepted / real total) else None, accepted, total))"

definition verification_scope :: "stored_finding \<Rightarrow> string \<times> string" where
  "verification_scope s =
     (case stored_verification s of
        None \<Rightarrow> (sf_subject_type s, sf_subject_key s)
      | Some d \<Rightarrow> (case (json_str (jfield d ''scope_type''), json_str (jfield d ''scope_key'')) of
           (Some ty, Some k) \<Rightarrow> if ty \<in> {''workflow'', ''model''} then (ty, k) else (sf_subject_type s, sf_subject_key s)
         | _ \<Rightarrow> (sf_subject_type s, sf_subject_key s)))"

definition or_0 :: "real option \<Rightarrow> real" where
  "or_0 x = (case x of None \<Rightarrow> 0 | Some r \<Rightarrow> r)"

definition window_days_of :: "stored_finding \<Rightarrow> int" where
  "window_days_of s = (case sf_baseline_window_days s of None \<Rightarrow> BASELINE_WINDOW_DAYS | Some d \<Rightarrow> if d = 0 then BASELINE_WINDOW_DAYS else d)"

definition judge_quality :: "string \<times> string \<Rightarrow> instant \<Rightarrow> int \<Rightarrow> outcome_row table \<Rightarrow> savings_verdict \<Rightarrow> savings_verdict" where
  "judge_quality scope resolved width outcomes v =
     (if fst scope \<noteq> ''workflow'' then v
      else (let (before, a, n) = workflow_outcome_quality (snd scope) (resolved - width) resolved outcomes;
                (after, b, m) = workflow_outcome_quality (snd scope) resolved (resolved + width) outcomes;
                quality = (if n > 0 \<and> m > 0 then (if or_0 after < or_0 before then ''degraded'' else ''preserved'') else ''insufficient'')
            in v\<lparr>sv_baseline_acceptance_rate := before, sv_current_acceptance_rate := after,
                 sv_outcome_quality := quality, sv_quality_qualified := (quality = ''preserved'')\<rparr>))"

definition verify_finding :: "(instant \<Rightarrow> string) \<Rightarrow> instant \<Rightarrow> findings_db \<Rightarrow> stored_finding \<Rightarrow> savings_verdict" where
  "verify_finding isotext now db s =
     (let v = initial_verdict isotext s
      in case (sf_resolved_at s, sf_baseline_requests s) of
           (Some resolved, Some base) \<Rightarrow>
             (if base = 0 then v
              else let days = window_days_of s; width = days * 86400000000
                   in if now - resolved < width
                      then v\<lparr>sv_status := ''pending'',
                             sv_days_remaining := Some (py_round (real_of_int (width - (now - resolved)) / 86400000000) 2)\<rparr>
                      else (let scope = verification_scope s;
                                (cost, n) = get_subject_spend (fst scope) (snd scope) resolved (Some (resolved + width)) (fd_requests db);
                                v1 = v\<lparr>sv_baseline_requests := Some base, sv_current_requests := Some n\<rparr>
                            in if n = 0 then v1\<lparr>sv_status := ''no_traffic''\<rparr>
                               else (let v2 = judge_quality scope resolved width (fd_outcomes db) v1;
                                         before = or_0 (sf_baseline_cost_usd s) / real base; after = cost / real n;
                                         delta = before - after; status = classify_savings delta n
                                     in v2\<lparr>sv_baseline_cost_per_request := Some before, sv_current_cost_per_request := Some after,
                                           sv_delta_per_request := Some delta,
                                           sv_status := (if status = ''verified'' \<and> sv_outcome_quality v2 = ''degraded''
                                                         then ''missed'' else status),
                                           sv_pct_change := (if before = 0 then None else Some ((after - before) / before * 100)),
                                           sv_projected_monthly_savings_usd :=
                                             Some (delta * real n * (30 / real_of_int days))\<rparr>)))
         | _ \<Rightarrow> v)"

definition verify_savings :: "(instant \<Rightarrow> string) \<Rightarrow> instant \<Rightarrow> string \<Rightarrow> findings_db \<Rightarrow> savings_verdict option" where
  "verify_savings isotext now fp db = map_option (verify_finding isotext now db) (lookup_key sf_fingerprint fp (fd_findings db))"

definition verify_all_resolved :: "(instant \<Rightarrow> string) \<Rightarrow> instant \<Rightarrow> findings_db \<Rightarrow> savings_verdict list" where
  "verify_all_resolved isotext now db =
     sort_key (\<lambda>v. - or_0 (sv_projected_monthly_savings_usd v))
       (List.map_filter (\<lambda>s. verify_savings isotext now (sf_fingerprint s) db)
          (filter (\<lambda>s. sf_baseline_requests s \<noteq> None) (fd_findings db)))"

section \<open>The lifecycle\<close>

lemma fp_simps [simp]:
  "sf_fingerprint (refreshed now f s) = sf_fingerprint s"
  "sf_fingerprint (new_finding now fp f) = fp"
  "sf_fingerprint (resolved_finding isotext ci now b s) = sf_fingerprint s"
  by (simp_all add: refreshed_def new_finding_def resolved_finding_def)

text \<open>The events that change the stored findings; a detection pass brings the findings it made.\<close>

datatype finding_event =
    Detected instant "waste_finding list"
  | Status_set instant string string change_info

definition finding_step ::
    "(string \<Rightarrow> string) \<Rightarrow> (instant \<Rightarrow> string) \<Rightarrow> finding_event \<Rightarrow> findings_db \<Rightarrow> findings_db" where
  "finding_step sha isotext e db =
     (case e of
        Detected now fs \<Rightarrow> db\<lparr>fd_findings := snd (sync_findings sha now fs (fd_findings db))\<rparr>
      | Status_set clock fp status ci \<Rightarrow>
          (case set_finding_status isotext clock fp status ci db of None \<Rightarrow> db | Some (found, db') \<Rightarrow> db'))"

definition finding_typed :: "stored_finding \<Rightarrow> bool" where
  "finding_typed s \<longleftrightarrow> sf_status s \<in> set VALID_STATUSES \<and> 1 \<le> sf_detection_count s
     \<and> (sf_resolved_at s = None \<longleftrightarrow> sf_baseline_requests s = None)
     \<and> (sf_resolved_at s = None \<longleftrightarrow> sf_baseline_window_days s = None)
     \<and> (sf_status s = ''resolved'' \<longrightarrow> sf_resolved_at s \<noteq> None)"

definition findings_typed :: "stored_finding table \<Rightarrow> bool" where
  "findings_typed t \<longleftrightarrow> pk sf_fingerprint t \<and> (\<forall>s \<in> set t. finding_typed s)"

lemma findings_typed_update:
  assumes "findings_typed t" "\<And>s. s \<in> set t \<Longrightarrow> p s \<Longrightarrow> finding_typed (f s) \<and> sf_fingerprint (f s) = sf_fingerprint s"
  shows "findings_typed (update_where p f t)"
proof -
  have "map sf_fingerprint (update_where p f t) = map sf_fingerprint t" using assms(2) by (simp add: update_where_def)
  then have "pk sf_fingerprint (update_where p f t)" using assms(1) by (simp only: pk_def findings_typed_def)
  with assms show ?thesis by (auto simp: findings_typed_def update_where_def)
qed

lemma findings_typed_snoc:
  "findings_typed t \<Longrightarrow> finding_typed s \<Longrightarrow> lookup_key sf_fingerprint (sf_fingerprint s) t = None \<Longrightarrow> findings_typed (t @ [s])"
  by (auto simp: findings_typed_def pk_def lookup_key_None_iff)

lemma sync_finding_typed: "findings_typed (snd st) \<Longrightarrow> findings_typed (snd (sync_finding sha now f st))"
proof (cases st)
  case (Pair res t)
  assume ok: "findings_typed (snd st)"
  have "finding_typed (new_finding now fp f)" for fp by (simp add: finding_typed_def new_finding_def VALID_STATUSES_def)
  then show ?thesis using ok Pair
    by (auto simp: sync_finding_def split: option.split intro!: findings_typed_snoc findings_typed_update)
       (auto simp: findings_typed_def finding_typed_def refreshed_def VALID_STATUSES_def)
qed

lemma sync_findings_typed: "findings_typed t \<Longrightarrow> findings_typed (snd (sync_findings sha now fs t))"
proof -
  have "findings_typed (snd st) \<Longrightarrow> findings_typed (snd (fold (sync_finding sha now) fs st))" for st
    by (induction fs arbitrary: st) (simp_all add: sync_finding_typed)
  then show "findings_typed t \<Longrightarrow> ?thesis" by (simp add: sync_findings_def)
qed

lemma set_status_typed:
  assumes "findings_typed (fd_findings db)" "set_finding_status isotext clock fp status ci db = Some (found, db')"
  shows "findings_typed (fd_findings db')"
proof -
  note ok = assms(1)[unfolded findings_typed_def]
  consider "db' = db"
    | "status \<in> set VALID_STATUSES" "status \<noteq> ''resolved''"
      "fd_findings db' = update_where (\<lambda>x. sf_fingerprint x = fp) (\<lambda>x. x\<lparr>sf_status := status\<rparr>) (fd_findings db)"
    | s now where "lookup_key sf_fingerprint fp (fd_findings db) = Some s"
      "fd_findings db' = update_where (\<lambda>x. sf_fingerprint x = fp)
         (\<lambda>x. resolved_finding isotext ci now (get_subject_spend (fst (resolution_scope ci s)) (snd (resolution_scope ci s))
            (now - ci_window_days ci * 86400000000) (Some now) (fd_requests db)) s) (fd_findings db)"
    using assms(2) by (auto simp: set_finding_status_def Let_def split: if_splits option.splits prod.splits)
  then show ?thesis
  proof cases
    case 2
    then show ?thesis using ok assms(1) by (auto intro!: findings_typed_update simp: finding_typed_def)
  next
    case 3
    have "finding_typed (resolved_finding isotext ci now (get_subject_spend ty k u v w) s)" for ty k u v w
      using ok lookup_key_SomeD[OF 3(1)] by (auto simp: finding_typed_def resolved_finding_def VALID_STATUSES_def)
    with 3 lookup_key_SomeD[OF 3(1)] show ?thesis by (auto intro!: findings_typed_update assms(1))
  qed (use assms(1) in simp)
qed

lemma finding_step_typed: "findings_typed (fd_findings db) \<Longrightarrow> findings_typed (fd_findings (finding_step sha isotext e db))"
  by (auto simp: finding_step_def split: finding_event.split option.split intro: sync_findings_typed set_status_typed)

definition was_resolved :: "string \<Rightarrow> stored_finding table \<Rightarrow> bool" where
  "was_resolved fp t \<longleftrightarrow> (case lookup_key sf_fingerprint fp t of None \<Rightarrow> False | Some s \<Rightarrow> sf_resolved_at s \<noteq> None)"

lemma was_resolved_update:
  assumes "was_resolved fp t" "\<And>s. p s \<Longrightarrow> sf_fingerprint (f s) = sf_fingerprint s"
    "\<And>s. p s \<Longrightarrow> sf_resolved_at s \<noteq> None \<Longrightarrow> sf_resolved_at (f s) \<noteq> None"
  shows "was_resolved fp (update_where p f t)"
  using assms by (auto simp: was_resolved_def lookup_update_where[of p sf_fingerprint f, OF assms(2)] split: option.splits)

lemma was_resolved_append: "was_resolved fp t \<Longrightarrow> was_resolved fp (t @ u)"
  by (auto simp: was_resolved_def lookup_key_def find_append split: option.splits)

lemma sync_keeps_anchor: "was_resolved fp t \<Longrightarrow> was_resolved fp (snd (sync_findings sha now fs t))"
proof -
  have "was_resolved fp (snd st) \<Longrightarrow> was_resolved fp (snd (sync_finding sha now f st))" for f st
    by (auto simp: sync_finding_def split: prod.splits option.splits intro!: was_resolved_append was_resolved_update)
       (simp add: refreshed_def)
  then have "was_resolved fp (snd st) \<Longrightarrow> was_resolved fp (snd (fold (sync_finding sha now) fs st))" for st
    by (induction fs arbitrary: st) simp_all
  then show "was_resolved fp t \<Longrightarrow> ?thesis" by (simp add: sync_findings_def)
qed

lemma status_keeps_anchor:
  "was_resolved fp (fd_findings db) \<Longrightarrow> set_finding_status isotext clock fp' status ci db = Some (found, db') \<Longrightarrow>
   was_resolved fp (fd_findings db')"
  by (auto simp: set_finding_status_def Let_def resolved_finding_def split: if_splits option.splits prod.splits
      intro!: was_resolved_update dest!: lookup_key_SomeD)

interpretation lifecycle: absorbing_system "finding_step sha isotext" "\<lambda>e. True" "\<lambda>db. findings_typed (fd_findings db)"
    "\<lambda>db. was_resolved fp (fd_findings db)" for sha isotext fp
  by unfold_locales
    (auto simp: finding_step_typed, auto simp: finding_step_def split: finding_event.split option.split
      intro: sync_keeps_anchor status_keeps_anchor)

text \<open>
  Whatever detection passes and status changes happen, in any order: a fingerprint names one finding, its
  status is one of the four, a finding counts as resolved only with a date and a baseline, recorded together,
  and a finding that was resolved once keeps that anchor for good, reopened or not.
\<close>

theorem findings_lifecycle:
  assumes "fd_findings db = []" "was_resolved fp (fd_findings (run_steps (finding_step sha isotext) es db))"
  shows "findings_typed (fd_findings (run_steps (finding_step sha isotext) (es @ fs) db))
    \<and> was_resolved fp (fd_findings (run_steps (finding_step sha isotext) (es @ fs) db))"
proof -
  have start: "findings_typed (fd_findings db)" using assms(1) by (simp add: findings_typed_def)
  from lifecycle.run_inv[OF start, of "es @ fs"] lifecycle.absorbed_prefix[OF start _ assms(2), of fs] show ?thesis by simp
qed

section \<open>What a verified saving rests on\<close>

lemma sum_where_lower: "(\<And>r. r \<in> set t \<Longrightarrow> p r \<Longrightarrow> c \<le> f r) \<Longrightarrow> c * real (count_where p t) \<le> sum_where p f t"
proof (induction t)
  case (Cons a t)
  then have "c * real (count_where p t) \<le> sum_where p f t" "p a \<Longrightarrow> c \<le> f a" by auto
  then show ?case by (cases "p a") (auto simp: count_where_def algebra_simps)
qed (simp add: count_where_def)

lemma judge_quality_sel [simp]:
  "sv_baseline_requests (judge_quality scope R w os v) = sv_baseline_requests v"
  by (simp add: judge_quality_def Let_def split: prod.split)

lemma judge_quality_degraded:
  assumes "fst scope = ''workflow''" "sv_outcome_quality (judge_quality scope R w os v) \<noteq> ''degraded''"
    "fst (workflow_outcome_quality (snd scope) (R - w) R os) = Some x"
    "fst (workflow_outcome_quality (snd scope) R (R + w) os) = Some y"
  shows "x \<le> y"
  using assms
  by (auto simp: judge_quality_def Let_def or_0_def workflow_outcome_quality_def not_less[symmetric] split: if_splits)

lemma verified_facts:
  assumes "sv_status (verify_finding isotext now db s) = ''verified''"
  obtains R b cost n where "sf_resolved_at s = Some R" "sf_baseline_requests s = Some b" "0 < b"
    "R + window_days_of s * 86400000000 \<le> now"
    "get_subject_spend (fst (verification_scope s)) (snd (verification_scope s)) R
       (Some (R + window_days_of s * 86400000000)) (fd_requests db) = (cost, n)"
    "MIN_VERIFY_REQUESTS \<le> n" "cost / real n < or_0 (sf_baseline_cost_usd s) / real b"
    "sv_outcome_quality (judge_quality (verification_scope s) R (window_days_of s * 86400000000) (fd_outcomes db)
       ((initial_verdict isotext s)\<lparr>sv_baseline_requests := Some b, sv_current_requests := Some n\<rparr>)) \<noteq> ''degraded''"
proof -
  have start: "sv_status (initial_verdict isotext s) = ''no_baseline''" by (simp add: initial_verdict_def Let_def)
  show ?thesis
    using assms start
    by (auto simp: verify_finding_def Let_def classify_savings_def split: option.splits if_splits prod.splits intro!: that)
qed


text \<open>What one detection pass does to the row of a fingerprint that it reports (once), and to all other rows.\<close>

lemma sync_finding_lookup:
  "lookup_key sf_fingerprint fp (snd (sync_finding sha now f (res, t))) =
     (if fp = fingerprint sha f
      then Some (case lookup_key sf_fingerprint fp t of None \<Rightarrow> new_finding now fp f | Some s \<Rightarrow> refreshed now f s)
      else lookup_key sf_fingerprint fp t)"
proof (cases "lookup_key sf_fingerprint (fingerprint sha f) t")
  case None
  then show ?thesis by (auto simp: sync_finding_def lookup_key_def find_append split: option.splits)
next
  case (Some s)
  then have "lookup_key sf_fingerprint fp (snd (sync_finding sha now f (res, t)))
      = map_option (\<lambda>x. if sf_fingerprint x = fingerprint sha f then refreshed now f x else x) (lookup_key sf_fingerprint fp t)"
    by (simp add: sync_finding_def lookup_update_where)
  with Some show ?thesis by (cases "lookup_key sf_fingerprint fp t") (auto dest: lookup_key_SomeD)
qed

definition pass_row :: "(string \<Rightarrow> string) \<Rightarrow> instant \<Rightarrow> string \<Rightarrow> waste_finding list \<Rightarrow> stored_finding option \<Rightarrow> stored_finding option" where
  "pass_row sha now fp fs = fold (\<lambda>f s. if fp = fingerprint sha f
     then Some (case s of None \<Rightarrow> new_finding now fp f | Some x \<Rightarrow> refreshed now f x) else s) fs"

lemma sync_findings_lookup:
  "lookup_key sf_fingerprint fp (snd (sync_findings sha now fs t)) = pass_row sha now fp fs (lookup_key sf_fingerprint fp t)"
proof -
  have "lookup_key sf_fingerprint fp (snd (fold (sync_finding sha now) fs (res, t))) = pass_row sha now fp fs (lookup_key sf_fingerprint fp t)" for res
  proof (induction fs arbitrary: res t)
    case (Cons f fs)
    obtain res1 t1 where st: "sync_finding sha now f (res, t) = (res1, t1)" by fastforce
    with Cons.IH[of res1 t1] sync_finding_lookup[of fp sha now f res t] show ?case by (simp add: pass_row_def)
  qed (simp add: pass_row_def)
  then show ?thesis by (simp add: sync_findings_def)
qed

definition unverified :: "waste_finding \<Rightarrow> bool" where
  "unverified f \<longleftrightarrow> jfield (wf_evidence f) ''verification'' = JNull"

lemma evidence_unverified: "f \<in> set (run_all_detectors rs) \<Longrightarrow> unverified f"
  by (auto simp: set_run_all all_detectors_def run_detector_def List.map_filter_def unverified_def jfield_def Let_def picked_def
      context_bloat_def duplicate_requests_def model_overkill_def system_prompt_waste_def prompt_caching_opportunity_def
      oversized_tools_def low_rag_efficiency_def history_bloat_def split: option.splits if_splits)

text \<open>What a pass leaves of a stored finding, whether or not it reports it.\<close>

definition kept_core :: "stored_finding \<Rightarrow> stored_finding \<Rightarrow> bool" where
  "kept_core s s' \<longleftrightarrow> sf_resolved_at s' = sf_resolved_at s \<and> sf_baseline_requests s' = sf_baseline_requests s
     \<and> sf_subject_type s' = sf_subject_type s \<and> sf_subject_key s' = sf_subject_key s"

definition reopened_status :: "string \<Rightarrow> string" where
  "reopened_status status = (if status = ''resolved'' then ''open'' else status)"

lemma pass_row_refreshes:
  assumes "\<forall>f \<in> set fs. unverified f" "\<exists>f \<in> set fs. fp = fingerprint sha f"
  shows "\<exists>s'. pass_row sha now fp fs (Some s) = Some s' \<and> kept_core s s' \<and> sf_status s' = reopened_status (sf_status s)
    \<and> stored_verification s' = None"
proof -
  define goal where "goal s s' \<longleftrightarrow> kept_core s s' \<and> sf_status s' = reopened_status (sf_status s) \<and> stored_verification s' = None" for s s'
  have one: "unverified f \<Longrightarrow> goal s (refreshed now f s)" for f s
    by (simp add: goal_def kept_core_def reopened_status_def refreshed_def stored_verification_def unverified_def)
  have trans: "goal s s1 \<Longrightarrow> goal s1 s2 \<Longrightarrow> goal s s2" for s s1 s2
    by (auto simp: goal_def kept_core_def reopened_status_def split: if_splits)
  have "(\<exists>f \<in> set fs. fp = fingerprint sha f) \<longrightarrow> (\<exists>s'. pass_row sha now fp fs (Some s) = Some s' \<and> goal s s')"
    if "\<forall>f \<in> set fs. unverified f" for s
    using that
  proof (induction fs arbitrary: s)
    case (Cons f fs)
    show ?case
    proof (cases "fp = fingerprint sha f")
      case True
      have first: "goal s (refreshed now f s)" using Cons.prems one by simp
      have step: "pass_row sha now fp (f # fs) (Some s) = pass_row sha now fp fs (Some (refreshed now f s))"
        using True by (simp add: pass_row_def)
      show ?thesis
      proof (cases "\<exists>f \<in> set fs. fp = fingerprint sha f")
        case True
        with Cons.IH[of "refreshed now f s"] Cons.prems step show ?thesis using trans[OF first] by auto
      next
        case False
        then have "pass_row sha now fp fs x = x" for x by (induction fs arbitrary: x) (auto simp: pass_row_def)
        with step first show ?thesis by simp
      qed
    next
      case False
      with Cons show ?thesis by (auto simp: pass_row_def)
    qed
  qed simp
  with assms show ?thesis by (simp add: goal_def)
qed

text \<open>
  Detecting a finding again erases what was recorded about its fix. The date and the baseline stay, but the
  verification record, kept in the evidence that the pass overwrites, is gone: the change that was credited is
  no longer named, and a baseline measured on a cohort is from now on compared with the finding's own subject.
\<close>

theorem redetection_forgets_change:
  assumes "lookup_key sf_fingerprint fp t = Some s"
    and "f \<in> set (run_all_detectors rs)" "fp = fingerprint sha f"
  shows "\<exists>s'. lookup_key sf_fingerprint fp (snd (sync_findings sha now (run_all_detectors rs) t)) = Some s'
    \<and> sf_resolved_at s' = sf_resolved_at s \<and> sf_baseline_requests s' = sf_baseline_requests s
    \<and> stored_verification s' = None \<and> verification_scope s' = (sf_subject_type s, sf_subject_key s)
    \<and> sv_change_reference (initial_verdict isotext s') = None"
proof -
  have "\<exists>f \<in> set (run_all_detectors rs). fp = fingerprint sha f" using assms(2,3) by blast
  from pass_row_refreshes[OF _ this, of now s] obtain s'
    where s': "pass_row sha now fp (run_all_detectors rs) (Some s) = Some s'" "kept_core s s'" "stored_verification s' = None"
    using evidence_unverified by blast
  with assms(1) show ?thesis
    by (auto simp: sync_findings_lookup kept_core_def verification_scope_def initial_verdict_def Let_def)
qed

text \<open>C30: 
  A fix is declared a failure by the traffic that it fixed. The hourly pass looks at the last days whatever
  happened since; so a finding that was just resolved is opened again, and reported as a fix that did not
  hold, although not one request has been recorded since its resolution.
\<close>

theorem old_traffic_reopens:
  assumes "lookup_key sf_fingerprint fp (fd_findings db) = Some s" "sf_status s = ''resolved''" "sf_resolved_at s = Some R"
    and "\<forall>r \<in> set (fd_requests db). instant_of (rq_timestamp r) < R"
    and "f \<in> set (run_all_detectors (get_requests_for_analysis (Some (now - days * 86400000000)) None (fd_requests db)))"
    and "fp = fingerprint sha f"
  shows "\<exists>v. verify_savings isotext later fp
      (db\<lparr>fd_findings := snd (sync_waste_findings sha days now (fd_requests db) (fd_findings db))\<rparr>) = Some v
    \<and> sv_reopened v \<and> sv_status v \<noteq> ''verified''"
proof -
  let ?rs = "get_requests_for_analysis (Some (now - days * 86400000000)) None (fd_requests db)"
  let ?t = "snd (sync_findings sha now (run_all_detectors ?rs) (fd_findings db))"
  let ?db = "db\<lparr>fd_findings := ?t\<rparr>"
  have "?rs \<noteq> []" using assms(5) by (auto simp: set_run_all run_detector_def split_by_subject_def List.map_filter_def)
  then have sync: "snd (sync_waste_findings sha days now (fd_requests db) (fd_findings db)) = ?t"
    by (simp add: sync_waste_findings_def Let_def)
  have "\<exists>f \<in> set (run_all_detectors ?rs). fp = fingerprint sha f" using assms(5,6) by blast
  from pass_row_refreshes[OF _ this, of now s] obtain s'
    where s': "pass_row sha now fp (run_all_detectors ?rs) (Some s) = Some s'" "kept_core s s'" "sf_status s' = ''open''"
    using evidence_unverified assms(2) by (auto simp: reopened_status_def)
  then have row: "lookup_key sf_fingerprint fp ?t = Some s'" by (simp add: sync_findings_lookup assms(1))
  have anchor: "sf_resolved_at s' = Some R" using s'(2) assms(3) by (simp add: kept_core_def)
  have "sv_reopened (verify_finding isotext later ?db s')"
    using anchor s'(3)
    by (auto simp: verify_finding_def initial_verdict_def judge_quality_def Let_def split: option.split prod.split)
  moreover have "sv_status (verify_finding isotext later ?db s') \<noteq> ''verified''"
  proof
    assume "sv_status (verify_finding isotext later ?db s') = ''verified''"
    then obtain ty k u cost n where after: "get_subject_spend ty k R u (fd_requests ?db) = (cost, n)" "MIN_VERIFY_REQUESTS \<le> n"
      using anchor by (auto elim!: verified_facts)
    have "count_where (\<lambda>r. of_subject ty k r \<and> in_window R u r) (fd_requests ?db) = 0"
      using assms(4) by (auto simp: count_where_def in_window_def filter_empty_conv)
    with after show False by (simp add: get_subject_spend_def MIN_VERIFY_REQUESTS_def)
  qed
  ultimately show ?thesis by (simp add: sync verify_savings_def row)
qed

section \<open>Witnesses\<close>

definition demo_change :: change_info where
  "demo_change = \<lparr>ci_window_days = 7, ci_cohort_key = None, ci_change_reference = Some ''pr-1'', ci_change_type = None,
     ci_change_url = None, ci_owner = None, ci_acceptance_criteria = None, ci_configuration_before = None,
     ci_configuration_after = None, ci_effective_at = None, ci_commit_sha = None\<rparr>"

definition demo_waste :: waste_finding where
  "demo_waste = \<lparr>wf_detector = ''PromptCachingOpportunityDetector'', wf_severity = ''medium'', wf_title = ''Prompt Caching Opportunity'',
     wf_estimated_waste_usd = 3, wf_affected_count = 5, wf_subject_type = ''workflow'', wf_subject_key = ''w'', wf_evidence = []\<rparr>"

definition demo_db :: findings_db where
  "demo_db = \<lparr>fd_findings = [], fd_requests = replicate 30 cached_row, fd_outcomes = []\<rparr>"

definition demo_time :: instant where
  "demo_time = instant_of (rq_timestamp cached_row)"

definition demo_resolved :: stored_finding where
  "demo_resolved = (new_finding 0 (fingerprint rev demo_waste) demo_waste)\<lparr>sf_status := ''resolved'', sf_resolved_at := Some demo_time,
     sf_baseline_cost_usd := Some 30, sf_baseline_requests := Some 10, sf_baseline_window_days := Some 7\<rparr>"

lemma demo_resolved_simps [simp]:
  "sf_fingerprint demo_resolved = fingerprint rev demo_waste" "sf_status demo_resolved = ''resolved''"
  "sf_resolved_at demo_resolved = Some demo_time" "sf_baseline_requests demo_resolved = Some 10"
  "sf_baseline_cost_usd demo_resolved = Some 30" "window_days_of demo_resolved = 7"
  "verification_scope demo_resolved = (''workflow'', ''w'')" "stored_verification demo_resolved = None"
  by (simp_all add: demo_resolved_def window_days_of_def verification_scope_def stored_verification_def new_finding_def
      demo_waste_def jfield_def)

theorem findings_lifecycle_witness:
  "findings_typed (fd_findings (run_steps (finding_step rev (\<lambda>t. [])) ([Detected 0 [demo_waste],
      Status_set 1 (fingerprint rev demo_waste) ''resolved'' demo_change] @ [Detected 2 [demo_waste]]) demo_db))"
proof -
  have "was_resolved (fingerprint rev demo_waste) (fd_findings (run_steps (finding_step rev (\<lambda>t. [])) [Detected 0 [demo_waste],
      Status_set 1 (fingerprint rev demo_waste) ''resolved'' demo_change] demo_db))"
    by (simp add: finding_step_def sync_findings_def sync_finding_def demo_db_def lookup_key_def set_finding_status_def
        VALID_STATUSES_def demo_change_def update_where_def was_resolved_def resolved_finding_def Let_def split: prod.split)
  from findings_lifecycle[OF _ this, of "[Detected 2 [demo_waste]]"] show ?thesis by (simp add: demo_db_def)
qed

lemma demo_after: "get_subject_spend ''workflow'' ''w'' demo_time (Some (demo_time + 604800000000)) (replicate 30 cached_row) = (60, 30)"
  by (simp add: get_subject_spend_def demo_time_def count_where_def of_subject_def in_window_def sum_where_def sum_list_replicate)


lemma demo_pass:
  "at_or_after since demo_time \<Longrightarrow>
   \<exists>f \<in> set (run_all_detectors (get_requests_for_analysis since None (replicate 30 cached_row))).
     fingerprint rev demo_waste = fingerprint rev f"
proof -
  assume "at_or_after since demo_time"
  then have rs: "get_requests_for_analysis since None (replicate 30 cached_row) = replicate 30 (analysis_columns cached_row)" (is "?rs = _")
    by (simp add: get_requests_for_analysis_def demo_time_def sort_key_id_if_sorted)
  have subj: "subject_of (analysis_columns cached_row) = (''workflow'', ''w'')"
    by (simp add: subject_of_def analysis_columns_def)
  have key: "uncached_key (analysis_columns cached_row) = Some ''h''"
    by (simp add: uncached_key_def prompt_key_def analysis_columns_def)
  have "(''workflow'', ''w'') \<in> set (map subject_of ?rs)"
    "5 \<le> length (filter (\<lambda>r. subject_of r = (''workflow'', ''w'') \<and> uncached_key r = Some ''h'') ?rs)"
    "\<exists>r \<in> set (filter (\<lambda>r. subject_of r = (''workflow'', ''w'') \<and> uncached_key r = Some ''h'') ?rs). 1000 \<le> aq_prompt_system_tokens r"
    by (simp_all add: rs subj key, simp add: analysis_columns_def)
  from caching_finding[OF this(1) _ refl this(2,3)] obtain f where f: "f \<in> set (run_all_detectors ?rs)"
    "wf_detector f = ''PromptCachingOpportunityDetector''" "wf_subject_type f = ''workflow''" "wf_subject_key f = ''w''" by auto
  then have "fingerprint rev demo_waste = fingerprint rev f" by (simp add: fingerprint_def demo_waste_def)
  with f(1) show ?thesis by blast
qed

theorem redetection_forgets_change_witness:
  "\<exists>s'. lookup_key sf_fingerprint (fingerprint rev demo_waste) (snd (sync_findings rev 5
      (run_all_detectors (get_requests_for_analysis None None (replicate 30 cached_row))) [demo_resolved])) = Some s'
    \<and> sf_resolved_at s' = Some demo_time \<and> sv_change_reference (initial_verdict (\<lambda>t. []) s') = None"
proof -
  have row: "lookup_key sf_fingerprint (fingerprint rev demo_waste) [demo_resolved] = Some demo_resolved"
    by (simp add: lookup_key_def)
  from demo_pass[of None] obtain f where "f \<in> set (run_all_detectors (get_requests_for_analysis None None (replicate 30 cached_row)))"
    "fingerprint rev demo_waste = fingerprint rev f" by (auto simp: at_or_after_def)
  from redetection_forgets_change[OF row this] show ?thesis by fastforce
qed

theorem old_traffic_reopens_witness:
  "\<exists>v. verify_savings (\<lambda>t. []) 5 (fingerprint rev demo_waste) (demo_db\<lparr>fd_findings :=
       snd (sync_waste_findings rev 7 (demo_time + 2) (fd_requests demo_db) [demo_resolved\<lparr>sf_resolved_at := Some (demo_time + 1)\<rparr>])\<rparr>) = Some v
    \<and> sv_reopened v"
proof -
  let ?s = "demo_resolved\<lparr>sf_resolved_at := Some (demo_time + 1)\<rparr>"
  let ?db = "demo_db\<lparr>fd_findings := [?s]\<rparr>"
  have row: "lookup_key sf_fingerprint (fingerprint rev demo_waste) (fd_findings ?db) = Some ?s" by (simp add: lookup_key_def)
  have old: "\<forall>r \<in> set (fd_requests ?db). instant_of (rq_timestamp r) < demo_time + 1"
    by (simp add: demo_db_def demo_time_def)
  from demo_pass[of "Some (demo_time + 2 - 7 * 86400000000)"] obtain f where
    f: "f \<in> set (run_all_detectors (get_requests_for_analysis (Some (demo_time + 2 - 7 * 86400000000)) None (fd_requests ?db)))"
      "fingerprint rev demo_waste = fingerprint rev f" by (auto simp: at_or_after_def demo_db_def)
  from old_traffic_reopens[where isotext = "\<lambda>t. []" and later = 5, OF row _ _ old f] show ?thesis by auto
qed

end
