(* ===== verification/Economics_Overview.thy ===== *)
theory Economics_Overview
  imports Findings
begin

text \<open>
  The totals over findings (\<open>get_waste_summary\<close>, \<open>savings_rollup\<close> of \<open>storage/findings.py\<close>) and the
  top-line economics of a window (\<open>analysis/economics.py\<close>): error spend, trace coverage, cost confidence,
  outcome coverage, and the overview that puts them together.
\<close>

section \<open>Totals over findings\<close>

definition outstanding :: "stored_finding \<Rightarrow> bool" where
  "outstanding s = (sf_status s \<in> {''open'', ''acknowledged''})"

record waste_summary =
  ws_detected_waste_usd :: usd
  ws_open_finding_count :: nat
  ws_by_detector :: "(string \<times> usd) list"

definition get_waste_summary :: "stored_finding table \<Rightarrow> waste_summary" where
  "get_waste_summary t =
     \<lparr>ws_detected_waste_usd = sum_where outstanding sf_estimated_waste_usd t,
      ws_open_finding_count = count_where outstanding t,
      ws_by_detector = sort_key (\<lambda>(d, w). - w)
        (map (\<lambda>d. (d, sum_where (\<lambda>s. sf_detector s = d \<and> outstanding s) sf_estimated_waste_usd t))
          (remdups (map sf_detector (filter outstanding t))))\<rparr>"

definition to_monthly :: "usd option \<Rightarrow> int option \<Rightarrow> real" where
  "to_monthly waste days =
     (let d = (case days of None \<Rightarrow> BASELINE_WINDOW_DAYS | Some n \<Rightarrow> if n = 0 then BASELINE_WINDOW_DAYS else n)
      in or_0 waste * (30 / real_of_int d))"

definition savings_credit_key :: "savings_verdict \<Rightarrow> string \<times> string" where
  "savings_credit_key v =
     (if truthy (sv_change_reference v) \<and> truthy (sv_cohort_key v) then (the (sv_change_reference v), the (sv_cohort_key v))
      else (''finding'', sv_fingerprint v))"

record rollup_state =
  ru_totals :: "string \<Rightarrow> real"
  ru_counts :: "string \<Rightarrow> nat"
  ru_verified_actual :: real
  ru_credited_predicted :: real
  ru_shared_predicted :: real
  ru_credited_keys :: "(string \<times> string) list"

definition rollup_start :: rollup_state where
  "rollup_start = \<lparr>ru_totals = (\<lambda>_. 0), ru_counts = (\<lambda>_. 0), ru_verified_actual = 0, ru_credited_predicted = 0,
     ru_shared_predicted = 0, ru_credited_keys = []\<rparr>"

definition credit_verdict :: "(savings_verdict \<Rightarrow> real) \<Rightarrow> savings_verdict \<Rightarrow> rollup_state \<Rightarrow> rollup_state" where
  "credit_verdict predicted v st =
     (let key = savings_credit_key v; p = predicted v; status = sv_status v
      in if key \<in> set (ru_credited_keys st)
         then st\<lparr>ru_counts := (ru_counts st)(''shared'' := ru_counts st ''shared'' + 1),
                 ru_shared_predicted := ru_shared_predicted st + p\<rparr>
         else st\<lparr>ru_credited_keys := key # ru_credited_keys st, ru_credited_predicted := ru_credited_predicted st + p,
                 ru_counts := (ru_counts st)(status := ru_counts st status + 1),
                 ru_totals := (if status \<in> {''verified'', ''missed'', ''pending'', ''inconclusive''}
                               then (ru_totals st)(status := ru_totals st status + p) else ru_totals st),
                 ru_verified_actual := ru_verified_actual st
                   + (if status = ''verified'' then or_0 (sv_projected_monthly_savings_usd v) else 0)\<rparr>)"

definition predicted_of :: "stored_finding table \<Rightarrow> savings_verdict \<Rightarrow> real" where
  "predicted_of t v =
     (case lookup_key sf_fingerprint (sv_fingerprint v) (filter (\<lambda>s. sf_baseline_requests s \<noteq> None) t) of
        None \<Rightarrow> 0 | Some s \<Rightarrow> to_monthly (sf_baseline_waste_usd s) (sf_baseline_window_days s))"

record savings_totals =
  st_open_projected_monthly_usd :: usd
  st_resolved_predicted_monthly_usd :: usd
  st_shared_predicted_monthly_usd :: usd
  st_verified_monthly_usd :: usd
  st_missed_predicted_monthly_usd :: usd
  st_verifying_predicted_monthly_usd :: usd
  st_inconclusive_predicted_monthly_usd :: usd
  st_realisation_pct :: "real option"
  st_counts :: "string \<Rightarrow> nat"

definition credit_all :: "(savings_verdict \<Rightarrow> real) \<Rightarrow> savings_verdict list \<Rightarrow> rollup_state" where
  "credit_all predicted vs = fold (credit_verdict predicted) vs rollup_start"

definition savings_rollup :: "(instant \<Rightarrow> string) \<Rightarrow> instant \<Rightarrow> findings_db \<Rightarrow> savings_totals" where
  "savings_rollup isotext now db =
     (let st = credit_all (predicted_of (fd_findings db)) (verify_all_resolved isotext now db);
          judged = ru_totals st ''verified'' + ru_totals st ''missed''
      in \<lparr>st_open_projected_monthly_usd = py_round (sum_where outstanding sf_estimated_waste_usd (fd_findings db)) 6,
          st_resolved_predicted_monthly_usd = py_round (ru_credited_predicted st) 6,
          st_shared_predicted_monthly_usd = py_round (ru_shared_predicted st) 6,
          st_verified_monthly_usd = py_round (ru_verified_actual st) 6,
          st_missed_predicted_monthly_usd = py_round (ru_totals st ''missed'') 6,
          st_verifying_predicted_monthly_usd = py_round (ru_totals st ''pending'') 6,
          st_inconclusive_predicted_monthly_usd = py_round (ru_totals st ''inconclusive'') 6,
          st_realisation_pct = (if judged = 0 then None else Some (py_round (ru_verified_actual st / judged * 100) 1)),
          st_counts = (ru_counts st)(''open'' := count_where outstanding (fd_findings db))\<rparr>)"

section \<open>The economics of a window\<close>

definition since_row :: "instant \<Rightarrow> ledger_row \<Rightarrow> bool" where
  "since_row since r = (since \<le> instant_of (rq_timestamp r))"

definition get_error_spend :: "instant \<Rightarrow> ledger_row table \<Rightarrow> usd \<times> nat" where
  "get_error_spend since t =
     (sum_where (\<lambda>r. since_row since r \<and> rq_status_code r \<ge> 400) rq_cost_usd t,
      count_where (\<lambda>r. since_row since r \<and> rq_status_code r \<ge> 400) t)"

record trace_coverage =
  tc_request_count :: nat
  tc_traced_count :: nat
  tc_parented_count :: nat
  tc_distinct_traces :: nat

definition get_trace_coverage :: "instant \<Rightarrow> ledger_row table \<Rightarrow> trace_coverage" where
  "get_trace_coverage since t =
     \<lparr>tc_request_count = count_where (since_row since) t,
      tc_traced_count = count_where (\<lambda>r. since_row since r \<and> eq_trace_id r \<noteq> None) t,
      tc_parented_count = count_where (\<lambda>r. since_row since r \<and> lw_parent_span_id r \<noteq> None) t,
      tc_distinct_traces = Finite_Set.card (set (List.map_filter eq_trace_id (filter (since_row since) t)))\<rparr>"

definition traced_rate :: "trace_coverage \<Rightarrow> real" where
  "traced_rate c = (if tc_request_count c = 0 then 0 else real (tc_traced_count c) / real (tc_request_count c))"

record cost_confidence =
  cc_total_requests :: nat
  cc_calculated_requests :: nat
  cc_estimated_requests :: nat
  cc_unpriced_requests :: nat
  cc_unpriced_models :: "(string \<times> string) list"

definition read_class :: "price_env \<Rightarrow> ledger_row \<Rightarrow> string" where
  "read_class env r =
     (if truthy (eq_pricing_class r) then the (eq_pricing_class r)
      else pricing_class_name (pricing_class_for env (rq_provider r) (rq_model r)
             (Some (if eq_source r = [] then ''proxy'' else eq_source r))))"

definition get_local_cost_confidence :: "price_env \<Rightarrow> instant \<Rightarrow> ledger_row table \<Rightarrow> cost_confidence" where
  "get_local_cost_confidence env since t =
     (let of_class = (\<lambda>p. filter (\<lambda>r. since_row since r \<and> p (read_class env r)) t)
      in \<lparr>cc_total_requests = count_where (since_row since) t,
          cc_calculated_requests = length (of_class (\<lambda>c. c \<noteq> ''unpriced'' \<and> c \<noteq> ''estimated'')),
          cc_estimated_requests = length (of_class (\<lambda>c. c = ''estimated'')),
          cc_unpriced_requests = length (of_class (\<lambda>c. c = ''unpriced'')),
          cc_unpriced_models = sort (remdups (map (\<lambda>r. (rq_provider r, rq_model r)) (of_class (\<lambda>c. c = ''unpriced''))))\<rparr>)"

definition confidence_pct :: "cost_confidence \<Rightarrow> real" where
  "confidence_pct c =
     (if cc_total_requests c = 0 then 0
      else 100 * (real (cc_total_requests c) - real (cc_unpriced_requests c)) / real (cc_total_requests c))"

record outcome_coverage =
  oc_cost_total_usd :: usd
  oc_cost_attributed_usd :: usd
  oc_cost_unattributed_usd :: usd
  oc_cost_untagged_usd :: usd

definition get_outcome_coverage :: "instant \<Rightarrow> outcome_row table \<Rightarrow> ledger_row table \<Rightarrow> outcome_coverage" where
  "get_outcome_coverage since outcomes t =
     (let total = sum_where (since_row since) rq_cost_usd t;
          untagged = sum_where (\<lambda>r. since_row since r \<and> rq_tags r ''workflow_id'' = None) rq_cost_usd t;
          unattributed = sum_list (map we_cost_unattributed_usd
            (Outcomes.get_workflow_economics since 86400 outcomes (map econ_row.truncate t)))
      in \<lparr>oc_cost_total_usd = total, oc_cost_attributed_usd = max 0 (total - untagged - unattributed),
          oc_cost_unattributed_usd = unattributed, oc_cost_untagged_usd = untagged\<rparr>)"

definition coverage_pct :: "outcome_coverage \<Rightarrow> real" where
  "coverage_pct c = (if oc_cost_total_usd c = 0 then 0 else 100 * oc_cost_attributed_usd c / oc_cost_total_usd c)"

record economics_overview =
  ov_total_spend_usd :: usd
  ov_detected_waste_usd :: usd
  ov_waste_rate :: real
  ov_open_finding_count :: nat
  ov_error_spend :: "usd \<times> nat"
  ov_cost_per_accepted_usd :: "usd option"
  ov_accepted_count :: nat
  ov_waste_by_detector :: "(string \<times> usd) list"
  ov_waste_estimate_clamped :: bool
  ov_trace_coverage :: trace_coverage
  ov_cost_confidence :: cost_confidence
  ov_outcome_coverage :: outcome_coverage
  ov_savings :: savings_totals

definition get_economics_overview ::
    "price_env \<Rightarrow> (instant \<Rightarrow> string) \<Rightarrow> instant \<Rightarrow> instant \<Rightarrow> real \<Rightarrow> findings_db \<Rightarrow> economics_overview" where
  "get_economics_overview env isotext now since window db =
     (let total = sum_where (since_row since) rq_cost_usd (fd_requests db);
          waste = get_waste_summary (fd_findings db);
          workflows = Outcomes.get_workflow_economics since window (fd_outcomes db) (map econ_row.truncate (fd_requests db));
          accepted = sum_list (map we_accepted_count workflows);
          spent = sum_list (map we_cost_total_usd workflows);
          clamped = (total \<noteq> 0 \<and> ws_detected_waste_usd waste > total);
          detected = (if clamped then total else ws_detected_waste_usd waste)
      in \<lparr>ov_total_spend_usd = total, ov_detected_waste_usd = detected,
          ov_waste_rate = (if total = 0 then 0 else detected / total),
          ov_open_finding_count = ws_open_finding_count waste,
          ov_error_spend = get_error_spend since (fd_requests db),
          ov_cost_per_accepted_usd = (if accepted = 0 then None else Some (spent / real accepted)),
          ov_accepted_count = accepted, ov_waste_by_detector = ws_by_detector waste,
          ov_waste_estimate_clamped = clamped,
          ov_trace_coverage = get_trace_coverage since (fd_requests db),
          ov_cost_confidence = get_local_cost_confidence env since (fd_requests db),
          ov_outcome_coverage = get_outcome_coverage since (fd_outcomes db) (fd_requests db),
          ov_savings = savings_rollup isotext now db\<rparr>)"

section \<open>One credit per change\<close>

text \<open>The reference: the verdicts that are the first of their key.\<close>

fun first_by :: "('a \<Rightarrow> 'k) \<Rightarrow> 'k set \<Rightarrow> 'a list \<Rightarrow> 'a list" where
  "first_by key seen [] = []"
| "first_by key seen (v # vs) =
     (if key v \<in> seen then first_by key seen vs else v # first_by key (insert (key v) seen) vs)"

lemma first_by_distinct: "distinct (map key (first_by key seen vs)) \<and> key ` set (first_by key seen vs) \<inter> seen = {}"
  by (induction vs arbitrary: seen) auto

lemma first_by_set: "set (first_by key seen vs) \<subseteq> set vs"
  by (induction vs arbitrary: seen) auto

lemma first_by_keys: "key ` set (first_by key seen vs) = key ` set vs - seen"
  by (induction vs arbitrary: seen) auto

definition verified_value :: "savings_verdict \<Rightarrow> real" where
  "verified_value v = (if sv_status v = ''verified'' then or_0 (sv_projected_monthly_savings_usd v) else 0)"

lemma credit_fold:
  "ru_verified_actual (fold (credit_verdict predicted) vs st)
     = ru_verified_actual st + sum_list (map verified_value (first_by savings_credit_key (set (ru_credited_keys st)) vs))
   \<and> ru_credited_predicted (fold (credit_verdict predicted) vs st)
     = ru_credited_predicted st + sum_list (map predicted (first_by savings_credit_key (set (ru_credited_keys st)) vs))
   \<and> ru_credited_predicted (fold (credit_verdict predicted) vs st) + ru_shared_predicted (fold (credit_verdict predicted) vs st)
     = ru_credited_predicted st + ru_shared_predicted st + sum_list (map predicted vs)"
proof (induction vs arbitrary: st)
  case (Cons v vs)
  let ?st = "credit_verdict predicted v st"
  show ?case
  proof (cases "savings_credit_key v \<in> set (ru_credited_keys st)")
    case True
    then have "ru_credited_keys ?st = ru_credited_keys st" "ru_verified_actual ?st = ru_verified_actual st"
      "ru_credited_predicted ?st = ru_credited_predicted st" "ru_shared_predicted ?st = ru_shared_predicted st + predicted v"
      by (simp_all add: credit_verdict_def Let_def)
    with True Cons[of ?st] show ?thesis by simp
  next
    case False
    then have "ru_credited_keys ?st = savings_credit_key v # ru_credited_keys st"
      "ru_verified_actual ?st = ru_verified_actual st + verified_value v"
      "ru_credited_predicted ?st = ru_credited_predicted st + predicted v" "ru_shared_predicted ?st = ru_shared_predicted st"
      by (simp_all add: credit_verdict_def verified_value_def Let_def)
    with False Cons[of ?st] show ?thesis by simp
  qed
qed simp

text \<open>
  The rollup pays each change once. The credited verdicts are the first of each pair of change and cohort, no
  pair occurs twice and none is left out; the verified total is the sum of exactly their verified savings; and
  every prediction is counted, either as credited or as shared.
\<close>

theorem one_credit_per_change:
  shows "distinct (map savings_credit_key (first_by savings_credit_key {} vs))
    \<and> savings_credit_key ` set (first_by savings_credit_key {} vs) = savings_credit_key ` set vs
    \<and> ru_verified_actual (credit_all predicted vs) = sum_list (map verified_value (first_by savings_credit_key {} vs))
    \<and> ru_credited_predicted (credit_all predicted vs) = sum_list (map predicted (first_by savings_credit_key {} vs))
    \<and> ru_credited_predicted (credit_all predicted vs) + ru_shared_predicted (credit_all predicted vs) = sum_list (map predicted vs)"
  using credit_fold[of predicted vs rollup_start] first_by_distinct[of savings_credit_key "{}" vs]
    first_by_keys[of savings_credit_key "{}" vs]
  by (simp add: credit_all_def rollup_start_def)

section \<open>Shares of the window\<close>

lemma truncate_sel [simp]:
  "rq_cost_usd (econ_row.truncate r) = rq_cost_usd r" "rq_timestamp (econ_row.truncate r) = rq_timestamp r"
  "rq_tags (econ_row.truncate r) = rq_tags r"
  by (simp_all add: econ_row.truncate_def)

lemma sum_where_map: "sum_where p f (map g xs) = sum_where (p \<circ> g) (f \<circ> g) xs"
  by (induction xs) auto

lemma sum_list_sorted: "sum_list (map f (sort_key g xs)) = (sum_list (map f xs) :: real)"
  using sum_list_sort_key[where P = "\<lambda>x. True"] by simp

lemma sum_unattributed:
  "sum_list (map we_cost_unattributed_usd (Outcomes.get_workflow_economics since window outcomes requests))
   = sum_where (\<lambda>a. al_status a = None) al_cost_usd (alloc_rows window since outcomes requests)"
proof -
  let ?alloc = "alloc_rows window since outcomes requests"
  let ?counted = "filter (\<lambda>u. since \<le> ow_event_time u) outcomes"
  let ?keys = "economics_keys ?alloc ?counted"
  have "sum_list (map we_cost_unattributed_usd (Outcomes.get_workflow_economics since window outcomes requests))
      = sum_list (map we_cost_unattributed_usd (map (economics_row ?alloc ?counted) ?keys))"
    by (simp only: Outcomes.get_workflow_economics_def Let_def sum_list_sorted)
  also have "\<dots> = sum_list (map (\<lambda>k. sum_where (\<lambda>a. (al_workflow_id a, al_outcome_type a) = k \<and> al_status a = None) al_cost_usd ?alloc) ?keys)"
    by (simp add: economics_row_def Let_def sum_where_filter o_def)
  also have "\<dots> = sum_where (\<lambda>a. al_status a = None) al_cost_usd ?alloc"
    by (rule sum_where_partition) (auto simp: economics_keys_def)
  finally show ?thesis .
qed

lemma alloc_part_bounded:
  assumes "\<forall>r \<in> set requests. 0 \<le> rq_cost_usd r"
  shows "0 \<le> sum_where p al_cost_usd (alloc_rows window since outcomes requests)
    \<and> sum_where p al_cost_usd (alloc_rows window since outcomes requests)
      \<le> sum_where (\<lambda>r. since \<le> instant_of (rq_timestamp r) \<and> rq_tags r ''workflow_id'' \<noteq> None) rq_cost_usd requests"
  using assms
  by (induction requests) (auto simp: alloc_rows_def List.map_filter_def alloc_row_of_def Let_def split: option.split)

text \<open>
  The dollars of a window split without rest into attributed, unattributed and untagged spend, none of them
  negative, so that the reported coverage is a percentage.
\<close>

theorem coverage_adds_up:
  assumes "\<forall>r \<in> set t. 0 \<le> rq_cost_usd r"
  shows "oc_cost_attributed_usd (get_outcome_coverage since outcomes t) + oc_cost_unattributed_usd (get_outcome_coverage since outcomes t)
      + oc_cost_untagged_usd (get_outcome_coverage since outcomes t) = oc_cost_total_usd (get_outcome_coverage since outcomes t)
    \<and> 0 \<le> coverage_pct (get_outcome_coverage since outcomes t) \<and> coverage_pct (get_outcome_coverage since outcomes t) \<le> 100"
proof -
  let ?u = "sum_list (map we_cost_unattributed_usd (Outcomes.get_workflow_economics since 86400 outcomes (map econ_row.truncate t)))"
  let ?tagged = "sum_where (\<lambda>r. since \<le> instant_of (rq_timestamp r) \<and> rq_tags r ''workflow_id'' \<noteq> None) rq_cost_usd t"
  let ?untagged = "sum_where (\<lambda>r. since_row since r \<and> rq_tags r ''workflow_id'' = None) rq_cost_usd t"
  have u: "0 \<le> ?u" "?u \<le> ?tagged"
    using alloc_part_bounded[of "map econ_row.truncate t" "\<lambda>a. al_status a = None" 86400 since outcomes] assms
    by (simp_all add: sum_unattributed sum_where_map o_def)
  have total: "sum_where (since_row since) rq_cost_usd t = ?tagged + ?untagged"
    by (induction t) (auto simp: since_row_def)
  have "0 \<le> ?untagged" using assms by (intro sum_where_nonneg) auto
  with u total show ?thesis
    by (auto simp: get_outcome_coverage_def Let_def coverage_pct_def field_simps)
qed

lemma confidence_partition:
  "cc_calculated_requests (get_local_cost_confidence env since t) + cc_estimated_requests (get_local_cost_confidence env since t)
     + cc_unpriced_requests (get_local_cost_confidence env since t) = cc_total_requests (get_local_cost_confidence env since t)"
proof -
  have "length (filter (\<lambda>r. p r \<and> c r \<noteq> ''unpriced'' \<and> c r \<noteq> ''estimated'') t) + length (filter (\<lambda>r. p r \<and> c r = ''estimated'') t)
     + length (filter (\<lambda>r. p r \<and> c r = ''unpriced'') t) = length (filter p t)" for p and c :: "ledger_row \<Rightarrow> string"
    by (induction t) auto
  then show ?thesis by (simp add: get_local_cost_confidence_def Let_def count_where_def)
qed

text \<open>
  The overview never reports more than everything: the waste rate lies between 0 and 1, it is clamped exactly
  when the estimates exceed the spend, and the price classes partition the requests of the window.
\<close>

theorem overview_rates_in_range:
  assumes "\<forall>r \<in> set (fd_requests db). 0 \<le> rq_cost_usd r" "\<forall>s \<in> set (fd_findings db). 0 \<le> sf_estimated_waste_usd s"
  shows "0 \<le> ov_waste_rate (get_economics_overview env isotext now since window db)
    \<and> ov_waste_rate (get_economics_overview env isotext now since window db) \<le> 1
    \<and> (ov_waste_estimate_clamped (get_economics_overview env isotext now since window db) \<longrightarrow>
        ov_waste_rate (get_economics_overview env isotext now since window db) = 1)
    \<and> cc_calculated_requests (ov_cost_confidence (get_economics_overview env isotext now since window db))
      + cc_estimated_requests (ov_cost_confidence (get_economics_overview env isotext now since window db))
      + cc_unpriced_requests (ov_cost_confidence (get_economics_overview env isotext now since window db))
      = cc_total_requests (ov_cost_confidence (get_economics_overview env isotext now since window db))"
proof -
  have "0 \<le> sum_where (since_row since) rq_cost_usd (fd_requests db)" using assms(1) by (intro sum_where_nonneg) auto
  moreover have "0 \<le> sum_where outstanding sf_estimated_waste_usd (fd_findings db)" using assms(2) by (intro sum_where_nonneg) auto
  ultimately have "0 \<le> ov_waste_rate (get_economics_overview env isotext now since window db)
    \<and> ov_waste_rate (get_economics_overview env isotext now since window db) \<le> 1
    \<and> (ov_waste_estimate_clamped (get_economics_overview env isotext now since window db) \<longrightarrow>
        ov_waste_rate (get_economics_overview env isotext now since window db) = 1)"
    by (auto simp: get_economics_overview_def get_waste_summary_def Let_def divide_le_eq)
  moreover have "ov_cost_confidence (get_economics_overview env isotext now since window db)
      = get_local_cost_confidence env since (fd_requests db)"
    by (simp add: get_economics_overview_def Let_def)
  ultimately show ?thesis by (simp add: confidence_partition)
qed

section \<open>Witnesses\<close>

theorem coverage_adds_up_witness:
  "oc_cost_total_usd (get_outcome_coverage demo_time [] (replicate 3 cached_row)) = 6
    \<and> coverage_pct (get_outcome_coverage demo_time [] (replicate 3 cached_row)) \<le> 100"
proof -
  have "\<forall>r \<in> set (replicate 3 cached_row). 0 \<le> rq_cost_usd r" by simp
  from coverage_adds_up[OF this, of demo_time "[]"] show ?thesis
    by (simp add: get_outcome_coverage_def Let_def since_row_def demo_time_def numeral_3_eq_3)
qed

theorem overview_rates_in_range_witness:
  "ov_total_spend_usd (get_economics_overview openai_env (\<lambda>t. []) 0 demo_time 60 (demo_db\<lparr>fd_findings := [demo_resolved]\<rparr>)) = 60
    \<and> ov_waste_rate (get_economics_overview openai_env (\<lambda>t. []) 0 demo_time 60 (demo_db\<lparr>fd_findings := [demo_resolved]\<rparr>)) \<le> 1"
proof -
  let ?db = "demo_db\<lparr>fd_findings := [demo_resolved]\<rparr>"
  have "\<forall>r \<in> set (fd_requests ?db). 0 \<le> rq_cost_usd r" "\<forall>s \<in> set (fd_findings ?db). 0 \<le> sf_estimated_waste_usd s"
    by (simp_all add: demo_db_def demo_resolved_def new_finding_def demo_waste_def)
  from overview_rates_in_range[OF this, of openai_env "\<lambda>t. []" 0 demo_time 60] show ?thesis
    by (simp add: get_economics_overview_def Let_def demo_db_def since_row_def demo_time_def sum_where_def sum_list_replicate)
qed

end
