(* ===== verification/Anomaly.thy ===== *)
theory Anomaly
  imports Waste
begin

text \<open>
  Cost spikes and runaway agents (\<open>detection/anomaly.py\<close>) with the record of fired alerts that keeps one
  alert per hour (\<open>was_alert_fired\<close>, \<open>mark_alert_fired\<close>, \<open>purge_old_fired_alerts\<close> of
  \<open>storage/database.py\<close>). Alert texts and their delivery are left out. Stored timestamps are points in time,
  so that none fails to parse.
\<close>

section \<open>Statistics\<close>

definition calculate_median :: "real list \<Rightarrow> real" where
  "calculate_median xs =
     (if xs = [] then 0
      else let s = sort xs; n = length s; mid = n div 2
           in if n mod 2 = 1 then s ! mid else (s ! (mid - 1) + s ! mid) / 2)"

definition calculate_mad :: "real list \<Rightarrow> real \<Rightarrow> real" where
  "calculate_mad xs m = (if xs = [] then 0 else calculate_median (map (\<lambda>v. \<bar>v - m\<bar>) xs))"

definition calculate_mean_std :: "real list \<Rightarrow> real \<times> real" where
  "calculate_mean_std xs =
     (if xs = [] then (0, 0)
      else let n = real (length xs); mean = sum_list xs / n
           in (mean, sqrt (sum_list (map (\<lambda>x. (x - mean)\<^sup>2) xs) / n)))"

text \<open>The inner loop that moves the left end, then the loop over the right end.\<close>

function advance :: "instant list \<Rightarrow> int \<Rightarrow> instant \<Rightarrow> nat \<Rightarrow> nat" where
  "advance ts width t left =
     (if left < length ts \<and> width < t - ts ! left then advance ts width t (left + 1) else left)"
  by pat_completeness auto

termination
  by (relation "measure (\<lambda>(ts, width, t, left). length ts - left)") auto

declare advance.simps [simp del]

fun span_loop :: "instant list \<Rightarrow> int \<Rightarrow> nat \<Rightarrow> instant list \<Rightarrow> nat \<times> nat \<Rightarrow> nat \<times> nat" where
  "span_loop ts width right [] st = st"
| "span_loop ts width right (t # rest) (left, best) =
     (let left' = advance ts width t left
      in span_loop ts width (right + 1) rest (left', max best (right - left' + 1)))"

definition max_requests_in_span :: "instant list \<Rightarrow> int \<Rightarrow> nat" where
  "max_requests_in_span ts width = snd (span_loop ts width 0 ts (0, 0))"

section \<open>Fired alerts\<close>

record fired_alert =
  fa_alert_key :: string
  fa_alert_type :: string
  fa_fired_at :: instant

definition alert_id :: "fired_alert \<Rightarrow> string \<times> string" where
  "alert_id a = (fa_alert_key a, fa_alert_type a)"

definition was_alert_fired :: "instant \<Rightarrow> int \<Rightarrow> string \<Rightarrow> string \<Rightarrow> fired_alert table \<Rightarrow> bool" where
  "was_alert_fired now within_hours key ty t =
     list_ex (\<lambda>a. fa_alert_key a = key \<and> fa_alert_type a = ty \<and> fa_fired_at a \<ge> now - within_hours * 3600000000) t"

definition mark_alert_fired :: "instant \<Rightarrow> string \<Rightarrow> string \<Rightarrow> fired_alert table \<Rightarrow> fired_alert table" where
  "mark_alert_fired now key ty t =
     insert_or_replace alert_id \<lparr>fa_alert_key = key, fa_alert_type = ty, fa_fired_at = now\<rparr> t"

definition purge_old_fired_alerts :: "instant \<Rightarrow> int \<Rightarrow> fired_alert table \<Rightarrow> nat \<times> fired_alert table" where
  "purge_old_fired_alerts now days t =
     (length (filter (\<lambda>a. fa_fired_at a < now - days * 86400000000) t),
      filter (\<lambda>a. \<not> fa_fired_at a < now - days * 86400000000) t)"

section \<open>Events\<close>

record anomaly_details =
  an_window :: string
  an_signal :: "string option"
  an_current_value :: real
  an_median_value :: real
  an_z_score :: real
  an_duplicate_ratio :: real
  an_trace_id :: "string option"
  an_commit_sha :: "string option"
  an_multiplier :: "real option" \<comment> \<open>\<open>None\<close>: infinite\<close>
  an_retry_rate :: real
  an_baseline_retry_rate :: real

record anomaly_event =
  ae_event_type :: string
  ae_scope :: string
  ae_target :: string
  ae_severity :: string
  ae_details :: anomaly_details
  ae_detected_at :: instant

record monitored_row = ledger_row +
  mr_commit_sha :: "string option"

record anomaly_db =
  ad_requests :: "monitored_row table"
  ad_events :: "anomaly_event table"
  ad_fired :: "fired_alert table"

text \<open>Which of the three database calls of \<open>_trigger_event\<close> fail.\<close>

record trigger_faults =
  tf_lookup_fails :: bool
  tf_insert_fails :: bool
  tf_mark_fails :: bool

definition alert_key :: "anomaly_event \<Rightarrow> string" where
  "alert_key e = ''anomaly:'' @ ae_event_type e @ '':'' @ ae_scope e @ '':'' @ ae_target e @ '':'' @ an_window (ae_details e)"

definition trigger_event :: "trigger_faults \<Rightarrow> anomaly_event \<Rightarrow> anomaly_db \<Rightarrow> anomaly_db" where
  "trigger_event f e db =
     (if \<not> tf_lookup_fails f \<and> was_alert_fired (ae_detected_at e) 1 (alert_key e) (ae_event_type e) (ad_fired db) then db
      else if tf_insert_fails f then db
      else let db1 = db\<lparr>ad_events := ad_events db @ [e]\<rparr>
           in if tf_mark_fails f then db1
              else db1\<lparr>ad_fired := mark_alert_fired (ae_detected_at e) (alert_key e) (ae_event_type e) (ad_fired db1)\<rparr>)"

section \<open>Sliding windows\<close>

record window_config =
  wc_duration_min :: int
  wc_min_count :: nat
  wc_min_cost :: usd

definition WINDOWS :: "(string \<times> window_config) list" where
  "WINDOWS =
     [(''1m'', \<lparr>wc_duration_min = 1, wc_min_count = 10, wc_min_cost = 1 / 10\<rparr>),
      (''5m'', \<lparr>wc_duration_min = 5, wc_min_count = 25, wc_min_cost = 1 / 2\<rparr>),
      (''15m'', \<lparr>wc_duration_min = 15, wc_min_count = 50, wc_min_cost = 3 / 2\<rparr>),
      (''1h'', \<lparr>wc_duration_min = 60, wc_min_count = 100, wc_min_cost = 5\<rparr>)]"

type_synonym sample = "instant \<times> usd \<times> string option"

text \<open>What the baseline loop adds up per interval; an index outside is dropped.\<close>

definition bucket_sums :: "nat \<Rightarrow> ('a \<Rightarrow> int) \<Rightarrow> ('a \<Rightarrow> real) \<Rightarrow> 'a list \<Rightarrow> real list" where
  "bucket_sums n idx f xs = map (\<lambda>i. sum_where (\<lambda>x. idx x = int i) f xs) [0..<n]"

definition z_score :: "bool \<Rightarrow> real \<Rightarrow> real list \<Rightarrow> real" where
  "z_score enough current baseline =
     (let m = calculate_median baseline; mad = calculate_mad baseline m; (mean, std) = calculate_mean_std baseline
      in if \<not> enough then 0
         else if mad > 0 then 6745 / 10000 * (current - m) / mad
         else if std > 0 then (current - mean) / std
         else if current > m then 10 else 0)"

definition duplicate_ratio :: "sample list \<Rightarrow> real" where
  "duplicate_ratio rs =
     (let hashes = List.map_filter (\<lambda>(t, c, h). h) rs
      in if hashes = [] then 0 else 1 - real (length (remdups hashes)) / real (length hashes))"

definition severity_of :: "bool \<Rightarrow> string" where
  "severity_of critical = (if critical then ''critical'' else ''warning'')"

definition window_details :: "string \<Rightarrow> real \<Rightarrow> real \<Rightarrow> real \<Rightarrow> real \<Rightarrow> anomaly_details" where
  "window_details wname current m z dup =
     \<lparr>an_window = wname, an_signal = None, an_current_value = current, an_median_value = m, an_z_score = z,
      an_duplicate_ratio = dup, an_trace_id = None, an_commit_sha = None, an_multiplier = Some 1,
      an_retry_rate = 0, an_baseline_retry_rate = 0\<rparr>"

text \<open>The requests of the current window, and the cost and the number of requests of each past interval.\<close>

definition window_data :: "window_config \<Rightarrow> sample list \<Rightarrow> instant \<Rightarrow> sample list \<times> real list \<times> real list" where
  "window_data cfg rs now =
     (let win = wc_duration_min cfg * 60000000;
          current_start = now - win; start = now - 86400000000;
          num = nat ((current_start - start) div win);
          base = filter (\<lambda>(t, c, h). start \<le> t \<and> t < current_start) rs;
          idx = (\<lambda>(t, c, h). (t - start) div win)
      in (filter (\<lambda>(t, c, h). t \<ge> current_start) rs,
          bucket_sums num idx (\<lambda>(t, c, h). c) base, bucket_sums num idx (\<lambda>_. 1) base))"

definition window_cost :: "sample list \<Rightarrow> usd" where
  "window_cost rs = sum_list (map (\<lambda>(t, c, h). c) rs)"

definition check_window :: "string \<times> window_config \<Rightarrow> string \<Rightarrow> string \<Rightarrow> sample list \<Rightarrow> instant \<Rightarrow> anomaly_event list" where
  "check_window w scope target rs now =
     (let (wname, cfg) = w;
          (current, costs, counts) = window_data cfg rs now;
          cost = window_cost current; count = length current;
          z_cost = z_score (cost \<ge> wc_min_cost cfg) cost costs;
          z_count = z_score (count \<ge> wc_min_count cfg) (real count) counts;
          checked = (count \<ge> wc_min_count cfg \<and> z_count \<ge> 7 / 2);
          dup = (if checked then duplicate_ratio current else 0);
          runaway = (checked \<and> dup \<ge> 8 / 10);
          spike = (cost \<ge> wc_min_cost cfg \<and> z_cost \<ge> 7 / 2)
      in if costs = [] then []
         else if runaway then
           [\<lparr>ae_event_type = ''runaway_loop'', ae_scope = scope, ae_target = target, ae_severity = severity_of (z_count \<ge> 5),
             ae_details = window_details wname (real count) (calculate_median counts) z_count dup, ae_detected_at = now\<rparr>]
         else if spike then
           [\<lparr>ae_event_type = ''cost_spike'', ae_scope = scope, ae_target = target, ae_severity = severity_of (z_cost \<ge> 5),
             ae_details = window_details wname cost (calculate_median costs) z_cost 0, ae_detected_at = now\<rparr>]
         else [])"

definition scope_matches :: "string \<Rightarrow> string \<Rightarrow> monitored_row \<Rightarrow> bool" where
  "scope_matches scope target r =
     (if scope = ''org'' then True
      else if scope = ''model'' then rq_model r = target
      else if scope = ''team'' then rq_team r = Some target \<or> rq_tags r ''team'' = Some target
      else if scope = ''app'' then rq_app_id r = Some target \<or> rq_tags r ''app_id'' = Some target
      else if scope = ''customer'' then rq_tags r ''customer'' = Some target \<or> rq_customer_hash r = Some target
      else scope = ''api_key'' \<and> rq_key_label r = Some target)"

definition sample_of :: "monitored_row \<Rightarrow> sample" where
  "sample_of r = (instant_of (rq_timestamp r), rq_cost_usd r, lw_system_prompt_hash r)"

definition check_scope :: "trigger_faults \<Rightarrow> instant \<Rightarrow> string \<times> string \<Rightarrow> anomaly_db \<Rightarrow> anomaly_db" where
  "check_scope f now st db =
     (let (scope, target) = st;
          rs = map sample_of (sort_key (\<lambda>r. instant_of (rq_timestamp r))
                 (filter (\<lambda>r. instant_of (rq_timestamp r) \<ge> now - 86400000000 \<and> scope_matches scope target r) (ad_requests db)))
      in if rs = [] then db
         else fold (\<lambda>w db. fold (trigger_event f) (check_window w scope target rs now) db) WINDOWS db)"

definition scopes_of :: "econ_row \<Rightarrow> (string \<times> string) list" where
  "scopes_of r =
     (let opt = (\<lambda>name v. if truthy v then [(name, the v)] else [])
      in filter (\<lambda>(s, t). t \<noteq> [])
           ([(''org'', ''*''), (''model'', rq_model r)]
            @ opt ''team'' (if truthy (rq_team r) then rq_team r else rq_tags r ''team'')
            @ opt ''app'' (if truthy (rq_app_id r) then rq_app_id r else rq_tags r ''app_id'')
            @ opt ''customer'' (rq_tags r ''customer'') @ opt ''api_key'' (rq_tags r ''key_label'')))"

definition check_request :: "trigger_faults \<Rightarrow> instant \<Rightarrow> econ_row \<Rightarrow> anomaly_db \<Rightarrow> anomaly_db" where
  "check_request f now r db = fold (check_scope f now) (scopes_of r) db"

section \<open>Agents\<close>

record agent_config =
  ac_baseline_days :: int
  ac_deviation_multiplier :: real
  ac_min_spend_usd :: usd
  ac_loop_max_requests :: nat
  ac_loop_window_minutes :: int

record agent_sample =
  as_time :: instant
  as_cost :: usd
  as_trace :: "string option"
  as_sha :: "string option"
  as_retry :: bool

fun flag_retries :: "econ_row list \<Rightarrow> monitored_row table \<Rightarrow> (monitored_row \<times> bool) list" where
  "flag_retries earlier [] = []"
| "flag_retries earlier (r # rs) =
     (let e = econ_row.truncate r
      in (r, eq_trace_id e \<noteq> None \<and> is_retry 60 earlier e) # flag_retries (earlier @ [e]) rs)"

definition fetch_agent_requests :: "string \<Rightarrow> instant \<Rightarrow> monitored_row table \<Rightarrow> agent_sample list" where
  "fetch_agent_requests agent since t =
     map (\<lambda>(r, retry). \<lparr>as_time = instant_of (rq_timestamp r), as_cost = rq_cost_usd r, as_trace = eq_trace_id r,
            as_sha = (case mr_commit_sha r of None \<Rightarrow> rq_tags r ''commit_sha'' | Some s \<Rightarrow> Some s), as_retry = retry\<rparr>)
       (sort_key (\<lambda>(r, retry). instant_of (rq_timestamp r))
         (filter (\<lambda>(r, retry). instant_of (rq_timestamp r) \<ge> since \<and> rq_tags r ''agent_id'' = Some agent)
           (flag_retries [] t)))"

definition last_sha :: "agent_sample list \<Rightarrow> string option" where
  "last_sha rs = (case filter truthy (map as_sha rs) of [] \<Rightarrow> None | ss \<Rightarrow> last ss)"

definition best_loop :: "int \<Rightarrow> agent_sample list \<Rightarrow> string option \<times> nat" where
  "best_loop width current =
     fold (\<lambda>tr (best_trace, best). let n = max_requests_in_span (map as_time (filter (\<lambda>s. as_trace s = Some tr) current)) width
            in if n > best then (Some tr, n) else (best_trace, best))
       (uniq (List.map_filter (\<lambda>s. if truthy (as_trace s) then as_trace s else None) current)) (None, 0)"

definition agent_event :: "instant \<Rightarrow> string \<Rightarrow> string \<Rightarrow> bool \<Rightarrow> anomaly_details \<Rightarrow> anomaly_event" where
  "agent_event now agent ty critical d =
     \<lparr>ae_event_type = ty, ae_scope = ''agent'', ae_target = agent, ae_severity = severity_of critical,
      ae_details = d, ae_detected_at = now\<rparr>"

definition ratio_at_least :: "real option \<Rightarrow> real \<Rightarrow> bool" where
  "ratio_at_least ratio x = (case ratio of None \<Rightarrow> True | Some r \<Rightarrow> r \<ge> x)"

text \<open>The current hour, the past, and per past hour the cost, the requests and the retries.\<close>

definition agent_data ::
    "agent_config \<Rightarrow> instant \<Rightarrow> agent_sample list \<Rightarrow> agent_sample list \<times> agent_sample list \<times> real list \<times> real list \<times> real list" where
  "agent_data cfg now rows =
     (let hour = 3600000000; window_start = now - hour; baseline_start = now - ac_baseline_days cfg * 86400000000;
          num = nat ((window_start - baseline_start) div hour);
          past = filter (\<lambda>s. \<not> as_time s \<ge> window_start) rows;
          idx = (\<lambda>s. (as_time s - baseline_start) div hour)
      in (filter (\<lambda>s. as_time s \<ge> window_start) rows, past, bucket_sums num idx as_cost past,
          bucket_sums num idx (\<lambda>_. 1) past, bucket_sums num idx (\<lambda>s. if as_retry s then 1 else 0) past))"

definition new_sha :: "agent_sample list \<Rightarrow> agent_sample list \<Rightarrow> string option" where
  "new_sha current past =
     (case last_sha current of None \<Rightarrow> None | Some s \<Rightarrow> if last_sha past = Some s then None else Some s)"

definition retry_deviates :: "agent_config \<Rightarrow> real \<Rightarrow> real \<Rightarrow> bool" where
  "retry_deviates cfg curr_rate med_rate =
     (if med_rate > 0 then curr_rate \<ge> ac_deviation_multiplier cfg * med_rate else curr_rate \<ge> 1 / 2)"

definition judge_agent :: "agent_config \<Rightarrow> instant \<Rightarrow> string \<Rightarrow> agent_sample list \<Rightarrow> anomaly_event option" where
  "judge_agent cfg now agent rows =
     (let (current, past, costs, counts, retries) = agent_data cfg now rows;
          cost = sum_list (map as_cost current); count = length current;
          med_cost = calculate_median costs; med_count = calculate_median counts;
          ratio = (if med_cost > 0 then Some (cost / med_cost) else None);
          base = \<lparr>an_window = ''agent_1h'', an_signal = None, an_current_value = cost, an_median_value = med_cost,
                  an_z_score = 0, an_duplicate_ratio = 0, an_trace_id = None, an_commit_sha = new_sha current past,
                  an_multiplier = Some 1, an_retry_rate = 0, an_baseline_retry_rate = 0\<rparr>;
          (loop_trace, loop_count) = best_loop (ac_loop_window_minutes cfg * 60000000) current;
          curr_rate = real (length (filter as_retry current)) / real count;
          med_rate = calculate_median (List.map_filter (\<lambda>(r, c). if c > 0 then Some (r / c) else None) (zip retries counts))
      in if costs = [] \<or> current = [] then None
         else if loop_count > ac_loop_max_requests cfg then
           Some (agent_event now agent ''runaway_loop'' (loop_count \<ge> 2 * ac_loop_max_requests cfg)
             (base\<lparr>an_signal := Some ''loop'', an_current_value := real loop_count, an_median_value := med_count, an_trace_id := loop_trace\<rparr>))
         else if cost \<ge> ac_min_spend_usd cfg \<and> ratio_at_least ratio (ac_deviation_multiplier cfg) then
           Some (agent_event now agent ''cost_spike'' (ratio_at_least ratio (2 * ac_deviation_multiplier cfg))
             (base\<lparr>an_signal := Some ''spend'', an_multiplier := ratio\<rparr>))
         else if count < 5 \<or> curr_rate \<le> 0 \<or> \<not> retry_deviates cfg curr_rate med_rate then None
         else Some (agent_event now agent ''cost_spike'' False
             (base\<lparr>an_signal := Some ''retry_rate'', an_retry_rate := curr_rate, an_baseline_retry_rate := med_rate\<rparr>)))"

definition check_agent :: "trigger_faults \<Rightarrow> agent_config \<Rightarrow> instant \<Rightarrow> string \<Rightarrow> anomaly_db \<Rightarrow> anomaly_db" where
  "check_agent f cfg now agent db =
     (case judge_agent cfg now agent (fetch_agent_requests agent (now - ac_baseline_days cfg * 86400000000) (ad_requests db)) of
        None \<Rightarrow> db | Some e \<Rightarrow> trigger_event f e db)"

definition check_active_agents :: "trigger_faults \<Rightarrow> agent_config \<Rightarrow> int \<Rightarrow> instant \<Rightarrow> anomaly_db \<Rightarrow> nat \<times> anomaly_db" where
  "check_active_agents f cfg lookback_minutes now db =
     (let agents = uniq (List.map_filter (\<lambda>r. if instant_of (rq_timestamp r) \<ge> now - lookback_minutes * 60000000
                              \<and> truthy (rq_tags r ''agent_id'') then rq_tags r ''agent_id'' else None) (ad_requests db))
      in (length agents, fold (check_agent f cfg now) agents db))"

section \<open>The sliding window counts what it says\<close>

lemma advance_spec:
  "left \<le> right \<Longrightarrow> right < length ts \<Longrightarrow> 0 \<le> width \<Longrightarrow>
   left \<le> advance ts width (ts ! right) left \<and> advance ts width (ts ! right) left \<le> right
   \<and> (\<forall>j. left \<le> j \<longrightarrow> j < advance ts width (ts ! right) left \<longrightarrow> width < ts ! right - ts ! j)
   \<and> ts ! right - ts ! advance ts width (ts ! right) left \<le> width"
proof (induction ts width "ts ! right" left rule: advance.induct)
  case (1 ts width left)
  show ?case
  proof (cases "width < ts ! right - ts ! left")
    case True
    then have "left < right" using 1(2,4) by (cases "left = right") auto
    moreover have step: "advance ts width (ts ! right) left = advance ts width (ts ! right) (left + 1)"
      using True 1(2,3) by (subst advance.simps) simp
    ultimately have "left + 1 \<le> advance ts width (ts ! right) left \<and> advance ts width (ts ! right) left \<le> right
      \<and> (\<forall>j. left + 1 \<le> j \<longrightarrow> j < advance ts width (ts ! right) left \<longrightarrow> width < ts ! right - ts ! j)
      \<and> ts ! right - ts ! advance ts width (ts ! right) left \<le> width"
      using 1(1) True 1(3,4) by simp
    with True show ?thesis by (metis Suc_eq_plus1 Suc_leI add_leD1 le_neq_implies_less)
  next
    case False
    then have "advance ts width (ts ! right) left = left" by (subst advance.simps) simp
    with False 1(2) show ?thesis by auto
  qed
qed

definition span_seen :: "instant list \<Rightarrow> int \<Rightarrow> nat \<Rightarrow> nat \<Rightarrow> bool" where
  "span_seen ts width right best \<longleftrightarrow>
     (\<forall>i < right. \<exists>l \<le> i. i - l + 1 \<le> best \<and> (\<forall>j < l. width < ts ! i - ts ! j))
     \<and> (right = 0 \<and> best = 0 \<or> (\<exists>i < right. \<exists>l \<le> i. best = i - l + 1 \<and> ts ! i - ts ! l \<le> width))"

lemma span_loop_seen:
  assumes "sorted ts" "0 \<le> width"
  shows "right + length rest = length ts \<Longrightarrow> drop right ts = rest \<Longrightarrow> left \<le> right \<Longrightarrow>
    \<forall>j < left. \<forall>t \<in> set rest. width < t - ts ! j \<Longrightarrow> span_seen ts width right best \<Longrightarrow>
    span_seen ts width (length ts) (snd (span_loop ts width right rest (left, best)))"
proof (induction rest arbitrary: right left best)
  case (Cons t rest)
  have right: "right < length ts" "ts ! right = t" "drop (right + 1) ts = rest"
    using Cons.prems(1,2) by (auto simp: nth_via_drop drop_Suc) (metis drop_Suc list.sel(3) tl_drop)
  let ?left = "advance ts width t left"
  have adv: "left \<le> ?left" "?left \<le> right" "\<And>j. left \<le> j \<Longrightarrow> j < ?left \<Longrightarrow> width < t - ts ! j" "t - ts ! ?left \<le> width"
    using advance_spec[of left right ts width] Cons.prems(3) right assms(2) by auto
  have old: "width < t - ts ! j" if "j < ?left" for j
    using that adv(3) Cons.prems(4) by (cases "j < left") auto
  have later: "t \<le> u" if "u \<in> set rest" for u
    using that assms(1) Cons.prems(2) by (metis sorted_wrt_drop list.set_intros(1) sorted_simps(2))
  have "\<forall>j < ?left. \<forall>u \<in> set rest. width < u - ts ! j" using old later by fastforce
  moreover have "span_seen ts width (right + 1) (max best (right - ?left + 1))"
    using Cons.prems(5) adv old right(2)
    unfolding span_seen_def less_Suc_eq Suc_eq_plus1[symmetric]
    by (auto simp: max_def) (meson le_trans less_imp_le nat_le_linear)+
  ultimately show ?case
    using Cons.IH[of "right + 1" ?left] Cons.prems(1) adv(2) right(3) by (simp add: Let_def)
qed simp

lemma span_seen_final:
  assumes "sorted ts" "0 \<le> width"
  shows "span_seen ts width (length ts) (max_requests_in_span ts width)"
  unfolding max_requests_in_span_def
  by (rule span_loop_seen[OF assms]) (auto simp: span_seen_def)

definition inside :: "instant \<Rightarrow> int \<Rightarrow> instant list \<Rightarrow> nat" where
  "inside a width ts = length (filter (\<lambda>t. a \<le> t \<and> t \<le> a + width) ts)"

lemma inside_card: "inside a width ts = Finite_Set.card {j. j < length ts \<and> a \<le> ts ! j \<and> ts ! j \<le> a + width}"
  by (simp add: inside_def length_filter_conv_card)

text \<open>C23: 
  The two-pointer loop over ascending times computes the largest number of them that lie in one window of the
  given width, wherever the window begins: no window holds more, and one holds that many.
\<close>

theorem loop_count_exact:
  assumes "sorted ts" "0 \<le> width"
  shows "(\<forall>a. inside a width ts \<le> max_requests_in_span ts width)
    \<and> (ts \<noteq> [] \<longrightarrow> (\<exists>a. inside a width ts = max_requests_in_span ts width))"
proof -
  let ?m = "max_requests_in_span ts width"
  note seen = span_seen_final[OF assms, unfolded span_seen_def]
  have bound: "inside a width ts \<le> ?m" for a
  proof (cases "{j. j < length ts \<and> a \<le> ts ! j \<and> ts ! j \<le> a + width} = {}")
    case False
    let ?W = "{j. j < length ts \<and> a \<le> ts ! j \<and> ts ! j \<le> a + width}"
    define i where "i = Max ?W"
    have "i \<in> ?W" unfolding i_def using False by (intro Max_in) auto
    then obtain l where l: "l \<le> i" "i - l + 1 \<le> ?m" "\<forall>j < l. width < ts ! i - ts ! j" using seen by auto
    have "?W \<subseteq> {l..i}"
    proof
      fix j assume "j \<in> ?W"
      then have "j \<le> i" unfolding i_def by (intro Max_ge) auto
      moreover have "\<not> j < l" using l(3) \<open>j \<in> ?W\<close> \<open>i \<in> ?W\<close> by force
      ultimately show "j \<in> {l..i}" by simp
    qed
    then have "Finite_Set.card ?W \<le> Finite_Set.card {l..i}" by (intro card_mono) auto
    with l(1,2) show ?thesis by (simp add: inside_card)
  qed (simp only: inside_card card.empty)
  moreover have "\<exists>a. inside a width ts = ?m" if "ts \<noteq> []"
  proof -
    from seen that obtain i l where il: "i < length ts" "l \<le> i" "?m = i - l + 1" "ts ! i - ts ! l \<le> width" by auto
    have "{l..i} \<subseteq> {j. j < length ts \<and> ts ! l \<le> ts ! j \<and> ts ! j \<le> ts ! l + width}"
      using il assms(1) by (auto simp: sorted_iff_nth_mono) (smt (verit) le_less_trans)
    then have "Finite_Set.card {l..i} \<le> inside (ts ! l) width ts" unfolding inside_card by (intro card_mono) auto
    with il(2,3) bound[of "ts ! l"] show ?thesis by (intro exI[of _ "ts ! l"]) simp
  qed
  ultimately show ?thesis by blast
qed

section \<open>What an alert means\<close>

lemma z_score_above:
  assumes "7 / 2 \<le> z_score enough current baseline"
  shows "enough \<and> (calculate_median baseline < current \<or> fst (calculate_mean_std baseline) < current)"
proof -
  obtain mean std where ms: "calculate_mean_std baseline = (mean, std)" by fastforce
  have "current > x" if "7 / 2 \<le> 6745 / 10000 * (current - x) / y" "0 < y" for x y :: real
  proof -
    have "0 < 6745 / 10000 * (current - x) / y" using that(1) by linarith
    with that(2) show ?thesis by (simp add: zero_less_divide_iff zero_less_mult_iff)
  qed
  moreover have "current > x" if "7 / 2 \<le> (current - x) / y" "0 < y" for x y :: real
  proof -
    have "0 < (current - x) / y" using that(1) by linarith
    with that(2) show ?thesis by (simp add: zero_less_divide_iff)
  qed
  ultimately show ?thesis using assms by (auto simp: z_score_def Let_def ms split: if_splits)
qed

definition above_usual :: "real \<Rightarrow> real list \<Rightarrow> bool" where
  "above_usual x xs \<longleftrightarrow> calculate_median xs < x \<or> fst (calculate_mean_std xs) < x"

lemma z_score_above': "7 \<le> z_score enough current baseline * 2 \<Longrightarrow> enough \<and> above_usual current baseline"
  using z_score_above[of enough current baseline] by (simp add: above_usual_def)

text \<open>
  A window alert is never raised for ordinary traffic. A cost spike needs at least the window's minimum cost and
  more than the median or the mean of the past day's intervals; a runaway loop needs the minimum count, more
  requests than usual, and four of five prompts repeated. At most one of the two is raised for a window.
\<close>

theorem window_alert_justified:
  assumes "e \<in> set (check_window (wname, cfg) scope target rs now)" "window_data cfg rs now = (current, costs, counts)"
  shows "check_window (wname, cfg) scope target rs now = [e] \<and>
    (ae_event_type e = ''cost_spike'' \<and> wc_min_cost cfg \<le> window_cost current \<and> above_usual (window_cost current) costs
     \<or> ae_event_type e = ''runaway_loop'' \<and> wc_min_count cfg \<le> length current \<and> 8 / 10 \<le> duplicate_ratio current
       \<and> above_usual (real (length current)) counts)"
proof
  show "check_window (wname, cfg) scope target rs now = [e]"
    using assms by (auto simp: check_window_def Let_def split: if_splits)
  show "ae_event_type e = ''cost_spike'' \<and> wc_min_cost cfg \<le> window_cost current \<and> above_usual (window_cost current) costs
     \<or> ae_event_type e = ''runaway_loop'' \<and> wc_min_count cfg \<le> length current \<and> 8 / 10 \<le> duplicate_ratio current
       \<and> above_usual (real (length current)) counts"
    using assms by (auto simp: check_window_def Let_def dest!: z_score_above' split: if_splits)
qed

definition loops_of :: "int \<Rightarrow> agent_sample list \<Rightarrow> string \<Rightarrow> nat" where
  "loops_of width current tr = max_requests_in_span (map as_time (filter (\<lambda>s. as_trace s = Some tr) current)) width"

lemma fold_best:
  fixes f :: "'a \<Rightarrow> nat"
  shows "(\<forall>x \<in> set xs. f x \<le> snd (fold (\<lambda>x (b, m). if m < f x then (Some x, f x) else (b, m)) xs s))
    \<and> snd s \<le> snd (fold (\<lambda>x (b, m). if m < f x then (Some x, f x) else (b, m)) xs s)
    \<and> (fold (\<lambda>x (b, m). if m < f x then (Some x, f x) else (b, m)) xs s = s
       \<or> (\<exists>x \<in> set xs. fold (\<lambda>x (b, m). if m < f x then (Some x, f x) else (b, m)) xs s = (Some x, f x)))"
proof (induction xs arbitrary: s)
  case (Cons x xs)
  show ?case using Cons.IH[of "(\<lambda>(b, m). if m < f x then (Some x, f x) else (b, m)) s"] by (cases s) auto
qed simp

lemma best_loop_spec:
  assumes "best_loop width current = (b, n)"
  shows "(\<forall>s \<in> set current. truthy (as_trace s) \<longrightarrow> loops_of width current (the (as_trace s)) \<le> n)
    \<and> (0 < n \<longrightarrow> (\<exists>tr. b = Some tr \<and> n = loops_of width current tr))"
proof -
  let ?trs = "uniq (List.map_filter (\<lambda>s. if truthy (as_trace s) then as_trace s else None) current)"
  have eq: "best_loop width current = fold (\<lambda>x (b, m). if m < loops_of width current x then (Some x, loops_of width current x) else (b, m)) ?trs (None, 0)"
    unfolding best_loop_def loops_of_def Let_def by simp
  have "\<forall>x \<in> set ?trs. loops_of width current x \<le> n" "b = None \<and> n = 0 \<or> (\<exists>x. b = Some x \<and> n = loops_of width current x)"
    using fold_best[where f = "loops_of width current" and xs = ?trs and s = "(None, 0)"] assms unfolding eq by auto
  moreover have "the (as_trace s) \<in> set ?trs" if "s \<in> set current" "truthy (as_trace s)" for s
    using that by (force simp: set_map_filter elim: truthyE)
  ultimately show ?thesis by auto
qed

text \<open>
  An agent is reported at most once per check, and for the strongest reason. A loop alert names a trace with more
  than the allowed requests in one window; a spend alert means that no trace loops, that the hour cost the minimum
  and the configured multiple of the median hour; a retry alert needs five requests of which some are retries.
\<close>

theorem agent_alert_justified:
  assumes "judge_agent cfg now agent rows = Some e" "agent_data cfg now rows = (current, past, costs, counts, retries)"
  shows "current \<noteq> [] \<and>
    (ae_event_type e = ''runaway_loop'' \<and> an_signal (ae_details e) = Some ''loop''
       \<and> (\<exists>tr. an_trace_id (ae_details e) = Some tr
            \<and> ac_loop_max_requests cfg < loops_of (ac_loop_window_minutes cfg * 60000000) current tr)
     \<or> ae_event_type e = ''cost_spike''
       \<and> (\<forall>s \<in> set current. truthy (as_trace s) \<longrightarrow>
            loops_of (ac_loop_window_minutes cfg * 60000000) current (the (as_trace s)) \<le> ac_loop_max_requests cfg)
       \<and> (an_signal (ae_details e) = Some ''spend'' \<and> ac_min_spend_usd cfg \<le> sum_list (map as_cost current)
            \<and> (0 < calculate_median costs \<longrightarrow>
                 ac_deviation_multiplier cfg * calculate_median costs \<le> sum_list (map as_cost current))
          \<or> an_signal (ae_details e) = Some ''retry_rate'' \<and> 5 \<le> length current \<and> (\<exists>s \<in> set current. as_retry s)))"
proof -
  obtain b n where best: "best_loop (ac_loop_window_minutes cfg * 60000000) current = (b, n)" by fastforce
  note spec = best_loop_spec[OF best]
  have some: "current \<noteq> []" using assms by (auto simp: judge_agent_def Let_def best split: if_splits)
  show ?thesis
  proof (cases "ac_loop_max_requests cfg < n")
    case True
    then have "ae_event_type e = ''runaway_loop'' \<and> an_signal (ae_details e) = Some ''loop'' \<and> an_trace_id (ae_details e) = b"
      using assms by (auto simp: judge_agent_def Let_def best agent_event_def split: if_splits)
    with True spec some show ?thesis by auto
  next
    case False
    then have calm: "\<forall>s \<in> set current. truthy (as_trace s) \<longrightarrow>
        loops_of (ac_loop_window_minutes cfg * 60000000) current (the (as_trace s)) \<le> ac_loop_max_requests cfg"
      using spec by fastforce
    have "ae_event_type e = ''cost_spike''
       \<and> (an_signal (ae_details e) = Some ''spend'' \<and> ac_min_spend_usd cfg \<le> sum_list (map as_cost current)
            \<and> (0 < calculate_median costs \<longrightarrow>
                 ac_deviation_multiplier cfg * calculate_median costs \<le> sum_list (map as_cost current))
          \<or> an_signal (ae_details e) = Some ''retry_rate'' \<and> 5 \<le> length current \<and> filter as_retry current \<noteq> [])"
      using False assms
      by (auto simp: judge_agent_def Let_def best agent_event_def ratio_at_least_def pos_le_divide_eq split: if_splits)
    with calm some show ?thesis by (simp add: filter_empty_conv)
  qed
qed

section \<open>One alert per hour\<close>

datatype alert_op = Trigger trigger_faults anomaly_event | Purge instant int

definition alert_step :: "alert_op \<Rightarrow> anomaly_db \<Rightarrow> anomaly_db" where
  "alert_step p db =
     (case p of Trigger f e \<Rightarrow> trigger_event f e db
      | Purge now days \<Rightarrow> db\<lparr>ad_fired := snd (purge_old_fired_alerts now days (ad_fired db))\<rparr>)"

definition op_time :: "alert_op \<Rightarrow> instant" where
  "op_time p = (case p of Trigger f e \<Rightarrow> ae_detected_at e | Purge now days \<Rightarrow> now)"

text \<open>The lookup and the mark succeed, and the purge keeps at least a day; an insert may fail.\<close>

definition sound_op :: "alert_op \<Rightarrow> bool" where
  "sound_op p = (case p of Trigger f e \<Rightarrow> \<not> tf_lookup_fails f \<and> \<not> tf_mark_fails f | Purge now days \<Rightarrow> 1 \<le> days)"

definition same_alert :: "anomaly_event \<Rightarrow> anomaly_event \<Rightarrow> bool" where
  "same_alert e e' \<longleftrightarrow> alert_key e = alert_key e' \<and> ae_event_type e = ae_event_type e'"

definition spaced :: "anomaly_event list \<Rightarrow> bool" where
  "spaced = sorted_wrt (\<lambda>e e'. same_alert e e' \<longrightarrow> ae_detected_at e + 3600000000 < ae_detected_at e')"

definition remembered :: "instant \<Rightarrow> anomaly_db \<Rightarrow> bool" where
  "remembered clock db \<longleftrightarrow> (\<forall>e \<in> set (ad_events db). ae_detected_at e \<le> clock \<and>
     ((\<exists>a \<in> set (ad_fired db). alert_id a = (alert_key e, ae_event_type e) \<and> ae_detected_at e \<le> fa_fired_at a)
      \<or> ae_detected_at e + 86400000000 \<le> clock))"

lemma trigger_spaced:
  assumes "spaced (ad_events db)" "remembered clock db" "clock \<le> ae_detected_at e" "\<not> tf_lookup_fails f" "\<not> tf_mark_fails f"
  shows "spaced (ad_events (trigger_event f e db)) \<and> remembered (ae_detected_at e) (trigger_event f e db)"
proof -
  let ?now = "ae_detected_at e"
  have now: "remembered ?now db" using assms(2,3) by (fastforce simp: remembered_def)
  show ?thesis
  proof (cases "was_alert_fired ?now 1 (alert_key e) (ae_event_type e) (ad_fired db) \<or> tf_insert_fails f")
    case True
    then have "trigger_event f e db = db" using assms(4) by (auto simp: trigger_event_def)
    with assms(1) now show ?thesis by simp
  next
    case False
    have eq: "trigger_event f e db = db\<lparr>ad_events := ad_events db @ [e],
        ad_fired := mark_alert_fired ?now (alert_key e) (ae_event_type e) (ad_fired db)\<rparr>"
      using False assms(4,5) by (simp add: trigger_event_def Let_def)
    have quiet: "fa_fired_at a < ?now - 3600000000"
      if "a \<in> set (ad_fired db)" "alert_id a = (alert_key e, ae_event_type e)" for a
      using False that by (auto simp: was_alert_fired_def list_ex_iff alert_id_def not_le)
    have "ae_detected_at e' + 3600000000 < ?now" if "e' \<in> set (ad_events db)" "same_alert e' e" for e'
      using that now quiet unfolding remembered_def same_alert_def by fastforce
    then have "spaced (ad_events (trigger_event f e db))" using assms(1) by (simp add: eq spaced_def sorted_wrt_append)
    moreover have "remembered ?now (trigger_event f e db)"
      using now by (fastforce simp: remembered_def eq mark_alert_fired_def insert_or_replace_def alert_id_def)
    ultimately show ?thesis by blast
  qed
qed

lemma alert_step_spaced:
  assumes "spaced (ad_events db)" "remembered clock db" "clock \<le> op_time p" "sound_op p"
  shows "spaced (ad_events (alert_step p db)) \<and> remembered (op_time p) (alert_step p db)"
proof (cases p)
  case (Trigger f e)
  with assms trigger_spaced show ?thesis by (simp add: alert_step_def op_time_def sound_op_def)
next
  case (Purge now days)
  have "remembered now (db\<lparr>ad_fired := snd (purge_old_fired_alerts now days (ad_fired db))\<rparr>)"
    unfolding remembered_def
  proof
    fix e assume "e \<in> set (ad_events (db\<lparr>ad_fired := snd (purge_old_fired_alerts now days (ad_fired db))\<rparr>))"
    then have e: "e \<in> set (ad_events db)" by simp
    have day: "86400000000 \<le> days * 86400000000" using assms(4) by (simp add: Purge sound_op_def)
    have le: "clock \<le> now" using assms(3) by (simp add: Purge op_time_def)
    from e assms(2) have "ae_detected_at e \<le> clock"
      "(\<exists>a \<in> set (ad_fired db). alert_id a = (alert_key e, ae_event_type e) \<and> ae_detected_at e \<le> fa_fired_at a)
       \<or> ae_detected_at e + 86400000000 \<le> clock" by (auto simp: remembered_def)
    with day le show "ae_detected_at e \<le> now \<and>
      ((\<exists>a \<in> set (ad_fired (db\<lparr>ad_fired := snd (purge_old_fired_alerts now days (ad_fired db))\<rparr>)).
          alert_id a = (alert_key e, ae_event_type e) \<and> ae_detected_at e \<le> fa_fired_at a)
       \<or> ae_detected_at e + 86400000000 \<le> now)"
      by (fastforce simp: purge_old_fired_alerts_def not_less)
  qed
  with assms(1) show ?thesis by (simp add: Purge alert_step_def op_time_def)
qed


section \<open>Witnesses\<close>

theorem loop_count_exact_witness: "max_requests_in_span [1, 2, 4, 9] 3 = 3 \<and> inside 1 3 [1, 2, 4, 9] \<le> max_requests_in_span [1, 2, 4, 9] 3"
proof -
  have "sorted [1, 2, 4, 9 :: int]" "0 \<le> (3 :: int)" by simp_all
  note exact = loop_count_exact[OF this]
  have "max_requests_in_span [1, 2, 4, 9] 3 = 3"
    by code_simp
  with exact show ?thesis by simp
qed

definition half_day :: window_config where
  "half_day = \<lparr>wc_duration_min = 720, wc_min_count = 10, wc_min_cost = 1 / 10\<rparr>"

lemma half_day_sel [simp]: "wc_min_count half_day = 10" "wc_min_cost half_day = 1 / 10"
  by (simp_all add: half_day_def)

lemma half_day_data:
  "window_data half_day (replicate 10 (90000000000, 1, Some ''h'')) 90000000001 = (replicate 10 (90000000000, 1, Some ''h''), [0], [0])"
  by (simp add: window_data_def half_day_def bucket_sums_def Let_def)

lemma calm_day: "calculate_median [0] = 0" "calculate_mad [0] 0 = 0" "calculate_mean_std [0] = (0, 0)"
  by (simp_all add: calculate_median_def calculate_mad_def calculate_mean_std_def Let_def)

theorem window_alert_justified_witness:
  "\<exists>e. check_window (''12h'', half_day) ''org'' ''*'' (replicate 10 (90000000000, 1, Some ''h'')) 90000000001 = [e]
     \<and> (ae_event_type e = ''runaway_loop'' \<or> ae_event_type e = ''cost_spike'')"
proof -
  let ?rs = "replicate 10 (90000000000, 1, Some ''h'') :: sample list"
  have dup: "duplicate_ratio ?rs = 9 / 10"
    by (simp add: duplicate_ratio_def List.map_filter_def eval_nat_numeral)
  have "check_window (''12h'', half_day) ''org'' ''*'' ?rs 90000000001 \<noteq> []"
    by (simp add: check_window_def half_day_data Let_def window_cost_def z_score_def calm_day dup sum_list_replicate)
  then obtain e where e: "e \<in> set (check_window (''12h'', half_day) ''org'' ''*'' ?rs 90000000001)"
    by (cases "check_window (''12h'', half_day) ''org'' ''*'' ?rs 90000000001") auto
  from window_alert_justified[OF e half_day_data] show ?thesis by blast
qed

definition demo_agent :: agent_config where
  "demo_agent = \<lparr>ac_baseline_days = 1, ac_deviation_multiplier = 3, ac_min_spend_usd = 1, ac_loop_max_requests = 20,
     ac_loop_window_minutes = 10\<rparr>"

definition one_call :: agent_sample where
  "one_call = \<lparr>as_time = 90000000000, as_cost = 5, as_trace = None, as_sha = None, as_retry = False\<rparr>"

lemma demo_agent_sel [simp]: "ac_min_spend_usd demo_agent = 1" "ac_loop_max_requests demo_agent = 20" "as_cost one_call = 5"
  by (simp_all add: demo_agent_def one_call_def)

theorem agent_alert_justified_witness:
  "\<exists>e. judge_agent demo_agent 90000000001 ''a'' [one_call] = Some e
     \<and> (ae_event_type e = ''runaway_loop'' \<or> ae_event_type e = ''cost_spike'')"
proof -
  obtain costs counts retries where agent: "agent_data demo_agent 90000000001 [one_call] = ([one_call], [], costs, counts, retries)"
    and costs: "costs = replicate 23 0"
    by (auto simp: agent_data_def demo_agent_def one_call_def Let_def bucket_sums_def map_replicate_const)
  have median: "calculate_median costs = 0"
    by (simp add: costs calculate_median_def sort_key_id_if_sorted Let_def)
  have "best_loop w [one_call] = (None, 0)" for w
    by (simp add: best_loop_def one_call_def uniq_def List.map_filter_def)
  then have "judge_agent demo_agent 90000000001 ''a'' [one_call] \<noteq> None"
    using median by (simp add: judge_agent_def agent Let_def costs ratio_at_least_def)
  then obtain e where "judge_agent demo_agent 90000000001 ''a'' [one_call] = Some e" by auto
  from agent_alert_justified[OF this agent] this show ?thesis by blast
qed

definition no_faults :: trigger_faults where
  "no_faults = \<lparr>tf_lookup_fails = False, tf_insert_fails = False, tf_mark_fails = False\<rparr>"

definition spike_at :: "instant \<Rightarrow> anomaly_event" where
  "spike_at t = \<lparr>ae_event_type = ''cost_spike'', ae_scope = ''org'', ae_target = ''*'', ae_severity = ''warning'',
     ae_details = window_details ''1m'' 1 0 5 0, ae_detected_at = t\<rparr>"


end
