(* ===== verification/Alerts.thy ===== *)
theory Alerts
  imports Budget_Engine Key_Budget Request_Links
begin

text \<open>
  Budget alerts: the thresholds and forecasts of \<open>analysis/budget.py\<close> and the deduplicating dispatcher of
  \<open>alerts/engine.py\<close>. What is sent is the list of alerts in the order of sending; the channels and the wording
  are left out. A check that runs in the background is two steps, its evaluation and its dispatch, because it
  awaits the database in between.
\<close>

section \<open>Forecasts\<close>

record budget_status =
  bs_budget_usd :: "usd option"
  bs_spent_usd :: usd
  bs_period_days :: int
  bs_elapsed_days :: real
  bs_forecast_usd :: usd

definition compute_budget_status :: "usd \<Rightarrow> usd option \<Rightarrow> int \<Rightarrow> datetime \<Rightarrow> budget_status" where
  "compute_budget_status spent budget days now =
     (let elapsed = max 1 (day now); rate = (if elapsed > 0 then spent / real_of_int elapsed else 0)
      in \<lparr>bs_budget_usd = budget, bs_spent_usd = spent, bs_period_days = days, bs_elapsed_days = real_of_int elapsed,
          bs_forecast_usd = rate * real_of_int days\<rparr>)"

definition pct_used :: "budget_status \<Rightarrow> real option" where
  "pct_used s = (case bs_budget_usd s of None \<Rightarrow> None | Some b \<Rightarrow> if b = 0 then None else Some (bs_spent_usd s / b * 100))"

definition is_over_budget :: "budget_status \<Rightarrow> bool" where
  "is_over_budget s = (case bs_budget_usd s of None \<Rightarrow> False | Some b \<Rightarrow> bs_spent_usd s > b)"

definition is_on_pace_to_exceed :: "budget_status \<Rightarrow> bool" where
  "is_on_pace_to_exceed s = (case bs_budget_usd s of None \<Rightarrow> False | Some b \<Rightarrow> bs_forecast_usd s > b)"

definition remaining_usd :: "budget_status \<Rightarrow> usd option" where
  "remaining_usd s = map_option (\<lambda>b. max 0 (b - bs_spent_usd s)) (bs_budget_usd s)"

definition alert_period_days :: "string \<Rightarrow> datetime \<Rightarrow> int" where
  "alert_period_days period now =
     (if period = ''daily'' then 1 else if period = ''weekly'' then 7 else days_in_month (year now) (month now))"

text \<open>The literal 0.000694... of the code is a minute in days.\<close>

definition alert_elapsed_days :: "string \<Rightarrow> datetime \<Rightarrow> real" where
  "alert_elapsed_days period now =
     (if period = ''daily'' then real_of_int (tod now div 1000000) / 86400 + 1 / 1440
      else if period = ''weekly'' then real_of_int (weekday now) + 1 else real_of_int (day now))"

section \<open>Thresholds\<close>

record alerts_config =
  alc_daily_usd :: "usd option"
  alc_weekly_usd :: "usd option"
  alc_monthly_usd :: "usd option"
  alc_budget_limit_usd :: "usd option"
  alc_teams :: "(string \<times> usd) list"
  alc_customers :: "(string \<times> usd) list"
  alc_customer_default :: "usd option"
  alc_api_keys :: api_key_budgets
  alc_terminal :: bool

record budget_alert =
  ba_period :: string
  ba_budget_usd :: usd
  ba_spent_usd :: usd
  ba_pct_used :: real
  ba_threshold :: real
  ba_forecast_usd :: usd
  ba_period_start :: datetime

definition DEFAULT_THRESHOLDS :: "real list" where
  "DEFAULT_THRESHOLDS = [80, 90, 100]"

definition budget_map :: "alerts_config \<Rightarrow> (string \<times> usd) list" where
  "budget_map cfg =
     (let opt = (\<lambda>p v. case v of None \<Rightarrow> [] | Some b \<Rightarrow> [(p, b)]);
          configured = opt ''daily'' (alc_daily_usd cfg) @ opt ''weekly'' (alc_weekly_usd cfg) @ opt ''monthly'' (alc_monthly_usd cfg)
      in configured @ (if alc_monthly_usd cfg = None then opt ''monthly'' (alc_budget_limit_usd cfg) else []))"

definition total_since :: "datetime \<Rightarrow> request_row table \<Rightarrow> usd" where
  "total_since since t = sum_where (\<lambda>r. before_eq since (rq_timestamp r)) rq_cost_usd t"

definition period_alerts :: "datetime \<Rightarrow> string \<Rightarrow> usd \<Rightarrow> usd \<Rightarrow> budget_alert list" where
  "period_alerts now period budget spent =
     (let since = get_period_start period now; elapsed = alert_elapsed_days period now;
          rate = (if elapsed > 0 then spent / elapsed else 0); pct = spent / budget * 100
      in map (\<lambda>t. \<lparr>ba_period = period, ba_budget_usd = budget, ba_spent_usd = spent, ba_pct_used = pct, ba_threshold = t,
                    ba_forecast_usd = rate * real_of_int (alert_period_days period now), ba_period_start = since\<rparr>)
           (filter (\<lambda>t. pct \<ge> t) (sort DEFAULT_THRESHOLDS)))"

text \<open>\<open>None\<close>: the division by a budget of zero raises. \<open>fails\<close> are the periods whose query fails; they are skipped.\<close>

fun check_periods ::
    "(string \<Rightarrow> bool) \<Rightarrow> datetime \<Rightarrow> request_row table \<Rightarrow> (string \<times> usd) list \<Rightarrow> budget_alert list option" where
  "check_periods fails now t [] = Some []"
| "check_periods fails now t ((period, budget) # bs) =
     (let spent = total_since (get_period_start period now) t
      in if fails period \<or> spent = 0 then check_periods fails now t bs
         else if budget = 0 then None
         else map_option ((@) (period_alerts now period budget spent)) (check_periods fails now t bs))"

definition check_thresholds :: "alerts_config \<Rightarrow> (string \<Rightarrow> bool) \<Rightarrow> datetime \<Rightarrow> request_row table \<Rightarrow> budget_alert list option" where
  "check_thresholds cfg fails now t = check_periods fails now t (budget_map cfg)"

section \<open>The dispatcher\<close>

datatype fired_key =
    Period_key string real datetime
  | Key_key string nat "int \<times> int \<times> int"
  | Customer_key string string

definition period_key :: "budget_alert \<Rightarrow> fired_key" where
  "period_key a = Period_key (ba_period a) (ba_threshold a) (ba_period_start a)"

text \<open>\<open>_run\<close> up to its second await: what is new is decided before the top model is queried.\<close>

definition evaluate_alerts ::
    "alerts_config \<Rightarrow> (string \<Rightarrow> bool) \<Rightarrow> datetime \<Rightarrow> request_row table \<Rightarrow> fired_key set \<Rightarrow> budget_alert list" where
  "evaluate_alerts cfg fails now t fired =
     (case check_thresholds cfg fails now t of None \<Rightarrow> [] | Some as \<Rightarrow> filter (\<lambda>a. period_key a \<notin> fired) as)"

text \<open>The loop that marks and sends.\<close>

definition dispatch_alerts :: "budget_alert list \<Rightarrow> fired_key set \<times> budget_alert list \<Rightarrow> fired_key set \<times> budget_alert list" where
  "dispatch_alerts = fold (\<lambda>a (fired, sent). (insert (period_key a) fired, sent @ [a]))"

definition check_and_dispatch ::
    "alerts_config \<Rightarrow> (string \<Rightarrow> bool) \<times> datetime \<times> request_row table \<Rightarrow> fired_key set \<times> budget_alert list
       \<Rightarrow> fired_key set \<times> budget_alert list" where
  "check_and_dispatch cfg check st =
     (case check of (fails, now, t) \<Rightarrow> dispatch_alerts (evaluate_alerts cfg fails now t (fst st)) st)"

section \<open>API keys, teams and customers\<close>

record key_budget_alert =
  kba_key_label :: string
  kba_provider :: string
  kba_spent_today :: usd
  kba_daily_budget :: usd
  kba_pct :: real
  kba_threshold :: nat
  kba_severity :: string
  kba_resets_at :: datetime
  kba_resets_tz :: string

definition KEY_BUDGET_THRESHOLDS :: "nat list" where
  "KEY_BUDGET_THRESHOLDS = [50, 80, 100]"

definition crossed_threshold :: "real \<Rightarrow> nat option" where
  "crossed_threshold pct = fold (\<lambda>t best. if pct \<ge> real t then Some t else best) KEY_BUDGET_THRESHOLDS None"

definition labels_today :: "datetime \<Rightarrow> request_row table \<Rightarrow> string list" where
  "labels_today start t = remdups (List.map_filter rq_key_label (filter (\<lambda>r. before_eq start (rq_timestamp r)) t))"

definition key_alert :: "tzinfo \<Rightarrow> api_key_budgets \<Rightarrow> datetime \<Rightarrow> api_key_row table \<Rightarrow> (string \<rightharpoonup> usd) \<Rightarrow> string \<Rightarrow> key_budget_alert option" where
  "key_alert tz b now keys spend label =
     (case daily_cap_for b (Some label) of
        None \<Rightarrow> None
      | Some cap \<Rightarrow>
          if cap \<le> 0 then None
          else (let spent = spend_or_0 spend label; pct = spent / cap * 100
                in map_option (\<lambda>t. \<lparr>kba_key_label = label,
                     kba_provider = (case map_of (rev (map (\<lambda>k. (ak_label k, ak_provider k)) (list_keys keys))) label of
                                       None \<Rightarrow> ''unknown'' | Some p \<Rightarrow> p),
                     kba_spent_today = spent, kba_daily_budget = cap, kba_pct = pct, kba_threshold = t,
                     kba_severity = (if t = 100 then ''CRITICAL'' else ''WARNING''), kba_resets_at = next_midnight_in_tz tz now,
                     kba_resets_tz = (if reset_timezone b = [] then ''UTC'' else reset_timezone b)\<rparr>) (crossed_threshold pct)))"

definition check_key_budgets ::
    "tzinfo \<Rightarrow> api_key_budgets \<Rightarrow> datetime \<Rightarrow> request_row table \<Rightarrow> api_key_row table \<Rightarrow> key_budget_alert list" where
  "check_key_budgets tz b now t keys =
     (let start = fst (today_window_utc tz now)
      in if kb_keys b = [] \<and> Option.bind (kb_default b) daily_usd = None then []
         else List.map_filter (key_alert tz b now keys (get_all_keys_today_spend start t)) (labels_today start t))"

definition date_of :: "datetime \<Rightarrow> int \<times> int \<times> int" where
  "date_of d = (year d, month d, day d)"

definition key_alert_key :: "tzinfo \<Rightarrow> datetime \<Rightarrow> key_budget_alert \<Rightarrow> fired_key" where
  "key_alert_key tz now a = Key_key (kba_key_label a) (kba_threshold a) (date_of (fst (today_window_utc tz now)))"

definition dispatch_key_budgets ::
    "tzinfo \<Rightarrow> datetime \<Rightarrow> key_budget_alert list \<Rightarrow> fired_key set \<times> key_budget_alert list \<Rightarrow> fired_key set \<times> key_budget_alert list" where
  "dispatch_key_budgets tz now =
     fold (\<lambda>a (fired, sent). if key_alert_key tz now a \<in> fired then (fired, sent)
                             else (insert (key_alert_key tz now a) fired, sent @ [a]))"

record spend_alert =
  sa_name :: string
  sa_spent :: usd
  sa_limit :: usd
  sa_severity :: string

definition check_team_budgets :: "alerts_config \<Rightarrow> datetime \<Rightarrow> request_row table \<Rightarrow> spend_alert list" where
  "check_team_budgets cfg now t =
     List.map_filter (\<lambda>(team, limit).
         let spent = spend_or_0 (get_spend_by_team_this_month now t) team;
             alert = (\<lambda>sev. Some \<lparr>sa_name = team, sa_spent = spent, sa_limit = limit, sa_severity = sev\<rparr>)
         in if spent \<ge> limit then alert ''CRITICAL'' else if spent \<ge> 8 / 10 * limit then alert ''WARNING'' else None)
       (alc_teams cfg)"

definition customers_this_month :: "datetime \<Rightarrow> request_row table \<Rightarrow> string list" where
  "customers_this_month now t =
     remdups (List.map_filter (\<lambda>r. rq_tags r ''customer'') (filter (\<lambda>r. before_eq (month_start now) (rq_timestamp r)) t))"

definition check_customer_budgets :: "alerts_config \<Rightarrow> datetime \<Rightarrow> request_row table \<Rightarrow> spend_alert list" where
  "check_customer_budgets cfg now t =
     (if alc_customers cfg = [] \<and> (alc_customer_default cfg \<in> {None, Some 0}) then []
      else List.map_filter (\<lambda>c.
        case (case map_of (alc_customers cfg) c of Some l \<Rightarrow> Some l | None \<Rightarrow> alc_customer_default cfg) of
          None \<Rightarrow> None
        | Some limit \<Rightarrow>
            if limit = 0 then None
            else (let spent = spend_or_0 (get_spend_by_customer_this_month now t) c; pct = spent / limit * 100;
                      alert = (\<lambda>sev. Some \<lparr>sa_name = c, sa_spent = spent, sa_limit = limit, sa_severity = sev\<rparr>)
                  in if pct \<ge> 100 then alert ''CRITICAL'' else if pct \<ge> 80 then alert ''WARNING'' else None))
        (customers_this_month now t))"

definition customer_key :: "spend_alert \<Rightarrow> fired_key" where
  "customer_key a = Customer_key (sa_name a) (sa_severity a)"

text \<open>Only what is new is logged; the terminal shows all of them.\<close>

definition run_customer_checks ::
    "alerts_config \<Rightarrow> datetime \<times> request_row table \<Rightarrow> fired_key set \<times> spend_alert list \<Rightarrow> fired_key set \<times> spend_alert list" where
  "run_customer_checks cfg check st =
     (case check of (now, t) \<Rightarrow>
        fold (\<lambda>a (fired, logged). if customer_key a \<in> fired then (fired, logged)
                                  else (insert (customer_key a) fired, logged @ [a])) (check_customer_budgets cfg now t) st)"

section \<open>Sent once\<close>

lemma check_periods_distinct:
  "check_periods fails now t bs = Some as \<Longrightarrow> distinct (map fst bs) \<Longrightarrow>
   distinct (map period_key as) \<and> ba_period ` set as \<subseteq> fst ` set bs"
proof (induction bs arbitrary: as)
  case (Cons b bs)
  obtain period budget where b: "b = (period, budget)" by fastforce
  have own: "distinct (map period_key (period_alerts now period budget spent))"
    "ba_period ` set (period_alerts now period budget spent) \<subseteq> {period}" for spent
    by (auto simp: period_alerts_def period_key_def Let_def distinct_map inj_on_def DEFAULT_THRESHOLDS_def)
  show ?case
  proof (cases "check_periods fails now t (b # bs) = check_periods fails now t bs")
    case True
    with Cons show ?thesis by auto
  next
    case False
    then obtain rest where rest: "check_periods fails now t bs = Some rest"
      "as = period_alerts now period budget (total_since (get_period_start period now) t) @ rest"
      using Cons.prems(1) by (auto simp: b Let_def split: if_splits)
    let ?own = "period_alerts now period budget (total_since (get_period_start period now) t)"
    have ih: "ba_period ` set rest \<subseteq> fst ` set bs" "distinct (map period_key rest)" using Cons.IH[OF rest(1)] Cons.prems(2) by auto
    have "period \<notin> fst ` set bs" using Cons.prems(2) by (simp add: b)
    then have "ba_period x \<noteq> ba_period y" if "x \<in> set ?own" "y \<in> set rest" for x y
      using that own(2)[of "total_since (get_period_start period now) t"] ih(1) by (metis imageI singletonD subsetD)
    then have "period_key ` set ?own \<inter> period_key ` set rest = {}" by (auto simp: period_key_def)
    moreover have "ba_period ` set as \<subseteq> fst ` set (b # bs)" unfolding rest(2) b set_append image_Un
      using own(2)[of "total_since (get_period_start period now) t"] ih(1) by auto
    ultimately show ?thesis using own(1) ih(2) by (simp add: rest(2))
  qed
qed simp

lemma budget_map_distinct: "distinct (map fst (budget_map cfg))"
  by (cases "alc_daily_usd cfg"; cases "alc_weekly_usd cfg"; cases "alc_monthly_usd cfg"; cases "alc_budget_limit_usd cfg")
    (simp_all add: budget_map_def)

lemma evaluate_distinct:
  "distinct (map period_key (evaluate_alerts cfg fails now t fired)) \<and> period_key ` set (evaluate_alerts cfg fails now t fired) \<inter> fired = {}"
  using check_periods_distinct[OF _ budget_map_distinct]
  by (auto simp: evaluate_alerts_def check_thresholds_def distinct_map inj_on_def split: option.splits)

lemma dispatch_alerts_eq: "dispatch_alerts as (fired, sent) = (period_key ` set as \<union> fired, sent @ as)"
  by (induction as arbitrary: fired sent) (auto simp: dispatch_alerts_def)

definition sent_once :: "fired_key set \<times> budget_alert list \<Rightarrow> bool" where
  "sent_once st \<longleftrightarrow> distinct (map period_key (snd st)) \<and> period_key ` set (snd st) \<subseteq> fst st"

lemma check_sent_once: "sent_once st \<Longrightarrow> sent_once (check_and_dispatch cfg check st)"
proof (cases check)
  case (fields fails now t)
  assume st: "sent_once st"
  obtain fired sent where eq: "st = (fired, sent)" by fastforce
  have "check_and_dispatch cfg check st
      = (period_key ` set (evaluate_alerts cfg fails now t fired) \<union> fired, sent @ evaluate_alerts cfg fails now t fired)"
    by (simp add: check_and_dispatch_def fields eq dispatch_alerts_eq)
  with st evaluate_distinct[of cfg fails now t fired] show ?thesis by (auto simp: sent_once_def eq)
qed

text \<open>
  Checks that run one after another send no alert twice: over the life of the process every pair of period and
  threshold is announced at most once per period, however often and at whatever spend the checks run.
\<close>

theorem alerts_sent_once: "distinct (map period_key (snd (fold (check_and_dispatch cfg) checks ({}, []))))"
proof -
  have "sent_once st \<Longrightarrow> sent_once (fold (check_and_dispatch cfg) checks st)" for st
    by (induction checks arbitrary: st) (simp_all add: check_sent_once)
  then have "sent_once (fold (check_and_dispatch cfg) checks ({}, []))" by (simp add: sent_once_def)
  then show ?thesis by (simp add: sent_once_def)
qed

text \<open>
  Checks that overlap do: what is new is decided before an await and marked after it, so two checks that both
  evaluate before either dispatches send the same alert twice.
\<close>

theorem overlapping_checks_repeat:
  assumes "a \<in> set (evaluate_alerts cfg fails1 now1 t1 fired)" "b \<in> set (evaluate_alerts cfg fails2 now2 t2 fired)"
    "period_key b = period_key a"
  shows "2 \<le> count_list (map period_key (snd (dispatch_alerts (evaluate_alerts cfg fails2 now2 t2 fired)
     (dispatch_alerts (evaluate_alerts cfg fails1 now1 t1 fired) (fired, []))))) (period_key a)"
proof -
  let ?first = "evaluate_alerts cfg fails1 now1 t1 fired" and ?second = "evaluate_alerts cfg fails2 now2 t2 fired"
  have "count_list (map period_key xs) (period_key a) \<noteq> 0" if "period_key a \<in> period_key ` set xs" for xs
    using that by (simp add: count_list_0_iff)
  moreover have "period_key a \<in> period_key ` set ?first" using assms(1) by simp
  moreover have "period_key a \<in> period_key ` set ?second" using assms(2,3) by (metis imageI)
  ultimately have "count_list (map period_key ?first) (period_key a) \<noteq> 0" "count_list (map period_key ?second) (period_key a) \<noteq> 0"
    by blast+
  then show ?thesis by (simp add: dispatch_alerts_eq)
qed

text \<open>
  A budget of zero silences everything: with any spend in its period the percentage divides by zero, the check
  is abandoned, and the thresholds of all other periods go unannounced.
\<close>

theorem zero_budget_silences_alerts:
  assumes "(period, 0) \<in> set (budget_map cfg)" "\<not> fails period" "total_since (get_period_start period now) t \<noteq> 0"
  shows "evaluate_alerts cfg fails now t fired = []"
proof -
  have "(period, 0) \<in> set bs \<Longrightarrow> check_periods fails now t bs = None" for bs
    using assms(2,3) by (induction bs) (auto simp: Let_def)
  with assms(1) show ?thesis by (simp add: evaluate_alerts_def check_thresholds_def)
qed

lemma customer_fold:
  "k \<in> fired \<Longrightarrow> k \<in> fst (fold (\<lambda>a (fired, logged). if customer_key a \<in> fired then (fired, logged)
      else (insert (customer_key a) fired, logged @ [a])) as (fired, logged))
   \<and> filter (\<lambda>a. customer_key a = k) (snd (fold (\<lambda>a (fired, logged). if customer_key a \<in> fired then (fired, logged)
      else (insert (customer_key a) fired, logged @ [a])) as (fired, logged))) = filter (\<lambda>a. customer_key a = k) logged"
  by (induction as arbitrary: fired logged) auto

text \<open>
  A customer's alert is announced once and never again: the key of the alert has no month in it, so a customer
  who was over the limit in one month is not announced in any later month of the process.
\<close>

theorem customer_alert_never_again:
  assumes "customer_key a \<in> fired"
  shows "filter (\<lambda>b. customer_key b = customer_key a) (snd (fold (run_customer_checks cfg) checks (fired, logged)))
    = filter (\<lambda>b. customer_key b = customer_key a) logged"
  using assms
proof (induction checks arbitrary: fired logged)
  case (Cons check checks)
  obtain now t where check: "check = (now, t)" by fastforce
  obtain fired' logged' where step: "run_customer_checks cfg check (fired, logged) = (fired', logged')" by fastforce
  have "customer_key a \<in> fired' \<and> filter (\<lambda>b. customer_key b = customer_key a) logged' = filter (\<lambda>b. customer_key b = customer_key a) logged"
    using customer_fold[OF Cons.prems, of "check_customer_budgets cfg now t" logged] step
    by (simp add: run_customer_checks_def check)
  with Cons.IH[of fired' logged'] step show ?case by simp
qed simp

section \<open>Key alerts and the cap\<close>

lemma crossed_critical: "crossed_threshold pct = Some 100 \<longleftrightarrow> 100 \<le> pct"
  by (simp add: crossed_threshold_def KEY_BUDGET_THRESHOLDS_def)

text \<open>
  The critical key alert and the roll-up agree: for a label with a positive cap and traffic today there is a
  critical alert exactly when the roll-up of the keys shows the label as critical.
\<close>

theorem key_alert_agrees_with_rollup:
  assumes "label \<in> set (labels_today (fst (today_window_utc tz now)) t)" "daily_cap_for b (Some label) = Some cap" "0 < cap"
  shows "(\<exists>a \<in> set (check_key_budgets tz b now t keys). kba_key_label a = label \<and> kba_severity a = ''CRITICAL'')
    \<longleftrightarrow> kt_status (key_today_row (Some b) (get_all_keys_today_spend (fst (today_window_utc tz now)) t) tz_name label) = CRITICAL"
proof -
  let ?spend = "get_all_keys_today_spend (fst (today_window_utc tz now)) t"
  have some: "\<not> (kb_keys b = [] \<and> Option.bind (kb_default b) daily_usd = None)"
    using assms(2) by (auto simp: daily_cap_for_def split: if_splits option.splits)
  have lab: "key_alert tz b now keys ?spend l = Some a \<Longrightarrow> kba_key_label a = l" for l a
    by (auto simp: key_alert_def Let_def split: option.splits if_splits)
  have mem: "x \<in> set (check_key_budgets tz b now t keys) \<longleftrightarrow>
      (\<exists>l \<in> set (labels_today (fst (today_window_utc tz now)) t). key_alert tz b now keys ?spend l = Some x)" for x
    using some by (auto simp: check_key_budgets_def Let_def List.map_filter_def image_iff)
  have "(\<exists>a \<in> set (check_key_budgets tz b now t keys). kba_key_label a = label \<and> kba_severity a = ''CRITICAL'')
      \<longleftrightarrow> (\<exists>a. key_alert tz b now keys ?spend label = Some a \<and> kba_severity a = ''CRITICAL'')"
    unfolding Bex_def mem using assms(1) lab by metis
  also have "\<dots> \<longleftrightarrow> crossed_threshold (spend_or_0 ?spend label / cap * 100) = Some 100"
    using assms(2,3) by (auto simp: key_alert_def Let_def)
  also have "\<dots> \<longleftrightarrow> 100 \<le> spend_or_0 ?spend label / cap * 100" by (rule crossed_critical)
  finally show ?thesis using assms(2,3) by (auto simp: key_today_row_def key_status_def key_pct_def Let_def)
qed

section \<open>Witnesses\<close>

definition capped :: "usd option \<Rightarrow> usd option \<Rightarrow> alerts_config" where
  "capped d m = \<lparr>alc_daily_usd = d, alc_weekly_usd = None, alc_monthly_usd = m, alc_budget_limit_usd = None,
     alc_teams = [], alc_customers = [], alc_customer_default = Some 10, alc_api_keys = one_cap 10, alc_terminal = True\<rparr>"

lemma spent_today [simp]: "total_since (get_period_start ''daily'' a_day) [ci_row 9] = 9" "total_since (get_period_start ''monthly'' a_day) [ci_row 9] = 9"
  by (simp_all add: total_since_def get_period_start_def a_day_def ci_row_def midnight_def before_eq_def
      toordinal_def days_before_year_def days_before_month_def)

lemma eighty_percent:
  "map ba_threshold (evaluate_alerts (capped (Some 10) None) (\<lambda>_. False) a_day [ci_row 9] {}) = [80, 90]"
  by (simp add: evaluate_alerts_def check_thresholds_def budget_map_def capped_def period_alerts_def DEFAULT_THRESHOLDS_def
      Let_def numeral_eq_Suc)

theorem overlapping_checks_repeat_witness:
  "\<exists>a. 2 \<le> count_list (map period_key (snd (dispatch_alerts (evaluate_alerts (capped (Some 10) None) (\<lambda>_. False) a_day [ci_row 9] {})
     (dispatch_alerts (evaluate_alerts (capped (Some 10) None) (\<lambda>_. False) a_day [ci_row 9] {}) ({}, []))))) (period_key a)"
proof -
  obtain a where "a \<in> set (evaluate_alerts (capped (Some 10) None) (\<lambda>_. False) a_day [ci_row 9] {})"
    using eighty_percent by (cases "evaluate_alerts (capped (Some 10) None) (\<lambda>_. False) a_day [ci_row 9] {}") auto
  from overlapping_checks_repeat[OF this this refl] show ?thesis by blast
qed

theorem zero_budget_silences_alerts_witness:
  "evaluate_alerts (capped (Some 0) (Some 1)) (\<lambda>_. False) a_day [ci_row 9] {} = []"
  by (rule zero_budget_silences_alerts[of "''daily''"]) (simp_all add: budget_map_def capped_def)

theorem customer_alert_never_again_witness:
  "filter (\<lambda>b. customer_key b = Customer_key ''c'' ''CRITICAL'')
     (snd (fold (run_customer_checks (capped None None)) [(a_day, [(ci_row 99)\<lparr>rq_tags := [''customer'' \<mapsto> ''c'']\<rparr>])]
        ({Customer_key ''c'' ''CRITICAL''}, []))) = []"
proof -
  let ?a = "\<lparr>sa_name = ''c'', sa_spent = 1, sa_limit = 1, sa_severity = ''CRITICAL''\<rparr>"
  have key: "customer_key ?a = Customer_key ''c'' ''CRITICAL''" by (simp add: customer_key_def)
  then have "customer_key ?a \<in> {Customer_key ''c'' ''CRITICAL''}" by simp
  from customer_alert_never_again[OF this] show ?thesis by (simp only: key filter.simps)
qed

theorem key_alert_agrees_with_rollup_witness:
  "kt_status (key_today_row (Some (one_cap 5)) (get_all_keys_today_spend (fst (today_window_utc utc a_day)) [ci_row 9]) [] ''ci'') = CRITICAL
   \<and> (\<exists>a \<in> set (check_key_budgets utc (one_cap 5) a_day [ci_row 9] []). kba_key_label a = ''ci'' \<and> kba_severity a = ''CRITICAL'')"
proof -
  have lab: "''ci'' \<in> set (labels_today (fst (today_window_utc utc a_day)) [ci_row 9])"
    by (simp add: labels_today_def today_window_utc_def utc_def a_day_def ci_row_def midnight_def before_eq_def List.map_filter_def
        Let_def toordinal_def days_before_year_def days_before_month_def)
  have cap: "daily_cap_for (one_cap 5) (Some ''ci'') = Some 5" by (simp add: daily_cap_for_def one_cap_def)
  have spend: "get_all_keys_today_spend (fst (today_window_utc utc a_day)) [ci_row 9] ''ci'' = Some 9"
    by (simp add: get_all_keys_today_spend_def get_spend_by_key_label_today_def today_window_utc_def utc_def a_day_def ci_row_def
        midnight_def before_eq_def Let_def toordinal_def days_before_year_def days_before_month_def)
  have "kt_status (key_today_row (Some (one_cap 5)) (get_all_keys_today_spend (fst (today_window_utc utc a_day)) [ci_row 9]) [] ''ci'') = CRITICAL"
    by (simp add: key_today_row_def key_status_def key_pct_def cap spend spend_or_0_def Let_def)
  then show ?thesis using key_alert_agrees_with_rollup[OF lab cap, of "[]" "[]"] by (simp only: simp_thms)
qed

end
