(* ===== verification/Persistence.thy ===== *)
theory Persistence
  imports Ledger "HOL-Library.Multiset"
begin

text \<open>
  \<open>burnlens/storage/wal.py\<close> and the start and stop sequence of \<open>burnlens/proxy/server.py\<close>: the
  write-ahead log of request records, the worker that drains the queue into the \<open>requests\<close> table,
  recovery at start-up, and the repair tools. \<open>insert_request\<close> is an \<open>INSERT OR IGNORE\<close> on a table
  with a unique index on the event identifier.

  A line of a log file is a record, text that is no JSON, or JSON that is no record (on which
  \<open>_dict_to_record\<close> raises). File and database calls that may fail take the outcome as an argument.
\<close>

section \<open>State and operations\<close>

record event_record =
  er_event_id :: string
  er_row :: request_row

datatype wal_line = Wal_record event_record | Wal_corrupt string | Wal_invalid string

record persistence =
  wl_file :: "wal_line list"
  wl_dlq :: "wal_line list"
  wl_table :: "event_record table"
  wl_pending :: "event_record list" \<comment> \<open>appended to the file, the logging task not yet at the queue\<close>
  wl_queue :: "event_record list"
  wl_active :: "event_record option"

definition insert_request :: "event_record \<Rightarrow> event_record table \<Rightarrow> event_record table" where
  "insert_request r t = insert_or_ignore er_event_id r t"

definition append_event :: "event_record \<Rightarrow> persistence \<Rightarrow> persistence" where
  "append_event r s = s\<lparr>wl_file := wl_file s @ [Wal_record r], wl_pending := r # wl_pending s\<rparr>"

definition enqueue :: "event_record \<Rightarrow> persistence \<Rightarrow> persistence" where
  "enqueue r s = s\<lparr>wl_pending := remove1 r (wl_pending s), wl_queue := wl_queue s @ [r]\<rparr>"

definition worker_take :: "persistence \<Rightarrow> persistence" where
  "worker_take s = (case (wl_active s, wl_queue s) of
     (None, r # rs) \<Rightarrow> s\<lparr>wl_active := Some r, wl_queue := rs\<rparr> | _ \<Rightarrow> s)"

definition worker_insert :: "bool \<Rightarrow> persistence \<Rightarrow> persistence" where
  "worker_insert ok s = (case wl_active s of
     Some r \<Rightarrow> if ok then s\<lparr>wl_table := insert_request r (wl_table s), wl_active := None\<rparr> else s
   | None \<Rightarrow> s)"

text \<open>A crash loses what is in memory.\<close>

definition crash :: "persistence \<Rightarrow> persistence" where
  "crash s = s\<lparr>wl_pending := [], wl_queue := [], wl_active := None\<rparr>"

text \<open>\<open>read_events\<close> up to a line on which it raises, and whether it got to the end.\<close>

fun read_events :: "wal_line list \<Rightarrow> event_record list \<times> bool" where
  "read_events [] = ([], True)"
| "read_events (Wal_record r # ls) = (r # fst (read_events ls), snd (read_events ls))"
| "read_events (Wal_corrupt _ # ls) = read_events ls"
| "read_events (Wal_invalid _ # ls) = ([], False)"

text \<open>\<open>fail_at\<close> is the number of records after which an insertion fails, if one does. The file is
  truncated only when every line was read and inserted.\<close>

definition recover_wal :: "nat option \<Rightarrow> persistence \<Rightarrow> persistence" where
  "recover_wal fail_at s =
     (case read_events (wl_file s) of
        (rs, all_read) \<Rightarrow>
          (case fail_at of
             Some n \<Rightarrow> if n < length rs then s\<lparr>wl_table := fold insert_request (take n rs) (wl_table s)\<rparr>
                      else s\<lparr>wl_table := fold insert_request rs (wl_table s), wl_file := if all_read then [] else wl_file s\<rparr>
           | None \<Rightarrow> s\<lparr>wl_table := fold insert_request rs (wl_table s), wl_file := if all_read then [] else wl_file s\<rparr>))"

text \<open>Shutdown: the active record and the rest of the queue are inserted one by one (\<open>bad\<close> are the
  records whose insertion fails); the file is truncated only if all of them were.\<close>

definition held :: "persistence \<Rightarrow> event_record list" where
  "held s = (case wl_active s of None \<Rightarrow> [] | Some r \<Rightarrow> [r]) @ wl_queue s"

definition stop :: "event_record set \<Rightarrow> persistence \<Rightarrow> bool \<times> persistence" where
  "stop bad s =
     (set (held s) \<inter> bad = {},
      s\<lparr>wl_table := fold insert_request (filter (\<lambda>r. r \<notin> bad) (held s)) (wl_table s), wl_queue := [], wl_active := None\<rparr>)"

definition shutdown :: "event_record set \<Rightarrow> persistence \<Rightarrow> persistence" where
  "shutdown bad s = (case stop bad s of (success, s') \<Rightarrow> if success then s'\<lparr>wl_file := []\<rparr> else s')"

fun json_line :: "wal_line \<Rightarrow> bool" where
  "json_line (Wal_corrupt _) = False"
| "json_line _ = True"

definition repair_wal :: "persistence \<Rightarrow> (nat \<times> nat) \<times> persistence" where
  "repair_wal s =
     (let valid = filter json_line (wl_file s); corrupt = filter (\<lambda>l. \<not> json_line l) (wl_file s)
      in ((length valid, length corrupt), s\<lparr>wl_file := valid, wl_dlq := wl_dlq s @ corrupt\<rparr>))"

fun replay_lines :: "event_record set \<Rightarrow> wal_line list \<Rightarrow> event_record table \<Rightarrow> wal_line list \<times> event_record table" where
  "replay_lines bad [] t = ([], t)"
| "replay_lines bad (Wal_record r # ls) t =
     (if r \<in> bad then (case replay_lines bad ls t of (k, t') \<Rightarrow> (Wal_record r # k, t'))
      else replay_lines bad ls (insert_request r t))"
| "replay_lines bad (l # ls) t = (case replay_lines bad ls t of (k, t') \<Rightarrow> (l # k, t'))"

definition replay_dlq :: "event_record set \<Rightarrow> persistence \<Rightarrow> (nat \<times> nat) \<times> persistence" where
  "replay_dlq bad s =
     (case replay_lines bad (wl_dlq s) (wl_table s) of
        (k, t) \<Rightarrow> ((length (wl_dlq s) - length k, length k), s\<lparr>wl_dlq := k, wl_table := t\<rparr>))"

section \<open>Runs\<close>

text \<open>A run of the logging path: the set collects every record whose append completed. In an
  orderly run the recovery at start-up succeeds, and the server is shut down only when no logging task
  is between the file and the queue. After a crash and after a shutdown the server is started again,
  which runs the recovery.\<close>

inductive wal_reach :: "bool \<Rightarrow> event_record set \<Rightarrow> persistence \<Rightarrow> bool" for orderly :: bool where
  init: "wl_file s = [] \<Longrightarrow> wl_pending s = [] \<Longrightarrow> wl_queue s = [] \<Longrightarrow> wl_active s = None \<Longrightarrow> pk er_event_id (wl_table s)
      \<Longrightarrow> wal_reach orderly {} s"
| append: "wal_reach orderly L s \<Longrightarrow> wal_reach orderly (insert r L) (append_event r s)"
| enq: "wal_reach orderly L s \<Longrightarrow> r \<in> set (wl_pending s) \<Longrightarrow> wal_reach orderly L (enqueue r s)"
| take: "wal_reach orderly L s \<Longrightarrow> wal_reach orderly L (worker_take s)"
| ins: "wal_reach orderly L s \<Longrightarrow> wal_reach orderly L (worker_insert ok s)"
| restart: "wal_reach orderly L s \<Longrightarrow> (orderly \<longrightarrow> wl_file (recover_wal fail_at (crash s)) = [])
      \<Longrightarrow> wal_reach orderly L (recover_wal fail_at (crash s))"
| stop: "wal_reach orderly L s
      \<Longrightarrow> (orderly \<longrightarrow> wl_pending s = [] \<and> wl_file (recover_wal fail_at (crash (shutdown bad s))) = [])
      \<Longrightarrow> wal_reach orderly L (recover_wal fail_at (crash (shutdown bad s)))"

section \<open>Lemmas\<close>

definition persisted :: "event_record \<Rightarrow> persistence \<Rightarrow> bool" where
  "persisted r s \<longleftrightarrow> er_event_id r \<in> er_event_id ` set (wl_table s)"

definition in_flight :: "persistence \<Rightarrow> event_record set" where
  "in_flight s = set (wl_pending s) \<union> set (wl_queue s) \<union> set_option (wl_active s)"

lemma ids_insert [simp]: "er_event_id ` set (insert_request r t) = insert (er_event_id r) (er_event_id ` set t)"
  by (auto simp: insert_request_def insert_or_ignore_def)

lemma ids_inserts [simp]:
  "er_event_id ` set (fold insert_request rs t) = er_event_id ` set rs \<union> er_event_id ` set t"
  by (induction rs arbitrary: t) auto

lemma pk_insert_request: "pk er_event_id t \<Longrightarrow> pk er_event_id (insert_request r t)"
  by (simp add: insert_request_def pk_insert_or_ignore)

lemma pk_inserts: "pk er_event_id t \<Longrightarrow> pk er_event_id (fold insert_request rs t)"
  by (induction rs arbitrary: t) (auto intro: pk_insert_request)

lemma read_events_complete: "snd (read_events ls) \<Longrightarrow> set (fst (read_events ls)) = {r. Wal_record r \<in> set ls}"
  by (induction ls rule: read_events.induct) auto

lemma table_recover: "\<exists>rs. wl_table (recover_wal f s) = fold insert_request rs (wl_table s)"
  by (auto simp: recover_wal_def split: prod.splits option.splits)

lemma table_shutdown: "\<exists>rs. wl_table (shutdown bad s) = fold insert_request rs (wl_table s)"
  by (auto simp: shutdown_def stop_def)

lemma set_held: "set (held s) = set_option (wl_active s) \<union> set (wl_queue s)"
  by (auto simp: held_def split: option.splits)

lemma table_crash [simp]: "wl_table (crash s) = wl_table s" and file_crash [simp]: "wl_file (crash s) = wl_file s"
  by (simp_all add: crash_def)

lemma pk_recover: "pk er_event_id (wl_table s) \<Longrightarrow> pk er_event_id (wl_table (recover_wal f s))"
  using table_recover[of f s] pk_inserts by auto

lemma pk_shutdown: "pk er_event_id (wl_table s) \<Longrightarrow> pk er_event_id (wl_table (shutdown bad s))"
  using table_shutdown[of bad s] pk_inserts by auto

lemma pk_reach: "wal_reach orderly L s \<Longrightarrow> pk er_event_id (wl_table s)"
  by (induction rule: wal_reach.induct)
    (auto simp: append_event_def enqueue_def worker_take_def worker_insert_def
      intro: pk_insert_request intro!: pk_recover pk_shutdown split: option.splits list.splits)

text \<open>Every record in the file that is not in the table is still in memory.\<close>

definition covered :: "persistence \<Rightarrow> bool" where
  "covered s \<longleftrightarrow> (\<forall>r. Wal_record r \<in> set (wl_file s) \<longrightarrow> persisted r s \<or> r \<in> in_flight s)"

definition safe_in :: "event_record set \<Rightarrow> persistence \<Rightarrow> bool" where
  "safe_in L s \<longleftrightarrow> (\<forall>r \<in> L. persisted r s \<or> Wal_record r \<in> set (wl_file s))"

lemmas wal_defs = persisted_def in_flight_def covered_def safe_in_def

lemma covered_append: "covered s \<Longrightarrow> covered (append_event r s)"
  by (auto simp: wal_defs append_event_def)

lemma covered_enqueue: "covered s \<Longrightarrow> covered (enqueue r s)"
  by (auto simp: wal_defs enqueue_def dest: in_set_remove1[THEN iffD2, rotated])

lemma covered_take: "covered s \<Longrightarrow> covered (worker_take s)"
  by (auto simp: wal_defs worker_take_def split: option.splits list.splits)

lemma covered_insert: "covered s \<Longrightarrow> covered (worker_insert ok s)"
  by (auto simp: wal_defs worker_insert_def split: option.splits)

lemma persisted_recover: "persisted r s \<Longrightarrow> persisted r (recover_wal f s)"
  using table_recover[of f s] by (auto simp: persisted_def)

lemma recover_all: "wl_file (recover_wal f s) = [] \<Longrightarrow> Wal_record r \<in> set (wl_file s) \<Longrightarrow> persisted r (recover_wal f s)"
  using read_events_complete[of "wl_file s"]
  by (auto simp: recover_wal_def persisted_def split: prod.splits option.splits if_splits)

lemma shutdown_safe:
  assumes "covered s" and "wl_pending s = []" and "persisted r s \<or> Wal_record r \<in> set (wl_file s)"
  shows "persisted r (shutdown bad s) \<or> Wal_record r \<in> set (wl_file (shutdown bad s))"
  using assms set_held[of s] by (auto simp: wal_defs shutdown_def stop_def)

lemma restart_safe:
  assumes "wl_file (recover_wal f (crash s)) = []" and "persisted r s \<or> Wal_record r \<in> set (wl_file s)"
  shows "persisted r (recover_wal f (crash s))"
  using assms recover_all[OF assms(1)] persisted_recover[of r "crash s"] by (auto simp: persisted_def)

lemma orderly_safe: "wal_reach orderly L s \<Longrightarrow> orderly \<Longrightarrow> covered s \<and> safe_in L s"
proof (induction rule: wal_reach.induct)
  case (append L s r)
  then show ?case by (auto simp: covered_append) (auto simp: wal_defs append_event_def)
next
  case (enq L s r)
  then show ?case by (auto simp: covered_enqueue) (auto simp: wal_defs enqueue_def)
next
  case (take L s)
  then show ?case by (auto simp: covered_take) (auto simp: wal_defs worker_take_def split: option.splits list.splits)
next
  case (ins L s ok)
  then show ?case by (auto simp: covered_insert) (auto simp: wal_defs worker_insert_def split: option.splits)
next
  case (restart L s f)
  then show ?case using restart_safe[of f s] by (auto simp: covered_def safe_in_def)
next
  case (stop L s f bad)
  then have "\<forall>r \<in> L. persisted r (shutdown bad s) \<or> Wal_record r \<in> set (wl_file (shutdown bad s))"
    using shutdown_safe[of s] by (auto simp: safe_in_def)
  with stop show ?case using restart_safe[of f "shutdown bad s"] by (auto simp: covered_def safe_in_def)
qed (auto simp: wal_defs)

section \<open>Properties\<close>

text \<open>C5: no cost record is lost or counted twice. In every orderly run of logging tasks, worker steps
  (failed insertions included), crashes and restarts, each record whose append to the log completed is
  in the requests table or still in the log file, and no event is in the table twice.\<close>

theorem records_durable_once:
  assumes "wal_reach True L s" and "r \<in> L"
  shows "(er_event_id r \<in> er_event_id ` set (wl_table s) \<or> Wal_record r \<in> set (wl_file s))
    \<and> distinct (map er_event_id (wl_table s))"
  using orderly_safe[OF assms(1)] pk_reach[OF assms(1)] assms(2) by (auto simp: wal_defs pk_def)

text \<open>Outside orderly runs a record can be lost: when the server is shut down while a logging task
  has appended its record to the log but not yet queued it, the shutdown truncates the log and the record
  is neither in the table nor in the file.\<close>

theorem shutdown_loses_pending:
  assumes "wal_reach False L s" and "r \<notin> set (wl_queue s) \<union> set_option (wl_active s)"
    and "\<forall>x \<in> insert r (set (wl_table s)) \<union> set (wl_queue s) \<union> set_option (wl_active s).
      er_event_id x = er_event_id r \<longrightarrow> x = r" and "r \<notin> set (wl_table s)"
  shows "\<exists>s'. wal_reach False (insert r L) s' \<and> er_event_id r \<notin> er_event_id ` set (wl_table s')
    \<and> Wal_record r \<notin> set (wl_file s')"
proof -
  let ?s = "recover_wal None (crash (shutdown {} (append_event r s)))"
  have "wal_reach False (insert r L) ?s"
    by (rule wal_reach.stop[OF wal_reach.append[OF assms(1)]]) simp
  moreover have "er_event_id r \<notin> er_event_id ` set (wl_table ?s) \<and> Wal_record r \<notin> set (wl_file ?s)"
    using assms(2-4) set_held[of "append_event r s"]
    by (auto simp: recover_wal_def shutdown_def stop_def append_event_def)
  ultimately show ?thesis by blast
qed

text \<open>The repair of a log loses no line: the valid lines stay in the log in order, the corrupt ones are
  appended to the dead-letter file, and afterwards the log is read to the end unless a line is JSON but no
  record.\<close>

theorem repair_keeps_lines:
  assumes "repair_wal s = ((v, c), s')"
  shows "mset (wl_file s') + mset (wl_dlq s') = mset (wl_file s) + mset (wl_dlq s)
    \<and> v = length (wl_file s') \<and> v + c = length (wl_file s)
    \<and> fst (read_events (wl_file s')) = fst (read_events (wl_file s))
    \<and> (\<forall>x. Wal_corrupt x \<notin> set (wl_file s'))"
proof -
  have *: "fst (read_events (filter json_line ls)) = fst (read_events ls)" for ls
    by (induction ls rule: read_events.induct) auto
  have **: "mset (filter json_line ls) + mset (filter (\<lambda>l. \<not> json_line l) ls) = mset ls" for ls
    by (induction ls) auto
  from assms show ?thesis
    using **[of "wl_file s"] sum_length_filter_compl[of json_line "wl_file s"]
    by (auto simp: repair_wal_def Let_def * union_assoc union_commute union_lcomm)
qed

text \<open>A failed recovery is not remembered: when the database refuses the replay at start-up, the server
  starts anyway, and a later clean shutdown truncates the log together with the records that were never
  replayed.\<close>

theorem failed_recovery_forgotten:
  assumes "wal_reach False L s" and "Wal_record r \<in> set (wl_file s)"
    and "er_event_id r \<notin> er_event_id ` set (wl_table s)"
  shows "\<exists>s'. wal_reach False L s' \<and> er_event_id r \<notin> er_event_id ` set (wl_table s')
    \<and> Wal_record r \<notin> set (wl_file s')"
proof -
  let ?s1 = "recover_wal (Some 0) (crash s)" and ?s2 = "\<lambda>s. recover_wal None (crash (shutdown {} s))"
  have "wal_reach False L (?s2 ?s1)"
    by (intro wal_reach.stop wal_reach.restart assms(1)) simp_all
  moreover have "wl_table ?s1 = wl_table s" "held ?s1 = []"
    by (auto simp: recover_wal_def held_def crash_def split: prod.splits)
  then have "er_event_id r \<notin> er_event_id ` set (wl_table (?s2 ?s1)) \<and> Wal_record r \<notin> set (wl_file (?s2 ?s1))"
    using assms(3) by (simp add: recover_wal_def[of None] shutdown_def stop_def)
  ultimately show ?thesis by blast
qed

section \<open>Witnesses\<close>

definition an_event_record :: "string \<Rightarrow> event_record" where
  "an_event_record i = \<lparr>er_event_id = i, er_row = \<lparr>rq_timestamp = \<lparr>year = 2026, month = 1, day = 1, tod = 0\<rparr>,
     rq_provider = ''openai'', rq_model = ''gpt-4o'', rq_cost_usd = 1, rq_status_code = 200, rq_tags = Map.empty,
     rq_org_id = None, rq_team = None, rq_app_id = None, rq_customer_hash = None, rq_key_label = None\<rparr>\<rparr>"

definition empty_persistence :: persistence where
  "empty_persistence = \<lparr>wl_file = [], wl_dlq = [], wl_table = [], wl_pending = [], wl_queue = [], wl_active = None\<rparr>"

lemma reach_empty: "wal_reach q {} empty_persistence"
  by (rule wal_reach.init) (simp_all add: empty_persistence_def)

lemma an_event_record_id [simp]: "er_event_id (an_event_record i) = i"
  by (simp add: an_event_record_def)

theorem records_durable_once_witness:
  "distinct (map er_event_id (wl_table
     (recover_wal None (crash (append_event (an_event_record ''e1'') empty_persistence)))))
   \<and> ''e1'' \<in> er_event_id ` set (wl_table (recover_wal None (crash (append_event (an_event_record ''e1'') empty_persistence))))"
proof -
  let ?s = "recover_wal None (crash (append_event (an_event_record ''e1'') empty_persistence))"
  have f: "wl_file ?s = []" by (simp add: recover_wal_def append_event_def empty_persistence_def)
  have "wal_reach True {an_event_record ''e1''} ?s"
    by (rule wal_reach.restart[OF wal_reach.append[OF reach_empty]]) (simp add: f)
  from records_durable_once[OF this, of "an_event_record ''e1''"] f show ?thesis by simp
qed

theorem shutdown_loses_pending_witness:
  "\<exists>s'. wal_reach False {an_event_record ''e1''} s' \<and> ''e1'' \<notin> er_event_id ` set (wl_table s')
    \<and> Wal_record (an_event_record ''e1'') \<notin> set (wl_file s')"
  using shutdown_loses_pending[OF reach_empty, of "an_event_record ''e1''"] by (simp add: empty_persistence_def)

theorem repair_keeps_lines_witness:
  "\<exists>s'. repair_wal (empty_persistence\<lparr>wl_file := [Wal_corrupt ''x'', Wal_record (an_event_record ''e1'')]\<rparr>) = ((1, 1), s')
    \<and> mset (wl_file s') + mset (wl_dlq s') = {#Wal_corrupt ''x'', Wal_record (an_event_record ''e1'')#}"
proof -
  let ?s = "empty_persistence\<lparr>wl_file := [Wal_corrupt ''x'', Wal_record (an_event_record ''e1'')]\<rparr>"
  obtain s' where s': "repair_wal ?s = ((1, 1), s')" by (auto simp: repair_wal_def Let_def)
  from repair_keeps_lines[OF this] s' show ?thesis by (auto simp: empty_persistence_def)
qed

theorem failed_recovery_forgotten_witness:
  "\<exists>s'. wal_reach False {an_event_record ''e1''} s' \<and> ''e1'' \<notin> er_event_id ` set (wl_table s')
    \<and> Wal_record (an_event_record ''e1'') \<notin> set (wl_file s')"
  using failed_recovery_forgotten[OF wal_reach.append[OF reach_empty], of "an_event_record ''e1''" "an_event_record ''e1''"]
  by (simp add: append_event_def empty_persistence_def)

end
