(* ===== verification/Guardrails.thy ===== *)
theory Guardrails
  imports BL_Prelude
begin

text \<open>
  \<open>burnlens/guardrails\<close>: the runtime guardrails. \<open>models.py\<close> gives the records,
  \<open>detector.py\<close> the failure conditions and their precedence, \<open>storage.py\<close> the four SQLite
  tables and \<open>engine.py\<close> the evaluation of a telemetry event, the operator's resume and the
  status query.

  Message texts are represented by their template and arguments (\<open>g_reason\<close>), metric documents
  by the fields they carry. Fresh identifiers (uuid4) and the clock are arguments.
\<close>

section \<open>Data model\<close>

datatype g_decision_type = ALLOW | PAUSE | STOP | DENY

datatype g_failure_type =
  F_none | Retry_storm | Hard_budget_exceeded | Runaway_task | Repeated_tool_error | Forbidden_action

datatype task_lifecycle = ACTIVE | PAUSED | STOPPED | COMPLETED

datatype fail_safe_mode = FAIL_OPEN | FAIL_CLOSED

record guardrail_policy =
  gp_policy_id :: string
  gp_workspace :: string
  gp_name :: string
  max_retries :: int
  hard_budget_usd :: usd
  max_consecutive_tool_errors :: int
  max_task_requests :: int
  forbidden_actions :: "string list"
  fail_safe :: fail_safe_mode
  gp_version :: int
  gp_is_active :: bool
  gp_created_at :: instant

record telemetry_event =
  event_id :: string
  ev_workspace :: string
  ev_agent :: string
  ev_task :: string
  action_type :: string
  ev_cost :: usd
  is_retry :: bool
  is_tool_error :: bool

datatype g_reason =
    R_text string
  | R_forbidden string
  | R_budget usd usd
  | R_retries int int
  | R_tool_errors int int
  | R_runaway int int
  | R_stopped "g_reason option"
  | R_paused "g_reason option"

datatype g_metrics = M_empty | M_cost usd | M_snapshot usd int int int string

datatype g_threshold = T_empty | T_policy usd int int int "string list"

record guardrail_decision =
  decision_id :: string
  gd_workspace :: string
  gd_agent :: string
  gd_task :: string
  gd_decision :: g_decision_type
  failure_type :: g_failure_type
  gd_reason :: g_reason
  current_metrics :: g_metrics
  threshold :: g_threshold
  evaluated_at :: instant

record task_row =
  tk_task :: string
  tk_workspace :: string
  tk_agent :: string
  tk_state :: task_lifecycle
  total_cost_usd :: usd
  retry_count :: int
  consecutive_tool_errors :: int
  request_count :: int
  paused_reason :: "g_reason option"
  paused_at :: "instant option"
  resumed_at :: "instant option"
  resumed_by :: "string option"
  stopped_reason :: "g_reason option"
  tk_updated_at :: instant

record dedup_row =
  dd_event :: string
  dd_workspace :: string
  dd_task :: string
  dd_ingested_at :: instant

record guardrail_db =
  g_policies :: "guardrail_policy table"
  g_tasks :: "task_row table"
  g_decisions :: "guardrail_decision table"
  g_dedup :: "dedup_row table"

definition default_policy :: "instant \<Rightarrow> string \<Rightarrow> guardrail_policy" where
  "default_policy now ws = \<lparr>gp_policy_id = ''pol-guard-'' @ ws, gp_workspace = ws,
     gp_name = ''Default Workspace Guardrails'', max_retries = 3, hard_budget_usd = 25,
     max_consecutive_tool_errors = 3, max_task_requests = 50,
     forbidden_actions = [''change_iam'', ''drop_database'', ''direct_push_main'', ''auto_merge''],
     fail_safe = FAIL_CLOSED, gp_version = 1, gp_is_active = True, gp_created_at = now\<rparr>"

section \<open>Detector\<close>

definition detect_forbidden_action :: "string \<Rightarrow> string list \<Rightarrow> bool" where
  "detect_forbidden_action act forbidden =
     list_ex (\<lambda>f. lower (strip act) = lower (strip f)) forbidden"

definition detect_hard_budget_exceeded :: "usd \<Rightarrow> usd \<Rightarrow> bool" where
  "detect_hard_budget_exceeded cost budget = (cost > budget)"

definition detect_retry_storm :: "int \<Rightarrow> int \<Rightarrow> bool" where
  "detect_retry_storm retries max_r = (retries \<ge> max_r)"

definition detect_repeated_tool_errors :: "int \<Rightarrow> int \<Rightarrow> bool" where
  "detect_repeated_tool_errors errs max_e = (errs \<ge> max_e)"

definition detect_runaway_task :: "int \<Rightarrow> int \<Rightarrow> bool" where
  "detect_runaway_task n max_n = (n \<ge> max_n)"

definition mk_decision ::
    "string \<Rightarrow> instant \<Rightarrow> telemetry_event \<Rightarrow> g_decision_type \<Rightarrow> g_failure_type \<Rightarrow> g_reason \<Rightarrow> g_metrics
       \<Rightarrow> g_threshold \<Rightarrow> guardrail_decision" where
  "mk_decision did now ev d f why m th = \<lparr>decision_id = did, gd_workspace = ev_workspace ev,
     gd_agent = ev_agent ev, gd_task = ev_task ev, gd_decision = d, failure_type = f, gd_reason = why,
     current_metrics = m, threshold = th, evaluated_at = now\<rparr>"

definition evaluate ::
    "string \<Rightarrow> instant \<Rightarrow> telemetry_event \<Rightarrow> task_row \<Rightarrow> guardrail_policy \<Rightarrow> guardrail_decision" where
  "evaluate did now ev tk pol =
     (let curr_cost = total_cost_usd tk + ev_cost ev;
          retries = retry_count tk + (if is_retry ev then 1 else 0);
          tool_errs = consecutive_tool_errors tk + (if is_tool_error ev then 1 else 0);
          req_count = request_count tk + 1;
          m = M_snapshot (py_round curr_cost 4) retries tool_errs req_count (action_type ev);
          th = T_policy (hard_budget_usd pol) (max_retries pol) (max_consecutive_tool_errors pol)
                 (max_task_requests pol) (forbidden_actions pol)
      in if detect_forbidden_action (action_type ev) (forbidden_actions pol)
           then mk_decision did now ev DENY Forbidden_action (R_forbidden (action_type ev)) m th
         else if detect_hard_budget_exceeded curr_cost (hard_budget_usd pol)
           then mk_decision did now ev STOP Hard_budget_exceeded (R_budget (hard_budget_usd pol) curr_cost) m th
         else if detect_retry_storm retries (max_retries pol)
           then mk_decision did now ev PAUSE Retry_storm (R_retries retries (max_retries pol)) m th
         else if detect_repeated_tool_errors tool_errs (max_consecutive_tool_errors pol)
           then mk_decision did now ev PAUSE Repeated_tool_error
             (R_tool_errors tool_errs (max_consecutive_tool_errors pol)) m th
         else if detect_runaway_task req_count (max_task_requests pol)
           then mk_decision did now ev PAUSE Runaway_task (R_runaway req_count (max_task_requests pol)) m th
         else mk_decision did now ev ALLOW F_none
           (R_text ''Telemetry within normal operational and economic boundaries.'') m th)"

section \<open>Storage\<close>

definition save_policy :: "guardrail_policy \<Rightarrow> guardrail_db \<Rightarrow> guardrail_db" where
  "save_policy p db = db\<lparr>g_policies := insert_or_replace gp_policy_id p (g_policies db)\<rparr>"

definition get_policy :: "string \<Rightarrow> guardrail_db \<Rightarrow> guardrail_policy option" where
  "get_policy ws db =
     (case sort_key (\<lambda>p. - gp_version p)
             (filter (\<lambda>p. gp_workspace p = ws \<and> gp_is_active p) (g_policies db)) of
        [] \<Rightarrow> None | p # _ \<Rightarrow> Some p)"

definition is_event_duplicate :: "string \<Rightarrow> guardrail_db \<Rightarrow> bool" where
  "is_event_duplicate eid db \<longleftrightarrow> eid \<in> dd_event ` set (g_dedup db)"

definition record_event_ingestion :: "instant \<Rightarrow> string \<Rightarrow> string \<Rightarrow> string \<Rightarrow> guardrail_db \<Rightarrow> guardrail_db" where
  "record_event_ingestion now eid ws task db = db\<lparr>g_dedup := insert_or_ignore dd_event
     \<lparr>dd_event = eid, dd_workspace = ws, dd_task = task, dd_ingested_at = now\<rparr> (g_dedup db)\<rparr>"

definition fresh_task :: "instant \<Rightarrow> string \<Rightarrow> string \<Rightarrow> string \<Rightarrow> task_row" where
  "fresh_task now task ws agent = \<lparr>tk_task = task, tk_workspace = ws, tk_agent = agent, tk_state = ACTIVE,
     total_cost_usd = 0, retry_count = 0, consecutive_tool_errors = 0, request_count = 0,
     paused_reason = None, paused_at = None, resumed_at = None, resumed_by = None,
     stopped_reason = None, tk_updated_at = now\<rparr>"

definition find_task :: "string \<Rightarrow> string \<Rightarrow> task_row table \<Rightarrow> task_row option" where
  "find_task task ws ts = find (\<lambda>r. tk_task r = task \<and> tk_workspace r = ws) ts"

definition get_or_create_task_state ::
    "instant \<Rightarrow> string \<Rightarrow> string \<Rightarrow> string \<Rightarrow> guardrail_db \<Rightarrow> task_row \<times> guardrail_db" where
  "get_or_create_task_state now task ws agent db =
     (case find_task task ws (g_tasks db) of
        Some r \<Rightarrow> (r, db)
      | None \<Rightarrow> (fresh_task now task ws agent,
          db\<lparr>g_tasks := insert_or_ignore tk_task (fresh_task now task ws agent) (g_tasks db)\<rparr>))"

definition on_task :: "string \<Rightarrow> string \<Rightarrow> (task_row \<Rightarrow> task_row) \<Rightarrow> guardrail_db \<Rightarrow> guardrail_db" where
  "on_task task ws f db =
     db\<lparr>g_tasks := update_where (\<lambda>r. tk_task r = task \<and> tk_workspace r = ws) f (g_tasks db)\<rparr>"

definition bump_metrics :: "instant \<Rightarrow> usd \<Rightarrow> bool \<Rightarrow> bool \<Rightarrow> bool \<Rightarrow> task_row \<Rightarrow> task_row" where
  "bump_metrics now cost retry tool_error reset r =
     r\<lparr>total_cost_usd := total_cost_usd r + cost,
       retry_count := retry_count r + (if retry then 1 else 0),
       consecutive_tool_errors :=
         (if reset then 0 else if tool_error then consecutive_tool_errors r + 1 else consecutive_tool_errors r),
       request_count := request_count r + 1, tk_updated_at := now\<rparr>"

definition update_task_metrics ::
    "instant \<Rightarrow> string \<Rightarrow> string \<Rightarrow> usd \<Rightarrow> bool \<Rightarrow> bool \<Rightarrow> bool \<Rightarrow> guardrail_db \<Rightarrow> task_row \<times> guardrail_db" where
  "update_task_metrics now task ws cost retry tool_error reset db =
     get_or_create_task_state now task ws []
       (on_task task ws (bump_metrics now cost retry tool_error reset) db)"

definition state_change :: "instant \<Rightarrow> task_lifecycle \<Rightarrow> g_reason option \<Rightarrow> string option \<Rightarrow> task_row \<Rightarrow> task_row" where
  "state_change now st why operator r =
     (case st of
        PAUSED \<Rightarrow> r\<lparr>tk_state := PAUSED, paused_reason := why, paused_at := Some now, tk_updated_at := now\<rparr>
      | STOPPED \<Rightarrow> r\<lparr>tk_state := STOPPED, stopped_reason := why, tk_updated_at := now\<rparr>
      | ACTIVE \<Rightarrow> r\<lparr>tk_state := ACTIVE, resumed_at := Some now,
          resumed_by := (if truthy operator then operator else Some ''human_operator''),
          consecutive_tool_errors := 0, retry_count := 0, tk_updated_at := now\<rparr>
      | COMPLETED \<Rightarrow> r)"

definition set_task_state ::
    "instant \<Rightarrow> string \<Rightarrow> string \<Rightarrow> task_lifecycle \<Rightarrow> g_reason option \<Rightarrow> string option \<Rightarrow> guardrail_db \<Rightarrow> guardrail_db" where
  "set_task_state now task ws st why operator = on_task task ws (state_change now st why operator)"

definition record_decision :: "guardrail_decision \<Rightarrow> guardrail_db \<Rightarrow> guardrail_db" where
  "record_decision d db = db\<lparr>g_decisions := insert_or_replace decision_id d (g_decisions db)\<rparr>"

definition get_decisions :: "string \<Rightarrow> string \<Rightarrow> guardrail_db \<Rightarrow> guardrail_decision list" where
  "get_decisions task ws db =
     sort_key evaluated_at (filter (\<lambda>d. gd_task d = task \<and> gd_workspace d = ws) (g_decisions db))"

section \<open>Engine\<close>

definition get_or_create_default_policy :: "instant \<Rightarrow> string \<Rightarrow> guardrail_db \<Rightarrow> guardrail_policy \<times> guardrail_db" where
  "get_or_create_default_policy now ws db =
     (case get_policy ws db of
        Some p \<Rightarrow> (p, db)
      | None \<Rightarrow> (default_policy now ws, save_policy (default_policy now ws) db))"

definition resets_tool_errors :: "telemetry_event \<Rightarrow> bool" where
  "resets_tool_errors ev \<longleftrightarrow> \<not> is_tool_error ev
     \<and> (startswith (action_type ev) ''tool_'' \<or> contains (action_type ev) ''tool'')"

definition apply_decision ::
    "instant \<Rightarrow> telemetry_event \<Rightarrow> guardrail_decision \<Rightarrow> guardrail_db \<Rightarrow> guardrail_db" where
  "apply_decision now ev d db =
     (let db1 = (case gd_decision d of
            PAUSE \<Rightarrow> set_task_state now (ev_task ev) (ev_workspace ev) PAUSED (Some (gd_reason d)) None db
          | STOP \<Rightarrow> set_task_state now (ev_task ev) (ev_workspace ev) STOPPED (Some (gd_reason d)) None db
          | _ \<Rightarrow> db)
      in snd (update_task_metrics now (ev_task ev) (ev_workspace ev) (ev_cost ev) (is_retry ev)
           (is_tool_error ev) (resets_tool_errors ev) db1))"

definition evaluate_runtime_event ::
    "string \<Rightarrow> instant \<Rightarrow> telemetry_event \<Rightarrow> bool \<Rightarrow> guardrail_db \<Rightarrow> guardrail_decision \<times> guardrail_db" where
  "evaluate_runtime_event uid now ev simulate_failure db =
     (if is_event_duplicate (event_id ev) db
      then (mk_decision (''dec-dup-'' @ event_id ev) now ev ALLOW F_none
              (R_text ''Duplicate telemetry event deduplicated idempotently.'') M_empty T_empty, db)
      else if simulate_failure
      then (let (policy, db1) = get_or_create_default_policy now (ev_workspace ev) db
            in if fail_safe policy = FAIL_CLOSED
               then (mk_decision (''dec-failclosed-'' @ uid) now ev DENY Forbidden_action
                       (R_text ''FAIL_CLOSED: Control plane unavailable; high-risk actions denied safely.'')
                       M_empty T_empty, db1)
               else (mk_decision (''dec-failopen-'' @ uid) now ev ALLOW F_none
                       (R_text ''FAIL_OPEN: Control plane unavailable; read-only operations permitted.'')
                       M_empty T_empty, db1))
      else
        (let db1 = record_event_ingestion now (event_id ev) (ev_workspace ev) (ev_task ev) db;
             (tk, db2) = get_or_create_task_state now (ev_task ev) (ev_workspace ev) (ev_agent ev) db1;
             did = ''dec-'' @ uid
         in if tk_state tk = STOPPED
            then (let d = mk_decision did now ev STOP Hard_budget_exceeded (R_stopped (stopped_reason tk))
                        (M_cost (total_cost_usd tk)) T_empty
                  in (d, record_decision d db2))
            else if tk_state tk = PAUSED
            then (let d = mk_decision did now ev PAUSE Runaway_task (R_paused (paused_reason tk))
                        (M_cost (total_cost_usd tk)) T_empty
                  in (d, record_decision d db2))
            else
              (let (policy, db3) = get_or_create_default_policy now (ev_workspace ev) db2;
                   d = evaluate did now ev tk policy
               in (d, record_decision d (apply_decision now ev d db3)))))"

datatype resume_error = Not_paused task_lifecycle

definition resume_task ::
    "instant \<Rightarrow> string \<Rightarrow> string \<Rightarrow> string \<Rightarrow> g_reason \<Rightarrow> guardrail_db \<Rightarrow> (resume_error + task_row) \<times> guardrail_db" where
  "resume_task now task ws operator why db =
     (let (tk, db1) = get_or_create_task_state now task ws [] db
      in if tk_state tk \<noteq> PAUSED then (Inl (Not_paused (tk_state tk)), db1)
         else (let db2 = set_task_state now task ws ACTIVE (Some why) (Some operator) db1;
                   (tk', db3) = get_or_create_task_state now task ws [] db2
               in (Inr tk', db3)))"

definition get_task_status ::
    "instant \<Rightarrow> string \<Rightarrow> string \<Rightarrow> guardrail_db \<Rightarrow> (task_row \<times> guardrail_decision list) \<times> guardrail_db" where
  "get_task_status now task ws db =
     (let (tk, db1) = get_or_create_task_state now task ws [] db
      in ((tk, get_decisions task ws db1), db1))"

section \<open>The detector\<close>

text \<open>The five failure conditions of an event on a task, in the order of precedence.\<close>

definition over_limits :: "telemetry_event \<Rightarrow> task_row \<Rightarrow> guardrail_policy \<Rightarrow> bool list" where
  "over_limits ev tk pol =
     [detect_forbidden_action (action_type ev) (forbidden_actions pol),
      total_cost_usd tk + ev_cost ev > hard_budget_usd pol,
      retry_count tk + (if is_retry ev then 1 else 0) \<ge> max_retries pol,
      consecutive_tool_errors tk + (if is_tool_error ev then 1 else 0) \<ge> max_consecutive_tool_errors pol,
      request_count tk + 1 \<ge> max_task_requests pol]"

text \<open>The detector follows the documented precedence: a forbidden action is denied, otherwise an exceeded
  budget stops, otherwise a retry storm, a tool error loop or a runaway loop pauses, and an event is
  allowed exactly when no condition holds.\<close>

theorem evaluate_precedence:
  "(gd_decision (evaluate did now ev tk pol), failure_type (evaluate did now ev tk pol)) =
     (case find (\<lambda>c. fst c) (zip (over_limits ev tk pol)
             [(DENY, Forbidden_action), (STOP, Hard_budget_exceeded), (PAUSE, Retry_storm),
              (PAUSE, Repeated_tool_error), (PAUSE, Runaway_task)]) of
        None \<Rightarrow> (ALLOW, F_none) | Some c \<Rightarrow> snd c)"
  by (simp add: evaluate_def over_limits_def mk_decision_def Let_def detect_hard_budget_exceeded_def
      detect_retry_storm_def detect_repeated_tool_errors_def detect_runaway_task_def)

lemma evaluate_allow_iff:
  "gd_decision (evaluate did now ev tk pol) = ALLOW \<longleftrightarrow> True \<notin> set (over_limits ev tk pol)"
  by (simp add: evaluate_def over_limits_def mk_decision_def Let_def detect_hard_budget_exceeded_def
      detect_retry_storm_def detect_repeated_tool_errors_def detect_runaway_task_def)

section \<open>Effects on the task table\<close>

definition create_tasks :: "instant \<Rightarrow> string \<Rightarrow> string \<Rightarrow> string \<Rightarrow> task_row table \<Rightarrow> task_row table" where
  "create_tasks now task ws agent ts = (case find_task task ws ts of Some _ \<Rightarrow> ts
     | None \<Rightarrow> insert_or_ignore tk_task (fresh_task now task ws agent) ts)"

definition task_view :: "instant \<Rightarrow> string \<Rightarrow> string \<Rightarrow> string \<Rightarrow> task_row table \<Rightarrow> task_row" where
  "task_view now task ws agent ts = (case find_task task ws ts of Some r \<Rightarrow> r
     | None \<Rightarrow> fresh_task now task ws agent)"

definition react :: "instant \<Rightarrow> telemetry_event \<Rightarrow> guardrail_decision \<Rightarrow> task_row \<Rightarrow> task_row" where
  "react now ev d r = bump_metrics now (ev_cost ev) (is_retry ev) (is_tool_error ev) (resets_tool_errors ev)
     (case gd_decision d of
        PAUSE \<Rightarrow> state_change now PAUSED (Some (gd_reason d)) None r
      | STOP \<Rightarrow> state_change now STOPPED (Some (gd_reason d)) None r
      | _ \<Rightarrow> r)"

lemma fresh_task_simps [simp]:
  "tk_task (fresh_task now t w a) = t" "tk_workspace (fresh_task now t w a) = w"
  "tk_state (fresh_task now t w a) = ACTIVE" "total_cost_usd (fresh_task now t w a) = 0"
  "retry_count (fresh_task now t w a) = 0" "consecutive_tool_errors (fresh_task now t w a) = 0"
  "request_count (fresh_task now t w a) = 0"
  by (simp_all add: fresh_task_def)

lemma bump_metrics_keys [simp]:
  "tk_task (bump_metrics now c a b z r) = tk_task r" "tk_workspace (bump_metrics now c a b z r) = tk_workspace r"
  "tk_state (bump_metrics now c a b z r) = tk_state r"
  by (simp_all add: bump_metrics_def)

lemma state_change_keys [simp]:
  "tk_task (state_change now st why op r) = tk_task r" "tk_workspace (state_change now st why op r) = tk_workspace r"
  by (simp_all add: state_change_def split: task_lifecycle.split)

lemma react_keys [simp]: "tk_task (react now ev d r) = tk_task r" "tk_workspace (react now ev d r) = tk_workspace r"
  by (simp_all add: react_def split: g_decision_type.split)

lemma tasks_frame [simp]:
  "g_tasks (record_decision d db) = g_tasks db" "g_tasks (save_policy p db) = g_tasks db"
  "g_tasks (record_event_ingestion now e w t db) = g_tasks db"
  "g_tasks (snd (get_or_create_default_policy now w db)) = g_tasks db"
  by (simp_all add: record_decision_def save_policy_def record_event_ingestion_def
      get_or_create_default_policy_def split: option.split)

lemma get_or_create_eq:
  "get_or_create_task_state now t w a db =
     (task_view now t w a (g_tasks db), db\<lparr>g_tasks := create_tasks now t w a (g_tasks db)\<rparr>)"
  by (simp add: get_or_create_task_state_def task_view_def create_tasks_def split: option.split)

lemma create_known: "t \<in> tk_task ` set ts \<Longrightarrow> create_tasks now t w a ts = ts"
  by (auto simp: create_tasks_def insert_or_ignore_def split: option.split)

lemma create_member: "t \<in> tk_task ` set (create_tasks now t w a ts)"
proof (cases "find_task t w ts")
  case None
  then show ?thesis by (auto simp: create_tasks_def insert_or_ignore_def)
next
  case (Some r)
  then have "r \<in> set ts" "tk_task r = t" unfolding find_task_def by (auto dest: find_Some_setD)
  with Some show ?thesis by (auto simp: create_tasks_def)
qed

lemma keys_update:
  "(\<And>r. tk_task (f r) = tk_task r) \<Longrightarrow> tk_task ` set (update_where p f ts) = tk_task ` set ts"
  using map_key_update_where[of p tk_task f ts] by (metis list.set_map)

lemma update_update:
  "(\<And>r. tk_task (f r) = tk_task r \<and> tk_workspace (f r) = tk_workspace r) \<Longrightarrow>
   update_where (\<lambda>r. tk_task r = t \<and> tk_workspace r = w) g
     (update_where (\<lambda>r. tk_task r = t \<and> tk_workspace r = w) f ts) =
   update_where (\<lambda>r. tk_task r = t \<and> tk_workspace r = w) (\<lambda>r. g (f r)) ts"
  by (simp add: update_where_def)

lemma update_id: "update_where p (\<lambda>r. r) ts = ts"
  by (simp add: update_where_def cong: if_cong)

lemma tasks_apply_decision:
  assumes "ev_task ev \<in> tk_task ` set (g_tasks db)"
  shows "g_tasks (apply_decision now ev d db) =
     update_where (\<lambda>r. tk_task r = ev_task ev \<and> tk_workspace r = ev_workspace ev) (react now ev d) (g_tasks db)"
  using assms
  by (cases "gd_decision d";
      simp add: apply_decision_def Let_def update_task_metrics_def get_or_create_eq on_task_def
        set_task_state_def create_known keys_update update_update;
      simp add: react_def update_where_def)

text \<open>What one telemetry event does to the task table.\<close>

definition quiet :: "telemetry_event \<Rightarrow> bool \<Rightarrow> guardrail_db \<Rightarrow> bool" where
  "quiet ev sim db \<longleftrightarrow> is_event_duplicate (event_id ev) db \<or> sim"

abbreviation event_view :: "instant \<Rightarrow> telemetry_event \<Rightarrow> guardrail_db \<Rightarrow> task_row" where
  "event_view now ev db \<equiv> task_view now (ev_task ev) (ev_workspace ev) (ev_agent ev) (g_tasks db)"

abbreviation event_policy :: "instant \<Rightarrow> telemetry_event \<Rightarrow> guardrail_db \<Rightarrow> guardrail_policy" where
  "event_policy now ev db \<equiv> fst (get_or_create_default_policy now (ev_workspace ev) db)"

lemma policy_frame:
  "fst (get_or_create_default_policy now w (db\<lparr>g_tasks := ts\<rparr>)) = fst (get_or_create_default_policy now w db)"
  "fst (get_or_create_default_policy now w (record_event_ingestion now2 e w2 t db)) =
     fst (get_or_create_default_policy now w db)"
  by (simp_all add: get_or_create_default_policy_def get_policy_def record_event_ingestion_def
      split: option.split list.split)

lemma decision_evaluate:
  "\<not> quiet ev sim db \<Longrightarrow> fst (evaluate_runtime_event uid now ev sim db) =
     (let tk = event_view now ev db
      in if tk_state tk = STOPPED
         then mk_decision (''dec-'' @ uid) now ev STOP Hard_budget_exceeded (R_stopped (stopped_reason tk))
                (M_cost (total_cost_usd tk)) T_empty
         else if tk_state tk = PAUSED
         then mk_decision (''dec-'' @ uid) now ev PAUSE Runaway_task (R_paused (paused_reason tk))
                (M_cost (total_cost_usd tk)) T_empty
         else evaluate (''dec-'' @ uid) now ev tk (event_policy now ev db))"
  by (simp add: quiet_def evaluate_runtime_event_def get_or_create_eq Let_def split_beta policy_frame)

lemma tasks_evaluate_quiet:
  "quiet ev sim db \<Longrightarrow> g_tasks (snd (evaluate_runtime_event uid now ev sim db)) = g_tasks db"
  by (auto simp: quiet_def evaluate_runtime_event_def Let_def split_beta)

lemma tasks_evaluate:
  assumes "\<not> quiet ev sim db"
  shows "g_tasks (snd (evaluate_runtime_event uid now ev sim db)) =
     (let tk = event_view now ev db;
          ts = create_tasks now (ev_task ev) (ev_workspace ev) (ev_agent ev) (g_tasks db)
      in if tk_state tk \<in> {STOPPED, PAUSED} then ts
         else update_where (\<lambda>r. tk_task r = ev_task ev \<and> tk_workspace r = ev_workspace ev)
                (react now ev (evaluate (''dec-'' @ uid) now ev tk (event_policy now ev db))) ts)"
proof -
  let ?db = "record_event_ingestion now (event_id ev) (ev_workspace ev) (ev_task ev) db"
  let ?ts = "create_tasks now (ev_task ev) (ev_workspace ev) (ev_agent ev) (g_tasks db)"
  let ?db3 = "snd (get_or_create_default_policy now (ev_workspace ev) (?db\<lparr>g_tasks := ?ts\<rparr>))"
  have "g_tasks (apply_decision now ev d ?db3) =
      update_where (\<lambda>r. tk_task r = ev_task ev \<and> tk_workspace r = ev_workspace ev) (react now ev d) ?ts" for d
    using tasks_apply_decision[of ev ?db3 now d] create_member by simp
  with assms show ?thesis
    by (simp add: quiet_def evaluate_runtime_event_def get_or_create_eq Let_def split_beta policy_frame)
qed

lemma find_task_create:
  "find_task t w (create_tasks now t' w' a ts) =
     (if find_task t w ts = None \<and> t = t' \<and> w = w' \<and> t \<notin> tk_task ` set ts
      then Some (fresh_task now t w a) else find_task t w ts)"
  by (auto simp: create_tasks_def insert_or_ignore_def find_task_def find_append split: option.split)

lemma find_task_update:
  "(\<And>r. tk_task (f r) = tk_task r \<and> tk_workspace (f r) = tk_workspace r) \<Longrightarrow>
   find_task t w (update_where (\<lambda>r. tk_task r = t' \<and> tk_workspace r = w') f ts) =
     map_option (\<lambda>r. if t = t' \<and> w = w' then f r else r) (find_task t w ts)"
  by (induction ts) (auto simp: find_task_def update_where_def)

lemma task_view_create: "task_view now t w a (create_tasks now t w a ts) = task_view now t w a ts"
  by (auto simp: task_view_def find_task_create split: option.split)

section \<open>Lifecycle\<close>

datatype guard_event =
    Telemetry string instant telemetry_event bool
  | Resume instant string string string g_reason
  | Status instant string string

fun guard_step :: "guard_event \<Rightarrow> guardrail_db \<Rightarrow> guardrail_db" where
  "guard_step (Telemetry uid now ev sim) db = snd (evaluate_runtime_event uid now ev sim db)"
| "guard_step (Resume now t w operator why) db = snd (resume_task now t w operator why db)"
| "guard_step (Status now t w) db = snd (get_task_status now t w db)"

definition in_state :: "string \<Rightarrow> string \<Rightarrow> task_lifecycle \<Rightarrow> guardrail_db \<Rightarrow> bool" where
  "in_state t w st db \<longleftrightarrow> (\<exists>r. find_task t w (g_tasks db) = Some r \<and> tk_state r = st)"

lemma tasks_resume:
  "g_tasks (snd (resume_task now t w operator why db)) =
     (let ts = create_tasks now t w [] (g_tasks db)
      in if tk_state (task_view now t w [] (g_tasks db)) \<noteq> PAUSED then ts
         else update_where (\<lambda>r. tk_task r = t \<and> tk_workspace r = w)
                (state_change now ACTIVE (Some why) (Some operator)) ts)"
  by (simp add: resume_task_def get_or_create_eq Let_def set_task_state_def on_task_def split_beta
      create_known keys_update create_member)

lemma in_state_evaluate:
  assumes "in_state t w st db" and "st \<in> {STOPPED, PAUSED}"
  shows "in_state t w st (snd (evaluate_runtime_event uid now ev sim db))"
proof (cases "quiet ev sim db")
  case True
  with assms show ?thesis by (simp add: in_state_def tasks_evaluate_quiet)
next
  case False
  from assms(1) obtain r where r: "find_task t w (g_tasks db) = Some r" "tk_state r = st"
    by (auto simp: in_state_def)
  show ?thesis
  proof (cases "ev_task ev = t \<and> ev_workspace ev = w")
    case True
    with r have "event_view now ev db = r" by (simp add: task_view_def)
    with r assms(2) True show ?thesis
      by (simp add: in_state_def tasks_evaluate[OF False] find_task_create Let_def)
  next
    case other: False
    then show ?thesis using r
      by (auto simp: in_state_def tasks_evaluate[OF False] find_task_create find_task_update Let_def)
  qed
qed

lemma stopped_resume: "in_state t w STOPPED db \<Longrightarrow> in_state t w STOPPED (snd (resume_task now t' w' op why db))"
  by (cases "t = t' \<and> w = w'")
    (auto simp: in_state_def tasks_resume find_task_create find_task_update task_view_def Let_def)

lemma stopped_status: "in_state t w st db \<Longrightarrow> in_state t w st (snd (get_task_status now t' w' db))"
  by (auto simp: in_state_def get_task_status_def get_or_create_eq Let_def find_task_create)

interpretation stopped_task: absorbing_system guard_step "\<lambda>_. True" "\<lambda>_. True" "in_state t w STOPPED"
  for t w
proof unfold_locales
  fix db e assume "in_state t w STOPPED db"
  then show "in_state t w STOPPED (guard_step e db)"
    by (cases e) (simp_all add: in_state_evaluate stopped_resume stopped_status)
qed simp

definition no_resume_of :: "string \<Rightarrow> string \<Rightarrow> guard_event \<Rightarrow> bool" where
  "no_resume_of t w e = (case e of Resume _ t' w' _ _ \<Rightarrow> (t', w') \<noteq> (t, w) | _ \<Rightarrow> True)"

lemma resume_other:
  "(t', w') \<noteq> (t, w) \<Longrightarrow> in_state t w st db \<Longrightarrow> in_state t w st (snd (resume_task now t' w' op why db))"
  by (auto simp: in_state_def tasks_resume find_task_create find_task_update Let_def)

interpretation paused_task: absorbing_system guard_step "no_resume_of t w" "\<lambda>_. True" "in_state t w PAUSED"
  for t w
proof unfold_locales
  fix db e assume "in_state t w PAUSED db" and "no_resume_of t w e"
  then show "in_state t w PAUSED (guard_step e db)"
    by (cases e) (simp_all add: in_state_evaluate stopped_status no_resume_of_def resume_other)
qed simp

text \<open>C8: STOPPED is terminal. Once a task is stopped, no sequence of telemetry, operator resumes and status
  queries leads it out of STOPPED, and every telemetry event of the task that is not a duplicate is
  answered with STOP.\<close>

theorem stopped_is_terminal:
  assumes "in_state t w STOPPED db" and "db' = run_steps guard_step es db"
  shows "in_state t w STOPPED db'
    \<and> (\<forall>uid now ev. ev_task ev = t \<and> ev_workspace ev = w \<and> \<not> is_event_duplicate (event_id ev) db' \<longrightarrow>
         gd_decision (fst (evaluate_runtime_event uid now ev False db')) = STOP)"
proof -
  from stopped_task.run_absorbed[OF _ assms(1), of es] have st: "in_state t w STOPPED db'"
    using assms(2) by simp
  then show ?thesis
    by (auto simp: in_state_def decision_evaluate quiet_def task_view_def mk_decision_def Let_def)
qed

text \<open>A paused task stays paused until an operator resumes that very task: telemetry, whatever it claims,
  and actions on other tasks do not release it.\<close>

theorem paused_until_resumed:
  assumes "in_state t w PAUSED db" and "\<forall>e \<in> set es. no_resume_of t w e"
  shows "in_state t w PAUSED (run_steps guard_step es db)"
  using paused_task.run_absorbed[OF _ assms] by simp

text \<open>An event that is allowed (and is not a duplicate or answered by the fail-safe) keeps its task within
  the workspace policy: the stored spend is at most the hard budget, retries and request count are below
  their thresholds, and the action is not forbidden.\<close>

theorem allowed_within_policy:
  assumes "\<not> quiet ev sim db" and "gd_decision (fst (evaluate_runtime_event uid now ev sim db)) = ALLOW"
    and "find_task (ev_task ev) (ev_workspace ev) (g_tasks (snd (evaluate_runtime_event uid now ev sim db))) = Some r"
    and "pol = event_policy now ev db"
  shows "total_cost_usd r \<le> hard_budget_usd pol \<and> retry_count r < max_retries pol
    \<and> request_count r < max_task_requests pol
    \<and> \<not> detect_forbidden_action (action_type ev) (forbidden_actions pol)
    \<and> tk_state r \<noteq> STOPPED \<and> tk_state r \<noteq> PAUSED"
proof -
  let ?tk = "event_view now ev db" and ?d = "evaluate (''dec-'' @ uid) now ev (event_view now ev db) pol"
  have st: "tk_state ?tk \<noteq> STOPPED" "tk_state ?tk \<noteq> PAUSED" and al: "gd_decision ?d = ALLOW"
    using assms(2) decision_evaluate[OF assms(1), of uid now] assms(4)
    by (auto simp: Let_def mk_decision_def split: if_splits)
  have "r = react now ev ?d ?tk"
    using assms(3,4) st
    by (auto simp: tasks_evaluate[OF assms(1)] find_task_update find_task_create Let_def task_view_def
        split: if_splits option.splits)
  with st al evaluate_allow_iff[of "''dec-'' @ uid" now ev ?tk pol] show ?thesis
    by (auto simp: react_def bump_metrics_def over_limits_def not_less not_le)
qed

text \<open>Telemetry of one task never touches another: every row of a different task or workspace is the same
  afterwards.\<close>

theorem task_isolation:
  assumes "(t, w) \<noteq> (ev_task ev, ev_workspace ev)"
  shows "find_task t w (g_tasks (snd (evaluate_runtime_event uid now ev sim db))) = find_task t w (g_tasks db)"
proof (cases "quiet ev sim db")
  case False
  with assms show ?thesis
    by (auto simp: tasks_evaluate find_task_update find_task_create Let_def option.map_ident)
qed (simp add: tasks_evaluate_quiet)

lemma dedup_kept:
  "\<not> quiet ev sim db \<Longrightarrow> is_event_duplicate (event_id ev) (snd (evaluate_runtime_event uid now ev sim db))"
  by (simp add: quiet_def evaluate_runtime_event_def is_event_duplicate_def Let_def split_beta get_or_create_eq
      record_decision_def record_event_ingestion_def apply_decision_def update_task_metrics_def on_task_def
      set_task_state_def get_or_create_default_policy_def save_policy_def insert_or_ignore_def
      split: option.split g_decision_type.split)

text \<open>Telemetry is deduplicated: replaying an event that has been evaluated changes nothing at all, however
  often and whenever it is replayed.\<close>

theorem replay_is_idempotent:
  assumes "\<not> quiet ev sim db" and "db1 = snd (evaluate_runtime_event uid now ev sim db)"
  shows "snd (evaluate_runtime_event uid2 now2 ev sim2 db1) = db1"
  using dedup_kept[OF assms(1), of uid now] assms(2) by (simp add: evaluate_runtime_event_def)

text \<open>The answer to a duplicate is always ALLOW: a replayed event identifier is allowed even on a stopped
  task and for a forbidden action.\<close>

theorem duplicate_always_allowed:
  assumes "is_event_duplicate (event_id ev) db"
  shows "gd_decision (fst (evaluate_runtime_event uid now ev sim db)) = ALLOW"
  using assms by (simp add: evaluate_runtime_event_def mk_decision_def)

text \<open>Task identifiers are a key across workspaces. When a task identifier is in use in another workspace,
  events of a second workspace with that identifier are evaluated as the first event of a new task every
  time and nothing about them is ever recorded in the task table: spend, retries and loops are not
  bounded for it.\<close>

theorem task_id_collision_unguarded:
  assumes "\<not> quiet ev sim db" and "ev_task ev \<in> tk_task ` set (g_tasks db)"
    and "find_task (ev_task ev) (ev_workspace ev) (g_tasks db) = None"
  shows "g_tasks (snd (evaluate_runtime_event uid now ev sim db)) = g_tasks db
    \<and> fst (evaluate_runtime_event uid now ev sim db) =
        evaluate (''dec-'' @ uid) now ev (fresh_task now (ev_task ev) (ev_workspace ev) (ev_agent ev))
          (event_policy now ev db)"
proof -
  have "\<not> (tk_task r = ev_task ev \<and> tk_workspace r = ev_workspace ev)" if "r \<in> set (g_tasks db)" for r
    using assms(3) that by (auto simp: find_task_def find_None_iff)
  then have "update_where (\<lambda>r. tk_task r = ev_task ev \<and> tk_workspace r = ev_workspace ev) f (g_tasks db) = g_tasks db" for f
    unfolding update_where_def by (intro map_idI) auto
  with assms show ?thesis
    by (simp add: tasks_evaluate decision_evaluate create_known task_view_def Let_def)
qed

text \<open>Resuming a task that was paused as a runaway loop does not help it: the request count is kept, so the
  next event that is not denied or stopped pauses the task again.\<close>

theorem runaway_resume_pauses_again:
  assumes "resume_task now t w operator why db = (Inr tk, db1)"
    and "max_task_requests pol \<le> request_count tk + 1"
    and "ev_task ev = t" and "ev_workspace ev = w" and "\<not> quiet ev sim db1" and "pol = event_policy now2 ev db1"
  shows "gd_decision (fst (evaluate_runtime_event uid now2 ev sim db1)) \<in> {PAUSE, STOP, DENY}"
proof -
  from assms(1) have "event_view now2 ev db1 = tk" if "find_task t w (g_tasks db1) \<noteq> None"
    using that assms(3,4)
    by (auto simp: resume_task_def get_or_create_eq Let_def task_view_def set_task_state_def on_task_def
        find_task_create find_task_update create_known keys_update create_member
        split: if_splits option.splits)
  moreover have "find_task t w (g_tasks db1) \<noteq> None"
  proof -
    from assms(1) have "tk_state (task_view now t w [] (g_tasks db)) = PAUSED"
      by (auto simp: resume_task_def get_or_create_eq Let_def split: if_splits)
    then have "find_task t w (g_tasks db) \<noteq> None" by (auto simp: task_view_def split: option.splits)
    moreover from assms(1) have "db1 = snd (resume_task now t w operator why db)" by simp
    ultimately show ?thesis by (auto simp: tasks_resume find_task_create find_task_update Let_def)
  qed
  ultimately have v: "event_view now2 ev db1 = tk" by blast
  have "True \<in> set (over_limits ev tk pol)" using assms(2) by (simp add: over_limits_def)
  with evaluate_allow_iff[of "''dec-'' @ uid" now2 ev tk pol]
  have "gd_decision (evaluate (''dec-'' @ uid) now2 ev tk pol) \<noteq> ALLOW" by simp
  then have "gd_decision (fst (evaluate_runtime_event uid now2 ev sim db1)) \<noteq> ALLOW"
    using decision_evaluate[OF assms(5), of uid now2] v assms(6) by (simp add: Let_def mk_decision_def)
  then show ?thesis by (cases "gd_decision (fst (evaluate_runtime_event uid now2 ev sim db1))") auto
qed

section \<open>A concrete task\<close>

definition a_task :: "string \<Rightarrow> task_lifecycle \<Rightarrow> int \<Rightarrow> task_row" where
  "a_task w st n = (fresh_task 0 ''t1'' w ''agent'')\<lparr>tk_state := st, request_count := n\<rparr>"

definition a_db :: "string \<Rightarrow> task_lifecycle \<Rightarrow> int \<Rightarrow> string list \<Rightarrow> guardrail_db" where
  "a_db w st n evs = \<lparr>g_policies = [], g_tasks = [a_task w st n], g_decisions = [],
     g_dedup = map (\<lambda>e. \<lparr>dd_event = e, dd_workspace = w, dd_task = ''t1'', dd_ingested_at = 0\<rparr>) evs\<rparr>"

definition an_event :: "string \<Rightarrow> string \<Rightarrow> telemetry_event" where
  "an_event eid act = \<lparr>event_id = eid, ev_workspace = ''w'', ev_agent = ''agent'', ev_task = ''t1'',
     action_type = act, ev_cost = 1, is_retry = False, is_tool_error = False\<rparr>"

lemma a_task_fields [simp]:
  "tk_task (a_task w st n) = ''t1''" "tk_workspace (a_task w st n) = w" "tk_state (a_task w st n) = st"
  "request_count (a_task w st n) = n" "total_cost_usd (a_task w st n) = 0"
  "retry_count (a_task w st n) = 0" "consecutive_tool_errors (a_task w st n) = 0"
  by (simp_all add: a_task_def)

lemma a_db_find: "find_task ''t1'' w' (g_tasks (a_db w st n evs)) = (if w = w' then Some (a_task w st n) else None)"
  by (simp add: a_db_def find_task_def)

lemma an_event_fields [simp]:
  "event_id (an_event eid act) = eid" "ev_workspace (an_event eid act) = ''w''" "ev_agent (an_event eid act) = ''agent''"
  "ev_task (an_event eid act) = ''t1''" "action_type (an_event eid act) = act" "ev_cost (an_event eid act) = 1"
  "is_retry (an_event eid act) = False" "is_tool_error (an_event eid act) = False"
  by (simp_all add: an_event_def)

lemma a_db_quiet: "quiet (an_event eid act) False (a_db w st n evs) \<longleftrightarrow> eid \<in> set evs"
  by (simp add: quiet_def is_event_duplicate_def a_db_def image_image)

lemma a_db_policy: "get_policy w' (a_db w st n evs) = None"
  by (simp add: get_policy_def a_db_def)

theorem stopped_is_terminal_witness:
  "in_state ''t1'' ''w'' STOPPED (run_steps guard_step [Resume 5 ''t1'' ''w'' ''op'' (R_text [])] (a_db ''w'' STOPPED 3 []))"
  using stopped_is_terminal[OF _ refl, of "''t1''" "''w''" "a_db ''w'' STOPPED 3 []"
      "[Resume 5 ''t1'' ''w'' ''op'' (R_text [])]"]
  by (simp add: in_state_def a_db_find)

theorem paused_until_resumed_witness:
  "in_state ''t1'' ''w'' PAUSED (run_steps guard_step [Telemetry ''u'' 5 (an_event ''e'' ''x'') False] (a_db ''w'' PAUSED 3 []))"
  using paused_until_resumed[of "''t1''" "''w''" "a_db ''w'' PAUSED 3 []" "[Telemetry ''u'' 5 (an_event ''e'' ''x'') False]"]
  by (simp add: in_state_def a_db_find no_resume_of_def)

lemma allowed_example:
  "gd_decision (fst (evaluate_runtime_event ''u'' 5 (an_event ''e'' ''read'') False (a_db ''w'' ACTIVE 3 []))) = ALLOW"
  by (simp add: decision_evaluate a_db_quiet task_view_def a_db_find get_or_create_default_policy_def a_db_policy
      Let_def default_policy_def evaluate_allow_iff over_limits_def detect_forbidden_action_def)
    code_simp

theorem allowed_within_policy_witness:
  "\<exists>r. find_task ''t1'' ''w'' (g_tasks (snd (evaluate_runtime_event ''u'' 5 (an_event ''e'' ''read'') False
     (a_db ''w'' ACTIVE 3 [])))) = Some r \<and> total_cost_usd r \<le> 25"
proof -
  let ?db = "a_db ''w'' ACTIVE 3 []" and ?ev = "an_event ''e'' ''read''"
  have q: "\<not> quiet ?ev False ?db" by (simp add: a_db_quiet)
  obtain r where r: "find_task (ev_task ?ev) (ev_workspace ?ev)
      (g_tasks (snd (evaluate_runtime_event ''u'' 5 ?ev False ?db))) = Some r"
    using tasks_evaluate[OF q, of "''u''" 5]
    by (auto simp: find_task_update find_task_create a_db_find task_view_def Let_def)
  from allowed_within_policy[OF q allowed_example r refl] r show ?thesis
    by (simp add: get_or_create_default_policy_def a_db_policy default_policy_def)
qed

theorem task_isolation_witness:
  "find_task ''t2'' ''w'' (g_tasks (snd (evaluate_runtime_event ''u'' 5 (an_event ''e'' ''x'') False
     (a_db ''w'' ACTIVE 3 [])))) = None"
  using task_isolation[of "''t2''" "''w''" "an_event ''e'' ''x''" "''u''" 5 False "a_db ''w'' ACTIVE 3 []"]
  by (simp add: find_task_def a_db_def)

theorem replay_is_idempotent_witness:
  "snd (evaluate_runtime_event ''v'' 6 (an_event ''e'' ''x'') False
      (snd (evaluate_runtime_event ''u'' 5 (an_event ''e'' ''x'') False (a_db ''w'' ACTIVE 3 [])))) =
    snd (evaluate_runtime_event ''u'' 5 (an_event ''e'' ''x'') False (a_db ''w'' ACTIVE 3 []))"
  using replay_is_idempotent[OF _ refl, of "an_event ''e'' ''x''" False "a_db ''w'' ACTIVE 3 []" "''v''" 6 False "''u''" 5]
  by (simp add: a_db_quiet)

theorem duplicate_always_allowed_witness:
  "gd_decision (fst (evaluate_runtime_event ''u'' 5 (an_event ''e'' ''drop_database'') False
     (a_db ''w'' STOPPED 3 [''e'']))) = ALLOW"
  using duplicate_always_allowed[of "an_event ''e'' ''drop_database''" "a_db ''w'' STOPPED 3 [''e'']"]
  by (simp add: is_event_duplicate_def a_db_def)

theorem task_id_collision_unguarded_witness:
  "g_tasks (snd (evaluate_runtime_event ''u'' 5 (an_event ''e'' ''x'') False (a_db ''other'' ACTIVE 3 [])))
     = g_tasks (a_db ''other'' ACTIVE 3 [])"
  using task_id_collision_unguarded[of "an_event ''e'' ''x''" False "a_db ''other'' ACTIVE 3 []" "''u''" 5]
  by (simp add: a_db_quiet a_db_find) (simp add: a_db_def)

theorem runaway_resume_pauses_again_witness:
  "gd_decision (fst (evaluate_runtime_event ''u'' 9 (an_event ''e'' ''read'') False
     (snd (resume_task 8 ''t1'' ''w'' ''op'' (R_text []) (a_db ''w'' PAUSED 50 []))))) \<in> {PAUSE, STOP, DENY}"
proof -
  let ?db = "a_db ''w'' PAUSED 50 []"
  let ?r = "state_change 8 ACTIVE (Some (R_text [])) (Some ''op'') (a_task ''w'' PAUSED 50)"
  have res: "resume_task 8 ''t1'' ''w'' ''op'' (R_text []) ?db = (Inr ?r, ?db\<lparr>g_tasks := [?r]\<rparr>)"
    by (simp add: resume_task_def get_or_create_eq Let_def task_view_def create_tasks_def a_db_find
        set_task_state_def on_task_def) (simp add: a_db_def update_where_def find_task_def)
  have "\<not> quiet (an_event ''e'' ''read'') False (?db\<lparr>g_tasks := [?r]\<rparr>)"
    by (simp add: quiet_def is_event_duplicate_def a_db_def)
  moreover have "max_task_requests (event_policy 9 (an_event ''e'' ''read'') (?db\<lparr>g_tasks := [?r]\<rparr>)) \<le> request_count ?r + 1"
    by (simp add: policy_frame) (simp add: get_or_create_default_policy_def a_db_policy default_policy_def state_change_def)
  ultimately show ?thesis
    using runaway_resume_pauses_again[OF res, of _ "an_event ''e'' ''read''" False 9 "''u''"] res by simp
qed

end
