(* ===== verification/Governance.thy ===== *)
theory Governance
  imports BL_Prelude
begin

text \<open>
  \<open>burnlens/governance\<close>: policy rules, their storage, the evaluation of an agent's action against
  the active rules of its workspace, the effective action per enforcement mode, and the summary of
  recorded evaluations. \<open>fnmatch\<close> of the standard library is modelled by parsing the pattern to
  tokens. Message texts are represented by template and arguments.
\<close>

section \<open>Data model\<close>

datatype enforcement_mode = OBSERVE | SHADOW | APPROVAL_REQUIRED | ENFORCED | AUTONOMOUS

datatype policy_decision = P_ALLOW | P_DENY | REQUIRE_APPROVAL | BUDGET_EXCEEDED

datatype risk_class = LOW | MEDIUM | HIGH | CRITICAL_RISK

record policy_rule =
  pr_id :: string
  pr_name :: string
  pr_workspace :: string
  pr_action :: string
  risk_level :: risk_class
  decision_if_matched :: policy_decision
  condition_expression :: string
  max_cost_usd :: "usd option"
  target_pattern :: string
  pr_version :: int
  pr_is_active :: bool
  pr_created_at :: instant
  pr_updated_at :: instant

datatype gov_reason =
    Default_allow
  | Cost_exceeds usd usd
  | Protected_merge json
  | Iam_disallowed
  | Matched_policy string string

record evaluation_record =
  evaluation_id :: string
  er_workspace :: string
  er_agent :: string
  er_task :: "string option"
  er_run :: "string option"
  er_action :: string
  er_target :: string
  er_mode :: enforcement_mode
  er_decision :: policy_decision
  effective_action :: string
  matched_policy :: "string option"
  er_reason :: gov_reason
  er_cost :: usd
  context_metadata :: "(string \<times> json) list"
  er_evaluated_at :: instant

definition baseline_rule ::
    "instant \<Rightarrow> string \<Rightarrow> string \<Rightarrow> string \<Rightarrow> risk_class \<Rightarrow> policy_decision \<Rightarrow> string \<Rightarrow> usd option \<Rightarrow> policy_rule" where
  "baseline_rule now pid nm act risk dec cond cap = \<lparr>pr_id = pid, pr_name = nm, pr_workspace = ''*'',
     pr_action = act, risk_level = risk, decision_if_matched = dec, condition_expression = cond,
     max_cost_usd = cap, target_pattern = ''*'', pr_version = 1, pr_is_active = True,
     pr_created_at = now, pr_updated_at = now\<rparr>"

definition quoted :: "string \<Rightarrow> string" where
  "quoted s = CHR 0x27 # s @ [CHR 0x27]"

definition DEFAULT_BASELINE_POLICIES :: "instant \<Rightarrow> policy_rule list" where
  "DEFAULT_BASELINE_POLICIES now =
    [baseline_rule now ''pol-default-read'' ''Allow Repository Reads'' ''read_repository'' LOW P_ALLOW ''true'' None,
     baseline_rule now ''pol-default-branch'' ''Allow Branch Creation'' ''create_branch'' LOW P_ALLOW ''true'' None,
     baseline_rule now ''pol-default-open-pr'' ''Allow Open Pull Request'' ''open_pr'' LOW P_ALLOW ''true'' None,
     baseline_rule now ''pol-default-merge-pr'' ''Require Approval for Main/Prod PR Merges'' ''merge_pr'' HIGH
       REQUIRE_APPROVAL (''target_branch in ['' @ quoted ''main'' @ '', '' @ quoted ''master'' @ '', ''
         @ quoted ''production'' @ '']'') None,
     baseline_rule now ''pol-default-iam'' ''Deny IAM Modification'' ''change_iam'' CRITICAL_RISK P_DENY ''true'' None,
     baseline_rule now ''pol-default-budget-cap'' ''Require Approval If Task Cost > $10'' ''*'' MEDIUM
       REQUIRE_APPROVAL ''cost > 10.0'' (Some 10)]"

section \<open>Shell patterns\<close>

datatype glob_tok = G_star | G_any | G_lit char | G_class bool "(char \<times> char) list"

fun class_items :: "string \<Rightarrow> (char \<times> char) list" where
  "class_items (x # y # z # rest) =
     (if y = CHR ''-'' then (if x \<le> z then [(x, z)] else []) @ class_items rest
      else (x, x) # class_items (y # z # rest))"
| "class_items xs = map (\<lambda>x. (x, x)) xs"

text \<open>The part after an opening bracket up to its closing bracket; a bracket right after the opening one (or
  after the negation mark) does not close.\<close>

definition split_class :: "string \<Rightarrow> (string \<times> string) option" where
  "split_class s =
     (let neg = (case s of c # _ \<Rightarrow> if c = CHR ''!'' then [c] else [] | [] \<Rightarrow> []);
          s1 = drop (length neg) s;
          brk = (case s1 of c # _ \<Rightarrow> if c = CHR '']'' then [c] else [] | [] \<Rightarrow> []);
          s2 = drop (length brk) s1;
          body = takeWhile (\<lambda>c. c \<noteq> CHR '']'') s2;
          after = dropWhile (\<lambda>c. c \<noteq> CHR '']'') s2
      in if after = [] then None else Some (neg @ brk @ body, tl after))"

lemma split_class_length: "split_class s = Some (stuff, rest) \<Longrightarrow> length rest < length s"
proof -
  assume "split_class s = Some (stuff, rest)"
  then obtain n where n: "dropWhile (\<lambda>c. c \<noteq> CHR '']'') (drop n s) \<noteq> []"
    "rest = tl (dropWhile (\<lambda>c. c \<noteq> CHR '']'') (drop n s))"
    by (auto simp: split_class_def Let_def split: if_splits)
  have "length (dropWhile (\<lambda>c. c \<noteq> CHR '']'') (drop n s)) \<le> length s"
    using length_dropWhile_le[of "\<lambda>c. c \<noteq> CHR '']''" "drop n s"] by simp
  with n show ?thesis by (cases "dropWhile (\<lambda>c. c \<noteq> CHR '']'') (drop n s)") auto
qed

definition class_tok :: "string \<Rightarrow> glob_tok" where
  "class_tok stuff = (case stuff of
     c # cs \<Rightarrow> if c = CHR ''!'' then G_class True (class_items cs) else G_class False (class_items stuff)
   | [] \<Rightarrow> G_class False [])"

function parse_glob :: "string \<Rightarrow> glob_tok list" where
  "parse_glob [] = []"
| "parse_glob (c # s) =
     (if c = CHR ''*'' then G_star # parse_glob s
      else if c = CHR ''?'' then G_any # parse_glob s
      else if c = CHR ''['' then
        (case split_class s of None \<Rightarrow> G_lit c # parse_glob s
         | Some (stuff, rest) \<Rightarrow> class_tok stuff # parse_glob rest)
      else G_lit c # parse_glob s)"
  by pat_completeness auto
termination
  by (relation "measure length") (auto dest: split_class_length)

fun glob_match :: "glob_tok list \<Rightarrow> string \<Rightarrow> bool" where
  "glob_match [] s = (s = [])"
| "glob_match (G_star # ts) [] = glob_match ts []"
| "glob_match (G_star # ts) (c # s) = (glob_match ts (c # s) \<or> glob_match (G_star # ts) s)"
| "glob_match (G_any # ts) s = (case s of [] \<Rightarrow> False | c # s' \<Rightarrow> glob_match ts s')"
| "glob_match (G_lit x # ts) s = (case s of [] \<Rightarrow> False | c # s' \<Rightarrow> c = x \<and> glob_match ts s')"
| "glob_match (G_class neg items # ts) s = (case s of [] \<Rightarrow> False
     | c # s' \<Rightarrow> (neg \<noteq> list_ex (\<lambda>(a, b). a \<le> c \<and> c \<le> b) items) \<and> glob_match ts s')"

definition fnmatch :: "string \<Rightarrow> string \<Rightarrow> bool" where
  "fnmatch name pat = glob_match (parse_glob pat) name"

section \<open>Storage\<close>

record governance_db =
  policy_rules :: "policy_rule table"
  policy_evaluations :: "evaluation_record table"

definition init_governance_schema :: "instant \<Rightarrow> governance_db \<Rightarrow> governance_db" where
  "init_governance_schema now db =
     (if policy_rules db = []
      then db\<lparr>policy_rules := fold (insert_or_ignore pr_id) (DEFAULT_BASELINE_POLICIES now) []\<rparr> else db)"

definition save_policy_rule :: "policy_rule \<Rightarrow> governance_db \<Rightarrow> governance_db" where
  "save_policy_rule r db =
     db\<lparr>policy_rules :=
       (if pr_id r \<in> pr_id ` set (policy_rules db)
        then update_where (\<lambda>x. pr_id x = pr_id r)
          (\<lambda>x. r\<lparr>pr_version := pr_version x + 1, pr_created_at := pr_created_at x\<rparr>) (policy_rules db)
        else policy_rules db @ [r])\<rparr>"

definition visible_to :: "string \<Rightarrow> policy_rule \<Rightarrow> bool" where
  "visible_to ws r \<longleftrightarrow> pr_is_active r \<and> (pr_workspace r = ws \<or> pr_workspace r = ''*''
     \<or> (pr_workspace r = ''default'' \<and> ws = ''default''))"

definition get_active_rules :: "string \<Rightarrow> governance_db \<Rightarrow> policy_rule list" where
  "get_active_rules ws db = sort_key (\<lambda>r. - pr_version r) (filter (visible_to ws) (policy_rules db))"

definition record_evaluation :: "evaluation_record \<Rightarrow> governance_db \<Rightarrow> governance_db option" where
  "record_evaluation e db =
     (if evaluation_id e \<in> evaluation_id ` set (policy_evaluations db) then None
      else Some (db\<lparr>policy_evaluations := policy_evaluations db @ [e]\<rparr>))"

section \<open>Evaluation\<close>

definition rule_applies :: "string \<Rightarrow> string \<Rightarrow> policy_rule \<Rightarrow> bool" where
  "rule_applies act target r \<longleftrightarrow>
     (pr_action r = ''*'' \<or> lower (pr_action r) = lower act)
     \<and> (target_pattern r = ''*'' \<or> fnmatch target (target_pattern r))"

type_synonym candidate = "policy_rule \<times> policy_decision \<times> gov_reason"

definition rule_candidate ::
    "string \<Rightarrow> usd \<Rightarrow> (string \<times> json) list \<Rightarrow> policy_rule \<Rightarrow> candidate option" where
  "rule_candidate target cost metadata r =
     (case max_cost_usd r of
        Some cap \<Rightarrow> (if cost > cap then Some (r, REQUIRE_APPROVAL, Cost_exceeds cost cap) else None)
      | None \<Rightarrow>
          (let target_branch = (case map_of metadata ''target_branch'' of Some b \<Rightarrow> b | None \<Rightarrow> JStr target)
           in if pr_action r = ''merge_pr''
                 \<and> target_branch \<in> {JStr ''main'', JStr ''master'', JStr ''production''}
              then Some (r, decision_if_matched r, Protected_merge target_branch)
              else if pr_action r = ''change_iam'' then Some (r, decision_if_matched r, Iam_disallowed)
              else Some (r, decision_if_matched r, Matched_policy (pr_name r) (pr_id r))))"

definition candidates ::
    "string \<Rightarrow> string \<Rightarrow> usd \<Rightarrow> (string \<times> json) list \<Rightarrow> policy_rule list \<Rightarrow> candidate list" where
  "candidates act target cost metadata rules =
     List.map_filter (rule_candidate target cost metadata) (filter (rule_applies act target) rules)"

definition sort_priority :: "candidate \<Rightarrow> nat" where
  "sort_priority c = (case fst (snd c) of P_DENY \<Rightarrow> 0 | REQUIRE_APPROVAL \<Rightarrow> 1 | BUDGET_EXCEEDED \<Rightarrow> 2 | P_ALLOW \<Rightarrow> 3)"

definition decide :: "candidate list \<Rightarrow> policy_rule option \<times> policy_decision \<times> gov_reason" where
  "decide cs = (case sort_key sort_priority cs of
     [] \<Rightarrow> (None, P_ALLOW, Default_allow) | (r, d, why) # _ \<Rightarrow> (Some r, d, why))"

definition effective :: "enforcement_mode \<Rightarrow> policy_decision \<Rightarrow> string" where
  "effective mode d =
     (case mode of
        OBSERVE \<Rightarrow> ''ALLOWED_BY_SHADOW_MODE''
      | SHADOW \<Rightarrow> ''ALLOWED_BY_SHADOW_MODE''
      | APPROVAL_REQUIRED \<Rightarrow> (if d \<in> {REQUIRE_APPROVAL, P_DENY} then ''BLOCKED_PENDING_APPROVAL'' else ''PROCEED'')
      | ENFORCED \<Rightarrow> (if d = P_DENY then ''DENIED'' else ''PROCEED'')
      | AUTONOMOUS \<Rightarrow> ''AUTONOMOUS_EXECUTE'')"

definition evaluate_action ::
    "enforcement_mode \<Rightarrow> string \<Rightarrow> instant \<Rightarrow> string \<Rightarrow> string \<Rightarrow> string \<Rightarrow> string \<Rightarrow> string option \<Rightarrow> string option
       \<Rightarrow> usd \<Rightarrow> (string \<times> json) list \<Rightarrow> governance_db \<Rightarrow> (evaluation_record \<times> governance_db) option" where
  "evaluate_action mode uid now ws agent act target task run cost metadata db =
     (let (rule, d, why) = decide (candidates act target cost metadata (get_active_rules ws db));
          e = \<lparr>evaluation_id = ''eval_'' @ uid, er_workspace = ws, er_agent = agent, er_task = task,
                er_run = run, er_action = act, er_target = target, er_mode = mode, er_decision = d,
                effective_action = effective mode d, matched_policy = map_option pr_id rule,
                er_reason = why, er_cost = cost, context_metadata = metadata, er_evaluated_at = now\<rparr>
      in map_option (\<lambda>db'. (e, db')) (record_evaluation e db))"

record eval_summary =
  sm_total :: nat
  would_allow :: nat
  would_require_approval :: nat
  would_deny :: nat
  would_flag_budget_exceeded :: nat
  distribution :: "policy_decision \<rightharpoonup> real"

definition decision_count :: "string \<Rightarrow> policy_decision \<Rightarrow> governance_db \<Rightarrow> nat" where
  "decision_count ws d db =
     length (filter (\<lambda>e. er_workspace e = ws \<and> er_decision e = d) (policy_evaluations db))"

definition get_shadow_evaluation_summary :: "string \<Rightarrow> governance_db \<Rightarrow> eval_summary" where
  "get_shadow_evaluation_summary ws db =
     (let n = (\<lambda>d. decision_count ws d db);
          total = n P_ALLOW + n P_DENY + n REQUIRE_APPROVAL + n BUDGET_EXCEEDED
      in \<lparr>sm_total = total, would_allow = n P_ALLOW, would_require_approval = n REQUIRE_APPROVAL,
          would_deny = n P_DENY, would_flag_budget_exceeded = n BUDGET_EXCEEDED,
          distribution = (\<lambda>d. if n d = 0 then None
            else Some (if 0 < total then py_round (of_nat (n d) / of_nat total * 100) 2 else 0))\<rparr>)"

section \<open>Decisions\<close>

lemma sort_key_hd_min:
  "sort_key f xs = y # ys \<Longrightarrow> y \<in> set xs \<and> (\<forall>x \<in> set xs. f y \<le> f x)"
proof -
  assume s: "sort_key f xs = y # ys"
  have "sorted (map f (sort_key f xs))" "set (sort_key f xs) = set xs" by simp_all
  with s show ?thesis by auto
qed

lemma decide_Cons:
  assumes "cs \<noteq> []"
  obtains r d why where "(r, d, why) \<in> set cs" "decide cs = (Some r, d, why)"
    "\<forall>c \<in> set cs. sort_priority (r, d, why) \<le> sort_priority c"
proof -
  from assms have "sort_key sort_priority cs \<noteq> []" by (metis length_0_conv length_sort)
  then obtain r d why ys where "sort_key sort_priority cs = (r, d, why) # ys"
    by (metis list.exhaust prod.exhaust_sel)
  with sort_key_hd_min[OF this] that show thesis by (auto simp: decide_def)
qed

lemma decide_deny: "(r, P_DENY, why) \<in> set cs \<Longrightarrow> fst (snd (decide cs)) = P_DENY"
proof -
  assume m: "(r, P_DENY, why) \<in> set cs"
  then have "cs \<noteq> []" by auto
  then obtain r' d w where "decide cs = (Some r', d, w)" "\<forall>c \<in> set cs. sort_priority (r', d, w) \<le> sort_priority c"
    by (rule decide_Cons)
  with m show ?thesis by (cases d) (force simp: sort_priority_def)+
qed

lemma evaluate_action_eq:
  "evaluate_action mode uid now ws agent act target task run cost metadata db = Some (e, db') \<Longrightarrow>
   er_decision e = fst (snd (decide (candidates act target cost metadata (get_active_rules ws db))))
   \<and> effective_action e = effective mode (er_decision e) \<and> er_workspace e = ws
   \<and> policy_rules db' = policy_rules db \<and> policy_evaluations db' = policy_evaluations db @ [e]"
  by (auto simp: evaluate_action_def Let_def split_beta record_evaluation_def split: if_splits)

text \<open>Restrictions win. If any active rule of the workspace that applies to the action votes to deny it,
  the recorded decision is DENY, and in enforced mode the action is denied, in approval mode blocked,
  whatever other rules say.\<close>

theorem deny_wins:
  assumes "evaluate_action mode uid now ws agent act target task run cost metadata db = Some (e, db')"
    and "r \<in> set (policy_rules db)" and "visible_to ws r" and "rule_applies act target r"
    and "decision_if_matched r = P_DENY" and "max_cost_usd r = None"
  shows "er_decision e = P_DENY \<and> (mode = ENFORCED \<longrightarrow> effective_action e = ''DENIED'')
    \<and> (mode = APPROVAL_REQUIRED \<longrightarrow> effective_action e = ''BLOCKED_PENDING_APPROVAL'')"
proof -
  let ?cs = "candidates act target cost metadata (get_active_rules ws db)"
  have "\<exists>why. rule_candidate target cost metadata r = Some (r, P_DENY, why)"
    using assms(5,6) by (simp add: rule_candidate_def Let_def)
  then obtain why where "rule_candidate target cost metadata r = Some (r, P_DENY, why)" ..
  moreover have "r \<in> set (get_active_rules ws db)" using assms(2,3) by (simp add: get_active_rules_def)
  ultimately have "(r, P_DENY, why) \<in> set ?cs"
    using assms(4) by (force simp: candidates_def map_filter_def)
  from decide_deny[OF this] evaluate_action_eq[OF assms(1)] show ?thesis by (simp add: effective_def)
qed

text \<open>The decision is the strongest vote among the matching rules (deny, then approval, then budget, then
  allow) and ALLOW when no rule matches.\<close>

theorem strongest_vote_decides:
  assumes "evaluate_action mode uid now ws agent act target task run cost metadata db = Some (e, db')"
    and "cs = candidates act target cost metadata (get_active_rules ws db)"
  shows "(cs = [] \<longrightarrow> er_decision e = P_ALLOW)
    \<and> (cs \<noteq> [] \<longrightarrow> (\<exists>c \<in> set cs. er_decision e = fst (snd c) \<and> (\<forall>c' \<in> set cs. sort_priority c \<le> sort_priority c')))"
proof (cases "cs = []")
  case True
  with evaluate_action_eq[OF assms(1)] assms(2) show ?thesis by (simp add: decide_def)
next
  case False
  then obtain r d why where "(r, d, why) \<in> set cs" "decide cs = (Some r, d, why)"
    "\<forall>c \<in> set cs. sort_priority (r, d, why) \<le> sort_priority c" by (rule decide_Cons)
  with evaluate_action_eq[OF assms(1)] assms(2) False show ?thesis by force
qed

text \<open>Shadow and observe modes never block: the effective action is the shadow allowance, the policy table
  is untouched, the evaluation is logged, and the decision is the one every other mode would record.\<close>

theorem shadow_never_blocks:
  assumes "evaluate_action mode uid now ws agent act target task run cost metadata db = Some (e, db')"
    and "mode \<in> {OBSERVE, SHADOW}"
    and "evaluate_action mode2 uid now ws agent act target task run cost metadata db = Some (e2, db2)"
  shows "effective_action e = ''ALLOWED_BY_SHADOW_MODE'' \<and> er_decision e = er_decision e2
    \<and> policy_rules db' = policy_rules db \<and> policy_evaluations db' = policy_evaluations db @ [e]"
  using evaluate_action_eq[OF assms(1)] evaluate_action_eq[OF assms(3)] assms(2) by (auto simp: effective_def)

lemma visible_filter: "filter (visible_to ws) (filter (\<lambda>r. pr_workspace r \<in> {ws, ''*''}) rs) = filter (visible_to ws) rs"
  by (auto simp: visible_to_def intro: filter_cong)

text \<open>Tenants are isolated: dropping every rule that belongs to another workspace does not change the
  decision, the effective action or the reason.\<close>

theorem tenant_isolation:
  "map_option fst (evaluate_action mode uid now ws agent act target task run cost metadata
       (db\<lparr>policy_rules := filter (\<lambda>r. pr_workspace r \<in> {ws, ''*''}) (policy_rules db)\<rparr>)) =
   map_option fst (evaluate_action mode uid now ws agent act target task run cost metadata db)"
proof -
  let ?db = "db\<lparr>policy_rules := filter (\<lambda>r. pr_workspace r \<in> {ws, ''*''}) (policy_rules db)\<rparr>"
  have "get_active_rules ws ?db = get_active_rules ws db"
    using visible_filter[of ws "policy_rules db"] by (simp add: get_active_rules_def)
  then show ?thesis by (simp add: evaluate_action_def Let_def split_beta record_evaluation_def)
qed

section \<open>Where the rules are weaker than they read\<close>

definition seeded :: governance_db where
  "seeded = init_governance_schema 0 \<lparr>policy_rules = [], policy_evaluations = []\<rparr>"

lemma seeded_rules: "policy_rules seeded = DEFAULT_BASELINE_POLICIES 0"
  by (simp add: seeded_def init_governance_schema_def DEFAULT_BASELINE_POLICIES_def baseline_rule_def insert_or_ignore_def)

lemma seeded_active: "get_active_rules ws seeded = DEFAULT_BASELINE_POLICIES 0"
  by (simp add: get_active_rules_def seeded_rules DEFAULT_BASELINE_POLICIES_def baseline_rule_def visible_to_def)

lemma lower_acts [simp]:
  "lower ''merge_pr'' = ''merge_pr''" "lower ''change_iam'' = ''change_iam''" "lower ''open_pr'' = ''open_pr''"
  "lower ''read_repository'' = ''read_repository''" "lower ''create_branch'' = ''create_branch''"
  by code_simp+

text \<open>The baseline rule for merges restricts itself, by its condition expression, to protected branches; the
  evaluator asks for approval of a merge to any other branch as well.\<close>

theorem baseline_merge_any_branch:
  "fst (snd (decide (candidates ''merge_pr'' ''feature/x'' 0 [] (get_active_rules ws seeded)))) = REQUIRE_APPROVAL"
  by (simp add: seeded_active candidates_def DEFAULT_BASELINE_POLICIES_def baseline_rule_def rule_applies_def
      rule_candidate_def map_filter_simps decide_def sort_priority_def)

text \<open>A rule with a cost cap never denies: whatever decision it is configured with, it can only contribute a
  request for approval, and nothing at all while the cost is within the cap.\<close>

theorem cost_rule_never_denies:
  assumes "max_cost_usd r = Some cap"
  shows "rule_candidate target cost metadata r =
    (if cost > cap then Some (r, REQUIRE_APPROVAL, Cost_exceeds cost cap) else None)"
  using assms by (simp add: rule_candidate_def)

text \<open>In enforced mode an action that needs approval proceeds.\<close>

theorem enforced_skips_approval:
  assumes "evaluate_action ENFORCED uid now ws agent act target task run cost metadata db = Some (e, db')"
    and "er_decision e = REQUIRE_APPROVAL"
  shows "effective_action e = ''PROCEED''"
  using evaluate_action_eq[OF assms(1)] assms(2) by (simp add: effective_def)

text \<open>The summary accounts for every recorded evaluation of the workspace exactly once.\<close>

theorem summary_total:
  "sm_total (get_shadow_evaluation_summary ws db) =
     length (filter (\<lambda>e. er_workspace e = ws) (policy_evaluations db))"
proof -
  have "length (filter (\<lambda>e. er_workspace e = ws) xs) =
      length (filter (\<lambda>e. er_workspace e = ws \<and> er_decision e = P_ALLOW) xs)
    + length (filter (\<lambda>e. er_workspace e = ws \<and> er_decision e = P_DENY) xs)
    + length (filter (\<lambda>e. er_workspace e = ws \<and> er_decision e = REQUIRE_APPROVAL) xs)
    + length (filter (\<lambda>e. er_workspace e = ws \<and> er_decision e = BUDGET_EXCEEDED) xs)" for xs
  proof (induction xs)
    case (Cons x xs)
    then show ?case by (cases "er_decision x") auto
  qed simp
  from this[of "policy_evaluations db"] show ?thesis
    by (simp add: get_shadow_evaluation_summary_def decision_count_def Let_def)
qed

text \<open>A policy's version only grows: saving a rule again keeps its identity and creation time and makes its
  version one larger than the stored one.\<close>

theorem save_bumps_version:
  assumes "lookup_key pr_id (pr_id r) (policy_rules db) = Some old"
  shows "lookup_key pr_id (pr_id r) (policy_rules (save_policy_rule r db)) =
     Some (r\<lparr>pr_version := pr_version old + 1, pr_created_at := pr_created_at old\<rparr>)"
proof -
  from lookup_key_SomeD[OF assms] have "pr_id r \<in> pr_id ` set (policy_rules db)" by (metis imageI)
  with assms show ?thesis using lookup_key_SomeD[OF assms]
    by (simp add: save_policy_rule_def lookup_update_where)
qed

section \<open>Shell patterns\<close>

lemma glob_literal: "list_all (\<lambda>c. c \<notin> set ''*?['') p \<Longrightarrow> glob_match (parse_glob p) s \<longleftrightarrow> s = p"
proof (induction p arbitrary: s)
  case (Cons c p)
  then show ?case by (cases s) auto
qed simp

lemma glob_star: "glob_match (G_star # ts) s \<longleftrightarrow> (\<exists>a b. s = a @ b \<and> glob_match ts b)"
proof (induction s)
  case (Cons c s)
  show ?case
  proof
    assume "glob_match (G_star # ts) (c # s)"
    then show "\<exists>a b. c # s = a @ b \<and> glob_match ts b"
      using Cons by simp (metis append_Cons append_Nil)
  next
    assume "\<exists>a b. c # s = a @ b \<and> glob_match ts b"
    then obtain a b where "c # s = a @ b" "glob_match ts b" by blast
    with Cons show "glob_match (G_star # ts) (c # s)" by (cases a) auto
  qed
qed simp

lemma parse_glob_literal_append:
  "list_all (\<lambda>c. c \<notin> set ''*?['') p \<Longrightarrow> parse_glob (p @ q) = map G_lit p @ parse_glob q"
  by (induction p) auto

lemma glob_lits: "glob_match (map G_lit p @ ts) s \<longleftrightarrow> (\<exists>b. s = p @ b \<and> glob_match ts b)"
proof (induction p arbitrary: s)
  case (Cons c p)
  then show ?case by (cases s) auto
qed simp

text \<open>A target pattern without special characters matches exactly itself, and such a pattern followed by a
  star matches exactly the targets it is a prefix of.\<close>

theorem fnmatch_prefix:
  assumes "list_all (\<lambda>c. c \<notin> set ''*?['') p"
  shows "(fnmatch s p \<longleftrightarrow> s = p) \<and> (fnmatch s (p @ ''*'') \<longleftrightarrow> startswith s p)"
proof -
  have "fnmatch s (p @ ''*'') \<longleftrightarrow> (\<exists>b. s = p @ b \<and> glob_match [G_star] b)"
    unfolding fnmatch_def parse_glob_literal_append[OF assms] by (simp add: glob_lits)
  moreover have "glob_match [G_star] b" for b by (simp add: glob_star)
  ultimately show ?thesis using glob_literal[OF assms] by (simp add: fnmatch_def startswith_iff)
qed

section \<open>The seeded workspace\<close>

lemma seeded_evaluates: "\<exists>e db'. evaluate_action mode ''u1'' 0 ws agent act target task run cost metadata seeded = Some (e, db')"
proof -
  have "policy_evaluations seeded = []" by (simp add: seeded_def init_governance_schema_def)
  then show ?thesis by (simp add: evaluate_action_def Let_def split_beta record_evaluation_def)
qed

lemma iam_rule:
  "\<exists>r \<in> set (policy_rules seeded). visible_to ws r \<and> rule_applies ''change_iam'' target r
     \<and> decision_if_matched r = P_DENY \<and> max_cost_usd r = None"
  by (simp add: seeded_rules DEFAULT_BASELINE_POLICIES_def baseline_rule_def visible_to_def rule_applies_def)

theorem deny_wins_witness:
  "\<exists>e db'. evaluate_action ENFORCED ''u1'' 0 ''acme'' ''a'' ''change_iam'' ''role/x'' None None 0 [] seeded = Some (e, db')
     \<and> effective_action e = ''DENIED''"
proof -
  obtain e db' where e: "evaluate_action ENFORCED ''u1'' 0 ''acme'' ''a'' ''change_iam'' ''role/x'' None None 0 [] seeded
      = Some (e, db')" using seeded_evaluates by blast
  obtain r where "r \<in> set (policy_rules seeded)" "visible_to ''acme'' r" "rule_applies ''change_iam'' ''role/x'' r"
    "decision_if_matched r = P_DENY" "max_cost_usd r = None" using iam_rule by blast
  from deny_wins[OF e this] e show ?thesis by simp
qed

theorem strongest_vote_decides_witness:
  "\<exists>e db'. evaluate_action SHADOW ''u1'' 0 ''acme'' ''a'' ''open_pr'' ''repo'' None None 0 [] seeded = Some (e, db')
     \<and> er_decision e = P_ALLOW"
proof -
  obtain e db' where e: "evaluate_action SHADOW ''u1'' 0 ''acme'' ''a'' ''open_pr'' ''repo'' None None 0 [] seeded
      = Some (e, db')" using seeded_evaluates by blast
  have "\<forall>c \<in> set (candidates ''open_pr'' ''repo'' 0 [] (get_active_rules ''acme'' seeded)). fst (snd c) = P_ALLOW"
    by (simp add: seeded_active candidates_def DEFAULT_BASELINE_POLICIES_def baseline_rule_def rule_applies_def
        rule_candidate_def map_filter_simps)
  with strongest_vote_decides[OF e refl] e show ?thesis by (metis (no_types, lifting))
qed

theorem shadow_never_blocks_witness:
  "\<exists>e db'. evaluate_action SHADOW ''u1'' 0 ''acme'' ''a'' ''change_iam'' ''role/x'' None None 0 [] seeded = Some (e, db')
     \<and> effective_action e = ''ALLOWED_BY_SHADOW_MODE''"
proof -
  obtain e db' where e: "evaluate_action SHADOW ''u1'' 0 ''acme'' ''a'' ''change_iam'' ''role/x'' None None 0 [] seeded
      = Some (e, db')" using seeded_evaluates by blast
  from shadow_never_blocks[OF e _ e] e show ?thesis by simp
qed

theorem fnmatch_prefix_witness: "fnmatch ''main/1'' ''main/*'' \<and> \<not> fnmatch ''mainX'' ''main''"
  using fnmatch_prefix[of "''main/''" "''main/1''"] fnmatch_prefix[of "''main''" "''mainX''"] by simp

end
