(* ===== verification/Execution.thy ===== *)
theory Execution
  imports Governance
begin

text \<open>
  \<open>burnlens/execution\<close>: human-approved execution of code changes. Bindings, approval tokens and
  requests (\<open>models.py\<close>), the tables of execution records, tokens and timeline events
  (\<open>storage.py\<close>), the GitHub adapter and its in-memory client (\<open>adapter.py\<close>) and the service
  that verifies a token, consumes it and runs the workflow (\<open>service.py\<close>).

  Parameters (\<open>crypto\<close>): SHA-256, HMAC-SHA-256 under the service's secret, ISO formatting of a time and JSON
  serialisation of a list of pairs. The details dictionaries of timeline events are not modelled.
\<close>

section \<open>Data model\<close>

definition PROTECTED_BRANCHES :: "string set" where
  "PROTECTED_BRANCHES = {''main'', ''master'', ''prod'', ''production'', ''release''}"

datatype execution_status = PENDING_APPROVAL | APPROVED | EXECUTING | EX_COMPLETED | FAILED | DENIED | REJECTED

record crypto =
  sha256 :: "string \<Rightarrow> string"
  hmac :: "string \<Rightarrow> string"
  isoformat :: "instant \<Rightarrow> string"
  dumps :: "(string \<times> string) list \<Rightarrow> string"

record execution_binding =
  eb_workspace :: string
  eb_agent :: string
  eb_task :: string
  eb_recommendation :: string
  eb_repo :: string
  eb_base_branch :: string
  eb_target_branch :: string
  eb_scoped_files :: "string list"
  change_payload_hash :: string
  eb_expires_at :: instant
  eb_nonce :: string

fun join :: "string \<Rightarrow> string list \<Rightarrow> string" where
  "join sep [] = []"
| "join sep [x] = x"
| "join sep (x # y # xs) = x @ sep @ join sep (y # xs)"

definition compute_hash :: "crypto \<Rightarrow> execution_binding \<Rightarrow> string" where
  "compute_hash cr b = sha256 cr (join ''|'' [eb_workspace b, eb_agent b, eb_task b, eb_recommendation b,
     eb_repo b, eb_base_branch b, eb_target_branch b, join '','' (sort (eb_scoped_files b)),
     change_payload_hash b, isoformat cr (eb_expires_at b), eb_nonce b])"

record approval_token =
  at_token_id :: string
  binding_hash :: string
  at_workspace :: string
  approver :: string
  approved_at :: instant
  at_expires_at :: instant
  signature :: string
  consumed :: bool
  consumed_at :: "instant option"
  at_nonce :: string

definition sig_data :: "crypto \<Rightarrow> string \<Rightarrow> string \<Rightarrow> string \<Rightarrow> string \<Rightarrow> instant \<Rightarrow> string" where
  "sig_data cr tid bh ws appr expires = join '':'' [tid, bh, ws, appr, isoformat cr expires]"

definition create_token ::
    "crypto \<Rightarrow> instant \<Rightarrow> string \<Rightarrow> execution_binding \<Rightarrow> string \<Rightarrow> string \<Rightarrow> approval_token" where
  "create_token cr now tid b appr nonce =
     (let bh = compute_hash cr b
      in \<lparr>at_token_id = tid, binding_hash = bh, at_workspace = eb_workspace b, approver = appr,
          approved_at = now, at_expires_at = eb_expires_at b,
          signature = hmac cr (sig_data cr tid bh (eb_workspace b) appr (eb_expires_at b)),
          consumed = False, consumed_at = None, at_nonce = nonce\<rparr>)"

datatype deny_reason =
    Tenant_isolation_violation string string
  | Invalid_signature
  | Binding_modified
  | Approval_expired instant
  | Already_consumed
  | Protected_branch_violation string
  | Scope_violation string "string list"

definition is_valid :: "crypto \<Rightarrow> approval_token \<Rightarrow> string \<Rightarrow> instant \<Rightarrow> deny_reason option" where
  "is_valid cr t current_hash now =
     (if signature t \<noteq> hmac cr (sig_data cr (at_token_id t) (binding_hash t) (at_workspace t) (approver t) (at_expires_at t))
        then Some Invalid_signature
      else if binding_hash t \<noteq> current_hash then Some Binding_modified
      else if now > at_expires_at t then Some (Approval_expired (at_expires_at t))
      else if consumed t then Some Already_consumed
      else None)"

record execution_request =
  rq_execution_id :: string
  rq_workspace :: string
  rq_agent :: string
  rq_task :: string
  rq_recommendation :: string
  rq_repo :: string
  rq_target_branch :: string
  rq_scoped_files :: "string list"
  rq_changes :: "(string \<times> string) list"
  rq_idempotency_key :: string
  rq_base_branch :: string

definition compute_payload_hash :: "crypto \<Rightarrow> execution_request \<Rightarrow> string" where
  "compute_payload_hash cr r = sha256 cr (dumps cr (sort (rq_changes r)))"

definition protected_branch :: "string \<Rightarrow> bool" where
  "protected_branch b \<longleftrightarrow> lower (strip b) \<in> PROTECTED_BRANCHES"

definition in_file_scope :: "string list \<Rightarrow> string \<Rightarrow> bool" where
  "in_file_scope pats f = list_ex (\<lambda>p. fnmatch f p) pats"

definition validate_scope :: "execution_request \<Rightarrow> deny_reason option" where
  "validate_scope r =
     (if protected_branch (rq_target_branch r) then Some (Protected_branch_violation (rq_target_branch r))
      else case find (\<lambda>(f, _). \<not> in_file_scope (rq_scoped_files r) f) (rq_changes r) of
             Some (f, _) \<Rightarrow> Some (Scope_violation f (rq_scoped_files r))
           | None \<Rightarrow> None)"

section \<open>The git client and the adapter\<close>

datatype git_error =
    Git_provider_error string
  | Protected_branch_error string
  | Auto_merge_forbidden_error

record pull_request =
  pl_repo :: string
  pl_number :: nat
  pl_title :: string
  pl_body :: string
  pl_head :: string
  pl_base :: string
  pl_merged :: bool
  pl_url :: string

record commit_entry =
  ce_repo :: string
  ce_branch :: string
  ce_sha :: string
  ce_message :: string
  ce_files :: "string list"

record mock_github =
  gh_branches :: "string \<rightharpoonup> (string \<rightharpoonup> string)"
  gh_pulls :: "pull_request list"
  gh_commits :: "commit_entry list"
  gh_ci :: "string \<rightharpoonup> string"
  pr_counter :: nat

fun digits :: "nat \<Rightarrow> string" where
  "digits n = (if n < 10 then [char_of (48 + n)] else digits (n div 10) @ [char_of (48 + n mod 10)])"

declare digits.simps [simp del]

definition pad4 :: "nat \<Rightarrow> string" where
  "pad4 n = replicate (4 - length (digits n)) (CHR ''0'') @ digits n"

definition seed_repo :: "string \<Rightarrow> string \<Rightarrow> string \<Rightarrow> mock_github \<Rightarrow> mock_github" where
  "seed_repo repo branch sha g =
     g\<lparr>gh_branches := (gh_branches g)(repo \<mapsto>
       (case gh_branches g repo of None \<Rightarrow> [branch \<mapsto> sha] | Some bs \<Rightarrow> bs(branch \<mapsto> sha)))\<rparr>"

definition mock_create_branch ::
    "string \<Rightarrow> string \<Rightarrow> string \<Rightarrow> mock_github \<Rightarrow> (git_error + string) \<times> mock_github" where
  "mock_create_branch repo base new g =
     (let g1 = (if gh_branches g repo = None then seed_repo repo base ''init-sha-000'' g else g);
          bs = the (gh_branches g1 repo)
      in case bs base of
           None \<Rightarrow> (Inl (Git_provider_error (''Base branch '' @ quoted base @ '' not found in repo '' @ quoted repo)), g1)
         | Some sha \<Rightarrow>
             if bs new \<noteq> None then (Inl (Git_provider_error (''Branch '' @ quoted new @ '' already exists in repo '' @ quoted repo)), g1)
             else (Inr sha, g1\<lparr>gh_branches := (gh_branches g1)(repo \<mapsto> bs(new \<mapsto> sha))\<rparr>))"

definition mock_commit_files ::
    "string \<Rightarrow> string \<Rightarrow> (string \<times> string) list \<Rightarrow> string \<Rightarrow> mock_github \<Rightarrow> (git_error + string) \<times> mock_github" where
  "mock_commit_files repo branch files msg g =
     (case gh_branches g repo of
        None \<Rightarrow> (Inl (Git_provider_error (''Branch '' @ quoted branch @ '' does not exist in repo '' @ quoted repo)), g)
      | Some bs \<Rightarrow>
          if bs branch = None then (Inl (Git_provider_error (''Branch '' @ quoted branch @ '' does not exist in repo '' @ quoted repo)), g)
          else let sha = ''sha-'' @ pad4 (length (filter (\<lambda>c. ce_repo c = repo) (gh_commits g)) + 1) @ ''-'' @ take 8 branch
               in (Inr sha,
                   g\<lparr>gh_commits := gh_commits g @ [\<lparr>ce_repo = repo, ce_branch = branch, ce_sha = sha,
                        ce_message = msg, ce_files = map fst files\<rparr>],
                     gh_branches := (gh_branches g)(repo \<mapsto> bs(branch \<mapsto> sha)),
                     gh_ci := (gh_ci g)(sha \<mapsto> ''pending'')\<rparr>))"

definition mock_create_pull_request ::
    "string \<Rightarrow> string \<Rightarrow> string \<Rightarrow> string \<Rightarrow> string \<Rightarrow> mock_github \<Rightarrow> (git_error + (nat \<times> string)) \<times> mock_github" where
  "mock_create_pull_request repo title body head base g =
     (let n = pr_counter g + 1;
          url = ''https://github.com/'' @ repo @ ''/pull/'' @ digits n
      in (Inr (n, url),
          g\<lparr>pr_counter := n, gh_pulls := gh_pulls g @ [\<lparr>pl_repo = repo, pl_number = n, pl_title = title,
            pl_body = body, pl_head = head, pl_base = base, pl_merged = False, pl_url = url\<rparr>]\<rparr>))"

definition mock_get_ci_status :: "string \<Rightarrow> string \<Rightarrow> mock_github \<Rightarrow> string" where
  "mock_get_ci_status repo ref g = (case gh_ci g ref of None \<Rightarrow> ''success'' | Some s \<Rightarrow> s)"

text \<open>The interface of a git client; the adapter puts the branch guards in front of it.\<close>

record 'g git_client =
  cl_create_branch :: "string \<Rightarrow> string \<Rightarrow> string \<Rightarrow> 'g \<Rightarrow> (git_error + string) \<times> 'g"
  cl_commit_files :: "string \<Rightarrow> string \<Rightarrow> (string \<times> string) list \<Rightarrow> string \<Rightarrow> 'g \<Rightarrow> (git_error + string) \<times> 'g"
  cl_create_pr :: "string \<Rightarrow> string \<Rightarrow> string \<Rightarrow> string \<Rightarrow> string \<Rightarrow> 'g \<Rightarrow> (git_error + (nat \<times> string)) \<times> 'g"
  cl_ci_status :: "string \<Rightarrow> string \<Rightarrow> 'g \<Rightarrow> string"

definition mock_client :: "mock_github git_client" where
  "mock_client = \<lparr>cl_create_branch = mock_create_branch, cl_commit_files = mock_commit_files,
     cl_create_pr = mock_create_pull_request, cl_ci_status = mock_get_ci_status\<rparr>"

definition ad_create_branch ::
    "'g git_client \<Rightarrow> string \<Rightarrow> string \<Rightarrow> string \<Rightarrow> 'g \<Rightarrow> (git_error + string) \<times> 'g" where
  "ad_create_branch cl repo base new g =
     (if protected_branch new then (Inl (Protected_branch_error (''Cannot create branch with protected name '' @ quoted new)), g)
      else cl_create_branch cl repo base new g)"

definition ad_commit_scoped_changes ::
    "'g git_client \<Rightarrow> string \<Rightarrow> string \<Rightarrow> (string \<times> string) list \<Rightarrow> string \<Rightarrow> 'g \<Rightarrow> (git_error + string) \<times> 'g" where
  "ad_commit_scoped_changes cl repo branch files msg g =
     (if protected_branch branch then (Inl (Protected_branch_error
        (''Direct commit to protected branch '' @ quoted branch @ '' is strictly forbidden.'')), g)
      else cl_commit_files cl repo branch files msg g)"

definition ad_auto_merge_pr :: "string \<Rightarrow> nat \<Rightarrow> git_error + unit" where
  "ad_auto_merge_pr repo n = Inl Auto_merge_forbidden_error"

section \<open>Storage\<close>

datatype exec_msg = M_text string | M_denied deny_reason | M_exn git_error

record timeline_event =
  tl_event_id :: string
  tl_execution :: string
  tl_stage :: string
  tl_message :: exec_msg
  tl_timestamp :: instant

record execution_result =
  xr_execution_id :: string
  xr_status :: execution_status
  xr_workspace :: string
  xr_repo :: string
  xr_branch :: "string option"
  xr_commit_sha :: "string option"
  xr_pr_number :: "nat option"
  xr_pr_url :: "string option"
  xr_ci_status :: "string option"
  xr_is_unmerged :: bool
  xr_replay :: bool
  xr_error :: "exec_msg option"
  xr_timeline :: "timeline_event list"
  xr_executed_at :: instant

record execution_row =
  xw_result :: execution_result
  xw_agent :: string
  xw_task :: string
  xw_recommendation :: string
  xw_base_branch :: string
  xw_target_branch :: string
  xw_idempotency_key :: string

record execution_db =
  execution_records :: "execution_row table"
  approval_tokens :: "approval_token table"
  execution_timeline :: "timeline_event table"

definition save_approval_token :: "approval_token \<Rightarrow> execution_db \<Rightarrow> execution_db" where
  "save_approval_token t db = db\<lparr>approval_tokens := insert_or_replace at_token_id t (approval_tokens db)\<rparr>"

definition mark_token_consumed :: "string \<Rightarrow> instant \<Rightarrow> execution_db \<Rightarrow> execution_db" where
  "mark_token_consumed tid now db = db\<lparr>approval_tokens := update_where (\<lambda>t. at_token_id t = tid)
     (\<lambda>t. t\<lparr>consumed := True, consumed_at := Some now\<rparr>) (approval_tokens db)\<rparr>"

definition get_approval_token :: "string \<Rightarrow> string \<Rightarrow> execution_db \<Rightarrow> approval_token option" where
  "get_approval_token tid ws db =
     find (\<lambda>t. at_token_id t = tid \<and> at_workspace t = ws) (approval_tokens db)"

definition get_timeline :: "string \<Rightarrow> execution_db \<Rightarrow> timeline_event list" where
  "get_timeline eid db = sort_key tl_timestamp (filter (\<lambda>e. tl_execution e = eid) (execution_timeline db))"

definition get_by_idempotency :: "string \<Rightarrow> string \<Rightarrow> execution_db \<Rightarrow> execution_result option" where
  "get_by_idempotency ws key db =
     map_option (\<lambda>w. (xw_result w)\<lparr>xr_replay := True,
         xr_timeline := get_timeline (xr_execution_id (xw_result w)) db\<rparr>)
       (find (\<lambda>w. xr_workspace (xw_result w) = ws \<and> xw_idempotency_key w = key) (execution_records db))"

text \<open>INSERT OR REPLACE against two unique keys: the execution identifier and (workspace, idempotency key).\<close>

definition save_execution :: "execution_request \<Rightarrow> execution_result \<Rightarrow> execution_db \<Rightarrow> execution_db" where
  "save_execution r res db =
     (let w = \<lparr>xw_result = res, xw_agent = rq_agent r, xw_task = rq_task r,
            xw_recommendation = rq_recommendation r, xw_base_branch = rq_base_branch r,
            xw_target_branch = rq_target_branch r, xw_idempotency_key = rq_idempotency_key r\<rparr>
      in db\<lparr>execution_records :=
             filter (\<lambda>x. xr_execution_id (xw_result x) \<noteq> xr_execution_id res
                \<and> (xr_workspace (xw_result x), xw_idempotency_key x) \<noteq> (xr_workspace res, rq_idempotency_key r))
               (execution_records db) @ [w],
            execution_timeline := fold (insert_or_ignore tl_event_id) (xr_timeline res) (execution_timeline db)\<rparr>)"

section \<open>The service\<close>

definition create_binding :: "crypto \<Rightarrow> instant \<Rightarrow> execution_request \<Rightarrow> int \<Rightarrow> string \<Rightarrow> execution_binding" where
  "create_binding cr now r expires_in_seconds nonce =
     \<lparr>eb_workspace = rq_workspace r, eb_agent = rq_agent r, eb_task = rq_task r,
      eb_recommendation = rq_recommendation r, eb_repo = rq_repo r, eb_base_branch = rq_base_branch r,
      eb_target_branch = rq_target_branch r, eb_scoped_files = rq_scoped_files r,
      change_payload_hash = compute_payload_hash cr r,
      eb_expires_at = now + expires_in_seconds * 1000000, eb_nonce = nonce\<rparr>"

definition issue_approval ::
    "crypto \<Rightarrow> instant \<Rightarrow> execution_binding \<Rightarrow> string \<Rightarrow> string \<Rightarrow> string \<Rightarrow> execution_db \<Rightarrow> approval_token \<times> execution_db" where
  "issue_approval cr now b appr tid nonce db =
     (let t = create_token cr now tid b appr nonce in (t, save_approval_token t db))"

definition current_binding :: "crypto \<Rightarrow> execution_request \<Rightarrow> approval_token \<Rightarrow> execution_binding" where
  "current_binding cr r t =
     (create_binding cr 0 r 0 (at_nonce t))\<lparr>eb_expires_at := at_expires_at t\<rparr>"

definition event :: "(nat \<Rightarrow> string) \<Rightarrow> instant \<Rightarrow> execution_request \<Rightarrow> nat \<Rightarrow> string \<Rightarrow> exec_msg \<Rightarrow> timeline_event" where
  "event uids now r i stage msg = \<lparr>tl_event_id = ''ev-'' @ uids i, tl_execution = rq_execution_id r,
     tl_stage = stage, tl_message = msg, tl_timestamp = now\<rparr>"

definition recommended_event :: "(nat \<Rightarrow> string) \<Rightarrow> instant \<Rightarrow> execution_request \<Rightarrow> timeline_event" where
  "recommended_event uids now r = event uids now r 0 ''RECOMMENDED''
     (M_text (''Recommendation '' @ rq_recommendation r @ '' prepared for execution''))"

definition failed_result ::
    "instant \<Rightarrow> execution_request \<Rightarrow> execution_status \<Rightarrow> exec_msg \<Rightarrow> timeline_event list \<Rightarrow> execution_result" where
  "failed_result now r st err evs = \<lparr>xr_execution_id = rq_execution_id r, xr_status = st,
     xr_workspace = rq_workspace r, xr_repo = rq_repo r, xr_branch = None, xr_commit_sha = None,
     xr_pr_number = None, xr_pr_url = None, xr_ci_status = None, xr_is_unmerged = True, xr_replay = False,
     xr_error = Some err, xr_timeline = evs, xr_executed_at = now\<rparr>"

definition denied ::
    "(nat \<Rightarrow> string) \<Rightarrow> instant \<Rightarrow> execution_request \<Rightarrow> deny_reason \<Rightarrow> execution_result" where
  "denied uids now r why = failed_result now r DENIED (M_denied why)
     [recommended_event uids now r, event uids now r 1 ''DENIED'' (M_denied why)]"

definition commit_message :: "execution_request \<Rightarrow> approval_token \<Rightarrow> string" where
  "commit_message r t = ''burnlens('' @ rq_recommendation r @ ''): apply optimization changes\<newline>\<newline>Approved-by: ''
     @ approver t @ ''\<newline>Task-ID: '' @ rq_task r @ ''\<newline>Agent-ID: '' @ rq_agent r"

definition pr_body :: "execution_request \<Rightarrow> approval_token \<Rightarrow> string" where
  "pr_body r t = ''## BurnLens Assisted Execution\<newline>\<newline>- **Recommendation**: `'' @ rq_recommendation r
     @ ''`\<newline>- **Agent**: `'' @ rq_agent r @ ''`\<newline>- **Task**: `'' @ rq_task r
     @ ''`\<newline>- **Approved By**: `'' @ approver t @ ''`\<newline>- **Scoped Files**: ''
     @ join '', '' (rq_scoped_files r)
     @ ''\<newline>\<newline>> **Notice**: Auto-merge is disabled under BL-AE-006. Human review and approval ''
     @ ''in GitHub is mandatory prior to merging.''"

text \<open>The workflow of step 7: its outcome, the stages recorded after the approval, and the client's state.\<close>

type_synonym workflow_outcome = "git_error + (string \<times> nat \<times> string \<times> string)"

definition git_workflow ::
    "'g git_client \<Rightarrow> execution_request \<Rightarrow> approval_token \<Rightarrow> 'g \<Rightarrow> workflow_outcome \<times> (string \<times> string) list \<times> 'g" where
  "git_workflow cl r t g =
     (let s0 = [(''EXECUTION_STARTED'', ''Creating branch '' @ quoted (rq_target_branch r))]
      in case ad_create_branch cl (rq_repo r) (rq_base_branch r) (rq_target_branch r) g of
           (Inl e, g1) \<Rightarrow> (Inl e, s0, g1)
         | (Inr _, g1) \<Rightarrow>
             (let s1 = s0 @ [(''BRANCH_CREATED'', ''Created branch '' @ quoted (rq_target_branch r))]
              in case ad_commit_scoped_changes cl (rq_repo r) (rq_target_branch r) (rq_changes r) (commit_message r t) g1 of
                   (Inl e, g2) \<Rightarrow> (Inl e, s1, g2)
                 | (Inr sha, g2) \<Rightarrow>
                     (let s2 = s1 @ [(''FILES_COMMITTED'',
                            ''Committed '' @ digits (length (rq_changes r)) @ '' files ('' @ sha @ '')'')];
                          title = ''[BurnLens Optimization] '' @ rq_recommendation r @ '' - Scoped Changes''
                      in case cl_create_pr cl (rq_repo r) title (pr_body r t) (rq_target_branch r)
                                (rq_base_branch r) g2 of
                           (Inl e, g3) \<Rightarrow> (Inl e, s2, g3)
                         | (Inr (n, url), g3) \<Rightarrow>
                             (let ci = cl_ci_status cl (rq_repo r)
                                         (if sha = [] then rq_target_branch r else sha) g3
                              in (Inr (sha, n, url, ci),
                                  s2 @ [(''PR_OPENED'', ''Opened PR #'' @ digits n),
                                        (''CI_RECORDED'', ''Initial CI status: '' @ ci),
                                        (''COMPLETED'', ''Execution completed safely; PR remains open and unmerged'')],
                                  g3)))))"

definition workflow_result ::
    "(nat \<Rightarrow> string) \<Rightarrow> instant \<Rightarrow> execution_request \<Rightarrow> approval_token \<Rightarrow> workflow_outcome \<Rightarrow> (string \<times> string) list
       \<Rightarrow> execution_result" where
  "workflow_result uids now r t out stages =
     (let tl0 = [recommended_event uids now r,
                 event uids now r 1 ''APPROVAL_VERIFIED'' (M_text (''Approved by '' @ approver t))];
          tl1 = tl0 @ map (\<lambda>(i, st, m). event uids now r (i + 2) st (M_text m)) (enumerate 0 stages)
      in case out of
           Inl e \<Rightarrow> failed_result now r FAILED (M_exn e)
             (tl1 @ [event uids now r (length tl1) ''FAILED'' (M_exn e)])
         | Inr (sha, n, url, ci) \<Rightarrow>
             \<lparr>xr_execution_id = rq_execution_id r, xr_status = EX_COMPLETED, xr_workspace = rq_workspace r,
              xr_repo = rq_repo r, xr_branch = Some (rq_target_branch r), xr_commit_sha = Some sha,
              xr_pr_number = Some n, xr_pr_url = Some url, xr_ci_status = Some ci, xr_is_unmerged = True,
              xr_replay = False, xr_error = None, xr_timeline = tl1, xr_executed_at = now\<rparr>)"

definition synced_token :: "execution_request \<Rightarrow> approval_token \<Rightarrow> execution_db \<Rightarrow> approval_token" where
  "synced_token r t db =
     (case get_approval_token (at_token_id t) (rq_workspace r) db of
        Some s \<Rightarrow> if consumed s then t\<lparr>consumed := True\<rparr> else t
      | None \<Rightarrow> t)"

definition verify :: "crypto \<Rightarrow> execution_request \<Rightarrow> approval_token \<Rightarrow> instant \<Rightarrow> execution_db \<Rightarrow> deny_reason option" where
  "verify cr r t now db =
     (if at_workspace t \<noteq> rq_workspace r
      then Some (Tenant_isolation_violation (at_workspace t) (rq_workspace r))
      else case is_valid cr (synced_token r t db) (compute_hash cr (current_binding cr r t)) now of
             Some e \<Rightarrow> Some e
           | None \<Rightarrow> validate_scope r)"

definition execute ::
    "crypto \<Rightarrow> 'g git_client \<Rightarrow> (nat \<Rightarrow> string) \<Rightarrow> execution_request \<Rightarrow> approval_token \<Rightarrow> instant \<Rightarrow> execution_db \<Rightarrow> 'g
       \<Rightarrow> execution_result \<times> execution_db \<times> 'g" where
  "execute cr cl uids r t now db g =
     (case get_by_idempotency (rq_workspace r) (rq_idempotency_key r) db of
        Some existing \<Rightarrow> (existing, db, g)
      | None \<Rightarrow>
          (case verify cr r t now db of
             Some why \<Rightarrow> (let res = denied uids now r why in (res, save_execution r res db, g))
           | None \<Rightarrow>
               (let db1 = mark_token_consumed (at_token_id t) now db;
                    (out, stages, g') = git_workflow cl r t g;
                    res = workflow_result uids now r t out stages
                in (res, save_execution r res db1, g'))))"

section \<open>The contract of a git client\<close>

text \<open>
  What the service relies on: \<open>tip\<close> reads the commit a branch points to and \<open>merged\<close> tells whether some pull
  request is merged. Creating a branch moves no existing branch, a commit moves only its own branch, and
  opening a pull request moves nothing and merges nothing.
\<close>

locale git_provider =
  fixes cl :: "'g git_client"
    and tip :: "string \<Rightarrow> string \<Rightarrow> 'g \<Rightarrow> string option"
    and merged :: "'g \<Rightarrow> bool"
  assumes create_keeps: "cl_create_branch cl repo base new g = (out, g') \<Longrightarrow> tip rp b g = Some sha \<Longrightarrow> tip rp b g' = Some sha"
    and create_new: "cl_create_branch cl repo base new g = (Inr x, g') \<Longrightarrow> tip repo new g = None"
    and commit_keeps: "cl_commit_files cl repo branch files msg g = (out, g') \<Longrightarrow> (rp, b) \<noteq> (repo, branch) \<Longrightarrow> tip rp b g' = tip rp b g"
    and pr_keeps: "cl_create_pr cl repo title body head base g = (out2, g') \<Longrightarrow> tip rp b g' = tip rp b g"
    and never_merged: "cl_create_branch cl repo base new g = (out, g1) \<Longrightarrow> merged g1 = merged g"
      "cl_commit_files cl repo branch files msg g = (out, g1) \<Longrightarrow> merged g1 = merged g"
      "cl_create_pr cl repo title body head base g = (out2, g1) \<Longrightarrow> merged g1 = merged g"
begin

lemma workflow_keeps_branches:
  assumes "git_workflow cl r t g = (out, stages, g')" and "tip rp b g = Some sha"
  shows "tip rp b g' = Some sha"
proof -
  obtain o1 g1 where c: "ad_create_branch cl (rq_repo r) (rq_base_branch r) (rq_target_branch r) g = (o1, g1)"
    by (metis surj_pair)
  then have t1: "tip rp b g1 = Some sha"
    using assms(2) create_keeps[of "rq_repo r" "rq_base_branch r" "rq_target_branch r" g o1 g1 rp b sha]
    by (auto simp: ad_create_branch_def split: if_splits)
  show ?thesis
  proof (cases o1)
    case (Inl e)
    with c t1 assms(1) show ?thesis by (simp add: git_workflow_def Let_def)
  next
    case (Inr x)
    then have "(rp, b) \<noteq> (rq_repo r, rq_target_branch r)"
      using c create_new[of "rq_repo r" "rq_base_branch r" "rq_target_branch r" g x g1] assms(2)
      by (auto simp: ad_create_branch_def split: if_splits)
    moreover obtain o2 g2 where d: "ad_commit_scoped_changes cl (rq_repo r) (rq_target_branch r) (rq_changes r)
        (commit_message r t) g1 = (o2, g2)" by (metis surj_pair)
    ultimately have t2: "tip rp b g2 = Some sha"
      using t1 commit_keeps[of "rq_repo r" "rq_target_branch r" "rq_changes r" "commit_message r t" g1 o2 g2 rp b]
      by (auto simp: ad_commit_scoped_changes_def split: if_splits)
    with c d Inr assms(1) pr_keeps show ?thesis
      by (auto simp: git_workflow_def Let_def split: sum.splits prod.splits)
  qed
qed

lemma workflow_never_merges:
  assumes "git_workflow cl r t g = (out, stages, g')"
  shows "merged g' = merged g"
  using assms
  by (auto simp: git_workflow_def Let_def ad_create_branch_def ad_commit_scoped_changes_def
      split: sum.splits prod.splits if_splits dest: never_merged)

end

definition mock_tip :: "string \<Rightarrow> string \<Rightarrow> mock_github \<Rightarrow> string option" where
  "mock_tip repo b g = Option.bind (gh_branches g repo) (\<lambda>bs. bs b)"

definition mock_merged :: "mock_github \<Rightarrow> bool" where
  "mock_merged g \<longleftrightarrow> (\<exists>p \<in> set (gh_pulls g). pl_merged p)"

interpretation mock: git_provider mock_client mock_tip mock_merged
proof unfold_locales
  show "cl_create_branch mock_client repo base new g = (out, g') \<Longrightarrow> mock_tip rp b g = Some sha \<Longrightarrow> mock_tip rp b g' = Some sha"
    for repo base new g out g' rp b sha
    by (auto simp: mock_client_def mock_create_branch_def seed_repo_def mock_tip_def Let_def bind_eq_Some_conv
        split: option.splits if_splits)
  show "cl_create_branch mock_client repo base new g = (Inr x, g') \<Longrightarrow> mock_tip repo new g = None"
    for repo base new g x g'
    by (auto simp: mock_client_def mock_create_branch_def seed_repo_def mock_tip_def Let_def
        split: option.splits if_splits)
  show "cl_commit_files mock_client repo branch files msg g = (out, g') \<Longrightarrow> (rp, b) \<noteq> (repo, branch) \<Longrightarrow> mock_tip rp b g' = mock_tip rp b g"
    for repo branch files msg g out g' rp b
    by (auto simp: mock_client_def mock_commit_files_def mock_tip_def Let_def split: option.splits if_splits)
qed (auto simp: mock_client_def mock_create_pull_request_def mock_create_branch_def mock_commit_files_def seed_repo_def
  mock_tip_def mock_merged_def Let_def split: option.splits if_splits)

section \<open>Properties of the service\<close>

lemma execute_cases:
  assumes "execute cr cl uids r t now db g = (res, db', g')"
  obtains
    (replay) "get_by_idempotency (rq_workspace r) (rq_idempotency_key r) db = Some res" "db' = db" "g' = g"
  | (denied) why where "get_by_idempotency (rq_workspace r) (rq_idempotency_key r) db = None"
      "verify cr r t now db = Some why" "res = denied uids now r why" "db' = save_execution r res db" "g' = g"
  | (ran) out stages where "get_by_idempotency (rq_workspace r) (rq_idempotency_key r) db = None"
      "verify cr r t now db = None" "git_workflow cl r t g = (out, stages, g')"
      "res = workflow_result uids now r t out stages"
      "db' = save_execution r res (mark_token_consumed (at_token_id t) now db)"
proof (cases "get_by_idempotency (rq_workspace r) (rq_idempotency_key r) db")
  case (Some x)
  with assms have "x = res" "db' = db" "g' = g" by (simp_all add: execute_def)
  with Some show thesis by (intro replay) simp_all
next
  case None
  show thesis
  proof (cases "verify cr r t now db")
    case (Some why)
    with None assms have "res = Execution.denied uids now r why" "db' = save_execution r res db" "g' = g"
      by (auto simp: execute_def Let_def)
    with Some None show thesis by (intro denied[of why]) simp_all
  next
    case vok: None
    obtain out stages gx where w: "git_workflow cl r t g = (out, stages, gx)" by (metis prod_cases3)
    from None vok w assms have "gx = g'" "res = workflow_result uids now r t out stages"
      "db' = save_execution r res (mark_token_consumed (at_token_id t) now db)"
      by (auto simp: execute_def Let_def)
    with None vok w show thesis by (intro ran[of out stages]) simp_all
  qed
qed

lemma synced_fields:
  "at_token_id (synced_token r t db) = at_token_id t" "binding_hash (synced_token r t db) = binding_hash t"
  "at_workspace (synced_token r t db) = at_workspace t" "approver (synced_token r t db) = approver t"
  "at_expires_at (synced_token r t db) = at_expires_at t" "signature (synced_token r t db) = signature t"
  by (simp_all add: synced_token_def split: option.split)

lemma synced_consumed:
  "consumed (synced_token r t db) \<longleftrightarrow>
     consumed t \<or> (\<exists>s. get_approval_token (at_token_id t) (rq_workspace r) db = Some s \<and> consumed s)"
  by (auto simp: synced_token_def split: option.split)

lemma validate_scope_ok:
  "validate_scope r = None \<longleftrightarrow> \<not> protected_branch (rq_target_branch r)
     \<and> (\<forall>(f, c) \<in> set (rq_changes r). in_file_scope (rq_scoped_files r) f)"
proof (cases "find (\<lambda>(f, _). \<not> in_file_scope (rq_scoped_files r) f) (rq_changes r)")
  case None
  then have "\<forall>(f, c) \<in> set (rq_changes r). in_file_scope (rq_scoped_files r) f" by (auto simp: find_None_iff)
  with None show ?thesis by (simp add: validate_scope_def)
next
  case (Some fc)
  from find_Some_setD[OF this] have "\<not> (\<forall>(f, c) \<in> set (rq_changes r). in_file_scope (rq_scoped_files r) f)"
    by (auto split: prod.splits)
  with Some show ?thesis by (simp add: validate_scope_def split: prod.split)
qed

lemma verify_ok:
  "verify cr r t now db = None \<longleftrightarrow>
     at_workspace t = rq_workspace r
     \<and> signature t = hmac cr (sig_data cr (at_token_id t) (binding_hash t) (at_workspace t) (approver t) (at_expires_at t))
     \<and> binding_hash t = compute_hash cr (current_binding cr r t) \<and> now \<le> at_expires_at t
     \<and> \<not> consumed (synced_token r t db) \<and> \<not> protected_branch (rq_target_branch r)
     \<and> (\<forall>(f, c) \<in> set (rq_changes r). in_file_scope (rq_scoped_files r) f)"
  by (simp add: verify_def is_valid_def synced_fields validate_scope_ok not_less split: option.split)

text \<open>C7: nothing reaches the git provider without a human approval of exactly this change: if an execution
  changes the provider's state, the token is of the request's workspace, carries a valid signature, is bound to
  the request's own parameters and payload, is not expired and not consumed, the target branch is not
  protected and every changed file is in the approved scope.\<close>

theorem changes_need_valid_approval:
  assumes "execute cr cl uids r t now db g = (res, db', g')" and "g' \<noteq> g"
  shows "at_workspace t = rq_workspace r
    \<and> signature t = hmac cr (sig_data cr (at_token_id t) (binding_hash t) (at_workspace t) (approver t) (at_expires_at t))
    \<and> binding_hash t = compute_hash cr (current_binding cr r t) \<and> now \<le> at_expires_at t
    \<and> \<not> consumed (synced_token r t db) \<and> \<not> protected_branch (rq_target_branch r)
    \<and> (\<forall>(f, c) \<in> set (rq_changes r). in_file_scope (rq_scoped_files r) f)"
  using assms(1)
proof (cases rule: execute_cases)
  case (ran out stages)
  then show ?thesis by (simp add: verify_ok)
qed (use assms(2) in auto)

text \<open>With the in-memory client, an execution never moves a branch that already exists, protected branches
  included, and merges no pull request, whatever the request, the token and the outcome.\<close>

theorem existing_branches_untouched:
  assumes "execute cr mock_client uids r t now db g = (res, db', g')" and "mock_tip repo b g = Some sha"
  shows "mock_tip repo b g' = Some sha \<and> mock_merged g' = mock_merged g"
  using assms(1)
proof (cases rule: execute_cases)
  case (ran out stages)
  with mock.workflow_keeps_branches[OF ran(3) assms(2)] mock.workflow_never_merges[OF ran(3)] show ?thesis by simp
qed (use assms(2) in auto)

lemma result_ids:
  "xr_execution_id (denied uids now r why) = rq_execution_id r" "xr_workspace (denied uids now r why) = rq_workspace r"
  "xr_execution_id (workflow_result uids now r t out stages) = rq_execution_id r"
  "xr_workspace (workflow_result uids now r t out stages) = rq_workspace r"
  by (auto simp: denied_def failed_result_def workflow_result_def Let_def split: sum.split prod.split)

lemma find_saved:
  assumes "xr_workspace res = rq_workspace r"
  shows "find (\<lambda>w. xr_workspace (xw_result w) = rq_workspace r \<and> xw_idempotency_key w = rq_idempotency_key r)
      (execution_records (save_execution r res db)) = Some \<lparr>xw_result = res, xw_agent = rq_agent r, xw_task = rq_task r,
            xw_recommendation = rq_recommendation r, xw_base_branch = rq_base_branch r,
            xw_target_branch = rq_target_branch r, xw_idempotency_key = rq_idempotency_key r\<rparr>"
proof -
  have "find (\<lambda>w. xr_workspace (xw_result w) = rq_workspace r \<and> xw_idempotency_key w = rq_idempotency_key r)
     (filter (\<lambda>x. xr_execution_id (xw_result x) \<noteq> xr_execution_id res
        \<and> (xr_workspace (xw_result x), xw_idempotency_key x) \<noteq> (xr_workspace res, rq_idempotency_key r))
       (execution_records db)) = None"
    using assms by (auto simp: find_None_iff)
  then show ?thesis using assms by (simp add: save_execution_def Let_def find_append)
qed

text \<open>Executions are idempotent per workspace and key: once a key has been used, every further execution with
  it, with whatever request and token, returns the recorded outcome marked as a replay and changes neither
  the database nor the git provider. This includes a recorded denial.\<close>

theorem idempotent_replay:
  assumes "execute cr cl uids r t now db g = (res, db1, g1)"
    and "get_by_idempotency (rq_workspace r) (rq_idempotency_key r) db = None"
    and "rq_workspace r2 = rq_workspace r" and "rq_idempotency_key r2 = rq_idempotency_key r"
  shows "\<exists>res2. execute cr cl uids2 r2 t2 now2 db1 g2 = (res2, db1, g2) \<and> xr_replay res2
    \<and> xr_status res2 = xr_status res \<and> xr_pr_number res2 = xr_pr_number res \<and> xr_error res2 = xr_error res"
proof -
  from assms(1) have "\<exists>db0. db1 = save_execution r res db0 \<and> xr_workspace res = rq_workspace r"
  proof (cases rule: execute_cases)
    case replay
    with assms(2) show ?thesis by simp
  qed (auto simp: result_ids)
  then obtain db0 where "db1 = save_execution r res db0" "xr_workspace res = rq_workspace r" by blast
  then have "get_by_idempotency (rq_workspace r2) (rq_idempotency_key r2) db1 =
      Some (res\<lparr>xr_replay := True, xr_timeline := get_timeline (xr_execution_id res) db1\<rparr>)"
    using find_saved[of res r db0] assms(3,4) by (simp add: get_by_idempotency_def)
  then show ?thesis by (simp add: execute_def)
qed

section \<open>Approval tokens are used once\<close>

datatype exec_event =
    Ev_issue instant execution_binding string string string
  | Ev_execute "nat \<Rightarrow> string" execution_request approval_token instant

fun exec_step :: "crypto \<Rightarrow> 'g git_client \<Rightarrow> exec_event \<Rightarrow> execution_db \<times> 'g \<Rightarrow> execution_db \<times> 'g" where
  "exec_step cr cl (Ev_issue now b appr tid nonce) s = (snd (issue_approval cr now b appr tid nonce (fst s)), snd s)"
| "exec_step cr cl (Ev_execute uids r t now) s = snd (execute cr cl uids r t now (fst s) (snd s))"

definition spent :: "string \<Rightarrow> string \<Rightarrow> execution_db \<Rightarrow> bool" where
  "spent tid ws db \<longleftrightarrow> (\<exists>s. get_approval_token tid ws db = Some s \<and> consumed s)"

definition reissues :: "string \<Rightarrow> exec_event \<Rightarrow> bool" where
  "reissues tid e = (case e of Ev_issue _ _ _ tid' _ \<Rightarrow> tid' = tid | Ev_execute _ _ _ _ \<Rightarrow> False)"

lemma tokens_save [simp]: "approval_tokens (save_execution r res db) = approval_tokens db"
  by (simp add: save_execution_def Let_def)

lemma find_marked:
  "find (\<lambda>t. at_token_id t = tid \<and> at_workspace t = ws)
     (update_where (\<lambda>t. at_token_id t = tid') (\<lambda>t. t\<lparr>consumed := True, consumed_at := Some now\<rparr>) ts) =
   map_option (\<lambda>t. if tid = tid' then t\<lparr>consumed := True, consumed_at := Some now\<rparr> else t)
     (find (\<lambda>t. at_token_id t = tid \<and> at_workspace t = ws) ts)"
  by (induction ts) (auto simp: update_where_def)

lemma spent_mark: "spent tid ws db \<Longrightarrow> spent tid ws (mark_token_consumed tid' now db)"
  by (cases "tid = tid'") (auto simp: spent_def get_approval_token_def mark_token_consumed_def find_marked)

lemma spent_save [simp]: "spent tid ws (save_execution r res db) = spent tid ws db"
  by (simp add: spent_def get_approval_token_def)

lemma spent_execute: "spent tid ws db \<Longrightarrow> execute cr cl uids r t now db g = (res, db', g') \<Longrightarrow> spent tid ws db'"
proof -
  assume s: "spent tid ws db" and "execute cr cl uids r t now db g = (res, db', g')"
  from this(2) show ?thesis
    by (cases rule: execute_cases) (use s in \<open>simp_all add: spent_mark\<close>)
qed

lemma spent_issue:
  "spent tid ws db \<Longrightarrow> tid' \<noteq> tid \<Longrightarrow> spent tid ws (snd (issue_approval cr now b appr tid' nonce db))"
proof -
  assume s: "spent tid ws db" "tid' \<noteq> tid"
  have "find (\<lambda>t. at_token_id t = tid \<and> at_workspace t = ws) (filter (\<lambda>x. at_token_id x \<noteq> tid') (approval_tokens db))
      = find (\<lambda>t. at_token_id t = tid \<and> at_workspace t = ws) (approval_tokens db)"
    using s(2) by (intro find_filter_disjoint) auto
  with s show ?thesis
    by (auto simp: spent_def issue_approval_def save_approval_token_def get_approval_token_def insert_or_replace_def
        find_append create_token_def Let_def)
qed

interpretation token_use: absorbing_system "exec_step cr cl" "\<lambda>e. \<not> reissues tid e" "\<lambda>_. True" "\<lambda>s. spent tid ws (fst s)"
  for cr :: crypto and cl :: "'g git_client" and tid ws
proof unfold_locales
  fix s :: "execution_db \<times> 'g" and e
  assume "\<not> reissues tid e" "spent tid ws (fst s)"
  then show "spent tid ws (fst (exec_step cr cl e s))"
  proof (cases e)
    case (Ev_execute uids r t now)
    obtain res db' g' where "execute cr cl uids r t now (fst s) (snd s) = (res, db', g')" by (metis prod_cases3)
    with spent_execute[OF \<open>spent tid ws (fst s)\<close> this] Ev_execute show ?thesis by simp
  qed (simp add: reissues_def spent_issue)
qed simp

lemma status_ran: "xr_status (workflow_result uids now r t out stages) \<in> {EX_COMPLETED, FAILED}"
  by (auto simp: workflow_result_def failed_result_def Let_def split: sum.split prod.split)

lemma spent_after_run:
  assumes "execute cr cl uids r t now db g = (res, db1, g1)"
    and "get_by_idempotency (rq_workspace r) (rq_idempotency_key r) db = None" and "xr_status res \<noteq> DENIED"
    and "get_approval_token (at_token_id t) (rq_workspace r) db = Some s"
  shows "spent (at_token_id t) (rq_workspace r) db1"
  using assms(1)
proof (cases rule: execute_cases)
  case (denied why)
  with assms(3) show ?thesis by (simp add: denied_def failed_result_def)
next
  case (ran out stages)
  with assms(4) show ?thesis
    by (simp add: spent_def get_approval_token_def mark_token_consumed_def find_marked)
qed (use assms(2) in simp)


text \<open>The binding hash does not separate a scope of two patterns from a scope of one pattern that contains a
  comma, so an approval for the latter is accepted for the former: here a scope that admits one odd file
  name has the hash of a scope that admits every file.\<close>

theorem binding_scope_ambiguous:
  "compute_hash cr (b\<lparr>eb_scoped_files := [''*,docs/a'']\<rparr>) = compute_hash cr (b\<lparr>eb_scoped_files := [''*'', ''docs/a'']\<rparr>)
   \<and> in_file_scope [''*'', ''docs/a''] f \<and> \<not> in_file_scope [''*,docs/a''] ''src/main.py''"
proof -
  have "sort [''*'', ''docs/a''] = [''*'', ''docs/a'']" by code_simp
  then have "compute_hash cr (b\<lparr>eb_scoped_files := [''*,docs/a'']\<rparr>) =
      compute_hash cr (b\<lparr>eb_scoped_files := [''*'', ''docs/a'']\<rparr>)"
    by (simp add: compute_hash_def)
  moreover have "fnmatch f ''*''" by (simp add: fnmatch_def glob_star)
  moreover have "\<not> in_file_scope [''*,docs/a''] ''src/main.py''" by code_simp
  ultimately show ?thesis by (simp add: in_file_scope_def)
qed

section \<open>A concrete execution\<close>

definition toy_crypto :: crypto where
  "toy_crypto = \<lparr>sha256 = id, hmac = id, isoformat = (\<lambda>_. ''T''), dumps = (\<lambda>xs. concat (map fst xs))\<rparr>"

definition a_request :: execution_request where
  "a_request = \<lparr>rq_execution_id = ''x1'', rq_workspace = ''w'', rq_agent = ''a'', rq_task = ''t'',
     rq_recommendation = ''rec'', rq_repo = ''org/app'', rq_target_branch = ''opt-1'',
     rq_scoped_files = [''src/*''], rq_changes = [(''src/a.py'', ''pass'')], rq_idempotency_key = ''k1'',
     rq_base_branch = ''main''\<rparr>"

definition a_token :: approval_token where
  "a_token = create_token toy_crypto 0 ''tok'' (create_binding toy_crypto 0 a_request 1 []) ''alice'' []"

definition a_store :: execution_db where
  "a_store = \<lparr>execution_records = [], approval_tokens = [a_token], execution_timeline = []\<rparr>"

definition a_git :: mock_github where
  "a_git = \<lparr>gh_branches = [''org/app'' \<mapsto> [''main'' \<mapsto> ''m0'']], gh_pulls = [], gh_commits = [], gh_ci = Map.empty,
     pr_counter = 100\<rparr>"

lemma a_token_fields [simp]:
  "at_token_id a_token = ''tok''" "at_workspace a_token = ''w''" "consumed a_token = False"
  "at_expires_at a_token = 1000000" "at_nonce a_token = []"
  by (simp_all add: a_token_def create_token_def create_binding_def a_request_def Let_def)

lemma a_request_fields [simp]:
  "rq_workspace a_request = ''w''" "rq_idempotency_key a_request = ''k1''" "rq_target_branch a_request = ''opt-1''"
  "rq_repo a_request = ''org/app''" "rq_base_branch a_request = ''main''"
  by (simp_all add: a_request_def)

lemma a_verify: "verify toy_crypto a_request a_token 5 a_store = None"
proof -
  have "in_file_scope [''src/*''] ''src/a.py''" "\<not> protected_branch ''opt-1''" by code_simp+
  then have "\<forall>(f, c) \<in> set (rq_changes a_request). in_file_scope (rq_scoped_files a_request) f"
    by (simp add: a_request_def)
  moreover have "\<not> consumed (synced_token a_request a_token a_store)"
    by (simp add: synced_consumed get_approval_token_def a_store_def)
  moreover have "current_binding toy_crypto a_request a_token = create_binding toy_crypto 0 a_request 1 []"
    by (simp add: current_binding_def create_binding_def)
  ultimately show ?thesis using \<open>\<not> protected_branch ''opt-1''\<close>
    by (simp add: verify_ok) (simp add: a_token_def create_token_def create_binding_def Let_def)
qed

lemma a_fresh: "get_by_idempotency ''w'' ''k1'' a_store = None"
  by (simp add: get_by_idempotency_def a_store_def)

lemma a_workflow:
  obtains sha n url ci stages g' where
    "git_workflow mock_client a_request a_token a_git = (Inr (sha, n, url, ci), stages, g')" "pr_counter g' = 101"
proof -
  have np: "\<not> protected_branch ''opt-1''" by code_simp
  have "case git_workflow mock_client a_request a_token a_git of (Inr _, _, g') \<Rightarrow> pr_counter g' = 101 | _ \<Rightarrow> False"
    by (simp add: git_workflow_def ad_create_branch_def ad_commit_scoped_changes_def np mock_client_def
        mock_create_branch_def mock_commit_files_def mock_create_pull_request_def a_git_def Let_def)
  then show thesis using that by (auto split: prod.splits sum.splits)
qed

lemma a_execution:
  obtains res db' g' where "execute toy_crypto mock_client (\<lambda>_. []) a_request a_token 5 a_store a_git = (res, db', g')"
    "xr_status res = EX_COMPLETED" "g' \<noteq> a_git"
proof -
  obtain sha n url ci stages g' where
    w: "git_workflow mock_client a_request a_token a_git = (Inr (sha, n, url, ci), stages, g')" "pr_counter g' = 101"
    by (rule a_workflow)
  then have "g' \<noteq> a_git" by (auto simp: a_git_def)
  with w that show thesis by (simp add: execute_def a_fresh a_verify Let_def workflow_result_def)
qed

theorem changes_need_valid_approval_witness: "\<not> protected_branch ''opt-1'' \<and> (5 :: int) \<le> 1000000"
proof -
  obtain res db' g' where e: "execute toy_crypto mock_client (\<lambda>_. []) a_request a_token 5 a_store a_git = (res, db', g')"
    and "g' \<noteq> a_git" by (rule a_execution)
  from changes_need_valid_approval[OF this] show ?thesis by simp
qed

theorem existing_branches_untouched_witness:
  "\<exists>res db' g'. execute toy_crypto mock_client (\<lambda>_. []) a_request a_token 5 a_store a_git = (res, db', g')
     \<and> mock_tip ''org/app'' ''main'' g' = Some ''m0''"
proof -
  obtain res db' g' where e: "execute toy_crypto mock_client (\<lambda>_. []) a_request a_token 5 a_store a_git = (res, db', g')"
    by (rule a_execution)
  have "mock_tip ''org/app'' ''main'' a_git = Some ''m0''" by (simp add: mock_tip_def a_git_def)
  from existing_branches_untouched[OF e this] e show ?thesis by blast
qed

theorem idempotent_replay_witness:
  "\<exists>db1 res2. execute toy_crypto mock_client (\<lambda>_. []) a_request a_token 6 db1 a_git = (res2, db1, a_git) \<and> xr_replay res2"
proof -
  obtain res db' g' where e: "execute toy_crypto mock_client (\<lambda>_. []) a_request a_token 5 a_store a_git = (res, db', g')"
    by (rule a_execution)
  from idempotent_replay[OF e, of a_request "\<lambda>_. []" a_token 6 a_git] show ?thesis by (simp add: a_fresh) blast
qed


end
