(* ===== verification/Trust.thy ===== *)
theory Trust
  imports BL_Prelude
begin

text \<open>
  \<open>burnlens/trust\<close>: the deterministic trust score of an agent (\<open>calculator.py\<close>), its storage, and
  the decision whether an action may run without a human (\<open>engine.py\<close>). Rates and scores are reals;
  the SHA-256 fingerprint column is not modelled. Reasons are represented by template and arguments.
\<close>

section \<open>Score\<close>

definition MINIMUM_TASK_HISTORY_THRESHOLD :: int where
  "MINIMUM_TASK_HISTORY_THRESHOLD = 10"

definition SPARSE_HISTORY_PRIOR_SCORE :: real where
  "SPARSE_HISTORY_PRIOR_SCORE = 30"

datatype autonomy_level = RESTRICTED | STANDARD | EARNED_AUTONOMY

definition HIGH_RISK_ACTIONS :: "string set" where
  "HIGH_RISK_ACTIONS = {''change_iam'', ''modify_security_policy'', ''drop_database'', ''direct_push_main'',
     ''direct_push_master'', ''auto_merge_production'', ''secret_access''}"

record evidence =
  ev_success :: real
  ev_accepted :: real
  ev_rollback :: real
  ev_violation :: real
  ev_waste :: real
  ev_total_tasks :: int
  ev_total_spend :: usd

record trust_breakdown =
  outcome_points :: real
  success_points :: real
  compliance_points :: real
  rollback_points :: real
  efficiency_points :: real
  br_raw_score :: real
  br_effective :: real
  sparse_dampened :: bool

record trust_profile =
  tp_agent :: string
  tp_workspace :: string
  trust_score :: real
  task_success_rate :: real
  accepted_outcome_rate :: real
  rollback_rate :: real
  policy_violation_rate :: real
  waste_ratio :: real
  total_tasks :: int
  total_spend_usd :: usd
  autonomy_level :: autonomy_level
  is_sparse_history :: bool
  breakdown :: trust_breakdown
  calculated_at :: instant

definition clamp01 :: "real \<Rightarrow> real" where
  "clamp01 x = max 0 (min 1 x)"

definition raw_score :: "evidence \<Rightarrow> real" where
  "raw_score e = max 0 (min 100 (clamp01 (ev_accepted e) * 35 + clamp01 (ev_success e) * 25
     + (1 - clamp01 (ev_violation e)) * 20 + (1 - clamp01 (ev_rollback e)) * 10 + (1 - clamp01 (ev_waste e)) * 10))"

definition is_sparse :: "evidence \<Rightarrow> bool" where
  "is_sparse e \<longleftrightarrow> ev_total_tasks e < MINIMUM_TASK_HISTORY_THRESHOLD"

definition effective_score :: "evidence \<Rightarrow> real" where
  "effective_score e =
     (if is_sparse e
      then (let c = of_int (ev_total_tasks e) / of_int MINIMUM_TASK_HISTORY_THRESHOLD
            in py_round (SPARSE_HISTORY_PRIOR_SCORE * (1 - c) + raw_score e * c) 1)
      else py_round (raw_score e) 1)"

definition level_for :: "bool \<Rightarrow> real \<Rightarrow> autonomy_level" where
  "level_for sparse score =
     (if sparse \<or> score < 50 then RESTRICTED else if score < 80 then STANDARD else EARNED_AUTONOMY)"

definition calculate_score :: "instant \<Rightarrow> string \<Rightarrow> string \<Rightarrow> evidence \<Rightarrow> trust_profile" where
  "calculate_score now agent ws e =
     \<lparr>tp_agent = agent, tp_workspace = ws, trust_score = effective_score e,
      task_success_rate = py_round (clamp01 (ev_success e)) 4,
      accepted_outcome_rate = py_round (clamp01 (ev_accepted e)) 4,
      rollback_rate = py_round (clamp01 (ev_rollback e)) 4,
      policy_violation_rate = py_round (clamp01 (ev_violation e)) 4,
      waste_ratio = py_round (clamp01 (ev_waste e)) 4,
      total_tasks = ev_total_tasks e, total_spend_usd = py_round (ev_total_spend e) 4,
      autonomy_level = level_for (is_sparse e) (effective_score e), is_sparse_history = is_sparse e,
      breakdown = \<lparr>outcome_points = py_round (clamp01 (ev_accepted e) * 35) 2,
        success_points = py_round (clamp01 (ev_success e) * 25) 2,
        compliance_points = py_round ((1 - clamp01 (ev_violation e)) * 20) 2,
        rollback_points = py_round ((1 - clamp01 (ev_rollback e)) * 10) 2,
        efficiency_points = py_round ((1 - clamp01 (ev_waste e)) * 10) 2,
        br_raw_score = py_round (raw_score e) 1, br_effective = effective_score e,
        sparse_dampened = is_sparse e\<rparr>,
      calculated_at = now\<rparr>"

section \<open>Storage and engine\<close>

datatype elig_reason =
    High_risk string
  | Irreversible
  | Over_cap usd usd
  | Level_too_low autonomy_level real
  | Granted real usd

record eligibility_check =
  el_agent :: string
  el_workspace :: string
  el_action :: string
  el_cost :: usd
  is_autonomous_eligible :: bool
  requires_human_approval :: bool
  el_trust_score :: real
  el_level :: autonomy_level
  el_reason :: elig_reason
  el_evaluated_at :: instant

record trust_db =
  trust_profiles :: "trust_profile table"
  eligibility_audits :: "(string \<times> eligibility_check) table"

definition tp_key :: "trust_profile \<Rightarrow> string \<times> string" where
  "tp_key p = (tp_agent p, tp_workspace p)"

definition save_profile :: "trust_profile \<Rightarrow> trust_db \<Rightarrow> trust_db" where
  "save_profile p db = db\<lparr>trust_profiles := insert_or_replace tp_key p (trust_profiles db)\<rparr>"

definition get_profile :: "string \<Rightarrow> string \<Rightarrow> trust_db \<Rightarrow> trust_profile option" where
  "get_profile agent ws db = lookup_key tp_key (agent, ws) (trust_profiles db)"

definition record_eligibility_audit :: "string \<Rightarrow> eligibility_check \<Rightarrow> trust_db \<Rightarrow> trust_db" where
  "record_eligibility_audit aid c db =
     db\<lparr>eligibility_audits := insert_or_replace fst (aid, c) (eligibility_audits db)\<rparr>"

definition evaluate_agent_trust :: "instant \<Rightarrow> string \<Rightarrow> string \<Rightarrow> evidence \<Rightarrow> trust_db \<Rightarrow> trust_profile \<times> trust_db" where
  "evaluate_agent_trust now agent ws e db =
     (let p = calculate_score now agent ws e in (p, save_profile p db))"

definition no_evidence :: evidence where
  "no_evidence = \<lparr>ev_success = 0, ev_accepted = 0, ev_rollback = 0, ev_violation = 0, ev_waste = 0,
     ev_total_tasks = 0, ev_total_spend = 0\<rparr>"

definition eligibility ::
    "instant \<Rightarrow> trust_profile \<Rightarrow> string \<Rightarrow> string \<Rightarrow> string \<Rightarrow> usd \<Rightarrow> bool \<Rightarrow> usd \<Rightarrow> eligibility_check" where
  "eligibility now p agent ws act cost reversible cap =
     (let mk = (\<lambda>ok why. \<lparr>el_agent = agent, el_workspace = ws, el_action = act, el_cost = cost,
            is_autonomous_eligible = ok, requires_human_approval = \<not> ok, el_trust_score = trust_score p,
            el_level = autonomy_level p, el_reason = why, el_evaluated_at = now\<rparr>)
      in if lower (strip act) \<in> HIGH_RISK_ACTIONS then mk False (High_risk act)
         else if \<not> reversible then mk False Irreversible
         else if cost > cap then mk False (Over_cap cost cap)
         else if autonomy_level p \<noteq> EARNED_AUTONOMY then mk False (Level_too_low (autonomy_level p) (trust_score p))
         else mk True (Granted (trust_score p) cost))"

definition check_autonomy_eligibility ::
    "string \<Rightarrow> instant \<Rightarrow> string \<Rightarrow> string \<Rightarrow> string \<Rightarrow> usd \<Rightarrow> bool \<Rightarrow> usd \<Rightarrow> trust_db \<Rightarrow> eligibility_check \<times> trust_db" where
  "check_autonomy_eligibility uid now agent ws act cost reversible cap db =
     (let (p, db1) = (case get_profile agent ws db of
            Some p \<Rightarrow> (p, db) | None \<Rightarrow> evaluate_agent_trust now agent ws no_evidence db);
          c = eligibility now p agent ws act cost reversible cap
      in (c, record_eligibility_audit (''audit-'' @ uid) c db1))"

section \<open>Properties\<close>

lemma clamp01_range: "0 \<le> clamp01 x \<and> clamp01 x \<le> 1"
  by (simp add: clamp01_def)

lemma clamp01_mono: "x \<le> y \<Longrightarrow> clamp01 x \<le> clamp01 y"
  by (auto simp: clamp01_def)

lemma raw_score_range: "0 \<le> raw_score e \<and> raw_score e \<le> 100"
  by (simp add: raw_score_def)

lemma py_round_range: "0 \<le> x \<Longrightarrow> x \<le> 100 \<Longrightarrow> 0 \<le> py_round x n \<and> py_round x n \<le> 100"
  using py_round_mono[of 0 x n] py_round_mono[of x 100 n] by simp

lemma effective_range: "0 \<le> ev_total_tasks e \<Longrightarrow> 0 \<le> effective_score e \<and> effective_score e \<le> 100"
proof -
  assume t: "0 \<le> ev_total_tasks e"
  show ?thesis
  proof (cases "is_sparse e")
    case True
    define c where "c = of_int (ev_total_tasks e) / (10 :: real)"
    have c: "0 \<le> c" "c \<le> 1" using True t
      by (auto simp: c_def is_sparse_def MINIMUM_TASK_HISTORY_THRESHOLD_def)
    have r: "0 \<le> raw_score e" "raw_score e \<le> 100" using raw_score_range by auto
    have "raw_score e * c \<le> 100 * c" using r c by (intro mult_right_mono) auto
    moreover have "0 \<le> raw_score e * c" using r c by simp
    ultimately have "0 \<le> 30 * (1 - c) + raw_score e * c" "30 * (1 - c) + raw_score e * c \<le> 100"
      using c by (auto simp: algebra_simps)
    with True show ?thesis
      by (simp add: effective_score_def SPARSE_HISTORY_PRIOR_SCORE_def MINIMUM_TASK_HISTORY_THRESHOLD_def
          Let_def py_round_range c_def)
  next
    case False
    then show ?thesis using raw_score_range[of e] by (simp add: effective_score_def py_round_range)
  qed
qed

text \<open>A trust score lies between 0 and 100; the earned-autonomy tier is given exactly to agents with at least
  ten tasks and a score of at least 80, and any sparse history is restricted.\<close>

theorem trust_score_sound:
  assumes "0 \<le> ev_total_tasks e" and "p = calculate_score now agent ws e"
  shows "0 \<le> trust_score p \<and> trust_score p \<le> 100
    \<and> (autonomy_level p = EARNED_AUTONOMY \<longleftrightarrow> 10 \<le> total_tasks p \<and> 80 \<le> trust_score p)
    \<and> (total_tasks p < 10 \<longrightarrow> autonomy_level p = RESTRICTED)"
  using effective_range[OF assms(1)] assms(2)
  by (auto simp: calculate_score_def level_for_def is_sparse_def MINIMUM_TASK_HISTORY_THRESHOLD_def)

text \<open>Better evidence never lowers the score: for equal task counts, a higher success and acceptance rate
  together with lower rollback, violation and waste rates gives at least the same score.\<close>

theorem trust_score_monotone:
  assumes "ev_success e \<le> ev_success f" and "ev_accepted e \<le> ev_accepted f"
    and "ev_rollback f \<le> ev_rollback e" and "ev_violation f \<le> ev_violation e" and "ev_waste f \<le> ev_waste e"
    and "ev_total_tasks e = ev_total_tasks f" and "0 \<le> ev_total_tasks e"
  shows "effective_score e \<le> effective_score f"
proof -
  have "raw_score e \<le> raw_score f"
    using clamp01_mono[OF assms(1)] clamp01_mono[OF assms(2)] clamp01_mono[OF assms(3)] clamp01_mono[OF assms(4)]
      clamp01_mono[OF assms(5)]
    unfolding raw_score_def
    by (intro max.mono min.mono add_mono mult_right_mono order_refl) auto
  then show ?thesis
    using assms(6,7)
    by (auto simp: effective_score_def is_sparse_def MINIMUM_TASK_HISTORY_THRESHOLD_def Let_def
        intro!: py_round_mono mult_right_mono divide_right_mono)
qed

lemma eligibility_iff:
  "is_autonomous_eligible (eligibility now p agent ws act cost reversible cap) \<longleftrightarrow>
     lower (strip act) \<notin> HIGH_RISK_ACTIONS \<and> reversible \<and> cost \<le> cap \<and> autonomy_level p = EARNED_AUTONOMY"
  "requires_human_approval (eligibility now p agent ws act cost reversible cap) \<longleftrightarrow>
     \<not> is_autonomous_eligible (eligibility now p agent ws act cost reversible cap)"
  by (simp_all add: eligibility_def Let_def)

lemma no_evidence_restricted: "autonomy_level (calculate_score now agent ws no_evidence) = RESTRICTED"
  by (simp add: calculate_score_def level_for_def is_sparse_def no_evidence_def MINIMUM_TASK_HISTORY_THRESHOLD_def)

lemma check_eligibility_eq:
  "check_autonomy_eligibility uid now agent ws act cost reversible cap db =
     (let p = (case get_profile agent ws db of Some p \<Rightarrow> p | None \<Rightarrow> calculate_score now agent ws no_evidence);
          db1 = (case get_profile agent ws db of Some _ \<Rightarrow> db
             | None \<Rightarrow> save_profile (calculate_score now agent ws no_evidence) db);
          c = eligibility now p agent ws act cost reversible cap
      in (c, record_eligibility_audit (''audit-'' @ uid) c db1))"
  by (simp add: check_autonomy_eligibility_def evaluate_agent_trust_def Let_def split: option.split)

text \<open>An action runs without a human only if it is not high-risk, is reversible, costs at most the cap, and
  the agent's stored profile has the earned-autonomy tier; in every other case human approval is required.
  Every decision is written to the audit table.\<close>

theorem autonomy_gate:
  assumes "check_autonomy_eligibility uid now agent ws act cost reversible cap db = (c, db')"
  shows "(is_autonomous_eligible c \<longleftrightarrow>
      lower (strip act) \<notin> HIGH_RISK_ACTIONS \<and> reversible \<and> cost \<le> cap
      \<and> (\<exists>p. get_profile agent ws db = Some p \<and> autonomy_level p = EARNED_AUTONOMY))
    \<and> requires_human_approval c = (\<not> is_autonomous_eligible c)
    \<and> lookup_key fst (''audit-'' @ uid) (eligibility_audits db') = Some (''audit-'' @ uid, c)"
proof -
  let ?p = "case get_profile agent ws db of Some p \<Rightarrow> p | None \<Rightarrow> calculate_score now agent ws no_evidence"
  from assms have c: "c = eligibility now ?p agent ws act cost reversible cap"
    and "lookup_key fst (''audit-'' @ uid) (eligibility_audits db') = Some (''audit-'' @ uid, c)"
    by (auto simp: check_eligibility_eq Let_def record_eligibility_audit_def table_simps)
  then show ?thesis
    by (simp add: eligibility_iff no_evidence_restricted split: option.split)
qed

text \<open>A stored profile is the one read back, and other agents and workspaces keep theirs.\<close>

theorem profile_roundtrip:
  "get_profile a w (save_profile p db) = (if (a, w) = (tp_agent p, tp_workspace p) then Some p else get_profile a w db)"
  using row_table.get_put[of tp_key "(a, w)" p "trust_profiles db"]
  by (simp add: get_profile_def save_profile_def tp_key_def)

definition good_agent :: evidence where
  "good_agent = \<lparr>ev_success = 1, ev_accepted = 1, ev_rollback = 0, ev_violation = 0, ev_waste = 0,
     ev_total_tasks = 20, ev_total_spend = 10\<rparr>"

lemma good_agent_score: "effective_score good_agent = 100"
  by (simp add: effective_score_def is_sparse_def raw_score_def good_agent_def clamp01_def
      MINIMUM_TASK_HISTORY_THRESHOLD_def)

theorem trust_score_sound_witness: "autonomy_level (calculate_score 0 ''a'' ''w'' good_agent) = EARNED_AUTONOMY"
  using trust_score_sound[OF _ refl, of good_agent 0 "''a''" "''w''"]
  by (simp add: calculate_score_def good_agent_score) (simp add: good_agent_def)

theorem trust_score_monotone_witness: "effective_score (good_agent\<lparr>ev_waste := 1\<rparr>) \<le> effective_score good_agent"
  using trust_score_monotone[of "good_agent\<lparr>ev_waste := 1\<rparr>" good_agent] by (simp add: good_agent_def)

theorem autonomy_gate_witness:
  "is_autonomous_eligible (fst (check_autonomy_eligibility ''u'' 1 ''a'' ''w'' ''resize_cache'' 2 True 5
     \<lparr>trust_profiles = [calculate_score 0 ''a'' ''w'' good_agent], eligibility_audits = []\<rparr>))"
proof -
  let ?p = "calculate_score 0 ''a'' ''w'' good_agent"
  let ?db = "\<lparr>trust_profiles = [?p], eligibility_audits = []\<rparr>"
  obtain c db' where c: "check_autonomy_eligibility ''u'' 1 ''a'' ''w'' ''resize_cache'' 2 True 5 ?db = (c, db')"
    by fastforce
  have "get_profile ''a'' ''w'' ?db = Some ?p"
    by (simp add: get_profile_def lookup_key_def tp_key_def calculate_score_def)
  moreover have "autonomy_level ?p = EARNED_AUTONOMY"
    by (simp add: calculate_score_def good_agent_score level_for_def is_sparse_def)
      (simp add: good_agent_def MINIMUM_TASK_HISTORY_THRESHOLD_def)
  moreover have "lower (strip ''resize_cache'') \<notin> HIGH_RISK_ACTIONS" by code_simp
  ultimately show ?thesis using autonomy_gate[OF c] c by simp
qed

end
