(* ===== verification/Savings_Verification.thy ===== *)
theory Savings_Verification
  imports BL_Prelude
begin

text \<open>
  \<open>burnlens/verification\<close>: baseline snapshots, the verdict on realised savings and outcome quality, and
  their storage. The fingerprint of a snapshot is a parameter. Errors (ValueError) are values. The
  evidence dictionary repeats numbers of the record and the snapshot and is not modelled; the reason text is
  represented by template and arguments.
\<close>

datatype verdict = V_PASS | V_FAIL | INCONCLUSIVE

record baseline_snapshot =
  snapshot_id :: string
  bs_recommendation :: string
  bs_workspace :: string
  baseline_cost_usd :: usd
  baseline_requests :: int
  baseline_accepted_outcomes :: int
  baseline_outcome_rate :: real
  bs_created_at :: instant

datatype verdict_reason =
    Insufficient_sample int int
  | Quality_degraded real real
  | No_saving usd
  | Realized usd usd real

record savings_record =
  verification_id :: string
  sr_recommendation :: string
  sr_workspace :: string
  projected_saving_usd :: usd
  actual_saving_usd :: usd
  variance_usd :: usd
  variance_percentage :: real
  sr_baseline_outcome_rate :: real
  post_change_outcome_rate :: real
  quality_change :: real
  confidence :: real
  sr_verdict :: verdict
  sr_reason :: verdict_reason
  sample_count_baseline :: int
  sample_count_post_change :: int
  max_tolerable_quality_drop :: real
  verified_at :: instant

datatype verif_error = Bad_baseline_requests int | No_baseline string string | Tamper_detected

record verification_db =
  baseline_snapshots :: "(baseline_snapshot \<times> string) table" \<comment> \<open>with the stored fingerprint\<close>
  savings_verifications :: "savings_record table"

section \<open>Storage\<close>

text \<open>The table has two unique keys: the snapshot identifier and (workspace, recommendation).\<close>

definition save_baseline_snapshot ::
    "(baseline_snapshot \<Rightarrow> string) \<Rightarrow> baseline_snapshot \<Rightarrow> verification_db \<Rightarrow> verification_db" where
  "save_baseline_snapshot fp s db = db\<lparr>baseline_snapshots :=
     filter (\<lambda>(x, _). snapshot_id x \<noteq> snapshot_id s
        \<and> (bs_workspace x, bs_recommendation x) \<noteq> (bs_workspace s, bs_recommendation s)) (baseline_snapshots db)
     @ [(s, fp s)]\<rparr>"

definition get_baseline_snapshot ::
    "(baseline_snapshot \<Rightarrow> string) \<Rightarrow> string \<Rightarrow> string \<Rightarrow> verification_db \<Rightarrow> verif_error + baseline_snapshot option" where
  "get_baseline_snapshot fp rec ws db =
     (case find (\<lambda>(x, _). bs_recommendation x = rec \<and> bs_workspace x = ws) (baseline_snapshots db) of
        None \<Rightarrow> Inr None
      | Some (s, f) \<Rightarrow> if fp s \<noteq> f then Inl Tamper_detected else Inr (Some s))"

definition save_verification_record :: "savings_record \<Rightarrow> verification_db \<Rightarrow> verification_db" where
  "save_verification_record r db =
     db\<lparr>savings_verifications := insert_or_replace verification_id r (savings_verifications db)\<rparr>"

definition get_verification_record :: "string \<Rightarrow> string \<Rightarrow> verification_db \<Rightarrow> savings_record option" where
  "get_verification_record vid ws db =
     find (\<lambda>r. verification_id r = vid \<and> sr_workspace r = ws) (savings_verifications db)"

section \<open>Engine\<close>

definition record_baseline ::
    "(baseline_snapshot \<Rightarrow> string) \<Rightarrow> string \<Rightarrow> instant \<Rightarrow> string \<Rightarrow> string \<Rightarrow> usd \<Rightarrow> int \<Rightarrow> int \<Rightarrow> verification_db
       \<Rightarrow> verif_error + (baseline_snapshot \<times> verification_db)" where
  "record_baseline fp uid now rec ws cost reqs accepted db =
     (if reqs \<le> 0 then Inl (Bad_baseline_requests reqs)
      else let s = \<lparr>snapshot_id = ''snap-'' @ uid, bs_recommendation = rec, bs_workspace = ws,
                 baseline_cost_usd = py_round cost 4, baseline_requests = reqs,
                 baseline_accepted_outcomes = accepted,
                 baseline_outcome_rate = py_round (of_int accepted / of_int reqs) 4, bs_created_at = now\<rparr>
           in Inr (s, save_baseline_snapshot fp s db))"

definition judge :: "real \<Rightarrow> usd \<Rightarrow> usd \<Rightarrow> real \<Rightarrow> verdict \<times> verdict_reason" where
  "judge quality saving projected tol =
     (if quality < - tol then (V_FAIL, Quality_degraded (\<bar>quality\<bar> * 100) (tol * 100))
      else if saving \<le> 0 then (V_FAIL, No_saving saving)
      else (V_PASS, Realized saving projected quality))"

definition savings_against ::
    "string \<Rightarrow> instant \<Rightarrow> baseline_snapshot \<Rightarrow> string \<Rightarrow> string \<Rightarrow> usd \<Rightarrow> usd \<Rightarrow> int \<Rightarrow> int \<Rightarrow> int \<Rightarrow> real \<Rightarrow> savings_record" where
  "savings_against uid now b rec ws projected post_cost post_reqs post_accepted min_sample tol =
     (let mk = (\<lambda>saving var varpct rate q conf v why. \<lparr>verification_id = ''verif-'' @ uid, sr_recommendation = rec,
            sr_workspace = ws, projected_saving_usd = projected, actual_saving_usd = saving, variance_usd = var,
            variance_percentage = varpct, sr_baseline_outcome_rate = baseline_outcome_rate b,
            post_change_outcome_rate = rate, quality_change = q, confidence = conf, sr_verdict = v,
            sr_reason = why, sample_count_baseline = baseline_requests b, sample_count_post_change = post_reqs,
            max_tolerable_quality_drop = tol, verified_at = now\<rparr>)
      in if post_reqs < min_sample
         then mk 0 (- projected) (- 100) 0 0 (py_round (of_int post_reqs / of_int min_sample) 2) INCONCLUSIVE
                (Insufficient_sample post_reqs min_sample)
         else let base_unit = baseline_cost_usd b / of_int (baseline_requests b);
                  post_unit = post_cost / of_int post_reqs;
                  saving = py_round ((base_unit - post_unit) * of_int post_reqs) 4;
                  var = py_round (saving - projected) 4;
                  varpct = py_round (var / max (1 / 1000) projected * 100) 2;
                  rate = py_round (of_int post_accepted / of_int post_reqs) 4;
                  q = py_round (rate - baseline_outcome_rate b) 4;
                  conf = py_round (min 1 (of_int post_reqs / 50)) 2;
                  (v, why) = judge q saving projected tol
              in mk saving var varpct rate q conf v why)"

definition verify_savings ::
    "(baseline_snapshot \<Rightarrow> string) \<Rightarrow> string \<Rightarrow> instant \<Rightarrow> string \<Rightarrow> string \<Rightarrow> usd \<Rightarrow> usd \<Rightarrow> int \<Rightarrow> int \<Rightarrow> int \<Rightarrow> real
       \<Rightarrow> verification_db \<Rightarrow> verif_error + (savings_record \<times> verification_db)" where
  "verify_savings fp uid now rec ws projected post_cost post_reqs post_accepted min_sample tol db =
     (case get_baseline_snapshot fp rec ws db of
        Inl e \<Rightarrow> Inl e
      | Inr None \<Rightarrow> Inl (No_baseline rec ws)
      | Inr (Some b) \<Rightarrow>
          (let r = savings_against uid now b rec ws projected post_cost post_reqs post_accepted min_sample tol
           in Inr (r, save_verification_record r db)))"

section \<open>Properties\<close>

lemma find_pair_filter:
  "find (\<lambda>(x, _). bs_recommendation x = rec \<and> bs_workspace x = ws)
     (filter (\<lambda>(x, _). snapshot_id x \<noteq> sid \<and> (bs_workspace x, bs_recommendation x) \<noteq> (ws, rec)) t) = None"
  by (auto simp: find_None_iff)

lemma baseline_read_back:
  "record_baseline fp uid now rec ws cost reqs accepted db = Inr (s, db') \<Longrightarrow>
   get_baseline_snapshot fp rec ws db' = Inr (Some s)"
proof -
  assume "record_baseline fp uid now rec ws cost reqs accepted db = Inr (s, db')"
  then have s: "bs_recommendation s = rec" "bs_workspace s = ws" and db': "db' = save_baseline_snapshot fp s db"
    by (auto simp: record_baseline_def Let_def split: if_splits)
  with find_pair_filter[of rec ws "snapshot_id s" "baseline_snapshots db"] show ?thesis
    by (simp add: get_baseline_snapshot_def save_baseline_snapshot_def find_append)
qed

text \<open>Savings are certified only on evidence. A PASS verdict implies that enough requests were observed, that
  the recorded saving is positive, that the recorded outcome quality fell by no more than the tolerance, and
  that the record is stored; a sample that is too small is never PASS or FAIL.\<close>

theorem pass_has_evidence:
  assumes "verify_savings fp uid now rec ws projected post_cost post_reqs post_accepted min_sample tol db = Inr (r, db')"
  shows "(sr_verdict r = V_PASS \<longrightarrow> min_sample \<le> post_reqs \<and> 0 < actual_saving_usd r \<and> - tol \<le> quality_change r)
    \<and> (sr_verdict r = INCONCLUSIVE \<longleftrightarrow> post_reqs < min_sample)
    \<and> lookup_key verification_id (''verif-'' @ uid) (savings_verifications db') = Some r"
  using assms
  by (auto simp: verify_savings_def savings_against_def judge_def Let_def save_verification_record_def table_simps
      split: sum.splits option.splits if_splits)

text \<open>A PASS means that money was saved, up to rounding: with a recorded baseline, the baseline cost of the
  observed number of requests exceeds the cost actually incurred, less at most half a tenth of a mill.\<close>

theorem pass_saves_money:
  assumes "record_baseline fp uid0 now0 rec ws cost reqs accepted db0 = Inr (b, db)"
    and "verify_savings fp uid now rec ws projected post_cost post_reqs post_accepted min_sample tol db = Inr (r, db')"
    and "sr_verdict r = V_PASS" and "0 < post_reqs"
  shows "post_cost < py_round cost 4 / of_int reqs * of_int post_reqs + 1 / (2 * 10 ^ 4)"
proof -
  from baseline_read_back[OF assms(1)] assms(2,3)
  have r: "r = savings_against uid now b rec ws projected post_cost post_reqs post_accepted min_sample tol"
    by (simp add: verify_savings_def Let_def)
  from assms(1) have b: "baseline_cost_usd b = py_round cost 4" "baseline_requests b = reqs"
    by (auto simp: record_baseline_def Let_def split: if_splits)
  let ?x = "(py_round cost 4 / of_int reqs - post_cost / of_int post_reqs) * of_int post_reqs"
  have "0 < py_round ?x 4" "\<not> post_reqs < min_sample"
    using r assms(3) b by (auto simp: savings_against_def judge_def Let_def split: if_splits)
  moreover have "\<bar>py_round ?x 4 - ?x\<bar> \<le> 1 / (2 * 10 ^ 4)" by (rule py_round_error)
  moreover have "?x = py_round cost 4 / of_int reqs * of_int post_reqs - post_cost"
    using assms(4) by (simp add: left_diff_distrib)
  ultimately show ?thesis by linarith
qed

text \<open>A stored baseline that no longer has the fingerprint it was stored with is rejected, so no verdict is
  produced from it.\<close>

theorem tampered_baseline_rejected:
  assumes "find (\<lambda>(x, _). bs_recommendation x = rec \<and> bs_workspace x = ws) (baseline_snapshots db) = Some (s, f)"
    and "fp s \<noteq> f"
  shows "verify_savings fp uid now rec ws projected post_cost post_reqs post_accepted min_sample tol db = Inl Tamper_detected"
  using assms by (simp add: verify_savings_def get_baseline_snapshot_def)

text \<open>Baselines are not immutable: recording a baseline again for the same recommendation replaces the earlier
  one, and later verdicts are measured against the new one.\<close>

theorem baseline_replaced:
  assumes "record_baseline fp uid1 now1 rec ws cost1 reqs1 acc1 db = Inr (s1, db1)"
    and "record_baseline fp uid2 now2 rec ws cost2 reqs2 acc2 db1 = Inr (s2, db2)"
  shows "get_baseline_snapshot fp rec ws db2 = Inr (Some s2)
    \<and> (s1, fp s1) \<in> set (baseline_snapshots db1) \<and> (\<forall>p \<in> set (baseline_snapshots db2). fst p \<noteq> s1 \<or> s1 = s2)"
proof -
  have "(s1, fp s1) \<in> set (baseline_snapshots db1)" "bs_recommendation s1 = rec" "bs_workspace s1 = ws"
    using assms(1) by (auto simp: record_baseline_def save_baseline_snapshot_def Let_def split: if_splits)
  moreover from assms(2) have "db2 = save_baseline_snapshot fp s2 db1" "bs_recommendation s2 = rec" "bs_workspace s2 = ws"
    by (auto simp: record_baseline_def Let_def split: if_splits)
  ultimately show ?thesis
    using baseline_read_back[OF assms(2)] by (auto simp: save_baseline_snapshot_def)
qed

definition empty_vdb :: verification_db where
  "empty_vdb = \<lparr>baseline_snapshots = [], savings_verifications = []\<rparr>"

lemma example_baseline:
  obtains b db where "record_baseline (\<lambda>_. []) ''u0'' 0 ''rec'' ''w'' 100 100 100 empty_vdb = Inr (b, db)"
    "baseline_cost_usd b = 100" "baseline_requests b = 100" "baseline_outcome_rate b = 1"
  by (rule that) ((simp add: record_baseline_def Let_def)+)

lemma example_pass:
  obtains b db r db' where "record_baseline (\<lambda>_. []) ''u0'' 0 ''rec'' ''w'' 100 100 100 empty_vdb = Inr (b, db)"
    "verify_savings (\<lambda>_. []) ''u1'' 1 ''rec'' ''w'' 40 50 100 100 10 (3 / 100) db = Inr (r, db')" "sr_verdict r = V_PASS"
proof -
  obtain b db where b: "record_baseline (\<lambda>_. []) ''u0'' 0 ''rec'' ''w'' 100 100 100 empty_vdb = Inr (b, db)"
    "baseline_cost_usd b = 100" "baseline_requests b = 100" "baseline_outcome_rate b = 1" by (rule example_baseline)
  let ?r = "savings_against ''u1'' 1 b ''rec'' ''w'' 40 50 100 100 10 (3 / 100)"
  have "verify_savings (\<lambda>_. []) ''u1'' 1 ''rec'' ''w'' 40 50 100 100 10 (3 / 100) db =
      Inr (?r, save_verification_record ?r db)"
    by (simp add: verify_savings_def baseline_read_back[OF b(1)] Let_def)
  moreover have "sr_verdict ?r = V_PASS" by (simp add: savings_against_def judge_def b Let_def)
  ultimately show thesis using b(1) that by blast
qed

theorem pass_has_evidence_witness:
  "\<exists>db r db'. verify_savings (\<lambda>_. []) ''u1'' 1 ''rec'' ''w'' 40 50 100 100 10 (3 / 100) db = Inr (r, db')
     \<and> 0 < actual_saving_usd r"
proof -
  obtain b db r db' where v: "verify_savings (\<lambda>_. []) ''u1'' 1 ''rec'' ''w'' 40 50 100 100 10 (3 / 100) db = Inr (r, db')"
    "sr_verdict r = V_PASS" by (rule example_pass)
  from pass_has_evidence[OF v(1)] v show ?thesis by blast
qed

theorem pass_saves_money_witness: "(50 :: real) < 100 / 100 * 100 + 1 / (2 * 10 ^ 4)"
proof -
  obtain b db r db' where v: "record_baseline (\<lambda>_. []) ''u0'' 0 ''rec'' ''w'' 100 100 100 empty_vdb = Inr (b, db)"
    "verify_savings (\<lambda>_. []) ''u1'' 1 ''rec'' ''w'' 40 50 100 100 10 (3 / 100) db = Inr (r, db')" "sr_verdict r = V_PASS"
    by (rule example_pass)
  from pass_saves_money[OF v] show ?thesis by simp
qed

theorem tampered_baseline_rejected_witness:
  "\<exists>s. verify_savings (\<lambda>_. ''ok'') ''u'' 1 ''rec'' ''w'' 1 1 20 20 10 0
     (empty_vdb\<lparr>baseline_snapshots := [(s, ''forged'')]\<rparr>) = Inl Tamper_detected"
proof -
  obtain b db where b: "record_baseline (\<lambda>_. []) ''u0'' 0 ''rec'' ''w'' 100 100 100 empty_vdb = Inr (b, db)"
    by (rule example_baseline)
  then have "bs_recommendation b = ''rec''" "bs_workspace b = ''w''" by (auto simp: record_baseline_def Let_def)
  then show ?thesis
    using tampered_baseline_rejected[of "''rec''" "''w''" "empty_vdb\<lparr>baseline_snapshots := [(b, ''forged'')]\<rparr>" b "''forged''"
        "\<lambda>_. ''ok''" "''u''" 1 1 1 20 20 10 0] by auto
qed

end
