(* ===== verification/Autonomy.thy ===== *)
theory Autonomy
  imports Trust Savings_Verification
begin

text \<open>
  \<open>burnlens/autonomy\<close>: the closed optimisation loop (\<open>orchestrator.py\<close>) over its own tables
  (\<open>storage.py\<close>), the trust engine and the savings verification engine. Every storage call commits, so the
  state reached before an exception stays; the result is an error or a loop result together with the state.
  The details dictionaries of audit entries and the target configuration are not modelled.
\<close>

datatype canary_status = PROPOSED | CANARY_ACTIVE | VERIFIED_EXPANDED | ROLLED_BACK | ABORTED

datatype loop_stage =
  DETECT | INVESTIGATE | SIMULATE | POLICY_CHECK | CANARY_ACT | L_OBSERVE | VERIFY | EXPAND | ROLLBACK | TRUST_UPDATE

record optimization_plan =
  plan_id :: string
  pn_workspace :: string
  pn_agent :: string
  pn_recommendation :: string
  pn_category :: string
  canary_percentage :: real
  max_canary_spend_usd :: usd
  canary_status :: canary_status
  is_kill_switched :: bool
  pn_created_at :: instant
  pn_updated_at :: instant

record audit_entry =
  ae_audit_id :: string
  ae_plan :: string
  ae_workspace :: string
  ae_stage :: loop_stage
  ae_action :: string
  ae_timestamp :: instant

record kill_switch =
  ks_workspace :: string
  is_disabled :: bool
  ks_reason :: string
  disabled_by :: string
  ks_updated_at :: instant

record autonomy_db =
  autonomous_plans :: "optimization_plan table"
  audit_trail :: "audit_entry table"
  kill_switches :: "kill_switch table"

record loop_result =
  lr_plan_id :: string
  lr_workspace :: string
  lr_agent :: string
  lr_recommendation :: string
  final_status :: canary_status
  initial_savings_projected :: usd
  verified_savings_realized :: usd
  lr_quality_change :: real
  expanded :: bool
  rolled_back :: bool
  updated_trust_score :: real
  audit_timeline :: "(loop_stage \<times> string) list"
  completed_at :: instant

section \<open>Storage\<close>

definition save_plan :: "optimization_plan \<Rightarrow> autonomy_db \<Rightarrow> autonomy_db" where
  "save_plan p db = db\<lparr>autonomous_plans := insert_or_replace plan_id p (autonomous_plans db)\<rparr>"

definition update_plan_status :: "instant \<Rightarrow> string \<Rightarrow> canary_status \<Rightarrow> autonomy_db \<Rightarrow> autonomy_db" where
  "update_plan_status now pid st db = db\<lparr>autonomous_plans := update_where (\<lambda>p. plan_id p = pid)
     (\<lambda>p. p\<lparr>canary_status := st, pn_updated_at := now\<rparr>) (autonomous_plans db)\<rparr>"

definition record_audit_event :: "instant \<Rightarrow> string \<Rightarrow> string \<Rightarrow> string \<Rightarrow> loop_stage \<Rightarrow> string \<Rightarrow> autonomy_db \<Rightarrow> autonomy_db" where
  "record_audit_event now aid pid ws stage act db = db\<lparr>audit_trail := insert_or_replace ae_audit_id
     \<lparr>ae_audit_id = aid, ae_plan = pid, ae_workspace = ws, ae_stage = stage, ae_action = act, ae_timestamp = now\<rparr>
     (audit_trail db)\<rparr>"

definition get_audit_trail :: "string \<Rightarrow> autonomy_db \<Rightarrow> audit_entry list" where
  "get_audit_trail pid db = sort_key ae_timestamp (filter (\<lambda>e. ae_plan e = pid) (audit_trail db))"

definition set_workspace_kill_switch :: "instant \<Rightarrow> string \<Rightarrow> bool \<Rightarrow> string \<Rightarrow> string \<Rightarrow> autonomy_db \<Rightarrow> autonomy_db" where
  "set_workspace_kill_switch now ws off why who db = db\<lparr>kill_switches := insert_or_replace ks_workspace
     \<lparr>ks_workspace = ws, is_disabled = off, ks_reason = why, disabled_by = who, ks_updated_at = now\<rparr>
     (kill_switches db)\<rparr>"

definition is_workspace_kill_switched :: "string \<Rightarrow> autonomy_db \<Rightarrow> bool" where
  "is_workspace_kill_switched ws db =
     (case lookup_key ks_workspace ws (kill_switches db) of None \<Rightarrow> False | Some k \<Rightarrow> is_disabled k)"

section \<open>The loop\<close>

record cycle_input =
  ci_workspace :: string
  ci_agent :: string
  ci_recommendation :: string
  ci_category :: string
  ci_projected :: usd
  ci_base_cost :: usd
  ci_base_requests :: int
  ci_base_accepted :: int
  ci_post_cost :: usd
  ci_post_requests :: int
  ci_post_accepted :: int
  ci_canary_percentage :: real
  ci_max_spend :: usd

record loop_state =
  ls_autonomy :: autonomy_db
  ls_trust :: trust_db
  ls_verification :: verification_db

definition log_stages ::
    "(nat \<Rightarrow> string) \<Rightarrow> instant \<Rightarrow> string \<Rightarrow> string \<Rightarrow> nat \<Rightarrow> (loop_stage \<times> string) list \<Rightarrow> autonomy_db \<Rightarrow> autonomy_db" where
  "log_stages uids now pid ws i0 stages db =
     fold (\<lambda>(i, stage, act). record_audit_event now (''aud-'' @ uids i) pid ws stage act) (enumerate i0 stages) db"

definition reinforcement :: evidence where
  "reinforcement = \<lparr>ev_success = 98 / 100, ev_accepted = 96 / 100, ev_rollback = 0, ev_violation = 0,
     ev_waste = 2 / 100, ev_total_tasks = 50, ev_total_spend = 100\<rparr>"

definition rollback_penalty :: evidence where
  "rollback_penalty = \<lparr>ev_success = 90 / 100, ev_accepted = 85 / 100, ev_rollback = 8 / 100, ev_violation = 0,
     ev_waste = 5 / 100, ev_total_tasks = 50, ev_total_spend = 100\<rparr>"

definition loop_outcome ::
    "instant \<Rightarrow> string \<Rightarrow> cycle_input \<Rightarrow> canary_status \<Rightarrow> usd \<Rightarrow> real \<Rightarrow> real \<Rightarrow> (loop_stage \<times> string) list \<Rightarrow> loop_result" where
  "loop_outcome now pid inp st saving q score timeline =
     \<lparr>lr_plan_id = pid, lr_workspace = ci_workspace inp, lr_agent = ci_agent inp,
      lr_recommendation = ci_recommendation inp, final_status = st,
      initial_savings_projected = ci_projected inp, verified_savings_realized = saving,
      lr_quality_change = q, expanded = (st = VERIFIED_EXPANDED), rolled_back = (st = ROLLED_BACK),
      updated_trust_score = score, audit_timeline = timeline, completed_at = now\<rparr>"

definition opening_stages :: "(loop_stage \<times> string) list" where
  "opening_stages = [(DETECT, ''ANOMALY_DETECTED''), (INVESTIGATE, ''CAUSE_EXPLAINED''), (SIMULATE, ''OPTIMIZATION_SIMULATED'')]"

definition verdict_name :: "verdict \<Rightarrow> string" where
  "verdict_name v = (case v of V_PASS \<Rightarrow> ''PASS'' | V_FAIL \<Rightarrow> ''FAIL'' | INCONCLUSIVE \<Rightarrow> ''INCONCLUSIVE'')"

definition canary_plan :: "instant \<Rightarrow> string \<Rightarrow> cycle_input \<Rightarrow> optimization_plan" where
  "canary_plan now pid inp = \<lparr>plan_id = pid, pn_workspace = ci_workspace inp, pn_agent = ci_agent inp,
     pn_recommendation = ci_recommendation inp, pn_category = ci_category inp,
     canary_percentage = min (ci_canary_percentage inp) 10, max_canary_spend_usd = ci_max_spend inp,
     canary_status = CANARY_ACTIVE, is_kill_switched = False, pn_created_at = now, pn_updated_at = now\<rparr>"

text \<open>Steps 8 and 9: expand or roll back, and the trust update.\<close>

definition conclude ::
    "(nat \<Rightarrow> string) \<Rightarrow> instant \<Rightarrow> string \<Rightarrow> cycle_input \<Rightarrow> savings_record \<Rightarrow> (loop_stage \<times> string) list \<Rightarrow> loop_state
       \<Rightarrow> loop_result \<times> loop_state" where
  "conclude uids now pid inp v stages s =
     (let ok = (sr_verdict v = V_PASS);
          st = (if ok then VERIFIED_EXPANDED else ROLLED_BACK);
          final = (if ok then [(EXPAND, ''EXPANDED_TO_100_PERCENT''), (TRUST_UPDATE, ''TRUST_SCORE_INCREASED'')]
                   else [(ROLLBACK, ''CANARY_AUTOMATICALLY_ROLLED_BACK''),
                         (TRUST_UPDATE, ''TRUST_SCORE_ADJUSTED_FOR_ROLLBACK'')]);
          (p, tdb) = evaluate_agent_trust now (ci_agent inp) (ci_workspace inp)
             (if ok then reinforcement else rollback_penalty) (ls_trust s);
          adb = log_stages uids now pid (ci_workspace inp) (length stages) final
             (update_plan_status now pid st (ls_autonomy s))
      in (loop_outcome now pid inp st (actual_saving_usd v) (quality_change v) (trust_score p) (stages @ final),
          s\<lparr>ls_autonomy := adb, ls_trust := tdb\<rparr>))"

definition execute_optimization_cycle ::
    "(baseline_snapshot \<Rightarrow> string) \<Rightarrow> (nat \<Rightarrow> string) \<Rightarrow> instant \<Rightarrow> string \<Rightarrow> cycle_input \<Rightarrow> loop_state
       \<Rightarrow> (verif_error + loop_result) \<times> loop_state" where
  "execute_optimization_cycle fp uids now uid inp s =
     (let pid = ''plan-'' @ uid; ws = ci_workspace inp;
          logd = (\<lambda>i stages s. s\<lparr>ls_autonomy := log_stages uids now pid ws i stages (ls_autonomy s)\<rparr>)
      in if is_workspace_kill_switched ws (ls_autonomy s)
         then (let tl1 = [(DETECT, ''ABORTED_KILL_SWITCH'')]
               in (Inr (loop_outcome now pid inp ABORTED 0 0 0 tl1), logd 0 tl1 s))
         else
           (let s1 = logd 0 opening_stages s;
                (el, tdb) = check_autonomy_eligibility uid now (ci_agent inp) ws (ci_category inp)
                   (ci_max_spend inp) True (ci_max_spend inp) (ls_trust s1);
                s2 = s1\<lparr>ls_trust := tdb\<rparr>
            in if \<not> is_autonomous_eligible el
               then (let deny = [(POLICY_CHECK, ''AUTONOMY_DENIED_HUMAN_APPROVAL_REQUIRED'')]
                     in (Inr (loop_outcome now pid inp ABORTED 0 0 (el_trust_score el) (opening_stages @ deny)),
                         logd 3 deny s2))
               else
                 (let s3 = logd 3 [(POLICY_CHECK, ''AUTONOMY_APPROVED'')] s2;
                      s4 = s3\<lparr>ls_autonomy := save_plan (canary_plan now pid inp) (ls_autonomy s3)\<rparr>;
                      s5 = logd 4 [(CANARY_ACT, ''CANARY_DEPLOYED'')] s4
                  in case record_baseline fp uid now (ci_recommendation inp) ws (ci_base_cost inp)
                            (ci_base_requests inp) (ci_base_accepted inp) (ls_verification s5) of
                       Inl e \<Rightarrow> (Inl e, s5)
                     | Inr (_, vdb) \<Rightarrow>
                         (let s6 = logd 5 [(L_OBSERVE, ''OBSERVATION_COLLECTED'')] (s5\<lparr>ls_verification := vdb\<rparr>)
                          in case verify_savings fp uid now (ci_recommendation inp) ws (ci_projected inp)
                                    (ci_post_cost inp) (ci_post_requests inp) (ci_post_accepted inp) 10 (3 / 100)
                                    (ls_verification s6) of
                               Inl e \<Rightarrow> (Inl e, s6)
                             | Inr (v, vdb') \<Rightarrow>
                                 (let vs = [(VERIFY, ''VERIFICATION_RESULT_'' @ verdict_name (sr_verdict v))];
                                      s7 = logd 6 vs (s6\<lparr>ls_verification := vdb'\<rparr>);
                                      (res, s8) = conclude uids now pid inp v
                                        (opening_stages @ [(POLICY_CHECK, ''AUTONOMY_APPROVED''),
                                           (CANARY_ACT, ''CANARY_DEPLOYED''), (L_OBSERVE, ''OBSERVATION_COLLECTED'')] @ vs) s7
                                  in (Inr res, s8))))))"

section \<open>Properties\<close>

lemma plans_log [simp]:
  "autonomous_plans (log_stages uids now pid ws i st db) = autonomous_plans db"
  "kill_switches (log_stages uids now pid ws i st db) = kill_switches db"
proof -
  have "autonomous_plans (fold (\<lambda>(i, stage, act). record_audit_event now (''aud-'' @ uids i) pid ws stage act) xs db)
      = autonomous_plans db
    \<and> kill_switches (fold (\<lambda>(i, stage, act). record_audit_event now (''aud-'' @ uids i) pid ws stage act) xs db)
      = kill_switches db" for xs
    by (induction xs arbitrary: db) (auto simp: record_audit_event_def)
  then show "autonomous_plans (log_stages uids now pid ws i st db) = autonomous_plans db"
    "kill_switches (log_stages uids now pid ws i st db) = kill_switches db"
    by (simp_all add: log_stages_def)
qed

lemma baseline_then_verify:
  "record_baseline fp uid now rec ws cost reqs acc db = Inr (b, db1) \<Longrightarrow>
   verify_savings fp uid2 now2 rec ws projected post_cost post_reqs post_acc m tol db1 =
     Inr (savings_against uid2 now2 b rec ws projected post_cost post_reqs post_acc m tol,
          save_verification_record (savings_against uid2 now2 b rec ws projected post_cost post_reqs post_acc m tol) db1)"
  by (simp add: verify_savings_def baseline_read_back Let_def)

definition eligible :: "cycle_input \<Rightarrow> loop_state \<Rightarrow> bool" where
  "eligible inp s \<longleftrightarrow> lower (strip (ci_category inp)) \<notin> HIGH_RISK_ACTIONS
     \<and> (\<exists>p. get_profile (ci_agent inp) (ci_workspace inp) (ls_trust s) = Some p \<and> autonomy_level p = EARNED_AUTONOMY)"

lemma eligible_check:
  "is_autonomous_eligible (fst (check_autonomy_eligibility uid now (ci_agent inp) (ci_workspace inp) (ci_category inp)
      (ci_max_spend inp) True (ci_max_spend inp) (ls_trust s))) \<longleftrightarrow> eligible inp s"
  by (simp add: check_eligibility_eq Let_def eligibility_iff eligible_def no_evidence_restricted split: option.split)

lemma eligible_frame [simp]: "eligible inp (s\<lparr>ls_autonomy := x\<rparr>) = eligible inp s"
  by (simp add: eligible_def)

lemma conclude_facts:
  assumes "conclude uids now pid inp v stages s = (res, s')"
  shows "final_status res = (if sr_verdict v = V_PASS then VERIFIED_EXPANDED else ROLLED_BACK)
    \<and> expanded res = (sr_verdict v = V_PASS) \<and> rolled_back res = (sr_verdict v \<noteq> V_PASS)
    \<and> autonomous_plans (ls_autonomy s') = autonomous_plans (update_plan_status now pid (final_status res) (ls_autonomy s))
    \<and> ls_verification s' = ls_verification s"
  using assms by (auto simp: conclude_def Let_def loop_outcome_def split_beta)

lemma plan_status_updated:
  "lookup_key plan_id pid (autonomous_plans db) = Some p \<Longrightarrow>
   lookup_key plan_id pid (autonomous_plans (update_plan_status now pid st db)) =
     Some (p\<lparr>canary_status := st, pn_updated_at := now\<rparr>)"
  by (auto simp: update_plan_status_def lookup_update_where dest: lookup_key_SomeD)

text \<open>What a cycle does, by case.\<close>

lemma cycle_cases:
  assumes "execute_optimization_cycle fp uids now uid inp s = (out, s')"
  obtains
    (killed) res where "is_workspace_kill_switched (ci_workspace inp) (ls_autonomy s)" "out = Inr res"
      "final_status res = ABORTED" "\<not> expanded res" "\<not> rolled_back res"
      "autonomous_plans (ls_autonomy s') = autonomous_plans (ls_autonomy s)"
      "ls_trust s' = ls_trust s" "ls_verification s' = ls_verification s"
  | (denied) res where "\<not> is_workspace_kill_switched (ci_workspace inp) (ls_autonomy s)" "\<not> eligible inp s"
      "out = Inr res" "final_status res = ABORTED" "\<not> expanded res" "\<not> rolled_back res"
      "autonomous_plans (ls_autonomy s') = autonomous_plans (ls_autonomy s)" "ls_verification s' = ls_verification s"
  | (bad_baseline) "\<not> is_workspace_kill_switched (ci_workspace inp) (ls_autonomy s)" "eligible inp s"
      "ci_base_requests inp \<le> 0" "out = Inl (Bad_baseline_requests (ci_base_requests inp))"
      "autonomous_plans (ls_autonomy s') =
         insert_or_replace plan_id (canary_plan now (''plan-'' @ uid) inp) (autonomous_plans (ls_autonomy s))"
  | (ran) res v b db1 where "\<not> is_workspace_kill_switched (ci_workspace inp) (ls_autonomy s)" "eligible inp s"
      "record_baseline fp uid now (ci_recommendation inp) (ci_workspace inp) (ci_base_cost inp)
         (ci_base_requests inp) (ci_base_accepted inp) (ls_verification s) = Inr (b, db1)"
      "v = savings_against uid now b (ci_recommendation inp) (ci_workspace inp) (ci_projected inp)
         (ci_post_cost inp) (ci_post_requests inp) (ci_post_accepted inp) 10 (3 / 100)"
      "out = Inr res" "final_status res = (if sr_verdict v = V_PASS then VERIFIED_EXPANDED else ROLLED_BACK)"
      "expanded res = (sr_verdict v = V_PASS)" "rolled_back res = (sr_verdict v \<noteq> V_PASS)"
      "lookup_key plan_id (''plan-'' @ uid) (autonomous_plans (ls_autonomy s')) =
         Some ((canary_plan now (''plan-'' @ uid) inp)\<lparr>canary_status := final_status res, pn_updated_at := now\<rparr>)"
      "get_profile (ci_agent inp) (ci_workspace inp) (ls_trust s') =
         Some (calculate_score now (ci_agent inp) (ci_workspace inp)
           (if sr_verdict v = V_PASS then reinforcement else rollback_penalty))"
proof (cases "is_workspace_kill_switched (ci_workspace inp) (ls_autonomy s)")
  case True
  with assms show thesis
    by (intro killed[of "loop_outcome now (''plan-'' @ uid) inp ABORTED 0 0 0 [(DETECT, ''ABORTED_KILL_SWITCH'')]"])
      (auto simp: execute_optimization_cycle_def Let_def loop_outcome_def)
next
  case nk: False
  show thesis
  proof (cases "eligible inp s")
    case False
    with nk assms show thesis
      by (intro denied) (auto simp: execute_optimization_cycle_def Let_def split_beta eligible_check loop_outcome_def)
  next
    case el: True
    show thesis
    proof (cases "ci_base_requests inp \<le> 0")
      case True
      with nk el assms show thesis
        by (intro bad_baseline)
          (auto simp: execute_optimization_cycle_def Let_def split_beta eligible_check record_baseline_def save_plan_def)
    next
      case False
      then obtain b db1 where b: "record_baseline fp uid now (ci_recommendation inp) (ci_workspace inp) (ci_base_cost inp)
         (ci_base_requests inp) (ci_base_accepted inp) (ls_verification s) = Inr (b, db1)"
        by (simp add: record_baseline_def Let_def)
      let ?v = "savings_against uid now b (ci_recommendation inp) (ci_workspace inp) (ci_projected inp)
         (ci_post_cost inp) (ci_post_requests inp) (ci_post_accepted inp) 10 (3 / 100)"
      from nk el b assms obtain res stages s7 where out: "out = Inr res"
        and c: "conclude uids now (''plan-'' @ uid) inp ?v stages s7 = (res, s')"
        and s7: "autonomous_plans (ls_autonomy s7) =
          insert_or_replace plan_id (canary_plan now (''plan-'' @ uid) inp) (autonomous_plans (ls_autonomy s))"
        by (auto simp: execute_optimization_cycle_def Let_def split_beta eligible_check save_plan_def
            baseline_then_verify[OF b])
      have "lookup_key plan_id (''plan-'' @ uid) (autonomous_plans (ls_autonomy s7)) = Some (canary_plan now (''plan-'' @ uid) inp)"
        by (simp add: s7 table_simps canary_plan_def)
      from plan_status_updated[OF this] conclude_facts[OF c]
      have "lookup_key plan_id (''plan-'' @ uid) (autonomous_plans (ls_autonomy s')) =
          Some ((canary_plan now (''plan-'' @ uid) inp)\<lparr>canary_status := final_status res, pn_updated_at := now\<rparr>)" by simp
      moreover from c have "get_profile (ci_agent inp) (ci_workspace inp) (ls_trust s') =
         Some (calculate_score now (ci_agent inp) (ci_workspace inp)
           (if sr_verdict ?v = V_PASS then reinforcement else rollback_penalty))"
        by (auto simp: conclude_def Let_def split_beta evaluate_agent_trust_def get_profile_def save_profile_def
            table_simps tp_key_def calculate_score_def)
      ultimately show thesis using nk el b out conclude_facts[OF c] by (intro ran[of b db1 ?v res]) simp_all
    qed
  qed
qed

text \<open>The kill switch stops autonomy: after an operator disables a workspace, a cycle in it ends aborted and
  changes no plan, no trust profile and no verification record.\<close>

theorem kill_switch_halts:
  assumes "execute_optimization_cycle fp uids now uid inp
      (s\<lparr>ls_autonomy := set_workspace_kill_switch now0 (ci_workspace inp) True why who (ls_autonomy s)\<rparr>) = (out, s')"
  shows "(\<exists>res. out = Inr res \<and> final_status res = ABORTED)
    \<and> autonomous_plans (ls_autonomy s') = autonomous_plans (ls_autonomy s)
    \<and> ls_trust s' = ls_trust s \<and> ls_verification s' = ls_verification s"
proof -
  have k: "is_workspace_kill_switched (ci_workspace inp)
      (set_workspace_kill_switch now0 (ci_workspace inp) True why who (ls_autonomy s))"
    by (simp add: is_workspace_kill_switched_def set_workspace_kill_switch_def table_simps)
  have f: "autonomous_plans (set_workspace_kill_switch now0 w True why who db) = autonomous_plans db" for w db
    by (simp add: set_workspace_kill_switch_def)
  from assms show ?thesis
    by (cases rule: cycle_cases) (use k f in auto)
qed

text \<open>The loop expands only what it verified. A cycle that ends expanded had an earned-autonomy agent and a
  category that is not high-risk, a positive verified saving without a quality drop beyond three percent over
  at least ten requests, and its plan is stored as expanded with a canary share of at most ten percent.\<close>

theorem expansion_needs_verification:
  assumes "execute_optimization_cycle fp uids now uid inp s = (Inr res, s')" and "expanded res"
  shows "eligible inp s \<and> 10 \<le> ci_post_requests inp
    \<and> (\<exists>p. lookup_key plan_id (''plan-'' @ uid) (autonomous_plans (ls_autonomy s')) = Some p
        \<and> canary_status p = VERIFIED_EXPANDED \<and> canary_percentage p \<le> 10)
    \<and> (\<exists>b. let v = savings_against uid now b (ci_recommendation inp) (ci_workspace inp) (ci_projected inp)
          (ci_post_cost inp) (ci_post_requests inp) (ci_post_accepted inp) 10 (3 / 100)
        in 0 < actual_saving_usd v \<and> - (3 / 100) \<le> quality_change v)"
  using assms(1)
proof (cases rule: cycle_cases)
  case (ran r v b db1)
  with assms(2) have p: "sr_verdict v = V_PASS" by simp
  then have "10 \<le> ci_post_requests inp" "0 < actual_saving_usd v" "- (3 / 100) \<le> quality_change v"
    using ran(4) by (auto simp: savings_against_def judge_def Let_def split: if_splits)
  with ran p show ?thesis by (auto simp: canary_plan_def Let_def intro!: exI[of _ b])
qed (use assms(2) in auto)

text \<open>Every cycle that deploys a canary and returns a result closes it: the plan is stored as expanded exactly
  when verification passed and as rolled back otherwise.\<close>

theorem canary_is_closed:
  assumes "execute_optimization_cycle fp uids now uid inp s = (Inr res, s')" and "final_status res \<noteq> ABORTED"
  shows "map_option canary_status (lookup_key plan_id (''plan-'' @ uid) (autonomous_plans (ls_autonomy s'))) =
      Some (final_status res)
    \<and> (expanded res \<longleftrightarrow> final_status res = VERIFIED_EXPANDED)
    \<and> (rolled_back res \<longleftrightarrow> final_status res = ROLLED_BACK) \<and> expanded res \<noteq> rolled_back res"
  using assms(1)
proof (cases rule: cycle_cases)
  case (ran r v b db1)
  then show ?thesis by simp
qed (use assms(2) in auto)

lemma penalty_score: "effective_score rollback_penalty = 91"
  by (simp add: effective_score_def is_sparse_def raw_score_def rollback_penalty_def clamp01_def
      MINIMUM_TASK_HISTORY_THRESHOLD_def py_round_def round_half_even_def Let_def)

text \<open>A rollback does not cost an agent its autonomy: the penalised profile written after a rollback has score
  91 and the earned-autonomy tier, whatever the agent's record was before.\<close>

theorem rollback_keeps_autonomy:
  assumes "execute_optimization_cycle fp uids now uid inp s = (Inr res, s')" and "rolled_back res"
  shows "\<exists>p. get_profile (ci_agent inp) (ci_workspace inp) (ls_trust s') = Some p
    \<and> trust_score p = 91 \<and> autonomy_level p = EARNED_AUTONOMY"
  using assms(1)
proof (cases rule: cycle_cases)
  case (ran r v b db1)
  have "\<not> is_sparse rollback_penalty"
    by (simp add: is_sparse_def rollback_penalty_def MINIMUM_TASK_HISTORY_THRESHOLD_def)
  with ran assms(2) show ?thesis by (auto simp: calculate_score_def penalty_score level_for_def)
qed (use assms(2) in auto)

text \<open>The spend cap of the policy check is never effective: the loop passes its own budget both as the cost and
  as the cap, so the check does not depend on the amount.\<close>

theorem spend_cap_vacuous:
  "is_autonomous_eligible (fst (check_autonomy_eligibility uid now agent ws cat m True m db)) =
   is_autonomous_eligible (fst (check_autonomy_eligibility uid now agent ws cat m' True m' db))"
  by (simp add: check_eligibility_eq Let_def eligibility_iff)

text \<open>An invalid baseline aborts the cycle with an error after the canary was deployed, and the plan stays
  active.\<close>

theorem bad_baseline_leaves_canary:
  assumes "\<not> is_workspace_kill_switched (ci_workspace inp) (ls_autonomy s)" and "eligible inp s"
    and "ci_base_requests inp \<le> 0" and "execute_optimization_cycle fp uids now uid inp s = (out, s')"
  shows "out = Inl (Bad_baseline_requests (ci_base_requests inp))
    \<and> map_option canary_status (lookup_key plan_id (''plan-'' @ uid) (autonomous_plans (ls_autonomy s'))) = Some CANARY_ACTIVE"
  using assms(4)
proof (cases rule: cycle_cases)
  case bad_baseline
  then show ?thesis by (simp add: table_simps canary_plan_def)
next
  case (ran r v b db1)
  with assms(3) show ?thesis by (simp add: record_baseline_def)
qed (use assms in auto)

section \<open>A concrete cycle\<close>

definition an_input :: "usd \<Rightarrow> cycle_input" where
  "an_input post = \<lparr>ci_workspace = ''w'', ci_agent = ''a'', ci_recommendation = ''rec'', ci_category = ''resize_cache'',
     ci_projected = 40, ci_base_cost = 100, ci_base_requests = 100, ci_base_accepted = 100, ci_post_cost = post,
     ci_post_requests = 100, ci_post_accepted = 100, ci_canary_percentage = 10, ci_max_spend = 5\<rparr>"

definition a_loop_state :: loop_state where
  "a_loop_state = \<lparr>ls_autonomy = \<lparr>autonomous_plans = [], audit_trail = [], kill_switches = []\<rparr>,
     ls_trust = \<lparr>trust_profiles = [calculate_score 0 ''a'' ''w'' good_agent], eligibility_audits = []\<rparr>,
     ls_verification = empty_vdb\<rparr>"

lemma a_loop_eligible: "eligible (an_input post) a_loop_state"
proof -
  have "autonomy_level (calculate_score 0 ''a'' ''w'' good_agent) = EARNED_AUTONOMY"
    by (simp add: calculate_score_def good_agent_score level_for_def is_sparse_def)
      (simp add: good_agent_def MINIMUM_TASK_HISTORY_THRESHOLD_def)
  moreover have "lower (strip ''resize_cache'') \<notin> HIGH_RISK_ACTIONS" by code_simp
  ultimately show ?thesis
    by (simp add: eligible_def an_input_def a_loop_state_def get_profile_def lookup_key_def tp_key_def)
      (simp add: calculate_score_def)
qed

lemma a_loop_runs:
  assumes post: "post = 50 \<or> post = 150"
  shows "\<exists>res s'. execute_optimization_cycle (\<lambda>_. []) (\<lambda>_. []) 1 ''u'' (an_input post) a_loop_state = (Inr res, s')
    \<and> expanded res = (post < 100) \<and> rolled_back res = (\<not> post < 100) \<and> final_status res \<noteq> ABORTED"
proof -
  obtain out s' where e: "execute_optimization_cycle (\<lambda>_. []) (\<lambda>_. []) 1 ''u'' (an_input post) a_loop_state = (out, s')"
    by (metis surj_pair)
  from e show ?thesis
  proof (cases rule: cycle_cases)
    case (ran res v b db1)
    have "baseline_cost_usd b = 100" "baseline_requests b = 100" "baseline_outcome_rate b = 1"
      using ran(3) by (auto simp: record_baseline_def an_input_def Let_def)
    then have "sr_verdict v = V_PASS \<longleftrightarrow> post < 100"
      using ran(4) post by (auto simp: savings_against_def judge_def an_input_def Let_def py_round_def round_half_even_def)
    with ran(5-8) e show ?thesis by auto
  next
    case (killed res)
    then show ?thesis by (simp add: is_workspace_kill_switched_def a_loop_state_def lookup_key_def)
  next
    case (denied res)
    then show ?thesis using a_loop_eligible by simp
  next
    case bad_baseline
    then show ?thesis by (simp add: an_input_def)
  qed
qed

theorem kill_switch_halts_witness:
  "\<exists>out s'. execute_optimization_cycle (\<lambda>_. []) (\<lambda>_. []) 1 ''u'' (an_input 50)
      (a_loop_state\<lparr>ls_autonomy := set_workspace_kill_switch 0 ''w'' True ''stop'' ''op'' (ls_autonomy a_loop_state)\<rparr>) = (out, s')
    \<and> autonomous_plans (ls_autonomy s') = []"
proof -
  have w: "ci_workspace (an_input 50) = ''w''" by (simp add: an_input_def)
  obtain out s' where e: "execute_optimization_cycle (\<lambda>_. []) (\<lambda>_. []) 1 ''u'' (an_input 50)
      (a_loop_state\<lparr>ls_autonomy := set_workspace_kill_switch 0 ''w'' True ''stop'' ''op'' (ls_autonomy a_loop_state)\<rparr>) = (out, s')"
    by (metis surj_pair)
  from kill_switch_halts[where inp = "an_input 50" and s = a_loop_state, unfolded w, OF e] e
  show ?thesis by (auto simp: a_loop_state_def)
qed

theorem expansion_needs_verification_witness:
  "\<exists>res s'. execute_optimization_cycle (\<lambda>_. []) (\<lambda>_. []) 1 ''u'' (an_input 50) a_loop_state = (Inr res, s')
    \<and> (\<exists>p. lookup_key plan_id ''plan-u'' (autonomous_plans (ls_autonomy s')) = Some p \<and> canary_status p = VERIFIED_EXPANDED)"
proof -
  obtain res s' where e: "execute_optimization_cycle (\<lambda>_. []) (\<lambda>_. []) 1 ''u'' (an_input 50) a_loop_state = (Inr res, s')"
    "expanded res" using a_loop_runs[of 50] by auto
  from expansion_needs_verification[OF e] e show ?thesis by auto
qed

theorem canary_is_closed_witness:
  "\<exists>res s'. execute_optimization_cycle (\<lambda>_. []) (\<lambda>_. []) 1 ''u'' (an_input 150) a_loop_state = (Inr res, s')
    \<and> map_option canary_status (lookup_key plan_id ''plan-u'' (autonomous_plans (ls_autonomy s'))) = Some ROLLED_BACK"
proof -
  obtain res s' where e: "execute_optimization_cycle (\<lambda>_. []) (\<lambda>_. []) 1 ''u'' (an_input 150) a_loop_state = (Inr res, s')"
    "rolled_back res" "final_status res \<noteq> ABORTED" using a_loop_runs[of 150] by auto
  from canary_is_closed[OF e(1,3)] e show ?thesis by auto
qed

theorem rollback_keeps_autonomy_witness:
  "\<exists>res s'. execute_optimization_cycle (\<lambda>_. []) (\<lambda>_. []) 1 ''u'' (an_input 150) a_loop_state = (Inr res, s')
    \<and> (\<exists>p. get_profile ''a'' ''w'' (ls_trust s') = Some p \<and> trust_score p = 91)"
proof -
  obtain res s' where e: "execute_optimization_cycle (\<lambda>_. []) (\<lambda>_. []) 1 ''u'' (an_input 150) a_loop_state = (Inr res, s')"
    "rolled_back res" using a_loop_runs[of 150] by auto
  from rollback_keeps_autonomy[OF e] e show ?thesis by (auto simp: an_input_def)
qed

end
