(* ===== verification/Rate_Limit.thy ===== *)
theory Rate_Limit
  imports Headers
begin

text \<open>
  \<open>burnlens_cloud/rate_limit.py\<close>: the in-process sliding-window limiter and the middleware that
  applies it by path prefix. A bucket is the deque of accept times of one (prefix, client address)
  pair; \<open>time.monotonic()\<close> is an argument of every step. The reference definition
  \<open>log_admits\<close> keeps every accept time for ever; the limiter is shown to answer exactly as it does,
  and the log is shown to stay below the cap in every window.
\<close>

section \<open>SlidingWindowLimiter\<close>

type_synonym bucket_key = "string \<times> string"
type_synonym buckets = "bucket_key \<Rightarrow> real list"

definition limiter_init :: buckets where
  "limiter_init = (\<lambda>_. [])"

definition limiter_check :: "real \<Rightarrow> bucket_key \<Rightarrow> int \<Rightarrow> real \<Rightarrow> buckets \<Rightarrow> bool \<times> buckets" where
  "limiter_check now key max_requests window_seconds B =
     (let cutoff = now - window_seconds;
          bucket = dropWhile (\<lambda>t. t < cutoff) (B key)
      in if int (length bucket) \<ge> max_requests then (False, B(key := bucket))
         else (True, B(key := bucket @ [now])))"

section \<open>RateLimitMiddleware\<close>

record rl_request =
  rl_path :: string
  rl_headers :: headers
  rl_client :: "string option"

type_synonym rl_rule = "string \<times> int \<times> real"

datatype rl_response = Rl_forwarded | Rl_rejected real

definition client_ip :: "rl_request \<Rightarrow> string" where
  "client_ip req =
     (case map_option snd (find (\<lambda>(k, v). lower k = ''x-forwarded-for'') (rl_headers req)) of
        Some xff \<Rightarrow> if xff \<noteq> [] then strip (last (split_on CHR '','' xff))
                    else (case rl_client req of Some h \<Rightarrow> h | None \<Rightarrow> ''unknown'')
      | None \<Rightarrow> (case rl_client req of Some h \<Rightarrow> h | None \<Rightarrow> ''unknown''))"

definition matching_rule :: "rl_rule list \<Rightarrow> rl_request \<Rightarrow> rl_rule option" where
  "matching_rule rules req = find (\<lambda>(prefix, _, _). startswith (rl_path req) prefix) rules"

definition rl_dispatch :: "rl_rule list \<Rightarrow> real \<Rightarrow> rl_request \<Rightarrow> buckets \<Rightarrow> rl_response \<times> buckets" where
  "rl_dispatch rules now req B =
     (case matching_rule rules req of
        None \<Rightarrow> (Rl_forwarded, B)
      | Some (prefix, max_req, window) \<Rightarrow>
          (case limiter_check now (prefix, client_ip req) max_req window B of
             (ok, B') \<Rightarrow> (if ok then Rl_forwarded else Rl_rejected window, B')))"

definition DEFAULT_RULES :: "rl_rule list" where
  "DEFAULT_RULES =
     [(''/auth/login'', 10, 60), (''/auth/signup'', 5, 60), (''/auth/invite'', 20, 60),
      (''/auth/reset-password'', 3, 900), (''/auth/resend-verification'', 3, 900),
      (''/v1/ingest'', 600, 60)]"

text \<open>The requests a running instance sees, in the order it takes the limiter's lock.\<close>

fun rl_serve :: "rl_rule list \<Rightarrow> (real \<times> rl_request) list \<Rightarrow> buckets \<Rightarrow> rl_response list \<times> buckets" where
  "rl_serve rules [] B = ([], B)"
| "rl_serve rules ((now, req) # es) B =
     (case rl_dispatch rules now req B of (r, B') \<Rightarrow>
        (case rl_serve rules es B' of (rs, B'') \<Rightarrow> (r # rs, B'')))"

definition bucket_of :: "rl_rule list \<Rightarrow> rl_request \<Rightarrow> (bucket_key \<times> int \<times> real) option" where
  "bucket_of rules req =
     map_option (\<lambda>(p, m, w). ((p, client_ip req), m, w)) (matching_rule rules req)"

definition accepted_between ::
    "rl_rule list \<Rightarrow> bucket_key \<Rightarrow> real \<Rightarrow> real \<Rightarrow> (real \<times> rl_request) list \<Rightarrow> rl_response list \<Rightarrow> nat" where
  "accepted_between rules key lo hi es rs =
     length (filter (\<lambda>((now, req), r). r = Rl_forwarded \<and> map_option fst (bucket_of rules req) = Some key
        \<and> lo \<le> now \<and> now \<le> hi) (zip es rs))"

section \<open>The reference: a log that forgets nothing\<close>

definition in_window :: "real \<Rightarrow> real \<Rightarrow> real list \<Rightarrow> nat" where
  "in_window lo hi ts = length (filter (\<lambda>t. lo \<le> t \<and> t \<le> hi) ts)"

definition log_admits :: "real \<Rightarrow> int \<Rightarrow> real \<Rightarrow> real list \<Rightarrow> bool" where
  "log_admits now max_requests window ts \<longleftrightarrow> int (in_window (now - window) now ts) < max_requests"

fun log_serve :: "rl_rule list \<Rightarrow> (real \<times> rl_request) list \<Rightarrow> buckets \<Rightarrow> rl_response list" where
  "log_serve rules [] L = []"
| "log_serve rules ((now, req) # es) L =
     (case bucket_of rules req of
        None \<Rightarrow> Rl_forwarded # log_serve rules es L
      | Some (key, m, w) \<Rightarrow>
          if log_admits now m w (L key) then Rl_forwarded # log_serve rules es (L(key := L key @ [now]))
          else Rl_rejected w # log_serve rules es L)"

lemma dropWhile_sorted: "sorted xs \<Longrightarrow> dropWhile (\<lambda>t. t < c) xs = filter (\<lambda>t. c \<le> t) xs" for c :: real
proof (induction xs)
  case (Cons a xs)
  then show ?case by (cases "a < c") (auto intro!: filter_True[symmetric])
qed simp

lemma bucket_of_key_rule:
  assumes "bucket_of rules r1 = Some (k, m, w)" "bucket_of rules r2 = Some (k, m', w')"
  shows "m = m' \<and> w = w'"
  using assms
proof (induction rules)
  case (Cons x rules)
  obtain p a b where x: "x = (p, a, b)" by (cases x) auto
  show ?case
  proof (cases "startswith (rl_path r1) p = startswith (rl_path r2) p")
    case True
    with Cons x show ?thesis by (cases "startswith (rl_path r1) p") (auto simp: bucket_of_def matching_rule_def)
  next
    case False
    with Cons.prems x show ?thesis
      by (cases "startswith (rl_path r1) p") (auto simp: bucket_of_def matching_rule_def dest: find_Some_setD)
  qed
qed (simp add: bucket_of_def matching_rule_def)

text \<open>
  The limiter's buckets against the log: sorted, no later than the clock, and differing only in
  entries that are older than the window of the bucket's rule.
\<close>

definition represents :: "rl_rule list \<Rightarrow> real \<Rightarrow> buckets \<Rightarrow> buckets \<Rightarrow> bool" where
  "represents rules now B L \<longleftrightarrow> (\<forall>k. sorted (L k) \<and> (\<forall>t \<in> set (L k). t \<le> now) \<and>
     (\<exists>c. B k = filter (\<lambda>t. c \<le> t) (L k) \<and>
        (\<forall>req m w. bucket_of rules req = Some (k, m, w) \<longrightarrow> c \<le> now - w)))"

lemma representsD:
  assumes "represents rules now B L"
  shows "sorted (L k)" "\<forall>t \<in> set (L k). t \<le> now"
    "\<exists>c. B k = filter (\<lambda>t. c \<le> t) (L k) \<and>
       (\<forall>req m w. bucket_of rules req = Some (k, m, w) \<longrightarrow> c \<le> now - w)"
  using assms unfolding represents_def by blast+

lemma represents_init: "represents rules now limiter_init limiter_init"
proof -
  have "\<exists>c. \<forall>req m w. bucket_of rules req = Some (k, m, w) \<longrightarrow> c \<le> now - w" for k
  proof (cases "\<exists>req m w. bucket_of rules req = Some (k, m, w)")
    case True
    then obtain req m w where "bucket_of rules req = Some (k, m, w)" by blast
    then show ?thesis by (intro exI[of _ "now - w"]) (auto dest: bucket_of_key_rule)
  qed auto
  then show ?thesis by (auto simp: represents_def limiter_init_def)
qed

lemma represents_mono:
  assumes "represents rules now B L" "now \<le> now'"
  shows "represents rules now' B L"
  using assms unfolding represents_def
  by (meson diff_right_mono order_trans)

lemma represents_bucket:
  assumes R: "represents rules now B L" and b: "bucket_of rules req = Some (k, m, w)"
  shows "dropWhile (\<lambda>t. t < now - w) (B k) = filter (\<lambda>t. now - w \<le> t) (L k)"
proof -
  obtain c where c: "B k = filter (\<lambda>t. c \<le> t) (L k)" "c \<le> now - w"
    using R b unfolding represents_def by blast
  have "sorted (B k)" using representsD(1)[OF R] c by (simp add: sorted_wrt_filter)
  then have "dropWhile (\<lambda>t. t < now - w) (B k) = filter (\<lambda>t. now - w \<le> t) (B k)"
    by (rule dropWhile_sorted)
  also have "\<dots> = filter (\<lambda>t. now - w \<le> t) (L k)"
    using c by (auto intro!: filter_cong)
  finally show ?thesis .
qed

lemma represents_in_window:
  assumes "represents rules now B L"
  shows "in_window lo now (L k) = length (filter (\<lambda>t. lo \<le> t) (L k))"
  using representsD(2)[OF assms] unfolding in_window_def
  by (intro arg_cong[of _ _ length] filter_cong) auto

lemma represents_step:
  assumes R: "represents rules now B L" and b: "bucket_of rules req = Some (k, m, w)"
    and w: "0 \<le> w"
  shows "fst (limiter_check now k m w B) = log_admits now m w (L k)"
    and "represents rules now (snd (limiter_check now k m w B))
           (if log_admits now m w (L k) then L(k := L k @ [now]) else L)"
proof -
  have eq: "dropWhile (\<lambda>t. t < now - w) (B k) = filter (\<lambda>t. now - w \<le> t) (L k)"
    by (rule represents_bucket[OF R b])
  show "fst (limiter_check now k m w B) = log_admits now m w (L k)"
    using represents_in_window[OF R] eq by (auto simp: limiter_check_def log_admits_def Let_def)
  have c: "c' \<le> now - w'" if "c' = now - w" "bucket_of rules req' = Some (k, m', w')" for req' m' w' c'
    using bucket_of_key_rule[OF b that(2)] that(1) by simp
  show "represents rules now (snd (limiter_check now k m w B))
           (if log_admits now m w (L k) then L(k := L k @ [now]) else L)"
    unfolding represents_def
  proof
    fix k'
    note RL = representsD(1,2)[OF R, of k]
    show "sorted ((if log_admits now m w (L k) then L(k := L k @ [now]) else L) k') \<and>
      (\<forall>t \<in> set ((if log_admits now m w (L k) then L(k := L k @ [now]) else L) k'). t \<le> now) \<and>
      (\<exists>c. snd (limiter_check now k m w B) k' =
         filter (\<lambda>t. c \<le> t) ((if log_admits now m w (L k) then L(k := L k @ [now]) else L) k') \<and>
         (\<forall>req m w. bucket_of rules req = Some (k', m, w) \<longrightarrow> c \<le> now - w))"
    proof (cases "k' = k")
      case True
      with RL eq c w represents_in_window[OF R] show ?thesis
        by (auto simp: sorted_append limiter_check_def log_admits_def Let_def intro!: exI[of _ "now - w"])
    next
      case False
      then have "snd (limiter_check now k m w B) k' = B k'"
        by (simp add: limiter_check_def Let_def)
      with False representsD[OF R, of k'] show ?thesis by simp
    qed
  qed
qed

definition rules_ok :: "rl_rule list \<Rightarrow> bool" where
  "rules_ok rules \<longleftrightarrow> (\<forall>(p, m, w) \<in> set rules. 0 \<le> w)"

lemma bucket_of_window: "rules_ok rules \<Longrightarrow> bucket_of rules req = Some (k, m, w) \<Longrightarrow> 0 \<le> w"
  by (auto simp: rules_ok_def bucket_of_def matching_rule_def dest!: find_Some_setD)

lemma serve_refines:
  assumes "rules_ok rules" "represents rules now B L" "sorted (now # map fst es)"
  shows "fst (rl_serve rules es B) = log_serve rules es L"
  using assms(2,3)
proof (induction es arbitrary: now B L)
  case (Cons e es)
  obtain t req where e: "e = (t, req)" by (cases e)
  have R: "represents rules t B L" using Cons.prems e by (auto intro: represents_mono)
  have s: "sorted (t # map fst es)" using Cons.prems e by simp
  show ?case
  proof (cases "bucket_of rules req")
    case None
    then have "matching_rule rules req = None" by (simp add: bucket_of_def)
    with None Cons.IH[OF R s] e show ?thesis by (auto simp: rl_dispatch_def split: prod.split)
  next
    case (Some b)
    obtain k m w where b: "b = (k, m, w)" by (cases b) auto
    then have bo: "bucket_of rules req = Some (k, m, w)" using Some by simp
    then obtain p where p: "matching_rule rules req = Some (p, m, w)" "k = (p, client_ip req)"
      by (auto simp: bucket_of_def)
    note st = represents_step[OF R bo bucket_of_window[OF assms(1) bo]]
    obtain ok B' where ck: "limiter_check t k m w B = (ok, B')" by (cases "limiter_check t k m w B")
    have "fst (rl_serve rules es B') = log_serve rules es (if ok then L(k := L k @ [t]) else L)"
      using st ck by (intro Cons.IH[OF _ s]) auto
    with st(1) ck p e bo show ?thesis
      by (auto simp: rl_dispatch_def split: prod.split)
  qed
qed simp

section \<open>The cap\<close>

lemma in_window_append [simp]:
  "in_window lo hi (xs @ ys) = in_window lo hi xs + in_window lo hi ys"
  by (simp add: in_window_def)

lemma in_window_mono: "lo' \<le> lo \<Longrightarrow> hi \<le> hi' \<Longrightarrow> in_window lo hi xs \<le> in_window lo' hi' xs"
  unfolding in_window_def by (induction xs) auto

lemma in_window_bounded: "\<forall>t \<in> set xs. t \<le> now \<Longrightarrow> in_window lo hi xs = in_window lo (min hi now) xs"
  unfolding in_window_def by (intro arg_cong[of _ _ length] filter_cong) auto

definition log_capped :: "real \<Rightarrow> int \<Rightarrow> real list \<Rightarrow> bool" where
  "log_capped w m ts \<longleftrightarrow> (\<forall>hi. int (in_window (hi - w) hi ts) \<le> max 0 m)"

lemma log_capped_snoc:
  assumes c: "log_capped w m ts" and a: "log_admits now m w ts" and le: "\<forall>t \<in> set ts. t \<le> now"
  shows "log_capped w m (ts @ [now])"
  unfolding log_capped_def
proof
  fix hi
  show "int (in_window (hi - w) hi (ts @ [now])) \<le> max 0 m"
  proof (cases "now \<le> hi")
    case True
    have "in_window (hi - w) hi ts \<le> in_window (now - w) now ts"
      using True le by (subst in_window_bounded[where now = now]) (auto intro!: in_window_mono)
    moreover have "in_window (hi - w) hi [now] \<le> 1" by (simp add: in_window_def)
    ultimately show ?thesis using a by (simp add: log_admits_def)
  next
    case False
    then show ?thesis using c by (simp add: log_capped_def in_window_def)
  qed
qed

text \<open>The accept times of one bucket as the run's answers show them.\<close>

definition accept_times :: "rl_rule list \<Rightarrow> bucket_key \<Rightarrow> (real \<times> rl_request) list \<Rightarrow> rl_response list \<Rightarrow> real list" where
  "accept_times rules key es rs =
     map (fst \<circ> fst) (filter (\<lambda>((now, req), r). r = Rl_forwarded \<and> map_option fst (bucket_of rules req) = Some key) (zip es rs))"

lemma accept_times_Cons [simp]:
  "accept_times rules key ((t, req) # es) (r # rs) =
     (if r = Rl_forwarded \<and> map_option fst (bucket_of rules req) = Some key
      then t # accept_times rules key es rs else accept_times rules key es rs)"
  by (simp add: accept_times_def)

lemma accepted_between_times:
  "accepted_between rules key lo hi es rs = in_window lo hi (accept_times rules key es rs)"
  unfolding accepted_between_def in_window_def accept_times_def
  by (induction es rs rule: list_induct2') (auto simp: filter_map o_def)

lemma log_serve_capped:
  assumes "bucket_of rules req0 = Some (key, m, w)"
    and "log_capped w m (L key)" "\<forall>t \<in> set (L key). t \<le> now" "sorted (now # map fst es)"
  shows "log_capped w m (L key @ accept_times rules key es (log_serve rules es L))"
  using assms(2-)
proof (induction es arbitrary: now L)
  case Nil
  then show ?case by (simp add: accept_times_def)
next
  case (Cons e es)
  obtain t req where e: "e = (t, req)" by (cases e)
  have le: "\<forall>u \<in> set (L key). u \<le> t" and s: "sorted (t # map fst es)" using Cons.prems e by auto
  show ?case
  proof (cases "bucket_of rules req")
    case None
    with Cons.IH[of L, OF Cons.prems(1) le s] e show ?thesis by simp
  next
    case (Some b)
    obtain k m' w' where b: "b = (k, m', w')" by (cases b) auto
    show ?thesis
    proof (cases "k = key \<and> log_admits t m' w' (L key)")
      case True
      then have mw: "m' = m" "w' = w" using bucket_of_key_rule[OF assms(1)] Some b by blast+
      let ?L = "L(key := L key @ [t])"
      have "log_capped w m (?L key)" "\<forall>u \<in> set (?L key). u \<le> t"
        using True mw Cons.prems(1) le log_capped_snoc by auto
      from Cons.IH[of ?L, OF this s] True Some b e show ?thesis by (simp del: fun_upd_apply add: fun_upd_same)
    next
      case False
      let ?L = "if log_admits t m' w' (L k) then L(k := L k @ [t]) else L"
      have "log_capped w m (?L key)" "\<forall>u \<in> set (?L key). u \<le> t"
        using False Cons.prems(1) le by auto
      from Cons.IH[of ?L, OF this s] False Some b e show ?thesis by (auto simp del: fun_upd_apply simp: fun_upd_other)
    qed
  qed
qed

lemma serve_init_refines:
  assumes "rules_ok rules" "sorted (map fst es)"
  shows "fst (rl_serve rules es limiter_init) = log_serve rules es limiter_init"
proof (cases es)
  case (Cons e es')
  with assms show ?thesis by (intro serve_refines[of _ "fst e"] represents_init) auto
qed simp

lemma log_init_capped:
  assumes "bucket_of rules req = Some (key, m, w)" "sorted (map fst es)"
  shows "log_capped w m (accept_times rules key es (log_serve rules es limiter_init))"
proof (cases es)
  case (Cons e es')
  with assms(2) have "sorted (fst e # map fst es)" by simp
  with log_serve_capped[OF assms(1), of limiter_init "fst e" es] show ?thesis
    by (simp add: limiter_init_def log_capped_def in_window_def)
qed (simp add: log_capped_def in_window_def accept_times_def)

lemma split_on_ne [simp]: "split_on d s \<noteq> []"
  by (cases s) (auto split: list.split)

lemma split_on_append: "split_on d (a @ d # b) = split_on d a @ split_on d b"
proof (induction a)
  case (Cons x a)
  then show ?case by (cases "split_on d a") auto
qed simp

lemma split_on_single: "d \<notin> set b \<Longrightarrow> split_on d b = [b]"
  by (induction b) auto

lemma split_on_last: "d \<notin> set b \<Longrightarrow> last (split_on d (a @ d # b)) = b"
  by (simp add: split_on_append split_on_single)

section \<open>Properties\<close>

text \<open>C12: 
  The limiter is a faithful sliding window: with a clock that never runs backwards, the middleware
  answers every request of a run exactly as the reference that keeps all accept times for ever and
  counts those of the last window, although it drops entries from its deques as it goes.
\<close>

theorem limiter_refines_log:
  assumes "rules_ok rules" "sorted (map fst es)"
  shows "fst (rl_serve rules es limiter_init) = log_serve rules es limiter_init"
  using assms by (rule serve_init_refines)

definition rl_demo :: rl_request where
  "rl_demo = \<lparr>rl_path = ''/auth/reset-password/confirm'',
     rl_headers = [(''X-Forwarded-For'', ''1.1.1.1, 9.9.9.9'')], rl_client = None\<rparr>"

lemma rl_demo_bucket: "bucket_of DEFAULT_RULES rl_demo = Some ((''/auth/reset-password'', ''9.9.9.9''), 3, 900)"
  by code_simp

lemma default_rules_ok: "rules_ok DEFAULT_RULES"
  by (simp add: rules_ok_def DEFAULT_RULES_def)

lemma rl_demo_run:
  "log_serve DEFAULT_RULES [(0, rl_demo), (10, rl_demo), (20, rl_demo), (900, rl_demo), (901, rl_demo)]
     limiter_init = [Rl_forwarded, Rl_forwarded, Rl_forwarded, Rl_rejected 900, Rl_forwarded]"
  by (simp add: rl_demo_bucket limiter_init_def log_admits_def in_window_def)

text \<open>
  Three password resets pass, the fourth is refused exactly 900 seconds after the first (the window
  is closed at its old end), and one second later there is room again.
\<close>

theorem limiter_refines_log_witness:
  "rules_ok DEFAULT_RULES \<and>
   fst (rl_serve DEFAULT_RULES
      [(0, rl_demo), (10, rl_demo), (20, rl_demo), (900, rl_demo), (901, rl_demo)] limiter_init) =
     [Rl_forwarded, Rl_forwarded, Rl_forwarded, Rl_rejected 900, Rl_forwarded]"
  using limiter_refines_log[OF default_rules_ok,
      of "[(0, rl_demo), (10, rl_demo), (20, rl_demo), (900, rl_demo), (901, rl_demo)]"]
    default_rules_ok rl_demo_run by simp

text \<open>
  No window of a rule's length, wherever it is placed, holds more forwarded requests of one
  (prefix, client address) bucket than the rule allows.
\<close>

theorem rate_cap:
  assumes "rules_ok rules" "sorted (map fst es)" "bucket_of rules req = Some (key, m, w)"
  shows "int (accepted_between rules key (hi - w) hi es (fst (rl_serve rules es limiter_init))) \<le> max 0 m"
  using log_init_capped[OF assms(3,2)] serve_init_refines[OF assms(1,2)]
  by (simp add: accepted_between_times log_capped_def)

theorem rate_cap_witness:
  "accepted_between DEFAULT_RULES (''/auth/reset-password'', ''9.9.9.9'') 0 900
     [(0, rl_demo), (10, rl_demo), (20, rl_demo), (900, rl_demo), (901, rl_demo)]
     (fst (rl_serve DEFAULT_RULES
        [(0, rl_demo), (10, rl_demo), (20, rl_demo), (900, rl_demo), (901, rl_demo)] limiter_init)) \<le> 3"
  using rate_cap[OF default_rules_ok _ rl_demo_bucket,
      of "[(0, rl_demo), (10, rl_demo), (20, rl_demo), (900, rl_demo), (901, rl_demo)]" 900] by simp

text \<open>
  A client that forges entries in front of the hop the trusted proxy appends stays in its bucket:
  only the text after the last comma of the X-Forwarded-For header names the client.
\<close>

theorem forged_hops_ignored:
  assumes "CHR '','' \<notin> set hop" "find (\<lambda>(k, v). lower k = ''x-forwarded-for'') (rl_headers req) =
      Some (name, forged @ CHR '','' # hop)"
  shows "client_ip req = strip hop"
  using assms by (simp add: client_ip_def split_on_last)

theorem forged_hops_ignored_witness: "client_ip rl_demo = strip '' 9.9.9.9''"
  by (rule forged_hops_ignored[where name = "''X-Forwarded-For''" and forged = "''1.1.1.1''"])
    (code_simp, simp add: rl_demo_def, code_simp)

end
