(* ===== verification/Plans.thy ===== *)
theory Plans
  imports Headers
begin

text \<open>
  Plans and entitlements of the hosted service: the SQL function \<open>resolve_limits\<close>
  (\<open>burnlens_cloud/database.py\<close>) and its wrapper in \<open>plans.py\<close>, and the role and feature gates of
  \<open>auth.py\<close>. The JSONB columns \<open>limit_overrides\<close> and \<open>gated_features\<close> are modelled by the typed
  entries the code reads (an absent key and a JSON null are both \<open>None\<close>); a text that does not
  cast to a number is outside the model.
\<close>

datatype http_error = HTTP nat string

section \<open>Tables\<close>

record plan_limits_row =
  pl_plan :: string
  pl_monthly_request_cap :: "int option"
  pl_seat_count :: "int option"
  pl_retention_days :: "int option"
  pl_api_key_count :: "int option"
  pl_monthly_token_cap :: "int option"
  pl_monthly_spend_cap_usd :: "usd option"
  pl_gated_features :: "string \<rightharpoonup> bool"

record limit_overrides =
  ov_monthly_request_cap :: "int option"
  ov_seat_count :: "int option"
  ov_retention_days :: "int option"
  ov_api_key_count :: "int option"
  ov_monthly_token_cap :: "int option"
  ov_monthly_spend_cap_usd :: "usd option"
  ov_gated_features :: "string \<rightharpoonup> bool"

record workspace_row =
  ws_id :: string
  ws_name :: string
  ws_plan :: string
  ws_active :: bool
  ws_owner_email_encrypted :: "string option"
  ws_owner_email_hash :: "string option"
  ws_api_key_hash :: "string option"
  ws_api_key_last4 :: "string option"
  ws_created_at :: instant
  ws_limit_overrides :: "limit_overrides option"
  ws_routing_overrides :: "(string \<rightharpoonup> json) option"

record resolved_limits =
  rl_plan :: string
  monthly_request_cap :: "int option"
  seat_count :: "int option"
  retention_days :: "int option"
  api_key_count :: "int option"
  monthly_token_cap :: "int option"
  monthly_spend_cap_usd :: "usd option"
  gated_features :: "string \<rightharpoonup> bool"
  routing_overrides :: "(string \<rightharpoonup> json) option"

definition no_overrides :: limit_overrides where
  "no_overrides = \<lparr>ov_monthly_request_cap = None, ov_seat_count = None, ov_retention_days = None,
     ov_api_key_count = None, ov_monthly_token_cap = None, ov_monthly_spend_cap_usd = None,
     ov_gated_features = Map.empty\<rparr>"

section \<open>resolve_limits\<close>

definition coalesce :: "'a option \<Rightarrow> 'a option \<Rightarrow> 'a option" where
  "coalesce a b = (case a of None \<Rightarrow> b | Some x \<Rightarrow> Some x)"

definition merged_limits :: "workspace_row \<Rightarrow> plan_limits_row \<Rightarrow> resolved_limits" where
  "merged_limits w pl =
     (let ov = (case ws_limit_overrides w of None \<Rightarrow> no_overrides | Some ov \<Rightarrow> ov)
      in \<lparr>rl_plan = pl_plan pl,
          monthly_request_cap = coalesce (ov_monthly_request_cap ov) (pl_monthly_request_cap pl),
          seat_count = coalesce (ov_seat_count ov) (pl_seat_count pl),
          retention_days = coalesce (ov_retention_days ov) (pl_retention_days pl),
          api_key_count = coalesce (ov_api_key_count ov) (pl_api_key_count pl),
          monthly_token_cap = coalesce (ov_monthly_token_cap ov) (pl_monthly_token_cap pl),
          monthly_spend_cap_usd = coalesce (ov_monthly_spend_cap_usd ov) (pl_monthly_spend_cap_usd pl),
          gated_features = pl_gated_features pl ++ ov_gated_features ov,
          routing_overrides = ws_routing_overrides w\<rparr>)"

definition resolve_limits ::
    "plan_limits_row table \<Rightarrow> workspace_row table \<Rightarrow> string \<Rightarrow> resolved_limits option" where
  "resolve_limits plans wss wid =
     (case lookup_key ws_id wid wss of
        None \<Rightarrow> None
      | Some w \<Rightarrow> map_option (merged_limits w) (lookup_key pl_plan (ws_plan w) plans))"

section \<open>The seeded plans\<close>

definition plan_limits_seed :: "plan_limits_row table" where
  "plan_limits_seed =
     [\<lparr>pl_plan = ''free'', pl_monthly_request_cap = Some 10000, pl_seat_count = Some 1,
        pl_retention_days = Some 7, pl_api_key_count = Some 1, pl_monthly_token_cap = None,
        pl_monthly_spend_cap_usd = None,
        pl_gated_features = [''custom_signatures'' \<mapsto> False, ''team_seats'' \<mapsto> False, ''otel_export'' \<mapsto> False]\<rparr>,
      \<lparr>pl_plan = ''cloud'', pl_monthly_request_cap = Some 1000000, pl_seat_count = Some 3,
        pl_retention_days = Some 90, pl_api_key_count = Some 3, pl_monthly_token_cap = None,
        pl_monthly_spend_cap_usd = None,
        pl_gated_features = [''custom_signatures'' \<mapsto> True, ''team_seats'' \<mapsto> True, ''otel_export'' \<mapsto> False]\<rparr>,
      \<lparr>pl_plan = ''teams'', pl_monthly_request_cap = Some 10000000, pl_seat_count = Some 10,
        pl_retention_days = Some 365, pl_api_key_count = Some 25, pl_monthly_token_cap = None,
        pl_monthly_spend_cap_usd = None,
        pl_gated_features = [''custom_signatures'' \<mapsto> True, ''team_seats'' \<mapsto> True, ''otel_export'' \<mapsto> True]\<rparr>]"

section \<open>Gates\<close>

record token_payload =
  tp_workspace_id :: string
  tp_user_id :: string
  tp_role :: string
  tp_plan :: string
  tp_iat :: int
  tp_exp :: int
  tp_email_verified :: bool
  tp_typ :: string

definition ROLE_HIERARCHY :: "string \<rightharpoonup> int" where
  "ROLE_HIERARCHY = [''viewer'' \<mapsto> 0, ''admin'' \<mapsto> 1, ''owner'' \<mapsto> 2]"

definition dict_get :: "('k \<rightharpoonup> 'v) \<Rightarrow> 'k \<Rightarrow> 'v \<Rightarrow> 'v" where
  "dict_get m k d = (case m k of None \<Rightarrow> d | Some v \<Rightarrow> v)"

definition require_role :: "string \<Rightarrow> token_payload \<Rightarrow> http_error + unit" where
  "require_role required_role token =
     (if dict_get ROLE_HIERARCHY (tp_role token) (- 1) < dict_get ROLE_HIERARCHY required_role 999
      then Inl (HTTP 403 ''insufficient_role'') else Inr ())"

definition require_enterprise ::
    "plan_limits_row table \<Rightarrow> workspace_row table \<Rightarrow> token_payload \<Rightarrow> http_error + unit" where
  "require_enterprise plans wss token =
     (case resolve_limits plans wss (tp_workspace_id token) of
        None \<Rightarrow> Inl (HTTP 403 ''Enterprise plan required'')
      | Some limits \<Rightarrow> if rl_plan limits \<noteq> ''enterprise'' then Inl (HTTP 403 ''Enterprise plan required'')
                       else Inr ())"

definition PLAN_PRICE_ORDER :: "string list" where
  "PLAN_PRICE_ORDER = [''free'', ''cloud'', ''teams'']"

definition lowest_plan_with_feature :: "plan_limits_row table \<Rightarrow> string \<Rightarrow> string option" where
  "lowest_plan_with_feature plans name =
     (let plans_with_feature = map pl_plan (filter (\<lambda>p. pl_gated_features p name = Some True) plans)
      in find (\<lambda>c. c \<in> set plans_with_feature) PLAN_PRICE_ORDER)"

datatype feature_error = Feature_not_in_plan string string "string option"

definition require_feature ::
    "plan_limits_row table \<Rightarrow> workspace_row table \<Rightarrow> string \<Rightarrow> token_payload \<Rightarrow> feature_error + token_payload" where
  "require_feature plans wss name token =
     (let features = (case resolve_limits plans wss (tp_workspace_id token) of
                        None \<Rightarrow> Map.empty | Some limits \<Rightarrow> gated_features limits)
      in if \<not> dict_get features name False
         then Inl (Feature_not_in_plan name (tp_plan token) (lowest_plan_with_feature plans name))
         else Inr token)"

section \<open>Lemmas\<close>

lemma coalesce_simps [simp]: "coalesce None b = b" "coalesce (Some x) b = Some x"
  by (simp_all add: coalesce_def)

lemma coalesce_eq_None [simp]: "coalesce a b = None \<longleftrightarrow> a = None \<and> b = None"
  by (cases a) auto

lemma resolve_limits_SomeE:
  assumes "resolve_limits plans wss wid = Some l"
  obtains w pl where "lookup_key ws_id wid wss = Some w" "lookup_key pl_plan (ws_plan w) plans = Some pl"
    "l = merged_limits w pl"
  using assms by (auto simp: resolve_limits_def split: option.splits)

lemma merged_gated_features:
  "gated_features (merged_limits w pl) name =
     coalesce (case ws_limit_overrides w of None \<Rightarrow> None | Some ov \<Rightarrow> ov_gated_features ov name)
       (pl_gated_features pl name)"
  by (simp add: merged_limits_def Let_def no_overrides_def map_add_def coalesce_def split: option.split)

text \<open>The entry the code reads from an optional override document.\<close>

definition override_entry :: "(limit_overrides \<Rightarrow> 'a option) \<Rightarrow> workspace_row \<Rightarrow> 'a option" where
  "override_entry f w = (case ws_limit_overrides w of None \<Rightarrow> None | Some ov \<Rightarrow> f ov)"

lemma merged_request_cap:
  "monthly_request_cap (merged_limits w pl) =
     coalesce (override_entry ov_monthly_request_cap w) (pl_monthly_request_cap pl)"
  by (simp add: merged_limits_def override_entry_def Let_def no_overrides_def split: option.split)

lemma merged_api_key_count:
  "api_key_count (merged_limits w pl) =
     coalesce (override_entry ov_api_key_count w) (pl_api_key_count pl)"
  by (simp add: merged_limits_def override_entry_def Let_def no_overrides_def split: option.split)

section \<open>Properties\<close>

text \<open>
  A feature gate looks at the server's tables and never at the plan named in the session token: two
  tokens of the same workspace are admitted or refused alike, whatever plan and role they claim, and
  a token is admitted exactly when the workspace's override, or without one its plan, sets the flag.
\<close>

theorem feature_gate_server_side:
  assumes "lookup_key ws_id (tp_workspace_id token) wss = Some w"
    and "lookup_key pl_plan (ws_plan w) plans = Some pl"
  shows "(\<exists>t. require_feature plans wss name token = Inr t) \<longleftrightarrow>
     coalesce (override_entry (\<lambda>ov. ov_gated_features ov name) w) (pl_gated_features pl name) = Some True"
  using assms
  by (auto simp: require_feature_def resolve_limits_def Let_def merged_gated_features dict_get_def
      override_entry_def split: option.splits)

definition demo_ws :: workspace_row where
  "demo_ws = \<lparr>ws_id = ''w1'', ws_name = ''Acme'', ws_plan = ''free'', ws_active = True,
     ws_owner_email_encrypted = None, ws_owner_email_hash = None, ws_api_key_hash = Some ''h0'',
     ws_api_key_last4 = Some ''c0de'', ws_created_at = 0, ws_limit_overrides = None,
     ws_routing_overrides = None\<rparr>"

definition demo_token :: token_payload where
  "demo_token = \<lparr>tp_workspace_id = ''w1'', tp_user_id = ''u1'', tp_role = ''admin'', tp_plan = ''teams'',
     tp_iat = 0, tp_exp = 86400, tp_email_verified = True, tp_typ = ''session''\<rparr>"

lemma demo_plan: "lookup_key pl_plan (ws_plan demo_ws) plan_limits_seed = Some (plan_limits_seed ! 0)"
  by (simp add: lookup_key_def demo_ws_def plan_limits_seed_def)

theorem feature_gate_server_side_witness:
  "\<not> (\<exists>t. require_feature plan_limits_seed [demo_ws] ''otel_export'' demo_token = Inr t)"
  using feature_gate_server_side[of demo_token "[demo_ws]" demo_ws, OF _ demo_plan, of "''otel_export''"]
  by (simp add: lookup_key_def demo_ws_def demo_token_def override_entry_def plan_limits_seed_def)

text \<open>
  The role check is monotone in the hierarchy and closed to unknown roles: a known role passes every
  requirement a weaker role passes, and a role outside the hierarchy passes none.
\<close>

theorem role_check_monotone:
  "(require_role required t = Inr () \<longrightarrow> dict_get ROLE_HIERARCHY (tp_role t) (- 1) \<le> dict_get ROLE_HIERARCHY (tp_role t') (- 1)
      \<longrightarrow> require_role required t' = Inr ()) \<and>
   (ROLE_HIERARCHY (tp_role t) = None \<longrightarrow> require_role required t \<noteq> Inr ())"
  by (auto simp: require_role_def dict_get_def ROLE_HIERARCHY_def split: option.splits if_splits)

end
