(* ===== verification/Pii_Crypto.thy ===== *)
theory Pii_Crypto
  imports Headers
begin

text \<open>
  \<open>burnlens_cloud/pii_crypto.py\<close>: versioned encryption of personal data and the keyed lookup hash.
  Fernet and HMAC-SHA256 under the keys derived from PII_MASTER_KEY are parameters: encryption takes
  its random IV as an argument, decryption answers \<open>None\<close> for \<open>InvalidToken\<close>. The loading of the
  master key is not modelled.
\<close>

datatype pii_error = PIICryptoError | UnicodeEncodeError

definition VERSION_PREFIX_V1 :: string where
  "VERSION_PREFIX_V1 = ''v1:''"

definition is_ascii :: "string \<Rightarrow> bool" where
  "is_ascii s = list_all (\<lambda>c. (of_char c :: nat) < 128) s"

definition encrypt_pii :: "(string \<Rightarrow> string) \<Rightarrow> string option \<Rightarrow> string option" where
  "encrypt_pii fernet_encrypt plaintext =
     (if plaintext = None \<or> plaintext = Some [] then plaintext
      else Some (VERSION_PREFIX_V1 @ fernet_encrypt (the plaintext)))"

definition decrypt_pii :: "(string \<Rightarrow> string option) \<Rightarrow> string option \<Rightarrow> pii_error + string option" where
  "decrypt_pii fernet_decrypt ciphertext =
     (case ciphertext of
        None \<Rightarrow> Inr ciphertext
      | Some c \<Rightarrow>
          if c = [] then Inr ciphertext
          else if startswith c VERSION_PREFIX_V1 then
            let body = drop (length VERSION_PREFIX_V1) c
            in if \<not> is_ascii body then Inl UnicodeEncodeError
               else (case fernet_decrypt body of
                       Some p \<Rightarrow> Inr (Some p)
                     | None \<Rightarrow> Inl PIICryptoError)
          else Inl PIICryptoError)"

definition lookup_hash :: "(string \<Rightarrow> string) \<Rightarrow> string option \<Rightarrow> string option" where
  "lookup_hash hmac value = map_option (\<lambda>v. hmac (lower (strip v))) value"

section \<open>Lemmas\<close>

lemma decrypt_encrypt:
  assumes "fernet_decrypt (fernet_encrypt p) = Some p" "is_ascii (fernet_encrypt p)"
  shows "decrypt_pii fernet_decrypt (encrypt_pii fernet_encrypt (Some p)) = Inr (Some p)"
  using assms by (auto simp: encrypt_pii_def decrypt_pii_def VERSION_PREFIX_V1_def)

lemma dropWhile_space_strip: "dropWhile is_py_space (strip s) = strip s"
proof -
  obtain b where b: "dropWhile is_py_space s = strip s @ b" "\<forall>c \<in> set b. is_py_space c"
  proof
    let ?r = "rev (dropWhile is_py_space s)"
    have "rev ?r = rev (dropWhile is_py_space ?r) @ rev (takeWhile is_py_space ?r)"
      by (metis rev_append takeWhile_dropWhile_id)
    then show "dropWhile is_py_space s = strip s @ rev (takeWhile is_py_space ?r)"
      by (simp add: strip_def)
    show "\<forall>c \<in> set (rev (takeWhile is_py_space ?r)). is_py_space c" by (auto dest: set_takeWhileD)
  qed
  show ?thesis
  proof (cases "strip s")
    case (Cons c cs)
    then have "dropWhile is_py_space s = c # cs @ b" using b by simp
    then have "\<not> is_py_space c" by (metis dropWhile_eq_Cons_conv)
    with Cons show ?thesis by simp
  qed simp
qed

lemma strip_idem [simp]: "strip (strip s) = strip s"
proof -
  have "dropWhile is_py_space (rev (strip s)) = rev (strip s)"
    by (simp add: strip_def dropWhile_idem)
  then show ?thesis
    by (subst strip_def) (simp add: dropWhile_space_strip)
qed

lemma is_py_space_lower_char [simp]: "is_py_space (lower_char c) = is_py_space c"
proof (cases "(65 \<le> (of_char c :: nat) \<and> (of_char c :: nat) \<le> 90) \<or>
      (192 \<le> (of_char c :: nat) \<and> (of_char c :: nat) \<le> 222 \<and> (of_char c :: nat) \<noteq> 215)")
  case True
  then have "of_char (lower_char c) = (of_char c + 32 :: nat)" by (auto simp: lower_char_def Let_def)
  with True show ?thesis by (auto simp: is_py_space_def Let_def)
next
  case False
  then show ?thesis by (auto simp: lower_char_def Let_def)
qed

lemma lower_strip: "lower (strip s) = strip (lower s)"
proof -
  have *: "dropWhile is_py_space (map lower_char xs) = map lower_char (dropWhile is_py_space xs)" for xs
    by (induction xs) auto
  show ?thesis by (simp only: lower_def strip_def * rev_map)
qed

section \<open>Properties\<close>


definition hex_encrypt :: "string \<Rightarrow> string" where
  "hex_encrypt p = concat (map (\<lambda>c. [char_of (48 + (of_char c :: nat) div 16), char_of (48 + (of_char c :: nat) mod 16)]) p)"

fun hex_decrypt :: "string \<Rightarrow> string option" where
  "hex_decrypt [] = Some []"
| "hex_decrypt [c] = None"
| "hex_decrypt (a # b # s) =
     map_option ((#) (char_of (16 * ((of_char a :: nat) - 48) + ((of_char b :: nat) - 48)))) (hex_decrypt s)"

lemma hex_digit: "k < 16 \<Longrightarrow> of_char (char_of (48 + k)) = (48 + k :: nat)"
  by simp

lemma hex_roundtrip: "hex_decrypt (hex_encrypt p) = Some p"
proof (induction p)
  case (Cons c p)
  have "(of_char c :: nat) < 256" by (cases c) (simp add: of_char_def)
  then have "(of_char c :: nat) div 16 < 16" "(of_char c :: nat) mod 16 < 16" by linarith+
  then have "char_of (16 * ((of_char (char_of (48 + (of_char c :: nat) div 16)) :: nat) - 48)
       + ((of_char (char_of (48 + (of_char c :: nat) mod 16)) :: nat) - 48)) = c"
    by (simp add: hex_digit)
  with Cons show ?case by (simp add: hex_encrypt_def)
qed (simp add: hex_encrypt_def)

lemma hex_ascii: "is_ascii (hex_encrypt p)"
proof (induction p)
  case (Cons c p)
  have "(of_char c :: nat) < 256" by (cases c) (simp add: of_char_def)
  then have "(of_char c :: nat) div 16 < 16" "(of_char c :: nat) mod 16 < 16" by linarith+
  with Cons show ?case by (simp add: hex_encrypt_def is_ascii_def)
qed (simp add: hex_encrypt_def is_ascii_def)


text \<open>
  The lookup hash does not depend on how an address is typed: letter case and surrounding white
  space do not change it, so a login finds the row the sign-up wrote.
\<close>

theorem lookup_hash_canonical: "lookup_hash hmac (Some (strip (lower e))) = lookup_hash hmac (Some e)"
  by (simp add: lookup_hash_def lower_strip)

end
