(* ===== verification/Sessions.thy ===== *)
theory Sessions
  imports Plans Pii_Crypto
begin

text \<open>
  Sessions of the hosted service (\<open>burnlens_cloud/auth.py\<close>): the identity tables, the two kinds of
  signed token, the session dependency, the minting of a session and the password login.

  Third-party code is a parameter of the model, collected in the record \<open>auth_lib\<close>: PyJWT under the
  configured secret, bcrypt, Fernet, HMAC and SHA-256, pyotp's \<open>TOTP.verify\<close>, pydantic's validation
  of \<open>TokenPayload\<close>, and Python's \<open>str\<close> on a claim that is not a string.
\<close>

section \<open>Identity tables\<close>

record user_row =
  u_id :: string
  u_name :: "string option"
  u_password_hash :: "string option"
  u_created_at :: instant
  u_email_encrypted :: "string option"
  u_email_hash :: "string option"
  u_google_id_encrypted :: "string option"
  u_google_id_hash :: "string option"
  u_github_id_encrypted :: "string option"
  u_github_id_hash :: "string option"
  u_email_verified_at :: "instant option"
  u_last_login :: "instant option"
  totp_secret_encrypted :: "string option"
  totp_confirmed_at :: "instant option"
  totp_last_step :: "int option"
  totp_failed_attempts :: int
  totp_locked_until :: "instant option"

record member_row =
  wm_id :: string
  wm_workspace_id :: string
  wm_user_id :: string
  wm_role :: string
  wm_joined_at :: instant
  wm_active :: bool

record auth_token_row =
  at_user_id :: string
  at_type :: string
  at_token_hash :: string
  at_expires_at :: instant
  at_used_at :: "instant option"

record recovery_row =
  rc_user_id :: string
  rc_code_hash :: string
  rc_used_at :: "instant option"

record invitation_row =
  inv_id :: string
  inv_workspace_id :: string
  inv_email :: string
  inv_role :: string
  inv_token_hash :: string
  inv_expires_at :: instant
  inv_accepted_at :: "instant option"

record identity_db =
  id_users :: "user_row table"
  id_members :: "member_row table"
  id_workspaces :: "workspace_row table"
  id_auth_tokens :: "auth_token_row table"
  id_recovery :: "recovery_row table"
  id_invitations :: "invitation_row table"

type_synonym claims = "(string \<times> json) list"

record auth_lib =
  jwt_encode :: "claims \<Rightarrow> string"
  jwt_decode :: "int \<Rightarrow> string \<Rightarrow> claims option" \<comment> \<open>\<open>None\<close>: \<open>InvalidTokenError\<close>\<close>
  validate_payload :: "claims \<Rightarrow> token_payload option"
  str_of_claim :: "json \<Rightarrow> string"
  checkpw :: "string \<Rightarrow> string \<Rightarrow> bool"
  hashpw :: "string \<Rightarrow> string"
  fernet_encrypt :: "string \<Rightarrow> string"
  fernet_decrypt :: "string \<Rightarrow> string option"
  hmac_hex :: "string \<Rightarrow> string"
  sha256_hex :: "string \<Rightarrow> string"
  totp_verify :: "string \<Rightarrow> string \<Rightarrow> real \<Rightarrow> bool"

definition unix_seconds :: "instant \<Rightarrow> int" where
  "unix_seconds now = now div 1000000"

section \<open>Tokens\<close>

definition jwt_expiration_seconds :: int where
  "jwt_expiration_seconds = 86400"

definition session_payload ::
    "instant \<Rightarrow> string \<Rightarrow> string \<Rightarrow> string \<Rightarrow> string \<Rightarrow> bool \<Rightarrow> token_payload" where
  "session_payload now workspace_id user_id role plan email_verified =
     \<lparr>tp_workspace_id = workspace_id, tp_user_id = user_id, tp_role = role, tp_plan = plan,
      tp_iat = unix_seconds now, tp_exp = unix_seconds now + jwt_expiration_seconds,
      tp_email_verified = email_verified, tp_typ = ''session''\<rparr>"

definition dump_payload :: "token_payload \<Rightarrow> claims" where
  "dump_payload p =
     [(''workspace_id'', JStr (tp_workspace_id p)), (''user_id'', JStr (tp_user_id p)),
      (''role'', JStr (tp_role p)), (''plan'', JStr (tp_plan p)), (''iat'', JInt (tp_iat p)),
      (''exp'', JInt (tp_exp p)), (''email_verified'', JBool (tp_email_verified p)), (''typ'', JStr (tp_typ p))]"

definition encode_jwt ::
    "auth_lib \<Rightarrow> instant \<Rightarrow> string \<Rightarrow> string \<Rightarrow> string \<Rightarrow> string \<Rightarrow> bool \<Rightarrow> string" where
  "encode_jwt lib now workspace_id user_id role plan email_verified =
     jwt_encode lib (dump_payload (session_payload now workspace_id user_id role plan email_verified))"

definition MFA_CHALLENGE_TYP :: string where
  "MFA_CHALLENGE_TYP = ''mfa_challenge''"

definition MFA_CHALLENGE_TTL_SECONDS :: int where
  "MFA_CHALLENGE_TTL_SECONDS = 300"

definition challenge_claims :: "instant \<Rightarrow> string \<Rightarrow> claims" where
  "challenge_claims now user_id =
     [(''typ'', JStr MFA_CHALLENGE_TYP), (''user_id'', JStr user_id), (''iat'', JInt (unix_seconds now)),
      (''exp'', JInt (unix_seconds now + MFA_CHALLENGE_TTL_SECONDS))]"

definition encode_mfa_challenge :: "auth_lib \<Rightarrow> instant \<Rightarrow> string \<Rightarrow> string" where
  "encode_mfa_challenge lib now user_id = jwt_encode lib (challenge_claims now user_id)"

definition decode_mfa_challenge :: "auth_lib \<Rightarrow> instant \<Rightarrow> string \<Rightarrow> string option" where
  "decode_mfa_challenge lib now token =
     (case jwt_decode lib (unix_seconds now) token of
        None \<Rightarrow> None
      | Some payload \<Rightarrow>
          if map_of payload ''typ'' \<noteq> Some (JStr MFA_CHALLENGE_TYP) then None
          else (case map_of payload ''user_id'' of
                  None \<Rightarrow> None
                | Some (JStr s) \<Rightarrow> if s \<noteq> [] then Some s else None
                | Some j \<Rightarrow> if json_truthy j then Some (str_of_claim lib j) else None))"

definition decode_jwt :: "auth_lib \<Rightarrow> instant \<Rightarrow> string \<Rightarrow> token_payload option" where
  "decode_jwt lib now token =
     (case jwt_decode lib (unix_seconds now) token of
        None \<Rightarrow> None
      | Some payload \<Rightarrow>
          if dict_get (map_of payload) ''typ'' (JStr ''session'') \<noteq> JStr ''session'' then None
          else validate_payload lib payload)"

definition SESSION_COOKIE_NAME :: string where
  "SESSION_COOKIE_NAME = ''burnlens_session''"

definition verify_token ::
    "auth_lib \<Rightarrow> instant \<Rightarrow> (string \<rightharpoonup> string) \<Rightarrow> string option \<Rightarrow> http_error + token_payload" where
  "verify_token lib now cookies authorization =
     (let cookie = cookies SESSION_COOKIE_NAME;
          token = (if truthy cookie then cookie
                   else case authorization of
                          None \<Rightarrow> cookie
                        | Some h \<Rightarrow> if h \<noteq> [] \<and> startswith h ''Bearer '' then Some (drop 7 h) else cookie)
      in if \<not> truthy token then Inl (HTTP 401 ''Missing or invalid authorization header'')
         else case decode_jwt lib now (the token) of
                None \<Rightarrow> Inl (HTTP 401 ''Invalid or expired token'')
              | Some p \<Rightarrow> Inr p)"

section \<open>Minting a session\<close>

record session =
  s_token :: string
  s_workspace_id :: string
  s_role :: string
  s_email_verified :: bool
  s_owner_email :: "string option"
  s_masked_key :: string

definition ws_pii_value :: "auth_lib \<Rightarrow> string option \<Rightarrow> pii_error + string option" where
  "ws_pii_value lib val = (if truthy val then decrypt_pii (fernet_decrypt lib) val else Inr None)"

definition first_membership :: "string \<Rightarrow> identity_db \<Rightarrow> (member_row \<times> workspace_row) option" where
  "first_membership uid db =
     (case sort_key (wm_joined_at \<circ> fst)
        (List.map_filter (\<lambda>m. case lookup_key ws_id (wm_workspace_id m) (id_workspaces db) of
              None \<Rightarrow> None
            | Some w \<Rightarrow> if wm_user_id m = uid \<and> wm_active m \<and> ws_active w then Some (m, w) else None)
          (id_members db)) of
        [] \<Rightarrow> None
      | mw # _ \<Rightarrow> Some mw)"

definition issue_session_for_user :: "auth_lib \<Rightarrow> instant \<Rightarrow> string \<Rightarrow> identity_db \<Rightarrow> http_error + session" where
  "issue_session_for_user lib now uid db =
     (case first_membership uid db of
        None \<Rightarrow> Inl (HTTP 401 ''No workspace found for this account'')
      | Some (m, w) \<Rightarrow>
          let verified = (case lookup_key u_id uid (id_users db) of
                            None \<Rightarrow> False | Some u \<Rightarrow> u_email_verified_at u \<noteq> None);
              pending = (\<exists>t \<in> set (id_auth_tokens db). at_user_id t = uid \<and> at_type t = ''email_verification'' \<and>
                           at_used_at t = None \<and> at_expires_at t > now);
              email_verified = (verified \<or> \<not> pending);
              token = encode_jwt lib now (wm_workspace_id m) uid (wm_role m) (ws_plan w) email_verified;
              last4 = (case ws_api_key_last4 w of None \<Rightarrow> [] | Some l \<Rightarrow> l)
          in case ws_pii_value lib (ws_owner_email_encrypted w) of
               Inl e \<Rightarrow> Inl (HTTP 500 ''Internal Server Error'')
             | Inr email \<Rightarrow> Inr \<lparr>s_token = token, s_workspace_id = wm_workspace_id m, s_role = wm_role m,
                 s_email_verified = email_verified, s_owner_email = email,
                 s_masked_key = (if last4 \<noteq> [] then ''bl_live_****'' @ last4 else ''****'')\<rparr>)"

section \<open>Login\<close>

datatype login_result = Session session | Mfa_required string

definition stamp_login :: "instant \<Rightarrow> string \<Rightarrow> identity_db \<Rightarrow> identity_db" where
  "stamp_login now uid db = db\<lparr>id_users := update_where (\<lambda>u. u_id u = uid)
     (\<lambda>u. u\<lparr>u_last_login := Some now\<rparr>) (id_users db)\<rparr>"

definition login ::
    "auth_lib \<Rightarrow> instant \<Rightarrow> string \<Rightarrow> string \<Rightarrow> identity_db \<Rightarrow> (http_error + login_result) \<times> identity_db" where
  "login lib now email password db =
     (if length password > 128 then (Inl (HTTP 400 ''Password too long''), db)
      else case find (\<lambda>u. u_email_hash u = lookup_hash (hmac_hex lib) (Some (lower (strip email)))) (id_users db) of
             None \<Rightarrow> (Inl (HTTP 401 ''Invalid email or password''), db)
           | Some u \<Rightarrow>
               (case u_password_hash u of
                  None \<Rightarrow> (Inl (HTTP 401 ''Invalid email or password''), db)
                | Some ph \<Rightarrow>
                    if ph = [] \<or> \<not> checkpw lib password ph
                    then (Inl (HTTP 401 ''Invalid email or password''), db)
                    else if (case lookup_key u_id (u_id u) (id_users db) of
                               None \<Rightarrow> False | Some v \<Rightarrow> totp_confirmed_at v \<noteq> None)
                    then (Inr (Mfa_required (encode_mfa_challenge lib now (u_id u))), db)
                    else let db' = stamp_login now (u_id u) db
                         in (map_sum id Session (issue_session_for_user lib now (u_id u) db'), db')))"

section \<open>Properties\<close>

text \<open>
  What PyJWT documents of a token signed with the configured secret: it decodes to the claims it was
  made of or not at all, and it does decode from its issue until it expires.
\<close>

definition signs :: "auth_lib \<Rightarrow> claims \<Rightarrow> bool" where
  "signs lib c \<longleftrightarrow>
     (\<forall>t. jwt_decode lib t (jwt_encode lib c) = None \<or> jwt_decode lib t (jwt_encode lib c) = Some c) \<and>
     (\<forall>t i e. map_of c ''iat'' = Some (JInt i) \<and> map_of c ''exp'' = Some (JInt e) \<and> i \<le> t \<and> t < e \<longrightarrow>
        jwt_decode lib t (jwt_encode lib c) = Some c)"

lemma signs_cases: "signs lib c \<Longrightarrow> jwt_decode lib t (jwt_encode lib c) = None \<or> jwt_decode lib t (jwt_encode lib c) = Some c"
  by (simp add: signs_def)

lemma signs_fresh:
  "signs lib c \<Longrightarrow> map_of c ''iat'' = Some (JInt i) \<Longrightarrow> map_of c ''exp'' = Some (JInt e) \<Longrightarrow> i \<le> t \<Longrightarrow> t < e \<Longrightarrow>
   jwt_decode lib t (jwt_encode lib c) = Some c"
  by (auto simp: signs_def)

text \<open>
  The challenge token that stands between password and second factor is never a session, at any
  time and through either transport, although it is signed with the same secret; within its five
  minutes it names its user to the second-factor endpoint. A session token is never a challenge.
\<close>

theorem challenge_is_not_session:
  assumes "signs lib (challenge_claims t0 uid)" "uid \<noteq> []"
    and "signs lib (dump_payload (session_payload t0 wid uid role plan ev))"
  shows "decode_jwt lib now (encode_mfa_challenge lib t0 uid) = None \<and>
    decode_mfa_challenge lib now (encode_jwt lib t0 wid uid role plan ev) = None \<and>
    (unix_seconds t0 \<le> unix_seconds now \<and> unix_seconds now < unix_seconds t0 + 300 \<longrightarrow>
      decode_mfa_challenge lib now (encode_mfa_challenge lib t0 uid) = Some uid)"
proof -
  have "decode_jwt lib now (encode_mfa_challenge lib t0 uid) = None"
    using signs_cases[OF assms(1), of "unix_seconds now"]
    by (auto simp: decode_jwt_def encode_mfa_challenge_def challenge_claims_def MFA_CHALLENGE_TYP_def dict_get_def)
  moreover have "decode_mfa_challenge lib now (encode_jwt lib t0 wid uid role plan ev) = None"
    using signs_cases[OF assms(3), of "unix_seconds now"]
    by (auto simp: decode_mfa_challenge_def encode_jwt_def dump_payload_def session_payload_def MFA_CHALLENGE_TYP_def)
  moreover have "decode_mfa_challenge lib now (encode_mfa_challenge lib t0 uid) = Some uid"
    if "unix_seconds t0 \<le> unix_seconds now" "unix_seconds now < unix_seconds t0 + 300"
  proof -
    have "jwt_decode lib (unix_seconds now) (jwt_encode lib (challenge_claims t0 uid)) = Some (challenge_claims t0 uid)"
      using that by (intro signs_fresh[OF assms(1)]) (auto simp: challenge_claims_def MFA_CHALLENGE_TTL_SECONDS_def)
    then show ?thesis
      using assms(2) by (simp add: decode_mfa_challenge_def encode_mfa_challenge_def) (simp add: challenge_claims_def)
  qed
  ultimately show ?thesis by blast
qed

text \<open>
  A small concrete library for the witnesses: a token is a letter for its kind, signatures are
  checked against the two claim sets issued at time 0, and the one-time code of a step is the step's
  parity as six digits.
\<close>

definition demo_lib :: auth_lib where
  "demo_lib = \<lparr>
     jwt_encode = (\<lambda>c. if map_of c ''typ'' = Some (JStr MFA_CHALLENGE_TYP) then ''c'' else ''s''),
     jwt_decode = (\<lambda>t tok. if tok = ''c'' then (if t < 300 then Some (challenge_claims 0 ''u1'') else None)
                   else if tok = ''s'' then (if t < 86400 then Some (dump_payload (session_payload 0 ''w1'' ''u1'' ''admin'' ''free'' True)) else None)
                   else None),
     validate_payload = (\<lambda>c. Some (session_payload 0 ''w1'' ''u1'' ''admin'' ''free'' True)),
     str_of_claim = (\<lambda>j. ''?''),
     checkpw = (\<lambda>pw h. pw = h),
     hashpw = (\<lambda>pw. pw),
     fernet_encrypt = hex_encrypt,
     fernet_decrypt = hex_decrypt,
     hmac_hex = (\<lambda>s. s),
     sha256_hex = (\<lambda>s. s),
     totp_verify = (\<lambda>secret code t. code = (if even \<lfloor>t / 30\<rfloor> then ''222222'' else ''111111''))\<rparr>"

lemma demo_lib_signs:
  "signs demo_lib (challenge_claims 0 ''u1'')"
  "signs demo_lib (dump_payload (session_payload 0 ''w1'' ''u1'' ''admin'' ''free'' True))"
  by (auto simp: signs_def demo_lib_def challenge_claims_def dump_payload_def session_payload_def
      MFA_CHALLENGE_TYP_def MFA_CHALLENGE_TTL_SECONDS_def jwt_expiration_seconds_def unix_seconds_def)

theorem challenge_is_not_session_witness:
  "decode_jwt demo_lib 5 (encode_mfa_challenge demo_lib 0 ''u1'') = None \<and>
   decode_mfa_challenge demo_lib 5 (encode_mfa_challenge demo_lib 0 ''u1'') = Some ''u1''"
  using challenge_is_not_session[OF demo_lib_signs(1) _ demo_lib_signs(2), of 5]
  by (simp add: unix_seconds_def)

text \<open>
  A password alone never opens an account with a confirmed second factor: the login of such a user
  ends in an error or a challenge, and it leaves the tables, the last-login stamp included, as they
  were.
\<close>

theorem password_not_enough:
  assumes "pk u_id (id_users db)" "u \<in> set (id_users db)" "totp_confirmed_at u \<noteq> None"
    and "find (\<lambda>u. u_email_hash u = lookup_hash (hmac_hex lib) (Some (lower (strip email)))) (id_users db) = Some u"
  shows "snd (login lib now email password db) = db \<and>
    (\<forall>s. fst (login lib now email password db) \<noteq> Inr (Session s))"
proof -
  have "lookup_key u_id (u_id u) (id_users db) = Some u" using assms(1,2) by (rule pk_lookup)
  then show ?thesis using assms(3,4) by (auto simp: login_def split: option.split)
qed

definition demo_user :: user_row where
  "demo_user = \<lparr>u_id = ''u1'', u_name = None, u_password_hash = Some ''hunter22'', u_created_at = 0,
     u_email_encrypted = None, u_email_hash = Some ''a@b.c'', u_google_id_encrypted = None,
     u_google_id_hash = None, u_github_id_encrypted = None, u_github_id_hash = None,
     u_email_verified_at = Some 0, u_last_login = None, totp_secret_encrypted = Some (''v1:'' @ hex_encrypt ''K''),
     totp_confirmed_at = Some 0, totp_last_step = Some 0, totp_failed_attempts = 0, totp_locked_until = None\<rparr>"

definition demo_identity :: identity_db where
  "demo_identity = \<lparr>id_users = [demo_user],
     id_members = [\<lparr>wm_id = ''m1'', wm_workspace_id = ''w1'', wm_user_id = ''u1'', wm_role = ''admin'',
        wm_joined_at = 0, wm_active = True\<rparr>],
     id_workspaces = [demo_ws], id_auth_tokens = [],
     id_recovery = [\<lparr>rc_user_id = ''u1'', rc_code_hash = ''ABCDEFGHJK'', rc_used_at = None\<rparr>],
     id_invitations = []\<rparr>"

lemma demo_find:
  "find (\<lambda>u. u_email_hash u = lookup_hash (hmac_hex demo_lib) (Some (lower (strip '' A@b.c'')))) (id_users demo_identity) =
     Some demo_user"
  by code_simp

theorem password_not_enough_witness:
  "fst (login demo_lib 5 '' A@b.c'' ''hunter22'' demo_identity) = Inr (Mfa_required ''c'') \<and>
   (\<forall>s. fst (login demo_lib 5 '' A@b.c'' ''hunter22'' demo_identity) \<noteq> Inr (Session s))"
proof -
  have "lookup_key u_id (u_id demo_user) (id_users demo_identity) = Some demo_user"
    by (simp add: demo_identity_def lookup_key_def)
  then have "fst (login demo_lib 5 '' A@b.c'' ''hunter22'' demo_identity) = Inr (Mfa_required ''c'')"
    using demo_find by (simp add: login_def)
      (simp add: demo_user_def demo_lib_def encode_mfa_challenge_def challenge_claims_def)
  moreover have "\<forall>s. fst (login demo_lib 5 '' A@b.c'' ''hunter22'' demo_identity) \<noteq> Inr (Session s)"
    using password_not_enough[OF _ _ _ demo_find, of 5 "''hunter22''"]
    by (simp add: demo_identity_def pk_def) (simp add: demo_user_def)
  ultimately show ?thesis by blast
qed

end
