(* ===== verification/Second_Factor.thy ===== *)
theory Second_Factor
  imports Sessions
begin

text \<open>
  The time-based second factor: \<open>burnlens_cloud/totp.py\<close> (code verification with drift and replay
  defence, recovery codes) and \<open>totp_api.py\<close> (enrolment, confirmation, disabling, the login's second
  step with its lockout). The random draws of secrets and recovery codes are arguments; the
  provisioning URI and its QR image are presentation and left out. Handlers run one after another.
\<close>

section \<open>totp.py\<close>

definition STEP_SECONDS :: int where "STEP_SECONDS = 30"
definition DIGITS :: nat where "DIGITS = 6"
definition DRIFT_STEPS :: int where "DRIFT_STEPS = 1"
definition LOCKOUT_THRESHOLD :: int where "LOCKOUT_THRESHOLD = 5"
definition LOCKOUT_SECONDS :: int where "LOCKOUT_SECONDS = 15 * 60"

definition RECOVERY_ALPHABET :: string where
  "RECOVERY_ALPHABET = ''ABCDEFGHJKMNPQRSTVWXYZ23456789''"

definition current_step :: "real \<Rightarrow> int" where
  "current_step t = \<lfloor>t / of_int STEP_SECONDS\<rfloor>"

text \<open>\<open>str.isdigit\<close> below U+0100 holds of the ASCII digits and the superscripts one, two and three.\<close>

definition is_py_digit :: "char \<Rightarrow> bool" where
  "is_py_digit c = (let k = of_char c :: nat in (48 \<le> k \<and> k \<le> 57) \<or> k = 178 \<or> k = 179 \<or> k = 185)"

definition isdigit :: "string \<Rightarrow> bool" where
  "isdigit s \<longleftrightarrow> s \<noteq> [] \<and> list_all is_py_digit s"

definition remove_char :: "char \<Rightarrow> string \<Rightarrow> string" where
  "remove_char c s = filter (\<lambda>x. x \<noteq> c) s"

fun verify_drift :: "auth_lib \<Rightarrow> string \<Rightarrow> string \<Rightarrow> int option \<Rightarrow> real \<Rightarrow> int list \<Rightarrow> int option" where
  "verify_drift lib secret code min_step now [] = None"
| "verify_drift lib secret code min_step now (offset # rest) =
     (let candidate_time = now + of_int (offset * STEP_SECONDS)
      in if totp_verify lib secret code candidate_time
         then let step = current_step candidate_time
              in if (case min_step of None \<Rightarrow> False | Some m \<Rightarrow> step \<le> m) then None else Some step
         else verify_drift lib secret code min_step now rest)"

text \<open>
  A missing secret makes pyotp raise once a well-formed code is checked against it; the handlers let
  that surface as a server error.
\<close>

definition verify_code ::
    "auth_lib \<Rightarrow> string option \<Rightarrow> string \<Rightarrow> int option \<Rightarrow> instant \<Rightarrow> http_error + int option" where
  "verify_code lib secret code min_step now =
     (let code = remove_char CHR '' '' (strip code)
      in if \<not> isdigit code \<or> length code \<noteq> DIGITS then Inr None
         else case secret of
                None \<Rightarrow> Inl (HTTP 500 ''Internal Server Error'')
              | Some k \<Rightarrow> Inr (verify_drift lib k code min_step (of_int now / 1000000)
                                 [- DRIFT_STEPS .. DRIFT_STEPS]))"

definition format_recovery_code :: "string \<Rightarrow> string" where
  "format_recovery_code raw = take 5 raw @ ''-'' @ drop 5 raw"

definition generate_recovery_codes :: "string list \<Rightarrow> string list" where
  "generate_recovery_codes raws = map format_recovery_code raws"

text \<open>Upper-casing is written out for ASCII letters; other letters are left as they are.\<close>

definition normalise_recovery_code :: "string \<Rightarrow> string" where
  "normalise_recovery_code code = remove_char CHR '' '' (remove_char CHR ''-'' (upper_ascii (strip code)))"

definition hash_recovery_code :: "auth_lib \<Rightarrow> string \<Rightarrow> string" where
  "hash_recovery_code lib code = sha256_hex lib (normalise_recovery_code code)"

definition is_locked_out :: "int \<Rightarrow> bool" where
  "is_locked_out failed_attempts \<longleftrightarrow> failed_attempts \<ge> LOCKOUT_THRESHOLD"

section \<open>totp_api.py\<close>

definition load_user_totp :: "string \<Rightarrow> identity_db \<Rightarrow> user_row option" where
  "load_user_totp uid db = lookup_key u_id uid (id_users db)"

definition upd_user :: "string \<Rightarrow> (user_row \<Rightarrow> user_row) \<Rightarrow> identity_db \<Rightarrow> identity_db" where
  "upd_user uid f db = db\<lparr>id_users := update_where (\<lambda>u. u_id u = uid) f (id_users db)\<rparr>"

definition is_locked :: "instant \<Rightarrow> user_row \<Rightarrow> bool" where
  "is_locked now u = (case totp_locked_until u of None \<Rightarrow> False | Some t \<Rightarrow> t > now)"

definition register_failure :: "instant \<Rightarrow> string \<Rightarrow> int \<Rightarrow> identity_db \<Rightarrow> identity_db" where
  "register_failure now uid attempts db =
     (let attempts' = attempts + 1;
          locked_until = (if is_locked_out attempts' then Some (now + LOCKOUT_SECONDS * 1000000) else None)
      in upd_user uid (\<lambda>u. u\<lparr>totp_failed_attempts := attempts', totp_locked_until := locked_until\<rparr>) db)"

definition clear_failures :: "string \<Rightarrow> int \<Rightarrow> identity_db \<Rightarrow> identity_db" where
  "clear_failures uid step db =
     upd_user uid (\<lambda>u. u\<lparr>totp_failed_attempts := 0, totp_locked_until := None, totp_last_step := Some step\<rparr>) db"

definition live_code :: "string \<Rightarrow> string \<Rightarrow> recovery_row \<Rightarrow> bool" where
  "live_code uid h r \<longleftrightarrow> rc_user_id r = uid \<and> rc_code_hash r = h \<and> rc_used_at r = None"

definition consume_recovery_code ::
    "auth_lib \<Rightarrow> instant \<Rightarrow> string \<Rightarrow> string \<Rightarrow> identity_db \<Rightarrow> bool \<times> identity_db" where
  "consume_recovery_code lib now uid code db =
     (let p = live_code uid (hash_recovery_code lib code)
      in (\<exists>r \<in> set (id_recovery db). p r,
          db\<lparr>id_recovery := update_where p (\<lambda>r. r\<lparr>rc_used_at := Some now\<rparr>) (id_recovery db)\<rparr>))"

definition setup_totp :: "auth_lib \<Rightarrow> string \<Rightarrow> string \<Rightarrow> identity_db \<Rightarrow> (http_error + string) \<times> identity_db" where
  "setup_totp lib secret uid db =
     (case load_user_totp uid db of
        None \<Rightarrow> (Inl (HTTP 404 ''User not found''), db)
      | Some row \<Rightarrow>
          if totp_confirmed_at row \<noteq> None then (Inl (HTTP 409 ''totp_already_enabled''), db)
          else (Inr secret, upd_user uid
                  (\<lambda>u. u\<lparr>totp_secret_encrypted := encrypt_pii (fernet_encrypt lib) (Some secret)\<rparr>) db))"

fun insert_codes :: "string \<Rightarrow> string list \<Rightarrow> recovery_row table \<Rightarrow> bool \<times> recovery_row table" where
  "insert_codes uid [] t = (True, t)"
| "insert_codes uid (h # hs) t =
     (if \<exists>r \<in> set t. rc_user_id r = uid \<and> rc_code_hash r = h then (False, t)
      else insert_codes uid hs (t @ [\<lparr>rc_user_id = uid, rc_code_hash = h, rc_used_at = None\<rparr>]))"

definition confirm_totp ::
    "auth_lib \<Rightarrow> string list \<Rightarrow> instant \<Rightarrow> string \<Rightarrow> string \<Rightarrow> identity_db \<Rightarrow> (http_error + string list) \<times> identity_db" where
  "confirm_totp lib raws now uid code db =
     (case load_user_totp uid db of
        None \<Rightarrow> (Inl (HTTP 400 ''totp_setup_not_started''), db)
      | Some row \<Rightarrow>
          if \<not> truthy (totp_secret_encrypted row) then (Inl (HTTP 400 ''totp_setup_not_started''), db)
          else if totp_confirmed_at row \<noteq> None then (Inl (HTTP 409 ''totp_already_enabled''), db)
          else if is_locked now row then (Inl (HTTP 429 ''totp_locked''), db)
          else case decrypt_pii (fernet_decrypt lib) (totp_secret_encrypted row) of
            Inl e \<Rightarrow> (Inl (HTTP 500 ''Internal Server Error''), db)
          | Inr secret \<Rightarrow>
              (case verify_code lib secret code (totp_last_step row) now of
                 Inl e \<Rightarrow> (Inl e, db)
               | Inr None \<Rightarrow> (Inl (HTTP 400 ''Invalid or expired verification code''),
                               register_failure now uid (totp_failed_attempts row) db)
               | Inr (Some step) \<Rightarrow>
                   let codes = generate_recovery_codes raws;
                       db1 = upd_user uid (\<lambda>u. u\<lparr>totp_confirmed_at := Some now, totp_failed_attempts := 0,
                               totp_locked_until := None, totp_last_step := Some step\<rparr>) db;
                       kept = filter (\<lambda>r. rc_user_id r \<noteq> uid) (id_recovery db1);
                       ins = insert_codes uid (map (hash_recovery_code lib) codes) kept
                   in (if fst ins then Inr codes else Inl (HTTP 500 ''Internal Server Error''),
                       db1\<lparr>id_recovery := snd ins\<rparr>)))"

definition totp_status :: "string \<Rightarrow> identity_db \<Rightarrow> http_error + (bool \<times> bool \<times> nat)" where
  "totp_status uid db =
     (case load_user_totp uid db of
        None \<Rightarrow> Inl (HTTP 404 ''User not found'')
      | Some row \<Rightarrow> Inr (totp_confirmed_at row \<noteq> None,
          truthy (totp_secret_encrypted row) \<and> totp_confirmed_at row = None,
          length (filter (\<lambda>r. rc_user_id r = uid \<and> rc_used_at r = None) (id_recovery db))))"

definition disable_totp ::
    "auth_lib \<Rightarrow> instant \<Rightarrow> string \<Rightarrow> string \<Rightarrow> string \<Rightarrow> identity_db \<Rightarrow> (http_error + unit) \<times> identity_db" where
  "disable_totp lib now uid password code db =
     (case load_user_totp uid db of
        None \<Rightarrow> (Inl (HTTP 400 ''totp_not_enabled''), db)
      | Some row \<Rightarrow>
          if totp_confirmed_at row = None then (Inl (HTTP 400 ''totp_not_enabled''), db)
          else if is_locked now row then (Inl (HTTP 429 ''totp_locked''), db)
          else if \<not> truthy (u_password_hash row) \<or> \<not> checkpw lib password (the (u_password_hash row))
          then (Inl (HTTP 400 ''Invalid or expired verification code''),
                register_failure now uid (totp_failed_attempts row) db)
          else case decrypt_pii (fernet_decrypt lib) (totp_secret_encrypted row) of
            Inl e \<Rightarrow> (Inl (HTTP 500 ''Internal Server Error''), db)
          | Inr secret \<Rightarrow>
              (case verify_code lib secret code (totp_last_step row) now of
                 Inl e \<Rightarrow> (Inl e, db)
               | Inr None \<Rightarrow> (Inl (HTTP 400 ''Invalid or expired verification code''),
                               register_failure now uid (totp_failed_attempts row) db)
               | Inr (Some step) \<Rightarrow>
                   (Inr (), (upd_user uid (\<lambda>u. u\<lparr>totp_secret_encrypted := None, totp_confirmed_at := None,
                        totp_last_step := None, totp_failed_attempts := 0, totp_locked_until := None\<rparr>) db)
                      \<lparr>id_recovery := filter (\<lambda>r. rc_user_id r \<noteq> uid) (id_recovery db)\<rparr>)))"

definition verify_totp ::
    "auth_lib \<Rightarrow> instant \<Rightarrow> string \<Rightarrow> string \<Rightarrow> identity_db \<Rightarrow> (http_error + session) \<times> identity_db" where
  "verify_totp lib now challenge_token code db =
     (case decode_mfa_challenge lib now challenge_token of
        None \<Rightarrow> (Inl (HTTP 401 ''Invalid or expired verification code''), db)
      | Some uid \<Rightarrow>
          (case load_user_totp uid db of
             None \<Rightarrow> (Inl (HTTP 401 ''Invalid or expired verification code''), db)
           | Some row \<Rightarrow>
               if totp_confirmed_at row = None then (Inl (HTTP 401 ''Invalid or expired verification code''), db)
               else if is_locked now row then (Inl (HTTP 429 ''totp_locked''), db)
               else case decrypt_pii (fernet_decrypt lib) (totp_secret_encrypted row) of
                 Inl e \<Rightarrow> (Inl (HTTP 500 ''Internal Server Error''), db)
               | Inr secret \<Rightarrow>
                   let finish = (\<lambda>db'. let db'' = stamp_login now uid db'
                                       in (issue_session_for_user lib now uid db'', db''))
                   in case verify_code lib secret code (totp_last_step row) now of
                        Inl e \<Rightarrow> (Inl e, db)
                      | Inr (Some step) \<Rightarrow> finish (clear_failures uid step db)
                      | Inr None \<Rightarrow>
                          (case consume_recovery_code lib now uid code db of
                             (True, db1) \<Rightarrow>
                               finish (upd_user uid (\<lambda>u. u\<lparr>totp_failed_attempts := 0, totp_locked_until := None\<rparr>) db1)
                           | (False, db1) \<Rightarrow>
                               (Inl (HTTP 401 ''Invalid or expired verification code''),
                                register_failure now uid (totp_failed_attempts row) db1))))"

section \<open>Runs\<close>

datatype totp_event =
    Setup string string
  | Confirm "string list" instant string string
  | Disable instant string string string
  | Verify instant string string
  | Login instant string string

fun totp_step :: "auth_lib \<Rightarrow> totp_event \<Rightarrow> identity_db \<Rightarrow> identity_db" where
  "totp_step lib (Setup secret uid) db = snd (setup_totp lib secret uid db)"
| "totp_step lib (Confirm raws now uid code) db = snd (confirm_totp lib raws now uid code db)"
| "totp_step lib (Disable now uid pw code) db = snd (disable_totp lib now uid pw code db)"
| "totp_step lib (Verify now ch code) db = snd (verify_totp lib now ch code db)"
| "totp_step lib (Login now email pw) db = snd (login lib now email pw db)"

fun disables :: "string \<Rightarrow> totp_event \<Rightarrow> bool" where
  "disables uid (Disable now u pw code) = (u = uid)"
| "disables uid _ = False"

section \<open>Lemmas\<close>

lemma load_upd_user [simp]:
  "(\<And>u. u_id (f u) = u_id u) \<Longrightarrow>
   load_user_totp v (upd_user uid f db) = map_option (\<lambda>u. if u_id u = uid then f u else u) (load_user_totp v db)"
  unfolding load_user_totp_def upd_user_def by (simp add: lookup_update_where)

lemma load_id: "load_user_totp v db = Some u \<Longrightarrow> u_id u = v"
  by (auto simp: load_user_totp_def dest: lookup_key_SomeD)

lemma load_upd_other:
  assumes "v \<noteq> w" "\<And>u. u_id (f u) = u_id u"
  shows "load_user_totp v (upd_user w f db) = load_user_totp v db"
  using assms load_id[of v db] by (cases "load_user_totp v db") auto

lemma load_recovery_update [simp]: "load_user_totp v (db\<lparr>id_recovery := t\<rparr>) = load_user_totp v db"
  by (simp add: load_user_totp_def)

lemma upd_user_recovery [simp]: "id_recovery (upd_user uid f db) = id_recovery db"
  by (simp add: upd_user_def)

lemma stamp_login_upd: "stamp_login now uid db = upd_user uid (\<lambda>u. u\<lparr>u_last_login := Some now\<rparr>) db"
  by (simp add: stamp_login_def upd_user_def)

lemma register_failure_recovery [simp]: "id_recovery (register_failure now uid n db) = id_recovery db"
  by (simp add: register_failure_def Let_def)

lemma load_register_failure [simp]:
  "load_user_totp v (register_failure now uid n db) =
     map_option (\<lambda>u. if u_id u = uid then u\<lparr>totp_failed_attempts := n + 1,
        totp_locked_until := if is_locked_out (n + 1) then Some (now + LOCKOUT_SECONDS * 1000000) else None\<rparr> else u)
       (load_user_totp v db)"
  by (simp add: register_failure_def Let_def)

lemma consume_load [simp]: "load_user_totp v (snd (consume_recovery_code lib now uid code db)) = load_user_totp v db"
  by (simp add: consume_recovery_code_def Let_def)

lemma verify_drift_above:
  "verify_drift lib k code m now os = Some s \<Longrightarrow> (\<forall>x. m = Some x \<longrightarrow> x < s)"
  by (induction os) (auto simp: Let_def split: if_splits option.splits)

lemma verify_code_above: "verify_code lib k code (Some x) now = Inr (Some s) \<Longrightarrow> x < s"
  by (auto simp: verify_code_def Let_def split: if_splits option.splits dest: verify_drift_above)

text \<open>The two ways the last step of a login succeeds or fails, as one case rule.\<close>

lemma verify_totp_cases:
  obtains (unchanged) e where "verify_totp lib now ch code db = (Inl e, db)"
  | (failed) uid row where "load_user_totp uid db = Some row" "totp_confirmed_at row \<noteq> None" "\<not> is_locked now row"
      "verify_totp lib now ch code db = (Inl (HTTP 401 ''Invalid or expired verification code''),
         register_failure now uid (totp_failed_attempts row) (snd (consume_recovery_code lib now uid code db)))"
      "\<not> fst (consume_recovery_code lib now uid code db)"
  | (by_code) uid row secret step db1 where "decode_mfa_challenge lib now ch = Some uid"
      "load_user_totp uid db = Some row" "totp_confirmed_at row \<noteq> None"
      "\<not> is_locked now row" "decrypt_pii (fernet_decrypt lib) (totp_secret_encrypted row) = Inr secret"
      "verify_code lib secret code (totp_last_step row) now = Inr (Some step)"
      "db1 = stamp_login now uid (clear_failures uid step db)"
      "verify_totp lib now ch code db = (issue_session_for_user lib now uid db1, db1)"
  | (by_recovery) uid row db1 where "decode_mfa_challenge lib now ch = Some uid"
      "load_user_totp uid db = Some row" "totp_confirmed_at row \<noteq> None"
      "\<not> is_locked now row" "fst (consume_recovery_code lib now uid code db)"
      "db1 = stamp_login now uid (upd_user uid (\<lambda>u. u\<lparr>totp_failed_attempts := 0, totp_locked_until := None\<rparr>)
         (snd (consume_recovery_code lib now uid code db)))"
      "verify_totp lib now ch code db = (issue_session_for_user lib now uid db1, db1)"
proof (cases "decode_mfa_challenge lib now ch")
  case None
  then show ?thesis by (intro unchanged) (simp add: verify_totp_def)
next
  case uid: (Some uid)
  show ?thesis
  proof (cases "load_user_totp uid db")
    case None
    with uid show ?thesis by (intro unchanged) (simp add: verify_totp_def)
  next
    case row: (Some row)
    show ?thesis
    proof (cases "totp_confirmed_at row = None \<or> is_locked now row \<or>
        (\<exists>e. decrypt_pii (fernet_decrypt lib) (totp_secret_encrypted row) = Inl e)")
      case True
      then have "\<exists>e. verify_totp lib now ch code db = (Inl e, db)"
        using uid row by (auto simp: verify_totp_def)
      then show ?thesis using unchanged by blast
    next
      case False
      then obtain secret y where sec: "decrypt_pii (fernet_decrypt lib) (totp_secret_encrypted row) = Inr secret"
        "totp_confirmed_at row = Some y" "\<not> is_locked now row" by (metis not_None_eq sum.exhaust)
      consider e where "verify_code lib secret code (totp_last_step row) now = Inl e"
        | step where "verify_code lib secret code (totp_last_step row) now = Inr (Some step)"
        | "verify_code lib secret code (totp_last_step row) now = Inr None"
        by (metis option.exhaust sum.exhaust)
      then show ?thesis
      proof cases
        case 1
        with uid row sec show ?thesis by (intro unchanged[of e]) (auto simp: verify_totp_def)
      next
        case 2
        with uid row sec show ?thesis by (intro by_code[of uid row]) (simp_all add: verify_totp_def Let_def)
      next
        case 3
        show ?thesis
        proof (cases "consume_recovery_code lib now uid code db")
          case (Pair b db1)
          show ?thesis
          proof (cases b)
            case True
            with 3 Pair uid row sec show ?thesis
              by (intro by_recovery[of uid row]) (simp_all add: verify_totp_def Let_def)
          next
            case False
            with 3 Pair uid row sec show ?thesis
              by (intro failed[of uid row]) (simp_all add: verify_totp_def Let_def)
          qed
        qed
      qed
    qed
  qed
qed

section \<open>Replay\<close>

text \<open>The user is enrolled and a step at or above \<open>s\<close> has been consumed.\<close>

definition consumed :: "string \<Rightarrow> int \<Rightarrow> identity_db \<Rightarrow> bool" where
  "consumed uid s db \<longleftrightarrow> (\<exists>u m. load_user_totp uid db = Some u \<and> totp_confirmed_at u \<noteq> None \<and>
     totp_last_step u = Some m \<and> s \<le> m)"

lemma consumed_upd:
  "(\<And>u. u_id (f u) = u_id u \<and> totp_confirmed_at (f u) = totp_confirmed_at u \<and> totp_last_step (f u) = totp_last_step u) \<Longrightarrow>
   consumed uid s (upd_user v f db) = consumed uid s db"
  by (cases "load_user_totp uid db") (simp_all add: consumed_def)

lemma consumed_upd_other:
  "v \<noteq> uid \<Longrightarrow> (\<And>u. u_id (f u) = u_id u) \<Longrightarrow> consumed uid s (upd_user v f db) = consumed uid s db"
  by (simp add: consumed_def load_upd_other del: load_upd_user)

lemma confirm_confirmed:
  "load_user_totp uid db = Some u \<Longrightarrow> totp_confirmed_at u \<noteq> None \<Longrightarrow> snd (confirm_totp lib raws now uid code db) = db"
  by (simp add: confirm_totp_def)

lemma consumed_recovery [simp]: "consumed uid s (db\<lparr>id_recovery := t\<rparr>) = consumed uid s db"
  by (simp add: consumed_def)

lemma consumed_consume [simp]:
  "consumed uid s (snd (consume_recovery_code lib now v code db)) = consumed uid s db"
  by (simp add: consume_recovery_code_def Let_def)

lemma consumed_register [simp]: "consumed uid s (register_failure now v n db) = consumed uid s db"
  by (simp add: register_failure_def Let_def consumed_upd)

lemma consumed_stamp [simp]: "consumed uid s (stamp_login now v db) = consumed uid s db"
  by (simp add: stamp_login_upd consumed_upd)

lemma consumed_step:
  assumes c: "consumed uid s db" and ok: "\<not> disables uid e"
  shows "consumed uid s (totp_step lib e db)"
proof (cases e)
  case (Setup secret v)
  with c show ?thesis
    by (auto simp: setup_totp_def consumed_upd split: option.split)
next
  case (Confirm raws now v code)
  show ?thesis
  proof (cases "v = uid")
    case True
    with c Confirm show ?thesis by (auto simp: consumed_def confirm_confirmed)
  next
    case False
    with c Confirm show ?thesis
      by (auto simp: confirm_totp_def Let_def consumed_upd_other split: option.split sum.split)
  qed
next
  case (Disable now v pw code)
  with ok c show ?thesis
    by (auto simp: disable_totp_def consumed_upd_other split: option.split sum.split)
next
  case (Verify now ch code)
  show ?thesis
  proof (cases rule: verify_totp_cases[of lib now ch code db])
    case (by_code v row secret step db1)
    have "consumed uid s (clear_failures v step db)"
    proof (cases "v = uid")
      case True
      with by_code c have "s < step"
        by (auto simp: consumed_def dest!: verify_code_above)
      with True by_code c show ?thesis by (auto simp: consumed_def clear_failures_def dest: load_id)
    next
      case False
      with c show ?thesis by (simp add: clear_failures_def consumed_upd_other)
    qed
    with by_code Verify show ?thesis by simp
  qed (use c Verify in \<open>auto simp: consumed_upd\<close>)
next
  case (Login now email pw)
  with c show ?thesis by (auto simp: login_def Let_def split: option.split)
qed

interpretation code_replay: absorbing_system "totp_step lib" "\<lambda>e. \<not> disables uid e" "\<lambda>_. True" "consumed uid s"
  for lib uid s
  by unfold_locales (auto intro: consumed_step)

section \<open>Recovery codes\<close>

text \<open>The user is enrolled and every stored copy of the code's hash is used.\<close>

definition code_spent :: "string \<Rightarrow> string \<Rightarrow> identity_db \<Rightarrow> bool" where
  "code_spent uid h db \<longleftrightarrow> (\<exists>u. load_user_totp uid db = Some u \<and> totp_confirmed_at u \<noteq> None) \<and>
     (\<forall>r \<in> set (id_recovery db). \<not> live_code uid h r)"

lemma code_spent_upd:
  "(\<And>u. u_id (f u) = u_id u \<and> totp_confirmed_at (f u) = totp_confirmed_at u) \<Longrightarrow>
   code_spent uid h (upd_user v f db) = code_spent uid h db"
  by (cases "load_user_totp uid db") (simp_all add: code_spent_def)

lemma code_spent_upd_other:
  "v \<noteq> uid \<Longrightarrow> (\<And>u. u_id (f u) = u_id u) \<Longrightarrow> code_spent uid h (upd_user v f db) = code_spent uid h db"
  by (simp add: code_spent_def load_upd_other del: load_upd_user)

lemma code_spent_table:
  "code_spent uid h db \<Longrightarrow> (\<And>r. r \<in> set t \<Longrightarrow> live_code uid h r \<Longrightarrow> r \<in> set (id_recovery db)) \<Longrightarrow>
   code_spent uid h (db\<lparr>id_recovery := t\<rparr>)"
  by (auto simp: code_spent_def)

lemma code_spent_consume:
  "code_spent uid h db \<Longrightarrow> code_spent uid h (snd (consume_recovery_code lib now v code db))"
  by (auto simp: code_spent_def consume_recovery_code_def Let_def update_where_def live_code_def split: if_splits)

lemma code_spent_register [simp]: "code_spent uid s (register_failure now v n db) = code_spent uid s db"
  by (simp add: register_failure_def Let_def code_spent_upd)

lemma code_spent_stamp [simp]: "code_spent uid s (stamp_login now v db) = code_spent uid s db"
  by (simp add: stamp_login_upd code_spent_upd)

lemma insert_codes_other:
  "v \<noteq> uid \<Longrightarrow> r \<in> set (snd (insert_codes v hs t)) \<Longrightarrow> live_code uid h r \<Longrightarrow> r \<in> set t"
  by (induction hs arbitrary: t) (fastforce simp: live_code_def split: if_splits)+

lemma code_spent_step:
  assumes c: "code_spent uid h db" and ok: "\<not> disables uid e"
  shows "code_spent uid h (totp_step lib e db)"
proof (cases e)
  case (Setup secret v)
  with c show ?thesis by (auto simp: setup_totp_def code_spent_upd split: option.split)
next
  case (Confirm raws now v code)
  show ?thesis
  proof (cases "v = uid")
    case True
    with c Confirm show ?thesis by (auto simp: code_spent_def confirm_confirmed)
  next
    case False
    with c Confirm show ?thesis
      by (auto simp: confirm_totp_def Let_def code_spent_upd_other split: option.split sum.split
          intro!: code_spent_table dest: insert_codes_other)
  qed
next
  case (Disable now v pw code)
  with ok have "v \<noteq> uid" by simp
  with c Disable show ?thesis
    by (auto simp: disable_totp_def code_spent_upd_other split: option.split sum.split intro!: code_spent_table)
next
  case (Verify now ch code)
  show ?thesis
    by (cases rule: verify_totp_cases[of lib now ch code db])
      (use c Verify in \<open>auto simp: code_spent_upd code_spent_consume clear_failures_def\<close>)
next
  case (Login now email pw)
  with c show ?thesis by (auto simp: login_def Let_def split: option.split)
qed

interpretation recovery_use: absorbing_system "totp_step lib" "\<lambda>e. \<not> disables uid e" "\<lambda>_. True" "code_spent uid h"
  for lib uid h
  by unfold_locales (auto intro: code_spent_step)

section \<open>Guessing\<close>

abbreviation Invalid_code :: "http_error + session" where
  "Invalid_code \<equiv> Inl (HTTP 401 ''Invalid or expired verification code'')"

abbreviation Totp_locked :: "http_error + session" where
  "Totp_locked \<equiv> Inl (HTTP 429 ''totp_locked'')"

fun verify_run :: "auth_lib \<Rightarrow> (instant \<times> string \<times> string) list \<Rightarrow> identity_db \<Rightarrow> (http_error + session) list" where
  "verify_run lib [] db = []"
| "verify_run lib ((now, ch, code) # es) db =
     (case verify_totp lib now ch code db of (r, db') \<Rightarrow> r # verify_run lib es db')"

lemma issue_session_not:
  "issue_session_for_user lib now uid db \<noteq> Invalid_code" "issue_session_for_user lib now uid db \<noteq> Totp_locked"
  by (auto simp: issue_session_for_user_def Let_def split: option.splits sum.splits)

lemma verify_code_Inl: "verify_code lib k code m now = Inl e \<Longrightarrow> e = HTTP 500 ''Internal Server Error''"
  by (auto simp: verify_code_def Let_def split: if_splits option.splits)

lemma verify_rejected_step:
  assumes "decode_mfa_challenge lib now ch = Some uid" "load_user_totp uid db = Some row"
    "totp_confirmed_at row \<noteq> None" "verify_totp lib now ch code db = (Invalid_code, db')"
  shows "\<not> is_locked now row" and
    "load_user_totp uid db' = Some (row\<lparr>totp_failed_attempts := totp_failed_attempts row + 1,
       totp_locked_until := if is_locked_out (totp_failed_attempts row + 1) then Some (now + 900000000) else None\<rparr>)"
proof -
  obtain y where y: "totp_confirmed_at row = Some y" using assms(3) by blast
  show nl: "\<not> is_locked now row" using assms y by (auto simp: verify_totp_def)
  have "u_id row = uid" using assms(2) by (rule load_id)
  with assms y nl show "load_user_totp uid db' = Some (row\<lparr>totp_failed_attempts := totp_failed_attempts row + 1,
       totp_locked_until := if is_locked_out (totp_failed_attempts row + 1) then Some (now + 900000000) else None\<rparr>)"
    by (auto simp: verify_totp_def Let_def consume_recovery_code_def issue_session_not LOCKOUT_SECONDS_def
        split: sum.splits option.splits bool.splits dest: verify_code_Inl)
qed

lemma verify_locked_step:
  assumes "decode_mfa_challenge lib now ch = Some uid" "load_user_totp uid db = Some row"
    "totp_confirmed_at row \<noteq> None" "verify_totp lib now ch code db = (Totp_locked, db')"
  shows "db' = db"
proof -
  obtain y where y: "totp_confirmed_at row = Some y" using assms(3) by blast
  with assms show ?thesis
    by (auto simp: verify_totp_def Let_def issue_session_not
        split: if_splits sum.splits option.splits prod.splits bool.splits dest: verify_code_Inl)
qed

definition guess_budget :: "instant \<Rightarrow> user_row \<Rightarrow> int" where
  "guess_budget until u =
     (if (case totp_locked_until u of None \<Rightarrow> False | Some l \<Rightarrow> until \<le> l) then 0
      else max 1 (LOCKOUT_THRESHOLD - totp_failed_attempts u))"

lemma guesses_within_budget:
  assumes "load_user_totp uid db = Some u" "totp_confirmed_at u \<noteq> None"
    and "\<forall>(now, ch, code) \<in> set es. start \<le> now \<and> now < start + 900000000 \<and> decode_mfa_challenge lib now ch = Some uid"
    and "set (verify_run lib es db) \<subseteq> {Invalid_code, Totp_locked}"
  shows "int (count_list (verify_run lib es db) Invalid_code) \<le> guess_budget (start + 900000000) u"
  using assms
proof (induction es arbitrary: db u)
  case Nil
  then show ?case by (simp add: guess_budget_def le_max_iff_disj)
next
  case (Cons e es)
  obtain now ch code where e: "e = (now, ch, code)" by (cases e) auto
  obtain r db' where v: "verify_totp lib now ch code db = (r, db')" by (cases "verify_totp lib now ch code db")
  have d: "decode_mfa_challenge lib now ch = Some uid" "start \<le> now" "now < start + 900000000"
    using Cons.prems(3) e by auto
  have rest: "set (verify_run lib es db') \<subseteq> {Invalid_code, Totp_locked}" using Cons.prems(4) e v by simp
  consider "r = Invalid_code" | "r = Totp_locked" using Cons.prems(4) e v by auto
  then show ?case
  proof cases
    case 1
    let ?u = "u\<lparr>totp_failed_attempts := totp_failed_attempts u + 1,
       totp_locked_until := if is_locked_out (totp_failed_attempts u + 1) then Some (now + 900000000) else None\<rparr>"
    note st = verify_rejected_step[OF d(1) Cons.prems(1,2) v[unfolded 1]]
    have "int (count_list (verify_run lib es db') Invalid_code) \<le> guess_budget (start + 900000000) ?u"
      by (rule Cons.IH[OF st(2)]) (use Cons.prems e rest in auto)
    moreover have "guess_budget (start + 900000000) ?u + 1 \<le> guess_budget (start + 900000000) u"
      using st(1) d by (auto simp: guess_budget_def is_locked_def is_locked_out_def LOCKOUT_THRESHOLD_def split: option.splits)
    ultimately show ?thesis using e v 1 by simp
  next
    case 2
    then have "db' = db" using verify_locked_step[OF d(1) Cons.prems(1,2)] v by simp
    then show ?thesis using Cons.IH[OF Cons.prems(1,2)] Cons.prems(3) rest e v 2 by simp
  qed
qed

section \<open>Properties\<close>

text \<open>C10: 
  A session comes out of the second step only for a user with a confirmed factor that is not locked,
  named by a valid challenge, and only against a fresh code, whose step is above every step consumed
  before and is recorded, or against an unused recovery code, which is used up by it.
\<close>

theorem session_needs_second_factor:
  assumes "verify_totp lib now ch code db = (Inr s, db')"
  shows "\<exists>uid row. decode_mfa_challenge lib now ch = Some uid \<and> load_user_totp uid db = Some row \<and>
    totp_confirmed_at row \<noteq> None \<and> \<not> is_locked now row \<and>
    ((\<exists>secret step. decrypt_pii (fernet_decrypt lib) (totp_secret_encrypted row) = Inr secret \<and>
        verify_code lib secret code (totp_last_step row) now = Inr (Some step) \<and>
        (\<forall>m. totp_last_step row = Some m \<longrightarrow> m < step) \<and> consumed uid step db') \<or>
     ((\<exists>r \<in> set (id_recovery db). live_code uid (hash_recovery_code lib code) r) \<and>
        code_spent uid (hash_recovery_code lib code) db'))"
proof (cases rule: verify_totp_cases[of lib now ch code db])
  case (by_code uid row secret step db1)
  have "consumed uid step db'"
    using by_code assms by (auto simp: consumed_def clear_failures_def stamp_login_upd dest: load_id)
  moreover have "\<forall>m. totp_last_step row = Some m \<longrightarrow> m < step" using by_code(6) verify_code_above by force
  ultimately show ?thesis using by_code by blast
next
  case (by_recovery uid row db1)
  have "code_spent uid (hash_recovery_code lib code) db'"
    using by_recovery assms
    by (auto simp: code_spent_def stamp_login_upd consume_recovery_code_def Let_def update_where_def live_code_def
        split: if_splits dest: load_id)
  moreover have "\<exists>r \<in> set (id_recovery db). live_code uid (hash_recovery_code lib code) r"
    using by_recovery(5) by (simp add: consume_recovery_code_def Let_def)
  ultimately show ?thesis using by_recovery by blast
qed (use assms in auto)

text \<open>C16: 
  No code is accepted twice: after a step was consumed, and for as long as the user does not
  disable the factor, whatever logins, enrolment attempts and other users' requests happen in
  between, a code is verified only if it belongs to a strictly later step.
\<close>

theorem code_never_replayed:
  assumes "consumed uid s db" "\<forall>e \<in> set es. \<not> disables uid e"
    and "load_user_totp uid (run_steps (totp_step lib) es db) = Some u"
    and "verify_code lib secret code (totp_last_step u) now = Inr (Some s')"
  shows "s < s'"
proof -
  have "consumed uid s (run_steps (totp_step lib) es db)" using assms(1,2) by (simp add: code_replay.run_absorbed)
  then obtain m where "totp_last_step u = Some m" "s \<le> m" using assms(3) by (auto simp: consumed_def)
  with assms(4) show ?thesis using verify_code_above by fastforce
qed

text \<open>
  A recovery code works once: after it was spent, no sequence of requests short of disabling the
  factor makes the same code, however it is typed, acceptable again.
\<close>

theorem recovery_code_single_use:
  assumes "code_spent uid (hash_recovery_code lib code) db" "\<forall>e \<in> set es. \<not> disables uid e"
    and "normalise_recovery_code code' = normalise_recovery_code code"
  shows "\<not> fst (consume_recovery_code lib now uid code' (run_steps (totp_step lib) es db))"
proof -
  have "code_spent uid (hash_recovery_code lib code) (run_steps (totp_step lib) es db)"
    using assms(1,2) by (simp add: recovery_use.run_absorbed)
  then show ?thesis using assms(3)
    by (auto simp: code_spent_def consume_recovery_code_def hash_recovery_code_def Let_def)
qed

text \<open>
  Brute force is throttled: in any fifteen minutes at most five wrong codes are evaluated for a user,
  however many requests are sent and whatever the counter stood at before; every other attempt is
  turned away unread.
\<close>

theorem guesses_bounded:
  assumes "load_user_totp uid db = Some u" "totp_confirmed_at u \<noteq> None" "0 \<le> totp_failed_attempts u"
    and "\<forall>(now, ch, code) \<in> set es. start \<le> now \<and> now < start + 900000000 \<and> decode_mfa_challenge lib now ch = Some uid"
    and "set (verify_run lib es db) \<subseteq> {Invalid_code, Totp_locked}"
  shows "count_list (verify_run lib es db) Invalid_code \<le> 5"
proof -
  have "int (count_list (verify_run lib es db) Invalid_code) \<le> guess_budget (start + 900000000) u"
    by (rule guesses_within_budget[OF assms(1,2,4,5)])
  also have "\<dots> \<le> 5" using assms(3) by (simp add: guess_budget_def LOCKOUT_THRESHOLD_def)
  finally show ?thesis by simp
qed

text \<open>
  Turning the factor off takes both the password and a fresh code; an attempt that lacks either one
  leaves the enrolment and the recovery codes in place.
\<close>

theorem disable_needs_both:
  assumes "load_user_totp uid db = Some row" "totp_confirmed_at row \<noteq> None"
    and "disable_totp lib now uid password code db = (r, db')"
  shows "(r = Inr () \<longrightarrow> \<not> is_locked now row \<and> (\<exists>ph. u_password_hash row = Some ph \<and> checkpw lib password ph) \<and>
      (\<exists>secret step. decrypt_pii (fernet_decrypt lib) (totp_secret_encrypted row) = Inr secret \<and>
         verify_code lib secret code (totp_last_step row) now = Inr (Some step))) \<and>
    (r \<noteq> Inr () \<longrightarrow> id_recovery db' = id_recovery db \<and>
      (\<exists>row'. load_user_totp uid db' = Some row' \<and> totp_confirmed_at row' = totp_confirmed_at row \<and>
         totp_secret_encrypted row' = totp_secret_encrypted row))"
proof -
  obtain y where y: "totp_confirmed_at row = Some y" using assms(2) by blast
  have "u_id row = uid" using assms(1) by (rule load_id)
  with assms y show ?thesis
    by (auto simp: disable_totp_def split: if_splits sum.splits option.splits elim!: truthyE)
qed

subsection \<open>A concrete run\<close>

lemma demo_load: "load_user_totp ''u1'' demo_identity = Some demo_user"
  by (simp add: load_user_totp_def demo_identity_def lookup_key_def demo_user_def)

lemma demo_secret: "decrypt_pii (fernet_decrypt demo_lib) (totp_secret_encrypted demo_user) = Inr (Some ''K'')"
  by code_simp

lemma demo_code: "verify_code demo_lib (Some ''K'') ''111111'' (Some 0) 30000000 = Inr (Some 1)"
  by (simp add: verify_code_def isdigit_def is_py_digit_def remove_char_def strip_def is_py_space_def DIGITS_def
      DRIFT_STEPS_def STEP_SECONDS_def upto.simps demo_lib_def current_step_def)

lemma demo_challenge: "decode_mfa_challenge demo_lib 30000000 ''c'' = Some ''u1''"
  by (simp add: decode_mfa_challenge_def demo_lib_def unix_seconds_def challenge_claims_def)

lemma demo_user_facts [simp]:
  "totp_confirmed_at demo_user = Some 0" "totp_last_step demo_user = Some 0" "totp_failed_attempts demo_user = 0"
  "totp_locked_until demo_user = None" "u_password_hash demo_user = Some ''hunter22''" "u_id demo_user = ''u1''"
  by (simp_all add: demo_user_def)

lemma demo_unlocked: "\<not> is_locked now demo_user"
  by (simp add: is_locked_def)

lemma demo_verify:
  "verify_totp demo_lib 30000000 ''c'' ''111111'' demo_identity =
     (let db' = stamp_login 30000000 ''u1'' (clear_failures ''u1'' 1 demo_identity)
      in (issue_session_for_user demo_lib 30000000 ''u1'' db', db'))"
  using demo_challenge demo_load demo_secret demo_code demo_unlocked
  by (simp add: verify_totp_def Let_def)

lemma demo_session: "\<exists>s. issue_session_for_user demo_lib now ''u1'' (stamp_login t ''u1'' (clear_failures ''u1'' n demo_identity)) = Inr s"
  by (simp add: issue_session_for_user_def first_membership_def stamp_login_def clear_failures_def upd_user_def
      demo_identity_def demo_ws_def lookup_key_def map_filter_simps ws_pii_value_def Let_def)

theorem session_needs_second_factor_witness:
  "\<exists>s db'. verify_totp demo_lib 30000000 ''c'' ''111111'' demo_identity = (Inr s, db') \<and> consumed ''u1'' 1 db'"
proof -
  obtain s db' where v: "verify_totp demo_lib 30000000 ''c'' ''111111'' demo_identity = (Inr s, db')"
    using demo_session[of 30000000 30000000 1] by (auto simp: demo_verify Let_def)
  have "\<not> live_code ''u1'' (hash_recovery_code demo_lib ''111111'') r" if "r \<in> set (id_recovery demo_identity)" for r
  proof -
    have "hash_recovery_code demo_lib ''111111'' \<noteq> ''ABCDEFGHJK''" by code_simp
    with that show ?thesis by (auto simp: demo_identity_def live_code_def)
  qed
  then have "consumed ''u1'' 1 db'"
    using session_needs_second_factor[OF v] demo_code demo_challenge demo_load demo_secret by auto
  with v show ?thesis by blast
qed

lemma demo_consumed: "consumed ''u1'' 1 (clear_failures ''u1'' 1 demo_identity)"
  using demo_load by (simp add: consumed_def clear_failures_def)

theorem code_never_replayed_witness:
  "\<not> (\<exists>s'. verify_code demo_lib (Some ''K'') ''111111'' (Some 1) 31000000 = Inr (Some s') \<and> s' \<le> 1)"
proof
  assume "\<exists>s'. verify_code demo_lib (Some ''K'') ''111111'' (Some 1) 31000000 = Inr (Some s') \<and> s' \<le> 1"
  then obtain s' where "verify_code demo_lib (Some ''K'') ''111111'' (Some 1) 31000000 = Inr (Some s')" "s' \<le> 1" by blast
  then show False
    using code_never_replayed[OF demo_consumed, of "[]" demo_lib _ "Some ''K''" "''111111''" 31000000 s'] demo_load
    by (auto simp: clear_failures_def)
qed

lemma demo_recovery: "hash_recovery_code demo_lib ''abcde fghjk'' = ''ABCDEFGHJK''"
  by code_simp

theorem recovery_code_single_use_witness:
  "fst (consume_recovery_code demo_lib 7 ''u1'' ''abcde fghjk'' demo_identity) \<and>
   \<not> fst (consume_recovery_code demo_lib 9 ''u1'' ''ABCDE-FGHJK''
      (snd (consume_recovery_code demo_lib 7 ''u1'' ''abcde fghjk'' demo_identity)))"
proof
  show "fst (consume_recovery_code demo_lib 7 ''u1'' ''abcde fghjk'' demo_identity)"
    by (simp add: consume_recovery_code_def demo_recovery Let_def demo_identity_def live_code_def)
  have "code_spent ''u1'' (hash_recovery_code demo_lib ''abcde fghjk'')
      (snd (consume_recovery_code demo_lib 7 ''u1'' ''abcde fghjk'' demo_identity))"
    using demo_load by (auto simp: code_spent_def consume_recovery_code_def demo_recovery Let_def update_where_def live_code_def)
  moreover have "normalise_recovery_code ''ABCDE-FGHJK'' = normalise_recovery_code ''abcde fghjk''" by code_simp
  ultimately show "\<not> fst (consume_recovery_code demo_lib 9 ''u1'' ''ABCDE-FGHJK''
      (snd (consume_recovery_code demo_lib 7 ''u1'' ''abcde fghjk'' demo_identity)))"
    using recovery_code_single_use[where es = "[]" and lib = demo_lib and uid = "''u1''" and now = 9] by fastforce
qed

lemma demo_wrong: "verify_totp demo_lib 30000000 ''c'' ''nonsense'' demo_identity =
    (Invalid_code, snd (verify_totp demo_lib 30000000 ''c'' ''nonsense'' demo_identity))"
proof -
  have "verify_code demo_lib (Some ''K'') ''nonsense'' (Some 0) 30000000 = Inr None"
    by (simp add: verify_code_def isdigit_def is_py_digit_def remove_char_def strip_def is_py_space_def)
  moreover have "\<not> fst (consume_recovery_code demo_lib 30000000 ''u1'' ''nonsense'' demo_identity)"
  proof -
    have "hash_recovery_code demo_lib ''nonsense'' \<noteq> ''ABCDEFGHJK''" by code_simp
    then show ?thesis by (auto simp: consume_recovery_code_def Let_def demo_identity_def live_code_def)
  qed
  ultimately show ?thesis
    using demo_challenge demo_load demo_secret demo_unlocked
    by (cases "consume_recovery_code demo_lib 30000000 ''u1'' ''nonsense'' demo_identity")
      (simp add: verify_totp_def Let_def)
qed

theorem guesses_bounded_witness:
  "verify_run demo_lib [(30000000, ''c'', ''nonsense'')] demo_identity = [Invalid_code] \<and>
   count_list (verify_run demo_lib [(30000000, ''c'', ''nonsense'')] demo_identity) Invalid_code \<le> 5"
proof -
  have r: "verify_run demo_lib [(30000000, ''c'', ''nonsense'')] demo_identity = [Invalid_code]"
  proof -
    obtain db' where "verify_totp demo_lib 30000000 ''c'' ''nonsense'' demo_identity = (Invalid_code, db')"
      using demo_wrong by blast
    then show ?thesis by simp
  qed
  moreover have "count_list (verify_run demo_lib [(30000000, ''c'', ''nonsense'')] demo_identity) Invalid_code \<le> 5"
    by (rule guesses_bounded[OF demo_load, where start = 0]) (use r demo_challenge in auto)
  ultimately show ?thesis by blast
qed

theorem disable_needs_both_witness:
  "\<not> (\<exists>db'. disable_totp demo_lib 30000000 ''u1'' ''wrong'' ''111111'' demo_identity = (Inr (), db'))"
proof -
  have "\<not> checkpw demo_lib ''wrong'' ''hunter22''" by (simp add: demo_lib_def)
  then show ?thesis
    using disable_needs_both[OF demo_load, of demo_lib 30000000 "''wrong''" "''111111''"] by auto
qed

end
