(* ===== verification/Api_Keys.thy ===== *)
theory Api_Keys
  imports Plans
begin

text \<open>
  Ingest API keys of the hosted service: generation, hashing, the cached lookup with its legacy
  fallback (\<open>burnlens_cloud/auth.py\<close>), the key endpoints (\<open>api_keys_api.py\<close>) and the backfill of
  legacy keys at start-up (\<open>database.py\<close>). SHA-256 and the random part of a key are parameters. The
  events of a running process are interleaved at the granularity of whole handlers.
\<close>

section \<open>State\<close>

record api_key_row =
  ak_id :: string
  ak_workspace_id :: string
  ak_key_hash :: string
  ak_last4 :: string
  ak_name :: string
  ak_created_at :: instant
  ak_revoked_at :: "instant option"
  ak_paused_at :: "instant option"
  ak_created_by :: "string option"
  ak_last_used_at :: "instant option"

type_synonym key_cache = "string \<rightharpoonup> string \<times> string \<times> string option \<times> instant"

record key_db =
  kd_workspaces :: "workspace_row table"
  kd_api_keys :: "api_key_row table"
  kd_cache :: key_cache

definition api_key_cache_ttl :: int where
  "api_key_cache_ttl = 60000000"

section \<open>Lookup\<close>

definition generate_api_key :: "string \<Rightarrow> string" where
  "generate_api_key rand = ''bl_live_'' @ rand"

definition invalidate_api_key_cache :: "string \<Rightarrow> key_db \<Rightarrow> key_db" where
  "invalidate_api_key_cache h db = db\<lparr>kd_cache := (kd_cache db)(h := None)\<rparr>"

definition touch_last_used :: "instant \<Rightarrow> string option \<Rightarrow> key_db \<Rightarrow> key_db" where
  "touch_last_used now key_id db =
     (case key_id of
        None \<Rightarrow> db
      | Some i \<Rightarrow> db\<lparr>kd_api_keys := update_where
          (\<lambda>r. ak_id r = i \<and> (case ak_last_used_at r of None \<Rightarrow> True | Some t \<Rightarrow> t < now - 60000000))
          (\<lambda>r. r\<lparr>ak_last_used_at := Some now\<rparr>) (kd_api_keys db)\<rparr>)"

definition select_live_key :: "string \<Rightarrow> key_db \<Rightarrow> (workspace_row \<times> api_key_row) option" where
  "select_live_key h db =
     (case find (\<lambda>ak. ak_key_hash ak = h \<and> ak_revoked_at ak = None \<and> ak_paused_at ak = None \<and>
              (case lookup_key ws_id (ak_workspace_id ak) (kd_workspaces db) of
                 None \<Rightarrow> False | Some w \<Rightarrow> ws_active w)) (kd_api_keys db) of
        None \<Rightarrow> None
      | Some ak \<Rightarrow> map_option (\<lambda>w. (w, ak)) (lookup_key ws_id (ak_workspace_id ak) (kd_workspaces db)))"

definition select_legacy_key :: "string \<Rightarrow> key_db \<Rightarrow> workspace_row option" where
  "select_legacy_key h db = find (\<lambda>w. ws_api_key_hash w = Some h \<and> ws_active w) (kd_workspaces db)"

text \<open>The row the two queries give: workspace, plan and, unless it is a legacy key, the key's id.\<close>

definition query_key :: "string \<Rightarrow> key_db \<Rightarrow> (string \<times> string \<times> string option) option" where
  "query_key h db =
     (case select_live_key h db of
        Some (w, ak) \<Rightarrow> Some (ws_id w, ws_plan w, Some (ak_id ak))
      | None \<Rightarrow> map_option (\<lambda>w. (ws_id w, ws_plan w, None)) (select_legacy_key h db))"

text \<open>
  The answer is the pair (workspace, plan); the scheduled write of \<open>last_used_at\<close> runs in a task of
  its own and is the event \<open>Touch\<close> below.
\<close>

definition store_key ::
    "instant \<Rightarrow> string \<Rightarrow> (string \<times> string \<times> string option) option \<Rightarrow> key_db \<Rightarrow> (string \<times> string) option \<times> key_db" where
  "store_key now h res db =
     (case res of
        None \<Rightarrow> (None, db)
      | Some (wid, plan, kid) \<Rightarrow>
          (Some (wid, plan), db\<lparr>kd_cache := (kd_cache db)(h \<mapsto> (wid, plan, kid, now))\<rparr>))"

definition get_workspace_by_api_key ::
    "(string \<Rightarrow> string) \<Rightarrow> instant \<Rightarrow> string \<Rightarrow> key_db \<Rightarrow> (string \<times> string) option \<times> key_db" where
  "get_workspace_by_api_key sha256 now api_key db =
     (let h = sha256 api_key;
          miss = (\<lambda>db'. store_key now h (query_key h db') db')
      in case kd_cache db h of
           Some (wid, plan, kid, cached_at) \<Rightarrow>
             if now - cached_at < api_key_cache_ttl then (Some (wid, plan), db)
             else miss (invalidate_api_key_cache h db)
         | None \<Rightarrow> miss db)"

section \<open>The endpoints\<close>

definition viewer_creator_filter :: "token_payload \<Rightarrow> string option" where
  "viewer_creator_filter token = (if tp_role token = ''viewer'' then Some (tp_user_id token) else None)"

definition in_scope :: "token_payload \<Rightarrow> api_key_row \<Rightarrow> bool" where
  "in_scope token r \<longleftrightarrow> ak_workspace_id r = tp_workspace_id token \<and>
     (case viewer_creator_filter token of None \<Rightarrow> True | Some u \<Rightarrow> ak_created_by r = Some u)"

definition lowest_plan_with_api_key_count :: "plan_limits_row table \<Rightarrow> int \<Rightarrow> string option" where
  "lowest_plan_with_api_key_count plans current =
     (let plans_ok = map pl_plan (filter (\<lambda>p. case pl_api_key_count p of None \<Rightarrow> True | Some c \<Rightarrow> c > current) plans)
      in find (\<lambda>c. c \<in> set plans_ok) PLAN_PRICE_ORDER)"

datatype key_error =
    Api_key_limit_reached int int "string option"
  | Api_key_not_found
  | Unique_violation

definition active_key_count :: "string \<Rightarrow> key_db \<Rightarrow> int" where
  "active_key_count wid db =
     int (length (filter (\<lambda>r. ak_workspace_id r = wid \<and> ak_revoked_at r = None) (kd_api_keys db)))"

definition create_api_key ::
    "(string \<Rightarrow> string) \<Rightarrow> plan_limits_row table \<Rightarrow> instant \<Rightarrow> string \<Rightarrow> string \<Rightarrow> string option \<Rightarrow> token_payload
       \<Rightarrow> key_db \<Rightarrow> (key_error + (string \<times> api_key_row)) \<times> key_db" where
  "create_api_key sha256 plans now rand new_id name token db =
     (let cap = (case resolve_limits plans (kd_workspaces db) (tp_workspace_id token) of
                   None \<Rightarrow> None | Some l \<Rightarrow> api_key_count l);
          current = active_key_count (tp_workspace_id token) db
      in if (case cap of None \<Rightarrow> False | Some c \<Rightarrow> current \<ge> c)
         then (Inl (Api_key_limit_reached (the cap) current (lowest_plan_with_api_key_count plans current)), db)
         else let plaintext = generate_api_key rand;
                  h = sha256 plaintext;
                  label = (let n = strip (case name of None \<Rightarrow> ''Primary'' | Some n \<Rightarrow> if n = [] then ''Primary'' else n)
                           in if n = [] then ''Primary'' else n);
                  row = \<lparr>ak_id = new_id, ak_workspace_id = tp_workspace_id token, ak_key_hash = h,
                         ak_last4 = drop (length plaintext - 4) plaintext, ak_name = label, ak_created_at = now,
                         ak_revoked_at = None, ak_paused_at = None,
                         ak_created_by = (if tp_user_id token \<noteq> [] then Some (tp_user_id token) else None),
                         ak_last_used_at = None\<rparr>
              in if h \<in> ak_key_hash ` set (kd_api_keys db) \<or> new_id \<in> ak_id ` set (kd_api_keys db)
                 then (Inl Unique_violation, db)
                 else (Inr (plaintext, row), db\<lparr>kd_api_keys := kd_api_keys db @ [row]\<rparr>))"

definition list_api_keys :: "token_payload \<Rightarrow> key_db \<Rightarrow> api_key_row list" where
  "list_api_keys token db = sort_key (\<lambda>r. - ak_created_at r) (filter (in_scope token) (kd_api_keys db))"

text \<open>\<open>UPDATE api_keys SET ... WHERE id AND workspace_id AND revoked_at IS NULL AND creator RETURNING\<close>.\<close>

definition update_key ::
    "string \<Rightarrow> token_payload \<Rightarrow> (api_key_row \<Rightarrow> api_key_row) \<Rightarrow> key_db \<Rightarrow> api_key_row option \<times> key_db" where
  "update_key key_id token f db =
     (let p = (\<lambda>r. ak_id r = key_id \<and> ak_revoked_at r = None \<and> in_scope token r)
      in (map_option f (find p (kd_api_keys db)),
          db\<lparr>kd_api_keys := update_where p f (kd_api_keys db)\<rparr>))"

definition update_api_key :: "string \<Rightarrow> string \<Rightarrow> token_payload \<Rightarrow> key_db \<Rightarrow> (key_error + api_key_row) \<times> key_db" where
  "update_api_key key_id name token db =
     (case update_key key_id token (ak_name_update (\<lambda>_. name)) db of
        (None, db') \<Rightarrow> (Inl Api_key_not_found, db')
      | (Some r, db') \<Rightarrow> (Inr r, db'))"

definition revoke_api_key :: "instant \<Rightarrow> string \<Rightarrow> token_payload \<Rightarrow> key_db \<Rightarrow> (key_error + string) \<times> key_db" where
  "revoke_api_key now key_id token db =
     (case update_key key_id token (ak_revoked_at_update (\<lambda>_. Some now)) db of
        (None, db') \<Rightarrow> (Inl Api_key_not_found, db')
      | (Some r, db') \<Rightarrow>
          let h = ak_key_hash r; db2 = invalidate_api_key_cache h db'
          in (Inr key_id,
              db2\<lparr>kd_workspaces := update_where
                 (\<lambda>w. ws_id w = tp_workspace_id token \<and> ws_api_key_hash w = Some h)
                 (\<lambda>w. w\<lparr>ws_api_key_hash := None, ws_api_key_last4 := None\<rparr>) (kd_workspaces db2)\<rparr>))"

definition pause_api_key :: "instant \<Rightarrow> string \<Rightarrow> token_payload \<Rightarrow> key_db \<Rightarrow> (key_error + api_key_row) \<times> key_db" where
  "pause_api_key now key_id token db =
     (case update_key key_id token (ak_paused_at_update (\<lambda>_. Some now)) db of
        (None, db') \<Rightarrow> (Inl Api_key_not_found, db')
      | (Some r, db') \<Rightarrow> (Inr r, invalidate_api_key_cache (ak_key_hash r) db'))"

definition resume_api_key :: "string \<Rightarrow> token_payload \<Rightarrow> key_db \<Rightarrow> (key_error + api_key_row) \<times> key_db" where
  "resume_api_key key_id token db =
     (case update_key key_id token (ak_paused_at_update (\<lambda>_. None)) db of
        (None, db') \<Rightarrow> (Inl Api_key_not_found, db')
      | (Some r, db') \<Rightarrow> (Inr r, db'))"

section \<open>Start-up backfill of legacy keys\<close>

definition backfill_api_keys :: "(workspace_row \<Rightarrow> string) \<Rightarrow> key_db \<Rightarrow> key_db" where
  "backfill_api_keys gen_uuid db =
     db\<lparr>kd_api_keys := kd_api_keys db @
          map (\<lambda>w. \<lparr>ak_id = gen_uuid w, ak_workspace_id = ws_id w, ak_key_hash = the (ws_api_key_hash w),
                 ak_last4 = (case ws_api_key_last4 w of None \<Rightarrow> ''****'' | Some l \<Rightarrow> l), ak_name = ''Primary'',
                 ak_created_at = ws_created_at w, ak_revoked_at = None, ak_paused_at = None,
                 ak_created_by = None, ak_last_used_at = None\<rparr>)
            (filter (\<lambda>w. ws_api_key_hash w \<noteq> None \<and>
                the (ws_api_key_hash w) \<notin> ak_key_hash ` set (kd_api_keys db)) (kd_workspaces db)),
        kd_cache := Map.empty\<rparr>"

section \<open>Runs\<close>

datatype key_event =
    Lookup instant string
  | Create instant string string "string option" token_payload
  | Rename string string token_payload
  | Revoke instant string token_payload
  | Pause instant string token_payload
  | Resume string token_payload
  | Touch instant "string option"
  | Restart "workspace_row \<Rightarrow> string"

fun key_event_step :: "(string \<Rightarrow> string) \<Rightarrow> plan_limits_row table \<Rightarrow> key_event \<Rightarrow> key_db \<Rightarrow> key_db" where
  "key_event_step sha plans (Lookup now k) db = snd (get_workspace_by_api_key sha now k db)"
| "key_event_step sha plans (Create now rand i n t) db = snd (create_api_key sha plans now rand i n t db)"
| "key_event_step sha plans (Rename i n t) db = snd (update_api_key i n t db)"
| "key_event_step sha plans (Revoke now i t) db = snd (revoke_api_key now i t db)"
| "key_event_step sha plans (Pause now i t) db = snd (pause_api_key now i t db)"
| "key_event_step sha plans (Resume i t) db = snd (resume_api_key i t db)"
| "key_event_step sha plans (Touch now i) db = touch_last_used now i db"
| "key_event_step sha plans (Restart gen) db = backfill_api_keys gen db"

section \<open>Frames\<close>

lemma update_where_image:
  "r' \<in> set (update_where p f t) \<longleftrightarrow> (\<exists>r \<in> set t. r' = (if p r then f r else r))"
  by (auto simp: update_where_def)

lemma update_key_frame [simp]:
  "kd_workspaces (snd (update_key i t f db)) = kd_workspaces db"
  "kd_cache (snd (update_key i t f db)) = kd_cache db"
  by (simp_all add: update_key_def Let_def)

lemma update_key_frameD:
  "update_key i t f db = (r, d) \<Longrightarrow> kd_workspaces d = kd_workspaces db \<and> kd_cache d = kd_cache db"
  using update_key_frame[of i t f db] by simp

lemma update_key_keys:
  "kd_api_keys (snd (update_key i t f db)) =
     update_where (\<lambda>r. ak_id r = i \<and> ak_revoked_at r = None \<and> in_scope t r) f (kd_api_keys db)"
  by (simp add: update_key_def Let_def)

lemma update_key_Some:
  assumes "update_key i t f db = (Some r', db')"
  obtains r where "r \<in> set (kd_api_keys db)" "ak_id r = i" "ak_revoked_at r = None" "in_scope t r" "r' = f r"
  using assms by (auto simp: update_key_def Let_def dest: find_Some_setD)

lemma invalidate_frame [simp]:
  "kd_workspaces (invalidate_api_key_cache h db) = kd_workspaces db"
  "kd_api_keys (invalidate_api_key_cache h db) = kd_api_keys db"
  "kd_cache (invalidate_api_key_cache h db) = (kd_cache db)(h := None)"
  by (simp_all add: invalidate_api_key_cache_def)

lemma touch_frame [simp]:
  "kd_workspaces (touch_last_used now i db) = kd_workspaces db"
  "kd_cache (touch_last_used now i db) = kd_cache db"
  by (simp_all add: touch_last_used_def split: option.split)

lemma lookup_frame:
  "kd_workspaces (snd (get_workspace_by_api_key sha now k db)) = kd_workspaces db"
  "kd_api_keys (snd (get_workspace_by_api_key sha now k db)) = kd_api_keys db"
  "h \<noteq> sha k \<Longrightarrow> kd_cache (snd (get_workspace_by_api_key sha now k db)) h = kd_cache db h"
  by (auto simp: get_workspace_by_api_key_def store_key_def Let_def split: option.splits prod.splits)

text \<open>
  Every event keeps the rows of \<open>api_keys\<close> up to columns other than the identity, the owner and the
  hash, appends rows with new hashes, and never clears \<open>revoked_at\<close>.
\<close>

definition same_identity :: "api_key_row \<Rightarrow> api_key_row \<Rightarrow> bool" where
  "same_identity r r' \<longleftrightarrow> ak_id r' = ak_id r \<and> ak_key_hash r' = ak_key_hash r \<and>
     ak_workspace_id r' = ak_workspace_id r \<and> ak_created_by r' = ak_created_by r \<and>
     (ak_revoked_at r \<noteq> None \<longrightarrow> ak_revoked_at r' = ak_revoked_at r)"

lemma same_identity_refl [simp]: "same_identity r r"
  by (simp add: same_identity_def)

lemma list_all2_update_where:
  "(\<And>r. p r \<Longrightarrow> same_identity r (f r)) \<Longrightarrow> list_all2 same_identity t (update_where p f t)"
  by (induction t) (auto simp: update_where_def)

lemma list_all2_refl_identity [simp]: "list_all2 same_identity t t"
  by (simp add: list_all2_same)

lemma handler_keys:
  "kd_api_keys (snd (update_api_key i n t db)) = kd_api_keys (snd (update_key i t (ak_name_update (\<lambda>_. n)) db))"
  "kd_api_keys (snd (revoke_api_key now i t db)) =
     kd_api_keys (snd (update_key i t (ak_revoked_at_update (\<lambda>_. Some now)) db))"
  "kd_api_keys (snd (pause_api_key now i t db)) =
     kd_api_keys (snd (update_key i t (ak_paused_at_update (\<lambda>_. Some now)) db))"
  "kd_api_keys (snd (resume_api_key i t db)) =
     kd_api_keys (snd (update_key i t (ak_paused_at_update (\<lambda>_. None)) db))"
  by (auto simp: update_api_key_def revoke_api_key_def pause_api_key_def resume_api_key_def Let_def
      split: prod.split option.split)

definition rows_extended :: "api_key_row table \<Rightarrow> api_key_row table \<Rightarrow> bool" where
  "rows_extended t t' \<longleftrightarrow> (\<exists>old new. t' = old @ new \<and> list_all2 same_identity t old \<and>
     (\<forall>r \<in> set new. ak_key_hash r \<notin> ak_key_hash ` set t))"

lemma rows_extended_old: "list_all2 same_identity t t' \<Longrightarrow> rows_extended t t'"
  unfolding rows_extended_def by (intro exI[of _ t'] exI[of _ "[]"]) simp

lemma rows_extended_new:
  "\<forall>r \<in> set new. ak_key_hash r \<notin> ak_key_hash ` set t \<Longrightarrow> rows_extended t (t @ new)"
  unfolding rows_extended_def by (intro exI[of _ t] exI[of _ new]) simp

lemma key_event_rows: "rows_extended (kd_api_keys db) (kd_api_keys (key_event_step sha plans e db))"
proof (cases e)
  case (Create now rand i n t)
  then show ?thesis by (auto simp: create_api_key_def Let_def intro: rows_extended_old rows_extended_new)
next
  case (Touch now i)
  then show ?thesis
    by (auto simp: touch_last_used_def same_identity_def split: option.split
        intro!: rows_extended_old list_all2_update_where)
next
  case (Restart gen)
  then show ?thesis by (auto simp: backfill_api_keys_def intro!: rows_extended_new)
qed (auto simp: lookup_frame handler_keys update_key_keys same_identity_def
    intro!: rows_extended_old list_all2_update_where)

lemma key_event_workspaces:
  "w' \<in> set (kd_workspaces (key_event_step sha plans e db)) \<Longrightarrow>
   \<exists>w \<in> set (kd_workspaces db). w' = w \<or> w' = w\<lparr>ws_api_key_hash := None, ws_api_key_last4 := None\<rparr>"
proof (cases e)
  case (Revoke now i t)
  assume "w' \<in> set (kd_workspaces (key_event_step sha plans e db))"
  with Revoke show ?thesis
    by (auto simp: revoke_api_key_def Let_def update_where_def update_key_def
        split: prod.splits option.splits if_splits)
qed (auto simp: lookup_frame create_api_key_def update_api_key_def pause_api_key_def resume_api_key_def
    backfill_api_keys_def Let_def update_key_def split: prod.splits option.splits if_splits)

section \<open>Revocation\<close>

text \<open>A dead hash: its row is revoked, no workspace row carries it, and the cache does not hold it.\<close>

definition dead_hash :: "string \<Rightarrow> key_db \<Rightarrow> bool" where
  "dead_hash h db \<longleftrightarrow>
     (\<exists>r \<in> set (kd_api_keys db). ak_key_hash r = h) \<and>
     (\<forall>r \<in> set (kd_api_keys db). ak_key_hash r = h \<longrightarrow> ak_revoked_at r \<noteq> None) \<and>
     (\<forall>w \<in> set (kd_workspaces db). ws_api_key_hash w \<noteq> Some h) \<and> kd_cache db h = None"

lemma query_dead: "dead_hash h db \<Longrightarrow> query_key h db = None"
proof -
  assume d: "dead_hash h db"
  then have "select_live_key h db = None"
    by (auto simp: dead_hash_def select_live_key_def find_None_iff split: option.split dest!: find_Some_setD)
  moreover from d have "select_legacy_key h db = None"
    by (auto simp: dead_hash_def select_legacy_key_def find_None_iff)
  ultimately show ?thesis by (simp add: query_key_def)
qed

lemma dead_lookup: "dead_hash (sha k) db \<Longrightarrow> get_workspace_by_api_key sha now k db = (None, db)"
  using query_dead[of "sha k" db] by (simp add: get_workspace_by_api_key_def store_key_def Let_def dead_hash_def)

lemma rows_extended_revoked:
  assumes "rows_extended t t'" "r' \<in> set t'" "ak_key_hash r' = h" "\<exists>r \<in> set t. ak_key_hash r = h"
    and "\<forall>r \<in> set t. ak_key_hash r = h \<longrightarrow> ak_revoked_at r \<noteq> None"
  shows "ak_revoked_at r' \<noteq> None"
proof -
  obtain old new where o: "t' = old @ new" "list_all2 same_identity t old"
    "\<forall>r \<in> set new. ak_key_hash r \<notin> ak_key_hash ` set t" using assms(1) unfolding rows_extended_def by blast
  then have "r' \<in> set old" using assms(2-4) by (metis Un_iff imageI set_append)
  then obtain r where "r \<in> set t" "same_identity r r'"
    using o(2) by (metis in_set_conv_nth list_all2_conv_all_nth)
  with assms(3,5) show ?thesis by (auto simp: same_identity_def)
qed

lemma rows_extended_hash: "rows_extended t t' \<Longrightarrow> r \<in> set t \<Longrightarrow> \<exists>r' \<in> set t'. same_identity r r'"
  unfolding rows_extended_def by (fastforce simp: list_all2_conv_all_nth in_set_conv_nth)

lemma dead_step: "dead_hash h db \<Longrightarrow> dead_hash h (key_event_step sha plans e db)"
proof -
  assume d: "dead_hash h db"
  note rows = key_event_rows[of db sha plans e]
  have "\<exists>r \<in> set (kd_api_keys (key_event_step sha plans e db)). ak_key_hash r = h"
    using d rows_extended_hash[OF rows] by (force simp: dead_hash_def same_identity_def)
  moreover have "\<forall>r \<in> set (kd_api_keys (key_event_step sha plans e db)). ak_key_hash r = h \<longrightarrow> ak_revoked_at r \<noteq> None"
    using d rows_extended_revoked[OF rows] by (auto simp: dead_hash_def)
  moreover have "\<forall>w \<in> set (kd_workspaces (key_event_step sha plans e db)). ws_api_key_hash w \<noteq> Some h"
    using d key_event_workspaces[of _ sha plans e db] by (fastforce simp: dead_hash_def)
  moreover have "kd_cache (key_event_step sha plans e db) h = None"
  proof (cases e)
    case (Lookup now k)
    then show ?thesis using d lookup_frame(3)[of h sha k now db] dead_lookup[of sha k db now]
      by (cases "sha k = h") (auto simp: dead_hash_def)
  qed (use d in \<open>auto simp: dead_hash_def create_api_key_def update_api_key_def revoke_api_key_def
      pause_api_key_def resume_api_key_def backfill_api_keys_def Let_def update_key_def
      split: prod.splits option.splits if_splits\<close>)
  ultimately show ?thesis by (simp add: dead_hash_def)
qed

interpretation revoked_key: absorbing_system "key_event_step sha plans" "\<lambda>_. True" "\<lambda>_. True" "dead_hash h"
  for sha plans h
  by unfold_locales (auto intro: dead_step)

text \<open>
  The constraints of the schema (primary keys, UNIQUE key_hash, the partial unique index on the
  legacy column), and that a legacy hash and its backfilled row name the same workspace.
\<close>

definition key_db_ok :: "key_db \<Rightarrow> bool" where
  "key_db_ok db \<longleftrightarrow> pk ws_id (kd_workspaces db) \<and> pk ak_id (kd_api_keys db) \<and> pk ak_key_hash (kd_api_keys db) \<and>
     (\<forall>w \<in> set (kd_workspaces db). \<forall>r \<in> set (kd_api_keys db).
        ws_api_key_hash w = Some (ak_key_hash r) \<longrightarrow> ws_id w = ak_workspace_id r)"

lemma pk_inj: "pk key t \<Longrightarrow> r \<in> set t \<Longrightarrow> r' \<in> set t \<Longrightarrow> key r = key r' \<Longrightarrow> r = r'"
  by (metis option.inject pk_lookup)

lemma revoke_kills:
  assumes ok: "key_db_ok db" and rv: "revoke_api_key now i t db = (Inr x, db')"
    and r: "r \<in> set (kd_api_keys db)" "ak_id r = i"
  shows "dead_hash (ak_key_hash r) db'"
proof -
  obtain q d where q: "update_key i t (ak_revoked_at_update (\<lambda>_. Some now)) db = (Some q, d)"
    using rv by (auto simp: revoke_api_key_def split: prod.splits option.splits)
  then obtain r0 where r0: "r0 \<in> set (kd_api_keys db)" "ak_id r0 = i" "in_scope t r0" "ak_revoked_at r0 = None"
    "q = r0\<lparr>ak_revoked_at := Some now\<rparr>" by (rule update_key_Some) blast
  then have "r0 = r" using ok r pk_inj[of ak_id] unfolding key_db_ok_def by metis
  with r0 have sc: "in_scope t r" "ak_revoked_at r = None" "ak_key_hash q = ak_key_hash r" by auto
  have d: "d = snd (update_key i t (ak_revoked_at_update (\<lambda>_. Some now)) db)" using q by simp
  have keys: "kd_api_keys db' = kd_api_keys d" and cache: "kd_cache db' (ak_key_hash r) = None"
    and wss: "kd_workspaces db' = update_where
       (\<lambda>w. ws_id w = tp_workspace_id t \<and> ws_api_key_hash w = Some (ak_key_hash r))
       (\<lambda>w. w\<lparr>ws_api_key_hash := None, ws_api_key_last4 := None\<rparr>) (kd_workspaces db)"
    using rv q sc(3) update_key_frameD[OF q] by (auto simp: revoke_api_key_def Let_def)
  have "ak_revoked_at r' \<noteq> None" if hr: "r' \<in> set (kd_api_keys db')" "ak_key_hash r' = ak_key_hash r" for r'
  proof -
    obtain r1 where r1: "r1 \<in> set (kd_api_keys db)"
      "r' = (if ak_id r1 = i \<and> ak_revoked_at r1 = None \<and> in_scope t r1 then r1\<lparr>ak_revoked_at := Some now\<rparr> else r1)"
      using hr(1) unfolding keys d update_key_keys update_where_image by blast
    then have "ak_key_hash r1 = ak_key_hash r" using hr(2) by (auto split: if_splits)
    then have "r1 = r" using ok r1(1) r(1) pk_inj[of ak_key_hash] unfolding key_db_ok_def by metis
    then show ?thesis using r1(2) sc r(2) by simp
  qed
  moreover have "\<exists>r' \<in> set (kd_api_keys db'). ak_key_hash r' = ak_key_hash r"
  proof -
    have "list_all2 same_identity (kd_api_keys db) (kd_api_keys db')"
      unfolding keys d update_key_keys by (rule list_all2_update_where) (simp add: same_identity_def)
    from rows_extended_hash[OF rows_extended_old[OF this] r(1)] show ?thesis
      by (auto simp: same_identity_def)
  qed
  moreover have "ws_api_key_hash w' \<noteq> Some (ak_key_hash r)" if "w' \<in> set (kd_workspaces db')" for w'
  proof -
    from that obtain w where w: "w \<in> set (kd_workspaces db)"
      "w' = (if ws_id w = tp_workspace_id t \<and> ws_api_key_hash w = Some (ak_key_hash r)
             then w\<lparr>ws_api_key_hash := None, ws_api_key_last4 := None\<rparr> else w)"
      unfolding wss update_where_image by blast
    show ?thesis
    proof (cases "ws_api_key_hash w = Some (ak_key_hash r)")
      case True
      then have "ws_id w = ak_workspace_id r" using ok w(1) r(1) unfolding key_db_ok_def by blast
      with True sc(1) w(2) show ?thesis by (simp add: in_scope_def)
    qed (simp add: w(2))
  qed
  ultimately show ?thesis using cache by (auto simp: dead_hash_def)
qed

section \<open>Properties\<close>

text \<open>C11: 
  A revoked key never authenticates again in the process that revoked it: after the revocation
  succeeded, whatever handlers, background writes and restarts with their backfill follow, a lookup
  of the plaintext answers nothing.
\<close>

theorem revoked_key_refused:
  assumes "key_db_ok db" "revoke_api_key now i t db = (Inr x, db')"
    and "r \<in> set (kd_api_keys db)" "ak_id r = i" "sha k = ak_key_hash r"
  shows "fst (get_workspace_by_api_key sha now' k (run_steps (key_event_step sha plans) es db')) = None"
proof -
  have "dead_hash (ak_key_hash r) db'" using assms revoke_kills by blast
  then have "dead_hash (sha k) (run_steps (key_event_step sha plans) es db')"
    using revoked_key.run_absorbed[where s = db' and es = es] assms(5) by simp
  from dead_lookup[of sha k _ now', OF this] show ?thesis by simp
qed

definition legacy_db :: key_db where
  "legacy_db = backfill_api_keys (\<lambda>w. ''k0'') \<lparr>kd_workspaces = [demo_ws], kd_api_keys = [], kd_cache = Map.empty\<rparr>"

definition demo_sha :: "string \<Rightarrow> string" where
  "demo_sha s = ''h0''"

definition legacy_row :: api_key_row where
  "legacy_row = \<lparr>ak_id = ''k0'', ak_workspace_id = ''w1'', ak_key_hash = ''h0'', ak_last4 = ''c0de'',
     ak_name = ''Primary'', ak_created_at = 0, ak_revoked_at = None, ak_paused_at = None,
     ak_created_by = None, ak_last_used_at = None\<rparr>"

lemma legacy_db_eq: "legacy_db = \<lparr>kd_workspaces = [demo_ws], kd_api_keys = [legacy_row], kd_cache = Map.empty\<rparr>"
  by (simp add: legacy_db_def backfill_api_keys_def demo_ws_def legacy_row_def)

lemma legacy_db_ok: "key_db_ok legacy_db"
  by (simp add: legacy_db_eq key_db_ok_def pk_def legacy_row_def demo_ws_def)

lemma demo_scope: "in_scope demo_token legacy_row"
  by (simp add: in_scope_def viewer_creator_filter_def demo_token_def legacy_row_def)

lemma demo_revoke:
  "revoke_api_key 50 ''k0'' demo_token legacy_db =
     (Inr ''k0'', snd (revoke_api_key 50 ''k0'' demo_token legacy_db))"
  by (simp add: revoke_api_key_def update_key_def legacy_db_eq Let_def demo_scope, simp add: legacy_row_def)

theorem revoked_key_refused_witness:
  "fst (get_workspace_by_api_key demo_sha 70 ''bl_live_x''
     (run_steps (key_event_step demo_sha plan_limits_seed) [Lookup 60 ''bl_live_x'', Restart (\<lambda>w. ''k9'')]
        (snd (revoke_api_key 50 ''k0'' demo_token legacy_db)))) = None"
  by (rule revoked_key_refused[OF legacy_db_ok demo_revoke, of legacy_row])
    (simp_all add: legacy_db_eq, simp_all add: legacy_row_def demo_sha_def)

text \<open>
  Pausing does not stop a key that came from the legacy column: once its hash was backfilled into
  \<open>api_keys\<close>, a successful pause leaves \<open>workspaces.api_key_hash\<close> in place, and the next lookup falls
  through to it and authenticates the paused key. (Revoking clears that column.)
\<close>

theorem paused_legacy_key_accepted:
  assumes "pause_api_key now i t db = (Inr p, db')"
    and "w \<in> set (kd_workspaces db)" "ws_active w" "ws_api_key_hash w = Some (sha k)"
    and "ak_key_hash p = sha k"
  shows "\<exists>plan. \<exists>wid. fst (get_workspace_by_api_key sha now' k db') = Some (wid, plan)"
proof -
  obtain d where d: "db' = invalidate_api_key_cache (sha k) d" "kd_workspaces d = kd_workspaces db"
    using assms(1,5)
    by (auto simp: pause_api_key_def split: prod.splits option.splits dest!: update_key_frameD)
  have "select_legacy_key (sha k) db' \<noteq> None"
    using assms(2-4) d by (auto simp: select_legacy_key_def find_None_iff)
  then have "query_key (sha k) db' \<noteq> None" by (auto simp: query_key_def split: option.split)
  moreover have "kd_cache db' (sha k) = None" using d by simp
  ultimately show ?thesis by (auto simp: get_workspace_by_api_key_def store_key_def Let_def)
qed

lemma demo_pause:
  "pause_api_key 50 ''k0'' demo_token legacy_db =
     (Inr (legacy_row\<lparr>ak_paused_at := Some 50\<rparr>), snd (pause_api_key 50 ''k0'' demo_token legacy_db))"
  "kd_api_keys (snd (pause_api_key 50 ''k0'' demo_token legacy_db)) = [legacy_row\<lparr>ak_paused_at := Some 50\<rparr>]"
  by (simp_all add: pause_api_key_def update_key_def legacy_db_eq Let_def demo_scope update_where_def
      legacy_row_def[THEN arg_cong, of ak_id] legacy_row_def[THEN arg_cong, of ak_revoked_at])

theorem paused_legacy_key_accepted_witness:
  "ak_paused_at (hd (kd_api_keys (snd (pause_api_key 50 ''k0'' demo_token legacy_db)))) = Some 50 \<and>
   (\<exists>plan wid. fst (get_workspace_by_api_key demo_sha 60 ''bl_live_x''
      (snd (pause_api_key 50 ''k0'' demo_token legacy_db))) = Some (wid, plan))"
  using paused_legacy_key_accepted[OF demo_pause(1), of demo_ws demo_sha "''bl_live_x''" 60] demo_pause(2)
  by (simp add: legacy_db_eq) (simp add: legacy_row_def demo_sha_def demo_ws_def)

text \<open>
  The eviction on revocation does not cover a lookup in flight: when the lookup's query ran before
  the revocation and its cache write runs after it, the revoked key is back in the cache and
  authenticates for the cache's lifetime.
\<close>

theorem revocation_race:
  assumes "key_db_ok db" "query_key (sha k) db = Some (wid, plan, kid)"
    and "revoke_api_key now i t db = (Inr x, db')"
    and "r \<in> set (kd_api_keys db)" "ak_id r = i" "ak_key_hash r = sha k"
    and "later - stored < api_key_cache_ttl"
  shows "dead_hash (sha k) db' \<and> fst (get_workspace_by_api_key sha later k
           (snd (store_key stored (sha k) (query_key (sha k) db) db'))) = Some (wid, plan)"
  using assms revoke_kills[OF assms(1,3,4,5)]
  by (simp add: get_workspace_by_api_key_def store_key_def Let_def)

lemma demo_query: "query_key (demo_sha ''bl_live_x'') legacy_db = Some (''w1'', ''free'', Some ''k0'')"
  by (simp add: query_key_def select_live_key_def legacy_db_eq lookup_key_def demo_sha_def
      legacy_row_def demo_ws_def)

theorem revocation_race_witness:
  "dead_hash ''h0'' (snd (revoke_api_key 50 ''k0'' demo_token legacy_db)) \<and>
   fst (get_workspace_by_api_key demo_sha 1000 ''bl_live_x''
     (snd (store_key 60 ''h0'' (query_key ''h0'' legacy_db)
        (snd (revoke_api_key 50 ''k0'' demo_token legacy_db))))) = Some (''w1'', ''free'')"
proof -
  have r: "legacy_row \<in> set (kd_api_keys legacy_db)" "ak_id legacy_row = ''k0''"
    "ak_key_hash legacy_row = demo_sha ''bl_live_x''"
    by (simp_all add: legacy_db_eq, simp_all add: legacy_row_def demo_sha_def)
  show ?thesis
    using revocation_race[where sha = demo_sha and k = "''bl_live_x''" and stored = 60 and later = 1000,
        OF legacy_db_ok demo_query demo_revoke r]
    by (simp add: api_key_cache_ttl_def demo_sha_def)
qed

text \<open>
  The plan's key cap: a creation that succeeds leaves the workspace with at most as many unrevoked
  keys as its effective limit allows; at the cap it is refused with the limit, the count and the
  state unchanged.
\<close>

theorem api_key_cap:
  assumes "resolve_limits plans (kd_workspaces db) (tp_workspace_id t) = Some l" "api_key_count l = Some c"
  shows "case create_api_key sha plans now rand i n t db of
      (Inr (key, r), db') \<Rightarrow> active_key_count (tp_workspace_id t) db' = active_key_count (tp_workspace_id t) db + 1 \<and>
         active_key_count (tp_workspace_id t) db' \<le> c
    | (Inl e, db') \<Rightarrow> db' = db \<and> (active_key_count (tp_workspace_id t) db \<ge> c \<longleftrightarrow>
         (\<exists>req. e = Api_key_limit_reached c (active_key_count (tp_workspace_id t) db) req))"
  using assms by (auto simp: create_api_key_def Let_def active_key_count_def)

theorem api_key_cap_witness:
  "\<exists>req. create_api_key demo_sha plan_limits_seed 5 ''ab'' ''k1'' None demo_token legacy_db =
      (Inl (Api_key_limit_reached 1 1 req), legacy_db)"
proof -
  have l: "resolve_limits plan_limits_seed (kd_workspaces legacy_db) (tp_workspace_id demo_token) =
      Some (merged_limits demo_ws (plan_limits_seed ! 0))"
    using demo_plan by (simp add: resolve_limits_def legacy_db_eq lookup_key_def[of ws_id])
      (simp add: demo_ws_def demo_token_def)
  have c: "api_key_count (merged_limits demo_ws (plan_limits_seed ! 0)) = Some 1"
    by (simp add: merged_api_key_count override_entry_def demo_ws_def plan_limits_seed_def)
  have a: "active_key_count (tp_workspace_id demo_token) legacy_db = 1"
    by (simp add: active_key_count_def legacy_db_eq, simp add: legacy_row_def demo_token_def)
  show ?thesis
    using api_key_cap[OF l c, of demo_sha 5 "''ab''" "''k1''" None] a
    by (cases "create_api_key demo_sha plan_limits_seed 5 ''ab'' ''k1'' None demo_token legacy_db")
      (auto split: sum.splits)
qed

text \<open>
  Tenant isolation of the key endpoints: whatever key id a caller names, the rows of other
  workspaces, and for a viewer also the rows other members created, are left exactly as they were.
\<close>

definition touched :: "key_db \<Rightarrow> key_db \<Rightarrow> api_key_row \<Rightarrow> bool" where
  "touched db db' r \<longleftrightarrow> r \<in> set (kd_api_keys db) \<and> r \<notin> set (kd_api_keys db')"

lemma update_key_untouched: "\<not> in_scope t r \<Longrightarrow> \<not> touched db (snd (update_key i t f db)) r"
  by (auto simp: touched_def update_key_keys update_where_image)

theorem key_endpoints_confined:
  assumes "ak_workspace_id r \<noteq> tp_workspace_id t \<or>
     (tp_role t = ''viewer'' \<and> ak_created_by r \<noteq> Some (tp_user_id t))"
  shows "\<not> touched db (snd (update_api_key i n t db)) r \<and> \<not> touched db (snd (revoke_api_key now i t db)) r \<and>
    \<not> touched db (snd (pause_api_key now i t db)) r \<and> \<not> touched db (snd (resume_api_key i t db)) r \<and>
    \<not> touched db (snd (create_api_key sha plans now rand new_id nm t db)) r \<and> r \<notin> set (list_api_keys t db)"
proof -
  have sc: "\<not> in_scope t r" using assms by (auto simp: in_scope_def viewer_creator_filter_def)
  have "\<not> touched db (snd (create_api_key sha plans now rand new_id nm t db)) r"
    by (auto simp: touched_def create_api_key_def Let_def)
  then show ?thesis
    using update_key_untouched[OF sc] sc by (simp add: touched_def handler_keys list_api_keys_def)
qed

theorem key_endpoints_confined_witness:
  "\<not> touched legacy_db (snd (revoke_api_key 9 ''k0'' (demo_token\<lparr>tp_role := ''viewer''\<rparr>) legacy_db)) legacy_row"
  using key_endpoints_confined[of legacy_row "demo_token\<lparr>tp_role := ''viewer''\<rparr>" legacy_db "''k0''" "''n''" 9]
  by (simp add: legacy_row_def demo_token_def)

end
