(* ===== verification/Action_Tokens.thy ===== *)
theory Action_Tokens
  imports Api_Keys Sessions
begin

text \<open>
  Clickable alert actions: the signed single-use links of \<open>burnlens_cloud/action_tokens.py\<close> and the
  handlers of \<open>actions_api.py\<close> that execute and revert them. PyJWT and pydantic's validation of
  \<open>ActionTokenPayload\<close> are parameters; the confirmation page is presentation and left out. A database
  error is modelled where the code's own values can cause it (the \<open>::int\<close> cast of the new cap).
\<close>

section \<open>Tokens\<close>

record action_payload =
  ap_action :: string
  ap_workspace_id :: string
  ap_target_id :: "string option"
  ap_jti :: string
  ap_iat :: int
  ap_exp :: int

definition ACTION_TOKEN_TTL :: int where
  "ACTION_TOKEN_TTL = 7200"

definition action_claims :: "action_payload \<Rightarrow> claims" where
  "action_claims p =
     [(''action'', JStr (ap_action p)), (''workspace_id'', JStr (ap_workspace_id p)),
      (''target_id'', case ap_target_id p of None \<Rightarrow> JNull | Some t \<Rightarrow> JStr t), (''jti'', JStr (ap_jti p)),
      (''iat'', JInt (ap_iat p)), (''exp'', JInt (ap_exp p))]"

definition create_action_token ::
    "auth_lib \<Rightarrow> instant \<Rightarrow> string \<Rightarrow> string \<Rightarrow> string \<Rightarrow> string option \<Rightarrow> string" where
  "create_action_token lib now uuid action workspace_id target_id =
     jwt_encode lib (action_claims \<lparr>ap_action = action, ap_workspace_id = workspace_id, ap_target_id = target_id,
       ap_jti = uuid, ap_iat = unix_seconds now, ap_exp = unix_seconds now + ACTION_TOKEN_TTL\<rparr>)"

definition verify_action_token ::
    "auth_lib \<Rightarrow> (claims \<Rightarrow> action_payload option) \<Rightarrow> instant \<Rightarrow> string \<Rightarrow> action_payload option" where
  "verify_action_token lib validate now token =
     (case jwt_decode lib (unix_seconds now) token of None \<Rightarrow> None | Some decoded \<Rightarrow> validate decoded)"

section \<open>State\<close>

record activity_row =
  act_id :: int
  act_workspace_id :: string
  act_action :: string
  act_detail :: "(string \<times> json) list"

record action_db =
  ad_keys :: key_db
  ad_used :: "string table" \<comment> \<open>\<open>used_action_tokens\<close>, primary key jti\<close>
  ad_activity :: "activity_row table"
  ad_next_id :: int \<comment> \<open>the activity table's sequence\<close>

definition consume_action_token :: "string \<Rightarrow> action_db \<Rightarrow> bool \<times> action_db" where
  "consume_action_token jti db =
     (jti \<notin> set (ad_used db), db\<lparr>ad_used := insert_or_ignore id jti (ad_used db)\<rparr>)"

definition log_action_activity :: "string \<Rightarrow> string \<Rightarrow> (string \<times> json) list \<Rightarrow> action_db \<Rightarrow> action_db" where
  "log_action_activity wid action detail db =
     db\<lparr>ad_activity := ad_activity db @ [\<lparr>act_id = ad_next_id db, act_workspace_id = wid,
          act_action = ''action_'' @ action, act_detail = detail\<rparr>], ad_next_id := ad_next_id db + 1\<rparr>"

section \<open>Actions\<close>

definition upd_keys :: "(key_db \<Rightarrow> key_db) \<Rightarrow> action_db \<Rightarrow> action_db" where
  "upd_keys f db = db\<lparr>ad_keys := f (ad_keys db)\<rparr>"

definition upd_workspace :: "string \<Rightarrow> (workspace_row \<Rightarrow> workspace_row) \<Rightarrow> action_db \<Rightarrow> action_db" where
  "upd_workspace wid f db = upd_keys (\<lambda>k. k\<lparr>kd_workspaces := update_where (\<lambda>w. ws_id w = wid) f (kd_workspaces k)\<rparr>) db"

definition handle_pause_api_key :: "instant \<Rightarrow> string \<Rightarrow> string option \<Rightarrow> action_db \<Rightarrow> bool \<times> action_db" where
  "handle_pause_api_key now wid key_id db =
     (if \<not> truthy key_id then (False, db)
      else let p = (\<lambda>r. ak_id r = the key_id \<and> ak_workspace_id r = wid \<and> ak_revoked_at r = None);
               db' = upd_keys (\<lambda>k. k\<lparr>kd_api_keys := update_where p (\<lambda>r. r\<lparr>ak_paused_at := Some now\<rparr>) (kd_api_keys k)\<rparr>) db
           in case find p (kd_api_keys (ad_keys db)) of
                Some r \<Rightarrow> (True, upd_keys (invalidate_api_key_cache (ak_key_hash r)) db')
              | None \<Rightarrow> (False, db'))"

text \<open>\<open>int(cap * 1.5)\<close> truncates toward zero; \<open>$1::int\<close> fails beyond 32 bits.\<close>

definition scaled_cap :: "int \<Rightarrow> int" where
  "scaled_cap c = (if 0 \<le> c then (3 * c) div 2 else - ((- 3 * c) div 2))"

definition fits_int4 :: "int \<Rightarrow> bool" where
  "fits_int4 n \<longleftrightarrow> - (2 ^ 31) \<le> n \<and> n < 2 ^ 31"

definition set_request_cap :: "int option \<Rightarrow> workspace_row \<Rightarrow> workspace_row" where
  "set_request_cap cap w = w\<lparr>ws_limit_overrides :=
     Some ((case ws_limit_overrides w of None \<Rightarrow> no_overrides | Some ov \<Rightarrow> ov)\<lparr>ov_monthly_request_cap := cap\<rparr>)\<rparr>"

datatype action_outcome = Done bool | Database_error

definition handle_increase_budget :: "plan_limits_row table \<Rightarrow> string \<Rightarrow> action_db \<Rightarrow> action_outcome \<times> action_db" where
  "handle_increase_budget plans wid db =
     (case resolve_limits plans (kd_workspaces (ad_keys db)) wid of
        None \<Rightarrow> (Done False, db)
      | Some l \<Rightarrow>
          let current_cap = (case monthly_request_cap l of None \<Rightarrow> 10000 | Some c \<Rightarrow> if c = 0 then 10000 else c);
              new_cap = scaled_cap current_cap
          in if fits_int4 new_cap then (Done True, upd_workspace wid (set_request_cap (Some new_cap)) db)
             else (Database_error, db))"

definition downgrade_entries :: "string \<rightharpoonup> json" where
  "downgrade_entries = [''budget_downgrade'' \<mapsto> JBool True, ''downgrade_threshold_pct'' \<mapsto> JFloat 50]"

definition handle_downgrade_model :: "string \<Rightarrow> action_db \<Rightarrow> bool \<times> action_db" where
  "handle_downgrade_model wid db =
     (True, upd_workspace wid (\<lambda>w. w\<lparr>ws_routing_overrides :=
        Some ((case ws_routing_overrides w of None \<Rightarrow> Map.empty | Some m \<Rightarrow> m) ++ downgrade_entries)\<rparr>) db)"

definition run_action ::
    "plan_limits_row table \<Rightarrow> instant \<Rightarrow> action_payload \<Rightarrow> action_db \<Rightarrow> (http_error + unit) \<times> action_db" where
  "run_action plans now p db =
     (let finish = (\<lambda>(ok, db'). if \<not> ok then (Inl (HTTP 500 ''action_failed''), db')
            else (Inr (), log_action_activity (ap_workspace_id p) (ap_action p)
              [(''target_id'', case ap_target_id p of None \<Rightarrow> JNull | Some t \<Rightarrow> JStr t)] db'))
      in if ap_action p = ''pause_api_key'' then finish (handle_pause_api_key now (ap_workspace_id p) (ap_target_id p) db)
         else if ap_action p = ''increase_budget'' then
           (case handle_increase_budget plans (ap_workspace_id p) db of
              (Database_error, db') \<Rightarrow> (Inl (HTTP 500 ''internal_error''), db')
            | (Done ok, db') \<Rightarrow> finish (ok, db'))
         else if ap_action p = ''downgrade_model'' then finish (handle_downgrade_model (ap_workspace_id p) db)
         else (Inl (HTTP 400 ''unknown_action''), db))"

definition execute_action ::
    "auth_lib \<Rightarrow> (claims \<Rightarrow> action_payload option) \<Rightarrow> plan_limits_row table \<Rightarrow> instant \<Rightarrow> string option \<Rightarrow> action_db
       \<Rightarrow> (http_error + unit) \<times> action_db" where
  "execute_action lib validate plans now token db =
     (if \<not> truthy token then (Inl (HTTP 400 ''missing_token''), db)
      else case verify_action_token lib validate now (the token) of
             None \<Rightarrow> (Inl (HTTP 400 ''invalid_or_expired_token''), db)
           | Some p \<Rightarrow>
               (case consume_action_token (ap_jti p) db of
                  (False, db') \<Rightarrow> (Inl (HTTP 400 ''token_already_consumed''), db')
                | (True, db') \<Rightarrow> run_action plans now p db'))"

section \<open>Reverting\<close>

text \<open>\<open>activity_id\<close> is \<open>int(body.original_activity_id)\<close>, \<open>None\<close> when that raises.\<close>

definition revert_action ::
    "string \<Rightarrow> int option \<Rightarrow> token_payload \<Rightarrow> action_db \<Rightarrow> (http_error + unit) \<times> action_db" where
  "revert_action action activity_id token db =
     (case require_role ''admin'' token of
        Inl e \<Rightarrow> (Inl e, db)
      | Inr _ \<Rightarrow>
        (let wid = tp_workspace_id token in
         case activity_id of
           None \<Rightarrow> (Inl (HTTP 400 ''invalid_activity_id''), db)
         | Some aid \<Rightarrow>
           (case find (\<lambda>a. act_id a = aid \<and> act_workspace_id a = wid) (ad_activity db) of
              None \<Rightarrow> (Inl (HTTP 404 ''activity_not_found''), db)
            | Some original \<Rightarrow>
              let logged = (\<lambda>db'. (Inr (), log_action_activity wid action [(''reverted_id'', JInt aid)] db')) in
              if action = ''unpause_api_key'' then
                (case map_of (act_detail original) ''target_id'' of
                   Some (JStr key_id) \<Rightarrow>
                     if key_id = [] then (Inl (HTTP 400 ''missing_target_key''), db)
                     else let p = (\<lambda>r. ak_id r = key_id \<and> ak_workspace_id r = wid);
                              db' = upd_keys (\<lambda>k. k\<lparr>kd_api_keys :=
                                update_where p (\<lambda>r. r\<lparr>ak_paused_at := None\<rparr>) (kd_api_keys k)\<rparr>) db
                          in (case find p (kd_api_keys (ad_keys db)) of
                                Some r \<Rightarrow> logged (upd_keys (invalidate_api_key_cache (ak_key_hash r)) db')
                              | None \<Rightarrow> (Inl (HTTP 500 ''revert_failed''), db'))
                 | Some j \<Rightarrow> if json_truthy j then (Inl (HTTP 500 ''internal_error''), db)
                             else (Inl (HTTP 400 ''missing_target_key''), db)
                 | None \<Rightarrow> (Inl (HTTP 400 ''missing_target_key''), db))
              else if action = ''revert_budget'' then
                logged (upd_workspace wid (\<lambda>w. w\<lparr>ws_limit_overrides :=
                  map_option (\<lambda>ov. ov\<lparr>ov_monthly_request_cap := None\<rparr>) (ws_limit_overrides w)\<rparr>) db)
              else if action = ''revert_downgrade'' then
                logged (upd_workspace wid (\<lambda>w. w\<lparr>ws_routing_overrides :=
                  map_option (\<lambda>m. m(''budget_downgrade'' := None, ''downgrade_threshold_pct'' := None)) (ws_routing_overrides w)\<rparr>) db)
              else (Inl (HTTP 400 ''unsupported_revert_action''), db))))"

section \<open>Lemmas\<close>

lemma upd_keys_simps [simp]:
  "ad_keys (upd_keys f db) = f (ad_keys db)" "ad_used (upd_keys f db) = ad_used db"
  "ad_activity (upd_keys f db) = ad_activity db"
  by (simp_all add: upd_keys_def)

lemma upd_workspace_simps [simp]:
  "kd_workspaces (ad_keys (upd_workspace wid f db)) = update_where (\<lambda>w. ws_id w = wid) f (kd_workspaces (ad_keys db))"
  "ad_used (upd_workspace wid f db) = ad_used db" "ad_activity (upd_workspace wid f db) = ad_activity db"
  by (simp_all add: upd_workspace_def)

lemma log_simps [simp]:
  "ad_keys (log_action_activity wid a d db) = ad_keys db" "ad_used (log_action_activity wid a d db) = ad_used db"
  by (simp_all add: log_action_activity_def)

lemma run_action_used: "ad_used (snd (run_action plans now p db)) = ad_used db"
  by (auto simp: run_action_def handle_pause_api_key_def handle_increase_budget_def handle_downgrade_model_def Let_def
      split: option.split prod.split action_outcome.split)

lemma revert_used: "ad_used (snd (revert_action a i t db)) = ad_used db"
  by (auto simp: revert_action_def Let_def split: option.split sum.split json.split)

lemma set_insert_or_ignore: "set (insert_or_ignore id j t) = insert j (set t)"
  by (auto simp: insert_or_ignore_def)

lemma resolve_update_workspace:
  assumes "lookup_key ws_id wid wss = Some w" "lookup_key pl_plan (ws_plan w) plans = Some pl"
    and "\<And>w. ws_id (f w) = ws_id w" "\<And>w. ws_plan (f w) = ws_plan w"
  shows "resolve_limits plans (update_where (\<lambda>w. ws_id w = wid) f wss) wid = Some (merged_limits (f w) pl)"
  using assms lookup_key_SomeD[OF assms(1)] by (simp add: resolve_limits_def lookup_update_where)

section \<open>Runs\<close>

datatype action_event = Execute instant "string option" | Revert string "int option" token_payload

fun action_step :: "auth_lib \<Rightarrow> (claims \<Rightarrow> action_payload option) \<Rightarrow> plan_limits_row table \<Rightarrow> action_event \<Rightarrow> action_db \<Rightarrow> action_db" where
  "action_step lib validate plans (Execute now token) db = snd (execute_action lib validate plans now token db)"
| "action_step lib validate plans (Revert a i t) db = snd (revert_action a i t db)"

lemma action_step_used: "set (ad_used db) \<subseteq> set (ad_used (action_step lib validate plans e db))"
proof (cases e)
  case (Execute now token)
  then show ?thesis
    by (auto simp: execute_action_def consume_action_token_def run_action_used set_insert_or_ignore
        split: option.split bool.split)
qed (simp add: revert_used)

interpretation used_token: absorbing_system "action_step lib validate plans" "\<lambda>_. True" "\<lambda>_. True" "\<lambda>db. jti \<in> set (ad_used db)"
  for lib validate plans jti
  by unfold_locales (use action_step_used in blast)+

section \<open>Properties\<close>

text \<open>C17: 
  An action link works once. Whatever the first use did, with success or with an error after the
  token was read, every later use of a token with the same id, in any state the service reaches, is
  refused as already consumed (or as expired) and changes nothing but the record of used ids.
\<close>

theorem action_token_single_use:
  assumes "verify_action_token lib validate now tok = Some p" "tok \<noteq> []"
    and "verify_action_token lib validate now' tok' = Some p'" "tok' \<noteq> []" "ap_jti p' = ap_jti p"
  shows "let db2 = run_steps (action_step lib validate plans) es (snd (execute_action lib validate plans now (Some tok) db))
    in execute_action lib validate plans now' (Some tok') db2 = (Inl (HTTP 400 ''token_already_consumed''), db2)"
proof -
  let ?db1 = "snd (execute_action lib validate plans now (Some tok) db)"
  have "ap_jti p \<in> set (ad_used ?db1)"
    using assms(1,2)
    by (auto simp: execute_action_def consume_action_token_def run_action_used set_insert_or_ignore split: bool.split)
  then have "ap_jti p \<in> set (ad_used (run_steps (action_step lib validate plans) es ?db1))"
    by (rule used_token.run_absorbed[OF TrueI]) simp
  with assms(3-5) show ?thesis
    by (simp add: execute_action_def consume_action_token_def insert_or_ignore_def)
qed

definition demo_payload :: action_payload where
  "demo_payload = \<lparr>ap_action = ''increase_budget'', ap_workspace_id = ''w1'', ap_target_id = None, ap_jti = ''j1'',
     ap_iat = 0, ap_exp = 7200\<rparr>"

definition demo_actions :: action_db where
  "demo_actions = \<lparr>ad_keys = legacy_db, ad_used = [], ad_activity = [], ad_next_id = 1\<rparr>"

lemma demo_action_token: "verify_action_token demo_lib (\<lambda>c. Some demo_payload) 5 ''s'' = Some demo_payload"
  by (simp add: verify_action_token_def demo_lib_def unix_seconds_def)

theorem action_token_single_use_witness:
  "fst (execute_action demo_lib (\<lambda>c. Some demo_payload) plan_limits_seed 5 (Some ''s'')
     (snd (execute_action demo_lib (\<lambda>c. Some demo_payload) plan_limits_seed 5 (Some ''s'') demo_actions))) =
   Inl (HTTP 400 ''token_already_consumed'')"
  using action_token_single_use[OF demo_action_token _ demo_action_token, of plan_limits_seed "[]" demo_actions]
  by (simp add: Let_def)

text \<open>
  The emergency raise of the request cap multiplies a positive cap by one and a half, rounded down,
  for every later quota check of that workspace. A workspace without a cap, which the plan tables
  define as unlimited, comes out of the same action with a cap of 15000.
\<close>

theorem increase_budget_effect:
  assumes "lookup_key ws_id wid (kd_workspaces (ad_keys db)) = Some w" "lookup_key pl_plan (ws_plan w) plans = Some pl"
    and "handle_increase_budget plans wid db = (Done True, db')"
    and "resolve_limits plans (kd_workspaces (ad_keys db)) wid = Some l"
  shows "\<exists>l'. resolve_limits plans (kd_workspaces (ad_keys db')) wid = Some l' \<and>
    (\<forall>c > 0. monthly_request_cap l = Some c \<longrightarrow> monthly_request_cap l' = Some (3 * c div 2)) \<and>
    (monthly_request_cap l = None \<longrightarrow> monthly_request_cap l' = Some 15000)"
proof -
  define cap where "cap = (case monthly_request_cap l of None \<Rightarrow> 10000 | Some c \<Rightarrow> if c = 0 then 10000 else c)"
  have db': "db' = upd_workspace wid (set_request_cap (Some (scaled_cap cap))) db"
    using assms(3,4) by (auto simp: handle_increase_budget_def Let_def cap_def split: if_splits)
  have "resolve_limits plans (kd_workspaces (ad_keys db')) wid = Some (merged_limits (set_request_cap (Some (scaled_cap cap)) w) pl)"
    unfolding db' upd_workspace_simps
    by (rule resolve_update_workspace[OF assms(1,2)]) (simp_all add: set_request_cap_def)
  moreover have "monthly_request_cap (merged_limits (set_request_cap (Some (scaled_cap cap)) w) pl) = Some (scaled_cap cap)"
    by (simp add: merged_request_cap override_entry_def set_request_cap_def)
  ultimately show ?thesis by (auto simp: cap_def scaled_cap_def)
qed

lemma demo_ws_lookup: "lookup_key ws_id ''w1'' (kd_workspaces (ad_keys demo_actions)) = Some demo_ws"
  by (simp add: demo_actions_def legacy_db_eq lookup_key_def demo_ws_def)

lemma demo_limits: "resolve_limits plan_limits_seed (kd_workspaces (ad_keys demo_actions)) ''w1'' =
    Some (merged_limits demo_ws (plan_limits_seed ! 0))"
  using demo_ws_lookup demo_plan by (simp add: resolve_limits_def)

lemma demo_cap: "monthly_request_cap (merged_limits demo_ws (plan_limits_seed ! 0)) = Some 10000"
  by (simp add: merged_request_cap override_entry_def demo_ws_def plan_limits_seed_def)

lemma demo_increase: "handle_increase_budget plan_limits_seed ''w1'' demo_actions =
    (Done True, upd_workspace ''w1'' (set_request_cap (Some 15000)) demo_actions)"
  by (simp add: handle_increase_budget_def demo_limits demo_cap scaled_cap_def fits_int4_def)

theorem increase_budget_effect_witness:
  "\<exists>l'. resolve_limits plan_limits_seed
      (kd_workspaces (ad_keys (upd_workspace ''w1'' (set_request_cap (Some 15000)) demo_actions))) ''w1'' = Some l' \<and>
     monthly_request_cap l' = Some 15000"
  using increase_budget_effect[OF demo_ws_lookup demo_plan demo_increase demo_limits] demo_cap by auto

text \<open>
  Reverting the raise restores the effective cap exactly when the workspace had no cap override of
  its own before: an override that was already there is not restored but dropped, and the plan's cap
  applies.
\<close>

theorem revert_budget_restores:
  assumes "lookup_key ws_id wid (kd_workspaces (ad_keys db)) = Some w" "lookup_key pl_plan (ws_plan w) plans = Some pl"
    and "handle_increase_budget plans wid db = (Done True, db1)"
    and "tp_workspace_id t = wid" "ad_keys db2 = ad_keys db1"
    and "revert_action ''revert_budget'' (Some aid) t db2 = (Inr (), db3)"
  shows "map_option monthly_request_cap (resolve_limits plans (kd_workspaces (ad_keys db3)) wid) = Some (pl_monthly_request_cap pl) \<and>
    (override_entry ov_monthly_request_cap w = None \<longrightarrow>
      map_option monthly_request_cap (resolve_limits plans (kd_workspaces (ad_keys db3)) wid) =
      map_option monthly_request_cap (resolve_limits plans (kd_workspaces (ad_keys db)) wid))"
proof -
  obtain cap where db1: "db1 = upd_workspace wid (set_request_cap (Some cap)) db"
    using assms(3) by (auto simp: handle_increase_budget_def Let_def split: option.splits if_splits)
  let ?clear = "\<lambda>w. w\<lparr>ws_limit_overrides := map_option (\<lambda>ov. ov\<lparr>ov_monthly_request_cap := None\<rparr>) (ws_limit_overrides w)\<rparr>"
  have db3: "kd_workspaces (ad_keys db3) = update_where (\<lambda>w. ws_id w = wid) ?clear (kd_workspaces (ad_keys db1))"
    using assms(4,5,6) by (auto simp: revert_action_def Let_def split: sum.splits option.splits)
  let ?w1 = "set_request_cap (Some cap) w"
  have l1: "lookup_key ws_id wid (kd_workspaces (ad_keys db1)) = Some ?w1"
    using assms(1) lookup_key_SomeD[OF assms(1)] by (simp add: db1 lookup_update_where set_request_cap_def)
  have "resolve_limits plans (kd_workspaces (ad_keys db3)) wid = Some (merged_limits (?clear ?w1) pl)"
    unfolding db3 by (rule resolve_update_workspace[OF l1]) (use assms(2) in \<open>simp_all add: set_request_cap_def\<close>)
  moreover have "monthly_request_cap (merged_limits (?clear ?w1) pl) = pl_monthly_request_cap pl"
    by (simp add: merged_request_cap override_entry_def set_request_cap_def)
  moreover have "resolve_limits plans (kd_workspaces (ad_keys db)) wid = Some (merged_limits w pl)"
    using assms(1,2) by (simp add: resolve_limits_def)
  ultimately show ?thesis by (simp add: merged_request_cap)
qed

theorem revert_budget_restores_witness:
  "\<exists>db3. revert_action ''revert_budget'' (Some 1) demo_token
      (log_action_activity ''w1'' ''increase_budget'' [(''target_id'', JNull)]
         (upd_workspace ''w1'' (set_request_cap (Some 15000)) demo_actions)) = (Inr (), db3) \<and>
     map_option monthly_request_cap (resolve_limits plan_limits_seed (kd_workspaces (ad_keys db3)) ''w1'') = Some (Some 10000)"
proof -
  let ?db2 = "log_action_activity ''w1'' ''increase_budget'' [(''target_id'', JNull)]
         (upd_workspace ''w1'' (set_request_cap (Some 15000)) demo_actions)"
  have "require_role ''admin'' demo_token = Inr ()"
    by (simp add: require_role_def demo_token_def dict_get_def ROLE_HIERARCHY_def)
  moreover have "ad_activity ?db2 = [\<lparr>act_id = 1, act_workspace_id = ''w1'', act_action = ''action_increase_budget'',
      act_detail = [(''target_id'', JNull)]\<rparr>]"
    by (simp add: log_action_activity_def demo_actions_def upd_workspace_def upd_keys_def)
  ultimately obtain db3 where r: "revert_action ''revert_budget'' (Some 1) demo_token ?db2 = (Inr (), db3)"
    by (simp add: revert_action_def demo_token_def Let_def)
  have "pl_monthly_request_cap (plan_limits_seed ! 0) = Some 10000" by (simp add: plan_limits_seed_def)
  with revert_budget_restores[OF demo_ws_lookup demo_plan demo_increase _ _ r] r show ?thesis
    by (simp add: demo_token_def)
qed

end
