(* ===== verification/Accounts.thy ===== *)
theory Accounts
  imports Sessions Api_Keys
begin

text \<open>
  Accounts of the hosted service (\<open>burnlens_cloud/auth.py\<close>): creating users and memberships, sign-up,
  password reset, e-mail verification and invitations. Random identifiers and tokens are arguments;
  e-mails that are sent are left out. Whether the database driver returns offset-aware datetimes
  for TIMESTAMPTZ columns is the parameter \<open>tz_aware\<close> (asyncpg's documentation says it does);
  comparing such a value with \<open>datetime.utcnow()\<close> raises \<open>TypeError\<close> in Python.
\<close>

section \<open>Users and memberships\<close>

definition enc_opt :: "auth_lib \<Rightarrow> string option \<Rightarrow> string option" where
  "enc_opt lib v = (if truthy v then encrypt_pii (fernet_encrypt lib) v else None)"

definition hash_opt :: "auth_lib \<Rightarrow> string option \<Rightarrow> string option" where
  "hash_opt lib v = (if truthy v then lookup_hash (hmac_hex lib) v else None)"

text \<open>\<open>SELECT id FROM users WHERE column = $1\<close>: a NULL parameter matches no row.\<close>

definition select_user :: "(user_row \<Rightarrow> string option) \<Rightarrow> string option \<Rightarrow> identity_db \<Rightarrow> user_row option" where
  "select_user col h db = (case h of None \<Rightarrow> None | Some _ \<Rightarrow> find (\<lambda>u. col u = h) (id_users db))"

definition set_user :: "string \<Rightarrow> (user_row \<Rightarrow> user_row) \<Rightarrow> identity_db \<Rightarrow> identity_db" where
  "set_user uid f db = db\<lparr>id_users := update_where (\<lambda>u. u_id u = uid) f (id_users db)\<rparr>"

definition upsert_user ::
    "auth_lib \<Rightarrow> string \<Rightarrow> instant \<Rightarrow> string \<Rightarrow> string option \<Rightarrow> string option \<Rightarrow> string option \<Rightarrow> string option
       \<Rightarrow> identity_db \<Rightarrow> string \<times> identity_db" where
  "upsert_user lib new_id now email name password google_id github_id db =
     (let password_hash = (if truthy password then Some (hashpw lib (the password)) else None);
          google_h = hash_opt lib google_id; github_h = hash_opt lib github_id; email_h = hash_opt lib (Some email);
          by_google = (if truthy google_id then select_user u_google_id_hash google_h db else None);
          by_github = (if truthy github_id then select_user u_github_id_hash github_h db else None)
      in case by_google of
           Some u \<Rightarrow> (u_id u, db)
         | None \<Rightarrow>
             (case by_github of
                Some u \<Rightarrow> (u_id u, db)
              | None \<Rightarrow>
                  (case select_user u_email_hash email_h db of
                     Some u \<Rightarrow>
                       (u_id u, set_user (u_id u)
                          (\<lambda>u. (if truthy password_hash then u\<lparr>u_password_hash := password_hash\<rparr> else u)
                             \<lparr>u_google_id_encrypted := if truthy google_id then enc_opt lib google_id else u_google_id_encrypted u,
                              u_google_id_hash := if truthy google_id then google_h else u_google_id_hash u,
                              u_github_id_encrypted := if truthy github_id then enc_opt lib github_id else u_github_id_encrypted u,
                              u_github_id_hash := if truthy github_id then github_h else u_github_id_hash u\<rparr>) db)
                   | None \<Rightarrow>
                       (new_id, db\<lparr>id_users := id_users db @
                          [\<lparr>u_id = new_id, u_name = name, u_password_hash = password_hash, u_created_at = now,
                            u_email_encrypted = enc_opt lib (Some email), u_email_hash = email_h,
                            u_google_id_encrypted = enc_opt lib google_id, u_google_id_hash = google_h,
                            u_github_id_encrypted = enc_opt lib github_id, u_github_id_hash = github_h,
                            u_email_verified_at = None, u_last_login = None, totp_secret_encrypted = None,
                            totp_confirmed_at = None, totp_last_step = None, totp_failed_attempts = 0,
                            totp_locked_until = None\<rparr>]\<rparr>))))"

definition ensure_workspace_member ::
    "string \<Rightarrow> instant \<Rightarrow> string \<Rightarrow> string \<Rightarrow> string \<Rightarrow> identity_db \<Rightarrow> string \<times> identity_db" where
  "ensure_workspace_member new_id now wid uid role db =
     (case find (\<lambda>m. wm_workspace_id m = wid \<and> wm_user_id m = uid \<and> wm_active m) (id_members db) of
        Some m \<Rightarrow> (wm_role m, db)
      | None \<Rightarrow> (role, db\<lparr>id_members := id_members db @
          [\<lparr>wm_id = new_id, wm_workspace_id = wid, wm_user_id = uid, wm_role = role, wm_joined_at = now,
            wm_active = True\<rparr>]\<rparr>))"

definition auto_migrate_user_for_workspace ::
    "auth_lib \<Rightarrow> string \<Rightarrow> string \<Rightarrow> instant \<Rightarrow> string \<Rightarrow> string \<Rightarrow> identity_db \<Rightarrow> (string \<times> string) option \<times> identity_db" where
  "auto_migrate_user_for_workspace lib uid0 mid0 now wid owner_email db =
     (if \<exists>m \<in> set (id_members db). wm_workspace_id m = wid then (None, db)
      else let (uid, db1) = upsert_user lib uid0 now owner_email None None None None db;
               (role, db2) = ensure_workspace_member mid0 now wid uid ''owner'' db1
           in (Some (uid, role), db2))"

section \<open>Sign-up\<close>

record signup_random =
  sr_workspace_id :: string
  sr_user_id :: string
  sr_member_id :: string
  sr_api_key :: string \<comment> \<open>the random part of the key\<close>
  sr_verify_token :: string

record signup_result =
  su_api_key :: string
  su_workspace_id :: string
  su_token :: string

definition signup ::
    "auth_lib \<Rightarrow> signup_random \<Rightarrow> instant \<Rightarrow> string \<Rightarrow> string \<Rightarrow> string \<Rightarrow> identity_db \<Rightarrow> (http_error + signup_result) \<times> identity_db" where
  "signup lib rnd now email password workspace_name db =
     (let email_norm = lower (strip email)
      in if length password < 8 then (Inl (HTTP 400 ''Password must be at least 8 characters''), db)
         else if length password > 128 then (Inl (HTTP 400 ''Password too long (max 128 chars)''), db)
         else case find (\<lambda>u. u_email_hash u = lookup_hash (hmac_hex lib) (Some email_norm)) (id_users db) of
           Some u \<Rightarrow> (Inl (HTTP 409 ''An account with this email already exists. Please sign in.''), db)
         | None \<Rightarrow>
             let api_key = generate_api_key (sr_api_key rnd);
                 ws = \<lparr>ws_id = sr_workspace_id rnd, ws_name = workspace_name, ws_plan = ''free'', ws_active = True,
                       ws_owner_email_encrypted = encrypt_pii (fernet_encrypt lib) (Some email_norm),
                       ws_owner_email_hash = lookup_hash (hmac_hex lib) (Some email_norm),
                       ws_api_key_hash = Some (sha256_hex lib api_key),
                       ws_api_key_last4 = Some (drop (length api_key - 4) api_key), ws_created_at = now,
                       ws_limit_overrides = None, ws_routing_overrides = None\<rparr>;
                 db1 = db\<lparr>id_workspaces := id_workspaces db @ [ws]\<rparr>;
                 (uid, db2) = upsert_user lib (sr_user_id rnd) now email_norm (Some (hd (split_on CHR ''@'' email_norm)))
                                (Some password) None None db1;
                 (role, db3) = ensure_workspace_member (sr_member_id rnd) now (sr_workspace_id rnd) uid ''owner'' db2;
                 db4 = db3\<lparr>id_auth_tokens := id_auth_tokens db3 @
                   [\<lparr>at_user_id = uid, at_type = ''email_verification'',
                     at_token_hash = sha256_hex lib (sr_verify_token rnd),
                     at_expires_at = now + 24 * 3600 * 1000000, at_used_at = None\<rparr>]\<rparr>
             in (Inr \<lparr>su_api_key = api_key, su_workspace_id = sr_workspace_id rnd,
                    su_token = encode_jwt lib now (sr_workspace_id rnd) uid ''owner'' ''free'' False\<rparr>, db4))"

section \<open>One-time tokens\<close>

definition live_token :: "string \<Rightarrow> string \<Rightarrow> instant \<Rightarrow> auth_token_row \<Rightarrow> bool" where
  "live_token typ h now t \<longleftrightarrow> at_token_hash t = h \<and> at_type t = typ \<and> at_used_at t = None \<and> at_expires_at t > now"

text \<open>\<open>UPDATE auth_tokens SET used_at = now() WHERE ... RETURNING user_id\<close>.\<close>

definition claim_token :: "string \<Rightarrow> string \<Rightarrow> instant \<Rightarrow> identity_db \<Rightarrow> string option \<times> identity_db" where
  "claim_token typ h now db =
     (map_option at_user_id (find (live_token typ h now) (id_auth_tokens db)),
      db\<lparr>id_auth_tokens := update_where (live_token typ h now) (\<lambda>t. t\<lparr>at_used_at := Some now\<rparr>) (id_auth_tokens db)\<rparr>)"

definition supersede_tokens :: "string \<Rightarrow> string \<Rightarrow> instant \<Rightarrow> identity_db \<Rightarrow> identity_db" where
  "supersede_tokens uid typ now db = db\<lparr>id_auth_tokens := update_where
     (\<lambda>t. at_user_id t = uid \<and> at_type t = typ \<and> at_used_at t = None) (\<lambda>t. t\<lparr>at_used_at := Some now\<rparr>) (id_auth_tokens db)\<rparr>"

definition issue_token :: "auth_lib \<Rightarrow> string \<Rightarrow> string \<Rightarrow> string \<Rightarrow> instant \<Rightarrow> identity_db \<Rightarrow> identity_db" where
  "issue_token lib uid typ raw expires db = db\<lparr>id_auth_tokens := id_auth_tokens db @
     [\<lparr>at_user_id = uid, at_type = typ, at_token_hash = sha256_hex lib raw, at_expires_at = expires, at_used_at = None\<rparr>]\<rparr>"

text \<open>The answer of a reset request is the same for every address; a failing decryption surfaces as 500.\<close>

definition request_password_reset ::
    "auth_lib \<Rightarrow> string \<Rightarrow> instant \<Rightarrow> string \<Rightarrow> identity_db \<Rightarrow> (http_error + unit) \<times> identity_db" where
  "request_password_reset lib raw now email db =
     (case find (\<lambda>u. u_email_hash u = lookup_hash (hmac_hex lib) (Some (lower (strip email)))) (id_users db) of
        None \<Rightarrow> (Inr (), db)
      | Some u \<Rightarrow>
          (case decrypt_pii (fernet_decrypt lib) (u_email_encrypted u) of
             Inl e \<Rightarrow> (Inl (HTTP 500 ''Internal Server Error''), db)
           | Inr _ \<Rightarrow> (Inr (), issue_token lib (u_id u) ''password_reset'' raw (now + 3600 * 1000000)
                (supersede_tokens (u_id u) ''password_reset'' now db))))"

definition confirm_password_reset ::
    "auth_lib \<Rightarrow> instant \<Rightarrow> string \<Rightarrow> string \<Rightarrow> identity_db \<Rightarrow> (http_error + unit) \<times> identity_db" where
  "confirm_password_reset lib now raw new_password db =
     (if length new_password < 8 then (Inl (HTTP 400 ''Password must be at least 8 characters''), db)
      else if length new_password > 128 then (Inl (HTTP 400 ''Password too long (max 128 chars)''), db)
      else case claim_token ''password_reset'' (sha256_hex lib raw) now db of
             (None, db') \<Rightarrow> (Inl (HTTP 400 ''Reset link is invalid or has expired.''), db')
           | (Some uid, db') \<Rightarrow>
               let db'' = set_user uid (\<lambda>u. u\<lparr>u_password_hash := Some (hashpw lib new_password)\<rparr>) db'
               in (case find (\<lambda>u. u_id u = uid) (id_users db'') of
                     None \<Rightarrow> (Inr (), db'')
                   | Some u \<Rightarrow>
                       if truthy (u_email_encrypted u) \<and> (\<exists>e. decrypt_pii (fernet_decrypt lib) (u_email_encrypted u) = Inl e)
                       then (Inl (HTTP 500 ''Internal Server Error''), db'') else (Inr (), db'')))"

definition verify_email :: "auth_lib \<Rightarrow> instant \<Rightarrow> string \<Rightarrow> identity_db \<Rightarrow> (http_error + unit) \<times> identity_db" where
  "verify_email lib now raw db =
     (case claim_token ''email_verification'' (sha256_hex lib raw) now db of
        (None, db') \<Rightarrow> (Inl (HTTP 400 ''Verification link is invalid or has expired.''), db')
      | (Some uid, db') \<Rightarrow> (Inr (), set_user uid (\<lambda>u. u\<lparr>u_email_verified_at := Some now\<rparr>) db'))"

definition resend_verification :: "auth_lib \<Rightarrow> string \<Rightarrow> instant \<Rightarrow> string \<Rightarrow> identity_db \<Rightarrow> identity_db" where
  "resend_verification lib raw now uid db =
     (case lookup_key u_id uid (id_users db) of
        None \<Rightarrow> db
      | Some u \<Rightarrow>
          if u_email_verified_at u \<noteq> None \<or> u_email_encrypted u = None
             \<or> (\<exists>e. decrypt_pii (fernet_decrypt lib) (u_email_encrypted u) = Inl e) then db
          else issue_token lib uid ''email_verification'' raw (now + 24 * 3600 * 1000000)
                 (supersede_tokens uid ''email_verification'' now db))"

section \<open>Invitations\<close>

datatype invite_result = Joined | Redirect_to_signup

definition accept_invitation ::
    "auth_lib \<Rightarrow> bool \<Rightarrow> string \<Rightarrow> instant \<Rightarrow> string \<Rightarrow> string option \<Rightarrow> identity_db \<Rightarrow> (http_error + invite_result) \<times> identity_db" where
  "accept_invitation lib tz_aware member_id now raw authorization db =
     (case find (\<lambda>i. inv_token_hash i = sha256_hex lib raw) (id_invitations db) of
        None \<Rightarrow> (Inl (HTTP 404 ''Invitation not found''), db)
      | Some invn \<Rightarrow>
          if tz_aware then (Inl (HTTP 500 ''Internal Server Error''), db)
          else if inv_expires_at invn < now then (Inl (HTTP 410 ''Invitation has expired''), db)
          else if inv_accepted_at invn \<noteq> None then (Inl (HTTP 410 ''Invitation has already been accepted''), db)
          else if (case authorization of None \<Rightarrow> True | Some h \<Rightarrow> \<not> startswith h ''Bearer '')
          then (Inr Redirect_to_signup, db)
          else (case decode_jwt lib now (drop 7 (the authorization)) of
                  None \<Rightarrow> (Inl (HTTP 401 ''Invalid or expired token''), db)
                | Some p \<Rightarrow>
                    (case lookup_key u_id (tp_user_id p) (id_users db) of
                       None \<Rightarrow> (Inl (HTTP 400 ''User not found''), db)
                     | Some u \<Rightarrow>
                         if u_email_hash u \<noteq> lookup_hash (hmac_hex lib) (Some (inv_email invn))
                         then (if truthy (u_email_encrypted u) \<and> (\<exists>e. decrypt_pii (fernet_decrypt lib) (u_email_encrypted u) = Inl e)
                               then (Inl (HTTP 500 ''Internal Server Error''), db)
                               else (Inl (HTTP 409 ''Invitation email does not match your account email''), db))
                         else let (role, db1) = ensure_workspace_member member_id now (inv_workspace_id invn) (tp_user_id p) (inv_role invn) db
                              in (Inr Joined, db1\<lparr>id_invitations := update_where (\<lambda>i. inv_id i = inv_id invn)
                                    (\<lambda>i. i\<lparr>inv_accepted_at := Some now\<rparr>) (id_invitations db1)\<rparr>))))"

section \<open>Sign-up, then log in\<close>

definition signup_fresh :: "signup_random \<Rightarrow> identity_db \<Rightarrow> bool" where
  "signup_fresh rnd db \<longleftrightarrow> sr_user_id rnd \<notin> u_id ` set (id_users db) \<and>
     sr_workspace_id rnd \<notin> ws_id ` set (id_workspaces db) \<and>
     (\<forall>m \<in> set (id_members db). wm_user_id m \<noteq> sr_user_id rnd)"

text \<open>What bcrypt and Fernet promise of the values sign-up stores.\<close>

definition lib_stores :: "auth_lib \<Rightarrow> string \<Rightarrow> string \<Rightarrow> bool" where
  "lib_stores lib password email \<longleftrightarrow> checkpw lib password (hashpw lib password) \<and> hashpw lib password \<noteq> [] \<and>
     fernet_decrypt lib (fernet_encrypt lib email) = Some email \<and> is_ascii (fernet_encrypt lib email)"

lemma map_filter_Nil: "(\<And>x. x \<in> set xs \<Longrightarrow> f x = None) \<Longrightarrow> List.map_filter f xs = []"
  by (induction xs) (auto simp: map_filter_simps)

lemma map_filter_append: "List.map_filter f (xs @ ys) = List.map_filter f xs @ List.map_filter f ys"
  by (simp add: map_filter_def)

lemma lookup_fresh_snoc: "k \<notin> key ` set t \<Longrightarrow> key r = k \<Longrightarrow> lookup_key key k (t @ [r]) = Some r"
  using lookup_key_None_iff[of key k t] by (simp add: lookup_key_def find_append)

text \<open>The tables a successful sign-up leaves behind.\<close>

lemma signup_tables:
  assumes "signup lib rnd now email password wname db = (Inr res, db')"
    and "signup_fresh rnd db" "lower (strip email) \<noteq> []" "password \<noteq> []"
  obtains u w m where "id_users db' = id_users db @ [u]" "u_id u = sr_user_id rnd"
    "u_email_hash u = lookup_hash (hmac_hex lib) (Some (lower (strip email)))" "u_password_hash u = Some (hashpw lib password)"
    "totp_confirmed_at u = None" "id_workspaces db' = id_workspaces db @ [w]" "ws_id w = sr_workspace_id rnd" "ws_active w"
    "ws_plan w = ''free''" "ws_owner_email_encrypted w = encrypt_pii (fernet_encrypt lib) (Some (lower (strip email)))"
    "ws_api_key_hash w = Some (sha256_hex lib (su_api_key res))" "ws_api_key_last4 w = Some (drop (length (su_api_key res) - 4) (su_api_key res))"
    "id_members db' = id_members db @ [m]" "wm_workspace_id m = sr_workspace_id rnd" "wm_user_id m = sr_user_id rnd"
    "wm_role m = ''owner''" "wm_active m"
    "find (\<lambda>u. u_email_hash u = lookup_hash (hmac_hex lib) (Some (lower (strip email)))) (id_users db) = None"
    "length password \<le> 128"
proof -
  let ?e = "lower (strip email)"
  have none: "find (\<lambda>u. u_email_hash u = lookup_hash (hmac_hex lib) (Some ?e)) (id_users db) = None"
    using assms(1) by (auto simp: signup_def Let_def split: if_splits option.splits)
  have ho: "hash_opt lib (Some ?e) = lookup_hash (hmac_hex lib) (Some ?e)" using assms(3) by (simp add: hash_opt_def)
  have fm: "find (\<lambda>m. wm_workspace_id m = sr_workspace_id rnd \<and> wm_user_id m = sr_user_id rnd \<and> wm_active m) (id_members db) = None"
    using assms(2) by (auto simp: signup_fresh_def find_None_iff)
  have len: "\<not> length password < 8" "\<not> length password > 128"
    using assms(1) by (auto simp: signup_def Let_def split: if_splits)
  show thesis
    by (rule that) (use assms len none ho fm in \<open>auto simp: signup_def Let_def upsert_user_def select_user_def
      ensure_workspace_member_def lookup_hash_def split: prod.splits\<close>)
qed

section \<open>One-time links\<close>

definition token_dead :: "string \<Rightarrow> identity_db \<Rightarrow> bool" where
  "token_dead h db \<longleftrightarrow> (\<forall>t \<in> set (id_auth_tokens db). at_token_hash t = h \<longrightarrow> at_used_at t \<noteq> None)"

datatype account_event =
    Reset_request string instant string
  | Reset_confirm instant string string
  | Verify_email instant string
  | Resend string instant string
  | Signup signup_random instant string string string

fun account_step :: "auth_lib \<Rightarrow> account_event \<Rightarrow> identity_db \<Rightarrow> identity_db" where
  "account_step lib (Reset_request raw now email) db = snd (request_password_reset lib raw now email db)"
| "account_step lib (Reset_confirm now raw pw) db = snd (confirm_password_reset lib now raw pw db)"
| "account_step lib (Verify_email now raw) db = snd (verify_email lib now raw db)"
| "account_step lib (Resend raw now uid) db = resend_verification lib raw now uid db"
| "account_step lib (Signup rnd now email pw ws) db = snd (signup lib rnd now email pw ws db)"

text \<open>The token hash a step may add; the UNIQUE column admits no second row with an existing hash.\<close>

fun minted :: "auth_lib \<Rightarrow> account_event \<Rightarrow> string option" where
  "minted lib (Reset_request raw now email) = Some (sha256_hex lib raw)"
| "minted lib (Resend raw now uid) = Some (sha256_hex lib raw)"
| "minted lib (Signup rnd now email pw ws) = Some (sha256_hex lib (sr_verify_token rnd))"
| "minted lib _ = None"

lemma set_user_tokens [simp]: "id_auth_tokens (set_user uid f db) = id_auth_tokens db"
  by (simp add: set_user_def)

lemma token_dead_set_user [simp]: "token_dead h (set_user uid f db) = token_dead h db"
  by (simp add: token_dead_def)

lemma token_dead_claim: "token_dead h db \<Longrightarrow> token_dead h (snd (claim_token typ k now db))"
  by (auto simp: token_dead_def claim_token_def update_where_def)

lemma token_dead_supersede: "token_dead h db \<Longrightarrow> token_dead h (supersede_tokens uid typ now db)"
  by (auto simp: token_dead_def supersede_tokens_def update_where_def)

lemma token_dead_issue: "token_dead h db \<Longrightarrow> sha256_hex lib raw \<noteq> h \<Longrightarrow> token_dead h (issue_token lib uid typ raw e db)"
  by (auto simp: token_dead_def issue_token_def)

lemma upsert_tokens: "id_auth_tokens (snd (upsert_user lib i now e n p g gh db)) = id_auth_tokens db"
  by (auto simp: upsert_user_def Let_def split: option.split)

lemma ensure_tokens: "id_auth_tokens (snd (ensure_workspace_member i now w u r db)) = id_auth_tokens db"
  by (auto simp: ensure_workspace_member_def split: option.split)

lemma token_dead_step:
  assumes "token_dead h db" "minted lib e \<noteq> Some h"
  shows "token_dead h (account_step lib e db)"
proof (cases e)
  case (Reset_request raw now email)
  with assms show ?thesis
    by (auto simp: request_password_reset_def token_dead_issue token_dead_supersede split: option.split sum.split)
next
  case (Reset_confirm now raw pw)
  with assms token_dead_claim[OF assms(1), of "''password_reset''" "sha256_hex lib raw" now] show ?thesis
    by (auto simp: confirm_password_reset_def Let_def split: prod.split option.split)
next
  case (Verify_email now raw)
  with assms token_dead_claim[OF assms(1), of "''email_verification''" "sha256_hex lib raw" now] show ?thesis
    by (auto simp: verify_email_def split: prod.split option.split)
next
  case (Resend raw now uid)
  with assms show ?thesis
    by (auto simp: resend_verification_def token_dead_issue token_dead_supersede split: option.split)
next
  case (Signup rnd now email pw ws)
  with assms show ?thesis
    using upsert_tokens[of lib] ensure_tokens
    by (auto simp: signup_def Let_def token_dead_def split: option.split prod.split dest!: arg_cong[where f = snd])
qed

interpretation dead_link: absorbing_system "account_step lib" "\<lambda>e. minted lib e \<noteq> Some h" "\<lambda>_. True" "token_dead h"
  for lib h
  by unfold_locales (auto intro: token_dead_step)

lemma dead_claim: "token_dead h db \<Longrightarrow> fst (claim_token typ h now db) = None"
  by (auto simp: token_dead_def claim_token_def find_None_iff live_token_def)

section \<open>Properties\<close>

text \<open>C18: 
  Signing up creates an account one can use: the same address, typed with any case and surrounding
  space, and the same password log in to the new workspace as its owner, and the API key that sign-up
  returned authenticates ingest for that workspace on the free plan.
\<close>

theorem signup_usable:
  assumes su: "signup lib rnd now email password wname db = (Inr res, db')"
    and fresh: "signup_fresh rnd db" and ne: "lower (strip email) \<noteq> []"
    and lib: "lib_stores lib password (lower (strip email))"
    and key: "\<forall>k \<in> set keys. ak_key_hash k \<noteq> sha256_hex lib (su_api_key res)"
      "\<forall>w \<in> set (id_workspaces db). ws_api_key_hash w \<noteq> Some (sha256_hex lib (su_api_key res))"
    and typed: "lower (strip email') = lower (strip email)"
  shows "(\<exists>s. fst (login lib later email' password db') = Inr (Session s) \<and>
      s_workspace_id s = sr_workspace_id rnd \<and> s_role s = ''owner'') \<and>
    fst (get_workspace_by_api_key (sha256_hex lib) later (su_api_key res)
      \<lparr>kd_workspaces = id_workspaces db', kd_api_keys = keys, kd_cache = Map.empty\<rparr>) = Some (sr_workspace_id rnd, ''free'')"
proof -
  have "8 \<le> length password" using su by (auto simp: signup_def Let_def split: if_splits)
  then have pw: "password \<noteq> []" by auto
  obtain u w m where t: "id_users db' = id_users db @ [u]" "u_id u = sr_user_id rnd"
    "u_email_hash u = lookup_hash (hmac_hex lib) (Some (lower (strip email)))" "u_password_hash u = Some (hashpw lib password)"
    "totp_confirmed_at u = None" "id_workspaces db' = id_workspaces db @ [w]" "ws_id w = sr_workspace_id rnd" "ws_active w"
    "ws_plan w = ''free''" "ws_owner_email_encrypted w = encrypt_pii (fernet_encrypt lib) (Some (lower (strip email)))"
    "ws_api_key_hash w = Some (sha256_hex lib (su_api_key res))" "ws_api_key_last4 w = Some (drop (length (su_api_key res) - 4) (su_api_key res))"
    "id_members db' = id_members db @ [m]" "wm_workspace_id m = sr_workspace_id rnd" "wm_user_id m = sr_user_id rnd"
    "wm_role m = ''owner''" "wm_active m"
    "find (\<lambda>u. u_email_hash u = lookup_hash (hmac_hex lib) (Some (lower (strip email)))) (id_users db) = None"
    "length password \<le> 128" by (rule signup_tables[OF su fresh ne pw])
  have fu: "find (\<lambda>u. u_email_hash u = lookup_hash (hmac_hex lib) (Some (lower (strip email')))) (id_users db') = Some u"
    using t(1,3,18) typed by (simp add: find_append)
  have lu: "lookup_key u_id (u_id u) (id_users db') = Some u"
    unfolding t(1) by (rule lookup_fresh_snoc) (use fresh t(2) in \<open>auto simp: signup_fresh_def\<close>)
  let ?db = "stamp_login later (u_id u) db'"
  have ws: "lookup_key ws_id (sr_workspace_id rnd) (id_workspaces db') = Some w"
    unfolding t(6) by (rule lookup_fresh_snoc) (use fresh t(7) in \<open>auto simp: signup_fresh_def\<close>)
  have "List.map_filter (\<lambda>m. case lookup_key ws_id (wm_workspace_id m) (id_workspaces db') of
              None \<Rightarrow> None
            | Some w \<Rightarrow> if wm_user_id m = sr_user_id rnd \<and> wm_active m \<and> ws_active w then Some (m, w) else None) (id_members db) = []"
    by (rule map_filter_Nil) (use fresh in \<open>auto simp: signup_fresh_def split: option.split\<close>)
  then have "first_membership (u_id u) ?db = Some (m, w)"
    using t ws by (simp add: first_membership_def stamp_login_def map_filter_append map_filter_simps)
  moreover have "ws_pii_value lib (ws_owner_email_encrypted w) = Inr (Some (lower (strip email)))"
    using lib decrypt_encrypt[of "fernet_decrypt lib" "fernet_encrypt lib" "lower (strip email)"] ne t(10)
    by (simp add: ws_pii_value_def lib_stores_def encrypt_pii_def VERSION_PREFIX_V1_def)
  ultimately obtain s where "issue_session_for_user lib later (u_id u) ?db = Inr s" "s_workspace_id s = sr_workspace_id rnd" "s_role s = ''owner''"
    using t by (simp add: issue_session_for_user_def Let_def)
  then have log: "\<exists>s. fst (login lib later email' password db') = Inr (Session s) \<and>
      s_workspace_id s = sr_workspace_id rnd \<and> s_role s = ''owner''"
    using fu lu t lib by (simp add: login_def Let_def lib_stores_def)
  let ?h = "sha256_hex lib (su_api_key res)"
  let ?kd = "\<lparr>kd_workspaces = id_workspaces db', kd_api_keys = keys, kd_cache = Map.empty\<rparr>"
  have "find (\<lambda>w. ws_api_key_hash w = Some ?h \<and> ws_active w) (id_workspaces db) = None"
    using key(2) by (auto simp: find_None_iff)
  then have "select_legacy_key ?h ?kd = Some w" using t by (simp add: select_legacy_key_def find_append)
  moreover have "select_live_key ?h ?kd = None"
    using key(1) by (auto simp: select_live_key_def find_None_iff split: option.split dest!: find_Some_setD)
  ultimately have "query_key ?h ?kd = Some (sr_workspace_id rnd, ''free'', None)" using t by (simp add: query_key_def)
  then have "fst (get_workspace_by_api_key (sha256_hex lib) later (su_api_key res) ?kd) = Some (sr_workspace_id rnd, ''free'')"
    by (simp add: get_workspace_by_api_key_def store_key_def Let_def)
  with log show ?thesis by blast
qed

lemma dead_link_refused:
  assumes "token_dead (sha256_hex lib raw) db" "\<forall>e \<in> set es. minted lib e \<noteq> Some (sha256_hex lib raw)"
  shows "fst (confirm_password_reset lib later raw pw (run_steps (account_step lib) es db)) \<noteq> Inr ()"
proof -
  have "token_dead (sha256_hex lib raw) (run_steps (account_step lib) es db)"
    using dead_link.run_absorbed[where s = db and es = es] assms by simp
  from dead_claim[OF this, of "''password_reset''" later] show ?thesis
    by (auto simp: confirm_password_reset_def split: prod.split)
qed

text \<open>
  A password-reset link works once: after it changed the password it is refused for ever, whatever
  accounts, links and verifications are processed in between.
\<close>

theorem reset_link_single_use:
  assumes "confirm_password_reset lib now raw pw db = (Inr (), db')" "pk at_token_hash (id_auth_tokens db)"
    and "\<forall>e \<in> set es. minted lib e \<noteq> Some (sha256_hex lib raw)"
  shows "fst (confirm_password_reset lib later raw pw2 (run_steps (account_step lib) es db')) \<noteq> Inr ()"
proof (rule dead_link_refused[OF _ assms(3)])
  let ?p = "live_token ''password_reset'' (sha256_hex lib raw) now"
  obtain t where t: "find ?p (id_auth_tokens db) = Some t"
    using assms(1) by (auto simp: confirm_password_reset_def claim_token_def Let_def split: if_splits option.splits)
  have "id_auth_tokens db' = update_where ?p (\<lambda>t. t\<lparr>at_used_at := Some now\<rparr>) (id_auth_tokens db)"
    using assms(1) t by (auto simp: confirm_password_reset_def claim_token_def Let_def split: if_splits option.splits)
  moreover have "?p x" if "x \<in> set (id_auth_tokens db)" "at_token_hash x = sha256_hex lib raw" for x
    using find_Some_setD[OF t] pk_inj[OF assms(2) that(1), of t] that(2) by (simp add: live_token_def)
  ultimately show "token_dead (sha256_hex lib raw) db'" by (fastforce simp: token_dead_def update_where_def)
qed

text \<open>
  Requesting a new reset link kills the user's older ones: a link that was still good before the
  request is refused for ever after it.
\<close>

theorem reset_link_superseded:
  assumes "find (\<lambda>u. u_email_hash u = lookup_hash (hmac_hex lib) (Some (lower (strip email)))) (id_users db) = Some u"
    and "t \<in> set (id_auth_tokens db)" "at_token_hash t = sha256_hex lib raw" "at_user_id t = u_id u" "at_type t = ''password_reset''"
    and "request_password_reset lib raw2 now email db = (Inr (), db')" "sha256_hex lib raw2 \<noteq> sha256_hex lib raw"
    and "pk at_token_hash (id_auth_tokens db)" "\<forall>e \<in> set es. minted lib e \<noteq> Some (sha256_hex lib raw)"
  shows "fst (confirm_password_reset lib later raw pw (run_steps (account_step lib) es db')) \<noteq> Inr ()"
proof (rule dead_link_refused[OF _ assms(9)])
  have "db' = issue_token lib (u_id u) ''password_reset'' raw2 (now + 3600 * 1000000) (supersede_tokens (u_id u) ''password_reset'' now db)"
    using assms(1,6) by (auto simp: request_password_reset_def split: sum.splits)
  moreover have "token_dead (sha256_hex lib raw) (supersede_tokens (u_id u) ''password_reset'' now db)"
    using pk_inj[OF assms(8) _ assms(2)] assms(3-5) by (fastforce simp: token_dead_def supersede_tokens_def update_where_def)
  ultimately show "token_dead (sha256_hex lib raw) db'" using assms(7) by (simp add: token_dead_issue)
qed

text \<open>
  With a driver that returns offset-aware datetimes, no invitation can be accepted: the expiry check
  compares such a value with a naive one, so every request with a known token ends in a server error
  and nobody joins.
\<close>

theorem invitation_never_accepted:
  "fst (accept_invitation lib True member_id now raw authorization db) \<noteq> Inr r \<and>
   snd (accept_invitation lib True member_id now raw authorization db) = db"
  by (simp add: accept_invitation_def split: option.split)

subsection \<open>A concrete account\<close>

definition demo_random :: signup_random where
  "demo_random = \<lparr>sr_workspace_id = ''w9'', sr_user_id = ''u9'', sr_member_id = ''m9'', sr_api_key = ''ab12'', sr_verify_token = ''v''\<rparr>"

lemma demo_signup_ok: "\<exists>res db'. signup demo_lib demo_random 5 ''Eve@x.io'' ''password1'' ''Acme'' demo_identity = (Inr res, db') \<and>
    su_api_key res = ''bl_live_ab12''"
proof -
  have "find (\<lambda>u. u_email_hash u = lookup_hash (hmac_hex demo_lib) (Some (lower (strip ''Eve@x.io'')))) (id_users demo_identity) = None"
    by code_simp
  then show ?thesis
    by (auto simp: signup_def Let_def generate_api_key_def demo_random_def split: prod.split)
qed

lemma demo_lib_stores: "lib_stores demo_lib p e"  if "p \<noteq> []" for p e
  using that by (simp add: lib_stores_def demo_lib_def hex_roundtrip hex_ascii)

theorem signup_usable_witness:
  "\<exists>res db' s. signup demo_lib demo_random 5 ''Eve@x.io'' ''password1'' ''Acme'' demo_identity = (Inr res, db') \<and>
     fst (login demo_lib 9 '' EVE@X.IO '' ''password1'' db') = Inr (Session s) \<and> s_role s = ''owner''"
proof -
  obtain res db' where su: "signup demo_lib demo_random 5 ''Eve@x.io'' ''password1'' ''Acme'' demo_identity = (Inr res, db')"
    "su_api_key res = ''bl_live_ab12''" using demo_signup_ok by blast
  have "signup_fresh demo_random demo_identity"
    by (simp add: signup_fresh_def demo_random_def demo_identity_def demo_user_def demo_ws_def)
  moreover have "lower (strip ''Eve@x.io'') \<noteq> []" by code_simp
  moreover have "lib_stores demo_lib ''password1'' (lower (strip ''Eve@x.io''))" by (rule demo_lib_stores) simp
  moreover have "\<forall>k \<in> set ([] :: api_key_row list). ak_key_hash k \<noteq> sha256_hex demo_lib (su_api_key res)" by simp
  moreover have "\<forall>w \<in> set (id_workspaces demo_identity). ws_api_key_hash w \<noteq> Some (sha256_hex demo_lib (su_api_key res))"
    by (simp add: demo_identity_def demo_ws_def su(2) demo_lib_def)
  moreover have "lower (strip '' EVE@X.IO '') = lower (strip ''Eve@x.io'')" by code_simp
  ultimately show ?thesis using signup_usable[OF su(1), of "[]" "'' EVE@X.IO ''" 9] su(1) by blast
qed

definition reset_row :: auth_token_row where
  "reset_row = \<lparr>at_user_id = ''u1'', at_type = ''password_reset'', at_token_hash = ''r1'', at_expires_at = 100, at_used_at = None\<rparr>"

definition reset_db :: identity_db where
  "reset_db = demo_identity\<lparr>id_auth_tokens := [reset_row]\<rparr>"

lemma reset_db_pk: "pk at_token_hash (id_auth_tokens reset_db)"
  by (simp add: reset_db_def pk_def)

theorem reset_link_single_use_witness:
  "\<exists>db'. confirm_password_reset demo_lib 50 ''r1'' ''password2'' reset_db = (Inr (), db') \<and>
     fst (confirm_password_reset demo_lib 60 ''r1'' ''password3'' db') \<noteq> Inr ()"
proof -
  obtain db' where c: "confirm_password_reset demo_lib 50 ''r1'' ''password2'' reset_db = (Inr (), db')"
    by (simp add: confirm_password_reset_def claim_token_def reset_db_def live_token_def reset_row_def demo_lib_def
        set_user_def update_where_def demo_identity_def demo_user_def)
  with reset_link_single_use[OF c reset_db_pk, of "[]" 60 "''password3''"] show ?thesis by auto
qed

theorem reset_link_superseded_witness:
  "\<exists>db'. request_password_reset demo_lib ''r2'' 50 ''a@b.c'' reset_db = (Inr (), db') \<and>
     fst (confirm_password_reset demo_lib 60 ''r1'' ''password3'' db') \<noteq> Inr ()"
proof -
  have f: "find (\<lambda>u. u_email_hash u = lookup_hash (hmac_hex demo_lib) (Some (lower (strip ''a@b.c'')))) (id_users reset_db) = Some demo_user"
    by code_simp
  have "decrypt_pii (fernet_decrypt demo_lib) (u_email_encrypted demo_user) = Inr None"
    by (simp add: decrypt_pii_def demo_user_def)
  with f obtain db' where r: "request_password_reset demo_lib ''r2'' 50 ''a@b.c'' reset_db = (Inr (), db')"
    by (simp add: request_password_reset_def)
  have "at_token_hash reset_row = sha256_hex demo_lib ''r1''" "at_user_id reset_row = u_id demo_user"
    "at_type reset_row = ''password_reset''" "reset_row \<in> set (id_auth_tokens reset_db)"
    "sha256_hex demo_lib ''r2'' \<noteq> sha256_hex demo_lib ''r1''"
    by (simp_all add: reset_row_def demo_user_def reset_db_def demo_lib_def)
  with reset_link_superseded[OF f _ _ _ _ r _ reset_db_pk, of reset_row "''r1''" "[]" 60 "''password3''"] r
  show ?thesis by auto
qed

end
