(* ===== verification/Cloud_Ingest.thy ===== *)
theory Cloud_Ingest
  imports Api_Keys Sessions
begin

text \<open>
  Bulk ingest of cost records into the hosted service (\<open>burnlens_cloud/ingest.py\<close>): the quota gate,
  the store, the per-cycle usage counters with their 80% and 100% notifications, and the handler that
  composes them behind the key lookup of \<open>Api_Keys\<close>. \<open>month_bounds\<close> stands for Postgres'
  \<open>date_trunc('month', now())\<close> and one month later. The columns of a record that the code only
  copies are one opaque field. The streaming producer is a parameter: what a send does is given with
  the request. OTEL forwarding is left out.
\<close>

section \<open>State\<close>

record ingest_record =
  ir_timestamp :: instant
  ir_input_tokens :: int
  ir_output_tokens :: int
  ir_reasoning_tokens :: int
  ir_cost_usd :: usd
  ir_event_id :: "string option"
  ir_columns :: "(string \<times> json) list"

record cycle_row =
  cy_workspace_id :: string
  cy_start :: instant
  cy_end :: instant
  cy_request_count :: int
  cy_token_count :: int
  cy_spend_usd :: usd
  cy_notified_80_at :: "instant option"
  cy_notified_100_at :: "instant option"

record usage_email =
  em_workspace_id :: string
  em_cycle_start :: instant
  em_threshold :: string
  em_current :: int
  em_limit :: int

record ingest_db =
  ig_keys :: key_db
  ig_members :: "member_row table"
  ig_cycles :: "cycle_row table"
  ig_records :: "(string \<times> ingest_record) table" \<comment> \<open>workspace id and record\<close>
  ig_stream :: "(string \<times> ingest_record) list"
  ig_emails :: "usage_email list"

definition cycle_key :: "cycle_row \<Rightarrow> string \<times> instant" where
  "cycle_key c = (cy_workspace_id c, cy_start c)"

section \<open>Cycle bounds\<close>

definition current_cycle :: "instant \<Rightarrow> string \<Rightarrow> cycle_row table \<Rightarrow> (instant \<times> instant) option" where
  "current_cycle now wid cycles =
     (case sort_key (\<lambda>c. - cy_start c) (filter (\<lambda>c. cy_workspace_id c = wid \<and> cy_end c > now) cycles) of
        [] \<Rightarrow> None
      | c # _ \<Rightarrow> Some (cy_start c, cy_end c))"

definition cycle_bounds ::
    "(instant \<Rightarrow> instant \<times> instant) \<Rightarrow> instant \<Rightarrow> string \<Rightarrow> string \<Rightarrow> cycle_row table \<Rightarrow> instant \<times> instant" where
  "cycle_bounds month_bounds now wid plan cycles =
     (if plan = ''free'' then month_bounds now
      else case current_cycle now wid cycles of None \<Rightarrow> month_bounds now | Some b \<Rightarrow> b)"

section \<open>The quota gate\<close>

datatype quota_error = Quota_exceeded string real real

definition active_cap :: "int option \<Rightarrow> bool" where
  "active_cap c = (case c of None \<Rightarrow> False | Some n \<Rightarrow> n > 0)"

definition active_usd_cap :: "usd option \<Rightarrow> bool" where
  "active_usd_cap c = (case c of None \<Rightarrow> False | Some x \<Rightarrow> x > 0)"

definition seed_cycle :: "string \<Rightarrow> instant \<times> instant \<Rightarrow> cycle_row table \<Rightarrow> cycle_row table" where
  "seed_cycle wid b cycles = insert_or_ignore cycle_key
     \<lparr>cy_workspace_id = wid, cy_start = fst b, cy_end = snd b, cy_request_count = 0, cy_token_count = 0,
      cy_spend_usd = 0, cy_notified_80_at = None, cy_notified_100_at = None\<rparr> cycles"

definition counter_breach :: "resolved_limits \<Rightarrow> cycle_row \<Rightarrow> quota_error option" where
  "counter_breach l row =
     (if active_cap (monthly_request_cap l) \<and> cy_request_count row \<ge> the (monthly_request_cap l)
      then Some (Quota_exceeded ''requests'' (of_int (cy_request_count row)) (of_int (the (monthly_request_cap l))))
      else if active_cap (monthly_token_cap l) \<and> cy_token_count row \<ge> the (monthly_token_cap l)
      then Some (Quota_exceeded ''tokens'' (of_int (cy_token_count row)) (of_int (the (monthly_token_cap l))))
      else if active_usd_cap (monthly_spend_cap_usd l) \<and> cy_spend_usd row \<ge> the (monthly_spend_cap_usd l)
      then Some (Quota_exceeded ''spend_usd'' (cy_spend_usd row) (the (monthly_spend_cap_usd l)))
      else None)"

definition seat_breach :: "resolved_limits \<Rightarrow> string \<Rightarrow> member_row table \<Rightarrow> quota_error option" where
  "seat_breach l wid members =
     (let member_count = int (length (filter (\<lambda>m. wm_workspace_id m = wid \<and> wm_active m) members))
      in if active_cap (seat_count l) \<and> member_count > the (seat_count l)
         then Some (Quota_exceeded ''seats'' (of_int member_count) (of_int (the (seat_count l)))) else None)"

definition check_quota_or_raise ::
    "plan_limits_row table \<Rightarrow> (instant \<Rightarrow> instant \<times> instant) \<Rightarrow> instant \<Rightarrow> string \<Rightarrow> string \<Rightarrow> nat \<Rightarrow> ingest_db
       \<Rightarrow> quota_error option \<times> ingest_db" where
  "check_quota_or_raise plans month_bounds now wid plan batch_size db =
     (case resolve_limits plans (kd_workspaces (ig_keys db)) wid of
        None \<Rightarrow> (None, db)
      | Some l \<Rightarrow>
          let counted = (active_cap (monthly_request_cap l) \<or> active_cap (monthly_token_cap l)
                           \<or> active_usd_cap (monthly_spend_cap_usd l));
              b = cycle_bounds month_bounds now wid plan (ig_cycles db);
              db' = (if counted then db\<lparr>ig_cycles := seed_cycle wid b (ig_cycles db)\<rparr> else db);
              breach = (if counted
                        then case lookup_key cycle_key (wid, fst b) (ig_cycles db') of
                               None \<Rightarrow> None | Some row \<Rightarrow> counter_breach l row
                        else None)
          in case breach of
               Some e \<Rightarrow> (Some e, db')
             | None \<Rightarrow> (seat_breach l wid (ig_members db'), db'))"

section \<open>Counters and notifications\<close>

text \<open>The column type NUMERIC(12,8): eight decimals, half away from zero, overflow from 10000 on.\<close>

definition numeric_12_8 :: "real \<Rightarrow> real option" where
  "numeric_12_8 x =
     (let r = sgn x * of_int \<lfloor>\<bar>x\<bar> * 10 ^ 8 + 1 / 2\<rfloor> / 10 ^ 8
      in if \<bar>r\<bar> < 10 ^ 4 then Some r else None)"

definition upsert_usage ::
    "string \<Rightarrow> instant \<times> instant \<Rightarrow> int \<Rightarrow> int \<Rightarrow> usd \<Rightarrow> cycle_row table \<Rightarrow> (cycle_row \<times> cycle_row table) option" where
  "upsert_usage wid b n toks spend cycles =
     (case numeric_12_8 spend of
        None \<Rightarrow> None
      | Some s \<Rightarrow>
          (case lookup_key cycle_key (wid, fst b) cycles of
             None \<Rightarrow>
               let row = \<lparr>cy_workspace_id = wid, cy_start = fst b, cy_end = snd b, cy_request_count = n,
                          cy_token_count = toks, cy_spend_usd = s, cy_notified_80_at = None, cy_notified_100_at = None\<rparr>
               in Some (row, cycles @ [row])
           | Some row0 \<Rightarrow>
               (case numeric_12_8 (cy_spend_usd row0 + s) of
                  None \<Rightarrow> None
                | Some total_spend \<Rightarrow>
                    let row = row0\<lparr>cy_request_count := cy_request_count row0 + n,
                                   cy_token_count := cy_token_count row0 + toks, cy_spend_usd := total_spend\<rparr>
                    in Some (row, update_where (\<lambda>c. cycle_key c = (wid, fst b)) (\<lambda>_. row) cycles))))"

definition set_notified :: "instant \<Rightarrow> string \<Rightarrow> cycle_row \<Rightarrow> cycle_row" where
  "set_notified now thr c = (if thr = ''100'' then c\<lparr>cy_notified_100_at := Some now\<rparr> else c\<lparr>cy_notified_80_at := Some now\<rparr>)"

definition notified_at :: "string \<Rightarrow> cycle_row \<Rightarrow> instant option" where
  "notified_at thr c = (if thr = ''100'' then cy_notified_100_at c else cy_notified_80_at c)"

definition claim_and_notify :: "instant \<Rightarrow> string \<Rightarrow> cycle_row \<Rightarrow> int \<Rightarrow> ingest_db \<Rightarrow> ingest_db" where
  "claim_and_notify now thr row cap db =
     (if \<exists>c \<in> set (ig_cycles db). cycle_key c = cycle_key row \<and> notified_at thr c = None
      then db\<lparr>ig_cycles := update_where (\<lambda>c. cycle_key c = cycle_key row \<and> notified_at thr c = None)
                 (set_notified now thr) (ig_cycles db),
              ig_emails := ig_emails db @ [\<lparr>em_workspace_id = cy_workspace_id row, em_cycle_start = cy_start row,
                 em_threshold = thr, em_current = cy_request_count row, em_limit = cap\<rparr>]\<rparr>
      else db)"

definition crossed :: "real \<Rightarrow> int \<Rightarrow> int \<Rightarrow> int \<Rightarrow> bool" where
  "crossed share cap prev new \<longleftrightarrow> of_int prev / of_int cap < share \<and> share \<le> of_int new / of_int cap"

definition record_usage_and_maybe_notify ::
    "plan_limits_row table \<Rightarrow> (instant \<Rightarrow> instant \<times> instant) \<Rightarrow> instant \<Rightarrow> string \<Rightarrow> string \<Rightarrow> int \<Rightarrow> int \<Rightarrow> usd
       \<Rightarrow> ingest_db \<Rightarrow> ingest_db" where
  "record_usage_and_maybe_notify plans month_bounds now wid plan n toks spend db =
     (case upsert_usage wid (cycle_bounds month_bounds now wid plan (ig_cycles db)) n toks spend (ig_cycles db) of
        None \<Rightarrow> db
      | Some (row, cycles) \<Rightarrow>
          let db1 = db\<lparr>ig_cycles := cycles\<rparr>; new = cy_request_count row; prev = new - n
          in case resolve_limits plans (kd_workspaces (ig_keys db)) wid of
               None \<Rightarrow> db1
             | Some l \<Rightarrow>
                 (case monthly_request_cap l of
                    None \<Rightarrow> db1
                  | Some cap \<Rightarrow>
                      if cap \<le> 0 then db1
                      else if crossed 1 cap prev new then claim_and_notify now ''100'' row cap db1
                      else if crossed (8 / 10) cap prev new then claim_and_notify now ''80'' row cap db1
                      else db1))"

section \<open>The store and the handler\<close>

definition same_event :: "string \<times> ingest_record \<Rightarrow> string \<times> ingest_record \<Rightarrow> bool" where
  "same_event a b \<longleftrightarrow> fst a = fst b \<and> ir_event_id (snd a) = ir_event_id (snd b) \<and> ir_event_id (snd b) \<noteq> None"

fun bulk_insert :: "string \<Rightarrow> ingest_record list \<Rightarrow> (string \<times> ingest_record) table \<Rightarrow> (string \<times> ingest_record) table" where
  "bulk_insert wid [] t = t"
| "bulk_insert wid (r # rs) t =
     bulk_insert wid rs (if \<exists>x \<in> set t. same_event x (wid, r) then t else t @ [(wid, r)])"

datatype stream_result = Stream_sent | Stream_unavailable | Stream_failed

definition batch_tokens :: "ingest_record list \<Rightarrow> int" where
  "batch_tokens rs = sum_list (map (\<lambda>r. ir_input_tokens r + ir_output_tokens r + ir_reasoning_tokens r) rs)"

definition batch_spend_usd :: "ingest_record list \<Rightarrow> usd" where
  "batch_spend_usd rs = sum_list (map ir_cost_usd rs)"

datatype ingest_error = Unauthorized string | Too_many_requests quota_error | Server_error

record ingest_env =
  ie_plans :: "plan_limits_row table"
  ie_month_bounds :: "instant \<Rightarrow> instant \<times> instant"
  ie_sha256 :: "string \<Rightarrow> string"
  ie_streaming :: "stream_result option" \<comment> \<open>\<open>None\<close>: streaming is off\<close>
  ie_insert_fails :: bool

definition store_batch :: "ingest_env \<Rightarrow> string \<Rightarrow> ingest_record list \<Rightarrow> ingest_db \<Rightarrow> ingest_db option" where
  "store_batch env wid rs db =
     (case ie_streaming env of
        Some res \<Rightarrow>
          if rs = [] then Some db
          else (case res of
                  Stream_sent \<Rightarrow> Some (db\<lparr>ig_stream := ig_stream db @ map (Pair wid) rs\<rparr>)
                | Stream_unavailable \<Rightarrow> Some db
                | Stream_failed \<Rightarrow> None)
      | None \<Rightarrow> if ie_insert_fails env then None
                else Some (db\<lparr>ig_records := bulk_insert wid rs (ig_records db)\<rparr>))"

definition ingest ::
    "ingest_env \<Rightarrow> instant \<Rightarrow> string option \<Rightarrow> string option \<Rightarrow> ingest_record list \<Rightarrow> ingest_db
       \<Rightarrow> (ingest_error + (nat \<times> (string \<rightharpoonup> json) option)) \<times> ingest_db" where
  "ingest env now body_key x_api_key rs db =
     (let api_key = py_or body_key x_api_key
      in if \<not> truthy api_key then (Inl (Unauthorized ''Missing API key''), db)
         else case get_workspace_by_api_key (ie_sha256 env) now (the api_key) (ig_keys db) of
           (None, kd) \<Rightarrow> (Inl (Unauthorized ''Invalid API key''), db\<lparr>ig_keys := kd\<rparr>)
         | (Some (wid, plan), kd) \<Rightarrow>
             (case check_quota_or_raise (ie_plans env) (ie_month_bounds env) now wid plan (length rs) (db\<lparr>ig_keys := kd\<rparr>) of
                (Some e, db1) \<Rightarrow> (Inl (Too_many_requests e), db1)
              | (None, db1) \<Rightarrow>
                  (case store_batch env wid rs db1 of
                     None \<Rightarrow> (Inl Server_error, db1)
                   | Some db2 \<Rightarrow>
                       let db3 = record_usage_and_maybe_notify (ie_plans env) (ie_month_bounds env) now wid plan
                                   (int (length rs)) (batch_tokens rs) (batch_spend_usd rs) db2
                       in (Inr (length rs, case resolve_limits (ie_plans env) (kd_workspaces (ig_keys db3)) wid of
                                             None \<Rightarrow> None | Some l \<Rightarrow> routing_overrides l), db3))))"

section \<open>Lemmas\<close>

lemma seed_lookup:
  "lookup_key cycle_key (wid, fst b) (seed_cycle wid b cycles) \<noteq> None"
  "lookup_key cycle_key k cycles = Some c \<Longrightarrow> lookup_key cycle_key k (seed_cycle wid b cycles) = Some c"
  by (auto simp: seed_cycle_def table_simps cycle_key_def lookup_key_def[symmetric])

lemma seed_present: "lookup_key cycle_key (wid, fst b) cycles \<noteq> None \<Longrightarrow> seed_cycle wid b cycles = cycles"
  by (auto simp: seed_cycle_def insert_or_ignore_def lookup_key_None_iff cycle_key_def)

lemma current_cycle_lookup:
  assumes "current_cycle now wid cycles = Some b"
  shows "lookup_key cycle_key (wid, fst b) cycles \<noteq> None"
proof -
  let ?f = "filter (\<lambda>c. cy_workspace_id c = wid \<and> cy_end c > now) cycles"
  obtain c cs where s: "sort_key (\<lambda>c. - cy_start c) ?f = c # cs" "b = (cy_start c, cy_end c)"
    using assms by (auto simp: current_cycle_def split: list.splits)
  then have "c \<in> set ?f" by (metis list.set_intros(1) set_sort)
  then have "cycle_key c \<in> cycle_key ` set cycles" "cycle_key c = (wid, fst b)"
    using s by (auto simp: cycle_key_def)
  then show ?thesis unfolding lookup_key_None_iff by simp
qed

text \<open>The handler's two computations of the cycle bounds agree: the row the gate seeds does not move them.\<close>

lemma cycle_bounds_seed:
  assumes "now < snd (mb now)"
  shows "cycle_bounds mb now wid plan (seed_cycle wid (cycle_bounds mb now wid plan cycles) cycles) =
    cycle_bounds mb now wid plan cycles"
proof (cases "plan = ''free'' \<or> current_cycle now wid cycles \<noteq> None")
  case True
  then show ?thesis
    using current_cycle_lookup[of now wid cycles] by (auto simp: cycle_bounds_def seed_present)
next
  case False
  then have none: "current_cycle now wid cycles = None" by blast
  with False have b: "cycle_bounds mb now wid plan cycles = mb now" by (simp add: cycle_bounds_def)
  show ?thesis
  proof (cases "lookup_key cycle_key (wid, fst (mb now)) cycles")
    case None
    let ?row = "\<lparr>cy_workspace_id = wid, cy_start = fst (mb now), cy_end = snd (mb now), cy_request_count = 0,
      cy_token_count = 0, cy_spend_usd = 0, cy_notified_80_at = None, cy_notified_100_at = None\<rparr>"
    have "filter (\<lambda>c. cy_workspace_id c = wid \<and> cy_end c > now) cycles = []"
      using none by (simp add: current_cycle_def split: list.splits)
        (metis length_0_conv length_sort)
    moreover have "seed_cycle wid (mb now) cycles = cycles @ [?row]"
      using None by (simp add: seed_cycle_def insert_or_ignore_def lookup_key_None_iff cycle_key_def)
    ultimately have "current_cycle now wid (seed_cycle wid (mb now) cycles) = Some (mb now)"
      using assms by (simp add: current_cycle_def)
    with False show ?thesis by (simp add: b) (simp add: cycle_bounds_def)
  next
    case (Some c)
    then show ?thesis by (simp add: b seed_present)
  qed
qed

lemma lookup_replace_row:
  "key row = k \<Longrightarrow> lookup_key key k t \<noteq> None \<Longrightarrow> lookup_key key k (update_where (\<lambda>c. key c = k) (\<lambda>_. row) t) = Some row"
  by (induction t) (auto simp: lookup_key_def update_where_def)

lemma upsert_lookup:
  assumes "upsert_usage wid b n toks spend cycles = Some (row, cycles')"
  shows "lookup_key cycle_key (wid, fst b) cycles' = Some row" "cycle_key row = (wid, fst b)"
proof -
  show k: "cycle_key row = (wid, fst b)"
    using assms lookup_key_SomeD[of cycle_key "(wid, fst b)" cycles]
    by (auto simp: upsert_usage_def Let_def cycle_key_def split: option.splits)
  show "lookup_key cycle_key (wid, fst b) cycles' = Some row"
  proof (cases "lookup_key cycle_key (wid, fst b) cycles")
    case None
    with assms k show ?thesis
      by (auto simp: upsert_usage_def Let_def lookup_key_def find_append split: option.splits)
  next
    case (Some r0)
    then have "cycles' = update_where (\<lambda>c. cycle_key c = (wid, fst b)) (\<lambda>_. row) cycles"
      using assms by (auto simp: upsert_usage_def Let_def split: option.splits)
    with k Some show ?thesis by (simp add: lookup_replace_row)
  qed
qed

lemma claim_frame [simp]:
  "ig_records (claim_and_notify now thr row cap db) = ig_records db"
  "ig_keys (claim_and_notify now thr row cap db) = ig_keys db"
  "ig_members (claim_and_notify now thr row cap db) = ig_members db"
  "ig_stream (claim_and_notify now thr row cap db) = ig_stream db"
  by (simp_all add: claim_and_notify_def)

definition counters :: "cycle_row \<Rightarrow> int \<times> int \<times> usd" where
  "counters c = (cy_request_count c, cy_token_count c, cy_spend_usd c)"

lemma claim_counters:
  "map_option counters (lookup_key cycle_key k (ig_cycles (claim_and_notify now thr row cap db))) =
     map_option counters (lookup_key cycle_key k (ig_cycles db))"
  by (auto simp: claim_and_notify_def lookup_update_where set_notified_def cycle_key_def option.map_comp o_def
      counters_def intro!: option.map_cong0)

lemma record_frame [simp]:
  "ig_records (record_usage_and_maybe_notify plans mb now wid plan n toks spend db) = ig_records db"
  "ig_keys (record_usage_and_maybe_notify plans mb now wid plan n toks spend db) = ig_keys db"
  "ig_members (record_usage_and_maybe_notify plans mb now wid plan n toks spend db) = ig_members db"
  by (simp_all add: record_usage_and_maybe_notify_def Let_def split: option.split prod.split)

lemma record_counters:
  assumes "upsert_usage wid (cycle_bounds mb now wid plan (ig_cycles db)) n toks spend (ig_cycles db) = Some (row, cycles)"
  shows "map_option counters (lookup_key cycle_key k
      (ig_cycles (record_usage_and_maybe_notify plans mb now wid plan n toks spend db))) =
    map_option counters (lookup_key cycle_key k cycles)"
  using assms by (simp add: record_usage_and_maybe_notify_def Let_def claim_counters split: option.split)

lemma check_frame:
  assumes "check_quota_or_raise plans mb now wid plan k db = (r, db')"
  shows "ig_records db' = ig_records db" "ig_keys db' = ig_keys db" "ig_emails db' = ig_emails db"
    "ig_stream db' = ig_stream db" "ig_members db' = ig_members db"
    "ig_cycles db' = ig_cycles db \<or> ig_cycles db' = seed_cycle wid (cycle_bounds mb now wid plan (ig_cycles db)) (ig_cycles db)"
  using assms by (auto simp: check_quota_or_raise_def Let_def split: option.splits if_splits)

lemma ingest_InrE:
  assumes "ingest env now bk hk rs db = (Inr res, db')"
  obtains key wid plan kd db1 db2 where "py_or bk hk = Some key" "key \<noteq> []"
    "get_workspace_by_api_key (ie_sha256 env) now key (ig_keys db) = (Some (wid, plan), kd)"
    "check_quota_or_raise (ie_plans env) (ie_month_bounds env) now wid plan (length rs) (db\<lparr>ig_keys := kd\<rparr>) = (None, db1)"
    "store_batch env wid rs db1 = Some db2"
    "db' = record_usage_and_maybe_notify (ie_plans env) (ie_month_bounds env) now wid plan
       (int (length rs)) (batch_tokens rs) (batch_spend_usd rs) db2"
    "fst res = length rs"
  using assms by (auto simp: ingest_def Let_def elim!: truthyE split: prod.splits option.splits if_splits)

lemma store_frame:
  assumes "store_batch env wid rs db = Some db'"
  shows "ig_cycles db' = ig_cycles db" "ig_keys db' = ig_keys db" "ig_emails db' = ig_emails db" "ig_members db' = ig_members db"
    "ie_streaming env = None \<Longrightarrow> ig_records db' = bulk_insert wid rs (ig_records db)"
  using assms by (auto simp: store_batch_def split: option.splits if_splits stream_result.splits)

definition cycle_counters :: "string \<Rightarrow> instant \<Rightarrow> ingest_db \<Rightarrow> int \<times> int \<times> usd" where
  "cycle_counters wid start db =
     (case lookup_key cycle_key (wid, start) (ig_cycles db) of None \<Rightarrow> (0, 0, 0) | Some c \<Rightarrow> counters c)"

lemma cycle_counters_cong:
  "map_option counters (lookup_key cycle_key (wid, start) (ig_cycles db)) =
   map_option counters (lookup_key cycle_key (wid, start) (ig_cycles db')) \<Longrightarrow>
   cycle_counters wid start db = cycle_counters wid start db'"
  by (auto simp: cycle_counters_def split: option.splits)

lemma seed_counters:
  "ig_cycles db' = seed_cycle v b (ig_cycles db) \<Longrightarrow> cycle_counters wid start db' = cycle_counters wid start db"
  by (auto simp: cycle_counters_def seed_cycle_def table_simps counters_def cycle_key_def split: option.splits)

lemma check_counters:
  "check_quota_or_raise plans mb now wid plan k db = (r, db') \<Longrightarrow> cycle_counters v start db' = cycle_counters v start db"
  using check_frame(6)[of plans mb now wid plan k db r db'] seed_counters
  by (metis cycle_counters_def)

lemma check_passed_requests:
  assumes "check_quota_or_raise plans mb now wid plan k db = (None, db')"
    and "resolve_limits plans (kd_workspaces (ig_keys db)) wid = Some l" "monthly_request_cap l = Some cap" "0 < cap"
  shows "fst (cycle_counters wid (fst (cycle_bounds mb now wid plan (ig_cycles db))) db) < cap"
proof -
  let ?b = "cycle_bounds mb now wid plan (ig_cycles db)"
  have act: "active_cap (monthly_request_cap l)" using assms(3,4) by (simp add: active_cap_def)
  obtain row where row: "lookup_key cycle_key (wid, fst ?b) (seed_cycle wid ?b (ig_cycles db)) = Some row"
    using seed_lookup(1) by blast
  then have "counter_breach l row = None"
    using assms(1,2) act by (auto simp: check_quota_or_raise_def Let_def split: option.splits)
  then have "cy_request_count row < cap" using act assms(3) by (auto simp: counter_breach_def split: if_splits)
  moreover have "cycle_counters wid (fst ?b) db = counters row"
    using seed_counters[of "db\<lparr>ig_cycles := seed_cycle wid ?b (ig_cycles db)\<rparr>" wid ?b db wid "fst ?b"] row
    by (simp add: cycle_counters_def)
  ultimately show ?thesis by (simp add: counters_def)
qed

lemma bounds_after_check:
  assumes "check_quota_or_raise plans mb now wid plan k db = (r, db')" "now < snd (mb now)"
  shows "cycle_bounds mb now wid plan (ig_cycles db') = cycle_bounds mb now wid plan (ig_cycles db)"
  using check_frame(6)[OF assms(1)] cycle_bounds_seed[of now mb] assms(2) by auto

text \<open>What an upsert adds, against the row's counters (zero for a new row).\<close>

lemma upsert_counters:
  assumes "upsert_usage wid b n toks spend (ig_cycles db) = Some (row, cycles)"
  shows "\<exists>s c. numeric_12_8 spend = Some s \<and> counters row = (fst (cycle_counters wid (fst b) db) + n,
     fst (snd (cycle_counters wid (fst b) db)) + toks, c) \<and>
     (c = s \<or> numeric_12_8 (snd (snd (cycle_counters wid (fst b) db)) + s) = Some c)"
  using assms by (auto simp: upsert_usage_def cycle_counters_def counters_def Let_def split: option.splits)

lemma upsert_None:
  assumes "upsert_usage wid b n toks spend (ig_cycles db) = None" "numeric_12_8 spend = Some s"
  shows "numeric_12_8 (snd (snd (cycle_counters wid (fst b) db)) + s) = None"
  using assms by (auto simp: upsert_usage_def cycle_counters_def counters_def Let_def split: option.splits)

lemma numeric_overflow: "10000 \<le> x \<Longrightarrow> numeric_12_8 x = None"
proof -
  assume x: "10000 \<le> x"
  then have "1000000000000 \<le> \<lfloor>x * 100000000 + 1 / 2\<rfloor>" by (simp add: le_floor_iff)
  then have "(1000000000000 :: real) \<le> of_int \<lfloor>x * 100000000 + 1 / 2\<rfloor>" by linarith
  with x show ?thesis by (simp add: numeric_12_8_def Let_def sgn_if)
qed

text \<open>The outcome of an accepted batch on the counters of the cycle it was charged to.\<close>

lemma accepted_counters:
  assumes i: "ingest env now bk hk rs db = (Inr res, db')" and m: "now < snd (ie_month_bounds env now)"
    and k: "py_or bk hk = Some key" "get_workspace_by_api_key (ie_sha256 env) now key (ig_keys db) = (Some (wid, plan), kd)"
    and b: "b = cycle_bounds (ie_month_bounds env) now wid plan (ig_cycles db)"
  obtains (counted) row cycles db2 where "ig_cycles db2 = ig_cycles db \<or> ig_cycles db2 = seed_cycle wid b (ig_cycles db)"
      "upsert_usage wid b (int (length rs)) (batch_tokens rs) (batch_spend_usd rs) (ig_cycles db2) = Some (row, cycles)"
      "cycle_counters wid (fst b) db2 = cycle_counters wid (fst b) db"
      "cycle_counters wid (fst b) db' = counters row"
  | (skipped) db2 where "ig_cycles db2 = ig_cycles db \<or> ig_cycles db2 = seed_cycle wid b (ig_cycles db)"
      "upsert_usage wid b (int (length rs)) (batch_tokens rs) (batch_spend_usd rs) (ig_cycles db2) = None"
      "ig_cycles db' = ig_cycles db2" "cycle_counters wid (fst b) db2 = cycle_counters wid (fst b) db"
proof -
  obtain db1 db2 where st: "check_quota_or_raise (ie_plans env) (ie_month_bounds env) now wid plan (length rs) (db\<lparr>ig_keys := kd\<rparr>) = (None, db1)"
    "store_batch env wid rs db1 = Some db2"
    "db' = record_usage_and_maybe_notify (ie_plans env) (ie_month_bounds env) now wid plan
       (int (length rs)) (batch_tokens rs) (batch_spend_usd rs) db2"
    using i k by (auto elim!: ingest_InrE)
  have cyc: "ig_cycles db2 = ig_cycles db1" using store_frame[OF st(2)] by simp
  have b2: "cycle_bounds (ie_month_bounds env) now wid plan (ig_cycles db2) = b"
    using bounds_after_check[OF st(1) m] b cyc by simp
  have or: "ig_cycles db2 = ig_cycles db \<or> ig_cycles db2 = seed_cycle wid b (ig_cycles db)"
    using check_frame(6)[OF st(1)] cyc b by simp
  have c2: "cycle_counters wid (fst b) db2 = cycle_counters wid (fst b) db"
    using check_counters[OF st(1), of wid "fst b"] cyc by (simp add: cycle_counters_def)
  show thesis
  proof (cases "upsert_usage wid b (int (length rs)) (batch_tokens rs) (batch_spend_usd rs) (ig_cycles db2)")
    case None
    then have "ig_cycles db' = ig_cycles db2" using st(3) b2 by (simp add: record_usage_and_maybe_notify_def)
    then show thesis using skipped or None c2 by blast
  next
    case (Some rc)
    obtain row cycles where rc: "rc = (row, cycles)" by (cases rc)
    have "map_option counters (lookup_key cycle_key (wid, fst b) (ig_cycles db')) = Some (counters row)"
      using record_counters[of wid "ie_month_bounds env" now plan db2, unfolded b2, OF Some[unfolded rc]]
        upsert_lookup(1)[OF Some[unfolded rc]] st(3) by simp
    then have "cycle_counters wid (fst b) db' = counters row" by (auto simp: cycle_counters_def)
    then show thesis using counted or Some rc c2 by blast
  qed
qed

section \<open>Properties\<close>


text \<open>
  The spend column overflows at ten thousand dollars. From the first batch that would take a cycle's
  spend there, accepted batches are no longer counted at all: the request and token counters of the
  cycle stop with the spend counter, so no cap above their last values is ever enforced again.
\<close>

theorem spend_overflow_freezes:
  assumes "ingest env now bk hk rs db = (Inr res, db')" "now < snd (ie_month_bounds env now)"
    and "py_or bk hk = Some key" "get_workspace_by_api_key (ie_sha256 env) now key (ig_keys db) = (Some (wid, plan), kd)"
    and "start = fst (cycle_bounds (ie_month_bounds env) now wid plan (ig_cycles db))"
    and "numeric_12_8 (batch_spend_usd rs) = Some s" "10000 \<le> snd (snd (cycle_counters wid start db)) + s"
    and "lookup_key cycle_key (wid, start) (ig_cycles db) \<noteq> None"
  shows "fst res = length rs \<and> cycle_counters wid start db' = cycle_counters wid start db"
proof -
  have "fst res = length rs" using assms(1) by (rule ingest_InrE)
  moreover from assms(1-4) refl have "cycle_counters wid start db' = cycle_counters wid start db"
  proof (cases rule: accepted_counters)
    case (counted row cycles db2)
    have "lookup_key cycle_key (wid, start) (ig_cycles db2) \<noteq> None"
      using counted(1) assms(8) seed_lookup(2) by (metis option.exhaust option.distinct(1))
    moreover have "numeric_12_8 (snd (snd (cycle_counters wid start db2)) + s) = None"
      using numeric_overflow[OF assms(7)] counted(3) assms(5) by simp
    ultimately show ?thesis
      using counted(2) assms(5,6) by (auto simp: upsert_usage_def cycle_counters_def counters_def split: option.splits)
  next
    case (skipped db2)
    then show ?thesis using assms(5) by (simp add: cycle_counters_def)
  qed
  ultimately show ?thesis by blast
qed

subsection \<open>Idempotence of the store\<close>

lemma bulk_insert_known:
  "\<forall>r \<in> set rs. \<exists>x \<in> set t. same_event x (wid, r) \<Longrightarrow> bulk_insert wid rs t = t"
  by (induction rs) auto

lemma bulk_insert_mono: "set t \<subseteq> set (bulk_insert wid rs t)"
  by (induction rs arbitrary: t) fastforce+

lemma bulk_insert_contains:
  "r \<in> set rs \<Longrightarrow> ir_event_id r \<noteq> None \<Longrightarrow> \<exists>x \<in> set (bulk_insert wid rs t). same_event x (wid, r)"
proof (induction rs arbitrary: t)
  case (Cons a rs)
  let ?t = "if \<exists>x \<in> set t. same_event x (wid, a) then t else t @ [(wid, a)]"
  show ?case
  proof (cases "r = a")
    case True
    then have "\<exists>x \<in> set ?t. same_event x (wid, r)" using Cons.prems by (auto simp: same_event_def)
    then have "\<exists>x \<in> set (bulk_insert wid rs ?t). same_event x (wid, r)" using bulk_insert_mono[of ?t wid rs] by blast
    then show ?thesis by simp
  next
    case False
    with Cons show ?thesis by simp
  qed
qed simp

definition events_unique :: "(string \<times> ingest_record) table \<Rightarrow> bool" where
  "events_unique t \<longleftrightarrow> sorted_wrt (\<lambda>a b. \<not> same_event a b) t"

lemma bulk_insert_unique: "events_unique t \<Longrightarrow> events_unique (bulk_insert wid rs t)"
  by (induction rs arbitrary: t) (auto simp: events_unique_def sorted_wrt_append)

text \<open>
  A retried batch is stored once but charged twice: when every record's event id is already on file,
  the store does not change, and unless the spend column overflows the cycle's counters move by the
  whole batch again, records, tokens and dollars.
\<close>

theorem replay_counts_twice:
  assumes "ingest env now bk hk rs db = (Inr res, db')" "now < snd (ie_month_bounds env now)" "ie_streaming env = None"
    and "py_or bk hk = Some key" "get_workspace_by_api_key (ie_sha256 env) now key (ig_keys db) = (Some (wid, plan), kd)"
    and "start = fst (cycle_bounds (ie_month_bounds env) now wid plan (ig_cycles db))"
    and "\<forall>r \<in> set rs. \<exists>x \<in> set (ig_records db). same_event x (wid, r)"
    and "numeric_12_8 (batch_spend_usd rs) = Some s" "numeric_12_8 (snd (snd (cycle_counters wid start db)) + s) \<noteq> None"
  shows "ig_records db' = ig_records db \<and>
    fst (cycle_counters wid start db') = fst (cycle_counters wid start db) + int (length rs) \<and>
    fst (snd (cycle_counters wid start db')) = fst (snd (cycle_counters wid start db)) + batch_tokens rs"
proof -
  have "ig_records db' = ig_records db"
  proof -
    obtain db1 db2 where "check_quota_or_raise (ie_plans env) (ie_month_bounds env) now wid plan (length rs) (db\<lparr>ig_keys := kd\<rparr>) = (None, db1)"
      "store_batch env wid rs db1 = Some db2" "ig_records db' = ig_records db2"
      using assms(1,4,5) by (auto elim!: ingest_InrE)
    then show ?thesis using check_frame(1) store_frame(5)[OF _ assms(3)] bulk_insert_known[OF assms(7)] by fastforce
  qed
  moreover from assms(1,2,4,5) refl have "fst (cycle_counters wid start db') = fst (cycle_counters wid start db) + int (length rs) \<and>
    fst (snd (cycle_counters wid start db')) = fst (snd (cycle_counters wid start db)) + batch_tokens rs"
  proof (cases rule: accepted_counters)
    case (counted row cycles db2)
    then show ?thesis using upsert_counters[OF counted(2)] assms(6) by auto
  next
    case (skipped db2)
    with upsert_None[OF skipped(2) assms(8)] assms(6,9) show ?thesis by simp
  qed
  ultimately show ?thesis by blast
qed

text \<open>
  A refused request, for whatever reason, stores nothing, sends nothing and charges nothing.
\<close>

theorem refused_batch_leaves_no_trace:
  assumes "ingest env now bk hk rs db = (Inl e, db')"
  shows "ig_records db' = ig_records db \<and> ig_stream db' = ig_stream db \<and> ig_emails db' = ig_emails db \<and>
    (\<forall>wid start. cycle_counters wid start db' = cycle_counters wid start db)"
proof (cases "truthy (py_or bk hk)")
  case True
  obtain a kd where g: "get_workspace_by_api_key (ie_sha256 env) now (the (py_or bk hk)) (ig_keys db) = (a, kd)"
    by (cases "get_workspace_by_api_key (ie_sha256 env) now (the (py_or bk hk)) (ig_keys db)")
  show ?thesis
  proof (cases a)
    case None
    with assms True g show ?thesis by (auto simp: ingest_def Let_def cycle_counters_def)
  next
    case (Some wp)
    obtain wid plan where wp: "wp = (wid, plan)" by (cases wp)
    obtain r db1 where ck: "check_quota_or_raise (ie_plans env) (ie_month_bounds env) now wid plan (length rs) (db\<lparr>ig_keys := kd\<rparr>) = (r, db1)"
      by (cases "check_quota_or_raise (ie_plans env) (ie_month_bounds env) now wid plan (length rs) (db\<lparr>ig_keys := kd\<rparr>)")
    have "db' = db1" using assms True g Some wp ck by (auto simp: ingest_def Let_def split: option.splits)
    moreover have "cycle_counters v start db1 = cycle_counters v start db" for v start
      using check_counters[OF ck, of v start] by (simp add: cycle_counters_def)
    ultimately show ?thesis using check_frame[OF ck] by simp
  qed
next
  case False
  with assms show ?thesis by (auto simp: ingest_def Let_def)
qed

subsection \<open>Notifications\<close>

definition em_key :: "usage_email \<Rightarrow> (string \<times> instant) \<times> string" where
  "em_key e = ((em_workspace_id e, em_cycle_start e), em_threshold e)"

definition notify_inv :: "ingest_db \<Rightarrow> bool" where
  "notify_inv db \<longleftrightarrow> pk cycle_key (ig_cycles db) \<and> distinct (map em_key (ig_emails db)) \<and>
     (\<forall>e \<in> set (ig_emails db). \<exists>c \<in> set (ig_cycles db). cycle_key c = fst (em_key e) \<and> notified_at (em_threshold e) c \<noteq> None)"

definition keeps_notified :: "cycle_row table \<Rightarrow> cycle_row table \<Rightarrow> bool" where
  "keeps_notified t t' \<longleftrightarrow> (\<forall>c \<in> set t. \<exists>c' \<in> set t'. cycle_key c' = cycle_key c \<and>
     (\<forall>thr. notified_at thr c \<noteq> None \<longrightarrow> notified_at thr c' \<noteq> None))"

lemma notify_inv_cycles:
  assumes "notify_inv db" "pk cycle_key (ig_cycles db')" "keeps_notified (ig_cycles db) (ig_cycles db')" "ig_emails db' = ig_emails db"
  shows "notify_inv db'"
  using assms unfolding notify_inv_def keeps_notified_def by (metis (no_types, lifting))

lemma keeps_refl: "keeps_notified t t"
  by (auto simp: keeps_notified_def)

lemma seed_keeps: "pk cycle_key t \<Longrightarrow> pk cycle_key (seed_cycle wid b t) \<and> keeps_notified t (seed_cycle wid b t)"
  unfolding seed_cycle_def by (intro conjI pk_insert_or_ignore) (auto simp: keeps_notified_def insert_or_ignore_def)

lemma keeps_update:
  assumes "\<And>c. c \<in> set t \<Longrightarrow> p c \<Longrightarrow> cycle_key (f c) = cycle_key c \<and> (\<forall>thr. notified_at thr c \<noteq> None \<longrightarrow> notified_at thr (f c) \<noteq> None)"
  shows "keeps_notified t (update_where p f t)"
  unfolding keeps_notified_def
proof
  fix c assume c: "c \<in> set t"
  let ?c = "if p c then f c else c"
  have "?c \<in> set (update_where p f t)" using c by (auto simp: update_where_def)
  moreover have "cycle_key ?c = cycle_key c \<and> (\<forall>thr. notified_at thr c \<noteq> None \<longrightarrow> notified_at thr ?c \<noteq> None)"
    using assms[OF c] by simp
  ultimately show "\<exists>c' \<in> set (update_where p f t). cycle_key c' = cycle_key c \<and>
      (\<forall>thr. notified_at thr c \<noteq> None \<longrightarrow> notified_at thr c' \<noteq> None)" by blast
qed

lemma upsert_keeps:
  assumes "pk cycle_key t" "upsert_usage wid b n toks spend t = Some (row, t')"
  shows "pk cycle_key t' \<and> keeps_notified t t'"
proof (cases "lookup_key cycle_key (wid, fst b) t")
  case None
  then have "t' = t @ [row]" "cycle_key row = (wid, fst b)"
    using assms(2) by (auto simp: upsert_usage_def Let_def cycle_key_def split: option.splits)
  with None assms(1) show ?thesis by (auto simp: pk_def lookup_key_None_iff keeps_notified_def)
next
  case (Some r0)
  have t': "t' = update_where (\<lambda>c. cycle_key c = (wid, fst b)) (\<lambda>_. row) t"
    using assms(2) Some by (auto simp: upsert_usage_def Let_def split: option.splits)
  have row: "cycle_key row = (wid, fst b)" by (rule upsert_lookup(2)[OF assms(2)])
  have same: "notified_at thr row = notified_at thr r0" for thr
    using assms(2) Some by (auto simp: upsert_usage_def Let_def notified_at_def split: option.splits)
  have "c = r0" if "c \<in> set t" "cycle_key c = (wid, fst b)" for c
    using pk_lookup[OF assms(1) that(1)] Some that(2) by simp
  then have "keeps_notified t t'" unfolding t' using row same by (intro keeps_update) auto
  moreover have "pk cycle_key t'" unfolding t' by (rule pk_update_where[OF _ assms(1)]) (simp add: row)
  ultimately show ?thesis by blast
qed

lemma notified_set: "notified_at thr (set_notified now thr c) \<noteq> None"
  "notified_at x c \<noteq> None \<Longrightarrow> notified_at x (set_notified now thr c) \<noteq> None"
  "cycle_key (set_notified now thr c) = cycle_key c"
  by (auto simp: notified_at_def set_notified_def cycle_key_def)

lemma claim_inv:
  assumes "notify_inv db"
  shows "notify_inv (claim_and_notify now thr row cap db)"
proof (cases "\<exists>c \<in> set (ig_cycles db). cycle_key c = cycle_key row \<and> notified_at thr c = None")
  case False
  then have "claim_and_notify now thr row cap db = db" unfolding claim_and_notify_def by (rule if_not_P)
  then show ?thesis using assms by simp
next
  case True
  then obtain c where c: "c \<in> set (ig_cycles db)" "cycle_key c = cycle_key row" "notified_at thr c = None" by blast
  let ?p = "\<lambda>c. cycle_key c = cycle_key row \<and> notified_at thr c = None"
  let ?t = "update_where ?p (set_notified now thr) (ig_cycles db)"
  let ?e = "\<lparr>em_workspace_id = cy_workspace_id row, em_cycle_start = cy_start row, em_threshold = thr,
     em_current = cy_request_count row, em_limit = cap\<rparr>"
  have pkt: "pk cycle_key (ig_cycles db)" using assms by (simp add: notify_inv_def)
  have new: "em_key ?e \<notin> em_key ` set (ig_emails db)"
  proof
    assume "em_key ?e \<in> em_key ` set (ig_emails db)"
    then obtain e where e: "e \<in> set (ig_emails db)" "em_key e = (cycle_key row, thr)" by (auto simp: em_key_def cycle_key_def)
    then obtain c' where "c' \<in> set (ig_cycles db)" "cycle_key c' = cycle_key row" "notified_at thr c' \<noteq> None"
      using assms by (auto simp: notify_inv_def em_key_def)
    with c pkt show False by (metis pk_inj)
  qed
  have keeps: "keeps_notified (ig_cycles db) ?t"
    by (rule keeps_update) (metis notified_set(2,3))
  have pk: "pk cycle_key ?t" by (rule pk_update_where[OF _ pkt]) (simp add: notified_set)
  have inv1: "notify_inv (db\<lparr>ig_cycles := ?t\<rparr>)"
    by (rule notify_inv_cycles[OF assms]) (use keeps pk in simp_all)
  have "set_notified now thr c \<in> set ?t" using c by (force simp: update_where_def)
  then have "\<exists>c' \<in> set ?t. cycle_key c' = fst (em_key ?e) \<and> notified_at thr c' \<noteq> None"
    using c(2) notified_set(1,3) by (intro bexI[of _ "set_notified now thr c"]) (simp_all add: em_key_def cycle_key_def[of row])
  with inv1 new have "notify_inv (db\<lparr>ig_cycles := ?t, ig_emails := ig_emails db @ [?e]\<rparr>)"
    by (simp add: notify_inv_def)
  moreover have "claim_and_notify now thr row cap db = db\<lparr>ig_cycles := ?t, ig_emails := ig_emails db @ [?e]\<rparr>"
    unfolding claim_and_notify_def using True by (rule if_P)
  ultimately show ?thesis by simp
qed

lemma record_inv: "notify_inv db \<Longrightarrow> notify_inv (record_usage_and_maybe_notify plans mb now wid plan n toks spend db)"
proof -
  assume i: "notify_inv db"
  have "notify_inv (db\<lparr>ig_cycles := t\<rparr>)"
    if "upsert_usage wid b n toks spend (ig_cycles db) = Some (row, t)" for b row t
    using upsert_keeps[OF _ that] i by (intro notify_inv_cycles[OF i]) (auto simp: notify_inv_def)
  with i show ?thesis
    by (auto simp: record_usage_and_maybe_notify_def Let_def claim_inv split: option.split)
qed

lemma ingest_inv:
  assumes "notify_inv db"
  shows "notify_inv (snd (ingest env now bk hk rs db))"
proof (cases "truthy (py_or bk hk)")
  case True
  obtain a kd where g: "get_workspace_by_api_key (ie_sha256 env) now (the (py_or bk hk)) (ig_keys db) = (a, kd)"
    by (cases "get_workspace_by_api_key (ie_sha256 env) now (the (py_or bk hk)) (ig_keys db)")
  have i0: "notify_inv (db\<lparr>ig_keys := kd\<rparr>)" using assms by (simp add: notify_inv_def)
  show ?thesis
  proof (cases a)
    case None
    with True g i0 show ?thesis by (simp add: ingest_def Let_def)
  next
    case (Some wp)
    obtain wid plan where wp: "wp = (wid, plan)" by (cases wp)
    obtain r db1 where ck: "check_quota_or_raise (ie_plans env) (ie_month_bounds env) now wid plan (length rs) (db\<lparr>ig_keys := kd\<rparr>) = (r, db1)"
      by (cases "check_quota_or_raise (ie_plans env) (ie_month_bounds env) now wid plan (length rs) (db\<lparr>ig_keys := kd\<rparr>)")
    have "pk cycle_key (ig_cycles db)" using assms by (simp add: notify_inv_def)
    with check_frame(6)[OF ck] have "pk cycle_key (ig_cycles db1)" "keeps_notified (ig_cycles db) (ig_cycles db1)"
      using seed_keeps[of "ig_cycles db" wid "cycle_bounds (ie_month_bounds env) now wid plan (ig_cycles db)"]
        keeps_refl[of "ig_cycles db"] by auto
    then have i1: "notify_inv db1" using check_frame(3)[OF ck] by (intro notify_inv_cycles[OF i0]) auto
    have i2: "notify_inv db2" if "store_batch env wid rs db1 = Some db2" for db2
      using i1 store_frame[OF that] by (simp add: notify_inv_def)
    show ?thesis using True g Some wp ck i1 i2 record_inv
      by (auto simp: ingest_def Let_def split: option.split)
  qed
next
  case False
  with assms show ?thesis by (simp add: ingest_def Let_def)
qed

fun ingest_run :: "ingest_env \<Rightarrow> (instant \<times> string option \<times> ingest_record list) list \<Rightarrow> ingest_db \<Rightarrow> ingest_db" where
  "ingest_run env [] db = db"
| "ingest_run env ((now, key, rs) # es) db = ingest_run env es (snd (ingest env now key None rs db))"

text \<open>
  Each usage warning is sent at most once: over any run of ingest requests no two e-mails name the
  same workspace, billing cycle and threshold.
\<close>

theorem usage_warning_once:
  assumes "notify_inv db"
  shows "distinct (map em_key (ig_emails (ingest_run env es db)))"
proof -
  have "notify_inv (ingest_run env es db)" using assms
    by (induction env es db rule: ingest_run.induct) (simp_all add: ingest_inv)
  then show ?thesis by (simp add: notify_inv_def)
qed

subsection \<open>A concrete workspace\<close>

definition demo_env :: ingest_env where
  "demo_env = \<lparr>ie_plans = plan_limits_seed, ie_month_bounds = (\<lambda>_. (0, 1000)), ie_sha256 = demo_sha,
     ie_streaming = None, ie_insert_fails = False\<rparr>"

definition demo_record :: ingest_record where
  "demo_record = \<lparr>ir_timestamp = 1, ir_input_tokens = 10, ir_output_tokens = 5, ir_reasoning_tokens = 0,
     ir_cost_usd = 1, ir_event_id = Some ''e1'', ir_columns = []\<rparr>"

definition demo_cycle :: "int \<Rightarrow> usd \<Rightarrow> cycle_row" where
  "demo_cycle n usd = \<lparr>cy_workspace_id = ''w1'', cy_start = 0, cy_end = 1000, cy_request_count = n, cy_token_count = 7,
     cy_spend_usd = usd, cy_notified_80_at = None, cy_notified_100_at = None\<rparr>"

definition demo_ingest_db :: "int \<Rightarrow> usd \<Rightarrow> ingest_db" where
  "demo_ingest_db n usd = \<lparr>ig_keys = legacy_db, ig_members = [], ig_cycles = [demo_cycle n usd],
     ig_records = [(''w1'', demo_record)], ig_stream = [], ig_emails = []\<rparr>"

lemma demo_lookup_key: "get_workspace_by_api_key (ie_sha256 demo_env) 5 ''bl_live_x'' (ig_keys (demo_ingest_db n usd)) =
    (Some (''w1'', ''free''), legacy_db\<lparr>kd_cache := [''h0'' \<mapsto> (''w1'', ''free'', Some ''k0'', 5)]\<rparr>)"
proof -
  have "query_key ''h0'' legacy_db = Some (''w1'', ''free'', Some ''k0'')" using demo_query by (simp add: demo_sha_def)
  then show ?thesis
    by (simp add: get_workspace_by_api_key_def store_key_def demo_env_def demo_ingest_db_def demo_sha_def Let_def)
      (simp add: legacy_db_eq)
qed

lemma demo_ingest_limits: "resolve_limits (ie_plans demo_env) (kd_workspaces (ig_keys (demo_ingest_db n usd))) ''w1'' =
    Some (merged_limits demo_ws (plan_limits_seed ! 0))"
  using demo_plan
  by (simp add: resolve_limits_def demo_env_def demo_ingest_db_def legacy_db_eq lookup_key_def[of ws_id])
    (simp add: demo_ws_def)

lemma demo_caps:
  "monthly_request_cap (merged_limits demo_ws (plan_limits_seed ! 0)) = Some 10000"
  "monthly_token_cap (merged_limits demo_ws (plan_limits_seed ! 0)) = None"
  "monthly_spend_cap_usd (merged_limits demo_ws (plan_limits_seed ! 0)) = None"
  "seat_count (merged_limits demo_ws (plan_limits_seed ! 0)) = Some 1"
  by (simp_all add: merged_limits_def no_overrides_def demo_ws_def plan_limits_seed_def)

lemma demo_cycle_lookup: "lookup_key cycle_key (''w1'', 0) [demo_cycle n usd] = Some (demo_cycle n usd)"
  by (simp add: lookup_key_def demo_cycle_def cycle_key_def)

lemma demo_accepts:
  assumes "n < 10000"
  shows "\<exists>res db'. ingest demo_env 5 (Some ''bl_live_x'') None rs (demo_ingest_db n usd) = (Inr res, db')"
proof -
  let ?db = "(demo_ingest_db n usd)\<lparr>ig_keys := legacy_db\<lparr>kd_cache := [''h0'' \<mapsto> (''w1'', ''free'', Some ''k0'', 5)]\<rparr>\<rparr>"
  have lim: "resolve_limits (ie_plans demo_env) (kd_workspaces (ig_keys ?db)) ''w1'' = Some (merged_limits demo_ws (plan_limits_seed ! 0))"
    using demo_ingest_limits[of n usd] by (simp add: demo_ingest_db_def)
  have b: "cycle_bounds (ie_month_bounds demo_env) 5 ''w1'' ''free'' cs = (0, 1000)" for cs
    by (simp add: cycle_bounds_def demo_env_def)
  have seed: "seed_cycle ''w1'' (0, 1000) [demo_cycle n usd] = [demo_cycle n usd]"
    by (rule seed_present) (simp add: demo_cycle_lookup)
  have "counter_breach (merged_limits demo_ws (plan_limits_seed ! 0)) (demo_cycle n usd) = None"
    using assms by (simp add: counter_breach_def demo_caps active_cap_def active_usd_cap_def) (simp add: demo_cycle_def)
  moreover have "seat_breach (merged_limits demo_ws (plan_limits_seed ! 0)) ''w1'' [] = None"
    by (simp add: seat_breach_def demo_caps)
  ultimately have "check_quota_or_raise (ie_plans demo_env) (ie_month_bounds demo_env) 5 ''w1'' ''free'' (length rs) ?db = (None, ?db)"
    using lim by (simp add: check_quota_or_raise_def b demo_caps active_cap_def active_usd_cap_def Let_def demo_ingest_db_def seed demo_cycle_lookup)
  then show ?thesis
    using demo_lookup_key by (simp add: ingest_def py_or_def Let_def store_batch_def demo_env_def)
qed

lemma demo_counters: "cycle_counters ''w1'' 0 (demo_ingest_db n usd) = (n, 7, usd)"
  by (simp add: cycle_counters_def demo_ingest_db_def demo_cycle_lookup counters_def) (simp add: demo_cycle_def)

lemma demo_bounds: "fst (cycle_bounds (ie_month_bounds demo_env) 5 ''w1'' ''free'' cs) = 0"
  by (simp add: cycle_bounds_def demo_env_def)

lemma demo_key: "py_or (Some ''bl_live_x'') None = Some ''bl_live_x''"
  by (simp add: py_or_def)

lemma demo_month: "5 < snd (ie_month_bounds demo_env 5)"
  by (simp add: demo_env_def)


lemma numeric_1: "numeric_12_8 1 = Some 1"
proof -
  have "\<lfloor>100000000 + 1 / 2 :: real\<rfloor> = 100000000" by (simp add: floor_unique)
  then show ?thesis by (simp add: numeric_12_8_def)
qed

theorem spend_overflow_freezes_witness:
  "\<exists>res db'. ingest demo_env 5 (Some ''bl_live_x'') None [demo_record] (demo_ingest_db 12 (19999 / 2)) = (Inr res, db') \<and>
     fst res = 1 \<and> cycle_counters ''w1'' 0 db' = (12, 7, 19999 / 2)"
proof -
  obtain res db' where i: "ingest demo_env 5 (Some ''bl_live_x'') None [demo_record] (demo_ingest_db 12 (19999 / 2)) = (Inr res, db')"
    using demo_accepts[of 12 "[demo_record]" "19999 / 2"] by auto
  have s: "numeric_12_8 (batch_spend_usd [demo_record]) = Some 1"
    by (simp add: batch_spend_usd_def demo_record_def numeric_1)
  have l: "lookup_key cycle_key (''w1'', 0) (ig_cycles (demo_ingest_db 12 (19999 / 2))) \<noteq> None"
    by (simp add: demo_ingest_db_def demo_cycle_lookup)
  from spend_overflow_freezes[OF i demo_month demo_key demo_lookup_key demo_bounds[symmetric] s _ l] i
  show ?thesis by (simp add: demo_counters)
qed

theorem replay_counts_twice_witness:
  "\<exists>res db'. ingest demo_env 5 (Some ''bl_live_x'') None [demo_record] (demo_ingest_db 12 0) = (Inr res, db') \<and>
     ig_records db' = [(''w1'', demo_record)] \<and> fst (cycle_counters ''w1'' 0 db') = 13"
proof -
  obtain res db' where i: "ingest demo_env 5 (Some ''bl_live_x'') None [demo_record] (demo_ingest_db 12 0) = (Inr res, db')"
    using demo_accepts[of 12 "[demo_record]" 0] by auto
  have s: "numeric_12_8 (batch_spend_usd [demo_record]) = Some 1"
    by (simp add: batch_spend_usd_def demo_record_def numeric_1)
  have k: "\<forall>r \<in> set [demo_record]. \<exists>x \<in> set (ig_records (demo_ingest_db 12 0)). same_event x (''w1'', r)"
    by (simp add: demo_ingest_db_def same_event_def demo_record_def)
  from replay_counts_twice[OF i demo_month _ demo_key demo_lookup_key demo_bounds[symmetric] k s] i
  show ?thesis by (simp add: demo_counters numeric_1 demo_env_def) (simp add: demo_ingest_db_def)
qed

theorem refused_batch_leaves_no_trace_witness:
  "ig_records (snd (ingest demo_env 5 None None [demo_record] (demo_ingest_db 12 0))) = [(''w1'', demo_record)] \<and>
   fst (ingest demo_env 5 None None [demo_record] (demo_ingest_db 12 0)) = Inl (Unauthorized ''Missing API key'')"
proof -
  have "ingest demo_env 5 None None [demo_record] (demo_ingest_db 12 0) = (Inl (Unauthorized ''Missing API key''), demo_ingest_db 12 0)"
    by (simp add: ingest_def py_or_def)
  with refused_batch_leaves_no_trace[OF this] show ?thesis by (simp add: demo_ingest_db_def)
qed

theorem usage_warning_once_witness:
  "distinct (map em_key (ig_emails (ingest_run demo_env [(5, Some ''bl_live_x'', [demo_record]), (6, Some ''bl_live_x'', [demo_record])]
     (demo_ingest_db 7999 0))))"
  by (rule usage_warning_once) (simp add: notify_inv_def demo_ingest_db_def pk_def)

end
