(* ===== verification/Teams.thy ===== *)
theory Teams
  imports Accounts Cloud_Ingest
begin

text \<open>
  Team management (\<open>burnlens_cloud/team_api.py\<close>): seat limits, removing members, changing roles and
  inviting. Every route sits behind \<open>require_feature("teams_view")\<close>; the activity log and the
  invitation e-mail are left out. The last section joins it with invitations (\<open>Accounts\<close>) and ingest.
\<close>

datatype team_error = Team_http http_error | Team_feature feature_error | Seat_limit_reached int int "string option"

section \<open>Seats\<close>

definition get_seat_limit :: "plan_limits_row table \<Rightarrow> workspace_row table \<Rightarrow> string \<Rightarrow> int" where
  "get_seat_limit plans wss wid =
     (case resolve_limits plans wss wid of
        None \<Rightarrow> 10 ^ 9
      | Some l \<Rightarrow> (case seat_count l of None \<Rightarrow> 10 ^ 9 | Some n \<Rightarrow> n))"

definition current_seat_count :: "string \<Rightarrow> identity_db \<Rightarrow> int" where
  "current_seat_count wid db = int (length (filter (\<lambda>m. wm_workspace_id m = wid \<and> wm_active m) (id_members db)))"

definition check_seat_limit :: "plan_limits_row table \<Rightarrow> string \<Rightarrow> identity_db \<Rightarrow> bool" where
  "check_seat_limit plans wid db \<longleftrightarrow> current_seat_count wid db \<ge> get_seat_limit plans (id_workspaces db) wid"

definition lowest_plan_with_seat_count :: "plan_limits_row table \<Rightarrow> int \<Rightarrow> string option" where
  "lowest_plan_with_seat_count plans current =
     (let plans_ok = map pl_plan (filter (\<lambda>p. case pl_seat_count p of None \<Rightarrow> True | Some c \<Rightarrow> c > current) plans)
      in find (\<lambda>c. c \<in> set plans_ok) PLAN_PRICE_ORDER)"

section \<open>Members\<close>

definition team_gate :: "plan_limits_row table \<Rightarrow> token_payload \<Rightarrow> identity_db \<Rightarrow> team_error option" where
  "team_gate plans token db =
     (case require_feature plans (id_workspaces db) ''teams_view'' token of
        Inl e \<Rightarrow> Some (Team_feature e)
      | Inr _ \<Rightarrow> (case require_role ''admin'' token of Inl e \<Rightarrow> Some (Team_http e) | Inr _ \<Rightarrow> None))"

definition list_members :: "auth_lib \<Rightarrow> plan_limits_row table \<Rightarrow> token_payload \<Rightarrow> identity_db
     \<Rightarrow> team_error + (string \<times> string \<times> string) list" where
  "list_members lib plans token db =
     (case require_feature plans (id_workspaces db) ''teams_view'' token of
        Inl e \<Rightarrow> Inl (Team_feature e)
      | Inr _ \<Rightarrow> Inr (map (\<lambda>(m, u). (wm_id m,
             (if truthy (u_email_encrypted u)
              then (case decrypt_pii (fernet_decrypt lib) (u_email_encrypted u) of
                      Inr (Some e) \<Rightarrow> e | _ \<Rightarrow> []) else []), wm_role m))
          (sort_key (wm_joined_at \<circ> fst)
             (List.map_filter (\<lambda>m. if wm_workspace_id m = tp_workspace_id token \<and> wm_active m
                then map_option (Pair m) (lookup_key u_id (wm_user_id m) (id_users db)) else None) (id_members db)))))"

definition active_member :: "string \<Rightarrow> string \<Rightarrow> member_row \<Rightarrow> bool" where
  "active_member mid wid m \<longleftrightarrow> wm_id m = mid \<and> wm_workspace_id m = wid \<and> wm_active m"

definition owner_count :: "string \<Rightarrow> identity_db \<Rightarrow> nat" where
  "owner_count wid db = length (filter (\<lambda>m. wm_workspace_id m = wid \<and> wm_role m = ''owner'' \<and> wm_active m) (id_members db))"

definition set_member :: "string \<Rightarrow> (member_row \<Rightarrow> member_row) \<Rightarrow> identity_db \<Rightarrow> identity_db" where
  "set_member mid f db = db\<lparr>id_members := update_where (\<lambda>m. wm_id m = mid) f (id_members db)\<rparr>"

definition remove_member ::
    "plan_limits_row table \<Rightarrow> string \<Rightarrow> token_payload \<Rightarrow> identity_db \<Rightarrow> (team_error + string) \<times> identity_db" where
  "remove_member plans mid token db =
     (case team_gate plans token db of
        Some e \<Rightarrow> (Inl e, db)
      | None \<Rightarrow>
          (case find (active_member mid (tp_workspace_id token)) (id_members db) of
             None \<Rightarrow> (Inl (Team_http (HTTP 404 ''Member not found'')), db)
           | Some m \<Rightarrow>
               if wm_role m = ''owner'' \<and> owner_count (tp_workspace_id token) db \<le> 1
               then (Inl (Team_http (HTTP 400 ''Cannot remove the last owner of workspace'')), db)
               else (Inr (wm_user_id m), set_member mid (\<lambda>m. m\<lparr>wm_active := False\<rparr>) db)))"

definition update_member_role ::
    "plan_limits_row table \<Rightarrow> string \<Rightarrow> string \<Rightarrow> token_payload \<Rightarrow> identity_db \<Rightarrow> (team_error + string) \<times> identity_db" where
  "update_member_role plans mid role token db =
     (case team_gate plans token db of
        Some e \<Rightarrow> (Inl e, db)
      | None \<Rightarrow>
          if role \<notin> {''viewer'', ''admin'', ''owner''} then (Inl (Team_http (HTTP 400 ''Invalid role'')), db)
          else (case find (active_member mid (tp_workspace_id token)) (id_members db) of
             None \<Rightarrow> (Inl (Team_http (HTTP 404 ''Member not found'')), db)
           | Some m \<Rightarrow>
               if wm_role m = ''owner'' \<and> role \<noteq> ''owner'' \<and> owner_count (tp_workspace_id token) db \<le> 1
               then (Inl (Team_http (HTTP 400 ''Cannot downgrade the last owner'')), db)
               else (Inr role, set_member mid (\<lambda>m. m\<lparr>wm_role := role\<rparr>) db)))"

section \<open>Inviting\<close>

definition invitation_expiry_hours :: int where
  "invitation_expiry_hours = 48"

definition invite_member ::
    "auth_lib \<Rightarrow> plan_limits_row table \<Rightarrow> string \<Rightarrow> string \<Rightarrow> instant \<Rightarrow> string \<Rightarrow> string \<Rightarrow> token_payload \<Rightarrow> identity_db
       \<Rightarrow> (team_error + string) \<times> identity_db" where
  "invite_member lib plans new_id raw now email role token db =
     (case team_gate plans token db of
        Some e \<Rightarrow> (Inl e, db)
      | None \<Rightarrow>
          let wid = tp_workspace_id token; h = lookup_hash (hmac_hex lib) (Some email)
          in if lookup_key ws_id wid (id_workspaces db) = None then (Inl (Team_http (HTTP 404 ''Workspace not found'')), db)
             else if \<exists>m \<in> set (id_members db). wm_workspace_id m = wid \<and> wm_active m \<and>
                       (\<exists>u \<in> set (id_users db). u_id u = wm_user_id m \<and> u_email_hash u = h)
             then (Inl (Team_http (HTTP 409 ''User is already a member of this workspace'')), db)
             else if check_seat_limit plans wid db
             then (Inl (Seat_limit_reached (get_seat_limit plans (id_workspaces db) wid) (current_seat_count wid db)
                     (lowest_plan_with_seat_count plans (current_seat_count wid db))), db)
             else if role \<notin> {''viewer'', ''admin''} then (Inl (Team_http (HTTP 400 ''Invalid role (must be viewer or admin)'')), db)
             else (Inr raw, db\<lparr>id_invitations := id_invitations db @
                [\<lparr>inv_id = new_id, inv_workspace_id = wid, inv_email = email, inv_role = role,
                  inv_token_hash = sha256_hex lib raw, inv_expires_at = now + invitation_expiry_hours * 3600 * 1000000,
                  inv_accepted_at = None\<rparr>]\<rparr>))"

section \<open>Owners\<close>

lemma count_update_where:
  assumes "pk key t" "m \<in> set t" "key m = k"
  shows "length (filter P (update_where (\<lambda>r. key r = k) f t)) + (if P m then 1 else 0) =
    length (filter P t) + (if P (f m) then 1 else 0)"
  using assms
proof (induction t)
  case (Cons a t)
  show ?case
  proof (cases "a = m")
    case True
    then have "update_where (\<lambda>r. key r = k) f t = t"
      using Cons.prems by (auto simp: pk_def update_where_def image_iff intro!: map_idI)
    with True Cons.prems show ?thesis by (auto simp: update_where_def)
  next
    case False
    then have "key a \<noteq> k" using Cons.prems by (auto simp: pk_def)
    with False Cons show ?thesis by (auto simp: update_where_def pk_def)
  qed
qed simp

datatype team_event = Remove string token_payload | Change_role string string token_payload

fun team_step :: "plan_limits_row table \<Rightarrow> team_event \<Rightarrow> identity_db \<Rightarrow> identity_db" where
  "team_step plans (Remove mid t) db = snd (remove_member plans mid t db)"
| "team_step plans (Change_role mid role t) db = snd (update_member_role plans mid role t db)"

lemma set_member_owner_count:
  assumes "pk wm_id (id_members db)" "m \<in> set (id_members db)" "wm_id m = mid" "wm_workspace_id (f m) = wm_workspace_id m"
    and "wm_workspace_id m = wid \<Longrightarrow> wm_role m = ''owner'' \<Longrightarrow> wm_active m \<Longrightarrow> wm_role (f m) = ''owner'' \<and> wm_active (f m) \<or> 1 < owner_count wid db"
    and "1 \<le> owner_count wid db"
  shows "1 \<le> owner_count wid (set_member mid f db)"
  using count_update_where[OF assms(1-3), of "\<lambda>m. wm_workspace_id m = wid \<and> wm_role m = ''owner'' \<and> wm_active m" f] assms(4-6)
  by (auto simp: owner_count_def set_member_def split: if_splits)

lemma set_member_pk: "pk wm_id (id_members db) \<Longrightarrow> (\<And>m. wm_id (f m) = wm_id m) \<Longrightarrow> pk wm_id (id_members (set_member mid f db))"
  by (simp add: set_member_def pk_update_where)

definition owned :: "string \<Rightarrow> identity_db \<Rightarrow> bool" where
  "owned wid db \<longleftrightarrow> pk wm_id (id_members db) \<and> 1 \<le> owner_count wid db"

lemma owned_step:
  assumes "owned wid db"
  shows "owned wid (team_step plans e db)"
proof (cases e)
  case (Remove mid t)
  show ?thesis
  proof (cases "snd (remove_member plans mid t db) = db")
    case False
    then obtain m where m: "find (active_member mid (tp_workspace_id t)) (id_members db) = Some m"
      "\<not> (wm_role m = ''owner'' \<and> owner_count (tp_workspace_id t) db \<le> 1)"
      "snd (remove_member plans mid t db) = set_member mid (\<lambda>m. m\<lparr>wm_active := False\<rparr>) db"
      by (auto simp: remove_member_def split: option.splits if_splits)
    have "1 \<le> owner_count wid (set_member mid (\<lambda>m. m\<lparr>wm_active := False\<rparr>) db)"
      by (rule set_member_owner_count[of db m])
        (use assms m(2) find_Some_setD[OF m(1)] in \<open>auto simp: owned_def active_member_def\<close>)
    with assms Remove m(3) show ?thesis by (simp add: owned_def set_member_pk)
  qed (use assms Remove in simp)
next
  case (Change_role mid role t)
  show ?thesis
  proof (cases "snd (update_member_role plans mid role t db) = db")
    case False
    then obtain m where m: "find (active_member mid (tp_workspace_id t)) (id_members db) = Some m"
      "\<not> (wm_role m = ''owner'' \<and> role \<noteq> ''owner'' \<and> owner_count (tp_workspace_id t) db \<le> 1)"
      "snd (update_member_role plans mid role t db) = set_member mid (\<lambda>m. m\<lparr>wm_role := role\<rparr>) db"
      by (auto simp: update_member_role_def split: option.splits if_splits)
    have "1 \<le> owner_count wid (set_member mid (\<lambda>m. m\<lparr>wm_role := role\<rparr>) db)"
      by (rule set_member_owner_count[of db m])
        (use assms m(2) find_Some_setD[OF m(1)] in \<open>auto simp: owned_def active_member_def\<close>)
    with assms Change_role m(3) show ?thesis by (simp add: owned_def set_member_pk)
  qed (use assms Change_role in simp)
qed

interpretation ownership: absorbing_system "team_step plans" "\<lambda>_. True" "\<lambda>_. True" "owned wid" for plans wid
  by unfold_locales (auto intro: owned_step)

section \<open>Properties\<close>


text \<open>
  Seats are counted when an invitation is sent, not when it is accepted: an invitation that was sent
  while a seat was free is honoured whatever the member count has become since, and the new member
  is over the limit when the seats are gone by then.
\<close>

theorem accepted_over_seat_limit:
  assumes "accept_invitation lib False mid now raw auth db = (Inr Joined, db')"
    and "find (\<lambda>i. inv_token_hash i = sha256_hex lib raw) (id_invitations db) = Some i"
    and "decode_jwt lib now (drop 7 (the auth)) = Some p"
    and "find (\<lambda>m. wm_workspace_id m = inv_workspace_id i \<and> wm_user_id m = tp_user_id p \<and> wm_active m) (id_members db) = None"
    and "check_seat_limit plans (inv_workspace_id i) db"
  shows "current_seat_count (inv_workspace_id i) db' > get_seat_limit plans (id_workspaces db') (inv_workspace_id i)"
proof -
  obtain r where m: "id_members db' = id_members db @ [r]" "wm_workspace_id r = inv_workspace_id i" "wm_active r"
    "id_workspaces db' = id_workspaces db"
    using assms(1-4) by (auto simp: accept_invitation_def ensure_workspace_member_def split: if_splits option.splits)
  then have "current_seat_count (inv_workspace_id i) db' = current_seat_count (inv_workspace_id i) db + 1"
    by (simp add: current_seat_count_def)
  with assms(5) m(4) show ?thesis by (simp add: check_seat_limit_def)
qed

text \<open>
  A workspace with more active members than seats cannot ingest at all: every batch sent with its
  keys is refused with a 429, and nothing is stored, until members are removed or seats added.
\<close>

theorem overfull_workspace_cannot_ingest:
  assumes "py_or bk hk = Some key" "key \<noteq> []"
    and "get_workspace_by_api_key (ie_sha256 env) now key (ig_keys db) = (Some (wid, plan), kd)"
    and "resolve_limits (ie_plans env) (kd_workspaces (ig_keys db)) wid = Some l" "seat_count l = Some n" "0 < n"
    and "int (length (filter (\<lambda>m. wm_workspace_id m = wid \<and> wm_active m) (ig_members db))) > n"
  shows "\<exists>e. fst (ingest env now bk hk rs db) = Inl (Too_many_requests e)"
proof -
  have ws: "kd_workspaces kd = kd_workspaces (ig_keys db)"
    using lookup_frame(1)[of "ie_sha256 env" now key "ig_keys db"] assms(3) by simp
  have "seat_breach l wid (ig_members db) \<noteq> None"
    using assms(5-7) by (simp add: seat_breach_def active_cap_def)
  then have "\<exists>e db1. check_quota_or_raise (ie_plans env) (ie_month_bounds env) now wid plan (length rs) (db\<lparr>ig_keys := kd\<rparr>) = (Some e, db1)"
    using assms(4) ws by (auto simp: check_quota_or_raise_def Let_def split: option.split)
  then show ?thesis using assms(1-3) by (auto simp: ingest_def)
qed

subsection \<open>A concrete team\<close>

definition team_member :: "string \<Rightarrow> string \<Rightarrow> string \<Rightarrow> member_row" where
  "team_member mid wid role = \<lparr>wm_id = mid, wm_workspace_id = wid, wm_user_id = mid, wm_role = role, wm_joined_at = 0, wm_active = True\<rparr>"

definition team_db :: identity_db where
  "team_db = demo_identity\<lparr>id_members := [team_member ''m1'' ''w1'' ''owner''],
     id_invitations := [\<lparr>inv_id = ''i1'', inv_workspace_id = ''w1'', inv_email = ''a@b.c'', inv_role = ''viewer'',
       inv_token_hash = ''t1'', inv_expires_at = 100, inv_accepted_at = None\<rparr>]\<rparr>"


lemma team_full: "check_seat_limit plan_limits_seed ''w1'' team_db"
  by (simp add: check_seat_limit_def current_seat_count_def get_seat_limit_def resolve_limits_def team_db_def
      demo_identity_def team_member_def lookup_key_def demo_ws_def plan_limits_seed_def merged_limits_def no_overrides_def)

lemma team_decode: "decode_jwt demo_lib 50 ''s'' = Some (session_payload 0 ''w1'' ''u1'' ''admin'' ''free'' True)"
  by (simp add: decode_jwt_def demo_lib_def unix_seconds_def dump_payload_def session_payload_def dict_get_def)

lemma team_accept: "\<exists>db'. accept_invitation demo_lib False ''m2'' 50 ''t1'' (Some ''Bearer s'') team_db = (Inr Joined, db')"
proof -
  have "lookup_key u_id ''u1'' (id_users team_db) = Some demo_user"
    by (simp add: team_db_def demo_identity_def lookup_key_def demo_user_def)
  moreover have "u_email_hash demo_user = lookup_hash (hmac_hex demo_lib) (Some ''a@b.c'')" by code_simp
  ultimately show ?thesis
    using team_decode
    by (simp add: accept_invitation_def team_db_def session_payload_def split: prod.split) (simp add: demo_lib_def)
qed

theorem accepted_over_seat_limit_witness:
  "\<exists>db'. accept_invitation demo_lib False ''m2'' 50 ''t1'' (Some ''Bearer s'') team_db = (Inr Joined, db') \<and>
     current_seat_count ''w1'' db' > get_seat_limit plan_limits_seed (id_workspaces db') ''w1''"
proof -
  obtain db' where a: "accept_invitation demo_lib False ''m2'' 50 ''t1'' (Some ''Bearer s'') team_db = (Inr Joined, db')"
    using team_accept by blast
  let ?i = "hd (id_invitations team_db)"
  have i: "find (\<lambda>i. inv_token_hash i = sha256_hex demo_lib ''t1'') (id_invitations team_db) = Some ?i"
    "inv_workspace_id ?i = ''w1''" by (simp_all add: team_db_def demo_lib_def)
  have "find (\<lambda>m. wm_workspace_id m = inv_workspace_id ?i \<and> wm_user_id m = tp_user_id (session_payload 0 ''w1'' ''u1'' ''admin'' ''free'' True) \<and> wm_active m)
      (id_members team_db) = None"
    by (simp add: i team_db_def team_member_def session_payload_def)
  from accepted_over_seat_limit[OF a i(1) _ this, of plan_limits_seed] team_decode team_full a show ?thesis
    by (simp add: i(2))
qed

theorem overfull_workspace_cannot_ingest_witness:
  "\<exists>e. fst (ingest demo_env 5 (Some ''bl_live_x'') None [demo_record]
     ((demo_ingest_db 3 0)\<lparr>ig_members := [team_member ''m1'' ''w1'' ''owner'', team_member ''m2'' ''w1'' ''viewer'']\<rparr>)) =
   Inl (Too_many_requests e)"
  by (rule overfull_workspace_cannot_ingest[OF demo_key _ _ _ demo_caps(4)])
    (use demo_lookup_key[of 3 0] demo_ingest_limits[of 3 0] in \<open>simp_all add: demo_ingest_db_def team_member_def\<close>)

end
