(* ===== verification/Billing.thy ===== *)
theory Billing
  imports Cloud_Ingest
begin

text \<open>
  Paddle billing (\<open>burnlens_cloud/billing.py\<close>): the fail-soft payload readers, the signed and
  deduplicated webhook with its handlers, and the plan-change, cancel and reactivate endpoints. A
  decoded payload is a \<open>json\<close> value; reading a key of something that is not an object raises, which is
  \<open>None\<close> here. \<open>datetime.fromisoformat\<close>, \<open>int\<close> on a JSON value, \<open>json.loads\<close> and Paddle's answers
  are parameters. Of the receipt and operator-alert handlers, which only send e-mail, the model keeps
  when they raise. Workspace ids in payloads are taken to be well-formed UUIDs.
\<close>

section \<open>State\<close>

record billing_row = workspace_row +
  bw_customer_encrypted :: "string option"
  bw_customer_hash :: "string option"
  bw_subscription_encrypted :: "string option"
  bw_subscription_hash :: "string option"
  bw_status :: "string option"
  bw_trial_ends_at :: "instant option"
  bw_period_ends_at :: "instant option"
  bw_cancel_at_period_end :: bool
  bw_price_cents :: "int option"
  bw_currency :: "string option"
  bw_scheduled_plan :: "string option"
  bw_scheduled_change_at :: "instant option"

record paddle_event_row =
  pe_event_id :: string
  pe_event_type :: string
  pe_processed :: bool
  pe_error :: bool

record survey_row =
  cs_workspace_id :: string
  cs_reason_code :: "string option"
  cs_reason_text :: "string option"
  cs_plan_at_cancel :: string

datatype paddle_call =
    Patch_items string bool \<comment> \<open>price id, prorated immediately (else at the next period, unbilled)\<close>
  | Cancel_next_period
  | Clear_scheduled_change

record billing_db =
  bd_workspaces :: "billing_row table"
  bd_cycles :: "cycle_row table"
  bd_events :: "paddle_event_row table"
  bd_surveys :: "survey_row table"
  bd_calls :: "(string \<times> paddle_call) list" \<comment> \<open>requests sent to Paddle, with the subscription id\<close>

record billing_env =
  be_parse_iso :: "string \<Rightarrow> instant option"
  be_int :: "json \<Rightarrow> int option" \<comment> \<open>\<open>None\<close>: TypeError or ValueError\<close>
  be_prices :: "(string \<times> string) list" \<comment> \<open>\<open>plan_limits\<close>: price id and plan\<close>
  be_cloud_price :: "bool \<Rightarrow> string" \<comment> \<open>the configured price id, monthly or annual\<close>
  be_teams_price :: "bool \<Rightarrow> string"
  be_encrypt :: "string \<Rightarrow> string"
  be_decrypt :: "string \<Rightarrow> string option"
  be_hmac :: "string \<Rightarrow> string"
  be_api_key :: string
  be_webhook_secret :: string
  be_sign :: "string \<Rightarrow> string \<Rightarrow> string" \<comment> \<open>HMAC-SHA256, hexadecimal\<close>
  be_int_str :: "string \<Rightarrow> int option"
  be_json :: "string \<Rightarrow> json option"

section \<open>Payload readers\<close>

definition parse_iso :: "billing_env \<Rightarrow> json \<Rightarrow> instant option" where
  "parse_iso env v = (case v of JStr s \<Rightarrow> if s = [] then None else be_parse_iso env s | _ \<Rightarrow> None)"

definition extract_period_end :: "billing_env \<Rightarrow> json \<Rightarrow> instant option" where
  "extract_period_end env data =
     (case jget2 data ''current_billing_period'' ''ends_at'' of None \<Rightarrow> None | Some v \<Rightarrow> parse_iso env v)"

definition extract_period_start :: "billing_env \<Rightarrow> json \<Rightarrow> instant option" where
  "extract_period_start env data =
     (case jget2 data ''current_billing_period'' ''starts_at'' of None \<Rightarrow> None | Some v \<Rightarrow> parse_iso env v)"

fun first_trial_end :: "json list \<Rightarrow> json option option" where
  "first_trial_end [] = Some None"
| "first_trial_end (item # items) =
     (case jget2 (or_empty item) ''trial_dates'' ''ends_at'' of
        None \<Rightarrow> None
      | Some v \<Rightarrow> if json_truthy v then Some (Some v) else first_trial_end items)"

definition extract_trial_end :: "billing_env \<Rightarrow> json \<Rightarrow> instant option" where
  "extract_trial_end env data =
     (case Option.bind (jget data ''items'') (\<lambda>items.
             if json_truthy items then Option.bind (iterate_json items) first_trial_end else Some None) of
        None \<Rightarrow> None
      | Some (Some v) \<Rightarrow> parse_iso env v
      | Some None \<Rightarrow> (case jget2 data ''trial_dates'' ''ends_at'' of None \<Rightarrow> None | Some v \<Rightarrow> parse_iso env v))"

definition extract_cancel_at_period_end :: "json \<Rightarrow> bool" where
  "extract_cancel_at_period_end data = (jget2 data ''scheduled_change'' ''action'' = Some (JStr ''cancel''))"

text \<open>\<open>items[0]\<close>: a list gives its head, a string its first character, an object raises KeyError.\<close>

fun first_item :: "json \<Rightarrow> json option" where
  "first_item (JArr (x # xs)) = Some x"
| "first_item (JStr (c # cs)) = Some (JStr [c])"
| "first_item _ = None"

definition extract_price_id :: "json \<Rightarrow> json" where
  "extract_price_id data =
     (case Option.bind (jget data ''items'') (\<lambda>items.
         if \<not> json_truthy items then Some JNull
         else Option.bind (first_item items) (\<lambda>i. jget2 (or_empty i) ''price'' ''id'')) of
        None \<Rightarrow> JNull | Some v \<Rightarrow> v)"

text \<open>
  \<open>_extract_price\<close> catches TypeError and ValueError only: an AttributeError or KeyError of a
  malformed payload leaves the handler (\<open>None\<close>); a number or \<open>true\<close> in place of the list is a TypeError.
\<close>

definition is_container :: "json \<Rightarrow> bool" where
  "is_container j = (case j of JArr _ \<Rightarrow> True | JObj _ \<Rightarrow> True | JStr _ \<Rightarrow> True | _ \<Rightarrow> False)"

definition extract_price :: "billing_env \<Rightarrow> json \<Rightarrow> (int option \<times> string option) option" where
  "extract_price env data =
     Option.bind (jget data ''items'') (\<lambda>items.
       if \<not> json_truthy items then Some (None, None)
       else if \<not> is_container items then Some (None, None)
       else Option.bind (first_item items) (\<lambda>i.
         Option.bind (jget (or_empty i) ''price'') (\<lambda>price.
           Option.bind (jget (or_empty price) ''unit_price'') (\<lambda>unit.
             Option.bind (jget (or_empty unit) ''amount'') (\<lambda>amount.
               Option.bind (jget (or_empty unit) ''currency_code'') (\<lambda>currency.
                 let cur = (case currency of JStr s \<Rightarrow> Some (upper_ascii s) | _ \<Rightarrow> None)
                 in if amount = JNull then Some (None, cur)
                    else case be_int env amount of None \<Rightarrow> Some (None, None) | Some c \<Rightarrow> Some (Some c, cur)))))))"

section \<open>Plans and prices\<close>

definition plan_to_price_id :: "billing_env \<Rightarrow> string \<Rightarrow> string \<Rightarrow> string option" where
  "plan_to_price_id env plan period =
     (let pid = (if plan = ''cloud'' then be_cloud_price env (period = ''annual'')
                 else if plan = ''teams'' then be_teams_price env (period = ''annual'') else [])
      in if pid = [] then None else Some pid)"

definition plan_from_price_id :: "billing_env \<Rightarrow> string \<Rightarrow> string" where
  "plan_from_price_id env price_id =
     (if price_id = [] then ''free''
      else case map_of (be_prices env) price_id of
             Some plan \<Rightarrow> plan
           | None \<Rightarrow> if price_id \<in> {be_cloud_price env False, be_cloud_price env True} then ''cloud''
                     else if price_id \<in> {be_teams_price env False, be_teams_price env True} then ''teams''
                     else ''free'')"

text \<open>
  \<open>v or None\<close> of a value that is then used as a string: \<open>None\<close> when it is neither falsy nor a string,
  which the hash, the cipher or the database driver rejects by raising.
\<close>

definition opt_str :: "json \<Rightarrow> string option option" where
  "opt_str j = (if \<not> json_truthy j then Some None else case j of JStr s \<Rightarrow> Some (Some s) | _ \<Rightarrow> None)"

definition str_or :: "string \<Rightarrow> json \<Rightarrow> string option" where
  "str_or d j = map_option (\<lambda>s. case s of None \<Rightarrow> d | Some v \<Rightarrow> v) (opt_str j)"

definition sub_id_hash :: "billing_env \<Rightarrow> string option \<Rightarrow> string option" where
  "sub_id_hash env sid = (if truthy sid then lookup_hash (be_hmac env) sid else None)"

definition by_subscription :: "string option \<Rightarrow> billing_row \<Rightarrow> bool" where
  "by_subscription h w \<longleftrightarrow> h \<noteq> None \<and> bw_subscription_hash w = h"

definition upd_billing :: "(billing_row \<Rightarrow> bool) \<Rightarrow> (billing_row \<Rightarrow> billing_row) \<Rightarrow> billing_db \<Rightarrow> billing_db" where
  "upd_billing p f db = db\<lparr>bd_workspaces := update_where p f (bd_workspaces db)\<rparr>"

definition seed_period :: "billing_env \<Rightarrow> json \<Rightarrow> string option \<Rightarrow> billing_db \<Rightarrow> billing_db" where
  "seed_period env data wid db =
     (case (extract_period_start env data, extract_period_end env data, wid) of
        (Some s, Some e, Some w) \<Rightarrow> db\<lparr>bd_cycles := seed_cycle w (s, e) (bd_cycles db)\<rparr>
      | _ \<Rightarrow> db)"

section \<open>Webhook handlers\<close>

text \<open>The first component is \<open>False\<close> when the handler raises.\<close>

definition set_lifecycle :: "billing_env \<Rightarrow> json \<Rightarrow> string \<Rightarrow> string \<Rightarrow> int option \<times> string option \<Rightarrow> billing_row \<Rightarrow> billing_row" where
  "set_lifecycle env data plan status price r = r\<lparr>ws_plan := plan, bw_status := Some status,
     bw_trial_ends_at := extract_trial_end env data, bw_period_ends_at := extract_period_end env data,
     bw_cancel_at_period_end := extract_cancel_at_period_end data,
     bw_price_cents := fst price, bw_currency := snd price\<rparr>"

definition set_paddle_ids :: "billing_env \<Rightarrow> string option \<Rightarrow> string option \<Rightarrow> billing_row \<Rightarrow> billing_row" where
  "set_paddle_ids env cust sid r = r\<lparr>
     bw_customer_encrypted := encrypt_pii (be_encrypt env) cust, bw_customer_hash := lookup_hash (be_hmac env) cust,
     bw_subscription_encrypted := encrypt_pii (be_encrypt env) sid, bw_subscription_hash := sub_id_hash env sid\<rparr>"

definition handle_subscription_activated :: "billing_env \<Rightarrow> json \<Rightarrow> billing_db \<Rightarrow> bool \<times> billing_db" where
  "handle_subscription_activated env data db =
     (case (jget2 data ''custom_data'' ''workspace_id'', Option.bind (jget data ''status'') (str_or ''active''),
            str_or [] (extract_price_id data), extract_price env data) of
        (Some wid, Some status, Some price_id, Some price) \<Rightarrow>
          (case (opt_str wid, Option.bind (jget data ''customer_id'') opt_str, Option.bind (jget data ''id'') opt_str) of
             (Some None, _, _) \<Rightarrow> (True, db)
           | (Some (Some w), Some cust, Some sid) \<Rightarrow>
               (True, seed_period env data (Some w)
                  (upd_billing (\<lambda>r. ws_id r = w)
                     (\<lambda>r. set_lifecycle env data (plan_from_price_id env price_id) status price (set_paddle_ids env cust sid r)) db))
           | _ \<Rightarrow> (False, db))
      | _ \<Rightarrow> (False, db))"

definition handle_subscription_updated :: "billing_env \<Rightarrow> json \<Rightarrow> billing_db \<Rightarrow> bool \<times> billing_db" where
  "handle_subscription_updated env data db =
     (case (Option.bind (jget data ''id'') opt_str, Option.bind (jget data ''status'') (str_or ''active''),
            str_or [] (extract_price_id data), extract_price env data) of
        (Some sid, Some status, Some price_id, Some price) \<Rightarrow>
          let h = sub_id_hash env sid;
              db1 = upd_billing (by_subscription h)
                (set_lifecycle env data (plan_from_price_id env price_id) status price) db
          in (True, seed_period env data (map_option ws_id (find (by_subscription h) (bd_workspaces db1))) db1)
      | _ \<Rightarrow> (False, db))"

definition handle_subscription_canceled :: "billing_env \<Rightarrow> json \<Rightarrow> billing_db \<Rightarrow> bool \<times> billing_db" where
  "handle_subscription_canceled env data db =
     (case Option.bind (jget data ''id'') opt_str of
        None \<Rightarrow> (False, db)
      | Some sid \<Rightarrow> (True, upd_billing (by_subscription (sub_id_hash env sid))
          (\<lambda>r. r\<lparr>ws_plan := ''free'', bw_status := Some ''canceled''\<rparr>) db))"

definition handle_payment_failed :: "billing_env \<Rightarrow> json \<Rightarrow> billing_db \<Rightarrow> bool \<times> billing_db" where
  "handle_payment_failed env data db =
     (case Option.bind (jget data ''subscription_id'')
             (\<lambda>s. if json_truthy s then Some s else jget2 data ''subscription'' ''id'') of
        None \<Rightarrow> (False, db)
      | Some s \<Rightarrow>
          (case opt_str s of
             None \<Rightarrow> (False, db)
           | Some sid \<Rightarrow> (True, upd_billing (by_subscription (sub_id_hash env sid))
               (\<lambda>r. r\<lparr>bw_status := Some ''past_due''\<rparr>) db)))"

definition handle_transaction_completed :: "json \<Rightarrow> bool" where
  "handle_transaction_completed data =
     (jget2 data ''custom_data'' ''workspace_id'' \<noteq> None)"

text \<open>\<open>None\<close>: raised; otherwise whether the operator is alerted.\<close>

definition handle_api_key_lifecycle :: "billing_env \<Rightarrow> json \<Rightarrow> bool option" where
  "handle_api_key_lifecycle env data =
     (case Option.bind (jget data ''key'') opt_str of
        None \<Rightarrow> None
      | Some key \<Rightarrow>
          let k = (case key of None \<Rightarrow> [] | Some k \<Rightarrow> k); last4 = drop (length k - 4) k
          in Some (last4 = [] \<or> startswith (rev (be_api_key env)) (rev last4)))"

definition dispatch_event :: "billing_env \<Rightarrow> string \<Rightarrow> json \<Rightarrow> billing_db \<Rightarrow> bool \<times> billing_db" where
  "dispatch_event env event_type data db =
     (if event_type \<in> {''subscription.activated'', ''subscription.trialing''} then handle_subscription_activated env data db
      else if event_type = ''subscription.updated'' then handle_subscription_updated env data db
      else if event_type \<in> {''subscription.canceled'', ''subscription.paused''} then handle_subscription_canceled env data db
      else if event_type = ''transaction.payment_failed'' then handle_payment_failed env data db
      else if event_type = ''transaction.completed'' then (handle_transaction_completed data, db)
      else if event_type \<in> {''api_key.expiring'', ''api_key.expired'', ''api_key.revoked''}
      then (handle_api_key_lifecycle env data \<noteq> None, db)
      else (True, db))"

section \<open>The webhook\<close>

text \<open>\<open>dict(p.split("=", 1) for p in header.split(";"))\<close>: \<open>None\<close> when a part has no equals sign.\<close>

fun split_once :: "char \<Rightarrow> string \<Rightarrow> (string \<times> string) option" where
  "split_once d [] = None"
| "split_once d (c # s) = (if c = d then Some ([], s) else map_option (\<lambda>(a, b). (c # a, b)) (split_once d s))"

fun sig_parts :: "string list \<Rightarrow> (string \<times> string) list option" where
  "sig_parts [] = Some []"
| "sig_parts (p # ps) = (case (split_once CHR ''='' p, sig_parts ps) of
     (Some kv, Some kvs) \<Rightarrow> Some (kvs @ [kv]) | _ \<Rightarrow> None)"

text \<open>
  \<open>None\<close>: \<open>hmac.compare_digest\<close> refuses a string with a character outside ASCII by raising TypeError.
\<close>

definition verify_signature :: "billing_env \<Rightarrow> int \<Rightarrow> string \<Rightarrow> string \<Rightarrow> bool option" where
  "verify_signature env now header raw_body =
     (if header = [] then Some False
      else case sig_parts (split_on CHR '';'' header) of
             None \<Rightarrow> Some False
           | Some parts \<Rightarrow>
               (case (map_of parts ''ts'', map_of parts ''h1'') of
                  (Some ts, Some h1) \<Rightarrow>
                    if ts = [] \<or> h1 = [] then Some False
                    else (case be_int_str env ts of
                            None \<Rightarrow> Some False
                          | Some t \<Rightarrow>
                              if \<bar>now - t\<bar> > 60 then Some False
                              else if \<not> is_ascii h1 then None
                              else Some (be_sign env (be_webhook_secret env) (ts @ '':'' @ raw_body) = h1))
                | _ \<Rightarrow> Some False))"

datatype webhook_result = Received | Deduped

definition mark_event :: "string \<Rightarrow> (paddle_event_row \<Rightarrow> paddle_event_row) \<Rightarrow> billing_db \<Rightarrow> billing_db" where
  "mark_event event_id f db = db\<lparr>bd_events := update_where (\<lambda>e. pe_event_id e = event_id) f (bd_events db)\<rparr>"

definition process_event :: "billing_env \<Rightarrow> string \<Rightarrow> string \<Rightarrow> json \<Rightarrow> billing_db \<Rightarrow> webhook_result \<times> billing_db" where
  "process_event env event_id event_type data db =
     (if event_id \<in> pe_event_id ` set (bd_events db) then (Deduped, db)
      else case dispatch_event env event_type data (db\<lparr>bd_events := bd_events db @
                 [\<lparr>pe_event_id = event_id, pe_event_type = event_type, pe_processed = False, pe_error = False\<rparr>]\<rparr>) of
             (True, db') \<Rightarrow> (Received, mark_event event_id (\<lambda>e. e\<lparr>pe_processed := True\<rparr>) db')
           | (False, db') \<Rightarrow> (Received, mark_event event_id (\<lambda>e. e\<lparr>pe_error := True\<rparr>) db'))"

definition paddle_webhook ::
    "billing_env \<Rightarrow> int \<Rightarrow> string \<Rightarrow> string \<Rightarrow> billing_db \<Rightarrow> (http_error + webhook_result) \<times> billing_db" where
  "paddle_webhook env now sig_header raw_body db =
     (if be_webhook_secret env = [] then (Inl (HTTP 500 ''Paddle webhook secret not configured''), db)
      else if sig_header = [] then (Inl (HTTP 401 ''Missing signature''), db)
      else case verify_signature env now sig_header raw_body of
        None \<Rightarrow> (Inl (HTTP 500 ''Internal Server Error''), db)
      | Some False \<Rightarrow> (Inl (HTTP 401 ''Invalid signature''), db)
      | Some True \<Rightarrow>
          (case be_json env raw_body of
             None \<Rightarrow> (Inl (HTTP 400 ''Invalid JSON''), db)
           | Some (JObj kvs) \<Rightarrow>
               let field = (\<lambda>k. map_of kvs k);
                   id = (case field ''event_id'' of Some v \<Rightarrow> if json_truthy v then Some v else field ''id'' | None \<Rightarrow> field ''id'')
               in (case (id, case field ''event_type'' of None \<Rightarrow> JStr [] | Some t \<Rightarrow> t) of
                     (Some (JStr i), JStr t) \<Rightarrow>
                       if i = [] then (Inl (HTTP 400 ''Missing event_id''), db)
                       else (case process_event env i t (case field ''data'' of None \<Rightarrow> JObj [] | Some d \<Rightarrow> or_empty d) db of
                               (res, db') \<Rightarrow> (Inr res, db'))
                   | (Some v, t) \<Rightarrow> (if json_truthy v then Inl (HTTP 500 ''Internal Server Error'')
                                      else Inl (HTTP 400 ''Missing event_id''), db)
                   | (None, t) \<Rightarrow> (Inl (HTTP 400 ''Missing event_id''), db))
           | Some _ \<Rightarrow> (Inl (HTTP 500 ''Internal Server Error''), db)))"

section \<open>Plan change, cancel and reactivate\<close>

record billing_summary =
  su_plan :: string
  su_price_cents :: "int option"
  su_currency :: "string option"
  su_status :: string
  su_trial_ends_at :: "instant option"
  su_period_ends_at :: "instant option"
  su_cancel_at_period_end :: bool
  su_scheduled_plan :: "string option"
  su_scheduled_change_at :: "instant option"

definition load_billing_summary :: "string \<Rightarrow> billing_db \<Rightarrow> http_error + billing_summary" where
  "load_billing_summary wid db =
     (case lookup_key ws_id wid (bd_workspaces db) of
        None \<Rightarrow> Inl (HTTP 404 ''Workspace not found'')
      | Some r \<Rightarrow> Inr \<lparr>su_plan = ws_plan r, su_price_cents = bw_price_cents r, su_currency = bw_currency r,
          su_status = (if truthy (bw_status r) then the (bw_status r) else ''active''),
          su_trial_ends_at = bw_trial_ends_at r, su_period_ends_at = bw_period_ends_at r,
          su_cancel_at_period_end = bw_cancel_at_period_end r,
          su_scheduled_plan = bw_scheduled_plan r, su_scheduled_change_at = bw_scheduled_change_at r\<rparr>)"

definition PLAN_TIER :: "string \<rightharpoonup> int" where
  "PLAN_TIER = [''free'' \<mapsto> 0, ''cloud'' \<mapsto> 1, ''teams'' \<mapsto> 2]"

definition PLAN_PRICE_CENTS :: "string \<rightharpoonup> int" where
  "PLAN_PRICE_CENTS = [''cloud'' \<mapsto> 2900, ''teams'' \<mapsto> 9900]"

definition validate_target_plan :: "string \<Rightarrow> string option" where
  "validate_target_plan v = (let l = lower (strip v) in if l \<in> {''cloud'', ''teams''} then Some l else None)"

definition current_plan :: "billing_row \<Rightarrow> string" where
  "current_plan r = (if ws_plan r = [] then ''free'' else lower (ws_plan r))"

definition billing_pii :: "billing_env \<Rightarrow> string option \<Rightarrow> pii_error + string option" where
  "billing_pii env val = (if truthy val then decrypt_pii (be_decrypt env) val else Inr None)"

definition current_period :: "billing_row \<Rightarrow> string" where
  "current_period r =
     (if (case bw_price_cents r of None \<Rightarrow> 0 | Some c \<Rightarrow> c) > dict_get PLAN_PRICE_CENTS (current_plan r) 0
      then ''annual'' else ''monthly'')"

datatype paddle_answer = No_response | Status nat

text \<open>One request to Paddle, logged; the workspace row is written only after an answer below 400.\<close>

definition paddle_then ::
    "(string \<Rightarrow> paddle_call \<Rightarrow> paddle_answer) \<Rightarrow> string \<Rightarrow> paddle_call \<Rightarrow> string \<Rightarrow> string
       \<Rightarrow> (billing_row \<Rightarrow> billing_row) \<Rightarrow> (billing_db \<Rightarrow> billing_db) \<Rightarrow> billing_db \<Rightarrow> (http_error + billing_summary) \<times> billing_db" where
  "paddle_then paddle sub call rejected wid f after db =
     (let db1 = db\<lparr>bd_calls := bd_calls db @ [(sub, call)]\<rparr>
      in case paddle sub call of
           No_response \<Rightarrow> (Inl (HTTP 502 ''Billing provider did not respond''), db1)
         | Status c \<Rightarrow>
             if c \<ge> 500 then (Inl (HTTP 502 ''Billing provider error''), db1)
             else if c \<ge> 400 then (Inl (HTTP 502 rejected), db1)
             else let db2 = after (upd_billing (\<lambda>r. ws_id r = wid) f db1) in (load_billing_summary wid db2, db2))"

definition change_plan ::
    "billing_env \<Rightarrow> (string \<Rightarrow> paddle_call \<Rightarrow> paddle_answer) \<Rightarrow> token_payload \<Rightarrow> string \<Rightarrow> billing_db
       \<Rightarrow> (http_error + billing_summary) \<times> billing_db" where
  "change_plan env paddle token body db =
     (case validate_target_plan body of
        None \<Rightarrow> (Inl (HTTP 422 ''target_plan must be one of: cloud, teams''), db)
      | Some target \<Rightarrow>
          if be_api_key env = [] then (Inl (HTTP 500 ''Paddle not configured''), db)
          else let wid = tp_workspace_id token in
          (case lookup_key ws_id wid (bd_workspaces db) of
             None \<Rightarrow> (Inl (HTTP 404 ''Workspace not found''), db)
           | Some r \<Rightarrow>
               (case billing_pii env (bw_subscription_encrypted r) of
                  Inl e \<Rightarrow> (Inl (HTTP 500 ''Internal Server Error''), db)
                | Inr sub \<Rightarrow>
                    if current_plan r = target then (load_billing_summary wid db, db)
                    else if target = ''free'' then (Inl (HTTP 400 ''Downgrading to Free is a cancel''), db)
                    else if \<not> truthy sub then (Inl (HTTP 400 ''No active subscription to change''), db)
                    else (case plan_to_price_id env target (current_period r) of
                            None \<Rightarrow> (Inl (HTTP 500 ''Missing Paddle price_id''), db)
                          | Some pid \<Rightarrow>
                              let up = dict_get PLAN_TIER target (- 1) > dict_get PLAN_TIER (current_plan r) (- 1)
                              in paddle_then paddle (the sub) (Patch_items pid up) ''Failed to change plan'' wid
                                   (if up then (\<lambda>r. r\<lparr>ws_plan := target, bw_scheduled_plan := None, bw_scheduled_change_at := None\<rparr>)
                                    else (\<lambda>w. w\<lparr>bw_scheduled_plan := Some target, bw_scheduled_change_at := bw_period_ends_at r\<rparr>))
                                   id db))))"

definition insert_cancel_survey :: "string \<Rightarrow> string \<Rightarrow> string option \<Rightarrow> string option \<Rightarrow> billing_db \<Rightarrow> billing_db" where
  "insert_cancel_survey wid plan code txt db =
     (if code = None \<and> txt = None then db
      else db\<lparr>bd_surveys := bd_surveys db @
        [\<lparr>cs_workspace_id = wid, cs_reason_code = code, cs_reason_text = txt, cs_plan_at_cancel = plan\<rparr>]\<rparr>)"

definition cancel_subscription ::
    "billing_env \<Rightarrow> (string \<Rightarrow> paddle_call \<Rightarrow> paddle_answer) \<Rightarrow> token_payload \<Rightarrow> string option \<Rightarrow> string option \<Rightarrow> billing_db
       \<Rightarrow> (http_error + billing_summary) \<times> billing_db" where
  "cancel_subscription env paddle token code txt db =
     (if be_api_key env = [] then (Inl (HTTP 500 ''Paddle not configured''), db)
      else let wid = tp_workspace_id token in
      (case lookup_key ws_id wid (bd_workspaces db) of
         None \<Rightarrow> (Inl (HTTP 404 ''Workspace not found''), db)
       | Some r \<Rightarrow>
           (case billing_pii env (bw_subscription_encrypted r) of
              Inl e \<Rightarrow> (Inl (HTTP 500 ''Internal Server Error''), db)
            | Inr sub \<Rightarrow>
                if bw_cancel_at_period_end r then (load_billing_summary wid db, db)
                else if current_plan r = ''free'' \<or> \<not> truthy sub
                then (Inl (HTTP 400 ''No active subscription to cancel.''), db)
                else paddle_then paddle (the sub) Cancel_next_period ''Failed to cancel subscription'' wid
                       (\<lambda>r. r\<lparr>bw_cancel_at_period_end := True\<rparr>)
                       (insert_cancel_survey wid (current_plan r) code txt) db)))"

definition reactivate_subscription ::
    "billing_env \<Rightarrow> (string \<Rightarrow> paddle_call \<Rightarrow> paddle_answer) \<Rightarrow> instant \<Rightarrow> token_payload \<Rightarrow> billing_db
       \<Rightarrow> (http_error + billing_summary) \<times> billing_db" where
  "reactivate_subscription env paddle now token db =
     (if be_api_key env = [] then (Inl (HTTP 500 ''Paddle not configured''), db)
      else let wid = tp_workspace_id token in
      (case lookup_key ws_id wid (bd_workspaces db) of
         None \<Rightarrow> (Inl (HTTP 404 ''Workspace not found''), db)
       | Some r \<Rightarrow>
           (case billing_pii env (bw_subscription_encrypted r) of
              Inl e \<Rightarrow> (Inl (HTTP 500 ''Internal Server Error''), db)
            | Inr sub \<Rightarrow>
                if \<not> bw_cancel_at_period_end r then (load_billing_summary wid db, db)
                else if map_option lower (bw_status r) = Some ''canceled'' \<or> (case bw_period_ends_at r of None \<Rightarrow> False | Some e \<Rightarrow> e \<le> now)
                then (Inl (HTTP 400 ''Subscription period has ended. Start a new checkout instead.''), db)
                else if \<not> truthy sub then (Inl (HTTP 400 ''No subscription to reactivate.''), db)
                else paddle_then paddle (the sub) Clear_scheduled_change ''Failed to reactivate subscription'' wid
                       (\<lambda>r. r\<lparr>bw_cancel_at_period_end := False\<rparr>) id db)))"

section \<open>Lemmas\<close>

named_theorems billing_simps

lemma upd_billing_sel [billing_simps]:
  "bd_workspaces (upd_billing p f db) = update_where p f (bd_workspaces db)"
  "bd_cycles (upd_billing p f db) = bd_cycles db"
  "bd_events (upd_billing p f db) = bd_events db"
  "bd_surveys (upd_billing p f db) = bd_surveys db"
  "bd_calls (upd_billing p f db) = bd_calls db"
  by (simp_all add: upd_billing_def)

lemma seed_period_sel [billing_simps]:
  "bd_workspaces (seed_period env data w db) = bd_workspaces db"
  "bd_events (seed_period env data w db) = bd_events db"
  by (auto simp: seed_period_def split: option.splits)

lemma mark_event_sel [billing_simps]:
  "bd_workspaces (mark_event i f db) = bd_workspaces db"
  "bd_cycles (mark_event i f db) = bd_cycles db"
  "bd_events (mark_event i f db) = update_where (\<lambda>e. pe_event_id e = i) f (bd_events db)"
  by (simp_all add: mark_event_def)

text \<open>What every handler leaves alone: the event log, the scheduled downgrade, and all of it when it raises.\<close>

definition handler_frame :: "billing_db \<Rightarrow> bool \<times> billing_db \<Rightarrow> bool" where
  "handler_frame db res \<longleftrightarrow> bd_events (snd res) = bd_events db \<and> (\<not> fst res \<longrightarrow> snd res = db) \<and>
     map (\<lambda>r. (ws_id r, bw_scheduled_plan r)) (bd_workspaces (snd res))
       = map (\<lambda>r. (ws_id r, bw_scheduled_plan r)) (bd_workspaces db)"

lemma handler_frame_same: "handler_frame db (b, db)"
  by (simp add: handler_frame_def)

lemma handler_frame_upd:
  assumes "\<And>r. ws_id (f r) = ws_id r" "\<And>r. bw_scheduled_plan (f r) = bw_scheduled_plan r"
  shows "handler_frame db (True, upd_billing p f db)"
    and "handler_frame db (True, seed_period env data w (upd_billing p f db))"
  using assms by (simp_all add: handler_frame_def billing_simps update_where_def)

lemma handler_row [simp]:
  "ws_id (set_lifecycle env data pl st pr r) = ws_id r"
  "ws_plan (set_lifecycle env data pl st pr r) = pl"
  "bw_scheduled_plan (set_lifecycle env data pl st pr r) = bw_scheduled_plan r"
  "bw_subscription_hash (set_lifecycle env data pl st pr r) = bw_subscription_hash r"
  "ws_id (set_paddle_ids env c s r) = ws_id r"
  "bw_scheduled_plan (set_paddle_ids env c s r) = bw_scheduled_plan r"
  by (simp_all add: set_lifecycle_def set_paddle_ids_def)

lemma handler_frames:
  "handler_frame db (handle_subscription_activated env d db)"
  "handler_frame db (handle_subscription_updated env d db)"
  "handler_frame db (handle_subscription_canceled env d db)"
  "handler_frame db (handle_payment_failed env d db)"
  by (simp_all add: handle_subscription_activated_def handle_subscription_updated_def
      handle_subscription_canceled_def handle_payment_failed_def Let_def
      handler_frame_same handler_frame_upd split: option.split)

lemma dispatch_frame: "handler_frame db (dispatch_event env t d db)"
  by (simp add: dispatch_event_def handler_frames handler_frame_same)

lemma dispatch_events: "bd_events (snd (dispatch_event env t d db)) = bd_events db"
  using dispatch_frame by (simp add: handler_frame_def)

lemma dispatch_ok: "fst (dispatch_event env t d db) = fst (dispatch_event env t d db')"
proof -
  have "fst (handle_subscription_activated env d db) = fst (handle_subscription_activated env d db')"
    by (simp add: handle_subscription_activated_def split: option.split)
  moreover have "fst (handle_subscription_updated env d db) = fst (handle_subscription_updated env d db')"
    by (simp add: handle_subscription_updated_def Let_def split: option.split)
  moreover have "fst (handle_subscription_canceled env d db) = fst (handle_subscription_canceled env d db')"
    by (simp add: handle_subscription_canceled_def split: option.split)
  moreover have "fst (handle_payment_failed env d db) = fst (handle_payment_failed env d db')"
    by (simp add: handle_payment_failed_def split: option.split)
  ultimately show ?thesis by (simp add: dispatch_event_def)
qed

definition recorded :: "string \<Rightarrow> string \<Rightarrow> billing_db \<Rightarrow> billing_db" where
  "recorded i t db = db\<lparr>bd_events := bd_events db @
     [\<lparr>pe_event_id = i, pe_event_type = t, pe_processed = False, pe_error = False\<rparr>]\<rparr>"

lemma process_event_new:
  assumes "i \<notin> pe_event_id ` set (bd_events db)"
  shows "process_event env i t d db =
    (Received, mark_event i (\<lambda>e. if fst (dispatch_event env t d (recorded i t db)) then e\<lparr>pe_processed := True\<rparr>
       else e\<lparr>pe_error := True\<rparr>) (snd (dispatch_event env t d (recorded i t db))))"
  using assms by (simp add: process_event_def recorded_def[symmetric] split: prod.split bool.split)

lemma process_event_known: "i \<in> pe_event_id ` set (bd_events db) \<Longrightarrow> process_event env i t d db = (Deduped, db)"
  by (simp add: process_event_def)

lemma ids_update_where:
  "(\<And>e. pe_event_id (f e) = pe_event_id e) \<Longrightarrow> pe_event_id ` set (update_where p f es) = pe_event_id ` set es"
  by (induction es) (simp_all add: update_where_def)

lemma process_event_ids: "pe_event_id ` set (bd_events (snd (process_event env i t d db))) = insert i (pe_event_id ` set (bd_events db))"
proof (cases "i \<in> pe_event_id ` set (bd_events db)")
  case False
  then show ?thesis
    by (simp add: process_event_new billing_simps ids_update_where dispatch_events recorded_def)
qed (auto simp: process_event_def)

section \<open>Deliveries\<close>

fun deliver :: "billing_env \<Rightarrow> (string \<times> string \<times> json) list \<Rightarrow> billing_db \<Rightarrow> billing_db" where
  "deliver env [] db = db"
| "deliver env ((i, t, d) # es) db = deliver env es (snd (process_event env i t d db))"

fun first_deliveries :: "string set \<Rightarrow> (string \<times> string \<times> json) list \<Rightarrow> (string \<times> string \<times> json) list" where
  "first_deliveries seen [] = []"
| "first_deliveries seen (e # es) =
     (if fst e \<in> seen then first_deliveries seen es else e # first_deliveries (insert (fst e) seen) es)"

text \<open>C13: 
  Paddle delivers at least once: however a history of events is repeated and interleaved with its own
  redeliveries, the database is the one of the first delivery of each event id alone.
\<close>

theorem redelivery_changes_nothing:
  "deliver env es db = deliver env (first_deliveries (pe_event_id ` set (bd_events db)) es) db"
proof (induction es arbitrary: db)
  case (Cons e es)
  obtain i t d where e: "e = (i, t, d)" by (cases e)
  show ?case
  proof (cases "i \<in> pe_event_id ` set (bd_events db)")
    case True
    then show ?thesis using Cons.IH[of db] by (simp add: e process_event_known)
  next
    case False
    then show ?thesis using Cons.IH[of "snd (process_event env i t d db)"]
      by (simp add: e process_event_ids)
  qed
qed simp

section \<open>Events that fail, and events out of order\<close>

lemma deliver_schedule:
  "map (\<lambda>r. (ws_id r, bw_scheduled_plan r)) (bd_workspaces (deliver env es db))
     = map (\<lambda>r. (ws_id r, bw_scheduled_plan r)) (bd_workspaces db)"
proof (induction env es db rule: deliver.induct)
  case (2 env i t d es db)
  have "map (\<lambda>r. (ws_id r, bw_scheduled_plan r)) (bd_workspaces (snd (process_event env i t d db)))
      = map (\<lambda>r. (ws_id r, bw_scheduled_plan r)) (bd_workspaces db)"
  proof (cases "i \<in> pe_event_id ` set (bd_events db)")
    case False
    then show ?thesis using dispatch_frame[of "recorded i t db" env t d]
      by (simp add: process_event_new billing_simps handler_frame_def) (simp add: recorded_def)
  qed (simp add: process_event_known)
  then show ?case using 2 by simp
qed simp

text \<open>
  A handler that raises consumes the event: the first delivery is answered 200, stores it with an
  error and changes nothing else, and every later delivery of the id, even with a corrected payload,
  is answered as a duplicate and never reaches a handler.
\<close>

theorem failed_event_lost:
  assumes "i \<notin> pe_event_id ` set (bd_events db)" "\<not> fst (dispatch_event env t d db)"
    and "db' = snd (process_event env i t d db)"
  shows "fst (process_event env i t d db) = Received"
    and "bd_workspaces db' = bd_workspaces db \<and> bd_cycles db' = bd_cycles db"
    and "\<forall>e \<in> set (bd_events db'). pe_event_id e = i \<longrightarrow> pe_error e \<and> \<not> pe_processed e"
    and "process_event env i t' d' db' = (Deduped, db')"
proof -
  have f: "\<not> fst (dispatch_event env t d (recorded i t db))"
    using assms(2) dispatch_ok[of env t d "recorded i t db" db] by simp
  then have s: "snd (dispatch_event env t d (recorded i t db)) = recorded i t db"
    using dispatch_frame[of "recorded i t db" env t d] by (simp add: handler_frame_def)
  have db': "db' = mark_event i (\<lambda>e. e\<lparr>pe_error := True\<rparr>) (recorded i t db)"
    using assms(3) f s by (simp add: process_event_new[OF assms(1)])
  show "fst (process_event env i t d db) = Received" by (simp add: process_event_new[OF assms(1)])
  show "bd_workspaces db' = bd_workspaces db \<and> bd_cycles db' = bd_cycles db"
    by (simp add: db' billing_simps recorded_def)
  show "\<forall>e \<in> set (bd_events db'). pe_event_id e = i \<longrightarrow> pe_error e \<and> \<not> pe_processed e"
  proof -
    have "\<forall>e \<in> set (bd_events db). pe_event_id e \<noteq> i" using assms(1) by blast
    then show ?thesis by (simp add: db' billing_simps recorded_def update_where_def)
  qed
  show "process_event env i t' d' db' = (Deduped, db')"
    by (rule process_event_known) (simp add: assms(3) process_event_ids)
qed

definition demo_billing_env :: billing_env where
  "demo_billing_env = \<lparr>be_parse_iso = (\<lambda>s. None), be_int = (\<lambda>j. None), be_prices = [(''pri_c'', ''cloud'')],
     be_cloud_price = (\<lambda>annual. if annual then ''pri_ca'' else ''pri_c''),
     be_teams_price = (\<lambda>annual. if annual then ''pri_ta'' else ''pri_t''),
     be_encrypt = id, be_decrypt = Some, be_hmac = id, be_api_key = ''pdl'', be_webhook_secret = ''whsec'',
     be_sign = (\<lambda>k m. k @ m), be_int_str = (\<lambda>s. if s = ''9'' then Some 9 else None),
     be_json = (\<lambda>s. Some (JObj [(''event_id'', JStr ''evt''), (''event_type'', JStr ''other'')]))\<rparr>"

definition demo_billing_row :: billing_row where
  "demo_billing_row = \<lparr>ws_id = ''w1'', ws_name = ''acme'', ws_plan = ''teams'', ws_active = True,
     ws_owner_email_encrypted = None, ws_owner_email_hash = None, ws_api_key_hash = None,
     ws_api_key_last4 = None, ws_created_at = 0, ws_limit_overrides = None, ws_routing_overrides = None,
     bw_customer_encrypted = None, bw_customer_hash = None,
     bw_subscription_encrypted = Some ''v1:sub_1'', bw_subscription_hash = Some ''sub_1'',
     bw_status = Some ''active'', bw_trial_ends_at = None, bw_period_ends_at = None,
     bw_cancel_at_period_end = False, bw_price_cents = Some 9900, bw_currency = Some ''USD'',
     bw_scheduled_plan = None, bw_scheduled_change_at = None\<rparr>"

definition demo_billing :: billing_db where
  "demo_billing = \<lparr>bd_workspaces = [demo_billing_row], bd_cycles = [], bd_events = [], bd_surveys = [], bd_calls = []\<rparr>"

text \<open>The payload of the witness names its price by id where Paddle sends an object.\<close>

theorem failed_event_lost_witness:
  "process_event demo_billing_env ''evt'' ''subscription.updated'' (JObj [(''id'', JStr ''sub_1'')])
     (snd (process_event demo_billing_env ''evt'' ''subscription.updated''
        (JObj [(''id'', JStr ''sub_1''), (''items'', JArr [JObj [(''price'', JStr ''pri_c'')]])]) demo_billing))
   = (Deduped, snd (process_event demo_billing_env ''evt'' ''subscription.updated''
        (JObj [(''id'', JStr ''sub_1''), (''items'', JArr [JObj [(''price'', JStr ''pri_c'')]])]) demo_billing))"
proof (rule failed_event_lost(4)[OF _ _ refl])
  have "extract_price demo_billing_env (JObj [(''id'', JStr ''sub_1''), (''items'', JArr [JObj [(''price'', JStr ''pri_c'')]])]) = None"
    by (simp add: extract_price_def is_container_def or_empty_def)
  then show "\<not> fst (dispatch_event demo_billing_env ''subscription.updated''
      (JObj [(''id'', JStr ''sub_1''), (''items'', JArr [JObj [(''price'', JStr ''pri_c'')]])]) demo_billing)"
    by (simp add: dispatch_event_def handle_subscription_updated_def split: option.split)
qed (simp add: demo_billing_def)

lemma lookup_upd_key:
  assumes "lookup_key key k t = Some r" "\<And>r. key (f r) = key r"
  shows "lookup_key key k (update_where p f t) = Some (if p r then f r else r)"
  using assms by (simp add: lookup_update_where)

lemma process_updated:
  assumes "i \<notin> pe_event_id ` set (bd_events db)" "lookup_key ws_id wid (bd_workspaces db) = Some r"
    and "by_subscription (sub_id_hash env (Some sid)) r" "sid \<noteq> []" "jget d ''id'' = Some (JStr sid)"
    and "Option.bind (jget d ''status'') (str_or ''active'') = Some st" "str_or [] (extract_price_id d) = Some pid"
    and "extract_price env d = Some pr"
  shows "lookup_key ws_id wid (bd_workspaces (snd (process_event env i ''subscription.updated'' d db)))
    = Some (set_lifecycle env d (plan_from_price_id env pid) st pr r)"
  using assms
  by (simp add: process_event_new dispatch_event_def handle_subscription_updated_def opt_str_def Let_def
      billing_simps recorded_def lookup_upd_key)

lemma process_canceled:
  assumes "i \<notin> pe_event_id ` set (bd_events db)" "lookup_key ws_id wid (bd_workspaces db) = Some r"
    and "by_subscription (sub_id_hash env (Some sid)) r" "sid \<noteq> []" "jget d ''id'' = Some (JStr sid)"
  shows "lookup_key ws_id wid (bd_workspaces (snd (process_event env i ''subscription.canceled'' d db)))
    = Some (r\<lparr>ws_plan := ''free'', bw_status := Some ''canceled''\<rparr>)"
  using assms
  by (simp add: process_event_new dispatch_event_def handle_subscription_canceled_def opt_str_def Let_def
      billing_simps recorded_def lookup_upd_key)

text \<open>
  Events carry no order: of a cancellation and an earlier update of the same subscription, the one
  that is delivered last decides the plan. Delivered in order the workspace is on free; when the update
  arrives late, a canceled subscription is back on the plan of its price.
\<close>

theorem delivery_order_decides_plan:
  assumes "lookup_key ws_id wid (bd_workspaces db) = Some r" "by_subscription (sub_id_hash env (Some sid)) r" "sid \<noteq> []"
    and "i \<noteq> j" "{i, j} \<inter> pe_event_id ` set (bd_events db) = {}"
    and "jget u ''id'' = Some (JStr sid)" "jget c ''id'' = Some (JStr sid)"
    and "Option.bind (jget u ''status'') (str_or ''active'') = Some st" "str_or [] (extract_price_id u) = Some pid"
    and "extract_price env u = Some pr"
  shows "map_option ws_plan (lookup_key ws_id wid (bd_workspaces
           (deliver env [(i, ''subscription.updated'', u), (j, ''subscription.canceled'', c)] db))) = Some ''free''
    \<and> map_option ws_plan (lookup_key ws_id wid (bd_workspaces
           (deliver env [(j, ''subscription.canceled'', c), (i, ''subscription.updated'', u)] db)))
           = Some (plan_from_price_id env pid)"
proof -
  have new: "i \<notin> pe_event_id ` set (bd_events db)" "j \<notin> pe_event_id ` set (bd_events db)" using assms(5) by auto
  let ?u = "snd (process_event env i ''subscription.updated'' u db)"
  have "j \<notin> pe_event_id ` set (bd_events ?u)" using new(2) assms(4) by (simp add: process_event_ids)
  from process_canceled[OF this process_updated[OF new(1) assms(1-3) assms(6) assms(8-10)], of env sid c]
  have first: "map_option ws_plan (lookup_key ws_id wid (bd_workspaces
      (deliver env [(i, ''subscription.updated'', u), (j, ''subscription.canceled'', c)] db))) = Some ''free''"
    using assms by (simp add: by_subscription_def)
  let ?c = "snd (process_event env j ''subscription.canceled'' c db)"
  have "i \<notin> pe_event_id ` set (bd_events ?c)" using new(1) assms(4) by (simp add: process_event_ids)
  from process_updated[OF this process_canceled[OF new(2) assms(1-3) assms(7)] _ assms(3) assms(6) assms(8-10)]
  have "map_option ws_plan (lookup_key ws_id wid (bd_workspaces
      (deliver env [(j, ''subscription.canceled'', c), (i, ''subscription.updated'', u)] db)))
      = Some (plan_from_price_id env pid)"
    using assms by (simp add: by_subscription_def)
  with first show ?thesis ..
qed

theorem delivery_order_decides_plan_witness:
  "map_option ws_plan (lookup_key ws_id ''w1'' (bd_workspaces (deliver demo_billing_env
     [(''j'', ''subscription.canceled'', JObj [(''id'', JStr ''sub_1'')]),
      (''i'', ''subscription.updated'', JObj [(''id'', JStr ''sub_1''),
        (''items'', JArr [JObj [(''price'', JObj [(''id'', JStr ''pri_c'')])]])])] demo_billing))) = Some ''cloud''"
proof -
  have h: "sub_id_hash demo_billing_env (Some ''sub_1'') = Some ''sub_1''" by code_simp
  have "plan_from_price_id demo_billing_env ''pri_c'' = ''cloud''" by code_simp
  moreover have "by_subscription (sub_id_hash demo_billing_env (Some ''sub_1'')) demo_billing_row"
    by (simp add: h by_subscription_def demo_billing_row_def)
  moreover have "lookup_key ws_id ''w1'' (bd_workspaces demo_billing) = Some demo_billing_row"
    by (simp add: lookup_key_def demo_billing_def demo_billing_row_def)
  ultimately show ?thesis
    using delivery_order_decides_plan[of "''w1''" demo_billing demo_billing_row demo_billing_env "''sub_1''" "''i''" "''j''"
        "JObj [(''id'', JStr ''sub_1''), (''items'', JArr [JObj [(''price'', JObj [(''id'', JStr ''pri_c'')])]])]"
        "JObj [(''id'', JStr ''sub_1'')]" "''active''" "''pri_c''" "(None, None)"]
    by (simp add: demo_billing_def str_or_def opt_str_def extract_price_id_def extract_price_def jget2_def
        or_empty_def is_container_def)
qed

text \<open>
  A webhook that is accepted carries a timestamp within sixty seconds of the clock and the signature
  of that timestamp and the body under the webhook secret; any other request changes nothing.
\<close>

theorem webhook_authentic:
  "(\<exists>ts t parts. be_int_str env ts = Some t \<and> \<bar>now - t\<bar> \<le> 60 \<and>
       sig_parts (split_on CHR '';'' sig_header) = Some parts \<and> map_of parts ''ts'' = Some ts \<and>
       map_of parts ''h1'' = Some (be_sign env (be_webhook_secret env) (ts @ '':'' @ raw_body)))
   \<or> isl (fst (paddle_webhook env now sig_header raw_body db)) \<and> snd (paddle_webhook env now sig_header raw_body db) = db"
proof (cases "verify_signature env now sig_header raw_body = Some True")
  case True
  then show ?thesis
    by (fastforce simp: verify_signature_def not_less split: if_splits option.splits)
next
  case False
  then show ?thesis
    by (simp add: paddle_webhook_def split: option.split bool.split)
qed

section \<open>The endpoints\<close>

datatype billing_op = Change_plan string | Cancel "string option" "string option" | Reactivate instant

fun billing_step ::
    "billing_env \<Rightarrow> (string \<Rightarrow> paddle_call \<Rightarrow> paddle_answer) \<Rightarrow> token_payload \<Rightarrow> billing_op \<Rightarrow> billing_db
       \<Rightarrow> (http_error + billing_summary) \<times> billing_db" where
  "billing_step env paddle token (Change_plan body) db = change_plan env paddle token body db"
| "billing_step env paddle token (Cancel code txt) db = cancel_subscription env paddle token code txt db"
| "billing_step env paddle token (Reactivate now) db = reactivate_subscription env paddle now token db"

definition billing_frame :: "billing_env \<Rightarrow> token_payload \<Rightarrow> billing_db \<Rightarrow> (http_error + billing_summary) \<times> billing_db \<Rightarrow> bool" where
  "billing_frame env token db res \<longleftrightarrow>
     (isl (fst res) \<longrightarrow> bd_workspaces (snd res) = bd_workspaces db \<and> bd_surveys (snd res) = bd_surveys db) \<and>
     filter (\<lambda>r. ws_id r \<noteq> tp_workspace_id token) (bd_workspaces (snd res))
       = filter (\<lambda>r. ws_id r \<noteq> tp_workspace_id token) (bd_workspaces db) \<and>
     (bd_calls (snd res) = bd_calls db \<or>
      (\<exists>r sub call. lookup_key ws_id (tp_workspace_id token) (bd_workspaces db) = Some r \<and>
         billing_pii env (bw_subscription_encrypted r) = Inr (Some sub) \<and> sub \<noteq> [] \<and>
         bd_calls (snd res) = bd_calls db @ [(sub, call)]))"

lemma billing_frame_same: "billing_frame env token db (r, db)"
  by (simp add: billing_frame_def)

lemma filter_update_where:
  "(\<And>r. p r \<Longrightarrow> \<not> q r) \<Longrightarrow> (\<And>r. p r \<Longrightarrow> \<not> q (f r)) \<Longrightarrow> filter q (update_where p f t) = filter q t"
  by (induction t) (auto simp: update_where_def)

lemma paddle_then_frame:
  assumes "lookup_key ws_id (tp_workspace_id token) (bd_workspaces db) = Some r"
    and "billing_pii env (bw_subscription_encrypted r) = Inr sub" "truthy sub"
    and "\<And>r. ws_id (f r) = ws_id r" "\<And>db. bd_workspaces (after db) = bd_workspaces db"
    and "\<And>db. bd_calls (after db) = bd_calls db"
  shows "billing_frame env token db (paddle_then paddle (the sub) call msg (tp_workspace_id token) f after db)"
proof -
  obtain s where s: "sub = Some s" "s \<noteq> []" using assms(3) by (rule truthyE)
  have "lookup_key ws_id (tp_workspace_id token) (update_where (\<lambda>r. ws_id r = tp_workspace_id token) f (bd_workspaces db)) \<noteq> None"
    using assms(1,4) by (simp add: lookup_update_where)
  then show ?thesis using assms s
    by (auto simp: paddle_then_def billing_frame_def billing_simps Let_def load_billing_summary_def
        filter_update_where split: paddle_answer.split)
qed

text \<open>
  Whatever Paddle answers, a mutation endpoint that fails leaves every workspace row as it was, one that
  succeeds writes only the row of the token's workspace, and at most one request is sent, for the
  subscription stored on that row.
\<close>

theorem billing_endpoints_confined:
  "billing_frame env token db (billing_step env paddle token op db)"
proof (cases op)
  case (Change_plan body)
  then show ?thesis
    by (auto simp: change_plan_def Let_def billing_frame_same intro!: paddle_then_frame
        split: option.split sum.split)
next
  case (Cancel code reason)
  then show ?thesis
    by (auto simp: cancel_subscription_def Let_def billing_frame_same insert_cancel_survey_def intro!: paddle_then_frame
        split: option.split sum.split)
next
  case (Reactivate now)
  then show ?thesis
    by (auto simp: reactivate_subscription_def Let_def billing_frame_same intro!: paddle_then_frame
        split: option.split sum.split)
qed

lemma lookup_map_key:
  "map_option g (lookup_key key k t) = map_of (map (\<lambda>r. (key r, g r)) t) k"
  by (induction t) (auto simp: lookup_key_def)

text \<open>
  A downgrade that Paddle accepted cannot be taken back through the endpoint: the plan column still names
  the higher plan, so asking for that plan is answered as a no-op without a request to Paddle. And no
  webhook clears the scheduled plan, so after the renewal has moved the plan the summary still announces it.
\<close>

theorem scheduled_downgrade_sticks:
  assumes "be_api_key env \<noteq> []" "lookup_key ws_id (tp_workspace_id token) (bd_workspaces db) = Some r"
    and "ws_plan r = ''teams''" "billing_pii env (bw_subscription_encrypted r) = Inr (Some sub)" "sub \<noteq> []"
    and "plan_to_price_id env ''cloud'' (current_period r) = Some pid"
    and "paddle sub (Patch_items pid False) = Status 200"
    and "db1 = snd (change_plan env paddle token ''cloud'' db)"
  shows "snd (change_plan env paddle token ''teams'' db1) = db1 \<and> \<not> isl (fst (change_plan env paddle token ''teams'' db1))
    \<and> map_option bw_scheduled_plan (lookup_key ws_id (tp_workspace_id token) (bd_workspaces (deliver env es db1)))
           = Some (Some ''cloud'')"
proof -
  let ?w = "tp_workspace_id token"
  have low: "lower ''teams'' = ''teams''" "lower ''cloud'' = ''cloud''" by code_simp+
  have v: "validate_target_plan ''cloud'' = Some ''cloud''" "validate_target_plan ''teams'' = Some ''teams''" by code_simp+
  have cp: "current_plan r = ''teams''" by (simp add: current_plan_def assms(3) low)
  have r1: "lookup_key ws_id ?w (bd_workspaces db1)
      = Some (r\<lparr>bw_scheduled_plan := Some ''cloud'', bw_scheduled_change_at := bw_period_ends_at r\<rparr>)"
    using assms lookup_key_SomeD[OF assms(2)]
    by (simp add: change_plan_def v cp PLAN_TIER_def paddle_then_def Let_def billing_simps lookup_upd_key dict_get_def)
  have first: "snd (change_plan env paddle token ''teams'' db1) = db1 \<and> \<not> isl (fst (change_plan env paddle token ''teams'' db1))"
    using assms r1 by (simp add: change_plan_def v current_plan_def low Let_def load_billing_summary_def)
  have "map_option bw_scheduled_plan (lookup_key ws_id ?w (bd_workspaces (deliver env es db1))) = Some (Some ''cloud'')"
    using r1 lookup_map_key[of bw_scheduled_plan ws_id ?w "bd_workspaces db1"]
    by (simp add: lookup_map_key deliver_schedule)
  with first show ?thesis by simp
qed

definition demo_owner_token :: token_payload where
  "demo_owner_token = \<lparr>tp_workspace_id = ''w1'', tp_user_id = ''u1'', tp_role = ''owner'', tp_plan = ''teams'',
     tp_iat = 0, tp_exp = 3600, tp_email_verified = True, tp_typ = ''session''\<rparr>"

theorem scheduled_downgrade_sticks_witness:
  "\<not> isl (fst (change_plan demo_billing_env (\<lambda>s c. Status 200) demo_owner_token ''teams''
     (snd (change_plan demo_billing_env (\<lambda>s c. Status 200) demo_owner_token ''cloud'' demo_billing))))"
proof -
  have low: "lower ''teams'' = ''teams''" by code_simp
  have "lookup_key ws_id ''w1'' (bd_workspaces demo_billing) = Some demo_billing_row"
    by (simp add: lookup_key_def demo_billing_def demo_billing_row_def)
  moreover have "billing_pii demo_billing_env (bw_subscription_encrypted demo_billing_row) = Inr (Some ''sub_1'')"
    by (simp add: billing_pii_def decrypt_pii_def VERSION_PREFIX_V1_def demo_billing_row_def demo_billing_env_def
        is_ascii_def)
  moreover have "plan_to_price_id demo_billing_env ''cloud'' (current_period demo_billing_row) = Some ''pri_c''"
    by (simp add: plan_to_price_id_def current_period_def current_plan_def demo_billing_row_def demo_billing_env_def
        PLAN_PRICE_CENTS_def dict_get_def low)
  ultimately show ?thesis
    using scheduled_downgrade_sticks[of demo_billing_env demo_owner_token demo_billing demo_billing_row "''sub_1''"
        "''pri_c''" "\<lambda>s c. Status 200" "snd (change_plan demo_billing_env (\<lambda>s c. Status 200) demo_owner_token ''cloud'' demo_billing)"]
    by (simp add: demo_owner_token_def demo_billing_env_def demo_billing_row_def)
qed

end
