(* ===== verification/Tenancy.thy ===== *)
theory Tenancy
  imports BL_Prelude
begin

text \<open>
  Tables of the hosted service carry the workspace of each row, and every statement has a
  \<open>workspace_id = $1\<close> predicate. A tenant table is a list of pairs of workspace and row; \<open>slice\<close> is what a
  statement of one workspace sees. The locale \<open>tenant_system\<close> is the contract of workspace isolation.
\<close>

section \<open>Tenant tables\<close>

type_synonym 'r tenant_table = "(string \<times> 'r) table"

definition slice :: "string \<Rightarrow> 'r tenant_table \<Rightarrow> 'r table" where
  "slice ws t = map snd (filter (\<lambda>r. fst r = ws) t)"

definition tenant_insert :: "string \<Rightarrow> 'r \<Rightarrow> 'r tenant_table \<Rightarrow> 'r tenant_table" where
  "tenant_insert ws r t = t @ [(ws, r)]"

definition tenant_update :: "string \<Rightarrow> ('r \<Rightarrow> bool) \<Rightarrow> ('r \<Rightarrow> 'r) \<Rightarrow> 'r tenant_table \<Rightarrow> 'r tenant_table" where
  "tenant_update ws p f t = update_where (\<lambda>r. fst r = ws \<and> p (snd r)) (\<lambda>r. (fst r, f (snd r))) t"

definition tenant_delete :: "string \<Rightarrow> ('r \<Rightarrow> bool) \<Rightarrow> 'r tenant_table \<Rightarrow> 'r tenant_table" where
  "tenant_delete ws p t = filter (\<lambda>r. \<not> (fst r = ws \<and> p (snd r))) t"

named_theorems slice_simps \<open>what a workspace sees after a statement\<close>

lemma slice_Nil [simp]: "slice ws [] = []"
  by (simp add: slice_def)

lemma slice_append [slice_simps]: "slice ws (t @ u) = slice ws t @ slice ws u"
  by (simp add: slice_def)

lemma slice_insert [slice_simps]: "slice w (tenant_insert ws r t) = (if w = ws then slice w t @ [r] else slice w t)"
  by (simp add: slice_def tenant_insert_def)

lemma slice_update [slice_simps]:
  "slice w (tenant_update ws p f t) = (if w = ws then update_where p f (slice w t) else slice w t)"
  by (induction t) (auto simp: slice_def tenant_update_def update_where_def)

lemma slice_delete [slice_simps]:
  "slice w (tenant_delete ws p t) = (if w = ws then filter (\<lambda>r. \<not> p r) (slice w t) else slice w t)"
  by (induction t) (auto simp: slice_def tenant_delete_def)

lemma set_slice: "x \<in> set (slice ws t) \<longleftrightarrow> (ws, x) \<in> set t"
  by (force simp: slice_def)

section \<open>Tenant systems\<close>

text \<open>
  The contract of a service for many tenants: what one workspace sees of a step is a (possibly empty) sequence of
  steps of the single-tenant service, given by \<open>trace\<close>. Then a history of the service is, for each workspace, a
  history of the single-tenant service: nothing of other workspaces is in it, and its invariants carry over.
\<close>

fun run_trace :: "('e \<Rightarrow> 's \<Rightarrow> 's) \<Rightarrow> (string \<Rightarrow> 'e \<Rightarrow> 's \<Rightarrow> 'l list) \<Rightarrow> string \<Rightarrow> 'e list \<Rightarrow> 's \<Rightarrow> 'l list" where
  "run_trace step trace w [] s = []"
| "run_trace step trace w (e # es) s = trace w e s @ run_trace step trace w es (step e s)"

locale tenant_system =
  fixes step :: "'e \<Rightarrow> 's \<Rightarrow> 's" and good :: "'s \<Rightarrow> bool"
    and view :: "string \<Rightarrow> 's \<Rightarrow> 'v" and own_step :: "'l \<Rightarrow> 'v \<Rightarrow> 'v"
    and trace :: "string \<Rightarrow> 'e \<Rightarrow> 's \<Rightarrow> 'l list"
  assumes good_step: "good s \<Longrightarrow> good (step e s)"
    and view_step: "good s \<Longrightarrow> view w (step e s) = run_steps own_step (trace w e s) (view w s)"
begin

lemma good_run: "good s \<Longrightarrow> good (run_steps step es s)"
  by (induction es arbitrary: s) (simp_all add: good_step)

lemma view_run: "good s \<Longrightarrow> view w (run_steps step es s) = run_steps own_step (run_trace step trace w es s) (view w s)"
  by (induction es arbitrary: s) (simp_all add: view_step good_step run_steps_append)

lemma unseen: "good s \<Longrightarrow> run_trace step trace w es s = [] \<Longrightarrow> view w (run_steps step es s) = view w s"
  by (simp add: view_run)

lemma view_invariant:
  assumes "\<And>l v. I v \<Longrightarrow> I (own_step l v)"
  shows "good s \<Longrightarrow> I (view w s) \<Longrightarrow> I (view w (run_steps step es s))"
proof -
  have "I v \<Longrightarrow> I (run_steps own_step ls v)" for ls v
    by (induction ls arbitrary: v) (simp_all add: assms)
  then show "good s \<Longrightarrow> I (view w s) \<Longrightarrow> ?thesis" by (simp add: view_run)
qed

end

end
