(* ===== verification/Cloud_Outcomes.thy ===== *)
theory Cloud_Outcomes
  imports Tenancy Api_Keys Economics_Overview
begin

text \<open>
  Outcomes in the hosted service (\<open>burnlens_cloud/outcomes_api.py\<close> with \<open>correct_outcome\<close> of
  \<open>burnlens_cloud/database.py\<close>): posting and correcting outcomes under an API key, and the reports on unit
  economics, coverage and provider concentration. The API key is looked up as the ingest does; the session token
  is the answer of \<open>verify_token\<close>. Report rows with equal cost come in the order of their first request.
\<close>

section \<open>Posting\<close>

record cloud_outcome_db =
  co_keys :: key_db
  co_outcomes :: "outcome_row tenant_table"
  co_history :: "history_row tenant_table"
  co_requests :: "ledger_row tenant_table"

definition text_field :: "nat \<Rightarrow> nat \<Rightarrow> string \<Rightarrow> bool" where
  "text_field least most s \<longleftrightarrow> least \<le> length s \<and> length s \<le> most"

text \<open>The field constraints of the request models.\<close>

definition valid_outcome :: "outcome \<Rightarrow> bool" where
  "valid_outcome oc \<longleftrightarrow> text_field 1 200 (oc_outcome_id oc) \<and> text_field 1 200 (oc_workflow_id oc)
     \<and> oc_status oc \<in> set OUTCOME_STATUSES \<and> text_field 1 64 (oc_outcome_type oc)
     \<and> (case oc_currency oc of None \<Rightarrow> True | Some c \<Rightarrow> text_field 0 8 c) \<and> text_field 0 32 (oc_source oc)"

definition valid_batch :: "outcome list \<Rightarrow> bool" where
  "valid_batch os \<longleftrightarrow> length os \<le> 1000 \<and> list_all valid_outcome os"

definition cloud_outcome_columns :: "outcome \<Rightarrow> outcome_row" where
  "cloud_outcome_columns oc =
     \<lparr>ow_outcome_id = oc_outcome_id oc, ow_workflow_id = oc_workflow_id oc, ow_status = oc_status oc,
      ow_business_value = oc_business_value oc, ow_currency = oc_currency oc, ow_event_time = oc_event_time oc,
      ow_source = oc_source oc,
      ow_metadata = obj_set (oc_metadata oc) ''outcome_type'' (JStr (oc_outcome_type oc))\<rparr>"

text \<open>\<open>ON CONFLICT (workspace_id, outcome_id) DO NOTHING\<close>; the flag is whether a row was returned.\<close>

definition post_outcome :: "string \<Rightarrow> outcome \<Rightarrow> nat \<times> outcome_row tenant_table \<Rightarrow> nat \<times> outcome_row tenant_table" where
  "post_outcome ws oc st =
     (case st of (n, t) \<Rightarrow>
        if oc_outcome_id oc \<in> ow_outcome_id ` set (slice ws t) then (n, t)
        else (n + 1, tenant_insert ws (cloud_outcome_columns oc) t))"

record posted =
  po_accepted :: nat
  po_duplicates :: nat

text \<open>
  \<open>fault\<close>: the number of statements after which the database fails. Every statement commits on its own, so
  that the rows before it stay.
\<close>

definition ingest_outcomes ::
    "(string \<Rightarrow> string) \<Rightarrow> instant \<Rightarrow> string option \<Rightarrow> string option \<Rightarrow> outcome list \<Rightarrow> nat option \<Rightarrow> cloud_outcome_db
       \<Rightarrow> (http_error + posted) \<times> cloud_outcome_db" where
  "ingest_outcomes sha now body_key x_api_key os fault db =
     (if \<not> valid_batch os then (Inl (HTTP 422 ''validation''), db)
      else let api_key = py_or body_key x_api_key
      in if \<not> truthy api_key then (Inl (HTTP 401 ''Missing API key''), db)
      else case get_workspace_by_api_key sha now (the api_key) (co_keys db) of
             (None, kd) \<Rightarrow> (Inl (HTTP 401 ''Invalid API key''), db\<lparr>co_keys := kd\<rparr>)
           | (Some (ws, plan), kd) \<Rightarrow>
               (let rows = first_by oc_outcome_id {} os;
                    done_rows = (case fault of None \<Rightarrow> rows | Some k \<Rightarrow> take k rows);
                    (n, t) = fold (post_outcome ws) done_rows (0, co_outcomes db);
                    db1 = db\<lparr>co_keys := kd, co_outcomes := t\<rparr>
                in if length done_rows < length rows then (Inl (HTTP 500 ''database''), db1)
                   else (Inr \<lparr>po_accepted = n, po_duplicates = length os - n\<rparr>, db1)))"

section \<open>Correcting\<close>

text \<open>One transaction; a failure leaves the tables unchanged and is not an event.\<close>

definition cloud_correct ::
    "string \<Rightarrow> string \<Rightarrow> string \<Rightarrow> string \<Rightarrow> instant option \<Rightarrow> instant \<Rightarrow> cloud_outcome_db \<Rightarrow> bool \<times> cloud_outcome_db" where
  "cloud_correct ws oid status reason event_time now db =
     (case lookup_key ow_outcome_id oid (slice ws (co_outcomes db)) of
        None \<Rightarrow> (False, db)
      | Some current \<Rightarrow>
          (let t = (case event_time of None \<Rightarrow> ow_event_time current | Some t \<Rightarrow> t)
           in (True, db\<lparr>
                co_history := tenant_insert ws \<lparr>oh_outcome_id = oid, oh_prior_status = ow_status current,
                  oh_new_status = status, oh_prior_event_time = ow_event_time current, oh_new_event_time = t,
                  oh_reason = reason, oh_source = ''api'', oh_changed_at = now\<rparr> (co_history db),
                co_outcomes := tenant_update ws (\<lambda>r. ow_outcome_id r = oid)
                  (\<lambda>r. r\<lparr>ow_status := status, ow_event_time := t\<rparr>) (co_outcomes db)\<rparr>)))"

definition correct_outcome_endpoint ::
    "(string \<Rightarrow> string) \<Rightarrow> instant \<Rightarrow> string option \<Rightarrow> string \<Rightarrow> string \<Rightarrow> string \<Rightarrow> instant option \<Rightarrow> cloud_outcome_db
       \<Rightarrow> (http_error + unit) \<times> cloud_outcome_db" where
  "correct_outcome_endpoint sha now x_api_key oid status reason event_time db =
     (if status \<notin> set OUTCOME_STATUSES \<or> \<not> text_field 1 500 reason then (Inl (HTTP 422 ''validation''), db)
      else if \<not> truthy x_api_key then (Inl (HTTP 401 ''Missing API key''), db)
      else case get_workspace_by_api_key sha now (the x_api_key) (co_keys db) of
             (None, kd) \<Rightarrow> (Inl (HTTP 401 ''Invalid API key''), db\<lparr>co_keys := kd\<rparr>)
           | (Some (ws, plan), kd) \<Rightarrow>
               (case cloud_correct ws oid status reason event_time now (db\<lparr>co_keys := kd\<rparr>) of
                  (False, db1) \<Rightarrow> (Inl (HTTP 404 ''Outcome not found''), db1)
                | (True, db1) \<Rightarrow> (Inr (), db1)))"

section \<open>Reading\<close>

text \<open>\<open>None\<close> for the token is the exception of \<open>verify_token\<close>.\<close>

definition resolve_workspace ::
    "(string \<Rightarrow> string) \<Rightarrow> instant \<Rightarrow> string option \<Rightarrow> token_payload option \<Rightarrow> key_db \<Rightarrow> (http_error + string) \<times> key_db" where
  "resolve_workspace sha now x_api_key token kd =
     (if truthy x_api_key then
        (case get_workspace_by_api_key sha now (the x_api_key) kd of
           (None, kd1) \<Rightarrow> (Inl (HTTP 401 ''Invalid API key''), kd1)
         | (Some (ws, plan), kd1) \<Rightarrow> (Inr ws, kd1))
      else case token of
             None \<Rightarrow> (Inl (HTTP 401 ''Not authenticated''), kd)
           | Some t \<Rightarrow> (case require_role ''viewer'' t of Inl e \<Rightarrow> (Inl e, kd) | Inr u \<Rightarrow> (Inr (tp_workspace_id t), kd)))"

definition outcome_history :: "string \<Rightarrow> string \<Rightarrow> cloud_outcome_db \<Rightarrow> history_row list" where
  "outcome_history ws oid db = sort_key oh_changed_at (filter (\<lambda>h. oh_outcome_id h = oid) (slice ws (co_history db)))"

text \<open>The summary query is the local one with a workspace predicate on both tables.\<close>

definition outcomes_summary :: "string \<Rightarrow> instant \<Rightarrow> int \<Rightarrow> real \<Rightarrow> cloud_outcome_db \<Rightarrow> workflow_economics list" where
  "outcomes_summary ws now days window db =
     Outcomes.get_workflow_economics (now - days * 86400000000) window (slice ws (co_outcomes db))
       (map econ_row.truncate (slice ws (co_requests db)))"

record concentration_alloc =
  ca_provider :: string
  ca_cost_usd :: usd
  ca_workflow_id :: string
  ca_accepted :: "string option"

definition accepted_outcome :: "real \<Rightarrow> string \<Rightarrow> instant \<Rightarrow> outcome_row table \<Rightarrow> outcome_row option" where
  "accepted_outcome window wid ts t = allocated_outcome window wid ts (filter (\<lambda>u. ow_status u = ''accepted'') t)"

definition concentration_allocs :: "real \<Rightarrow> instant \<Rightarrow> outcome_row table \<Rightarrow> ledger_row table \<Rightarrow> concentration_alloc list" where
  "concentration_allocs window since outcomes requests =
     List.map_filter (\<lambda>r. map_option (\<lambda>wid. \<lparr>ca_provider = rq_provider r, ca_cost_usd = rq_cost_usd r, ca_workflow_id = wid,
           ca_accepted = map_option ow_outcome_id (accepted_outcome window wid (instant_of (rq_timestamp r)) outcomes)\<rparr>)
         (rq_tags r ''workflow_id''))
       (filter (since_row since) requests)"

record provider_concentration =
  pc_provider :: string
  pc_spend_usd :: usd
  pc_spend_share :: real
  pc_accepted_outcomes :: nat
  pc_accepted_share :: real
  pc_workflows :: nat
  pc_sole_provider_workflows :: nat

definition distinct_count :: "('a \<Rightarrow> 'b option) \<Rightarrow> 'a list \<Rightarrow> nat" where
  "distinct_count f xs = length (remdups (List.map_filter f xs))"

definition sole_provider :: "concentration_alloc list \<Rightarrow> string \<Rightarrow> bool" where
  "sole_provider as w \<longleftrightarrow> distinct_count (\<lambda>a. if ca_workflow_id a = w then Some (ca_provider a) else None) as = 1"

definition concentration_row :: "concentration_alloc list \<Rightarrow> string \<Rightarrow> provider_concentration" where
  "concentration_row as p =
     (let mine = filter (\<lambda>a. ca_provider a = p) as;
          spend = sum_where (\<lambda>a. True) ca_cost_usd mine; total = sum_where (\<lambda>a. True) ca_cost_usd as;
          accepted = distinct_count ca_accepted mine; total_accepted = distinct_count ca_accepted as
      in \<lparr>pc_provider = p, pc_spend_usd = spend, pc_spend_share = (if total = 0 then 0 else spend / total),
          pc_accepted_outcomes = accepted,
          pc_accepted_share = (if total_accepted = 0 then 0 else real accepted / real total_accepted),
          pc_workflows = distinct_count (\<lambda>a. Some (ca_workflow_id a)) mine,
          pc_sole_provider_workflows =
            distinct_count (\<lambda>a. if sole_provider as (ca_workflow_id a) then Some (ca_workflow_id a) else None) mine\<rparr>)"

definition outcomes_concentration :: "string \<Rightarrow> instant \<Rightarrow> int \<Rightarrow> real \<Rightarrow> cloud_outcome_db \<Rightarrow> provider_concentration list" where
  "outcomes_concentration ws now days window db =
     (let as = concentration_allocs window (now - days * 86400000000) (slice ws (co_outcomes db)) (slice ws (co_requests db))
      in sort_key (\<lambda>p. - pc_spend_usd p) (map (concentration_row as) (remdups (map ca_provider as))))"

record coverage_alloc =
  cv_workflow_id :: "string option"
  cv_cost_usd :: usd
  cv_status :: "string option"

definition coverage_allocs :: "real \<Rightarrow> instant \<Rightarrow> outcome_row table \<Rightarrow> ledger_row table \<Rightarrow> coverage_alloc list" where
  "coverage_allocs window since outcomes requests =
     map (\<lambda>r. \<lparr>cv_workflow_id = rq_tags r ''workflow_id'', cv_cost_usd = rq_cost_usd r,
            cv_status = Option.bind (rq_tags r ''workflow_id'')
              (\<lambda>w. map_option ow_status (allocated_outcome window w (instant_of (rq_timestamp r)) outcomes))\<rparr>)
       (filter (since_row since) requests)"

record coverage_group =
  cg_workflow_id :: "string option"
  cg_cost_total :: usd
  cg_cost_attributed :: usd
  cg_cost_accepted :: usd
  cg_cost_rework :: usd

definition coverage_group_of :: "coverage_alloc list \<Rightarrow> string option \<Rightarrow> coverage_group" where
  "coverage_group_of as w =
     (let mine = filter (\<lambda>a. cv_workflow_id a = w) as; part = (\<lambda>p. sum_where (\<lambda>a. p (cv_status a)) cv_cost_usd mine)
      in \<lparr>cg_workflow_id = w, cg_cost_total = part (\<lambda>_. True), cg_cost_attributed = part (\<lambda>s. s \<noteq> None),
          cg_cost_accepted = part (\<lambda>s. s = Some ''accepted''),
          cg_cost_rework = part (\<lambda>s. s \<in> {Some ''rejected'', Some ''failed''})\<rparr>)"

definition coverage_groups :: "coverage_alloc list \<Rightarrow> coverage_group list" where
  "coverage_groups as = sort_key (\<lambda>g. - cg_cost_total g) (map (coverage_group_of as) (remdups (map cv_workflow_id as)))"

record coverage_report =
  cr_cost_total_usd :: usd
  cr_cost_attributed_usd :: usd
  cr_cost_unattributed_usd :: usd
  cr_cost_untagged_usd :: usd
  cr_cost_accepted_usd :: usd
  cr_cost_rework_usd :: usd
  cr_coverage_pct :: real
  cr_by_workflow :: "(string option \<times> usd \<times> usd \<times> real) list"

text \<open>The accumulators of the loop are sums over the groups.\<close>

definition coverage_totals :: "coverage_group list \<Rightarrow> usd \<times> usd \<times> usd \<times> usd \<times> usd" where
  "coverage_totals gs =
     (sum_where (\<lambda>g. True) cg_cost_total gs, sum_where (\<lambda>g. True) cg_cost_attributed gs,
      sum_where (\<lambda>g. cg_workflow_id g = None) cg_cost_total gs,
      sum_where (\<lambda>g. True) cg_cost_accepted gs, sum_where (\<lambda>g. True) cg_cost_rework gs)"

definition coverage_report_of :: "nat \<Rightarrow> coverage_group list \<Rightarrow> coverage_report" where
  "coverage_report_of limit gs =
     (case coverage_totals gs of (whole, attr, untag, acc, rew) \<Rightarrow>
        \<lparr>cr_cost_total_usd = py_round whole 6, cr_cost_attributed_usd = py_round attr 6,
         cr_cost_unattributed_usd = py_round (whole - attr - untag) 6, cr_cost_untagged_usd = py_round untag 6,
         cr_cost_accepted_usd = py_round acc 6, cr_cost_rework_usd = py_round rew 6,
         cr_coverage_pct = (if whole = 0 then 0 else py_round (attr / whole * 100) 1),
         cr_by_workflow = take limit (map (\<lambda>g. (cg_workflow_id g, py_round (cg_cost_total g) 6, py_round (cg_cost_attributed g) 6,
             if cg_cost_total g = 0 then 0 else py_round (cg_cost_attributed g / cg_cost_total g * 100) 1)) gs)\<rparr>)"

definition outcomes_coverage :: "string \<Rightarrow> instant \<Rightarrow> int \<Rightarrow> real \<Rightarrow> nat \<Rightarrow> cloud_outcome_db \<Rightarrow> coverage_report" where
  "outcomes_coverage ws now days window limit db =
     coverage_report_of limit (coverage_groups (coverage_allocs window (now - days * 86400000000)
       (slice ws (co_outcomes db)) (slice ws (co_requests db))))"

section \<open>The endpoints as a system\<close>

datatype outcome_call =
    Post_call instant "string option" "string option" "outcome list" "nat option"
  | Patch_call instant "string option" string string string "instant option"

definition outcome_call_step :: "(string \<Rightarrow> string) \<Rightarrow> outcome_call \<Rightarrow> cloud_outcome_db \<Rightarrow> cloud_outcome_db" where
  "outcome_call_step sha c db =
     (case c of
        Post_call now body_key key os fault \<Rightarrow> snd (ingest_outcomes sha now body_key key os fault db)
      | Patch_call now key oid status reason t \<Rightarrow> snd (correct_outcome_endpoint sha now key oid status reason t db))"

text \<open>The workspace a key resolves to, and the local events that a call amounts to there.\<close>

definition key_workspace :: "(string \<Rightarrow> string) \<Rightarrow> instant \<Rightarrow> string option \<Rightarrow> key_db \<Rightarrow> string option" where
  "key_workspace sha now key kd =
     (if truthy key then map_option fst (fst (get_workspace_by_api_key sha now (the key) kd)) else None)"

definition stamped :: "outcome \<Rightarrow> outcome" where
  "stamped oc = oc\<lparr>oc_metadata := obj_set (oc_metadata oc) ''outcome_type'' (JStr (oc_outcome_type oc))\<rparr>"

definition call_trace :: "(string \<Rightarrow> string) \<Rightarrow> string \<Rightarrow> outcome_call \<Rightarrow> cloud_outcome_db \<Rightarrow> outcome_event list" where
  "call_trace sha w c db =
     (case c of
        Post_call now body_key key os fault \<Rightarrow>
          if valid_batch os \<and> key_workspace sha now (py_or body_key key) (co_keys db) = Some w
          then map (\<lambda>oc. Insert_outcome (stamped oc))
                 (case fault of None \<Rightarrow> first_by oc_outcome_id {} os | Some k \<Rightarrow> take k (first_by oc_outcome_id {} os))
          else []
      | Patch_call now key oid status reason t \<Rightarrow>
          if status \<in> set OUTCOME_STATUSES \<and> text_field 1 500 reason \<and> key_workspace sha now key (co_keys db) = Some w
          then [Correct oid status reason t now] else [])"

text \<open>What a workspace sees; the origin of a correction is the only column that differs from the local tables.\<close>

definition outcome_view :: "string \<Rightarrow> cloud_outcome_db \<Rightarrow> outcome_db" where
  "outcome_view w db =
     \<lparr>od_outcomes = slice w (co_outcomes db), od_history = map (oh_source_update (\<lambda>_. ''cli'')) (slice w (co_history db))\<rparr>"

lemma stamped_columns: "outcome_columns (stamped oc) = cloud_outcome_columns oc"
proof -
  have "map_of (obj_set d k v) k \<noteq> None" for d :: "(string \<times> json) list" and k v
    by (auto simp: obj_set_def map_of_eq_None_iff image_iff split: if_splits) force+
  then show ?thesis
    by (simp add: outcome_columns_def cloud_outcome_columns_def stamped_def with_default_def)
qed

lemma post_outcome_insert:
  assumes "valid_outcome oc"
  shows "snd (insert_outcome (stamped oc) \<lparr>od_outcomes = slice ws t, od_history = h\<rparr>)
    = \<lparr>od_outcomes = slice ws (snd (post_outcome ws oc (n, t))), od_history = h\<rparr>"
proof -
  have "oc_outcome_id (stamped oc) = oc_outcome_id oc" "oc_status (stamped oc) = oc_status oc" by (simp_all add: stamped_def)
  with assms show ?thesis
    by (auto simp: insert_outcome_def post_outcome_def slice_simps stamped_columns valid_outcome_def)
qed

lemma post_outcome_foreign: "w \<noteq> ws \<Longrightarrow> slice w (snd (post_outcome ws oc st)) = slice w (snd st)"
  by (cases st) (simp add: post_outcome_def slice_simps)

lemma post_all_insert:
  "list_all valid_outcome os \<Longrightarrow>
   run_steps outcome_step (map (\<lambda>oc. Insert_outcome (stamped oc)) os) \<lparr>od_outcomes = slice ws t, od_history = h\<rparr>
     = \<lparr>od_outcomes = slice ws (snd (fold (post_outcome ws) os (n, t))), od_history = h\<rparr>"
proof (induction os arbitrary: n t)
  case (Cons oc os)
  obtain n' t' where st: "post_outcome ws oc (n, t) = (n', t')" by fastforce
  have "outcome_step (Insert_outcome (stamped oc)) \<lparr>od_outcomes = slice ws t, od_history = h\<rparr>
      = \<lparr>od_outcomes = slice ws t', od_history = h\<rparr>"
    using post_outcome_insert[of oc ws t h n] Cons.prems by (simp add: outcome_step_def st)
  with Cons st show ?case by simp
qed simp

lemma post_all_foreign: "w \<noteq> ws \<Longrightarrow> slice w (snd (fold (post_outcome ws) os st)) = slice w (snd st)"
  by (induction os arbitrary: st) (simp_all add: post_outcome_foreign)

lemma list_all_first_by: "list_all P xs \<Longrightarrow> list_all P (first_by key seen xs)"
  using first_by_set[of key seen xs] by (auto simp: list_all_iff)

lemma list_all_take: "list_all P xs \<Longrightarrow> list_all P (take k xs)"
  by (auto simp: list_all_iff dest: in_set_takeD)

lemma post_simulates:
  "outcome_view w (snd (ingest_outcomes sha now body_key key os fault db))
   = run_steps outcome_step (call_trace sha w (Post_call now body_key key os fault) db) (outcome_view w db)"
proof (cases "valid_batch os \<and> truthy (py_or body_key key)")
  case True
  obtain r kd where look: "get_workspace_by_api_key sha now (the (py_or body_key key)) (co_keys db) = (r, kd)" by fastforce
  show ?thesis
  proof (cases r)
    case None
    with True look show ?thesis
      by (simp add: ingest_outcomes_def call_trace_def key_workspace_def outcome_view_def)
  next
    case (Some wp)
    obtain ws plan where wp: "wp = (ws, plan)" by fastforce
    let ?rows = "first_by oc_outcome_id {} os"
    let ?done = "case fault of None \<Rightarrow> ?rows | Some k \<Rightarrow> take k ?rows"
    have valid: "list_all valid_outcome ?done"
      using True by (auto simp: valid_batch_def intro!: list_all_first_by list_all_take split: option.split)
    have "co_outcomes (snd (ingest_outcomes sha now body_key key os fault db)) = snd (fold (post_outcome ws) ?done (0, co_outcomes db))"
      "co_history (snd (ingest_outcomes sha now body_key key os fault db)) = co_history db"
      using True look Some wp by (auto simp: ingest_outcomes_def Let_def split: prod.split)
    moreover have "call_trace sha w (Post_call now body_key key os fault) db
        = (if ws = w then map (\<lambda>oc. Insert_outcome (stamped oc)) ?done else [])"
      using True look Some wp by (simp add: call_trace_def key_workspace_def)
    ultimately show ?thesis
      using post_all_insert[OF valid, of w "co_outcomes db" "od_history (outcome_view w db)" 0]
        post_all_foreign[of w ws ?done "(0, co_outcomes db)"]
      by (auto simp: outcome_view_def)
  qed
next
  case False
  then show ?thesis by (auto simp: ingest_outcomes_def call_trace_def key_workspace_def outcome_view_def)
qed

lemma correct_simulates:
  assumes "status \<in> set OUTCOME_STATUSES"
  shows "outcome_view w (snd (cloud_correct ws oid status reason t now db))
    = run_steps outcome_step (if ws = w then [Correct oid status reason t now] else []) (outcome_view w db)"
  using assms
  by (auto simp: cloud_correct_def outcome_step_def correct_outcome_def outcome_view_def slice_simps Let_def split: option.split)

lemma cloud_correct_keys: "cloud_correct ws oid status reason t now (db\<lparr>co_keys := kd\<rparr>)
    = (fst (cloud_correct ws oid status reason t now db), (snd (cloud_correct ws oid status reason t now db))\<lparr>co_keys := kd\<rparr>)"
  by (auto simp: cloud_correct_def Let_def split: option.split)

lemma view_keys [simp]: "outcome_view w (db\<lparr>co_keys := kd\<rparr>) = outcome_view w db"
  by (simp add: outcome_view_def)

lemma patch_simulates:
  "outcome_view w (snd (correct_outcome_endpoint sha now key oid status reason t db))
   = run_steps outcome_step (call_trace sha w (Patch_call now key oid status reason t) db) (outcome_view w db)"
proof (cases "status \<in> set OUTCOME_STATUSES \<and> text_field 1 500 reason \<and> truthy key")
  case True
  obtain r kd where look: "get_workspace_by_api_key sha now (the key) (co_keys db) = (r, kd)" by fastforce
  show ?thesis
  proof (cases r)
    case None
    with True look show ?thesis by (simp add: correct_outcome_endpoint_def call_trace_def key_workspace_def)
  next
    case (Some wp)
    obtain ws plan where wp: "wp = (ws, plan)" by fastforce
    have "outcome_view w (snd (correct_outcome_endpoint sha now key oid status reason t db))
        = outcome_view w (snd (cloud_correct ws oid status reason t now db))"
      using True look Some wp
      by (auto simp: correct_outcome_endpoint_def cloud_correct_keys split: prod.split bool.split)
    with True look Some wp show ?thesis
      by (simp add: correct_simulates call_trace_def key_workspace_def)
  qed
next
  case False
  then show ?thesis by (auto simp: correct_outcome_endpoint_def call_trace_def key_workspace_def)
qed

interpretation hosted_outcomes: tenant_system "outcome_call_step sha" "\<lambda>_. True" outcome_view outcome_step "call_trace sha" for sha
  by unfold_locales (auto simp: outcome_call_step_def post_simulates patch_simulates simp del: run_steps.simps split: outcome_call.split)

text \<open>C25: 
  The hosted outcome store is the local one for every workspace: whatever is posted and corrected under whatever
  keys, in any order and with any database failures, each workspace sees the run of the local store over exactly
  the events that came under its own keys. Nothing of another workspace enters, and a replayed batch changes
  nothing, since the local insertion ignores known identifiers.
\<close>

theorem hosted_outcomes_refine:
  "outcome_view w (run_steps (outcome_call_step sha) calls db)
   = run_steps outcome_step (run_trace (outcome_call_step sha) (call_trace sha) w calls db) (outcome_view w db)"
  by (rule hosted_outcomes.view_run) simp

section \<open>Replays\<close>

lemma post_all_present:
  "oc_outcome_id ` set os \<subseteq> ow_outcome_id ` set (slice ws t) \<Longrightarrow> fold (post_outcome ws) os (n, t) = (n, t)"
  by (induction os) (auto simp: post_outcome_def)

lemma post_keeps: "set (slice ws (snd st)) \<subseteq> set (slice ws (snd (post_outcome ws oc st)))"
  by (cases st) (auto simp: post_outcome_def slice_simps)

lemma post_all_keeps: "set (slice ws (snd st)) \<subseteq> set (slice ws (snd (fold (post_outcome ws) os st)))"
proof (induction os arbitrary: st)
  case (Cons oc os)
  then show ?case using subset_trans[OF post_keeps[of ws st oc] Cons.IH[of "post_outcome ws oc st"]] by simp
qed simp

lemma post_present: "oc_outcome_id oc \<in> ow_outcome_id ` set (slice ws (snd (post_outcome ws oc st)))"
  by (cases st) (auto simp: post_outcome_def slice_simps cloud_outcome_columns_def)

lemma post_all_adds: "oc_outcome_id ` set os \<subseteq> ow_outcome_id ` set (slice ws (snd (fold (post_outcome ws) os st)))"
proof (induction os arbitrary: st)
  case (Cons oc os)
  have "oc_outcome_id oc \<in> ow_outcome_id ` set (slice ws (snd (fold (post_outcome ws) os (post_outcome ws oc st))))"
    using post_present[of oc ws st] post_all_keeps[of ws "post_outcome ws oc st" os] by blast
  with Cons show ?case by simp
qed simp

text \<open>
  Delivering a batch again is harmless: after a batch was accepted, the same batch under a key of the same
  workspace is answered as duplicates only and changes no stored outcome, whatever the time of the replay.
\<close>

theorem replayed_batch_ignored:
  assumes "ingest_outcomes sha now body_key key os fault db = (Inr p, db1)"
    and "key_workspace sha now (py_or body_key key) (co_keys db) = Some ws"
    and "key_workspace sha later (py_or body_key' key') (co_keys db1) = Some ws"
  shows "\<exists>kd. ingest_outcomes sha later body_key' key' os None db1
    = (Inr \<lparr>po_accepted = 0, po_duplicates = length os\<rparr>, db1\<lparr>co_keys := kd\<rparr>)"
proof -
  let ?rows = "first_by oc_outcome_id {} os"
  from assms(2) obtain plan kd where first: "truthy (py_or body_key key)"
    "get_workspace_by_api_key sha now (the (py_or body_key key)) (co_keys db) = (Some (ws, plan), kd)"
    by (auto simp: key_workspace_def split: if_splits) (metis prod.collapse)
  from assms(3) obtain plan' kd' where again: "truthy (py_or body_key' key')"
    "get_workspace_by_api_key sha later (the (py_or body_key' key')) (co_keys db1) = (Some (ws, plan'), kd')"
    by (auto simp: key_workspace_def split: if_splits) (metis prod.collapse)
  have valid: "valid_batch os" using assms(1) by (auto simp: ingest_outcomes_def split: if_splits)
  obtain n t where posted: "fold (post_outcome ws) ?rows (0, co_outcomes db) = (n, t)" by fastforce
  have "(case fault of None \<Rightarrow> ?rows | Some k \<Rightarrow> take k ?rows) = ?rows"
    using assms(1) valid first by (cases fault) (auto simp: ingest_outcomes_def Let_def split: if_splits prod.splits)
  then have "co_outcomes db1 = t"
    using assms(1) valid first posted by (auto simp: ingest_outcomes_def Let_def split: if_splits)
  then have "oc_outcome_id ` set ?rows \<subseteq> ow_outcome_id ` set (slice ws (co_outcomes db1))"
    using post_all_adds[of ?rows ws "(0, co_outcomes db)"] posted by simp
  from post_all_present[OF this, of 0] have "ingest_outcomes sha later body_key' key' os None db1
    = (Inr \<lparr>po_accepted = 0, po_duplicates = length os\<rparr>, db1\<lparr>co_keys := kd'\<rparr>)"
    using valid again by (simp add: ingest_outcomes_def)
  then show ?thesis by blast
qed

section \<open>The reports add up\<close>

lemma sum_where_mono: "\<forall>x \<in> set xs. 0 \<le> f x \<Longrightarrow> sum_where P f xs \<le> sum_where (\<lambda>x. True) f xs"
  by (induction xs) auto

lemma coverage_sum:
  "sum_where p f (coverage_groups as) = sum_list (map f (filter p (map (coverage_group_of as) (remdups (map cv_workflow_id as)))))"
  by (simp add: coverage_groups_def sum_where_def sum_list_sort_key)

lemma coverage_total_of:
  assumes "\<And>w. f (coverage_group_of as w) = sum_where (\<lambda>a. p (cv_status a)) cv_cost_usd (filter (\<lambda>a. cv_workflow_id a = w) as)"
  shows "sum_where (\<lambda>g. True) f (coverage_groups as) = sum_where (\<lambda>a. p (cv_status a)) cv_cost_usd as"
proof -
  have "sum_where (\<lambda>g. True) f (coverage_groups as)
      = sum_list (map (\<lambda>w. sum_where (\<lambda>a. cv_workflow_id a = w \<and> p (cv_status a)) cv_cost_usd as) (remdups (map cv_workflow_id as)))"
    by (simp add: coverage_sum o_def assms sum_where_filter)
  also have "\<dots> = sum_where (\<lambda>a. p (cv_status a)) cv_cost_usd as"
    by (rule sum_where_partition) auto
  finally show ?thesis .
qed

lemma coverage_untagged:
  "sum_where (\<lambda>g. cg_workflow_id g = None) cg_cost_total (coverage_groups as) = sum_where (\<lambda>a. cv_workflow_id a = None) cv_cost_usd as"
proof -
  have none: "filter (\<lambda>w. w = None) (remdups ws) = (if None \<in> set ws then [None] else [])" for ws :: "string option list"
    by (induction ws) auto
  have "sum_where (\<lambda>a. cv_workflow_id a = None) cv_cost_usd as = 0" if "None \<notin> set (map cv_workflow_id as)"
    using that by (induction as) auto
  then show ?thesis
    by (auto simp: coverage_sum filter_map o_def coverage_group_of_def none sum_where_filter Let_def)
qed

lemma coverage_statuses:
  assumes "\<forall>u \<in> set outcomes. row_typed u" "a \<in> set (coverage_allocs window since outcomes requests)"
  shows "cv_status a = None \<or> cv_status a = Some ''accepted'' \<or> cv_status a = Some ''rejected'' \<or> cv_status a = Some ''failed''"
    and "cv_workflow_id a = None \<Longrightarrow> cv_status a = None"
proof -
  from assms(2) obtain r :: ledger_row where "a = \<lparr>cv_workflow_id = rq_tags r ''workflow_id'', cv_cost_usd = rq_cost_usd r,
      cv_status = Option.bind (rq_tags r ''workflow_id'')
        (\<lambda>w. map_option ow_status (allocated_outcome window w (instant_of (rq_timestamp r)) outcomes))\<rparr>"
    unfolding coverage_allocs_def set_map by (rule imageE)
  then have r: "cv_workflow_id a = rq_tags r ''workflow_id''"
    "cv_status a = Option.bind (rq_tags r ''workflow_id'')
       (\<lambda>w. map_option ow_status (allocated_outcome window w (instant_of (rq_timestamp r)) outcomes))"
    by simp_all
  then show "cv_workflow_id a = None \<Longrightarrow> cv_status a = None" by simp
  show "cv_status a = None \<or> cv_status a = Some ''accepted'' \<or> cv_status a = Some ''rejected'' \<or> cv_status a = Some ''failed''"
  proof (cases "cv_status a")
    case (Some s)
    then obtain w u where "allocated_outcome window w (instant_of (rq_timestamp r)) outcomes = Some u" "s = ow_status u"
      using r by (auto simp: bind_eq_Some_conv)
    then have "s \<in> set OUTCOME_STATUSES" using allocated_member assms(1) by (fastforce simp: row_typed_def)
    with Some show ?thesis by (auto simp: OUTCOME_STATUSES_def)
  qed simp
qed

text \<open>
  The coverage report accounts for every dollar: its total is the spend of the window, the untagged part is the
  spend of requests without a workflow, and the attributed part splits into accepted and rework and fits into
  what is left.
\<close>

theorem coverage_accounts:
  assumes "\<forall>u \<in> set outcomes. row_typed u" "\<forall>r \<in> set requests. 0 \<le> rq_cost_usd r"
    and "coverage_totals (coverage_groups (coverage_allocs window since outcomes requests)) = (whole, attr, untag, acc, rew)"
  shows "whole = sum_where (since_row since) rq_cost_usd requests
    \<and> untag = sum_where (\<lambda>r. since_row since r \<and> rq_tags r ''workflow_id'' = None) rq_cost_usd requests
    \<and> attr = acc + rew \<and> 0 \<le> attr \<and> attr + untag \<le> whole"
proof -
  let ?as = "coverage_allocs window since outcomes requests"
  have parts: "whole = sum_where (\<lambda>a. True) cv_cost_usd ?as" "attr = sum_where (\<lambda>a. cv_status a \<noteq> None) cv_cost_usd ?as"
    "acc = sum_where (\<lambda>a. cv_status a = Some ''accepted'') cv_cost_usd ?as"
    "rew = sum_where (\<lambda>a. cv_status a \<in> {Some ''rejected'', Some ''failed''}) cv_cost_usd ?as"
    "untag = sum_where (\<lambda>a. cv_workflow_id a = None) cv_cost_usd ?as"
    using assms(3) by (simp_all add: coverage_totals_def coverage_untagged
        coverage_total_of[where p = "\<lambda>_. True"] coverage_total_of[where p = "\<lambda>s. s \<noteq> None"]
        coverage_total_of[where p = "\<lambda>s. s = Some ''accepted''"] coverage_total_of[where p = "\<lambda>s. s \<in> {Some ''rejected'', Some ''failed''}"]
        coverage_group_of_def Let_def)
  have cost: "\<forall>a \<in> set ?as. 0 \<le> cv_cost_usd a" using assms(2) by (auto simp: coverage_allocs_def)
  note st = coverage_statuses[OF assms(1), of _ window since requests]
  have known: "y = ''accepted'' \<or> y = ''rejected'' \<or> y = ''failed''" if "a \<in> set ?as" "cv_status a = Some y" for a y
    using st(1)[OF that(1)] that(2) by auto
  have split: "sum_where P cv_cost_usd xs + sum_where Q cv_cost_usd xs = sum_where (\<lambda>a. P a \<or> Q a) cv_cost_usd xs"
    if "\<forall>a \<in> set xs. \<not> (P a \<and> Q a)" for P Q and xs :: "coverage_alloc list"
    using that by (induction xs) auto
  have "whole = sum_where (since_row since) rq_cost_usd requests"
    "untag = sum_where (\<lambda>r. since_row since r \<and> rq_tags r ''workflow_id'' = None) rq_cost_usd requests"
    unfolding parts coverage_allocs_def by (induction requests) auto
  moreover have "attr = acc + rew"
    unfolding parts by (subst split) (auto intro!: sum_where_cong dest: known)
  moreover have "0 \<le> attr" unfolding parts using cost by (intro sum_where_nonneg) auto
  moreover have "attr + untag \<le> whole"
  proof -
    have "attr + untag = sum_where (\<lambda>a. cv_status a \<noteq> None \<or> cv_workflow_id a = None) cv_cost_usd ?as"
      unfolding parts using st(2) by (subst split) auto
    also have "\<dots> \<le> whole" unfolding parts using cost by (rule sum_where_mono)
    finally show ?thesis .
  qed
  ultimately show ?thesis by simp
qed

lemma sum_list_quotient: "sum_list (map (\<lambda>x. f x / c) xs) = sum_list (map f xs) / (c :: real)"
  by (induction xs) (simp_all add: add_divide_distrib)

lemma distinct_count_filter: "distinct_count f (filter P xs) \<le> distinct_count f xs"
  unfolding distinct_count_def length_remdups_card_conv
  by (rule card_mono) (auto simp: List.map_filter_def)

lemma distinct_count_guard:
  assumes "\<And>x y. f x = Some y \<Longrightarrow> g x = Some y"
  shows "distinct_count f xs \<le> distinct_count g xs"
  unfolding distinct_count_def length_remdups_card_conv
  by (rule card_mono) (use assms in \<open>force simp: set_map_filter\<close>)+

text \<open>
  The concentration report ranks each provider once; its spend is all the tagged spend of the window, so that the
  shares add up to one; and no provider is credited with more accepted outcomes than there are or is the sole
  provider of more workflows than it serves.
\<close>

theorem concentration_shares:
  assumes "as = concentration_allocs window since outcomes requests"
    and "rows = map (concentration_row as) (remdups (map ca_provider as))" "0 < sum_where (\<lambda>a. True) ca_cost_usd as"
  shows "distinct (map pc_provider rows)
    \<and> sum_list (map pc_spend_usd rows) = sum_where (\<lambda>r. since_row since r \<and> rq_tags r ''workflow_id'' \<noteq> None) rq_cost_usd requests
    \<and> sum_list (map pc_spend_share rows) = 1
    \<and> (\<forall>p \<in> set rows. pc_accepted_share p \<le> 1 \<and> pc_sole_provider_workflows p \<le> pc_workflows p)"
proof -
  let ?all = "sum_where (\<lambda>a. True) ca_cost_usd as"
  have row: "pc_provider (concentration_row as p) = p"
    "pc_spend_usd (concentration_row as p) = sum_where (\<lambda>a. ca_provider a = p \<and> True) ca_cost_usd as"
    "pc_spend_share (concentration_row as p) = pc_spend_usd (concentration_row as p) / ?all" for p
    using assms(3) by (simp_all add: concentration_row_def sum_where_filter Let_def)
  have "map pc_provider rows = remdups (map ca_provider as)" by (simp add: assms(2) row(1) o_def)
  then have dist: "distinct (map pc_provider rows)" by simp
  have spend: "sum_list (map pc_spend_usd rows) = ?all"
    unfolding assms(2) map_map o_def row(2) by (rule sum_where_partition) auto
  have "?all = sum_where (\<lambda>r. since_row since r \<and> rq_tags r ''workflow_id'' \<noteq> None) rq_cost_usd requests"
    unfolding assms(1) concentration_allocs_def by (induction requests) (auto simp: List.map_filter_def)
  moreover have "sum_list (map pc_spend_share rows) = sum_list (map pc_spend_usd rows) / ?all"
    unfolding assms(2) map_map o_def row(3) by (simp add: sum_list_quotient)
  moreover have "pc_accepted_share (concentration_row as p) \<le> 1 \<and> pc_sole_provider_workflows (concentration_row as p) \<le> pc_workflows (concentration_row as p)" for p
  proof
    show "pc_accepted_share (concentration_row as p) \<le> 1"
      using distinct_count_filter[of ca_accepted "\<lambda>a. ca_provider a = p" as] by (simp add: concentration_row_def Let_def)
    show "pc_sole_provider_workflows (concentration_row as p) \<le> pc_workflows (concentration_row as p)"
      unfolding concentration_row_def Let_def by (simp, rule distinct_count_guard) (simp split: if_splits)
  qed
  ultimately show ?thesis using dist spend assms(2,3) by auto
qed

text \<open>
  The two reports allocate differently: a request whose first outcome was rejected is rework in the summary, yet a
  later accepted outcome of its workflow makes it count as accepted work in the concentration report.
\<close>

theorem rework_credited_as_accepted:
  assumes "allocated_outcome window w ts t = Some u" "ow_status u \<noteq> ''accepted''"
    and "v \<in> set (candidates window w ts t)" "ow_status v = ''accepted''"
  shows "\<exists>x. accepted_outcome window w ts t = Some x \<and> ow_status x = ''accepted'' \<and> x \<noteq> u"
proof -
  have "v \<in> set (sort_key ow_event_time (candidates window w ts (filter (\<lambda>u. ow_status u = ''accepted'') t)))"
    using assms(3,4) by (auto simp: candidates_def)
  then obtain x xs where x: "sort_key ow_event_time (candidates window w ts (filter (\<lambda>u. ow_status u = ''accepted'') t)) = x # xs"
    by (cases "sort_key ow_event_time (candidates window w ts (filter (\<lambda>u. ow_status u = ''accepted'') t))") auto
  then have "x \<in> set (candidates window w ts (filter (\<lambda>u. ow_status u = ''accepted'') t))"
    by (metis list.set_intros(1) set_sort)
  then have "ow_status x = ''accepted''" by (auto simp: candidates_def)
  with x assms(2) show ?thesis by (auto simp: accepted_outcome_def allocated_outcome_def)
qed

section \<open>Witnesses\<close>

definition warm_keys :: key_db where
  "warm_keys = \<lparr>kd_workspaces = [], kd_api_keys = [], kd_cache = [''h0'' \<mapsto> (''w'', ''free'', None, 0)]\<rparr>"

definition fresh_outcomes :: cloud_outcome_db where
  "fresh_outcomes = \<lparr>co_keys = warm_keys, co_outcomes = [], co_history = [], co_requests = []\<rparr>"

lemma warm_lookup: "get_workspace_by_api_key demo_sha 5 key warm_keys = (Some (''w'', ''free''), warm_keys)"
  by (simp add: get_workspace_by_api_key_def warm_keys_def demo_sha_def api_key_cache_ttl_def)

lemma demo_post:
  "ingest_outcomes demo_sha 5 None (Some ''k'') [demo_outcome, demo_outcome] None fresh_outcomes
   = (Inr \<lparr>po_accepted = 1, po_duplicates = 1\<rparr>,
      fresh_outcomes\<lparr>co_outcomes := [(''w'', cloud_outcome_columns demo_outcome)]\<rparr>)"
proof -
  have "valid_batch [demo_outcome, demo_outcome]"
    by (simp add: valid_batch_def valid_outcome_def demo_outcome_def text_field_def OUTCOME_STATUSES_def)
  then show ?thesis
    by (simp add: ingest_outcomes_def py_or_def fresh_outcomes_def warm_lookup post_outcome_def tenant_insert_def)
qed

theorem replayed_batch_ignored_witness:
  "fst (ingest_outcomes demo_sha 5 None (Some ''k'') [demo_outcome, demo_outcome] None
     (fresh_outcomes\<lparr>co_outcomes := [(''w'', cloud_outcome_columns demo_outcome)]\<rparr>)) = Inr \<lparr>po_accepted = 0, po_duplicates = 2\<rparr>"
proof -
  have key: "key_workspace demo_sha 5 (py_or None (Some ''k'')) (co_keys fresh_outcomes) = Some ''w''"
    by (simp add: key_workspace_def py_or_def fresh_outcomes_def warm_lookup)
  then have "key_workspace demo_sha 5 (py_or None (Some ''k''))
      (co_keys (fresh_outcomes\<lparr>co_outcomes := [(''w'', cloud_outcome_columns demo_outcome)]\<rparr>)) = Some ''w''" by simp
  from replayed_batch_ignored[OF demo_post key this] show ?thesis by auto
qed

definition work_row :: "usd \<Rightarrow> string option \<Rightarrow> ledger_row" where
  "work_row c w = cached_row\<lparr>rq_cost_usd := c, rq_provider := ''openai'', rq_tags := (case w of None \<Rightarrow> Map.empty | Some x \<Rightarrow> [''workflow_id'' \<mapsto> x])\<rparr>"

definition outcome_at :: "string \<Rightarrow> string \<Rightarrow> instant \<Rightarrow> outcome_row" where
  "outcome_at oid status late = (outcome_columns demo_outcome)\<lparr>ow_outcome_id := oid, ow_status := status,
     ow_event_time := instant_of (rq_timestamp cached_row) + late\<rparr>"

theorem coverage_accounts_witness:
  "\<exists>attr acc rew. coverage_totals (coverage_groups (coverage_allocs 60 (instant_of (rq_timestamp cached_row))
       [outcome_at ''o'' ''accepted'' 1] [work_row 2 (Some ''w''), work_row 3 None])) = (5, attr, 3, acc, rew) \<and> attr = acc + rew"
proof -
  let ?t = "coverage_totals (coverage_groups (coverage_allocs 60 (instant_of (rq_timestamp cached_row))
       [outcome_at ''o'' ''accepted'' 1] [work_row 2 (Some ''w''), work_row 3 None]))"
  obtain whole attr untag acc rew where t: "?t = (whole, attr, untag, acc, rew)" by (cases ?t)
  have "\<forall>u \<in> set [outcome_at ''o'' ''accepted'' 1]. row_typed u"
    by (simp add: row_typed_def outcome_at_def OUTCOME_STATUSES_def)
  moreover have "\<forall>r \<in> set [work_row 2 (Some ''w''), work_row 3 None]. 0 \<le> rq_cost_usd r" by (simp add: work_row_def)
  ultimately show ?thesis using coverage_accounts[OF _ _ t] t by (simp add: work_row_def since_row_def)
qed

theorem concentration_shares_witness:
  "sum_list (map pc_spend_share (map (concentration_row (concentration_allocs 60 (instant_of (rq_timestamp cached_row)) [] [work_row 2 (Some ''w'')]))
     (remdups (map ca_provider (concentration_allocs 60 (instant_of (rq_timestamp cached_row)) [] [work_row 2 (Some ''w'')]))))) = 1"
proof -
  have "0 < sum_where (\<lambda>a. True) ca_cost_usd (concentration_allocs 60 (instant_of (rq_timestamp cached_row)) [] [work_row 2 (Some ''w'')])"
    by (simp add: concentration_allocs_def work_row_def since_row_def List.map_filter_def)
  from concentration_shares[OF refl refl this] show ?thesis by blast
qed

theorem rework_credited_as_accepted_witness:
  "\<exists>x. accepted_outcome 60 ''w'' (instant_of (rq_timestamp cached_row)) [outcome_at ''a'' ''rejected'' 1, outcome_at ''b'' ''accepted'' 2] = Some x
     \<and> ow_status x = ''accepted'' \<and> x \<noteq> outcome_at ''a'' ''rejected'' 1"
proof (rule rework_credited_as_accepted)
  show "allocated_outcome 60 ''w'' (instant_of (rq_timestamp cached_row)) [outcome_at ''a'' ''rejected'' 1, outcome_at ''b'' ''accepted'' 2]
      = Some (outcome_at ''a'' ''rejected'' 1)"
    by (simp add: allocated_outcome_def candidates_def outcome_at_def demo_outcome_def outcome_columns_def)
  show "outcome_at ''b'' ''accepted'' 2
      \<in> set (candidates 60 ''w'' (instant_of (rq_timestamp cached_row)) [outcome_at ''a'' ''rejected'' 1, outcome_at ''b'' ''accepted'' 2])"
    by (simp add: candidates_def outcome_at_def demo_outcome_def outcome_columns_def)
qed (simp_all add: outcome_at_def)

end
