(* ===== verification/Cloud_Findings.thy ===== *)
theory Cloud_Findings
  imports Cloud_Outcomes
begin

text \<open>
  Waste findings in the hosted service (\<open>burnlens_cloud/findings.py\<close>, \<open>findings_api.py\<close>): the refresh on
  read, the lifecycle with its baselines, verification, the savings rollup and the economics overview, each for one
  workspace. Amounts are stored in \<open>NUMERIC(12, 4)\<close> columns and stay below their capacity; a select without
  an order returns rows in the order of the table; a request reads the clock once.
\<close>

section \<open>The table\<close>

record cloud_findings_db =
  cf_findings :: "stored_finding tenant_table"
  cf_requests :: "ledger_row tenant_table"
  cf_outcomes :: "outcome_row tenant_table"

definition numeric_4 :: "real \<Rightarrow> real" where
  "numeric_4 x = real_of_int (round (x * 10000)) / 10000"

text \<open>What the column types make of a row.\<close>

definition as_stored :: "stored_finding \<Rightarrow> stored_finding" where
  "as_stored s = s\<lparr>sf_estimated_waste_usd := numeric_4 (sf_estimated_waste_usd s),
     sf_baseline_waste_usd := map_option numeric_4 (sf_baseline_waste_usd s),
     sf_baseline_cost_usd := map_option numeric_4 (sf_baseline_cost_usd s)\<rparr>"

definition STALE_AFTER :: int where
  "STALE_AFTER = 3600000000"

definition DETECTION_WINDOW_DAYS :: int where
  "DETECTION_WINDOW_DAYS = 7"

section \<open>Detection\<close>

text \<open>The columns of the hosted query include the cache-read tokens.\<close>

definition hosted_columns :: "ledger_row \<Rightarrow> analysis_request" where
  "hosted_columns r = (analysis_columns r)\<lparr>aq_cache_read_tokens := Some (eq_cache_read_tokens r)\<rparr>"

definition cloud_sync_finding ::
    "(string \<Rightarrow> string) \<Rightarrow> string \<Rightarrow> instant \<Rightarrow> waste_finding \<Rightarrow> stored_finding tenant_table \<Rightarrow> stored_finding tenant_table" where
  "cloud_sync_finding sha ws now f t =
     (case lookup_key sf_fingerprint (fingerprint sha f) (slice ws t) of
        None \<Rightarrow> tenant_insert ws (as_stored (new_finding now (fingerprint sha f) f)) t
      | Some s \<Rightarrow> tenant_update ws (\<lambda>x. sf_fingerprint x = fingerprint sha f) (\<lambda>x. as_stored (refreshed now f x)) t)"

definition cloud_sync_findings ::
    "(string \<Rightarrow> string) \<Rightarrow> string \<Rightarrow> instant \<Rightarrow> waste_finding list \<Rightarrow> stored_finding tenant_table \<Rightarrow> stored_finding tenant_table" where
  "cloud_sync_findings sha ws now fs t = fold (cloud_sync_finding sha ws now) fs t"

definition last_seen :: "stored_finding table \<Rightarrow> instant option" where
  "last_seen t = (case map sf_last_seen_at t of [] \<Rightarrow> None | x # xs \<Rightarrow> Some (fold max xs x))"

definition findings_fresh :: "instant \<Rightarrow> stored_finding table \<Rightarrow> bool" where
  "findings_fresh now t = (case last_seen t of None \<Rightarrow> False | Some seen \<Rightarrow> now - seen < STALE_AFTER)"

text \<open>\<open>fault\<close>: how many candidates are written before an exception, which is logged and swallowed.\<close>

definition detected_now :: "nat option \<Rightarrow> instant \<Rightarrow> ledger_row table \<Rightarrow> waste_finding list" where
  "detected_now fault now requests =
     (let fs = run_all_detectors (map hosted_columns (filter (since_row (now - DETECTION_WINDOW_DAYS * 86400000000)) requests))
      in case fault of None \<Rightarrow> fs | Some k \<Rightarrow> take k fs)"

definition refresh_findings :: "(string \<Rightarrow> string) \<Rightarrow> string \<Rightarrow> nat option \<Rightarrow> instant \<Rightarrow> cloud_findings_db \<Rightarrow> cloud_findings_db" where
  "refresh_findings sha ws fault now db =
     (if findings_fresh now (slice ws (cf_findings db)) then db
      else db\<lparr>cf_findings := cloud_sync_findings sha ws now (detected_now fault now (slice ws (cf_requests db))) (cf_findings db)\<rparr>)"

definition cloud_list_findings :: "string \<Rightarrow> string option \<Rightarrow> cloud_findings_db \<Rightarrow> stored_finding list" where
  "cloud_list_findings ws status db =
     sort_key (\<lambda>s. (min (severity_rank (sf_severity s)) 2, - sf_estimated_waste_usd s))
       (filter (\<lambda>s. truthy status \<longrightarrow> Some (sf_status s) = status) (slice ws (cf_findings db)))"

section \<open>Status\<close>

definition cloud_subject_spend :: "string \<Rightarrow> string \<Rightarrow> string \<Rightarrow> instant \<Rightarrow> instant \<Rightarrow> cloud_findings_db \<Rightarrow> usd \<times> nat" where
  "cloud_subject_spend ws ty k since until db =
     (if ty \<in> {''workflow'', ''model''} then get_subject_spend ty k since (Some until) (slice ws (cf_requests db)) else (0, 0))"

text \<open>The hosted service reads no commit. \<open>None\<close> is the ValueError; the flag is the row count of the update.\<close>

definition cloud_set_status ::
    "(instant \<Rightarrow> string) \<Rightarrow> instant \<Rightarrow> string \<Rightarrow> string \<Rightarrow> string \<Rightarrow> change_info \<Rightarrow> cloud_findings_db \<Rightarrow> (bool \<times> cloud_findings_db) option" where
  "cloud_set_status isotext clock ws fp status change db =
     (let ci = change\<lparr>ci_commit_sha := None\<rparr>; mine = (\<lambda>x. sf_fingerprint x = fp)
      in if status \<notin> set VALID_STATUSES then None
      else if status \<noteq> ''resolved'' then
        Some (list_ex mine (slice ws (cf_findings db)),
              db\<lparr>cf_findings := tenant_update ws mine (\<lambda>x. x\<lparr>sf_status := status\<rparr>) (cf_findings db)\<rparr>)
      else case lookup_key sf_fingerprint fp (slice ws (cf_findings db)) of
             None \<Rightarrow> Some (False, db)
           | Some s \<Rightarrow>
               (let now = (case ci_effective_at ci of None \<Rightarrow> clock | Some t \<Rightarrow> t); (ty, k) = resolution_scope ci s;
                    baseline = cloud_subject_spend ws ty k (now - ci_window_days ci * 86400000000) now db
                in Some (True, db\<lparr>cf_findings :=
                     tenant_update ws mine (\<lambda>x. as_stored (resolved_finding isotext ci now baseline s)) (cf_findings db)\<rparr>)))"

section \<open>Verification\<close>

definition cloud_verdict_fields :: "string list" where
  "cloud_verdict_fields = verdict_fields @ [''scope_type'', ''scope_key'']"

definition cloud_initial_verdict :: "(instant \<Rightarrow> string) \<Rightarrow> stored_finding \<Rightarrow> savings_verdict" where
  "cloud_initial_verdict isotext s =
     (let v = stored_verification s; field = (\<lambda>k. case v of None \<Rightarrow> None | Some d \<Rightarrow> json_str (jfield d k));
          text = (\<lambda>k d. if truthy (field k) then field k else d)
      in (initial_verdict isotext s)
         \<lparr>sv_cohort_key := text ''cohort_key'' (Some (sf_subject_type s @ '':'' @ sf_subject_key s)),
          sv_intervention_id := text ''intervention_id''
            (map_option (\<lambda>t. ''finding:'' @ sf_fingerprint s @ '':'' @ isotext t) (sf_resolved_at s)),
          sv_details := (case v of None \<Rightarrow> [] | Some d \<Rightarrow> filter (\<lambda>(k, x). k \<in> set cloud_verdict_fields) d)\<rparr>)"

definition cloud_verification_scope :: "stored_finding \<Rightarrow> string \<times> string" where
  "cloud_verification_scope s =
     (case stored_verification s of
        None \<Rightarrow> (sf_subject_type s, sf_subject_key s)
      | Some d \<Rightarrow>
          (let ty = json_str (jfield d ''scope_type''); k = json_str (jfield d ''scope_key'')
           in if ty \<in> {Some ''workflow'', Some ''model''} \<and> truthy k then (the ty, the k)
              else (sf_subject_type s, sf_subject_key s)))"

definition judged :: "nat \<Rightarrow> real \<Rightarrow> usd \<Rightarrow> int \<Rightarrow> savings_verdict \<Rightarrow> savings_verdict" where
  "judged n before cost days v =
     (let after = cost / real n; delta = before - after; status = classify_savings delta n
      in v\<lparr>sv_baseline_cost_per_request := Some before, sv_current_cost_per_request := Some after,
           sv_delta_per_request := Some delta,
           sv_status := (if status = ''verified'' \<and> sv_outcome_quality v = ''degraded'' then ''missed'' else status),
           sv_pct_change := (if before = 0 then None else Some ((after - before) / before * 100)),
           sv_projected_monthly_savings_usd := Some (delta * real n * (30 / real_of_int days))\<rparr>)"

definition cloud_verify_finding :: "(instant \<Rightarrow> string) \<Rightarrow> instant \<Rightarrow> string \<Rightarrow> cloud_findings_db \<Rightarrow> stored_finding \<Rightarrow> savings_verdict" where
  "cloud_verify_finding isotext now ws db s =
     (let v = cloud_initial_verdict isotext s
      in case (sf_resolved_at s, sf_baseline_requests s) of
           (Some resolved, Some base) \<Rightarrow>
             (let days = window_days_of s; width = days * 86400000000; elapsed = now - resolved
              in if base = 0 then v
                 else if elapsed < width then
                   v\<lparr>sv_status := ''pending'', sv_days_remaining := Some (py_round (real_of_int (width - elapsed) / 86400000000) 2)\<rparr>
                 else (let scope = cloud_verification_scope s;
                           (cost, n) = cloud_subject_spend ws (fst scope) (snd scope) resolved (resolved + width) db;
                           v1 = v\<lparr>sv_baseline_requests := Some base, sv_current_requests := Some n\<rparr>
                       in if n = 0 then v1\<lparr>sv_status := ''no_traffic''\<rparr>
                          else judged n (or_0 (sf_baseline_cost_usd s) / real base) cost days
                                 (judge_quality scope resolved width (slice ws (cf_outcomes db)) v1)))
         | _ \<Rightarrow> v)"

definition cloud_verify_savings :: "(instant \<Rightarrow> string) \<Rightarrow> instant \<Rightarrow> string \<Rightarrow> string \<Rightarrow> cloud_findings_db \<Rightarrow> savings_verdict option" where
  "cloud_verify_savings isotext now ws fp db =
     map_option (cloud_verify_finding isotext now ws db) (lookup_key sf_fingerprint fp (slice ws (cf_findings db)))"

definition cloud_verify_all_resolved :: "(instant \<Rightarrow> string) \<Rightarrow> instant \<Rightarrow> string \<Rightarrow> cloud_findings_db \<Rightarrow> savings_verdict list" where
  "cloud_verify_all_resolved isotext now ws db =
     sort_key (\<lambda>v. - or_0 (sv_projected_monthly_savings_usd v))
       (List.map_filter (\<lambda>s. cloud_verify_savings isotext now ws (sf_fingerprint s) db)
          (filter (\<lambda>s. sf_baseline_requests s \<noteq> None) (slice ws (cf_findings db))))"

section \<open>Totals\<close>

definition cloud_savings_rollup :: "(instant \<Rightarrow> string) \<Rightarrow> instant \<Rightarrow> string \<Rightarrow> cloud_findings_db \<Rightarrow> savings_totals" where
  "cloud_savings_rollup isotext now ws db =
     (let t = slice ws (cf_findings db); st = credit_all (predicted_of t) (cloud_verify_all_resolved isotext now ws db);
          judged_predicted = ru_totals st ''verified'' + ru_totals st ''missed''
      in \<lparr>st_open_projected_monthly_usd = py_round (sum_where outstanding sf_estimated_waste_usd t) 6,
          st_resolved_predicted_monthly_usd = py_round (ru_credited_predicted st) 6,
          st_shared_predicted_monthly_usd = py_round (ru_shared_predicted st) 6,
          st_verified_monthly_usd = py_round (ru_verified_actual st) 6,
          st_missed_predicted_monthly_usd = py_round (ru_totals st ''missed'') 6,
          st_verifying_predicted_monthly_usd = py_round (ru_totals st ''pending'') 6,
          st_inconclusive_predicted_monthly_usd = py_round (ru_totals st ''inconclusive'') 6,
          st_realisation_pct = (if judged_predicted = 0 then None
                                else Some (py_round (ru_verified_actual st / judged_predicted * 100) 1)),
          st_counts = (ru_counts st)(''open'' := count_where outstanding t)\<rparr>)"

record hosted_overview =
  ho_total_spend_usd :: usd
  ho_detected_waste_usd :: usd
  ho_waste_rate :: real
  ho_open_finding_count :: nat
  ho_error_spend_usd :: usd
  ho_error_request_count :: nat
  ho_cost_per_accepted_usd :: "usd option"
  ho_accepted_count :: nat
  ho_waste_by_detector :: "(string \<times> usd) list"
  ho_waste_estimate_clamped :: bool
  ho_trace_coverage :: trace_coverage
  ho_traced_rate :: real

definition cloud_economics_overview :: "instant \<Rightarrow> real \<Rightarrow> string \<Rightarrow> cloud_findings_db \<Rightarrow> hosted_overview" where
  "cloud_economics_overview since window ws db =
     (let t = slice ws (cf_requests db); waste = get_waste_summary (slice ws (cf_findings db));
          spent = sum_where (since_row since) rq_cost_usd t;
          workflows = Outcomes.get_workflow_economics since window (slice ws (cf_outcomes db)) (map econ_row.truncate t);
          accepted = sum_list (map we_accepted_count workflows); attributed_cost = sum_list (map we_cost_total_usd workflows);
          clamped = (spent \<noteq> 0 \<and> ws_detected_waste_usd waste > spent);
          detected = (if clamped then spent else ws_detected_waste_usd waste)
      in \<lparr>ho_total_spend_usd = py_round spent 6, ho_detected_waste_usd = py_round detected 6,
          ho_waste_rate = py_round (if spent = 0 then 0 else detected / spent) 4,
          ho_open_finding_count = ws_open_finding_count waste,
          ho_error_spend_usd = py_round (fst (get_error_spend since t)) 6,
          ho_error_request_count = snd (get_error_spend since t),
          ho_cost_per_accepted_usd = (if accepted = 0 then None else Some (py_round (attributed_cost / real accepted) 6)),
          ho_accepted_count = accepted,
          ho_waste_by_detector = map (\<lambda>(d, w). (d, py_round w 6)) (ws_by_detector waste),
          ho_waste_estimate_clamped = clamped, ho_trace_coverage = get_trace_coverage since t,
          ho_traced_rate = py_round (traced_rate (get_trace_coverage since t)) 4\<rparr>)"

record waste_alert =
  wa_id :: string
  wa_estimated_waste_usd :: usd
  wa_monthly_savings :: usd
  wa_affected_count :: nat
  wa_subject :: "string \<times> string"

definition waste_alert_from_finding :: "stored_finding \<Rightarrow> waste_alert" where
  "waste_alert_from_finding s =
     \<lparr>wa_id = sf_fingerprint s, wa_estimated_waste_usd = py_round (sf_estimated_waste_usd s) 6,
      wa_monthly_savings = py_round (sf_estimated_waste_usd s) 2, wa_affected_count = sf_affected_count s,
      wa_subject = (sf_subject_type s, sf_subject_key s)\<rparr>"

section \<open>Endpoints\<close>

definition optional_text :: "nat \<Rightarrow> string option \<Rightarrow> bool" where
  "optional_text most x = (case x of None \<Rightarrow> True | Some s \<Rightarrow> text_field 1 most s)"

definition valid_change :: "change_info \<Rightarrow> bool" where
  "valid_change ci \<longleftrightarrow> optional_text 200 (ci_cohort_key ci) \<and> optional_text 500 (ci_change_reference ci)
     \<and> optional_text 32 (ci_change_type ci) \<and> optional_text 1000 (ci_change_url ci) \<and> optional_text 200 (ci_owner ci)
     \<and> optional_text 1000 (ci_acceptance_criteria ci) \<and> optional_text 2000 (ci_configuration_before ci)
     \<and> optional_text 2000 (ci_configuration_after ci)"

definition get_findings ::
    "(string \<Rightarrow> string) \<Rightarrow> nat option \<Rightarrow> instant \<Rightarrow> token_payload \<Rightarrow> string option \<Rightarrow> cloud_findings_db
       \<Rightarrow> (http_error + stored_finding list) \<times> cloud_findings_db" where
  "get_findings sha fault now token status db =
     (case require_role ''viewer'' token of
        Inl e \<Rightarrow> (Inl e, db)
      | Inr u \<Rightarrow>
          if status \<noteq> None \<and> the status \<notin> set VALID_STATUSES then (Inl (HTTP 422 ''status''), db)
          else (let db1 = refresh_findings sha (tp_workspace_id token) fault now db
                in (Inr (cloud_list_findings (tp_workspace_id token) status db1), db1)))"

definition get_waste_alerts ::
    "(string \<Rightarrow> string) \<Rightarrow> nat option \<Rightarrow> instant \<Rightarrow> token_payload \<Rightarrow> cloud_findings_db
       \<Rightarrow> (http_error + waste_alert list) \<times> cloud_findings_db" where
  "get_waste_alerts sha fault now token db =
     (case require_role ''viewer'' token of
        Inl e \<Rightarrow> (Inl e, db)
      | Inr u \<Rightarrow>
          (let db1 = refresh_findings sha (tp_workspace_id token) fault now db
           in (Inr (map waste_alert_from_finding (cloud_list_findings (tp_workspace_id token) (Some ''open'') db1)), db1)))"

definition post_finding_status ::
    "(instant \<Rightarrow> string) \<Rightarrow> instant \<Rightarrow> token_payload \<Rightarrow> string option \<Rightarrow> string \<Rightarrow> string \<Rightarrow> change_info \<Rightarrow> cloud_findings_db
       \<Rightarrow> (http_error + stored_finding) \<times> cloud_findings_db" where
  "post_finding_status isotext now token requested_with fp status ci db =
     (let ws = tp_workspace_id token; ci7 = ci\<lparr>ci_window_days := BASELINE_WINDOW_DAYS\<rparr>
      in if \<not> valid_change ci then (Inl (HTTP 422 ''validation''), db)
      else case require_role ''viewer'' token of
        Inl e \<Rightarrow> (Inl e, db)
      | Inr u \<Rightarrow>
          if \<not> truthy requested_with then (Inl (HTTP 403 ''Missing X-Requested-With header''), db)
          else case cloud_set_status isotext now ws fp status ci7 db of
                 None \<Rightarrow> (Inl (HTTP 422 ''status''), db)
               | Some (False, db1) \<Rightarrow> (Inl (HTTP 404 ''Finding not found''), db1)
               | Some (True, db1) \<Rightarrow>
                   (case lookup_key sf_fingerprint fp (slice ws (cf_findings db1)) of
                      None \<Rightarrow> (Inl (HTTP 500 ''database''), db1) | Some s \<Rightarrow> (Inr s, db1)))"

section \<open>Each workspace has the local findings\<close>

lemma numeric_4_idem [simp]: "numeric_4 (numeric_4 x) = numeric_4 x"
  by (simp add: numeric_4_def)

lemma as_stored_simps [simp]:
  "as_stored (as_stored s) = as_stored s" "sf_fingerprint (as_stored s) = sf_fingerprint s" "sf_status (as_stored s) = sf_status s"
  "as_stored (refreshed now f (as_stored s)) = as_stored (refreshed now f s)"
  "as_stored (s\<lparr>sf_status := st\<rparr>) = (as_stored s)\<lparr>sf_status := st\<rparr>"
  by (simp_all add: as_stored_def refreshed_def option.map_comp o_def)

definition stored_db :: "findings_db \<Rightarrow> findings_db" where
  "stored_db db = db\<lparr>fd_findings := map as_stored (fd_findings db)\<rparr>"

datatype findings_call =
    Read_call instant token_payload "string option" "nat option"
  | Status_call instant token_payload "string option" string string change_info
  | Requests_stored string "ledger_row list"
  | Outcomes_stored string "outcome_row list"

datatype tenant_event =
    Finding_event finding_event
  | More_requests "ledger_row list"
  | More_outcomes "outcome_row list"

definition findings_call_step :: "(string \<Rightarrow> string) \<Rightarrow> (instant \<Rightarrow> string) \<Rightarrow> findings_call \<Rightarrow> cloud_findings_db \<Rightarrow> cloud_findings_db" where
  "findings_call_step sha isotext c db =
     (case c of
        Read_call now token status fault \<Rightarrow> snd (get_findings sha fault now token status db)
      | Status_call now token requested_with fp status ci \<Rightarrow> snd (post_finding_status isotext now token requested_with fp status ci db)
      | Requests_stored ws rs \<Rightarrow> db\<lparr>cf_requests := cf_requests db @ map (Pair ws) rs\<rparr>
      | Outcomes_stored ws os \<Rightarrow> db\<lparr>cf_outcomes := cf_outcomes db @ map (Pair ws) os\<rparr>)"

text \<open>The local step, with the amounts rounded as the hosted columns do.\<close>

definition tenant_step :: "(string \<Rightarrow> string) \<Rightarrow> (instant \<Rightarrow> string) \<Rightarrow> tenant_event \<Rightarrow> findings_db \<Rightarrow> findings_db" where
  "tenant_step sha isotext e db =
     (case e of
        Finding_event f \<Rightarrow> stored_db (finding_step sha isotext f db)
      | More_requests rs \<Rightarrow> db\<lparr>fd_requests := fd_requests db @ rs\<rparr>
      | More_outcomes os \<Rightarrow> db\<lparr>fd_outcomes := fd_outcomes db @ os\<rparr>)"

definition findings_view :: "string \<Rightarrow> cloud_findings_db \<Rightarrow> findings_db" where
  "findings_view w db =
     \<lparr>fd_findings = slice w (cf_findings db), fd_requests = slice w (cf_requests db), fd_outcomes = slice w (cf_outcomes db)\<rparr>"

definition amounts_stored :: "cloud_findings_db \<Rightarrow> bool" where
  "amounts_stored db \<longleftrightarrow> (\<forall>w. map as_stored (slice w (cf_findings db)) = slice w (cf_findings db))"

definition findings_trace :: "string \<Rightarrow> findings_call \<Rightarrow> cloud_findings_db \<Rightarrow> tenant_event list" where
  "findings_trace w c db =
     (case c of
        Read_call now token status fault \<Rightarrow>
          if tp_workspace_id token = w \<and> require_role ''viewer'' token = Inr () \<and> (status = None \<or> the status \<in> set VALID_STATUSES)
             \<and> \<not> findings_fresh now (slice w (cf_findings db))
          then [Finding_event (Detected now (detected_now fault now (slice w (cf_requests db))))] else []
      | Status_call now token requested_with fp status ci \<Rightarrow>
          if tp_workspace_id token = w \<and> require_role ''viewer'' token = Inr () \<and> truthy requested_with \<and> valid_change ci
          then [Finding_event (Status_set now fp status (ci\<lparr>ci_window_days := BASELINE_WINDOW_DAYS, ci_commit_sha := None\<rparr>))] else []
      | Requests_stored ws rs \<Rightarrow> if ws = w then [More_requests rs] else []
      | Outcomes_stored ws os \<Rightarrow> if ws = w then [More_outcomes os] else [])"

lemma lookup_as_stored: "lookup_key sf_fingerprint fp (map as_stored t) = map_option as_stored (lookup_key sf_fingerprint fp t)"
  by (induction t) (auto simp: lookup_key_def)

lemma update_as_stored:
  "(\<And>x. p (as_stored x) = p x) \<Longrightarrow> (\<And>x. as_stored (g (as_stored x)) = as_stored (g x)) \<Longrightarrow>
   update_where p (\<lambda>x. as_stored (g x)) (map as_stored t) = map as_stored (update_where p g t)"
  by (induction t) (auto simp: update_where_def)

lemma sync_one:
  "slice w t = map as_stored l \<Longrightarrow>
   slice w (cloud_sync_finding sha w now f t) = map as_stored (snd (sync_finding sha now f (res, l)))"
  by (auto simp: cloud_sync_finding_def sync_finding_def slice_simps lookup_as_stored update_as_stored split: option.split)

lemma sync_many:
  "slice w t = map as_stored l \<Longrightarrow>
   slice w (cloud_sync_findings sha w now fs t) = map as_stored (snd (fold (sync_finding sha now) fs (res, l)))"
proof (induction fs arbitrary: t l res)
  case (Cons f fs)
  obtain res' l' where st: "sync_finding sha now f (res, l) = (res', l')" by fastforce
  have "slice w (cloud_sync_finding sha w now f t) = map as_stored l'" using sync_one[OF Cons.prems, of sha now f res] st by simp
  from Cons.IH[OF this] st show ?case by (simp add: cloud_sync_findings_def)
qed (simp add: cloud_sync_findings_def)

lemma sync_foreign: "w \<noteq> ws \<Longrightarrow> slice w (cloud_sync_findings sha ws now fs t) = slice w t"
proof -
  assume ne: "w \<noteq> ws"
  have "slice w (cloud_sync_finding sha ws now f t) = slice w t" for f t
    using ne by (simp add: cloud_sync_finding_def slice_simps split: option.split)
  then show ?thesis by (induction fs arbitrary: t) (simp_all add: cloud_sync_findings_def)
qed

lemma update_none: "list_all (\<lambda>x. \<not> p x) t \<Longrightarrow> update_where p f t = t"
  by (induction t) (auto simp: update_where_def)

lemma lookup_none_all: "lookup_key key k t = None \<longleftrightarrow> list_all (\<lambda>x. key x \<noteq> k) t"
  by (auto simp: lookup_key_None_iff list_all_iff)

lemma cloud_subject_spend_eq: "cloud_subject_spend ws ty k since until db = get_subject_spend ty k since (Some until) (slice ws (cf_requests db))"
  by (auto simp: cloud_subject_spend_def get_subject_spend_def of_subject_def sum_where_def count_where_def)

lemma update_stored:
  "map as_stored t = t \<Longrightarrow> (\<And>x. as_stored x = x \<Longrightarrow> as_stored (g x) = f x) \<Longrightarrow> map as_stored (update_where p g t) = update_where p f t"
  by (induction t) (auto simp: update_where_def)

definition status_result :: "(bool \<times> 'a) option \<Rightarrow> 'a \<Rightarrow> 'a" where
  "status_result r db = (case r of None \<Rightarrow> db | Some (found, db') \<Rightarrow> db')"

lemma status_own:
  assumes "map as_stored (slice w (cf_findings db)) = slice w (cf_findings db)"
  shows "findings_view w (status_result (cloud_set_status isotext clock w fp status ci db) db)
    = stored_db (finding_step sha isotext (Status_set clock fp status (ci\<lparr>ci_commit_sha := None\<rparr>)) (findings_view w db))"
proof -
  let ?ci = "ci\<lparr>ci_commit_sha := None\<rparr>"
  consider (invalid) "status \<notin> set VALID_STATUSES"
    | (missing) "status \<in> set VALID_STATUSES" "lookup_key sf_fingerprint fp (slice w (cf_findings db)) = None"
    | (moved) s where "status \<in> set VALID_STATUSES" "status \<noteq> ''resolved''" "lookup_key sf_fingerprint fp (slice w (cf_findings db)) = Some s"
    | (resolved) s where "status = ''resolved''" "lookup_key sf_fingerprint fp (slice w (cf_findings db)) = Some s"
    by blast
  then show ?thesis
  proof cases
    case invalid
    then show ?thesis using assms
      by (simp add: status_result_def cloud_set_status_def finding_step_def set_finding_status_def stored_db_def findings_view_def)
  next
    case missing
    moreover from missing(2) have "update_where (\<lambda>x. sf_fingerprint x = fp) f (slice w (cf_findings db)) = slice w (cf_findings db)" for f
      by (intro update_none) (simp add: lookup_none_all)
    ultimately show ?thesis using assms
      by (auto simp: status_result_def cloud_set_status_def finding_step_def set_finding_status_def stored_db_def findings_view_def
          slice_simps Let_def)
  next
    case moved
    then show ?thesis using assms
      by (simp add: status_result_def cloud_set_status_def finding_step_def set_finding_status_def stored_db_def findings_view_def
          slice_simps update_stored Let_def)
  next
    case (resolved s)
    then show ?thesis using assms
      by (simp add: status_result_def cloud_set_status_def finding_step_def set_finding_status_def stored_db_def findings_view_def
          slice_simps update_stored cloud_subject_spend_eq Let_def VALID_STATUSES_def split: prod.split)
  qed
qed

lemma status_foreign: "w \<noteq> ws \<Longrightarrow>
  findings_view w (status_result (cloud_set_status isotext clock ws fp status ci db) db) = findings_view w db"
  by (auto simp: status_result_def cloud_set_status_def findings_view_def slice_simps Let_def split: option.split prod.split)

lemma post_status_result:
  "snd (post_finding_status isotext now token requested_with fp status ci db)
   = (if valid_change ci \<and> require_role ''viewer'' token = Inr () \<and> truthy requested_with
      then status_result (cloud_set_status isotext now (tp_workspace_id token) fp status (ci\<lparr>ci_window_days := BASELINE_WINDOW_DAYS\<rparr>) db) db
      else db)"
  by (auto simp: post_finding_status_def status_result_def Let_def split: sum.split option.split bool.split)

lemma read_view:
  assumes "amounts_stored db"
  shows "findings_view w (snd (get_findings sha fault now token status db))
    = run_steps (tenant_step sha isotext) (findings_trace w (Read_call now token status fault) db) (findings_view w db)"
proof -
  let ?ws = "tp_workspace_id token"
  show ?thesis
  proof (cases "require_role ''viewer'' token = Inr () \<and> (status = None \<or> the status \<in> set VALID_STATUSES)
      \<and> \<not> findings_fresh now (slice ?ws (cf_findings db)) \<and> ?ws = w")
    case True
    have "slice w (cf_findings db) = map as_stored (slice w (cf_findings db))" using assms by (simp add: amounts_stored_def)
    from sync_many[OF this] True show ?thesis
      by (auto simp: Let_def get_findings_def refresh_findings_def findings_view_def findings_trace_def tenant_step_def finding_step_def
          sync_findings_def stored_db_def)
  next
    case False
    have "findings_view w (refresh_findings sha ?ws fault now db) = findings_view w db"
      if "?ws \<noteq> w \<or> findings_fresh now (slice ?ws (cf_findings db))"
      using that by (cases "?ws = w") (auto simp: refresh_findings_def findings_view_def sync_foreign)
    moreover have "findings_trace w (Read_call now token status fault) db = []" using False by (auto simp: findings_trace_def)
    ultimately show ?thesis using False by (auto simp: get_findings_def Let_def split: sum.split)
  qed
qed

lemma findings_view_step:
  assumes "amounts_stored db"
  shows "findings_view w (findings_call_step sha isotext c db)
    = run_steps (tenant_step sha isotext) (findings_trace w c db) (findings_view w db)"
proof (cases c)
  case (Status_call now token requested_with fp status ci)
  show ?thesis
  proof (cases "tp_workspace_id token = w")
    case True
    moreover have "map as_stored (slice w (cf_findings db)) = slice w (cf_findings db)" using assms by (simp add: amounts_stored_def)
    ultimately show ?thesis
      by (auto simp: Status_call findings_call_step_def post_status_result findings_trace_def tenant_step_def status_own)
  next
    case False
    then show ?thesis by (simp add: Status_call findings_call_step_def post_status_result findings_trace_def status_foreign)
  qed
next
  case (Read_call now token status fault)
  with read_view[OF assms, of w sha fault now token status] show ?thesis by (simp add: findings_call_step_def)
qed (auto simp: findings_call_step_def findings_trace_def tenant_step_def findings_view_def slice_simps, simp_all add: slice_def comp_def)

lemma finding_events_stored: "map as_stored (fd_findings db) = fd_findings db \<Longrightarrow>
  map as_stored (fd_findings (run_steps (tenant_step sha isotext) es db)) = fd_findings (run_steps (tenant_step sha isotext) es db)"
  by (induction es arbitrary: db) (auto simp: tenant_step_def stored_db_def split: tenant_event.split)

lemma amounts_stored_step:
  assumes "amounts_stored db"
  shows "amounts_stored (findings_call_step sha isotext c db)"
  unfolding amounts_stored_def
proof
  fix w
  have "fd_findings (findings_view w db') = slice w (cf_findings db')" for db' by (simp add: findings_view_def)
  then show "map as_stored (slice w (cf_findings (findings_call_step sha isotext c db)))
      = slice w (cf_findings (findings_call_step sha isotext c db))"
    using finding_events_stored[of "findings_view w db" sha isotext "findings_trace w c db"] assms
      findings_view_step[OF assms, of w sha isotext c] by (metis amounts_stored_def)
qed

interpretation hosted_findings: tenant_system "findings_call_step sha isotext" amounts_stored findings_view
  "tenant_step sha isotext" findings_trace for sha isotext
  by unfold_locales (auto intro: amounts_stored_step simp: findings_view_step)

text \<open>C39: 
  For every workspace the hosted findings are the local ones with the amounts as its columns store them: whatever is
  read, moved and stored under whatever tokens, interrupted passes included, each workspace sees the run of the
  local lifecycle over its own detection passes and status changes. Nothing of another workspace enters.
\<close>

theorem hosted_findings_refine:
  assumes "amounts_stored db"
  shows "findings_view w (run_steps (findings_call_step sha isotext) calls db)
    = run_steps (tenant_step sha isotext) (run_trace (findings_call_step sha isotext) findings_trace w calls db) (findings_view w db)"
  by (rule hosted_findings.view_run[OF assms])

section \<open>Verdicts\<close>

text \<open>What a resolution writes: none of the names in the stored verification is the empty text.\<close>

definition names_given :: "stored_finding \<Rightarrow> bool" where
  "names_given s \<longleftrightarrow> (case stored_verification s of None \<Rightarrow> True | Some d \<Rightarrow>
     list_all (\<lambda>k. json_str (jfield d k) \<noteq> Some []) [''cohort_key'', ''intervention_id'', ''scope_key''])"

definition cloud_details :: "stored_finding \<Rightarrow> (string \<times> json) list" where
  "cloud_details s = (case stored_verification s of None \<Rightarrow> [] | Some d \<Rightarrow> filter (\<lambda>(k, x). k \<in> set cloud_verdict_fields) d)"

lemma cloud_initial_eq: "names_given s \<Longrightarrow> cloud_initial_verdict isotext s = (initial_verdict isotext s)\<lparr>sv_details := cloud_details s\<rparr>"
  by (cases "stored_verification s") (auto simp: cloud_initial_verdict_def initial_verdict_def cloud_details_def names_given_def Let_def truthy_def
      split: option.split)

lemma cloud_scope_eq: "names_given s \<Longrightarrow> cloud_verification_scope s = verification_scope s"
  by (cases "stored_verification s") (auto simp: cloud_verification_scope_def verification_scope_def names_given_def Let_def
      split: option.split)

text \<open>No later field reads or overwrites the details.\<close>

lemma details_last:
  "v\<lparr>sv_details := d, sv_status := x\<rparr> = v\<lparr>sv_status := x, sv_details := d\<rparr>"
  "v\<lparr>sv_details := d, sv_days_remaining := y\<rparr> = v\<lparr>sv_days_remaining := y, sv_details := d\<rparr>"
  "v\<lparr>sv_details := d, sv_baseline_requests := z\<rparr> = v\<lparr>sv_baseline_requests := z, sv_details := d\<rparr>"
  "v\<lparr>sv_details := d, sv_current_requests := z\<rparr> = v\<lparr>sv_current_requests := z, sv_details := d\<rparr>"
  "judge_quality scope r width os (v\<lparr>sv_details := d\<rparr>) = (judge_quality scope r width os v)\<lparr>sv_details := d\<rparr>"
  "judged n before cost days (v\<lparr>sv_details := d\<rparr>) = (judged n before cost days v)\<lparr>sv_details := d\<rparr>"
  by (cases v; simp add: judge_quality_def judged_def Let_def split: prod.split)+

lemma verify_finding_judged:
  "sf_resolved_at s = Some resolved \<Longrightarrow> sf_baseline_requests s = Some base \<Longrightarrow> base \<noteq> 0 \<Longrightarrow>
   \<not> now - resolved < window_days_of s * 86400000000 \<Longrightarrow>
   get_subject_spend (fst (verification_scope s)) (snd (verification_scope s)) resolved
     (Some (resolved + window_days_of s * 86400000000)) (fd_requests db) = (cost, n) \<Longrightarrow> n \<noteq> 0 \<Longrightarrow>
   verify_finding isotext now db s = judged n (or_0 (sf_baseline_cost_usd s) / real base) cost (window_days_of s)
     (judge_quality (verification_scope s) resolved (window_days_of s * 86400000000) (fd_outcomes db)
       ((initial_verdict isotext s)\<lparr>sv_baseline_requests := Some base, sv_current_requests := Some n\<rparr>))"
  by (simp add: verify_finding_def judged_def Let_def)

lemma cloud_verify_eq:
  assumes "names_given s"
  shows "cloud_verify_finding isotext now ws db s = (verify_finding isotext now (findings_view ws db) s)\<lparr>sv_details := cloud_details s\<rparr>"
proof (cases "sf_resolved_at s")
  case (Some resolved)
  show ?thesis
  proof (cases "sf_baseline_requests s")
    case base: (Some base)
    let ?days = "window_days_of s"
    obtain cost n where spend: "get_subject_spend (fst (verification_scope s)) (snd (verification_scope s)) resolved
        (Some (resolved + ?days * 86400000000)) (slice ws (cf_requests db)) = (cost, n)" by fastforce
    note eqs = Some base cloud_initial_eq[OF assms] cloud_scope_eq[OF assms] cloud_subject_spend_eq spend details_last
    consider "base = 0" | "base \<noteq> 0" "now - resolved < ?days * 86400000000"
      | "base \<noteq> 0" "\<not> now - resolved < ?days * 86400000000" "n = 0"
      | "base \<noteq> 0" "\<not> now - resolved < ?days * 86400000000" "n \<noteq> 0" by blast
    then show ?thesis
    proof cases
      case 4
      then have "verify_finding isotext now (findings_view ws db) s = judged n (or_0 (sf_baseline_cost_usd s) / real base) cost ?days
        (judge_quality (verification_scope s) resolved (?days * 86400000000) (slice ws (cf_outcomes db))
          ((initial_verdict isotext s)\<lparr>sv_baseline_requests := Some base, sv_current_requests := Some n\<rparr>))"
        using verify_finding_judged[OF Some base, of now "findings_view ws db"] spend by (simp add: findings_view_def)
      with 4 show ?thesis by (simp add: cloud_verify_finding_def Let_def eqs)
    qed (simp_all add: cloud_verify_finding_def verify_finding_def Let_def eqs findings_view_def)
  qed (simp add: cloud_verify_finding_def verify_finding_def Some Let_def cloud_initial_eq[OF assms])
qed (simp add: cloud_verify_finding_def verify_finding_def Let_def cloud_initial_eq[OF assms])

text \<open>
  A hosted verdict is the local verdict on what the workspace sees: the same status, costs, quality and projection
  from the same requests and outcomes, so that what is proved of the local verification holds for every tenant.
\<close>

theorem hosted_verdict_agrees:
  assumes "\<forall>s \<in> set (slice ws (cf_findings db)). names_given s"
  shows "map_option (sv_details_update (\<lambda>_. [])) (cloud_verify_savings isotext now ws fp db)
    = map_option (sv_details_update (\<lambda>_. [])) (Findings.verify_savings isotext now fp (findings_view ws db))"
proof (cases "lookup_key sf_fingerprint fp (slice ws (cf_findings db))")
  case (Some s)
  then have "names_given s" using assms lookup_key_SomeD by metis
  with Some show ?thesis
    by (simp add: cloud_verify_savings_def Findings.verify_savings_def findings_view_def[of ws db] cloud_verify_eq)
qed (simp add: cloud_verify_savings_def Findings.verify_savings_def findings_view_def)

section \<open>Projections\<close>

lemma cloud_verify_fingerprint [simp]: "sv_fingerprint (cloud_verify_finding isotext now ws db s) = sf_fingerprint s"
  by (simp add: cloud_verify_finding_def cloud_initial_verdict_def initial_verdict_def judged_def judge_quality_def Let_def
      split: option.split prod.split)

text \<open>
  The rollup adds up amounts of different periods. The open findings count with the waste of the last seven days,
  a resolved one with that waste scaled to thirty: resolving the only finding of a workspace multiplies its
  projected monthly savings by 30/7.
\<close>

theorem open_projection_unscaled:
  assumes "slice ws (cf_findings db) = [s]" "as_stored s = s" "sf_status s = ''open''" "sf_baseline_requests s = None"
    and "cloud_set_status isotext clock ws (sf_fingerprint s) ''resolved'' ci db = Some (True, db')" "ci_window_days ci = 7"
  shows "st_open_projected_monthly_usd (cloud_savings_rollup isotext now ws db) = py_round (sf_estimated_waste_usd s) 6
    \<and> st_resolved_predicted_monthly_usd (cloud_savings_rollup isotext now ws db) = 0
    \<and> st_open_projected_monthly_usd (cloud_savings_rollup isotext now ws db') = 0
    \<and> st_resolved_predicted_monthly_usd (cloud_savings_rollup isotext now ws db') = py_round (30 / 7 * sf_estimated_waste_usd s) 6"
proof -
  obtain ty k where scope: "resolution_scope (ci\<lparr>ci_commit_sha := None\<rparr>) s = (ty, k)" by fastforce
  define moment where "moment = (case ci_effective_at ci of None \<Rightarrow> clock | Some t \<Rightarrow> t)"
  define baseline where "baseline = cloud_subject_spend ws ty k (moment - ci_window_days ci * 86400000000) moment db"
  have after: "slice ws (cf_findings db') = [as_stored (resolved_finding isotext (ci\<lparr>ci_commit_sha := None\<rparr>) moment baseline s)]"
    using assms(1,5) by (auto simp: cloud_set_status_def Let_def slice_simps update_where_def lookup_key_def VALID_STATUSES_def
        scope moment_def baseline_def)
  let ?r = "as_stored (resolved_finding isotext (ci\<lparr>ci_commit_sha := None\<rparr>) moment baseline s)"
  have "sf_estimated_waste_usd (as_stored s) = numeric_4 (sf_estimated_waste_usd s)" by (simp add: as_stored_def)
  then have "numeric_4 (sf_estimated_waste_usd s) = sf_estimated_waste_usd s" using assms(2) by simp
  then have r: "sf_baseline_requests ?r = Some (snd baseline)" "sf_baseline_waste_usd ?r = Some (sf_estimated_waste_usd s)"
    "sf_baseline_window_days ?r = Some 7" "sf_status ?r = ''resolved''" "sf_fingerprint ?r = sf_fingerprint s"
    using assms(6) by (simp_all add: as_stored_def resolved_finding_def)
  have verdicts: "cloud_verify_all_resolved isotext now ws db = []"
    "cloud_verify_all_resolved isotext now ws db' = [cloud_verify_finding isotext now ws db' ?r]"
    using assms(1,4) after r by (simp_all add: cloud_verify_all_resolved_def cloud_verify_savings_def lookup_key_def List.map_filter_def)
  have predicted: "predicted_of [?r] (cloud_verify_finding isotext now ws db' ?r) = 30 / 7 * sf_estimated_waste_usd s"
    by (simp add: predicted_of_def lookup_key_def r to_monthly_def or_0_def)
  show ?thesis
    using assms(1,3) after r(4) verdicts
    by (simp add: cloud_savings_rollup_def credit_all_def rollup_start_def credit_verdict_def outstanding_def Let_def predicted)
qed

section \<open>Reading again\<close>

lemma fold_max_ge: "x \<in> set (y # ys) \<Longrightarrow> x \<le> fold max ys (y :: int)"
  by (simp flip: Max.set_eq_fold)

lemma fresh_when_seen: "s \<in> set t \<Longrightarrow> now - sf_last_seen_at s < STALE_AFTER \<Longrightarrow> findings_fresh now t"
proof -
  assume s: "s \<in> set t" "now - sf_last_seen_at s < STALE_AFTER"
  then obtain y ys where ys: "map sf_last_seen_at t = y # ys" by (cases t) auto
  have "sf_last_seen_at s \<in> set (y # ys)" using s(1) ys by (metis image_eqI list.set_map)
  then have "sf_last_seen_at s \<le> fold max ys y" by (rule fold_max_ge)
  with s(2) ys show ?thesis by (simp add: findings_fresh_def last_seen_def)
qed

lemma cloud_sync_seen:
  "\<exists>s \<in> set (slice ws (cloud_sync_finding sha ws now f t)). sf_last_seen_at s = now"
proof (cases "lookup_key sf_fingerprint (fingerprint sha f) (slice ws t)")
  case None
  then show ?thesis by (simp add: cloud_sync_finding_def slice_simps as_stored_def new_finding_def)
next
  case (Some s)
  then have s: "s \<in> set (slice ws t)" "sf_fingerprint s = fingerprint sha f" by (auto dest: lookup_key_SomeD)
  have "as_stored (refreshed now f s)
      \<in> set (update_where (\<lambda>x. sf_fingerprint x = fingerprint sha f) (\<lambda>x. as_stored (refreshed now f x)) (slice ws t))"
    unfolding update_where_def set_map using s by (intro image_eqI[of _ _ s]) simp_all
  then show ?thesis using Some
    by (auto simp: cloud_sync_finding_def slice_simps intro!: bexI[of _ "as_stored (refreshed now f s)"])
      (simp add: as_stored_def refreshed_def)
qed

lemma cloud_sync_all_seen:
  "fs \<noteq> [] \<Longrightarrow> \<exists>s \<in> set (slice ws (cloud_sync_findings sha ws now fs t)). sf_last_seen_at s = now"
proof (induction fs rule: rev_induct)
  case (snoc f fs)
  show ?case using cloud_sync_seen[of ws sha now f "cloud_sync_findings sha ws now fs t"] by (simp add: cloud_sync_findings_def)
qed simp

text \<open>
  A workspace is scanned at most once an hour while findings are seen: after a read whose pass wrote a finding,
  interrupted or not, a read by any member within the hour changes nothing and lists what is stored.
\<close>

theorem read_within_hour_unchanged:
  assumes "get_findings sha fault now token status db = (Inr shown, db1)"
    and "detected_now fault now (slice (tp_workspace_id token) (cf_requests db)) \<noteq> []"
    and "\<not> findings_fresh now (slice (tp_workspace_id token) (cf_findings db))"
    and "later < now + STALE_AFTER" "tp_workspace_id token' = tp_workspace_id token"
  shows "snd (get_findings sha fault' later token' status' db1) = db1"
proof -
  let ?ws = "tp_workspace_id token"
  have "db1 = refresh_findings sha ?ws fault now db"
    using assms(1) by (auto simp: get_findings_def Let_def split: sum.splits if_splits)
  then obtain s where "s \<in> set (slice ?ws (cf_findings db1))" "sf_last_seen_at s = now"
    using cloud_sync_all_seen[OF assms(2), of ?ws sha now "cf_findings db"] assms(3) by (auto simp: refresh_findings_def)
  then have "findings_fresh later (slice ?ws (cf_findings db1))" using assms(4) by (auto intro: fresh_when_seen)
  then show ?thesis by (simp add: get_findings_def refresh_findings_def assms(5) Let_def split: sum.split)
qed

section \<open>Witnesses\<close>

definition one_finding :: stored_finding where
  "one_finding = \<lparr>sf_fingerprint = ''f'', sf_detector = ''d'', sf_subject_type = ''workflow'', sf_subject_key = ''w'', sf_severity = ''high'',
     sf_title = [], sf_estimated_waste_usd = 7, sf_affected_count = 1, sf_evidence = JObj [], sf_status = ''open'', sf_first_seen_at = 0,
     sf_last_seen_at = 0, sf_resolved_at = None, sf_baseline_waste_usd = None, sf_baseline_cost_usd = None, sf_baseline_requests = None,
     sf_baseline_window_days = None, sf_detection_count = 1, sf_detector_version = 1\<rparr>"

definition one_finding_db :: cloud_findings_db where
  "one_finding_db = \<lparr>cf_findings = [(''w'', one_finding)], cf_requests = [], cf_outcomes = []\<rparr>"

lemma one_finding_stored: "as_stored one_finding = one_finding"
  by (simp add: as_stored_def one_finding_def numeric_4_def)

lemma one_slice: "slice ''w'' (cf_findings one_finding_db) = [one_finding]"
  by (simp add: one_finding_db_def slice_def)

theorem hosted_findings_refine_witness:
  "findings_view ''x'' (run_steps (findings_call_step id (\<lambda>_. [])) [Requests_stored ''w'' []] one_finding_db) = findings_view ''x'' one_finding_db"
proof -
  have "amounts_stored one_finding_db" by (simp add: amounts_stored_def one_finding_db_def slice_def one_finding_stored)
  from hosted_findings_refine[OF this, of "''x''" id "\<lambda>_. []" "[Requests_stored ''w'' []]"] show ?thesis by (simp add: findings_trace_def)
qed

theorem hosted_verdict_agrees_witness:
  "map_option sv_status (cloud_verify_savings (\<lambda>_. []) 5 ''w'' ''f'' one_finding_db) = Some ''no_baseline''"
proof -
  have "\<forall>s \<in> set (slice ''w'' (cf_findings one_finding_db)). names_given s"
    by (simp add: one_slice names_given_def stored_verification_def one_finding_def jfield_def)
  from arg_cong[OF hosted_verdict_agrees[OF this, of "\<lambda>_. []" 5 "''f''"], of "map_option sv_status"]
  show ?thesis
    by (simp add: option.map_comp o_def Findings.verify_savings_def findings_view_def one_slice lookup_key_def,
        simp add: one_finding_def verify_finding_def initial_verdict_def Let_def)
qed

theorem open_projection_unscaled_witness:
  "\<exists>db'. cloud_set_status (\<lambda>_. []) 5 ''w'' ''f'' ''resolved'' demo_change one_finding_db = Some (True, db')
    \<and> st_open_projected_monthly_usd (cloud_savings_rollup (\<lambda>_. []) 6 ''w'' one_finding_db) = 7
    \<and> st_resolved_predicted_monthly_usd (cloud_savings_rollup (\<lambda>_. []) 6 ''w'' db') = 30"
proof -
  have f: "sf_fingerprint one_finding = ''f''" "sf_status one_finding = ''open''" "sf_baseline_requests one_finding = None"
    "sf_estimated_waste_usd one_finding = 7"
    by (simp_all add: one_finding_def)
  obtain db' where set: "cloud_set_status (\<lambda>_. []) 5 ''w'' (sf_fingerprint one_finding) ''resolved'' demo_change one_finding_db = Some (True, db')"
    by (cases "resolution_scope (demo_change\<lparr>ci_commit_sha := None\<rparr>) one_finding")
      (simp add: cloud_set_status_def one_slice lookup_key_def VALID_STATUSES_def Let_def)
  have "ci_window_days demo_change = 7" by (simp add: demo_change_def)
  from open_projection_unscaled[OF one_slice one_finding_stored f(2,3) set this, of 6] set show ?thesis by (simp add: f)
qed

definition wasteful_row :: ledger_row where
  "wasteful_row = cached_row\<lparr>eq_cache_read_tokens := 0\<rparr>"

lemma wasteful_detected: "detected_now None demo_time (replicate 5 wasteful_row) \<noteq> []"
proof -
  let ?r = "hosted_columns wasteful_row" and ?since = "demo_time - DETECTION_WINDOW_DAYS * 86400000000"
  have "since_row ?since wasteful_row" by (simp add: since_row_def wasteful_row_def demo_time_def DETECTION_WINDOW_DAYS_def)
  then have rs: "map hosted_columns (filter (since_row ?since) (replicate 5 wasteful_row)) = replicate 5 ?r" by simp
  have subj: "subject_of ?r = (''workflow'', ''w'')" and key: "uncached_key ?r = Some ''h''" and len: "1000 \<le> aq_prompt_system_tokens ?r"
    by (simp_all add: subject_of_def uncached_key_def prompt_key_def hosted_columns_def analysis_columns_def wasteful_row_def)
  let ?g = "filter (\<lambda>r. subject_of r = (''workflow'', ''w'') \<and> uncached_key r = Some ''h'') (replicate 5 ?r)"
  have "(''workflow'', ''w'') \<in> set (map subject_of (replicate 5 ?r))" "5 \<le> length ?g" "\<exists>r \<in> set ?g. 1000 \<le> aq_prompt_system_tokens r"
    by (simp_all add: subj key len)
  from caching_finding[OF this(1) _ refl this(2,3)] have "run_all_detectors (replicate 5 ?r) \<noteq> []" by auto
  then show ?thesis by (simp add: detected_now_def rs del: replicate_Suc)
qed

theorem read_within_hour_unchanged_witness:
  "\<exists>shown db1. get_findings rev None demo_time demo_token None \<lparr>cf_findings = [], cf_requests = replicate 5 (''w1'', wasteful_row), cf_outcomes = []\<rparr> = (Inr shown, db1)
    \<and> snd (get_findings rev None (demo_time + 5) demo_token (Some ''open'') db1) = db1"
proof -
  let ?db = "\<lparr>cf_findings = [], cf_requests = replicate 5 (''w1'', wasteful_row), cf_outcomes = []\<rparr> :: cloud_findings_db"
  have t: "tp_workspace_id demo_token = ''w1''" "require_role ''viewer'' demo_token = Inr ()"
    by (simp_all add: demo_token_def require_role_def dict_get_def ROLE_HIERARCHY_def)
  have slice: "slice ''w1'' (cf_requests ?db) = replicate 5 wasteful_row" by (simp add: slice_def)
  have "detected_now None demo_time (slice (tp_workspace_id demo_token) (cf_requests ?db)) \<noteq> []"
    unfolding t(1) slice by (rule wasteful_detected)
  moreover have "\<not> findings_fresh demo_time (slice (tp_workspace_id demo_token) (cf_findings ?db))"
    by (simp add: findings_fresh_def last_seen_def)
  moreover obtain shown db1 where read: "get_findings rev None demo_time demo_token None ?db = (Inr shown, db1)"
    by (simp add: get_findings_def t Let_def)
  ultimately have "snd (get_findings rev None (demo_time + 5) demo_token (Some ''open'') db1) = db1"
    using read_within_hour_unchanged[of rev None demo_time demo_token None ?db shown db1 "demo_time + 5" demo_token None "Some ''open''"]
    by (simp add: STALE_AFTER_def)
  with read show ?thesis by blast
qed

end
