(* ===== verification/Reconciliation.thy ===== *)
theory Reconciliation
  imports Cloud_Outcomes
begin

text \<open>
  Reconciliation with the providers' bills (\<open>burnlens_cloud/reconciliation.py\<close>): reading a day's cost page by
  page, the daily job with its drift, the billing credentials, and the cost-confidence report built on the runs.
  Days are UTC days since the epoch. The billing APIs answer a request with refusal, no connection, a body that
  cannot be read, or a page of amounts; they and the Fernet cipher are parameters.
\<close>

section \<open>The provider's bill\<close>

definition DRIFT_ALERT_THRESHOLD_PCT :: real where
  "DRIFT_ALERT_THRESHOLD_PCT = 2"

definition MAX_PAGES :: nat where
  "MAX_PAGES = 10"

datatype cost_response = Refused nat | Unreachable | Unreadable | Cost_page "real list" bool "string option"

datatype cost_error = Provider_cost_error nat | Http_error | Bad_body

record cost_request =
  cq_provider :: string
  cq_header :: "string \<times> string"
  cq_day :: int
  cq_page :: "string option"

type_synonym cost_api = "cost_request \<Rightarrow> cost_response"

text \<open>The loop over the pages; the amounts of a page are those of all its buckets, a missing one is 0.\<close>

fun fetch_pages :: "nat \<Rightarrow> (string option \<Rightarrow> cost_response) \<Rightarrow> string option \<Rightarrow> real \<Rightarrow> cost_error + real" where
  "fetch_pages 0 ask page acc = Inr acc"
| "fetch_pages (Suc n) ask page acc =
     (case ask page of
        Refused code \<Rightarrow> Inl (Provider_cost_error code)
      | Unreachable \<Rightarrow> Inl Http_error
      | Unreadable \<Rightarrow> Inl Bad_body
      | Cost_page amounts more_pages next_page \<Rightarrow>
          (let acc' = acc + sum_list amounts; page' = (if more_pages then next_page else None)
           in if truthy page' then fetch_pages n ask page' acc' else Inr acc'))"

definition anthropic_header :: "string \<Rightarrow> string \<times> string" where
  "anthropic_header api_key =
     (if startswith api_key ''sk-ant-admin'' then (''x-api-key'', api_key) else (''Authorization'', ''Bearer '' @ api_key))"

definition anthropic_day_cost :: "cost_api \<Rightarrow> string \<Rightarrow> int \<Rightarrow> cost_error + usd" where
  "anthropic_day_cost api api_key d =
     map_sum id (\<lambda>minor. minor / 100)
       (fetch_pages MAX_PAGES (\<lambda>page. api \<lparr>cq_provider = ''anthropic'', cq_header = anthropic_header api_key, cq_day = d, cq_page = page\<rparr>) None 0)"

definition openai_day_cost :: "cost_api \<Rightarrow> string \<Rightarrow> int \<Rightarrow> cost_error + usd" where
  "openai_day_cost api api_key d =
     fetch_pages MAX_PAGES (\<lambda>page. api \<lparr>cq_provider = ''openai'', cq_header = (''Authorization'', ''Bearer '' @ api_key), cq_day = d, cq_page = page\<rparr>) None 0"

definition COST_PROVIDERS :: "(string \<times> (cost_api \<Rightarrow> string \<Rightarrow> int \<Rightarrow> cost_error + usd)) list" where
  "COST_PROVIDERS = [(''anthropic'', anthropic_day_cost), (''openai'', openai_day_cost)]"

definition compute_drift_pct :: "usd \<Rightarrow> usd \<Rightarrow> real option" where
  "compute_drift_pct provider_cost burnlens_cost =
     (if provider_cost \<le> 0 then None else Some ((burnlens_cost - provider_cost) / provider_cost * 100))"

definition classify_drift :: "real option \<Rightarrow> usd \<Rightarrow> string" where
  "classify_drift drift_pct burnlens_cost =
     (case drift_pct of
        None \<Rightarrow> if burnlens_cost = 0 then ''reconciled'' else ''drifted''
      | Some d \<Rightarrow> if \<bar>d\<bar> \<le> DRIFT_ALERT_THRESHOLD_PCT then ''reconciled'' else ''drifted'')"

section \<open>The daily job\<close>

record cloud_row = ledger_row +
  cw_cache_write_tokens :: int

record credential =
  rc_provider :: string
  rc_api_key_encrypted :: string

record recon_run =
  rr_provider :: string
  rr_day :: int
  rr_provider_cost_usd :: usd
  rr_burnlens_cost_usd :: usd
  rr_drift_pct :: "real option"
  rr_computed_at :: instant

record recon_db =
  rd_credentials :: "credential tenant_table"
  rd_runs :: "recon_run tenant_table"
  rd_requests :: "cloud_row tenant_table"

text \<open>\<open>re_cipher\<close> is \<open>None\<close> where no encryption key is configured; a text that does not decrypt is \<open>None\<close>.\<close>

record recon_env =
  re_api :: cost_api
  re_cipher :: "((string \<Rightarrow> string) \<times> (string \<Rightarrow> string option)) option"

definition DAY :: int where
  "DAY = 86400000000"

definition utc_day :: "instant \<Rightarrow> int" where
  "utc_day t = t div DAY"

definition row_at :: "cloud_row \<Rightarrow> instant" where
  "row_at r = instant_of (rq_timestamp r)"

definition burnlens_day_cost :: "string \<Rightarrow> string \<Rightarrow> int \<Rightarrow> recon_db \<Rightarrow> usd" where
  "burnlens_day_cost ws provider d db =
     sum_where (\<lambda>r. rq_provider r = provider \<and> d * DAY \<le> row_at r \<and> row_at r < (d + 1) * DAY) rq_cost_usd (slice ws (rd_requests db))"

definition run_key :: "string \<times> recon_run \<Rightarrow> string \<times> string \<times> int" where
  "run_key r = (fst r, rr_provider (snd r), rr_day (snd r))"

definition credential_key :: "string \<times> credential \<Rightarrow> string \<times> string" where
  "credential_key c = (fst c, rc_provider (snd c))"

record tally =
  ty_checked :: nat
  ty_failed :: nat
  ty_alerted :: nat

text \<open>What the fetch of one credential gives: nothing for a provider without a cost API.\<close>

definition bill_of :: "recon_env \<Rightarrow> (string \<Rightarrow> string option) \<Rightarrow> int \<Rightarrow> credential \<Rightarrow> (cost_error + usd) option" where
  "bill_of env decrypt d c =
     (case map_of COST_PROVIDERS (rc_provider c) of
        None \<Rightarrow> None
      | Some fetch \<Rightarrow> (case decrypt (rc_api_key_encrypted c) of None \<Rightarrow> Some (Inl Bad_body) | Some k \<Rightarrow> Some (fetch (re_api env) k d)))"

definition run_row :: "instant \<Rightarrow> int \<Rightarrow> string \<Rightarrow> usd \<Rightarrow> usd \<Rightarrow> recon_run" where
  "run_row now d provider provider_cost burnlens_cost =
     \<lparr>rr_provider = provider, rr_day = d, rr_provider_cost_usd = py_round provider_cost 6,
      rr_burnlens_cost_usd = py_round burnlens_cost 6, rr_drift_pct = compute_drift_pct provider_cost burnlens_cost,
      rr_computed_at = now\<rparr>"

definition reconcile_one ::
    "recon_env \<Rightarrow> (string \<Rightarrow> string option) \<Rightarrow> instant \<Rightarrow> int \<Rightarrow> string \<times> credential \<Rightarrow> tally \<times> recon_db \<Rightarrow> tally \<times> recon_db" where
  "reconcile_one env decrypt now d cred st =
     (case st of (n, db) \<Rightarrow>
        (case bill_of env decrypt d (snd cred) of
           None \<Rightarrow> (n, db)
         | Some (Inl e) \<Rightarrow> (n\<lparr>ty_failed := ty_failed n + 1\<rparr>, db)
         | Some (Inr provider_cost) \<Rightarrow>
             (let provider = rc_provider (snd cred); burnlens_cost = burnlens_day_cost (fst cred) provider d db;
                  drift = compute_drift_pct provider_cost burnlens_cost
              in (n\<lparr>ty_checked := ty_checked n + 1,
                    ty_alerted := ty_alerted n + (if classify_drift drift burnlens_cost = ''drifted'' then 1 else 0)\<rparr>,
                  db\<lparr>rd_runs := insert_or_replace run_key (fst cred, run_row now d provider provider_cost burnlens_cost) (rd_runs db)\<rparr>))))"

text \<open>\<open>None\<close>: there are credentials but no cipher, so the job raises.\<close>

definition reconcile_all_workspaces :: "recon_env \<Rightarrow> instant \<Rightarrow> int option \<Rightarrow> recon_db \<Rightarrow> (tally \<times> recon_db) option" where
  "reconcile_all_workspaces env now day_arg db =
     (let d = (case day_arg of None \<Rightarrow> utc_day now - 1 | Some x \<Rightarrow> x); start = \<lparr>ty_checked = 0, ty_failed = 0, ty_alerted = 0\<rparr>
      in if rd_credentials db = [] then Some (start, db)
         else case re_cipher env of
                None \<Rightarrow> None
              | Some (encrypt, decrypt) \<Rightarrow> Some (fold (reconcile_one env decrypt now d) (rd_credentials db) (start, db)))"

section \<open>Credentials\<close>

definition put_reconciliation_credential ::
    "recon_env \<Rightarrow> instant \<Rightarrow> token_payload \<Rightarrow> string \<Rightarrow> string \<Rightarrow> recon_db \<Rightarrow> (http_error + unit) \<times> recon_db" where
  "put_reconciliation_credential env now token provider api_key db =
     (if \<not> text_field 8 500 api_key then (Inl (HTTP 422 ''validation''), db)
      else case require_role ''owner'' token of
        Inl e \<Rightarrow> (Inl e, db)
      | Inr u \<Rightarrow>
          (case map_of COST_PROVIDERS provider of
             None \<Rightarrow> (Inl (HTTP 400 ''No cost API''), db)
           | Some fetch \<Rightarrow>
               (case re_cipher env of
                  None \<Rightarrow> (Inl (HTTP 503 ''Credential storage is not configured''), db)
                | Some (encrypt, decrypt) \<Rightarrow>
                    (case fetch (re_api env) api_key (utc_day now - 1) of
                       Inl (Provider_cost_error code) \<Rightarrow> (Inl (HTTP 400 ''cost API refused''), db)
                     | Inl Http_error \<Rightarrow> (Inl (HTTP 502 ''Could not reach provider''), db)
                     | Inl Bad_body \<Rightarrow> (Inl (HTTP 500 ''internal''), db)
                     | Inr cost \<Rightarrow>
                         (Inr (), db\<lparr>rd_credentials := insert_or_replace credential_key
                            (tp_workspace_id token, \<lparr>rc_provider = provider, rc_api_key_encrypted = encrypt api_key\<rparr>) (rd_credentials db)\<rparr>)))))"

definition delete_reconciliation_credential :: "token_payload \<Rightarrow> string \<Rightarrow> recon_db \<Rightarrow> (http_error + unit) \<times> recon_db" where
  "delete_reconciliation_credential token provider db =
     (case require_role ''owner'' token of
        Inl e \<Rightarrow> (Inl e, db)
      | Inr u \<Rightarrow> (Inr (), db\<lparr>rd_credentials := tenant_delete (tp_workspace_id token) (\<lambda>c. rc_provider c = provider) (rd_credentials db)\<rparr>))"

section \<open>The badge\<close>

record provider_reconciliation =
  pr_provider :: string
  pr_status :: string
  pr_last_run :: "recon_run option"

definition last_run :: "string \<Rightarrow> recon_run table \<Rightarrow> recon_run option" where
  "last_run provider runs = (case sort_key (\<lambda>r. - rr_day r) (filter (\<lambda>r. rr_provider r = provider) runs) of [] \<Rightarrow> None | r # rs \<Rightarrow> Some r)"

definition reconciliation_status :: "token_payload \<Rightarrow> recon_db \<Rightarrow> http_error + provider_reconciliation list" where
  "reconciliation_status token db =
     (case require_role ''viewer'' token of
        Inl e \<Rightarrow> Inl e
      | Inr u \<Rightarrow>
          (let ws = tp_workspace_id token
           in Inr (map (\<lambda>p. case last_run p (slice ws (rd_runs db)) of
                     None \<Rightarrow> \<lparr>pr_provider = p, pr_status = ''unreconciled'', pr_last_run = None\<rparr>
                   | Some r \<Rightarrow> \<lparr>pr_provider = p, pr_status = classify_drift (rr_drift_pct r) (rr_burnlens_cost_usd r), pr_last_run = Some r\<rparr>)
                (sort (map rc_provider (slice ws (rd_credentials db)))))))"

section \<open>The reporting window\<close>

definition used_tokens :: "cloud_row \<Rightarrow> int" where
  "used_tokens r = eq_input_tokens r + eq_output_tokens r + eq_cache_read_tokens r + cw_cache_write_tokens r"

definition in_period :: "instant \<Rightarrow> instant \<Rightarrow> cloud_row \<Rightarrow> bool" where
  "in_period cutoff until r \<longleftrightarrow> cutoff \<le> row_at r \<and> row_at r < until"

definition has_usage :: "cloud_row \<Rightarrow> bool" where
  "has_usage r \<longleftrightarrow> rq_cost_usd r > 0 \<or> used_tokens r > 0"

record period_row =
  pd_provider :: string
  pd_day :: int
  pd_has_credential :: bool
  pd_run :: "recon_run option"

text \<open>\<open>_PERIOD_STATUS_SQL\<close>: the days with usage, each with its credential and its run.\<close>

definition period_rows :: "string \<Rightarrow> instant \<Rightarrow> instant \<Rightarrow> recon_db \<Rightarrow> period_row list" where
  "period_rows ws cutoff until db =
     map (\<lambda>(p, d). \<lparr>pd_provider = p, pd_day = d,
            pd_has_credential = list_ex (\<lambda>c. rc_provider c = p) (slice ws (rd_credentials db)),
            pd_run = find (\<lambda>r. rr_provider r = p \<and> rr_day r = d) (slice ws (rd_runs db))\<rparr>)
       (sort (remdups (map (\<lambda>r. (rq_provider r, utc_day (row_at r)))
          (filter (\<lambda>r. in_period cutoff until r \<and> has_usage r) (slice ws (rd_requests db))))))"

definition run_state :: "recon_run \<Rightarrow> string" where
  "run_state r = classify_drift (rr_drift_pct r) (rr_burnlens_cost_usd r)"

text \<open>Outer \<open>None\<close>: the provider is not in the map; \<open>Some None\<close>: no credential.\<close>

definition provider_period_status :: "period_row list \<Rightarrow> string option" where
  "provider_period_status rows =
     (if \<not> list_all pd_has_credential rows then None
      else if list_ex (\<lambda>r. pd_run r = None) rows then Some ''unreconciled''
      else if list_ex (\<lambda>r. map_option run_state (pd_run r) = Some ''drifted'') rows then Some ''drifted''
      else Some ''reconciled'')"

definition build_period_provider_status :: "period_row list \<Rightarrow> string \<rightharpoonup> string option" where
  "build_period_provider_status rows =
     (\<lambda>p. case filter (\<lambda>r. pd_provider r = p) rows of [] \<Rightarrow> None | mine \<Rightarrow> Some (provider_period_status mine))"

section \<open>Cost confidence\<close>

datatype confidence_class = Reconciled_spend | Calculated_spend | Estimated_spend | Unpriced_spend

definition CONFIDENCE_CLASSES :: "confidence_class list" where
  "CONFIDENCE_CLASSES = [Reconciled_spend, Calculated_spend, Estimated_spend, Unpriced_spend]"

definition reason_of :: "confidence_class \<Rightarrow> string" where
  "reason_of c = (case c of Reconciled_spend \<Rightarrow> ''provider_bill_agreed'' | Calculated_spend \<Rightarrow> ''priced_from_pricing_table''
     | Estimated_spend \<Rightarrow> ''agent_self_reported_tokens'' | Unpriced_spend \<Rightarrow> ''model_has_no_price'')"

record confidence_row =
  cn_provider :: string
  cn_model :: string
  cn_is_scan :: bool
  cn_pricing_class :: "string option"
  cn_pricing_state :: string
  cn_requests :: nat
  cn_cost :: usd

definition pricing_state :: "cloud_row \<Rightarrow> string" where
  "pricing_state r = (if rq_cost_usd r > 0 then ''priced'' else if used_tokens r > 0 then ''unpriced'' else ''no_usage'')"

type_synonym confidence_key = "string \<times> string \<times> bool \<times> string option \<times> string"

definition confidence_key :: "cloud_row \<Rightarrow> confidence_key" where
  "confidence_key r = (rq_provider r, rq_model r, startswith (eq_source r) ''scan_'', eq_pricing_class r, pricing_state r)"

text \<open>\<open>_CONFIDENCE_SQL\<close>\<close>

definition confidence_group :: "cloud_row list \<Rightarrow> confidence_key \<Rightarrow> confidence_row" where
  "confidence_group rs k =
     (case k of (p, m, scan, cls, state) \<Rightarrow>
        \<lparr>cn_provider = p, cn_model = m, cn_is_scan = scan, cn_pricing_class = cls, cn_pricing_state = state,
         cn_requests = count_where (\<lambda>r. confidence_key r = k) rs, cn_cost = sum_where (\<lambda>r. confidence_key r = k) rq_cost_usd rs\<rparr>)"

definition confidence_rows :: "string \<Rightarrow> instant \<Rightarrow> instant \<Rightarrow> recon_db \<Rightarrow> confidence_row list" where
  "confidence_rows ws cutoff until db =
     (let rs = filter (in_period cutoff until) (slice ws (rd_requests db))
      in map (confidence_group rs) (remdups (map confidence_key rs)))"

definition classify_row :: "string \<Rightarrow> bool \<Rightarrow> string option \<Rightarrow> string option \<Rightarrow> confidence_class option" where
  "classify_row state is_scan provider_status cls =
     (let local_class = (if cls = Some ''unpriced'' then Some Unpriced_spend
            else if cls = Some ''calculated'' then Some Calculated_spend
            else if cls = Some ''estimated'' then Some Estimated_spend
            else if state = ''no_usage'' then None
            else if state = ''unpriced'' then Some Unpriced_spend
            else if is_scan then Some Estimated_spend else Some Calculated_spend)
      in map_option (\<lambda>c. if c = Unpriced_spend then Unpriced_spend
                         else if provider_status = Some ''reconciled'' then Reconciled_spend else c) local_class)"

definition row_class :: "(string \<rightharpoonup> string option) \<Rightarrow> confidence_row \<Rightarrow> confidence_class option" where
  "row_class status r = classify_row (cn_pricing_state r) (cn_is_scan r) (Option.bind (status (cn_provider r)) id) (cn_pricing_class r)"

definition class_cost :: "(string \<rightharpoonup> string option) \<Rightarrow> confidence_row list \<Rightarrow> confidence_class \<Rightarrow> usd" where
  "class_cost status rows c = sum_where (\<lambda>r. row_class status r = Some c) cn_cost rows"

definition class_requests :: "(string \<rightharpoonup> string option) \<Rightarrow> confidence_row list \<Rightarrow> confidence_class \<Rightarrow> nat" where
  "class_requests status rows c = sum_list (map cn_requests (filter (\<lambda>r. row_class status r = Some c) rows))"

record coverage_gap =
  gp_provider :: string
  gp_model :: "string option"
  gp_requests :: nat
  gp_reason :: string

definition unpriced_gaps :: "(string \<rightharpoonup> string option) \<Rightarrow> confidence_row list \<Rightarrow> coverage_gap list" where
  "unpriced_gaps status rows =
     (let unpriced = filter (\<lambda>r. row_class status r = Some Unpriced_spend) rows
      in sort_key (\<lambda>g. - int (gp_requests g))
           (map (\<lambda>(p, m). \<lparr>gp_provider = p, gp_model = Some m,
                   gp_requests = sum_list (map cn_requests (filter (\<lambda>r. (cn_provider r, cn_model r) = (p, m)) unpriced)),
                   gp_reason = ''unpriced''\<rparr>)
              (uniq (map (\<lambda>r. (cn_provider r, cn_model r)) unpriced))))"

definition provider_gaps :: "(string \<rightharpoonup> string option) \<Rightarrow> confidence_row list \<Rightarrow> coverage_gap list" where
  "provider_gaps status rows =
     List.map_filter (\<lambda>p.
         (case Option.bind (status p) id of
            None \<Rightarrow> Some \<lparr>gp_provider = p, gp_model = None, gp_requests = 0, gp_reason = ''no_billing_key''\<rparr>
          | Some st \<Rightarrow>
              if st = ''reconciled'' then None
              else Some \<lparr>gp_provider = p, gp_model = None, gp_requests = 0,
                         gp_reason = (if st = ''drifted'' then ''drifted'' else ''unreconciled'')\<rparr>))
       (sort (remdups (map cn_provider (filter (\<lambda>r. row_class status r \<noteq> None) rows))))"

record confidence_bucket =
  cb_cost_usd :: usd
  cb_requests :: nat
  cb_share_pct :: real

record hosted_confidence =
  hc_days :: int
  hc_total_cost_usd :: usd
  hc_total_requests :: nat
  hc_confidence_pct :: real
  hc_reconciled_spend_pct :: real
  hc_buckets :: "confidence_class \<Rightarrow> confidence_bucket"
  hc_reasons :: "string \<rightharpoonup> nat"
  hc_gaps :: "coverage_gap list"

definition total_class_cost :: "(string \<rightharpoonup> string option) \<Rightarrow> confidence_row list \<Rightarrow> usd" where
  "total_class_cost status rows = sum_list (map (class_cost status rows) CONFIDENCE_CLASSES)"

definition total_class_requests :: "(string \<rightharpoonup> string option) \<Rightarrow> confidence_row list \<Rightarrow> nat" where
  "total_class_requests status rows = sum_list (map (class_requests status rows) CONFIDENCE_CLASSES)"

definition build_confidence :: "confidence_row list \<Rightarrow> (string \<rightharpoonup> string option) \<Rightarrow> int \<Rightarrow> hosted_confidence" where
  "build_confidence rows status days =
     (let cost = class_cost status rows; reqs = class_requests status rows;
          all_cost = total_class_cost status rows; all_reqs = total_class_requests status rows;
          pct = (\<lambda>x. if all_cost = 0 then 0 else x / all_cost * 100)
      in \<lparr>hc_days = days, hc_total_cost_usd = py_round all_cost 6, hc_total_requests = all_reqs,
          hc_confidence_pct = py_round (if all_reqs = 0 then 0 else (real all_reqs - real (reqs Unpriced_spend)) / real all_reqs * 100) 1,
          hc_reconciled_spend_pct = py_round (pct (cost Reconciled_spend)) 1,
          hc_buckets = (\<lambda>c. \<lparr>cb_cost_usd = py_round (cost c) 6, cb_requests = reqs c, cb_share_pct = py_round (pct (cost c)) 2\<rparr>),
          hc_reasons = map_of (List.map_filter (\<lambda>c. if list_ex (\<lambda>r. row_class status r = Some c) rows then Some (reason_of c, reqs c) else None)
                          CONFIDENCE_CLASSES),
          hc_gaps = unpriced_gaps status rows @ provider_gaps status rows\<rparr>)"

definition PLAN_HISTORY_DAYS :: "string \<rightharpoonup> int" where
  "PLAN_HISTORY_DAYS = [''free'' \<mapsto> 7, ''cloud'' \<mapsto> 90, ''teams'' \<mapsto> 365, ''enterprise'' \<mapsto> 3650]"

definition clamp_days_by_plan :: "int \<Rightarrow> string \<Rightarrow> int" where
  "clamp_days_by_plan requested plan = min requested (case PLAN_HISTORY_DAYS plan of None \<Rightarrow> 7 | Some d \<Rightarrow> d)"

definition period_status :: "string \<Rightarrow> instant \<Rightarrow> instant \<Rightarrow> recon_db \<Rightarrow> string \<rightharpoonup> string option" where
  "period_status ws cutoff until db = build_period_provider_status (period_rows ws cutoff until db)"

definition cost_confidence_report :: "instant \<Rightarrow> token_payload \<Rightarrow> int \<Rightarrow> recon_db \<Rightarrow> http_error + hosted_confidence" where
  "cost_confidence_report now token days db =
     (if days < 1 \<or> 365 < days then Inl (HTTP 422 ''days'')
      else case require_role ''viewer'' token of
             Inl e \<Rightarrow> Inl e
           | Inr u \<Rightarrow>
               (let d = clamp_days_by_plan days (tp_plan token); cutoff = now - d * DAY; ws = tp_workspace_id token
                in Inr (build_confidence (confidence_rows ws cutoff now db) (period_status ws cutoff now db) d)))"

section \<open>Reading the bill\<close>

text \<open>An API that gives these pages from this token on.\<close>

fun serves_pages :: "(string option \<Rightarrow> cost_response) \<Rightarrow> string option \<Rightarrow> real list list \<Rightarrow> bool" where
  "serves_pages ask page [] \<longleftrightarrow> False"
| "serves_pages ask page [x] \<longleftrightarrow> (\<exists>more_pages next_page. ask page = Cost_page x more_pages next_page \<and> \<not> (more_pages \<and> truthy next_page))"
| "serves_pages ask page (x # y # ys) \<longleftrightarrow>
     (\<exists>next_page. ask page = Cost_page x True (Some next_page) \<and> next_page \<noteq> [] \<and> serves_pages ask (Some next_page) (y # ys))"

lemma fetch_pages_sum: "serves_pages ask page ps \<Longrightarrow> fetch_pages n ask page acc = Inr (acc + sum_list (map sum_list (take n ps)))"
proof (induction n arbitrary: page ps acc)
  case (Suc n)
  show ?case
  proof (cases ps)
    case (Cons x xs)
    show ?thesis
    proof (cases xs)
      case Nil
      then show ?thesis using Suc.prems Cons by auto
    next
      case (Cons y ys)
      then obtain next_page where "ask page = Cost_page x True (Some next_page)" "next_page \<noteq> []" "serves_pages ask (Some next_page) (y # ys)"
        using Suc.prems \<open>ps = x # xs\<close> by auto
      then show ?thesis using Suc.IH[of "Some next_page" "y # ys" "acc + sum_list x"] \<open>ps = x # xs\<close> Cons by simp
    qed
  qed (use Suc.prems in simp)
qed simp

text \<open>
  The bill is the sum of the first ten pages: all of it as long as the provider needs no more pages, and silently
  less when it does, without an error or a mark on the run.
\<close>

theorem bill_first_ten_pages:
  assumes "serves_pages (\<lambda>page. api \<lparr>cq_provider = ''openai'', cq_header = (''Authorization'', ''Bearer '' @ key), cq_day = d, cq_page = page\<rparr>) None ps"
  shows "openai_day_cost api key d = Inr (sum_list (map sum_list (take 10 ps)))"
  using fetch_pages_sum[OF assms, of MAX_PAGES 0] by (simp add: openai_day_cost_def MAX_PAGES_def)

section \<open>What the job records\<close>

lemma reconcile_one_tables [simp]:
  "rd_requests (snd (reconcile_one env decrypt now d c st)) = rd_requests (snd st)"
  "rd_credentials (snd (reconcile_one env decrypt now d c st)) = rd_credentials (snd st)"
  by (simp_all add: reconcile_one_def Let_def split: prod.split option.split sum.split)

lemma day_cost_cong: "rd_requests db = rd_requests db' \<Longrightarrow> burnlens_day_cost ws p d db = burnlens_day_cost ws p d db'"
  by (simp add: burnlens_day_cost_def)

lemma reconcile_one_lookup:
  "lookup_key run_key k (rd_runs (snd (reconcile_one env decrypt now d (ws, c) st)))
   = (case bill_of env decrypt d c of
        Some (Inr cost) \<Rightarrow>
          if k = (ws, rc_provider c, d) then Some (ws, run_row now d (rc_provider c) cost (burnlens_day_cost ws (rc_provider c) d (snd st)))
          else lookup_key run_key k (rd_runs (snd st))
      | _ \<Rightarrow> lookup_key run_key k (rd_runs (snd st)))"
  by (auto simp: reconcile_one_def Let_def table_simps run_key_def run_row_def split: prod.split option.split sum.split)

lemma fold_job_frame:
  assumes "\<forall>(w, c) \<in> set creds. k \<noteq> (w, rc_provider c, d)"
  shows "lookup_key run_key k (rd_runs (snd (fold (reconcile_one env decrypt now d) creds st))) = lookup_key run_key k (rd_runs (snd st))"
  using assms
proof (induction creds arbitrary: st)
  case (Cons x creds)
  obtain w c where x: "x = (w, c)" by fastforce
  then have "lookup_key run_key k (rd_runs (snd (reconcile_one env decrypt now d x st))) = lookup_key run_key k (rd_runs (snd st))"
    using Cons.prems by (auto simp: reconcile_one_lookup split: option.split sum.split)
  with Cons show ?case by auto
qed simp

lemma fold_job_record:
  assumes "pk credential_key creds" "(ws, c) \<in> set creds" "bill_of env decrypt d c = Some (Inr cost)"
  shows "lookup_key run_key (ws, rc_provider c, d) (rd_runs (snd (fold (reconcile_one env decrypt now d) creds st)))
    = Some (ws, run_row now d (rc_provider c) cost (burnlens_day_cost ws (rc_provider c) d (snd st)))"
  using assms
proof (induction creds arbitrary: st)
  case (Cons x creds)
  let ?st = "reconcile_one env decrypt now d x st"
  have same: "burnlens_day_cost ws p d (snd ?st) = burnlens_day_cost ws p d (snd st)" for p by (rule day_cost_cong) simp
  show ?case
  proof (cases "(ws, c) \<in> set creds")
    case True
    then show ?thesis using Cons.IH[of ?st] Cons.prems(1,3) same by (simp add: pk_def)
  next
    case False
    then have x: "x = (ws, c)" using Cons.prems(2) by auto
    have "\<forall>(w, c') \<in> set creds. (ws, rc_provider c, d) \<noteq> (w, rc_provider c', d)"
      using Cons.prems(1) by (force simp: pk_def x credential_key_def)
    from fold_job_frame[OF this, of env decrypt now ?st] show ?thesis
      by (simp add: x reconcile_one_lookup Cons.prems(3))
  qed
qed simp

text \<open>
  A run of the job records each bill it could read, for its workspace, provider and day, against the requests of
  that workspace, whatever happens with the other credentials; every other run stays as it was.
\<close>

theorem job_records_each_bill:
  assumes "pk credential_key (rd_credentials db)" "(ws, c) \<in> set (rd_credentials db)"
    and "re_cipher env = Some (enc, dec)" "bill_of env dec (utc_day now - 1) c = Some (Inr cost)"
  shows "\<exists>n db'. reconcile_all_workspaces env now None db = Some (n, db')
    \<and> lookup_key run_key (ws, rc_provider c, utc_day now - 1) (rd_runs db')
        = Some (ws, run_row now (utc_day now - 1) (rc_provider c) cost (burnlens_day_cost ws (rc_provider c) (utc_day now - 1) db))
    \<and> (\<forall>k. snd (snd k) \<noteq> utc_day now - 1 \<longrightarrow> lookup_key run_key k (rd_runs db') = lookup_key run_key k (rd_runs db))"
proof -
  let ?d = "utc_day now - 1"
  let ?r = "fold (reconcile_one env dec now ?d) (rd_credentials db) (\<lparr>ty_checked = 0, ty_failed = 0, ty_alerted = 0\<rparr>, db)"
  have "reconcile_all_workspaces env now None db = Some (fst ?r, snd ?r)"
    using assms(2,3) by (auto simp: reconcile_all_workspaces_def Let_def)
  moreover have "lookup_key run_key k (rd_runs (snd ?r)) = lookup_key run_key k (rd_runs db)" if "snd (snd k) \<noteq> ?d" for k
    using that by (subst fold_job_frame) auto
  ultimately show ?thesis
    using fold_job_record[OF assms(1,2,4), of now "(\<lparr>ty_checked = 0, ty_failed = 0, ty_alerted = 0\<rparr>, db)"]
    by (intro exI[of _ "fst ?r"] exI[of _ "snd ?r"]) simp
qed

section \<open>What the reports mean\<close>

lemma period_row_of:
  assumes "r \<in> set (slice ws (rd_requests db))" "in_period cutoff until r" "has_usage r"
  shows "\<exists>x \<in> set (period_rows ws cutoff until db). pd_provider x = rq_provider r \<and> pd_day x = utc_day (row_at r)
    \<and> pd_has_credential x = list_ex (\<lambda>c. rc_provider c = rq_provider r) (slice ws (rd_credentials db))
    \<and> pd_run x = find (\<lambda>u. rr_provider u = rq_provider r \<and> rr_day u = utc_day (row_at r)) (slice ws (rd_runs db))"
  using assms by (force simp: period_rows_def)

lemma period_status_reconciled:
  assumes "build_period_provider_status rows p = Some (Some ''reconciled'')" "x \<in> set rows" "pd_provider x = p"
  shows "pd_has_credential x \<and> (\<exists>u. pd_run x = Some u \<and> run_state u \<noteq> ''drifted'')"
proof -
  let ?mine = "filter (\<lambda>r. pd_provider r = p) rows"
  have x: "x \<in> set ?mine" using assms(2,3) by simp
  then obtain y ys where "?mine = y # ys" by (cases ?mine) auto
  then have st: "provider_period_status ?mine = Some ''reconciled''"
    using assms(1) by (simp add: build_period_provider_status_def)
  have "list_all pd_has_credential ?mine" "\<not> list_ex (\<lambda>r. pd_run r = None) ?mine"
    "\<not> list_ex (\<lambda>r. map_option run_state (pd_run r) = Some ''drifted'') ?mine"
    using st by (auto simp: provider_period_status_def split: if_splits)
  with x show ?thesis by (auto simp: list_all_iff list_ex_iff)
qed

lemma run_state_cases: "run_state u \<noteq> ''drifted'' \<longleftrightarrow>
  (case rr_drift_pct u of None \<Rightarrow> rr_burnlens_cost_usd u = 0 | Some d \<Rightarrow> \<bar>d\<bar> \<le> 2)"
  by (simp add: run_state_def classify_drift_def DRIFT_ALERT_THRESHOLD_PCT_def split: option.split)

text \<open>C34: 
  A provider counts as reconciled over a period only on evidence for every day: each request with usage falls on a
  day for which a run was recorded and agreed within two percent, or found nothing on either side, and a billing
  key is stored.
\<close>

theorem reconciled_period_justified:
  assumes "period_status ws cutoff until db p = Some (Some ''reconciled'')"
    and "r \<in> set (slice ws (rd_requests db))" "in_period cutoff until r" "has_usage r" "rq_provider r = p"
  shows "\<exists>u \<in> set (slice ws (rd_runs db)). rr_provider u = p \<and> rr_day u = utc_day (row_at r)
    \<and> (case rr_drift_pct u of None \<Rightarrow> rr_burnlens_cost_usd u = 0 | Some d \<Rightarrow> \<bar>d\<bar> \<le> 2)
    \<and> (\<exists>c \<in> set (slice ws (rd_credentials db)). rc_provider c = p)"
proof -
  from period_row_of[OF assms(2,3,4)] obtain x where x: "x \<in> set (period_rows ws cutoff until db)" "pd_provider x = p"
    "pd_has_credential x = list_ex (\<lambda>c. rc_provider c = p) (slice ws (rd_credentials db))"
    "pd_run x = find (\<lambda>u. rr_provider u = p \<and> rr_day u = utc_day (row_at r)) (slice ws (rd_runs db))"
    using assms(5) by auto
  from period_status_reconciled[OF _ x(1,2)] assms(1) obtain u where
    u: "pd_has_credential x" "pd_run x = Some u" "run_state u \<noteq> ''drifted''" by (auto simp: period_status_def)
  have "u \<in> set (slice ws (rd_runs db)) \<and> rr_provider u = p \<and> rr_day u = utc_day (row_at r)"
    using u(2) x(4) by (metis (mono_tags, lifting) find_Some_setD)
  with u(1,3) x(3) show ?thesis by (auto simp: run_state_cases list_ex_iff)
qed

text \<open>The daily job at these times, skipped where it raises.\<close>

fun run_jobs :: "recon_env \<Rightarrow> instant list \<Rightarrow> recon_db \<Rightarrow> recon_db" where
  "run_jobs env [] db = db"
| "run_jobs env (t # ts) db =
     run_jobs env ts (case reconcile_all_workspaces env t None db of None \<Rightarrow> db | Some (n, db') \<Rightarrow> db')"

definition runs_before :: "int \<Rightarrow> recon_db \<Rightarrow> bool" where
  "runs_before d db \<longleftrightarrow> (\<forall>r \<in> set (rd_runs db). rr_day (snd r) < d)"

lemma reconcile_one_before:
  "runs_before d (snd st) \<Longrightarrow> day' < d \<Longrightarrow> runs_before d (snd (reconcile_one env decrypt now day' c st))"
  by (auto simp: runs_before_def reconcile_one_def Let_def insert_or_replace_def run_row_def split: prod.split option.split sum.split)

lemma fold_before:
  "runs_before d (snd st) \<Longrightarrow> day' < d \<Longrightarrow> runs_before d (snd (fold (reconcile_one env decrypt now day') cs st))"
  by (induction cs arbitrary: st) (simp_all add: reconcile_one_before)

lemma job_before:
  assumes "runs_before d db" "reconcile_all_workspaces env t None db = Some (n, db')" "utc_day t \<le> d"
  shows "runs_before d db' \<and> rd_requests db' = rd_requests db"
proof -
  have requests: "rd_requests (snd (fold (reconcile_one env decrypt t x) cs st)) = rd_requests (snd st)" for decrypt x cs st
    by (induction cs arbitrary: st) simp_all
  have before: "runs_before d (snd (fold (reconcile_one env decrypt t (utc_day t - 1)) cs (m, db)))" for decrypt cs m
    using assms(1,3) by (intro fold_before) simp_all
  show ?thesis
    using assms(1,2) requests[of _ "utc_day t - 1"] before
    by (auto simp: reconcile_all_workspaces_def Let_def split: if_splits option.splits prod.splits) (metis snd_conv)+
qed

lemma run_jobs_before:
  "runs_before d db \<Longrightarrow> \<forall>t \<in> set ts. utc_day t \<le> d \<Longrightarrow> runs_before d (run_jobs env ts db) \<and> rd_requests (run_jobs env ts db) = rd_requests db"
proof (induction ts arbitrary: db)
  case (Cons t ts)
  show ?case
  proof (cases "reconcile_all_workspaces env t None db")
    case None
    with Cons show ?thesis by simp
  next
    case (Some p)
    then obtain n db' where p: "reconcile_all_workspaces env t None db = Some (n, db')" by (cases p) auto
    have "runs_before d db' \<and> rd_requests db' = rd_requests db" using job_before[OF Cons.prems(1) p] Cons.prems(2) by simp
    with Cons.IH[of db'] Cons.prems(2) p show ?thesis by simp
  qed
qed simp

text \<open>C33: 
  The report cannot say reconciled while there is traffic. Its window ends now, but the job only ever looks at the
  day before: a provider with a single request since midnight counts as unreconciled, or as without a key, however
  well all earlier days agreed.
\<close>

theorem todays_traffic_unreconciled:
  assumes "rd_runs db = []" "\<forall>t \<in> set ts. t \<le> now"
    and "r \<in> set (slice ws (rd_requests db))" "in_period cutoff now r" "has_usage r" "utc_day (row_at r) = utc_day now"
  shows "period_status ws cutoff now (run_jobs env ts db) (rq_provider r) \<in> {Some None, Some (Some ''unreconciled'')}"
proof -
  let ?db = "run_jobs env ts db" and ?rows = "period_rows ws cutoff now (run_jobs env ts db)"
  have "\<forall>t \<in> set ts. utc_day t \<le> utc_day now" using assms(2) by (auto simp: utc_day_def DAY_def intro: zdiv_mono1)
  then have jobs: "runs_before (utc_day now) ?db" "rd_requests ?db = rd_requests db"
    using run_jobs_before[of "utc_day now" db ts env] assms(1) by (auto simp: runs_before_def)
  from period_row_of[of r ws ?db cutoff now] assms(3-5) jobs(2) obtain x where
    x: "x \<in> set ?rows" "pd_provider x = rq_provider r"
      "pd_run x = find (\<lambda>u. rr_provider u = rq_provider r \<and> rr_day u = utc_day (row_at r)) (slice ws (rd_runs ?db))" by auto
  have "find (\<lambda>u. rr_provider u = rq_provider r \<and> rr_day u = utc_day (row_at r)) (slice ws (rd_runs ?db)) = None"
    using jobs(1) assms(6) by (fastforce simp: find_None_iff runs_before_def set_slice)
  then have none: "list_ex (\<lambda>y. pd_run y = None) (filter (\<lambda>y. pd_provider y = rq_provider r) ?rows)"
    using x by (auto simp: list_ex_iff)
  then obtain y ys where "filter (\<lambda>y. pd_provider y = rq_provider r) ?rows = y # ys"
    by (cases "filter (\<lambda>y. pd_provider y = rq_provider r) ?rows") auto
  with none show ?thesis
    by (auto simp: period_status_def build_period_provider_status_def provider_period_status_def)
qed

text \<open>
  Usage that coding agents report from their local logs is counted as proxied spend: beyond two percent of the bill
  it turns an agreeing day into drift.
\<close>

theorem scanned_usage_drifts:
  assumes "0 < bill" "burnlens_day_cost ws p d db = bill"
    and "rq_provider r = p" "eq_source r = ''scan_claude_code''" "utc_day (row_at r) = d" "rq_cost_usd r > bill * 2 / 100"
  shows "classify_drift (compute_drift_pct bill (burnlens_day_cost ws p d db)) bill = ''reconciled''
    \<and> classify_drift (compute_drift_pct bill (burnlens_day_cost ws p d (db\<lparr>rd_requests := tenant_insert ws r (rd_requests db)\<rparr>)))
        (burnlens_day_cost ws p d (db\<lparr>rd_requests := tenant_insert ws r (rd_requests db)\<rparr>)) = ''drifted''"
proof -
  have "d * DAY \<le> row_at r \<and> row_at r < (d + 1) * DAY" using assms(5) by (auto simp: utc_day_def DAY_def)
  then have "burnlens_day_cost ws p d (db\<lparr>rd_requests := tenant_insert ws r (rd_requests db)\<rparr>) = bill + rq_cost_usd r"
    using assms(2,3) by (simp add: burnlens_day_cost_def slice_simps)
  with assms(1,2,6) show ?thesis
    by (simp add: compute_drift_pct_def classify_drift_def DRIFT_ALERT_THRESHOLD_PCT_def field_simps abs_if)
qed

section \<open>The confidence report adds up\<close>

definition key_class :: "(string \<rightharpoonup> string option) \<Rightarrow> confidence_key \<Rightarrow> confidence_class option" where
  "key_class status k = (case k of (p, m, scan, cls, state) \<Rightarrow> classify_row state scan (Option.bind (status p) id) cls)"

lemma confidence_group_class: "row_class status (confidence_group rs k) = key_class status k"
  by (simp add: row_class_def confidence_group_def key_class_def split: prod.split)

lemma count_as_sum: "real (count_where P xs) = sum_where P (\<lambda>_. 1) xs"
  by (induction xs) (auto simp: count_where_def)

lemma group_fields: "cn_cost (confidence_group rs k) = sum_where (\<lambda>r. confidence_key r = k) rq_cost_usd rs"
  "cn_requests (confidence_group rs k) = count_where (\<lambda>r. confidence_key r = k) rs"
  by (simp_all add: confidence_group_def split: prod.split)

lemma sum_groups:
  fixes rs :: "cloud_row list"
  shows "sum_list (map (\<lambda>k. sum_where (\<lambda>r. confidence_key r = k) f rs) (filter P (remdups (map confidence_key rs))))
    = sum_where (\<lambda>r. P (confidence_key r)) f rs"
proof -
  have "sum_list (map (\<lambda>k. sum_where (\<lambda>r. confidence_key r = k) f rs) (filter P (remdups (map confidence_key rs))))
      = sum_list (map (\<lambda>k. sum_where (\<lambda>r. confidence_key r = k \<and> P (confidence_key r)) f rs) (filter P (remdups (map confidence_key rs))))"
    by (intro arg_cong[of _ _ sum_list] map_cong refl sum_where_cong) auto
  also have "\<dots> = sum_where (\<lambda>r. P (confidence_key r)) f rs" by (rule sum_where_partition) auto
  finally show ?thesis .
qed

lemma class_cost_sum:
  assumes "rs = filter (in_period cutoff until) (slice ws (rd_requests db))"
  shows "class_cost status (confidence_rows ws cutoff until db) c = sum_where (\<lambda>r. key_class status (confidence_key r) = Some c) rq_cost_usd rs"
proof -
  have "class_cost status (confidence_rows ws cutoff until db) c
      = sum_list (map (\<lambda>k. sum_where (\<lambda>r. confidence_key r = k) rq_cost_usd rs)
          (filter (\<lambda>k. key_class status k = Some c) (remdups (map confidence_key rs))))"
    by (simp add: class_cost_def confidence_rows_def Let_def assms sum_where_def[of _ cn_cost] filter_map o_def confidence_group_class group_fields)
  then show ?thesis by (simp add: sum_groups)
qed

lemma class_requests_sum:
  assumes "rs = filter (in_period cutoff until) (slice ws (rd_requests db))"
  shows "real (class_requests status (confidence_rows ws cutoff until db) c) = sum_where (\<lambda>r. key_class status (confidence_key r) = Some c) (\<lambda>_. 1) rs"
proof -
  have real_sum: "real (sum_list ns) = sum_list (map real ns)" for ns by (induction ns) auto
  have "real (class_requests status (confidence_rows ws cutoff until db) c)
      = sum_list (map (\<lambda>k. sum_where (\<lambda>r. confidence_key r = k) (\<lambda>_. 1) rs)
          (filter (\<lambda>k. key_class status k = Some c) (remdups (map confidence_key rs))))"
    by (simp add: class_requests_def confidence_rows_def Let_def assms filter_map o_def confidence_group_class group_fields real_sum count_as_sum)
  then show ?thesis by (simp add: sum_groups)
qed

lemma sum_over_classes:
  "sum_where (\<lambda>x. g x = Some Reconciled_spend) f xs + (sum_where (\<lambda>x. g x = Some Calculated_spend) f xs
     + (sum_where (\<lambda>x. g x = Some Estimated_spend) f xs + sum_where (\<lambda>x. g x = Some Unpriced_spend) f xs))
   = sum_where (\<lambda>x. g x \<noteq> None) f xs"
proof (induction xs)
  case (Cons x xs)
  then show ?case by (cases "g x"; cases "the (g x)") auto
qed simp

lemma unclassified: "key_class status (confidence_key r) = None \<longleftrightarrow>
  \<not> has_usage r \<and> eq_pricing_class r \<notin> {Some ''unpriced'', Some ''calculated'', Some ''estimated''}"
  by (auto simp: key_class_def confidence_key_def classify_row_def pricing_state_def has_usage_def Let_def)

lemma sum_where_outside_zero: "(\<And>r. r \<in> set xs \<Longrightarrow> \<not> P r \<Longrightarrow> f r = 0) \<Longrightarrow> sum_where P f xs = sum_where (\<lambda>_. True) f xs"
  by (induction xs) auto

lemma unclassified_free:
  "key_class status (confidence_key r) = None \<Longrightarrow> 0 \<le> rq_cost_usd r \<Longrightarrow> rq_cost_usd r = 0"
  by (simp add: unclassified has_usage_def)

abbreviation counted :: "cloud_row \<Rightarrow> bool" where
  "counted r \<equiv> has_usage r \<or> eq_pricing_class r \<in> {Some ''unpriced'', Some ''calculated'', Some ''estimated''}"

lemma classified: "key_class status (confidence_key r) \<noteq> None \<longleftrightarrow> counted r"
  using unclassified[of status r] by argo

text \<open>
  The confidence report accounts for the whole window: the costs of its four classes add up to the spend, their
  requests to the requests that used something or carry a class, each exactly once, and the confidence lies
  between 0 and 100 percent.
\<close>

theorem confidence_accounts:
  assumes "\<forall>r \<in> set (slice ws (rd_requests db)). 0 \<le> rq_cost_usd r"
    and "rows = confidence_rows ws cutoff until db" "status = period_status ws cutoff until db"
  shows "total_class_cost status rows = sum_where (in_period cutoff until) rq_cost_usd (slice ws (rd_requests db))
    \<and> total_class_requests status rows = count_where (\<lambda>r. in_period cutoff until r
         \<and> counted r) (slice ws (rd_requests db))
    \<and> 0 \<le> hc_confidence_pct (build_confidence rows status days) \<and> hc_confidence_pct (build_confidence rows status days) \<le> 100"
proof -
  let ?rs = "filter (in_period cutoff until) (slice ws (rd_requests db))"
  let ?verdict = "\<lambda>r. key_class status (confidence_key r)"
  have "total_class_cost status rows = sum_where (\<lambda>r. ?verdict r \<noteq> None) rq_cost_usd ?rs"
    unfolding total_class_cost_def CONFIDENCE_CLASSES_def using sum_over_classes[of ?verdict rq_cost_usd ?rs]
    by (simp add: assms(2) class_cost_sum[OF refl])
  also have "\<dots> = sum_where (\<lambda>r. True) rq_cost_usd ?rs"
    by (rule sum_where_outside_zero) (simp add: unclassified_free assms(1))
  also have "\<dots> = sum_where (in_period cutoff until) rq_cost_usd (slice ws (rd_requests db))" by (simp add: sum_where_filter)
  finally have cost: "total_class_cost status rows = sum_where (in_period cutoff until) rq_cost_usd (slice ws (rd_requests db))" .
  have "real (total_class_requests status rows) = sum_where (\<lambda>r. ?verdict r \<noteq> None) (\<lambda>_. 1) ?rs"
    unfolding total_class_requests_def CONFIDENCE_CLASSES_def using sum_over_classes[of ?verdict "\<lambda>_. 1" ?rs]
    by (simp add: assms(2) class_requests_sum[OF refl])
  also have "\<dots> = real (count_where (\<lambda>r. in_period cutoff until r
      \<and> counted r) (slice ws (rd_requests db)))"
    unfolding count_as_sum sum_where_filter by (rule sum_where_cong) (simp only: classified)
  finally have reqs: "total_class_requests status rows = count_where (\<lambda>r. in_period cutoff until r
      \<and> counted r) (slice ws (rd_requests db))"
    by linarith
  let ?n = "real (total_class_requests status rows)" and ?u = "real (class_requests status rows Unpriced_spend)"
  have u: "?u \<le> ?n" unfolding total_class_requests_def CONFIDENCE_CLASSES_def by simp
  then have "0 \<le> (?n - ?u) / ?n * 100 \<and> (?n - ?u) / ?n * 100 \<le> 100"
    by (cases "?n = 0") (simp_all add: divide_le_eq)
  then have "0 \<le> py_round ((?n - ?u) / ?n * 100) 1 \<and> py_round ((?n - ?u) / ?n * 100) 1 \<le> py_round 100 1"
    by (blast intro: py_round_nonneg py_round_mono)
  then have "0 \<le> hc_confidence_pct (build_confidence rows status days) \<and> hc_confidence_pct (build_confidence rows status days) \<le> 100"
    by (simp add: build_confidence_def Let_def)
  with cost reqs show ?thesis by blast
qed

section \<open>Witnesses\<close>

definition two_pages :: cost_api where
  "two_pages q = (if cq_page q = None then Cost_page [1, 2] True (Some ''p2'') else Cost_page [4] False None)"

theorem bill_first_ten_pages_witness: "openai_day_cost two_pages key d = Inr 7"
proof -
  have "serves_pages (\<lambda>page. two_pages \<lparr>cq_provider = ''openai'', cq_header = (''Authorization'', ''Bearer '' @ key), cq_day = d, cq_page = page\<rparr>)
      None [[1, 2], [4]]"
    by (simp add: two_pages_def) blast
  from bill_first_ten_pages[OF this] show ?thesis by simp
qed

definition demo_env :: recon_env where
  "demo_env = \<lparr>re_api = two_pages, re_cipher = Some (id, Some)\<rparr>"

definition bill_row :: "usd \<Rightarrow> cloud_row" where
  "bill_row c = (ledger_row.extend cached_row \<lparr>cw_cache_write_tokens = 0\<rparr>)\<lparr>rq_provider := ''openai'', rq_cost_usd := c, eq_source := ''scan_claude_code''\<rparr>"

definition noon :: instant where
  "noon = row_at (bill_row 0)"

definition billed_db :: "cloud_row list \<Rightarrow> recon_db" where
  "billed_db rs = \<lparr>rd_credentials = [(''w1'', \<lparr>rc_provider = ''openai'', rc_api_key_encrypted = ''k''\<rparr>)], rd_runs = [],
     rd_requests = map (Pair ''w1'') rs\<rparr>"

lemma billed_slice [simp]: "slice ''w1'' (map (Pair ''w1'') rs) = rs"
  by (induction rs) (auto simp: slice_def)

lemma bill_row_sel [simp]:
  "rq_provider (bill_row c) = ''openai''" "rq_cost_usd (bill_row c) = c" "eq_source (bill_row c) = ''scan_claude_code''"
  "row_at (bill_row c) = noon"
  by (simp_all add: bill_row_def noon_def row_at_def)

theorem job_records_each_bill_witness:
  "\<exists>n db'. reconcile_all_workspaces demo_env (noon + DAY) None (billed_db [bill_row 7]) = Some (n, db')
    \<and> lookup_key run_key (''w1'', ''openai'', utc_day (noon + DAY) - 1) (rd_runs db') \<noteq> None"
proof -
  let ?c = "\<lparr>rc_provider = ''openai'', rc_api_key_encrypted = ''k''\<rparr>" and ?db = "billed_db [bill_row 7]"
  have bill: "bill_of demo_env Some (utc_day (noon + DAY) - 1) ?c = Some (Inr 7)"
    by (simp add: bill_of_def COST_PROVIDERS_def demo_env_def openai_day_cost_def MAX_PAGES_def two_pages_def numeral_eq_Suc truthy_def)
  have "pk credential_key (rd_credentials ?db)" "(''w1'', ?c) \<in> set (rd_credentials ?db)" by (simp_all add: billed_db_def pk_def)
  from job_records_each_bill[OF this _ bill, of id] show ?thesis by (force simp: demo_env_def)
qed

definition agreed_run :: recon_run where
  "agreed_run = \<lparr>rr_provider = ''openai'', rr_day = utc_day noon, rr_provider_cost_usd = 7, rr_burnlens_cost_usd = 7, rr_drift_pct = Some 0, rr_computed_at = noon\<rparr>"

definition agreed_db :: recon_db where
  "agreed_db = (billed_db [bill_row 7])\<lparr>rd_runs := [(''w1'', agreed_run)]\<rparr>"

lemma agreed_usage: "in_period noon (noon + 1) (bill_row 7)" "has_usage (bill_row 7)"
  by (simp_all add: in_period_def has_usage_def)

theorem reconciled_period_justified_witness:
  "\<exists>u \<in> set (slice ''w1'' (rd_runs agreed_db)). rr_provider u = ''openai'' \<and> rr_day u = utc_day noon"
proof -
  have "period_status ''w1'' noon (noon + 1) agreed_db ''openai'' = Some (Some ''reconciled'')"
    by (simp add: period_status_def period_rows_def agreed_db_def billed_db_def agreed_usage agreed_run_def slice_def run_state_def
        build_period_provider_status_def provider_period_status_def classify_drift_def DRIFT_ALERT_THRESHOLD_PCT_def)
  moreover have "bill_row 7 \<in> set (slice ''w1'' (rd_requests agreed_db))" by (simp add: agreed_db_def billed_db_def slice_def)
  ultimately show ?thesis using reconciled_period_justified[OF _ _ agreed_usage, of "''w1''" agreed_db "''openai''"] by auto
qed

lemma same_day: "utc_day (noon + 1) = utc_day noon"
  by (simp add: noon_def row_at_def bill_row_def cached_row_def econ_row.extend_def ledger_row.extend_def plain_row_def instant_of_def
      utc_day_def DAY_def toordinal_def days_before_year_def days_before_month_def)

theorem todays_traffic_unreconciled_witness:
  "period_status ''w1'' (noon - 9 * DAY) (noon + 1) (run_jobs demo_env [noon - DAY, noon] (billed_db [bill_row 7])) ''openai''
    \<in> {Some None, Some (Some ''unreconciled'')}"
proof -
  have "in_period (noon - 9 * DAY) (noon + 1) (bill_row 7)" by (simp add: in_period_def DAY_def)
  with todays_traffic_unreconciled[of "billed_db [bill_row 7]" "[noon - DAY, noon]" "noon + 1" "bill_row 7" "''w1''"]
  show ?thesis by (simp add: billed_db_def slice_def agreed_usage DAY_def same_day)
qed

theorem scanned_usage_drifts_witness:
  "classify_drift (compute_drift_pct 7 (burnlens_day_cost ''w1'' ''openai'' (utc_day noon)
       ((billed_db [bill_row 7])\<lparr>rd_requests := tenant_insert ''w1'' (bill_row 1) (rd_requests (billed_db [bill_row 7]))\<rparr>)))
     (burnlens_day_cost ''w1'' ''openai'' (utc_day noon)
       ((billed_db [bill_row 7])\<lparr>rd_requests := tenant_insert ''w1'' (bill_row 1) (rd_requests (billed_db [bill_row 7]))\<rparr>)) = ''drifted''"
proof -
  have "utc_day noon * DAY \<le> noon \<and> noon < (utc_day noon + 1) * DAY" by (auto simp: utc_day_def DAY_def)
  then have "burnlens_day_cost ''w1'' ''openai'' (utc_day noon) (billed_db [bill_row 7]) = 7"
    by (simp add: burnlens_day_cost_def billed_db_def slice_def)
  from scanned_usage_drifts[OF _ this, of "bill_row 1"] show ?thesis by simp
qed

theorem confidence_accounts_witness:
  "total_class_requests (period_status ''w1'' noon (noon + 1) agreed_db) (confidence_rows ''w1'' noon (noon + 1) agreed_db) = 1"
proof -
  have "\<forall>r \<in> set (slice ''w1'' (rd_requests agreed_db)). 0 \<le> rq_cost_usd r" by (simp add: agreed_db_def billed_db_def slice_def)
  from confidence_accounts[OF this refl refl, of noon "noon + 1" 7] show ?thesis
    by (simp add: agreed_db_def billed_db_def slice_def agreed_usage count_where_def)
qed

end
