(* ===== verification/Cloud_Alerts.thy ===== *)
theory Cloud_Alerts
  imports Action_Tokens Cloud_Ingest
begin

text \<open>
  Usage alerts of the hosted service: the hourly evaluation of \<open>burnlens_cloud/alert_engine.py\<close> with its
  e-mail, Slack and Teams notices and their action links, and the endpoints that edit the rules
  (\<open>alerts_api.py\<close>, the webhook settings of \<open>settings_api.py\<close>). SMTP and HTTP delivery are parameters;
  \<open>urlparse\<close> is modelled for the schemes and hosts the code looks at, with the bracket check of Python 3.10.
\<close>

section \<open>Webhook addresses\<close>

definition url_cleaned :: "string \<Rightarrow> string" where
  "url_cleaned url = filter (\<lambda>c. of_char c \<notin> {9, 10, 13 :: nat}) (dropWhile (\<lambda>c. of_char c \<le> (32 :: nat)) url)"

definition scheme_char :: "char \<Rightarrow> bool" where
  "scheme_char c = (let k = of_char (lower_char c) :: nat in 97 \<le> k \<and> k \<le> 122 \<or> 48 \<le> k \<and> k \<le> 57 \<or> c \<in> set ''+-.'')"

definition split_scheme :: "string \<Rightarrow> string \<times> string" where
  "split_scheme url =
     (let pre = takeWhile (\<lambda>c. c \<noteq> CHR '':'') url; rest = dropWhile (\<lambda>c. c \<noteq> CHR '':'') url
      in if rest \<noteq> [] \<and> pre \<noteq> [] \<and> list_all scheme_char pre then (lower pre, tl rest) else ([], url))"

definition url_netloc :: "string \<Rightarrow> string" where
  "url_netloc rest = (if startswith rest ''//'' then takeWhile (\<lambda>c. c \<notin> set ''/?#'') (drop 2 rest) else [])"

definition url_hostname :: "string \<Rightarrow> string option" where
  "url_hostname netloc =
     (let hostinfo = rev (takeWhile (\<lambda>c. c \<noteq> CHR ''@'') (rev netloc));
          host = (if CHR ''['' \<in> set hostinfo
                  then takeWhile (\<lambda>c. c \<noteq> CHR '']'') (tl (dropWhile (\<lambda>c. c \<noteq> CHR ''['') hostinfo))
                  else takeWhile (\<lambda>c. c \<noteq> CHR '':'') hostinfo)
      in if host = [] then None else Some (lower host))"

text \<open>Scheme and host; \<open>None\<close> where \<open>urlparse\<close> raises.\<close>

definition urlparse :: "string \<Rightarrow> (string \<times> string option) option" where
  "urlparse url =
     (case split_scheme (url_cleaned url) of
        (scheme, rest) \<Rightarrow>
          (let netloc = url_netloc rest
           in if (CHR ''['' \<in> set netloc) \<noteq> (CHR '']'' \<in> set netloc) then None else Some (scheme, url_hostname netloc)))"

definition SLACK_VALID_HOST :: string where
  "SLACK_VALID_HOST = ''hooks.slack.com''"

definition TEAMS_VALID_HOST_SUFFIXES :: "string list" where
  "TEAMS_VALID_HOST_SUFFIXES = [''office.com'', ''microsoft.com'']"

definition endswith :: "string \<Rightarrow> string \<Rightarrow> bool" where
  "endswith s suffix = startswith (rev s) (rev suffix)"

definition is_valid_teams_webhook :: "string option \<Rightarrow> bool option" where
  "is_valid_teams_webhook url =
     (if \<not> truthy url then Some False
      else case urlparse (the url) of
             None \<Rightarrow> None
           | Some (scheme, hostname) \<Rightarrow>
               (let host = (case hostname of None \<Rightarrow> [] | Some h \<Rightarrow> lower h)
                in Some (scheme = ''https'' \<and> list_ex (\<lambda>suffix. host = suffix \<or> endswith host (''.'' @ suffix)) TEAMS_VALID_HOST_SUFFIXES)))"

definition is_slack_webhook :: "string \<Rightarrow> bool option" where
  "is_slack_webhook url = map_option (\<lambda>(scheme, hostname). scheme = ''https'' \<and> hostname = Some SLACK_VALID_HOST) (urlparse url)"

section \<open>Tables\<close>

record alert_rule =
  ar_id :: string
  ar_workspace_id :: string
  ar_threshold_pct :: int
  ar_channel :: string
  ar_enabled :: bool
  ar_slack_webhook_url :: "string option"
  ar_teams_webhook_url :: "string option"
  ar_extra_emails :: "string list"

record rule_event =
  ev_rule_id :: string
  ev_workspace_id :: string
  ev_threshold_pct :: int
  ev_channel :: string
  ev_recipient :: string
  ev_fired_at :: instant
  ev_status :: string

text \<open>Of \<open>request_records\<close>: the workspace, the key label tag and the time.\<close>

record labelled_request =
  lr_workspace_id :: string
  lr_key_label :: "string option"
  lr_ts :: instant

datatype alert_link = Confirm_link string | Dashboard_link

record notice =
  nt_channel :: string
  nt_workspace_id :: string
  nt_to :: string
  nt_threshold_pct :: int
  nt_current :: int
  nt_limit :: int
  nt_links :: "(string \<times> alert_link) list"

record rules_db =
  ru_rules :: "alert_rule table"
  ru_events :: "rule_event table"
  ru_keys :: key_db
  ru_cycles :: "cycle_row table"
  ru_requests :: "labelled_request table"
  ru_members :: "member_row table"
  ru_users :: "user_row table"
  ru_notices :: "notice list" \<comment> \<open>what was handed to the mail queue or posted\<close>

text \<open>\<open>av_jti\<close>: the uuid of the token for this rule and action; \<open>av_write\<close>: whether the event insert succeeds.\<close>

record alert_env =
  av_lib :: auth_lib
  av_jti :: "string \<Rightarrow> string \<Rightarrow> string"
  av_mail :: bool
  av_post :: "notice \<Rightarrow> bool"
  av_write :: "string \<Rightarrow> bool"

section \<open>Dispatch\<close>

definition should_fire :: "string \<Rightarrow> instant \<Rightarrow> rules_db \<Rightarrow> bool" where
  "should_fire rule_id now db \<longleftrightarrow> \<not> list_ex (\<lambda>e. ev_rule_id e = rule_id \<and> ev_fired_at e > now - 86400000000) (ru_events db)"

definition owner_email :: "auth_lib \<Rightarrow> string \<Rightarrow> rules_db \<Rightarrow> string option" where
  "owner_email lib ws db =
     (case List.map_filter (\<lambda>m. if wm_workspace_id m = ws \<and> wm_role m = ''owner'' \<and> wm_active m
                                then lookup_key u_id (wm_user_id m) (ru_users db) else None) (ru_members db) of
        [] \<Rightarrow> None
      | u # us \<Rightarrow>
          (case decrypt_pii (fernet_decrypt lib) (u_email_encrypted u) of
             Inl e \<Rightarrow> None
           | Inr email \<Rightarrow> if truthy email then email else None))"

definition send_usage_warning_email :: "alert_env \<Rightarrow> string \<Rightarrow> int \<Rightarrow> int \<Rightarrow> int \<Rightarrow> rules_db \<Rightarrow> bool \<times> notice list" where
  "send_usage_warning_email env ws threshold current limit db =
     (if \<not> av_mail env \<or> threshold \<notin> {80, 100} then (False, [])
      else case owner_email (av_lib env) ws db of
             None \<Rightarrow> (False, [])
           | Some e \<Rightarrow> (True, [\<lparr>nt_channel = ''email'', nt_workspace_id = ws, nt_to = e, nt_threshold_pct = threshold,
                                nt_current = current, nt_limit = limit, nt_links = []\<rparr>]))"

definition action_links :: "alert_env \<Rightarrow> instant \<Rightarrow> string \<Rightarrow> string \<Rightarrow> string option \<Rightarrow> (string \<times> alert_link) list" where
  "action_links env now rule_id ws top_key =
     (let tok = (\<lambda>action target. Confirm_link (create_action_token (av_lib env) now (av_jti env rule_id action) action ws target))
      in (if truthy top_key then [(''Pause Top API Key'', tok ''pause_api_key'' top_key)] else [])
         @ [(''Increase Budget (50%)'', tok ''increase_budget'' None), (''Downgrade Model'', tok ''downgrade_model'' None),
            (''View Dashboard'', Dashboard_link)])"

definition post_notice ::
    "alert_env \<Rightarrow> instant \<Rightarrow> string \<Rightarrow> string \<Rightarrow> string \<Rightarrow> string \<Rightarrow> int \<Rightarrow> int \<Rightarrow> int \<Rightarrow> string option \<Rightarrow> bool \<times> notice list" where
  "post_notice env now channel url rule_id ws threshold current limit top_key =
     (let n = \<lparr>nt_channel = channel, nt_workspace_id = ws, nt_to = url, nt_threshold_pct = threshold, nt_current = current,
               nt_limit = limit, nt_links = action_links env now rule_id ws top_key\<rparr>
      in (av_post env n, [n]))"

definition dispatch_slack ::
    "alert_env \<Rightarrow> instant \<Rightarrow> string \<Rightarrow> string \<Rightarrow> string \<Rightarrow> int \<Rightarrow> int \<Rightarrow> int \<Rightarrow> string option \<Rightarrow> (bool \<times> notice list) option" where
  "dispatch_slack env now url rule_id ws threshold current limit top_key =
     (case is_slack_webhook url of
        None \<Rightarrow> None
      | Some False \<Rightarrow> Some (False, [])
      | Some True \<Rightarrow> Some (post_notice env now ''slack'' url rule_id ws threshold current limit top_key))"

definition dispatch_teams ::
    "alert_env \<Rightarrow> instant \<Rightarrow> string \<Rightarrow> string \<Rightarrow> string \<Rightarrow> int \<Rightarrow> int \<Rightarrow> int \<Rightarrow> string option \<Rightarrow> (bool \<times> notice list) option" where
  "dispatch_teams env now url rule_id ws threshold current limit top_key =
     (case is_valid_teams_webhook (Some url) of
        None \<Rightarrow> None
      | Some False \<Rightarrow> Some (False, [])
      | Some True \<Rightarrow> Some (post_notice env now ''teams'' url rule_id ws threshold current limit top_key))"

text \<open>The notices handed over, and success with the recipient; \<open>None\<close> where a step raises.\<close>

definition dispatch_rule ::
    "alert_env \<Rightarrow> instant \<Rightarrow> alert_rule \<Rightarrow> string \<Rightarrow> int \<Rightarrow> int \<Rightarrow> string option \<Rightarrow> rules_db \<Rightarrow> notice list \<times> (bool \<times> string) option" where
  "dispatch_rule env now rule ws current limit top_key db =
     (let ch = ar_channel rule; mail = ch \<in> {''email'', ''both''};
          slack = (ch \<in> {''slack'', ''both''} \<and> truthy (ar_slack_webhook_url rule));
          teams = (ch = ''teams'' \<and> truthy (ar_teams_webhook_url rule));
          (email_ok, ns) = (if mail then send_usage_warning_email env ws (ar_threshold_pct rule) current limit db else (False, []))
      in case (if slack then dispatch_slack env now (the (ar_slack_webhook_url rule)) (ar_id rule) ws (ar_threshold_pct rule) current limit top_key
               else Some (False, [])) of
           None \<Rightarrow> (ns, None)
         | Some (slack_ok, ns') \<Rightarrow>
             (case (if teams then dispatch_teams env now (the (ar_teams_webhook_url rule)) (ar_id rule) ws (ar_threshold_pct rule) current limit top_key
                    else Some (False, [])) of
                None \<Rightarrow> (ns @ ns', None)
              | Some (teams_ok, ns'') \<Rightarrow>
                  (ns @ ns' @ ns'', Some (email_ok \<or> slack_ok \<or> teams_ok,
                     if teams then ''teams'' else if slack \<and> ch = ''slack'' then ''slack'' else if mail then ''email:'' @ ws else []))))"

section \<open>Evaluation\<close>

definition current_cycles :: "instant \<Rightarrow> string \<Rightarrow> rules_db \<Rightarrow> cycle_row list" where
  "current_cycles now ws db = filter (\<lambda>c. cy_workspace_id c = ws \<and> cy_end c \<ge> now) (ru_cycles db)"

text \<open>The rows that the join finds for a key: all requests with its name as label.\<close>

definition key_hits :: "instant \<Rightarrow> api_key_row \<Rightarrow> rules_db \<Rightarrow> nat" where
  "key_hits now k db =
     sum_list (map (\<lambda>c. length (filter (\<lambda>r. lr_key_label r = Some (ak_name k) \<and> cy_start c \<le> lr_ts r) (ru_requests db)))
       (current_cycles now (ak_workspace_id k) db))"

definition top_key :: "instant \<Rightarrow> string \<Rightarrow> rules_db \<Rightarrow> string option" where
  "top_key now ws db =
     (case sort_key (\<lambda>k. - int (key_hits now k db))
             (filter (\<lambda>k. ak_workspace_id k = ws \<and> ak_revoked_at k = None \<and> ak_paused_at k = None \<and> 0 < key_hits now k db)
               (kd_api_keys (ru_keys db))) of
        [] \<Rightarrow> None
      | k # ks \<Rightarrow> Some (ak_id k))"

definition crossed :: "int \<Rightarrow> int \<Rightarrow> alert_rule \<Rightarrow> bool" where
  "crossed current cap rule \<longleftrightarrow> 0 < cap \<and> \<not> real_of_int current / real_of_int cap < real_of_int (ar_threshold_pct rule) / 100"

definition rule_event_of :: "alert_rule \<Rightarrow> string \<Rightarrow> instant \<Rightarrow> bool \<Rightarrow> string \<Rightarrow> rule_event" where
  "rule_event_of rule ws now ok recipient =
     \<lparr>ev_rule_id = ar_id rule, ev_workspace_id = ws, ev_threshold_pct = ar_threshold_pct rule, ev_channel = ar_channel rule,
      ev_recipient = recipient, ev_fired_at = now, ev_status = (if ok then ''sent'' else ''failed'')\<rparr>"

definition evaluate_rule :: "alert_env \<Rightarrow> instant \<Rightarrow> string \<Rightarrow> int \<Rightarrow> int \<Rightarrow> alert_rule \<Rightarrow> nat \<times> rules_db \<Rightarrow> nat \<times> rules_db" where
  "evaluate_rule env now ws current cap rule st =
     (case st of (fired, db) \<Rightarrow>
        if \<not> crossed current cap rule \<or> \<not> should_fire (ar_id rule) now db then (fired, db)
        else case dispatch_rule env now rule ws current cap (top_key now ws db) db of
               (ns, None) \<Rightarrow> (fired, db\<lparr>ru_notices := ru_notices db @ ns\<rparr>)
             | (ns, Some (ok, recipient)) \<Rightarrow>
                 if av_write env (ar_id rule)
                 then (fired + 1, db\<lparr>ru_notices := ru_notices db @ ns, ru_events := ru_events db @ [rule_event_of rule ws now ok recipient]\<rparr>)
                 else (fired, db\<lparr>ru_notices := ru_notices db @ ns\<rparr>))"

definition evaluate_workspace :: "alert_env \<Rightarrow> instant \<Rightarrow> string \<Rightarrow> int \<Rightarrow> int \<Rightarrow> rules_db \<Rightarrow> nat \<times> rules_db" where
  "evaluate_workspace env now ws current cap db =
     fold (evaluate_rule env now ws current cap)
       (sort_key ar_threshold_pct (filter (\<lambda>r. ar_workspace_id r = ws \<and> ar_enabled r) (ru_rules db))) (0, db)"

text \<open>The rows of the main query: workspace, cap of its plan, and count of each of its current cycles.\<close>

definition due_workspaces :: "plan_limits_row table \<Rightarrow> instant \<Rightarrow> rules_db \<Rightarrow> (string \<times> int \<times> int) list" where
  "due_workspaces plans now db =
     List.map_filter (\<lambda>(w, c). map_option (\<lambda>pl. (ws_id w, case pl_monthly_request_cap pl of None \<Rightarrow> 0 | Some n \<Rightarrow> n, cy_request_count c))
         (lookup_key pl_plan (ws_plan w) plans))
       (concat (map (\<lambda>w. map (Pair w) (current_cycles now (ws_id w) db))
          (sort_key ws_id (filter (\<lambda>w. ws_plan w \<noteq> ''free'') (kd_workspaces (ru_keys db))))))"

definition evaluate_one :: "alert_env \<Rightarrow> instant \<Rightarrow> string \<times> int \<times> int \<Rightarrow> (nat \<times> nat) \<times> rules_db \<Rightarrow> (nat \<times> nat) \<times> rules_db" where
  "evaluate_one env now w st =
     (case (w, st) of ((ws, cap, current), ((evaluated, fired), db)) \<Rightarrow>
        (case evaluate_workspace env now ws current cap db of (n, db') \<Rightarrow> ((evaluated + 1, fired + n), db')))"

definition evaluate_all_workspaces :: "alert_env \<Rightarrow> plan_limits_row table \<Rightarrow> instant \<Rightarrow> rules_db \<Rightarrow> (nat \<times> nat) \<times> rules_db" where
  "evaluate_all_workspaces env plans now db = fold (evaluate_one env now) (due_workspaces plans now db) ((0, 0), db)"

section \<open>Editing the rules\<close>

record rule_patch =
  rp_enabled :: "bool option"
  rp_threshold_pct :: "int option"
  rp_extra_emails :: "string list option"
  rp_teams_webhook_url :: "string option"

record rule_view =
  rv_id :: string
  rv_threshold_pct :: int
  rv_channel :: string
  rv_enabled :: bool
  rv_has_slack :: bool
  rv_has_teams :: bool
  rv_extra_emails :: "string list"

definition list_alert_rules :: "token_payload \<Rightarrow> rules_db \<Rightarrow> http_error + rule_view list" where
  "list_alert_rules token db =
     (case require_role ''viewer'' token of
        Inl e \<Rightarrow> Inl e
      | Inr u \<Rightarrow>
          Inr (map (\<lambda>r. \<lparr>rv_id = ar_id r, rv_threshold_pct = ar_threshold_pct r, rv_channel = ar_channel r, rv_enabled = ar_enabled r,
                     rv_has_slack = (ar_slack_webhook_url r \<noteq> None), rv_has_teams = (ar_teams_webhook_url r \<noteq> None),
                     rv_extra_emails = ar_extra_emails r\<rparr>)
            (sort_key ar_threshold_pct (filter (\<lambda>r. ar_workspace_id r = tp_workspace_id token) (ru_rules db)))))"

definition patched :: "rule_patch \<Rightarrow> alert_rule \<Rightarrow> alert_rule" where
  "patched p r =
     r\<lparr>ar_enabled := (case rp_enabled p of None \<Rightarrow> ar_enabled r | Some b \<Rightarrow> b),
       ar_threshold_pct := (case rp_threshold_pct p of None \<Rightarrow> ar_threshold_pct r | Some n \<Rightarrow> n),
       ar_extra_emails := (case rp_extra_emails p of None \<Rightarrow> ar_extra_emails r | Some es \<Rightarrow> es),
       ar_teams_webhook_url := (case rp_teams_webhook_url p of None \<Rightarrow> ar_teams_webhook_url r | Some u \<Rightarrow> Some u)\<rparr>"

definition edit_rules :: "(alert_rule \<Rightarrow> bool) \<Rightarrow> (alert_rule \<Rightarrow> alert_rule) \<Rightarrow> rules_db \<Rightarrow> rules_db" where
  "edit_rules p f db = db\<lparr>ru_rules := update_where p f (ru_rules db)\<rparr>"

definition patch_alert_rule :: "token_payload \<Rightarrow> string \<Rightarrow> rule_patch \<Rightarrow> rules_db \<Rightarrow> (http_error + unit) \<times> rules_db" where
  "patch_alert_rule token rule_id p db =
     (case require_role ''owner'' token of
        Inl e \<Rightarrow> (Inl e, db)
      | Inr u \<Rightarrow>
          if rp_threshold_pct p \<notin> {None, Some 80, Some 100} then (Inl (HTTP 422 ''threshold_pct''), db)
          else case (if truthy (rp_teams_webhook_url p) then is_valid_teams_webhook (rp_teams_webhook_url p) else Some True) of
                 None \<Rightarrow> (Inl (HTTP 500 ''internal''), db)
               | Some False \<Rightarrow> (Inl (HTTP 422 ''teams_webhook_url''), db)
               | Some True \<Rightarrow>
                   if rp_enabled p = None \<and> rp_threshold_pct p = None \<and> rp_extra_emails p = None \<and> rp_teams_webhook_url p = None
                   then (Inl (HTTP 422 ''no fields to update''), db)
                   else let mine = (\<lambda>r. ar_id r = rule_id \<and> ar_workspace_id r = tp_workspace_id token)
                        in if \<not> list_ex mine (ru_rules db) then (Inl (HTTP 404 ''rule_not_found''), db)
                           else (Inr (), edit_rules mine (patched p) db))"

definition update_slack_webhook :: "token_payload \<Rightarrow> string option \<Rightarrow> rules_db \<Rightarrow> (http_error + nat) \<times> rules_db" where
  "update_slack_webhook token url db =
     (case require_role ''owner'' token of
        Inl e \<Rightarrow> (Inl e, db)
      | Inr u \<Rightarrow>
          (case (case url of None \<Rightarrow> Some True | Some x \<Rightarrow> is_slack_webhook x) of
             None \<Rightarrow> (Inl (HTTP 500 ''internal''), db)
           | Some False \<Rightarrow> (Inl (HTTP 422 ''webhook_url''), db)
           | Some True \<Rightarrow>
               (let mine = (\<lambda>r. ar_workspace_id r = tp_workspace_id token)
                in (Inr (length (filter mine (ru_rules db))),
                    edit_rules mine (\<lambda>r. r\<lparr>ar_slack_webhook_url := url, ar_channel := (if url = None then ''email'' else ''both'')\<rparr>) db))))"

definition update_teams_webhook :: "token_payload \<Rightarrow> string option \<Rightarrow> rules_db \<Rightarrow> (http_error + nat) \<times> rules_db" where
  "update_teams_webhook token url db =
     (case require_role ''owner'' token of
        Inl e \<Rightarrow> (Inl e, db)
      | Inr u \<Rightarrow>
          (case (case url of None \<Rightarrow> Some True | Some x \<Rightarrow> is_valid_teams_webhook (Some x)) of
             None \<Rightarrow> (Inl (HTTP 500 ''internal''), db)
           | Some False \<Rightarrow> (Inl (HTTP 422 ''webhook_url''), db)
           | Some True \<Rightarrow>
               (let mine = (\<lambda>r. ar_workspace_id r = tp_workspace_id token)
                in (Inr (length (filter mine (ru_rules db))),
                    edit_rules mine (\<lambda>r. r\<lparr>ar_teams_webhook_url := url, ar_channel := (if url = None then ''email'' else ''teams'')\<rparr>) db))))"

section \<open>A rule fires at most once a day\<close>

definition events_spaced :: "rules_db \<Rightarrow> bool" where
  "events_spaced db \<longleftrightarrow>
     sorted_wrt (\<lambda>e e'. ev_rule_id e = ev_rule_id e' \<longrightarrow> ev_fired_at e + 86400000000 \<le> ev_fired_at e') (ru_events db)"

lemma evaluate_rule_cases:
  obtains (quiet) "snd (evaluate_rule env now ws current cap rule st) = snd st"
  | (noticed) ns where "crossed current cap rule" "should_fire (ar_id rule) now (snd st)"
      "snd (evaluate_rule env now ws current cap rule st) = (snd st)\<lparr>ru_notices := ru_notices (snd st) @ ns\<rparr>"
      "ns = fst (dispatch_rule env now rule ws current cap (top_key now ws (snd st)) (snd st))"
  | (recorded) ns ok recipient where "crossed current cap rule" "should_fire (ar_id rule) now (snd st)"
      "snd (evaluate_rule env now ws current cap rule st)
         = (snd st)\<lparr>ru_notices := ru_notices (snd st) @ ns, ru_events := ru_events (snd st) @ [rule_event_of rule ws now ok recipient]\<rparr>"
      "ns = fst (dispatch_rule env now rule ws current cap (top_key now ws (snd st)) (snd st))"
proof -
  obtain fired db where st: "st = (fired, db)" by fastforce
  obtain ns r where d: "dispatch_rule env now rule ws current cap (top_key now ws db) db = (ns, r)" by fastforce
  show thesis
  proof (cases "crossed current cap rule \<and> should_fire (ar_id rule) now db")
    case False
    then have "evaluate_rule env now ws current cap rule st = st" by (simp add: evaluate_rule_def st)
    then show ?thesis by (intro quiet) simp
  next
    case go: True
    let ?noticed = "db\<lparr>ru_notices := ru_notices db @ ns\<rparr>"
    show ?thesis
    proof (cases r)
      case None
      then have "evaluate_rule env now ws current cap rule st = (fired, ?noticed)" using go by (simp add: evaluate_rule_def st d)
      then show ?thesis using go by (intro noticed) (simp_all add: st d)
    next
      case (Some p)
      obtain ok recipient where p: "p = (ok, recipient)" by fastforce
      show ?thesis
      proof (cases "av_write env (ar_id rule)")
        case True
        then have "snd (evaluate_rule env now ws current cap rule st)
            = ?noticed\<lparr>ru_events := ru_events db @ [rule_event_of rule ws now ok recipient]\<rparr>"
          using go by (simp add: evaluate_rule_def st d Some p)
        then show ?thesis using go by (intro recorded) (simp_all add: st d)
      next
        case False
        then have "evaluate_rule env now ws current cap rule st = (fired, ?noticed)" using go by (simp add: evaluate_rule_def st d Some p)
        then show ?thesis using go by (intro noticed) (simp_all add: st d)
      qed
    qed
  qed
qed

lemma evaluate_rule_spaced:
  assumes "events_spaced (snd st)"
  shows "events_spaced (snd (evaluate_rule env now ws current cap rule st))"
proof (cases rule: evaluate_rule_cases[of env now ws current cap rule st])
  case (recorded ns ok recipient)
  then show ?thesis using assms
    by (fastforce simp: events_spaced_def sorted_wrt_append should_fire_def list_ex_iff rule_event_of_def not_less)
qed (use assms in \<open>simp_all add: events_spaced_def\<close>)

lemma fold_keeps: "(\<And>x st. I st \<Longrightarrow> I (f x st)) \<Longrightarrow> I st \<Longrightarrow> I (fold f xs st)"
  by (induction xs arbitrary: st) auto

lemma evaluate_workspace_keeps:
  assumes "\<And>rule st. I (snd st) \<Longrightarrow> I (snd (evaluate_rule env now ws current cap rule st))" "I db"
  shows "I (snd (evaluate_workspace env now ws current cap db))"
  unfolding evaluate_workspace_def by (rule fold_keeps[where I = "\<lambda>st. I (snd st)"]) (use assms in simp_all)

lemma evaluate_all_keeps:
  assumes "\<And>ws current cap rule st. I (snd st) \<Longrightarrow> I (snd (evaluate_rule env now ws current cap rule st))" "I db"
  shows "I (snd (evaluate_all_workspaces env plans now db))"
  unfolding evaluate_all_workspaces_def
proof (rule fold_keeps[where I = "\<lambda>st. I (snd st)"])
  fix x and st :: "(nat \<times> nat) \<times> rules_db"
  assume "I (snd st)"
  then show "I (snd (evaluate_one env now x st))"
  proof -
    have "I (snd (evaluate_workspace env now ws current cap db))" if "I db" for ws current cap db
      using evaluate_workspace_keeps[of I env now, OF assms(1)] that by blast
    with \<open>I (snd st)\<close> show ?thesis
      by (cases x; cases st; cases "fst st") (simp add: evaluate_one_def split_beta)
  qed
qed (use assms(2) in simp)

text \<open>What happens to the tables: evaluations, edits, and traffic that changes all others.\<close>

datatype alert_op =
    Evaluate_alerts alert_env "plan_limits_row table" instant
  | Patch_rule token_payload string rule_patch
  | Set_slack token_payload "string option"
  | Set_teams token_payload "string option"
  | Traffic key_db "cycle_row table" "labelled_request table" "member_row table" "user_row table"

fun alert_op_step :: "alert_op \<Rightarrow> rules_db \<Rightarrow> rules_db" where
  "alert_op_step (Evaluate_alerts env plans now) db = snd (evaluate_all_workspaces env plans now db)"
| "alert_op_step (Patch_rule token rid p) db = snd (patch_alert_rule token rid p db)"
| "alert_op_step (Set_slack token url) db = snd (update_slack_webhook token url db)"
| "alert_op_step (Set_teams token url) db = snd (update_teams_webhook token url db)"
| "alert_op_step (Traffic keys cycles rs ms us) db =
     db\<lparr>ru_keys := keys, ru_cycles := cycles, ru_requests := rs, ru_members := ms, ru_users := us\<rparr>"

lemma edits_keep_events [simp]:
  "ru_events (snd (patch_alert_rule token rid p db)) = ru_events db"
  "ru_events (snd (update_slack_webhook token url db)) = ru_events db"
  "ru_events (snd (update_teams_webhook token url db)) = ru_events db"
  by (simp_all add: patch_alert_rule_def update_slack_webhook_def update_teams_webhook_def edit_rules_def Let_def
      split: sum.split option.split bool.split)

text \<open>
  A rule fires at most once in 24 hours: two recorded events of one rule are always a day apart, whatever is edited
  or sent in between and whether the dispatch succeeded or not.
\<close>

theorem rule_fires_daily:
  assumes "ru_events db = []"
  shows "events_spaced (run_steps alert_op_step ops db)"
proof -
  have "events_spaced db \<Longrightarrow> events_spaced (alert_op_step p db)" for p db
    by (cases p) (simp_all add: evaluate_all_keeps[of events_spaced] evaluate_rule_spaced, simp_all add: events_spaced_def)
  then have "events_spaced db \<Longrightarrow> events_spaced (run_steps alert_op_step ops db)" by (induction ops arbitrary: db) auto
  with assms show ?thesis by (simp add: events_spaced_def)
qed

section \<open>What an alert stands on\<close>

lemma fold_keeps_set: "(\<And>x st. x \<in> set xs \<Longrightarrow> I st \<Longrightarrow> I (f x st)) \<Longrightarrow> I st \<Longrightarrow> I (fold f xs st)"
  by (induction xs arbitrary: st) auto

lemma evaluate_rule_frame [simp]:
  "ru_rules (snd (evaluate_rule env now ws current cap rule st)) = ru_rules (snd st)"
  "ru_keys (snd (evaluate_rule env now ws current cap rule st)) = ru_keys (snd st)"
  "ru_cycles (snd (evaluate_rule env now ws current cap rule st)) = ru_cycles (snd st)"
  "ru_requests (snd (evaluate_rule env now ws current cap rule st)) = ru_requests (snd st)"
  by (cases rule: evaluate_rule_cases[of env now ws current cap rule st]; simp)+

lemma due_workspace:
  assumes "(ws, cap, current) \<in> set (due_workspaces plans now db)"
  shows "\<exists>w \<in> set (kd_workspaces (ru_keys db)). \<exists>pl. \<exists>c \<in> set (current_cycles now ws db). ws_id w = ws \<and> ws_plan w \<noteq> ''free''
    \<and> lookup_key pl_plan (ws_plan w) plans = Some pl \<and> cap = (case pl_monthly_request_cap pl of None \<Rightarrow> 0 | Some n \<Rightarrow> n)
    \<and> current = cy_request_count c"
  using assms by (fastforce simp: due_workspaces_def List.map_filter_def)

text \<open>An invariant of every rule evaluation that the job can make.\<close>

lemma evaluate_all_invariant:
  assumes "\<And>ws cap current rule st. (ws, cap, current) \<in> set (due_workspaces plans now db) \<Longrightarrow> rule \<in> set (ru_rules db)
      \<Longrightarrow> ar_workspace_id rule = ws \<Longrightarrow> ar_enabled rule \<Longrightarrow> ru_rules (snd st) = ru_rules db \<Longrightarrow> ru_keys (snd st) = ru_keys db
      \<Longrightarrow> I (snd st) \<Longrightarrow> I (snd (evaluate_rule env now ws current cap rule st))"
    and "I db"
  shows "I (snd (evaluate_all_workspaces env plans now db))"
proof -
  let ?J = "\<lambda>d. ru_rules d = ru_rules db \<and> ru_keys d = ru_keys db \<and> I d"
  have ws: "?J (snd (evaluate_workspace env now ws current cap d))"
    if "(ws, cap, current) \<in> set (due_workspaces plans now db)" "?J d" for ws cap current d
    unfolding evaluate_workspace_def
    by (rule fold_keeps_set[where I = "\<lambda>st. ?J (snd st)"]) (use that assms(1)[OF that(1)] in simp_all)
  have "?J (snd (evaluate_all_workspaces env plans now db))"
    unfolding evaluate_all_workspaces_def
  proof (rule fold_keeps_set[where I = "\<lambda>st. ?J (snd st)"])
    fix x and st :: "(nat \<times> nat) \<times> rules_db"
    assume x: "x \<in> set (due_workspaces plans now db)" and st: "?J (snd st)"
    obtain ws cap current where eq: "x = (ws, cap, current)" by (cases x)
    from ws[of ws cap current "snd st"] x st show "?J (snd (evaluate_one env now x st))"
      by (cases st; cases "fst st") (simp add: evaluate_one_def split_beta eq)
  qed (use assms(2) in simp)
  then show ?thesis by blast
qed

definition alert_grounds :: "plan_limits_row table \<Rightarrow> instant \<Rightarrow> rules_db \<Rightarrow> rule_event \<Rightarrow> bool" where
  "alert_grounds plans now db e \<longleftrightarrow>
     (\<exists>r \<in> set (ru_rules db). ar_id r = ev_rule_id e \<and> ar_enabled r \<and> ar_workspace_id r = ev_workspace_id e
        \<and> ar_threshold_pct r = ev_threshold_pct e
        \<and> (\<exists>w \<in> set (kd_workspaces (ru_keys db)). \<exists>pl. \<exists>c \<in> set (current_cycles now (ws_id w) db). \<exists>cap > 0.
             ws_id w = ev_workspace_id e \<and> ws_plan w \<noteq> ''free'' \<and> lookup_key pl_plan (ws_plan w) plans = Some pl
             \<and> pl_monthly_request_cap pl = Some cap \<and> ev_threshold_pct e * cap \<le> 100 * cy_request_count c))"

lemma crossed_iff: "crossed current cap r \<longleftrightarrow> 0 < cap \<and> ar_threshold_pct r * cap \<le> 100 * current"
proof (cases "0 < cap")
  case True
  then have "real_of_int (ar_threshold_pct r) / 100 \<le> real_of_int current / real_of_int cap
      \<longleftrightarrow> real_of_int (ar_threshold_pct r * cap) \<le> real_of_int (100 * current)"
    by (simp add: field_simps)
  with True show ?thesis by (simp only: crossed_def not_less of_int_le_iff simp_thms)
qed (simp add: crossed_def)

text \<open>
  Every event that a run of the job adds stands on facts: an enabled rule of that workspace, which is on a paid plan
  with a request cap and has used at least the rule's share of it in a current billing cycle.
\<close>

theorem alerts_grounded:
  "\<forall>e \<in> set (ru_events (snd (evaluate_all_workspaces env plans now db))).
     e \<in> set (ru_events db) \<or> ev_fired_at e = now \<and> alert_grounds plans now db e"
proof (rule evaluate_all_invariant)
  fix ws cap current rule and st :: "nat \<times> rules_db"
  assume due: "(ws, cap, current) \<in> set (due_workspaces plans now db)" and rule: "rule \<in> set (ru_rules db)"
    "ar_workspace_id rule = ws" "ar_enabled rule"
    and old: "\<forall>e \<in> set (ru_events (snd st)). e \<in> set (ru_events db) \<or> ev_fired_at e = now \<and> alert_grounds plans now db e"
  show "\<forall>e \<in> set (ru_events (snd (evaluate_rule env now ws current cap rule st))).
      e \<in> set (ru_events db) \<or> ev_fired_at e = now \<and> alert_grounds plans now db e"
  proof (cases rule: evaluate_rule_cases[of env now ws current cap rule st])
    case (recorded ns ok recipient)
    from due_workspace[OF due] obtain w pl c where
      w: "w \<in> set (kd_workspaces (ru_keys db))" "c \<in> set (current_cycles now ws db)" "ws_id w = ws" "ws_plan w \<noteq> ''free''"
        "lookup_key pl_plan (ws_plan w) plans = Some pl" "cap = (case pl_monthly_request_cap pl of None \<Rightarrow> 0 | Some n \<Rightarrow> n)"
        "current = cy_request_count c" by blast
    have cap: "pl_monthly_request_cap pl = Some cap" "0 < cap" "ar_threshold_pct rule * cap \<le> 100 * cy_request_count c"
      using recorded(1) w(6,7) by (auto simp: crossed_iff split: option.splits)
    have "alert_grounds plans now db (rule_event_of rule ws now ok recipient)"
      unfolding alert_grounds_def using rule w(1-5) cap 
      by (intro bexI[of _ rule] conjI bexI[of _ w] exI[of _ pl] bexI[of _ c] exI[of _ cap]) (simp_all add: rule_event_of_def)
    then show ?thesis using old recorded(3) by (auto simp: rule_event_of_def)
  qed (use old in simp_all)
qed simp

section \<open>The links of a notice\<close>

lemma dispatch_notices:
  assumes "n \<in> set (fst (dispatch_rule env now rule ws current limit tk db))"
  shows "nt_workspace_id n = ws"
    and "nt_links n = [] \<or> nt_links n = action_links env now (ar_id rule) ws tk"
    and "nt_channel n = ''slack'' \<Longrightarrow> ar_channel rule \<in> {''slack'', ''both''} \<and> truthy (ar_slack_webhook_url rule)"
    and "nt_channel n = ''teams'' \<Longrightarrow> ar_channel rule = ''teams'' \<and> truthy (ar_teams_webhook_url rule)"
  using assms
  by (auto simp: dispatch_rule_def send_usage_warning_email_def dispatch_slack_def dispatch_teams_def post_notice_def Let_def
      split: if_splits option.splits bool.splits prod.splits)

lemma action_links_own:
  "(label, Confirm_link tok) \<in> set (action_links env now rule_id ws tk)
     \<Longrightarrow> \<exists>jti action target. tok = create_action_token (av_lib env) now jti action ws target"
  by (auto simp: action_links_def Let_def split: if_splits)

lemma dispatch_rule_links:
  assumes "n \<in> set (fst (dispatch_rule env now rule ws current limit tk db))" "(label, Confirm_link tok) \<in> set (nt_links n)"
  shows "\<exists>jti action target. tok = create_action_token (av_lib env) now jti action ws target \<and> nt_workspace_id n = ws"
  using dispatch_notices(1,2)[OF assms(1)] assms(2) action_links_own[of label tok env now "ar_id rule" ws tk] by auto

definition own_links :: "auth_lib \<Rightarrow> instant \<Rightarrow> notice \<Rightarrow> bool" where
  "own_links lib now n \<longleftrightarrow> (\<forall>label tok. (label, Confirm_link tok) \<in> set (nt_links n) \<longrightarrow>
     (\<exists>jti action target. tok = create_action_token lib now jti action (nt_workspace_id n) target))"

lemma dispatch_rule_own:
  assumes "n \<in> set (fst (dispatch_rule env now rule ws current limit tk db))"
  shows "own_links (av_lib env) now n"
  unfolding own_links_def
proof (intro allI impI)
  fix label tok assume "(label, Confirm_link tok) \<in> set (nt_links n)"
  from dispatch_rule_links[OF assms this]
  show "\<exists>jti action target. tok = create_action_token (av_lib env) now jti action (nt_workspace_id n) target" by blast
qed

lemma evaluate_all_own_links:
  "\<forall>n \<in> set (ru_notices (snd (evaluate_all_workspaces env plans now db))). n \<in> set (ru_notices db) \<or> own_links (av_lib env) now n"
proof (rule evaluate_all_invariant)
  fix ws cap current rule and st :: "nat \<times> rules_db"
  assume old: "\<forall>n \<in> set (ru_notices (snd st)). n \<in> set (ru_notices db) \<or> own_links (av_lib env) now n"
  show "\<forall>n \<in> set (ru_notices (snd (evaluate_rule env now ws current cap rule st))). n \<in> set (ru_notices db) \<or> own_links (av_lib env) now n"
  proof (cases rule: evaluate_rule_cases[of env now ws current cap rule st])
    case (noticed ns)
    then show ?thesis using old dispatch_rule_own by auto
  next
    case (recorded ns ok recipient)
    then show ?thesis using old dispatch_rule_own by auto
  qed (use old in simp_all)
qed simp

definition same_for :: "string \<Rightarrow> action_db \<Rightarrow> action_db \<Rightarrow> bool" where
  "same_for w a b \<longleftrightarrow>
     filter (\<lambda>x. ws_id x = w) (kd_workspaces (ad_keys b)) = filter (\<lambda>x. ws_id x = w) (kd_workspaces (ad_keys a))
     \<and> filter (\<lambda>k. ak_workspace_id k = w) (kd_api_keys (ad_keys b)) = filter (\<lambda>k. ak_workspace_id k = w) (kd_api_keys (ad_keys a))"

lemma filter_update_other:
  "(\<And>x. p x \<Longrightarrow> \<not> q x \<and> \<not> q (f x)) \<Longrightarrow> filter q (update_where p f t) = filter q t"
  by (induction t) (auto simp: update_where_def)

lemma run_action_frame:
  assumes "w \<noteq> ap_workspace_id p"
  shows "same_for w db (snd (run_action plans now p db))"
proof -
  have ws: "filter (\<lambda>x. ws_id x = w) (update_where (\<lambda>x. ws_id x = ap_workspace_id p) f t) = filter (\<lambda>x. ws_id x = w) t"
    if "\<And>x. ws_id (f x) = ws_id x" for f and t :: "workspace_row table"
    using assms that by (intro filter_update_other) auto
  have key: "filter (\<lambda>k. ak_workspace_id k = w)
      (update_where (\<lambda>r. ak_id r = i \<and> ak_workspace_id r = ap_workspace_id p \<and> ak_revoked_at r = None) (\<lambda>r. r\<lparr>ak_paused_at := Some now\<rparr>) t)
     = filter (\<lambda>k. ak_workspace_id k = w) t" for i t
    using assms by (intro filter_update_other) auto
  have budget: "same_for w db (snd (handle_increase_budget plans (ap_workspace_id p) db))"
    by (simp add: handle_increase_budget_def same_for_def upd_workspace_def upd_keys_def Let_def ws set_request_cap_def split: option.split)
  have pause: "same_for w db (snd (handle_pause_api_key now (ap_workspace_id p) (ap_target_id p) db))"
    by (simp add: handle_pause_api_key_def same_for_def upd_keys_def Let_def key invalidate_api_key_cache_def split: option.split)
  have downgrade: "same_for w db (snd (handle_downgrade_model (ap_workspace_id p) db))"
    by (simp add: handle_downgrade_model_def same_for_def upd_workspace_def upd_keys_def ws)
  show ?thesis
    using budget pause downgrade
    by (auto simp: run_action_def Let_def same_for_def log_action_activity_def split: prod.split action_outcome.split)
qed

text \<open>C38: 
  The buttons of a notice act on the workspace it is about and on no other: whoever opens a link of it, at whatever
  time, leaves the limits, the routing and the API keys of every other workspace as they were. Of PyJWT and
  pydantic this uses that the token decodes to the claims it was made of, if at all, and that these validate.
\<close>

theorem links_act_on_own_workspace:
  assumes "n \<in> set (ru_notices (snd (evaluate_all_workspaces env plans now db)))" "n \<notin> set (ru_notices db)"
    and "(label, Confirm_link tok) \<in> set (nt_links n)"
    and "\<And>t c. jwt_encode (av_lib env) c = tok \<Longrightarrow> jwt_decode (av_lib env) t tok \<in> {None, Some c}" "\<And>p. validate (action_claims p) = Some p"
    and "w \<noteq> nt_workspace_id n"
  shows "same_for w adb (snd (execute_action (av_lib env) validate plans later (Some tok) adb))"
proof -
  from evaluate_all_own_links[of env plans now db] assms(1-3) obtain jti action target where
    tok: "tok = create_action_token (av_lib env) now jti action (nt_workspace_id n) target" by (fastforce simp: own_links_def)
  have "verify_action_token (av_lib env) validate later tok = Some p \<Longrightarrow> ap_workspace_id p = nt_workspace_id n" for p
    using assms(4)[OF tok[symmetric, unfolded create_action_token_def], of "unix_seconds later"] assms(5)
    by (auto simp: verify_action_token_def split: option.splits)
  then have own: "same_for w adb' (snd (run_action plans later p adb'))" if "verify_action_token (av_lib env) validate later tok = Some p" for p adb'
    using run_action_frame[of w p adb' plans later] assms(6) that by auto
  show ?thesis
  proof (cases "verify_action_token (av_lib env) validate later tok")
    case None
    then show ?thesis by (simp add: execute_action_def same_for_def)
  next
    case (Some p)
    obtain fresh adb' where c: "consume_action_token (ap_jti p) adb = (fresh, adb')" by fastforce
    then have "same_for w adb adb'" by (auto simp: same_for_def consume_action_token_def)
    with own[OF Some, of adb'] show ?thesis
      by (cases fresh) (simp_all add: execute_action_def same_for_def Some c)
  qed
qed

section \<open>What the alerts miss\<close>

text \<open>
  The top key is found by its name alone: the join with the requests does not compare workspaces. A workspace
  without a single request is offered the button to pause a key of its own, because another workspace uses a key of
  the same name.
\<close>

theorem top_key_from_foreign_traffic:
  assumes "k \<in> set (kd_api_keys (ru_keys db))" "ak_workspace_id k = ws" "ak_revoked_at k = None" "ak_paused_at k = None"
    and "c \<in> set (current_cycles now ws db)" "r \<in> set (ru_requests db)" "lr_key_label r = Some (ak_name k)" "cy_start c \<le> lr_ts r"
  shows "\<exists>k' \<in> set (kd_api_keys (ru_keys db)). ak_workspace_id k' = ws \<and> top_key now ws db = Some (ak_id k')"
proof -
  let ?live = "filter (\<lambda>k. ak_workspace_id k = ws \<and> ak_revoked_at k = None \<and> ak_paused_at k = None \<and> 0 < key_hits now k db) (kd_api_keys (ru_keys db))"
  have "0 < length (filter (\<lambda>r. lr_key_label r = Some (ak_name k) \<and> cy_start c \<le> lr_ts r) (ru_requests db))"
    using assms(6-8) by (auto simp: filter_empty_conv)
  moreover have "length (filter (\<lambda>r. lr_key_label r = Some (ak_name k) \<and> cy_start c \<le> lr_ts r) (ru_requests db)) \<le> key_hits now k db"
    unfolding key_hits_def assms(2) by (rule member_le_sum_list) (use assms(5) in auto)
  ultimately have "0 < key_hits now k db" by linarith
  then have "k \<in> set ?live" using assms(1-4) by auto
  then have "k \<in> set (sort_key (\<lambda>k. - int (key_hits now k db)) ?live)" by simp
  moreover obtain k' ks where s: "sort_key (\<lambda>k. - int (key_hits now k db)) ?live = k' # ks"
    using calculation by (cases "sort_key (\<lambda>k. - int (key_hits now k db)) ?live") auto
  then have "k' \<in> set (sort_key (\<lambda>k. - int (key_hits now k db)) ?live)" by simp
  then have "k' \<in> set (kd_api_keys (ru_keys db))" "ak_workspace_id k' = ws" by simp_all
  with s show ?thesis by (auto simp: top_key_def)
qed

text \<open>
  The engine compares with the cap of the plan, the quota gate with the override of the workspace. A workspace whose
  override is below 80 percent of the plan's cap is refused at its own cap without an alert ever having been due.
\<close>

theorem override_refused_unalerted:
  assumes "pk ws_id (kd_workspaces (ru_keys db))" "w \<in> set (kd_workspaces (ru_keys db))" "ws_plan w \<noteq> ''free''"
    and "lookup_key pl_plan (ws_plan w) plans = Some pl" "pl_monthly_request_cap pl = Some cap"
    and "ws_limit_overrides w = Some ov" "ov_monthly_request_cap ov = Some own" "0 < own"
    and "current_cycles now (ws_id w) db = [c]" "own \<le> cy_request_count c" "100 * cy_request_count c < 80 * cap"
    and "\<forall>r \<in> set (ru_rules db). ar_threshold_pct r \<in> {80, 100}"
    and "ig_keys idb = ru_keys db" "ig_cycles idb = ru_cycles db" "pk cycle_key (ru_cycles db)" "now < cy_end c"
  shows "fst (check_quota_or_raise plans month_bounds now (ws_id w) (ws_plan w) n idb)
      = Some (Quota_exceeded ''requests'' (real_of_int (cy_request_count c)) (real_of_int own))
    \<and> (\<forall>e \<in> set (ru_events (snd (evaluate_all_workspaces env plans now db))). ev_workspace_id e = ws_id w \<longrightarrow> e \<in> set (ru_events db))"
proof (intro conjI)
  have find_w: "lookup_key ws_id (ws_id w) (kd_workspaces (ru_keys db)) = Some w"
    by (rule pk_lookup[OF assms(1,2)])
  have c: "c \<in> set (ru_cycles db)" "cy_workspace_id c = ws_id w"
    using assms(9) by (auto simp: current_cycles_def filter_eq_Cons_iff)
  have "filter (\<lambda>x. cy_workspace_id x = ws_id w \<and> cy_end x > now) (ru_cycles db)
      = filter (\<lambda>x. cy_end x > now) (current_cycles now (ws_id w) db)"
    unfolding current_cycles_def filter_filter by (rule filter_cong) auto
  then have cyc: "current_cycle now (ws_id w) (ru_cycles db) = Some (cy_start c, cy_end c)"
    using assms(9,16) by (simp add: current_cycle_def)
  have key: "lookup_key cycle_key (ws_id w, cy_start c) (ru_cycles db) = Some c"
    using pk_lookup[OF assms(15) c(1)] c(2) by (simp add: cycle_key_def)
  then have "(ws_id w, cy_start c) \<in> cycle_key ` set (ru_cycles db)"
    using c by (force simp: cycle_key_def)
  then have seed: "seed_cycle (ws_id w) (cy_start c, cy_end c) (ru_cycles db) = ru_cycles db"
    by (simp add: seed_cycle_def insert_or_ignore_def cycle_key_def)
  have lim: "resolve_limits plans (kd_workspaces (ru_keys db)) (ws_id w) = Some (merged_limits w pl)"
    "monthly_request_cap (merged_limits w pl) = Some own"
    using assms(4,6,7) by (simp_all add: resolve_limits_def find_w merged_limits_def Let_def coalesce_def)
  show "fst (check_quota_or_raise plans month_bounds now (ws_id w) (ws_plan w) n idb)
      = Some (Quota_exceeded ''requests'' (real_of_int (cy_request_count c)) (real_of_int own))"
    using assms(3,8,10) lim
    by (simp add: check_quota_or_raise_def Let_def assms(13,14) active_cap_def cycle_bounds_def cyc seed key counter_breach_def)
  show "\<forall>e \<in> set (ru_events (snd (evaluate_all_workspaces env plans now db))). ev_workspace_id e = ws_id w \<longrightarrow> e \<in> set (ru_events db)"
  proof (rule evaluate_all_invariant)
    fix ws cap' current rule and st :: "nat \<times> rules_db"
    assume due: "(ws, cap', current) \<in> set (due_workspaces plans now db)" and rule: "rule \<in> set (ru_rules db)"
      and old: "\<forall>e \<in> set (ru_events (snd st)). ev_workspace_id e = ws_id w \<longrightarrow> e \<in> set (ru_events db)"
    have "\<not> crossed current cap' rule" if "ws = ws_id w"
    proof -
      from due_workspace[OF due] obtain v pl' c' where
        v: "v \<in> set (kd_workspaces (ru_keys db))" "c' \<in> set (current_cycles now ws db)" "ws_id v = ws"
          "lookup_key pl_plan (ws_plan v) plans = Some pl'" "cap' = (case pl_monthly_request_cap pl' of None \<Rightarrow> 0 | Some n \<Rightarrow> n)"
          "current = cy_request_count c'" by blast
      have "v = w" using assms(1,2) v(1,3) that by (auto simp: pk_def distinct_map inj_on_def)
      then have "cap' = cap" "current = cy_request_count c" using v assms(4,5,9) that by auto
      moreover have "80 \<le> ar_threshold_pct rule" using assms(12) rule by fastforce
      moreover have "80 * cap \<le> ar_threshold_pct rule * cap" if "0 < cap"
        using calculation(3) that by (intro mult_right_mono) auto
      ultimately show ?thesis using assms(11) by (fastforce simp: crossed_iff)
    qed
    then show "\<forall>e \<in> set (ru_events (snd (evaluate_rule env now ws current cap' rule st))). ev_workspace_id e = ws_id w \<longrightarrow> e \<in> set (ru_events db)"
    using old by (cases rule: evaluate_rule_cases[of env now ws current cap' rule st]) (auto simp: rule_event_of_def)
  qed simp
qed

text \<open>
  Clearing one webhook turns the other one off: after the Teams address has been cleared, no rule of the workspace
  sends to Slack any more, although every rule keeps its Slack address.
\<close>

theorem clearing_teams_silences_slack:
  assumes "require_role ''owner'' token = Inr ()" "(res, db') = update_teams_webhook token None db"
  shows "map ar_slack_webhook_url (ru_rules db') = map ar_slack_webhook_url (ru_rules db)
    \<and> (\<forall>r \<in> set (ru_rules db'). ar_workspace_id r = tp_workspace_id token \<longrightarrow>
         (\<forall>n \<in> set (fst (dispatch_rule env now r ws current limit tk db')). nt_channel n \<noteq> ''slack''))"
proof -
  let ?mine = "\<lambda>r. ar_workspace_id r = tp_workspace_id token" and ?f = "\<lambda>r. r\<lparr>ar_teams_webhook_url := None, ar_channel := ''email''\<rparr>"
  have db': "ru_rules db' = update_where ?mine ?f (ru_rules db)"
    using assms by (simp add: update_teams_webhook_def Let_def edit_rules_def)
  have "ar_channel r = ''email''" if "r \<in> set (ru_rules db')" "?mine r" for r
    using that by (auto simp: db' update_where_def split: if_splits)
  then have "nt_channel n \<noteq> ''slack''" if "r \<in> set (ru_rules db')" "?mine r" "n \<in> set (fst (dispatch_rule env now r ws current limit tk db'))" for r n
    using dispatch_notices(3)[OF that(3)] that(1,2) by auto
  then show ?thesis by (auto simp: db' update_where_def)
qed

section \<open>Witnesses\<close>

definition slack_rule :: alert_rule where
  "slack_rule = \<lparr>ar_id = ''r1'', ar_workspace_id = ''w1'', ar_threshold_pct = 80, ar_channel = ''slack'', ar_enabled = True,
     ar_slack_webhook_url = Some ''https://hooks.slack.com/x'', ar_teams_webhook_url = None, ar_extra_emails = []\<rparr>"

definition cloud_ws :: "int option \<Rightarrow> workspace_row" where
  "cloud_ws own = demo_ws\<lparr>ws_plan := ''cloud'', ws_limit_overrides := map_option (\<lambda>n. no_overrides\<lparr>ov_monthly_request_cap := Some n\<rparr>) own\<rparr>"

definition alert_db :: "int option \<Rightarrow> int \<Rightarrow> rules_db" where
  "alert_db own n = \<lparr>ru_rules = [slack_rule], ru_events = [], ru_keys = \<lparr>kd_workspaces = [cloud_ws own], kd_api_keys = [], kd_cache = Map.empty\<rparr>,
     ru_cycles = [demo_cycle n 0], ru_requests = [], ru_members = [], ru_users = [], ru_notices = []\<rparr>"

text \<open>A JWT library that tells the three action tokens apart.\<close>

definition alert_claims :: "string \<Rightarrow> claims" where
  "alert_claims action = action_claims \<lparr>ap_action = action, ap_workspace_id = ''w1'', ap_target_id = None, ap_jti = action, ap_iat = 0, ap_exp = 7200\<rparr>"

definition alert_lib :: auth_lib where
  "alert_lib = demo_lib\<lparr>
     jwt_encode := (\<lambda>c. if c = alert_claims ''increase_budget'' then ''i'' else ''x''),
     jwt_decode := (\<lambda>t tok. if tok = ''i'' \<and> t < 7200 then Some (alert_claims ''increase_budget'') else None)\<rparr>"

definition slack_env :: alert_env where
  "slack_env = \<lparr>av_lib = alert_lib, av_jti = (\<lambda>rid action. action), av_mail = False, av_post = (\<lambda>n. False), av_write = (\<lambda>rid. True)\<rparr>"

definition claim_text :: "json option \<Rightarrow> string" where
  "claim_text j = (case j of Some (JStr s) \<Rightarrow> s | _ \<Rightarrow> [])"

definition claim_int :: "json option \<Rightarrow> int" where
  "claim_int j = (case j of Some (JInt n) \<Rightarrow> n | _ \<Rightarrow> 0)"

definition validate_action :: "claims \<Rightarrow> action_payload option" where
  "validate_action c = Some \<lparr>ap_action = claim_text (map_of c ''action''), ap_workspace_id = claim_text (map_of c ''workspace_id''),
     ap_target_id = (case map_of c ''target_id'' of Some (JStr s) \<Rightarrow> Some s | _ \<Rightarrow> None), ap_jti = claim_text (map_of c ''jti''),
     ap_iat = claim_int (map_of c ''iat''), ap_exp = claim_int (map_of c ''exp'')\<rparr>"

lemma validate_action_claims: "validate_action (action_claims p) = Some p"
  by (cases p) (simp add: validate_action_def action_claims_def claim_text_def claim_int_def split: option.split)

lemma slack_url: "is_slack_webhook ''https://hooks.slack.com/x'' = Some True"
  by code_simp

lemma alert_due: "due_workspaces plan_limits_seed 5 (alert_db own n) = [(''w1'', 1000000, n)]"
  by (simp add: due_workspaces_def alert_db_def cloud_ws_def demo_ws_def current_cycles_def demo_cycle_def plan_limits_seed_def lookup_key_def
      List.map_filter_def)

lemma alert_notice:
  "ru_notices (snd (evaluate_all_workspaces slack_env plan_limits_seed 5 (alert_db None 900000)))
   = snd (post_notice slack_env 5 ''slack'' ''https://hooks.slack.com/x'' ''r1'' ''w1'' 80 900000 1000000 None)"
  unfolding evaluate_all_workspaces_def alert_due
  by (simp add: evaluate_one_def evaluate_workspace_def alert_db_def slack_rule_def evaluate_rule_def
      crossed_iff should_fire_def dispatch_rule_def dispatch_slack_def slack_url truthy_def top_key_def slack_env_def Let_def
      split: prod.split)

theorem links_act_on_own_workspace_witness:
  "same_for ''w2'' demo_actions (snd (execute_action alert_lib validate_action plan_limits_seed 9 (Some ''i'') demo_actions))"
proof -
  let ?n = "hd (snd (post_notice slack_env 5 ''slack'' ''https://hooks.slack.com/x'' ''r1'' ''w1'' 80 900000 1000000 None))"
  have lib: "av_lib slack_env = alert_lib" by (simp add: slack_env_def)
  have n: "?n \<in> set (ru_notices (snd (evaluate_all_workspaces slack_env plan_limits_seed 5 (alert_db None 900000))))"
    unfolding alert_notice by (simp add: post_notice_def Let_def)
  have new: "?n \<notin> set (ru_notices (alert_db None 900000))" by (simp add: alert_db_def)
  have link: "(''Increase Budget (50%)'', Confirm_link ''i'') \<in> set (nt_links ?n)"
    by (simp add: post_notice_def Let_def action_links_def create_action_token_def slack_env_def alert_lib_def alert_claims_def unix_seconds_def
        ACTION_TOKEN_TTL_def truthy_def)
  have own: "nt_workspace_id ?n = ''w1''" by (simp add: post_notice_def Let_def)
  have jwt: "jwt_decode (av_lib slack_env) t ''i'' \<in> {None, Some c}" if "jwt_encode (av_lib slack_env) c = ''i''" for t c
    using that by (simp add: slack_env_def alert_lib_def split: if_splits)
  show ?thesis
    using links_act_on_own_workspace[OF n new link jwt validate_action_claims, of "''w2''" demo_actions 9]
    by (simp add: own lib)
qed

theorem rule_fires_daily_witness:
  "events_spaced (run_steps alert_op_step [Evaluate_alerts slack_env plan_limits_seed 5, Evaluate_alerts slack_env plan_limits_seed 6] (alert_db None 900000))"
  by (rule rule_fires_daily) (simp add: alert_db_def)

theorem override_refused_unalerted_witness:
  "fst (check_quota_or_raise plan_limits_seed (\<lambda>_. (0, 1000)) 5 ''w1'' ''cloud'' 1
     \<lparr>ig_keys = ru_keys (alert_db (Some 500) 500), ig_members = [], ig_cycles = ru_cycles (alert_db (Some 500) 500), ig_records = [],
      ig_stream = [], ig_emails = []\<rparr>)
   = Some (Quota_exceeded ''requests'' 500 500)"
proof -
  let ?db = "alert_db (Some 500) 500" and ?w = "cloud_ws (Some 500)"
  have "pk ws_id (kd_workspaces (ru_keys ?db))" "?w \<in> set (kd_workspaces (ru_keys ?db))" "ws_plan ?w \<noteq> ''free''"
    "lookup_key pl_plan (ws_plan ?w) plan_limits_seed = Some (plan_limits_seed ! 1)" "pl_monthly_request_cap (plan_limits_seed ! 1) = Some 1000000"
    "ws_limit_overrides ?w = Some (no_overrides\<lparr>ov_monthly_request_cap := Some 500\<rparr>)"
    "ov_monthly_request_cap (no_overrides\<lparr>ov_monthly_request_cap := Some 500\<rparr>) = Some 500" "0 < (500 :: int)"
    "current_cycles 5 (ws_id ?w) ?db = [demo_cycle 500 0]" "500 \<le> cy_request_count (demo_cycle 500 0)"
    "100 * cy_request_count (demo_cycle 500 0) < 80 * 1000000" "\<forall>r \<in> set (ru_rules ?db). ar_threshold_pct r \<in> {80, 100}"
    by (simp_all add: alert_db_def cloud_ws_def demo_ws_def pk_def plan_limits_seed_def lookup_key_def current_cycles_def demo_cycle_def slack_rule_def)
  note facts = this
  have cyc: "pk cycle_key (ru_cycles ?db)" "5 < cy_end (demo_cycle 500 0)" by (simp_all add: alert_db_def pk_def demo_cycle_def)
  define idb where "idb = \<lparr>ig_keys = ru_keys ?db, ig_members = [], ig_cycles = ru_cycles ?db, ig_records = [], ig_stream = [], ig_emails = []\<rparr>"
  then have "ig_keys idb = ru_keys ?db" "ig_cycles idb = ru_cycles ?db" by simp_all
  from override_refused_unalerted[OF facts this cyc, of "\<lambda>_. (0, 1000)" 1] idb_def
  show ?thesis by (simp add: cloud_ws_def demo_ws_def demo_cycle_def)
qed

end
