(* ===== verification/Cloud_Settings.thy ===== *)
theory Cloud_Settings
  imports Cloud_Alerts
begin

text \<open>
  Workspace settings and retention of the hosted service: \<open>settings_api.py\<close> (telemetry export, custom pricing,
  spend budgets, the weekly digest), \<open>encryption.py\<close>, and the package \<open>compliance\<close> (audit log, redaction of
  personal data, retention). The connection pool is part of the state: a query borrows a connection and gives it
  back, \<open>get_db\<close> borrows one and nobody gives it back. A request that waits for a connection for ever is
  \<open>None\<close>. Fernet, the telemetry endpoint and \<open>float\<close> on texts are parameters.
\<close>

section \<open>State\<close>

text \<open>Of \<open>workspaces\<close>: the columns that no other component reads.\<close>

record settings_row =
  sr_workspace_id :: string
  sr_otel_endpoint :: "string option"
  sr_otel_api_key_encrypted :: "string option"
  sr_otel_enabled :: bool
  sr_weekly_digest_enabled :: bool
  sr_team_budgets :: "string \<rightharpoonup> usd" \<comment> \<open>the key \<open>team_budgets\<close> of \<open>limit_overrides\<close>\<close>

record audit_row =
  au_workspace_id :: string
  au_user_id :: "string option"
  au_action :: string
  au_detail :: "(string \<times> json) list"
  au_created_at :: instant
  au_ip_address :: "string option"
  au_user_agent :: "string option"

record kept_request =
  kr_workspace_id :: string
  kr_ts :: instant

record settings_db =
  sd_keys :: key_db
  sd_settings :: "settings_row table"
  sd_pricing :: "(string \<times> (string \<times> json) list) table" \<comment> \<open>\<open>workspace_settings\<close>\<close>
  sd_activity :: "audit_row table"
  sd_users :: "user_row table"
  sd_requests :: "kept_request table"
  sd_free :: nat \<comment> \<open>connections that the pool can still hand out\<close>

text \<open>\<open>se_cipher\<close>: encryption (\<open>None\<close>: it raises) and decryption, \<open>None\<close> without a key.\<close>

record settings_env =
  se_plans :: "plan_limits_row table"
  se_reachable :: "string \<Rightarrow> string \<Rightarrow> bool"
  se_cipher :: "((string \<Rightarrow> string option) \<times> (string \<Rightarrow> string option)) option"
  se_float_text :: "string \<Rightarrow> bool"

definition POOL_MAX_SIZE :: nat where
  "POOL_MAX_SIZE = 20"

text \<open>\<open>async with pool.acquire()\<close> around one statement.\<close>

definition querying :: "settings_db \<Rightarrow> 'a \<Rightarrow> 'a option" where
  "querying db x = (if sd_free db = 0 then None else Some x)"

definition get_db :: "settings_db \<Rightarrow> settings_db option" where
  "get_db db = (if sd_free db = 0 then None else Some (db\<lparr>sd_free := sd_free db - 1\<rparr>))"

type_synonym 'a answer = "((http_error + 'a) \<times> settings_db) option"

definition edit_workspace :: "string \<Rightarrow> (workspace_row \<Rightarrow> workspace_row) \<Rightarrow> settings_db \<Rightarrow> settings_db" where
  "edit_workspace ws f db = db\<lparr>sd_keys := (sd_keys db)\<lparr>kd_workspaces := update_where (\<lambda>w. ws_id w = ws) f (kd_workspaces (sd_keys db))\<rparr>\<rparr>"

definition edit_settings :: "string \<Rightarrow> (settings_row \<Rightarrow> settings_row) \<Rightarrow> settings_db \<Rightarrow> settings_db" where
  "edit_settings ws f db = db\<lparr>sd_settings := update_where (\<lambda>r. sr_workspace_id r = ws) f (sd_settings db)\<rparr>"

definition log_setting :: "instant \<Rightarrow> token_payload \<Rightarrow> string \<Rightarrow> (string \<times> json) list \<Rightarrow> settings_db \<Rightarrow> settings_db" where
  "log_setting now token action detail db =
     db\<lparr>sd_activity := sd_activity db @ [\<lparr>au_workspace_id = tp_workspace_id token, au_user_id = Some (tp_user_id token), au_action = action,
        au_detail = detail, au_created_at = now, au_ip_address = None, au_user_agent = None\<rparr>]\<rparr>"

section \<open>Telemetry export\<close>

definition mask_api_key :: "string \<Rightarrow> string" where
  "mask_api_key api_key =
     (if length api_key \<le> 4 then ''****''
      else take (min 8 (length api_key div 2)) api_key @ ''****...'' @ drop (length api_key - 4) api_key)"

definition manager_encrypt :: "(string \<Rightarrow> string option) \<Rightarrow> string \<Rightarrow> string option" where
  "manager_encrypt enc plaintext = (if plaintext = [] then Some [] else enc plaintext)"

definition manager_decrypt :: "(string \<Rightarrow> string option) \<Rightarrow> string \<Rightarrow> string option" where
  "manager_decrypt dec ciphertext = (if ciphertext = [] then Some [] else dec ciphertext)"

record otel_config =
  oc_endpoint :: string
  oc_api_key :: string
  oc_enabled :: bool

definition update_otel_config :: "settings_env \<Rightarrow> token_payload \<Rightarrow> otel_config \<Rightarrow> settings_db \<Rightarrow> unit answer" where
  "update_otel_config env token body db =
     (case require_role ''owner'' token of
        Inl e \<Rightarrow> Some (Inl e, db)
      | Inr u \<Rightarrow>
          (case urlparse (oc_endpoint body) of
             None \<Rightarrow> Some (Inl (HTTP 500 ''internal''), db)
           | Some (scheme, hostname) \<Rightarrow>
               if scheme \<noteq> ''https'' then Some (Inl (HTTP 400 ''OTEL endpoint must use HTTPS protocol''), db)
               else if \<not> se_reachable env (oc_endpoint body) (oc_api_key body) then Some (Inl (HTTP 400 ''Failed to connect to OTEL endpoint''), db)
               else (case Option.bind (se_cipher env) (\<lambda>(enc, dec). manager_encrypt enc (oc_api_key body)) of
                       None \<Rightarrow> Some (Inl (HTTP 500 ''Failed to encrypt API key''), db)
                     | Some encrypted_key \<Rightarrow>
                         map_option (\<lambda>db'. (Inr (), edit_settings (tp_workspace_id token)
                             (\<lambda>r. r\<lparr>sr_otel_endpoint := Some (oc_endpoint body), sr_otel_api_key_encrypted := Some encrypted_key,
                                    sr_otel_enabled := oc_enabled body\<rparr>) db'))
                           (get_db db))))"

record otel_response =
  or_enabled :: bool
  or_endpoint :: string
  or_api_key_masked :: string

definition get_otel_config :: "settings_env \<Rightarrow> token_payload \<Rightarrow> settings_db \<Rightarrow> otel_response answer" where
  "get_otel_config env token db =
     (case require_role ''admin'' token of
        Inl e \<Rightarrow> Some (Inl e, db)
      | Inr u \<Rightarrow> querying db
          (case lookup_key sr_workspace_id (tp_workspace_id token) (sd_settings db) of
             None \<Rightarrow> (Inl (HTTP 404 ''Workspace not found''), db)
           | Some r \<Rightarrow>
               (let masked = (if truthy (sr_otel_api_key_encrypted r)
                      then (case Option.bind (se_cipher env) (\<lambda>(enc, dec). manager_decrypt dec (the (sr_otel_api_key_encrypted r))) of
                              None \<Rightarrow> ''****'' | Some k \<Rightarrow> mask_api_key k)
                      else ''****'')
                in (Inr \<lparr>or_enabled = sr_otel_enabled r, or_endpoint = (case sr_otel_endpoint r of None \<Rightarrow> [] | Some x \<Rightarrow> x),
                         or_api_key_masked = masked\<rparr>, db))))"

definition test_otel_endpoint :: "settings_env \<Rightarrow> token_payload \<Rightarrow> settings_db \<Rightarrow> bool answer" where
  "test_otel_endpoint env token db =
     (case require_role ''admin'' token of
        Inl e \<Rightarrow> Some (Inl e, db)
      | Inr u \<Rightarrow> querying db
          (case lookup_key sr_workspace_id (tp_workspace_id token) (sd_settings db) of
             None \<Rightarrow> (Inl (HTTP 400 ''OTEL endpoint not configured''), db)
           | Some r \<Rightarrow>
               if \<not> truthy (sr_otel_endpoint r) then (Inl (HTTP 400 ''OTEL endpoint not configured''), db)
               else if \<not> truthy (sr_otel_api_key_encrypted r) then (Inl (HTTP 400 ''OTEL API key not configured''), db)
               else (case Option.bind (se_cipher env) (\<lambda>(enc, dec). manager_decrypt dec (the (sr_otel_api_key_encrypted r))) of
                       None \<Rightarrow> (Inr False, db)
                     | Some k \<Rightarrow> (Inr (se_reachable env (the (sr_otel_endpoint r)) k), db))))"

section \<open>Custom pricing\<close>

definition get_pricing :: "token_payload \<Rightarrow> settings_db \<Rightarrow> (string \<times> json) list answer" where
  "get_pricing token db =
     (case require_role ''admin'' token of
        Inl e \<Rightarrow> Some (Inl e, db)
      | Inr u \<Rightarrow> querying db (Inr (case lookup_key fst (tp_workspace_id token) (sd_pricing db) of None \<Rightarrow> [] | Some (ws, p) \<Rightarrow> p), db))"

fun float_ok :: "(string \<Rightarrow> bool) \<Rightarrow> json \<Rightarrow> bool" where
  "float_ok text_ok (JBool b) = True"
| "float_ok text_ok (JInt n) = True"
| "float_ok text_ok (JFloat x) = True"
| "float_ok text_ok (JStr s) = text_ok s"
| "float_ok text_ok _ = False"

fun valid_rates :: "(string \<Rightarrow> bool) \<Rightarrow> json \<Rightarrow> bool" where
  "valid_rates text_ok (JObj kvs) =
     (case (map_of kvs ''input_per_1m'', map_of kvs ''output_per_1m'') of
        (Some a, Some b) \<Rightarrow> float_ok text_ok a \<and> float_ok text_ok b
      | _ \<Rightarrow> False)"
| "valid_rates text_ok _ = False"

definition update_pricing :: "settings_env \<Rightarrow> instant \<Rightarrow> token_payload \<Rightarrow> (string \<times> json) list \<Rightarrow> settings_db \<Rightarrow> string list answer" where
  "update_pricing env now token body db =
     (case require_role ''admin'' token of
        Inl e \<Rightarrow> Some (Inl e, db)
      | Inr u \<Rightarrow>
          if sd_free db = 0 then None
          else case require_enterprise (se_plans env) (kd_workspaces (sd_keys db)) token of
                 Inl e \<Rightarrow> Some (Inl e, db)
               | Inr u \<Rightarrow>
                   if \<not> list_all (\<lambda>(model, rates). valid_rates (se_float_text env) rates) body
                   then Some (Inl (HTTP 400 ''Invalid pricing format''), db)
                   else Option.bind (get_db db) (\<lambda>db'.
                     (let db'' = db'\<lparr>sd_pricing := insert_or_replace fst (tp_workspace_id token, body) (sd_pricing db')\<rparr>
                      in querying db'' (Inr (map fst body),
                           log_setting now token ''update_custom_pricing'' [(''models_updated'', JArr (map (JStr \<circ> fst) body))] db''))))"

section \<open>Budgets and the digest\<close>

definition set_spend_cap :: "usd option \<Rightarrow> workspace_row \<Rightarrow> workspace_row" where
  "set_spend_cap cap w = w\<lparr>ws_limit_overrides :=
     Some ((case ws_limit_overrides w of None \<Rightarrow> no_overrides | Some ov \<Rightarrow> ov)\<lparr>ov_monthly_spend_cap_usd := cap\<rparr>)\<rparr>"

definition amount_json :: "usd option \<Rightarrow> json" where
  "amount_json a = (case a of None \<Rightarrow> JNull | Some x \<Rightarrow> JFloat x)"

definition update_budget :: "instant \<Rightarrow> token_payload \<Rightarrow> usd option \<Rightarrow> settings_db \<Rightarrow> usd option answer" where
  "update_budget now token amount db =
     (case require_role ''admin'' token of
        Inl e \<Rightarrow> Some (Inl e, db)
      | Inr u \<Rightarrow>
          if (case amount of None \<Rightarrow> False | Some x \<Rightarrow> x \<le> 0) then Some (Inl (HTTP 422 ''monthly_budget_usd''), db)
          else querying db (Inr amount, log_setting now token ''update_monthly_budget'' [(''monthly_spend_cap_usd'', amount_json amount)]
                 (edit_workspace (tp_workspace_id token) (set_spend_cap amount) db)))"

definition update_team_budget :: "instant \<Rightarrow> token_payload \<Rightarrow> string \<Rightarrow> usd option \<Rightarrow> settings_db \<Rightarrow> (string \<times> usd option) answer" where
  "update_team_budget now token team_name amount db =
     (case require_role ''admin'' token of
        Inl e \<Rightarrow> Some (Inl e, db)
      | Inr u \<Rightarrow>
          (let team = strip team_name
           in if team = [] then Some (Inl (HTTP 422 ''team''), db)
              else if (case amount of None \<Rightarrow> False | Some x \<Rightarrow> x \<le> 0) then Some (Inl (HTTP 422 ''monthly_budget_usd''), db)
              else querying db (Inr (team, amount),
                     log_setting now token ''update_team_budget'' [(''team'', JStr team), (''monthly_budget_usd'', amount_json amount)]
                       (edit_settings (tp_workspace_id token) (\<lambda>r. r\<lparr>sr_team_budgets := (sr_team_budgets r)(team := amount)\<rparr>) db))))"

definition get_weekly_digest :: "token_payload \<Rightarrow> settings_db \<Rightarrow> bool answer" where
  "get_weekly_digest token db =
     querying db (Inr (case lookup_key sr_workspace_id (tp_workspace_id token) (sd_settings db) of
        None \<Rightarrow> True | Some r \<Rightarrow> sr_weekly_digest_enabled r), db)"

definition update_weekly_digest :: "token_payload \<Rightarrow> bool \<Rightarrow> settings_db \<Rightarrow> bool answer" where
  "update_weekly_digest token enabled db =
     (case require_role ''admin'' token of
        Inl e \<Rightarrow> Some (Inl e, db)
      | Inr u \<Rightarrow> querying db (Inr enabled, edit_settings (tp_workspace_id token) (\<lambda>r. r\<lparr>sr_weekly_digest_enabled := enabled\<rparr>) db))"

section \<open>The audit log\<close>

definition format_actor :: "auth_lib \<Rightarrow> user_row option \<Rightarrow> string" where
  "format_actor lib u =
     (let email = (case Option.bind u u_email_encrypted of
                     None \<Rightarrow> Some ''unknown''
                   | Some c \<Rightarrow> if c = [] then Some ''unknown''
                               else (case decrypt_pii (fernet_decrypt lib) (Some c) of Inl e \<Rightarrow> Some ''unknown'' | Inr e \<Rightarrow> e))
      in case (Option.bind u u_name, email) of
           (Some n, Some e) \<Rightarrow> if n \<noteq> [] then n @ '' <'' @ e @ ''>'' else e
         | (None, Some e) \<Rightarrow> e
         | (_, None) \<Rightarrow> [])"

record audit_entry =
  en_user :: string
  en_action :: string
  en_detail :: "(string \<times> json) list"
  en_created_at :: instant
  en_ip_address :: "string option"
  en_user_agent :: "string option"

record audit_page =
  pg_entries :: "audit_entry list"
  pg_total :: nat
  pg_limit :: int
  pg_offset :: int

definition audit_rows :: "instant \<Rightarrow> string \<Rightarrow> int \<Rightarrow> settings_db \<Rightarrow> audit_row list" where
  "audit_rows now ws days db =
     sort_key (\<lambda>a. - au_created_at a) (filter (\<lambda>a. au_workspace_id a = ws \<and> au_created_at a > now - days * 86400000000) (sd_activity db))"

definition audit_entry_of :: "auth_lib \<Rightarrow> settings_db \<Rightarrow> audit_row \<Rightarrow> audit_entry" where
  "audit_entry_of lib db a =
     \<lparr>en_user = format_actor lib (Option.bind (au_user_id a) (\<lambda>u. lookup_key u_id u (sd_users db))), en_action = au_action a,
      en_detail = au_detail a, en_created_at = au_created_at a, en_ip_address = au_ip_address a, en_user_agent = au_user_agent a\<rparr>"

definition get_audit_log :: "settings_env \<Rightarrow> auth_lib \<Rightarrow> instant \<Rightarrow> token_payload \<Rightarrow> int \<Rightarrow> int \<Rightarrow> int \<Rightarrow> settings_db \<Rightarrow> audit_page answer" where
  "get_audit_log env lib now token days limit offset db =
     (case require_role ''admin'' token of
        Inl e \<Rightarrow> Some (Inl e, db)
      | Inr u \<Rightarrow>
          if sd_free db = 0 then None
          else case require_enterprise (se_plans env) (kd_workspaces (sd_keys db)) token of
                 Inl e \<Rightarrow> Some (Inl e, db)
               | Inr u \<Rightarrow>
                   (let d = min days 365; l = min limit 1000; off = max offset 0; rows = audit_rows now (tp_workspace_id token) d db
                    in map_option (\<lambda>db'.
                         (if l < 0 then Inl (HTTP 500 ''Failed to fetch audit log'')
                          else Inr \<lparr>pg_entries = map (audit_entry_of lib db) (take (nat l) (drop (nat off) rows)),
                                    pg_total = length rows, pg_limit = l, pg_offset = off\<rparr>, db'))
                       (get_db db)))"

section \<open>Redaction and retention\<close>

definition purge_old_activity_pii :: "instant \<Rightarrow> int \<Rightarrow> settings_db \<Rightarrow> nat \<times> settings_db" where
  "purge_old_activity_pii now days db =
     (if days \<le> 0 then (0, db)
      else let old = (\<lambda>a. au_created_at a < now - days * 86400000000 \<and> (au_ip_address a \<noteq> None \<or> au_user_agent a \<noteq> None))
           in (length (filter old (sd_activity db)),
               db\<lparr>sd_activity := update_where old (\<lambda>a. a\<lparr>au_ip_address := None, au_user_agent := None\<rparr>) (sd_activity db)\<rparr>))"

definition PRUNE_BATCH_SIZE :: nat where
  "PRUNE_BATCH_SIZE = 10000"

text \<open>One \<open>DELETE\<close>: the first \<open>n\<close> expired rows go.\<close>

fun delete_first :: "nat \<Rightarrow> ('r \<Rightarrow> bool) \<Rightarrow> 'r table \<Rightarrow> nat \<times> 'r table" where
  "delete_first n p [] = (0, [])"
| "delete_first n p (r # rs) =
     (if p r \<and> 0 < n then (case delete_first (n - 1) p rs of (k, rs') \<Rightarrow> (Suc k, rs'))
      else (case delete_first n p rs of (k, rs') \<Rightarrow> (k, r # rs')))"

lemma delete_first_count: "delete_first n p rs = (k, rs') \<Longrightarrow> length rs' + k = length rs"
  by (induction n p rs arbitrary: k rs' rule: delete_first.induct) (auto split: if_splits prod.splits)

function prune_batches :: "nat \<Rightarrow> ('r \<Rightarrow> bool) \<Rightarrow> 'r table \<Rightarrow> nat \<times> 'r table" where
  "prune_batches m p t =
     (case delete_first (Suc m) p t of
        (batch, t') \<Rightarrow> if batch < Suc m then (batch, t') else (case prune_batches m p t' of (n, t'') \<Rightarrow> (batch + n, t'')))"
  by pat_completeness auto
termination by (relation "measure (\<lambda>(m, p, t). length t)") (auto dest: delete_first_count[OF sym])

declare prune_batches.simps [simp del]

definition prune_workspace :: "plan_limits_row table \<Rightarrow> instant \<Rightarrow> string \<Rightarrow> settings_db \<Rightarrow> nat \<times> settings_db" where
  "prune_workspace plans now ws db =
     (case resolve_limits plans (kd_workspaces (sd_keys db)) ws of
        None \<Rightarrow> (0, db)
      | Some limits \<Rightarrow>
          (case retention_days limits of
             None \<Rightarrow> (0, db)
           | Some days \<Rightarrow>
               if days = 0 then (0, db)
               else (case prune_batches (PRUNE_BATCH_SIZE - 1) (\<lambda>r. kr_workspace_id r = ws \<and> kr_ts r < now - days * 86400000000) (sd_requests db) of
                       (n, rs) \<Rightarrow> (n, db\<lparr>sd_requests := rs\<rparr>))))"

text \<open>\<open>fails\<close>: a statement for this workspace raises, which is logged.\<close>

definition run_prune_once :: "plan_limits_row table \<Rightarrow> (string \<Rightarrow> bool) \<Rightarrow> instant \<Rightarrow> settings_db \<Rightarrow> settings_db" where
  "run_prune_once plans fails now db =
     fold (\<lambda>w d. if fails (ws_id w) then d else snd (prune_workspace plans now (ws_id w) d)) (filter ws_active (kd_workspaces (sd_keys db))) db"

definition seconds_until_next_03_utc :: "instant \<Rightarrow> int" where
  "seconds_until_next_03_utc now =
     (let today_03 = (now div 86400000000) * 86400000000 + 3 * 3600000000;
          target = (if now < today_03 then today_03 else today_03 + 86400000000)
      in max 0 (target - now))"

section \<open>Retention\<close>

lemma delete_first_eq:
  "delete_first n p t = (min n (length (filter p t)), snd (delete_first n p t))
   \<and> filter (\<lambda>r. \<not> p r) (snd (delete_first n p t)) = filter (\<lambda>r. \<not> p r) t
   \<and> length (filter p (snd (delete_first n p t))) = length (filter p t) - n"
proof (induction n p t rule: delete_first.induct)
  case (2 n p r rs)
  then show ?case by (cases "p r \<and> 0 < n") (auto split: prod.splits simp: min_def)
qed simp

lemma filter_nothing: "length (filter p t) = 0 \<Longrightarrow> filter (\<lambda>r. \<not> p r) t = t"
  by (induction t) (auto split: if_splits)

lemma prune_batches_eq: "prune_batches m p t = (length (filter p t), filter (\<lambda>r. \<not> p r) t)"
proof (induction m p t rule: prune_batches.induct)
  case (1 m p t)
  obtain k t' where d: "delete_first (Suc m) p t = (k, t')" by fastforce
  from delete_first_eq[of "Suc m" p t] have facts: "k = min (Suc m) (length (filter p t))"
    "filter (\<lambda>r. \<not> p r) t' = filter (\<lambda>r. \<not> p r) t" "length (filter p t') = length (filter p t) - Suc m"
    by (simp_all add: d)
  show ?case
  proof (cases "k < Suc m")
    case True
    then have "length (filter p t') = 0" using facts by simp
    then have "t' = filter (\<lambda>r. \<not> p r) t" using facts(2) filter_nothing by metis
    moreover have "k = length (filter p t)" using True facts(1) by simp
    ultimately show ?thesis using True by (subst prune_batches.simps) (simp add: d)
  next
    case False
    from "1.IH"[OF d[symmetric] False] have "prune_batches m p t' = (length (filter p t'), filter (\<lambda>r. \<not> p r) t')" .
    then show ?thesis using False facts by (subst prune_batches.simps) (simp add: d)
  qed
qed

definition expired :: "plan_limits_row table \<Rightarrow> instant \<Rightarrow> settings_db \<Rightarrow> string \<Rightarrow> kept_request \<Rightarrow> bool" where
  "expired plans now db ws r \<longleftrightarrow> kr_workspace_id r = ws \<and>
     (case Option.bind (resolve_limits plans (kd_workspaces (sd_keys db)) ws) retention_days of
        None \<Rightarrow> False | Some days \<Rightarrow> days \<noteq> 0 \<and> kr_ts r < now - days * 86400000000)"

lemma prune_workspace_eq:
  "prune_workspace plans now ws db
   = (length (filter (expired plans now db ws) (sd_requests db)),
      db\<lparr>sd_requests := filter (\<lambda>r. \<not> expired plans now db ws r) (sd_requests db)\<rparr>)"
  by (simp add: prune_workspace_def prune_batches_eq expired_def[abs_def] split: option.split)


text \<open>
  Redaction removes the addresses of every row past the window and nothing else; a window that is not positive, which
  would redact everything, is refused.
\<close>

theorem purge_redacts:
  "\<forall>a \<in> set (sd_activity (snd (purge_old_activity_pii now days db))).
     0 < days \<and> au_created_at a < now - days * 86400000000 \<longrightarrow> au_ip_address a = None \<and> au_user_agent a = None"
  "map (\<lambda>a. (au_workspace_id a, au_user_id a, au_action a, au_detail a, au_created_at a)) (sd_activity (snd (purge_old_activity_pii now days db)))
   = map (\<lambda>a. (au_workspace_id a, au_user_id a, au_action a, au_detail a, au_created_at a)) (sd_activity db)"
  "days \<le> 0 \<Longrightarrow> snd (purge_old_activity_pii now days db) = db"
  by (auto simp: purge_old_activity_pii_def update_where_def Let_def)

text \<open>The loop sleeps at most a day and wakes at three.\<close>

theorem prune_wakes_at_three:
  "0 < seconds_until_next_03_utc now \<and> seconds_until_next_03_utc now \<le> 86400000000
   \<and> (now + seconds_until_next_03_utc now) mod 86400000000 = 3 * 3600000000"
proof -
  let ?d = "now div 86400000000"
  have "now = ?d * 86400000000 + now mod 86400000000" "0 \<le> now mod 86400000000" "now mod 86400000000 < 86400000000" by simp_all
  then have b: "?d * 86400000000 \<le> now" "now < ?d * 86400000000 + 86400000000" by linarith+
  have m: "(?d * 86400000000 + 3 * 3600000000) mod 86400000000 = 3 * 3600000000"
    "(?d * 86400000000 + 3 * 3600000000 + 86400000000) mod 86400000000 = 3 * 3600000000"
    by (simp_all add: algebra_simps mod_add_right_eq)
  show ?thesis
    using b m by (auto simp: seconds_until_next_03_utc_def Let_def max_def)
qed

section \<open>Connections\<close>

definition accepted_otel :: "settings_env \<Rightarrow> token_payload \<Rightarrow> otel_config \<Rightarrow> bool" where
  "accepted_otel env token body \<longleftrightarrow> require_role ''owner'' token = Inr () \<and> (\<exists>h. urlparse (oc_endpoint body) = Some (''https'', h))
     \<and> se_reachable env (oc_endpoint body) (oc_api_key body)
     \<and> (\<exists>enc dec c. se_cipher env = Some (enc, dec) \<and> manager_encrypt enc (oc_api_key body) = Some c)"

definition otel_step :: "settings_env \<Rightarrow> token_payload \<Rightarrow> otel_config \<Rightarrow> settings_db \<Rightarrow> settings_db" where
  "otel_step env token body db = (case update_otel_config env token body db of None \<Rightarrow> db | Some (r, db') \<Rightarrow> db')"

lemma otel_step_free:
  "accepted_otel env token body \<Longrightarrow> sd_free (otel_step env token body db) = sd_free db - 1"
  by (auto simp: accepted_otel_def otel_step_def update_otel_config_def get_db_def edit_settings_def)

text \<open>C40: 
  Each accepted telemetry setting costs a connection for good. After as many of them as the pool can hand out, by one
  owner or by many, no request of any workspace that reads the database is answered again.
\<close>

theorem settings_exhaust_pool:
  assumes "\<forall>(token, body) \<in> set changes. accepted_otel env token body" "sd_free db \<le> length changes"
    and "db' = fold (\<lambda>(token, body). otel_step env token body) changes db"
  shows "get_weekly_digest reader db' = None
    \<and> (require_role ''admin'' reader = Inr () \<longrightarrow> get_otel_config env reader db' = None \<and> get_pricing reader db' = None
         \<and> update_budget now reader None db' = None)"
proof -
  have "sd_free (fold (\<lambda>(token, body). otel_step env token body) changes db) = sd_free db - length changes" using assms(1)
    by (induction changes arbitrary: db) (auto simp: otel_step_free)
  then have "sd_free db' = 0" using assms(2,3) by simp
  then show ?thesis
    by (simp add: get_weekly_digest_def querying_def get_otel_config_def get_pricing_def update_budget_def)
qed

section \<open>Budgets\<close>

lemma resolve_spend_cap:
  assumes "lookup_key ws_id ws wss = Some w" "lookup_key pl_plan (ws_plan w) plans = Some pl"
  shows "\<exists>l. resolve_limits plans (update_where (\<lambda>w. ws_id w = ws) (set_spend_cap cap) wss) ws = Some l
    \<and> monthly_spend_cap_usd l = coalesce cap (pl_monthly_spend_cap_usd pl)"
proof -
  have "resolve_limits plans (update_where (\<lambda>w. ws_id w = ws) (set_spend_cap cap) wss) ws = Some (merged_limits (set_spend_cap cap w) pl)"
    by (rule resolve_update_workspace[OF assms]) (simp_all add: set_spend_cap_def)
  then show ?thesis by (simp add: merged_limits_def set_spend_cap_def Let_def)
qed

text \<open>
  A budget that is set is enforced: once the endpoint has answered, no batch is admitted in a billing cycle that has
  spent the amount. (Ingestion may name another exhausted quota as the reason.)
\<close>

theorem budget_setting_enforced:
  assumes "update_budget now token (Some amount) db = Some (Inr r, db')"
    and "lookup_key ws_id (tp_workspace_id token) (kd_workspaces (sd_keys db)) = Some w" "lookup_key pl_plan (ws_plan w) plans = Some pl"
    and "ig_keys idb = sd_keys db'" "b = cycle_bounds month_bounds later (tp_workspace_id token) plan (ig_cycles idb)"
    and "lookup_key cycle_key (tp_workspace_id token, fst b) (ig_cycles idb) = Some row" "amount \<le> cy_spend_usd row"
  shows "fst (check_quota_or_raise plans month_bounds later (tp_workspace_id token) plan n idb) \<noteq> None"
proof -
  let ?ws = "tp_workspace_id token"
  have pos: "0 < amount" and db': "kd_workspaces (sd_keys db') = update_where (\<lambda>w. ws_id w = ?ws) (set_spend_cap (Some amount)) (kd_workspaces (sd_keys db))"
    using assms(1) by (auto simp: update_budget_def querying_def log_setting_def edit_workspace_def split: sum.splits if_splits)
  from resolve_spend_cap[OF assms(2,3), of "Some amount"] obtain l where
    l: "resolve_limits plans (kd_workspaces (ig_keys idb)) ?ws = Some l" "monthly_spend_cap_usd l = Some amount"
    unfolding assms(4) db' by auto
  have counted: "active_usd_cap (monthly_spend_cap_usd l)" using pos l(2) by (simp add: active_usd_cap_def)
  have "(?ws, fst b) \<in> cycle_key ` set (ig_cycles idb)" using assms(6) by (metis lookup_key_None_iff option.simps(3))
  then have seed: "seed_cycle ?ws b (ig_cycles idb) = ig_cycles idb" by (simp add: seed_cycle_def insert_or_ignore_def cycle_key_def)
  have "counter_breach l row \<noteq> None" using counted l(2) assms(7) by (simp add: counter_breach_def)
  then obtain e where "counter_breach l row = Some e" by blast
  then show ?thesis
    using counted by (simp add: check_quota_or_raise_def l(1) Let_def assms(5)[symmetric] seed assms(6))
qed

section \<open>Gates and masks\<close>

text \<open>
  Nobody gets past the enterprise gate: the seeded plans have no such plan, and the gate reads the plan table. Custom
  prices cannot be set and the audit log cannot be read, whatever the role and the plan.
\<close>

theorem no_enterprise_plan:
  assumes "se_plans env = plan_limits_seed"
  shows "update_pricing env now token body db \<noteq> Some (Inr models, db') \<and> get_audit_log env lib now token days limit offset db \<noteq> Some (Inr page, db')"
proof -
  have "pl_plan pl \<noteq> ''enterprise''" if "lookup_key pl_plan k plan_limits_seed = Some pl" for k pl
    using that by (auto simp: lookup_key_def plan_limits_seed_def split: if_splits)
  then have "require_enterprise (se_plans env) wss token \<noteq> Inr u" for wss u
    using assms by (auto simp: require_enterprise_def resolve_limits_def merged_limits_def Let_def split: option.splits if_splits)
  then show ?thesis
    by (auto simp: update_pricing_def get_audit_log_def split: sum.splits if_splits)
qed

text \<open>A short key is shown in full: the prefix and the last four characters of the mask overlap or meet.\<close>

theorem short_key_shown:
  assumes "4 < length k" "length k \<le> 8"
  shows "\<exists>p q. mask_api_key k = p @ ''****...'' @ q \<and> (\<exists>j. take (length p - j) p @ q = k)"
proof -
  let ?p = "take (min 8 (length k div 2)) k" and ?q = "drop (length k - 4) k"
  have len: "length ?p = length k div 2" using assms by simp
  have "length k - 4 \<le> length k div 2" using assms by linarith
  then have "take (length ?p - (length k div 2 - (length k - 4))) ?p = take (length k - 4) k" unfolding len using assms by (simp add: min_def)
  then have "take (length ?p - (length k div 2 - (length k - 4))) ?p @ ?q = k" by simp
  moreover have "mask_api_key k = ?p @ ''****...'' @ ?q" using assms by (simp add: mask_api_key_def)
  ultimately show ?thesis by blast
qed

section \<open>Witnesses\<close>

definition owner_token :: token_payload where
  "owner_token = demo_token\<lparr>tp_role := ''owner''\<rparr>"

definition otel_env :: settings_env where
  "otel_env = \<lparr>se_plans = plan_limits_seed, se_reachable = (\<lambda>url k. True), se_cipher = Some (Some, Some), se_float_text = (\<lambda>t. True)\<rparr>"

definition otel_body :: otel_config where
  "otel_body = \<lparr>oc_endpoint = ''https://otel.example/v1'', oc_api_key = ''k'', oc_enabled = True\<rparr>"

definition settings_state :: "nat \<Rightarrow> settings_db" where
  "settings_state n = \<lparr>sd_keys = \<lparr>kd_workspaces = [demo_ws\<lparr>ws_plan := ''cloud''\<rparr>], kd_api_keys = [], kd_cache = Map.empty\<rparr>, sd_settings = [],
     sd_pricing = [], sd_activity = [], sd_users = [], sd_requests = [\<lparr>kr_workspace_id = ''w1'', kr_ts = 5\<rparr>], sd_free = n\<rparr>"

lemma otel_accepted: "accepted_otel otel_env owner_token otel_body"
proof -
  have "urlparse ''https://otel.example/v1'' = Some (''https'', Some ''otel.example'')" by code_simp
  then show ?thesis
    by (simp add: accepted_otel_def otel_env_def otel_body_def owner_token_def demo_token_def require_role_def dict_get_def ROLE_HIERARCHY_def manager_encrypt_def)
qed

theorem settings_exhaust_pool_witness:
  "get_weekly_digest demo_token (fold (\<lambda>(token, body). otel_step otel_env token body)
     (replicate POOL_MAX_SIZE (owner_token, otel_body)) (settings_state POOL_MAX_SIZE)) = None"
proof -
  have "sd_free (settings_state POOL_MAX_SIZE) \<le> length (replicate POOL_MAX_SIZE (owner_token, otel_body))"
    by (simp add: settings_state_def)
  with otel_accepted show ?thesis
    by (intro settings_exhaust_pool[of "replicate POOL_MAX_SIZE (owner_token, otel_body)" otel_env "settings_state POOL_MAX_SIZE"
          _ demo_token 0, OF _ _ refl, THEN conjunct1]) auto
qed


theorem budget_setting_enforced_witness:
  "fst (check_quota_or_raise plan_limits_seed (\<lambda>t. (0, 1000)) 5 ''w1'' ''cloud'' 1
     \<lparr>ig_keys = sd_keys (edit_workspace ''w1'' (set_spend_cap (Some 20)) (settings_state 1)), ig_members = [], ig_cycles = [demo_cycle 7 25],
      ig_records = [], ig_stream = [], ig_emails = []\<rparr>) \<noteq> None"
proof -
  define idb where "idb = \<lparr>ig_keys = sd_keys (edit_workspace ''w1'' (set_spend_cap (Some 20)) (settings_state 1)), ig_members = [],
     ig_cycles = [demo_cycle 7 25], ig_records = [], ig_stream = [], ig_emails = []\<rparr>"
  let ?db' = "log_setting 3 demo_token ''update_monthly_budget'' [(''monthly_spend_cap_usd'', amount_json (Some 20))]
      (edit_workspace ''w1'' (set_spend_cap (Some 20)) (settings_state 1))"
  have tok: "tp_workspace_id demo_token = ''w1''" by (simp add: demo_token_def)
  have one: "update_budget 3 demo_token (Some 20) (settings_state 1) = Some (Inr (Some 20), ?db')"
  proof -
    have "require_role ''admin'' demo_token = Inr ()" by (simp add: require_role_def demo_token_def dict_get_def ROLE_HIERARCHY_def)
    moreover have "sd_free (settings_state 1) \<noteq> 0" by (simp add: settings_state_def)
    ultimately show ?thesis by (simp add: update_budget_def querying_def tok)
  qed
  have two: "lookup_key ws_id (tp_workspace_id demo_token) (kd_workspaces (sd_keys (settings_state 1))) = Some (demo_ws\<lparr>ws_plan := ''cloud''\<rparr>)"
    "lookup_key pl_plan (ws_plan (demo_ws\<lparr>ws_plan := ''cloud''\<rparr>)) plan_limits_seed = Some (plan_limits_seed ! 1)"
    by (simp_all add: tok settings_state_def lookup_key_def demo_ws_def plan_limits_seed_def)
  have three: "ig_keys idb = sd_keys ?db'" by (simp add: idb_def log_setting_def)
  have four: "(0, 1000) = cycle_bounds (\<lambda>t. (0, 1000)) 5 (tp_workspace_id demo_token) ''cloud'' (ig_cycles idb)"
    by (simp add: cycle_bounds_def current_cycle_def idb_def demo_cycle_def tok)
  have five: "lookup_key cycle_key (tp_workspace_id demo_token, fst (0 :: int, 1000 :: int)) (ig_cycles idb) = Some (demo_cycle 7 25)"
    by (simp add: lookup_key_def cycle_key_def idb_def demo_cycle_def tok)
  have six: "20 \<le> cy_spend_usd (demo_cycle 7 25)" by (simp add: demo_cycle_def)
  from budget_setting_enforced[OF one two three four five six, of 1] show ?thesis by (simp add: tok idb_def)
qed

end
