(* ===== verification/Cloud_Sync.thy ===== *)
theory Cloud_Sync
  imports Cloud_Outcomes Router
begin

text \<open>
  The proxy's client of the hosted service, \<open>burnlens/cloud/sync.py\<close>: what of a request record leaves the
  machine, pushing batches, marking what was pushed, back-off, and the routing overrides that come back. A row of the
  request table is its dictionary of columns. The hosted endpoints are a function from the posted records and the
  server's state to a reply; for outcomes it is instantiated by \<open>ingest_outcomes\<close> of \<open>Cloud_Outcomes\<close>.
  HMAC, \<open>json.loads\<close>, \<open>str\<close>, \<open>int\<close> and \<open>float\<close> on foreign values are parameters.
\<close>

section \<open>What leaves the machine\<close>

definition SYNC_BATCH_SIZE :: nat where
  "SYNC_BATCH_SIZE = 500"

definition CLOUD_SYNCED_TAGS :: "string list" where
  "CLOUD_SYNCED_TAGS = [''feature'', ''team'', ''customer'', ''key_label'', ''agent_id'', ''workflow_id'', ''session'']"

definition PROMPT_SEGMENT_FIELDS :: "string list" where
  "PROMPT_SEGMENT_FIELDS = [''prompt_system_tokens'', ''prompt_tools_tokens'', ''prompt_rag_tokens'', ''prompt_history_tokens'']"

definition SYNC_BASE_FIELDS :: "string list" where
  "SYNC_BASE_FIELDS =
     [''timestamp'', ''provider'', ''model'', ''input_tokens'', ''output_tokens'', ''reasoning_tokens'', ''cache_read_tokens'',
      ''cache_write_tokens'', ''cost_usd'', ''duration_ms'', ''status_code'', ''system_prompt_hash'', ''cache_hit'',
      ''cache_saved_usd'', ''tool_calls'', ''trace_id'', ''parent_span_id'', ''event_id'', ''request_id'', ''source'',
      ''pricing_version'', ''pricing_fingerprint'', ''pricing_class'', ''requested_model'', ''routed_model'', ''downgrade_reason'']"

definition SYNC_ALLOWED_FIELDS :: "string set" where
  "SYNC_ALLOWED_FIELDS = set (SYNC_BASE_FIELDS @ PROMPT_SEGMENT_FIELDS @ map (\<lambda>t. ''tag_'' @ t) CLOUD_SYNCED_TAGS)"

type_synonym wire_record = "(string \<times> json) list"

record sync_env =
  sy_hmac :: "string \<Rightarrow> string \<Rightarrow> string"
  sy_str :: "json \<Rightarrow> string"
  sy_loads :: "string \<Rightarrow> json option"
  sy_int :: "string \<Rightarrow> int option"
  sy_float :: "json \<Rightarrow> real option"
  sy_prices :: price_env
  sy_api_key :: "string option"

definition sanitize_record :: "wire_record \<Rightarrow> wire_record" where
  "sanitize_record r = filter (\<lambda>(k, v). k \<in> SYNC_ALLOWED_FIELDS) r"

definition pseudonymize_prompt_hash :: "sync_env \<Rightarrow> json \<Rightarrow> json" where
  "pseudonymize_prompt_hash env v =
     (if json_truthy v
      then JStr (sy_hmac env (case sy_api_key env of None \<Rightarrow> [] | Some k \<Rightarrow> k) (case v of JStr s \<Rightarrow> s | _ \<Rightarrow> sy_str env v))
      else JNull)"

definition column :: "wire_record \<Rightarrow> string \<Rightarrow> json \<Rightarrow> json" where
  "column row k d = dict_get (map_of row) k d"

definition json_text :: "json \<Rightarrow> string" where
  "json_text v = (case v of JStr s \<Rightarrow> s | _ \<Rightarrow> [])"

definition class_text :: "pricing_class \<Rightarrow> string" where
  "class_text c = (case c of Unpriced \<Rightarrow> ''unpriced'' | Calculated \<Rightarrow> ''calculated'' | Estimated \<Rightarrow> ''estimated'')"

text \<open>\<open>None\<close> where the tags parse to something that is not a dictionary.\<close>

definition row_tags :: "sync_env \<Rightarrow> wire_record \<Rightarrow> (string \<rightharpoonup> json) option" where
  "row_tags env row =
     (case column row ''tags'' (JStr ''{}'') of
        JStr s \<Rightarrow> (case sy_loads env s of None \<Rightarrow> Some Map.empty | Some (JObj kvs) \<Rightarrow> Some (map_of kvs) | Some j \<Rightarrow> None)
      | JObj kvs \<Rightarrow> Some (map_of kvs)
      | _ \<Rightarrow> None)"

text \<open>The columns that are copied, with the default for an old row that does not have them.\<close>

definition COPIED_COLUMNS :: "(string \<times> json) list" where
  "COPIED_COLUMNS =
     [(''timestamp'', JNull), (''provider'', JNull), (''model'', JNull), (''input_tokens'', JInt 0), (''output_tokens'', JInt 0),
      (''reasoning_tokens'', JInt 0), (''cache_read_tokens'', JInt 0), (''cache_write_tokens'', JInt 0), (''cost_usd'', JFloat 0),
      (''duration_ms'', JInt 0), (''status_code'', JInt 200), (''system_prompt_hash'', JNull), (''cache_hit'', JInt 0),
      (''cache_saved_usd'', JFloat 0), (''tool_calls'', JInt 0), (''trace_id'', JNull), (''parent_span_id'', JNull),
      (''event_id'', JNull), (''request_id'', JNull), (''source'', JNull), (''pricing_version'', JNull),
      (''pricing_fingerprint'', JNull), (''requested_model'', JNull), (''routed_model'', JNull), (''downgrade_reason'', JNull)]"

definition row_pricing_class :: "sync_env \<Rightarrow> wire_record \<Rightarrow> json" where
  "row_pricing_class env row =
     (let stored = column row ''pricing_class'' JNull; src = json_text (column row ''source'' JNull)
      in if json_truthy stored then stored
         else JStr (class_text (pricing_class_for (sy_prices env) (json_text (column row ''provider'' JNull))
                (json_text (column row ''model'' JNull)) (Some (if src = [] then ''proxy'' else src)))))"

definition row_to_payload :: "sync_env \<Rightarrow> wire_record \<Rightarrow> wire_record option" where
  "row_to_payload env row =
     map_option (\<lambda>tags.
         map (\<lambda>(k, d). (k, column row k d)) COPIED_COLUMNS
         @ [(''pricing_class'', row_pricing_class env row)]
         @ map (\<lambda>t. (''tag_'' @ t, dict_get tags t JNull)) CLOUD_SYNCED_TAGS
         @ map (\<lambda>k. (k, let v = column row k JNull in if json_truthy v then v else JInt 0)) PROMPT_SEGMENT_FIELDS)
       (row_tags env row)"

text \<open>What \<open>push_batch\<close> posts of a record.\<close>

definition posted_record :: "sync_env \<Rightarrow> wire_record \<Rightarrow> wire_record" where
  "posted_record env r =
     map (\<lambda>(k, v). (k, if k = ''system_prompt_hash'' then pseudonymize_prompt_hash env v else v)) (sanitize_record r)"

section \<open>The client\<close>

text \<open>A reply: status, Retry-After header, and the body where it parses.\<close>

datatype sync_reply = Reply nat "string option" "json option" | No_reply

record sync_client =
  cl_running :: bool
  cl_backoff_until :: real
  cl_routing :: routing_config
  cl_last_sync_count :: nat

record sync_row =
  sq_id :: nat
  sq_synced :: bool
  sq_columns :: wire_record

record outcome_sync_row =
  so_id :: nat
  so_synced :: bool
  so_outcome :: outcome_row

record sync_db =
  sb_requests :: "sync_row table"
  sb_outcomes :: "outcome_sync_row table"

text \<open>The first failing conversion ends the update; what was set before it stays.\<close>

definition apply_routing_overrides :: "sync_env \<Rightarrow> json \<Rightarrow> routing_config \<Rightarrow> routing_config" where
  "apply_routing_overrides env overrides cfg =
     (case overrides of
        JObj kvs \<Rightarrow>
          (let cfg1 = (case map_of kvs ''budget_downgrade'' of None \<Rightarrow> cfg | Some v \<Rightarrow> cfg\<lparr>budget_downgrade := json_truthy v\<rparr>)
           in case map_of kvs ''downgrade_threshold_pct'' of
                None \<Rightarrow> cfg1
              | Some v \<Rightarrow> (case sy_float env v of None \<Rightarrow> cfg1 | Some x \<Rightarrow> cfg1\<lparr>downgrade_threshold_pct := x\<rparr>))
      | _ \<Rightarrow> cfg)"

definition push_batch ::
    "sync_env \<Rightarrow> (wire_record list \<Rightarrow> 's \<Rightarrow> sync_reply \<times> 's) \<Rightarrow> real \<Rightarrow> wire_record list \<Rightarrow> sync_client \<times> 's \<Rightarrow> bool \<times> sync_client \<times> 's" where
  "push_batch env srv now records st =
     (case st of (cl, s) \<Rightarrow>
        if now < cl_backoff_until cl \<or> records = [] then (False, cl, s)
        else case srv (map (posted_record env) records) s of
               (No_reply, s') \<Rightarrow> (False, cl, s')
             | (Reply code retry body, s') \<Rightarrow>
                 if code = 200 then
                   (case body of
                      None \<Rightarrow> (True, cl, s')
                    | Some (JObj data) \<Rightarrow>
                        (let ov = dict_get (map_of data) ''routing_overrides'' JNull
                         in (True, if json_truthy ov then cl\<lparr>cl_routing := apply_routing_overrides env ov (cl_routing cl)\<rparr> else cl, s'))
                    | Some j \<Rightarrow> (False, cl, s'))
                 else if code = 401 then (False, cl\<lparr>cl_running := False\<rparr>, s')
                 else if code = 429 then
                   (case (case retry of None \<Rightarrow> Some 60 | Some t \<Rightarrow> sy_int env t) of
                      None \<Rightarrow> (False, cl, s')
                    | Some n \<Rightarrow> (False, cl\<lparr>cl_backoff_until := now + of_int n\<rparr>, s'))
                 else (False, cl, s'))"

text \<open>The API fills in the outcome type, which the payload does not have.\<close>

definition outcome_row_to_payload :: "outcome_row \<Rightarrow> outcome" where
  "outcome_row_to_payload r =
     \<lparr>oc_outcome_id = ow_outcome_id r, oc_workflow_id = ow_workflow_id r, oc_status = ow_status r, oc_outcome_type = ''unspecified'',
      oc_event_time = ow_event_time r, oc_business_value = ow_business_value r, oc_currency = ow_currency r,
      oc_source = (if ow_source r = [] then ''cli'' else ow_source r), oc_metadata = ow_metadata r\<rparr>"

definition push_outcomes :: "(outcome list \<Rightarrow> 's \<Rightarrow> sync_reply \<times> 's) \<Rightarrow> real \<Rightarrow> outcome list \<Rightarrow> sync_client \<times> 's \<Rightarrow> bool \<times> 's" where
  "push_outcomes srv now os st =
     (case st of (cl, s) \<Rightarrow>
        if now < cl_backoff_until cl \<or> os = [] then (False, s)
        else case srv os s of (Reply code retry body, s') \<Rightarrow> (code = 200, s') | (No_reply, s') \<Rightarrow> (False, s'))"

definition fetch_unsynced :: "nat \<Rightarrow> sync_db \<Rightarrow> sync_row list" where
  "fetch_unsynced limit db = take limit (sort_key sq_id (filter (\<lambda>r. \<not> sq_synced r) (sb_requests db)))"

definition mark_synced :: "nat list \<Rightarrow> sync_db \<Rightarrow> sync_db" where
  "mark_synced ids db = db\<lparr>sb_requests := update_where (\<lambda>r. sq_id r \<in> set ids) (\<lambda>r. r\<lparr>sq_synced := True\<rparr>) (sb_requests db)\<rparr>"

definition fetch_unsynced_outcomes :: "nat \<Rightarrow> sync_db \<Rightarrow> outcome_sync_row list" where
  "fetch_unsynced_outcomes limit db = take limit (sort_key so_id (filter (\<lambda>r. \<not> so_synced r) (sb_outcomes db)))"

definition mark_outcomes_synced :: "nat list \<Rightarrow> sync_db \<Rightarrow> sync_db" where
  "mark_outcomes_synced ids db = db\<lparr>sb_outcomes := update_where (\<lambda>r. so_id r \<in> set ids) (\<lambda>r. r\<lparr>so_synced := True\<rparr>) (sb_outcomes db)\<rparr>"

text \<open>\<open>marks\<close>: whether the transaction that marks the rows commits; \<open>None\<close> for the count is an exception.\<close>

definition sync_outcomes_once ::
    "(outcome list \<Rightarrow> 's \<Rightarrow> sync_reply \<times> 's) \<Rightarrow> real \<Rightarrow> bool \<Rightarrow> sync_client \<times> sync_db \<times> 's \<Rightarrow> nat option \<times> sync_client \<times> sync_db \<times> 's" where
  "sync_outcomes_once srv now marks st =
     (case st of (cl, db, s) \<Rightarrow>
        let rows = fetch_unsynced_outcomes SYNC_BATCH_SIZE db
        in if rows = [] then (Some 0, cl, db, s)
           else case push_outcomes srv now (map (outcome_row_to_payload \<circ> so_outcome) rows) (cl, s) of
                  (False, s') \<Rightarrow> (Some 0, cl, db, s')
                | (True, s') \<Rightarrow> if marks then (Some (length rows), cl, mark_outcomes_synced (map so_id rows) db, s')
                                else (None, cl, db, s'))"

definition sync_requests_once ::
    "sync_env \<Rightarrow> (wire_record list \<Rightarrow> 's \<Rightarrow> sync_reply \<times> 's) \<Rightarrow> real \<Rightarrow> bool \<Rightarrow> sync_client \<times> sync_db \<times> 's \<Rightarrow> nat option \<times> sync_client \<times> sync_db \<times> 's" where
  "sync_requests_once env srv now marks st =
     (case st of (cl, db, s) \<Rightarrow>
        let rows = fetch_unsynced SYNC_BATCH_SIZE db
        in if rows = [] then (Some 0, cl, db, s)
           else case those (map (row_to_payload env \<circ> sq_columns) rows) of
                  None \<Rightarrow> (None, cl, db, s)
                | Some records \<Rightarrow>
                    (case push_batch env srv now records (cl, s) of
                       (False, cl', s') \<Rightarrow> (Some 0, cl', db, s')
                     | (True, cl', s') \<Rightarrow>
                         if marks then (Some (length rows), cl'\<lparr>cl_last_sync_count := length rows\<rparr>, mark_synced (map sq_id rows) db, s')
                         else (None, cl', db, s')))"

text \<open>An exception of the outcome push is swallowed.\<close>

definition sync_once ::
    "sync_env \<Rightarrow> (outcome list \<Rightarrow> 's \<Rightarrow> sync_reply \<times> 's) \<Rightarrow> (wire_record list \<Rightarrow> 's \<Rightarrow> sync_reply \<times> 's) \<Rightarrow> real \<Rightarrow> bool \<Rightarrow> bool
       \<Rightarrow> sync_client \<times> sync_db \<times> 's \<Rightarrow> nat option \<times> sync_client \<times> sync_db \<times> 's" where
  "sync_once env osrv srv now omarks marks st = sync_requests_once env srv now marks (snd (sync_outcomes_once osrv now omarks st))"

definition get_unsynced_count :: "sync_db \<Rightarrow> nat" where
  "get_unsynced_count db = length (filter (\<lambda>r. \<not> sq_synced r) (sb_requests db))"

section \<open>Only what is allowed leaves\<close>

lemma posted_keys: "(k, v) \<in> set (posted_record env r) \<Longrightarrow> k \<in> SYNC_ALLOWED_FIELDS"
  by (auto simp: posted_record_def sanitize_record_def)

definition same_visible :: "sync_env \<Rightarrow> wire_record \<Rightarrow> wire_record \<Rightarrow> bool" where
  "same_visible env r r' \<longleftrightarrow>
     (\<forall>k \<in> set (SYNC_BASE_FIELDS @ PROMPT_SEGMENT_FIELDS). k \<noteq> ''system_prompt_hash'' \<longrightarrow> map_of r k = map_of r' k)
     \<and> (\<forall>d. pseudonymize_prompt_hash env (column r ''system_prompt_hash'' d) = pseudonymize_prompt_hash env (column r' ''system_prompt_hash'' d))
     \<and> rel_option (\<lambda>m m'. \<forall>t \<in> set CLOUD_SYNCED_TAGS. m t = m' t) (row_tags env r) (row_tags env r')"

lemma copied_fields:
  "(k, d) \<in> set COPIED_COLUMNS \<Longrightarrow> k \<in> set SYNC_BASE_FIELDS"
  by (auto simp: COPIED_COLUMNS_def SYNC_BASE_FIELDS_def)

lemma column_visible:
  assumes "same_visible env r r'" "k \<in> set (SYNC_BASE_FIELDS @ PROMPT_SEGMENT_FIELDS)" "k \<noteq> ''system_prompt_hash''"
  shows "column r k d = column r' k d"
  using assms by (simp add: same_visible_def column_def dict_get_def)

lemma posted_visible:
  assumes "same_visible env r r'"
  shows "map_option (posted_record env) (row_to_payload env r) = map_option (posted_record env) (row_to_payload env r')"
proof -
  have base: "\<And>k. k \<in> {''pricing_class'', ''source'', ''provider'', ''model''} \<Longrightarrow> column r k JNull = column r' k JNull"
    by (rule column_visible[OF assms]) (auto simp: SYNC_BASE_FIELDS_def)
  have cls: "row_pricing_class env r = row_pricing_class env r'"
    using base[of "''pricing_class''"] base[of "''source''"] base[of "''provider''"] base[of "''model''"]
    by (simp add: row_pricing_class_def Let_def)
  have seg: "column r k JNull = column r' k JNull" if "k \<in> set PROMPT_SEGMENT_FIELDS" for k
    by (rule column_visible[OF assms]) (use that in \<open>auto simp: PROMPT_SEGMENT_FIELDS_def\<close>)
  have copied: "posted_record env (map (\<lambda>(k, d). (k, column r k d)) COPIED_COLUMNS) = posted_record env (map (\<lambda>(k, d). (k, column r' k d)) COPIED_COLUMNS)"
    (is "?l = ?r")
  proof -
    have "posted_record env (map (\<lambda>(k, d). (k, column r k d)) xs) = posted_record env (map (\<lambda>(k, d). (k, column r' k d)) xs)"
      if "set xs \<subseteq> set COPIED_COLUMNS" for xs
      using that
    proof (induction xs)
      case (Cons x xs)
      obtain k d where x: "x = (k, d)" by fastforce
      have "k \<noteq> ''system_prompt_hash'' \<Longrightarrow> column r k d = column r' k d"
        using column_visible[OF assms, of k d] copied_fields[of k d] Cons.prems x by simp
      moreover have "pseudonymize_prompt_hash env (column r ''system_prompt_hash'' d) = pseudonymize_prompt_hash env (column r' ''system_prompt_hash'' d)"
        using assms by (simp add: same_visible_def)
      ultimately show ?case using Cons by (simp add: posted_record_def sanitize_record_def x)
    qed (simp add: posted_record_def)
    then show ?thesis by blast
  qed
  have app: "posted_record env (xs @ ys) = posted_record env xs @ posted_record env ys" for xs ys
    by (simp add: posted_record_def sanitize_record_def)
  have seg': "map (\<lambda>k. (k, let v = column r k JNull in if json_truthy v then v else JInt 0)) PROMPT_SEGMENT_FIELDS
      = map (\<lambda>k. (k, let v = column r' k JNull in if json_truthy v then v else JInt 0)) PROMPT_SEGMENT_FIELDS"
    using seg by simp
  show ?thesis
  proof (cases "row_tags env r")
    case None
    then show ?thesis using assms by (simp add: same_visible_def row_to_payload_def)
  next
    case (Some m)
    then obtain m' where m': "row_tags env r' = Some m'" "\<forall>t \<in> set CLOUD_SYNCED_TAGS. m t = m' t"
      using assms by (cases "row_tags env r'") (auto simp: same_visible_def)
    then have "map (\<lambda>t. (''tag_'' @ t, dict_get m t JNull)) CLOUD_SYNCED_TAGS = map (\<lambda>t. (''tag_'' @ t, dict_get m' t JNull)) CLOUD_SYNCED_TAGS"
      by (simp add: dict_get_def)
    then show ?thesis by (simp only: row_to_payload_def Some m'(1) option.map app cls seg' copied)
  qed
qed

definition same_db :: "sync_env \<Rightarrow> sync_db \<Rightarrow> sync_db \<Rightarrow> bool" where
  "same_db env a b \<longleftrightarrow> sb_outcomes a = sb_outcomes b
     \<and> list_all2 (\<lambda>x y. sq_id x = sq_id y \<and> sq_synced x = sq_synced y \<and> same_visible env (sq_columns x) (sq_columns y)) (sb_requests a) (sb_requests b)"

lemma list_all2_insort:
  "list_all2 R xs ys \<Longrightarrow> R x y \<Longrightarrow> (\<And>a b. R a b \<Longrightarrow> f a = g b) \<Longrightarrow> list_all2 R (insort_key f x xs) (insort_key g y ys)"
  by (induction xs ys rule: list_all2_induct) auto

lemma list_all2_sort:
  assumes "list_all2 R xs ys" "\<And>a b. R a b \<Longrightarrow> f a = g b"
  shows "list_all2 R (sort_key f xs) (sort_key g ys)"
  using assms(1) by (induction xs ys rule: list_all2_induct) (auto intro: list_all2_insort assms(2))

lemma list_all2_filter_same:
  "list_all2 R xs ys \<Longrightarrow> (\<And>a b. R a b \<Longrightarrow> p a = q b) \<Longrightarrow> list_all2 R (filter p xs) (filter q ys)"
  by (induction xs ys rule: list_all2_induct) auto

lemma fetch_same:
  assumes "same_db env a b"
  shows "list_all2 (\<lambda>x y. sq_id x = sq_id y \<and> sq_synced x = sq_synced y \<and> same_visible env (sq_columns x) (sq_columns y))
    (fetch_unsynced n a) (fetch_unsynced n b)"
  unfolding fetch_unsynced_def
  by (intro list_all2_takeI list_all2_sort list_all2_filter_same) (use assms in \<open>auto simp: same_db_def\<close>)

lemma those_map_same:
  assumes "list_all2 (\<lambda>x y. map_option g (f x) = map_option g (h y)) xs ys"
  shows "map_option (map g) (those (map f xs)) = map_option (map g) (those (map h ys))"
  using assms
proof (induction xs ys rule: list_all2_induct)
  case (Cons x xs y ys)
  then show ?case
    by (cases "f x"; cases "h y"; cases "those (map f xs)"; cases "those (map h ys)") auto
qed simp

lemma push_batch_same:
  assumes "map (posted_record env) rs = map (posted_record env) rs'"
  shows "push_batch env srv now rs st = push_batch env srv now rs' st"
proof -
  have "(rs = []) = (rs' = [])" using assms by (metis map_is_Nil_conv)
  then show ?thesis unfolding push_batch_def by (simp only: assms)
qed

lemma mark_same: "same_db env a b \<Longrightarrow> same_db env (mark_synced ids a) (mark_synced ids b)"
proof -
  assume s: "same_db env a b"
  have "list_all2 R (update_where p f xs) (update_where p f ys)"
    if "list_all2 R xs ys" "\<And>x y. R x y \<Longrightarrow> p x = p y" "\<And>x y. R x y \<Longrightarrow> R (f x) (f y)" for R p f and xs ys :: "sync_row list"
    using that(1) by (induction xs ys rule: list_all2_induct) (auto simp: update_where_def that(2,3))
  note keeps = this
  show ?thesis
    using s unfolding same_db_def mark_synced_def by (auto intro!: keeps simp: same_visible_def)
qed

text \<open>C29: 
  The hosted service learns nothing else: two proxies whose request tables agree in the allowed columns, in the allowed
  tags and in the keyed fingerprint of the prompt have the same conversation with the server, reply by reply, whatever
  their other columns and tags hold.
\<close>

theorem sync_noninterference:
  assumes "same_db env a b"
  shows "case (sync_once env osrv srv now om m (cl, a, s), sync_once env osrv srv now om m (cl, b, s)) of
    ((n, cl1, a', s1), (n', cl2, b', s2)) \<Rightarrow> n = n' \<and> cl1 = cl2 \<and> s1 = s2 \<and> same_db env a' b'"
proof -
  obtain k cla a1 sa where oa: "sync_outcomes_once osrv now om (cl, a, s) = (k, cla, a1, sa)" by (cases "sync_outcomes_once osrv now om (cl, a, s)") auto
  have out: "sb_outcomes a = sb_outcomes b" using assms by (simp add: same_db_def)
  have fo: "fetch_unsynced_outcomes n a = fetch_unsynced_outcomes n b" for n by (simp add: fetch_unsynced_outcomes_def out)
  obtain b1 where ob: "sync_outcomes_once osrv now om (cl, b, s) = (k, cla, b1, sa)" and same1: "same_db env a1 b1"
    using oa assms by (auto simp: sync_outcomes_once_def fo Let_def same_db_def mark_outcomes_synced_def split: if_splits prod.splits bool.splits)
  let ?ra = "fetch_unsynced SYNC_BATCH_SIZE a1" and ?rb = "fetch_unsynced SYNC_BATCH_SIZE b1"
  from fetch_same[OF same1] have rel: "list_all2 (\<lambda>x y. sq_id x = sq_id y \<and> sq_synced x = sq_synced y \<and> same_visible env (sq_columns x) (sq_columns y)) ?ra ?rb" .
  then have ids: "map sq_id ?ra = map sq_id ?rb" and len: "length ?ra = length ?rb" and nil: "(?ra = []) = (?rb = [])"
    by (auto simp: list_all2_conv_all_nth intro!: nth_equalityI)
  from rel have "list_all2 (\<lambda>x y. map_option (posted_record env) ((row_to_payload env \<circ> sq_columns) x) = map_option (posted_record env) ((row_to_payload env \<circ> sq_columns) y)) ?ra ?rb"
    by (rule list_all2_mono) (auto dest: posted_visible)
  from those_map_same[OF this] have wire: "map_option (map (posted_record env)) (those (map (row_to_payload env \<circ> sq_columns) ?ra))
      = map_option (map (posted_record env)) (those (map (row_to_payload env \<circ> sq_columns) ?rb))" .
  show ?thesis
  proof (cases "?ra = []")
    case True
    then show ?thesis using nil same1 by (simp add: sync_once_def oa ob sync_requests_once_def Let_def)
  next
    case False
    then have fb: "?rb \<noteq> []" using nil by simp
    show ?thesis
    proof (cases "those (map (row_to_payload env \<circ> sq_columns) ?ra)")
      case None
      then have "those (map (row_to_payload env \<circ> sq_columns) ?rb) = None" using wire by simp
      then show ?thesis using None False fb same1 by (simp add: sync_once_def oa ob sync_requests_once_def Let_def)
    next
      case (Some rs)
      then obtain rs' where rs': "those (map (row_to_payload env \<circ> sq_columns) ?rb) = Some rs'"
        "map (posted_record env) rs = map (posted_record env) rs'"
        using wire by (cases "those (map (row_to_payload env \<circ> sq_columns) ?rb)") auto
      obtain ok cl' s' where p: "push_batch env srv now rs (cla, sa) = (ok, cl', s')" by (cases "push_batch env srv now rs (cla, sa)") auto
      then have p': "push_batch env srv now rs' (cla, sa) = (ok, cl', s')" by (simp only: push_batch_same[OF rs'(2), symmetric])
      show ?thesis
        using mark_same[OF same1, of "map sq_id ?ra"] False fb same1
        by (cases ok) (simp_all add: sync_once_def oa ob sync_requests_once_def Let_def Some rs'(1) p p' ids len)
    qed
  qed
qed

section \<open>Draining the queue\<close>

lemma fetch_prefix: "fetch_unsynced n db = take n (fetch_unsynced (get_unsynced_count db) db)"
  by (simp add: fetch_unsynced_def get_unsynced_count_def)

lemma fetch_ids_pending:
  "r \<in> set (fetch_unsynced n db) \<Longrightarrow> r \<in> set (sb_requests db) \<and> \<not> sq_synced r"
  by (auto simp: fetch_unsynced_def dest: in_set_takeD)

lemma mark_filter:
  "filter (\<lambda>r. \<not> sq_synced r) (sb_requests (mark_synced ids db)) = filter (\<lambda>r. \<not> sq_synced r \<and> sq_id r \<notin> set ids) (sb_requests db)"
proof -
  have "filter (\<lambda>r. \<not> sq_synced r) (update_where (\<lambda>r. sq_id r \<in> set ids) (\<lambda>r. r\<lparr>sq_synced := True\<rparr>) rs)
      = filter (\<lambda>r. \<not> sq_synced r \<and> sq_id r \<notin> set ids) rs" for rs
    by (induction rs) (auto simp: update_where_def)
  then show ?thesis by (simp add: mark_synced_def)
qed

lemma mark_decreases:
  assumes "fetch_unsynced n db \<noteq> []"
  shows "get_unsynced_count (mark_synced (map sq_id (fetch_unsynced n db)) db) < get_unsynced_count db"
proof -
  from assms obtain r where r: "r \<in> set (fetch_unsynced n db)" by (cases "fetch_unsynced n db") auto
  then have "r \<in> set (filter (\<lambda>r. \<not> sq_synced r) (sb_requests db))" "sq_id r \<in> set (map sq_id (fetch_unsynced n db))"
    using fetch_ids_pending by auto
  then have "length (filter (\<lambda>r. sq_id r \<notin> set (map sq_id (fetch_unsynced n db))) (filter (\<lambda>r. \<not> sq_synced r) (sb_requests db)))
      < length (filter (\<lambda>r. \<not> sq_synced r) (sb_requests db))"
    by (intro length_filter_less[of r]) simp_all
  then show ?thesis by (simp add: get_unsynced_count_def mark_filter conj_commute)
qed

lemma sync_outcomes_requests [simp]:
  "sb_requests (fst (snd (snd (sync_outcomes_once osrv now om st)))) = sb_requests (fst (snd st))"
  by (cases st) (simp add: sync_outcomes_once_def Let_def mark_outcomes_synced_def split: prod.split bool.split)

lemma sync_once_progress:
  assumes "sync_once env osrv srv now om m (cl, db, s) = (Some n, cl', db', s')"
  shows "(n = 0 \<and> get_unsynced_count db' = get_unsynced_count db) \<or> (0 < n \<and> get_unsynced_count db' < get_unsynced_count db)"
proof -
  obtain k cl1 db1 s1 where o: "sync_outcomes_once osrv now om (cl, db, s) = (k, cl1, db1, s1)" by (cases "sync_outcomes_once osrv now om (cl, db, s)") auto
  have same: "get_unsynced_count db1 = get_unsynced_count db"
    using sync_outcomes_requests[of osrv now om "(cl, db, s)"] by (simp add: o get_unsynced_count_def)
  show ?thesis
    using assms mark_decreases[of SYNC_BATCH_SIZE db1] same
    by (auto simp: sync_once_def o sync_requests_once_def Let_def split: if_splits option.splits prod.splits bool.splits)
qed

text \<open>The loop of \<open>sync_now\<close> over the requests: it goes on while a full batch was pushed.\<close>

function sync_now_requests ::
    "sync_env \<Rightarrow> (outcome list \<Rightarrow> 's \<Rightarrow> sync_reply \<times> 's) \<Rightarrow> (wire_record list \<Rightarrow> 's \<Rightarrow> sync_reply \<times> 's) \<Rightarrow> real \<Rightarrow> bool \<Rightarrow> bool
       \<Rightarrow> nat \<Rightarrow> sync_client \<times> sync_db \<times> 's \<Rightarrow> nat option \<times> sync_client \<times> sync_db \<times> 's" where
  "sync_now_requests env osrv srv now om m pushed st =
     (case sync_once env osrv srv now om m st of
        (None, st') \<Rightarrow> (None, st')
      | (Some n, st') \<Rightarrow> if n < SYNC_BATCH_SIZE then (Some (pushed + n), st') else sync_now_requests env osrv srv now om m (pushed + n) st')"
  by pat_completeness auto
termination
proof (relation "measure (\<lambda>(env, osrv, srv, now, om, m, pushed, st). get_unsynced_count (fst (snd st)))", goal_cases)
  case (2 env osrv srv now om m pushed st x st' n)
  obtain cl db s where st: "st = (cl, db, s)" by (cases st)
  obtain cl' db' s' where st': "st' = (cl', db', s')" by (cases st')
  from 2 have "sync_once env osrv srv now om m (cl, db, s) = (Some n, cl', db', s')" "0 < n" by (auto simp: st st' SYNC_BATCH_SIZE_def)
  from sync_once_progress[OF this(1)] this(2) show ?case by (simp add: st st')
qed simp

declare sync_now_requests.simps [simp del]

lemma sync_once_partial_batch:
  assumes "sync_once env osrv srv now om m (cl, db, s) = (Some n, cl', db', s')" "0 < n" "n < SYNC_BATCH_SIZE"
  shows "get_unsynced_count db' = 0"
proof -
  obtain k cl1 db1 s1 where o: "sync_outcomes_once osrv now om (cl, db, s) = (k, cl1, db1, s1)" by (cases "sync_outcomes_once osrv now om (cl, db, s)") auto
  let ?rows = "fetch_unsynced SYNC_BATCH_SIZE db1"
  have n: "n = length ?rows \<and> db' = mark_synced (map sq_id ?rows) db1"
    using assms(1,2) by (auto simp: sync_once_def o sync_requests_once_def Let_def split: if_splits option.splits prod.splits bool.splits)
  then have "?rows = sort_key sq_id (filter (\<lambda>r. \<not> sq_synced r) (sb_requests db1))"
    using assms(3) by (simp add: fetch_unsynced_def)
  then have "set ?rows = set (filter (\<lambda>r. \<not> sq_synced r) (sb_requests db1))" by simp
  then have "\<forall>r \<in> set (sb_requests db1). \<not> sq_synced r \<longrightarrow> sq_id r \<in> set (map sq_id ?rows)" by auto
  then show ?thesis using n by (auto simp: get_unsynced_count_def mark_filter filter_empty_conv)
qed

text \<open>A server that takes every batch, with an empty body or a dictionary.\<close>

definition takes_all :: "(wire_record list \<Rightarrow> 's \<Rightarrow> sync_reply \<times> 's) \<Rightarrow> bool" where
  "takes_all srv \<longleftrightarrow> (\<forall>rs s. \<exists>retry body. fst (srv rs s) = Reply 200 retry body \<and> (case body of None \<Rightarrow> True | Some j \<Rightarrow> \<exists>kvs. j = JObj kvs))"

lemma sync_once_accepted:
  assumes "takes_all srv" "\<not> now < cl_backoff_until cl" "\<forall>r \<in> set (sb_requests db). row_to_payload env (sq_columns r) \<noteq> None"
    and "sync_once env osrv srv now om True (cl, db, s) = (n, cl', db', s')"
  shows "\<exists>k. n = Some k \<and> cl_backoff_until cl' = cl_backoff_until cl \<and> (k = 0 \<longrightarrow> get_unsynced_count db' = 0)
    \<and> (\<forall>r \<in> set (sb_requests db'). row_to_payload env (sq_columns r) \<noteq> None)"
proof -
  obtain k cl1 db1 s1 where o: "sync_outcomes_once osrv now om (cl, db, s) = (k, cl1, db1, s1)" by (cases "sync_outcomes_once osrv now om (cl, db, s)") auto
  have db1: "sb_requests db1 = sb_requests db" using sync_outcomes_requests[of osrv now om "(cl, db, s)"] by (simp add: o)
  have cl1: "cl1 = cl" using o by (auto simp: sync_outcomes_once_def Let_def split: if_splits prod.splits bool.splits)
  let ?rows = "fetch_unsynced SYNC_BATCH_SIZE db1"
  show ?thesis
  proof (cases "?rows = []")
    case True
    then have "sort_key sq_id (filter (\<lambda>r. \<not> sq_synced r) (sb_requests db1)) = []" by (simp add: fetch_unsynced_def SYNC_BATCH_SIZE_def)
    then have "length (sort_key sq_id (filter (\<lambda>r. \<not> sq_synced r) (sb_requests db1))) = 0" by (simp only: list.size)
    then have "get_unsynced_count db1 = 0" by (simp add: get_unsynced_count_def)
    then show ?thesis using assms(3,4) True db1 cl1 by (auto simp: sync_once_def o sync_requests_once_def Let_def)
  next
    case False
    have "row_to_payload env (sq_columns r) \<noteq> None" if "r \<in> set ?rows" for r
      using fetch_ids_pending[OF that] assms(3) db1 by auto
    then obtain rs where rs: "those (map (row_to_payload env \<circ> sq_columns) ?rows) = Some rs"
    proof -
      have "\<exists>ys. those (map f xs) = Some ys" if "\<forall>x \<in> set xs. f x \<noteq> None" for f and xs :: "sync_row list"
        using that by (induction xs) auto
      then show ?thesis using that \<open>\<And>r. r \<in> set ?rows \<Longrightarrow> row_to_payload env (sq_columns r) \<noteq> None\<close> by (metis comp_apply)
    qed
    have "length rs = length ?rows"
    proof -
      have "those ys = Some zs \<Longrightarrow> length zs = length ys" for ys and zs :: "wire_record list" by (induction ys arbitrary: zs) (auto split: option.splits)
      from this[OF rs] show ?thesis by simp
    qed
    then have "rs \<noteq> []" using False by auto
    obtain retry body s2 where srv: "srv (map (posted_record env) rs) s1 = (Reply 200 retry body, s2)" "case body of None \<Rightarrow> True | Some j \<Rightarrow> \<exists>kvs. j = JObj kvs"
      using assms(1) unfolding takes_all_def by (metis surjective_pairing)
    obtain cl2 where p: "push_batch env srv now rs (cl, s1) = (True, cl2, s2)" "cl_backoff_until cl2 = cl_backoff_until cl"
      using srv assms(2) \<open>rs \<noteq> []\<close> by (cases body) (auto simp: push_batch_def Let_def)
    have keep: "\<forall>r \<in> set (sb_requests (mark_synced ids db1)). row_to_payload env (sq_columns r) \<noteq> None" for ids
      using assms(3) db1 by (auto simp: mark_synced_def update_where_def)
    show ?thesis
      using assms(4) False keep p
      by (auto simp: sync_once_def o cl1 sync_requests_once_def Let_def rs)
  qed
qed

text \<open>
  A manual sync ends, and against a server that takes the batches it ends with nothing pending: every request that was
  in the table when it began is marked.
\<close>

theorem sync_now_drains:
  assumes "takes_all srv" "\<not> now < cl_backoff_until cl" "\<forall>r \<in> set (sb_requests db). row_to_payload env (sq_columns r) \<noteq> None"
  shows "\<exists>n cl' db' s'. sync_now_requests env osrv srv now om True k (cl, db, s) = (Some n, cl', db', s') \<and> get_unsynced_count db' = 0"
  using assms
proof (induction "get_unsynced_count db" arbitrary: cl db s k rule: less_induct)
  case less
  obtain n cl1 db1 s1 where once: "sync_once env osrv srv now om True (cl, db, s) = (n, cl1, db1, s1)" by (cases "sync_once env osrv srv now om True (cl, db, s)") auto
  from sync_once_accepted[OF less.prems once] obtain j where
    j: "n = Some j" "cl_backoff_until cl1 = cl_backoff_until cl" "j = 0 \<longrightarrow> get_unsynced_count db1 = 0"
      "\<forall>r \<in> set (sb_requests db1). row_to_payload env (sq_columns r) \<noteq> None" by blast
  show ?case
  proof (cases "j < SYNC_BATCH_SIZE")
    case True
    then have "get_unsynced_count db1 = 0" using sync_once_partial_batch[OF once[unfolded j(1)]] j(3) by (cases "j = 0") auto
    then show ?thesis using True by (subst sync_now_requests.simps) (simp add: once j(1))
  next
    case False
    then have "get_unsynced_count db1 < get_unsynced_count db"
      using sync_once_progress[OF once[unfolded j(1)]] by (auto simp: SYNC_BATCH_SIZE_def)
    from less.hyps[OF this less.prems(1) _ j(4), of cl1 "k + j" s1] less.prems(2) j(2) False
    show ?thesis by (subst sync_now_requests.simps) (simp add: once j(1))
  qed
qed

section \<open>Outcomes, end to end\<close>

text \<open>
  The hosted endpoint behind a client's key. \<open>fault\<close> is its database failing in the middle, \<open>lost\<close> the reply
  not arriving.
\<close>

definition outcome_server ::
    "(string \<Rightarrow> string) \<Rightarrow> instant \<Rightarrow> string option \<Rightarrow> nat option \<Rightarrow> bool \<Rightarrow> outcome list \<Rightarrow> cloud_outcome_db \<Rightarrow> sync_reply \<times> cloud_outcome_db" where
  "outcome_server sha t key fault lost os s =
     (case ingest_outcomes sha t None key os fault s of
        (res, s') \<Rightarrow> (if lost then No_reply
                      else case res of Inl (HTTP code detail) \<Rightarrow> Reply code None None | Inr p \<Rightarrow> Reply 200 None (Some (JObj [])), s'))"

text \<open>A cycle of the loop, what the proxy records and corrects in between, and other calls of the hosted API.\<close>

datatype sync_event =
    Sync_cycle real instant "nat option" bool bool bool "wire_record list \<Rightarrow> sync_reply"
  | Local_outcome nat outcome_row
  | Local_correction string string instant
  | Hosted_call outcome_call

fun sync_event_step ::
    "sync_env \<Rightarrow> (string \<Rightarrow> string) \<Rightarrow> sync_event \<Rightarrow> sync_client \<times> sync_db \<times> cloud_outcome_db \<Rightarrow> sync_client \<times> sync_db \<times> cloud_outcome_db" where
  "sync_event_step env sha (Sync_cycle now t fault lost om m reply) st =
     snd (sync_once env (outcome_server sha t (sy_api_key env) fault lost) (\<lambda>rs s. (reply rs, s)) now om m st)"
| "sync_event_step env sha (Local_outcome i r) (cl, db, s) =
     (cl, db\<lparr>sb_outcomes := sb_outcomes db @ [\<lparr>so_id = i, so_synced = False, so_outcome = r\<rparr>]\<rparr>, s)"
| "sync_event_step env sha (Local_correction oid status t) (cl, db, s) =
     (cl, db\<lparr>sb_outcomes := update_where (\<lambda>r. ow_outcome_id (so_outcome r) = oid)
        (\<lambda>r. r\<lparr>so_outcome := (so_outcome r)\<lparr>ow_status := status, ow_event_time := t\<rparr>\<rparr>) (sb_outcomes db)\<rparr>, s)"
| "sync_event_step env sha (Hosted_call c) (cl, db, s) = (cl, db, outcome_call_step sha c s)"

definition cloud_ids :: "cloud_outcome_db \<Rightarrow> string set" where
  "cloud_ids s = (\<lambda>r. ow_outcome_id (snd r)) ` set (co_outcomes s)"

lemma post_all_ids: "(\<lambda>r. ow_outcome_id (snd r)) ` set (snd st) \<subseteq> (\<lambda>r. ow_outcome_id (snd r)) ` set (snd (fold (post_outcome ws) os st))"
proof (induction os arbitrary: st)
  case (Cons oc os)
  have "(\<lambda>r. ow_outcome_id (snd r)) ` set (snd st) \<subseteq> (\<lambda>r. ow_outcome_id (snd r)) ` set (snd (post_outcome ws oc st))"
    by (cases st) (auto simp: post_outcome_def tenant_insert_def)
  with Cons.IH[of "post_outcome ws oc st"] show ?case by (auto intro: subset_trans)
qed simp

lemma ingest_keeps_ids: "cloud_ids s \<subseteq> cloud_ids (snd (ingest_outcomes sha t bk key os fault s))"
proof -
  have "cloud_ids s \<subseteq> (\<lambda>r. ow_outcome_id (snd r)) ` set (snd (fold (post_outcome ws) xs (0, co_outcomes s)))" for ws xs
    using post_all_ids[of "(0, co_outcomes s)" ws xs] by (simp add: cloud_ids_def)
  then show ?thesis
    by (simp add: ingest_outcomes_def Let_def split_beta cloud_ids_def split: option.split prod.split)
qed

lemma slice_ids: "ow_outcome_id ` set (slice ws t) \<subseteq> (\<lambda>r. ow_outcome_id (snd r)) ` set t"
  by (auto simp: slice_def)

lemma first_by_key_all: "key ` set (first_by key {} xs) = key ` set xs"
proof -
  have "key ` set (first_by key seen xs) \<union> seen = key ` set xs \<union> seen" for seen
  proof (induction xs arbitrary: seen)
    case (Cons a xs)
    show ?case using Cons.IH[of seen] Cons.IH[of "insert (key a) seen"] by (cases "key a \<in> seen") (simp_all, blast+)
  qed simp
  from this[of "{}"] show ?thesis by simp
qed

lemma ingest_accepted_ids:
  assumes "ingest_outcomes sha t bk key os fault s = (Inr p, s')"
  shows "oc_outcome_id ` set os \<subseteq> cloud_ids s'"
proof -
  let ?rows = "first_by oc_outcome_id {} os"
  from assms obtain ws n where w: "snd (fold (post_outcome ws) (case fault of None \<Rightarrow> ?rows | Some k \<Rightarrow> take k ?rows) (0, co_outcomes s)) = co_outcomes s'"
    "\<not> length (case fault of None \<Rightarrow> ?rows | Some k \<Rightarrow> take k ?rows) < length ?rows"
    by (auto simp: ingest_outcomes_def Let_def split_beta split: if_splits option.splits prod.splits)
  have all: "(case fault of None \<Rightarrow> ?rows | Some k \<Rightarrow> take k ?rows) = ?rows" using w(2) by (cases fault) (simp_all add: not_less)
  have "oc_outcome_id ` set ?rows \<subseteq> ow_outcome_id ` set (slice ws (co_outcomes s'))"
    using post_all_adds[of ?rows ws "(0, co_outcomes s)"] w(1) unfolding all by simp
  then show ?thesis using slice_ids[of ws "co_outcomes s'"] by (auto simp: cloud_ids_def first_by_key_all)
qed

lemma map_update_where: "(\<And>r. g (f r) = g r) \<Longrightarrow> map g (update_where p f t) = map g t"
  by (induction t) (auto simp: update_where_def)

lemma hosted_call_keeps_ids: "cloud_ids s \<subseteq> cloud_ids (outcome_call_step sha c s)"
proof (cases c)
  case (Post_call now bk key os fault)
  then show ?thesis using ingest_keeps_ids by (simp add: outcome_call_step_def)
next
  case (Patch_call now key oid status reason t)
  have ids: "(\<lambda>r. ow_outcome_id (snd r)) ` set (tenant_update w p (\<lambda>r. r\<lparr>ow_status := x, ow_event_time := y\<rparr>) u) = (\<lambda>r. ow_outcome_id (snd r)) ` set u"
    for w p x y and u :: "outcome_row tenant_table"
    unfolding tenant_update_def by (metis (no_types, lifting) list.set_map map_update_where outcome_row.select_convs(1) outcome_row.update_convs(3,6) outcome_row.surjective snd_conv)
  have "cloud_ids s \<subseteq> cloud_ids (snd (cloud_correct ws oid status reason t now (s\<lparr>co_keys := kd\<rparr>)))" for ws kd
    by (simp add: cloud_correct_def cloud_ids_def Let_def ids split: option.split)
  then have "cloud_ids s \<subseteq> cloud_ids s1" if "cloud_correct ws oid status reason t now (s\<lparr>co_keys := kd\<rparr>) = (b, s1)" for ws kd b s1
    using that by (metis snd_conv)
  then show ?thesis
    by (auto simp: Patch_call outcome_call_step_def correct_outcome_endpoint_def cloud_ids_def split: option.split prod.split bool.split)
qed

lemma outcome_server_facts:
  assumes "outcome_server sha t key fault lost os s = (r, s')"
  shows "cloud_ids s \<subseteq> cloud_ids s'" "r = Reply 200 retry body \<Longrightarrow> \<not> isl (fst (ingest_outcomes sha t None key os fault s)) \<or> (\<exists>d. fst (ingest_outcomes sha t None key os fault s) = Inl (HTTP 200 d))"
  using assms ingest_keeps_ids[of s sha t None key os fault]
  by (auto simp: outcome_server_def split: prod.splits sum.splits http_error.splits if_splits)

lemma ingest_no_200: "fst (ingest_outcomes sha t bk key os fault s) \<noteq> Inl (HTTP 200 d)"
  by (auto simp: ingest_outcomes_def Let_def split_beta split: option.split prod.split)

definition synced_in_cloud :: "sync_client \<times> sync_db \<times> cloud_outcome_db \<Rightarrow> bool" where
  "synced_in_cloud st \<longleftrightarrow> (case st of (cl, db, s) \<Rightarrow> \<forall>r \<in> set (sb_outcomes db). so_synced r \<longrightarrow> ow_outcome_id (so_outcome r) \<in> cloud_ids s)"

lemma fetch_outcomes_subset: "r \<in> set (fetch_unsynced_outcomes n db) \<Longrightarrow> r \<in> set (sb_outcomes db)"
  by (auto simp: fetch_unsynced_outcomes_def dest: in_set_takeD)

lemma sync_requests_outcomes [simp]:
  "sb_outcomes (fst (snd (snd (sync_requests_once env srv now m st)))) = sb_outcomes (fst (snd st))"
  by (cases st) (simp add: sync_requests_once_def Let_def mark_synced_def split: prod.split bool.split option.split)

lemma sync_requests_stateless [simp]: "snd (snd (snd (sync_requests_once env (\<lambda>rs s. (reply rs, s)) now m st))) = snd (snd st)"
  by (cases st) (simp add: sync_requests_once_def push_batch_def Let_def split: prod.split bool.split option.split sync_reply.split json.split)

lemma outcomes_once_in_cloud:
  assumes "synced_in_cloud (cl, db, s)" "pk so_id (sb_outcomes db)"
    and "sync_outcomes_once (outcome_server sha t key fault lost) now om (cl, db, s) = (n, cl', db', s')"
  shows "synced_in_cloud (cl', db', s') \<and> pk so_id (sb_outcomes db')"
proof -
  let ?rows = "fetch_unsynced_outcomes SYNC_BATCH_SIZE db"
  let ?os = "map (outcome_row_to_payload \<circ> so_outcome) ?rows"
  obtain r s1 where srv: "outcome_server sha t key fault lost ?os s = (r, s1)" by fastforce
  from outcome_server_facts(1)[OF srv] have mono: "cloud_ids s \<subseteq> cloud_ids s1" .
  have ids: "oc_outcome_id ` set ?os \<subseteq> cloud_ids s1" if "\<exists>retry body. r = Reply 200 retry body"
  proof -
    obtain res where res: "ingest_outcomes sha t None key ?os fault s = (res, s1)"
      using srv by (auto simp: outcome_server_def split: prod.splits)
    have "\<not> isl res" using outcome_server_facts(2)[OF srv] that ingest_no_200[of sha t None key ?os fault s] res by auto
    then obtain p where "res = Inr p" by (cases res) auto
    then show ?thesis using ingest_accepted_ids[of sha t None key ?os fault s p s1] res by simp
  qed
  have pk: "pk so_id (sb_outcomes (mark_outcomes_synced is db))" for "is"
  proof -
    have "map so_id (update_where (\<lambda>r. so_id r \<in> set is) (\<lambda>r. r\<lparr>so_synced := True\<rparr>) (sb_outcomes db)) = map so_id (sb_outcomes db)"
      by (rule map_update_where) simp
    then show ?thesis using assms(2) by (simp add: pk_def mark_outcomes_synced_def)
  qed
  have marked: "synced_in_cloud (cl, mark_outcomes_synced (map so_id ?rows) db, s1)" if "\<exists>retry body. r = Reply 200 retry body"
    unfolding synced_in_cloud_def prod.case
  proof (intro ballI impI)
    fix x assume x: "x \<in> set (sb_outcomes (mark_outcomes_synced (map so_id ?rows) db))" "so_synced x"
    then obtain y where y: "y \<in> set (sb_outcomes db)" "so_outcome x = so_outcome y" "so_synced y \<or> so_id y \<in> set (map so_id ?rows)"
      by (auto simp: mark_outcomes_synced_def update_where_def)
    show "ow_outcome_id (so_outcome x) \<in> cloud_ids s1"
    proof (cases "so_synced y")
      case True
      then show ?thesis using assms(1) y mono by (auto simp: synced_in_cloud_def)
    next
      case False
      then obtain z where z: "z \<in> set ?rows" "so_id z = so_id y" using y(3) by auto
      then have "z = y" using assms(2) y(1) fetch_outcomes_subset[OF z(1)] by (auto simp: pk_def distinct_map inj_on_def)
      then have "ow_outcome_id (so_outcome y) \<in> oc_outcome_id ` set ?os" using z(1) by (force simp: outcome_row_to_payload_def)
      then show ?thesis using ids[OF that] y(2) by auto
    qed
  qed
  show ?thesis
    using assms(1,2,3) marked pk mono
    by (auto simp: sync_outcomes_once_def push_outcomes_def srv Let_def synced_in_cloud_def split: if_splits prod.splits bool.splits sync_reply.splits)
qed

text \<open>Fresh row ids, as AUTOINCREMENT gives them.\<close>

fun fresh_event :: "sync_event \<Rightarrow> sync_db \<Rightarrow> bool" where
  "fresh_event (Local_outcome i r) db \<longleftrightarrow> i \<notin> so_id ` set (sb_outcomes db)"
| "fresh_event _ db \<longleftrightarrow> True"

fun fresh_events :: "sync_env \<Rightarrow> (string \<Rightarrow> string) \<Rightarrow> sync_event list \<Rightarrow> sync_client \<times> sync_db \<times> cloud_outcome_db \<Rightarrow> bool" where
  "fresh_events env sha [] st \<longleftrightarrow> True"
| "fresh_events env sha (e # es) st \<longleftrightarrow> fresh_event e (fst (snd st)) \<and> fresh_events env sha es (sync_event_step env sha e st)"

lemma sync_event_in_cloud:
  assumes "synced_in_cloud st" "pk so_id (sb_outcomes (fst (snd st)))" "fresh_event e (fst (snd st))"
  shows "synced_in_cloud (sync_event_step env sha e st) \<and> pk so_id (sb_outcomes (fst (snd (sync_event_step env sha e st))))"
proof -
  obtain cl db s where st: "st = (cl, db, s)" by (cases st)
  show ?thesis
  proof (cases e)
    case (Sync_cycle now t fault lost om m reply)
    let ?o = "sync_outcomes_once (outcome_server sha t (sy_api_key env) fault lost) now om (cl, db, s)"
    let ?r = "\<lambda>w. sync_requests_once env (\<lambda>rs s. (reply rs, s)) now m w"
    obtain n cl1 db1 s1 where o: "?o = (n, cl1, db1, s1)" by (cases ?o) auto
    from outcomes_once_in_cloud[OF _ _ o] assms st have one: "synced_in_cloud (cl1, db1, s1)" "pk so_id (sb_outcomes db1)" by auto
    obtain k cl2 db2 s2 where r: "?r (cl1, db1, s1) = (k, cl2, db2, s2)" by (cases "?r (cl1, db1, s1)") auto
    have "sb_outcomes db2 = sb_outcomes db1" "s2 = s1"
      using sync_requests_outcomes[of env "\<lambda>rs s. (reply rs, s)" now m "(cl1, db1, s1)"] sync_requests_stateless[of env reply now m "(cl1, db1, s1)"]
      unfolding r by simp_all
    then show ?thesis using one r by (simp add: Sync_cycle st sync_once_def o synced_in_cloud_def)
  next
    case (Local_outcome i r)
    then show ?thesis using assms by (auto simp: st synced_in_cloud_def pk_def)
  next
    case (Local_correction oid status t)
    have "map so_id (update_where (\<lambda>r. ow_outcome_id (so_outcome r) = oid)
        (\<lambda>r. r\<lparr>so_outcome := (so_outcome r)\<lparr>ow_status := status, ow_event_time := t\<rparr>\<rparr>) (sb_outcomes db)) = map so_id (sb_outcomes db)"
      by (rule map_update_where) simp
    moreover have "synced_in_cloud (sync_event_step env sha e st)"
      using assms(1) by (auto simp: Local_correction st synced_in_cloud_def update_where_def)
    ultimately show ?thesis using assms(2) by (simp add: Local_correction st pk_def)
  next
    case (Hosted_call c)
    then show ?thesis using assms hosted_call_keeps_ids[of s sha c] by (auto simp: st synced_in_cloud_def)
  qed
qed


section \<open>What the synchronisation loses\<close>

text \<open>Without calls other than the client's own.\<close>

fun own_event :: "sync_event \<Rightarrow> bool" where
  "own_event (Hosted_call c) \<longleftrightarrow> False"
| "own_event _ \<longleftrightarrow> True"

lemma post_keeps_lookup:
  "lookup_key ow_outcome_id oid (slice ws (snd st)) = Some r \<Longrightarrow> lookup_key ow_outcome_id oid (slice ws (snd (fold (post_outcome w) os st))) = Some r"
proof (induction os arbitrary: st)
  case (Cons oc os)
  have "lookup_key ow_outcome_id oid (slice ws (snd (post_outcome w oc st))) = Some r"
    using Cons.prems by (cases st) (auto simp: post_outcome_def slice_simps lookup_key_def find_append)
  from Cons.IH[OF this] show ?case by simp
qed simp

lemma ingest_keeps_lookup:
  assumes "lookup_key ow_outcome_id oid (slice ws (co_outcomes s)) = Some r"
  shows "lookup_key ow_outcome_id oid (slice ws (co_outcomes (snd (ingest_outcomes sha t bk key os fault s)))) = Some r"
  using post_keeps_lookup[of oid ws "(0, co_outcomes s)" r] assms
  by (simp add: ingest_outcomes_def Let_def split_beta split: option.split prod.split)

lemma cycle_cloud:
  "snd (snd (sync_event_step env sha (Sync_cycle now t fault lost om m reply) (cl, db, s))) = s
   \<or> (\<exists>os. snd (snd (sync_event_step env sha (Sync_cycle now t fault lost om m reply) (cl, db, s))) = snd (ingest_outcomes sha t None (sy_api_key env) os fault s)
        \<and> set os \<subseteq> (outcome_row_to_payload \<circ> so_outcome) ` set (sb_outcomes db))"
proof -
  let ?o = "sync_outcomes_once (outcome_server sha t (sy_api_key env) fault lost) now om (cl, db, s)"
  have "snd (snd (sync_event_step env sha (Sync_cycle now t fault lost om m reply) (cl, db, s))) = snd (snd (snd ?o))"
    by (simp add: sync_once_def)
  moreover have "snd (snd (snd ?o)) = s \<or> snd (snd (snd ?o)) = snd (ingest_outcomes sha t None (sy_api_key env)
      (map (outcome_row_to_payload \<circ> so_outcome) (fetch_unsynced_outcomes SYNC_BATCH_SIZE db)) fault s)"
    by (simp add: sync_outcomes_once_def push_outcomes_def outcome_server_def Let_def split_beta split: bool.split sync_reply.split sum.split http_error.split)
  moreover have "set (map (outcome_row_to_payload \<circ> so_outcome) (fetch_unsynced_outcomes SYNC_BATCH_SIZE db)) \<subseteq> (outcome_row_to_payload \<circ> so_outcome) ` set (sb_outcomes db)"
    using fetch_outcomes_subset by fastforce
  ultimately show ?thesis by metis
qed

text \<open>
  A correction made after the outcome was pushed never reaches the service: whatever is corrected locally and however
  often the loop runs, the hosted row stays the one that arrived first. The rows are marked once and for all, and the
  endpoint ignores known identifiers.
\<close>

theorem corrections_never_synced:
  assumes "list_all own_event es" "lookup_key ow_outcome_id oid (slice ws (co_outcomes s)) = Some r"
  shows "lookup_key ow_outcome_id oid (slice ws (co_outcomes (snd (snd (run_steps (sync_event_step env sha) es (cl, db, s)))))) = Some r"
proof -
  have step: "lookup_key ow_outcome_id oid (slice ws (co_outcomes (snd (snd (sync_event_step env sha e st))))) = Some r"
    if "own_event e" "lookup_key ow_outcome_id oid (slice ws (co_outcomes (snd (snd st)))) = Some r" for e st
  proof -
    obtain cl db s where st: "st = (cl, db, s)" by (cases st)
    show ?thesis
    proof (cases e)
      case (Sync_cycle now t fault lost om m reply)
      then show ?thesis
        using cycle_cloud[of env sha now t fault lost om m reply cl db s] that(2) ingest_keeps_lookup[of oid ws s r] by (auto simp: st)
    qed (use that in \<open>auto simp: st\<close>)
  qed
  have "list_all own_event es \<Longrightarrow> lookup_key ow_outcome_id oid (slice ws (co_outcomes (snd (snd st)))) = Some r
      \<Longrightarrow> lookup_key ow_outcome_id oid (slice ws (co_outcomes (snd (snd (run_steps (sync_event_step env sha) es st))))) = Some r" for st
    by (induction es arbitrary: st) (use step in auto)
  from this[of "(cl, db, s)"] assms show ?thesis by simp
qed

text \<open>C20: 
  The type of an outcome is lost on the way: the payload leaves it to the metadata, and the endpoint overwrites that
  entry with the default of a field it was not sent. Every outcome that a cycle adds to the cloud is unspecified there.
\<close>

theorem synced_types_lost:
  assumes "(ws, r) \<in> set (co_outcomes (snd (snd (sync_event_step env sha (Sync_cycle now t fault lost om m reply) (cl, db, s)))))"
    and "(ws, r) \<notin> set (co_outcomes s)"
  shows "metadata_type r = Some (JStr ''unspecified'')"
proof -
  have set_type: "metadata_type (cloud_outcome_columns (outcome_row_to_payload x)) = Some (JStr ''unspecified'')" for x
  proof -
    have "map_of (map (\<lambda>(k', v'). (k', if k' = k then v else v')) d) k = Some v" if "map_of d k \<noteq> None" for d :: "(string \<times> json) list" and k v
      using that by (induction d) (auto split: if_splits)
    then have "map_of (obj_set d k v) k = Some v" for d :: "(string \<times> json) list" and k v
      by (auto simp: obj_set_def map_add_def split: option.split)
    then show ?thesis by (simp add: metadata_type_def jfield_def cloud_outcome_columns_def outcome_row_to_payload_def Let_def)
  qed
  have post: "x \<in> set (snd (fold (post_outcome w) os st)) \<Longrightarrow> x \<in> set (snd st) \<or> (\<exists>oc \<in> set os. x = (w, cloud_outcome_columns oc))" for x w os st
  proof (induction os arbitrary: st)
    case (Cons oc os)
    have "x \<in> set (snd (post_outcome w oc st)) \<Longrightarrow> x \<in> set (snd st) \<or> x = (w, cloud_outcome_columns oc)"
      by (cases st) (auto simp: post_outcome_def tenant_insert_def split: if_splits)
    with Cons.IH[of "post_outcome w oc st"] Cons.prems show ?case by auto
  qed simp
  obtain os where os: "(ws, r) \<in> set (co_outcomes (snd (ingest_outcomes sha t None (sy_api_key env) os fault s)))"
    "set os \<subseteq> (outcome_row_to_payload \<circ> so_outcome) ` set (sb_outcomes db)"
    using cycle_cloud[of env sha now t fault lost om m reply cl db s] assms by auto
  have "\<exists>w xs. set xs \<subseteq> set os \<and> (ws, r) \<in> set (snd (fold (post_outcome w) xs (0, co_outcomes s)))"
  proof -
    have "set (case fault of None \<Rightarrow> first_by oc_outcome_id {} os | Some k \<Rightarrow> take k (first_by oc_outcome_id {} os)) \<subseteq> set os"
      using first_by_set[of oc_outcome_id "{}" os] by (cases fault) (auto dest: in_set_takeD)
    then show ?thesis using os(1) assms(2)
      by (auto simp: ingest_outcomes_def Let_def split_beta split: if_splits option.splits prod.splits)
  qed
  then obtain oc where "oc \<in> set os" "r = cloud_outcome_columns oc" using post assms(2) by fastforce
  then show ?thesis using os(2) set_type by auto
qed

text \<open>
  One outcome that the API does not accept stops them all: as long as it is among the first five hundred pending, the
  batch is refused as a whole, and every cycle sends the same batch again.
\<close>

theorem invalid_outcome_blocks:
  assumes "r \<in> set (fetch_unsynced_outcomes SYNC_BATCH_SIZE db)" "\<not> valid_outcome (outcome_row_to_payload (so_outcome r))"
    and "list_all (\<lambda>e. case e of Sync_cycle now t fault lost om m reply \<Rightarrow> True | _ \<Rightarrow> False) es"
  shows "sb_outcomes (fst (snd (run_steps (sync_event_step env sha) es (cl, db, s)))) = sb_outcomes db"
  using assms
proof (induction es arbitrary: cl db s)
  case (Cons e es)
  then obtain now t fault lost om m reply where e: "e = Sync_cycle now t fault lost om m reply" by (auto split: sync_event.splits)
  let ?os = "map (outcome_row_to_payload \<circ> so_outcome) (fetch_unsynced_outcomes SYNC_BATCH_SIZE db)"
  have "\<not> valid_batch ?os" using Cons.prems(1,2) by (auto simp: valid_batch_def list_all_iff)
  then have "\<not> fst (push_outcomes (outcome_server sha t (sy_api_key env) fault lost) now ?os (cl, s))"
    by (simp add: push_outcomes_def outcome_server_def ingest_outcomes_def)
  then have o: "fst (snd (snd (sync_outcomes_once (outcome_server sha t (sy_api_key env) fault lost) now om (cl, db, s)))) = db"
    by (auto simp: sync_outcomes_once_def Let_def split: prod.split bool.split)
  obtain cl' db' s' where st: "sync_event_step env sha e (cl, db, s) = (cl', db', s')" by (cases "sync_event_step env sha e (cl, db, s)")
  have "sb_outcomes (fst (snd (sync_event_step env sha e (cl, db, s)))) = sb_outcomes db"
    by (simp add: e sync_once_def o)
  then have db': "sb_outcomes db' = sb_outcomes db" by (simp add: st)
  then have "fetch_unsynced_outcomes SYNC_BATCH_SIZE db' = fetch_unsynced_outcomes SYNC_BATCH_SIZE db"
    by (simp add: fetch_unsynced_outcomes_def)
  then show ?case using Cons.IH[of db' cl' s'] Cons.prems db' by (simp add: st)
qed simp

section \<open>Witnesses\<close>

definition typed_row :: outcome_row where
  "typed_row = \<lparr>ow_outcome_id = ''o1'', ow_workflow_id = ''wf'', ow_status = ''accepted'', ow_business_value = None, ow_currency = None,
     ow_event_time = 0, ow_source = ''cli'', ow_metadata = [(''outcome_type'', JStr ''ticket'')]\<rparr>"

definition pending_db :: sync_db where
  "pending_db = \<lparr>sb_requests = [], sb_outcomes = [\<lparr>so_id = 1, so_synced = False, so_outcome = typed_row\<rparr>]\<rparr>"

definition demo_client :: sync_client where
  "demo_client = \<lparr>cl_running = True, cl_backoff_until = 0, cl_routing =
     \<lparr>budget_downgrade = False, downgrade_threshold_pct = 80, downgrade_threshold_usd = 0, global_usd = None, budget_limit_usd = None,
      team_limits = Map.empty, customer_limits = Map.empty, customer_default = None\<rparr>, cl_last_sync_count = 0\<rparr>"

definition demo_sync_env :: sync_env where
  "demo_sync_env = \<lparr>sy_hmac = (\<lambda>k m. m), sy_str = (\<lambda>j. []), sy_loads = (\<lambda>t. None), sy_int = (\<lambda>t. None), sy_float = (\<lambda>j. None),
     sy_prices = openai_env, sy_api_key = Some ''k''\<rparr>"

abbreviation (input) offline_cycle :: sync_event where
  "offline_cycle \<equiv> Sync_cycle 1 5 None True True True (\<lambda>rs. No_reply)"


definition arrived_cloud :: cloud_outcome_db where
  "arrived_cloud = fresh_outcomes\<lparr>co_outcomes := [(''w'', typed_row)]\<rparr>"

theorem corrections_never_synced_witness:
  "lookup_key ow_outcome_id ''o1'' (slice ''w'' (co_outcomes (snd (snd
     (run_steps (sync_event_step demo_sync_env demo_sha) [Local_correction ''o1'' ''failed'' 9, offline_cycle] (demo_client, pending_db, arrived_cloud)))))) = Some typed_row"
  by (rule corrections_never_synced) (simp_all add: arrived_cloud_def lookup_key_def slice_def typed_row_def)

lemma typed_cycle:
  "co_outcomes (snd (snd (sync_event_step demo_sync_env demo_sha (Sync_cycle 1 5 None False True True (\<lambda>rs. No_reply)) (demo_client, pending_db, fresh_outcomes))))
   = [(''w'', cloud_outcome_columns (outcome_row_to_payload typed_row))]"
proof -
  have "valid_batch [outcome_row_to_payload typed_row]"
    by (simp add: valid_batch_def valid_outcome_def outcome_row_to_payload_def typed_row_def text_field_def OUTCOME_STATUSES_def)
  then have "ingest_outcomes demo_sha 5 None (Some ''k'') [outcome_row_to_payload typed_row] None fresh_outcomes
      = (Inr \<lparr>po_accepted = 1, po_duplicates = 0\<rparr>, fresh_outcomes\<lparr>co_outcomes := [(''w'', cloud_outcome_columns (outcome_row_to_payload typed_row))]\<rparr>)"
    by (simp add: ingest_outcomes_def py_or_def fresh_outcomes_def warm_lookup post_outcome_def tenant_insert_def)
  then show ?thesis
    by (simp add: sync_once_def sync_outcomes_once_def sync_requests_once_def fetch_unsynced_outcomes_def fetch_unsynced_def pending_db_def SYNC_BATCH_SIZE_def
        push_outcomes_def outcome_server_def demo_sync_env_def demo_client_def mark_outcomes_synced_def Let_def)
qed

theorem synced_types_lost_witness:
  "metadata_type (cloud_outcome_columns (outcome_row_to_payload typed_row)) = Some (JStr ''unspecified'')"
  by (rule synced_types_lost[of "''w''" _ demo_sync_env demo_sha 1 5 None False True True "\<lambda>rs. No_reply" demo_client pending_db fresh_outcomes])
    (simp_all only: typed_cycle, simp_all add: fresh_outcomes_def)

definition private_db :: "string \<Rightarrow> sync_db" where
  "private_db code = \<lparr>sb_requests = [\<lparr>sq_id = 1, sq_synced = False, sq_columns =
     [(''tags'', JObj [(''team'', JStr ''core''), (''repo'', JStr code)]), (''prompt_user_tokens'', JInt (int (length code)))]\<rparr>], sb_outcomes = []\<rparr>"

theorem sync_noninterference_witness:
  "case (sync_once demo_sync_env (\<lambda>os s. (No_reply, s)) (\<lambda>rs s. (No_reply, rs # s)) 1 True True (demo_client, private_db ''a'', []),
         sync_once demo_sync_env (\<lambda>os s. (No_reply, s)) (\<lambda>rs s. (No_reply, rs # s)) 1 True True (demo_client, private_db ''secret'', [])) of
    ((n, cl1, a', s1), (n', cl2, b', s2)) \<Rightarrow> n = n' \<and> cl1 = cl2 \<and> s1 = s2 \<and> same_db demo_sync_env a' b'"
proof (rule sync_noninterference)
  have "same_visible demo_sync_env [(''tags'', JObj [(''team'', JStr ''core''), (''repo'', JStr ''a'')]), (''prompt_user_tokens'', JInt 1)]
      [(''tags'', JObj [(''team'', JStr ''core''), (''repo'', JStr ''secret'')]), (''prompt_user_tokens'', JInt 6)]"
    by (simp add: same_visible_def SYNC_BASE_FIELDS_def PROMPT_SEGMENT_FIELDS_def CLOUD_SYNCED_TAGS_def row_tags_def column_def dict_get_def)
  then show "same_db demo_sync_env (private_db ''a'') (private_db ''secret'')" by (simp add: same_db_def private_db_def)
qed

theorem sync_now_drains_witness:
  "\<exists>n cl' db' s'. sync_now_requests demo_sync_env (\<lambda>os s. (No_reply, s)) (\<lambda>rs s. (Reply 200 None None, rs # s)) 1 True True 0
     (demo_client, private_db ''a'', []) = (Some n, cl', db', s') \<and> get_unsynced_count db' = 0"
  by (rule sync_now_drains)
    (simp_all add: takes_all_def demo_client_def private_db_def row_to_payload_def row_tags_def column_def dict_get_def)

end
