(* ===== verification/Spec2Isabelle.thy ===== *)
theory Spec2Isabelle
  imports Forwarding Semantic_Cache Economics_Overview Anomaly Alerts Persistence Guardrails Governance Execution Autonomy
    Rate_Limit Second_Factor Action_Tokens Teams Billing Cloud_Findings
    Reconciliation Cloud_Settings Cloud_Sync
begin

text \<open>
  \<^bold>\<open>BurnLens: a verification development.\<close>

  BurnLens is a proxy in front of LLM providers. It prices every request, enforces budgets before it
  forwards, settles them after the answer, logs each request durably, and has a control plane for
  autonomous agents (guardrails, governance, approvals, trust, verified savings). A hosted service collects
  the records of many proxies, with accounts, API keys, quotas, teams and billing. This development models
  the decision logic of the Python packages under \<open>src/burnlens\<close> and \<open>src/burnlens_cloud\<close> and
  proves the properties its budgets, approvals, credentials and quotas rest on.

  \<^bold>\<open>How the parts interact.\<close> A request enters \<open>handle_request\<close>
  (\<open>proxy/interceptor.py\<close>). Its tags come from headers; a virtual key is resolved and its team budget
  checked against the request log; the daily cap of the API key and the monthly limit of the customer are
  checked through small time-to-live caches; the router may replace the model by a cheaper one; the budget
  engine reserves an estimate on the counters of all matching policies. What is left is sent upstream with
  retries; the answer's usage is priced, the reservation reconciled, and a record appended to the
  write-ahead log, from where a worker inserts it into the request log that the next checks read. The control
  plane works on its own tables: agents report events to the guardrails, propose actions to the governance
  engine, execute approved changes through the execution service, and the autonomy loop combines trust,
  canaries and savings verification.

  In the hosted service a request passes the rate limiter first. People sign in with a password and, where it
  is switched on, a second factor, and get a session token that carries workspace and role; proxies send
  batches under an API key, which is looked up through a cache, checked against the quotas that the plan and
  the workspace's overrides resolve to, stored, and counted in the usage row of the billing cycle. Paddle's
  webhooks set the plan and open the cycles; links in e-mails carry one-time tokens (password reset,
  verification, invitations, one-click actions).

  \<^bold>\<open>Theories and sources.\<close>
  \<^item> \<open>BL_Prelude\<close>: money, rounding, Python strings and truth values, JSON values, SQL tables as row lists
    (insert-or-replace, insert-or-ignore, update-where), the locales \<open>keyed_store\<close> and
    \<open>absorbing_system\<close> that the components interpret.
  \<^item> \<open>Calendar\<close>: civil dates, week days, midnights (the datetime operations the sources use).
  \<^item> \<open>Pricing\<close>, \<open>Cost\<close>: \<open>providers/registry.py\<close>, \<open>cost/pricing.py\<close>,
    \<open>cost/calculator.py\<close>. Dated, tiered and prefix lookups are three interpretations of one locale of
    best-candidate loops.
  \<^item> \<open>Ledger\<close>: the request table and its spend queries (\<open>storage/database.py\<close>), the contract
    \<open>ttl_cache\<close> of the spend caches.
  \<^item> \<open>Budget_Engine\<close>: \<open>budget_engine.py\<close>; the locale \<open>charge_ledger\<close> carries the arithmetic of
    reservations, \<open>budget_reach\<close> is the step relation of interleaved requests.
  \<^item> \<open>Key_Budget\<close>, \<open>Virtual_Keys\<close>, \<open>Router\<close>: \<open>keys.py\<close>, \<open>key_budget.py\<close>,
    \<open>virtual_keys.py\<close>, \<open>proxy/router.py\<close>, \<open>providers/downgrade.py\<close>.
  \<^item> \<open>Headers\<close>, \<open>Gateway\<close>, \<open>Forwarding\<close>: \<open>proxy/interceptor.py\<close> and the provider
    plugins: header handling, the gates in the order of the code, then retries, settlement and logging.
  \<^item> \<open>Streaming\<close>, \<open>Semantic_Cache\<close>: \<open>proxy/streaming.py\<close> with the stream accumulators and
    tool-call counters of the provider plugins; \<open>cache/manager.py\<close> with its use by the interceptor, where
    \<open>cache_probe\<close> is what \<open>handle_request\<close> takes as the answer of the cache.
  \<^item> \<open>Persistence\<close>: \<open>storage/wal.py\<close> with the start and stop sequence of \<open>proxy/server.py\<close>;
    \<open>wal_reach\<close> is the step relation over appends, worker steps, crashes and restarts.
  \<^item> \<open>Request_Links\<close>, \<open>Outcomes\<close>, \<open>Agent_Economics\<close>: the insertion of request records with
    their causal links and the outcome tables (\<open>storage/database.py\<close>), \<open>outcomes.py\<close>,
    \<open>storage/agent_economics.py\<close>. Recursive SQL queries are one function with a termination measure.
  \<^item> \<open>Waste\<close>, \<open>Findings\<close>, \<open>Economics_Overview\<close>: \<open>analysis/waste.py\<close>,
    \<open>storage/findings.py\<close>, \<open>analysis/economics.py\<close> and the pass of \<open>detection/scheduler.py\<close>
    that connects them.
  \<^item> \<open>Anomaly\<close>, \<open>Alerts\<close>: \<open>detection/anomaly.py\<close>, \<open>alerts/engine.py\<close> with
    \<open>analysis/budget.py\<close>: the loop and window detectors with their stored alert rows, the budget alerts with
    their in-memory deduplication.
  \<^item> \<open>Guardrails\<close>, \<open>Governance\<close>, \<open>Execution\<close>, \<open>Trust\<close>,
    \<open>Savings_Verification\<close>, \<open>Autonomy\<close>: the packages \<open>guardrails\<close>, \<open>governance\<close>,
    \<open>execution\<close>, \<open>trust\<close>, \<open>verification\<close> and \<open>autonomy\<close>.

  \<^item> \<open>Rate_Limit\<close>, \<open>Pii_Crypto\<close>, \<open>Plans\<close>: \<open>burnlens_cloud/rate_limit.py\<close>,
    \<open>pii_crypto.py\<close>, \<open>plans.py\<close> with the role and feature gates of \<open>auth.py\<close>. The limiter
    is refined against a full log of accepted requests.
  \<^item> \<open>Api_Keys\<close>, \<open>Sessions\<close>, \<open>Second_Factor\<close>, \<open>Accounts\<close>: \<open>auth.py\<close>,
    \<open>api_keys_api.py\<close>, \<open>totp.py\<close>, \<open>totp_api.py\<close>. Each has an event type over its whole
    endpoints; revocation, replay and single use are interpretations of \<open>absorbing_system\<close>.
  \<^item> \<open>Action_Tokens\<close>, \<open>Teams\<close>: \<open>action_tokens.py\<close>, \<open>actions_api.py\<close>,
    \<open>team_api.py\<close>.
  \<^item> \<open>Cloud_Ingest\<close>, \<open>Billing\<close>: \<open>ingest.py\<close>, \<open>billing.py\<close>.
  \<^item> \<open>Tenancy\<close>, \<open>Cloud_Outcomes\<close>, \<open>Cloud_Findings\<close>: \<open>outcomes_api.py\<close>,
    \<open>findings.py\<close>, \<open>findings_api.py\<close>. Both stores interpret the locale \<open>tenant_system\<close>, whose
    specification is the local store of the proxy, one run of it per workspace.
  \<^item> \<open>Reconciliation\<close>: \<open>reconciliation.py\<close>, the daily comparison with the providers' bills and the
    cost-confidence report.

  \<^item> \<open>Cloud_Alerts\<close>, \<open>Cloud_Settings\<close>: \<open>alert_engine.py\<close>, \<open>alerts_api.py\<close>,
    \<open>settings_api.py\<close>, \<open>encryption.py\<close> and the package \<open>compliance\<close>; the connection pool is
    part of the settings state, because some endpoints never give a connection back.
  \<^item> \<open>Cloud_Sync\<close>: \<open>burnlens/cloud/sync.py\<close>, the client of the hosted service, composed with
    \<open>ingest_outcomes\<close> of \<open>Cloud_Outcomes\<close>.

  \<^bold>\<open>Modelling conventions.\<close> Dataclasses are records, enums datatypes, one definition per
  function with the source's name. State is passed explicitly; a database is a record of its tables, a table
  the list of its rows, a rolled-back transaction the unchanged table. Exceptions are \<open>None\<close>, a sum or a
  constructor of the outcome type. Amounts are real numbers: floating-point rounding is not modelled, the
  explicit \<open>round\<close> calls are. SHA-256, HMAC, random tokens, clock readings, time-zone conversion, the
  environment and the upstream are arguments. Where a lookup may fail, the failure is an argument too, so
  that fail-open and fail-closed branches are both covered.

  \<^bold>\<open>What the lemmas show.\<close> Each theory has the invariant of its state and the effect of each
  operation on every branch, then the properties. Budgets: reservations stay within limits, refusals are
  justified, counters are conserved under every interleaving, forwarded requests were below every cap,
  settlement charges exactly the actual cost. Streams and cache: a stream's usage is the usage of its final
  chunk, a cache hit is justified by an intact live row. Keys: revocation is final, the cached cap decides like the
  ledger. Economics: links stay acyclic, every
  outcome is explained by its history, roll-ups count a run once, a detector never reports more than was spent, a
  saving is verified only by cheaper requests and credited once per change. Durability: no record is lost or counted twice in orderly runs. Control plane: stopped tasks stay
  stopped, DENY wins, approvals work once and only for what was approved, autonomy needs evidence. Hosted
  service: revoked keys, spent codes and used links stay refused under every later history, wrong codes are
  bounded, quotas bound the counted requests, warnings are sent once, a workspace keeps an owner, repeated
  webhooks change nothing, outcomes and findings of a workspace are a local run over its own events, a provider
  counts as reconciled only on evidence for every day. Alerts: the loop detector counts exactly, the same anomaly
  is stored at most once an hour, a budget alert is sent once per period by checks that do not overlap; hosted alerts fire at most once a day and only above their
  threshold, and their links act on their own workspace. Retention deletes exactly what is due, a budget that is set
  is enforced. Synchronisation sends the allowed columns only, marks nothing the service has not stored, and ends. Where the
  code deviates from its documentation the deviation is itself a theorem (for example
  \<open>connect_failure_keeps_reservation\<close>, \<open>wal_path_cap_stale\<close>, \<open>unreported_stream_is_free\<close>, \<open>old_traffic_reopens\<close>).

  \<^bold>\<open>Termination and bounds.\<close> Every definition is total; the retry loop, the glob parser, the batched
  deletions, the manual synchronisation and the recursive queries have measures, no fuel is used.

  \<^bold>\<open>Not modelled.\<close> Presentation and I/O (command line, dashboards, HTTP server set-up, notification
  and e-mail delivery, log scanners, telemetry export), schema migrations and reporting queries, the embedding
  service behind the semantic cache, the agent API front ends; of the hosted service OAuth logins, the dashboards,
  and the parts of billing that only relay Paddle's answers.
\<close>

end
